(* ===== verification/Rpma_Prelude.thy ===== *)
theory Rpma_Prelude
  imports Main "HOL-Library.Word" "HOL-Library.Multiset" "HOL-Library.Monad_Syntax"
begin

text \<open>
  What every component of the librpma development shares:
  \<^item> the machine types of the C code (\<open>u8\<close>, \<open>u32\<close>, \<open>u64\<close>, \<open>c_int\<close> for a C
    \<open>int\<close> used as a bit mask, \<open>ptr\<close> for a pointer or an opaque provider handle, with
    0 as \<open>NULL\<close>) and the return codes of \<open>src/src/include/librpma.h\<close>;
  \<^item> computations that can hit undefined behaviour: \<open>('a \<times> 's) option\<close>, where \<open>None\<close> is a
    dereference of \<open>NULL\<close> or of freed memory, a double free or a free of memory that was
    never allocated. They are chained with the do-notation of \<open>Option.bind\<close>, the state
    being passed explicitly;
  \<^item> \<open>wp\<close>, the weakest precondition of such a computation (total: it excludes \<open>None\<close>),
    with the rules that execute a program symbolically;
  \<^item> little-endian byte strings of machine words, as \<open>htole64\<close> plus \<open>memcpy\<close> produce them,
    and the multiset facts of the resource ledger.
\<close>

unbundle bit_operations_syntax

subsection \<open>Machine types\<close>

type_synonym u8 = "8 word"
type_synonym u32 = "32 word"
type_synonym u64 = "64 word"
type_synonym c_int = "32 word"
type_synonym ptr = nat
type_synonym rc = int

abbreviation (input) NULL :: ptr where
  "NULL \<equiv> 0"

subsection \<open>Return codes\<close>

definition RPMA_E_UNKNOWN :: rc where "RPMA_E_UNKNOWN = - 100000"
definition RPMA_E_NOSUPP :: rc where "RPMA_E_NOSUPP = - 100001"
definition RPMA_E_PROVIDER :: rc where "RPMA_E_PROVIDER = - 100002"
definition RPMA_E_NOMEM :: rc where "RPMA_E_NOMEM = - 100003"
definition RPMA_E_INVAL :: rc where "RPMA_E_INVAL = - 100004"
definition RPMA_E_NO_COMPLETION :: rc where "RPMA_E_NO_COMPLETION = - 100005"
definition RPMA_E_NO_EVENT :: rc where "RPMA_E_NO_EVENT = - 100006"
definition RPMA_E_AGAIN :: rc where "RPMA_E_AGAIN = - 100007"
definition RPMA_E_SHARED_CHANNEL :: rc where "RPMA_E_SHARED_CHANNEL = - 100008"
definition RPMA_E_NOT_SHARED_CHNL :: rc where "RPMA_E_NOT_SHARED_CHNL = - 100009"

lemmas rpma_errors = RPMA_E_UNKNOWN_def RPMA_E_NOSUPP_def RPMA_E_PROVIDER_def RPMA_E_NOMEM_def
  RPMA_E_INVAL_def RPMA_E_NO_COMPLETION_def RPMA_E_NO_EVENT_def RPMA_E_AGAIN_def
  RPMA_E_SHARED_CHANNEL_def RPMA_E_NOT_SHARED_CHNL_def

declare rpma_errors [simp]

subsection \<open>Weakest preconditions\<close>

definition wp :: "('a \<times> 's) option \<Rightarrow> ('a \<Rightarrow> 's \<Rightarrow> bool) \<Rightarrow> bool" where
  "wp m Q = (case m of None \<Rightarrow> False | Some (r, s) \<Rightarrow> Q r s)"

named_theorems wp_simps \<open>rewrite rules that push wp through a program\<close>
named_theorems wp_specs \<open>specifications of called operations, as introduction rules for wp\<close>

declare Option.bind_assoc [simp del]

lemma wp_Some [simp, wp_simps]: "wp (Some (r, s)) Q = Q r s"
  by (simp add: wp_def)

lemma wp_None [simp, wp_simps]: "wp None Q = False"
  by (simp add: wp_def)

lemma wp_bind [simp, wp_simps]:
  "wp (Option.bind m (case_prod f)) Q = wp m (\<lambda>r s. wp (f r s) Q)"
  by (cases m) (auto simp: wp_def split: option.splits)

lemma case_prod_apply [simp]: "(case r of (a, b) \<Rightarrow> f a b) s = (case r of (a, b) \<Rightarrow> f a b s)"
  by (simp split: prod.split)

lemma wp_case_prod [simp, wp_simps]:
  "wp (case r of (a, b) \<Rightarrow> f a b) Q = (case r of (a, b) \<Rightarrow> wp (f a b) Q)"
  by (simp split: prod.split)

lemma wp_if [simp, wp_simps]: "wp (if b then m else n) Q = (if b then wp m Q else wp n Q)"
  by simp

lemma wp_let [simp, wp_simps]: "wp (let x = a in f x) Q = wp (f a) Q"
  by simp

lemma wp_mono:
  assumes "wp m Q" and "\<And>r s. Q r s \<Longrightarrow> Q' r s"
  shows "wp m Q'"
  using assms by (cases m) (auto simp: wp_def)

lemma wp_conj: "wp m Q \<Longrightarrow> wp m Q' \<Longrightarrow> wp m (\<lambda>r s. Q r s \<and> Q' r s)"
  by (cases m) (auto simp: wp_def)

lemma wp_result: "wp m Q \<Longrightarrow> \<exists>r s. m = Some (r, s) \<and> Q r s"
  by (auto simp: wp_def split: option.splits)

lemma wp_SomeD: "wp m Q \<Longrightarrow> m = Some (r, s) \<Longrightarrow> Q r s"
  by (simp add: wp_def)

subsection \<open>Multisets\<close>

lemma mset_sub_diffI: "A + B \<subseteq># M \<Longrightarrow> B \<subseteq># M - A"
proof (rule mset_subset_eqI)
  fix x
  assume "A + B \<subseteq># M"
  then have "count (A + B) x \<le> count M x"
    by (rule mset_subset_eq_count)
  then show "count B x \<le> count (M - A) x" by simp
qed

lemma mset_sub_leftD: "A + B \<subseteq># M \<Longrightarrow> A \<subseteq># M"
  by (rule subset_mset.trans [OF mset_subset_eq_add_left])

lemma mset_diff_add_cancel: "A \<subseteq># M \<Longrightarrow> M - A + A = (M :: 'a multiset)"
  by simp

subsection \<open>Maps\<close>

lemma fun_upd_same_iff [simp]: "f(x := a) = f(x := b) \<longleftrightarrow> a = b"
  by (metis fun_upd_same)

lemma fun_upd_None_id [simp]: "m x = None \<Longrightarrow> m(x := None) = m"
  by auto

subsection \<open>Little-endian bytes of a word\<close>

primrec le_bytes :: "nat \<Rightarrow> 'a::len word \<Rightarrow> u8 list" where
  "le_bytes 0 w = []"
| "le_bytes (Suc n) w = ucast w # le_bytes n (drop_bit 8 w)"

primrec le_val :: "u8 list \<Rightarrow> 'a::len word" where
  "le_val [] = 0"
| "le_val (b # bs) = ucast b OR push_bit 8 (le_val bs)"

lemma length_le_bytes [simp]: "length (le_bytes n w) = n"
  by (induction n arbitrary: w) auto

lemma le_val_le_bytes: "le_val (le_bytes n w) = take_bit (8 * n) (w :: 'a::len word)"
proof (induction n arbitrary: w)
  case 0
  then show ?case by simp
next
  case (Suc n)
  show ?case
    by (rule bit_word_eqI) (auto simp: Suc bit_simps not_less)
qed

lemma le_val_le_bytes_full:
  "LENGTH('a) \<le> 8 * n \<Longrightarrow> le_val (le_bytes n w) = (w :: 'a::len word)"
  by (simp add: le_val_le_bytes take_bit_word_eq_self)

lemma le_bytes_le_val:
  "8 * length bs \<le> LENGTH('a) \<Longrightarrow> le_bytes (length bs) (le_val bs :: 'a::len word) = bs"
proof (induction bs)
  case Nil
  then show ?case by simp
next
  case (Cons b bs)
  have hd: "ucast (ucast b OR push_bit 8 (le_val bs) :: 'a word) = b"
    using Cons.prems by (intro bit_word_eqI) (auto simp: bit_simps)
  have "drop_bit 8 (ucast b OR push_bit 8 (le_val bs) :: 'a word)
          = take_bit (LENGTH('a) - 8) (le_val bs)"
    by (rule bit_word_eqI) (auto simp: bit_simps dest: bit_imp_le_length)
  moreover have "le_bytes (length bs) (take_bit (LENGTH('a) - 8) (le_val bs :: 'a word)) = bs"
  proof -
    have "le_bytes n (take_bit m w) = le_bytes n w" if "8 * n \<le> m" for n m and w :: "'a word"
      using that
    proof (induction n arbitrary: m w)
      case 0
      then show ?case by simp
    next
      case (Suc n)
      have "ucast (take_bit m w) = (ucast w :: u8)"
        using Suc.prems by (intro bit_word_eqI) (auto simp: bit_simps)
      moreover have "drop_bit 8 (take_bit m w) = take_bit (m - 8) (drop_bit 8 w)"
        by (simp add: drop_bit_take_bit)
      ultimately show ?case using Suc by simp
    qed
    with Cons show ?thesis by simp
  qed
  ultimately show ?case using hd by simp
qed

subsection \<open>Byte buffers\<close>

text \<open>
  \<open>memcpy\<close> into and out of a caller's buffer; leaving the buffer is undefined behaviour.
\<close>

definition write_bytes :: "nat \<Rightarrow> u8 list \<Rightarrow> u8 list \<Rightarrow> u8 list option" where
  "write_bytes off bs buf =
     (if off + length bs \<le> length buf
      then Some (take off buf @ bs @ drop (off + length bs) buf) else None)"

definition read_bytes :: "nat \<Rightarrow> nat \<Rightarrow> u8 list \<Rightarrow> u8 list option" where
  "read_bytes off n buf = (if off + n \<le> length buf then Some (take n (drop off buf)) else None)"

lemma write_bytes_length: "write_bytes off bs buf = Some buf' \<Longrightarrow> length buf' = length buf"
  by (auto simp: write_bytes_def split: if_splits)

lemma read_after_write:
  "write_bytes off bs buf = Some buf' \<Longrightarrow> read_bytes off (length bs) buf' = Some bs"
  by (auto simp: write_bytes_def read_bytes_def split: if_splits)

lemma read_other_after_write:
  assumes "write_bytes off bs buf = Some buf'" and "off' + n \<le> off"
  shows "read_bytes off' n buf' = read_bytes off' n buf"
proof -
  have "off + length bs \<le> length buf" and "buf' = take off buf @ bs @ drop (off + length bs) buf"
    using assms(1) by (auto simp: write_bytes_def split: if_splits)
  moreover have "take n (drop off' (take off buf)) = take n (drop off' buf)"
    using assms(2) by (simp add: drop_take)
  ultimately show ?thesis
    using assms(2) by (auto simp: read_bytes_def)
qed

lemma unat_of_nat_small: "k < 2 ^ 64 \<Longrightarrow> unat (of_nat k :: u64) = k"
  by (simp add: unsigned_of_nat take_bit_nat_eq_self)

end
