(* ===== verification/Rpma_World.thy ===== *)
theory Rpma_World
  imports Rpma_Prelude
begin

text \<open>
  The state the library works on and the world it calls.
  \<^item> Every call into libibverbs, librdmacm or the operating system is a value of \<open>call\<close>.
    What it answers is not defined here: it is \<open>respond E\<close>, a field of the environment
    \<open>E\<close> that every operation takes as an argument, applied to the history of all earlier
    calls and answers. An arbitrary function of the whole history covers every behaviour of
    the provider, failures at any point included. The fields of provider structures that
    the source reads (\<open>id->verbs\<close>, \<open>id->qp\<close>, \<open>channel->fd\<close> and so on) are fields of
    \<open>E\<close> as well, and so are the two build switches of the source.
  \<^item> The structures the library allocates itself are the records below, held in one heap
    \<open>mem\<close> of tagged objects. \<open>malloc\<close> may fail or return any address that no live
    object has, \<open>free\<close> and every access of a dead or mistyped address is undefined
    behaviour (\<open>None\<close>).
  \<^item> The calls of the example programs to the operating system are calls as well.
  \<^item> The ledger: \<open>acct s\<close> is the multiset of provider resources acquired and not yet
    given back according to the recorded calls, \<open>ledger_ok s\<close> says that no call ever gave
    back a resource that was not held (no double release).
\<close>

subsection \<open>Structures of the provider that the source reads or fills in\<close>

datatype rdma_cm_event_type =
    RDMA_CM_EVENT_ADDR_RESOLVED | RDMA_CM_EVENT_ADDR_ERROR | RDMA_CM_EVENT_ROUTE_RESOLVED
  | RDMA_CM_EVENT_ROUTE_ERROR | RDMA_CM_EVENT_CONNECT_REQUEST | RDMA_CM_EVENT_CONNECT_RESPONSE
  | RDMA_CM_EVENT_CONNECT_ERROR | RDMA_CM_EVENT_UNREACHABLE | RDMA_CM_EVENT_REJECTED
  | RDMA_CM_EVENT_ESTABLISHED | RDMA_CM_EVENT_DISCONNECTED | RDMA_CM_EVENT_DEVICE_REMOVAL
  | RDMA_CM_EVENT_MULTICAST_JOIN | RDMA_CM_EVENT_MULTICAST_ERROR | RDMA_CM_EVENT_ADDR_CHANGE
  | RDMA_CM_EVENT_TIMEWAIT_EXIT

record rdma_cm_event =
  ev_ptr :: ptr
  ev_event :: rdma_cm_event_type
  ev_id :: ptr
  ev_private_data :: "u8 list option"
  ev_private_data_len :: u8

record ibv_mr =
  mr_handle :: ptr
  mr_addr :: u64
  mr_length :: u64
  mr_lkey :: u32
  mr_rkey :: u32
  mr_pd :: ptr

datatype ibv_transport_type =
    IBV_TRANSPORT_UNKNOWN | IBV_TRANSPORT_IB | IBV_TRANSPORT_IWARP | IBV_TRANSPORT_USNIC
  | IBV_TRANSPORT_USNIC_UDP | IBV_TRANSPORT_UNSPECIFIED

datatype ibv_access =
    IBV_ACCESS_LOCAL_WRITE | IBV_ACCESS_REMOTE_WRITE | IBV_ACCESS_REMOTE_READ
  | IBV_ACCESS_ON_DEMAND

datatype ibv_wr_opcode =
    IBV_WR_RDMA_WRITE | IBV_WR_RDMA_WRITE_WITH_IMM | IBV_WR_SEND | IBV_WR_SEND_WITH_IMM
  | IBV_WR_RDMA_READ | IBV_WR_ATOMIC_CMP_AND_SWP | IBV_WR_ATOMIC_FETCH_AND_ADD

datatype ibv_send_flag = IBV_SEND_FENCE | IBV_SEND_SIGNALED | IBV_SEND_INLINE

text \<open>A field that the source leaves uninitialised is \<open>None\<close>.\<close>

record ibv_sge =
  sge_addr :: u64
  sge_length :: u32
  sge_lkey :: "u32 option"

record ibv_send_wr =
  wr_id :: u64
  wr_sg_list :: "ibv_sge option"
  wr_num_sge :: int
  wr_opcode :: ibv_wr_opcode
  wr_send_flags :: "ibv_send_flag set"
  wr_imm_data :: "u8 list option"
  wr_rdma :: "(u64 \<times> u32) option"

record ibv_recv_wr =
  rwr_id :: u64
  rwr_sg_list :: "ibv_sge option"
  rwr_num_sge :: int

record ibv_wc =
  wc_wr_id :: u64
  wc_status :: int
  wc_opcode :: int
  wc_byte_len :: u32
  wc_imm_data :: "u8 list"
  wc_flags :: u32

record ibv_qp_init_attr =
  qpa_send_cq :: ptr
  qpa_recv_cq :: ptr
  qpa_max_send_wr :: u32
  qpa_max_recv_wr :: u32
  qpa_max_send_sge :: u32
  qpa_max_recv_sge :: u32
  qpa_max_inline_data :: u32
  qpa_rc :: bool
  qpa_sq_sig_all :: int

record rdma_conn_param =
  cp_private_data :: ptr
  cp_private_data_len :: u8
  cp_responder_resources :: u8
  cp_initiator_depth :: u8
  cp_flow_control :: u8
  cp_retry_count :: u8
  cp_rnr_retry_count :: u8

subsection \<open>Calls and answers\<close>

datatype call =
    Malloc
  | Sysconf_pagesize
  | Mmap u64
  | Munmap u64 u64
  | Ibv_create_comp_channel ptr
  | Ibv_destroy_comp_channel ptr
  | Ibv_create_cq ptr int ptr
  | Ibv_destroy_cq ptr
  | Ibv_req_notify_cq ptr
  | Ibv_get_cq_event ptr
  | Ibv_ack_cq_events ptr nat
  | Ibv_poll_cq ptr int
  | Ibv_reg_mr ptr u64 u64 "ibv_access set"
  | Ibv_dereg_mr ptr
  | Ibv_advise_mr ptr int u32 ibv_sge
  | Ibv_post_send ptr ibv_send_wr
  | Ibv_post_recv ptr ibv_recv_wr
  | Ibv_alloc_pd ptr
  | Ibv_dealloc_pd ptr
  | Ibv_query_device_ex ptr
  | Rdma_create_event_channel
  | Rdma_destroy_event_channel ptr
  | Rdma_create_id ptr
  | Rdma_destroy_id ptr
  | Rdma_migrate_id ptr ptr
  | Rdma_create_qp ptr ptr ibv_qp_init_attr
  | Rdma_destroy_qp ptr
  | Rdma_getaddrinfo string "string option" bool
  | Rdma_freeaddrinfo ptr
  | Rdma_resolve_addr ptr ptr ptr int
  | Rdma_resolve_route ptr int
  | Rdma_bind_addr ptr ptr
  | Rdma_listen ptr int
  | Rdma_accept ptr rdma_conn_param
  | Rdma_connect ptr rdma_conn_param
  | Rdma_reject ptr
  | Rdma_disconnect ptr
  | Rdma_get_cm_event ptr
  | Rdma_ack_cm_event rdma_cm_event
  | Fcntl_getfl int
  | Fcntl_setfl int int
  | Epoll_create1
  | Epoll_ctl_add int int ptr
  | Epoll_ctl_del int int
  | Epoll_wait int int
  | Close int
  | Sleep nat
  | Pmem_map_file string
  | Pmem_unmap u64 u64

record resp =
  rint :: int
  rptr :: ptr
  raddr :: u64
  rerrno :: "int option"
  rmr :: ibv_mr
  rcm :: rdma_cm_event
  rwc :: "ibv_wc list"
  rodp :: "bool \<times> bool \<times> bool"

type_synonym event = "call \<times> resp"

record env =
  respond :: "event list \<Rightarrow> call \<Rightarrow> resp"
  id_verbs :: "event list \<Rightarrow> ptr \<Rightarrow> ptr"
  id_qp :: "event list \<Rightarrow> ptr \<Rightarrow> ptr"
  qp_num_of :: "ptr \<Rightarrow> u32"
  comp_channel_fd :: "ptr \<Rightarrow> int"
  event_channel_fd :: "ptr \<Rightarrow> int"
  pd_transport_type :: "ptr \<Rightarrow> ibv_transport_type"
  ai_src_addr :: "ptr \<Rightarrow> ptr"
  ai_dst_addr :: "ptr \<Rightarrow> ptr"
  max_resp_res :: u8
  max_init_depth :: u8
  on_demand_paging_supported :: bool
  ibv_advise_mr_supported :: bool

subsection \<open>Structures of the library\<close>

record rpma_peer =
  peer_pd :: ptr
  peer_is_odp_supported :: int

record rpma_conn_private_data =
  pdata_ptr :: ptr
  pdata_len :: u8

record rpma_mr_local =
  mrl_ibv_mr :: ibv_mr
  mrl_usage :: c_int

record rpma_mr_remote =
  mrr_raddr :: u64
  mrr_size :: u64
  mrr_rkey :: u32
  mrr_usage :: c_int

record rpma_cq =
  cq_channel :: ptr
  cq_shared_comp_channel :: bool
  cq_cq :: ptr

record flush_apm =
  apm_raw :: u64
  apm_mmap_size :: u64
  apm_raw_mr :: ptr

record rpma_flush_internal =
  flush_context :: ptr

record rpma_conn =
  conn_id :: ptr
  conn_evch :: ptr
  conn_cq :: ptr
  conn_rcq :: ptr
  conn_channel :: ptr
  conn_data :: rpma_conn_private_data
  conn_flush :: ptr
  conn_direct_write_to_pmem :: bool

record rpma_conn_req =
  req_is_passive :: bool
  req_id :: ptr
  req_cq :: ptr
  req_rcq :: ptr
  req_channel :: ptr
  req_data :: rpma_conn_private_data
  req_peer :: ptr

record rpma_ep =
  ep_peer :: ptr
  ep_id :: ptr
  ep_evch :: ptr

datatype rpma_info_side = RPMA_INFO_PASSIVE | RPMA_INFO_ACTIVE

record rpma_info =
  info_side :: rpma_info_side
  info_rai :: ptr

record rpma_conn_cfg =
  cfg_timeout_ms :: int
  cfg_cq_size :: u32
  cfg_rcq_size :: u32
  cfg_sq_size :: u32
  cfg_rq_size :: u32
  cfg_shared_comp_channel :: bool

record rpma_peer_cfg =
  pcfg_direct_write_to_pmem :: bool

datatype obj =
    O_uninit
  | O_peer rpma_peer
  | O_mr_local rpma_mr_local
  | O_mr_remote rpma_mr_remote
  | O_cq rpma_cq
  | O_apm flush_apm
  | O_flush rpma_flush_internal
  | O_conn rpma_conn
  | O_conn_req rpma_conn_req
  | O_ep rpma_ep
  | O_info rpma_info
  | O_conn_cfg rpma_conn_cfg
  | O_peer_cfg rpma_peer_cfg
  | O_bytes "u8 list"

record st =
  mem :: "ptr \<Rightarrow> obj option"
  errno :: int
  trace :: "event list"

subsection \<open>Static data: the default connection configuration\<close>

definition RPMA_DEFAULT_TIMEOUT_MS :: int where "RPMA_DEFAULT_TIMEOUT_MS = 1000"
definition RPMA_DEFAULT_Q_SIZE :: u32 where "RPMA_DEFAULT_Q_SIZE = 10"
definition RPMA_DEFAULT_RCQ_SIZE :: u32 where "RPMA_DEFAULT_RCQ_SIZE = 0"
definition RPMA_DEFAULT_SHARED_COMPL_CHANNEL :: bool where
  "RPMA_DEFAULT_SHARED_COMPL_CHANNEL = False"

definition Conn_cfg_default :: rpma_conn_cfg where
  "Conn_cfg_default =
     \<lparr>cfg_timeout_ms = RPMA_DEFAULT_TIMEOUT_MS,
      cfg_cq_size = RPMA_DEFAULT_Q_SIZE,
      cfg_rcq_size = RPMA_DEFAULT_RCQ_SIZE,
      cfg_sq_size = RPMA_DEFAULT_Q_SIZE,
      cfg_rq_size = RPMA_DEFAULT_Q_SIZE,
      cfg_shared_comp_channel = RPMA_DEFAULT_SHARED_COMPL_CHANNEL\<rparr>"

text \<open>The address of the static object; no allocation returns it.\<close>

definition CONN_CFG_DEFAULT_ADDR :: ptr where "CONN_CFG_DEFAULT_ADDR = 1"

subsection \<open>Memory\<close>

definition deref :: "ptr \<Rightarrow> st \<Rightarrow> obj option" where
  "deref p s =
     (if p = NULL then None
      else if p = CONN_CFG_DEFAULT_ADDR then Some (O_conn_cfg Conn_cfg_default)
      else mem s p)"

definition load_peer :: "ptr \<Rightarrow> st \<Rightarrow> rpma_peer option" where
  "load_peer p s = (case deref p s of Some (O_peer x) \<Rightarrow> Some x | _ \<Rightarrow> None)"
definition load_mr_local :: "ptr \<Rightarrow> st \<Rightarrow> rpma_mr_local option" where
  "load_mr_local p s = (case deref p s of Some (O_mr_local x) \<Rightarrow> Some x | _ \<Rightarrow> None)"
definition load_mr_remote :: "ptr \<Rightarrow> st \<Rightarrow> rpma_mr_remote option" where
  "load_mr_remote p s = (case deref p s of Some (O_mr_remote x) \<Rightarrow> Some x | _ \<Rightarrow> None)"
definition load_cq :: "ptr \<Rightarrow> st \<Rightarrow> rpma_cq option" where
  "load_cq p s = (case deref p s of Some (O_cq x) \<Rightarrow> Some x | _ \<Rightarrow> None)"
definition load_apm :: "ptr \<Rightarrow> st \<Rightarrow> flush_apm option" where
  "load_apm p s = (case deref p s of Some (O_apm x) \<Rightarrow> Some x | _ \<Rightarrow> None)"
definition load_flush :: "ptr \<Rightarrow> st \<Rightarrow> rpma_flush_internal option" where
  "load_flush p s = (case deref p s of Some (O_flush x) \<Rightarrow> Some x | _ \<Rightarrow> None)"
definition load_conn :: "ptr \<Rightarrow> st \<Rightarrow> rpma_conn option" where
  "load_conn p s = (case deref p s of Some (O_conn x) \<Rightarrow> Some x | _ \<Rightarrow> None)"
definition load_conn_req :: "ptr \<Rightarrow> st \<Rightarrow> rpma_conn_req option" where
  "load_conn_req p s = (case deref p s of Some (O_conn_req x) \<Rightarrow> Some x | _ \<Rightarrow> None)"
definition load_ep :: "ptr \<Rightarrow> st \<Rightarrow> rpma_ep option" where
  "load_ep p s = (case deref p s of Some (O_ep x) \<Rightarrow> Some x | _ \<Rightarrow> None)"
definition load_info :: "ptr \<Rightarrow> st \<Rightarrow> rpma_info option" where
  "load_info p s = (case deref p s of Some (O_info x) \<Rightarrow> Some x | _ \<Rightarrow> None)"
definition load_conn_cfg :: "ptr \<Rightarrow> st \<Rightarrow> rpma_conn_cfg option" where
  "load_conn_cfg p s = (case deref p s of Some (O_conn_cfg x) \<Rightarrow> Some x | _ \<Rightarrow> None)"
definition load_peer_cfg :: "ptr \<Rightarrow> st \<Rightarrow> rpma_peer_cfg option" where
  "load_peer_cfg p s = (case deref p s of Some (O_peer_cfg x) \<Rightarrow> Some x | _ \<Rightarrow> None)"

lemmas load_defs = load_peer_def load_mr_local_def load_mr_remote_def load_cq_def load_apm_def
  load_flush_def load_conn_def load_conn_req_def load_ep_def load_info_def load_conn_cfg_def
  load_peer_cfg_def

definition store :: "ptr \<Rightarrow> obj \<Rightarrow> st \<Rightarrow> (unit \<times> st) option" where
  "store p x s =
     (if p = NULL \<or> p = CONN_CFG_DEFAULT_ADDR \<or> mem s p = None then None
      else Some ((), s\<lparr>mem := (mem s)(p \<mapsto> x)\<rparr>))"

subsection \<open>Calling out\<close>

definition push :: "call \<Rightarrow> resp \<Rightarrow> st \<Rightarrow> st" where
  "push c r s =
     s\<lparr>trace := (c, r) # trace s,
       errno := (case rerrno r of None \<Rightarrow> errno s | Some e \<Rightarrow> e)\<rparr>"

definition ext :: "env \<Rightarrow> call \<Rightarrow> st \<Rightarrow> (resp \<times> st) option" where
  "ext E c s = (let r = respond E (trace s) c in Some (r, push c r s))"

definition set_errno :: "int \<Rightarrow> st \<Rightarrow> st" where
  "set_errno e s = s\<lparr>errno := e\<rparr>"

text \<open>\<open>malloc(3)\<close>: either \<open>NULL\<close> or an address that no live object has.\<close>

definition malloc :: "env \<Rightarrow> st \<Rightarrow> (ptr \<times> st) option" where
  "malloc E s = do {
     (r, s) \<leftarrow> ext E Malloc s;
     let a = rptr r;
     if a = NULL \<or> a = CONN_CFG_DEFAULT_ADDR \<or> mem s a \<noteq> None then Some (NULL, s)
     else Some (a, s\<lparr>mem := (mem s)(a \<mapsto> O_uninit)\<rparr>)
   }"

definition free :: "ptr \<Rightarrow> st \<Rightarrow> (unit \<times> st) option" where
  "free p s =
     (if p = NULL then Some ((), s)
      else if p = CONN_CFG_DEFAULT_ADDR \<or> mem s p = None then None
      else Some ((), s\<lparr>mem := (mem s)(p := None)\<rparr>))"

subsection \<open>The resource ledger\<close>

datatype res =
    R_channel ptr | R_cq ptr | R_mr ptr | R_pd ptr | R_evch ptr | R_id ptr | R_qp ptr
  | R_addrinfo ptr | R_map u64 | R_event ptr | R_fd int

fun acquires :: "call \<Rightarrow> resp \<Rightarrow> res multiset" where
  "acquires (Mmap n) r = (if raddr r = - 1 then {#} else {#R_map (raddr r)#})"
| "acquires (Ibv_create_comp_channel ctx) r = (if rptr r = NULL then {#} else {#R_channel (rptr r)#})"
| "acquires (Ibv_create_cq ctx n ch) r = (if rptr r = NULL then {#} else {#R_cq (rptr r)#})"
| "acquires (Ibv_reg_mr p a n acc) r = (if rptr r = NULL then {#} else {#R_mr (mr_handle (rmr r))#})"
| "acquires (Ibv_alloc_pd ctx) r = (if rptr r = NULL then {#} else {#R_pd (rptr r)#})"
| "acquires Rdma_create_event_channel r = (if rptr r = NULL then {#} else {#R_evch (rptr r)#})"
| "acquires (Rdma_create_id ch) r = (if rint r = 0 then {#R_id (rptr r)#} else {#})"
| "acquires (Rdma_create_qp i p a) r = (if rint r = 0 then {#R_qp i#} else {#})"
| "acquires (Rdma_getaddrinfo a p b) r = (if rint r = 0 then {#R_addrinfo (rptr r)#} else {#})"
| "acquires (Rdma_get_cm_event ch) r =
     (if rint r \<noteq> 0 then {#}
      else if ev_event (rcm r) = RDMA_CM_EVENT_CONNECT_REQUEST
      then {#R_event (ev_ptr (rcm r)), R_id (ev_id (rcm r))#}
      else {#R_event (ev_ptr (rcm r))#})"
| "acquires (Pmem_map_file path) r = (if raddr r = 0 then {#} else {#R_map (raddr r)#})"
| "acquires Epoll_create1 r = (if rint r = - 1 then {#} else {#R_fd (rint r)#})"
| "acquires _ r = {#}"

fun releases :: "call \<Rightarrow> res multiset" where
  "releases (Munmap a n) = {#R_map a#}"
| "releases (Ibv_destroy_comp_channel ch) = {#R_channel ch#}"
| "releases (Ibv_destroy_cq q) = {#R_cq q#}"
| "releases (Ibv_dereg_mr m) = {#R_mr m#}"
| "releases (Ibv_dealloc_pd p) = {#R_pd p#}"
| "releases (Rdma_destroy_event_channel ch) = {#R_evch ch#}"
| "releases (Rdma_destroy_id i) = {#R_id i#}"
| "releases (Rdma_destroy_qp i) = {#R_qp i#}"
| "releases (Rdma_freeaddrinfo a) = {#R_addrinfo a#}"
| "releases (Rdma_ack_cm_event e) = {#R_event (ev_ptr e)#}"
| "releases (Pmem_unmap a n) = {#R_map a#}"
| "releases (Close fd) = {#R_fd fd#}"
| "releases _ = {#}"

fun held :: "event list \<Rightarrow> res multiset" where
  "held [] = {#}"
| "held ((c, r) # tr) = held tr - releases c + acquires c r"

fun no_double_release :: "event list \<Rightarrow> bool" where
  "no_double_release [] = True"
| "no_double_release ((c, r) # tr) = (releases c \<subseteq># held tr \<and> no_double_release tr)"

definition acct :: "st \<Rightarrow> res multiset" where
  "acct s = held (trace s)"

definition ledger_ok :: "st \<Rightarrow> bool" where
  "ledger_ok s = no_double_release (trace s)"

definition init_st :: st where
  "init_st = \<lparr>mem = (\<lambda>_. None), errno = 0, trace = []\<rparr>"

subsection \<open>Rules for symbolic execution\<close>

lemma mem_push [simp]: "mem (push c r s) = mem s"
  and acct_push [simp]: "acct (push c r s) = acct s - releases c + acquires c r"
  and ledger_ok_push [simp]: "ledger_ok (push c r s) \<longleftrightarrow> releases c \<subseteq># acct s \<and> ledger_ok s"
  and trace_push [simp]: "trace (push c r s) = (c, r) # trace s"
  by (simp_all add: push_def acct_def ledger_ok_def)

lemma mem_set_errno [simp]: "mem (set_errno e s) = mem s"
  and acct_set_errno [simp]: "acct (set_errno e s) = acct s"
  and ledger_ok_set_errno [simp]: "ledger_ok (set_errno e s) = ledger_ok s"
  and trace_set_errno [simp]: "trace (set_errno e s) = trace s"
  and errno_set_errno [simp]: "errno (set_errno e s) = e"
  by (simp_all add: set_errno_def acct_def ledger_ok_def)

lemma acct_mem_update [simp]: "acct (s\<lparr>mem := m\<rparr>) = acct s"
  and ledger_ok_mem_update [simp]: "ledger_ok (s\<lparr>mem := m\<rparr>) = ledger_ok s"
  by (simp_all add: acct_def ledger_ok_def)

lemma acct_init [simp]: "acct init_st = {#}"
  and ledger_ok_init [simp]: "ledger_ok init_st"
  and mem_init [simp]: "mem init_st = (\<lambda>_. None)"
  and trace_init [simp]: "trace init_st = []"
  by (simp_all add: init_st_def acct_def ledger_ok_def)

text \<open>Abstract execution of an external call: any answer is possible.\<close>

lemma wp_ext [wp_specs]: "(\<And>r. Q r (push c r s)) \<Longrightarrow> wp (ext E c s) Q"
  by (simp add: ext_def)

text \<open>Exact execution, when the property is about the calls themselves.\<close>

lemma wp_ext_exact: "wp (ext E c s) Q = Q (respond E (trace s) c) (push c (respond E (trace s) c) s)"
  by (simp add: ext_def)

text \<open>A loaded object is followed by the computation on it.\<close>

definition obj_at :: "ptr \<Rightarrow> obj \<Rightarrow> st \<Rightarrow> bool" where
  "obj_at p x s \<longleftrightarrow> p \<noteq> NULL \<and> p \<noteq> CONN_CFG_DEFAULT_ADDR \<and> mem s p = Some x"

lemma wp_bind_option [wp_simps]: "wp (Option.bind m f) Q = (\<exists>x. m = Some x \<and> wp (f x) Q)"
  by (cases m) auto

lemma load_Some [simp]:
  shows "obj_at p (O_peer a) s \<Longrightarrow> load_peer p s = Some a"
    and "obj_at p (O_mr_local b) s \<Longrightarrow> load_mr_local p s = Some b"
    and "obj_at p (O_mr_remote c) s \<Longrightarrow> load_mr_remote p s = Some c"
    and "obj_at p (O_cq d) s \<Longrightarrow> load_cq p s = Some d"
    and "obj_at p (O_apm e) s \<Longrightarrow> load_apm p s = Some e"
    and "obj_at p (O_flush f) s \<Longrightarrow> load_flush p s = Some f"
    and "obj_at p (O_conn g) s \<Longrightarrow> load_conn p s = Some g"
    and "obj_at p (O_conn_req h) s \<Longrightarrow> load_conn_req p s = Some h"
    and "obj_at p (O_ep i) s \<Longrightarrow> load_ep p s = Some i"
    and "obj_at p (O_info j) s \<Longrightarrow> load_info p s = Some j"
    and "obj_at p (O_conn_cfg k) s \<Longrightarrow> load_conn_cfg p s = Some k"
    and "obj_at p (O_peer_cfg l) s \<Longrightarrow> load_peer_cfg p s = Some l"
  by (simp_all add: load_defs deref_def obj_at_def)

lemma load_conn_cfg_default [simp]:
  "load_conn_cfg CONN_CFG_DEFAULT_ADDR s = Some Conn_cfg_default"
  by (simp add: load_conn_cfg_def deref_def CONN_CFG_DEFAULT_ADDR_def)

lemma obj_at_mem: "obj_at p x s \<Longrightarrow> mem s p = Some x"
  and obj_at_nonnull: "obj_at p x s \<Longrightarrow> p \<noteq> NULL"
  by (simp_all add: obj_at_def)

lemma obj_at_unique: "obj_at p x s \<Longrightarrow> obj_at p y s \<Longrightarrow> x = y"
  by (simp add: obj_at_def)

lemma obj_at_mem_cong: "mem s p = mem s' p \<Longrightarrow> obj_at p x s = obj_at p x s'"
  by (simp add: obj_at_def)

lemma obj_at_push [simp]: "obj_at p x (push c r s) = obj_at p x s"
  and obj_at_set_errno [simp]: "obj_at p x (set_errno e s) = obj_at p x s"
  by (simp_all add: obj_at_def)

lemma obj_at_mem_update [simp]:
  "obj_at p x (s\<lparr>mem := m\<rparr>) \<longleftrightarrow> p \<noteq> NULL \<and> p \<noteq> CONN_CFG_DEFAULT_ADDR \<and> m p = Some x"
  by (simp add: obj_at_def)

text \<open>An address \<open>malloc\<close> may return.\<close>

definition fresh :: "ptr \<Rightarrow> st \<Rightarrow> bool" where
  "fresh p s \<longleftrightarrow> p \<noteq> NULL \<and> p \<noteq> CONN_CFG_DEFAULT_ADDR \<and> mem s p = None"

lemma wp_malloc [wp_specs]:
  assumes "\<And>r. Q NULL (push Malloc r s)"
    and "\<And>p r. fresh p s \<Longrightarrow> Q p ((push Malloc r s)\<lparr>mem := (mem s)(p \<mapsto> O_uninit)\<rparr>)"
  shows "wp (malloc E s) Q"
  using assms by (auto simp: malloc_def fresh_def Let_def intro!: wp_ext)

text \<open>Exact execution: \<open>malloc\<close> succeeds iff the system offers an address that is not in use.\<close>

definition malloc_ok :: "env \<Rightarrow> st \<Rightarrow> bool" where
  "malloc_ok E s \<longleftrightarrow> fresh (rptr (respond E (trace s) Malloc)) s"

lemma wp_malloc_exact:
  assumes "\<And>r. \<not> malloc_ok E s \<Longrightarrow> Q NULL (push Malloc r s)"
    and "\<And>p r. malloc_ok E s \<Longrightarrow> fresh p s \<Longrightarrow> Q p ((push Malloc r s)\<lparr>mem := (mem s)(p \<mapsto> O_uninit)\<rparr>)"
  shows "wp (malloc E s) Q"
  using assms by (auto simp: malloc_def malloc_ok_def fresh_def Let_def wp_ext_exact)

lemma wp_free [wp_specs]:
  assumes "obj_at p x s" and "Q () (s\<lparr>mem := (mem s)(p := None)\<rparr>)"
  shows "wp (free p s) Q"
  using assms by (auto simp: free_def obj_at_def)

lemma wp_free_NULL [simp]: "wp (free NULL s) Q = Q () s"
  by (simp add: free_def)

lemma wp_store [wp_specs]:
  assumes "obj_at p x s" and "Q () (s\<lparr>mem := (mem s)(p \<mapsto> y)\<rparr>)"
  shows "wp (store p y s) Q"
  using assms by (auto simp: store_def obj_at_def)

lemma fresh_nonnull: "fresh p s \<Longrightarrow> p \<noteq> NULL"
  by (simp add: fresh_def)

lemma fresh_not_obj: "fresh p s \<Longrightarrow> \<not> obj_at p x s"
  by (simp add: fresh_def obj_at_def)

end
