(* ===== verification/Sample.thy ===== *)
theory Sample
  imports Rpma_World
begin

text \<open>
  A concrete provider and concrete states, on which the properties with hypotheses are applied:
  every call succeeds, \<open>malloc\<close> and the constructors of the provider return an address that
  depends on the length of the history, so that all of them differ, and the CM event channel
  delivers \<open>RDMA_CM_EVENT_ESTABLISHED\<close> with one byte of private data.
\<close>

definition sample_cm_event :: rdma_cm_event where
  "sample_cm_event = \<lparr>ev_ptr = 7, ev_event = RDMA_CM_EVENT_ESTABLISHED, ev_id = 8,
     ev_private_data = Some [42], ev_private_data_len = 1\<rparr>"

definition sample_ibv_mr :: "nat \<Rightarrow> ibv_mr" where
  "sample_ibv_mr h = \<lparr>mr_handle = h, mr_addr = 4096, mr_length = 1024, mr_lkey = 1, mr_rkey = 2,
     mr_pd = 3\<rparr>"

definition sample_respond :: "event list \<Rightarrow> call \<Rightarrow> resp" where
  "sample_respond tr c =
     \<lparr>rint = (case c of Sysconf_pagesize \<Rightarrow> 4096 | _ \<Rightarrow> 0), rptr = 100 + length tr, raddr = 4096,
      rerrno = None, rmr = sample_ibv_mr (100 + length tr), rcm = sample_cm_event,
      rwc = [], rodp = (True, True, True)\<rparr>"

definition sample_wc :: ibv_wc where
  "sample_wc = \<lparr>wc_wr_id = 0, wc_status = 0, wc_opcode = 0, wc_byte_len = 0, wc_imm_data = [], wc_flags = 0\<rparr>"

definition sample_env :: env where
  "sample_env =
     \<lparr>respond = sample_respond, id_verbs = (\<lambda>tr i. 9), id_qp = (\<lambda>tr i. i + 1),
      qp_num_of = (\<lambda>q. 5), comp_channel_fd = (\<lambda>c. 3), event_channel_fd = (\<lambda>c. 4),
      pd_transport_type = (\<lambda>p. IBV_TRANSPORT_IB), ai_src_addr = (\<lambda>a. 0), ai_dst_addr = (\<lambda>a. 6),
      max_resp_res = 16, max_init_depth = 16, on_demand_paging_supported = True,
      ibv_advise_mr_supported = True\<rparr>"

lemma sample_env_simps [simp]:
  "respond sample_env = sample_respond"
  by (simp add: sample_env_def)

text \<open>A state whose heap holds the given objects and whose ledger holds nothing.\<close>

definition heap_st :: "(ptr \<times> obj) list \<Rightarrow> st" where
  "heap_st xs = init_st\<lparr>mem := map_of xs\<rparr>"

lemma heap_st_simps [simp]:
  "mem (heap_st xs) = map_of xs" "acct (heap_st xs) = {#}" "ledger_ok (heap_st xs)"
  "trace (heap_st xs) = []"
  by (simp_all add: heap_st_def)

lemma obj_at_heap_st [simp]:
  "obj_at p x (heap_st xs) \<longleftrightarrow> p \<noteq> NULL \<and> p \<noteq> CONN_CFG_DEFAULT_ADDR \<and> map_of xs p = Some x"
  by (simp add: obj_at_def)

end
