(* ===== verification/Lifecycle.thy ===== *)
theory Lifecycle
  imports Sample
begin

text \<open>
  The contract every object of the library has with its clients, as a locale: a constructor
  that either delivers an object or leaves memory and the resource ledger as they were, and a
  destructor that gives back exactly what the object owns, whatever the provider answers. A
  component interprets the locale on its own constructor and destructor; the lemmas below are
  then its leak-freedom theorems.
\<close>

definition unchanged :: "st \<Rightarrow> st \<Rightarrow> bool" where
  "unchanged s s' \<longleftrightarrow> mem s' = mem s \<and> acct s' = acct s"

definition created :: "ptr set \<Rightarrow> res multiset \<Rightarrow> st \<Rightarrow> st \<Rightarrow> bool" where
  "created B R s s' \<longleftrightarrow>
     (\<forall>q\<in>B. mem s q = None) \<and> (\<forall>q. q \<notin> B \<longrightarrow> mem s' q = mem s q) \<and> acct s' = acct s + R"

definition destroyed :: "ptr set \<Rightarrow> res multiset \<Rightarrow> st \<Rightarrow> st \<Rightarrow> bool" where
  "destroyed B R s s' \<longleftrightarrow>
     mem s' = (\<lambda>q. if q \<in> B then None else mem s q) \<and> acct s' = acct s - R"

lemma unchanged_refl [simp]: "unchanged s s"
  by (simp add: unchanged_def)

lemma unchanged_trans: "unchanged s t \<Longrightarrow> unchanged t u \<Longrightarrow> unchanged s u"
  by (simp add: unchanged_def)

lemma created_destroyed: "created B R s s' \<Longrightarrow> destroyed B R s' s'' \<Longrightarrow> unchanged s s''"
  by (auto simp: created_def destroyed_def unchanged_def fun_eq_iff)

text \<open>One use of an object: create it and, if that worked, delete it again.\<close>

definition use_once ::
  "(st \<Rightarrow> ((rc \<times> ptr) \<times> st) option) \<Rightarrow> (ptr \<Rightarrow> st \<Rightarrow> ((rc \<times> ptr) \<times> st) option)
    \<Rightarrow> st \<Rightarrow> (rc \<times> st) option" where
  "use_once create destroy s = do {
     ((ret, p), s) \<leftarrow> create s;
     if ret \<noteq> 0 then Some (ret, s)
     else do { ((ret, _), s) \<leftarrow> destroy p s; Some (ret, s) }
   }"

fun use_many ::
  "nat \<Rightarrow> (st \<Rightarrow> ((rc \<times> ptr) \<times> st) option) \<Rightarrow> (ptr \<Rightarrow> st \<Rightarrow> ((rc \<times> ptr) \<times> st) option)
    \<Rightarrow> st \<Rightarrow> (unit \<times> st) option" where
  "use_many 0 create destroy s = Some ((), s)"
| "use_many (Suc n) create destroy s = do {
     (_, s) \<leftarrow> use_once create destroy s;
     use_many n create destroy s
   }"

locale lifecycle =
  fixes create :: "st \<Rightarrow> ((rc \<times> ptr) \<times> st) option"
    and destroy :: "ptr \<Rightarrow> st \<Rightarrow> ((rc \<times> ptr) \<times> st) option"
    and owns :: "ptr \<Rightarrow> ptr set \<Rightarrow> res multiset \<Rightarrow> st \<Rightarrow> bool"
    and ready :: "st \<Rightarrow> bool"
  assumes create_spec: "ledger_ok s \<Longrightarrow> ready s \<Longrightarrow>
      wp (create s) (\<lambda>(ret, p) s'. ledger_ok s' \<and>
        (if ret = 0 then \<exists>B R. owns p B R s' \<and> created B R s s' else unchanged s s'))"
    and destroy_spec: "ledger_ok s \<Longrightarrow> owns p B R s \<Longrightarrow> R \<subseteq># acct s \<Longrightarrow>
      wp (destroy p s) (\<lambda>(ret, p') s'. ledger_ok s' \<and> p' = NULL \<and> destroyed B R s s')"
    and ready_cong: "ready s \<Longrightarrow> unchanged s s' \<Longrightarrow> ready s'"
begin

lemma use_once_spec:
  assumes "ledger_ok s" and "ready s"
  shows "wp (use_once create destroy s) (\<lambda>_ s'. ledger_ok s' \<and> unchanged s s')"
proof -
  have step: "wp (destroy p s') (\<lambda>_ s''. ledger_ok s'' \<and> unchanged s s'')"
    if "ledger_ok s'" "owns p B R s'" "created B R s s'" for p B R s'
  proof -
    from that(3) have "R \<subseteq># acct s'" by (simp add: created_def)
    from destroy_spec [OF that(1,2) this] show ?thesis
      by (auto elim!: wp_mono intro: created_destroyed [OF that(3)])
  qed
  show ?thesis
    unfolding use_once_def
    by (auto intro!: wp_mono [OF create_spec [OF assms]] intro: step split: if_splits)
qed

lemma use_many_spec:
  "ledger_ok s \<Longrightarrow> ready s \<Longrightarrow>
    wp (use_many n create destroy s) (\<lambda>_ s'. ledger_ok s' \<and> unchanged s s')"
proof (induction n arbitrary: s)
  case 0
  then show ?case by simp
next
  case (Suc n)
  show ?case
    unfolding use_many.simps wp_bind
  proof (rule wp_mono [OF use_once_spec [OF Suc.prems]])
    fix s'
    assume *: "ledger_ok s' \<and> unchanged s s'"
    with Suc.prems(2) ready_cong have "ready s'" by blast
    with * Suc.IH [of s'] show "wp (use_many n create destroy s') (\<lambda>_ s'. ledger_ok s' \<and> unchanged s s')"
      by (auto intro: unchanged_trans elim!: wp_mono)
  qed
qed

end

text \<open>An object that occupies one heap block.\<close>

lemma created_one: "fresh p s \<Longrightarrow> mem s' = (mem s)(p \<mapsto> x) \<Longrightarrow> acct s' = acct s + R \<Longrightarrow> created {p} R s s'"
  by (simp add: created_def fresh_def)

lemma destroyed_one: "mem s' = (mem s)(p := None) \<Longrightarrow> acct s' = acct s - R \<Longrightarrow> destroyed {p} R s s'"
  by (auto simp: destroyed_def)

lemma fresh_obj_at: "fresh p s \<Longrightarrow> mem s' = (mem s)(p \<mapsto> x) \<Longrightarrow> obj_at p x s'"
  by (simp add: fresh_def obj_at_def)

end
