(* ===== verification/Info.thy ===== *)
theory Info
  imports Lifecycle
begin

text \<open>
  Address translation: \<open>src/src/info.c\<close>. An info object caches the \<open>rdma_addrinfo\<close> the
  provider returned for an address and a port.
\<close>

definition rpma_info_new ::
  "env \<Rightarrow> string option \<Rightarrow> string option \<Rightarrow> rpma_info_side \<Rightarrow> ptr option \<Rightarrow> st
    \<Rightarrow> ((rc \<times> ptr option) \<times> st) option" where
  "rpma_info_new E addr port side info_ptr s =
     (case addr of
        None \<Rightarrow> Some ((RPMA_E_INVAL, info_ptr), s)
      | Some node \<Rightarrow>
          if info_ptr = None then Some ((RPMA_E_INVAL, info_ptr), s)
          else do {
            (r, s) \<leftarrow> ext E (Rdma_getaddrinfo node port (side = RPMA_INFO_PASSIVE)) s;
            if rint r \<noteq> 0 then Some ((RPMA_E_PROVIDER, info_ptr), s)
            else do {
              let rai = rptr r;
              (info, s) \<leftarrow> malloc E s;
              if info = NULL then do {
                (_, s) \<leftarrow> ext E (Rdma_freeaddrinfo rai) s;
                Some ((RPMA_E_NOMEM, info_ptr), s)
              } else do {
                (_, s) \<leftarrow> store info (O_info \<lparr>info_side = side, info_rai = rai\<rparr>) s;
                Some ((0, Some info), s)
              }
            }
          })"

definition rpma_info_delete ::
  "env \<Rightarrow> ptr option \<Rightarrow> st \<Rightarrow> ((rc \<times> ptr option) \<times> st) option" where
  "rpma_info_delete E info_ptr s =
     (case info_ptr of
        None \<Rightarrow> Some ((RPMA_E_INVAL, info_ptr), s)
      | Some info \<Rightarrow>
          if info = NULL then Some ((0, info_ptr), s)
          else do {
            i \<leftarrow> load_info info s;
            (_, s) \<leftarrow> ext E (Rdma_freeaddrinfo (info_rai i)) s;
            (_, s) \<leftarrow> free info s;
            Some ((0, Some NULL), s)
          })"

definition rpma_info_resolve_addr ::
  "env \<Rightarrow> ptr \<Rightarrow> ptr \<Rightarrow> int \<Rightarrow> st \<Rightarrow> (rc \<times> st) option" where
  "rpma_info_resolve_addr E info cm_id timeout_ms s = do {
     i \<leftarrow> load_info info s;
     (r, s) \<leftarrow> ext E (Rdma_resolve_addr cm_id (ai_src_addr E (info_rai i))
        (ai_dst_addr E (info_rai i)) timeout_ms) s;
     if rint r \<noteq> 0 then Some (RPMA_E_PROVIDER, s) else Some (0, s)
   }"

definition rpma_info_bind_addr :: "env \<Rightarrow> ptr \<Rightarrow> ptr \<Rightarrow> st \<Rightarrow> (rc \<times> st) option" where
  "rpma_info_bind_addr E info cm_id s =
     (if cm_id = NULL \<or> info = NULL then Some (RPMA_E_INVAL, s)
      else do {
        i \<leftarrow> load_info info s;
        (r, s) \<leftarrow> ext E (Rdma_bind_addr cm_id (ai_src_addr E (info_rai i))) s;
        if rint r \<noteq> 0 then Some (RPMA_E_PROVIDER, s) else Some (0, s)
      })"

subsection \<open>Specifications\<close>

definition info_res :: "rpma_info \<Rightarrow> res multiset" where
  "info_res i = {#R_addrinfo (info_rai i)#}"

lemma wp_rpma_info_new [wp_specs]:
  assumes "ledger_ok s"
    and "\<And>p i s'. ledger_ok s' \<Longrightarrow> fresh p s \<Longrightarrow> mem s' = (mem s)(p \<mapsto> O_info i) \<Longrightarrow>
       acct s' = acct s + info_res i \<Longrightarrow> info_side i = side \<Longrightarrow> Q (0, Some p) s'"
    and "\<And>ret out s'. ledger_ok s' \<Longrightarrow> mem s' = mem s \<Longrightarrow> acct s' = acct s \<Longrightarrow>
       ret \<in> {RPMA_E_PROVIDER, RPMA_E_NOMEM} \<Longrightarrow> Q (ret, Some info) s'"
  shows "wp (rpma_info_new E (Some node) port side (Some info) s) Q"
  using assms(1) unfolding rpma_info_new_def
  by (auto simp: fresh_def info_res_def Let_def intro!: wp_ext wp_malloc wp_store assms(2,3))

lemma wp_rpma_info_delete [wp_specs]:
  assumes "obj_at p (O_info i) s" and "ledger_ok s" and "info_res i \<subseteq># acct s"
    and "\<And>s'. ledger_ok s' \<Longrightarrow> mem s' = (mem s)(p := None) \<Longrightarrow> acct s' = acct s - info_res i \<Longrightarrow>
       Q (0, Some NULL) s'"
  shows "wp (rpma_info_delete E (Some p) s) Q"
  using assms(1-3) unfolding rpma_info_delete_def
  by (auto simp: info_res_def obj_at_nonnull intro!: wp_ext wp_free assms(4))

lemma wp_rpma_info_resolve_addr [wp_specs]:
  assumes "obj_at p (O_info i) s" and "ledger_ok s"
    and "\<And>ret s'. ledger_ok s' \<Longrightarrow> mem s' = mem s \<Longrightarrow> acct s' = acct s \<Longrightarrow>
       ret \<in> {0, RPMA_E_PROVIDER} \<Longrightarrow> Q ret s'"
  shows "wp (rpma_info_resolve_addr E p cm_id timeout_ms s) Q"
  using assms(1,2) unfolding rpma_info_resolve_addr_def
  by (auto intro!: wp_ext assms(3))

lemma wp_rpma_info_bind_addr [wp_specs]:
  assumes "obj_at p (O_info i) s" and "ledger_ok s"
    and "\<And>ret s'. ledger_ok s' \<Longrightarrow> mem s' = mem s \<Longrightarrow> acct s' = acct s \<Longrightarrow>
       ret \<in> {0, RPMA_E_PROVIDER, RPMA_E_INVAL} \<Longrightarrow> Q ret s'"
  shows "wp (rpma_info_bind_addr E p cm_id s) Q"
  using assms(1,2) unfolding rpma_info_bind_addr_def
  by (auto intro!: wp_ext assms(3))

end
