(* ===== verification/Utils.thy ===== *)
theory Utils
  imports Info
begin

text \<open>
  Helpers: \<open>src/src/utils.c\<close> and \<open>src/src/rpma_err.c\<close>. The C enumerations are kept as
  integers, since the \<open>default\<close> branches of the switches are part of the code.
\<close>

definition RPMA_UTIL_IBV_CONTEXT_LOCAL :: int where "RPMA_UTIL_IBV_CONTEXT_LOCAL = 0"
definition RPMA_UTIL_IBV_CONTEXT_REMOTE :: int where "RPMA_UTIL_IBV_CONTEXT_REMOTE = 1"

definition RPMA_CONN_UNDEFINED :: int where "RPMA_CONN_UNDEFINED = - 1"
definition RPMA_CONN_ESTABLISHED :: int where "RPMA_CONN_ESTABLISHED = 0"
definition RPMA_CONN_CLOSED :: int where "RPMA_CONN_CLOSED = 1"
definition RPMA_CONN_LOST :: int where "RPMA_CONN_LOST = 2"
definition RPMA_CONN_REJECTED :: int where "RPMA_CONN_REJECTED = 3"
definition RPMA_CONN_UNREACHABLE :: int where "RPMA_CONN_UNREACHABLE = 4"

lemmas rpma_enums = RPMA_UTIL_IBV_CONTEXT_LOCAL_def RPMA_UTIL_IBV_CONTEXT_REMOTE_def
  RPMA_CONN_UNDEFINED_def RPMA_CONN_ESTABLISHED_def RPMA_CONN_CLOSED_def RPMA_CONN_LOST_def
  RPMA_CONN_REJECTED_def RPMA_CONN_UNREACHABLE_def

declare rpma_enums [simp]

definition get_ibv_context_err_destroy_id ::
  "env \<Rightarrow> ptr \<Rightarrow> ptr \<Rightarrow> st \<Rightarrow> (unit \<times> st) option" where
  "get_ibv_context_err_destroy_id E temp_id info s = do {
     (_, s) \<leftarrow> ext E (Rdma_destroy_id temp_id) s;
     (_, s) \<leftarrow> rpma_info_delete E (Some info) s;
     Some ((), s)
   }"

definition rpma_utils_get_ibv_context ::
  "env \<Rightarrow> string option \<Rightarrow> int \<Rightarrow> ptr option \<Rightarrow> st \<Rightarrow> ((rc \<times> ptr option) \<times> st) option" where
  "rpma_utils_get_ibv_context E addr type ibv_ctx_ptr s =
     (if addr = None \<or> ibv_ctx_ptr = None then Some ((RPMA_E_INVAL, ibv_ctx_ptr), s)
      else if type \<noteq> RPMA_UTIL_IBV_CONTEXT_LOCAL \<and> type \<noteq> RPMA_UTIL_IBV_CONTEXT_REMOTE
      then Some ((RPMA_E_INVAL, ibv_ctx_ptr), s)
      else do {
        let side = (if type = RPMA_UTIL_IBV_CONTEXT_LOCAL then RPMA_INFO_PASSIVE else RPMA_INFO_ACTIVE);
        ((ret, info), s) \<leftarrow> rpma_info_new E addr None side (Some NULL) s;
        let info = the info;
        if ret \<noteq> 0 then Some ((ret, ibv_ctx_ptr), s)
        else do {
          (r, s) \<leftarrow> ext E (Rdma_create_id NULL) s;
          if rint r \<noteq> 0 then do {
            (_, s) \<leftarrow> rpma_info_delete E (Some info) s;
            Some ((RPMA_E_PROVIDER, ibv_ctx_ptr), s)
          } else do {
            let temp_id = rptr r;
            (ret, s) \<leftarrow>
              (if side = RPMA_INFO_PASSIVE then rpma_info_bind_addr E info temp_id s
               else rpma_info_resolve_addr E info temp_id RPMA_DEFAULT_TIMEOUT_MS s);
            let ibv_ctx = (if ret \<noteq> 0 then ibv_ctx_ptr else Some (id_verbs E (trace s) temp_id));
            (_, s) \<leftarrow> get_ibv_context_err_destroy_id E temp_id info s;
            Some ((ret, ibv_ctx), s)
          }
        }
      })"

definition rpma_utils_ibv_context_is_odp_capable ::
  "env \<Rightarrow> ptr \<Rightarrow> int option \<Rightarrow> st \<Rightarrow> ((rc \<times> int option) \<times> st) option" where
  "rpma_utils_ibv_context_is_odp_capable E ibv_ctx is_odp_capable s =
     (if ibv_ctx = NULL \<or> is_odp_capable = None then Some ((RPMA_E_INVAL, is_odp_capable), s)
      else if on_demand_paging_supported E then do {
        (r, s) \<leftarrow> ext E (Ibv_query_device_ex ibv_ctx) s;
        let s = set_errno (rint r) s;
        if errno s \<noteq> 0 then Some ((RPMA_E_PROVIDER, Some 0), s)
        else
          (case rodp r of (odp_support, odp_support_write, odp_support_read) \<Rightarrow>
             Some ((0, Some (if odp_support \<and> odp_support_write \<and> odp_support_read then 1 else 0)), s))
      } else Some ((0, Some 0), s))"

definition rpma_utils_conn_event_2str :: "int \<Rightarrow> string" where
  "rpma_utils_conn_event_2str e =
     (if e = RPMA_CONN_UNDEFINED then ''Undefined connection event''
      else if e = RPMA_CONN_ESTABLISHED then ''Connection established''
      else if e = RPMA_CONN_CLOSED then ''Connection closed''
      else if e = RPMA_CONN_LOST then ''Connection lost''
      else if e = RPMA_CONN_REJECTED then ''Connection rejected''
      else if e = RPMA_CONN_UNREACHABLE then ''Connection unreachable''
      else ''Unsupported connection event'')"

definition rpma_err_2str :: "int \<Rightarrow> string" where
  "rpma_err_2str ret =
     (if ret = 0 then ''Success''
      else if ret = RPMA_E_NOSUPP then ''Not supported''
      else if ret = RPMA_E_PROVIDER then ''Provider error occurred''
      else if ret = RPMA_E_NOMEM then ''Out of memory''
      else if ret = RPMA_E_INVAL then ''Invalid argument''
      else if ret = RPMA_E_NO_COMPLETION then ''No next completion available''
      else if ret = RPMA_E_NO_EVENT then ''No next event available''
      else if ret = RPMA_E_AGAIN then ''Temporary error, try again''
      else if ret = RPMA_E_SHARED_CHANNEL then ''Completion channel is shared''
      else if ret = RPMA_E_NOT_SHARED_CHNL then ''Completion channel is not shared''
      else ''Unknown error'')"

subsection \<open>Specifications\<close>

lemma wp_get_ibv_context_err_destroy_id [wp_specs]:
  assumes "obj_at p (O_info i) s" and "ledger_ok s" and "add_mset (R_id i') (info_res i) \<subseteq># acct s"
    and "\<And>s'. ledger_ok s' \<Longrightarrow> mem s' = (mem s)(p := None) \<Longrightarrow>
       acct s' = acct s - add_mset (R_id i') (info_res i) \<Longrightarrow> Q () s'"
  shows "wp (get_ibv_context_err_destroy_id E i' p s) Q"
  using assms(1-3) unfolding get_ibv_context_err_destroy_id_def
  by (auto simp: insert_subset_eq_iff intro!: wp_ext wp_rpma_info_delete assms(4))

lemma get_ibv_context_spec:
  assumes "ledger_ok s"
  shows "wp (rpma_utils_get_ibv_context E addr type ibv_ctx_ptr s)
     (\<lambda>(ret, out) s'. ledger_ok s' \<and> unchanged s s' \<and> (ret \<noteq> 0 \<longrightarrow> out = ibv_ctx_ptr) \<and>
        ret \<in> {0, RPMA_E_INVAL, RPMA_E_PROVIDER, RPMA_E_NOMEM})"
proof (cases "addr = None \<or> ibv_ctx_ptr = None \<or>
    (type \<noteq> RPMA_UTIL_IBV_CONTEXT_LOCAL \<and> type \<noteq> RPMA_UTIL_IBV_CONTEXT_REMOTE)")
  case True
  with assms show ?thesis by (auto simp: rpma_utils_get_ibv_context_def)
next
  case False
  with assms show ?thesis
    unfolding rpma_utils_get_ibv_context_def
    by (auto simp: unchanged_def Let_def fresh_def obj_at_def
        intro!: wp_rpma_info_new wp_ext wp_rpma_info_delete wp_rpma_info_bind_addr
          wp_rpma_info_resolve_addr wp_get_ibv_context_err_destroy_id)
qed

text \<open>Looking up a device context borrows everything it uses. On every path of the function,
  whatever the provider answers, the temporary CM ID and the address information are given back
  exactly once, no heap block stays behind, and the output is written only on success.\<close>

lemma get_ibv_context_leaves_no_trace:
  assumes "ledger_ok s"
  shows "wp (rpma_utils_get_ibv_context E addr type ibv_ctx_ptr s)
     (\<lambda>(ret, out) s'. ledger_ok s' \<and> unchanged s s' \<and> (ret \<noteq> 0 \<longrightarrow> out = ibv_ctx_ptr) \<and>
        ret \<in> {0, RPMA_E_INVAL, RPMA_E_PROVIDER, RPMA_E_NOMEM})"
  using assms by (rule get_ibv_context_spec)

lemma wp_rpma_utils_ibv_context_is_odp_capable [wp_specs]:
  assumes "ledger_ok s"
    and "\<And>ret v s'. ledger_ok s' \<Longrightarrow> mem s' = mem s \<Longrightarrow> acct s' = acct s \<Longrightarrow> v \<in> {0, 1} \<Longrightarrow>
       ret \<in> {0, RPMA_E_PROVIDER} \<Longrightarrow> (v = 1 \<longrightarrow> on_demand_paging_supported E) \<Longrightarrow> Q (ret, Some v) s'"
    and "ibv_ctx \<noteq> NULL"
  shows "wp (rpma_utils_ibv_context_is_odp_capable E ibv_ctx (Some x) s) Q"
  using assms(1,3) unfolding rpma_utils_ibv_context_is_odp_capable_def
  by (auto simp: Let_def intro!: wp_ext assms(2))

lemma rpma_err_2str_inj:
  "rpma_err_2str a = rpma_err_2str b \<Longrightarrow> rpma_err_2str a \<noteq> ''Unknown error'' \<Longrightarrow> a = b"
  by (simp add: rpma_err_2str_def split: if_splits)

end
