(* ===== verification/Cq.thy ===== *)
theory Cq
  imports Lifecycle
begin

text \<open>
  Completion queues: \<open>src/src/cq.c\<close>. An \<open>rpma_cq\<close> wraps a verbs CQ and the completion
  channel it reports on; the channel is either its own or shared with another CQ of the same
  connection, and then owned by the connection. The labels of the source's error paths are
  definitions of their own. The specifications say exactly which provider resources and
  which heap block an operation takes and gives back, on every path.
\<close>

subsection \<open>Operations\<close>

definition rpma_cq_get_ibv_cq :: "ptr \<Rightarrow> st \<Rightarrow> ptr option" where
  "rpma_cq_get_ibv_cq cq s = do { c \<leftarrow> load_cq cq s; Some (cq_cq c) }"

definition cq_new_err_destroy_comp_channel ::
  "env \<Rightarrow> ptr \<Rightarrow> ptr \<Rightarrow> st \<Rightarrow> (unit \<times> st) option" where
  "cq_new_err_destroy_comp_channel E shared_channel channel s =
     (if shared_channel = NULL then do {
        (_, s) \<leftarrow> ext E (Ibv_destroy_comp_channel channel) s;
        Some ((), s)
      } else Some ((), s))"

definition cq_new_err_destroy_cq ::
  "env \<Rightarrow> ptr \<Rightarrow> ptr \<Rightarrow> ptr \<Rightarrow> st \<Rightarrow> (unit \<times> st) option" where
  "cq_new_err_destroy_cq E shared_channel channel cq s = do {
     (_, s) \<leftarrow> ext E (Ibv_destroy_cq cq) s;
     cq_new_err_destroy_comp_channel E shared_channel channel s
   }"

definition rpma_cq_new ::
  "env \<Rightarrow> ptr \<Rightarrow> int \<Rightarrow> ptr \<Rightarrow> ptr \<Rightarrow> st \<Rightarrow> ((rc \<times> ptr) \<times> st) option" where
  "rpma_cq_new E ibv_ctx cqe shared_channel cq_ptr s = do {
     (channel, s) \<leftarrow>
       (if shared_channel \<noteq> NULL then Some (shared_channel, s)
        else do { (r, s) \<leftarrow> ext E (Ibv_create_comp_channel ibv_ctx) s; Some (rptr r, s) });
     if channel = NULL then Some ((RPMA_E_PROVIDER, cq_ptr), s)
     else do {
       (r, s) \<leftarrow> ext E (Ibv_create_cq ibv_ctx cqe channel) s;
       let cq = rptr r;
       if cq = NULL then do {
         (_, s) \<leftarrow> cq_new_err_destroy_comp_channel E shared_channel channel s;
         Some ((RPMA_E_PROVIDER, cq_ptr), s)
       } else do {
         (r, s) \<leftarrow> ext E (Ibv_req_notify_cq cq) s;
         let s = set_errno (rint r) s;
         if errno s \<noteq> 0 then do {
           (_, s) \<leftarrow> cq_new_err_destroy_cq E shared_channel channel cq s;
           Some ((RPMA_E_PROVIDER, cq_ptr), s)
         } else do {
           (new, s) \<leftarrow> malloc E s;
           if new = NULL then do {
             (_, s) \<leftarrow> cq_new_err_destroy_cq E shared_channel channel cq s;
             Some ((RPMA_E_NOMEM, new), s)
           } else do {
             (_, s) \<leftarrow> store new
               (O_cq \<lparr>cq_channel = channel, cq_shared_comp_channel = (shared_channel \<noteq> NULL),
                      cq_cq = cq\<rparr>) s;
             Some ((0, new), s)
           }
         }
       }
     }
   }"

definition rpma_cq_delete :: "env \<Rightarrow> ptr \<Rightarrow> st \<Rightarrow> ((rc \<times> ptr) \<times> st) option" where
  "rpma_cq_delete E cq s =
     (if cq = NULL then Some ((0, cq), s)
      else do {
        c \<leftarrow> load_cq cq s;
        (r, s) \<leftarrow> ext E (Ibv_destroy_cq (cq_cq c)) s;
        let s = set_errno (rint r) s;
        let ret = (if errno s \<noteq> 0 then RPMA_E_PROVIDER else 0);
        (ret, s) \<leftarrow>
          (if cq_shared_comp_channel c then Some (ret, s)
           else do {
             (r, s) \<leftarrow> ext E (Ibv_destroy_comp_channel (cq_channel c)) s;
             let s = set_errno (rint r) s;
             Some (if ret = 0 \<and> errno s \<noteq> 0 then RPMA_E_PROVIDER else ret, s)
           });
        (_, s) \<leftarrow> free cq s;
        Some ((ret, NULL), s)
      })"

definition rpma_cq_get_fd ::
  "env \<Rightarrow> ptr \<Rightarrow> int option \<Rightarrow> st \<Rightarrow> ((rc \<times> int option) \<times> st) option" where
  "rpma_cq_get_fd E cq fd s =
     (if cq = NULL \<or> fd = None then Some ((RPMA_E_INVAL, fd), s)
      else do {
        c \<leftarrow> load_cq cq s;
        Some ((0, Some (comp_channel_fd E (cq_channel c))), s)
      })"

definition rpma_cq_wait :: "env \<Rightarrow> ptr \<Rightarrow> st \<Rightarrow> (rc \<times> st) option" where
  "rpma_cq_wait E cq s =
     (if cq = NULL then Some (RPMA_E_INVAL, s)
      else do {
        c \<leftarrow> load_cq cq s;
        if cq_shared_comp_channel c then Some (RPMA_E_SHARED_CHANNEL, s)
        else do {
          (r, s) \<leftarrow> ext E (Ibv_get_cq_event (cq_channel c)) s;
          if rint r \<noteq> 0 then Some (RPMA_E_NO_COMPLETION, s)
          else do {
            (_, s) \<leftarrow> ext E (Ibv_ack_cq_events (cq_cq c) 1) s;
            (r, s) \<leftarrow> ext E (Ibv_req_notify_cq (cq_cq c)) s;
            let s = set_errno (rint r) s;
            if errno s \<noteq> 0 then Some (RPMA_E_PROVIDER, s) else Some (0, s)
          }
        }
      })"

definition rpma_cq_get_wc ::
  "env \<Rightarrow> ptr \<Rightarrow> int \<Rightarrow> ibv_wc list option \<Rightarrow> int option \<Rightarrow> st
    \<Rightarrow> ((rc \<times> ibv_wc list option \<times> int option) \<times> st) option" where
  "rpma_cq_get_wc E cq num_entries wc num_entries_got s =
     (if cq = NULL \<or> num_entries < 1 \<or> wc = None then Some ((RPMA_E_INVAL, wc, num_entries_got), s)
      else if num_entries > 1 \<and> num_entries_got = None
      then Some ((RPMA_E_INVAL, wc, num_entries_got), s)
      else do {
        c \<leftarrow> load_cq cq s;
        (r, s) \<leftarrow> ext E (Ibv_poll_cq (cq_cq c) num_entries) s;
        let result = rint r;
        let wc = Some (rwc r);
        if result = 0 then Some ((RPMA_E_NO_COMPLETION, wc, num_entries_got), s)
        else if result < 0 then Some ((RPMA_E_PROVIDER, wc, num_entries_got), s)
        else if result > num_entries then Some ((RPMA_E_UNKNOWN, wc, num_entries_got), s)
        else Some ((0, wc, map_option (\<lambda>_. result) num_entries_got), s)
      })"

subsection \<open>Ownership\<close>

definition cq_res :: "rpma_cq \<Rightarrow> res multiset" where
  "cq_res c = add_mset (R_cq (cq_cq c))
     (if cq_shared_comp_channel c then {#} else {#R_channel (cq_channel c)#})"

lemma cq_res_simps [simp]:
  "cq_res \<lparr>cq_channel = ch, cq_shared_comp_channel = True, cq_cq = q\<rparr> = {#R_cq q#}"
  "cq_res \<lparr>cq_channel = ch, cq_shared_comp_channel = False, cq_cq = q\<rparr> = {#R_cq q, R_channel ch#}"
  by (simp_all add: cq_res_def)

lemma wp_cq_new_err_destroy_comp_channel [wp_specs]:
  assumes "ledger_ok s" and "shared_channel = NULL \<Longrightarrow> R_channel channel \<in># acct s"
    and "\<And>s'. ledger_ok s' \<Longrightarrow> mem s' = mem s \<Longrightarrow>
       acct s' = acct s - (if shared_channel = NULL then {#R_channel channel#} else {#}) \<Longrightarrow> Q () s'"
  shows "wp (cq_new_err_destroy_comp_channel E shared_channel channel s) Q"
  using assms by (auto simp: cq_new_err_destroy_comp_channel_def intro!: wp_ext)

lemma wp_cq_new_err_destroy_cq [wp_specs]:
  assumes "ledger_ok s" and "R_cq cq \<in># acct s"
    and "shared_channel = NULL \<Longrightarrow> R_channel channel \<in># acct s"
    and "\<And>s'. ledger_ok s' \<Longrightarrow> mem s' = mem s \<Longrightarrow>
       acct s' = acct s - {#R_cq cq#} - (if shared_channel = NULL then {#R_channel channel#} else {#})
       \<Longrightarrow> Q () s'"
  shows "wp (cq_new_err_destroy_cq E shared_channel channel cq s) Q"
  using assms unfolding cq_new_err_destroy_cq_def
  by (auto intro!: wp_ext wp_cq_new_err_destroy_comp_channel simp: in_diff_count)

definition cq_created :: "ptr \<Rightarrow> st \<Rightarrow> ptr \<Rightarrow> st \<Rightarrow> bool" where
  "cq_created shared_channel s p s' \<longleftrightarrow>
     (\<exists>c. fresh p s \<and> mem s' = (mem s)(p \<mapsto> O_cq c) \<and> acct s' = acct s + cq_res c \<and>
        cq_shared_comp_channel c = (shared_channel \<noteq> NULL) \<and>
        (shared_channel \<noteq> NULL \<longrightarrow> cq_channel c = shared_channel))"

lemma wp_rpma_cq_new [wp_specs]:
  assumes "ledger_ok s"
    and "\<And>p s'. ledger_ok s' \<Longrightarrow> cq_created shared_channel s p s' \<Longrightarrow> Q (0, p) s'"
    and "\<And>ret p s'. ledger_ok s' \<Longrightarrow> mem s' = mem s \<Longrightarrow> acct s' = acct s \<Longrightarrow>
           ret \<in> {RPMA_E_PROVIDER, RPMA_E_NOMEM} \<Longrightarrow> Q (ret, p) s'"
  shows "wp (rpma_cq_new E ibv_ctx cqe shared_channel cq_ptr s) Q"
  using assms(1) unfolding rpma_cq_new_def
  by (auto simp: fresh_def Let_def cq_created_def intro!: wp_ext wp_malloc wp_store
      wp_cq_new_err_destroy_cq wp_cq_new_err_destroy_comp_channel assms(2,3))

lemma wp_rpma_cq_delete [wp_specs]:
  assumes "obj_at cq (O_cq c) s" and "ledger_ok s" and "cq_res c \<subseteq># acct s"
    and "\<And>ret s'. ledger_ok s' \<Longrightarrow> mem s' = (mem s)(cq := None) \<Longrightarrow> acct s' = acct s - cq_res c \<Longrightarrow>
           ret \<in> {0, RPMA_E_PROVIDER} \<Longrightarrow> Q (ret, NULL) s'"
  shows "wp (rpma_cq_delete E cq s) Q"
  using assms(1-3) unfolding rpma_cq_delete_def
  by (auto simp: cq_res_def Let_def obj_at_nonnull insert_subset_eq_iff add_mset_commute
      intro!: wp_ext wp_free assms(4))

definition owns_cq :: "ptr \<Rightarrow> ptr set \<Rightarrow> res multiset \<Rightarrow> st \<Rightarrow> bool" where
  "owns_cq p B R s \<longleftrightarrow> (\<exists>c. obj_at p (O_cq c) s \<and> B = {p} \<and> R = cq_res c)"

interpretation cq_life: lifecycle "rpma_cq_new E ibv_ctx cqe shared_channel cq_ptr" "rpma_cq_delete E"
    owns_cq "\<lambda>_. True"
  for E ibv_ctx cqe shared_channel cq_ptr
proof unfold_locales
  fix s :: st
  assume "ledger_ok s"
  then show "wp (rpma_cq_new E ibv_ctx cqe shared_channel cq_ptr s) (\<lambda>(ret, p) s'. ledger_ok s' \<and>
      (if ret = 0 then \<exists>B R. owns_cq p B R s' \<and> created B R s s' else unchanged s s'))"
    by (intro wp_rpma_cq_new) (auto simp: owns_cq_def unchanged_def cq_created_def
        intro!: created_one fresh_obj_at)
next
  fix s :: st and p B R
  assume "ledger_ok s" and "owns_cq p B R s" and "R \<subseteq># acct s"
  then show "wp (rpma_cq_delete E p s) (\<lambda>(ret, p') s'. ledger_ok s' \<and> p' = NULL \<and> destroyed B R s s')"
    by (auto simp: owns_cq_def intro!: wp_rpma_cq_delete destroyed_one)
qed auto

subsection \<open>Completions\<close>

text \<open>Polling a completion queue. Invalid arguments are refused without a call; otherwise there is
  exactly one poll of the queue for the number of entries the caller has room for, and the result
  says what came of it: no completion, a provider error, more entries than there is room for (which
  the caller never takes for success), or 0 with a number between 1 and \<open>num_entries\<close>.\<close>

lemma cq_get_wc_contract:
  assumes "obj_at cq (O_cq c) s" and "r = respond E (trace s) (Ibv_poll_cq (cq_cq c) num)"
  shows "\<exists>ret wc' got' s'. rpma_cq_get_wc E cq num (Some wc) got s = Some ((ret, wc', got'), s') \<and>
     (if num < 1 \<or> num > 1 \<and> got = None then ret = RPMA_E_INVAL \<and> wc' = Some wc \<and> got' = got \<and> s' = s
      else s' = push (Ibv_poll_cq (cq_cq c) num) r s \<and> wc' = Some (rwc r) \<and>
        (if ret = 0 then rint r \<in> {1..num} \<and> (got \<noteq> None \<longrightarrow> got' = Some (rint r))
         else got' = got \<and> ret = (if rint r = 0 then RPMA_E_NO_COMPLETION
           else if rint r < 0 then RPMA_E_PROVIDER else RPMA_E_UNKNOWN) \<and> rint r \<notin> {1..num}))"
  using assms(1) by (auto simp: rpma_cq_get_wc_def obj_at_nonnull ext_def assms(2) Let_def)

end
