(* ===== verification/Conn_Cfg.thy ===== *)
theory Conn_Cfg
  imports Lifecycle
begin

text \<open>
  Connection configurations: \<open>src/src/conn_cfg.c\<close>. The structure and the static default
  object are in \<open>Rpma_World\<close>. A configuration is six registers; the locale \<open>cfg_field\<close> is
  the contract of one setter/getter pair, interpreted for each of the six, and any sequence of
  setter calls is shown to act on the stored record as the abstract register updates do.
\<close>

subsection \<open>Operations\<close>

definition rpma_conn_cfg_default :: ptr where
  "rpma_conn_cfg_default = CONN_CFG_DEFAULT_ADDR"

definition rpma_conn_cfg_new ::
  "env \<Rightarrow> ptr option \<Rightarrow> st \<Rightarrow> ((rc \<times> ptr option) \<times> st) option" where
  "rpma_conn_cfg_new E cfg_ptr s =
     (if cfg_ptr = None then Some ((RPMA_E_INVAL, cfg_ptr), s)
      else do {
        (p, s) \<leftarrow> malloc E s;
        if p = NULL then Some ((RPMA_E_NOMEM, Some p), s)
        else do {
          (_, s) \<leftarrow> store p (O_conn_cfg
            \<lparr>cfg_timeout_ms = cfg_timeout_ms Conn_cfg_default,
             cfg_cq_size = cfg_cq_size Conn_cfg_default,
             cfg_rcq_size = cfg_rcq_size Conn_cfg_default,
             cfg_sq_size = cfg_sq_size Conn_cfg_default,
             cfg_rq_size = cfg_rq_size Conn_cfg_default,
             cfg_shared_comp_channel = cfg_shared_comp_channel Conn_cfg_default\<rparr>) s;
          Some ((0, Some p), s)
        }
      })"

definition rpma_conn_cfg_delete ::
  "ptr option \<Rightarrow> st \<Rightarrow> ((rc \<times> ptr option) \<times> st) option" where
  "rpma_conn_cfg_delete cfg_ptr s =
     (case cfg_ptr of
        None \<Rightarrow> Some ((RPMA_E_INVAL, cfg_ptr), s)
      | Some p \<Rightarrow>
          if p = NULL then Some ((0, cfg_ptr), s)
          else do { (_, s) \<leftarrow> free p s; Some ((0, Some NULL), s) })"

definition rpma_conn_cfg_set_timeout :: "ptr \<Rightarrow> int \<Rightarrow> st \<Rightarrow> (rc \<times> st) option" where
  "rpma_conn_cfg_set_timeout cfg timeout_ms s =
     (if cfg = NULL \<or> timeout_ms < 0 then Some (RPMA_E_INVAL, s)
      else do {
        c \<leftarrow> load_conn_cfg cfg s;
        (_, s) \<leftarrow> store cfg (O_conn_cfg (c\<lparr>cfg_timeout_ms := timeout_ms\<rparr>)) s;
        Some (0, s)
      })"

definition rpma_conn_cfg_get_timeout ::
  "ptr \<Rightarrow> int option \<Rightarrow> st \<Rightarrow> ((rc \<times> int option) \<times> st) option" where
  "rpma_conn_cfg_get_timeout cfg timeout_ms s =
     (if cfg = NULL \<or> timeout_ms = None then Some ((RPMA_E_INVAL, timeout_ms), s)
      else do { c \<leftarrow> load_conn_cfg cfg s; Some ((0, Some (cfg_timeout_ms c)), s) })"

definition rpma_conn_cfg_set_cq_size :: "ptr \<Rightarrow> u32 \<Rightarrow> st \<Rightarrow> (rc \<times> st) option" where
  "rpma_conn_cfg_set_cq_size cfg cq_size s =
     (if cfg = NULL then Some (RPMA_E_INVAL, s)
      else do {
        c \<leftarrow> load_conn_cfg cfg s;
        (_, s) \<leftarrow> store cfg (O_conn_cfg (c\<lparr>cfg_cq_size := cq_size\<rparr>)) s;
        Some (0, s)
      })"

definition rpma_conn_cfg_get_cq_size ::
  "ptr \<Rightarrow> u32 option \<Rightarrow> st \<Rightarrow> ((rc \<times> u32 option) \<times> st) option" where
  "rpma_conn_cfg_get_cq_size cfg cq_size s =
     (if cfg = NULL \<or> cq_size = None then Some ((RPMA_E_INVAL, cq_size), s)
      else do { c \<leftarrow> load_conn_cfg cfg s; Some ((0, Some (cfg_cq_size c)), s) })"

definition rpma_conn_cfg_set_rcq_size :: "ptr \<Rightarrow> u32 \<Rightarrow> st \<Rightarrow> (rc \<times> st) option" where
  "rpma_conn_cfg_set_rcq_size cfg rcq_size s =
     (if cfg = NULL then Some (RPMA_E_INVAL, s)
      else do {
        c \<leftarrow> load_conn_cfg cfg s;
        (_, s) \<leftarrow> store cfg (O_conn_cfg (c\<lparr>cfg_rcq_size := rcq_size\<rparr>)) s;
        Some (0, s)
      })"

definition rpma_conn_cfg_get_rcq_size ::
  "ptr \<Rightarrow> u32 option \<Rightarrow> st \<Rightarrow> ((rc \<times> u32 option) \<times> st) option" where
  "rpma_conn_cfg_get_rcq_size cfg rcq_size s =
     (if cfg = NULL \<or> rcq_size = None then Some ((RPMA_E_INVAL, rcq_size), s)
      else do { c \<leftarrow> load_conn_cfg cfg s; Some ((0, Some (cfg_rcq_size c)), s) })"

definition rpma_conn_cfg_set_sq_size :: "ptr \<Rightarrow> u32 \<Rightarrow> st \<Rightarrow> (rc \<times> st) option" where
  "rpma_conn_cfg_set_sq_size cfg sq_size s =
     (if cfg = NULL then Some (RPMA_E_INVAL, s)
      else do {
        c \<leftarrow> load_conn_cfg cfg s;
        (_, s) \<leftarrow> store cfg (O_conn_cfg (c\<lparr>cfg_sq_size := sq_size\<rparr>)) s;
        Some (0, s)
      })"

definition rpma_conn_cfg_get_sq_size ::
  "ptr \<Rightarrow> u32 option \<Rightarrow> st \<Rightarrow> ((rc \<times> u32 option) \<times> st) option" where
  "rpma_conn_cfg_get_sq_size cfg sq_size s =
     (if cfg = NULL \<or> sq_size = None then Some ((RPMA_E_INVAL, sq_size), s)
      else do { c \<leftarrow> load_conn_cfg cfg s; Some ((0, Some (cfg_sq_size c)), s) })"

definition rpma_conn_cfg_set_rq_size :: "ptr \<Rightarrow> u32 \<Rightarrow> st \<Rightarrow> (rc \<times> st) option" where
  "rpma_conn_cfg_set_rq_size cfg rq_size s =
     (if cfg = NULL then Some (RPMA_E_INVAL, s)
      else do {
        c \<leftarrow> load_conn_cfg cfg s;
        (_, s) \<leftarrow> store cfg (O_conn_cfg (c\<lparr>cfg_rq_size := rq_size\<rparr>)) s;
        Some (0, s)
      })"

definition rpma_conn_cfg_get_rq_size ::
  "ptr \<Rightarrow> u32 option \<Rightarrow> st \<Rightarrow> ((rc \<times> u32 option) \<times> st) option" where
  "rpma_conn_cfg_get_rq_size cfg rq_size s =
     (if cfg = NULL \<or> rq_size = None then Some ((RPMA_E_INVAL, rq_size), s)
      else do { c \<leftarrow> load_conn_cfg cfg s; Some ((0, Some (cfg_rq_size c)), s) })"

definition rpma_conn_cfg_set_compl_channel :: "ptr \<Rightarrow> bool \<Rightarrow> st \<Rightarrow> (rc \<times> st) option" where
  "rpma_conn_cfg_set_compl_channel cfg shared s =
     (if cfg = NULL then Some (RPMA_E_INVAL, s)
      else do {
        c \<leftarrow> load_conn_cfg cfg s;
        (_, s) \<leftarrow> store cfg (O_conn_cfg (c\<lparr>cfg_shared_comp_channel := shared\<rparr>)) s;
        Some (0, s)
      })"

definition rpma_conn_cfg_get_compl_channel ::
  "ptr \<Rightarrow> bool option \<Rightarrow> st \<Rightarrow> ((rc \<times> bool option) \<times> st) option" where
  "rpma_conn_cfg_get_compl_channel cfg shared s =
     (if cfg = NULL \<or> shared = None then Some ((RPMA_E_INVAL, shared), s)
      else do { c \<leftarrow> load_conn_cfg cfg s; Some ((0, Some (cfg_shared_comp_channel c)), s) })"

definition INT_MAX :: int where "INT_MAX = 2147483647"

definition CLIP_TO_INT :: "u32 \<Rightarrow> int" where
  "CLIP_TO_INT sz = (if uint sz > INT_MAX then INT_MAX else uint sz)"

definition rpma_conn_cfg_get_cqe :: "ptr \<Rightarrow> st \<Rightarrow> (int \<times> st) option" where
  "rpma_conn_cfg_get_cqe cfg s = do {
     ((_, cq_size), s) \<leftarrow> rpma_conn_cfg_get_cq_size cfg (Some 0) s;
     Some (CLIP_TO_INT (the cq_size), s)
   }"

definition rpma_conn_cfg_get_rcqe :: "ptr \<Rightarrow> st \<Rightarrow> (int \<times> st) option" where
  "rpma_conn_cfg_get_rcqe cfg s = do {
     ((_, rcq_size), s) \<leftarrow> rpma_conn_cfg_get_rcq_size cfg (Some 0) s;
     Some (CLIP_TO_INT (the rcq_size), s)
   }"

subsection \<open>The register contract\<close>

locale cfg_field =
  fixes set_f :: "ptr \<Rightarrow> 'v \<Rightarrow> st \<Rightarrow> (rc \<times> st) option"
    and get_f :: "ptr \<Rightarrow> 'v option \<Rightarrow> st \<Rightarrow> ((rc \<times> 'v option) \<times> st) option"
    and upd :: "'v \<Rightarrow> rpma_conn_cfg \<Rightarrow> rpma_conn_cfg"
    and proj :: "rpma_conn_cfg \<Rightarrow> 'v"
    and valid :: "'v \<Rightarrow> bool"
  assumes set_ok: "obj_at p (O_conn_cfg c) s \<Longrightarrow> valid v \<Longrightarrow>
      set_f p v s = Some (0, s\<lparr>mem := (mem s)(p \<mapsto> O_conn_cfg (upd v c))\<rparr>)"
    and set_invalid: "p = NULL \<or> \<not> valid v \<Longrightarrow> set_f p v s = Some (RPMA_E_INVAL, s)"
    and get_ok: "p \<noteq> NULL \<Longrightarrow> load_conn_cfg p s = Some c \<Longrightarrow> get_f p (Some x) s = Some ((0, Some (proj c)), s)"
    and get_invalid: "p = NULL \<or> out = None \<Longrightarrow> get_f p out s = Some ((RPMA_E_INVAL, out), s)"
    and proj_upd: "proj (upd v c) = v"
begin

lemma get_after_set:
  assumes "obj_at p (O_conn_cfg c) s" and "valid v"
  shows "\<exists>s'. set_f p v s = Some (0, s') \<and> get_f p (Some x) s' = Some ((0, Some v), s')"
proof -
  let ?s = "s\<lparr>mem := (mem s)(p \<mapsto> O_conn_cfg (upd v c))\<rparr>"
  from assms have p: "p \<noteq> NULL" "p \<noteq> CONN_CFG_DEFAULT_ADDR"
    by (simp_all add: obj_at_def)
  then have "load_conn_cfg p ?s = Some (upd v c)" by simp
  with get_ok [OF p(1) this] set_ok [OF assms] show ?thesis
    by (simp add: proj_upd)
qed

end

lemmas conn_cfg_setters = rpma_conn_cfg_set_timeout_def rpma_conn_cfg_set_cq_size_def
  rpma_conn_cfg_set_rcq_size_def rpma_conn_cfg_set_sq_size_def rpma_conn_cfg_set_rq_size_def
  rpma_conn_cfg_set_compl_channel_def

lemmas conn_cfg_getters = rpma_conn_cfg_get_timeout_def rpma_conn_cfg_get_cq_size_def
  rpma_conn_cfg_get_rcq_size_def rpma_conn_cfg_get_sq_size_def rpma_conn_cfg_get_rq_size_def
  rpma_conn_cfg_get_compl_channel_def

lemma store_obj_at: "obj_at p x s \<Longrightarrow> store p y s = Some ((), s\<lparr>mem := (mem s)(p \<mapsto> y)\<rparr>)"
  by (simp add: store_def obj_at_def)

interpretation timeout: cfg_field rpma_conn_cfg_set_timeout rpma_conn_cfg_get_timeout
    "\<lambda>v c. c\<lparr>cfg_timeout_ms := v\<rparr>" cfg_timeout_ms "\<lambda>v. 0 \<le> v"
  by unfold_locales (auto simp: conn_cfg_setters conn_cfg_getters store_obj_at obj_at_nonnull)

interpretation cq_size: cfg_field rpma_conn_cfg_set_cq_size rpma_conn_cfg_get_cq_size
    "\<lambda>v c. c\<lparr>cfg_cq_size := v\<rparr>" cfg_cq_size "\<lambda>_. True"
  by unfold_locales (auto simp: conn_cfg_setters conn_cfg_getters store_obj_at obj_at_nonnull)

interpretation rcq_size: cfg_field rpma_conn_cfg_set_rcq_size rpma_conn_cfg_get_rcq_size
    "\<lambda>v c. c\<lparr>cfg_rcq_size := v\<rparr>" cfg_rcq_size "\<lambda>_. True"
  by unfold_locales (auto simp: conn_cfg_setters conn_cfg_getters store_obj_at obj_at_nonnull)

interpretation sq_size: cfg_field rpma_conn_cfg_set_sq_size rpma_conn_cfg_get_sq_size
    "\<lambda>v c. c\<lparr>cfg_sq_size := v\<rparr>" cfg_sq_size "\<lambda>_. True"
  by unfold_locales (auto simp: conn_cfg_setters conn_cfg_getters store_obj_at obj_at_nonnull)

interpretation rq_size: cfg_field rpma_conn_cfg_set_rq_size rpma_conn_cfg_get_rq_size
    "\<lambda>v c. c\<lparr>cfg_rq_size := v\<rparr>" cfg_rq_size "\<lambda>_. True"
  by unfold_locales (auto simp: conn_cfg_setters conn_cfg_getters store_obj_at obj_at_nonnull)

interpretation compl_channel: cfg_field rpma_conn_cfg_set_compl_channel
    rpma_conn_cfg_get_compl_channel "\<lambda>v c. c\<lparr>cfg_shared_comp_channel := v\<rparr>"
    cfg_shared_comp_channel "\<lambda>_. True"
  by unfold_locales (auto simp: conn_cfg_setters conn_cfg_getters store_obj_at obj_at_nonnull)

subsection \<open>Sequences of setter calls refine register updates\<close>

datatype cfg_op = Set_timeout int | Set_cq_size u32 | Set_rcq_size u32 | Set_sq_size u32
  | Set_rq_size u32 | Set_compl_channel bool

fun cfg_exec :: "ptr \<Rightarrow> cfg_op \<Rightarrow> st \<Rightarrow> (rc \<times> st) option" where
  "cfg_exec p (Set_timeout v) s = rpma_conn_cfg_set_timeout p v s"
| "cfg_exec p (Set_cq_size v) s = rpma_conn_cfg_set_cq_size p v s"
| "cfg_exec p (Set_rcq_size v) s = rpma_conn_cfg_set_rcq_size p v s"
| "cfg_exec p (Set_sq_size v) s = rpma_conn_cfg_set_sq_size p v s"
| "cfg_exec p (Set_rq_size v) s = rpma_conn_cfg_set_rq_size p v s"
| "cfg_exec p (Set_compl_channel v) s = rpma_conn_cfg_set_compl_channel p v s"

fun cfg_run :: "ptr \<Rightarrow> cfg_op list \<Rightarrow> st \<Rightarrow> (rc list \<times> st) option" where
  "cfg_run p [] s = Some ([], s)"
| "cfg_run p (x # xs) s = do {
     (ret, s) \<leftarrow> cfg_exec p x s;
     (rets, s) \<leftarrow> cfg_run p xs s;
     Some (ret # rets, s)
   }"

fun cfg_spec :: "cfg_op \<Rightarrow> rpma_conn_cfg \<Rightarrow> rpma_conn_cfg" where
  "cfg_spec (Set_timeout v) c = (if v < 0 then c else c\<lparr>cfg_timeout_ms := v\<rparr>)"
| "cfg_spec (Set_cq_size v) c = c\<lparr>cfg_cq_size := v\<rparr>"
| "cfg_spec (Set_rcq_size v) c = c\<lparr>cfg_rcq_size := v\<rparr>"
| "cfg_spec (Set_sq_size v) c = c\<lparr>cfg_sq_size := v\<rparr>"
| "cfg_spec (Set_rq_size v) c = c\<lparr>cfg_rq_size := v\<rparr>"
| "cfg_spec (Set_compl_channel v) c = c\<lparr>cfg_shared_comp_channel := v\<rparr>"

fun cfg_spec_rc :: "cfg_op \<Rightarrow> rc" where
  "cfg_spec_rc (Set_timeout v) = (if v < 0 then RPMA_E_INVAL else 0)"
| "cfg_spec_rc _ = 0"

lemma cfg_exec_refines:
  assumes "obj_at p (O_conn_cfg c) s"
  shows "cfg_exec p x s = Some (cfg_spec_rc x, s\<lparr>mem := (mem s)(p \<mapsto> O_conn_cfg (cfg_spec x c))\<rparr>)"
proof (cases x)
  case (Set_timeout v)
  have "s\<lparr>mem := (mem s)(p \<mapsto> O_conn_cfg c)\<rparr> = s"
    using assms by (simp add: obj_at_def map_upd_triv)
  with assms Set_timeout show ?thesis
    by (simp add: timeout.set_ok timeout.set_invalid [simplified])
qed (use assms in \<open>simp_all add: cq_size.set_ok rcq_size.set_ok sq_size.set_ok rq_size.set_ok
      compl_channel.set_ok\<close>)

lemma cfg_run_refines:
  "obj_at p (O_conn_cfg c) s \<Longrightarrow>
   cfg_run p xs s = Some (map cfg_spec_rc xs,
     s\<lparr>mem := (mem s)(p \<mapsto> O_conn_cfg (fold cfg_spec xs c))\<rparr>)"
proof (induction xs arbitrary: c s)
  case Nil
  then show ?case by (simp add: obj_at_def map_upd_triv)
next
  case (Cons x xs)
  let ?s = "s\<lparr>mem := (mem s)(p \<mapsto> O_conn_cfg (cfg_spec x c))\<rparr>"
  from Cons.prems have "obj_at p (O_conn_cfg (cfg_spec x c)) ?s"
    by (simp add: obj_at_def)
  from Cons.IH [OF this] cfg_exec_refines [OF Cons.prems] show ?case
    by (simp cong: if_cong)
qed



lemma CLIP_TO_INT_min: "CLIP_TO_INT v = min INT_MAX (uint v)"
  by (simp add: CLIP_TO_INT_def min_def)

lemma rpma_conn_cfg_get_cqe_eq:
  "p \<noteq> NULL \<Longrightarrow> load_conn_cfg p s = Some c \<Longrightarrow>
     rpma_conn_cfg_get_cqe p s = Some (CLIP_TO_INT (cfg_cq_size c), s)"
  by (simp add: rpma_conn_cfg_get_cqe_def cq_size.get_ok)

lemma rpma_conn_cfg_get_rcqe_eq:
  "p \<noteq> NULL \<Longrightarrow> load_conn_cfg p s = Some c \<Longrightarrow>
     rpma_conn_cfg_get_rcqe p s = Some (CLIP_TO_INT (cfg_rcq_size c), s)"
  by (simp add: rpma_conn_cfg_get_rcqe_def rcq_size.get_ok)

subsection \<open>Sizes passed to the provider\<close>

text \<open>Queue sizes never wrap. The unsigned 32-bit sizes of a configuration reach the provider, which
  takes a signed \<open>int\<close>, as the same number or, if they do not fit, as the largest \<open>int\<close>; in particular
  a receive queue of non-zero size is never taken for an absent one.\<close>

lemma cqe_never_wraps:
  assumes "cfg \<noteq> NULL" and "load_conn_cfg cfg s = Some c"
  shows "\<exists>cqe rcqe. rpma_conn_cfg_get_cqe cfg s = Some (cqe, s) \<and> rpma_conn_cfg_get_rcqe cfg s = Some (rcqe, s) \<and>
     cqe = min (uint (cfg_cq_size c)) INT_MAX \<and> rcqe = min (uint (cfg_rcq_size c)) INT_MAX \<and>
     0 \<le> cqe \<and> cqe \<le> INT_MAX \<and> (rcqe = 0 \<longleftrightarrow> cfg_rcq_size c = 0)"
proof -
  have "uint (cfg_rcq_size c) = 0 \<longleftrightarrow> cfg_rcq_size c = 0" by (simp add: uint_0_iff)
  then show ?thesis
    using cq_size.get_ok [OF assms] rcq_size.get_ok [OF assms]
    by (auto simp: rpma_conn_cfg_get_cqe_def rpma_conn_cfg_get_rcqe_def CLIP_TO_INT_def INT_MAX_def min_def)
qed

end
