(* ===== verification/Peer.thy ===== *)
theory Peer
  imports Utils Cq Conn_Cfg
begin

text \<open>
  Peers: \<open>src/src/peer.c\<close>. A peer wraps a protection domain and remembers whether the device
  supports On-Demand Paging; memory registrations and queue pairs are created through it. The
  masks of the source are kept: a usage is a C \<open>int\<close> with the \<open>RPMA_MR_USAGE_*\<close> bits, an
  access mask is the set of the verbs flags that are or-ed together.
\<close>

subsection \<open>Constants\<close>

definition RPMA_MR_USAGE_READ_SRC :: c_int where "RPMA_MR_USAGE_READ_SRC = 0x01"
definition RPMA_MR_USAGE_READ_DST :: c_int where "RPMA_MR_USAGE_READ_DST = 0x02"
definition RPMA_MR_USAGE_WRITE_SRC :: c_int where "RPMA_MR_USAGE_WRITE_SRC = 0x04"
definition RPMA_MR_USAGE_WRITE_DST :: c_int where "RPMA_MR_USAGE_WRITE_DST = 0x08"
definition RPMA_MR_USAGE_FLUSH_TYPE_VISIBILITY :: c_int where
  "RPMA_MR_USAGE_FLUSH_TYPE_VISIBILITY = 0x10"
definition RPMA_MR_USAGE_FLUSH_TYPE_PERSISTENT :: c_int where
  "RPMA_MR_USAGE_FLUSH_TYPE_PERSISTENT = 0x20"
definition RPMA_MR_USAGE_SEND :: c_int where "RPMA_MR_USAGE_SEND = 0x40"
definition RPMA_MR_USAGE_RECV :: c_int where "RPMA_MR_USAGE_RECV = 0x80"

lemmas usage_defs = RPMA_MR_USAGE_READ_SRC_def RPMA_MR_USAGE_READ_DST_def
  RPMA_MR_USAGE_WRITE_SRC_def RPMA_MR_USAGE_WRITE_DST_def
  RPMA_MR_USAGE_FLUSH_TYPE_VISIBILITY_def RPMA_MR_USAGE_FLUSH_TYPE_PERSISTENT_def
  RPMA_MR_USAGE_SEND_def RPMA_MR_USAGE_RECV_def

definition RPMA_MAX_SGE :: u32 where "RPMA_MAX_SGE = 1"
definition RPMA_MAX_INLINE_DATA :: u32 where "RPMA_MAX_INLINE_DATA = 8"

text \<open>\<open>errno(3)\<close> values the source compares with.\<close>

definition ENOMEM :: int where "ENOMEM = 12"
definition EFAULT :: int where "EFAULT = 14"
definition EINVAL :: int where "EINVAL = 22"
definition ENODATA :: int where "ENODATA = 61"
definition EOPNOTSUPP :: int where "EOPNOTSUPP = 95"
definition ENOTSUP :: int where "ENOTSUP = 95"

subsection \<open>Operations\<close>

definition rpma_peer_usage_to_access :: "env \<Rightarrow> ptr \<Rightarrow> c_int \<Rightarrow> st \<Rightarrow> ibv_access set option" where
  "rpma_peer_usage_to_access E peer usage s = do {
     p \<leftarrow> load_peer peer s;
     let type = pd_transport_type E (peer_pd p);
     let access = {};
     let access =
       (if usage AND (RPMA_MR_USAGE_READ_SRC OR RPMA_MR_USAGE_FLUSH_TYPE_VISIBILITY OR
                      RPMA_MR_USAGE_FLUSH_TYPE_PERSISTENT) \<noteq> 0
        then access \<union> {IBV_ACCESS_REMOTE_READ} else access);
     let access =
       (if usage AND RPMA_MR_USAGE_READ_DST \<noteq> 0
        then access \<union> {IBV_ACCESS_LOCAL_WRITE} \<union>
          (if type = IBV_TRANSPORT_IWARP then {IBV_ACCESS_REMOTE_WRITE} else {})
        else access);
     let access =
       (if usage AND RPMA_MR_USAGE_WRITE_SRC \<noteq> 0 then access \<union> {IBV_ACCESS_LOCAL_WRITE} else access);
     let access =
       (if usage AND RPMA_MR_USAGE_WRITE_DST \<noteq> 0
        then access \<union> {IBV_ACCESS_REMOTE_WRITE, IBV_ACCESS_LOCAL_WRITE} else access);
     let access =
       (if usage AND RPMA_MR_USAGE_RECV \<noteq> 0 then access \<union> {IBV_ACCESS_LOCAL_WRITE} else access);
     Some access
   }"

definition rpma_peer_create_qp ::
  "env \<Rightarrow> ptr \<Rightarrow> ptr \<Rightarrow> ptr \<Rightarrow> ptr \<Rightarrow> ptr \<Rightarrow> st \<Rightarrow> (rc \<times> st) option" where
  "rpma_peer_create_qp E peer cm_id cq rcq cfg s =
     (if peer = NULL \<or> cm_id = NULL \<or> cq = NULL then Some (RPMA_E_INVAL, s)
      else do {
        ((_, sq_size), s) \<leftarrow> rpma_conn_cfg_get_sq_size cfg (Some 0) s;
        ((_, rq_size), s) \<leftarrow> rpma_conn_cfg_get_rq_size cfg (Some 0) s;
        ibv_cq \<leftarrow> rpma_cq_get_ibv_cq cq s;
        recv_cq \<leftarrow> (if rcq \<noteq> NULL then rpma_cq_get_ibv_cq rcq s else Some ibv_cq);
        p \<leftarrow> load_peer peer s;
        (r, s) \<leftarrow> ext E (Rdma_create_qp cm_id (peer_pd p)
          \<lparr>qpa_send_cq = ibv_cq, qpa_recv_cq = recv_cq,
           qpa_max_send_wr = the sq_size, qpa_max_recv_wr = the rq_size,
           qpa_max_send_sge = RPMA_MAX_SGE, qpa_max_recv_sge = RPMA_MAX_SGE,
           qpa_max_inline_data = RPMA_MAX_INLINE_DATA, qpa_rc = True, qpa_sq_sig_all = 0\<rparr>) s;
        if rint r \<noteq> 0 then Some (RPMA_E_PROVIDER, s) else Some (0, s)
      })"

definition rpma_peer_mr_reg ::
  "env \<Rightarrow> ptr \<Rightarrow> u64 \<Rightarrow> u64 \<Rightarrow> c_int \<Rightarrow> st \<Rightarrow> ((rc \<times> ibv_mr option) \<times> st) option" where
  "rpma_peer_mr_reg E peer addr len usage s = do {
     access \<leftarrow> rpma_peer_usage_to_access E peer usage s;
     p \<leftarrow> load_peer peer s;
     (r, s) \<leftarrow> ext E (Ibv_reg_mr (peer_pd p) addr len access) s;
     if rptr r \<noteq> NULL then Some ((0, Some (rmr r)), s)
     else if \<not> on_demand_paging_supported E then Some ((RPMA_E_PROVIDER, None), s)
     else if errno s \<noteq> EOPNOTSUPP then Some ((RPMA_E_PROVIDER, None), s)
     else if peer_is_odp_supported p = 0 then Some ((RPMA_E_PROVIDER, None), s)
     else do {
       (r, s) \<leftarrow> ext E (Ibv_reg_mr (peer_pd p) addr len (access \<union> {IBV_ACCESS_ON_DEMAND})) s;
       if rptr r = NULL then Some ((RPMA_E_PROVIDER, None), s)
       else Some ((0, Some (rmr r)), s)
     }
   }"

definition rpma_peer_new ::
  "env \<Rightarrow> ptr \<Rightarrow> ptr option \<Rightarrow> st \<Rightarrow> ((rc \<times> ptr option) \<times> st) option" where
  "rpma_peer_new E ibv_ctx peer_ptr s =
     (if ibv_ctx = NULL \<or> peer_ptr = None then Some ((RPMA_E_INVAL, peer_ptr), s)
      else do {
        ((ret, is_odp_supported), s) \<leftarrow> rpma_utils_ibv_context_is_odp_capable E ibv_ctx (Some 0) s;
        if ret \<noteq> 0 then Some ((ret, peer_ptr), s)
        else do {
          let s = set_errno 0 s;
          (r, s) \<leftarrow> ext E (Ibv_alloc_pd ibv_ctx) s;
          let pd = rptr r;
          if pd = NULL then
            (if errno s = ENOMEM then Some ((RPMA_E_NOMEM, peer_ptr), s)
             else if errno s \<noteq> 0 then Some ((RPMA_E_PROVIDER, peer_ptr), s)
             else Some ((RPMA_E_UNKNOWN, peer_ptr), s))
          else do {
            (peer, s) \<leftarrow> malloc E s;
            if peer = NULL then do {
              (_, s) \<leftarrow> ext E (Ibv_dealloc_pd pd) s;
              Some ((RPMA_E_NOMEM, peer_ptr), s)
            } else do {
              (_, s) \<leftarrow> store peer
                (O_peer \<lparr>peer_pd = pd, peer_is_odp_supported = the is_odp_supported\<rparr>) s;
              Some ((0, Some peer), s)
            }
          }
        }
      })"

definition rpma_peer_delete ::
  "env \<Rightarrow> ptr option \<Rightarrow> st \<Rightarrow> ((rc \<times> ptr option) \<times> st) option" where
  "rpma_peer_delete E peer_ptr s =
     (case peer_ptr of
        None \<Rightarrow> Some ((RPMA_E_INVAL, peer_ptr), s)
      | Some peer \<Rightarrow>
          if peer = NULL then Some ((0, peer_ptr), s)
          else do {
            p \<leftarrow> load_peer peer s;
            (r, s) \<leftarrow> ext E (Ibv_dealloc_pd (peer_pd p)) s;
            let ret = (if rint r \<noteq> 0 then RPMA_E_PROVIDER else 0);
            (_, s) \<leftarrow> free peer s;
            Some ((ret, Some NULL), s)
          })"

subsection \<open>Access masks\<close>

text \<open>The mask a usage is translated to, flag by flag.\<close>

definition access_of :: "ibv_transport_type \<Rightarrow> c_int \<Rightarrow> ibv_access set" where
  "access_of type usage = {a.
     a = IBV_ACCESS_REMOTE_READ \<and> (bit usage 0 \<or> bit usage 4 \<or> bit usage 5) \<or>
     a = IBV_ACCESS_LOCAL_WRITE \<and> (bit usage 1 \<or> bit usage 2 \<or> bit usage 3 \<or> bit usage 7) \<or>
     a = IBV_ACCESS_REMOTE_WRITE \<and> (bit usage 3 \<or> bit usage 1 \<and> type = IBV_TRANSPORT_IWARP)}"

lemma and_pow2_iff: "n < LENGTH('a) \<Longrightarrow> (w :: 'a::len word) AND 2 ^ n \<noteq> 0 \<longleftrightarrow> bit w n"
  by (simp add: and_exp_eq_0_iff_not_bit)

lemma usage_bit_iffs:
  fixes usage :: c_int
  shows "usage AND RPMA_MR_USAGE_READ_DST = 0 \<longleftrightarrow> \<not> bit usage 1"
    and "usage AND RPMA_MR_USAGE_WRITE_SRC = 0 \<longleftrightarrow> \<not> bit usage 2"
    and "usage AND RPMA_MR_USAGE_WRITE_DST = 0 \<longleftrightarrow> \<not> bit usage 3"
    and "usage AND RPMA_MR_USAGE_RECV = 0 \<longleftrightarrow> \<not> bit usage 7"
    and "usage AND RPMA_MR_USAGE_FLUSH_TYPE_PERSISTENT = 0 \<longleftrightarrow> \<not> bit usage 5"
    and "usage AND RPMA_MR_USAGE_FLUSH_TYPE_VISIBILITY = 0 \<longleftrightarrow> \<not> bit usage 4"
  using and_pow2_iff [of 1 usage] and_pow2_iff [of 2 usage] and_pow2_iff [of 3 usage]
    and_pow2_iff [of 7 usage] and_pow2_iff [of 5 usage] and_pow2_iff [of 4 usage]
  by (auto simp: usage_defs)

lemma usage_read_iff:
  fixes usage :: c_int
  shows "usage AND (RPMA_MR_USAGE_READ_SRC OR RPMA_MR_USAGE_FLUSH_TYPE_VISIBILITY OR
      RPMA_MR_USAGE_FLUSH_TYPE_PERSISTENT) = 0 \<longleftrightarrow> \<not> bit usage 0 \<and> \<not> bit usage 4 \<and> \<not> bit usage 5"
  using and_pow2_iff [of 0 usage] and_pow2_iff [of 4 usage] and_pow2_iff [of 5 usage]
  by (simp only: usage_defs bit.conj_disj_distrib or_eq_0_iff) auto

lemma usage_to_access_eq:
  "load_peer peer s = Some p \<Longrightarrow>
   rpma_peer_usage_to_access E peer usage s = Some (access_of (pd_transport_type E (peer_pd p)) usage)"
  unfolding rpma_peer_usage_to_access_def
  by (auto simp: Let_def usage_bit_iffs usage_read_iff access_of_def)



subsection \<open>Specifications\<close>

definition peer_res :: "rpma_peer \<Rightarrow> res multiset" where
  "peer_res p = {#R_pd (peer_pd p)#}"

lemma wp_rpma_peer_create_qp [wp_specs]:
  assumes "obj_at peer (O_peer p) s" and "obj_at cq (O_cq c) s" and "load_conn_cfg cfg s = Some f"
    and "cfg \<noteq> NULL" and "rcq \<noteq> NULL \<Longrightarrow> \<exists>d. obj_at rcq (O_cq d) s" and "ledger_ok s"
    and "\<And>s'. ledger_ok s' \<Longrightarrow> mem s' = mem s \<Longrightarrow> acct s' = add_mset (R_qp cm_id) (acct s) \<Longrightarrow> Q 0 s'"
    and "\<And>ret s'. ledger_ok s' \<Longrightarrow> mem s' = mem s \<Longrightarrow> acct s' = acct s \<Longrightarrow>
       ret \<in> {RPMA_E_PROVIDER, RPMA_E_INVAL} \<Longrightarrow> Q ret s'"
  shows "wp (rpma_peer_create_qp E peer cm_id cq rcq cfg s) Q"
  using assms(1-6) unfolding rpma_peer_create_qp_def
  by (auto simp: obj_at_nonnull sq_size.get_ok rq_size.get_ok rpma_cq_get_ibv_cq_def
      intro!: wp_ext assms(7,8))

lemma wp_rpma_peer_mr_reg [wp_specs]:
  assumes "obj_at peer (O_peer p) s" and "ledger_ok s"
    and "\<And>m s'. ledger_ok s' \<Longrightarrow> mem s' = mem s \<Longrightarrow> acct s' = add_mset (R_mr (mr_handle m)) (acct s) \<Longrightarrow>
       Q (0, Some m) s'"
    and "\<And>ret s'. ledger_ok s' \<Longrightarrow> mem s' = mem s \<Longrightarrow> acct s' = acct s \<Longrightarrow> ret = RPMA_E_PROVIDER \<Longrightarrow>
       Q (ret, None) s'"
  shows "wp (rpma_peer_mr_reg E peer addr len usage s) Q"
  using assms(1,2) unfolding rpma_peer_mr_reg_def
  by (auto simp: usage_to_access_eq intro!: wp_ext assms(3,4))

lemma wp_rpma_peer_new [wp_specs]:
  assumes "ledger_ok s" and "ibv_ctx \<noteq> NULL"
    and "\<And>q p s'. ledger_ok s' \<Longrightarrow> fresh q s \<Longrightarrow> mem s' = (mem s)(q \<mapsto> O_peer p) \<Longrightarrow>
       acct s' = acct s + peer_res p \<Longrightarrow> peer_is_odp_supported p \<in> {0, 1} \<Longrightarrow>
       (peer_is_odp_supported p = 1 \<longrightarrow> on_demand_paging_supported E) \<Longrightarrow> Q (0, Some q) s'"
    and "\<And>ret s'. ledger_ok s' \<Longrightarrow> mem s' = mem s \<Longrightarrow> acct s' = acct s \<Longrightarrow>
       ret \<in> {RPMA_E_NOMEM, RPMA_E_PROVIDER, RPMA_E_UNKNOWN} \<Longrightarrow> Q (ret, Some x) s'"
  shows "wp (rpma_peer_new E ibv_ctx (Some x) s) Q"
  using assms(1,2) unfolding rpma_peer_new_def
  by (auto simp: Let_def fresh_def peer_res_def
      intro!: wp_rpma_utils_ibv_context_is_odp_capable wp_ext wp_malloc wp_store assms(3,4))

lemma wp_rpma_peer_delete [wp_specs]:
  assumes "obj_at q (O_peer p) s" and "ledger_ok s" and "peer_res p \<subseteq># acct s"
    and "\<And>ret s'. ledger_ok s' \<Longrightarrow> mem s' = (mem s)(q := None) \<Longrightarrow> acct s' = acct s - peer_res p \<Longrightarrow>
       ret \<in> {0, RPMA_E_PROVIDER} \<Longrightarrow> Q (ret, Some NULL) s'"
  shows "wp (rpma_peer_delete E (Some q) s) Q"
  using assms(1-3) unfolding rpma_peer_delete_def
  by (auto simp: Let_def peer_res_def obj_at_nonnull intro!: wp_ext wp_free assms(4))

subsection \<open>The life of a peer\<close>

definition owns_peer :: "ptr \<Rightarrow> ptr set \<Rightarrow> res multiset \<Rightarrow> st \<Rightarrow> bool" where
  "owns_peer q B R s \<longleftrightarrow> (\<exists>p. obj_at q (O_peer p) s \<and> B = {q} \<and> R = peer_res p)"

definition peer_new_use :: "env \<Rightarrow> ptr \<Rightarrow> st \<Rightarrow> ((rc \<times> ptr) \<times> st) option" where
  "peer_new_use E ibv_ctx s = do {
     ((ret, q), s) \<leftarrow> rpma_peer_new E ibv_ctx (Some NULL) s;
     Some ((ret, the q), s)
   }"

definition peer_delete_use :: "env \<Rightarrow> ptr \<Rightarrow> st \<Rightarrow> ((rc \<times> ptr) \<times> st) option" where
  "peer_delete_use E peer s = do {
     ((ret, q), s) \<leftarrow> rpma_peer_delete E (Some peer) s;
     Some ((ret, the q), s)
   }"

interpretation peer_life: lifecycle "peer_new_use E ibv_ctx" "peer_delete_use E" owns_peer "\<lambda>s. ibv_ctx \<noteq> NULL"
  for E ibv_ctx
proof unfold_locales
  fix s :: st
  assume "ledger_ok s" and "ibv_ctx \<noteq> NULL"
  then show "wp (peer_new_use E ibv_ctx s) (\<lambda>(ret, q) s'. ledger_ok s' \<and>
      (if ret = 0 then \<exists>B R. owns_peer q B R s' \<and> created B R s s' else unchanged s s'))"
    unfolding peer_new_use_def wp_bind
    by (intro wp_rpma_peer_new) (auto simp: owns_peer_def unchanged_def intro: created_one fresh_obj_at)
next
  fix s :: st and q B R
  assume "ledger_ok s" and "owns_peer q B R s" and "R \<subseteq># acct s"
  then show "wp (peer_delete_use E q s) (\<lambda>(ret, q') s'. ledger_ok s' \<and> q' = NULL \<and> destroyed B R s s')"
    by (auto simp: peer_delete_use_def owns_peer_def intro!: wp_rpma_peer_delete destroyed_one)
qed

end
