(* ===== verification/Mr.thy ===== *)
theory Mr
  imports Peer
begin

text \<open>
  Memory regions: \<open>src/src/mr.c\<close>. Local regions wrap a verbs registration, remote regions are
  what a descriptor received from the other side says; the operations build one work request
  and post it. Address arithmetic is on 64-bit words and wraps, lengths are truncated to 32 bits,
  as in the source. The size of a caller's buffer is the length of its byte list.
\<close>

subsection \<open>Constants\<close>

definition RPMA_F_COMPLETION_ON_ERROR :: c_int where "RPMA_F_COMPLETION_ON_ERROR = 1"
definition RPMA_F_COMPLETION_ALWAYS :: c_int where
  "RPMA_F_COMPLETION_ALWAYS = 2 OR RPMA_F_COMPLETION_ON_ERROR"
definition RPMA_F_COMPLETION_ON_SUCCESS :: c_int where
  "RPMA_F_COMPLETION_ON_SUCCESS = RPMA_F_COMPLETION_ALWAYS AND NOT RPMA_F_COMPLETION_ON_ERROR"

definition USAGE_ALL_ALLOWED :: c_int where
  "USAGE_ALL_ALLOWED = RPMA_MR_USAGE_READ_SRC OR RPMA_MR_USAGE_READ_DST OR
     RPMA_MR_USAGE_WRITE_SRC OR RPMA_MR_USAGE_WRITE_DST OR
     RPMA_MR_USAGE_SEND OR RPMA_MR_USAGE_RECV OR
     RPMA_MR_USAGE_FLUSH_TYPE_VISIBILITY OR RPMA_MR_USAGE_FLUSH_TYPE_PERSISTENT"

definition RPMA_MR_DESC_SIZE :: nat where "RPMA_MR_DESC_SIZE = 2 * 8 + 4 + 1"

definition signaled :: "c_int \<Rightarrow> ibv_send_flag set" where
  "signaled flags = (if flags AND RPMA_F_COMPLETION_ON_SUCCESS \<noteq> 0 then {IBV_SEND_SIGNALED} else {})"

definition local_sge :: "rpma_mr_local \<Rightarrow> u64 \<Rightarrow> u64 \<Rightarrow> ibv_sge" where
  "local_sge m off len =
     \<lparr>sge_addr = mr_addr (mrl_ibv_mr m) + off, sge_length = ucast len,
      sge_lkey = Some (mr_lkey (mrl_ibv_mr m))\<rparr>"

text \<open>\<open>htonl(3)\<close>: the bytes in memory are in network order.\<close>

definition htonl_bytes :: "u32 \<Rightarrow> u8 list" where
  "htonl_bytes imm = rev (le_bytes 4 imm)"

subsection \<open>Posting work requests\<close>

definition rpma_mr_read ::
  "env \<Rightarrow> ptr \<Rightarrow> ptr \<Rightarrow> u64 \<Rightarrow> ptr \<Rightarrow> u64 \<Rightarrow> u64 \<Rightarrow> c_int \<Rightarrow> u64 \<Rightarrow> st \<Rightarrow> (rc \<times> st) option" where
  "rpma_mr_read E qp dst dst_offset src src_offset len flags op_context s = do {
     (rdma, sg_list, num_sge) \<leftarrow>
       (if src = NULL then Some ((0, 0), None, 0)
        else do {
          r \<leftarrow> load_mr_remote src s;
          d \<leftarrow> load_mr_local dst s;
          Some ((mrr_raddr r + src_offset, mrr_rkey r), Some (local_sge d dst_offset len), 1)
        });
     let wr = \<lparr>wr_id = op_context, wr_sg_list = sg_list, wr_num_sge = num_sge,
               wr_opcode = IBV_WR_RDMA_READ, wr_send_flags = signaled flags,
               wr_imm_data = None, wr_rdma = Some rdma\<rparr>;
     (r, s) \<leftarrow> ext E (Ibv_post_send qp wr) s;
     if rint r \<noteq> 0 then Some (RPMA_E_PROVIDER, s) else Some (0, s)
   }"

definition rpma_mr_write ::
  "env \<Rightarrow> ptr \<Rightarrow> ptr \<Rightarrow> u64 \<Rightarrow> ptr \<Rightarrow> u64 \<Rightarrow> u64 \<Rightarrow> c_int \<Rightarrow> ibv_wr_opcode \<Rightarrow> u32 \<Rightarrow> u64 \<Rightarrow> st
    \<Rightarrow> (rc \<times> st) option" where
  "rpma_mr_write E qp dst dst_offset src src_offset len flags operation imm op_context s = do {
     (rdma, sg_list, num_sge) \<leftarrow>
       (if src = NULL then Some ((0, 0), None, 0)
        else do {
          l \<leftarrow> load_mr_local src s;
          r \<leftarrow> load_mr_remote dst s;
          Some ((mrr_raddr r + dst_offset, mrr_rkey r), Some (local_sge l src_offset len), 1)
        });
     if operation \<noteq> IBV_WR_RDMA_WRITE \<and> operation \<noteq> IBV_WR_RDMA_WRITE_WITH_IMM
     then Some (RPMA_E_NOSUPP, s)
     else do {
       let wr = \<lparr>wr_id = op_context, wr_sg_list = sg_list, wr_num_sge = num_sge,
                 wr_opcode = operation, wr_send_flags = signaled flags,
                 wr_imm_data =
                   (if operation = IBV_WR_RDMA_WRITE_WITH_IMM then Some (htonl_bytes imm) else None),
                 wr_rdma = Some rdma\<rparr>;
       (r, s) \<leftarrow> ext E (Ibv_post_send qp wr) s;
       if rint r \<noteq> 0 then Some (RPMA_E_PROVIDER, s) else Some (0, s)
     }
   }"

text \<open>The source buffer of an atomic write is the caller's \<open>char[8]\<close>, given by its address.\<close>

definition rpma_mr_atomic_write ::
  "env \<Rightarrow> ptr \<Rightarrow> ptr \<Rightarrow> u64 \<Rightarrow> u64 \<Rightarrow> c_int \<Rightarrow> u64 \<Rightarrow> st \<Rightarrow> (rc \<times> st) option" where
  "rpma_mr_atomic_write E qp dst dst_offset src flags op_context s = do {
     r \<leftarrow> load_mr_remote dst s;
     let wr = \<lparr>wr_id = op_context,
               wr_sg_list = Some \<lparr>sge_addr = src, sge_length = 8, sge_lkey = None\<rparr>,
               wr_num_sge = 1, wr_opcode = IBV_WR_RDMA_WRITE,
               wr_send_flags = {IBV_SEND_INLINE, IBV_SEND_FENCE} \<union> signaled flags,
               wr_imm_data = None, wr_rdma = Some (mrr_raddr r + dst_offset, mrr_rkey r)\<rparr>;
     (r, s) \<leftarrow> ext E (Ibv_post_send qp wr) s;
     if rint r \<noteq> 0 then Some (RPMA_E_PROVIDER, s) else Some (0, s)
   }"

definition rpma_mr_send ::
  "env \<Rightarrow> ptr \<Rightarrow> ptr \<Rightarrow> u64 \<Rightarrow> u64 \<Rightarrow> c_int \<Rightarrow> ibv_wr_opcode \<Rightarrow> u32 \<Rightarrow> u64 \<Rightarrow> st \<Rightarrow> (rc \<times> st) option" where
  "rpma_mr_send E qp src offset len flags operation imm op_context s = do {
     (sg_list, num_sge) \<leftarrow>
       (if src = NULL then Some (None, 0)
        else do { l \<leftarrow> load_mr_local src s; Some (Some (local_sge l offset len), 1) });
     if operation \<noteq> IBV_WR_SEND \<and> operation \<noteq> IBV_WR_SEND_WITH_IMM then Some (RPMA_E_NOSUPP, s)
     else do {
       let wr = \<lparr>wr_id = op_context, wr_sg_list = sg_list, wr_num_sge = num_sge,
                 wr_opcode = operation, wr_send_flags = signaled flags,
                 wr_imm_data =
                   (if operation = IBV_WR_SEND_WITH_IMM then Some (htonl_bytes imm) else None),
                 wr_rdma = None\<rparr>;
       (r, s) \<leftarrow> ext E (Ibv_post_send qp wr) s;
       if rint r \<noteq> 0 then Some (RPMA_E_PROVIDER, s) else Some (0, s)
     }
   }"

definition rpma_mr_recv ::
  "env \<Rightarrow> ptr \<Rightarrow> ptr \<Rightarrow> u64 \<Rightarrow> u64 \<Rightarrow> u64 \<Rightarrow> st \<Rightarrow> (rc \<times> st) option" where
  "rpma_mr_recv E qp dst offset len op_context s = do {
     (sg_list, num_sge) \<leftarrow>
       (if dst = NULL then Some (None, 0)
        else do { l \<leftarrow> load_mr_local dst s; Some (Some (local_sge l offset len), 1) });
     (r, s) \<leftarrow> ext E (Ibv_post_recv qp
        \<lparr>rwr_id = op_context, rwr_sg_list = sg_list, rwr_num_sge = num_sge\<rparr>) s;
     if rint r \<noteq> 0 then Some (RPMA_E_PROVIDER, s) else Some (0, s)
   }"

subsection \<open>Registration\<close>

definition rpma_mr_reg ::
  "env \<Rightarrow> ptr \<Rightarrow> u64 \<Rightarrow> u64 \<Rightarrow> c_int \<Rightarrow> ptr option \<Rightarrow> st \<Rightarrow> ((rc \<times> ptr option) \<times> st) option" where
  "rpma_mr_reg E peer addr len usage mr_ptr s =
     (if peer = NULL \<or> addr = 0 \<or> len = 0 \<or> mr_ptr = None then Some ((RPMA_E_INVAL, mr_ptr), s)
      else if usage = 0 \<or> usage AND NOT USAGE_ALL_ALLOWED \<noteq> 0 then Some ((RPMA_E_INVAL, mr_ptr), s)
      else do {
        (mr, s) \<leftarrow> malloc E s;
        if mr = NULL then Some ((RPMA_E_NOMEM, mr_ptr), s)
        else do {
          ((ret, ibv_mr), s) \<leftarrow> rpma_peer_mr_reg E peer addr len usage s;
          if ret \<noteq> 0 then do {
            (_, s) \<leftarrow> free mr s;
            Some ((ret, mr_ptr), s)
          } else do {
            (_, s) \<leftarrow> store mr (O_mr_local \<lparr>mrl_ibv_mr = the ibv_mr, mrl_usage = usage\<rparr>) s;
            Some ((0, Some mr), s)
          }
        }
      })"

definition rpma_mr_dereg ::
  "env \<Rightarrow> ptr option \<Rightarrow> st \<Rightarrow> ((rc \<times> ptr option) \<times> st) option" where
  "rpma_mr_dereg E mr_ptr s =
     (case mr_ptr of
        None \<Rightarrow> Some ((RPMA_E_INVAL, mr_ptr), s)
      | Some mr \<Rightarrow>
          if mr = NULL then Some ((0, mr_ptr), s)
          else do {
            m \<leftarrow> load_mr_local mr s;
            (r, s) \<leftarrow> ext E (Ibv_dereg_mr (mr_handle (mrl_ibv_mr m))) s;
            let s = set_errno (rint r) s;
            let ret = (if errno s \<noteq> 0 then RPMA_E_PROVIDER else 0);
            (_, s) \<leftarrow> free mr s;
            Some ((ret, Some NULL), s)
          })"

subsection \<open>Descriptors\<close>

definition rpma_mr_get_descriptor ::
  "ptr \<Rightarrow> u8 list option \<Rightarrow> st \<Rightarrow> ((rc \<times> u8 list option) \<times> st) option" where
  "rpma_mr_get_descriptor mr desc s =
     (case desc of
        None \<Rightarrow> Some ((RPMA_E_INVAL, desc), s)
      | Some buff \<Rightarrow>
          if mr = NULL then Some ((RPMA_E_INVAL, desc), s)
          else do {
            m \<leftarrow> load_mr_local mr s;
            buff \<leftarrow> write_bytes 0 (le_bytes 8 (mr_addr (mrl_ibv_mr m))) buff;
            buff \<leftarrow> write_bytes 8 (le_bytes 8 (mr_length (mrl_ibv_mr m))) buff;
            buff \<leftarrow> write_bytes 16 (le_bytes 4 (mr_rkey (mrl_ibv_mr m))) buff;
            buff \<leftarrow> write_bytes 20 [ucast (mrl_usage m)] buff;
            Some ((0, Some buff), s)
          })"

definition rpma_mr_remote_from_descriptor ::
  "env \<Rightarrow> u8 list option \<Rightarrow> nat \<Rightarrow> ptr option \<Rightarrow> st \<Rightarrow> ((rc \<times> ptr option) \<times> st) option" where
  "rpma_mr_remote_from_descriptor E desc desc_size mr_ptr s =
     (case desc of
        None \<Rightarrow> Some ((RPMA_E_INVAL, mr_ptr), s)
      | Some buff \<Rightarrow>
          if mr_ptr = None then Some ((RPMA_E_INVAL, mr_ptr), s)
          else if desc_size < RPMA_MR_DESC_SIZE then Some ((RPMA_E_INVAL, mr_ptr), s)
          else do {
            raddr \<leftarrow> read_bytes 0 8 buff;
            sz \<leftarrow> read_bytes 8 8 buff;
            rkey \<leftarrow> read_bytes 16 4 buff;
            usage_byte \<leftarrow> read_bytes 20 1 buff;
            let usage = hd usage_byte;
            if usage = 0 then Some ((RPMA_E_INVAL, mr_ptr), s)
            else do {
              (mr, s) \<leftarrow> malloc E s;
              if mr = NULL then Some ((RPMA_E_NOMEM, mr_ptr), s)
              else do {
                (_, s) \<leftarrow> store mr (O_mr_remote
                  \<lparr>mrr_raddr = le_val raddr, mrr_size = le_val sz, mrr_rkey = le_val rkey,
                   mrr_usage = ucast usage\<rparr>) s;
                Some ((0, Some mr), s)
              }
            }
          })"

definition rpma_mr_get_descriptor_size ::
  "ptr \<Rightarrow> nat option \<Rightarrow> st \<Rightarrow> ((rc \<times> nat option) \<times> st) option" where
  "rpma_mr_get_descriptor_size mr desc_size s =
     (if mr = NULL \<or> desc_size = None then Some ((RPMA_E_INVAL, desc_size), s)
      else Some ((0, Some RPMA_MR_DESC_SIZE), s))"

subsection \<open>Accessors\<close>

definition rpma_mr_get_ptr ::
  "ptr \<Rightarrow> u64 option \<Rightarrow> st \<Rightarrow> ((rc \<times> u64 option) \<times> st) option" where
  "rpma_mr_get_ptr mr out s =
     (if mr = NULL \<or> out = None then Some ((RPMA_E_INVAL, out), s)
      else do { m \<leftarrow> load_mr_local mr s; Some ((0, Some (mr_addr (mrl_ibv_mr m))), s) })"

definition rpma_mr_get_size ::
  "ptr \<Rightarrow> u64 option \<Rightarrow> st \<Rightarrow> ((rc \<times> u64 option) \<times> st) option" where
  "rpma_mr_get_size mr out s =
     (if mr = NULL \<or> out = None then Some ((RPMA_E_INVAL, out), s)
      else do { m \<leftarrow> load_mr_local mr s; Some ((0, Some (mr_length (mrl_ibv_mr m))), s) })"

definition rpma_mr_remote_get_size ::
  "ptr \<Rightarrow> u64 option \<Rightarrow> st \<Rightarrow> ((rc \<times> u64 option) \<times> st) option" where
  "rpma_mr_remote_get_size mr out s =
     (if mr = NULL \<or> out = None then Some ((RPMA_E_INVAL, out), s)
      else do { m \<leftarrow> load_mr_remote mr s; Some ((0, Some (mrr_size m)), s) })"

definition rpma_mr_remote_delete :: "ptr option \<Rightarrow> st \<Rightarrow> ((rc \<times> ptr option) \<times> st) option" where
  "rpma_mr_remote_delete mr_ptr s =
     (case mr_ptr of
        None \<Rightarrow> Some ((RPMA_E_INVAL, mr_ptr), s)
      | Some mr \<Rightarrow>
          if mr = NULL then Some ((0, mr_ptr), s)
          else do { (_, s) \<leftarrow> free mr s; Some ((0, Some NULL), s) })"

definition rpma_mr_remote_get_flush_type ::
  "ptr \<Rightarrow> c_int option \<Rightarrow> st \<Rightarrow> ((rc \<times> c_int option) \<times> st) option" where
  "rpma_mr_remote_get_flush_type mr flush_type s =
     (if mr = NULL \<or> flush_type = None then Some ((RPMA_E_INVAL, flush_type), s)
      else do {
        m \<leftarrow> load_mr_remote mr s;
        Some ((0, Some (mrr_usage m AND
          (RPMA_MR_USAGE_FLUSH_TYPE_PERSISTENT OR RPMA_MR_USAGE_FLUSH_TYPE_VISIBILITY))), s)
      })"

definition rpma_mr_advise ::
  "env \<Rightarrow> ptr \<Rightarrow> u64 \<Rightarrow> u64 \<Rightarrow> int \<Rightarrow> u32 \<Rightarrow> st \<Rightarrow> (rc \<times> st) option" where
  "rpma_mr_advise E mr offset len advice flags s =
     (if ibv_advise_mr_supported E then do {
        m \<leftarrow> load_mr_local mr s;
        (r, s) \<leftarrow> ext E (Ibv_advise_mr (mr_pd (mrl_ibv_mr m)) advice flags (local_sge m offset len)) s;
        if rint r \<noteq> 0 then
          (if rint r = EOPNOTSUPP \<or> rint r = ENOTSUP then Some (RPMA_E_NOSUPP, s)
           else if rint r = EFAULT \<or> rint r = EINVAL then Some (RPMA_E_INVAL, s)
           else Some (RPMA_E_PROVIDER, s))
        else Some (0, s)
      } else Some (RPMA_E_NOSUPP, s))"

subsection \<open>Specifications\<close>

definition mr_res :: "rpma_mr_local \<Rightarrow> res multiset" where
  "mr_res m = {#R_mr (mr_handle (mrl_ibv_mr m))#}"

definition usage_valid :: "c_int \<Rightarrow> bool" where
  "usage_valid usage \<longleftrightarrow> usage \<noteq> 0 \<and> usage AND NOT USAGE_ALL_ALLOWED = 0"

lemma wp_rpma_mr_reg [wp_specs]:
  assumes "obj_at peer (O_peer p) s" and "addr \<noteq> 0" and "len \<noteq> 0" and "usage_valid usage"
    and "ledger_ok s"
    and "\<And>q m s'. ledger_ok s' \<Longrightarrow> fresh q s \<Longrightarrow> mem s' = (mem s)(q \<mapsto> O_mr_local m) \<Longrightarrow>
       acct s' = acct s + mr_res m \<Longrightarrow> mrl_usage m = usage \<Longrightarrow> Q (0, Some q) s'"
    and "\<And>ret s'. ledger_ok s' \<Longrightarrow> mem s' = mem s \<Longrightarrow> acct s' = acct s \<Longrightarrow>
       ret \<in> {RPMA_E_NOMEM, RPMA_E_PROVIDER} \<Longrightarrow> Q (ret, Some x) s'"
  shows "wp (rpma_mr_reg E peer addr len usage (Some x) s) Q"
proof -
  have peer: "obj_at peer (O_peer p) (s\<lparr>mem := (mem s)(q \<mapsto> y)\<rparr>)" if "fresh q s" for q y
    using assms(1) that by (auto simp: obj_at_def fresh_def)
  show ?thesis
    using assms(1-5) unfolding rpma_mr_reg_def
    by (auto simp: usage_valid_def obj_at_def fresh_def mr_res_def
        intro!: wp_malloc wp_rpma_peer_mr_reg wp_free wp_store assms(6,7))
qed

lemma wp_rpma_mr_dereg [wp_specs]:
  assumes "obj_at q (O_mr_local m) s" and "ledger_ok s" and "mr_res m \<subseteq># acct s"
    and "\<And>ret s'. ledger_ok s' \<Longrightarrow> mem s' = (mem s)(q := None) \<Longrightarrow> acct s' = acct s - mr_res m \<Longrightarrow>
       ret \<in> {0, RPMA_E_PROVIDER} \<Longrightarrow> Q (ret, Some NULL) s'"
  shows "wp (rpma_mr_dereg E (Some q) s) Q"
  using assms(1-3) unfolding rpma_mr_dereg_def
  by (auto simp: Let_def mr_res_def obj_at_nonnull intro!: wp_ext wp_free assms(4))


definition owns_mr :: "ptr \<Rightarrow> ptr set \<Rightarrow> res multiset \<Rightarrow> st \<Rightarrow> bool" where
  "owns_mr q B R s \<longleftrightarrow> (\<exists>m. obj_at q (O_mr_local m) s \<and> B = {q} \<and> R = mr_res m)"

text \<open>The constructor and destructor as a caller with a valid result variable uses them.\<close>

definition mr_reg_use :: "env \<Rightarrow> ptr \<Rightarrow> u64 \<Rightarrow> u64 \<Rightarrow> c_int \<Rightarrow> st \<Rightarrow> ((rc \<times> ptr) \<times> st) option" where
  "mr_reg_use E peer addr len usage s = do {
     ((ret, q), s) \<leftarrow> rpma_mr_reg E peer addr len usage (Some NULL) s;
     Some ((ret, the q), s)
   }"

definition mr_dereg_use :: "env \<Rightarrow> ptr \<Rightarrow> st \<Rightarrow> ((rc \<times> ptr) \<times> st) option" where
  "mr_dereg_use E mr s = do {
     ((ret, q), s) \<leftarrow> rpma_mr_dereg E (Some mr) s;
     Some ((ret, the q), s)
   }"

lemma rpma_mr_reg_invalid:
  assumes "addr = 0 \<or> len = 0 \<or> \<not> usage_valid usage \<or> peer = NULL"
  shows "rpma_mr_reg E peer addr len usage out s = Some ((RPMA_E_INVAL, out), s)"
  using assms unfolding rpma_mr_reg_def usage_valid_def by auto

interpretation mr_life: lifecycle "mr_reg_use E peer addr len usage" "mr_dereg_use E" owns_mr
    "\<lambda>s. \<exists>p. obj_at peer (O_peer p) s"
  for E peer addr len usage
proof unfold_locales
  fix s :: st
  assume *: "ledger_ok s" "\<exists>p. obj_at peer (O_peer p) s"
  show "wp (mr_reg_use E peer addr len usage s) (\<lambda>(ret, q) s'. ledger_ok s' \<and>
      (if ret = 0 then \<exists>B R. owns_mr q B R s' \<and> created B R s s' else unchanged s s'))"
  proof (cases "addr \<noteq> 0 \<and> len \<noteq> 0 \<and> usage_valid usage")
    case True
    from *(2) obtain p where "obj_at peer (O_peer p) s" by blast
    note reg = wp_rpma_mr_reg [OF this]
    from True *(1) show ?thesis
      unfolding mr_reg_use_def wp_bind
      by (intro reg) (auto simp: owns_mr_def unchanged_def intro: created_one fresh_obj_at)
  next
    case False
    then have "rpma_mr_reg E peer addr len usage (Some NULL) s = Some ((RPMA_E_INVAL, Some NULL), s)"
      by (intro rpma_mr_reg_invalid) auto
    with * show ?thesis by (simp add: mr_reg_use_def)
  qed
next
  fix s :: st and q B R
  assume "ledger_ok s" and "owns_mr q B R s" and "R \<subseteq># acct s"
  then show "wp (mr_dereg_use E q s) (\<lambda>(ret, q') s'. ledger_ok s' \<and> q' = NULL \<and> destroyed B R s s')"
    by (auto simp: mr_dereg_use_def owns_mr_def intro!: wp_rpma_mr_dereg destroyed_one)
next
  fix s s' :: st
  assume "\<exists>p. obj_at peer (O_peer p) s" and "unchanged s s'"
  then show "\<exists>p. obj_at peer (O_peer p) s'" by (auto simp: unchanged_def obj_at_def)
qed

subsection \<open>Descriptors: layout and round trip\<close>

definition mr_descriptor :: "rpma_mr_local \<Rightarrow> u8 list" where
  "mr_descriptor m = le_bytes 8 (mr_addr (mrl_ibv_mr m)) @ le_bytes 8 (mr_length (mrl_ibv_mr m)) @
     le_bytes 4 (mr_rkey (mrl_ibv_mr m)) @ [ucast (mrl_usage m)]"

lemma length_mr_descriptor [simp]: "length (mr_descriptor m) = RPMA_MR_DESC_SIZE"
  by (simp add: mr_descriptor_def RPMA_MR_DESC_SIZE_def)

lemma write_bytes_seq:
  assumes "length a = off" and "off + length bs \<le> length (a @ rest)"
  shows "write_bytes off bs (a @ rest) = Some ((a @ bs) @ drop (length bs) rest)"
  using assms by (simp add: write_bytes_def)

lemma rpma_mr_get_descriptor_eq:
  assumes "obj_at mr (O_mr_local m) s" and "RPMA_MR_DESC_SIZE \<le> length buf"
  shows "rpma_mr_get_descriptor mr (Some buf) s
           = Some ((0, Some (mr_descriptor m @ drop RPMA_MR_DESC_SIZE buf)), s)"
proof -
  have l: "21 \<le> length buf" using assms(2) by (simp add: RPMA_MR_DESC_SIZE_def)
  let ?a = "le_bytes 8 (mr_addr (mrl_ibv_mr m))" and ?l = "le_bytes 8 (mr_length (mrl_ibv_mr m))"
  let ?k = "le_bytes 4 (mr_rkey (mrl_ibv_mr m))"
  have 1: "write_bytes 0 ?a buf = Some (?a @ drop 8 buf)"
    using write_bytes_seq [of "[]" 0 ?a buf] l by simp
  have 2: "write_bytes 8 ?l (?a @ drop 8 buf) = Some ((?a @ ?l) @ drop 16 buf)"
    using write_bytes_seq [of ?a 8 ?l "drop 8 buf"] l by simp
  have 3: "write_bytes 16 ?k ((?a @ ?l) @ drop 16 buf) = Some (((?a @ ?l) @ ?k) @ drop 20 buf)"
    using write_bytes_seq [of "?a @ ?l" 16 ?k "drop 16 buf"] l by simp
  have 4: "write_bytes 20 [b] (((?a @ ?l) @ ?k) @ drop 20 buf)
      = Some ((((?a @ ?l) @ ?k) @ [b]) @ drop 21 buf)" for b
    using write_bytes_seq [of "(?a @ ?l) @ ?k" 20 "[b]" "drop 20 buf"] l by simp
  from assms(1) show ?thesis
    by (simp add: rpma_mr_get_descriptor_def obj_at_nonnull 1 2 3 4 mr_descriptor_def
        RPMA_MR_DESC_SIZE_def del: append_assoc)
qed

lemma usage_all_allowed_eq: "USAGE_ALL_ALLOWED = mask 8"
  by (simp add: USAGE_ALL_ALLOWED_def usage_defs mask_eq_exp_minus_1)

lemma usage_byte_exact: "usage_valid u \<Longrightarrow> ucast (ucast u :: u8) = u \<and> (ucast u :: u8) \<noteq> 0"
proof -
  assume u: "usage_valid u"
  then have "u AND NOT (mask 8) = 0" by (simp add: usage_valid_def usage_all_allowed_eq)
  then have "take_bit 8 u = u"
    by (intro bit_word_eqI) (auto simp: bit_simps bit_eq_iff)
  then have "ucast (ucast u :: u8) = u"
    by (simp add: unsigned_ucast_eq)
  with u show ?thesis by (auto simp: usage_valid_def)
qed

lemma wp_rpma_mr_remote_from_descriptor:
  assumes "length desc \<ge> RPMA_MR_DESC_SIZE" and "desc = mr_descriptor m @ rest"
    and "usage_valid (mrl_usage m)"
    and "\<And>q s'. malloc_ok E s \<Longrightarrow> fresh q s \<Longrightarrow> acct s' = acct s \<Longrightarrow> ledger_ok s' = ledger_ok s \<Longrightarrow>
      mem s' = (mem s)(q \<mapsto> O_mr_remote \<lparr>mrr_raddr = mr_addr (mrl_ibv_mr m),
        mrr_size = mr_length (mrl_ibv_mr m), mrr_rkey = mr_rkey (mrl_ibv_mr m),
        mrr_usage = mrl_usage m\<rparr>) \<Longrightarrow> Q (0, Some q) s'"
    and "\<And>ret s'. \<not> malloc_ok E s \<Longrightarrow> ret = RPMA_E_NOMEM \<Longrightarrow> mem s' = mem s \<Longrightarrow> acct s' = acct s \<Longrightarrow>
      ledger_ok s' = ledger_ok s \<Longrightarrow> Q (ret, Some x) s'"
  shows "wp (rpma_mr_remote_from_descriptor E (Some desc) (length desc) (Some x) s) Q"
proof -
  let ?a = "le_bytes 8 (mr_addr (mrl_ibv_mr m))" and ?l = "le_bytes 8 (mr_length (mrl_ibv_mr m))"
  let ?k = "le_bytes 4 (mr_rkey (mrl_ibv_mr m))"
  have "read_bytes 0 8 desc = Some ?a" "read_bytes 8 8 desc = Some ?l" "read_bytes 16 4 desc = Some ?k"
    "read_bytes 20 1 desc = Some [ucast (mrl_usage m)]"
    by (simp_all add: assms(2) mr_descriptor_def read_bytes_def)
  moreover have "le_val ?a = mr_addr (mrl_ibv_mr m)" "le_val ?l = mr_length (mrl_ibv_mr m)"
    "le_val ?k = mr_rkey (mrl_ibv_mr m)"
    by (simp_all add: le_val_le_bytes_full)
  ultimately show ?thesis
    using assms(1) usage_byte_exact [OF assms(3)]
    by (auto simp: rpma_mr_remote_from_descriptor_def not_less fresh_def Let_def
        intro!: wp_malloc_exact wp_store assms(4,5))
qed

text \<open>A memory region description survives the trip to the other peer. Into any buffer of at
  least the advertised size the descriptor is written without touching the bytes behind it, and
  the peer that reads that buffer, in any state of its own, is left unchanged if it is out of
  memory and otherwise gets one new remote region with the address, size, key and usage the local
  region has.\<close>

lemma mr_descriptor_roundtrip:
  assumes "obj_at mr (O_mr_local m) s" and "usage_valid (mrl_usage m)"
    and "RPMA_MR_DESC_SIZE \<le> length buf"
  shows "\<exists>buf'. rpma_mr_get_descriptor mr (Some buf) s = Some ((0, Some buf'), s) \<and>
     length buf' = length buf \<and> drop RPMA_MR_DESC_SIZE buf' = drop RPMA_MR_DESC_SIZE buf \<and>
     wp (rpma_mr_remote_from_descriptor E (Some buf') (length buf') (Some x) t)
       (\<lambda>(ret, out) t'.
          if malloc_ok E t
          then ret = 0 \<and> (\<exists>q. out = Some q \<and> created {q} {#} t t' \<and> load_mr_remote q t' =
             Some \<lparr>mrr_raddr = mr_addr (mrl_ibv_mr m), mrr_size = mr_length (mrl_ibv_mr m),
                   mrr_rkey = mr_rkey (mrl_ibv_mr m), mrr_usage = mrl_usage m\<rparr>)
          else ret = RPMA_E_NOMEM \<and> out = Some x \<and> unchanged t t')"
proof -
  let ?d = "mr_descriptor m @ drop RPMA_MR_DESC_SIZE buf"
  have "rpma_mr_get_descriptor mr (Some buf) s = Some ((0, Some ?d), s)"
    by (rule rpma_mr_get_descriptor_eq [OF assms(1,3)])
  moreover have len: "length ?d = length buf" using assms(3) by simp
  moreover have "wp (rpma_mr_remote_from_descriptor E (Some ?d) (length ?d) (Some x) t)
       (\<lambda>(ret, out) t'.
          if malloc_ok E t
          then ret = 0 \<and> (\<exists>q. out = Some q \<and> created {q} {#} t t' \<and> load_mr_remote q t' =
             Some \<lparr>mrr_raddr = mr_addr (mrl_ibv_mr m), mrr_size = mr_length (mrl_ibv_mr m),
                   mrr_rkey = mr_rkey (mrl_ibv_mr m), mrr_usage = mrl_usage m\<rparr>)
          else ret = RPMA_E_NOMEM \<and> out = Some x \<and> unchanged t t')"
    using len assms(3)
    by (intro wp_rpma_mr_remote_from_descriptor [OF _ refl assms(2)])
       (auto simp: unchanged_def intro: created_one load_Some(3) [OF fresh_obj_at])
  ultimately show ?thesis by auto
qed

definition sample_mr :: rpma_mr_local where
  "sample_mr = \<lparr>mrl_ibv_mr = sample_ibv_mr 100, mrl_usage = RPMA_MR_USAGE_READ_SRC\<rparr>"

lemma usage_valid_read_src [simp]: "usage_valid RPMA_MR_USAGE_READ_SRC"
  and usage_valid_read_dst [simp]: "usage_valid RPMA_MR_USAGE_READ_DST"
  by (simp_all add: usage_valid_def usage_defs USAGE_ALL_ALLOWED_def)

subsection \<open>No leaks\<close>

text \<open>Memory can be registered and deregistered any number of times without a trace: for every
  address, length and usage, valid or not, and whatever the provider answers, the heap and the
  registrations held from the provider are at the end those of the beginning.\<close>

lemma mr_no_leak:
  assumes "ledger_ok s" and "obj_at peer (O_peer p) s"
  shows "wp (use_many n (mr_reg_use E peer addr len usage) (mr_dereg_use E) s)
     (\<lambda>_ s'. ledger_ok s' \<and> unchanged s s')"
  using assms by (intro mr_life.use_many_spec) auto

end
