(* ===== verification/Flush.thy ===== *)
theory Flush
  imports Mr
begin

text \<open>
  The flushing object: \<open>src/src/flush.c\<close>, the Appliance Persistency Method. A flush is an RDMA
  read of \<open>RAW_SIZE\<close> bytes after the writes. The object consists of three heap blocks
  (the flush itself, its context, the local memory region of the read-after-write buffer) and
  two provider resources (the mapping and the registration). The two function pointers of
  \<open>struct rpma_flush_internal\<close> always hold the two \<open>apm\<close> functions, so that a call through
  them is a direct call here.
\<close>

definition RAW_SIZE :: u64 where "RAW_SIZE = 8"

datatype rpma_flush_type = RPMA_FLUSH_TYPE_PERSISTENT | RPMA_FLUSH_TYPE_VISIBILITY

definition rpma_flush_apm_new :: "env \<Rightarrow> ptr \<Rightarrow> ptr \<Rightarrow> st \<Rightarrow> (rc \<times> st) option" where
  "rpma_flush_apm_new E peer flush s = do {
     (r, s) \<leftarrow> ext E Sysconf_pagesize s;
     let pagesize = rint r;
     if pagesize < 0 then Some (RPMA_E_PROVIDER, s)
     else do {
       let mmap_size = word_of_int pagesize;
       (r, s) \<leftarrow> ext E (Mmap mmap_size) s;
       let raw = raddr r;
       if raw = - 1 then Some (RPMA_E_NOMEM, s)
       else do {
         ((ret, raw_mr), s) \<leftarrow> rpma_mr_reg E peer raw RAW_SIZE RPMA_MR_USAGE_READ_DST (Some NULL) s;
         if ret \<noteq> 0 then do {
           (_, s) \<leftarrow> ext E (Munmap raw mmap_size) s;
           Some (ret, s)
         } else do {
           (flush_apm, s) \<leftarrow> malloc E s;
           if flush_apm = NULL then do {
             (_, s) \<leftarrow> rpma_mr_dereg E raw_mr s;
             (_, s) \<leftarrow> ext E (Munmap raw mmap_size) s;
             Some (RPMA_E_NOMEM, s)
           } else do {
             (_, s) \<leftarrow> store flush_apm
               (O_apm \<lparr>apm_raw = raw, apm_mmap_size = mmap_size, apm_raw_mr = the raw_mr\<rparr>) s;
             (_, s) \<leftarrow> store flush (O_flush \<lparr>flush_context = flush_apm\<rparr>) s;
             Some (0, s)
           }
         }
       }
     }
   }"

definition rpma_flush_apm_delete :: "env \<Rightarrow> ptr \<Rightarrow> st \<Rightarrow> (rc \<times> st) option" where
  "rpma_flush_apm_delete E flush s = do {
     f \<leftarrow> load_flush flush s;
     a \<leftarrow> load_apm (flush_context f) s;
     ((ret_dereg, raw_mr), s) \<leftarrow> rpma_mr_dereg E (Some (apm_raw_mr a)) s;
     (_, s) \<leftarrow> store (flush_context f) (O_apm (a\<lparr>apm_raw_mr := the raw_mr\<rparr>)) s;
     (r, s) \<leftarrow> ext E (Munmap (apm_raw a) (apm_mmap_size a)) s;
     let ret_unmap = rint r;
     (_, s) \<leftarrow> free (flush_context f) s;
     if ret_dereg \<noteq> 0 then Some (ret_dereg, s)
     else if ret_unmap \<noteq> 0 then Some (RPMA_E_INVAL, s)
     else Some (0, s)
   }"

definition rpma_flush_apm_do ::
  "env \<Rightarrow> ptr \<Rightarrow> ptr \<Rightarrow> ptr \<Rightarrow> u64 \<Rightarrow> u64 \<Rightarrow> rpma_flush_type \<Rightarrow> c_int \<Rightarrow> u64 \<Rightarrow> st \<Rightarrow> (rc \<times> st) option" where
  "rpma_flush_apm_do E qp flush dst dst_offset len type flags op_context s = do {
     f \<leftarrow> load_flush flush s;
     a \<leftarrow> load_apm (flush_context f) s;
     rpma_mr_read E qp (apm_raw_mr a) 0 dst dst_offset RAW_SIZE flags op_context s
   }"

definition rpma_flush_new :: "env \<Rightarrow> ptr \<Rightarrow> ptr \<Rightarrow> st \<Rightarrow> ((rc \<times> ptr) \<times> st) option" where
  "rpma_flush_new E peer flush_ptr s = do {
     (flush, s) \<leftarrow> malloc E s;
     if flush = NULL then Some ((RPMA_E_NOMEM, flush_ptr), s)
     else do {
       (ret, s) \<leftarrow> rpma_flush_apm_new E peer flush s;
       if ret \<noteq> 0 then do {
         (_, s) \<leftarrow> free flush s;
         Some ((ret, flush_ptr), s)
       } else Some ((0, flush), s)
     }
   }"

definition rpma_flush_delete :: "env \<Rightarrow> ptr \<Rightarrow> st \<Rightarrow> ((rc \<times> ptr) \<times> st) option" where
  "rpma_flush_delete E flush_ptr s = do {
     _ \<leftarrow> load_flush flush_ptr s;
     (ret, s) \<leftarrow> rpma_flush_apm_delete E flush_ptr s;
     (_, s) \<leftarrow> free flush_ptr s;
     Some ((ret, NULL), s)
   }"

subsection \<open>Ownership\<close>

text \<open>What a flushing object consists of: its own block, the context and the memory region.\<close>

definition owns_flush :: "ptr \<Rightarrow> ptr set \<Rightarrow> res multiset \<Rightarrow> st \<Rightarrow> bool" where
  "owns_flush p B R s \<longleftrightarrow> (\<exists>f a m.
     obj_at p (O_flush f) s \<and> obj_at (flush_context f) (O_apm a) s \<and>
     obj_at (apm_raw_mr a) (O_mr_local m) s \<and>
     B = {p, flush_context f, apm_raw_mr a} \<and> R = add_mset (R_map (apm_raw a)) (mr_res m))"

lemma owns_flush_live: "owns_flush p B R s \<Longrightarrow> q \<in> B \<Longrightarrow> mem s q \<noteq> None"
  by (auto simp: owns_flush_def obj_at_def)

lemma owns_flush_cong:
  assumes "owns_flush p B R s" and "\<And>q. q \<in> B \<Longrightarrow> mem s' q = mem s q"
  shows "owns_flush p B R s'"
proof -
  from assms(1) obtain f a m where "obj_at p (O_flush f) s" "obj_at (flush_context f) (O_apm a) s"
    "obj_at (apm_raw_mr a) (O_mr_local m) s" "B = {p, flush_context f, apm_raw_mr a}"
    "R = add_mset (R_map (apm_raw a)) (mr_res m)"
    by (auto simp: owns_flush_def)
  with assms(2) show ?thesis
    unfolding owns_flush_def by (intro exI [of _ f] exI [of _ a] exI [of _ m]) (auto simp: obj_at_def)
qed

lemma wp_mr_reg_raw:
  assumes "obj_at peer (O_peer p) s" and "ledger_ok s"
    and "\<And>q m s'. ledger_ok s' \<Longrightarrow> fresh q s \<Longrightarrow> mem s' = (mem s)(q \<mapsto> O_mr_local m) \<Longrightarrow>
       acct s' = acct s + mr_res m \<Longrightarrow> Q (0, Some q) s'"
    and "\<And>ret s'. ledger_ok s' \<Longrightarrow> mem s' = mem s \<Longrightarrow> acct s' = acct s \<Longrightarrow> ret \<noteq> 0 \<Longrightarrow> 
       ret \<in> {RPMA_E_INVAL, RPMA_E_NOMEM, RPMA_E_PROVIDER} \<Longrightarrow> Q (ret, Some x) s'"
  shows "wp (rpma_mr_reg E peer raw RAW_SIZE RPMA_MR_USAGE_READ_DST (Some x) s) Q"
proof (cases "raw = 0")
  case True
  with rpma_mr_reg_invalid [of raw] assms(2) show ?thesis by (simp add: assms(4))
next
  case False
  show ?thesis
    by (rule wp_rpma_mr_reg [OF assms(1) False])
       (use assms in \<open>auto simp: RAW_SIZE_def\<close>)
qed

lemma wp_rpma_flush_apm_new [wp_specs]:
  assumes "obj_at peer (O_peer p) s" and "obj_at flush O_uninit s" and "ledger_ok s"
    and "\<And>B R s'. ledger_ok s' \<Longrightarrow> owns_flush flush (insert flush B) R s' \<Longrightarrow>
       \<forall>q\<in>B. mem s q = None \<Longrightarrow> \<forall>q. q \<notin> insert flush B \<longrightarrow> mem s' q = mem s q \<Longrightarrow>
       acct s' = acct s + R \<Longrightarrow> Q 0 s'"
    and "\<And>ret s'. ledger_ok s' \<Longrightarrow> mem s' = mem s \<Longrightarrow> acct s' = acct s \<Longrightarrow> ret \<noteq> 0 \<Longrightarrow>
       ret \<in> {RPMA_E_INVAL, RPMA_E_NOMEM, RPMA_E_PROVIDER} \<Longrightarrow> Q ret s'"
  shows "wp (rpma_flush_apm_new E peer flush s) Q"
proof -
  have fin: "Q 0 s'" if "mem s' = (mem s)(q \<mapsto> O_mr_local m,
         a \<mapsto> O_apm \<lparr>apm_raw = raw, apm_mmap_size = n, apm_raw_mr = q\<rparr>,
         flush \<mapsto> O_flush \<lparr>flush_context = a\<rparr>)"
      "ledger_ok s' \<and> fresh q s \<and> fresh a s \<and> q \<noteq> a \<and>
       acct s' = acct s + {#R_map raw#} + mr_res m" for q a m raw n s'
    using that assms(2)
    by (intro assms(4) [of s' "{a, q}" "add_mset (R_map raw) (mr_res m)"])
       (auto simp: owns_flush_def obj_at_def fresh_def)
  show ?thesis
    using assms(1-3) unfolding rpma_flush_apm_new_def
    by (auto simp: Let_def fresh_def obj_at_def fun_upd_idem split: if_splits
      intro!: wp_ext wp_mr_reg_raw [where p = p] wp_malloc wp_rpma_mr_dereg wp_store assms(5) fin)
qed

lemma wp_rpma_flush_new [wp_specs]:
  assumes "obj_at peer (O_peer p) s" and "ledger_ok s"
    and "\<And>q B R s'. ledger_ok s' \<Longrightarrow> owns_flush q B R s' \<Longrightarrow> created B R s s' \<Longrightarrow> Q (0, q) s'"
    and "\<And>ret s'. ledger_ok s' \<Longrightarrow> unchanged s s' \<Longrightarrow> ret \<noteq> 0 \<Longrightarrow>
       ret \<in> {RPMA_E_INVAL, RPMA_E_NOMEM, RPMA_E_PROVIDER} \<Longrightarrow> Q (ret, flush_ptr) s'"
  shows "wp (rpma_flush_new E peer flush_ptr s) Q"
proof -
  have apm: "wp (rpma_flush_apm_new E peer q t) (\<lambda>ret s'. ledger_ok s' \<and>
       (if ret = 0 then \<exists>B R. owns_flush q B R s' \<and> created B R s s'
        else mem s' = mem t \<and> acct s' = acct s \<and> ret \<in> {RPMA_E_INVAL, RPMA_E_NOMEM, RPMA_E_PROVIDER}))"
    if q: "fresh q s" and t: "t = (push Malloc r s)\<lparr>mem := (mem s)(q \<mapsto> O_uninit)\<rparr>" for q r t
  proof (rule wp_rpma_flush_apm_new [where p = p])
    show "obj_at peer (O_peer p) t" "obj_at q O_uninit t" "ledger_ok t"
      using q t assms(1,2) by (auto simp: obj_at_def fresh_def)
    fix B R s'
    assume *: "ledger_ok s'" "owns_flush q (insert q B) R s'" "\<forall>q\<in>B. mem t q = None"
      "\<forall>qa. qa \<notin> insert q B \<longrightarrow> mem s' qa = mem t qa" "acct s' = acct t + R"
    then have "created (insert q B) R s s'"
      using q t by (auto simp: created_def fresh_def split: if_splits)
    with * show "ledger_ok s' \<and>
       (if 0 = (0::int) then \<exists>B R. owns_flush q B R s' \<and> created B R s s'
        else mem s' = mem t \<and> acct s' = acct s \<and> 0 \<in> {RPMA_E_INVAL, RPMA_E_NOMEM, RPMA_E_PROVIDER})"
      by auto
  qed (use t in auto)
  have ok: "Q (0, q) s'" if "ledger_ok s' \<and> (\<exists>B R. owns_flush q B R s' \<and> created B R s s')" for q s'
    using that assms(3) by blast
  show ?thesis
    using assms(2) unfolding rpma_flush_new_def
    by (auto simp: fresh_def obj_at_def unchanged_def split: if_splits
        intro!: wp_malloc wp_mono [OF apm] wp_free [where x = O_uninit] ok assms(4))
qed

lemma wp_rpma_flush_apm_delete [wp_specs]:
  assumes "owns_flush p B R s" and "ledger_ok s" and "R \<subseteq># acct s"
    and "\<And>ret s'. ledger_ok s' \<Longrightarrow> mem s' = (\<lambda>q. if q \<in> B - {p} then None else mem s q) \<Longrightarrow>
       acct s' = acct s - R \<Longrightarrow> ret \<in> {0, RPMA_E_PROVIDER, RPMA_E_INVAL} \<Longrightarrow> Q ret s'"
  shows "wp (rpma_flush_apm_delete E p s) Q"
proof -
  from assms(1) obtain f a m where o: "obj_at p (O_flush f) s" "obj_at (flush_context f) (O_apm a) s"
    "obj_at (apm_raw_mr a) (O_mr_local m) s" and B: "B = {p, flush_context f, apm_raw_mr a}"
    and R: "R = add_mset (R_map (apm_raw a)) (mr_res m)"
    by (auto simp: owns_flush_def)
  have ne: "p \<noteq> flush_context f" "p \<noteq> apm_raw_mr a" "flush_context f \<noteq> apm_raw_mr a"
    using o by (auto simp: obj_at_def)
  have sub: "mr_res m \<subseteq># acct s" "R_map (apm_raw a) \<in># acct s - mr_res m"
    using assms(3) mset_sub_leftD [of "mr_res m" "{#R_map (apm_raw a)#}"]
      mset_sub_diffI [of "mr_res m" "{#R_map (apm_raw a)#}"] by (auto simp: R)
  have B': "(\<lambda>q. if q \<in> B \<and> q \<noteq> p then None else mem s q) =
      (mem s)(apm_raw_mr a := None, flush_context f := None)"
    using ne by (auto simp: B fun_eq_iff)
  show ?thesis
    using o ne sub assms(2) unfolding rpma_flush_apm_delete_def
    by (auto simp: obj_at_def B' R diff_diff_add_mset add_mset_commute
        intro!: wp_rpma_mr_dereg [where m = m] wp_ext wp_store wp_free assms(4))
qed

lemma wp_rpma_flush_delete [wp_specs]:
  assumes "owns_flush p B R s" and "ledger_ok s" and "R \<subseteq># acct s"
    and "\<And>ret s'. ledger_ok s' \<Longrightarrow> destroyed B R s s' \<Longrightarrow> ret \<in> {0, RPMA_E_PROVIDER, RPMA_E_INVAL} \<Longrightarrow>
       Q (ret, NULL) s'"
  shows "wp (rpma_flush_delete E p s) Q"
proof -
  from assms(1) obtain f where f: "obj_at p (O_flush f) s" and "p \<in> B"
    by (auto simp: owns_flush_def)
  then show ?thesis
    unfolding rpma_flush_delete_def
    by (auto simp: obj_at_def destroyed_def fun_eq_iff
        intro!: wp_rpma_flush_apm_delete [OF assms(1-3)] wp_free [where x = "O_flush f"] assms(4))
qed

interpretation flush_life: lifecycle "rpma_flush_new E peer flush_ptr" "rpma_flush_delete E"
    owns_flush "\<lambda>s. \<exists>p. obj_at peer (O_peer p) s"
  for E peer flush_ptr
proof unfold_locales
  fix s :: st
  assume "ledger_ok s" and "\<exists>p. obj_at peer (O_peer p) s"
  then obtain p where "ledger_ok s" "obj_at peer (O_peer p) s" by blast
  then show "wp (rpma_flush_new E peer flush_ptr s) (\<lambda>(ret, q) s'. ledger_ok s' \<and>
      (if ret = 0 then \<exists>B R. owns_flush q B R s' \<and> created B R s s' else unchanged s s'))"
    by (intro wp_rpma_flush_new [where p = p]) auto
next
  fix s :: st and q B R
  assume "ledger_ok s" and "owns_flush q B R s" and "R \<subseteq># acct s"
  then show "wp (rpma_flush_delete E q s) (\<lambda>(ret, q') s'. ledger_ok s' \<and> q' = NULL \<and> destroyed B R s s')"
    by (auto intro!: wp_rpma_flush_delete)
next
  fix s s' :: st
  assume "\<exists>p. obj_at peer (O_peer p) s" and "unchanged s s'"
  then show "\<exists>p. obj_at peer (O_peer p) s'" by (auto simp: unchanged_def obj_at_def)
qed

text \<open>Flushing objects do not leak. Creating and deleting them any number of times leaves the heap,
  the mapped read-after-write page and its registration as they were, also when mapping, registering,
  unmapping or deregistering fails at any point.\<close>

lemma flush_no_leak:
  assumes "ledger_ok s" and "obj_at peer (O_peer p) s"
  shows "wp (use_many n (rpma_flush_new E peer flush_ptr) (rpma_flush_delete E) s)
     (\<lambda>_ s'. ledger_ok s' \<and> unchanged s s')"
  using assms by (intro flush_life.use_many_spec) auto

end
