(* ===== verification/Private_Data.thy ===== *)
theory Private_Data
  imports Lifecycle
begin

text \<open>
  Private data of a connection or a connection request: \<open>src/src/private_data.c\<close>. The data a
  CM event carries is copied into a heap buffer of the library, because the event is given
  back to the provider (acknowledged) afterwards.
\<close>

definition rpma_private_data_store ::
  "env \<Rightarrow> rdma_cm_event \<Rightarrow> rpma_conn_private_data \<Rightarrow> st
    \<Rightarrow> ((rc \<times> rpma_conn_private_data) \<times> st) option" where
  "rpma_private_data_store E edata pdata s =
     (let len = ev_private_data_len edata in
      case ev_private_data edata of
        None \<Rightarrow> Some ((0, pdata), s)
      | Some bytes \<Rightarrow>
          if len = 0 then Some ((0, pdata), s)
          else do {
            (ptr_copy, s) \<leftarrow> malloc E s;
            if ptr_copy = NULL then Some ((RPMA_E_NOMEM, pdata), s)
            else do {
              copy \<leftarrow> read_bytes 0 (unat len) bytes;
              (_, s) \<leftarrow> store ptr_copy (O_bytes copy) s;
              Some ((0, \<lparr>pdata_ptr = ptr_copy, pdata_len = len\<rparr>), s)
            }
          })"

definition rpma_private_data_discard ::
  "rpma_conn_private_data \<Rightarrow> st \<Rightarrow> (rpma_conn_private_data \<times> st) option" where
  "rpma_private_data_discard pdata s = do {
     (_, s) \<leftarrow> free (pdata_ptr pdata) s;
     Some (\<lparr>pdata_ptr = NULL, pdata_len = 0\<rparr>, s)
   }"

abbreviation no_pdata :: rpma_conn_private_data where
  "no_pdata \<equiv> \<lparr>pdata_ptr = NULL, pdata_len = 0\<rparr>"

text \<open>The private data of an event really has as many bytes as it says.\<close>

definition event_wf :: "rdma_cm_event \<Rightarrow> bool" where
  "event_wf e = (case ev_private_data e of None \<Rightarrow> True
     | Some bytes \<Rightarrow> unat (ev_private_data_len e) \<le> length bytes)"

text \<open>What an event carries, as the library understands it: no bytes, or the first
  \<open>private_data_len\<close> ones.\<close>

definition event_payload :: "rdma_cm_event \<Rightarrow> u8 list" where
  "event_payload e = (case ev_private_data e of None \<Rightarrow> []
     | Some bytes \<Rightarrow> take (unat (ev_private_data_len e)) bytes)"

text \<open>The heap object a private data field owns: none, or a buffer with \<open>pdata_len\<close> bytes.\<close>

definition pdata_ok :: "rpma_conn_private_data \<Rightarrow> st \<Rightarrow> bool" where
  "pdata_ok d s \<longleftrightarrow>
     (pdata_ptr d = NULL \<and> pdata_len d = 0) \<or>
     (\<exists>bs. obj_at (pdata_ptr d) (O_bytes bs) s \<and> length bs = unat (pdata_len d) \<and> bs \<noteq> [])"

definition pdata_blocks :: "rpma_conn_private_data \<Rightarrow> ptr set" where
  "pdata_blocks d = (if pdata_ptr d = NULL then {} else {pdata_ptr d})"

definition pdata_bytes :: "rpma_conn_private_data \<Rightarrow> st \<Rightarrow> u8 list" where
  "pdata_bytes d s = (case deref (pdata_ptr d) s of Some (O_bytes bs) \<Rightarrow> bs | _ \<Rightarrow> [])"

lemma pdata_ok_no_pdata [simp]: "pdata_ok no_pdata s" "pdata_blocks no_pdata = {}"
  by (simp_all add: pdata_ok_def pdata_blocks_def)

lemma wp_rpma_private_data_store [wp_specs]:
  assumes "ledger_ok s" and "event_wf e"
    and "\<And>s'. event_payload e = [] \<Longrightarrow> s' = s \<Longrightarrow> Q (0, d) s'"
    and "\<And>p s'. ledger_ok s' \<Longrightarrow> fresh p s \<Longrightarrow> acct s' = acct s \<Longrightarrow> event_payload e \<noteq> [] \<Longrightarrow>
       length (event_payload e) = unat (ev_private_data_len e) \<Longrightarrow>
       mem s' = (mem s)(p \<mapsto> O_bytes (event_payload e)) \<Longrightarrow>
       Q (0, \<lparr>pdata_ptr = p, pdata_len = ev_private_data_len e\<rparr>) s'"
    and "\<And>ret s'. ledger_ok s' \<Longrightarrow> unchanged s s' \<Longrightarrow> event_payload e \<noteq> [] \<Longrightarrow> ret = RPMA_E_NOMEM \<Longrightarrow>
       Q (ret, d) s'"
  shows "wp (rpma_private_data_store E e d s) Q"
proof (cases "ev_private_data e")
  case None
  then show ?thesis
    by (simp add: rpma_private_data_store_def assms(3) event_payload_def)
next
  case (Some bytes)
  show ?thesis
  proof (cases "ev_private_data_len e = 0")
    case True
    with Some show ?thesis
      by (simp add: rpma_private_data_store_def assms(3) event_payload_def)
  next
    case False
    from Some assms(2) have rd: "read_bytes 0 (unat (ev_private_data_len e)) bytes = Some (event_payload e)"
      by (simp add: read_bytes_def event_wf_def event_payload_def)
    have len: "length (event_payload e) = unat (ev_private_data_len e)"
      using Some assms(2) by (simp add: event_wf_def event_payload_def)
    with False have ne: "event_payload e \<noteq> []"
      by (metis length_0_conv unat_eq_zero)
    from Some False rd assms(1) show ?thesis
      unfolding rpma_private_data_store_def
      by (auto simp: fresh_def unchanged_def Let_def intro!: wp_malloc wp_store assms(4,5) len ne)
  qed
qed

lemma wp_rpma_private_data_discard [wp_specs]:
  assumes "pdata_ok d s"
    and "\<And>s'. trace s' = trace s \<Longrightarrow> acct s' = acct s \<Longrightarrow> ledger_ok s' = ledger_ok s \<Longrightarrow>
       mem s' = (\<lambda>q. if q \<in> pdata_blocks d then None else mem s q) \<Longrightarrow>
       Q no_pdata s'"
  shows "wp (rpma_private_data_discard d s) Q"
proof (cases "pdata_ptr d = NULL")
  case True
  with assms show ?thesis
    by (simp add: rpma_private_data_discard_def pdata_blocks_def)
next
  case False
  with assms(1) obtain bs where "obj_at (pdata_ptr d) (O_bytes bs) s"
    by (auto simp: pdata_ok_def)
  with False show ?thesis
    by (auto simp: rpma_private_data_discard_def pdata_blocks_def fun_upd_def intro!: wp_free assms(2))
qed

lemma acct_trace_cong: "trace s' = trace s \<Longrightarrow> acct s' = acct s"
  and ledger_ok_trace_cong: "trace s' = trace s \<Longrightarrow> ledger_ok s' = ledger_ok s"
  by (simp_all add: acct_def ledger_ok_def)

end
