(* ===== verification/Peer_Cfg.thy ===== *)
theory Peer_Cfg
  imports Lifecycle
begin

text \<open>
  Peer configurations: \<open>src/src/peer_cfg.c\<close>. One flag (direct write to PMem supported by the
  peer), kept in a heap object, and its one-byte descriptor that is sent to the other side.
  A descriptor argument is the caller's byte buffer, \<open>None\<close> standing for \<open>NULL\<close>.
\<close>

definition RPMA_DEFAULT_DIRECT_WRITE_TO_PMEM :: bool where
  "RPMA_DEFAULT_DIRECT_WRITE_TO_PMEM = False"

definition rpma_peer_cfg_new ::
  "env \<Rightarrow> ptr option \<Rightarrow> st \<Rightarrow> ((rc \<times> ptr option) \<times> st) option" where
  "rpma_peer_cfg_new E pcfg_ptr s =
     (if pcfg_ptr = None then Some ((RPMA_E_INVAL, pcfg_ptr), s)
      else do {
        (cfg, s) \<leftarrow> malloc E s;
        if cfg = NULL then Some ((RPMA_E_NOMEM, pcfg_ptr), s)
        else do {
          (_, s) \<leftarrow> store cfg
            (O_peer_cfg \<lparr>pcfg_direct_write_to_pmem = RPMA_DEFAULT_DIRECT_WRITE_TO_PMEM\<rparr>) s;
          Some ((0, Some cfg), s)
        }
      })"

definition rpma_peer_cfg_delete :: "ptr option \<Rightarrow> st \<Rightarrow> ((rc \<times> ptr option) \<times> st) option" where
  "rpma_peer_cfg_delete pcfg_ptr s =
     (case pcfg_ptr of
        None \<Rightarrow> Some ((RPMA_E_INVAL, pcfg_ptr), s)
      | Some p \<Rightarrow> do { (_, s) \<leftarrow> free p s; Some ((0, Some NULL), s) })"

definition rpma_peer_cfg_set_direct_write_to_pmem :: "ptr \<Rightarrow> bool \<Rightarrow> st \<Rightarrow> (rc \<times> st) option" where
  "rpma_peer_cfg_set_direct_write_to_pmem pcfg supported s =
     (if pcfg = NULL then Some (RPMA_E_INVAL, s)
      else do {
        c \<leftarrow> load_peer_cfg pcfg s;
        (_, s) \<leftarrow> store pcfg (O_peer_cfg (c\<lparr>pcfg_direct_write_to_pmem := supported\<rparr>)) s;
        Some (0, s)
      })"

definition rpma_peer_cfg_get_direct_write_to_pmem ::
  "ptr \<Rightarrow> bool option \<Rightarrow> st \<Rightarrow> ((rc \<times> bool option) \<times> st) option" where
  "rpma_peer_cfg_get_direct_write_to_pmem pcfg supported s =
     (if pcfg = NULL \<or> supported = None then Some ((RPMA_E_INVAL, supported), s)
      else do { c \<leftarrow> load_peer_cfg pcfg s; Some ((0, Some (pcfg_direct_write_to_pmem c)), s) })"

definition rpma_peer_cfg_get_descriptor ::
  "ptr \<Rightarrow> u8 list option \<Rightarrow> st \<Rightarrow> ((rc \<times> u8 list option) \<times> st) option" where
  "rpma_peer_cfg_get_descriptor pcfg desc s =
     (case desc of
        None \<Rightarrow> Some ((RPMA_E_INVAL, desc), s)
      | Some buf \<Rightarrow>
          if pcfg = NULL then Some ((RPMA_E_INVAL, desc), s)
          else do {
            ((_, direct_write_to_pmem), s) \<leftarrow>
              rpma_peer_cfg_get_direct_write_to_pmem pcfg (Some False) s;
            buf \<leftarrow> write_bytes 0 [of_bool (the direct_write_to_pmem)] buf;
            Some ((0, Some buf), s)
          })"

definition rpma_peer_cfg_get_descriptor_size ::
  "ptr \<Rightarrow> nat option \<Rightarrow> st \<Rightarrow> ((rc \<times> nat option) \<times> st) option" where
  "rpma_peer_cfg_get_descriptor_size pcfg desc_size s =
     (if pcfg = NULL \<or> desc_size = None then Some ((RPMA_E_INVAL, desc_size), s)
      else Some ((0, Some 1), s))"

definition rpma_peer_cfg_from_descriptor ::
  "env \<Rightarrow> u8 list option \<Rightarrow> nat \<Rightarrow> ptr option \<Rightarrow> st \<Rightarrow> ((rc \<times> ptr option) \<times> st) option" where
  "rpma_peer_cfg_from_descriptor E desc desc_size pcfg_ptr s =
     (case desc of
        None \<Rightarrow> Some ((RPMA_E_INVAL, pcfg_ptr), s)
      | Some buf \<Rightarrow>
          if pcfg_ptr = None then Some ((RPMA_E_INVAL, pcfg_ptr), s)
          else if desc_size < 1 then Some ((RPMA_E_INVAL, pcfg_ptr), s)
          else do {
            (cfg, s) \<leftarrow> malloc E s;
            if cfg = NULL then Some ((RPMA_E_NOMEM, pcfg_ptr), s)
            else do {
              bs \<leftarrow> read_bytes 0 1 buf;
              (_, s) \<leftarrow> store cfg (O_peer_cfg \<lparr>pcfg_direct_write_to_pmem = (hd bs \<noteq> 0)\<rparr>) s;
              Some ((0, Some cfg), s)
            }
          })"

lemma wp_rpma_peer_cfg_from_descriptor:
  assumes "ledger_ok s" and "1 \<le> length buf" and "1 \<le> desc_size"
    and "\<And>p s'. malloc_ok E s \<Longrightarrow> ledger_ok s' \<Longrightarrow> fresh p s \<Longrightarrow> acct s' = acct s \<Longrightarrow>
       mem s' = (mem s)(p \<mapsto> O_peer_cfg \<lparr>pcfg_direct_write_to_pmem = (hd buf \<noteq> 0)\<rparr>) \<Longrightarrow>
       Q (0, Some p) s'"
    and "\<And>ret s'. \<not> malloc_ok E s \<Longrightarrow> ledger_ok s' \<Longrightarrow> unchanged s s' \<Longrightarrow> ret = RPMA_E_NOMEM \<Longrightarrow>
       Q (ret, Some x) s'"
  shows "wp (rpma_peer_cfg_from_descriptor E (Some buf) desc_size (Some x) s) Q"
proof -
  have "read_bytes 0 1 buf = Some [hd buf]"
    using assms(2) by (cases buf) (auto simp: read_bytes_def)
  with assms(1,2,3) show ?thesis
    unfolding rpma_peer_cfg_from_descriptor_def
    by (auto simp: fresh_def unchanged_def intro!: wp_malloc_exact wp_store assms(4,5))
qed

lemma rpma_peer_cfg_get_descriptor_eq:
  assumes "obj_at pcfg (O_peer_cfg c) s" and "1 \<le> length buf"
  shows "rpma_peer_cfg_get_descriptor pcfg (Some buf) s
    = Some ((0, Some (of_bool (pcfg_direct_write_to_pmem c) # tl buf)), s)"
  using assms
  by (cases buf) (auto simp: rpma_peer_cfg_get_descriptor_def
      rpma_peer_cfg_get_direct_write_to_pmem_def write_bytes_def obj_at_nonnull)

text \<open>A peer configuration survives being sent as a descriptor. Whatever buffer of at least
  the advertised size the flag is written to, the peer that reads it gets a new configuration
  object with the same flag, unless it is out of memory, and nothing else changes.\<close>

lemma peer_cfg_descriptor_roundtrip:
  assumes "obj_at pcfg (O_peer_cfg c) s" and "1 \<le> length buf" and "ledger_ok s"
  shows "wp (do {
       ((_, n), s) \<leftarrow> rpma_peer_cfg_get_descriptor_size pcfg (Some 0) s;
       ((_, desc), s) \<leftarrow> rpma_peer_cfg_get_descriptor pcfg (Some buf) s;
       rpma_peer_cfg_from_descriptor E desc (the n) (Some NULL) s })
     (\<lambda>(ret, out) s'. ledger_ok s' \<and>
       (if malloc_ok E s
        then ret = 0 \<and> (\<exists>p. out = Some p \<and> load_peer_cfg p s' = Some c \<and> created {p} {#} s s')
        else ret = RPMA_E_NOMEM \<and> unchanged s s'))"
  using assms
  by (auto simp: rpma_peer_cfg_get_descriptor_size_def rpma_peer_cfg_get_descriptor_eq
      obj_at_nonnull fresh_def created_def load_peer_cfg_def deref_def
      intro!: wp_rpma_peer_cfg_from_descriptor)

end
