(* ===== verification/Conn.thy ===== *)
theory Conn
  imports Flush Private_Data Peer_Cfg
begin

text \<open>
  Connections: \<open>src/src/conn.c\<close>. A connection owns its CM ID with the queue pair, its event
  channel, one or two completion queues, the shared completion channel if there is one, the
  flushing object and the private data received with the connection. The \<open>goto\<close> labels of
  \<open>rpma_conn_new\<close> and \<open>rpma_conn_delete\<close> are definitions of their own, each continuing with
  the next one as the code falls through; the object is read again from the heap at every label,
  because the calls in between write to it.
\<close>

definition RPMA_ATOMIC_WRITE_ALIGNMENT :: u64 where "RPMA_ATOMIC_WRITE_ALIGNMENT = 8"

subsection \<open>Creation\<close>

definition conn_new_err_destroy_evch :: "env \<Rightarrow> ptr \<Rightarrow> st \<Rightarrow> (unit \<times> st) option" where
  "conn_new_err_destroy_evch E evch s = do {
     (_, s) \<leftarrow> ext E (Rdma_destroy_event_channel evch) s;
     Some ((), s)
   }"

definition conn_new_err_migrate_id_NULL :: "env \<Rightarrow> ptr \<Rightarrow> ptr \<Rightarrow> st \<Rightarrow> (unit \<times> st) option" where
  "conn_new_err_migrate_id_NULL E i evch s = do {
     (_, s) \<leftarrow> ext E (Rdma_migrate_id i NULL) s;
     conn_new_err_destroy_evch E evch s
   }"

definition conn_new_err_flush_delete :: "env \<Rightarrow> ptr \<Rightarrow> ptr \<Rightarrow> ptr \<Rightarrow> st \<Rightarrow> (unit \<times> st) option" where
  "conn_new_err_flush_delete E flush i evch s = do {
     (_, s) \<leftarrow> rpma_flush_delete E flush s;
     conn_new_err_migrate_id_NULL E i evch s
   }"

definition rpma_conn_new ::
  "env \<Rightarrow> ptr \<Rightarrow> ptr \<Rightarrow> ptr \<Rightarrow> ptr \<Rightarrow> ptr \<Rightarrow> ptr option \<Rightarrow> st \<Rightarrow> ((rc \<times> ptr option) \<times> st) option" where
  "rpma_conn_new E peer i cq rcq channel conn_ptr s =
     (if peer = NULL \<or> i = NULL \<or> cq = NULL \<or> conn_ptr = None then Some ((RPMA_E_INVAL, conn_ptr), s)
      else do {
        (r, s) \<leftarrow> ext E Rdma_create_event_channel s;
        let evch = rptr r;
        if evch = NULL then Some ((RPMA_E_PROVIDER, conn_ptr), s)
        else do {
          (r, s) \<leftarrow> ext E (Rdma_migrate_id i evch) s;
          if rint r \<noteq> 0 then do {
            (_, s) \<leftarrow> conn_new_err_destroy_evch E evch s;
            Some ((RPMA_E_PROVIDER, conn_ptr), s)
          } else do {
            ((ret, flush), s) \<leftarrow> rpma_flush_new E peer NULL s;
            if ret \<noteq> 0 then do {
              (_, s) \<leftarrow> conn_new_err_migrate_id_NULL E i evch s;
              Some ((ret, conn_ptr), s)
            } else do {
              (conn, s) \<leftarrow> malloc E s;
              if conn = NULL then do {
                (_, s) \<leftarrow> conn_new_err_flush_delete E flush i evch s;
                Some ((RPMA_E_NOMEM, conn_ptr), s)
              } else do {
                (_, s) \<leftarrow> store conn (O_conn
                  \<lparr>conn_id = i, conn_evch = evch, conn_cq = cq, conn_rcq = rcq,
                   conn_channel = channel, conn_data = \<lparr>pdata_ptr = NULL, pdata_len = 0\<rparr>,
                   conn_flush = flush, conn_direct_write_to_pmem = False\<rparr>) s;
                Some ((0, Some conn), s)
              }
            }
          }
        }
      })"

text \<open>The second argument is the private data field of the caller; the result is what is left
  of it.\<close>

definition rpma_conn_transfer_private_data ::
  "ptr \<Rightarrow> rpma_conn_private_data \<Rightarrow> st \<Rightarrow> (rpma_conn_private_data \<times> st) option" where
  "rpma_conn_transfer_private_data conn pdata s = do {
     c \<leftarrow> load_conn conn s;
     (_, s) \<leftarrow> store conn (O_conn (c\<lparr>conn_data := \<lparr>pdata_ptr = pdata_ptr pdata, pdata_len = pdata_len pdata\<rparr>\<rparr>)) s;
     Some (\<lparr>pdata_ptr = NULL, pdata_len = 0\<rparr>, s)
   }"

subsection \<open>Events\<close>

definition rpma_conn_get_event_fd ::
  "env \<Rightarrow> ptr \<Rightarrow> int option \<Rightarrow> st \<Rightarrow> ((rc \<times> int option) \<times> st) option" where
  "rpma_conn_get_event_fd E conn fd s =
     (if conn = NULL \<or> fd = None then Some ((RPMA_E_INVAL, fd), s)
      else do { c \<leftarrow> load_conn conn s; Some ((0, Some (event_channel_fd E (conn_evch c))), s) })"

fun conn_event_of :: "rdma_cm_event_type \<Rightarrow> int option" where
  "conn_event_of RDMA_CM_EVENT_ESTABLISHED = Some RPMA_CONN_ESTABLISHED"
| "conn_event_of RDMA_CM_EVENT_CONNECT_ERROR = Some RPMA_CONN_LOST"
| "conn_event_of RDMA_CM_EVENT_DEVICE_REMOVAL = Some RPMA_CONN_LOST"
| "conn_event_of RDMA_CM_EVENT_DISCONNECTED = Some RPMA_CONN_CLOSED"
| "conn_event_of RDMA_CM_EVENT_TIMEWAIT_EXIT = Some RPMA_CONN_CLOSED"
| "conn_event_of RDMA_CM_EVENT_REJECTED = Some RPMA_CONN_REJECTED"
| "conn_event_of RDMA_CM_EVENT_UNREACHABLE = Some RPMA_CONN_UNREACHABLE"
| "conn_event_of _ = None"

definition next_event_err_private_data_discard :: "ptr \<Rightarrow> st \<Rightarrow> (unit \<times> st) option" where
  "next_event_err_private_data_discard conn s = do {
     c \<leftarrow> load_conn conn s;
     (d, s) \<leftarrow> rpma_private_data_discard (conn_data c) s;
     (_, s) \<leftarrow> store conn (O_conn (c\<lparr>conn_data := d\<rparr>)) s;
     Some ((), s)
   }"

text \<open>The second half of \<open>rpma_conn_next_event\<close>: acknowledge the event and translate it.\<close>

definition conn_next_event_ack ::
  "env \<Rightarrow> ptr \<Rightarrow> rdma_cm_event \<Rightarrow> int option \<Rightarrow> st \<Rightarrow> ((rc \<times> int option) \<times> st) option" where
  "conn_next_event_ack E conn edata event s = do {
     let cm_event = ev_event edata;
     (r, s) \<leftarrow> ext E (Rdma_ack_cm_event edata) s;
     if rint r \<noteq> 0 then do {
       (_, s) \<leftarrow> next_event_err_private_data_discard conn s;
       Some ((RPMA_E_PROVIDER, event), s)
     } else
       (case conn_event_of cm_event of
          None \<Rightarrow> Some ((RPMA_E_UNKNOWN, event), s)
        | Some e \<Rightarrow> Some ((0, Some e), s))
   }"

definition rpma_conn_next_event ::
  "env \<Rightarrow> ptr \<Rightarrow> int option \<Rightarrow> st \<Rightarrow> ((rc \<times> int option) \<times> st) option" where
  "rpma_conn_next_event E conn event s =
     (if conn = NULL \<or> event = None then Some ((RPMA_E_INVAL, event), s)
      else do {
        c \<leftarrow> load_conn conn s;
        (r, s) \<leftarrow> ext E (Rdma_get_cm_event (conn_evch c)) s;
        if rint r \<noteq> 0 then
          (if errno s = ENODATA then Some ((RPMA_E_NO_EVENT, event), s)
           else Some ((RPMA_E_PROVIDER, event), s))
        else do {
          let edata = rcm r;
          if ev_event edata = RDMA_CM_EVENT_ESTABLISHED \<and> pdata_ptr (conn_data c) = NULL then do {
            ((ret, d), s) \<leftarrow> rpma_private_data_store E edata (conn_data c) s;
            (_, s) \<leftarrow> store conn (O_conn (c\<lparr>conn_data := d\<rparr>)) s;
            if ret \<noteq> 0 then do {
              (_, s) \<leftarrow> ext E (Rdma_ack_cm_event edata) s;
              Some ((ret, event), s)
            } else conn_next_event_ack E conn edata event s
          } else conn_next_event_ack E conn edata event s
        }
      })"

definition rpma_conn_wait ::
  "env \<Rightarrow> ptr \<Rightarrow> int \<Rightarrow> ptr option \<Rightarrow> bool option \<Rightarrow> st
    \<Rightarrow> ((rc \<times> ptr option \<times> bool option) \<times> st) option" where
  "rpma_conn_wait E conn flags cq is_rcq s =
     (if conn = NULL \<or> cq = None then Some ((RPMA_E_INVAL, cq, is_rcq), s)
      else do {
        c \<leftarrow> load_conn conn s;
        if conn_channel c = NULL then Some ((RPMA_E_NOT_SHARED_CHNL, cq, is_rcq), s)
        else do {
          (r, s) \<leftarrow> ext E (Ibv_get_cq_event (conn_channel c)) s;
          let ev_cq = rptr r;
          if rint r \<noteq> 0 then Some ((RPMA_E_NO_COMPLETION, cq, is_rcq), s)
          else do {
            is_cq \<leftarrow> (if conn_cq c = NULL then Some False
                      else do { q \<leftarrow> rpma_cq_get_ibv_cq (conn_cq c) s; Some (q = ev_cq) });
            found \<leftarrow>
              (if is_cq then Some (Some (conn_cq c, False))
               else do {
                 is_rcq \<leftarrow> (if conn_rcq c = NULL then Some False
                           else do { q \<leftarrow> rpma_cq_get_ibv_cq (conn_rcq c) s; Some (q = ev_cq) });
                 Some (if is_rcq then Some (conn_rcq c, True) else None)
               });
            (case found of
               None \<Rightarrow> Some ((RPMA_E_UNKNOWN, cq, is_rcq), s)
             | Some (q, b) \<Rightarrow> do {
                 let is_rcq = map_option (\<lambda>_. b) is_rcq;
                 (_, s) \<leftarrow> ext E (Ibv_ack_cq_events ev_cq 1) s;
                 (r, s) \<leftarrow> ext E (Ibv_req_notify_cq ev_cq) s;
                 let s = set_errno (rint r) s;
                 if errno s \<noteq> 0 then Some ((RPMA_E_PROVIDER, Some NULL, is_rcq), s)
                 else Some ((0, Some q, is_rcq), s)
               })
          }
        }
      })"

definition rpma_conn_get_compl_fd ::
  "env \<Rightarrow> ptr \<Rightarrow> int option \<Rightarrow> st \<Rightarrow> ((rc \<times> int option) \<times> st) option" where
  "rpma_conn_get_compl_fd E conn fd s =
     (if conn = NULL \<or> fd = None then Some ((RPMA_E_INVAL, fd), s)
      else do {
        c \<leftarrow> load_conn conn s;
        if conn_channel c = NULL then Some ((RPMA_E_NOT_SHARED_CHNL, fd), s)
        else Some ((0, Some (comp_channel_fd E (conn_channel c))), s)
      })"

definition rpma_conn_get_private_data ::
  "ptr \<Rightarrow> rpma_conn_private_data option \<Rightarrow> st \<Rightarrow> ((rc \<times> rpma_conn_private_data option) \<times> st) option" where
  "rpma_conn_get_private_data conn pdata s =
     (if conn = NULL \<or> pdata = None then Some ((RPMA_E_INVAL, pdata), s)
      else do {
        c \<leftarrow> load_conn conn s;
        Some ((0, Some \<lparr>pdata_ptr = pdata_ptr (conn_data c), pdata_len = pdata_len (conn_data c)\<rparr>), s)
      })"

subsection \<open>Disconnection and deletion\<close>

definition rpma_conn_disconnect :: "env \<Rightarrow> ptr \<Rightarrow> st \<Rightarrow> (rc \<times> st) option" where
  "rpma_conn_disconnect E conn s =
     (if conn = NULL then Some (RPMA_E_INVAL, s)
      else do {
        c \<leftarrow> load_conn conn s;
        (r, s) \<leftarrow> ext E (Rdma_disconnect (conn_id c)) s;
        if rint r \<noteq> 0 then Some (RPMA_E_PROVIDER, s) else Some (0, s)
      })"

text \<open>\<open>rpma_cq_delete(&conn->rcq)\<close> and \<open>rpma_cq_delete(&conn->cq)\<close>: the field is set to what
  the call leaves in it.\<close>

definition conn_delete_rcq :: "env \<Rightarrow> ptr \<Rightarrow> st \<Rightarrow> (rc \<times> st) option" where
  "conn_delete_rcq E conn s = do {
     c \<leftarrow> load_conn conn s;
     ((ret, q), s) \<leftarrow> rpma_cq_delete E (conn_rcq c) s;
     (_, s) \<leftarrow> store conn (O_conn (c\<lparr>conn_rcq := q\<rparr>)) s;
     Some (ret, s)
   }"

definition conn_delete_cq :: "env \<Rightarrow> ptr \<Rightarrow> st \<Rightarrow> (rc \<times> st) option" where
  "conn_delete_cq E conn s = do {
     c \<leftarrow> load_conn conn s;
     ((ret, q), s) \<leftarrow> rpma_cq_delete E (conn_cq c) s;
     (_, s) \<leftarrow> store conn (O_conn (c\<lparr>conn_cq := q\<rparr>)) s;
     Some (ret, s)
   }"

definition conn_delete_err_destroy_event_channel :: "env \<Rightarrow> ptr \<Rightarrow> st \<Rightarrow> (unit \<times> st) option" where
  "conn_delete_err_destroy_event_channel E conn s = do {
     c \<leftarrow> load_conn conn s;
     (_, s) \<leftarrow> ext E (Rdma_destroy_event_channel (conn_evch c)) s;
     (d, s) \<leftarrow> rpma_private_data_discard (conn_data c) s;
     (_, s) \<leftarrow> store conn (O_conn (c\<lparr>conn_data := d\<rparr>)) s;
     free conn s
   }"

definition conn_delete_err_destroy_comp_channel :: "env \<Rightarrow> ptr \<Rightarrow> st \<Rightarrow> (unit \<times> st) option" where
  "conn_delete_err_destroy_comp_channel E conn s = do {
     c \<leftarrow> load_conn conn s;
     (_, s) \<leftarrow>
       (if conn_channel c \<noteq> NULL then do {
          (_, s) \<leftarrow> ext E (Ibv_destroy_comp_channel (conn_channel c)) s;
          Some ((), s)
        } else Some ((), s));
     conn_delete_err_destroy_event_channel E conn s
   }"

definition conn_delete_err_destroy_id :: "env \<Rightarrow> ptr \<Rightarrow> st \<Rightarrow> (unit \<times> st) option" where
  "conn_delete_err_destroy_id E conn s = do {
     c \<leftarrow> load_conn conn s;
     (_, s) \<leftarrow> ext E (Rdma_destroy_id (conn_id c)) s;
     conn_delete_err_destroy_comp_channel E conn s
   }"

definition conn_delete_err_rpma_cq_delete :: "env \<Rightarrow> ptr \<Rightarrow> st \<Rightarrow> (unit \<times> st) option" where
  "conn_delete_err_rpma_cq_delete E conn s = do {
     (_, s) \<leftarrow> conn_delete_cq E conn s;
     conn_delete_err_destroy_id E conn s
   }"

definition conn_delete_err_destroy_qp :: "env \<Rightarrow> ptr \<Rightarrow> st \<Rightarrow> (unit \<times> st) option" where
  "conn_delete_err_destroy_qp E conn s = do {
     c \<leftarrow> load_conn conn s;
     (_, s) \<leftarrow> ext E (Rdma_destroy_qp (conn_id c)) s;
     (_, s) \<leftarrow> conn_delete_rcq E conn s;
     conn_delete_err_rpma_cq_delete E conn s
   }"

text \<open>The normal path of \<open>rpma_conn_delete\<close>, cut before each call whose failure jumps to a label.
  Its last lines are the same statements as those behind the last label, except for the value
  returned.\<close>

definition conn_delete_destroy_id :: "env \<Rightarrow> ptr \<Rightarrow> st \<Rightarrow> (rc \<times> st) option" where
  "conn_delete_destroy_id E conn s = do {
     c \<leftarrow> load_conn conn s;
     (r, s) \<leftarrow> ext E (Rdma_destroy_id (conn_id c)) s;
     if rint r \<noteq> 0 then do {
       (_, s) \<leftarrow> conn_delete_err_destroy_comp_channel E conn s;
       Some (RPMA_E_PROVIDER, s)
     } else do {
       (failed, s) \<leftarrow>
         (if conn_channel c \<noteq> NULL then do {
            (r, s) \<leftarrow> ext E (Ibv_destroy_comp_channel (conn_channel c)) s;
            let s = set_errno (rint r) s;
            Some (errno s \<noteq> 0, s)
          } else Some (False, s));
       if failed then do {
         (_, s) \<leftarrow> conn_delete_err_destroy_event_channel E conn s;
         Some (RPMA_E_PROVIDER, s)
       } else do {
         (_, s) \<leftarrow> conn_delete_err_destroy_event_channel E conn s;
         Some (0, s)
       }
     }
   }"

definition conn_delete_from_cq :: "env \<Rightarrow> ptr \<Rightarrow> st \<Rightarrow> (rc \<times> st) option" where
  "conn_delete_from_cq E conn s = do {
     (ret, s) \<leftarrow> conn_delete_cq E conn s;
     if ret \<noteq> 0 then do {
       (_, s) \<leftarrow> conn_delete_err_destroy_id E conn s;
       Some (ret, s)
     } else conn_delete_destroy_id E conn s
   }"

definition conn_delete_from_qp :: "env \<Rightarrow> ptr \<Rightarrow> st \<Rightarrow> (rc \<times> st) option" where
  "conn_delete_from_qp E conn s = do {
     c \<leftarrow> load_conn conn s;
     (_, s) \<leftarrow> ext E (Rdma_destroy_qp (conn_id c)) s;
     (ret, s) \<leftarrow> conn_delete_rcq E conn s;
     if ret \<noteq> 0 then do {
       (_, s) \<leftarrow> conn_delete_err_rpma_cq_delete E conn s;
       Some (ret, s)
     } else conn_delete_from_cq E conn s
   }"

definition rpma_conn_delete :: "env \<Rightarrow> ptr option \<Rightarrow> st \<Rightarrow> ((rc \<times> ptr option) \<times> st) option" where
  "rpma_conn_delete E conn_ptr s =
     (case conn_ptr of
        None \<Rightarrow> Some ((RPMA_E_INVAL, conn_ptr), s)
      | Some conn \<Rightarrow>
          if conn = NULL then Some ((0, conn_ptr), s)
          else do {
            c \<leftarrow> load_conn conn s;
            ((ret, f), s) \<leftarrow> rpma_flush_delete E (conn_flush c) s;
            (_, s) \<leftarrow> store conn (O_conn (c\<lparr>conn_flush := f\<rparr>)) s;
            if ret \<noteq> 0 then do {
              (_, s) \<leftarrow> conn_delete_err_destroy_qp E conn s;
              Some ((ret, Some NULL), s)
            } else do {
              (ret, s) \<leftarrow> conn_delete_from_qp E conn s;
              Some ((ret, Some NULL), s)
            }
          })"

subsection \<open>Operations on the queue pair\<close>

definition rpma_read ::
  "env \<Rightarrow> ptr \<Rightarrow> ptr \<Rightarrow> u64 \<Rightarrow> ptr \<Rightarrow> u64 \<Rightarrow> u64 \<Rightarrow> c_int \<Rightarrow> u64 \<Rightarrow> st \<Rightarrow> (rc \<times> st) option" where
  "rpma_read E conn dst dst_offset src src_offset len flags op_context s =
     (if conn = NULL \<or> flags = 0 \<or>
         (src = NULL \<or> dst = NULL) \<and>
         (src \<noteq> NULL \<or> dst \<noteq> NULL \<or> dst_offset \<noteq> 0 \<or> src_offset \<noteq> 0 \<or> len \<noteq> 0)
      then Some (RPMA_E_INVAL, s)
      else do {
        c \<leftarrow> load_conn conn s;
        rpma_mr_read E (id_qp E (trace s) (conn_id c)) dst dst_offset src src_offset len flags op_context s
      })"

definition rpma_write ::
  "env \<Rightarrow> ptr \<Rightarrow> ptr \<Rightarrow> u64 \<Rightarrow> ptr \<Rightarrow> u64 \<Rightarrow> u64 \<Rightarrow> c_int \<Rightarrow> u64 \<Rightarrow> st \<Rightarrow> (rc \<times> st) option" where
  "rpma_write E conn dst dst_offset src src_offset len flags op_context s =
     (if conn = NULL \<or> flags = 0 \<or>
         (src = NULL \<or> dst = NULL) \<and>
         (src \<noteq> NULL \<or> dst \<noteq> NULL \<or> dst_offset \<noteq> 0 \<or> src_offset \<noteq> 0 \<or> len \<noteq> 0)
      then Some (RPMA_E_INVAL, s)
      else do {
        c \<leftarrow> load_conn conn s;
        rpma_mr_write E (id_qp E (trace s) (conn_id c)) dst dst_offset src src_offset len flags
          IBV_WR_RDMA_WRITE 0 op_context s
      })"

definition rpma_write_with_imm ::
  "env \<Rightarrow> ptr \<Rightarrow> ptr \<Rightarrow> u64 \<Rightarrow> ptr \<Rightarrow> u64 \<Rightarrow> u64 \<Rightarrow> c_int \<Rightarrow> u32 \<Rightarrow> u64 \<Rightarrow> st \<Rightarrow> (rc \<times> st) option" where
  "rpma_write_with_imm E conn dst dst_offset src src_offset len flags imm op_context s =
     (if conn = NULL \<or> flags = 0 \<or>
         (src = NULL \<or> dst = NULL) \<and>
         (src \<noteq> NULL \<or> dst \<noteq> NULL \<or> dst_offset \<noteq> 0 \<or> src_offset \<noteq> 0 \<or> len \<noteq> 0)
      then Some (RPMA_E_INVAL, s)
      else do {
        c \<leftarrow> load_conn conn s;
        rpma_mr_write E (id_qp E (trace s) (conn_id c)) dst dst_offset src src_offset len flags
          IBV_WR_RDMA_WRITE_WITH_IMM imm op_context s
      })"

definition rpma_atomic_write ::
  "env \<Rightarrow> ptr \<Rightarrow> ptr \<Rightarrow> u64 \<Rightarrow> u64 \<Rightarrow> c_int \<Rightarrow> u64 \<Rightarrow> st \<Rightarrow> (rc \<times> st) option" where
  "rpma_atomic_write E conn dst dst_offset src flags op_context s =
     (if conn = NULL \<or> dst = NULL \<or> src = 0 \<or> flags = 0 then Some (RPMA_E_INVAL, s)
      else if dst_offset mod RPMA_ATOMIC_WRITE_ALIGNMENT \<noteq> 0 then Some (RPMA_E_INVAL, s)
      else do {
        c \<leftarrow> load_conn conn s;
        rpma_mr_atomic_write E (id_qp E (trace s) (conn_id c)) dst dst_offset src flags op_context s
      })"

definition rpma_flush ::
  "env \<Rightarrow> ptr \<Rightarrow> ptr \<Rightarrow> u64 \<Rightarrow> u64 \<Rightarrow> rpma_flush_type \<Rightarrow> c_int \<Rightarrow> u64 \<Rightarrow> st \<Rightarrow> (rc \<times> st) option" where
  "rpma_flush E conn dst dst_offset len type flags op_context s =
     (if conn = NULL \<or> dst = NULL \<or> flags = 0 then Some (RPMA_E_INVAL, s)
      else do {
        c \<leftarrow> load_conn conn s;
        if type = RPMA_FLUSH_TYPE_PERSISTENT \<and> \<not> conn_direct_write_to_pmem c
        then Some (RPMA_E_NOSUPP, s)
        else do {
          ((_, ft), s) \<leftarrow> rpma_mr_remote_get_flush_type dst (Some 0) s;
          let flush_type = the ft;
          if type = RPMA_FLUSH_TYPE_PERSISTENT \<and> flush_type AND RPMA_MR_USAGE_FLUSH_TYPE_PERSISTENT = 0
          then Some (RPMA_E_NOSUPP, s)
          else if type = RPMA_FLUSH_TYPE_VISIBILITY \<and>
            flush_type AND RPMA_MR_USAGE_FLUSH_TYPE_VISIBILITY = 0
          then Some (RPMA_E_NOSUPP, s)
          else rpma_flush_apm_do E (id_qp E (trace s) (conn_id c)) (conn_flush c) dst dst_offset len
                 type flags op_context s
        }
      })"

definition rpma_send ::
  "env \<Rightarrow> ptr \<Rightarrow> ptr \<Rightarrow> u64 \<Rightarrow> u64 \<Rightarrow> c_int \<Rightarrow> u64 \<Rightarrow> st \<Rightarrow> (rc \<times> st) option" where
  "rpma_send E conn src offset len flags op_context s =
     (if conn = NULL \<or> flags = 0 \<or> src = NULL \<and> (offset \<noteq> 0 \<or> len \<noteq> 0) then Some (RPMA_E_INVAL, s)
      else do {
        c \<leftarrow> load_conn conn s;
        rpma_mr_send E (id_qp E (trace s) (conn_id c)) src offset len flags IBV_WR_SEND 0 op_context s
      })"

definition rpma_send_with_imm ::
  "env \<Rightarrow> ptr \<Rightarrow> ptr \<Rightarrow> u64 \<Rightarrow> u64 \<Rightarrow> c_int \<Rightarrow> u32 \<Rightarrow> u64 \<Rightarrow> st \<Rightarrow> (rc \<times> st) option" where
  "rpma_send_with_imm E conn src offset len flags imm op_context s =
     (if conn = NULL \<or> flags = 0 \<or> src = NULL \<and> (offset \<noteq> 0 \<or> len \<noteq> 0) then Some (RPMA_E_INVAL, s)
      else do {
        c \<leftarrow> load_conn conn s;
        rpma_mr_send E (id_qp E (trace s) (conn_id c)) src offset len flags IBV_WR_SEND_WITH_IMM imm
          op_context s
      })"

definition rpma_recv :: "env \<Rightarrow> ptr \<Rightarrow> ptr \<Rightarrow> u64 \<Rightarrow> u64 \<Rightarrow> u64 \<Rightarrow> st \<Rightarrow> (rc \<times> st) option" where
  "rpma_recv E conn dst offset len op_context s =
     (if conn = NULL \<or> dst = NULL \<and> (offset \<noteq> 0 \<or> len \<noteq> 0) then Some (RPMA_E_INVAL, s)
      else do {
        c \<leftarrow> load_conn conn s;
        rpma_mr_recv E (id_qp E (trace s) (conn_id c)) dst offset len op_context s
      })"

subsection \<open>Accessors\<close>

definition rpma_conn_get_qp_num ::
  "env \<Rightarrow> ptr \<Rightarrow> u32 option \<Rightarrow> st \<Rightarrow> ((rc \<times> u32 option) \<times> st) option" where
  "rpma_conn_get_qp_num E conn qp_num s =
     (if conn = NULL \<or> qp_num = None then Some ((RPMA_E_INVAL, qp_num), s)
      else do {
        c \<leftarrow> load_conn conn s;
        Some ((0, Some (qp_num_of E (id_qp E (trace s) (conn_id c)))), s)
      })"

definition rpma_conn_get_cq :: "ptr \<Rightarrow> ptr option \<Rightarrow> st \<Rightarrow> ((rc \<times> ptr option) \<times> st) option" where
  "rpma_conn_get_cq conn cq_ptr s =
     (if conn = NULL \<or> cq_ptr = None then Some ((RPMA_E_INVAL, cq_ptr), s)
      else do { c \<leftarrow> load_conn conn s; Some ((0, Some (conn_cq c)), s) })"

definition rpma_conn_get_rcq :: "ptr \<Rightarrow> ptr option \<Rightarrow> st \<Rightarrow> ((rc \<times> ptr option) \<times> st) option" where
  "rpma_conn_get_rcq conn rcq_ptr s =
     (if conn = NULL \<or> rcq_ptr = None then Some ((RPMA_E_INVAL, rcq_ptr), s)
      else do { c \<leftarrow> load_conn conn s; Some ((0, Some (conn_rcq c)), s) })"

definition rpma_conn_apply_remote_peer_cfg :: "ptr \<Rightarrow> ptr \<Rightarrow> st \<Rightarrow> (rc \<times> st) option" where
  "rpma_conn_apply_remote_peer_cfg conn pcfg s =
     (if conn = NULL \<or> pcfg = NULL then Some (RPMA_E_INVAL, s)
      else do {
        c \<leftarrow> load_conn conn s;
        ((ret, v), s) \<leftarrow> rpma_peer_cfg_get_direct_write_to_pmem pcfg (Some (conn_direct_write_to_pmem c)) s;
        (_, s) \<leftarrow> store conn (O_conn (c\<lparr>conn_direct_write_to_pmem := the v\<rparr>)) s;
        Some (ret, s)
      })"

end
