(* ===== verification/Conn_Life.thy ===== *)
theory Conn_Life
  imports Conn
begin

text \<open>
  The life of a connection object: what it owns, that \<open>rpma_conn_new\<close> either delivers such an
  object or leaves everything as it was, and that \<open>rpma_conn_delete\<close> gives back all of it,
  exactly once, on every path through its labels, whatever the provider answers.
\<close>

subsection \<open>Dropping parts of an object\<close>

text \<open>The part \<open>B\<close>, \<open>R\<close> of an object is gone; the block \<open>k\<close> may have been written to.\<close>

definition dropped :: "ptr \<Rightarrow> ptr set \<Rightarrow> res multiset \<Rightarrow> st \<Rightarrow> st \<Rightarrow> bool" where
  "dropped k B R s s' \<longleftrightarrow>
     (\<forall>q. q \<noteq> k \<longrightarrow> mem s' q = (if q \<in> B then None else mem s q)) \<and> acct s' = acct s - R"

lemma dropped_destroyed:
  "dropped k B R s s' \<Longrightarrow> destroyed B' R' s' s'' \<Longrightarrow> k \<in> B' \<Longrightarrow> destroyed (B \<union> B') (R + R') s s''"
  by (fastforce simp: dropped_def destroyed_def fun_eq_iff diff_diff_add_mset)

lemma dropped_acct: "dropped k B R s s' \<Longrightarrow> R + R' \<subseteq># acct s \<Longrightarrow> R' \<subseteq># acct s'"
  by (simp add: dropped_def mset_sub_diffI)

lemma dropped_call: "dropped k {} (releases c) s (push c r s)" if "acquires c r = {#}"
  using that by (simp add: dropped_def)

text \<open>A field that is \<open>NULL\<close> or points to a completion queue.\<close>

definition owns_cq_opt :: "ptr \<Rightarrow> ptr set \<Rightarrow> res multiset \<Rightarrow> st \<Rightarrow> bool" where
  "owns_cq_opt p B R s \<longleftrightarrow> (if p = NULL then B = {} \<and> R = {#} else owns_cq p B R s)"

lemma owns_cq_opt_disjoint:
  "owns_cq_opt p B R s \<Longrightarrow> pdata_ok d s \<Longrightarrow> B \<inter> pdata_blocks d = {}"
  "owns_cq_opt p B R s \<Longrightarrow> obj_at k (O_conn c) s \<Longrightarrow> k \<notin> B"
  "owns_cq_opt p B R s \<Longrightarrow> owns_flush f F FR s \<Longrightarrow> B \<inter> F = {}"
  "owns_cq_opt p B R s \<Longrightarrow> obj_at k (O_conn_req cr) s \<Longrightarrow> k \<notin> B"
  by (auto simp: owns_cq_opt_def owns_cq_def pdata_ok_def pdata_blocks_def owns_flush_def obj_at_def
      split: if_splits)

lemma owns_flush_disjoint:
  "owns_flush f F FR s \<Longrightarrow> pdata_ok d s \<Longrightarrow> F \<inter> pdata_blocks d = {}"
  "owns_flush f F FR s \<Longrightarrow> obj_at k (O_conn c) s \<Longrightarrow> k \<notin> F"
  by (auto simp: owns_flush_def pdata_ok_def pdata_blocks_def obj_at_def split: if_splits)

lemma pdata_disjoint:
  "pdata_ok d s \<Longrightarrow> obj_at k (O_conn c) s \<Longrightarrow> k \<notin> pdata_blocks d"
  "pdata_ok d s \<Longrightarrow> obj_at k (O_conn_req cr) s \<Longrightarrow> k \<notin> pdata_blocks d"
  by (auto simp: pdata_ok_def pdata_blocks_def obj_at_def split: if_splits)

lemma pdata_ok_cong:
  assumes "pdata_ok d s" and "\<And>q. q \<in> pdata_blocks d \<Longrightarrow> mem s' q = mem s q"
  shows "pdata_ok d s'"
  using assms by (auto simp: pdata_ok_def pdata_blocks_def obj_at_def)

lemma owns_cq_opt_cong:
  assumes "owns_cq_opt p B R s" and "\<And>q. q \<in> B \<Longrightarrow> mem s' q = mem s q"
  shows "owns_cq_opt p B R s'"
  using assms by (auto simp: owns_cq_opt_def owns_cq_def obj_at_def split: if_splits)

lemma dropped_pdata_ok:
  "dropped k B R s s' \<Longrightarrow> pdata_ok d s \<Longrightarrow> B \<inter> pdata_blocks d = {} \<Longrightarrow> k \<notin> pdata_blocks d \<Longrightarrow> pdata_ok d s'"
  by (erule pdata_ok_cong) (fastforce simp: dropped_def)

lemma dropped_owns_cq_opt:
  "dropped k B R s s' \<Longrightarrow> owns_cq_opt p B' R' s \<Longrightarrow> B \<inter> B' = {} \<Longrightarrow> k \<notin> B' \<Longrightarrow> owns_cq_opt p B' R' s'"
  by (erule owns_cq_opt_cong) (fastforce simp: dropped_def)

lemma wp_rpma_cq_delete_opt:
  assumes "owns_cq_opt p B R s" and "ledger_ok s" and "R \<subseteq># acct s"
    and "\<And>ret s'. ledger_ok s' \<Longrightarrow> destroyed B R s s' \<Longrightarrow> ret \<in> {0, RPMA_E_PROVIDER} \<Longrightarrow> Q (ret, NULL) s'"
  shows "wp (rpma_cq_delete E p s) Q"
proof (cases "p = NULL")
  case True
  with assms show ?thesis
    by (simp add: rpma_cq_delete_def owns_cq_opt_def destroyed_def)
next
  case False
  with assms(1) obtain c where "obj_at p (O_cq c) s" "B = {p}" "R = cq_res c"
    by (auto simp: owns_cq_opt_def owns_cq_def)
  with assms(2,3) show ?thesis
    by (intro wp_rpma_cq_delete [where c = c] assms(4)) (auto intro: destroyed_one)
qed

subsection \<open>Deletion\<close>

definition chan_res :: "ptr \<Rightarrow> res multiset" where
  "chan_res ch = (if ch = NULL then {#} else {#R_channel ch#})"

definition conn_tail_blocks :: "ptr \<Rightarrow> rpma_conn \<Rightarrow> ptr set" where
  "conn_tail_blocks k c = insert k (pdata_blocks (conn_data c))"

definition conn_tail_res :: "rpma_conn \<Rightarrow> res multiset" where
  "conn_tail_res c = {#R_id (conn_id c)#} + (chan_res (conn_channel c) + {#R_evch (conn_evch c)#})"

lemma wp_conn_delete_err_destroy_event_channel:
  assumes "obj_at k (O_conn c) s" and "pdata_ok (conn_data c) s" and "ledger_ok s"
    and "{#R_evch (conn_evch c)#} \<subseteq># acct s"
    and "\<And>s'. ledger_ok s' \<Longrightarrow> destroyed (conn_tail_blocks k c) {#R_evch (conn_evch c)#} s s' \<Longrightarrow> Q () s'"
  shows "wp (conn_delete_err_destroy_event_channel E k s) Q"
proof -
  have fin: "Q () (s'\<lparr>mem := (mem s')(k := None)\<rparr>)"
    if "mem s' = (\<lambda>q. if q = k then x else if q \<in> pdata_blocks (conn_data c) then None else mem s q)"
      "ledger_ok s'" "acct s' = acct s - {#R_evch (conn_evch c)#}" for s' x
    using that by (intro assms(5)) (auto simp: destroyed_def conn_tail_blocks_def fun_eq_iff)
  have d: "pdata_ok (conn_data c) (push cl r s)" for cl r
    using assms(2) by (simp add: pdata_ok_def)
  show ?thesis
    using assms(1-4) pdata_disjoint(1) [OF assms(2,1)] unfolding conn_delete_err_destroy_event_channel_def
    by (auto simp: obj_at_def fun_eq_iff
        intro!: wp_ext wp_rpma_private_data_discard d wp_store [where x = "O_conn c"] wp_free fin)
qed

text \<open>A call that gives something back, followed by the rest of a deletion.\<close>

lemma destroyed_after_call:
  assumes "destroyed B R (push c r s) s'" and "acquires c r = {#}"
  shows "destroyed B (releases c + R) s s'"
  using assms by (simp add: destroyed_def diff_diff_add_mset cong: if_cong)

lemma wp_conn_delete_err_destroy_comp_channel:
  assumes "obj_at k (O_conn c) s" and "pdata_ok (conn_data c) s" and "ledger_ok s"
    and "chan_res (conn_channel c) + {#R_evch (conn_evch c)#} \<subseteq># acct s"
    and "\<And>s'. ledger_ok s' \<Longrightarrow>
       destroyed (conn_tail_blocks k c) (chan_res (conn_channel c) + {#R_evch (conn_evch c)#}) s s' \<Longrightarrow> Q () s'"
  shows "wp (conn_delete_err_destroy_comp_channel E k s) Q"
proof (cases "conn_channel c = NULL")
  case True
  with assms show ?thesis
    by (auto simp: conn_delete_err_destroy_comp_channel_def chan_res_def
        intro!: wp_conn_delete_err_destroy_event_channel)
next
  case False
  let ?c = "Ibv_destroy_comp_channel (conn_channel c)"
  have chan: "chan_res (conn_channel c) = releases ?c" using False by (simp add: chan_res_def)
  have d: "pdata_ok (conn_data c) (push cl r s)" for cl r
    using assms(2) by (simp add: pdata_ok_def)
  from assms(4) have sub: "releases ?c \<subseteq># acct s" "{#R_evch (conn_evch c)#} \<subseteq># acct s - releases ?c"
    unfolding chan by (rule mset_sub_leftD, rule mset_sub_diffI)
  have fin: "Q () s'" if "ledger_ok s'"
    "destroyed (conn_tail_blocks k c) {#R_evch (conn_evch c)#} (push ?c r s) s'" for r s'
    using assms(5) [OF that(1)] destroyed_after_call [OF that(2)] unfolding chan by simp
  show ?thesis
    using False assms(1,3) sub unfolding conn_delete_err_destroy_comp_channel_def
    by (auto intro!: wp_ext wp_conn_delete_err_destroy_event_channel [where c = c] d elim!: fin)
qed

lemma wp_conn_delete_err_destroy_id:
  assumes "obj_at k (O_conn c) s" and "pdata_ok (conn_data c) s" and "ledger_ok s"
    and "conn_tail_res c \<subseteq># acct s"
    and "\<And>s'. ledger_ok s' \<Longrightarrow> destroyed (conn_tail_blocks k c) (conn_tail_res c) s s' \<Longrightarrow> Q () s'"
  shows "wp (conn_delete_err_destroy_id E k s) Q"
proof -
  let ?c = "Rdma_destroy_id (conn_id c)"
  have res: "conn_tail_res c = releases ?c + (chan_res (conn_channel c) + {#R_evch (conn_evch c)#})"
    by (simp add: conn_tail_res_def)
  have d: "pdata_ok (conn_data c) (push cl r s)" for cl r
    using assms(2) by (simp add: pdata_ok_def)
  have sub: "releases ?c \<subseteq># acct s"
      "chan_res (conn_channel c) + {#R_evch (conn_evch c)#} \<subseteq># acct s - releases ?c"
    using assms(4) unfolding res by (rule mset_sub_leftD, rule mset_sub_diffI)
  have fin: "Q () s'" if "ledger_ok s'" "destroyed (conn_tail_blocks k c)
      (chan_res (conn_channel c) + {#R_evch (conn_evch c)#}) (push ?c r s) s'" for r s'
    using assms(5) [OF that(1)] destroyed_after_call [OF that(2)] unfolding res by simp
  show ?thesis
    using assms(1,3) sub unfolding conn_delete_err_destroy_id_def
    by (auto intro!: wp_ext wp_conn_delete_err_destroy_comp_channel [where c = c] d elim!: fin)
qed

lemma wp_conn_delete_cq:
  assumes "obj_at k (O_conn c) s" and "owns_cq_opt (conn_cq c) B R s" and "ledger_ok s"
    and "R \<subseteq># acct s"
    and "\<And>ret s'. ledger_ok s' \<Longrightarrow> dropped k B R s s' \<Longrightarrow> obj_at k (O_conn (c\<lparr>conn_cq := NULL\<rparr>)) s' \<Longrightarrow>
       ret \<in> {0, RPMA_E_PROVIDER} \<Longrightarrow> Q ret s'"
  shows "wp (conn_delete_cq E k s) Q"
  using assms(1) owns_cq_opt_disjoint(2) [OF assms(2,1)] unfolding conn_delete_cq_def
  by (auto simp: dropped_def destroyed_def obj_at_def intro!: wp_rpma_cq_delete_opt [OF assms(2,3,4)]
      wp_store [where x = "O_conn c"] assms(5))

lemma wp_conn_delete_rcq:
  assumes "obj_at k (O_conn c) s" and "owns_cq_opt (conn_rcq c) B R s" and "ledger_ok s"
    and "R \<subseteq># acct s"
    and "\<And>ret s'. ledger_ok s' \<Longrightarrow> dropped k B R s s' \<Longrightarrow> obj_at k (O_conn (c\<lparr>conn_rcq := NULL\<rparr>)) s' \<Longrightarrow>
       ret \<in> {0, RPMA_E_PROVIDER} \<Longrightarrow> Q ret s'"
  shows "wp (conn_delete_rcq E k s) Q"
  using assms(1) owns_cq_opt_disjoint(2) [OF assms(2,1)] unfolding conn_delete_rcq_def
  by (auto simp: dropped_def destroyed_def obj_at_def intro!: wp_rpma_cq_delete_opt [OF assms(2,3,4)]
      wp_store [where x = "O_conn c"] assms(5))

lemma conn_tail_upd [simp]:
  "conn_tail_blocks k (c\<lparr>conn_cq := x\<rparr>) = conn_tail_blocks k c"
  "conn_tail_blocks k (c\<lparr>conn_rcq := x\<rparr>) = conn_tail_blocks k c"
  "conn_tail_blocks k (c\<lparr>conn_flush := x\<rparr>) = conn_tail_blocks k c"
  "conn_tail_res (c\<lparr>conn_cq := x\<rparr>) = conn_tail_res c"
  "conn_tail_res (c\<lparr>conn_rcq := x\<rparr>) = conn_tail_res c"
  "conn_tail_res (c\<lparr>conn_flush := x\<rparr>) = conn_tail_res c"
  "k \<in> conn_tail_blocks k c"
  by (simp_all add: conn_tail_blocks_def conn_tail_res_def)

lemma wp_conn_delete_destroy_id:
  assumes "obj_at k (O_conn c) s" and "pdata_ok (conn_data c) s" and "ledger_ok s"
    and "conn_tail_res c \<subseteq># acct s"
    and "\<And>ret s'. ledger_ok s' \<Longrightarrow> destroyed (conn_tail_blocks k c) (conn_tail_res c) s s' \<Longrightarrow>
       ret \<in> {0, RPMA_E_PROVIDER} \<Longrightarrow> Q ret s'"
  shows "wp (conn_delete_destroy_id E k s) Q"
proof -
  let ?id = "Rdma_destroy_id (conn_id c)" and ?ch = "Ibv_destroy_comp_channel (conn_channel c)"
  let ?e = "{#R_evch (conn_evch c)#}"
  have d: "pdata_ok (conn_data c) s'" if "mem s' = mem s" for s'
    using assms(2) by (rule pdata_ok_cong) (simp add: that)
  have sub: "R_id (conn_id c) \<in># acct s" "chan_res (conn_channel c) + ?e \<subseteq># acct s - {#R_id (conn_id c)#}"
    using mset_sub_leftD [OF assms(4) [unfolded conn_tail_res_def]]
      mset_sub_diffI [OF assms(4) [unfolded conn_tail_res_def]] by simp_all
  have sub': "?e \<subseteq># acct s - {#R_id (conn_id c)#} - chan_res (conn_channel c)"
    "chan_res (conn_channel c) \<subseteq># acct s - {#R_id (conn_id c)#}"
    using mset_sub_leftD [OF sub(2)] mset_sub_diffI [OF sub(2)] by simp_all
  have fin: "Q ret s'" if "destroyed (conn_tail_blocks k c) (chan_res (conn_channel c) + ?e) (push ?id r s) s'"
      "ledger_ok s' \<and> ret \<in> {0, RPMA_E_PROVIDER}" for r s' ret
    using that(2) destroyed_after_call [OF that(1)] by (intro assms(5)) (auto simp: conn_tail_res_def)
  have errch: "wp (conn_delete_err_destroy_comp_channel E k (push ?id r s)) (\<lambda>_ s'. Q RPMA_E_PROVIDER s')" for r
    using assms(1,3) sub d
    by (intro wp_conn_delete_err_destroy_comp_channel [where c = c] fin) auto
  have errev: "wp (conn_delete_err_destroy_event_channel E k
      (if conn_channel c = NULL then push ?id r s else set_errno e (push ?ch r' (push ?id r s))))
      (\<lambda>_ s'. Q ret s')" if "ret \<in> {0, RPMA_E_PROVIDER}" for r r' e ret
  proof (rule wp_conn_delete_err_destroy_event_channel [where c = c])
    fix s'
    assume "ledger_ok s'" and "destroyed (conn_tail_blocks k c) ?e
      (if conn_channel c = NULL then push ?id r s else set_errno e (push ?ch r' (push ?id r s))) s'"
    with that show "Q ret s'"
      by (intro fin) (auto simp: destroyed_def chan_res_def diff_diff_add_mset add_mset_commute fun_eq_iff
          split: if_splits)
  qed (use assms(1,3) sub sub' d in \<open>auto simp: chan_res_def add_mset_commute split: if_splits\<close>)
  show ?thesis
    using assms(1) errch errev [of 0] errev [of RPMA_E_PROVIDER] unfolding conn_delete_destroy_id_def
    by (auto intro!: wp_ext split: if_splits)
qed

lemma conn_cq_dropped:
  assumes "obj_at k (O_conn c) s" and "pdata_ok (conn_data c) s"
    and "owns_cq_opt (conn_cq c) B R s" and "R + conn_tail_res c \<subseteq># acct s" and "dropped k B R s s'"
  shows "pdata_ok (conn_data c) s'" and "conn_tail_res c \<subseteq># acct s'"
  using dropped_pdata_ok [OF assms(5,2)] owns_cq_opt_disjoint(1) [OF assms(3,2)]
    pdata_disjoint(1) [OF assms(2,1)] dropped_acct [OF assms(5,4)] by simp_all

lemma wp_conn_delete_err_rpma_cq_delete:
  assumes "obj_at k (O_conn c) s" and "pdata_ok (conn_data c) s" and "ledger_ok s"
    and "owns_cq_opt (conn_cq c) B R s" and "R + conn_tail_res c \<subseteq># acct s"
    and "\<And>s'. ledger_ok s' \<Longrightarrow> destroyed (B \<union> conn_tail_blocks k c) (R + conn_tail_res c) s s' \<Longrightarrow> Q () s'"
  shows "wp (conn_delete_err_rpma_cq_delete E k s) Q"
  unfolding conn_delete_err_rpma_cq_delete_def wp_bind
proof (rule wp_conn_delete_cq [OF assms(1,4,3) mset_sub_leftD [OF assms(5)]])
  fix s' and ret :: rc
  assume s': "ledger_ok s'" "dropped k B R s s'" "obj_at k (O_conn (c\<lparr>conn_cq := NULL\<rparr>)) s'"
  show "wp (conn_delete_err_destroy_id E k s') Q"
    using conn_cq_dropped [OF assms(1,2,4,5) s'(2)] s'(1) dropped_destroyed [OF s'(2)]
    by (intro wp_conn_delete_err_destroy_id [OF s'(3)] assms(6)) auto
qed

lemma wp_conn_delete_from_cq:
  assumes "obj_at k (O_conn c) s" and "pdata_ok (conn_data c) s" and "ledger_ok s"
    and "owns_cq_opt (conn_cq c) B R s" and "R + conn_tail_res c \<subseteq># acct s"
    and "\<And>ret s'. ledger_ok s' \<Longrightarrow> destroyed (B \<union> conn_tail_blocks k c) (R + conn_tail_res c) s s' \<Longrightarrow>
       ret \<in> {0, RPMA_E_PROVIDER} \<Longrightarrow> Q ret s'"
  shows "wp (conn_delete_from_cq E k s) Q"
  unfolding conn_delete_from_cq_def wp_bind
proof (rule wp_conn_delete_cq [OF assms(1,4,3) mset_sub_leftD [OF assms(5)]])
  fix s' and ret :: rc
  assume s': "ledger_ok s'" "dropped k B R s s'" "obj_at k (O_conn (c\<lparr>conn_cq := NULL\<rparr>)) s'"
    and ret: "ret \<in> {0, RPMA_E_PROVIDER}"
  note k = conn_cq_dropped [OF assms(1,2,4,5) s'(2)] s'(1) dropped_destroyed [OF s'(2)]
  have "wp (conn_delete_err_destroy_id E k s') (\<lambda>_ s'. Q ret s')"
    using k ret by (intro wp_conn_delete_err_destroy_id [OF s'(3)] assms(6)) auto
  moreover have "wp (conn_delete_destroy_id E k s') Q"
    using k by (intro wp_conn_delete_destroy_id [OF s'(3)] assms(6)) auto
  ultimately show "wp (if ret \<noteq> 0 then do { (_, s) \<leftarrow> conn_delete_err_destroy_id E k s'; Some (ret, s) }
      else conn_delete_destroy_id E k s') Q"
    by simp
qed

text \<open>The completion queues of a connection, the receive queue being optional.\<close>

definition conn_cqs :: "rpma_conn \<Rightarrow> ptr set \<Rightarrow> res multiset \<Rightarrow> ptr set \<Rightarrow> res multiset \<Rightarrow> st \<Rightarrow> bool" where
  "conn_cqs c CB CR RB RR s \<longleftrightarrow>
     owns_cq_opt (conn_cq c) CB CR s \<and> owns_cq_opt (conn_rcq c) RB RR s \<and> RB \<inter> CB = {}"

lemma conn_cqs_cong:
  "conn_cqs c CB CR RB RR s \<Longrightarrow> (\<And>q. q \<in> CB \<union> RB \<Longrightarrow> mem s' q = mem s q) \<Longrightarrow> conn_cqs c CB CR RB RR s'"
  by (auto simp: conn_cqs_def intro: owns_cq_opt_cong)

lemma conn_rcq_dropped:
  assumes "obj_at k (O_conn c) s" and "pdata_ok (conn_data c) s" and "conn_cqs c CB CR RB RR s"
    and "dropped k RB RR (push cl r s) s'"
  shows "pdata_ok (conn_data c) s'" and "owns_cq_opt (conn_cq c) CB CR s'"
proof -
  have o: "owns_cq_opt (conn_cq c) CB CR s" "owns_cq_opt (conn_rcq c) RB RR s" "RB \<inter> CB = {}"
    using assms(3) by (auto simp: conn_cqs_def)
  have p: "pdata_ok (conn_data c) (push cl r s)" and q: "owns_cq_opt (conn_cq c) CB CR (push cl r s)"
    using assms(2) o(1) by (auto intro: pdata_ok_cong owns_cq_opt_cong)
  show "pdata_ok (conn_data c) s'"
    by (rule dropped_pdata_ok [OF assms(4) p owns_cq_opt_disjoint(1) [OF o(2) assms(2)]
          pdata_disjoint(1) [OF assms(2,1)]])
  show "owns_cq_opt (conn_cq c) CB CR s'"
    by (rule dropped_owns_cq_opt [OF assms(4) q o(3) owns_cq_opt_disjoint(2) [OF o(1) assms(1)]])
qed

text \<open>What is left of a connection once its flushing object is gone.\<close>

abbreviation conn_qp_res :: "rpma_conn \<Rightarrow> res multiset \<Rightarrow> res multiset \<Rightarrow> res multiset" where
  "conn_qp_res c CR RR \<equiv> {#R_qp (conn_id c)#} + (RR + (CR + conn_tail_res c))"

lemma wp_conn_qp_rcq:
  assumes "obj_at k (O_conn c) s" and "pdata_ok (conn_data c) s" and "ledger_ok s"
    and "conn_cqs c CB CR RB RR s" and "conn_qp_res c CR RR \<subseteq># acct s"
    and Q: "\<And>ret s'. ledger_ok s' \<Longrightarrow> obj_at k (O_conn (c\<lparr>conn_rcq := NULL\<rparr>)) s' \<Longrightarrow>
       pdata_ok (conn_data c) s' \<Longrightarrow> owns_cq_opt (conn_cq c) CB CR s' \<Longrightarrow> CR + conn_tail_res c \<subseteq># acct s' \<Longrightarrow>
       dropped k RB ({#R_qp (conn_id c)#} + RR) s s' \<Longrightarrow> ret \<in> {0, RPMA_E_PROVIDER} \<Longrightarrow> Q ret s'"
  shows "wp (do { (_, s) \<leftarrow> ext E (Rdma_destroy_qp (conn_id c)) s; conn_delete_rcq E k s }) Q"
proof -
  let ?s = "\<lambda>r. push (Rdma_destroy_qp (conn_id c)) r s"
  have sub: "R_qp (conn_id c) \<in># acct s" "RR + (CR + conn_tail_res c) \<subseteq># acct (?s r)" for r
    using mset_sub_leftD [OF assms(5)] mset_sub_diffI [OF assms(5)] by simp_all
  have "wp (conn_delete_rcq E k (?s r)) Q" for r
  proof (rule wp_conn_delete_rcq [where c = c and B = RB and R = RR])
    show "owns_cq_opt (conn_rcq c) RB RR (?s r)"
      using assms(4) by (auto simp: conn_cqs_def intro: owns_cq_opt_cong)
    fix ret s'
    assume s': "ledger_ok s'" "dropped k RB RR (?s r) s'" "obj_at k (O_conn (c\<lparr>conn_rcq := NULL\<rparr>)) s'"
      "ret \<in> {0, RPMA_E_PROVIDER}"
    have "dropped k RB ({#R_qp (conn_id c)#} + RR) s s'"
      using s'(2) by (simp add: dropped_def)
    with s' show "Q ret s'"
      by (intro Q dropped_acct [OF s'(2) sub(2)] conn_rcq_dropped [OF assms(1,2,4) s'(2)])
  qed (use assms(1,3) sub mset_sub_leftD [OF sub(2)] in auto)
  then show ?thesis by (auto intro!: wp_ext)
qed

lemma conn_qp_destroyed:
  assumes "dropped k RB ({#R_qp (conn_id c)#} + RR) s s'"
    and "destroyed (CB \<union> conn_tail_blocks k c) (CR + conn_tail_res c) s' s''"
  shows "destroyed (RB \<union> (CB \<union> conn_tail_blocks k c)) (conn_qp_res c CR RR) s s''"
  using dropped_destroyed [OF assms] by (simp add: ac_simps)

lemma wp_conn_delete_err_destroy_qp:
  assumes "obj_at k (O_conn c) s" and "pdata_ok (conn_data c) s" and "ledger_ok s"
    and "conn_cqs c CB CR RB RR s" and "conn_qp_res c CR RR \<subseteq># acct s"
    and "\<And>s'. ledger_ok s' \<Longrightarrow>
       destroyed (RB \<union> (CB \<union> conn_tail_blocks k c)) (conn_qp_res c CR RR) s s' \<Longrightarrow> Q () s'"
  shows "wp (conn_delete_err_destroy_qp E k s) Q"
proof -
  have "wp (do { (_, s) \<leftarrow> ext E (Rdma_destroy_qp (conn_id c)) s; conn_delete_rcq E k s })
      (\<lambda>_ s'. wp (conn_delete_err_rpma_cq_delete E k s') Q)"
    by (rule wp_conn_qp_rcq [OF assms(1-5)])
       (auto intro!: wp_conn_delete_err_rpma_cq_delete assms(6) dest: conn_qp_destroyed [simplified])
  with assms(1) show ?thesis by (simp add: conn_delete_err_destroy_qp_def)
qed

lemma wp_conn_delete_from_qp:
  assumes "obj_at k (O_conn c) s" and "pdata_ok (conn_data c) s" and "ledger_ok s"
    and "conn_cqs c CB CR RB RR s" and "conn_qp_res c CR RR \<subseteq># acct s"
    and "\<And>ret s'. ledger_ok s' \<Longrightarrow>
       destroyed (RB \<union> (CB \<union> conn_tail_blocks k c)) (conn_qp_res c CR RR) s s' \<Longrightarrow>
       ret \<in> {0, RPMA_E_PROVIDER} \<Longrightarrow> Q ret s'"
  shows "wp (conn_delete_from_qp E k s) Q"
proof -
  have "wp (do { (_, s) \<leftarrow> ext E (Rdma_destroy_qp (conn_id c)) s; conn_delete_rcq E k s })
      (\<lambda>ret s'. (ret \<noteq> 0 \<longrightarrow> wp (conn_delete_err_rpma_cq_delete E k s') (\<lambda>_ s'. Q ret s')) \<and>
        (ret = 0 \<longrightarrow> wp (conn_delete_from_cq E k s') Q))"
    by (rule wp_conn_qp_rcq [OF assms(1-5)])
       (auto intro!: wp_conn_delete_err_rpma_cq_delete wp_conn_delete_from_cq assms(6)
         dest: conn_qp_destroyed [simplified])
  with assms(1) show ?thesis by (simp add: conn_delete_from_qp_def)
qed

subsection \<open>What a connection owns\<close>

definition owns_conn :: "ptr \<Rightarrow> ptr set \<Rightarrow> res multiset \<Rightarrow> st \<Rightarrow> bool" where
  "owns_conn k B R s \<longleftrightarrow> (\<exists>c CB CR RB RR F FR.
     obj_at k (O_conn c) s \<and> conn_cqs c CB CR RB RR s \<and> owns_flush (conn_flush c) F FR s \<and>
     pdata_ok (conn_data c) s \<and>
     B = F \<union> (RB \<union> (CB \<union> conn_tail_blocks k c)) \<and>
     R = FR + ({#R_qp (conn_id c)#} + (RR + (CR + conn_tail_res c))))"

lemma wp_rpma_conn_delete:
  assumes own: "owns_conn k B R s" and ok: "ledger_ok s" and sub: "R \<subseteq># acct s"
    and Q: "\<And>ret s'. ledger_ok s' \<Longrightarrow> destroyed B R s s' \<Longrightarrow>
       ret \<in> {0, RPMA_E_PROVIDER, RPMA_E_INVAL} \<Longrightarrow> Q (ret, Some NULL) s'"
  shows "wp (rpma_conn_delete E (Some k) s) Q"
proof -
  from own obtain c CB CR RB RR F FR where
    o: "obj_at k (O_conn c) s" "owns_flush (conn_flush c) F FR s" "pdata_ok (conn_data c) s"
      "conn_cqs c CB CR RB RR s"
    and B: "B = F \<union> (RB \<union> (CB \<union> conn_tail_blocks k c))" and R: "R = FR + conn_qp_res c CR RR"
    by (auto simp: owns_conn_def)
  let ?c = "c\<lparr>conn_flush := NULL\<rparr>"
  have "F \<inter> pdata_blocks (conn_data c) = {}" "k \<notin> F" "k \<notin> pdata_blocks (conn_data c)"
    and "CB \<inter> F = {}" "RB \<inter> F = {}" "k \<notin> CB" "k \<notin> RB"
    using owns_flush_disjoint(1) [OF o(2,3)] owns_flush_disjoint(2) [OF o(2,1)] pdata_disjoint(1) [OF o(3,1)]
      owns_cq_opt_disjoint(3) [OF _ o(2)] owns_cq_opt_disjoint(2) [OF _ o(1)] o(4)
    unfolding conn_cqs_def by blast+
  note disj = this
  have step: "wp (conn_delete_err_destroy_qp E k s') (\<lambda>_ s'. Q (ret, Some NULL) s')"
      "wp (conn_delete_from_qp E k s') (\<lambda>ret s'. Q (ret, Some NULL) s')"
    if s': "ledger_ok s'" "dropped k F FR s s'" "obj_at k (O_conn ?c) s'"
      and ret: "ret \<in> {0, RPMA_E_PROVIDER, RPMA_E_INVAL}" for s' ret
  proof -
    have p: "pdata_ok (conn_data ?c) s'"
      using dropped_pdata_ok [OF s'(2) o(3)] disj by simp
    have "conn_cqs c CB CR RB RR s'"
      using o(4) by (rule conn_cqs_cong) (use s'(2) disj in \<open>force simp: dropped_def\<close>)
    then have q: "conn_cqs ?c CB CR RB RR s'" by (simp add: conn_cqs_def)
    have r: "conn_qp_res ?c CR RR \<subseteq># acct s'"
      using dropped_acct [OF s'(2)] sub by (simp add: R)
    have d: "destroyed B R s s''" if "destroyed (RB \<union> (CB \<union> conn_tail_blocks k ?c)) (conn_qp_res ?c CR RR) s' s''"
      for s'' using dropped_destroyed [OF s'(2) that] by (simp add: B R)
    show "wp (conn_delete_err_destroy_qp E k s') (\<lambda>_ s'. Q (ret, Some NULL) s')"
      by (rule wp_conn_delete_err_destroy_qp [OF s'(3) p s'(1) q r]) (auto intro: Q [OF _ d ret])
    show "wp (conn_delete_from_qp E k s') (\<lambda>ret s'. Q (ret, Some NULL) s')"
      by (rule wp_conn_delete_from_qp [OF s'(3) p s'(1) q r]) (use Q [OF _ d] in auto)
  qed
  have fsub: "FR \<subseteq># acct s" using sub unfolding R by (rule mset_sub_leftD)
  have drop: "dropped k F FR s (s'\<lparr>mem := (mem s')(k \<mapsto> x)\<rparr>)" if "destroyed F FR s s'" for s' x
    using that by (simp add: destroyed_def dropped_def)
  have live: "obj_at k (O_conn c) s'" if "destroyed F FR s s'" for s'
    using that o(1) disj by (simp add: destroyed_def obj_at_def)
  have "k \<noteq> NULL" "k \<noteq> CONN_CFG_DEFAULT_ADDR" using o(1) by (auto simp: obj_at_def)
  with o(1) show ?thesis
    unfolding rpma_conn_delete_def
    by (auto intro!: wp_rpma_flush_delete [OF o(2) ok fsub] wp_store [OF live] step drop)
qed

subsection \<open>Creation\<close>

text \<open>A new connection object: one block and the blocks of its flushing object, the new event
  channel and the resources of the flushing object. The CM ID and the queues are the caller's.\<close>

definition conn_made :: "ptr \<Rightarrow> ptr \<Rightarrow> ptr \<Rightarrow> ptr \<Rightarrow> st \<Rightarrow> ptr \<Rightarrow> st \<Rightarrow> bool" where
  "conn_made i cq rcq channel s k s' \<longleftrightarrow> (\<exists>evch flush F FR.
     obj_at k (O_conn \<lparr>conn_id = i, conn_evch = evch, conn_cq = cq, conn_rcq = rcq,
        conn_channel = channel, conn_data = no_pdata, conn_flush = flush,
        conn_direct_write_to_pmem = False\<rparr>) s' \<and>
     owns_flush flush F FR s' \<and> created (insert k F) (FR + {#R_evch evch#}) s s')"

lemma wp_conn_new_err_migrate_id_NULL:
  assumes "ledger_ok s" and "R_evch evch \<in># acct s"
    and "\<And>s'. ledger_ok s' \<Longrightarrow> mem s' = mem s \<Longrightarrow> acct s' = acct s - {#R_evch evch#} \<Longrightarrow> Q () s'"
  shows "wp (conn_new_err_migrate_id_NULL E i evch s) Q"
  using assms unfolding conn_new_err_migrate_id_NULL_def conn_new_err_destroy_evch_def
  by (auto intro!: wp_ext)

lemma wp_conn_new_err_flush_delete:
  assumes "ledger_ok s" and "owns_flush flush F FR s" and "FR + {#R_evch evch#} \<subseteq># acct s"
    and "\<And>s'. ledger_ok s' \<Longrightarrow> destroyed F (FR + {#R_evch evch#}) s s' \<Longrightarrow> Q () s'"
  shows "wp (conn_new_err_flush_delete E flush i evch s) Q"
  using mset_sub_diffI [OF assms(3)] unfolding conn_new_err_flush_delete_def
  by (auto simp: destroyed_def diff_diff_add_mset
      intro!: wp_rpma_flush_delete [OF assms(2,1) mset_sub_leftD [OF assms(3)]]
        wp_conn_new_err_migrate_id_NULL assms(4))

lemma created_then_destroyed:
  "acct t = acct s + R \<Longrightarrow> mem t = mem s \<Longrightarrow> created F FR t s' \<Longrightarrow> destroyed F (FR + R) s' s'' \<Longrightarrow> unchanged s s''"
  by (auto simp: created_def destroyed_def unchanged_def fun_eq_iff)

lemma created_more:
  assumes "created F FR t s'" and "mem t = mem s" and "acct t = acct s + R" and "fresh k s'"
  shows "created (insert k F) (FR + R) s ((push Malloc r s')\<lparr>mem := (mem s')(k \<mapsto> x)\<rparr>)"
  using assms by (auto simp: created_def fresh_def)

lemma wp_rpma_conn_new:
  assumes peer: "obj_at peer (O_peer p) s" and ok: "ledger_ok s"
    and Q0: "\<And>k s'. ledger_ok s' \<Longrightarrow> conn_made i cq rcq channel s k s' \<Longrightarrow> Q (0, Some k) s'"
    and Q1: "\<And>ret s'. ledger_ok s' \<Longrightarrow> unchanged s s' \<Longrightarrow>
       ret \<in> {RPMA_E_PROVIDER, RPMA_E_NOMEM, RPMA_E_INVAL} \<Longrightarrow> Q (ret, Some x) s'"
  shows "wp (rpma_conn_new E peer i cq rcq channel (Some x) s) Q"
proof -
  let ?t = "\<lambda>r r'. push (Rdma_migrate_id i (rptr r)) r' (push Rdma_create_event_channel r s)"
  have t: "acct (?t r r') = acct s + {#R_evch (rptr r)#}" "mem (?t r r') = mem s" if "rptr r \<noteq> NULL" for r r'
    using that by simp_all
  have fl: "wp (conn_new_err_flush_delete E f i (rptr r) (push Malloc r'' s'))
       (\<lambda>_ s''. Q (RPMA_E_NOMEM, Some x) s'')"
    if "rptr r \<noteq> NULL" "ledger_ok s'" "owns_flush f F FR s'" "created F FR (?t r r') s'" for f F FR r r' r'' s'
  proof (rule wp_conn_new_err_flush_delete)
    show "owns_flush f F FR (push Malloc r'' s')" using that(3) by (rule owns_flush_cong) simp
    show "FR + {#R_evch (rptr r)#} \<subseteq># acct (push Malloc r'' s')"
      using that(1,4) by (simp add: created_def)
    fix s''
    assume "ledger_ok s''" and "destroyed F (FR + {#R_evch (rptr r)#}) (push Malloc r'' s') s''"
    then show "Q (RPMA_E_NOMEM, Some x) s''"
      using created_then_destroyed [OF t [OF that(1)] that(4)]
      by (intro Q1) (auto simp: destroyed_def cong: if_cong)
  qed (use that in auto)
  have fin: "Q (0, Some k) ((push Malloc r'' s')\<lparr>mem := (mem s')(k \<mapsto> O_conn \<lparr>conn_id = i,
      conn_evch = rptr r, conn_cq = cq, conn_rcq = rcq, conn_channel = channel,
      conn_data = no_pdata, conn_flush = f, conn_direct_write_to_pmem = False\<rparr>)\<rparr>)"
    if "rptr r \<noteq> NULL" "ledger_ok s'" "owns_flush f F FR s'" "created F FR (?t r r') s'" "fresh k s'"
    for f F FR r r' r'' s' k
  proof (rule Q0)
    have "k \<notin> F" using owns_flush_live [OF that(3), of k] that(5) by (auto simp: fresh_def)
    with that show "conn_made i cq rcq channel s k ((push Malloc r'' s')\<lparr>mem := (mem s')(k \<mapsto> O_conn
        \<lparr>conn_id = i, conn_evch = rptr r, conn_cq = cq, conn_rcq = rcq, conn_channel = channel,
         conn_data = no_pdata, conn_flush = f, conn_direct_write_to_pmem = False\<rparr>)\<rparr>)"
      unfolding conn_made_def
      by (intro exI [of _ "rptr r"] exI [of _ f] exI [of _ F] exI [of _ FR] conjI
            created_more [OF that(4)] owns_flush_cong [OF that(3)]) (auto simp: fresh_def)
  qed (use that in auto)
  show ?thesis
  proof (cases "i = NULL \<or> cq = NULL")
    case True
    then show ?thesis using ok Q1 [of s RPMA_E_INVAL] unfolding rpma_conn_new_def by auto
  next
    case False
    then show ?thesis
      using peer ok unfolding rpma_conn_new_def conn_new_err_destroy_evch_def
      by (auto simp: unchanged_def Let_def fresh_def obj_at_def obj_at_nonnull
          intro!: wp_ext wp_rpma_flush_new [where p = p] wp_conn_new_err_migrate_id_NULL wp_malloc
            wp_store fl [unfolded RPMA_E_NOMEM_def] Q1 fin)
  qed
qed

end
