(* ===== verification/Conn_Req.thy ===== *)
theory Conn_Req
  imports Conn_Life
begin

text \<open>
  Connection requests: \<open>src/src/conn_req.c\<close>. A request is either outgoing (active: the library
  creates the CM ID) or incoming (passive: the CM ID came with a CM event); it owns the queue pair,
  the completion queues, the shared completion channel and the private data, until it is turned
  into a connection or deleted. The labels of the source are definitions of their own.
  The GID addresses that \<open>rpma_conn_req_from_id\<close> formats are only logged; the formatting
  function is modelled, its use is not.
\<close>

subsection \<open>GID addresses\<close>

definition GID_STR_LEN :: nat where "GID_STR_LEN = 40"

definition hex_digit :: "nat \<Rightarrow> char" where
  "hex_digit n = ''0123456789abcdef'' ! (n mod 16)"

text \<open>The conversion \<open>%02x\<close> of a byte.\<close>

definition hex2 :: "u8 \<Rightarrow> string" where
  "hex2 b = [hex_digit (unat b div 16), hex_digit (unat b)]"

fun gid_chars :: "u8 list \<Rightarrow> string" where
  "gid_chars (a # b # c # rest) = hex2 a @ hex2 b @ '':'' @ gid_chars (c # rest)"
| "gid_chars [a, b] = hex2 a @ hex2 b"
| "gid_chars bs = concat (map hex2 bs)"

text \<open>The buffer has \<open>size\<close> characters; \<open>snprintf(3)\<close> writes at most \<open>size - 1\<close> of them and a
  terminating zero, behind which the zeros of \<open>memset(3)\<close> stay. With the fixed format of this call
  \<open>snprintf(3)\<close> cannot report an error.\<close>

definition rpma_snprintf_gid :: "u8 list \<Rightarrow> nat \<Rightarrow> rc \<times> string" where
  "rpma_snprintf_gid raw n =
     (let str = take (n - 1) (gid_chars (take 16 raw)) in
      (0, str @ replicate (n - length str) (CHR 0x00)))"

subsection \<open>Creation from a CM ID\<close>

definition req_from_id_err_comp_channel_destroy :: "env \<Rightarrow> ptr \<Rightarrow> st \<Rightarrow> (unit \<times> st) option" where
  "req_from_id_err_comp_channel_destroy E channel s =
     (if channel \<noteq> NULL then do {
        (_, s) \<leftarrow> ext E (Ibv_destroy_comp_channel channel) s;
        Some ((), s)
      } else Some ((), s))"

definition req_from_id_err_rpma_cq_delete :: "env \<Rightarrow> ptr \<Rightarrow> ptr \<Rightarrow> st \<Rightarrow> (unit \<times> st) option" where
  "req_from_id_err_rpma_cq_delete E cq channel s = do {
     (_, s) \<leftarrow> rpma_cq_delete E cq s;
     req_from_id_err_comp_channel_destroy E channel s
   }"

definition req_from_id_err_rpma_rcq_delete :: "env \<Rightarrow> ptr \<Rightarrow> ptr \<Rightarrow> ptr \<Rightarrow> st \<Rightarrow> (unit \<times> st) option" where
  "req_from_id_err_rpma_rcq_delete E rcq cq channel s = do {
     (_, s) \<leftarrow> rpma_cq_delete E rcq s;
     req_from_id_err_rpma_cq_delete E cq channel s
   }"

definition req_from_id_err_destroy_qp ::
  "env \<Rightarrow> ptr \<Rightarrow> ptr \<Rightarrow> ptr \<Rightarrow> ptr \<Rightarrow> st \<Rightarrow> (unit \<times> st) option" where
  "req_from_id_err_destroy_qp E i rcq cq channel s = do {
     (_, s) \<leftarrow> ext E (Rdma_destroy_qp i) s;
     req_from_id_err_rpma_rcq_delete E rcq cq channel s
   }"

text \<open>The normal path, cut where the next resource is acquired: from the creation of the queue
  pair on, from the creation of the completion queues on, and from the beginning.\<close>

definition req_from_id_qp ::
  "env \<Rightarrow> ptr \<Rightarrow> ptr \<Rightarrow> ptr \<Rightarrow> ptr \<Rightarrow> ptr \<Rightarrow> ptr \<Rightarrow> ptr \<Rightarrow> st \<Rightarrow> ((rc \<times> ptr) \<times> st) option" where
  "req_from_id_qp E peer i cfg channel cq rcq req_ptr s = do {
     (ret, s) \<leftarrow> rpma_peer_create_qp E peer i cq rcq cfg s;
     if ret \<noteq> 0 then do {
       (_, s) \<leftarrow> req_from_id_err_rpma_rcq_delete E rcq cq channel s;
       Some ((ret, req_ptr), s)
     } else do {
       (req, s) \<leftarrow> malloc E s;
       if req = NULL then do {
         (_, s) \<leftarrow> req_from_id_err_destroy_qp E i rcq cq channel s;
         Some ((RPMA_E_NOMEM, req), s)
       } else do {
         (_, s) \<leftarrow> store req (O_conn_req
           \<lparr>req_is_passive = False, req_id = i, req_cq = cq, req_rcq = rcq,
            req_channel = channel, req_data = \<lparr>pdata_ptr = NULL, pdata_len = 0\<rparr>,
            req_peer = peer\<rparr>) s;
         Some ((0, req), s)
       }
     }
   }"

definition req_from_id_cqs ::
  "env \<Rightarrow> ptr \<Rightarrow> ptr \<Rightarrow> ptr \<Rightarrow> int \<Rightarrow> int \<Rightarrow> ptr \<Rightarrow> ptr \<Rightarrow> st \<Rightarrow> ((rc \<times> ptr) \<times> st) option" where
  "req_from_id_cqs E peer i cfg cqe rcqe channel req_ptr s = do {
     ((ret, cq), s) \<leftarrow> rpma_cq_new E (id_verbs E (trace s) i) cqe channel NULL s;
     if ret \<noteq> 0 then do {
       (_, s) \<leftarrow> req_from_id_err_comp_channel_destroy E channel s;
       Some ((ret, req_ptr), s)
     } else do {
       ((ret, rcq), s) \<leftarrow>
         (if rcqe \<noteq> 0 then rpma_cq_new E (id_verbs E (trace s) i) rcqe channel NULL s
          else Some ((0, NULL), s));
       if ret \<noteq> 0 then do {
         (_, s) \<leftarrow> req_from_id_err_rpma_cq_delete E cq channel s;
         Some ((ret, req_ptr), s)
       } else req_from_id_qp E peer i cfg channel cq rcq req_ptr s
     }
   }"

definition rpma_conn_req_from_id ::
  "env \<Rightarrow> ptr \<Rightarrow> ptr \<Rightarrow> ptr \<Rightarrow> ptr \<Rightarrow> st \<Rightarrow> ((rc \<times> ptr) \<times> st) option" where
  "rpma_conn_req_from_id E peer i cfg req_ptr s = do {
     (cqe, s) \<leftarrow> rpma_conn_cfg_get_cqe cfg s;
     (rcqe, s) \<leftarrow> rpma_conn_cfg_get_rcqe cfg s;
     ((_, shared), s) \<leftarrow> rpma_conn_cfg_get_compl_channel cfg (Some False) s;
     if the shared then do {
       (r, s) \<leftarrow> ext E (Ibv_create_comp_channel (id_verbs E (trace s) i)) s;
       if rptr r = NULL then Some ((RPMA_E_PROVIDER, req_ptr), s)
       else req_from_id_cqs E peer i cfg cqe rcqe (rptr r) req_ptr s
     } else req_from_id_cqs E peer i cfg cqe rcqe NULL req_ptr s
   }"

subsection \<open>From a request to a connection\<close>

text \<open>\<open>rpma_cq_delete(&req->rcq)\<close>, \<open>rpma_cq_delete(&req->cq)\<close> and
  \<open>rpma_private_data_discard(&req->data)\<close>.\<close>

definition req_delete_rcq :: "env \<Rightarrow> ptr \<Rightarrow> st \<Rightarrow> (rc \<times> st) option" where
  "req_delete_rcq E req s = do {
     c \<leftarrow> load_conn_req req s;
     ((ret, q), s) \<leftarrow> rpma_cq_delete E (req_rcq c) s;
     (_, s) \<leftarrow> store req (O_conn_req (c\<lparr>req_rcq := q\<rparr>)) s;
     Some (ret, s)
   }"

definition req_delete_cq :: "env \<Rightarrow> ptr \<Rightarrow> st \<Rightarrow> (rc \<times> st) option" where
  "req_delete_cq E req s = do {
     c \<leftarrow> load_conn_req req s;
     ((ret, q), s) \<leftarrow> rpma_cq_delete E (req_cq c) s;
     (_, s) \<leftarrow> store req (O_conn_req (c\<lparr>req_cq := q\<rparr>)) s;
     Some (ret, s)
   }"

definition req_discard_data :: "ptr \<Rightarrow> st \<Rightarrow> (unit \<times> st) option" where
  "req_discard_data req s = do {
     c \<leftarrow> load_conn_req req s;
     (d, s) \<leftarrow> rpma_private_data_discard (req_data c) s;
     (_, s) \<leftarrow> store req (O_conn_req (c\<lparr>req_data := d\<rparr>)) s;
     Some ((), s)
   }"

definition req_accept_err_conn_req_delete :: "env \<Rightarrow> ptr \<Rightarrow> st \<Rightarrow> (unit \<times> st) option" where
  "req_accept_err_conn_req_delete E req s = do {
     c \<leftarrow> load_conn_req req s;
     (_, s) \<leftarrow> ext E (Rdma_destroy_qp (req_id c)) s;
     (_, s) \<leftarrow> req_delete_rcq E req s;
     (_, s) \<leftarrow> req_delete_cq E req s;
     (_, s) \<leftarrow> req_discard_data req s;
     if req_channel c \<noteq> NULL then do {
       (_, s) \<leftarrow> ext E (Ibv_destroy_comp_channel (req_channel c)) s;
       Some ((), s)
     } else Some ((), s)
   }"

definition req_accept_err_conn_disconnect :: "env \<Rightarrow> ptr \<Rightarrow> st \<Rightarrow> (unit \<times> st) option" where
  "req_accept_err_conn_disconnect E req s = do {
     c \<leftarrow> load_conn_req req s;
     (_, s) \<leftarrow> ext E (Rdma_disconnect (req_id c)) s;
     req_accept_err_conn_req_delete E req s
   }"

definition rpma_conn_req_accept ::
  "env \<Rightarrow> ptr \<Rightarrow> rdma_conn_param \<Rightarrow> ptr \<Rightarrow> st \<Rightarrow> ((rc \<times> ptr) \<times> st) option" where
  "rpma_conn_req_accept E req conn_param conn_ptr s = do {
     c \<leftarrow> load_conn_req req s;
     (r, s) \<leftarrow> ext E (Rdma_accept (req_id c) conn_param) s;
     if rint r \<noteq> 0 then do {
       (_, s) \<leftarrow> req_accept_err_conn_req_delete E req s;
       Some ((RPMA_E_PROVIDER, conn_ptr), s)
     } else do {
       ((ret, conn), s) \<leftarrow> rpma_conn_new E (req_peer c) (req_id c) (req_cq c) (req_rcq c)
          (req_channel c) (Some NULL) s;
       if ret \<noteq> 0 then do {
         (_, s) \<leftarrow> req_accept_err_conn_disconnect E req s;
         Some ((ret, conn_ptr), s)
       } else do {
         (d, s) \<leftarrow> rpma_conn_transfer_private_data (the conn) (req_data c) s;
         (_, s) \<leftarrow> store req (O_conn_req (c\<lparr>req_data := d\<rparr>)) s;
         Some ((0, the conn), s)
       }
     }
   }"

definition req_connect_active_err_conn_new :: "env \<Rightarrow> ptr \<Rightarrow> st \<Rightarrow> (unit \<times> st) option" where
  "req_connect_active_err_conn_new E req s = do {
     c \<leftarrow> load_conn_req req s;
     (_, s) \<leftarrow> ext E (Rdma_destroy_qp (req_id c)) s;
     (_, s) \<leftarrow> req_delete_rcq E req s;
     (_, s) \<leftarrow> req_delete_cq E req s;
     (_, s) \<leftarrow> ext E (Rdma_destroy_id (req_id c)) s;
     if req_channel c \<noteq> NULL then do {
       (_, s) \<leftarrow> ext E (Ibv_destroy_comp_channel (req_channel c)) s;
       Some ((), s)
     } else Some ((), s)
   }"

definition rpma_conn_req_connect_active ::
  "env \<Rightarrow> ptr \<Rightarrow> rdma_conn_param \<Rightarrow> ptr \<Rightarrow> st \<Rightarrow> ((rc \<times> ptr) \<times> st) option" where
  "rpma_conn_req_connect_active E req conn_param conn_ptr s = do {
     c \<leftarrow> load_conn_req req s;
     ((ret, conn), s) \<leftarrow> rpma_conn_new E (req_peer c) (req_id c) (req_cq c) (req_rcq c)
        (req_channel c) (Some NULL) s;
     if ret \<noteq> 0 then do {
       (_, s) \<leftarrow> req_connect_active_err_conn_new E req s;
       Some ((ret, conn_ptr), s)
     } else do {
       (r, s) \<leftarrow> ext E (Rdma_connect (req_id c) conn_param) s;
       if rint r \<noteq> 0 then do {
         (_, s) \<leftarrow> rpma_conn_delete E conn s;
         Some ((RPMA_E_PROVIDER, conn_ptr), s)
       } else Some ((0, the conn), s)
     }
   }"

definition rpma_conn_req_reject :: "env \<Rightarrow> ptr \<Rightarrow> st \<Rightarrow> (rc \<times> st) option" where
  "rpma_conn_req_reject E req s = do {
     c \<leftarrow> load_conn_req req s;
     (r, s) \<leftarrow> ext E (Rdma_reject (req_id c)) s;
     if rint r \<noteq> 0 then Some (RPMA_E_PROVIDER, s) else Some (0, s)
   }"

definition rpma_conn_req_destroy :: "env \<Rightarrow> ptr \<Rightarrow> st \<Rightarrow> (rc \<times> st) option" where
  "rpma_conn_req_destroy E req s = do {
     c \<leftarrow> load_conn_req req s;
     (r, s) \<leftarrow> ext E (Rdma_destroy_id (req_id c)) s;
     if rint r \<noteq> 0 then Some (RPMA_E_PROVIDER, s) else Some (0, s)
   }"

definition rpma_conn_req_delete ::
  "env \<Rightarrow> ptr option \<Rightarrow> st \<Rightarrow> ((rc \<times> ptr option) \<times> st) option" where
  "rpma_conn_req_delete E req_ptr s =
     (case req_ptr of
        None \<Rightarrow> Some ((RPMA_E_INVAL, req_ptr), s)
      | Some req \<Rightarrow>
          if req = NULL then Some ((0, req_ptr), s)
          else do {
            c \<leftarrow> load_conn_req req s;
            (_, s) \<leftarrow> ext E (Rdma_destroy_qp (req_id c)) s;
            (ret, s) \<leftarrow> req_delete_rcq E req s;
            (ret2, s) \<leftarrow> req_delete_cq E req s;
            let ret = (if ret = 0 \<and> ret2 \<noteq> 0 then ret2 else ret);
            (ret2, s) \<leftarrow>
              (if req_is_passive c then rpma_conn_req_reject E req s else rpma_conn_req_destroy E req s);
            let ret = (if ret = 0 \<and> ret2 \<noteq> 0 then ret2 else ret);
            (ret, s) \<leftarrow>
              (if req_channel c \<noteq> NULL then do {
                 (r, s) \<leftarrow> ext E (Ibv_destroy_comp_channel (req_channel c)) s;
                 let s = set_errno (rint r) s;
                 Some (if errno s \<noteq> 0 \<and> ret = 0 then RPMA_E_PROVIDER else ret, s)
               } else Some (ret, s));
            (_, s) \<leftarrow> req_discard_data req s;
            (_, s) \<leftarrow> free req s;
            Some ((ret, Some NULL), s)
          })"

definition rpma_conn_req_from_cm_event ::
  "env \<Rightarrow> ptr \<Rightarrow> rdma_cm_event option \<Rightarrow> ptr \<Rightarrow> ptr option \<Rightarrow> st
    \<Rightarrow> ((rc \<times> ptr option) \<times> st) option" where
  "rpma_conn_req_from_cm_event E peer event cfg req_ptr s =
     (if peer = NULL \<or> event = None \<or> ev_event (the event) \<noteq> RDMA_CM_EVENT_CONNECT_REQUEST \<or>
         req_ptr = None then Some ((RPMA_E_INVAL, req_ptr), s)
      else do {
        ((ret, req), s) \<leftarrow> rpma_conn_req_from_id E peer (ev_id (the event)) cfg NULL s;
        if ret \<noteq> 0 then Some ((ret, req_ptr), s)
        else do {
          c \<leftarrow> load_conn_req req s;
          ((ret, d), s) \<leftarrow> rpma_private_data_store E (the event) (req_data c) s;
          (_, s) \<leftarrow> store req (O_conn_req (c\<lparr>req_data := d\<rparr>)) s;
          if ret \<noteq> 0 then do {
            (_, s) \<leftarrow> rpma_conn_req_delete E (Some req) s;
            Some ((ret, req_ptr), s)
          } else do {
            (_, s) \<leftarrow> store req (O_conn_req (c\<lparr>req_data := d, req_is_passive := True\<rparr>)) s;
            Some ((0, Some req), s)
          }
        }
      })"

subsection \<open>The public interface\<close>

definition req_new_err_info_delete :: "env \<Rightarrow> ptr \<Rightarrow> st \<Rightarrow> (unit \<times> st) option" where
  "req_new_err_info_delete E info s = do {
     (_, s) \<leftarrow> rpma_info_delete E (Some info) s;
     Some ((), s)
   }"

definition req_new_err_destroy_id :: "env \<Rightarrow> ptr \<Rightarrow> ptr \<Rightarrow> st \<Rightarrow> (unit \<times> st) option" where
  "req_new_err_destroy_id E i info s = do {
     (_, s) \<leftarrow> ext E (Rdma_destroy_id i) s;
     req_new_err_info_delete E info s
   }"

definition rpma_conn_req_new ::
  "env \<Rightarrow> ptr \<Rightarrow> string option \<Rightarrow> string option \<Rightarrow> ptr \<Rightarrow> ptr option \<Rightarrow> st
    \<Rightarrow> ((rc \<times> ptr option) \<times> st) option" where
  "rpma_conn_req_new E peer addr port cfg req_ptr s =
     (if peer = NULL \<or> addr = None \<or> port = None \<or> req_ptr = None
      then Some ((RPMA_E_INVAL, req_ptr), s)
      else do {
        let cfg = (if cfg = NULL then rpma_conn_cfg_default else cfg);
        ((_, t), s) \<leftarrow> rpma_conn_cfg_get_timeout cfg (Some 0) s;
        let timeout_ms = the t;
        ((ret, info), s) \<leftarrow> rpma_info_new E addr port RPMA_INFO_ACTIVE (Some NULL) s;
        if ret \<noteq> 0 then Some ((ret, req_ptr), s)
        else do {
          let info = the info;
          (r, s) \<leftarrow> ext E (Rdma_create_id NULL) s;
          let i = rptr r;
          if rint r \<noteq> 0 then do {
            (_, s) \<leftarrow> req_new_err_info_delete E info s;
            Some ((RPMA_E_PROVIDER, req_ptr), s)
          } else do {
            (ret, s) \<leftarrow> rpma_info_resolve_addr E info i timeout_ms s;
            if ret \<noteq> 0 then do {
              (_, s) \<leftarrow> req_new_err_destroy_id E i info s;
              Some ((ret, req_ptr), s)
            } else do {
              (r, s) \<leftarrow> ext E (Rdma_resolve_route i timeout_ms) s;
              if rint r \<noteq> 0 then do {
                (_, s) \<leftarrow> req_new_err_destroy_id E i info s;
                Some ((RPMA_E_PROVIDER, req_ptr), s)
              } else do {
                ((ret, req), s) \<leftarrow> rpma_conn_req_from_id E peer i cfg NULL s;
                if ret \<noteq> 0 then do {
                  (_, s) \<leftarrow> req_new_err_destroy_id E i info s;
                  Some ((ret, req_ptr), s)
                } else do {
                  (_, s) \<leftarrow> rpma_info_delete E (Some info) s;
                  Some ((0, Some req), s)
                }
              }
            }
          }
        }
      })"

definition rpma_conn_req_connect ::
  "env \<Rightarrow> ptr option \<Rightarrow> rpma_conn_private_data option \<Rightarrow> ptr option \<Rightarrow> st
    \<Rightarrow> ((rc \<times> ptr option \<times> ptr option) \<times> st) option" where
  "rpma_conn_req_connect E req_ptr pdata conn_ptr s =
     (case req_ptr of
        None \<Rightarrow> Some ((RPMA_E_INVAL, req_ptr, conn_ptr), s)
      | Some req \<Rightarrow>
          if req = NULL then Some ((RPMA_E_INVAL, req_ptr, conn_ptr), s)
          else if conn_ptr = None \<or>
            pdata \<noteq> None \<and> (pdata_ptr (the pdata) = NULL \<or> pdata_len (the pdata) = 0)
          then do {
            ((_, req_ptr), s) \<leftarrow> rpma_conn_req_delete E req_ptr s;
            Some ((RPMA_E_INVAL, req_ptr, conn_ptr), s)
          } else do {
            let conn_param =
              \<lparr>cp_private_data = (case pdata of None \<Rightarrow> NULL | Some d \<Rightarrow> pdata_ptr d),
               cp_private_data_len = (case pdata of None \<Rightarrow> 0 | Some d \<Rightarrow> pdata_len d),
               cp_responder_resources = max_resp_res E, cp_initiator_depth = max_init_depth E,
               cp_flow_control = 1, cp_retry_count = 7, cp_rnr_retry_count = 7\<rparr>;
            c \<leftarrow> load_conn_req req s;
            ((ret, conn), s) \<leftarrow>
              (if req_is_passive c then rpma_conn_req_accept E req conn_param (the conn_ptr) s
               else rpma_conn_req_connect_active E req conn_param (the conn_ptr) s);
            (_, s) \<leftarrow> free req s;
            Some ((ret, Some NULL, Some conn), s)
          })"

definition rpma_conn_req_recv ::
  "env \<Rightarrow> ptr \<Rightarrow> ptr \<Rightarrow> u64 \<Rightarrow> u64 \<Rightarrow> u64 \<Rightarrow> st \<Rightarrow> (rc \<times> st) option" where
  "rpma_conn_req_recv E req dst offset len op_context s =
     (if req = NULL \<or> dst = NULL then Some (RPMA_E_INVAL, s)
      else do {
        c \<leftarrow> load_conn_req req s;
        rpma_mr_recv E (id_qp E (trace s) (req_id c)) dst offset len op_context s
      })"

definition rpma_conn_req_get_private_data ::
  "ptr \<Rightarrow> rpma_conn_private_data option \<Rightarrow> st \<Rightarrow> ((rc \<times> rpma_conn_private_data option) \<times> st) option" where
  "rpma_conn_req_get_private_data req pdata s =
     (if req = NULL \<or> pdata = None then Some ((RPMA_E_INVAL, pdata), s)
      else do {
        c \<leftarrow> load_conn_req req s;
        Some ((0, Some \<lparr>pdata_ptr = pdata_ptr (req_data c), pdata_len = pdata_len (req_data c)\<rparr>), s)
      })"

subsection \<open>GID strings\<close>

lemma length_gid_chars: "length bs = 2 * Suc k \<Longrightarrow> length (gid_chars bs) = 5 * k + 4"
proof (induction k arbitrary: bs)
  case 0
  then obtain a b where "bs = [a, b]" by (auto simp: numeral_2_eq_2 length_Suc_conv)
  then show ?case by (simp add: hex2_def)
next
  case (Suc k)
  then obtain a b c rest where "bs = a # b # c # rest" "length (c # rest) = 2 * Suc k"
    by (auto simp: length_Suc_conv)
  with Suc.IH [of "c # rest"] show ?case by (simp add: hex2_def)
qed

text \<open>A GID always fits where it is printed. The text of a 16-byte GID has 39 characters, so the
  buffer of \<open>GID_STR_LEN\<close> bytes holds all of it and the terminator; into a buffer of any other
  size the function writes exactly as many bytes as the buffer has, the last of them zero.\<close>

lemma snprintf_gid_fits:
  assumes "length raw = 16"
  shows "rpma_snprintf_gid raw GID_STR_LEN = (0, gid_chars raw @ [CHR 0x00]) \<and> length (gid_chars raw) = 39 \<and>
    fst (rpma_snprintf_gid raw n) = 0 \<and> length (snd (rpma_snprintf_gid raw n)) = n \<and>
    (n \<noteq> 0 \<longrightarrow> last (snd (rpma_snprintf_gid raw n)) = CHR 0x00)"
proof -
  have l: "length (gid_chars raw) = 39" using length_gid_chars [of raw 7] assms by simp
  have "n - length (take (n - 1) (gid_chars raw)) \<noteq> 0" if "n \<noteq> 0" using that by auto
  with l assms show ?thesis
    by (auto simp: rpma_snprintf_gid_def GID_STR_LEN_def Let_def)
qed

end
