(* ===== verification/Conn_Req_Life.thy ===== *)
theory Conn_Req_Life
  imports Conn_Req
begin

text \<open>
  The life of a connection request: what it owns, what each of the ways to get rid of it gives
  back, and what becomes of it when it is connected.
\<close>

subsection \<open>Taking a request apart\<close>

text \<open>Since the state \<open>s0\<close> the parts \<open>B\<close>, \<open>R\<close> of the request \<open>k\<close> have gone; its record is
  now \<open>c\<close>.\<close>

definition req_gone :: "ptr \<Rightarrow> rpma_conn_req \<Rightarrow> ptr set \<Rightarrow> res multiset \<Rightarrow> st \<Rightarrow> st \<Rightarrow> bool" where
  "req_gone k c B R s0 s \<longleftrightarrow> ledger_ok s \<and> obj_at k (O_conn_req c) s \<and> dropped k B R s0 s"

lemma req_gone_start: "ledger_ok s \<Longrightarrow> obj_at k (O_conn_req c) s \<Longrightarrow> req_gone k c {} {#} s s"
  by (simp add: req_gone_def dropped_def)

lemma req_gone_load [simp]: "req_gone k c B R s0 s \<Longrightarrow> load_conn_req k s = Some c"
  by (simp add: req_gone_def)

lemma req_gone_set_errno [simp]: "req_gone k c B R s0 (set_errno e s) = req_gone k c B R s0 s"
  by (simp add: req_gone_def dropped_def)

lemma req_gone_push:
  assumes "req_gone k c B R s0 s" and "acquires cl r = {#}" and "R + releases cl \<subseteq># acct s0"
  shows "req_gone k c B (R + releases cl) s0 (push cl r s)"
  using assms mset_sub_diffI [OF assms(3)]
  by (auto simp: req_gone_def dropped_def diff_diff_add_mset)

lemma wp_ext_req:
  assumes "req_gone k c B R s0 s" and "\<And>r. acquires cl r = {#}" and "R + releases cl \<subseteq># acct s0"
    and "\<And>r. req_gone k c B (R + releases cl) s0 (push cl r s) \<Longrightarrow> Q r (push cl r s)"
  shows "wp (ext E cl s) Q"
  by (rule wp_ext) (rule assms(4), rule req_gone_push [OF assms(1-3)])

lemma req_gone_owns_cq:
  "req_gone k c B R s0 s \<Longrightarrow> owns_cq_opt p B' R' s0 \<Longrightarrow> B \<inter> B' = {} \<Longrightarrow> k \<notin> B' \<Longrightarrow> owns_cq_opt p B' R' s"
  by (auto simp: req_gone_def intro: dropped_owns_cq_opt)

lemma req_gone_pdata:
  "req_gone k c B R s0 s \<Longrightarrow> pdata_ok d s0 \<Longrightarrow> B \<inter> pdata_blocks d = {} \<Longrightarrow> k \<notin> pdata_blocks d \<Longrightarrow> pdata_ok d s"
  by (auto simp: req_gone_def intro: dropped_pdata_ok)

lemma req_gone_acct: "req_gone k c B R s0 s \<Longrightarrow> R + R' \<subseteq># acct s0 \<Longrightarrow> R' \<subseteq># acct s"
  by (auto simp: req_gone_def intro: dropped_acct)

lemma req_gone_destroyed:
  assumes "req_gone k c B R s0 s" and "destroyed B' R' s s'" and "k \<notin> B'" and "ledger_ok s'"
  shows "req_gone k c' (B \<union> B') (R + R') s0 (s'\<lparr>mem := (mem s')(k \<mapsto> O_conn_req c')\<rparr>)"
  using assms
  by (auto simp: req_gone_def dropped_def destroyed_def obj_at_def diff_diff_add_mset)

lemma wp_req_delete_rcq:
  assumes g: "req_gone k c B R s0 s" and o: "owns_cq_opt (req_rcq c) B' R' s0"
    and d: "B \<inter> B' = {}" "k \<notin> B'" "R + R' \<subseteq># acct s0"
    and Q: "\<And>ret s'. req_gone k (c\<lparr>req_rcq := NULL\<rparr>) (B \<union> B') (R + R') s0 s' \<Longrightarrow>
       ret \<in> {0, RPMA_E_PROVIDER} \<Longrightarrow> Q ret s'"
  shows "wp (req_delete_rcq E k s) Q"
proof -
  have "k \<noteq> NULL" "k \<noteq> CONN_CFG_DEFAULT_ADDR" "mem s k = Some (O_conn_req c)" "ledger_ok s"
    using g by (auto simp: req_gone_def obj_at_def)
  then show ?thesis
    using g d(2) unfolding req_delete_rcq_def
    by (auto simp: destroyed_def obj_at_def intro!: wp_rpma_cq_delete_opt [OF req_gone_owns_cq [OF g o d(1,2)]]
        req_gone_acct [OF g d(3)] wp_store [where x = "O_conn_req c"] Q req_gone_destroyed [OF g])
qed

lemma wp_req_delete_cq:
  assumes g: "req_gone k c B R s0 s" and o: "owns_cq_opt (req_cq c) B' R' s0"
    and d: "B \<inter> B' = {}" "k \<notin> B'" "R + R' \<subseteq># acct s0"
    and Q: "\<And>ret s'. req_gone k (c\<lparr>req_cq := NULL\<rparr>) (B \<union> B') (R + R') s0 s' \<Longrightarrow>
       ret \<in> {0, RPMA_E_PROVIDER} \<Longrightarrow> Q ret s'"
  shows "wp (req_delete_cq E k s) Q"
proof -
  have "k \<noteq> NULL" "k \<noteq> CONN_CFG_DEFAULT_ADDR" "mem s k = Some (O_conn_req c)" "ledger_ok s"
    using g by (auto simp: req_gone_def obj_at_def)
  then show ?thesis
    using g d(2) unfolding req_delete_cq_def
    by (auto simp: destroyed_def obj_at_def intro!: wp_rpma_cq_delete_opt [OF req_gone_owns_cq [OF g o d(1,2)]]
        req_gone_acct [OF g d(3)] wp_store [where x = "O_conn_req c"] Q req_gone_destroyed [OF g])
qed

lemma wp_req_discard_data:
  assumes g: "req_gone k c B R s0 s" and o: "pdata_ok (req_data c) s0"
    and d: "B \<inter> pdata_blocks (req_data c) = {}" "k \<notin> pdata_blocks (req_data c)"
    and Q: "\<And>s'. req_gone k (c\<lparr>req_data := no_pdata\<rparr>) (B \<union> pdata_blocks (req_data c)) R s0 s' \<Longrightarrow> Q () s'"
  shows "wp (req_discard_data k s) Q"
proof -
  have k: "k \<noteq> NULL" "k \<noteq> CONN_CFG_DEFAULT_ADDR" "mem s k = Some (O_conn_req c)" "ledger_ok s"
    using g by (auto simp: req_gone_def obj_at_def)
  have "req_gone k (c\<lparr>req_data := no_pdata\<rparr>) (B \<union> pdata_blocks (req_data c)) (R + {#}) s0
      (s'\<lparr>mem := (mem s')(k \<mapsto> O_conn_req (c\<lparr>req_data := no_pdata\<rparr>))\<rparr>)"
    if "ledger_ok s'" "acct s' = acct s" "mem s' = (\<lambda>q. if q \<in> pdata_blocks (req_data c) then None else mem s q)" for s'
    by (rule req_gone_destroyed [OF g]) (use that d in \<open>auto simp: destroyed_def\<close>)
  with k show ?thesis
    using g d(2) unfolding req_discard_data_def
    by (auto simp: obj_at_def intro!: wp_rpma_private_data_discard [OF req_gone_pdata [OF g o d]]
        wp_store [where x = "O_conn_req c"] Q)
qed

lemma wp_free_req:
  assumes g: "req_gone k c B R s0 s" and "ledger_ok s0"
    and Q: "\<And>s'. ledger_ok s' \<Longrightarrow> destroyed (insert k B) R s0 s' \<Longrightarrow> Q () s'"
  shows "wp (free k s) Q"
  using g by (auto simp: req_gone_def dropped_def destroyed_def fun_eq_iff intro!: wp_free Q)

subsection \<open>What a request owns\<close>

definition req_cqs ::
  "rpma_conn_req \<Rightarrow> ptr set \<Rightarrow> res multiset \<Rightarrow> ptr set \<Rightarrow> res multiset \<Rightarrow> st \<Rightarrow> bool" where
  "req_cqs c CB CR RB RR s \<longleftrightarrow>
     owns_cq_opt (req_cq c) CB CR s \<and> owns_cq_opt (req_rcq c) RB RR s \<and> RB \<inter> CB = {}"

text \<open>The CM ID is not in \<open>R\<close>: a passive request does not destroy it.\<close>

definition owns_req :: "ptr \<Rightarrow> rpma_conn_req \<Rightarrow> ptr set \<Rightarrow> res multiset \<Rightarrow> st \<Rightarrow> bool" where
  "owns_req k c B R s \<longleftrightarrow> (\<exists>CB CR RB RR.
     obj_at k (O_conn_req c) s \<and> req_cqs c CB CR RB RR s \<and> pdata_ok (req_data c) s \<and>
     B = insert k (RB \<union> CB \<union> pdata_blocks (req_data c)) \<and>
     R = {#R_qp (req_id c)#} + RR + CR + chan_res (req_channel c))"

definition req_id_res :: "rpma_conn_req \<Rightarrow> res multiset" where
  "req_id_res c = (if req_is_passive c then {#} else {#R_id (req_id c)#})"

lemma owns_req_disjoint:
  assumes "obj_at k (O_conn_req c) s" and "req_cqs c CB CR RB RR s" and "pdata_ok (req_data c) s"
  shows "RB \<inter> CB = {}" "k \<notin> RB" "k \<notin> CB" "k \<notin> pdata_blocks (req_data c)"
    "(RB \<union> CB) \<inter> pdata_blocks (req_data c) = {}"
  using assms owns_cq_opt_disjoint(1) [OF _ assms(3)] owns_cq_opt_disjoint(4) [OF _ assms(1)]
    pdata_disjoint(2) [OF assms(3,1)]
  unfolding req_cqs_def by blast+

lemma req_id_res_upd [simp]:
  "req_id_res (c\<lparr>req_cq := x\<rparr>) = req_id_res c" "req_id_res (c\<lparr>req_rcq := x\<rparr>) = req_id_res c"
  "req_id_res (c\<lparr>req_data := d\<rparr>) = req_id_res c"
  by (simp_all add: req_id_res_def)

lemma wp_req_reject_or_destroy:
  assumes g: "req_gone k c B R s0 s" and sub: "R + req_id_res c \<subseteq># acct s0" and b: "b = req_is_passive c"
    and Q: "\<And>ret s'. req_gone k c B (R + req_id_res c) s0 s' \<Longrightarrow> ret \<in> {0, RPMA_E_PROVIDER} \<Longrightarrow> Q ret s'"
  shows "wp (if b then rpma_conn_req_reject E k s else rpma_conn_req_destroy E k s) Q"
proof (cases b)
  case True
  with g sub b show ?thesis
    using req_gone_push [OF g, of "Rdma_reject (req_id c)"] Q
    by (auto simp: rpma_conn_req_reject_def req_id_res_def intro!: wp_ext)
next
  case False
  with g sub b show ?thesis
    using req_gone_push [OF g, of "Rdma_destroy_id (req_id c)"] Q
    by (auto simp: rpma_conn_req_destroy_def req_id_res_def intro!: wp_ext)
qed

lemma wp_req_channel:
  assumes g: "req_gone k c B R s0 s" and sub: "R + chan_res ch \<subseteq># acct s0"
    and ret: "ret \<in> {0, RPMA_E_PROVIDER}"
    and Q: "\<And>ret s'. req_gone k c B (R + chan_res ch) s0 s' \<Longrightarrow> ret \<in> {0, RPMA_E_PROVIDER} \<Longrightarrow> Q ret s'"
  shows "wp (if ch \<noteq> NULL then do {
       (r, s) \<leftarrow> ext E (Ibv_destroy_comp_channel ch) s;
       let s = set_errno (rint r) s;
       Some (if errno s \<noteq> 0 \<and> ret = 0 then RPMA_E_PROVIDER else ret, s)
     } else Some (ret, s)) Q"
  using req_gone_push [OF g, of "Ibv_destroy_comp_channel ch"] Q g sub ret
  by (auto simp: chan_res_def intro!: wp_ext)

lemma wp_req_channel_void:
  assumes g: "req_gone k c B R s0 s" and sub: "R + chan_res ch \<subseteq># acct s0"
    and Q: "\<And>s'. req_gone k c B (R + chan_res ch) s0 s' \<Longrightarrow> Q () s'"
  shows "wp (if ch \<noteq> NULL then do { (_, s) \<leftarrow> ext E (Ibv_destroy_comp_channel ch) s; Some ((), s) }
     else Some ((), s)) Q"
  using req_gone_push [OF g, of "Ibv_destroy_comp_channel ch"] Q g sub
  by (auto simp: chan_res_def intro!: wp_ext)

text \<open>What the ways to dismantle a request have in common: queue pair and completion queues.\<close>

lemma wp_req_queues:
  assumes own: "obj_at k (O_conn_req c) s" "req_cqs c CB CR RB RR s" "pdata_ok (req_data c) s"
    and g: "req_gone k c {} {#} s s'" and sub: "{#R_qp (req_id c)#} + RR + CR \<subseteq># acct s"
    and P: "\<And>ret ret2 t. req_gone k (c\<lparr>req_rcq := NULL, req_cq := NULL\<rparr>) (RB \<union> CB)
         ({#R_qp (req_id c)#} + RR + CR) s t \<Longrightarrow>
       ret \<in> {0, RPMA_E_PROVIDER} \<Longrightarrow> ret2 \<in> {0, RPMA_E_PROVIDER} \<Longrightarrow> P ret ret2 t"
  shows "wp (ext E (Rdma_destroy_qp (req_id c)) s') (\<lambda>_ t. wp (req_delete_rcq E k t)
      (\<lambda>ret t. wp (req_delete_cq E k t) (\<lambda>ret2 t. P ret ret2 t)))"
proof -
  have cqs: "owns_cq_opt (req_cq c) CB CR s" "owns_cq_opt (req_rcq c) RB RR s"
    using own(2) by (auto simp: req_cqs_def)
  note dis = owns_req_disjoint [OF own]
  note p2 = mset_sub_leftD [OF sub]
  note p1 = mset_sub_leftD [OF p2]
  have start: "req_gone k c {} {#R_qp (req_id c)#} s (push (Rdma_destroy_qp (req_id c)) r s')" for r
    using req_gone_push [OF g, of "Rdma_destroy_qp (req_id c)" r] p1 by simp
  have "wp (req_delete_rcq E k t) (\<lambda>ret t. wp (req_delete_cq E k t) (\<lambda>ret2 t. P ret ret2 t))"
    if "req_gone k c {} {#R_qp (req_id c)#} s t" for t
  proof (rule wp_req_delete_rcq [OF that cqs(2)], goal_cases)
    case (4 ret t)
    show ?case
      by (rule wp_req_delete_cq [OF 4(1), of CB CR]) (use 4(2) cqs(1) dis sub P in auto)
  qed (use dis p2 in auto)
  with start show ?thesis by (intro wp_ext) blast
qed

lemma wp_rpma_conn_req_delete:
  assumes own: "owns_req k c B R s" and ok: "ledger_ok s" and sub: "R + req_id_res c \<subseteq># acct s"
    and Q: "\<And>ret s'. ledger_ok s' \<Longrightarrow> destroyed B (R + req_id_res c) s s' \<Longrightarrow>
       ret \<in> {0, RPMA_E_PROVIDER} \<Longrightarrow> Q (ret, Some NULL) s'"
  shows "wp (rpma_conn_req_delete E (Some k) s) Q"
proof -
  from own obtain CB CR RB RR where
    o: "obj_at k (O_conn_req c) s" "req_cqs c CB CR RB RR s" "pdata_ok (req_data c) s"
    and B: "B = insert k (RB \<union> CB \<union> pdata_blocks (req_data c))"
    and R: "R = {#R_qp (req_id c)#} + RR + CR + chan_res (req_channel c)"
    by (auto simp: owns_req_def)
  let ?q = "{#R_qp (req_id c)#} + RR + CR" and ?c = "c\<lparr>req_rcq := NULL, req_cq := NULL\<rparr>"
  note dis = owns_req_disjoint [OF o]
  have tot: "?q + req_id_res c + chan_res (req_channel c) \<subseteq># acct s"
    using sub by (simp add: R ac_simps)
  note p = mset_sub_leftD [OF tot]
  have fin: "wp (req_discard_data k s') (\<lambda>r t. wp (free k t) (\<lambda>r t. Q (ret, Some NULL) t))"
    if "req_gone k ?c (RB \<union> CB) (?q + req_id_res c + chan_res (req_channel c)) s s'"
      and "ret \<in> {0, RPMA_E_PROVIDER}" for ret s'
    by (rule wp_req_discard_data [OF that(1)], use o(3) dis in simp_all, rule wp_free_req, assumption, rule ok,
        rule Q) (use that(2) in \<open>simp_all add: B R ac_simps\<close>)
  have tail: "wp (do {
       (ret2, s) \<leftarrow> (if req_is_passive c then rpma_conn_req_reject E k s' else rpma_conn_req_destroy E k s');
       let ret = (if ret = 0 \<and> ret2 \<noteq> 0 then ret2 else ret);
       (ret, s) \<leftarrow>
         (if req_channel c \<noteq> NULL then do {
            (r, s) \<leftarrow> ext E (Ibv_destroy_comp_channel (req_channel c)) s;
            let s = set_errno (rint r) s;
            Some (if errno s \<noteq> 0 \<and> ret = 0 then RPMA_E_PROVIDER else ret, s)
          } else Some (ret, s));
       (_, s) \<leftarrow> req_discard_data k s;
       (_, s) \<leftarrow> free k s;
       Some ((ret, Some NULL), s)
     }) Q"
    if g: "req_gone k ?c (RB \<union> CB) ?q s s'" and ret: "ret \<in> {0, RPMA_E_PROVIDER}" for ret s'
    unfolding wp_bind wp_let
  proof (rule wp_req_reject_or_destroy [OF g], goal_cases)
    case (3 ret2 s1)
    then have g1: "req_gone k ?c (RB \<union> CB) (?q + req_id_res c) s s1" by simp
    show ?case
      by (rule wp_req_channel [OF g1 tot]) (use ret 3(2) fin in auto)
  qed (use p in auto)
  have "k \<noteq> NULL" by (rule obj_at_nonnull [OF o(1)])
  then have nn: "(k = NULL) = False" by simp
  show ?thesis
    unfolding rpma_conn_req_delete_def option.case nn if_False load_Some(8) [OF o(1)] bind.bind_lunit
      wp_bind wp_let
    by (rule wp_req_queues [OF o req_gone_start [OF ok o(1)] mset_sub_leftD [OF p]],
        rule tail [unfolded wp_bind wp_let]) auto
qed

subsection \<open>The error paths of connecting\<close>

lemma wp_req_accept_err_conn_req_delete:
  assumes own: "owns_req k c B R s" and sub: "R \<subseteq># acct s" and g: "req_gone k c {} {#} s s'"
    and Q: "\<And>c' t. req_gone k c' (B - {k}) R s t \<Longrightarrow> Q () t"
  shows "wp (req_accept_err_conn_req_delete E k s') Q"
proof -
  from own obtain CB CR RB RR where
    o: "obj_at k (O_conn_req c) s" "req_cqs c CB CR RB RR s" "pdata_ok (req_data c) s"
    and B: "B = insert k (RB \<union> CB \<union> pdata_blocks (req_data c))"
    and R: "R = {#R_qp (req_id c)#} + RR + CR + chan_res (req_channel c)"
    by (auto simp: owns_req_def)
  note dis = owns_req_disjoint [OF o]
  let ?q = "{#R_qp (req_id c)#} + RR + CR" and ?c = "c\<lparr>req_rcq := NULL, req_cq := NULL\<rparr>"
  have B': "B - {k} = RB \<union> CB \<union> pdata_blocks (req_data c)" using dis by (auto simp: B)
  have fin: "wp (req_discard_data k t) (\<lambda>_ t. wp (if req_channel c \<noteq> NULL then do {
       (_, s) \<leftarrow> ext E (Ibv_destroy_comp_channel (req_channel c)) t; Some ((), s) } else Some ((), t)) Q)"
    if "req_gone k ?c (RB \<union> CB) ?q s t" for t
  proof (rule wp_req_discard_data [OF that], goal_cases)
    case (4 t')
    then have g': "req_gone k (?c\<lparr>req_data := no_pdata\<rparr>) (B - {k}) ?q s t'" by (simp add: B')
    show ?case
      by (rule wp_req_channel_void [OF g'], use sub in \<open>simp add: R\<close>, rule Q) (simp add: R)
  qed (use o(3) dis in simp_all)
  show ?thesis
    unfolding req_accept_err_conn_req_delete_def req_gone_load [OF g] bind.bind_lunit wp_bind
    by (rule wp_req_queues [OF o g mset_sub_leftD]) (use sub R fin in auto)
qed

lemma wp_req_connect_active_err_conn_new:
  assumes own: "owns_req k c B R s" and sub: "R + {#R_id (req_id c)#} \<subseteq># acct s"
    and data: "req_data c = no_pdata" and g: "req_gone k c {} {#} s s'"
    and Q: "\<And>c' t. req_gone k c' (B - {k}) (R + {#R_id (req_id c)#}) s t \<Longrightarrow> Q () t"
  shows "wp (req_connect_active_err_conn_new E k s') Q"
proof -
  from own obtain CB CR RB RR where
    o: "obj_at k (O_conn_req c) s" "req_cqs c CB CR RB RR s" "pdata_ok (req_data c) s"
    and B: "B = insert k (RB \<union> CB \<union> pdata_blocks (req_data c))"
    and R: "R = {#R_qp (req_id c)#} + RR + CR + chan_res (req_channel c)"
    by (auto simp: owns_req_def)
  let ?q = "{#R_qp (req_id c)#} + RR + CR" and ?c = "c\<lparr>req_rcq := NULL, req_cq := NULL\<rparr>"
  let ?id = "Rdma_destroy_id (req_id c)" and ?ch = "Ibv_destroy_comp_channel (req_channel c)"
  have B': "B - {k} = RB \<union> CB" using owns_req_disjoint [OF o] by (auto simp: B data)
  have tot: "?q + {#R_id (req_id c)#} + chan_res (req_channel c) \<subseteq># acct s"
    using sub by (simp add: R ac_simps)
  have fin: "wp (ext E ?id t) (\<lambda>_ t. wp (if req_channel c \<noteq> NULL then do {
       (_, s) \<leftarrow> ext E ?ch t; Some ((), s) } else Some ((), t)) Q)"
    if g1: "req_gone k ?c (RB \<union> CB) ?q s t" for t
  proof (rule wp_ext)
    fix r
    have g2: "req_gone k ?c (B - {k}) (?q + {#R_id (req_id c)#}) s (push ?id r t)"
      using req_gone_push [OF g1, of ?id r] mset_sub_leftD [OF tot] by (simp add: B')
    show "wp (if req_channel c \<noteq> NULL then do {
       (_, s) \<leftarrow> ext E ?ch (push ?id r t); Some ((), s) } else Some ((), push ?id r t)) Q"
      by (rule wp_req_channel_void [OF g2 tot], rule Q) (simp add: R ac_simps)
  qed
  show ?thesis
    unfolding req_connect_active_err_conn_new_def req_gone_load [OF g] bind.bind_lunit wp_bind
    by (rule wp_req_queues [OF o g mset_sub_leftD [OF mset_sub_leftD [OF tot]]]) (use fin in auto)
qed

subsection \<open>Handing the request over to a connection\<close>

text \<open>The connection \<open>k2\<close> now owns what the request \<open>k\<close> owned, and additionally the new blocks
  \<open>N\<close> and resources \<open>NR\<close>; the empty request object is still there.\<close>

definition handed_over ::
  "ptr \<Rightarrow> rpma_conn_req \<Rightarrow> ptr set \<Rightarrow> res multiset \<Rightarrow> ptr set \<Rightarrow> res multiset \<Rightarrow> ptr \<Rightarrow> st \<Rightarrow> st \<Rightarrow> bool" where
  "handed_over k c B R N NR k2 s s' \<longleftrightarrow>
     owns_conn k2 (B - {k} \<union> N) (R + {#R_id (req_id c)#} + NR) s' \<and> acct s' = acct s + NR \<and>
     (\<forall>q\<in>N. mem s q = None) \<and> k \<notin> N \<and> (\<forall>q. q \<notin> N \<and> q \<noteq> k \<longrightarrow> mem s' q = mem s q) \<and>
     (\<exists>cc. obj_at k2 (O_conn cc) s' \<and> conn_data cc = req_data c)"

lemma owns_connI:
  assumes "obj_at k (O_conn c) s" and "owns_flush (conn_flush c) F FR s" and "pdata_ok (conn_data c) s"
    and "conn_cqs c CB CR RB RR s"
  shows "owns_conn k (F \<union> (RB \<union> (CB \<union> conn_tail_blocks k c))) (FR + conn_qp_res c CR RR) s"
  using assms unfolding owns_conn_def by blast

lemma conn_made_handed_over:
  assumes own: "owns_req k c B R s" and made: "conn_made (req_id c) (req_cq c) (req_rcq c) (req_channel c) s0 k2 s1"
    and s0: "mem s0 = mem s" "acct s0 = acct s"
    and s2: "\<And>cc. mem s1 k2 = Some (O_conn cc) \<Longrightarrow> mem s2 k2 = Some (O_conn (cc\<lparr>conn_data := req_data c\<rparr>))"
      "\<And>q. q \<noteq> k \<Longrightarrow> q \<noteq> k2 \<Longrightarrow> mem s2 q = mem s1 q" "acct s2 = acct s1"
  shows "\<exists>N NR. handed_over k c B R N NR k2 s s2"
proof -
  from own obtain CB CR RB RR where
    o: "obj_at k (O_conn_req c) s" "req_cqs c CB CR RB RR s" "pdata_ok (req_data c) s"
    and B: "B = insert k (RB \<union> CB \<union> pdata_blocks (req_data c))"
    and R: "R = {#R_qp (req_id c)#} + RR + CR + chan_res (req_channel c)"
    by (auto simp: owns_req_def)
  note dis = owns_req_disjoint [OF o]
  from made obtain evch flush F FR where
    m: "obj_at k2 (O_conn \<lparr>conn_id = req_id c, conn_evch = evch, conn_cq = req_cq c, conn_rcq = req_rcq c,
        conn_channel = req_channel c, conn_data = no_pdata, conn_flush = flush,
        conn_direct_write_to_pmem = False\<rparr>) s1"
      "owns_flush flush F FR s1" "created (insert k2 F) (FR + {#R_evch evch#}) s0 s1"
    by (auto simp: conn_made_def)
  let ?cc = "\<lparr>conn_id = req_id c, conn_evch = evch, conn_cq = req_cq c, conn_rcq = req_rcq c,
     conn_channel = req_channel c, conn_data = req_data c, conn_flush = flush,
     conn_direct_write_to_pmem = False\<rparr>"
  have k2: "k2 \<noteq> NULL" "k2 \<noteq> CONN_CFG_DEFAULT_ADDR" "mem s2 k2 = Some (O_conn ?cc)"
    using m(1) s2(1) by (auto simp: obj_at_def)
  have new: "\<forall>q\<in>insert k2 F. mem s q = None" and old: "\<forall>q. q \<notin> insert k2 F \<longrightarrow> mem s1 q = mem s q"
    and acct: "acct s2 = acct s + (FR + {#R_evch evch#})"
    using m(3) s0 s2(3) by (auto simp: created_def)
  have kF: "k \<notin> insert k2 F" using new o(1) by (auto simp: obj_at_def)
  have keep: "mem s2 q = mem s q" if "q \<noteq> k" "q \<notin> insert k2 F" for q
    using s2(2) old that by auto
  have k2F: "k2 \<notin> F" using owns_flush_disjoint(2) [OF m(2,1)] .
  have alive: "q \<noteq> k \<and> q \<notin> insert k2 F" if "q \<in> RB \<union> CB \<union> pdata_blocks (req_data c)" for q
  proof -
    have "mem s q \<noteq> None"
      using that o(2,3) by (auto simp: req_cqs_def owns_cq_opt_def owns_cq_def obj_at_def pdata_ok_def
          pdata_blocks_def split: if_splits)
    then show ?thesis using that new dis by auto
  qed
  have at: "obj_at k2 (O_conn ?cc) s2" using k2 by (simp add: obj_at_def)
  moreover have "owns_flush (conn_flush ?cc) F FR s2"
    using m(2) unfolding rpma_conn.select_convs
  proof (rule owns_flush_cong)
    fix q
    assume "q \<in> F"
    with kF k2F have "q \<noteq> k" "q \<noteq> k2" by auto
    then show "mem s2 q = mem s1 q" by (rule s2(2))
  qed
  moreover have "pdata_ok (conn_data ?cc) s2"
    using o(3) unfolding rpma_conn.select_convs by (rule pdata_ok_cong) (use keep alive in auto)
  moreover have "conn_cqs ?cc CB CR RB RR s2"
    using o(2) keep alive by (auto simp: conn_cqs_def req_cqs_def intro: owns_cq_opt_cong)
  ultimately have "owns_conn k2 (F \<union> (RB \<union> (CB \<union> conn_tail_blocks k2 ?cc)))
      (FR + conn_qp_res ?cc CR RR) s2"
    by (rule owns_connI)
  moreover have "F \<union> (RB \<union> (CB \<union> conn_tail_blocks k2 ?cc)) = B - {k} \<union> insert k2 F"
    using dis(2,3,4) kF by (auto simp: B conn_tail_blocks_def)
  moreover have "FR + conn_qp_res ?cc CR RR = R + {#R_id (req_id c)#} + (FR + {#R_evch evch#})"
    by (simp add: R conn_tail_res_def)
  ultimately have "owns_conn k2 (B - {k} \<union> insert k2 F) (R + {#R_id (req_id c)#} + (FR + {#R_evch evch#})) s2"
    by (simp only:)
  moreover have "\<exists>cc. obj_at k2 (O_conn cc) s2 \<and> conn_data cc = req_data c" using at by (intro exI [of _ ?cc]) simp
  ultimately show ?thesis
    using acct new kF keep unfolding handed_over_def by blast
qed

lemma req_gone_unchanged:
  "req_gone k c {} {#} s s1 \<Longrightarrow> unchanged s1 s2 \<Longrightarrow> ledger_ok s2 \<Longrightarrow> req_gone k c {} {#} s s2"
  by (auto simp: req_gone_def dropped_def unchanged_def obj_at_def)

lemma req_gone_call:
  "req_gone k c {} {#} s s1 \<Longrightarrow> acquires cl r = {#} \<Longrightarrow> releases cl = {#} \<Longrightarrow> req_gone k c {} {#} s (push cl r s1)"
  using req_gone_push [of k c "{}" "{#}" s s1 cl r] by simp

lemma wp_req_accept_err_conn_disconnect:
  assumes own: "owns_req k c B R s" and sub: "R \<subseteq># acct s" and g: "req_gone k c {} {#} s s'"
    and Q: "\<And>c' t. req_gone k c' (B - {k}) R s t \<Longrightarrow> Q () t"
  shows "wp (req_accept_err_conn_disconnect E k s') Q"
  unfolding req_accept_err_conn_disconnect_def req_gone_load [OF g] bind.bind_lunit wp_bind
  by (intro wp_ext wp_req_accept_err_conn_req_delete [OF own sub] req_gone_call [OF g] Q) auto

lemma conn_made_at: "conn_made i cq rcq ch s k s' \<Longrightarrow> \<exists>cc. obj_at k (O_conn cc) s' \<and> mem s k = None"
  by (auto simp: conn_made_def created_def)

lemma pdata_surj [simp]: "\<lparr>pdata_ptr = pdata_ptr d, pdata_len = pdata_len d\<rparr> = d"
  by (cases d) simp

lemma wp_rpma_conn_req_accept:
  assumes own: "owns_req k c B R s" and ok: "ledger_ok s" and sub: "R \<subseteq># acct s"
    and peer: "obj_at (req_peer c) (O_peer p) s"
    and Q0: "\<And>k2 N NR c' s'. ledger_ok s' \<Longrightarrow> handed_over k c B R N NR k2 s s' \<Longrightarrow>
       obj_at k (O_conn_req c') s' \<Longrightarrow> Q (0, k2) s'"
    and Q1: "\<And>ret c' s'. req_gone k c' (B - {k}) R s s' \<Longrightarrow> ret \<noteq> 0 \<Longrightarrow> Q (ret, x) s'"
  shows "wp (rpma_conn_req_accept E k prm x s) Q"
proof -
  have k: "obj_at k (O_conn_req c) s" using own by (auto simp: owns_req_def)
  let ?s = "\<lambda>r. push (Rdma_accept (req_id c) prm) r s"
  have g: "req_gone k c {} {#} s (?s r)" for r
    by (rule req_gone_call [OF req_gone_start [OF ok k]]) simp_all
  have transfer: "wp (rpma_conn_transfer_private_data k2 (req_data c) s1) (\<lambda>d t.
      wp (store k (O_conn_req (c\<lparr>req_data := d\<rparr>)) t) (\<lambda>_ t. Q (0, k2) t))"
    if m: "ledger_ok s1" "conn_made (req_id c) (req_cq c) (req_rcq c) (req_channel c) (?s r) k2 s1" for r k2 s1
  proof -
    from conn_made_at [OF m(2)] obtain cc where cc: "obj_at k2 (O_conn cc) s1" "mem s k2 = None" by auto
    have "k2 \<noteq> k" using cc(2) k by (auto simp: obj_at_def)
    have k1: "obj_at k (O_conn_req c) s1"
      using m(2) k by (auto simp: conn_made_def created_def obj_at_def split: if_splits) (metis option.distinct(1))
    let ?s2 = "s1\<lparr>mem := (mem s1)(k2 \<mapsto> O_conn (cc\<lparr>conn_data := req_data c\<rparr>), k \<mapsto> O_conn_req (c\<lparr>req_data := no_pdata\<rparr>))\<rparr>"
    have "\<exists>N NR. handed_over k c B R N NR k2 s ?s2"
      by (rule conn_made_handed_over [OF own m(2)]) (use cc \<open>k2 \<noteq> k\<close> in \<open>auto simp: obj_at_def\<close>)
    then have "Q (0, k2) ?s2"
      using Q0 [of ?s2] m(1) k1 by (auto simp: obj_at_def)
    with cc(1) k1 \<open>k2 \<noteq> k\<close> show ?thesis
      by (simp add: rpma_conn_transfer_private_data_def obj_at_def store_def load_conn_def deref_def)
  qed
  have new: "wp (rpma_conn_new E (req_peer c) (req_id c) (req_cq c) (req_rcq c) (req_channel c) (Some NULL) (?s r))
     (\<lambda>(ret, conn) t. (ret \<noteq> 0 \<longrightarrow> wp (req_accept_err_conn_disconnect E k t) (\<lambda>_ t. Q (ret, x) t)) \<and>
        (ret = 0 \<longrightarrow> wp (rpma_conn_transfer_private_data (the conn) (req_data c) t) (\<lambda>d t.
            wp (store k (O_conn_req (c\<lparr>req_data := d\<rparr>)) t) (\<lambda>_ t. Q (0, the conn) t))))" for r
    by (rule wp_rpma_conn_new [where p = p])
       (use peer ok transfer in \<open>auto intro!: wp_req_accept_err_conn_disconnect [OF own sub]
         req_gone_unchanged [OF g] Q1\<close>)
  have err: "wp (req_accept_err_conn_req_delete E k (?s r)) (\<lambda>_ t. Q (RPMA_E_PROVIDER, x) t)" for r
    by (rule wp_req_accept_err_conn_req_delete [OF own sub g]) (simp add: Q1)
  show ?thesis
    unfolding rpma_conn_req_accept_def load_Some(8) [OF k] bind.bind_lunit wp_bind
    using err by (auto intro!: wp_ext wp_mono [OF new])
qed

lemma wp_rpma_conn_req_connect_active:
  assumes own: "owns_req k c B R s" and ok: "ledger_ok s" and sub: "R + {#R_id (req_id c)#} \<subseteq># acct s"
    and peer: "obj_at (req_peer c) (O_peer p) s"
    and data: "req_data c = no_pdata"
    and Q0: "\<And>k2 N NR c' s'. ledger_ok s' \<Longrightarrow> handed_over k c B R N NR k2 s s' \<Longrightarrow>
       obj_at k (O_conn_req c') s' \<Longrightarrow> Q (0, k2) s'"
    and Q1: "\<And>ret c' s'. req_gone k c' (B - {k}) (R + {#R_id (req_id c)#}) s s' \<Longrightarrow> ret \<noteq> 0 \<Longrightarrow> Q (ret, x) s'"
  shows "wp (rpma_conn_req_connect_active E k prm x s) Q"
proof -
  have k: "obj_at k (O_conn_req c) s" using own by (auto simp: owns_req_def)
  let ?s = "\<lambda>r s1. push (Rdma_connect (req_id c) prm) r s1"
  have made: "\<exists>N NR. handed_over k c B R N NR k2 s (?s r s1)" "obj_at k (O_conn_req c) s1"
    if m: "conn_made (req_id c) (req_cq c) (req_rcq c) (req_channel c) s k2 s1" for k2 s1 r
  proof -
    show "\<exists>N NR. handed_over k c B R N NR k2 s (?s r s1)"
      by (rule conn_made_handed_over [OF own m]) (use m data in \<open>auto simp: conn_made_def obj_at_def\<close>)
    show "obj_at k (O_conn_req c) s1"
      using m k by (auto simp: conn_made_def created_def obj_at_def split: if_splits) (metis option.distinct(1))
  qed
  have fail: "wp (rpma_conn_delete E (Some k2) (?s r s1)) (\<lambda>_ t. Q (RPMA_E_PROVIDER, x) t)"
    if m: "ledger_ok s1" "conn_made (req_id c) (req_cq c) (req_rcq c) (req_channel c) s k2 s1" for r k2 s1
  proof -
    from made [OF m(2)] obtain N NR where h: "handed_over k c B R N NR k2 s (?s r s1)" by blast
    have kN: "k \<notin> B - {k} \<union> N" using h by (auto simp: handed_over_def)
    show ?thesis
    proof (rule wp_rpma_conn_delete)
      show "owns_conn k2 (B - {k} \<union> N) (R + {#R_id (req_id c)#} + NR) (?s r s1)" "ledger_ok (?s r s1)"
        "R + {#R_id (req_id c)#} + NR \<subseteq># acct (?s r s1)"
        using h m(1) sub by (auto simp: handed_over_def)
      fix ret t
      assume "ledger_ok t" and d: "destroyed (B - {k} \<union> N) (R + {#R_id (req_id c)#} + NR) (?s r s1) t"
      moreover have "obj_at k (O_conn_req c) t"
        using made(2) [OF m(2)] d kN by (simp add: destroyed_def obj_at_def)
      moreover have "dropped k (B - {k}) (R + {#R_id (req_id c)#}) s t"
        using d h by (auto simp: destroyed_def dropped_def handed_over_def)
      ultimately show "Q (RPMA_E_PROVIDER, x) t"
        by (intro Q1 [of c]) (auto simp: req_gone_def)
    qed
  qed
  have ok': "Q (0, k2) (?s r s1)"
    if "ledger_ok s1 \<and> conn_made (req_id c) (req_cq c) (req_rcq c) (req_channel c) s k2 s1" for k2 r s1
    using made(1) [of k2 s1 r] made(2) [of k2 s1] that Q0 [where s' = "?s r s1" and c' = c] by auto
  show ?thesis
    unfolding rpma_conn_req_connect_active_def load_Some(8) [OF k] bind.bind_lunit wp_bind
    by (rule wp_rpma_conn_new [OF peer ok])
       (auto intro!: wp_ext ok' fail [unfolded RPMA_E_PROVIDER_def]
         wp_req_connect_active_err_conn_new [OF own sub data] req_gone_unchanged [OF req_gone_start [OF ok k]] Q1)
qed

lemma owns_conn_cong:
  assumes "owns_conn k B R s" and "\<And>q. q \<in> B \<Longrightarrow> mem s' q = mem s q"
  shows "owns_conn k B R s'"
proof -
  from assms(1) obtain c CB CR RB RR F FR where
    o: "obj_at k (O_conn c) s" "conn_cqs c CB CR RB RR s" "owns_flush (conn_flush c) F FR s"
      "pdata_ok (conn_data c) s"
    and B: "B = F \<union> (RB \<union> (CB \<union> conn_tail_blocks k c))" and R: "R = FR + conn_qp_res c CR RR"
    by (auto simp: owns_conn_def)
  show ?thesis
    unfolding B R
  proof (rule owns_connI)
    show "obj_at k (O_conn c) s'" using o(1) assms(2) [of k] by (simp add: obj_at_def B)
    show "owns_flush (conn_flush c) F FR s'" using o(3) by (rule owns_flush_cong) (simp add: assms(2) B)
    show "pdata_ok (conn_data c) s'"
      using o(4) by (rule pdata_ok_cong) (simp add: assms(2) B conn_tail_blocks_def)
    show "conn_cqs c CB CR RB RR s'" using o(2) by (rule conn_cqs_cong) (auto simp: assms(2) B)
  qed
qed

text \<open>The result of connecting: the request is gone and the connection owns all it had.\<close>

definition connected ::
  "ptr \<Rightarrow> rpma_conn_req \<Rightarrow> ptr set \<Rightarrow> res multiset \<Rightarrow> ptr \<Rightarrow> st \<Rightarrow> st \<Rightarrow> bool" where
  "connected k c B R k2 s s' \<longleftrightarrow> (\<exists>N NR.
     owns_conn k2 (B - {k} \<union> N) (R + {#R_id (req_id c)#} + NR) s' \<and> acct s' = acct s + NR \<and>
     (\<forall>q\<in>N. mem s q = None) \<and> mem s' k = None \<and> (\<forall>q. q \<notin> N \<and> q \<noteq> k \<longrightarrow> mem s' q = mem s q) \<and>
     (\<exists>cc. obj_at k2 (O_conn cc) s' \<and> conn_data cc = req_data c))"

lemma handed_over_free:
  assumes h: "handed_over k c B R N NR k2 s t" and k: "obj_at k (O_conn_req c') t"
  shows "connected k c B R k2 s (t\<lparr>mem := (mem t)(k := None)\<rparr>)"
proof -
  have "owns_conn k2 (B - {k} \<union> N) (R + {#R_id (req_id c)#} + NR) (t\<lparr>mem := (mem t)(k := None)\<rparr>)"
    by (rule owns_conn_cong [of _ _ _ t]) (use h in \<open>auto simp: handed_over_def\<close>)
  moreover have "\<exists>cc. obj_at k2 (O_conn cc) (t\<lparr>mem := (mem t)(k := None)\<rparr>) \<and> conn_data cc = req_data c"
    using h k by (auto simp: handed_over_def obj_at_def)
  ultimately show ?thesis
    using h unfolding connected_def handed_over_def by (intro exI [of _ N] exI [of _ NR]) auto
qed

lemma wp_rpma_conn_req_connect:
  assumes own: "owns_req k c B R s" and ok: "ledger_ok s" and sub: "R + {#R_id (req_id c)#} \<subseteq># acct s"
    and peer: "obj_at (req_peer c) (O_peer p) s"
    and data: "\<not> req_is_passive c \<Longrightarrow> req_data c = no_pdata"
    and pdata: "pdata \<noteq> None \<longrightarrow> pdata_ptr (the pdata) \<noteq> NULL \<and> pdata_len (the pdata) \<noteq> 0"
    and Q0: "\<And>k2 s'. ledger_ok s' \<Longrightarrow> connected k c B R k2 s s' \<Longrightarrow> Q (0, Some NULL, Some k2) s'"
    and Q1: "\<And>ret s'. ledger_ok s' \<Longrightarrow> destroyed B (R + req_id_res c) s s' \<Longrightarrow> ret \<noteq> 0 \<Longrightarrow>
       Q (ret, Some NULL, Some x) s'"
  shows "wp (rpma_conn_req_connect E (Some k) pdata (Some x) s) Q"
proof -
  have k: "obj_at k (O_conn_req c) s" and kB: "k \<in> B" using own by (auto simp: owns_req_def)
  have free0: "wp (free k t) (\<lambda>_ t. Q (0, Some NULL, Some k2) t)"
    if "ledger_ok t" "handed_over k c B R N NR k2 s t" "obj_at k (O_conn_req c') t" for t N NR k2 c'
    by (rule wp_free [OF that(3)]) (use that handed_over_free [OF that(2,3)] in \<open>auto intro: Q0\<close>)
  have free1: "wp (free k t) (\<lambda>_ t. Q (ret, Some NULL, Some x) t)"
    if "req_gone k c' (B - {k}) (R + req_id_res c) s t" "ret \<noteq> 0" for t c' ret
    by (rule wp_free_req [OF that(1) ok]) (use that(2) kB in \<open>auto simp: insert_absorb intro: Q1\<close>)
  have "k \<noteq> NULL" by (rule obj_at_nonnull [OF k])
  then have nn: "(k = NULL) = False" by simp
  show ?thesis
  proof (cases "req_is_passive c")
    case True
    have acc: "wp (rpma_conn_req_accept E k prm x s) (\<lambda>(ret, conn) t. wp (free k t) (\<lambda>_ t. Q (ret, Some NULL, Some conn) t))" for prm
      by (rule wp_rpma_conn_req_accept [OF own ok mset_sub_leftD [OF sub] peer])
         (use free0 free1 True in \<open>auto simp: req_id_res_def\<close>)
    from True k nn pdata show ?thesis
      by (auto simp: rpma_conn_req_connect_def Let_def intro!: wp_mono [OF acc])
  next
    case False
    have act: "wp (rpma_conn_req_connect_active E k prm x s) (\<lambda>(ret, conn) t. wp (free k t) (\<lambda>_ t. Q (ret, Some NULL, Some conn) t))" for prm
      by (rule wp_rpma_conn_req_connect_active [OF own ok sub peer data [OF False]])
         (use free0 free1 False in \<open>auto simp: req_id_res_def\<close>)
    from False k nn pdata show ?thesis
      by (auto simp: rpma_conn_req_connect_def Let_def intro!: wp_mono [OF act])
  qed
qed

subsection \<open>Creation\<close>

lemma wp_req_from_id_err_comp_channel_destroy:
  assumes "ledger_ok s" and "chan_res ch \<subseteq># acct s"
    and "\<And>s'. ledger_ok s' \<Longrightarrow> destroyed {} (chan_res ch) s s' \<Longrightarrow> Q () s'"
  shows "wp (req_from_id_err_comp_channel_destroy E ch s) Q"
  using assms unfolding req_from_id_err_comp_channel_destroy_def
  by (auto simp: chan_res_def destroyed_def intro!: wp_ext)

lemma destroyed_trans:
  "destroyed B R s s' \<Longrightarrow> destroyed B' R' s' s'' \<Longrightarrow> destroyed (B \<union> B') (R + R') s s''"
  by (auto simp: destroyed_def fun_eq_iff diff_diff_add_mset)

lemma wp_req_from_id_err_rpma_cq_delete:
  assumes "ledger_ok s" and "owns_cq_opt cq CB CR s" and "CR + chan_res ch \<subseteq># acct s"
    and "\<And>s'. ledger_ok s' \<Longrightarrow> destroyed CB (CR + chan_res ch) s s' \<Longrightarrow> Q () s'"
  shows "wp (req_from_id_err_rpma_cq_delete E cq ch s) Q"
  unfolding req_from_id_err_rpma_cq_delete_def wp_bind
proof (rule wp_rpma_cq_delete_opt [OF assms(2,1) mset_sub_leftD [OF assms(3)]])
  fix ret s'
  assume s': "ledger_ok s'" "destroyed CB CR s s'"
  show "wp (req_from_id_err_comp_channel_destroy E ch s') Q"
    using s' mset_sub_diffI [OF assms(3)] destroyed_trans [OF s'(2)]
    by (intro wp_req_from_id_err_comp_channel_destroy) (auto simp: destroyed_def intro!: assms(4))
qed

lemma wp_req_from_id_err_rpma_rcq_delete:
  assumes "ledger_ok s" and "owns_cq_opt cq CB CR s" and "owns_cq_opt rcq RB RR s" and "RB \<inter> CB = {}"
    and "RR + (CR + chan_res ch) \<subseteq># acct s"
    and "\<And>s'. ledger_ok s' \<Longrightarrow> destroyed (RB \<union> CB) (RR + (CR + chan_res ch)) s s' \<Longrightarrow> Q () s'"
  shows "wp (req_from_id_err_rpma_rcq_delete E rcq cq ch s) Q"
  unfolding req_from_id_err_rpma_rcq_delete_def wp_bind
proof (rule wp_rpma_cq_delete_opt [OF assms(3,1) mset_sub_leftD [OF assms(5)]])
  fix ret s'
  assume s': "ledger_ok s'" "destroyed RB RR s s'"
  have "owns_cq_opt cq CB CR s'"
    using assms(2) by (rule owns_cq_opt_cong) (use s'(2) assms(4) in \<open>auto simp: destroyed_def\<close>)
  then show "wp (req_from_id_err_rpma_cq_delete E cq ch s') Q"
    using s' mset_sub_diffI [OF assms(5)] destroyed_trans [OF s'(2)]
    by (intro wp_req_from_id_err_rpma_cq_delete [where CB = CB and CR = CR])
       (auto simp: destroyed_def intro!: assms(6))
qed

lemma wp_req_from_id_err_destroy_qp:
  assumes "ledger_ok s" and "owns_cq_opt cq CB CR s" and "owns_cq_opt rcq RB RR s" and "RB \<inter> CB = {}"
    and "{#R_qp i#} + (RR + (CR + chan_res ch)) \<subseteq># acct s"
    and "\<And>s'. ledger_ok s' \<Longrightarrow> destroyed (RB \<union> CB) ({#R_qp i#} + (RR + (CR + chan_res ch))) s s' \<Longrightarrow> Q () s'"
  shows "wp (req_from_id_err_destroy_qp E i rcq cq ch s) Q"
  unfolding req_from_id_err_destroy_qp_def wp_bind
proof (rule wp_ext)
  fix r
  have "owns_cq_opt cq CB CR (push (Rdma_destroy_qp i) r s)" "owns_cq_opt rcq RB RR (push (Rdma_destroy_qp i) r s)"
    using assms(2,3) by (auto intro: owns_cq_opt_cong)
  then show "wp (req_from_id_err_rpma_rcq_delete E rcq cq ch (push (Rdma_destroy_qp i) r s)) Q"
    using mset_sub_leftD [OF assms(5)] mset_sub_diffI [OF assms(5)] assms(1,4) destroyed_after_call
    by (intro wp_req_from_id_err_rpma_rcq_delete [where CB = CB and CR = CR and RB = RB and RR = RR])
       (auto dest!: destroyed_after_call intro!: assms(6))
qed

text \<open>The queues made since \<open>s\<close>, and the finished request.\<close>

definition req_parts ::
  "ptr \<Rightarrow> ptr \<Rightarrow> ptr set \<Rightarrow> res multiset \<Rightarrow> ptr \<Rightarrow> ptr set \<Rightarrow> res multiset \<Rightarrow> st \<Rightarrow> st \<Rightarrow> bool" where
  "req_parts ch cq CB CR rcq RB RR s s' \<longleftrightarrow>
     ledger_ok s' \<and> owns_cq_opt cq CB CR s' \<and> owns_cq_opt rcq RB RR s' \<and> RB \<inter> CB = {} \<and> cq \<noteq> NULL \<and>
     created (RB \<union> CB) (RR + (CR + chan_res ch)) s s'"

definition req_made :: "ptr \<Rightarrow> ptr \<Rightarrow> st \<Rightarrow> ptr \<Rightarrow> st \<Rightarrow> bool" where
  "req_made peer i s k s' \<longleftrightarrow> (\<exists>c B R. owns_req k c B R s' \<and> created B R s s' \<and> req_id c = i \<and>
     \<not> req_is_passive c \<and> req_data c = no_pdata \<and> req_peer c = peer \<and> req_cq c \<noteq> NULL)"

lemma created_obj_at: "created B R s s' \<Longrightarrow> obj_at p x s \<Longrightarrow> obj_at p x s'"
  by (cases "p \<in> B") (auto simp: created_def obj_at_def)

lemma created_load_cfg: "created B R s s' \<Longrightarrow> load_conn_cfg p s = Some f \<Longrightarrow> load_conn_cfg p s' = Some f"
  by (cases "p \<in> B") (auto simp: created_def load_conn_cfg_def deref_def split: if_splits)

lemma owns_cq_optD: "owns_cq_opt p B R s \<Longrightarrow> p \<noteq> NULL \<Longrightarrow> \<exists>c. obj_at p (O_cq c) s"
  by (auto simp: owns_cq_opt_def owns_cq_def)

lemma wp_req_from_id_qp:
  assumes peer: "obj_at peer (O_peer p) s" and cfg: "load_conn_cfg cfg s = Some f" "cfg \<noteq> NULL"
    and parts: "req_parts ch cq CB CR rcq RB RR s s1"
    and Q0: "\<And>k s'. ledger_ok s' \<Longrightarrow> req_made peer i s k s' \<Longrightarrow> Q (0, k) s'"
    and Q1: "\<And>ret x s'. ledger_ok s' \<Longrightarrow> unchanged s s' \<Longrightarrow> ret \<noteq> 0 \<Longrightarrow> Q (ret, x) s'"
  shows "wp (req_from_id_qp E peer i cfg ch cq rcq x s1) Q"
proof -
  let ?R = "RR + (CR + chan_res ch)"
  have o: "ledger_ok s1" "owns_cq_opt cq CB CR s1" "owns_cq_opt rcq RB RR s1" "RB \<inter> CB = {}" "cq \<noteq> NULL"
    and c: "created (RB \<union> CB) ?R s s1"
    using parts by (auto simp: req_parts_def)
  from owns_cq_optD [OF o(2,5)] obtain q where q: "obj_at cq (O_cq q) s1" by blast
  have keep: "owns_cq_opt cq CB CR s'" "owns_cq_opt rcq RB RR s'" if "mem s' = mem s1" for s'
    using o(2,3) that by (auto intro: owns_cq_opt_cong)
  have fail: "wp (req_from_id_err_rpma_rcq_delete E rcq cq ch s') (\<lambda>_ t. Q (ret, x) t)"
    if s': "ledger_ok s'" "mem s' = mem s1" "acct s' = acct s1" "ret \<noteq> 0" for s' ret
  proof (rule wp_req_from_id_err_rpma_rcq_delete [OF s'(1) keep [OF s'(2)] o(4)])
    show "?R \<subseteq># acct s'" using c s'(3) by (simp add: created_def)
    fix t
    assume "ledger_ok t" and d: "destroyed (RB \<union> CB) ?R s' t"
    have "created (RB \<union> CB) ?R s s'" using c s' by (simp add: created_def)
    from created_destroyed [OF this d] \<open>ledger_ok t\<close> s'(4) show "Q (ret, x) t" by (intro Q1)
  qed
  have nomem: "wp (req_from_id_err_destroy_qp E i rcq cq ch s') (\<lambda>_ t. Q (RPMA_E_NOMEM, y) t)"
    if s': "ledger_ok s'" "mem s' = mem s1" "acct s' = add_mset (R_qp i) (acct s1)" for s' y
  proof (rule wp_req_from_id_err_destroy_qp [OF s'(1) keep [OF s'(2)] o(4)])
    show "{#R_qp i#} + ?R \<subseteq># acct s'" using c s'(3) by (simp add: created_def)
    fix t
    assume "ledger_ok t" and d: "destroyed (RB \<union> CB) ({#R_qp i#} + ?R) s' t"
    have "created (RB \<union> CB) ({#R_qp i#} + ?R) s s'" using c s' by (simp add: created_def)
    from created_destroyed [OF this d] \<open>ledger_ok t\<close> show "Q (RPMA_E_NOMEM, y) t" by (intro Q1) simp_all
  qed
  have fin: "Q (0, k) t"
    if t: "mem t = (mem s1)(k \<mapsto> O_conn_req \<lparr>req_is_passive = False, req_id = i, req_cq = cq, req_rcq = rcq,
        req_channel = ch, req_data = no_pdata, req_peer = peer\<rparr>)"
      "ledger_ok t \<and> acct t = add_mset (R_qp i) (acct s1) \<and> fresh k s1" for k t
  proof -
    let ?c = "\<lparr>req_is_passive = False, req_id = i, req_cq = cq, req_rcq = rcq,
        req_channel = ch, req_data = no_pdata, req_peer = peer\<rparr>"
    have k: "k \<notin> RB \<union> CB"
      using t(2) o(2,3) by (auto simp: owns_cq_opt_def owns_cq_def obj_at_def fresh_def split: if_splits)
    have "req_cqs ?c CB CR RB RR t"
      using o k t(1) by (auto simp: req_cqs_def intro: owns_cq_opt_cong)
    then have "owns_req k ?c (insert k (RB \<union> CB)) ({#R_qp i#} + RR + CR + chan_res ch) t"
      using t unfolding owns_req_def
      by (intro exI [of _ CB] exI [of _ CR] exI [of _ RB] exI [of _ RR]) (auto simp: obj_at_def fresh_def)
    moreover have "created (insert k (RB \<union> CB)) ({#R_qp i#} + RR + CR + chan_res ch) s t"
      using c t k by (auto simp: created_def fresh_def ac_simps)
    ultimately have "req_made peer i s k t"
      using o(5) unfolding req_made_def by (intro exI [of _ ?c] exI conjI) auto
    with t(2) show ?thesis by (intro Q0) auto
  qed
  have rcq: "\<exists>d. obj_at rcq (O_cq d) s1" if "rcq \<noteq> NULL" using owns_cq_optD [OF o(3) that] .
  show ?thesis
    unfolding req_from_id_qp_def
    by (auto simp: fresh_def intro!: wp_rpma_peer_create_qp [OF created_obj_at [OF c peer] q
          created_load_cfg [OF c cfg(1)] cfg(2) rcq o(1)] wp_malloc wp_store fail
        nomem [unfolded RPMA_E_NOMEM_def] fin)
qed

lemma cq_created_owns:
  assumes "cq_created ch s p s'"
  obtains R where "owns_cq_opt p {p} R s'" and "acct s' = acct s + R" and "p \<noteq> NULL" and "mem s p = None"
    and "\<forall>q. q \<noteq> p \<longrightarrow> mem s' q = mem s q"
  using assms by (auto simp: cq_created_def owns_cq_opt_def owns_cq_def fresh_def obj_at_def)

lemma wp_req_from_id_cqs:
  assumes peer: "obj_at peer (O_peer p) s" and cfg: "load_conn_cfg cfg s = Some f" "cfg \<noteq> NULL"
    and s1: "ledger_ok s1" "mem s1 = mem s" "acct s1 = acct s + chan_res ch"
    and Q0: "\<And>k s'. ledger_ok s' \<Longrightarrow> req_made peer i s k s' \<Longrightarrow> Q (0, k) s'"
    and Q1: "\<And>ret x s'. ledger_ok s' \<Longrightarrow> unchanged s s' \<Longrightarrow> ret \<noteq> 0 \<Longrightarrow> Q (ret, x) s'"
  shows "wp (req_from_id_cqs E peer i cfg cqe rcqe ch x s1) Q"
proof -
  have nocq: "wp (req_from_id_err_comp_channel_destroy E ch t) (\<lambda>_ t. Q (ret, x) t)"
    if "ledger_ok t" "mem t = mem s1" "acct t = acct s1" "ret \<noteq> 0" for t ret
    using that s1 by (intro wp_req_from_id_err_comp_channel_destroy Q1)
      (auto simp: destroyed_def unchanged_def)
  have norcq: "wp (req_from_id_err_rpma_cq_delete E cq ch t) (\<lambda>_ t. Q (ret, x) t)"
    if "cq_created ch s1 cq s2" "ledger_ok t" "mem t = mem s2" "acct t = acct s2" "ret \<noteq> 0" for s2 cq t ret
  proof -
    from that(1) obtain R where R: "owns_cq_opt cq {cq} R s2" "acct s2 = acct s1 + R" "cq \<noteq> NULL"
      "mem s1 cq = None" "\<forall>q. q \<noteq> cq \<longrightarrow> mem s2 q = mem s1 q" by (rule cq_created_owns)
    show ?thesis
    proof (rule wp_req_from_id_err_rpma_cq_delete [OF that(2)])
      show "owns_cq_opt cq {cq} R t" using R(1) by (rule owns_cq_opt_cong) (simp add: that(3))
      show "R + chan_res ch \<subseteq># acct t" using that(4) R(2) s1(3) by simp
      fix t'
      assume "ledger_ok t'" "destroyed {cq} (R + chan_res ch) t t'"
      with that R s1 show "Q (ret, x) t'"
        by (intro Q1) (auto simp: destroyed_def unchanged_def fun_eq_iff)
    qed
  qed
  have one: "wp (req_from_id_qp E peer i cfg ch cq NULL x s2) Q"
    if "cq_created ch s1 cq s2" "ledger_ok s2" for cq s2
    using that(1)
  proof (rule cq_created_owns)
    fix R
    assume R: "owns_cq_opt cq {cq} R s2" "acct s2 = acct s1 + R" "cq \<noteq> NULL" "mem s1 cq = None"
      "\<forall>q. q \<noteq> cq \<longrightarrow> mem s2 q = mem s1 q"
    show ?thesis
      by (rule wp_req_from_id_qp [OF peer cfg, of _ _ "{cq}" R _ "{}" "{#}"])
         (use that R s1 Q0 Q1 in \<open>auto simp: req_parts_def owns_cq_opt_def created_def\<close>)
  qed
  have two: "wp (req_from_id_qp E peer i cfg ch cq rcq x s3) Q"
    if "cq_created ch s1 cq s2" "cq_created ch s2 rcq s3" "ledger_ok s3" for cq s2 rcq s3
  proof -
    from that(1) obtain R where R: "owns_cq_opt cq {cq} R s2" "acct s2 = acct s1 + R" "cq \<noteq> NULL"
      "mem s1 cq = None" "\<forall>q. q \<noteq> cq \<longrightarrow> mem s2 q = mem s1 q" by (rule cq_created_owns)
    from that(2) obtain R' where R': "owns_cq_opt rcq {rcq} R' s3" "acct s3 = acct s2 + R'" "rcq \<noteq> NULL"
      "mem s2 rcq = None" "\<forall>q. q \<noteq> rcq \<longrightarrow> mem s3 q = mem s2 q" by (rule cq_created_owns)
    have ne: "rcq \<noteq> cq" using R(1) R'(4) R(3) by (auto simp: owns_cq_opt_def owns_cq_def obj_at_def)
    then have "owns_cq_opt cq {cq} R s3" using R(1) R'(5) by (auto intro: owns_cq_opt_cong)
    with R R' ne that s1 Q0 Q1 show ?thesis
      by (intro wp_req_from_id_qp [OF peer cfg, of _ _ "{cq}" R _ "{rcq}" R'])
         (auto simp: req_parts_def created_def ac_simps)
  qed
  show ?thesis
    unfolding req_from_id_cqs_def
    by (auto intro!: wp_rpma_cq_new [OF s1(1)] wp_rpma_cq_new nocq norcq one two)
qed

lemma wp_rpma_conn_req_from_id:
  assumes peer: "obj_at peer (O_peer p) s" and cfg: "load_conn_cfg cfg s = Some f" "cfg \<noteq> NULL"
    and ok: "ledger_ok s"
    and Q0: "\<And>k s'. ledger_ok s' \<Longrightarrow> req_made peer i s k s' \<Longrightarrow> Q (0, k) s'"
    and Q1: "\<And>ret x s'. ledger_ok s' \<Longrightarrow> unchanged s s' \<Longrightarrow> ret \<noteq> 0 \<Longrightarrow> Q (ret, x) s'"
  shows "wp (rpma_conn_req_from_id E peer i cfg x s) Q"
  unfolding rpma_conn_req_from_id_def
  using cfg ok
  by (auto simp: rpma_conn_cfg_get_cqe_eq rpma_conn_cfg_get_rcqe_eq compl_channel.get_ok chan_res_def unchanged_def
      intro!: wp_ext wp_req_from_id_cqs [OF peer cfg] Q0 Q1)

end
