(* ===== verification/Conn_Props.thy ===== *)
theory Conn_Props
  imports Conn_Life
begin

text \<open>
  The properties of connections: deletion and creation, events, completions, and what each
  operation posts on the queue pair.
\<close>

subsection \<open>A sample connection\<close>

definition sample_conn :: rpma_conn where
  "sample_conn = \<lparr>conn_id = 40, conn_evch = 41, conn_cq = 42, conn_rcq = 0, conn_channel = 49,
     conn_data = no_pdata, conn_flush = 43, conn_direct_write_to_pmem = True\<rparr>"

definition sample_cq :: rpma_cq where
  "sample_cq = \<lparr>cq_channel = 49, cq_shared_comp_channel = True, cq_cq = 100\<rparr>"

definition sample_apm :: flush_apm where
  "sample_apm = \<lparr>apm_raw = 4096, apm_mmap_size = 4096, apm_raw_mr = 47\<rparr>"

definition sample_remote :: rpma_mr_remote where
  "sample_remote = \<lparr>mrr_raddr = 8192, mrr_size = 1024, mrr_rkey = 77,
     mrr_usage = RPMA_MR_USAGE_FLUSH_TYPE_PERSISTENT\<rparr>"

definition sample_trace :: "event list" where
  "sample_trace =
     [(Ibv_reg_mr 3 4096 8 {}, sample_respond [] Malloc),
      (Mmap 4096, sample_respond [] Malloc),
      (Rdma_create_event_channel, (sample_respond [] Malloc)\<lparr>rptr := 41\<rparr>),
      (Ibv_create_comp_channel 9, (sample_respond [] Malloc)\<lparr>rptr := 49\<rparr>),
      (Ibv_create_cq 9 10 49, sample_respond [] Malloc),
      (Rdma_create_qp 40 3 \<lparr>qpa_send_cq = 100, qpa_recv_cq = 100, qpa_max_send_wr = 1,
         qpa_max_recv_wr = 1, qpa_max_send_sge = 1, qpa_max_recv_sge = 1, qpa_max_inline_data = 8,
         qpa_rc = True, qpa_sq_sig_all = 0\<rparr>, sample_respond [] Malloc),
      (Rdma_create_id 38, (sample_respond [] Malloc)\<lparr>rptr := 40\<rparr>)]"

definition sample_st :: st where
  "sample_st = (heap_st [(50, O_conn sample_conn), (42, O_cq sample_cq),
     (43, O_flush \<lparr>flush_context = 46\<rparr>), (46, O_apm sample_apm), (47, O_mr_local sample_mr),
     (51, O_mr_remote sample_remote), (52, O_peer \<lparr>peer_pd = 3, peer_is_odp_supported = 0\<rparr>)])
     \<lparr>trace := sample_trace\<rparr>"

lemma sample_objs [simp]:
  "obj_at 50 (O_conn sample_conn) sample_st" "obj_at 42 (O_cq sample_cq) sample_st"
  "obj_at 43 (O_flush \<lparr>flush_context = 46\<rparr>) sample_st" "obj_at 46 (O_apm sample_apm) sample_st"
  "obj_at 47 (O_mr_local sample_mr) sample_st" "obj_at 51 (O_mr_remote sample_remote) sample_st"
  "obj_at 52 (O_peer \<lparr>peer_pd = 3, peer_is_odp_supported = 0\<rparr>) sample_st"
  by (simp_all add: sample_st_def obj_at_def CONN_CFG_DEFAULT_ADDR_def)

lemma sample_acct: "acct sample_st =
    {#R_mr 100, R_map 4096, R_evch 41, R_channel 49, R_cq 100, R_qp 40, R_id 40#}"
  and sample_ledger [simp]: "ledger_ok sample_st"
  by (simp_all add: sample_st_def acct_def ledger_ok_def sample_trace_def sample_respond_def
      sample_ibv_mr_def add_mset_commute)

lemma sample_fields [simp]:
  "conn_id sample_conn = 40" "conn_evch sample_conn = 41" "conn_cq sample_conn = 42"
  "conn_rcq sample_conn = 0" "conn_channel sample_conn = 49" "conn_data sample_conn = no_pdata"
  "conn_flush sample_conn = 43" "conn_direct_write_to_pmem sample_conn"
  "cq_res sample_cq = {#R_cq 100#}" "cq_cq sample_cq = 100"
  "apm_raw sample_apm = 4096" "apm_raw_mr sample_apm = 47" "mr_res sample_mr = {#R_mr 100#}"
  by (simp_all add: sample_conn_def sample_cq_def sample_apm_def sample_mr_def mr_res_def sample_ibv_mr_def)

lemma sample_owns: "owns_conn 50 {43, 46, 47, 42, 50} (acct sample_st) sample_st"
proof -
  have f: "owns_flush 43 {43, 46, 47} {#R_map 4096, R_mr 100#} sample_st"
    unfolding owns_flush_def
    by (intro exI [of _ "\<lparr>flush_context = 46\<rparr>"] exI [of _ sample_apm] exI [of _ sample_mr])
       simp
  have q: "owns_cq 42 {42} {#R_cq 100#} sample_st"
    unfolding owns_cq_def by (intro exI [of _ sample_cq]) simp
  show ?thesis
    unfolding owns_conn_def
    by (rule exI [of _ sample_conn], intro exI [of _ "{42}"] exI [of _ "{#R_cq 100#}"] exI [of _ "{}"]
        exI [of _ "{#}"] exI [of _ "{43, 46, 47}"] exI [of _ "{#R_map 4096, R_mr 100#}"])
       (use f q in \<open>auto simp: conn_cqs_def owns_cq_opt_def sample_acct
         conn_tail_blocks_def conn_tail_res_def chan_res_def add_mset_commute\<close>)
qed

subsection \<open>Deletion and creation\<close>

text \<open>C2: deleting a connection gives back everything it owns, exactly once. On each of the paths
  through the labels of \<open>rpma_conn_delete\<close>, whatever flush deletion, queue deletion and the
  provider answer, the flushing object, the queue pair, both completion queues, the CM ID, the
  shared completion channel, the event channel, the private data and the object itself are released,
  nothing is released twice, nothing else changes, and the caller's pointer is cleared.\<close>

theorem conn_delete_releases_all:
  assumes "owns_conn k B R s" and "ledger_ok s" and "R \<subseteq># acct s"
  shows "wp (rpma_conn_delete E (Some k) s)
     (\<lambda>(ret, out) s'. ledger_ok s' \<and> destroyed B R s s' \<and> out = Some NULL \<and>
        ret \<in> {0, RPMA_E_PROVIDER, RPMA_E_INVAL})"
  by (rule wp_rpma_conn_delete [OF assms]) auto

theorem conn_delete_releases_all_witness:
  "wp (rpma_conn_delete sample_env (Some 50) sample_st) (\<lambda>(ret, out) s'. ledger_ok s' \<and>
     acct s' = {#} \<and> out = Some NULL \<and> (\<forall>q. mem s' q \<noteq> None \<longrightarrow> q \<in> {51, 52}))"
  by (rule wp_mono [OF conn_delete_releases_all [OF sample_owns sample_ledger]])
     (auto simp: destroyed_def sample_st_def heap_st_def split: if_splits)

text \<open>Creating a connection either works or leaves no trace. When \<open>rpma_conn_new\<close> returns 0
  there is one new connection object around the caller's CM ID and queues, without private data
  and without the direct-write flag, that additionally owns a new event channel and a new flushing
  object; with any other result the event channel and the flushing object are gone again.\<close>

lemma conn_new_all_or_nothing:
  assumes "obj_at peer (O_peer p) s" and "ledger_ok s"
  shows "wp (rpma_conn_new E peer i cq rcq channel (Some x) s)
     (\<lambda>(ret, out) s'. ledger_ok s' \<and>
        (if ret = 0 then \<exists>k. out = Some k \<and> conn_made i cq rcq channel s k s'
         else unchanged s s' \<and> out = Some x \<and> ret \<in> {RPMA_E_PROVIDER, RPMA_E_NOMEM, RPMA_E_INVAL}))"
  by (rule wp_rpma_conn_new [OF assms]) auto

subsection \<open>Events\<close>

lemma acct_get_cm_event:
  "acct (push (Rdma_get_cm_event ch) r s) - {#R_event (ev_ptr (rcm r))#} + A =
     acct s + A + (if ev_event (rcm r) = RDMA_CM_EVENT_CONNECT_REQUEST then {#R_id (ev_id (rcm r))#} else {#})"
  if "rint r = 0"
  using that by (auto simp: add_mset_commute)

lemma wp_next_event_err_private_data_discard:
  assumes "obj_at k (O_conn c) s" and "pdata_ok (conn_data c) s"
    and "\<And>s'. trace s' = trace s \<Longrightarrow> acct s' = acct s \<Longrightarrow> ledger_ok s' = ledger_ok s \<Longrightarrow>
       obj_at k (O_conn (c\<lparr>conn_data := no_pdata\<rparr>)) s' \<Longrightarrow>
       \<forall>q. q \<noteq> k \<longrightarrow> mem s' q = (if q \<in> pdata_blocks (conn_data c) then None else mem s q) \<Longrightarrow> Q () s'"
  shows "wp (next_event_err_private_data_discard k s) Q"
proof -
  have live: "obj_at k (O_conn c) s'" if "mem s' = (\<lambda>q. if q \<in> pdata_blocks (conn_data c) then None else mem s q)" for s'
    using assms(1) pdata_disjoint(1) [OF assms(2,1)] that by (simp add: obj_at_def)
  have "k \<noteq> NULL" "k \<noteq> CONN_CFG_DEFAULT_ADDR" using assms(1) by (auto simp: obj_at_def)
  with assms(1) show ?thesis
    unfolding next_event_err_private_data_discard_def
    by (auto simp: acct_def ledger_ok_def intro!: wp_rpma_private_data_discard [OF assms(2)]
        wp_store [OF live] assms(3))
qed

definition new_id_of :: "rdma_cm_event \<Rightarrow> res multiset" where
  "new_id_of e = (if ev_event e = RDMA_CM_EVENT_CONNECT_REQUEST then {#R_id (ev_id e)#} else {#})"

text \<open>What is known when the event has been handled: the connection is the old one up to its
  private data \<open>d\<close>, every other object is untouched, and the event has been acknowledged.\<close>

definition next_event_inv ::
  "ptr \<Rightarrow> rpma_conn \<Rightarrow> st \<Rightarrow> rdma_cm_event \<Rightarrow> rpma_conn_private_data \<Rightarrow> st \<Rightarrow> bool" where
  "next_event_inv k c s e d s' \<longleftrightarrow>
     ledger_ok s' \<and> acct s' = acct s + new_id_of e \<and>
     obj_at k (O_conn (c\<lparr>conn_data := d\<rparr>)) s' \<and> pdata_ok d s' \<and>
     (\<forall>q. q \<noteq> k \<and> (q \<in> pdata_blocks d \<longleftrightarrow> q \<in> pdata_blocks (conn_data c)) \<longrightarrow> mem s' q = mem s q) \<and>
     (\<forall>q \<in> pdata_blocks d - pdata_blocks (conn_data c). mem s q = None) \<and>
     (\<forall>q \<in> pdata_blocks (conn_data c) - pdata_blocks d. mem s' q = None) \<and>
     fst (hd (trace s')) = Rdma_ack_cm_event e"

definition last_answer :: "st \<Rightarrow> int" where
  "last_answer s = rint (snd (hd (trace s)))"

text \<open>The bytes of the private data after an event: those of the first \<open>ESTABLISHED\<close>.\<close>

definition pdata_after :: "rpma_conn \<Rightarrow> rdma_cm_event \<Rightarrow> st \<Rightarrow> u8 list" where
  "pdata_after c e s =
     (if ev_event e = RDMA_CM_EVENT_ESTABLISHED \<and> pdata_ptr (conn_data c) = NULL then event_payload e
      else pdata_bytes (conn_data c) s)"

definition next_event_post ::
  "ptr \<Rightarrow> rpma_conn \<Rightarrow> st \<Rightarrow> rdma_cm_event \<Rightarrow> int \<Rightarrow> rc \<Rightarrow> int option \<Rightarrow> st \<Rightarrow> bool" where
  "next_event_post k c s e x ret out s' \<longleftrightarrow> (\<exists>d. next_event_inv k c s e d s' \<and>
     (ret = 0 \<and> last_answer s' = 0 \<and> conn_event_of (ev_event e) \<noteq> None \<and>
        out = conn_event_of (ev_event e) \<and> pdata_bytes d s' = pdata_after c e s \<or>
      ret = RPMA_E_UNKNOWN \<and> last_answer s' = 0 \<and> conn_event_of (ev_event e) = None \<and>
        out = Some x \<and> d = conn_data c \<or>
      ret = RPMA_E_PROVIDER \<and> last_answer s' \<noteq> 0 \<and> out = Some x \<and> d = no_pdata \<or>
      ret = RPMA_E_NOMEM \<and> ev_event e = RDMA_CM_EVENT_ESTABLISHED \<and>
        event_payload e \<noteq> [] \<and> out = Some x \<and> d = conn_data c))"

lemma pdata_bytes_cong: "mem s' (pdata_ptr d) = mem s (pdata_ptr d) \<Longrightarrow> pdata_bytes d s' = pdata_bytes d s"
  by (simp add: pdata_bytes_def deref_def)

lemma wp_conn_next_event_ack:
  assumes t: "obj_at k (O_conn (c\<lparr>conn_data := d\<rparr>)) t" "pdata_ok d t" "ledger_ok t"
    and acct: "acct t = add_mset (R_event (ev_ptr e)) (acct s + new_id_of e)"
    and frame: "\<forall>q. q \<noteq> k \<and> (q \<in> pdata_blocks d \<longleftrightarrow> q \<in> pdata_blocks (conn_data c)) \<longrightarrow> mem t q = mem s q"
    and data: "pdata_bytes d t = pdata_after c e s" "conn_event_of (ev_event e) = None \<Longrightarrow> d = conn_data c"
    and gone: "\<forall>q \<in> pdata_blocks d - pdata_blocks (conn_data c). mem s q = None"
      "\<forall>q \<in> pdata_blocks (conn_data c) - pdata_blocks d. mem t q = None" "k \<notin> pdata_blocks (conn_data c)"
  shows "wp (conn_next_event_ack E k e (Some x) t) (\<lambda>(ret, out) s'. next_event_post k c s e x ret out s')"
proof -
  let ?t = "\<lambda>r. push (Rdma_ack_cm_event e) r t"
  have ok: "next_event_inv k c s e d (?t r)" and b: "pdata_bytes d (?t r) = pdata_after c e s" for r
    using t acct frame data gone by (auto simp: next_event_inv_def pdata_ok_def pdata_bytes_def deref_def)
  have fail: "wp (next_event_err_private_data_discard k (?t r))
      (\<lambda>_ s'. next_event_post k c s e x RPMA_E_PROVIDER (Some x) s')" if "rint r \<noteq> 0" for r
  proof (rule wp_next_event_err_private_data_discard)
    show "obj_at k (O_conn (c\<lparr>conn_data := d\<rparr>)) (?t r)" using t by simp
    show "pdata_ok (conn_data (c\<lparr>conn_data := d\<rparr>)) (?t r)" using t by (simp add: pdata_ok_def)
    fix s'
    assume s': "trace s' = trace (?t r)" "acct s' = acct (?t r)" "ledger_ok s' = ledger_ok (?t r)"
      "obj_at k (O_conn (c\<lparr>conn_data := d, conn_data := no_pdata\<rparr>)) s'"
      "\<forall>q. q \<noteq> k \<longrightarrow> mem s' q = (if q \<in> pdata_blocks (conn_data (c\<lparr>conn_data := d\<rparr>)) then None else mem (?t r) q)"
    have "next_event_inv k c s e no_pdata s'"
      using s' t acct frame gone by (fastforce simp: next_event_inv_def)
    with s'(1) that show "next_event_post k c s e x RPMA_E_PROVIDER (Some x) s'"
      by (auto simp: next_event_post_def last_answer_def intro!: exI [of _ no_pdata])
  qed
  have good: "next_event_post k c s e x ret out (?t r)"
    if "rint r = 0" "ret = 0 \<and> conn_event_of (ev_event e) = out \<and> out \<noteq> None \<or>
      ret = RPMA_E_UNKNOWN \<and> conn_event_of (ev_event e) = None \<and> out = Some x" for ret out r
    using that ok b data(2) by (fastforce simp: next_event_post_def last_answer_def)
  show ?thesis
    using fail unfolding conn_next_event_ack_def
    by (auto simp: Let_def split: option.splits intro!: wp_ext good)
qed

lemma conn_next_event_spec:
  assumes "obj_at k (O_conn c) s" and "pdata_ok (conn_data c) s" and "ledger_ok s"
    and "r = respond E (trace s) (Rdma_get_cm_event (conn_evch c))" and "rint r = 0 \<Longrightarrow> event_wf (rcm r)"
  shows "wp (rpma_conn_next_event E k (Some x) s) (\<lambda>(ret, out) s'.
     if rint r = 0 then next_event_post k c s (rcm r) x ret out s'
     else ret = (if errno s' = ENODATA then RPMA_E_NO_EVENT else RPMA_E_PROVIDER) \<and> out = Some x \<and>
          unchanged s s' \<and> ledger_ok s')"
proof (cases "rint r = 0")
  case False
  with assms show ?thesis
    by (auto simp: rpma_conn_next_event_def obj_at_nonnull wp_ext_exact unchanged_def)
next
  case True
  let ?s = "push (Rdma_get_cm_event (conn_evch c)) r s"
  have acct: "acct ?s = add_mset (R_event (ev_ptr (rcm r))) (acct s + new_id_of (rcm r))"
    using True by (auto simp: new_id_of_def add_mset_commute)
  have dis: "k \<notin> pdata_blocks (conn_data c)" by (rule pdata_disjoint(1) [OF assms(2,1)])
  have c_upd: "c\<lparr>conn_data := conn_data c\<rparr> = c" by simp
  have plain: "wp (conn_next_event_ack E k (rcm r) (Some x) s')
      (\<lambda>(ret, out) s'. next_event_post k c s (rcm r) x ret out s')"
    if "pdata_after c (rcm r) s = pdata_bytes (conn_data c) s" "mem s' = mem s" "acct s' = acct ?s" "ledger_ok s'"
    for s'
    using assms(1,2) that acct dis
    by (intro wp_conn_next_event_ack [where d = "conn_data c"])
       (auto simp: obj_at_def pdata_ok_def pdata_bytes_def deref_def)
  have stored: "wp (conn_next_event_ack E k (rcm r) (Some x) s')
      (\<lambda>(ret, out) s'. next_event_post k c s (rcm r) x ret out s')"
    if "ev_event (rcm r) = RDMA_CM_EVENT_ESTABLISHED" "pdata_ptr (conn_data c) = NULL" "fresh q s"
      "event_payload (rcm r) \<noteq> []" "length (event_payload (rcm r)) = unat (ev_private_data_len (rcm r))"
      "mem s' = (mem s)(q \<mapsto> O_bytes (event_payload (rcm r)),
         k \<mapsto> O_conn (c\<lparr>conn_data := \<lparr>pdata_ptr = q, pdata_len = ev_private_data_len (rcm r)\<rparr>\<rparr>))"
      "acct s' = acct ?s" "ledger_ok s'" for q s'
    using assms(1) that acct
    by (intro wp_conn_next_event_ack [where d = "\<lparr>pdata_ptr = q, pdata_len = ev_private_data_len (rcm r)\<rparr>"])
       (auto simp: obj_at_def pdata_ok_def pdata_bytes_def deref_def pdata_after_def pdata_blocks_def fresh_def)
  have nomem: "next_event_post k c s (rcm r) x RPMA_E_NOMEM (Some x) (push (Rdma_ack_cm_event (rcm r)) r' s')"
    if "ev_event (rcm r) = RDMA_CM_EVENT_ESTABLISHED" "event_payload (rcm r) \<noteq> []" "mem s' = mem s"
      "acct s' = acct ?s" "ledger_ok s'" for r' s'
    using assms(1,2) that acct unfolding next_event_post_def
    by (intro exI [of _ "conn_data c"]) (auto simp: next_event_inv_def obj_at_def pdata_ok_def)
  have kk: "k \<noteq> NULL" "k \<noteq> CONN_CFG_DEFAULT_ADDR" "mem s k = Some (O_conn c)"
    using assms(1) by (auto simp: obj_at_def)
  have okr: "ledger_ok ?s" using assms(3) by simp
  have store: "wp (rpma_private_data_store E (rcm r) (conn_data c) ?s) (\<lambda>(ret, d) s'.
      wp (store k (O_conn (c\<lparr>conn_data := d\<rparr>)) s') (\<lambda>_ s'.
        (ret \<noteq> 0 \<longrightarrow> wp (ext E (Rdma_ack_cm_event (rcm r)) s')
            (\<lambda>_ s'. next_event_post k c s (rcm r) x ret (Some x) s')) \<and>
        (ret = 0 \<longrightarrow> wp (conn_next_event_ack E k (rcm r) (Some x) s')
            (\<lambda>(ret, out) s'. next_event_post k c s (rcm r) x ret out s'))))"
    if est: "ev_event (rcm r) = RDMA_CM_EVENT_ESTABLISHED" "pdata_ptr (conn_data c) = NULL"
  proof (rule wp_rpma_private_data_store [OF okr assms(5) [OF True]], goal_cases)
    case (1 s')
    with est kk okr show ?case
      by (auto simp: pdata_after_def pdata_bytes_def deref_def obj_at_def fun_upd_idem
          simp del: acct_push intro!: wp_store [where x = "O_conn c"] plain)
  next
    case (2 q s')
    then have "q \<noteq> k" using kk by (auto simp: fresh_def)
    with 2 est kk show ?case
      by (auto simp: obj_at_def fresh_def simp del: acct_push
          intro!: wp_store [where x = "O_conn c"] stored [where q = q])
  next
    case (3 ret s')
    with est kk show ?case
      by (auto simp: obj_at_def unchanged_def fun_upd_idem simp del: acct_push
          intro!: wp_store [where x = "O_conn c"] wp_ext nomem [unfolded RPMA_E_NOMEM_def])
  qed
  show ?thesis
  proof (cases "ev_event (rcm r) = RDMA_CM_EVENT_ESTABLISHED \<and> pdata_ptr (conn_data c) = NULL")
    case est: True
    then show ?thesis
      using True kk(1) store
      by (auto simp: rpma_conn_next_event_def load_Some(7) [OF assms(1)] wp_ext_exact assms(4) [symmetric]
          elim!: wp_mono)
  next
    case False
    with True kk(1) plain [of ?s] okr show ?thesis
      by (auto simp: rpma_conn_next_event_def load_Some(7) [OF assms(1)] wp_ext_exact pdata_after_def
          assms(4) [symmetric])
  qed
qed

text \<open>C24: the contract of \<open>rpma_conn_next_event\<close>. If no event can be read, the result says why and
  nothing changes. Otherwise the event is acknowledged exactly once on every path, the ledger is
  as before, and one of four things happens: the event is one a connection reports and it is
  reported, the private data being the one that came with the first \<open>ESTABLISHED\<close>; or it is
  not and the result is \<open>RPMA_E_UNKNOWN\<close>; or the acknowledgement failed, and the private data
  is dropped; or there was no memory for the private data.\<close>

theorem conn_next_event_contract:
  assumes "obj_at k (O_conn c) s" and "pdata_ok (conn_data c) s" and "ledger_ok s"
    and "r = respond E (trace s) (Rdma_get_cm_event (conn_evch c))" and "rint r = 0 \<Longrightarrow> event_wf (rcm r)"
  shows "wp (rpma_conn_next_event E k (Some x) s) (\<lambda>(ret, out) s'.
     if rint r = 0 then next_event_post k c s (rcm r) x ret out s'
     else ret = (if errno s' = ENODATA then RPMA_E_NO_EVENT else RPMA_E_PROVIDER) \<and> out = Some x \<and>
          unchanged s s' \<and> ledger_ok s')"
  using assms by (rule conn_next_event_spec)

theorem conn_next_event_contract_witness:
  "wp (rpma_conn_next_event sample_env 50 (Some 9) sample_st)
     (\<lambda>(ret, out) s'. next_event_post 50 sample_conn sample_st sample_cm_event 9 ret out s')"
  by (rule wp_mono [OF conn_next_event_contract [OF sample_objs(1) _ sample_ledger refl]])
     (auto simp: sample_respond_def event_wf_def sample_cm_event_def)

subsection \<open>Completions on the shared channel\<close>

text \<open>Waiting for a completion on the shared channel. When the provider reports a completion
  queue of the connection, that queue is returned, the flag says whether it is the receive queue,
  the event is acknowledged once and the queue is armed again, in this order and with no other call;
  if arming fails the queue is not handed out. A queue that is not of this connection gives
  \<open>RPMA_E_UNKNOWN\<close>, and then the event stays unacknowledged.\<close>

lemma conn_wait_contract:
  assumes "obj_at k (O_conn c) s" and "obj_at (conn_cq c) (O_cq q) s"
    and "conn_rcq c \<noteq> NULL \<Longrightarrow> obj_at (conn_rcq c) (O_cq rq) s"
    and "conn_channel c \<noteq> NULL"
    and "r = respond E (trace s) (Ibv_get_cq_event (conn_channel c))"
  shows "wp (rpma_conn_wait E k flags (Some x) (Some b) s) (\<lambda>(ret, out, is_rcq) s'.
     unchanged s s' \<and>
     (if rint r \<noteq> 0 then ret = RPMA_E_NO_COMPLETION \<and> out = Some x \<and>
        trace s' = (Ibv_get_cq_event (conn_channel c), r) # trace s
      else if rptr r = cq_cq q \<or> conn_rcq c \<noteq> NULL \<and> rptr r = cq_cq rq
      then is_rcq = Some (rptr r \<noteq> cq_cq q) \<and>
        map fst (trace s') = [Ibv_req_notify_cq (rptr r), Ibv_ack_cq_events (rptr r) 1,
          Ibv_get_cq_event (conn_channel c)] @ map fst (trace s) \<and>
        (if last_answer s' = 0 then ret = 0 \<and> out = Some (if rptr r = cq_cq q then conn_cq c else conn_rcq c)
         else ret = RPMA_E_PROVIDER \<and> out = Some NULL)
      else ret = RPMA_E_UNKNOWN \<and> out = Some x \<and> is_rcq = Some b \<and>
        trace s' = (Ibv_get_cq_event (conn_channel c), r) # trace s))"
  using assms
  by (auto simp: rpma_conn_wait_def rpma_cq_get_ibv_cq_def obj_at_nonnull wp_ext_exact unchanged_def
      last_answer_def Let_def split: if_splits)

subsection \<open>What is posted\<close>

lemma unat_add_in_bounds:
  "unat a + unat n \<le> 2 ^ LENGTH('a) \<Longrightarrow> unat k + unat l \<le> unat n \<Longrightarrow> 0 < unat l \<Longrightarrow>
     unat (a + k) = unat a + unat (k :: 'a::len word)"
  by (simp add: unat_word_ariths)

lemma unat_ucast_32: "unat n < 2 ^ 32 \<Longrightarrow> unat (ucast (n :: u64) :: u32) = unat n"
proof -
  assume "unat n < 2 ^ 32"
  moreover have "unat (ucast n :: u32) = take_bit 32 (unat n)" by (simp add: unsigned_ucast_eq)
  ultimately show ?thesis by (simp only: take_bit_nat_eq_self)
qed

text \<open>The bytes a work request reads or writes remotely and locally, as intervals of addresses.\<close>

definition remote_span :: "ibv_send_wr \<Rightarrow> nat set" where
  "remote_span wr = (case (wr_rdma wr, wr_sg_list wr) of
     (Some (a, _), Some sge) \<Rightarrow> {unat a ..< unat a + unat (sge_length sge)} | _ \<Rightarrow> {})"

definition local_span :: "ibv_send_wr \<Rightarrow> nat set" where
  "local_span wr = (case wr_sg_list wr of
     Some sge \<Rightarrow> {unat (sge_addr sge) ..< unat (sge_addr sge) + unat (sge_length sge)} | None \<Rightarrow> {})"

definition mr_remote_span :: "rpma_mr_remote \<Rightarrow> nat \<Rightarrow> nat \<Rightarrow> nat set" where
  "mr_remote_span m off n = {unat (mrr_raddr m) + off ..< unat (mrr_raddr m) + off + n}"

definition mr_local_span :: "rpma_mr_local \<Rightarrow> nat \<Rightarrow> nat \<Rightarrow> nat set" where
  "mr_local_span m off n =
     {unat (mr_addr (mrl_ibv_mr m)) + off ..< unat (mr_addr (mrl_ibv_mr m)) + off + n}"

text \<open>An access inside the region, the region inside the address space.\<close>

definition remote_fits :: "rpma_mr_remote \<Rightarrow> u64 \<Rightarrow> u64 \<Rightarrow> bool" where
  "remote_fits m off len \<longleftrightarrow> unat off + unat len \<le> unat (mrr_size m) \<and>
     unat (mrr_raddr m) + unat (mrr_size m) \<le> 2 ^ 64"

definition local_fits :: "rpma_mr_local \<Rightarrow> u64 \<Rightarrow> u64 \<Rightarrow> bool" where
  "local_fits m off len \<longleftrightarrow> unat off + unat len \<le> unat (mr_length (mrl_ibv_mr m)) \<and>
     unat (mr_addr (mrl_ibv_mr m)) + unat (mr_length (mrl_ibv_mr m)) \<le> 2 ^ 64"

lemma signaled_iff: "IBV_SEND_SIGNALED \<in> signaled flags \<longleftrightarrow> bit flags 1"
proof -
  have "RPMA_F_COMPLETION_ON_SUCCESS = 2 ^ 1"
    by (simp add: RPMA_F_COMPLETION_ON_SUCCESS_def RPMA_F_COMPLETION_ALWAYS_def RPMA_F_COMPLETION_ON_ERROR_def)
  then show ?thesis using and_pow2_iff [of 1 flags] by (simp add: signaled_def)
qed

lemma span_fits:
  assumes "unat (a :: u64) + unat n \<le> 2 ^ 64" and "unat off + unat len \<le> unat n" and "unat len < 2 ^ 32"
  shows "{unat (a + off) ..< unat (a + off) + unat (ucast len :: u32)}
      = {unat a + unat off ..< unat a + unat off + unat (len :: u64)}"
proof (cases "unat len = 0")
  case True
  then show ?thesis using assms(3) by (simp add: unat_ucast_32)
next
  case False
  then have "unat (a + off) = unat a + unat off"
    using assms(1,2) by (intro unat_add_in_bounds [where n = n and l = len]) simp_all
  with assms(3) show ?thesis by (simp add: unat_ucast_32)
qed

text \<open>The connection \<open>k\<close> posts the work request \<open>wr\<close>, and nothing else happens.\<close>

definition posts :: "env \<Rightarrow> rpma_conn \<Rightarrow> ibv_send_wr \<Rightarrow> st \<Rightarrow> (rc \<times> st) option \<Rightarrow> bool" where
  "posts E c wr s res \<longleftrightarrow>
     (let call = Ibv_post_send (id_qp E (trace s) (conn_id c)) wr; r = respond E (trace s) call in
      res = Some (if rint r = 0 then 0 else RPMA_E_PROVIDER, push call r s))"

abbreviation rdma_wr where
  "rdma_wr opcode imm m d m_off d_off len flags ctx \<equiv>
     \<lparr>wr_id = ctx, wr_sg_list = Some (local_sge d d_off len), wr_num_sge = 1, wr_opcode = opcode,
      wr_send_flags = signaled flags, wr_imm_data = imm,
      wr_rdma = Some (mrr_raddr m + m_off, mrr_rkey m)\<rparr>"

lemma rdma_wr_spans:
  assumes "local_fits d d_off len" and "remote_fits m m_off len" and "unat len < 2 ^ 32"
  shows "remote_span (rdma_wr opcode imm m d m_off d_off len flags ctx) = mr_remote_span m (unat m_off) (unat len)"
    and "local_span (rdma_wr opcode imm m d m_off d_off len flags ctx) = mr_local_span d (unat d_off) (unat len)"
  using span_fits [of "mr_addr (mrl_ibv_mr d)" "mr_length (mrl_ibv_mr d)" d_off len]
    span_fits [of "mrr_raddr m" "mrr_size m" m_off len] assms
  by (simp_all add: remote_span_def local_span_def local_sge_def mr_remote_span_def mr_local_span_def
      local_fits_def remote_fits_def)

lemma rpma_read_posts:
  assumes "obj_at k (O_conn c) s" and "obj_at dst (O_mr_local d) s" and "obj_at src (O_mr_remote m) s"
    and "flags \<noteq> 0"
  shows "posts E c (rdma_wr IBV_WR_RDMA_READ None m d src_off dst_off len flags ctx) s
     (rpma_read E k dst dst_off src src_off len flags ctx s)"
  using assms
  by (simp add: rpma_read_def rpma_mr_read_def obj_at_nonnull posts_def ext_def Let_def)

lemma rpma_write_posts:
  assumes "obj_at k (O_conn c) s" and "obj_at src (O_mr_local d) s" and "obj_at dst (O_mr_remote m) s"
    and "flags \<noteq> 0"
  shows "posts E c (rdma_wr IBV_WR_RDMA_WRITE None m d dst_off src_off len flags ctx) s
     (rpma_write E k dst dst_off src src_off len flags ctx s)"
    and "posts E c (rdma_wr IBV_WR_RDMA_WRITE_WITH_IMM (Some (htonl_bytes imm)) m d dst_off src_off len flags ctx) s
     (rpma_write_with_imm E k dst dst_off src src_off len flags imm ctx s)"
  using assms
  by (simp_all add: rpma_write_def rpma_write_with_imm_def rpma_mr_write_def obj_at_nonnull posts_def
      ext_def Let_def)

text \<open>A read transfers exactly the bytes the caller asked for. With live objects and a
  non-zero flag, and for a range that lies inside both regions, one RDMA read is posted whose
  remote range is the range of the source, whose local range is the range of the destination, with
  the key of each region, the caller's context, and a completion exactly when the flags ask for
  one on success.\<close>

lemma rpma_read_transfers_range:
  assumes "obj_at k (O_conn c) s" and "obj_at dst (O_mr_local d) s" and "obj_at src (O_mr_remote m) s"
    and "flags \<noteq> 0" and "local_fits d dst_off len" and "remote_fits m src_off len" and "unat len < 2 ^ 32"
  shows "\<exists>wr. posts E c wr s (rpma_read E k dst dst_off src src_off len flags ctx s) \<and>
     wr_opcode wr = IBV_WR_RDMA_READ \<and>
     remote_span wr = mr_remote_span m (unat src_off) (unat len) \<and>
     local_span wr = mr_local_span d (unat dst_off) (unat len) \<and>
     map_option snd (wr_rdma wr) = Some (mrr_rkey m) \<and>
     map_option sge_lkey (wr_sg_list wr) = Some (Some (mr_lkey (mrl_ibv_mr d))) \<and>
     wr_id wr = ctx \<and> (IBV_SEND_SIGNALED \<in> wr_send_flags wr \<longleftrightarrow> bit flags 1)"
proof -
  show ?thesis
    using rdma_wr_spans [OF assms(5,6,7)]
    by (intro exI [of _ "rdma_wr IBV_WR_RDMA_READ None m d src_off dst_off len flags ctx"] conjI
        rpma_read_posts [OF assms(1-4)]) (simp_all add: local_sge_def signaled_iff)
qed

lemma sample_fits: "local_fits sample_mr 16 64" "remote_fits sample_remote 32 64"
  by (simp_all add: local_fits_def remote_fits_def sample_mr_def sample_ibv_mr_def sample_remote_def)

text \<open>A write transfers exactly the bytes the caller asked for, with and without immediate
  data. Under the same conditions one RDMA write is posted whose local range is the range of the
  source region and whose remote range is the range of the destination; the variant with immediate
  data carries the caller's value in network byte order.\<close>

lemma rpma_write_transfers_range:
  assumes "obj_at k (O_conn c) s" and "obj_at src (O_mr_local d) s" and "obj_at dst (O_mr_remote m) s"
    and "flags \<noteq> 0" and "local_fits d src_off len" and "remote_fits m dst_off len" and "unat len < 2 ^ 32"
  shows "\<exists>wr wri. posts E c wr s (rpma_write E k dst dst_off src src_off len flags ctx s) \<and>
     posts E c wri s (rpma_write_with_imm E k dst dst_off src src_off len flags imm ctx s) \<and>
     wr_opcode wr = IBV_WR_RDMA_WRITE \<and> wr_imm_data wr = None \<and>
     wri = wr\<lparr>wr_opcode := IBV_WR_RDMA_WRITE_WITH_IMM,
       wr_imm_data := Some [ucast (drop_bit 24 imm), ucast (drop_bit 16 imm), ucast (drop_bit 8 imm), ucast imm]\<rparr> \<and>
     remote_span wr = mr_remote_span m (unat dst_off) (unat len) \<and>
     local_span wr = mr_local_span d (unat src_off) (unat len) \<and>
     map_option snd (wr_rdma wr) = Some (mrr_rkey m) \<and>
     wr_id wr = ctx \<and> (IBV_SEND_SIGNALED \<in> wr_send_flags wr \<longleftrightarrow> bit flags 1)"
proof -
  have imm: "htonl_bytes imm = [ucast (drop_bit 24 imm), ucast (drop_bit 16 imm), ucast (drop_bit 8 imm), ucast imm]"
    by (simp add: htonl_bytes_def numeral_nat)
  show ?thesis
    using rdma_wr_spans [OF assms(5,6,7)]
    by (intro exI [of _ "rdma_wr IBV_WR_RDMA_WRITE None m d dst_off src_off len flags ctx"]
        exI [of _ "rdma_wr IBV_WR_RDMA_WRITE_WITH_IMM (Some (htonl_bytes imm)) m d dst_off src_off len flags ctx"]
        conjI rpma_write_posts [OF assms(1-4)]) (simp_all add: imm signaled_iff)
qed

lemma rpma_flush_posts:
  assumes "obj_at k (O_conn c) s" and "obj_at dst (O_mr_remote m) s"
    and "obj_at (conn_flush c) (O_flush f) s" and "obj_at (flush_context f) (O_apm a) s"
    and "obj_at (apm_raw_mr a) (O_mr_local raw) s" and "flags \<noteq> 0"
  shows "if (case type of
           RPMA_FLUSH_TYPE_PERSISTENT \<Rightarrow> conn_direct_write_to_pmem c \<and> bit (mrr_usage m) 5
         | RPMA_FLUSH_TYPE_VISIBILITY \<Rightarrow> bit (mrr_usage m) 4)
    then posts E c (rdma_wr IBV_WR_RDMA_READ None m raw dst_off 0 8 flags ctx) s
           (rpma_flush E k dst dst_off len type flags ctx s)
    else rpma_flush E k dst dst_off len type flags ctx s = Some (RPMA_E_NOSUPP, s)"
proof -
  have bits: "(u AND (RPMA_MR_USAGE_FLUSH_TYPE_PERSISTENT OR RPMA_MR_USAGE_FLUSH_TYPE_VISIBILITY))
        AND RPMA_MR_USAGE_FLUSH_TYPE_PERSISTENT = 0 \<longleftrightarrow> \<not> bit u 5"
      "(u AND (RPMA_MR_USAGE_FLUSH_TYPE_PERSISTENT OR RPMA_MR_USAGE_FLUSH_TYPE_VISIBILITY))
        AND RPMA_MR_USAGE_FLUSH_TYPE_VISIBILITY = 0 \<longleftrightarrow> \<not> bit u 4" for u
    using and_pow2_iff [of 5 u] and_pow2_iff [of 4 u] by (auto simp: usage_defs and.assoc)
  show ?thesis
    using assms
    by (cases type)
       (auto simp: rpma_flush_def rpma_mr_remote_get_flush_type_def rpma_flush_apm_do_def rpma_mr_read_def
         obj_at_nonnull posts_def ext_def Let_def RAW_SIZE_def bits)
qed

text \<open>C32: a flush is a read of the appliance kind, and only where flushing is allowed. A flush to
  persistency needs the direct-write flag of the connection (the remote peer's configuration) and
  a region registered for it, a flush to visibility needs a region registered for that; otherwise
  \<open>RPMA_E_NOSUPP\<close> is returned and nothing is posted. Otherwise one RDMA read is posted of the
  8 bytes at the start of the flushed range into the buffer of the flushing object.\<close>

theorem rpma_flush_contract:
  assumes "obj_at k (O_conn c) s" and "obj_at dst (O_mr_remote m) s"
    and "obj_at (conn_flush c) (O_flush f) s" and "obj_at (flush_context f) (O_apm a) s"
    and "obj_at (apm_raw_mr a) (O_mr_local raw) s" and "flags \<noteq> 0"
  shows "if (case type of
           RPMA_FLUSH_TYPE_PERSISTENT \<Rightarrow> conn_direct_write_to_pmem c \<and> bit (mrr_usage m) 5
         | RPMA_FLUSH_TYPE_VISIBILITY \<Rightarrow> bit (mrr_usage m) 4)
    then posts E c (rdma_wr IBV_WR_RDMA_READ None m raw dst_off 0 8 flags ctx) s
           (rpma_flush E k dst dst_off len type flags ctx s)
    else rpma_flush E k dst dst_off len type flags ctx s = Some (RPMA_E_NOSUPP, s)"
  using assms by (rule rpma_flush_posts)

theorem rpma_flush_contract_witness:
  "posts sample_env sample_conn (rdma_wr IBV_WR_RDMA_READ None sample_remote sample_mr 32 0 8 1 5) sample_st
     (rpma_flush sample_env 50 51 32 64 RPMA_FLUSH_TYPE_PERSISTENT 1 5 sample_st) \<and>
   rpma_flush sample_env 50 51 32 64 RPMA_FLUSH_TYPE_VISIBILITY 1 5 sample_st = Some (RPMA_E_NOSUPP, sample_st)"
proof -
  have f: "obj_at (conn_flush sample_conn) (O_flush \<lparr>flush_context = 46\<rparr>) sample_st"
    "obj_at (flush_context \<lparr>flush_context = 46\<rparr>) (O_apm sample_apm) sample_st"
    "obj_at (apm_raw_mr sample_apm) (O_mr_local sample_mr) sample_st" "(1::c_int) \<noteq> 0"
    by simp_all
  note fl = rpma_flush_contract [OF sample_objs(1,6) f, of _ sample_env 5 32 64]
  have "bit (mrr_usage sample_remote) 5" "\<not> bit (mrr_usage sample_remote) 4"
    by (simp_all add: sample_remote_def usage_defs)
  then show ?thesis
    using fl [of RPMA_FLUSH_TYPE_PERSISTENT] fl [of RPMA_FLUSH_TYPE_VISIBILITY] by simp
qed

abbreviation atomic_wr where
  "atomic_wr m src dst_off flags ctx \<equiv>
     \<lparr>wr_id = ctx, wr_sg_list = Some \<lparr>sge_addr = src, sge_length = 8, sge_lkey = None\<rparr>, wr_num_sge = 1,
      wr_opcode = IBV_WR_RDMA_WRITE, wr_send_flags = {IBV_SEND_INLINE, IBV_SEND_FENCE} \<union> signaled flags,
      wr_imm_data = None, wr_rdma = Some (mrr_raddr m + dst_off, mrr_rkey m)\<rparr>"

lemma rpma_atomic_write_posts:
  assumes "obj_at k (O_conn c) s" and "obj_at dst (O_mr_remote m) s" and "flags \<noteq> 0" and "src \<noteq> 0"
  shows "if 8 dvd unat dst_off
    then posts E c (atomic_wr m src dst_off flags ctx) s (rpma_atomic_write E k dst dst_off src flags ctx s)
    else rpma_atomic_write E k dst dst_off src flags ctx s = Some (RPMA_E_INVAL, s)"
proof -
  have "dst_off mod RPMA_ATOMIC_WRITE_ALIGNMENT = 0 \<longleftrightarrow> 8 dvd unat dst_off"
    by (simp add: RPMA_ATOMIC_WRITE_ALIGNMENT_def dvd_eq_mod_eq_0 unat_mod_distrib flip: unat_eq_zero)
  then show ?thesis
    using assms by (simp add: rpma_atomic_write_def rpma_mr_atomic_write_def obj_at_nonnull posts_def ext_def Let_def)
qed

text \<open>An atomic write is posted only at an aligned offset, and then as one fenced and inlined
  8-byte write of the caller's buffer to the given place of the remote region.\<close>

lemma rpma_atomic_write_contract:
  assumes "obj_at k (O_conn c) s" and "obj_at dst (O_mr_remote m) s" and "flags \<noteq> 0" and "src \<noteq> 0"
  shows "if 8 dvd unat dst_off
    then \<exists>wr. posts E c wr s (rpma_atomic_write E k dst dst_off src flags ctx s) \<and>
      wr_opcode wr = IBV_WR_RDMA_WRITE \<and> wr_rdma wr = Some (mrr_raddr m + dst_off, mrr_rkey m) \<and>
      map_option sge_addr (wr_sg_list wr) = Some src \<and> map_option sge_length (wr_sg_list wr) = Some 8 \<and>
      {IBV_SEND_INLINE, IBV_SEND_FENCE} \<subseteq> wr_send_flags wr \<and> wr_id wr = ctx \<and>
      (IBV_SEND_SIGNALED \<in> wr_send_flags wr \<longleftrightarrow> bit flags 1)
    else rpma_atomic_write E k dst dst_off src flags ctx s = Some (RPMA_E_INVAL, s)"
  using rpma_atomic_write_posts [OF assms, of dst_off E ctx]
  by (auto simp: signaled_iff intro!: exI [of _ "atomic_wr m src dst_off flags ctx"] split: if_splits)

lemma push_neq [simp]: "push c r s \<noteq> s" "s \<noteq> push c r s"
  by (metis trace_push not_Cons_self)+

abbreviation bad_transfer :: "ptr \<Rightarrow> c_int \<Rightarrow> ptr \<Rightarrow> ptr \<Rightarrow> u64 \<Rightarrow> u64 \<Rightarrow> u64 \<Rightarrow> bool" where
  "bad_transfer conn flags src dst dst_off src_off len \<equiv>
     conn = NULL \<or> flags = 0 \<or> (src = NULL) \<noteq> (dst = NULL) \<or>
     src = NULL \<and> (dst_off \<noteq> 0 \<or> src_off \<noteq> 0 \<or> len \<noteq> 0)"



end
