(* ===== verification/Conn_Req_Props.thy ===== *)
theory Conn_Req_Props
  imports Conn_Req_Life Conn_Props
begin

text \<open>
  The properties of connection requests: creation of both kinds, deletion, and the exchange of a
  request for a connection.
\<close>

subsection \<open>Updating the record of a request\<close>

lemma req_cqs_cong:
  assumes "req_cqs c CB CR RB RR s" and "req_cq c' = req_cq c" "req_rcq c' = req_rcq c"
    and keep: "\<And>q. q \<in> CB \<union> RB \<Longrightarrow> mem s' q = mem s q"
  shows "req_cqs c' CB CR RB RR s'"
  unfolding req_cqs_def assms(2,3)
proof (intro conjI)
  show "owns_cq_opt (req_cq c) CB CR s'"
    using assms(1) by - (rule owns_cq_opt_cong [of _ _ _ s], auto simp: req_cqs_def keep)
  show "owns_cq_opt (req_rcq c) RB RR s'"
    using assms(1) by - (rule owns_cq_opt_cong [of _ _ _ s], auto simp: req_cqs_def keep)
  show "RB \<inter> CB = {}" using assms(1) by (simp add: req_cqs_def)
qed

lemma owns_reqI:
  assumes "obj_at k (O_conn_req c) s" and "req_cqs c CB CR RB RR s" and "pdata_ok (req_data c) s"
    and "B = insert k (RB \<union> CB \<union> pdata_blocks (req_data c))"
    and "R = {#R_qp (req_id c)#} + RR + CR + chan_res (req_channel c)"
  shows "owns_req k c B R s"
  using assms unfolding owns_req_def by blast

lemma owns_req_upd:
  assumes own: "owns_req k c B R s" and mem: "mem s' = (mem s)(k \<mapsto> O_conn_req c')"
    and same: "req_id c' = req_id c" "req_cq c' = req_cq c" "req_rcq c' = req_rcq c"
      "req_channel c' = req_channel c" "req_data c' = req_data c"
  shows "owns_req k c' B R s'"
proof -
  from own obtain CB CR RB RR where
    o: "obj_at k (O_conn_req c) s" "req_cqs c CB CR RB RR s" "pdata_ok (req_data c) s"
    and B: "B = insert k (RB \<union> CB \<union> pdata_blocks (req_data c))"
    and R: "R = {#R_qp (req_id c)#} + RR + CR + chan_res (req_channel c)"
    by (auto simp: owns_req_def)
  note dis = owns_req_disjoint [OF o]
  have keep: "mem s' q = mem s q" if "q \<noteq> k" for q using that mem by simp
  have "obj_at k (O_conn_req c') s'" using o(1) mem by (simp add: obj_at_def)
  moreover have "req_cqs c' CB CR RB RR s'"
    using o(2) same(2,3) by (rule req_cqs_cong) (use dis in \<open>auto intro: keep\<close>)
  moreover have "pdata_ok (req_data c') s'"
    unfolding same using o(3) by (rule pdata_ok_cong, intro keep) (use dis(4) in auto)
  ultimately show ?thesis
    unfolding B R by (rule owns_reqI) (simp_all add: same)
qed

lemma owns_req_new_data:
  assumes own: "owns_req k c B R s" and none: "req_data c = no_pdata" and q: "fresh q s"
    and d: "d = \<lparr>pdata_ptr = q, pdata_len = n\<rparr>" "length bs = unat n" "bs \<noteq> []"
    and mem: "mem s' = (mem s)(q \<mapsto> O_bytes bs, k \<mapsto> O_conn_req c')" and c': "c' = c\<lparr>req_data := d, req_is_passive := b\<rparr>"
  shows "owns_req k c' (insert q B) R s'"
proof -
  from own obtain CB CR RB RR where
    o: "obj_at k (O_conn_req c) s" "req_cqs c CB CR RB RR s" "pdata_ok (req_data c) s"
    and B: "B = insert k (RB \<union> CB)" and R: "R = {#R_qp (req_id c)#} + RR + CR + chan_res (req_channel c)"
    by (auto simp: owns_req_def none)
  note dis = owns_req_disjoint [OF o]
  have qk: "q \<noteq> k" and live: "\<And>p. p \<in> RB \<union> CB \<Longrightarrow> p \<noteq> q"
    using q o(1,2) by (auto simp: fresh_def obj_at_def req_cqs_def owns_cq_opt_def owns_cq_def split: if_splits)
  have "obj_at k (O_conn_req c') s'" using o(1) mem by (simp add: obj_at_def)
  moreover have "req_cqs c' CB CR RB RR s'"
    using o(2) by (rule req_cqs_cong) (use dis live in \<open>auto simp: c' mem\<close>)
  moreover have "pdata_ok (req_data c') s'"
    using q qk mem d by (auto simp: c' pdata_ok_def obj_at_def fresh_def)
  ultimately show ?thesis
    unfolding B R
    by (rule owns_reqI) (use q in \<open>auto simp: c' d(1) pdata_blocks_def fresh_def\<close>)
qed

subsection \<open>A sample request\<close>

definition sample_req :: "bool \<Rightarrow> rpma_conn_req" where
  "sample_req passive = \<lparr>req_is_passive = passive, req_id = 40, req_cq = 42, req_rcq = 0, req_channel = 49,
     req_data = no_pdata, req_peer = 52\<rparr>"

definition sample_req_st :: "bool \<Rightarrow> st" where
  "sample_req_st passive = (heap_st [(50, O_conn_req (sample_req passive)), (42, O_cq sample_cq),
     (52, O_peer \<lparr>peer_pd = 3, peer_is_odp_supported = 0\<rparr>)])\<lparr>trace := sample_trace\<rparr>"

lemma sample_req_objs [simp]:
  "obj_at 50 (O_conn_req (sample_req passive)) (sample_req_st passive)"
  "obj_at 42 (O_cq sample_cq) (sample_req_st passive)"
  "obj_at 52 (O_peer \<lparr>peer_pd = 3, peer_is_odp_supported = 0\<rparr>) (sample_req_st passive)"
  by (simp_all add: sample_req_st_def obj_at_def CONN_CFG_DEFAULT_ADDR_def)

lemma sample_req_acct: "acct (sample_req_st passive) =
    {#R_mr 100, R_map 4096, R_evch 41, R_channel 49, R_cq 100, R_qp 40, R_id 40#}"
  and sample_req_ledger [simp]: "ledger_ok (sample_req_st passive)"
  using sample_acct sample_ledger by (simp_all add: sample_req_st_def sample_st_def acct_def ledger_ok_def)

lemma sample_req_fields [simp]:
  "req_id (sample_req b) = 40" "req_cq (sample_req b) = 42" "req_rcq (sample_req b) = 0"
  "req_channel (sample_req b) = 49" "req_data (sample_req b) = no_pdata" "req_peer (sample_req b) = 52"
  "req_is_passive (sample_req b) = b"
  by (simp_all add: sample_req_def)

lemma sample_req_owns:
  "owns_req 50 (sample_req b) {50, 42} {#R_qp 40, R_cq 100, R_channel 49#} (sample_req_st b)"
proof (rule owns_reqI)
  have "owns_cq 42 {42} {#R_cq 100#} (sample_req_st b)"
    unfolding owns_cq_def by (intro exI [of _ sample_cq]) simp
  then show "req_cqs (sample_req b) {42} {#R_cq 100#} {} {#} (sample_req_st b)"
    by (simp add: req_cqs_def owns_cq_opt_def)
qed (auto simp: chan_res_def)

subsection \<open>Deletion and connection\<close>

text \<open>C29: deleting a connection request gives back the queue pair, the completion queues, the
  shared channel, the private data and the object itself, exactly once and whatever the provider
  answers; an outgoing request also destroys its CM ID. An incoming request only rejects the
  connection: the CM ID that came with the event stays held.\<close>

theorem conn_req_delete_contract:
  assumes "owns_req k c B R s" and "ledger_ok s" and "R + {#R_id (req_id c)#} \<subseteq># acct s"
  shows "wp (rpma_conn_req_delete E (Some k) s)
     (\<lambda>(ret, out) s'. ledger_ok s' \<and> out = Some NULL \<and> ret \<in> {0, RPMA_E_PROVIDER} \<and>
        destroyed B (if req_is_passive c then R else R + {#R_id (req_id c)#}) s s' \<and>
        (req_is_passive c \<longrightarrow> R_id (req_id c) \<in># acct s'))"
proof -
  have sub: "R + req_id_res c \<subseteq># acct s"
    using assms(3) mset_sub_leftD [OF assms(3)] by (simp add: req_id_res_def)
  have "{#R_id (req_id c)#} \<subseteq># acct s - R" using assms(3) by (rule mset_sub_diffI)
  then show ?thesis
    by (intro wp_rpma_conn_req_delete [OF assms(1,2) sub]) (auto simp: req_id_res_def destroyed_def)
qed

theorem conn_req_delete_contract_witness:
  "wp (rpma_conn_req_delete sample_env (Some 50) (sample_req_st True)) (\<lambda>(ret, out) s'. ledger_ok s' \<and>
     out = Some NULL \<and> mem s' 50 = None \<and> mem s' 42 = None \<and> R_id 40 \<in># acct s' \<and> R_qp 40 \<notin># acct s')"
  by (rule wp_mono [OF conn_req_delete_contract [OF sample_req_owns sample_req_ledger]])
     (auto simp: sample_req_acct destroyed_def)

text \<open>C17: connecting exchanges the request for a connection or for nothing. In every case the
  request object is gone. On success there is a connection that owns everything the request owned,
  its CM ID and its private data included, and additionally only what is new (the connection object,
  its flushing object and event channel); nothing else has changed. On failure, wherever it
  happened, everything has been given back, for an incoming request up to its CM ID.\<close>

theorem conn_req_connect_contract:
  assumes "owns_req k c B R s" and "ledger_ok s" and "R + {#R_id (req_id c)#} \<subseteq># acct s"
    and "obj_at (req_peer c) (O_peer p) s"
    and "\<not> req_is_passive c \<Longrightarrow> req_data c = no_pdata"
    and "pdata \<noteq> None \<longrightarrow> pdata_ptr (the pdata) \<noteq> NULL \<and> pdata_len (the pdata) \<noteq> 0"
  shows "wp (rpma_conn_req_connect E (Some k) pdata (Some x) s) (\<lambda>(ret, req, conn) s'.
     ledger_ok s' \<and> req = Some NULL \<and>
     (if ret = 0
      then \<exists>k2 N NR. conn = Some k2 \<and>
        owns_conn k2 (B - {k} \<union> N) (R + {#R_id (req_id c)#} + NR) s' \<and> acct s' = acct s + NR \<and>
        (\<forall>q\<in>N. mem s q = None) \<and> mem s' k = None \<and> (\<forall>q. q \<notin> N \<and> q \<noteq> k \<longrightarrow> mem s' q = mem s q) \<and>
        (\<exists>cc. obj_at k2 (O_conn cc) s' \<and> conn_data cc = req_data c)
      else conn = Some x \<and> destroyed B (R + (if req_is_passive c then {#} else {#R_id (req_id c)#})) s s'))"
  by (rule wp_rpma_conn_req_connect [OF assms(1-6)])
     (simp_all add: connected_def req_id_res_def split: if_splits)

theorem conn_req_connect_contract_witness:
  "wp (rpma_conn_req_connect sample_env (Some 50) None (Some 0) (sample_req_st False)) (\<lambda>(ret, req, conn) s'.
     ledger_ok s' \<and> req = Some NULL \<and> mem s' 50 = None \<and>
     (ret = 0 \<longrightarrow> mem s' 42 = Some (O_cq sample_cq) \<and> R_id 40 \<in># acct s') \<and>
     (ret \<noteq> 0 \<longrightarrow> mem s' 42 = None \<and> R_id 40 \<notin># acct s'))"
  using sample_req_objs(2) [of False]
  by (intro wp_mono [OF conn_req_connect_contract [OF sample_req_owns sample_req_ledger _
        sample_req_objs(3) [of False, folded sample_req_fields(6) [of False]]]])
     (auto simp: sample_req_acct destroyed_def obj_at_def split: if_splits dest!: spec [of _ 42])

subsection \<open>Incoming requests\<close>

lemma wp_store_eq:
  "obj_at k y s \<Longrightarrow> wp (store k x s) Q = Q () (s\<lparr>mem := (mem s)(k \<mapsto> x)\<rparr>)"
  by (simp add: store_def obj_at_def)

lemma created_upd:
  "created B R s s1 \<Longrightarrow> k \<in> B \<Longrightarrow> mem s' = (mem s1)(k \<mapsto> x) \<Longrightarrow> acct s' = acct s1 \<Longrightarrow> created B R s s'"
  by (auto simp: created_def)

lemma created_insert:
  "created B R s s1 \<Longrightarrow> k \<in> B \<Longrightarrow> fresh q s1 \<Longrightarrow> mem s' = (mem s1)(q \<mapsto> y, k \<mapsto> x) \<Longrightarrow> acct s' = acct s1 \<Longrightarrow>
    created (insert q B) R s s'"
  by (auto simp: created_def fresh_def)

lemma wp_rpma_conn_req_from_cm_event:
  assumes peer: "obj_at peer (O_peer p) s" and cfg: "load_conn_cfg cfg s = Some f" "cfg \<noteq> NULL"
    and ok: "ledger_ok s" and ev: "ev_event e = RDMA_CM_EVENT_CONNECT_REQUEST" "event_wf e"
    and id: "R_id (ev_id e) \<in># acct s"
    and Q0: "\<And>k c B R s'. ledger_ok s' \<Longrightarrow> owns_req k c B R s' \<Longrightarrow> created B R s s' \<Longrightarrow> req_is_passive c \<Longrightarrow>
       req_id c = ev_id e \<Longrightarrow> req_peer c = peer \<Longrightarrow> req_cq c \<noteq> NULL \<Longrightarrow>
       pdata_bytes (req_data c) s' = event_payload e \<Longrightarrow> Q (0, Some k) s'"
    and Q1: "\<And>ret s'. ledger_ok s' \<Longrightarrow> unchanged s s' \<or> ret = RPMA_E_NOMEM \<and> event_payload e \<noteq> [] \<and>
       destroyed {} {#R_id (ev_id e)#} s s' \<Longrightarrow> ret \<noteq> 0 \<Longrightarrow> Q (ret, Some x) s'"
  shows "wp (rpma_conn_req_from_cm_event E peer (Some e) cfg (Some x) s) Q"
proof -
  have rest: "wp (do {
        c \<leftarrow> load_conn_req k s1;
        ((ret, d), s) \<leftarrow> rpma_private_data_store E e (req_data c) s1;
        (_, s) \<leftarrow> store k (O_conn_req (c\<lparr>req_data := d\<rparr>)) s;
        if ret \<noteq> 0 then do {
          (_, s) \<leftarrow> rpma_conn_req_delete E (Some k) s;
          Some ((ret, Some x), s)
        } else do {
          (_, s) \<leftarrow> store k (O_conn_req (c\<lparr>req_data := d, req_is_passive := True\<rparr>)) s;
          Some ((0, Some k), s)
        } }) Q"
    if ok1: "ledger_ok s1" and made: "req_made peer (ev_id e) s k s1" for k s1
  proof -
    from made obtain c B R where own: "owns_req k c B R s1" and cr: "created B R s s1"
      and c: "req_id c = ev_id e" "\<not> req_is_passive c" "req_data c = no_pdata" "req_peer c = peer" "req_cq c \<noteq> NULL"
      by (auto simp: req_made_def)
    from own have k: "obj_at k (O_conn_req c) s1" and kB: "k \<in> B" by (auto simp: owns_req_def)
    have kk: "k \<noteq> NULL" "k \<noteq> CONN_CFG_DEFAULT_ADDR" using k by (auto simp: obj_at_def)
    let ?d = "\<lambda>q. \<lparr>pdata_ptr = q, pdata_len = ev_private_data_len e\<rparr>"
    show ?thesis
      unfolding load_Some(8) [OF k] bind.bind_lunit wp_bind
    proof (rule wp_rpma_private_data_store [OF ok1 ev(2)], goal_cases)
      case (1 t)
      let ?c = "c\<lparr>req_data := req_data c, req_is_passive := True\<rparr>"
      let ?t = "s1\<lparr>mem := (mem s1)(k \<mapsto> O_conn_req ?c)\<rparr>"
      have "Q (0, Some k) ?t"
        by (rule Q0 [of _ k ?c B R], use ok1 in simp, rule owns_req_upd [OF own])
           (use c 1(1) created_upd [OF cr kB] in \<open>simp_all add: pdata_bytes_def deref_def\<close>)
      with 1(2) kk k show ?case by (simp add: store_def obj_at_def)
    next
      case (2 q t)
      then have qk: "q \<noteq> k" using k by (auto simp: fresh_def obj_at_def)
      let ?c = "c\<lparr>req_data := ?d q, req_is_passive := True\<rparr>"
      let ?t = "t\<lparr>mem := (mem t)(k \<mapsto> O_conn_req ?c)\<rparr>"
      have "Q (0, Some k) ?t"
        by (rule Q0 [of _ k ?c "insert q B" R], use 2(1) in simp,
            rule owns_req_new_data [OF own c(3) 2(2) refl 2(5) 2(4), of _ _ True])
           (use c 2 qk created_insert [OF cr kB 2(2)] in \<open>simp_all add: pdata_bytes_def deref_def fresh_def\<close>)
      with 2(6) kk k qk show ?case by (simp add: store_def obj_at_def)
    next
      case (3 ret t)
      let ?t = "t\<lparr>mem := (mem t)(k \<mapsto> O_conn_req (c\<lparr>req_data := req_data c\<rparr>))\<rparr>"
      have m: "mem ?t = (mem s1)(k \<mapsto> O_conn_req (c\<lparr>req_data := req_data c\<rparr>))" "acct ?t = acct s1" "ledger_ok ?t"
        using 3 by (auto simp: unchanged_def)
      have own': "owns_req k (c\<lparr>req_data := req_data c\<rparr>) B R ?t"
        by (rule owns_req_upd [OF own m(1)]) simp_all
      have cr': "created B R s ?t" by (rule created_upd [OF cr kB m(1,2)])
      have res: "req_id_res c = {#R_id (ev_id e)#}" using c by (simp add: req_id_res_def)
      have "wp (rpma_conn_req_delete E (Some k) ?t) (\<lambda>_ t. Q (ret, Some x) t)"
      proof (rule wp_rpma_conn_req_delete [OF own' m(3)])
        show "R + req_id_res (c\<lparr>req_data := req_data c\<rparr>) \<subseteq># acct ?t"
          using cr' id by (simp add: res created_def)
        fix t'
        assume "ledger_ok t'" "destroyed B (R + req_id_res (c\<lparr>req_data := req_data c\<rparr>)) ?t t'"
        with cr' 3 show "Q (ret, Some x) t'"
          by (intro Q1) (auto simp: res destroyed_def created_def fun_eq_iff)
      qed
      with 3 kk k show ?case by (simp add: store_def obj_at_def unchanged_def)
    qed
  qed
  have "peer \<noteq> NULL" by (rule obj_at_nonnull [OF peer])
  with ev have guard: "(peer = NULL \<or> Some e = None \<or> ev_event e \<noteq> RDMA_CM_EVENT_CONNECT_REQUEST \<or>
      Some x = None) = False" by simp
  show ?thesis
    unfolding rpma_conn_req_from_cm_event_def option.sel guard if_False wp_bind
  proof (rule wp_rpma_conn_req_from_id [OF peer cfg ok], goal_cases)
    case (1 k s')
    from rest [OF 1] show ?case by (simp only: prod.case simp_thms if_False)
  next
    case (2 ret y s')
    then show ?case using Q1 by simp
  qed
qed

text \<open>A request made from a connect-request event is complete or absent. On success it is a
  new passive request around the CM ID of the event that owns a copy of the private data the event
  carries. On failure the caller's pointer is untouched and everything made on the way has been
  released; when storing the private data is what failed the CM ID of the event is destroyed as
  well, because the request is not yet marked as passive when it is deleted.\<close>

lemma conn_req_from_cm_event_contract:
  assumes "obj_at peer (O_peer p) s" and "load_conn_cfg cfg s = Some f" and "cfg \<noteq> NULL"
    and "ledger_ok s" and "ev_event e = RDMA_CM_EVENT_CONNECT_REQUEST" and "event_wf e"
    and "R_id (ev_id e) \<in># acct s"
  shows "wp (rpma_conn_req_from_cm_event E peer (Some e) cfg (Some x) s) (\<lambda>(ret, out) s'. ledger_ok s' \<and>
     (if ret = 0
      then \<exists>k c B R. out = Some k \<and> owns_req k c B R s' \<and> created B R s s' \<and> req_is_passive c \<and>
        req_id c = ev_id e \<and> req_peer c = peer \<and> req_cq c \<noteq> NULL \<and> pdata_bytes (req_data c) s' = event_payload e
      else out = Some x \<and> (unchanged s s' \<or>
        ret = RPMA_E_NOMEM \<and> event_payload e \<noteq> [] \<and> destroyed {} {#R_id (ev_id e)#} s s')))"
  by (rule wp_rpma_conn_req_from_cm_event [OF assms]) auto

subsection \<open>Outgoing requests\<close>

text \<open>Since \<open>s\<close> the address information \<open>a\<close> and the CM ID \<open>i\<close> have been acquired.\<close>

definition new_ctx :: "ptr \<Rightarrow> rpma_info \<Rightarrow> res multiset \<Rightarrow> st \<Rightarrow> st \<Rightarrow> bool" where
  "new_ctx a ai R s t \<longleftrightarrow> ledger_ok t \<and> fresh a s \<and> mem t = (mem s)(a \<mapsto> O_info ai) \<and>
     acct t = acct s + info_res ai + R"

lemma new_ctx_push:
  assumes "new_ctx a ai R s t" and "releases cl = {#}"
  shows "new_ctx a ai (R + acquires cl r) s (push cl r t)"
  using assms by (auto simp: new_ctx_def)

lemma new_ctx_obj: "new_ctx a ai R s t \<Longrightarrow> obj_at a (O_info ai) t"
  and new_ctx_ledger: "new_ctx a ai R s t \<Longrightarrow> ledger_ok t"
  and new_ctx_keep: "new_ctx a ai R s t \<Longrightarrow> obj_at p x s \<Longrightarrow> obj_at p x t"
  and new_ctx_cfg: "new_ctx a ai R s t \<Longrightarrow> load_conn_cfg p s = Some f \<Longrightarrow> load_conn_cfg p t = Some f"
  by (auto simp: new_ctx_def obj_at_def fresh_def load_conn_cfg_def deref_def split: if_splits)

lemma wp_req_new_err_info_delete:
  assumes c: "new_ctx a ai {#} s t" and Q: "\<And>s'. ledger_ok s' \<Longrightarrow> unchanged s s' \<Longrightarrow> Q () s'"
  shows "wp (req_new_err_info_delete E a t) Q"
  unfolding req_new_err_info_delete_def
  by (auto intro!: wp_rpma_info_delete [OF new_ctx_obj [OF c] new_ctx_ledger [OF c]] Q)
     (use c in \<open>auto simp: new_ctx_def unchanged_def fresh_def\<close>)

lemma wp_req_new_err_destroy_id:
  assumes c: "new_ctx a ai {#R_id i#} s t" and Q: "\<And>s'. ledger_ok s' \<Longrightarrow> unchanged s s' \<Longrightarrow> Q () s'"
  shows "wp (req_new_err_destroy_id E i a t) Q"
  unfolding req_new_err_destroy_id_def wp_bind
proof (rule wp_ext)
  fix r
  show "wp (req_new_err_info_delete E a (push (Rdma_destroy_id i) r t)) Q"
    by (rule wp_req_new_err_info_delete [where s = s and ai = ai]) (use c Q in \<open>auto simp: new_ctx_def\<close>)
qed

lemma wp_req_new_success:
  assumes c: "new_ctx a ai {#R_id i#} s t" and made: "req_made peer i t k t'" and ok: "ledger_ok t'"
    and Q: "\<And>c B R s'. ledger_ok s' \<Longrightarrow> owns_req k c B R s' \<Longrightarrow> created B (R + {#R_id i#}) s s' \<Longrightarrow>
       req_id c = i \<Longrightarrow> \<not> req_is_passive c \<Longrightarrow> req_data c = no_pdata \<Longrightarrow> req_peer c = peer \<Longrightarrow> req_cq c \<noteq> NULL \<Longrightarrow> Q s'"
  shows "wp (rpma_info_delete E (Some a) t') (\<lambda>_ s'. Q s')"
proof -
  from made obtain c' B R where own: "owns_req k c' B R t'" and cr: "created B R t t'"
    and c': "req_id c' = i" "\<not> req_is_passive c'" "req_data c' = no_pdata" "req_peer c' = peer" "req_cq c' \<noteq> NULL"
    by (auto simp: req_made_def)
  have aB: "a \<notin> B" using cr c by (auto simp: created_def new_ctx_def)
  have a: "obj_at a (O_info ai) t'" by (rule created_obj_at [OF cr new_ctx_obj [OF c]])
  from own obtain CB CR RB RR where
    o: "obj_at k (O_conn_req c') t'" "req_cqs c' CB CR RB RR t'" "pdata_ok (req_data c') t'"
    and B: "B = insert k (RB \<union> CB \<union> pdata_blocks (req_data c'))"
    and R: "R = {#R_qp (req_id c')#} + RR + CR + chan_res (req_channel c')"
    by (auto simp: owns_req_def)
  show ?thesis
  proof (rule wp_rpma_info_delete [OF a ok])
    show "info_res ai \<subseteq># acct t'" using cr c by (simp add: created_def new_ctx_def)
    fix s'
    assume s': "ledger_ok s'" "mem s' = (mem t')(a := None)" "acct s' = acct t' - info_res ai"
    have "owns_req k c' B R s'"
    proof (rule owns_reqI [OF _ _ _ B R])
      show "obj_at k (O_conn_req c') s'" using o(1) s'(2) aB B by (auto simp: obj_at_def)
      show "req_cqs c' CB CR RB RR s'"
        using o(2) refl refl by (rule req_cqs_cong) (use s'(2) aB B in auto)
      show "pdata_ok (req_data c') s'" using o(3) by (rule pdata_ok_cong) (use s'(2) aB B in auto)
    qed
    moreover have "created B (R + {#R_id i#}) s s'"
      using cr c s' by (auto simp: created_def new_ctx_def fresh_def split: if_splits)
    ultimately show "Q s'" using c' s'(1) by (intro Q)
  qed
qed

definition req_new_post :: "ptr \<Rightarrow> ptr \<Rightarrow> st \<Rightarrow> rc \<Rightarrow> ptr option \<Rightarrow> st \<Rightarrow> bool" where
  "req_new_post peer x s ret out s' \<longleftrightarrow> ledger_ok s' \<and>
     (if ret = 0
      then \<exists>k c B R. out = Some k \<and> owns_req k c B R s' \<and> created B (R + {#R_id (req_id c)#}) s s' \<and>
        \<not> req_is_passive c \<and> req_data c = no_pdata \<and> req_peer c = peer \<and> req_cq c \<noteq> NULL
      else out = Some x \<and> unchanged s s')"

lemma conn_req_new_spec:
  assumes "obj_at peer (O_peer p) s" and "cfg \<noteq> NULL \<Longrightarrow> load_conn_cfg cfg s = Some f" and "ledger_ok s"
  shows "wp (rpma_conn_req_new E peer (Some addr) (Some port) cfg (Some x) s)
     (\<lambda>(ret, out) s'. req_new_post peer x s ret out s')"
proof -
  define d where "d = (if cfg = NULL then rpma_conn_cfg_default else cfg)"
  let ?P = "req_new_post peer x s"
  have "CONN_CFG_DEFAULT_ADDR \<noteq> NULL" by (simp add: CONN_CFG_DEFAULT_ADDR_def)
  then obtain g where cfg: "load_conn_cfg d s = Some g" "d \<noteq> NULL"
    using assms(2) by (cases "cfg = NULL") (auto simp: d_def rpma_conn_cfg_default_def)
  have peer: "peer \<noteq> NULL" by (rule obj_at_nonnull [OF assms(1)])
  have P1: "?P ret (Some x) t" if "ledger_ok t \<and> unchanged s t \<and> ret \<noteq> 0" for ret t
    using that by (simp add: req_new_post_def)
  have e1: "wp (req_new_err_info_delete E a t) (\<lambda>_ t. ?P ret (Some x) t)"
    if "new_ctx a ai {#} s t \<and> ret \<noteq> 0" for a ai t ret
    by (rule wp_req_new_err_info_delete [where s = s and ai = ai]) (use that P1 in auto)
  have e2: "wp (req_new_err_destroy_id E i a t) (\<lambda>_ t. ?P ret (Some x) t)"
    if "new_ctx a ai {#R_id i#} s t \<and> ret \<noteq> 0" for a ai i t ret
    by (rule wp_req_new_err_destroy_id [where s = s and ai = ai]) (use that P1 in auto)
  have e3: "wp (rpma_info_delete E (Some a) t') (\<lambda>_ t. ?P 0 (Some k) t)"
    if "new_ctx a ai {#R_id i#} s t" "req_made peer i t k t'" "ledger_ok t'" for a ai i t t' k
    by (rule wp_req_new_success [OF that]) (auto simp: req_new_post_def)
  have id: "wp (rpma_conn_req_from_id E peer i d NULL t) (\<lambda>(ret, req) t.
      (ret \<noteq> 0 \<longrightarrow> wp (req_new_err_destroy_id E i a t) (\<lambda>_ t. ?P ret (Some x) t)) \<and>
      (ret = 0 \<longrightarrow> wp (rpma_info_delete E (Some a) t) (\<lambda>_ t. ?P 0 (Some req) t)))"
    if c: "new_ctx a ai {#R_id i#} s t" for a ai i t
  proof (rule wp_rpma_conn_req_from_id [OF new_ctx_keep [OF c assms(1)] new_ctx_cfg [OF c cfg(1)] cfg(2)
        new_ctx_ledger [OF c]], goal_cases)
    case (1 k t')
    then show ?case using e3 [OF c] by simp
  next
    case (2 ret req t')
    then have "new_ctx a ai {#R_id i#} s t'" using c by (auto simp: new_ctx_def unchanged_def)
    with 2 e2 show ?case by simp
  qed
  have route: "wp (ext E (Rdma_resolve_route i tm) t) (\<lambda>r t.
      (rint r \<noteq> 0 \<longrightarrow> wp (req_new_err_destroy_id E i a t) (\<lambda>_ t. ?P RPMA_E_PROVIDER (Some x) t)) \<and>
      (rint r = 0 \<longrightarrow> (\<exists>ai. new_ctx a ai {#R_id i#} s t)))"
    if c: "new_ctx a ai {#R_id i#} s t" for a ai i t tm
  proof (rule wp_ext, intro conjI impI)
    fix r
    have n: "new_ctx a ai {#R_id i#} s (push (Rdma_resolve_route i tm) r t)"
      using new_ctx_push [OF c, of "Rdma_resolve_route i tm" r] by simp
    show "wp (req_new_err_destroy_id E i a (push (Rdma_resolve_route i tm) r t)) (\<lambda>_ t. ?P RPMA_E_PROVIDER (Some x) t)"
      by (rule e2) (use n in simp)
    show "\<exists>ai. new_ctx a ai {#R_id i#} s (push (Rdma_resolve_route i tm) r t)" using n by blast
  qed
  have same: "new_ctx a ai R s t'" if "new_ctx a ai R s t" "ledger_ok t'" "mem t' = mem t" "acct t' = acct t" for a ai R t t'
    using that by (simp add: new_ctx_def)
  have addr: "wp (rpma_info_resolve_addr E a i tm t) (\<lambda>ret t.
      (ret \<noteq> 0 \<longrightarrow> wp (req_new_err_destroy_id E i a t) (\<lambda>_ t. ?P ret (Some x) t)) \<and>
      (ret = 0 \<longrightarrow> (\<exists>ai. new_ctx a ai {#R_id i#} s t)))"
    if c: "new_ctx a ai {#R_id i#} s t" for a ai i t tm
    by (rule wp_rpma_info_resolve_addr [OF new_ctx_obj [OF c] new_ctx_ledger [OF c]])
       (use same [OF c] in \<open>blast intro: e2\<close>)
  have create: "wp (ext E (Rdma_create_id NULL) t) (\<lambda>r t.
      (rint r \<noteq> 0 \<longrightarrow> wp (req_new_err_info_delete E a t) (\<lambda>_ t. ?P RPMA_E_PROVIDER (Some x) t)) \<and>
      (rint r = 0 \<longrightarrow> (\<exists>ai. new_ctx a ai {#R_id (rptr r)#} s t)))"
    if c: "new_ctx a ai {#} s t" for a ai t
  proof (rule wp_ext, intro conjI impI)
    fix r
    show "wp (req_new_err_info_delete E a (push (Rdma_create_id NULL) r t)) (\<lambda>_ t. ?P RPMA_E_PROVIDER (Some x) t)"
      if "rint r \<noteq> 0"
      by (rule e1) (use that new_ctx_push [OF c, of "Rdma_create_id NULL" r] in simp)
    show "\<exists>ai. new_ctx a ai {#R_id (rptr r)#} s (push (Rdma_create_id NULL) r t)" if "rint r = 0"
      using that new_ctx_push [OF c, of "Rdma_create_id NULL" r] by auto
  qed
  have info: "wp (rpma_info_new E (Some addr) (Some port) RPMA_INFO_ACTIVE (Some NULL) s) (\<lambda>(ret, a) t.
      (ret \<noteq> 0 \<longrightarrow> ?P ret (Some x) t) \<and> (ret = 0 \<longrightarrow> (\<exists>ai. new_ctx (the a) ai {#} s t)))"
    by (rule wp_rpma_info_new [OF assms(3)]) (auto simp: new_ctx_def unchanged_def intro!: P1)
  show ?thesis
    unfolding rpma_conn_req_new_def Let_def d_def [symmetric]
    using peer cfg
    by (auto simp: timeout.get_ok intro!: wp_mono [OF info] wp_mono [OF create] wp_mono [OF addr]
        wp_mono [OF route] wp_mono [OF id])
qed

text \<open>C28: an outgoing request is made completely or not at all. On success there is a new
  request object with its queue pair and queues and with a CM ID of its own, marked as active and
  without private data, and the temporary address information has been released; otherwise memory
  and the ledger are as before.\<close>

theorem conn_req_new_all_or_nothing:
  assumes "obj_at peer (O_peer p) s" and "cfg \<noteq> NULL \<Longrightarrow> load_conn_cfg cfg s = Some f" and "ledger_ok s"
  shows "wp (rpma_conn_req_new E peer (Some addr) (Some port) cfg (Some x) s)
     (\<lambda>(ret, out) s'. req_new_post peer x s ret out s')"
  using assms by (rule conn_req_new_spec)

theorem conn_req_new_all_or_nothing_witness:
  "wp (rpma_conn_req_new sample_env 52 (Some ''host'') (Some ''7204'') NULL (Some 0) (sample_req_st True))
     (\<lambda>(ret, out) s'. req_new_post 52 0 (sample_req_st True) ret out s')"
  by (rule conn_req_new_all_or_nothing [OF sample_req_objs(3)]) simp_all

end
