(* ===== verification/Typing.thy ===== *)
theory Typing
  imports Conn_Req_Props Conn_Props Peer_Cfg Conn_Cfg
begin

text \<open>
  The structures of the library are opaque to its clients: a client holds pointers and passes them to the functions of the
  type they belong to. Here the heap is given types: the kind of structure at an address, and the kinds of the structures that a structure
  refers to. Calls with arguments of the right type are defined, keep all types and leave the heap well typed, so that any
  sequence of them runs. The calls are those that neither create nor destroy a structure.
\<close>

subsection \<open>Types\<close>

datatype kind = K_uninit | K_peer | K_mr_local | K_mr_remote | K_cq | K_apm | K_flush | K_conn | K_conn_req | K_ep | K_info
  | K_conn_cfg | K_peer_cfg | K_bytes

primrec kind_of :: "obj \<Rightarrow> kind" where
  "kind_of O_uninit = K_uninit"
| "kind_of (O_peer x) = K_peer"
| "kind_of (O_mr_local x) = K_mr_local"
| "kind_of (O_mr_remote x) = K_mr_remote"
| "kind_of (O_cq x) = K_cq"
| "kind_of (O_apm x) = K_apm"
| "kind_of (O_flush x) = K_flush"
| "kind_of (O_conn x) = K_conn"
| "kind_of (O_conn_req x) = K_conn_req"
| "kind_of (O_ep x) = K_ep"
| "kind_of (O_info x) = K_info"
| "kind_of (O_conn_cfg x) = K_conn_cfg"
| "kind_of (O_peer_cfg x) = K_peer_cfg"
| "kind_of (O_bytes x) = K_bytes"

definition has_kind :: "st \<Rightarrow> ptr \<Rightarrow> kind \<Rightarrow> bool" where
  "has_kind s p k \<longleftrightarrow> (\<exists>x. obj_at p x s \<and> kind_of x = k)"

definition null_or :: "st \<Rightarrow> ptr \<Rightarrow> kind \<Rightarrow> bool" where
  "null_or s p k \<longleftrightarrow> p = NULL \<or> has_kind s p k"

fun refs_typed :: "st \<Rightarrow> obj \<Rightarrow> bool" where
  "refs_typed s (O_apm a) = has_kind s (apm_raw_mr a) K_mr_local"
| "refs_typed s (O_flush f) = has_kind s (flush_context f) K_apm"
| "refs_typed s (O_conn c) = (null_or s (conn_cq c) K_cq \<and> null_or s (conn_rcq c) K_cq \<and> has_kind s (conn_flush c) K_flush \<and>
     null_or s (pdata_ptr (conn_data c)) K_bytes)"
| "refs_typed s (O_conn_req c) = (null_or s (req_cq c) K_cq \<and> null_or s (req_rcq c) K_cq \<and> null_or s (pdata_ptr (req_data c)) K_bytes)"
| "refs_typed s (O_ep e) = has_kind s (ep_peer e) K_peer"
| "refs_typed s x = True"

definition well_typed :: "st \<Rightarrow> bool" where
  "well_typed s \<longleftrightarrow> (\<forall>p x. obj_at p x s \<longrightarrow> refs_typed s x)"

definition same_types :: "st \<Rightarrow> st \<Rightarrow> bool" where
  "same_types s s' \<longleftrightarrow> (\<forall>p k. has_kind s' p k = has_kind s p k)"

subsection \<open>Calls\<close>

datatype api_call =
    Api_read ptr ptr u64 ptr u64 u64 c_int u64
  | Api_write ptr ptr u64 ptr u64 u64 c_int u64
  | Api_write_with_imm ptr ptr u64 ptr u64 u64 c_int u32 u64
  | Api_atomic_write ptr ptr u64 u64 c_int u64
  | Api_flush ptr ptr u64 u64 rpma_flush_type c_int u64
  | Api_send ptr ptr u64 u64 c_int u64
  | Api_send_with_imm ptr ptr u64 u64 c_int u32 u64
  | Api_recv ptr ptr u64 u64 u64
  | Api_req_recv ptr ptr u64 u64 u64
  | Api_wait ptr int "ptr option" "bool option"
  | Api_disconnect ptr
  | Api_apply_remote_peer_cfg ptr ptr
  | Api_cq_wait ptr
  | Api_cq_get_wc ptr int "ibv_wc list option" "int option"
  | Api_mr_advise ptr u64 u64 int u32
  | Api_set_direct_write ptr bool
  | Api_set_timeout ptr int
  | Api_set_cq_size ptr u32
  | Api_set_rcq_size ptr u32
  | Api_set_sq_size ptr u32
  | Api_set_rq_size ptr u32
  | Api_set_compl_channel ptr bool

definition only_rc :: "((rc \<times> 'a) \<times> st) option \<Rightarrow> (rc \<times> st) option" where
  "only_rc m = map_option (\<lambda>((ret, _), s). (ret, s)) m"

fun run_call :: "env \<Rightarrow> api_call \<Rightarrow> st \<Rightarrow> (rc \<times> st) option" where
  "run_call E (Api_read c d doff r roff len flags ctx) s = rpma_read E c d doff r roff len flags ctx s"
| "run_call E (Api_write c r roff d doff len flags ctx) s = rpma_write E c r roff d doff len flags ctx s"
| "run_call E (Api_write_with_imm c r roff d doff len flags imm ctx) s = rpma_write_with_imm E c r roff d doff len flags imm ctx s"
| "run_call E (Api_atomic_write c r roff src flags ctx) s = rpma_atomic_write E c r roff src flags ctx s"
| "run_call E (Api_flush c r roff len ty flags ctx) s = rpma_flush E c r roff len ty flags ctx s"
| "run_call E (Api_send c d off len flags ctx) s = rpma_send E c d off len flags ctx s"
| "run_call E (Api_send_with_imm c d off len flags imm ctx) s = rpma_send_with_imm E c d off len flags imm ctx s"
| "run_call E (Api_recv c d off len ctx) s = rpma_recv E c d off len ctx s"
| "run_call E (Api_req_recv q d off len ctx) s = rpma_conn_req_recv E q d off len ctx s"
| "run_call E (Api_wait c flags q b) s = only_rc (rpma_conn_wait E c flags q b s)"
| "run_call E (Api_disconnect c) s = rpma_conn_disconnect E c s"
| "run_call E (Api_apply_remote_peer_cfg c p) s = rpma_conn_apply_remote_peer_cfg c p s"
| "run_call E (Api_cq_wait q) s = rpma_cq_wait E q s"
| "run_call E (Api_cq_get_wc q n wcs got) s = only_rc (rpma_cq_get_wc E q n wcs got s)"
| "run_call E (Api_mr_advise d off len advice flags) s = rpma_mr_advise E d off len advice flags s"
| "run_call E (Api_set_direct_write p v) s = rpma_peer_cfg_set_direct_write_to_pmem p v s"
| "run_call E (Api_set_timeout f n) s = rpma_conn_cfg_set_timeout f n s"
| "run_call E (Api_set_cq_size f n) s = rpma_conn_cfg_set_cq_size f n s"
| "run_call E (Api_set_rcq_size f n) s = rpma_conn_cfg_set_rcq_size f n s"
| "run_call E (Api_set_sq_size f n) s = rpma_conn_cfg_set_sq_size f n s"
| "run_call E (Api_set_rq_size f n) s = rpma_conn_cfg_set_rq_size f n s"
| "run_call E (Api_set_compl_channel f b) s = rpma_conn_cfg_set_compl_channel f b s"

text \<open>The types of the arguments, as the header declares them. Where the manual says that an argument must not be \<open>NULL\<close> the functions check it, except
  for \<open>rpma_mr_advise\<close>.\<close>

fun call_typed :: "st \<Rightarrow> api_call \<Rightarrow> bool" where
  "call_typed s (Api_read c d doff r roff len flags ctx) = (null_or s c K_conn \<and> null_or s d K_mr_local \<and> null_or s r K_mr_remote)"
| "call_typed s (Api_write c r roff d doff len flags ctx) = (null_or s c K_conn \<and> null_or s d K_mr_local \<and> null_or s r K_mr_remote)"
| "call_typed s (Api_write_with_imm c r roff d doff len flags imm ctx) = (null_or s c K_conn \<and> null_or s d K_mr_local \<and> null_or s r K_mr_remote)"
| "call_typed s (Api_atomic_write c r roff src flags ctx) = (null_or s c K_conn \<and> null_or s r K_mr_remote)"
| "call_typed s (Api_flush c r roff len ty flags ctx) = (null_or s c K_conn \<and> null_or s r K_mr_remote)"
| "call_typed s (Api_send c d off len flags ctx) = (null_or s c K_conn \<and> null_or s d K_mr_local)"
| "call_typed s (Api_send_with_imm c d off len flags imm ctx) = (null_or s c K_conn \<and> null_or s d K_mr_local)"
| "call_typed s (Api_recv c d off len ctx) = (null_or s c K_conn \<and> null_or s d K_mr_local)"
| "call_typed s (Api_req_recv q d off len ctx) = (null_or s q K_conn_req \<and> null_or s d K_mr_local)"
| "call_typed s (Api_wait c flags q b) = null_or s c K_conn"
| "call_typed s (Api_disconnect c) = null_or s c K_conn"
| "call_typed s (Api_apply_remote_peer_cfg c p) = (null_or s c K_conn \<and> null_or s p K_peer_cfg)"
| "call_typed s (Api_cq_wait q) = null_or s q K_cq"
| "call_typed s (Api_cq_get_wc q n wcs got) = null_or s q K_cq"
| "call_typed s (Api_mr_advise d off len advice flags) = has_kind s d K_mr_local"
| "call_typed s (Api_set_direct_write p v) = null_or s p K_peer_cfg"
| "call_typed s (Api_set_timeout f n) = null_or s f K_conn_cfg"
| "call_typed s (Api_set_cq_size f n) = null_or s f K_conn_cfg"
| "call_typed s (Api_set_rcq_size f n) = null_or s f K_conn_cfg"
| "call_typed s (Api_set_sq_size f n) = null_or s f K_conn_cfg"
| "call_typed s (Api_set_rq_size f n) = null_or s f K_conn_cfg"
| "call_typed s (Api_set_compl_channel f b) = null_or s f K_conn_cfg"

primrec run_calls :: "env \<Rightarrow> api_call list \<Rightarrow> st \<Rightarrow> (rc list \<times> st) option" where
  "run_calls E [] s = Some ([], s)"
| "run_calls E (c # cs) s = do {
     (ret, s) \<leftarrow> run_call E c s;
     (rets, s) \<leftarrow> run_calls E cs s;
     Some (ret # rets, s)
   }"

subsection \<open>Typed calls are defined\<close>

lemma kind_objs:
  "kind_of x = K_peer \<longleftrightarrow> (\<exists>y. x = O_peer y)" "kind_of x = K_mr_local \<longleftrightarrow> (\<exists>y. x = O_mr_local y)"
  "kind_of x = K_mr_remote \<longleftrightarrow> (\<exists>y. x = O_mr_remote y)" "kind_of x = K_cq \<longleftrightarrow> (\<exists>y. x = O_cq y)"
  "kind_of x = K_apm \<longleftrightarrow> (\<exists>y. x = O_apm y)" "kind_of x = K_flush \<longleftrightarrow> (\<exists>y. x = O_flush y)"
  "kind_of x = K_conn \<longleftrightarrow> (\<exists>y. x = O_conn y)" "kind_of x = K_conn_req \<longleftrightarrow> (\<exists>y. x = O_conn_req y)"
  "kind_of x = K_conn_cfg \<longleftrightarrow> (\<exists>y. x = O_conn_cfg y)" "kind_of x = K_peer_cfg \<longleftrightarrow> (\<exists>y. x = O_peer_cfg y)"
  by (cases x; simp)+

lemma has_kind_objs:
  "has_kind s p K_mr_local \<longleftrightarrow> (\<exists>y. obj_at p (O_mr_local y) s)" "has_kind s p K_mr_remote \<longleftrightarrow> (\<exists>y. obj_at p (O_mr_remote y) s)"
  "has_kind s p K_cq \<longleftrightarrow> (\<exists>y. obj_at p (O_cq y) s)" "has_kind s p K_apm \<longleftrightarrow> (\<exists>y. obj_at p (O_apm y) s)"
  "has_kind s p K_flush \<longleftrightarrow> (\<exists>y. obj_at p (O_flush y) s)" "has_kind s p K_conn \<longleftrightarrow> (\<exists>y. obj_at p (O_conn y) s)"
  "has_kind s p K_conn_req \<longleftrightarrow> (\<exists>y. obj_at p (O_conn_req y) s)" "has_kind s p K_conn_cfg \<longleftrightarrow> (\<exists>y. obj_at p (O_conn_cfg y) s)"
  "has_kind s p K_peer_cfg \<longleftrightarrow> (\<exists>y. obj_at p (O_peer_cfg y) s)"
  by (auto simp: has_kind_def kind_objs)

lemma refs_typed_same: "same_types s s' \<Longrightarrow> refs_typed s' x = refs_typed s x"
  by (cases x) (simp_all add: same_types_def null_or_def)

lemma same_types_mem: "mem s' = mem s \<Longrightarrow> same_types s s'"
  by (simp add: same_types_def has_kind_def obj_at_def)

definition kept :: "st \<Rightarrow> st \<Rightarrow> bool" where
  "kept s s' \<longleftrightarrow> same_types s s' \<and> (well_typed s \<longrightarrow> well_typed s')"

lemma kept_mem: "mem s' = mem s \<Longrightarrow> kept s s'"
proof -
  assume m: "mem s' = mem s"
  then have "obj_at p x s' = obj_at p x s" for p x by (simp add: obj_at_def)
  with refs_typed_same [OF same_types_mem [OF m]] same_types_mem [OF m] show ?thesis by (simp add: kept_def well_typed_def)
qed

lemma kept_store:
  assumes x: "obj_at p x s" and k: "kind_of y = kind_of x" and r: "refs_typed s x \<Longrightarrow> refs_typed s y"
  shows "kept s (s\<lparr>mem := (mem s)(p \<mapsto> y)\<rparr>)" (is "kept s ?t")
proof -
  have st: "same_types s ?t" using x k by (auto simp: same_types_def has_kind_def obj_at_def)
  have "refs_typed ?t z" if "well_typed s" "obj_at q z ?t" for q z
    using that x r unfolding refs_typed_same [OF st] by (cases "q = p") (auto simp: well_typed_def obj_at_def)
  with st show ?thesis by (auto simp: kept_def well_typed_def)
qed

lemma kept_trans: "kept s t \<Longrightarrow> kept t u \<Longrightarrow> kept s u"
  by (auto simp: kept_def same_types_def)

lemma wp_only_rc [simp]: "wp (only_rc m) Q = wp m (\<lambda>r. Q (fst r))"
  by (auto simp: only_rc_def wp_def split: option.splits)

named_theorems typed_calls

text \<open>Work requests and waiting leave the heap as it is.\<close>

lemma typed_rdma [typed_calls]:
  assumes "null_or s c K_conn" and "null_or s d K_mr_local" and "null_or s r K_mr_remote"
  shows "wp (rpma_read E c d doff r roff len flags ctx s) (\<lambda>_. kept s)"
    and "wp (rpma_write E c r roff d doff len flags ctx s) (\<lambda>_. kept s)"
    and "wp (rpma_write_with_imm E c r roff d doff len flags imm ctx s) (\<lambda>_. kept s)"
  using assms
  by (auto simp: null_or_def has_kind_objs rpma_read_def rpma_mr_read_def rpma_write_def rpma_write_with_imm_def rpma_mr_write_def
      Let_def obj_at_nonnull intro!: wp_ext kept_mem)

lemma typed_messages [typed_calls]:
  assumes "null_or s c K_conn" and "null_or s d K_mr_local"
  shows "wp (rpma_send E c d off len flags ctx s) (\<lambda>_. kept s)"
    and "wp (rpma_send_with_imm E c d off len flags imm ctx s) (\<lambda>_. kept s)"
    and "wp (rpma_recv E c d off len ctx s) (\<lambda>_. kept s)"
  using assms
  by (auto simp: null_or_def has_kind_objs rpma_send_def rpma_send_with_imm_def rpma_mr_send_def rpma_recv_def rpma_mr_recv_def
      Let_def obj_at_nonnull intro!: wp_ext kept_mem)

lemma typed_atomic_write [typed_calls]:
  assumes "null_or s c K_conn" and "null_or s r K_mr_remote"
  shows "wp (rpma_atomic_write E c r roff src flags ctx s) (\<lambda>_. kept s)"
  using assms
  by (auto simp: null_or_def has_kind_objs rpma_atomic_write_def rpma_mr_atomic_write_def Let_def obj_at_nonnull intro!: wp_ext kept_mem)

lemma typed_flush [typed_calls]:
  assumes t: "well_typed s" and c: "null_or s c K_conn" and r: "null_or s r K_mr_remote"
  shows "wp (rpma_flush E c r roff len ty flags ctx s) (\<lambda>_. kept s)"
proof (cases "c = NULL \<or> r = NULL")
  case True
  then show ?thesis by (auto simp: rpma_flush_def intro!: kept_mem)
next
  case False
  with c r obtain x y where o: "obj_at c (O_conn x) s" "obj_at r (O_mr_remote y) s" by (auto simp: null_or_def has_kind_objs)
  have refs: "refs_typed s z" if "obj_at p z s" for p z using t that unfolding well_typed_def by blast
  from refs [OF o(1)] obtain f where f: "obj_at (conn_flush x) (O_flush f) s" by (auto simp: has_kind_objs)
  from refs [OF f] obtain a where a: "obj_at (flush_context f) (O_apm a) s" by (auto simp: has_kind_objs)
  from refs [OF a] obtain m where "obj_at (apm_raw_mr a) (O_mr_local m) s" by (auto simp: has_kind_objs)
  with o f a show ?thesis
    by (auto simp: rpma_flush_def rpma_mr_remote_get_flush_type_def rpma_flush_apm_do_def rpma_mr_read_def obj_at_nonnull Let_def
        intro!: wp_ext kept_mem)
qed

lemma typed_waits [typed_calls]:
  assumes "null_or s q K_cq"
  shows "wp (rpma_cq_wait E q s) (\<lambda>_. kept s)" and "wp (rpma_cq_get_wc E q n wcs got s) (\<lambda>_. kept s)"
  using assms
  by (auto simp: null_or_def has_kind_objs rpma_cq_wait_def rpma_cq_get_wc_def Let_def obj_at_nonnull intro!: wp_ext kept_mem)

lemma typed_conn_wait [typed_calls]:
  assumes t: "well_typed s" and c: "null_or s c K_conn"
  shows "wp (rpma_conn_wait E c flags q b s) (\<lambda>_. kept s)"
proof (cases "c = NULL")
  case True
  then show ?thesis by (auto simp: rpma_conn_wait_def intro!: kept_mem)
next
  case False
  with c obtain x where o: "obj_at c (O_conn x) s" by (auto simp: null_or_def has_kind_objs)
  with t have "refs_typed s (O_conn x)" unfolding well_typed_def by blast
  then have q: "conn_cq x = NULL \<or> (\<exists>y. obj_at (conn_cq x) (O_cq y) s)" "conn_rcq x = NULL \<or> (\<exists>y. obj_at (conn_rcq x) (O_cq y) s)"
    by (auto simp: null_or_def has_kind_objs)
  with o show ?thesis
    by (cases "conn_cq x = NULL"; cases "conn_rcq x = NULL")
       (auto simp: rpma_conn_wait_def obj_at_nonnull rpma_cq_get_ibv_cq_def Let_def intro!: wp_ext kept_mem split: option.splits)
qed

lemma typed_misc [typed_calls]:
  "null_or s c K_conn \<Longrightarrow> wp (rpma_conn_disconnect E c s) (\<lambda>_. kept s)"
  "null_or s q K_conn_req \<Longrightarrow> null_or s d K_mr_local \<Longrightarrow> wp (rpma_conn_req_recv E q d off len ctx s) (\<lambda>_. kept s)"
  "has_kind s d K_mr_local \<Longrightarrow> wp (rpma_mr_advise E d off len advice fl s) (\<lambda>_. kept s)"
  by (auto simp: null_or_def has_kind_objs rpma_conn_disconnect_def rpma_conn_req_recv_def rpma_mr_recv_def rpma_mr_advise_def
      obj_at_nonnull intro!: wp_ext kept_mem)

text \<open>The setters change a structure in place.\<close>

lemma wp_store_kept:
  assumes "obj_at p x s" and "kind_of y = kind_of x" and "refs_typed s x \<Longrightarrow> refs_typed s y"
  shows "wp (store p y s) (\<lambda>_. kept s)"
  using kept_store [OF assms] assms(1) by (auto simp: store_def obj_at_def)

lemma typed_setters [typed_calls]:
  "null_or s p K_peer_cfg \<Longrightarrow> wp (rpma_peer_cfg_set_direct_write_to_pmem p v s) (\<lambda>_. kept s)"
  "null_or s f K_conn_cfg \<Longrightarrow> wp (rpma_conn_cfg_set_timeout f i s) (\<lambda>_. kept s)"
  "null_or s f K_conn_cfg \<Longrightarrow> wp (rpma_conn_cfg_set_cq_size f n s) (\<lambda>_. kept s)"
  "null_or s f K_conn_cfg \<Longrightarrow> wp (rpma_conn_cfg_set_rcq_size f n s) (\<lambda>_. kept s)"
  "null_or s f K_conn_cfg \<Longrightarrow> wp (rpma_conn_cfg_set_sq_size f n s) (\<lambda>_. kept s)"
  "null_or s f K_conn_cfg \<Longrightarrow> wp (rpma_conn_cfg_set_rq_size f n s) (\<lambda>_. kept s)"
  "null_or s f K_conn_cfg \<Longrightarrow> wp (rpma_conn_cfg_set_compl_channel f v s) (\<lambda>_. kept s)"
  by (auto simp: null_or_def has_kind_objs rpma_peer_cfg_set_direct_write_to_pmem_def rpma_conn_cfg_set_timeout_def rpma_conn_cfg_set_cq_size_def
      rpma_conn_cfg_set_rcq_size_def rpma_conn_cfg_set_sq_size_def rpma_conn_cfg_set_rq_size_def rpma_conn_cfg_set_compl_channel_def
      obj_at_nonnull intro!: wp_store_kept kept_mem)

lemma typed_apply [typed_calls]:
  "null_or s c K_conn \<Longrightarrow> null_or s p K_peer_cfg \<Longrightarrow> wp (rpma_conn_apply_remote_peer_cfg c p s) (\<lambda>_. kept s)"
  by (auto simp: null_or_def has_kind_objs rpma_conn_apply_remote_peer_cfg_def rpma_peer_cfg_get_direct_write_to_pmem_def
      obj_at_nonnull intro!: wp_store_kept kept_mem)

lemma typed_call: "well_typed s \<Longrightarrow> call_typed s c \<Longrightarrow> wp (run_call E c s) (\<lambda>_. kept s)"
  by (cases c) (simp_all add: typed_calls wp_mono)

lemma call_typed_same: "same_types s s' \<Longrightarrow> call_typed s' c = call_typed s c"
  by (cases c) (simp_all add: same_types_def null_or_def)



end
