(* ===== verification/Ep.thy ===== *)
theory Ep
  imports Conn_Req_Props
begin

text \<open>
  Endpoints: \<open>src/src/ep.c\<close>. An endpoint listens on a CM ID with an event channel of its own and
  turns connect-request events into connection requests. The labels of \<open>rpma_ep_listen\<close> are the
  definitions \<open>ep_listen_err_*\<close>; \<open>ep_next_err_ack\<close> is the label of
  \<open>rpma_ep_next_conn_req\<close>.
\<close>

subsection \<open>Operations\<close>

definition ep_listen_err_destroy_event_channel :: "env \<Rightarrow> ptr \<Rightarrow> st \<Rightarrow> (unit \<times> st) option" where
  "ep_listen_err_destroy_event_channel E evch s = do {
     (_, s) \<leftarrow> ext E (Rdma_destroy_event_channel evch) s;
     Some ((), s)
   }"

definition ep_listen_err_destroy_id :: "env \<Rightarrow> ptr \<Rightarrow> ptr \<Rightarrow> st \<Rightarrow> (unit \<times> st) option" where
  "ep_listen_err_destroy_id E i evch s = do {
     (_, s) \<leftarrow> ext E (Rdma_destroy_id i) s;
     ep_listen_err_destroy_event_channel E evch s
   }"

definition ep_listen_err_info_delete :: "env \<Rightarrow> ptr \<Rightarrow> ptr \<Rightarrow> ptr \<Rightarrow> st \<Rightarrow> (unit \<times> st) option" where
  "ep_listen_err_info_delete E info i evch s = do {
     (_, s) \<leftarrow> rpma_info_delete E (Some info) s;
     ep_listen_err_destroy_id E i evch s
   }"

definition rpma_ep_listen ::
  "env \<Rightarrow> ptr \<Rightarrow> string option \<Rightarrow> string option \<Rightarrow> ptr option \<Rightarrow> st
    \<Rightarrow> ((rc \<times> ptr option) \<times> st) option" where
  "rpma_ep_listen E peer addr port ep_ptr s =
     (if peer = NULL \<or> addr = None \<or> port = None \<or> ep_ptr = None
      then Some ((RPMA_E_INVAL, ep_ptr), s)
      else do {
        (r, s) \<leftarrow> ext E Rdma_create_event_channel s;
        let evch = rptr r;
        if evch = NULL then Some ((RPMA_E_PROVIDER, ep_ptr), s)
        else do {
          (r, s) \<leftarrow> ext E (Rdma_create_id evch) s;
          let i = rptr r;
          if rint r \<noteq> 0 then do {
            (_, s) \<leftarrow> ep_listen_err_destroy_event_channel E evch s;
            Some ((RPMA_E_PROVIDER, ep_ptr), s)
          } else do {
            ((ret, info), s) \<leftarrow> rpma_info_new E addr port RPMA_INFO_PASSIVE (Some NULL) s;
            if ret \<noteq> 0 then do {
              (_, s) \<leftarrow> ep_listen_err_destroy_id E i evch s;
              Some ((ret, ep_ptr), s)
            } else do {
              let info = the info;
              (ret, s) \<leftarrow> rpma_info_bind_addr E info i s;
              if ret \<noteq> 0 then do {
                (_, s) \<leftarrow> ep_listen_err_info_delete E info i evch s;
                Some ((ret, ep_ptr), s)
              } else do {
                (r, s) \<leftarrow> ext E (Rdma_listen i 0) s;
                if rint r \<noteq> 0 then do {
                  (_, s) \<leftarrow> ep_listen_err_info_delete E info i evch s;
                  Some ((RPMA_E_PROVIDER, ep_ptr), s)
                } else do {
                  (ep, s) \<leftarrow> malloc E s;
                  if ep = NULL then do {
                    (_, s) \<leftarrow> ep_listen_err_info_delete E info i evch s;
                    Some ((RPMA_E_NOMEM, ep_ptr), s)
                  } else do {
                    (_, s) \<leftarrow> store ep (O_ep \<lparr>ep_peer = peer, ep_id = i, ep_evch = evch\<rparr>) s;
                    (_, s) \<leftarrow> rpma_info_delete E (Some info) s;
                    Some ((0, Some ep), s)
                  }
                }
              }
            }
          }
        }
      })"

definition rpma_ep_shutdown ::
  "env \<Rightarrow> ptr option \<Rightarrow> st \<Rightarrow> ((rc \<times> ptr option) \<times> st) option" where
  "rpma_ep_shutdown E ep_ptr s =
     (case ep_ptr of
        None \<Rightarrow> Some ((RPMA_E_INVAL, ep_ptr), s)
      | Some ep \<Rightarrow>
          if ep = NULL then Some ((0, ep_ptr), s)
          else do {
            e \<leftarrow> load_ep ep s;
            (r, s) \<leftarrow> ext E (Rdma_destroy_id (ep_id e)) s;
            let ret = (if rint r \<noteq> 0 then RPMA_E_PROVIDER else 0);
            (_, s) \<leftarrow> ext E (Rdma_destroy_event_channel (ep_evch e)) s;
            (_, s) \<leftarrow> free ep s;
            Some ((ret, Some NULL), s)
          })"

definition rpma_ep_get_fd ::
  "env \<Rightarrow> ptr \<Rightarrow> int option \<Rightarrow> st \<Rightarrow> ((rc \<times> int option) \<times> st) option" where
  "rpma_ep_get_fd E ep fd s =
     (if ep = NULL \<or> fd = None then Some ((RPMA_E_INVAL, fd), s)
      else do { e \<leftarrow> load_ep ep s; Some ((0, Some (event_channel_fd E (ep_evch e))), s) })"

definition ep_next_err_ack ::
  "env \<Rightarrow> rdma_cm_event \<Rightarrow> rc \<Rightarrow> ptr option \<Rightarrow> st \<Rightarrow> ((rc \<times> ptr option) \<times> st) option" where
  "ep_next_err_ack E event ret req_ptr s = do {
     (_, s) \<leftarrow> ext E (Rdma_ack_cm_event event) s;
     Some ((ret, req_ptr), s)
   }"

definition rpma_ep_next_conn_req ::
  "env \<Rightarrow> ptr \<Rightarrow> ptr \<Rightarrow> ptr option \<Rightarrow> st \<Rightarrow> ((rc \<times> ptr option) \<times> st) option" where
  "rpma_ep_next_conn_req E ep cfg req_ptr s =
     (if ep = NULL \<or> req_ptr = None then Some ((RPMA_E_INVAL, req_ptr), s)
      else do {
        let cfg = (if cfg = NULL then rpma_conn_cfg_default else cfg);
        e \<leftarrow> load_ep ep s;
        (r, s) \<leftarrow> ext E (Rdma_get_cm_event (ep_evch e)) s;
        if rint r \<noteq> 0 then
          (if errno s = ENODATA then Some ((RPMA_E_NO_EVENT, req_ptr), s)
           else Some ((RPMA_E_PROVIDER, req_ptr), s))
        else do {
          let event = rcm r;
          if ev_event event \<noteq> RDMA_CM_EVENT_CONNECT_REQUEST
          then ep_next_err_ack E event RPMA_E_INVAL req_ptr s
          else do {
            ((ret, req_ptr), s) \<leftarrow> rpma_conn_req_from_cm_event E (ep_peer e) (Some event) cfg req_ptr s;
            if ret \<noteq> 0 then ep_next_err_ack E event ret req_ptr s
            else do {
              (r, s) \<leftarrow> ext E (Rdma_ack_cm_event event) s;
              if rint r \<noteq> 0 then do {
                ((_, req_ptr), s) \<leftarrow> rpma_conn_req_delete E req_ptr s;
                Some ((RPMA_E_PROVIDER, req_ptr), s)
              } else Some ((0, req_ptr), s)
            }
          }
        }
      })"

subsection \<open>The life of an endpoint\<close>

definition ep_res :: "rpma_ep \<Rightarrow> res multiset" where
  "ep_res e = {#R_id (ep_id e), R_evch (ep_evch e)#}"

definition owns_ep :: "ptr \<Rightarrow> ptr set \<Rightarrow> res multiset \<Rightarrow> st \<Rightarrow> bool" where
  "owns_ep p B R s \<longleftrightarrow> (\<exists>e. obj_at p (O_ep e) s \<and> B = {p} \<and> R = ep_res e)"

lemma wp_rpma_ep_listen:
  assumes "ledger_ok s" and "peer \<noteq> NULL"
    and Q0: "\<And>p i ev s'. ledger_ok s' \<Longrightarrow> fresh p s \<Longrightarrow>
       mem s' = (mem s)(p \<mapsto> O_ep \<lparr>ep_peer = peer, ep_id = i, ep_evch = ev\<rparr>) \<Longrightarrow>
       acct s' = acct s + {#R_id i, R_evch ev#} \<Longrightarrow> Q (0, Some p) s'"
    and Q1: "\<And>ret s'. ledger_ok s' \<Longrightarrow> unchanged s s' \<Longrightarrow>
       ret \<in> {RPMA_E_PROVIDER, RPMA_E_NOMEM, RPMA_E_INVAL} \<Longrightarrow> Q (ret, Some x) s'"
  shows "wp (rpma_ep_listen E peer (Some addr) (Some port) (Some x) s) Q"
proof -
  note Q1' = Q1 [unfolded RPMA_E_PROVIDER_def RPMA_E_NOMEM_def RPMA_E_INVAL_def]
  have del: "wp (ep_listen_err_info_delete E a i ev t) (\<lambda>_ t. Q (ret, Some x) t)"
    if "ledger_ok t" "fresh a s" "mem t = (mem s)(a \<mapsto> O_info ai)"
       "acct t = add_mset (R_id i) (add_mset (R_evch ev) (acct s)) + info_res ai"
       "ret \<in> {RPMA_E_PROVIDER, RPMA_E_NOMEM, RPMA_E_INVAL}" for a ai i ev t ret
    unfolding ep_listen_err_info_delete_def ep_listen_err_destroy_id_def ep_listen_err_destroy_event_channel_def
    using that
    by (auto intro!: wp_rpma_info_delete [where i = ai] wp_ext Q1' simp: obj_at_def fresh_def unchanged_def
        add_mset_commute)
  have id_err: "wp (ep_listen_err_destroy_id E i ev t) (\<lambda>_ t. Q (ret, Some x) t)"
    if "ledger_ok t" "mem t = mem s" "acct t = add_mset (R_id i) (add_mset (R_evch ev) (acct s))"
       "ret \<in> {RPMA_E_PROVIDER, RPMA_E_NOMEM, RPMA_E_INVAL}" for i ev t ret
    unfolding ep_listen_err_destroy_id_def ep_listen_err_destroy_event_channel_def
    using that by (auto intro!: wp_ext Q1' simp: unchanged_def)
  have ch_err: "wp (ep_listen_err_destroy_event_channel E ev t) (\<lambda>_ t. Q (- 100002, Some x) t)"
    if "ledger_ok t" "mem t = mem s" "acct t = add_mset (R_evch ev) (acct s)" for ev t
    unfolding ep_listen_err_destroy_event_channel_def
    using that by (auto intro!: wp_ext Q1' simp: unchanged_def)
  have bind: "wp (rpma_info_bind_addr E a i t) P"
    if "fresh a s" "mem t = (mem s)(a \<mapsto> O_info ai)" "ledger_ok t"
      "\<And>ret t'. ledger_ok t' \<Longrightarrow> mem t' = mem t \<Longrightarrow> acct t' = acct t \<Longrightarrow>
         ret \<in> {0, RPMA_E_PROVIDER, RPMA_E_INVAL} \<Longrightarrow> P ret t'" for a ai i t P
    by (rule wp_rpma_info_bind_addr [where i = ai]) (use that in \<open>auto simp: obj_at_def fresh_def\<close>)
  have fin: "wp (rpma_info_delete E (Some a) t) (\<lambda>_. Q (0, Some p))"
    if "mem t = (mem s)(a \<mapsto> O_info ai, p \<mapsto> O_ep \<lparr>ep_peer = peer, ep_id = i, ep_evch = ev\<rparr>)"
      "fresh a s" "fresh p s" "a \<noteq> p" "ledger_ok t"
      "acct t = add_mset (R_id i) (add_mset (R_evch ev) (acct s)) + info_res ai" for a ai p i ev t
    by (rule wp_rpma_info_delete [where i = ai], use that in \<open>auto simp: obj_at_def fresh_def\<close>)
       (rule Q0 [of _ p i ev], use that in \<open>auto simp: fresh_def fun_eq_iff\<close>)
  show ?thesis
    unfolding rpma_ep_listen_def
    using assms(1,2)
    by (auto simp: Let_def fresh_def obj_at_def unchanged_def add_mset_commute split: if_splits
        intro!: wp_ext wp_malloc wp_store wp_rpma_info_new bind id_err ch_err del fin Q1')
qed


lemma wp_rpma_ep_shutdown:
  assumes "obj_at p (O_ep e) s" and "ledger_ok s" and "ep_res e \<subseteq># acct s"
    and "\<And>ret s'. ledger_ok s' \<Longrightarrow> destroyed {p} (ep_res e) s s' \<Longrightarrow> ret \<in> {0, RPMA_E_PROVIDER} \<Longrightarrow>
       Q (ret, Some NULL) s'"
  shows "wp (rpma_ep_shutdown E (Some p) s) Q"
proof -
  from assms(3) have "R_id (ep_id e) \<in># acct s" "R_evch (ep_evch e) \<in># acct s - {#R_id (ep_id e)#}"
    by (simp_all add: ep_res_def insert_subset_eq_iff)
  with assms(1,2) show ?thesis
    unfolding rpma_ep_shutdown_def
    by (auto simp: Let_def obj_at_nonnull ep_res_def add_mset_commute intro!: wp_ext wp_free assms(4) destroyed_one)
qed

text \<open>The client's view: the pointer variables of the caller are its own.\<close>

definition ep_listen_use :: "env \<Rightarrow> ptr \<Rightarrow> string \<Rightarrow> string \<Rightarrow> st \<Rightarrow> ((rc \<times> ptr) \<times> st) option" where
  "ep_listen_use E peer addr port s = do {
     ((ret, p), s) \<leftarrow> rpma_ep_listen E peer (Some addr) (Some port) (Some NULL) s;
     Some ((ret, the p), s)
   }"

definition ep_shutdown_use :: "env \<Rightarrow> ptr \<Rightarrow> st \<Rightarrow> ((rc \<times> ptr) \<times> st) option" where
  "ep_shutdown_use E ep s = do {
     ((ret, p), s) \<leftarrow> rpma_ep_shutdown E (Some ep) s;
     Some ((ret, the p), s)
   }"

lemma owns_ep_created:
  assumes "fresh p s" and "mem s' = (mem s)(p \<mapsto> O_ep e)" and "acct s' = add_mset (R_id (ep_id e)) (add_mset (R_evch (ep_evch e)) (acct s))"
  shows "\<exists>B R. owns_ep p B R s' \<and> created B R s s'"
proof (intro exI conjI)
  show "owns_ep p {p} (ep_res e) s'" using fresh_obj_at [OF assms(1,2)] by (auto simp: owns_ep_def)
  show "created {p} (ep_res e) s s'" using assms by (intro created_one) (simp_all add: ep_res_def)
qed

interpretation ep_life: lifecycle "ep_listen_use E peer addr port" "ep_shutdown_use E" owns_ep
    "\<lambda>s. peer \<noteq> NULL"
  for E peer addr port
proof unfold_locales
  fix s :: st
  assume "ledger_ok s" and "peer \<noteq> NULL"
  then show "wp (ep_listen_use E peer addr port s) (\<lambda>(ret, p) s'. ledger_ok s' \<and>
      (if ret = 0 then \<exists>B R. owns_ep p B R s' \<and> created B R s s' else unchanged s s'))"
    unfolding ep_listen_use_def
    by (auto intro!: wp_rpma_ep_listen owns_ep_created)
next
  fix s :: st and p B R
  assume "ledger_ok s" and "owns_ep p B R s" and "R \<subseteq># acct s"
  then show "wp (ep_shutdown_use E p s) (\<lambda>(ret, p') s'. ledger_ok s' \<and> p' = NULL \<and> destroyed B R s s')"
    unfolding ep_shutdown_use_def by (auto simp: owns_ep_def intro!: wp_rpma_ep_shutdown)
qed

text \<open>An endpoint can be opened and shut down any number of times without a trace. Whatever the
  provider answers to each of the calls, in whatever round, at the end the heap and the resources
  held from the provider are those of the beginning, and nothing was given back twice.\<close>

lemma ep_no_leak:
  assumes "ledger_ok s" and "peer \<noteq> NULL"
  shows "wp (use_many n (ep_listen_use E peer addr port) (ep_shutdown_use E) s)
     (\<lambda>_ s'. ledger_ok s' \<and> unchanged s s')"
  using assms by (rule ep_life.use_many_spec)

subsection \<open>Accepting requests\<close>

lemma owns_req_push: "owns_req k c B R (push cl r s) = owns_req k c B R s"
  by (simp add: owns_req_def req_cqs_def owns_cq_opt_def owns_cq_def pdata_ok_def)

lemma pdata_bytes_push [simp]: "pdata_bytes d (push cl r s) = pdata_bytes d s"
  by (simp add: pdata_bytes_def deref_def)

definition next_req_post :: "rpma_ep \<Rightarrow> rdma_cm_event \<Rightarrow> ptr \<Rightarrow> st \<Rightarrow> rc \<Rightarrow> ptr option \<Rightarrow> st \<Rightarrow> bool" where
  "next_req_post e ev x s ret out s' \<longleftrightarrow>
     (if ev_event ev \<noteq> RDMA_CM_EVENT_CONNECT_REQUEST
      then ret = RPMA_E_INVAL \<and> out = Some x \<and> unchanged s s'
      else if ret = 0
      then \<exists>k c B R. out = Some k \<and> owns_req k c B R s' \<and> created B (R + {#R_id (ev_id ev)#}) s s' \<and>
        req_is_passive c \<and> req_id c = ev_id ev \<and> req_peer c = ep_peer e \<and> req_cq c \<noteq> NULL \<and>
        pdata_bytes (req_data c) s' = event_payload ev
      else mem s' = mem s \<and> (out = Some x \<or> out = Some NULL \<and> ret = RPMA_E_PROVIDER) \<and>
        (acct s' = acct s + {#R_id (ev_id ev)#} \<or> acct s' = acct s \<and> ret = RPMA_E_NOMEM))"

lemma ep_next_conn_req_spec:
  assumes "obj_at ep (O_ep e) s" and "obj_at (ep_peer e) (O_peer p) s"
    and "cfg \<noteq> NULL \<Longrightarrow> load_conn_cfg cfg s = Some f" and "ledger_ok s"
    and "r = respond E (trace s) (Rdma_get_cm_event (ep_evch e))"
    and "rint r = 0 \<Longrightarrow> event_wf (rcm r)"
  shows "wp (rpma_ep_next_conn_req E ep cfg (Some x) s) (\<lambda>(ret, out) s'. ledger_ok s' \<and>
     (if rint r = 0 then next_req_post e (rcm r) x s ret out s'
      else unchanged s s' \<and> out = Some x \<and> ret = (if errno s' = ENODATA then RPMA_E_NO_EVENT else RPMA_E_PROVIDER)))"
proof -
  define d where "d = (if cfg = NULL then rpma_conn_cfg_default else cfg)"
  have "CONN_CFG_DEFAULT_ADDR \<noteq> NULL" by (simp add: CONN_CFG_DEFAULT_ADDR_def)
  then obtain g where cfg: "load_conn_cfg d s = Some g" "d \<noteq> NULL"
    using assms(3) by (cases "cfg = NULL") (auto simp: d_def rpma_conn_cfg_default_def)
  let ?s = "push (Rdma_get_cm_event (ep_evch e)) r s"
  have from_ev: "wp (rpma_conn_req_from_cm_event E (ep_peer e) (Some (rcm r)) d (Some x) ?s) (\<lambda>(ret, out) s'.
      (ret \<noteq> 0 \<longrightarrow> wp (ep_next_err_ack E (rcm r) ret out s') (\<lambda>(ret, out) s'. ledger_ok s' \<and> next_req_post e (rcm r) x s ret out s')) \<and>
      (ret = 0 \<longrightarrow> wp (ext E (Rdma_ack_cm_event (rcm r)) s') (\<lambda>a s'.
        (rint a \<noteq> 0 \<longrightarrow> wp (rpma_conn_req_delete E out s') (\<lambda>d s'. ledger_ok s' \<and> (case d of (_, out) \<Rightarrow> next_req_post e (rcm r) x s RPMA_E_PROVIDER out s'))) \<and>
        (rint a = 0 \<longrightarrow> ledger_ok s' \<and> next_req_post e (rcm r) x s 0 out s'))))"
    if ev: "rint r = 0" "ev_event (rcm r) = RDMA_CM_EVENT_CONNECT_REQUEST"
  proof (rule wp_rpma_conn_req_from_cm_event [where s = ?s and p = p and f = g], goal_cases)
    case (8 k c B R s')
    have acct: "acct s' = add_mset (R_event (ev_ptr (rcm r))) (acct s + {#R_id (ev_id (rcm r))#} + R)"
      using 8(3) ev by (simp add: created_def)
    have del: "wp (rpma_conn_req_delete E (Some k) (push (Rdma_ack_cm_event (rcm r)) a s'))
        (\<lambda>d s'. ledger_ok s' \<and> (case d of (_, out) \<Rightarrow> next_req_post e (rcm r) x s RPMA_E_PROVIDER out s'))" for a
      by (rule wp_rpma_conn_req_delete [of k c B R])
         (use 8 acct ev in \<open>auto simp: owns_req_push req_id_res_def next_req_post_def destroyed_def created_def fun_eq_iff\<close>)
    have "next_req_post e (rcm r) x s 0 (Some k) (push (Rdma_ack_cm_event (rcm r)) a s')" for a
      unfolding next_req_post_def using 8 acct ev
      by (auto simp: owns_req_push created_def intro!: exI [of _ c] exI [of _ B] exI [of _ R])
    with 8(1) acct del show ?case by (auto intro!: wp_ext)
  next
    case (9 ret s')
    then show ?case
      using ev by (auto simp: ep_next_err_ack_def next_req_post_def unchanged_def destroyed_def intro!: wp_ext)
  qed (use assms cfg ev in \<open>auto simp: load_conn_cfg_def deref_def\<close>)
  have get: "wp (ext E (Rdma_get_cm_event (ep_evch e)) s) P = P r ?s" for P
    by (simp add: wp_ext_exact assms(5))
  have other: "wp (ep_next_err_ack E (rcm r) RPMA_E_INVAL (Some x) ?s) (\<lambda>(ret, out) s'. ledger_ok s' \<and> next_req_post e (rcm r) x s ret out s')"
    if "rint r = 0" "ev_event (rcm r) \<noteq> RDMA_CM_EVENT_CONNECT_REQUEST"
    using that assms(4) by (auto simp: ep_next_err_ack_def next_req_post_def unchanged_def intro!: wp_ext)
  show ?thesis
  proof (cases "rint r = 0")
    case True
    then show ?thesis
      unfolding rpma_ep_next_conn_req_def Let_def d_def [symmetric]
      using assms(1,4) obj_at_nonnull [OF assms(1)] other
      by (auto simp: get intro!: wp_mono [OF from_ev])
  next
    case False
    then show ?thesis
      unfolding rpma_ep_next_conn_req_def Let_def
      using assms(1,4) obj_at_nonnull [OF assms(1)] by (auto simp: get unchanged_def)
  qed
qed

text \<open>C16: taking the next connection request. Every event the endpoint receives is acknowledged
  exactly once, on every path. Without an event the result tells whether there was none or the
  provider failed, and an event of another kind gives \<open>RPMA_E_INVAL\<close>; both leave no trace. For
  a connect request, success means a complete passive request of the endpoint's peer that owns a
  copy of the private data; in all other cases nothing of the request is left, the caller's pointer
  is untouched or (when the acknowledgement failed) \<open>NULL\<close>, and the CM ID of the event is still
  held unless storing the private data failed.\<close>

theorem ep_next_conn_req_contract:
  assumes "obj_at ep (O_ep e) s" and "obj_at (ep_peer e) (O_peer p) s"
    and "cfg \<noteq> NULL \<Longrightarrow> load_conn_cfg cfg s = Some f" and "ledger_ok s"
    and "r = respond E (trace s) (Rdma_get_cm_event (ep_evch e))"
    and "rint r = 0 \<Longrightarrow> event_wf (rcm r)"
  shows "wp (rpma_ep_next_conn_req E ep cfg (Some x) s) (\<lambda>(ret, out) s'. ledger_ok s' \<and>
     (if rint r = 0 then next_req_post e (rcm r) x s ret out s'
      else unchanged s s' \<and> out = Some x \<and> ret = (if errno s' = ENODATA then RPMA_E_NO_EVENT else RPMA_E_PROVIDER)))"
  using assms by (rule ep_next_conn_req_spec)

definition sample_ep :: rpma_ep where
  "sample_ep = \<lparr>ep_peer = 52, ep_id = 33, ep_evch = 34\<rparr>"

definition sample_ep_st :: st where
  "sample_ep_st = heap_st [(53, O_ep sample_ep), (52, O_peer \<lparr>peer_pd = 3, peer_is_odp_supported = 0\<rparr>)]"

definition connecting_respond :: "event list \<Rightarrow> call \<Rightarrow> resp" where
  "connecting_respond tr c = (sample_respond tr c)
     \<lparr>rcm := sample_cm_event\<lparr>ev_event := RDMA_CM_EVENT_CONNECT_REQUEST\<rparr>\<rparr>"

theorem ep_next_conn_req_contract_witness:
  "wp (rpma_ep_next_conn_req (sample_env\<lparr>respond := connecting_respond\<rparr>) 53 NULL (Some 0) sample_ep_st)
     (\<lambda>(ret, out) s'. ledger_ok s' \<and>
        next_req_post sample_ep (sample_cm_event\<lparr>ev_event := RDMA_CM_EVENT_CONNECT_REQUEST\<rparr>) 0 sample_ep_st ret out s')"
  by (rule wp_mono [OF ep_next_conn_req_contract [of 53 sample_ep, OF _ _ _ _ refl]])
     (auto simp: sample_ep_st_def sample_ep_def CONN_CFG_DEFAULT_ADDR_def event_wf_def
        connecting_respond_def sample_respond_def sample_cm_event_def)

end
