(* ===== verification/Library_Calls.thy ===== *)
theory Library_Calls
  imports Ep
begin

text \<open>
  Which calls the library makes. A program that uses the library makes calls of its own to the
  operating system: it sets descriptors to non-blocking, adds them to an epoll instance, waits, maps
  files. The operations of the library make none of these calls, so that a program can reason about
  them as if the operations of the library were not there.
  \<^item> \<open>own_calls\<close>: the calls of a trace that only programs make;
  \<^item> \<open>lib_only\<close>: a computation, if it returns, leaves them as they were; the collection \<open>lib\<close> has
    a rule for each operation.
\<close>

fun program_call :: "call \<Rightarrow> bool" where
  "program_call (Fcntl_getfl _) = True"
| "program_call (Fcntl_setfl _ _) = True"
| "program_call Epoll_create1 = True"
| "program_call (Epoll_ctl_add _ _ _) = True"
| "program_call (Epoll_ctl_del _ _) = True"
| "program_call (Epoll_wait _ _) = True"
| "program_call (Close _) = True"
| "program_call (Sleep _) = True"
| "program_call (Pmem_map_file _) = True"
| "program_call (Pmem_unmap _ _) = True"
| "program_call _ = False"

definition own_calls :: "st \<Rightarrow> event list" where
  "own_calls s = filter (program_call \<circ> fst) (trace s)"

lemma own_calls_push [simp]: "own_calls (push c r s) = (if program_call c then (c, r) # own_calls s else own_calls s)"
  by (simp add: own_calls_def)

lemma own_calls_mem [simp]: "own_calls (s\<lparr>mem := m\<rparr>) = own_calls s"
  and own_calls_set_errno [simp]: "own_calls (set_errno e s) = own_calls s"
  by (simp_all add: own_calls_def set_errno_def)

definition lib_only :: "event list \<Rightarrow> ('a \<times> st) option \<Rightarrow> bool" where
  "lib_only t m \<longleftrightarrow> (\<forall>r s'. m = Some (r, s') \<longrightarrow> own_calls s' = t)"

named_theorems lib \<open>operations that leave the calls of the program alone\<close>

lemma lib_only_simps [simp]:
  "lib_only t None"
  "lib_only t (Some (r, s)) \<longleftrightarrow> own_calls s = t"
  "lib_only t (case p of (a, b) \<Rightarrow> f a b) \<longleftrightarrow> (case p of (a, b) \<Rightarrow> lib_only t (f a b))"
  "lib_only t (if b then m else n) \<longleftrightarrow> (if b then lib_only t m else lib_only t n)"
  by (simp_all add: lib_only_def split: prod.split)

lemma lib_bind [lib]:
  assumes "lib_only t m" and "\<And>r s'. own_calls s' = t \<Longrightarrow> lib_only t (f r s')"
  shows "lib_only t (Option.bind m (case_prod f))"
  using assms by (cases m) (auto simp: lib_only_def)

lemma lib_load: "(\<And>x. lib_only t (f x)) \<Longrightarrow> lib_only t (Option.bind m f)"
  by (cases m) auto

lemmas lib_loads [lib] = lib_load [where m = "load_peer p s" for p s] lib_load [where m = "load_mr_local p s" for p s]
  lib_load [where m = "load_mr_remote p s" for p s] lib_load [where m = "load_cq p s" for p s]
  lib_load [where m = "load_apm p s" for p s] lib_load [where m = "load_flush p s" for p s]
  lib_load [where m = "load_conn p s" for p s] lib_load [where m = "load_conn_req p s" for p s]
  lib_load [where m = "load_ep p s" for p s] lib_load [where m = "load_conn_cfg p s" for p s]
  lib_load [where m = "load_info p s" for p s]
  lib_load [where m = "read_bytes i n bs" for i n bs] lib_load [where m = "rpma_cq_get_ibv_cq p s" for p s]
  lib_load [where m = "rpma_peer_usage_to_access E p u s" for E p u s]
  lib_load [where m = m for m :: "bool option"] lib_load [where m = m for m :: "(ptr \<times> bool) option option"]

lemma lib_prims [lib]:
  "own_calls s = t \<Longrightarrow> \<not> program_call c \<Longrightarrow> lib_only t (ext E c s)"
  "own_calls s = t \<Longrightarrow> lib_only t (malloc E s)"
  "own_calls s = t \<Longrightarrow> lib_only t (free p s)"
  "own_calls s = t \<Longrightarrow> lib_only t (store p x s)"
  by (simp_all add: ext_def malloc_def free_def store_def Let_def)

lemma lib_onlyD: "m = Some (r, s') \<Longrightarrow> lib_only t m \<Longrightarrow> own_calls s' = t"
  by (simp add: lib_only_def)

lemma wp_lib:
  assumes "wp m Q" and "lib_only t m"
  shows "wp m (\<lambda>r s'. Q r s' \<and> own_calls s' = t)"
  using assms by (cases m) (auto simp: lib_only_def)

subsection \<open>Completion queues, private data, peers and memory regions\<close>

lemma lib_cq [lib]:
  "own_calls s = t \<Longrightarrow> lib_only t (rpma_cq_new E ibv_ctx cqe ch cq_ptr s)"
  "own_calls s = t \<Longrightarrow> lib_only t (rpma_cq_delete E cq s)"
  "own_calls s = t \<Longrightarrow> lib_only t (rpma_cq_get_fd E cq fd s)"
  "own_calls s = t \<Longrightarrow> lib_only t (rpma_cq_wait E cq s)"
  "own_calls s = t \<Longrightarrow> lib_only t (rpma_cq_get_wc E cq num_entries wc num_entries_got s)"
  by (auto simp: rpma_cq_new_def cq_new_err_destroy_comp_channel_def cq_new_err_destroy_cq_def rpma_cq_delete_def
      rpma_cq_get_fd_def rpma_cq_wait_def rpma_cq_get_wc_def Let_def intro!: lib)

lemma lib_cfg [lib]:
  "own_calls s = t \<Longrightarrow> lib_only t (rpma_conn_cfg_get_sq_size cfg n s)"
  "own_calls s = t \<Longrightarrow> lib_only t (rpma_conn_cfg_get_rq_size cfg n s)"
  "own_calls s = t \<Longrightarrow> lib_only t (rpma_conn_cfg_get_cqe cfg s)"
  "own_calls s = t \<Longrightarrow> lib_only t (rpma_conn_cfg_get_rcqe cfg s)"
  "own_calls s = t \<Longrightarrow> lib_only t (rpma_conn_cfg_get_compl_channel cfg b s)"
  by (auto simp: rpma_conn_cfg_get_sq_size_def rpma_conn_cfg_get_rq_size_def rpma_conn_cfg_get_cqe_def
      rpma_conn_cfg_get_rcqe_def rpma_conn_cfg_get_cq_size_def rpma_conn_cfg_get_rcq_size_def
      rpma_conn_cfg_get_compl_channel_def Let_def intro!: lib)

lemma lib_cfg_life [lib]:
  "own_calls s = t \<Longrightarrow> lib_only t (rpma_conn_cfg_new E cfg_ptr s)"
  "own_calls s = t \<Longrightarrow> lib_only t (rpma_conn_cfg_set_compl_channel cfg b s)"
  by (auto simp: rpma_conn_cfg_new_def rpma_conn_cfg_set_compl_channel_def intro!: lib split: option.splits)

lemma lib_data [lib]:
  "own_calls s = t \<Longrightarrow> lib_only t (rpma_private_data_store E edata pdata s)"
  "own_calls s = t \<Longrightarrow> lib_only t (rpma_private_data_discard pdata s)"
  "own_calls s = t \<Longrightarrow> lib_only t (rpma_peer_create_qp E peer cm_id cq rcq cfg s)"
  "own_calls s = t \<Longrightarrow> lib_only t (rpma_peer_mr_reg E peer addr len usage s)"
  by (auto simp: rpma_private_data_store_def rpma_private_data_discard_def rpma_peer_create_qp_def rpma_peer_mr_reg_def
      Let_def intro!: lib split: option.splits)

lemma lib_mr_read [lib]:
  "own_calls s = t \<Longrightarrow> lib_only t (rpma_mr_read E qp dst dst_offset src src_offset len fl op_context s)"
  unfolding rpma_mr_read_def Let_def by (rule lib_load) (auto intro!: lib)

lemma lib_mr [lib]:
  "own_calls s = t \<Longrightarrow> lib_only t (rpma_mr_reg E peer addr len usage mr_ptr s)"
  "own_calls s = t \<Longrightarrow> lib_only t (rpma_mr_dereg E mr_ptr s)"
  "own_calls s = t \<Longrightarrow> lib_only t (rpma_mr_remote_from_descriptor E desc desc_size mr_ptr s)"
  "own_calls s = t \<Longrightarrow> lib_only t (rpma_mr_remote_delete mr_ptr s)"
  by (auto simp: rpma_mr_reg_def rpma_mr_dereg_def rpma_mr_remote_from_descriptor_def
      rpma_mr_remote_delete_def Let_def intro!: lib split: option.splits)

lemma lib_flush [lib]:
  "own_calls s = t \<Longrightarrow> lib_only t (rpma_flush_new E peer flush_ptr s)"
  "own_calls s = t \<Longrightarrow> lib_only t (rpma_flush_delete E flush_ptr s)"
  by (auto simp: rpma_flush_new_def rpma_flush_delete_def rpma_flush_apm_new_def rpma_flush_apm_delete_def
      Let_def intro!: lib split: option.splits)

subsection \<open>Connections\<close>

lemma lib_conn_new [lib]:
  "own_calls s = t \<Longrightarrow> lib_only t (rpma_conn_new E peer i cq rcq channel conn_ptr s)"
  by (auto simp: rpma_conn_new_def conn_new_err_destroy_evch_def conn_new_err_migrate_id_NULL_def
      conn_new_err_flush_delete_def Let_def intro!: lib)

lemma lib_conn_use [lib]:
  "own_calls s = t \<Longrightarrow> lib_only t (rpma_conn_transfer_private_data conn pdata s)"
  "own_calls s = t \<Longrightarrow> lib_only t (rpma_conn_get_event_fd E conn fd s)"
  "own_calls s = t \<Longrightarrow> lib_only t (rpma_conn_wait E conn flags cq_ptr is_rcq s)"
  "own_calls s = t \<Longrightarrow> lib_only t (rpma_conn_get_private_data conn pdp s)"
  "own_calls s = t \<Longrightarrow> lib_only t (rpma_conn_disconnect E conn s)"
  "own_calls s = t \<Longrightarrow> lib_only t (rpma_read E conn dst dst_offset src src_offset len fl op_context s)"
  "own_calls s = t \<Longrightarrow> lib_only t (rpma_conn_get_cq conn cq_ptr s)"
  by (auto simp: rpma_conn_transfer_private_data_def rpma_conn_get_event_fd_def rpma_conn_wait_def
      rpma_conn_get_private_data_def rpma_conn_disconnect_def rpma_read_def rpma_conn_get_cq_def
      Let_def intro!: lib split: option.splits)

lemma lib_next_event [lib]:
  "own_calls s = t \<Longrightarrow> lib_only t (rpma_conn_next_event E conn event s)"
  by (auto simp: rpma_conn_next_event_def conn_next_event_ack_def next_event_err_private_data_discard_def
      Let_def intro!: lib split: option.splits)

lemma lib_conn_delete_labels [lib]:
  "own_calls s = t \<Longrightarrow> lib_only t (conn_delete_rcq E conn s)"
  "own_calls s = t \<Longrightarrow> lib_only t (conn_delete_cq E conn s)"
  "own_calls s = t \<Longrightarrow> lib_only t (conn_delete_err_destroy_id E conn s)"
  "own_calls s = t \<Longrightarrow> lib_only t (conn_delete_destroy_id E conn s)"
  by (auto simp: conn_delete_rcq_def conn_delete_cq_def conn_delete_err_destroy_id_def conn_delete_destroy_id_def
      conn_delete_err_destroy_comp_channel_def conn_delete_err_destroy_event_channel_def Let_def intro!: lib)

lemma lib_conn_delete [lib]:
  "own_calls s = t \<Longrightarrow> lib_only t (rpma_conn_delete E conn_ptr s)"
  by (auto simp: rpma_conn_delete_def conn_delete_from_qp_def conn_delete_from_cq_def conn_delete_err_destroy_qp_def
      conn_delete_err_rpma_cq_delete_def Let_def intro!: lib split: option.splits)

subsection \<open>Requests and endpoints\<close>

lemma lib_req_from_id [lib]:
  "own_calls s = t \<Longrightarrow> lib_only t (rpma_conn_req_from_id E peer i cfg req_ptr s)"
  by (auto simp: rpma_conn_req_from_id_def req_from_id_cqs_def req_from_id_qp_def req_from_id_err_destroy_qp_def
      req_from_id_err_rpma_rcq_delete_def req_from_id_err_rpma_cq_delete_def req_from_id_err_comp_channel_destroy_def
      Let_def intro!: lib split: option.splits)

lemma lib_req_parts [lib]:
  "own_calls s = t \<Longrightarrow> lib_only t (req_delete_rcq E req s)"
  "own_calls s = t \<Longrightarrow> lib_only t (req_delete_cq E req s)"
  "own_calls s = t \<Longrightarrow> lib_only t (req_discard_data req s)"
  by (auto simp: req_delete_rcq_def req_delete_cq_def req_discard_data_def intro!: lib)

lemma lib_req_delete [lib]:
  "own_calls s = t \<Longrightarrow> lib_only t (rpma_conn_req_delete E req_ptr s)"
  by (auto simp: rpma_conn_req_delete_def rpma_conn_req_reject_def rpma_conn_req_destroy_def Let_def intro!: lib
      split: option.splits)

lemma lib_req_connect [lib]:
  "own_calls s = t \<Longrightarrow> lib_only t (rpma_conn_req_accept E req conn_param conn_ptr s)"
  "own_calls s = t \<Longrightarrow> lib_only t (rpma_conn_req_connect_active E req conn_param conn_ptr s)"
  by (auto simp: rpma_conn_req_accept_def req_accept_err_conn_req_delete_def req_accept_err_conn_disconnect_def
      rpma_conn_req_connect_active_def req_connect_active_err_conn_new_def Let_def intro!: lib split: option.splits)

lemma lib_req [lib]:
  "own_calls s = t \<Longrightarrow> lib_only t (rpma_conn_req_connect E req_ptr pdata conn_ptr s)"
  "own_calls s = t \<Longrightarrow> lib_only t (rpma_conn_req_from_cm_event E peer event cfg req_ptr s)"
  "own_calls s = t \<Longrightarrow> lib_only t (rpma_ep_next_conn_req E ep cfg req_ptr s)"
  by (auto simp: rpma_conn_req_connect_def rpma_conn_req_from_cm_event_def rpma_ep_next_conn_req_def ep_next_err_ack_def
      Let_def intro!: lib split: option.splits)

lemma lib_info [lib]:
  "own_calls s = t \<Longrightarrow> lib_only t (rpma_info_new E addr port side info_ptr s)"
  "own_calls s = t \<Longrightarrow> lib_only t (rpma_info_delete E info_ptr s)"
  "own_calls s = t \<Longrightarrow> lib_only t (rpma_info_bind_addr E info i s)"
  by (auto simp: rpma_info_new_def rpma_info_delete_def rpma_info_bind_addr_def Let_def intro!: lib split: option.splits)

lemma lib_ep [lib]:
  "own_calls s = t \<Longrightarrow> lib_only t (rpma_ep_listen E peer addr port ep_ptr s)"
  by (auto simp: rpma_ep_listen_def ep_listen_err_destroy_event_channel_def ep_listen_err_destroy_id_def
      ep_listen_err_info_delete_def Let_def intro!: lib split: option.splits)

end
