(* ===== verification/Conn_Use.thy ===== *)
theory Conn_Use
  imports Ep
begin

text \<open>
  A connection in use: what the operations between its creation and its deletion do to the objects
  and resources it owns. These are the rules by which programs of clients and servers are verified.
  \<^item> \<open>conn_kept\<close>: the connection still owns the same resources, and it and memory have changed at
    most in the private data, a new block of it being one that was free.
  \<^item> \<open>owns_conn_of E\<close>: a connection whose private data, if it has any, came with an event.
  \<^item> \<open>events_wf\<close> and \<open>no_requests\<close> are what programs rely on of librdmacm: the private data of an
    event has at least the announced length, and connect requests are not reported to a process
    that does not listen.
\<close>

definition events_wf :: "env \<Rightarrow> bool" where
  "events_wf E \<longleftrightarrow> (\<forall>tr ch. let r = respond E tr (Rdma_get_cm_event ch) in rint r = 0 \<longrightarrow> event_wf (rcm r))"

definition no_requests :: "env \<Rightarrow> bool" where
  "no_requests E \<longleftrightarrow> (\<forall>tr ch. let r = respond E tr (Rdma_get_cm_event ch) in
     rint r = 0 \<longrightarrow> ev_event (rcm r) \<noteq> RDMA_CM_EVENT_CONNECT_REQUEST)"

definition conn_kept :: "ptr \<Rightarrow> ptr set \<Rightarrow> res multiset \<Rightarrow> ptr set \<Rightarrow> st \<Rightarrow> st \<Rightarrow> bool" where
  "conn_kept k B R B' s s' \<longleftrightarrow> owns_conn k B' R s' \<and> (\<forall>q\<in>B' - B. mem s q = None) \<and>
     (\<forall>q\<in>B - B'. mem s' q = None) \<and> (\<forall>q. q \<notin> B \<union> B' \<longrightarrow> mem s' q = mem s q) \<and>
     (\<forall>c. obj_at k (O_conn c) s \<longrightarrow> (\<exists>d. obj_at k (O_conn (c\<lparr>conn_data := d\<rparr>)) s'))"

lemma owns_conn_live: "owns_conn k B R s \<Longrightarrow> \<exists>c. obj_at k (O_conn c) s \<and> pdata_ok (conn_data c) s"
  by (auto simp: owns_conn_def)

lemma conn_data_same: "\<exists>d. c = c\<lparr>conn_data := d\<rparr>"
  by (rule exI [of _ "conn_data c"]) simp

lemma conn_kept_same: "owns_conn k B R s \<Longrightarrow> mem s' = mem s \<Longrightarrow> conn_kept k B R B s s'"
  using owns_conn_cong [of k B R s s'] by (auto simp: conn_kept_def obj_at_def conn_data_same)

text \<open>What a connection owns are live blocks, and whether it owns them depends on nothing else.\<close>

lemma owns_conn_blocks_live: "owns_conn k B R s \<Longrightarrow> q \<in> B \<Longrightarrow> mem s q \<noteq> None"
  by (auto simp: owns_conn_def conn_cqs_def owns_cq_opt_def owns_cq_def conn_tail_blocks_def pdata_blocks_def
      pdata_ok_def obj_at_def dest: owns_flush_live split: if_splits)

lemma owns_conn_pdata: "owns_conn k B R s \<Longrightarrow> obj_at k (O_conn c) s \<Longrightarrow> insert k (pdata_blocks (conn_data c)) \<subseteq> B"
  by (auto simp: owns_conn_def conn_tail_blocks_def dest: obj_at_unique)

lemma owns_conn_qp: "owns_conn k B R s \<Longrightarrow> \<exists>i. R_qp i \<in># R"
  by (auto simp: owns_conn_def)

lemma conn_kept_created:
  assumes "created B (R + N) s0 s" and "conn_kept k B R B' s s'" and "acct s' = acct s + N'"
  shows "created B' (R + (N + N')) s0 s'"
  unfolding created_def
proof (intro conjI ballI allI impI)
  fix q assume "q \<in> B'"
  then show "mem s0 q = None" using assms(1,2) by (cases "q \<in> B") (auto simp: created_def conn_kept_def)
next
  fix q assume "q \<notin> B'"
  then show "mem s' q = mem s0 q" using assms(1,2) by (cases "q \<in> B") (auto simp: created_def conn_kept_def)
next
  show "acct s' = acct s0 + (R + (N + N'))" using assms(1,3) by (simp add: created_def ac_simps)
qed

text \<open>The new private data is a block of its own, the rest of the connection stays.\<close>

lemma next_event_inv_kept:
  assumes own: "owns_conn k B R s" and c: "obj_at k (O_conn c) s" and inv: "next_event_inv k c s e d s'"
  shows "\<exists>B'. conn_kept k B R B' s s'"
proof -
  from own c obtain CB CR RB RR F FR where
    o: "conn_cqs c CB CR RB RR s" "owns_flush (conn_flush c) F FR s" "pdata_ok (conn_data c) s"
    and B: "B = F \<union> (RB \<union> (CB \<union> conn_tail_blocks k c))"
    and R: "R = FR + ({#R_qp (conn_id c)#} + (RR + (CR + conn_tail_res c)))"
    by (auto simp: owns_conn_def dest: obj_at_unique)
  let ?B = "F \<union> (RB \<union> (CB \<union> insert k (pdata_blocks d)))"
  have live: "mem s q \<noteq> None" if "q \<in> F \<union> RB \<union> CB" for q
    using that o by (auto simp: conn_cqs_def owns_cq_opt_def owns_cq_def obj_at_def dest: owns_flush_live split: if_splits)
  have cqs: "owns_cq_opt (conn_cq c) CB CR s" "owns_cq_opt (conn_rcq c) RB RR s" using o(1) by (auto simp: conn_cqs_def)
  have dis: "k \<notin> F \<union> RB \<union> CB" "(F \<union> RB \<union> CB) \<inter> pdata_blocks (conn_data c) = {}"
    using owns_flush_disjoint(1) [OF o(2,3)] owns_flush_disjoint(2) [OF o(2) c]
      owns_cq_opt_disjoint(1) [OF cqs(1) o(3)] owns_cq_opt_disjoint(1) [OF cqs(2) o(3)]
      owns_cq_opt_disjoint(2) [OF cqs(1) c] owns_cq_opt_disjoint(2) [OF cqs(2) c] by auto
  have frame: "mem s' q = mem s q" if "q \<in> F \<union> RB \<union> CB" for q
  proof -
    have "q \<noteq> k" "q \<notin> pdata_blocks (conn_data c)" using that dis by auto
    moreover have "q \<notin> pdata_blocks d" using inv live [OF that] calculation(2) by (auto simp: next_event_inv_def)
    ultimately show ?thesis using inv by (simp add: next_event_inv_def)
  qed
  have cqs': "conn_cqs (c\<lparr>conn_data := d\<rparr>) CB CR RB RR s'"
  proof -
    have "conn_cqs c CB CR RB RR s'" by (rule conn_cqs_cong [OF o(1)]) (use frame in auto)
    then show ?thesis by (simp add: conn_cqs_def)
  qed
  have fl: "owns_flush (conn_flush c) F FR s'"
    using o(2) frame by (auto simp: owns_flush_def obj_at_def)
  have "owns_conn k ?B R s'"
    unfolding owns_conn_def
    by (rule exI [of _ "c\<lparr>conn_data := d\<rparr>"], intro exI conjI)
       (use cqs' fl inv R in \<open>auto simp: next_event_inv_def conn_tail_blocks_def conn_tail_res_def\<close>)
  moreover have "k \<notin> pdata_blocks (conn_data c)" by (rule pdata_disjoint(1) [OF o(3) c])
  ultimately have "conn_kept k B R ?B s s'"
    using inv B frame dis c by (fastforce simp: conn_kept_def next_event_inv_def conn_tail_blocks_def dest: obj_at_unique)
  then show ?thesis by blast
qed

text \<open>Private data that \<open>E\<close> may deliver, and a connection with such data.\<close>

definition known_payload :: "env \<Rightarrow> u8 list \<Rightarrow> bool" where
  "known_payload E bs \<longleftrightarrow> bs = [] \<or> (\<exists>tr ch. let r = respond E tr (Rdma_get_cm_event ch) in
     rint r = 0 \<and> bs = event_payload (rcm r))"

definition payload_at :: "env \<Rightarrow> ptr \<Rightarrow> st \<Rightarrow> bool" where
  "payload_at E k s \<longleftrightarrow> (\<forall>c. obj_at k (O_conn c) s \<longrightarrow> known_payload E (pdata_bytes (conn_data c) s))"

definition owns_conn_of :: "env \<Rightarrow> ptr \<Rightarrow> ptr set \<Rightarrow> res multiset \<Rightarrow> st \<Rightarrow> bool" where
  "owns_conn_of E k B R s \<longleftrightarrow> owns_conn k B R s \<and> payload_at E k s"

lemma payload_at_cong: "payload_at E k s \<Longrightarrow> mem s' = mem s \<Longrightarrow> payload_at E k s'"
  by (simp add: payload_at_def obj_at_def pdata_bytes_cong [of s' _ s])

lemma payload_atI: "obj_at k (O_conn c) s \<Longrightarrow> known_payload E (pdata_bytes (conn_data c) s) \<Longrightarrow> payload_at E k s"
  by (auto simp: payload_at_def obj_at_def)

lemma owns_conn_of_local:
  assumes "owns_conn_of E k B R s" and "\<And>q. q \<in> B \<Longrightarrow> mem s' q = mem s q"
  shows "owns_conn_of E k B R s'"
proof -
  from assms(1) obtain c where own: "owns_conn k B R s" "obj_at k (O_conn c) s" "known_payload E (pdata_bytes (conn_data c) s)"
    by (auto simp: owns_conn_of_def payload_at_def dest: owns_conn_live)
  have sub: "k \<in> B" "pdata_blocks (conn_data c) \<subseteq> B" using owns_conn_pdata [OF own(1,2)] by auto
  then have "pdata_bytes (conn_data c) s' = pdata_bytes (conn_data c) s"
    using assms(2) by (cases "pdata_ptr (conn_data c) = NULL") (auto simp: pdata_bytes_def deref_def pdata_blocks_def)
  with own(2,3) sub(1) assms(2) have "payload_at E k s'" by (intro payload_atI [of _ c]) (simp_all add: obj_at_def)
  then show ?thesis using owns_conn_cong [OF own(1) assms(2)] by (simp add: owns_conn_of_def)
qed

lemma pdata_bytes_NULL: "pdata_ptr d = NULL \<Longrightarrow> pdata_bytes d s = []"
  by (simp add: pdata_bytes_def deref_def)

lemma next_event_payload:
  assumes p: "payload_at E k s" and c: "obj_at k (O_conn c) s" and ok: "pdata_ok (conn_data c) s"
    and r: "r = respond E (trace s) (Rdma_get_cm_event ch)" "rint r = 0"
    and post: "next_event_post k c s (rcm r) x ret out s'"
  shows "payload_at E k s'"
proof -
  have old: "known_payload E (pdata_bytes (conn_data c) s)" using p c by (simp add: payload_at_def)
  have new: "known_payload E (event_payload (rcm r))" using r unfolding known_payload_def Let_def by blast
  from post obtain d where inv: "next_event_inv k c s (rcm r) d s'" and
    cases: "pdata_bytes d s' = pdata_after c (rcm r) s \<or> d = conn_data c \<or> d = no_pdata"
    by (auto simp: next_event_post_def)
  have same: "pdata_bytes (conn_data c) s' = pdata_bytes (conn_data c) s" if "d = conn_data c"
  proof (cases "pdata_ptr (conn_data c) = NULL")
    case False
    then have "pdata_ptr (conn_data c) \<in> pdata_blocks d" using that by (simp add: pdata_blocks_def)
    moreover have "k \<notin> pdata_blocks (conn_data c)" by (rule pdata_disjoint(1) [OF ok c])
    ultimately show ?thesis using inv that by (intro pdata_bytes_cong) (auto simp: next_event_inv_def)
  qed (simp add: pdata_bytes_NULL)
  have "known_payload E (pdata_bytes d s')"
    using cases old new same by (auto simp: pdata_after_def pdata_bytes_NULL known_payload_def)
  then show ?thesis using inv by (intro payload_atI [of _ "c\<lparr>conn_data := d\<rparr>"]) (simp_all add: next_event_inv_def)
qed

lemma wp_conn_next_event:
  assumes own: "owns_conn k B R s" and ok: "ledger_ok s" and wf: "events_wf E" and pl: "payload_at E k s"
    and Q: "\<And>ret out B' ids s'. ledger_ok s' \<Longrightarrow> conn_kept k B R B' s s' \<Longrightarrow> payload_at E k s' \<Longrightarrow>
       acct s' = acct s + image_mset R_id ids \<Longrightarrow> (no_requests E \<Longrightarrow> ids = {#}) \<Longrightarrow> Q (ret, Some out) s'"
  shows "wp (rpma_conn_next_event E k (Some x) s) Q"
proof -
  from owns_conn_live [OF own] obtain c where c: "obj_at k (O_conn c) s" "pdata_ok (conn_data c) s" by blast
  let ?r = "respond E (trace s) (Rdma_get_cm_event (conn_evch c))"
  have "rint ?r = 0 \<Longrightarrow> event_wf (rcm ?r)" using wf by (simp add: events_wf_def Let_def)
  then show ?thesis
  proof (rule wp_mono [OF conn_next_event_spec [OF c ok refl]])
    fix r :: "rc \<times> int option" and s'
    obtain ret out where r: "r = (ret, out)" by fastforce
    assume post: "(\<lambda>(ret, out) s'. if rint ?r = 0 then next_event_post k c s (rcm ?r) x ret out s'
      else ret = (if errno s' = ENODATA then RPMA_E_NO_EVENT else RPMA_E_PROVIDER) \<and> out = Some x \<and>
        unchanged s s' \<and> ledger_ok s') r s'"
    show "Q r s'"
    proof (cases "rint ?r = 0")
      case True
      with post r have p: "next_event_post k c s (rcm ?r) x ret out s'" by simp
      then obtain d where inv: "next_event_inv k c s (rcm ?r) d s'" by (auto simp: next_event_post_def)
      from p obtain v where out: "out = Some v" by (auto simp: next_event_post_def)
      from next_event_inv_kept [OF own c(1) inv] obtain B' where k: "conn_kept k B R B' s s'" by blast
      let ?ids = "if ev_event (rcm ?r) = RDMA_CM_EVENT_CONNECT_REQUEST then {#ev_id (rcm ?r)#} else {#}"
      have a: "acct s' = acct s + image_mset R_id ?ids"
        using inv by (simp add: next_event_inv_def new_id_of_def)
      have n: "?ids = {#}" if "no_requests E" using that True by (auto simp: no_requests_def Let_def)
      from inv have "ledger_ok s'" by (simp add: next_event_inv_def)
      from Q [OF this k next_event_payload [OF pl c refl True p] a n] out r show ?thesis by simp
    next
      case False
      with post r show ?thesis
        using Q [of s' B "{#}"] conn_kept_same [OF own] payload_at_cong [OF pl] by (simp add: unchanged_def)
    qed
  qed
qed

text \<open>Operations that leave memory and ledger alone.\<close>

lemma wp_rpma_conn_disconnect:
  assumes "owns_conn k B R s" and "ledger_ok s"
    and "\<And>ret s'. ledger_ok s' \<Longrightarrow> mem s' = mem s \<Longrightarrow> acct s' = acct s \<Longrightarrow> Q ret s'"
  shows "wp (rpma_conn_disconnect E k s) Q"
proof -
  from owns_conn_live [OF assms(1)] obtain c where "obj_at k (O_conn c) s" by blast
  with assms(2) show ?thesis
    by (auto simp: rpma_conn_disconnect_def obj_at_nonnull intro!: wp_ext assms(3))
qed

end
