(* ===== verification/Scopes.thy ===== *)
theory Scopes
  imports Conn_Use
begin

text \<open>
  The objects a program holds, as a stack of scopes. A program starts in a state \<open>s0\<close>; what it holds is
  described by a predicate on states that is built from the bottom: \<open>clean E s0\<close> holds nothing,
  \<open>over owns E P k\<close> holds the object \<open>k\<close> in addition to what \<open>P\<close> describes. Constructors push a scope,
  destructors pop it, everything else keeps the stack. CM IDs that came with connect requests and were
  not made part of a connection may remain; they are accounted for in every scope, and there are none
  of them in a process that gets no connect requests (\<open>no_requests\<close>).
  The locale \<open>scoped\<close> is the contract of an object kind; it is interpreted for the connection, the
  peer, the endpoint, local and remote memory regions, both configurations and plain memory blocks.
\<close>

definition ids_left :: "ptr multiset \<Rightarrow> st \<Rightarrow> st \<Rightarrow> bool" where
  "ids_left ids s0 s \<longleftrightarrow> mem s = mem s0 \<and> acct s = acct s0 + image_mset R_id ids"

definition clean :: "env \<Rightarrow> st \<Rightarrow> st \<Rightarrow> bool" where
  "clean E s0 s \<longleftrightarrow> ledger_ok s \<and> (\<exists>ids. ids_left ids s0 s \<and> (no_requests E \<longrightarrow> ids = {#}))"

definition over ::
  "(ptr \<Rightarrow> ptr set \<Rightarrow> res multiset \<Rightarrow> st \<Rightarrow> bool) \<Rightarrow> env \<Rightarrow> (st \<Rightarrow> bool) \<Rightarrow> ptr \<Rightarrow> st \<Rightarrow> bool" where
  "over owns E P k s \<longleftrightarrow> ledger_ok s \<and> (\<exists>s1 ids B R. P s1 \<and> owns k B R s \<and>
     created B (R + image_mset R_id ids) s1 s \<and> (no_requests E \<longrightarrow> ids = {#}))"

text \<open>A scope is not affected by steps that change nothing but the CM IDs.\<close>

definition stable :: "env \<Rightarrow> (st \<Rightarrow> bool) \<Rightarrow> bool" where
  "stable E P \<longleftrightarrow> (\<forall>s s'. P s \<longrightarrow> ledger_ok s \<and> (clean E s s' \<longrightarrow> P s'))"

lemma stableD: "stable E P \<Longrightarrow> P s \<Longrightarrow> clean E s s' \<Longrightarrow> P s'"
  by (auto simp: stable_def)

lemma stable_ledger: "stable E P \<Longrightarrow> P s \<Longrightarrow> ledger_ok s"
  by (auto simp: stable_def)

lemma clean_unchanged: "ledger_ok s' \<Longrightarrow> unchanged s s' \<Longrightarrow> clean E s s'"
  by (auto simp: clean_def ids_left_def unchanged_def)

lemma clean_refl: "ledger_ok s \<Longrightarrow> clean E s s"
  by (simp add: clean_unchanged)

lemma clean_trans: "clean E s t \<Longrightarrow> clean E t u \<Longrightarrow> clean E s u"
  by (fastforce simp: clean_def ids_left_def image_mset_union [symmetric] simp del: image_mset_union)

lemma stable_clean: "stable E (clean E s0)"
  by (auto simp: stable_def intro: clean_trans) (simp add: clean_def)

lemma clean_silent:
  assumes "clean E s0 s" and "no_requests E"
  shows "ledger_ok s \<and> unchanged s0 s"
  using assms by (auto simp: clean_def ids_left_def unchanged_def)

text \<open>Objects below the top of the stack are still there.\<close>

lemma over_live: "over owns E P k s \<Longrightarrow> (\<And>t. P t \<Longrightarrow> \<exists>x. obj_at q (f x) t) \<Longrightarrow> \<exists>x. obj_at q (f x) s"
  unfolding over_def by (metis created_obj_at)

lemma over_below:
  assumes "over owns E P k s"
  shows "\<exists>s1. P s1 \<and> (\<forall>q x. obj_at q x s1 \<longrightarrow> obj_at q x s)"
  using assms unfolding over_def by (metis created_obj_at)

lemma over_mono: "over owns E X k s \<Longrightarrow> (\<And>t. X t \<Longrightarrow> Y t) \<Longrightarrow> over owns E Y k s"
  unfolding over_def by blast

locale scoped =
  fixes owns :: "ptr \<Rightarrow> ptr set \<Rightarrow> res multiset \<Rightarrow> st \<Rightarrow> bool"
    and destroy :: "env \<Rightarrow> ptr \<Rightarrow> st \<Rightarrow> ((rc \<times> ptr option) \<times> st) option"
  assumes owns_local: "owns k B R s \<Longrightarrow> (\<And>q. q \<in> B \<Longrightarrow> mem s' q = mem s q) \<Longrightarrow> owns k B R s'"
    and owns_blocks_live: "owns k B R s \<Longrightarrow> q \<in> B \<Longrightarrow> mem s q \<noteq> None"
    and destroy_spec: "owns k B R s \<Longrightarrow> ledger_ok s \<Longrightarrow> R \<subseteq># acct s \<Longrightarrow>
      wp (destroy E k s) (\<lambda>(ret, out) s'. ledger_ok s' \<and> destroyed B R s s' \<and> out = Some NULL)"
begin

lemma stable_over: "stable E (over owns E P k)"
  unfolding stable_def
proof (intro allI impI conjI)
  fix s s'
  assume o: "over owns E P k s"
  then show "ledger_ok s" by (simp add: over_def)
  assume c: "clean E s s'"
  from o obtain s1 ids B R where
    a: "P s1" "owns k B R s" "created B (R + image_mset R_id ids) s1 s" "no_requests E \<longrightarrow> ids = {#}"
    by (auto simp: over_def)
  from c obtain ids' where b: "ledger_ok s'" "ids_left ids' s s'" "no_requests E \<longrightarrow> ids' = {#}" by (auto simp: clean_def)
  have "owns k B R s'" using owns_local [OF a(2)] b(2) by (simp add: ids_left_def)
  moreover have "created B (R + image_mset R_id (ids + ids')) s1 s'"
    using a(3) b(2) by (auto simp: created_def ids_left_def)
  ultimately show "over owns E P k s'" using a b unfolding over_def by blast
qed

lemma wp_pop:
  assumes "over owns E P k s" and P: "stable E P" and Q: "\<And>ret s'. P s' \<Longrightarrow> Q (ret, Some NULL) s'"
  shows "wp (destroy E k s) Q"
proof -
  from assms(1) obtain s1 ids B R where
    a: "ledger_ok s" "P s1" "owns k B R s" "created B (R + image_mset R_id ids) s1 s" "no_requests E \<longrightarrow> ids = {#}"
    by (auto simp: over_def)
  have sub: "R \<subseteq># acct s" using a(4) by (simp add: created_def)
  show ?thesis
  proof (rule wp_mono [OF destroy_spec [OF a(3,1) sub]], clarsimp)
    fix ret s'
    assume s': "ledger_ok s'" "destroyed B R s s'"
    have "ids_left ids s1 s'" using a(4) s'(2) by (auto simp: created_def destroyed_def ids_left_def fun_eq_iff)
    with s'(1) a(5) have "clean E s1 s'" by (auto simp: clean_def)
    from stableD [OF P a(2) this] show "Q (ret, Some NULL) s'" by (rule Q)
  qed
qed

lemma push: "P s \<Longrightarrow> ledger_ok s' \<Longrightarrow> owns k B R s' \<Longrightarrow> created B R s s' \<Longrightarrow> over owns E P k s'"
  unfolding over_def by (intro conjI exI [of _ s] exI [of _ "{#}"] exI) auto

text \<open>Objects need not be destroyed in the order of the stack: what is below the top can be taken for
  the top. The state without it is the one its destructor leads to.\<close>

lemma swap:
  assumes o: "over owns' E (over owns E P k) k' s"
    and loc: "\<And>B R s s'. owns' k' B R s \<Longrightarrow> (\<And>q. q \<in> B \<Longrightarrow> mem s' q = mem s q) \<Longrightarrow> owns' k' B R s'"
  shows "over owns E (over owns' E P k') k s"
proof -
  from o obtain s1 ids B' R' where s: "ledger_ok s" "owns' k' B' R' s" "created B' (R' + image_mset R_id ids) s1 s"
    "no_requests E \<longrightarrow> ids = {#}" and "over owns E P k s1"
    unfolding over_def by blast
  then obtain s2 ids' B R where s1: "P s2" "owns k B R s1" "created B (R + image_mset R_id ids') s2 s1"
    "no_requests E \<longrightarrow> ids' = {#}"
    unfolding over_def by blast
  have dis: "q \<notin> B'" if "q \<in> B" for q
    using s(3) owns_blocks_live [OF s1(2) that] by (auto simp: created_def)
  have own: "owns k B R s" using s1(2) by (rule owns_local) (use dis s(3) in \<open>simp add: created_def\<close>)
  have a: "acct s = acct s2 + (R' + image_mset R_id (ids + ids')) + R" using s(3) s1(3) by (simp add: created_def)
  then have "R \<subseteq># acct s" by simp
  from wp_result [OF destroy_spec [OF own s(1) this]] obtain t where t: "ledger_ok t" "destroyed B R s t" by auto
  have "owns' k' B' R' t" using s(2) by (rule loc) (use dis t(2) in \<open>auto simp: destroyed_def\<close>)
  moreover have "created B' (R' + image_mset R_id (ids + ids')) s2 t"
    unfolding created_def
  proof (intro conjI ballI allI impI)
    fix q assume "q \<in> B'"
    then show "mem s2 q = None" using s(3) s1(3) dis by (metis created_def)
  next
    fix q assume "q \<notin> B'"
    then show "mem t q = mem s2 q" using s(3) s1(3) t(2) by (auto simp: created_def destroyed_def)
  next
    show "acct t = acct s2 + (R' + image_mset R_id (ids + ids'))" using a t(2) by (simp add: destroyed_def)
  qed
  ultimately have "over owns' E P k' t" using t(1) s1(1) s(4) s1(4) unfolding over_def by blast
  moreover have "created B R t s" using t(2) a s(3) s1(3) dis by (auto simp: created_def destroyed_def)
  ultimately show ?thesis using own s(1) by (intro push [where P = "over owns' E P k'" and s = t])
qed

end

subsection \<open>The kinds of objects\<close>

interpretation conn_scope: scoped "owns_conn_of E0" "\<lambda>E k. rpma_conn_delete E (Some k)"
  for E0
proof unfold_locales
  fix k B R and s s' :: st
  assume "owns_conn_of E0 k B R s" and "\<And>q. q \<in> B \<Longrightarrow> mem s' q = mem s q"
  then show "owns_conn_of E0 k B R s'" by (rule owns_conn_of_local)
next
  fix k B R q and s :: st
  assume "owns_conn_of E0 k B R s" and "q \<in> B"
  then show "mem s q \<noteq> None" using owns_conn_blocks_live by (auto simp: owns_conn_of_def)
next
  fix k B R and s :: st and E
  assume "owns_conn_of E0 k B R s" and "ledger_ok s" and "R \<subseteq># acct s"
  then show "wp (rpma_conn_delete E (Some k) s) (\<lambda>(ret, out) s'. ledger_ok s' \<and> destroyed B R s s' \<and> out = Some NULL)"
    unfolding owns_conn_of_def by (blast intro: wp_rpma_conn_delete)
qed

interpretation peer_scope: scoped owns_peer "\<lambda>E k. rpma_peer_delete E (Some k)"
proof unfold_locales
  fix k B R and s :: st and E
  assume "owns_peer k B R s" and "ledger_ok s" and "R \<subseteq># acct s"
  then show "wp (rpma_peer_delete E (Some k) s) (\<lambda>(ret, out) s'. ledger_ok s' \<and> destroyed B R s s' \<and> out = Some NULL)"
    by (auto simp: owns_peer_def destroyed_one intro!: wp_rpma_peer_delete)
qed (auto simp: owns_peer_def obj_at_def)

text \<open>An endpoint, with the peer it belongs to.\<close>

definition owns_ep_of :: "ptr \<Rightarrow> ptr \<Rightarrow> ptr set \<Rightarrow> res multiset \<Rightarrow> st \<Rightarrow> bool" where
  "owns_ep_of peer p B R s \<longleftrightarrow> (\<exists>e. obj_at p (O_ep e) s \<and> ep_peer e = peer \<and> B = {p} \<and> R = ep_res e)"

interpretation ep_scope: scoped "owns_ep_of peer" "\<lambda>E k. rpma_ep_shutdown E (Some k)"
  for peer
proof unfold_locales
  fix k B R and s :: st and E
  assume "owns_ep_of peer k B R s" and "ledger_ok s" and "R \<subseteq># acct s"
  then show "wp (rpma_ep_shutdown E (Some k) s) (\<lambda>(ret, out) s'. ledger_ok s' \<and> destroyed B R s s' \<and> out = Some NULL)"
    by (auto simp: owns_ep_of_def intro!: wp_rpma_ep_shutdown)
qed (auto simp: owns_ep_of_def obj_at_def)

interpretation mr_scope: scoped owns_mr "\<lambda>E k. rpma_mr_dereg E (Some k)"
proof unfold_locales
  fix k B R and s :: st and E
  assume "owns_mr k B R s" and "ledger_ok s" and "R \<subseteq># acct s"
  then show "wp (rpma_mr_dereg E (Some k) s) (\<lambda>(ret, out) s'. ledger_ok s' \<and> destroyed B R s s' \<and> out = Some NULL)"
    by (auto simp: owns_mr_def destroyed_one intro!: wp_rpma_mr_dereg)
qed (auto simp: owns_mr_def obj_at_def)

text \<open>Objects that are one heap block and no more.\<close>

definition owns_plain :: "('a \<Rightarrow> obj) \<Rightarrow> ptr \<Rightarrow> ptr set \<Rightarrow> res multiset \<Rightarrow> st \<Rightarrow> bool" where
  "owns_plain f p B R s \<longleftrightarrow> (\<exists>x. obj_at p (f x) s) \<and> B = {p} \<and> R = {#}"

definition free_block :: "env \<Rightarrow> ptr \<Rightarrow> st \<Rightarrow> ((rc \<times> ptr option) \<times> st) option" where
  "free_block E p s = do { (_, s) \<leftarrow> free p s; Some ((0, Some NULL), s) }"

interpretation plain_scope: scoped "owns_plain f" free_block
  for f :: "'a \<Rightarrow> obj"
proof unfold_locales
  fix k B R and s :: st and E
  assume "owns_plain f k B R s" and "ledger_ok s"
  then show "wp (free_block E k s) (\<lambda>(ret, out) s'. ledger_ok s' \<and> destroyed B R s s' \<and> out = Some NULL)"
    by (auto simp: owns_plain_def free_block_def intro!: wp_free destroyed_one)
qed (auto simp: owns_plain_def obj_at_def)

lemma wp_pop_free:
  assumes "over (owns_plain f) E P k s" and "stable E P" and "\<And>s'. P s' \<Longrightarrow> Q () s'"
  shows "wp (free k s) Q"
proof -
  have "wp (free_block E k s) (\<lambda>_ s'. Q () s')"
    by (rule plain_scope.wp_pop [OF assms(1,2)]) (rule assms(3))
  then show ?thesis by (simp add: free_block_def)
qed

text \<open>What is on top of the stack is alive.\<close>

lemma over_ledger: "over owns E P k s \<Longrightarrow> ledger_ok s"
  by (simp add: over_def)

lemma over_top:
  "over (owns_conn_of E) E P k s \<Longrightarrow> \<exists>x. obj_at k (O_conn x) s"
  "over owns_peer E P k s \<Longrightarrow> \<exists>x. obj_at k (O_peer x) s"
  "over (owns_ep_of peer) E P k s \<Longrightarrow> \<exists>x. obj_at k (O_ep x) s"
  "over owns_mr E P k s \<Longrightarrow> \<exists>x. obj_at k (O_mr_local x) s"
  "over (owns_plain f) E P k s \<Longrightarrow> \<exists>x. obj_at k (f x) s"
  by (auto simp: over_def owns_conn_of_def owns_conn_def owns_peer_def owns_ep_of_def owns_mr_def owns_plain_def)

lemma over_ep: "over (owns_ep_of peer) E P k s \<Longrightarrow> \<exists>e. obj_at k (O_ep e) s \<and> ep_peer e = peer"
  by (auto simp: over_def owns_ep_of_def)

lemmas stable_scopes = stable_clean conn_scope.stable_over peer_scope.stable_over ep_scope.stable_over
  mr_scope.stable_over plain_scope.stable_over

lemmas wp_pops = conn_scope.wp_pop peer_scope.wp_pop ep_scope.wp_pop mr_scope.wp_pop wp_pop_free

subsection \<open>Opening scopes\<close>

lemma stable_same: "stable E P \<Longrightarrow> P s \<Longrightarrow> ledger_ok s' \<Longrightarrow> mem s' = mem s \<Longrightarrow> acct s' = acct s \<Longrightarrow> P s'"
  by (erule (1) stableD) (simp add: clean_unchanged unchanged_def)

lemma wp_push_peer:
  assumes P: "stable E P" and s: "P s"
    and Q0: "\<And>k s'. over owns_peer E P k s' \<Longrightarrow> Q (0, Some k) s'"
    and Q1: "\<And>ret s'. P s' \<Longrightarrow> ret \<noteq> 0 \<Longrightarrow> Q (ret, Some x) s'"
  shows "wp (rpma_peer_new E ctx (Some x) s) Q"
proof (cases "ctx = NULL")
  case True
  with s show ?thesis by (auto simp: rpma_peer_new_def intro!: Q1 [unfolded RPMA_E_INVAL_def])
next
  case False
  have "over owns_peer E P q s'"
    if "ledger_ok s'" "fresh q s" "mem s' = (mem s)(q \<mapsto> O_peer p)" "acct s' = acct s + peer_res p" for q p s'
  proof (rule peer_scope.push [where P = P and s = s and B = "{q}" and R = "peer_res p", OF s that(1)])
    show "owns_peer q {q} (peer_res p) s'" using fresh_obj_at [OF that(2,3)] by (auto simp: owns_peer_def)
  qed (rule created_one [OF that(2-4)])
  then show ?thesis
    by (intro wp_rpma_peer_new [OF stable_ledger [OF P s] False]) (auto intro: Q0 Q1 stable_same [OF P s])
qed

lemma wp_get_ibv_context:
  assumes P: "stable E P" and s: "P s" and Q: "\<And>ret ctx s'. P s' \<Longrightarrow> Q (ret, ctx) s'"
  shows "wp (rpma_utils_get_ibv_context E addr type x s) Q"
  by (rule wp_mono [OF get_ibv_context_spec [OF stable_ledger [OF P s]]])
     (auto intro!: Q stable_same [OF P s] simp: unchanged_def)

lemma wp_push_ep:
  assumes P: "stable E P" and s: "P s" and "peer \<noteq> NULL"
    and Q0: "\<And>k s'. over (owns_ep_of peer) E P k s' \<Longrightarrow> Q (0, Some k) s'"
    and Q1: "\<And>ret s'. P s' \<Longrightarrow> ret \<noteq> 0 \<Longrightarrow> Q (ret, Some x) s'"
  shows "wp (rpma_ep_listen E peer (Some addr) (Some port) (Some x) s) Q"
proof -
  have "over (owns_ep_of peer) E P q s'"
    if "ledger_ok s'" "fresh q s" "mem s' = (mem s)(q \<mapsto> O_ep \<lparr>ep_peer = peer, ep_id = i, ep_evch = ev\<rparr>)"
      "acct s' = acct s + {#R_id i, R_evch ev#}" for q i ev s'
  proof (rule ep_scope.push [where P = P and s = s and B = "{q}" and R = "{#R_id i, R_evch ev#}", OF s that(1)])
    show "owns_ep_of peer q {q} {#R_id i, R_evch ev#} s'"
      using fresh_obj_at [OF that(2,3)] by (auto simp: owns_ep_of_def ep_res_def)
  qed (rule created_one [OF that(2-4)])
  then show ?thesis
    by (intro wp_rpma_ep_listen [OF stable_ledger [OF P s] assms(3)])
       (auto intro: Q0 Q1 stable_same [OF P s] simp: unchanged_def)
qed

lemma wp_push_mr:
  assumes P: "stable E P" and s: "P s" and peer: "\<exists>p. obj_at peer (O_peer p) s"
    and Q0: "\<And>k s'. over owns_mr E P k s' \<Longrightarrow> Q (0, Some k) s'"
    and Q1: "\<And>ret s'. P s' \<Longrightarrow> ret \<noteq> 0 \<Longrightarrow> Q (ret, Some x) s'"
  shows "wp (rpma_mr_reg E peer addr len usage (Some x) s) Q"
proof (cases "addr \<noteq> 0 \<and> len \<noteq> 0 \<and> usage_valid usage")
  case True
  from peer obtain p where p: "obj_at peer (O_peer p) s" by blast
  have "over owns_mr E P q s'"
    if "ledger_ok s'" "fresh q s" "mem s' = (mem s)(q \<mapsto> O_mr_local m)" "acct s' = acct s + mr_res m" for q m s'
  proof (rule mr_scope.push [where P = P and s = s and B = "{q}" and R = "mr_res m", OF s that(1)])
    show "owns_mr q {q} (mr_res m) s'" using fresh_obj_at [OF that(2,3)] by (auto simp: owns_mr_def)
  qed (rule created_one [OF that(2-4)])
  with True show ?thesis
    by (intro wp_rpma_mr_reg [OF p _ _ _ stable_ledger [OF P s]]) (auto intro: Q0 Q1 stable_same [OF P s])
next
  case False
  then have "rpma_mr_reg E peer addr len usage (Some x) s = Some ((RPMA_E_INVAL, Some x), s)"
    by (intro rpma_mr_reg_invalid) auto
  with s show ?thesis by (auto intro!: Q1 [unfolded RPMA_E_INVAL_def])
qed

lemma over_plain_new:
  assumes "P s" and "ledger_ok s'" and "fresh k s" and "mem s' = (mem s)(k \<mapsto> f x)" and "acct s' = acct s"
  shows "over (owns_plain f) E P k s'"
proof (rule plain_scope.push [where P = P and s = s and B = "{k}" and R = "{#}", OF assms(1,2)])
  show "owns_plain f k {k} {#} s'" using fresh_obj_at [OF assms(3,4)] by (auto simp: owns_plain_def)
qed (rule created_one [OF assms(3,4)], simp add: assms(5))

subsection \<open>Requests\<close>

definition pdata_arg_ok :: "rpma_conn_private_data option \<Rightarrow> bool" where
  "pdata_arg_ok pdata \<longleftrightarrow> (pdata \<noteq> None \<longrightarrow> pdata_ptr (the pdata) \<noteq> NULL \<and> pdata_len (the pdata) \<noteq> 0)"

lemma pdata_arg_okI [simp]:
  "pdata_arg_ok None" "p \<noteq> NULL \<Longrightarrow> n \<noteq> 0 \<Longrightarrow> pdata_arg_ok (Some \<lparr>pdata_ptr = p, pdata_len = n\<rparr>)"
  by (simp_all add: pdata_arg_ok_def)

text \<open>A request is held until it is connected or deleted. An incoming one came with a connect request.\<close>

definition req_over :: "env \<Rightarrow> (st \<Rightarrow> bool) \<Rightarrow> bool \<Rightarrow> ptr \<Rightarrow> ptr \<Rightarrow> st \<Rightarrow> bool" where
  "req_over E P passive peer k s \<longleftrightarrow> ledger_ok s \<and> (passive \<longrightarrow> \<not> no_requests E) \<and> (\<exists>s1 c B R. P s1 \<and>
     owns_req k c B R s \<and> created B (R + {#R_id (req_id c)#}) s1 s \<and> req_peer c = peer \<and>
     req_is_passive c = passive \<and> (\<not> passive \<longrightarrow> req_data c = no_pdata) \<and>
     known_payload E (pdata_bytes (req_data c) s))"

lemma connected_created:
  assumes "created B (R + {#R_id (req_id c)#}) s s1" and "k \<in> B" and "connected k c B R k2 s1 s2"
    and own: "owns_req k c B R s1" and known: "known_payload E (pdata_bytes (req_data c) s1)"
  shows "\<exists>B' R'. owns_conn_of E k2 B' R' s2 \<and> created B' R' s s2"
proof -
  from assms(3) obtain N NR where own: "owns_conn k2 (B - {k} \<union> N) (R + {#R_id (req_id c)#} + NR) s2"
    and a: "acct s2 = acct s1 + NR" and n: "\<forall>q\<in>N. mem s1 q = None" and k: "mem s2 k = None"
    and rest: "\<forall>q. q \<notin> N \<and> q \<noteq> k \<longrightarrow> mem s2 q = mem s1 q"
    and cc: "\<exists>cc. obj_at k2 (O_conn cc) s2 \<and> conn_data cc = req_data c"
    by (auto simp: connected_def)
  have "pdata_bytes (req_data c) s2 = pdata_bytes (req_data c) s1"
  proof (cases "pdata_ptr (req_data c) = NULL")
    case False
    then obtain bs where b: "mem s1 (pdata_ptr (req_data c)) = Some (O_bytes bs)" "mem s1 k = Some (O_conn_req c)"
      using assms(4) by (auto simp: owns_req_def pdata_ok_def obj_at_def)
    then have "pdata_ptr (req_data c) \<notin> N" "pdata_ptr (req_data c) \<noteq> k" using n by force+
    then show ?thesis using rest by (intro pdata_bytes_cong) simp
  qed (simp add: pdata_bytes_NULL)
  then have pl: "payload_at E k2 s2" using cc known payload_atI by metis
  have "created (B - {k} \<union> N) (R + {#R_id (req_id c)#} + NR) s s2"
    unfolding created_def
  proof (intro conjI ballI allI impI)
    fix q
    assume "q \<in> B - {k} \<union> N"
    then show "mem s q = None" using assms(1) n by (cases "q \<in> B") (auto simp: created_def)
  next
    fix q
    assume "q \<notin> B - {k} \<union> N"
    then show "mem s2 q = mem s q" using assms(1,2) k rest by (cases "q = k") (auto simp: created_def)
  next
    show "acct s2 = acct s + (R + {#R_id (req_id c)#} + NR)" using assms(1) a by (simp add: created_def)
  qed
  with own pl show ?thesis unfolding owns_conn_of_def by blast
qed

lemma wp_req_new:
  assumes P: "stable E P" and s: "P s" and peer: "\<exists>p. obj_at peer (O_peer p) s"
    and cfg: "cfg \<noteq> NULL \<Longrightarrow> \<exists>f. load_conn_cfg cfg s = Some f"
    and Q0: "\<And>k s'. req_over E P False peer k s' \<Longrightarrow> Q (0, Some k) s'"
    and Q1: "\<And>ret s'. P s' \<Longrightarrow> ret \<noteq> 0 \<Longrightarrow> Q (ret, Some x) s'"
  shows "wp (rpma_conn_req_new E peer (Some addr) (Some port) cfg (Some x) s) Q"
proof -
  from peer cfg obtain p f where p: "obj_at peer (O_peer p) s" and f: "cfg \<noteq> NULL \<Longrightarrow> load_conn_cfg cfg s = Some f" by blast
  show ?thesis
  proof (rule wp_mono [OF conn_req_new_spec [OF p f stable_ledger [OF P s]]], goal_cases)
    case (2 r s')
    obtain ret out where r: "r = (ret, out)" by fastforce
    with 2 have post: "req_new_post peer x s ret out s'" by simp
    show ?case
    proof (cases "ret = 0")
      case True
      with post obtain k c B R where "out = Some k" "owns_req k c B R s'" "created B (R + {#R_id (req_id c)#}) s s'"
        "\<not> req_is_passive c" "req_data c = no_pdata" "req_peer c = peer" "ledger_ok s'"
        by (auto simp: req_new_post_def)
      moreover from this have "known_payload E (pdata_bytes (req_data c) s')" by (simp add: pdata_bytes_NULL known_payload_def)
      ultimately have "req_over E P False peer k s'" "out = Some k" using s unfolding req_over_def by blast+
      then show ?thesis using True r Q0 by simp
    next
      case False
      with post r Q1 stable_same [OF P s] show ?thesis by (auto simp: req_new_post_def unchanged_def)
    qed
  qed
qed

lemma wp_req_connect:
  assumes P: "stable E P" and req: "req_over E P passive peer k s"
    and peer: "\<And>t. P t \<Longrightarrow> \<exists>p. obj_at peer (O_peer p) t" and pd: "pdata_arg_ok pdata"
    and Q0: "\<And>k2 s'. over (owns_conn_of E) E P k2 s' \<Longrightarrow> Q (0, Some NULL, Some k2) s'"
    and Q1: "\<And>ret s'. P s' \<Longrightarrow> ret \<noteq> 0 \<Longrightarrow> Q (ret, Some NULL, Some x) s'"
  shows "wp (rpma_conn_req_connect E (Some k) pdata (Some x) s) Q"
proof -
  from req obtain s1 c B R where ok: "ledger_ok s" and r: "P s1" "owns_req k c B R s"
    "created B (R + {#R_id (req_id c)#}) s1 s" "req_peer c = peer" "req_is_passive c = passive"
    "\<not> passive \<Longrightarrow> req_data c = no_pdata" "passive \<Longrightarrow> \<not> no_requests E"
    "known_payload E (pdata_bytes (req_data c) s)" by (auto simp: req_over_def)
  from peer [OF r(1)] obtain p where "obj_at peer (O_peer p) s1" by blast
  from created_obj_at [OF r(3) this, folded r(4)] have p: "obj_at (req_peer c) (O_peer p) s" .
  show ?thesis
  proof (rule wp_rpma_conn_req_connect [OF r(2) ok _ p], goal_cases)
    case (4 k2 s')
    have "k \<in> B" using r(2) by (auto simp: owns_req_def)
    from connected_created [OF r(3) this 4(2) r(2,8)] obtain B' R' where
      "owns_conn_of E k2 B' R' s'" "created B' R' s1 s'" by blast
    from conn_scope.push [where P = P and s = s1, OF r(1) 4(1) this] show ?case by (rule Q0)
  next
    case (5 ret s')
    let ?ids = "if passive then {#req_id c#} else {#}"
    have "ids_left ?ids s1 s'"
      using 5(2) r(3,5) by (auto simp: ids_left_def created_def destroyed_def req_id_res_def fun_eq_iff)
    with 5(1) r(7) have "clean E s1 s'" by (fastforce simp: clean_def)
    from stableD [OF P r(1) this] 5(3) show ?case by (rule Q1)
  qed (use r pd in \<open>auto simp: created_def pdata_arg_ok_def\<close>)
qed

lemma wp_req_delete:
  assumes P: "stable E P" and req: "req_over E P passive peer k s" and Q: "\<And>ret s'. P s' \<Longrightarrow> Q (ret, Some NULL) s'"
  shows "wp (rpma_conn_req_delete E (Some k) s) Q"
proof -
  from req obtain s1 c B R where ok: "ledger_ok s" and r: "P s1" "owns_req k c B R s"
    "created B (R + {#R_id (req_id c)#}) s1 s" "req_is_passive c = passive" "passive \<Longrightarrow> \<not> no_requests E"
    by (auto simp: req_over_def)
  have "R + req_id_res c \<subseteq># acct s" using r(3) by (auto simp: created_def req_id_res_def)
  then show ?thesis
  proof (rule wp_rpma_conn_req_delete [OF r(2) ok])
    fix ret s'
    assume s': "ledger_ok s'" "destroyed B (R + req_id_res c) s s'"
    let ?ids = "if passive then {#req_id c#} else {#}"
    have "ids_left ?ids s1 s'"
      using s'(2) r(3,4) by (auto simp: ids_left_def created_def destroyed_def req_id_res_def fun_eq_iff)
    with s'(1) r(5) have "clean E s1 s'" by (fastforce simp: clean_def)
    from stableD [OF P r(1) this] show "Q (ret, Some NULL) s'" by (rule Q)
  qed
qed

lemma req_delete_NULL [simp]: "rpma_conn_req_delete E (Some NULL) s = Some ((0, Some NULL), s)"
  by (simp add: rpma_conn_req_delete_def)

definition request_reported :: "env \<Rightarrow> event list \<Rightarrow> bool" where
  "request_reported E tr \<longleftrightarrow> (\<exists>ch. let r = respond E tr (Rdma_get_cm_event ch) in
     rint r = 0 \<and> ev_event (rcm r) = RDMA_CM_EVENT_CONNECT_REQUEST)"

lemma wp_req_next:
  assumes P: "stable E P" and s: "P s" and ep: "\<exists>e. obj_at ep (O_ep e) s \<and> ep_peer e = peer"
    and peer: "\<exists>p. obj_at peer (O_peer p) s" and cfg: "cfg \<noteq> NULL \<Longrightarrow> \<exists>f. load_conn_cfg cfg s = Some f"
    and wf: "events_wf E"
    and Q0: "\<And>k s'. req_over E P True peer k s' \<Longrightarrow> request_reported E (trace s) \<Longrightarrow> Q (0, Some k) s'"
    and Q1: "\<And>ret out s'. P s' \<Longrightarrow> ret \<noteq> 0 \<Longrightarrow> Q (ret, out) s'"
  shows "wp (rpma_ep_next_conn_req E ep cfg (Some x) s) Q"
proof -
  from ep peer cfg obtain e p f where e: "obj_at ep (O_ep e) s" "ep_peer e = peer" and p: "obj_at (ep_peer e) (O_peer p) s"
    and f: "cfg \<noteq> NULL \<Longrightarrow> load_conn_cfg cfg s = Some f" by blast
  let ?r = "respond E (trace s) (Rdma_get_cm_event (ep_evch e))"
  have w: "rint ?r = 0 \<Longrightarrow> event_wf (rcm ?r)" using wf by (simp add: events_wf_def Let_def)
  have n: "\<not> no_requests E" if "rint ?r = 0" "ev_event (rcm ?r) = RDMA_CM_EVENT_CONNECT_REQUEST"
    using that by (auto simp: no_requests_def Let_def)
  show ?thesis
  proof (rule wp_mono [OF ep_next_conn_req_spec [OF e(1) p f stable_ledger [OF P s] refl w]], goal_cases)
    case (3 r s')
    obtain ret out where r: "r = (ret, out)" by fastforce
    with 3 have ok: "ledger_ok s'" by simp
    show ?case
    proof (cases "rint ?r = 0 \<and> ev_event (rcm ?r) = RDMA_CM_EVENT_CONNECT_REQUEST")
      case True
      note post = 3 [unfolded r next_req_post_def, simplified, simplified True, simplified]
      show ?thesis
      proof (cases "ret = 0")
        case z: True
        with post obtain k c B R where q: "out = Some k" "owns_req k c B R s'" "created B (R + {#R_id (req_id c)#}) s s'"
          "req_is_passive c" "req_peer c = ep_peer e" "pdata_bytes (req_data c) s' = event_payload (rcm ?r)" by auto
        moreover have "known_payload E (event_payload (rcm ?r))" using True unfolding known_payload_def Let_def by blast
        ultimately have "req_over E P True peer k s'"
          using s ok n True e(2) unfolding req_over_def by (metis (no_types, lifting))
        moreover have "request_reported E (trace s)" using True unfolding request_reported_def Let_def by blast
        ultimately show ?thesis using q(1) z r Q0 by simp
      next
        case False
        with post have "mem s' = mem s" "acct s' = acct s + {#R_id (ev_id (rcm ?r))#} \<or> acct s' = acct s" by auto
        then obtain ids where "ids_left ids s s'" by (metis add.right_neutral ids_left_def image_mset_empty image_mset_single)
        with ok n True have "clean E s s'" by (auto simp: clean_def)
        from stableD [OF P s this] False r Q1 show ?thesis by simp
      qed
    next
      case False
      with 3 r have "unchanged s s'" "ret \<noteq> 0" by (auto simp: next_req_post_def split: if_splits)
      with ok r Q1 stable_same [OF P s] show ?thesis by (auto simp: unchanged_def)
    qed
  qed auto
qed

subsection \<open>Using a connection\<close>

lemma wp_next_event:
  assumes "over (owns_conn_of E) E P k s" and wf: "events_wf E"
    and Q: "\<And>ret out s'. over (owns_conn_of E) E P k s' \<Longrightarrow>
       (\<And>c. obj_at k (O_conn c) s \<Longrightarrow> \<exists>d. obj_at k (O_conn (c\<lparr>conn_data := d\<rparr>)) s') \<Longrightarrow> Q (ret, Some out) s'"
  shows "wp (rpma_conn_next_event E k (Some x) s) Q"
proof -
  from assms(1) obtain s1 ids B R where
    a: "ledger_ok s" "P s1" "owns_conn k B R s" "created B (R + image_mset R_id ids) s1 s" "no_requests E \<Longrightarrow> ids = {#}"
    and pl: "payload_at E k s"
    by (auto simp: over_def owns_conn_of_def)
  show ?thesis
  proof (rule wp_conn_next_event [OF a(3,1) wf pl])
    fix ret out B' ids' s'
    assume pl': "payload_at E k s'"
      and k: "ledger_ok s'" "conn_kept k B R B' s s'" "acct s' = acct s + image_mset R_id ids'" "no_requests E \<Longrightarrow> ids' = {#}"
    have "created B' (R + image_mset R_id (ids + ids')) s1 s'" using conn_kept_created [OF a(4) k(2,3)] by simp
    moreover have "owns_conn_of E k B' R s'" using k(2) pl' by (simp add: conn_kept_def owns_conn_of_def)
    moreover have "no_requests E \<longrightarrow> ids + ids' = {#}" using a(5) k(4) by simp
    ultimately have "over (owns_conn_of E) E P k s'" using k(1) a(2) unfolding over_def by blast
    then show "Q (ret, Some out) s'" by (rule Q) (use k(2) in \<open>simp add: conn_kept_def\<close>)
  qed
qed

text \<open>Operations that leave memory and ledger alone keep every stack.\<close>

lemma wp_quiet:
  assumes "stable E P" and "P s"
    and "wp m (\<lambda>r s'. ledger_ok s' \<and> mem s' = mem s \<and> acct s' = acct s)" and "\<And>r s'. P s' \<Longrightarrow> Q r s'"
  shows "wp m Q"
  using assms(3) by (rule wp_mono) (blast intro: assms(4) stable_same [OF assms(1,2)])

lemma quiet_disconnect:
  "ledger_ok s \<Longrightarrow> \<exists>c. obj_at k (O_conn c) s \<Longrightarrow>
    wp (rpma_conn_disconnect E k s) (\<lambda>r s'. ledger_ok s' \<and> mem s' = mem s \<and> acct s' = acct s)"
  by (auto simp: rpma_conn_disconnect_def obj_at_nonnull intro!: wp_ext)

lemma wp_disconnect:
  assumes "over (owns_conn_of E) E P k s" and Q: "\<And>ret s'. over (owns_conn_of E) E P k s' \<Longrightarrow> Q ret s'"
  shows "wp (rpma_conn_disconnect E k s) Q"
  by (rule wp_quiet [OF conn_scope.stable_over assms(1) quiet_disconnect [OF over_ledger [OF assms(1)] over_top(1) [OF assms(1)]]])
     (rule Q)

text \<open>The completion queues of a connection in use are live objects.\<close>

lemma over_conn_cqs:
  assumes "over (owns_conn_of E) E P k s"
  obtains c where "obj_at k (O_conn c) s"
    and "conn_cq c \<noteq> NULL \<Longrightarrow> \<exists>q. obj_at (conn_cq c) (O_cq q) s"
    and "conn_rcq c \<noteq> NULL \<Longrightarrow> \<exists>q. obj_at (conn_rcq c) (O_cq q) s"
  using assms by (force simp: over_def owns_conn_of_def owns_conn_def conn_cqs_def owns_cq_opt_def owns_cq_def)

end
