(* ===== verification/Common_Conn.thy ===== *)
theory Common_Conn
  imports Scopes
begin

text \<open>
  What the example programs share: \<open>src/examples/common/common-conn.c\<close>. Establishing a connection from
  either side, closing it, waiting for a completion. The error messages are left out. The rules say
  which scopes the functions open and close.
\<close>

subsection \<open>The functions\<close>

definition malloc_aligned :: "env \<Rightarrow> nat \<Rightarrow> st \<Rightarrow> (ptr \<times> st) option" where
  "malloc_aligned E sz s = do {
     (r, s) \<leftarrow> ext E Sysconf_pagesize s;
     if rint r < 0 then Some (NULL, s)
     else do {
       (m, s) \<leftarrow> malloc E s;
       if m = NULL then Some (NULL, s)
       else do {
         (_, s) \<leftarrow> store m (O_bytes (replicate sz 0)) s;
         Some (m, s)
       }
     }
   }"

definition common_peer_via_address ::
  "env \<Rightarrow> string \<Rightarrow> int \<Rightarrow> ptr \<Rightarrow> st \<Rightarrow> ((rc \<times> ptr) \<times> st) option" where
  "common_peer_via_address E addr type peer s = do {
     ((ret, ibv_ctx), s) \<leftarrow> rpma_utils_get_ibv_context E (Some addr) type (Some NULL) s;
     if ret \<noteq> 0 then Some ((ret, peer), s)
     else do {
       ((ret, peer), s) \<leftarrow> rpma_peer_new E (the ibv_ctx) (Some peer) s;
       Some ((ret, the peer), s)
     }
   }"

definition client_connect_err_conn_delete :: "env \<Rightarrow> rc \<Rightarrow> ptr \<Rightarrow> st \<Rightarrow> ((rc \<times> ptr) \<times> st) option" where
  "client_connect_err_conn_delete E ret conn s = do {
     ((_, conn), s) \<leftarrow> rpma_conn_delete E (Some conn) s;
     Some ((ret, the conn), s)
   }"

definition client_connect ::
  "env \<Rightarrow> ptr \<Rightarrow> string \<Rightarrow> string \<Rightarrow> ptr \<Rightarrow> rpma_conn_private_data option \<Rightarrow> ptr \<Rightarrow> st
    \<Rightarrow> ((rc \<times> ptr) \<times> st) option" where
  "client_connect E peer addr port cfg pdata conn s = do {
     ((ret, req), s) \<leftarrow> rpma_conn_req_new E peer (Some addr) (Some port) cfg (Some NULL) s;
     if ret \<noteq> 0 then Some ((ret, conn), s)
     else do {
       ((ret, req, conn), s) \<leftarrow> rpma_conn_req_connect E req pdata (Some conn) s;
       if ret \<noteq> 0 then do {
         (_, s) \<leftarrow> rpma_conn_req_delete E req s;
         Some ((ret, the conn), s)
       } else do {
         ((ret, conn_event), s) \<leftarrow> rpma_conn_next_event E (the conn) (Some RPMA_CONN_UNDEFINED) s;
         if ret \<noteq> 0 then client_connect_err_conn_delete E ret (the conn) s
         else if the conn_event \<noteq> RPMA_CONN_ESTABLISHED
         then client_connect_err_conn_delete E (- 1) (the conn) s
         else Some ((0, the conn), s)
       }
     }
   }"

definition server_accept_connection ::
  "env \<Rightarrow> ptr \<Rightarrow> ptr \<Rightarrow> rpma_conn_private_data option \<Rightarrow> ptr \<Rightarrow> st \<Rightarrow> ((rc \<times> ptr) \<times> st) option" where
  "server_accept_connection E ep cfg pdata conn s = do {
     ((ret, req), s) \<leftarrow> rpma_ep_next_conn_req E ep cfg (Some NULL) s;
     if ret \<noteq> 0 then Some ((ret, conn), s)
     else do {
       ((ret, req, conn), s) \<leftarrow> rpma_conn_req_connect E req pdata (Some conn) s;
       if ret \<noteq> 0 then do {
         (_, s) \<leftarrow> rpma_conn_req_delete E req s;
         Some ((ret, the conn), s)
       } else do {
         ((ret, conn_event), s) \<leftarrow> rpma_conn_next_event E (the conn) (Some RPMA_CONN_UNDEFINED) s;
         let ret = (if ret = 0 \<and> the conn_event \<noteq> RPMA_CONN_ESTABLISHED then - 1 else ret);
         if ret \<noteq> 0 then do {
           ((_, conn), s) \<leftarrow> rpma_conn_delete E conn s;
           Some ((ret, the conn), s)
         } else Some ((ret, the conn), s)
       }
     }
   }"

definition common_wait_for_conn_close_verbose :: "env \<Rightarrow> ptr \<Rightarrow> st \<Rightarrow> (rc \<times> st) option" where
  "common_wait_for_conn_close_verbose E conn s = do {
     ((ret, conn_event), s) \<leftarrow> rpma_conn_next_event E conn (Some RPMA_CONN_UNDEFINED) s;
     Some (ret, s)
   }"

definition common_wait_for_conn_close_and_disconnect ::
  "env \<Rightarrow> ptr \<Rightarrow> st \<Rightarrow> ((rc \<times> ptr) \<times> st) option" where
  "common_wait_for_conn_close_and_disconnect E conn s = do {
     (ret1, s) \<leftarrow> common_wait_for_conn_close_verbose E conn s;
     (ret2, s) \<leftarrow> rpma_conn_disconnect E conn s;
     ((ret3, conn), s) \<leftarrow> rpma_conn_delete E (Some conn) s;
     Some ((ret1 OR ret2 OR ret3, the conn), s)
   }"

definition common_disconnect_and_wait_for_conn_close ::
  "env \<Rightarrow> ptr \<Rightarrow> st \<Rightarrow> ((rc \<times> ptr) \<times> st) option" where
  "common_disconnect_and_wait_for_conn_close E conn s = do {
     (ret, s) \<leftarrow> rpma_conn_disconnect E conn s;
     (ret, s) \<leftarrow>
       (if ret = 0 then do {
          (ret2, s) \<leftarrow> common_wait_for_conn_close_verbose E conn s;
          Some (ret OR ret2, s)
        } else Some (ret, s));
     ((ret3, conn), s) \<leftarrow> rpma_conn_delete E (Some conn) s;
     Some ((ret OR ret3, the conn), s)
   }"

definition IBV_WC_SUCCESS :: int where "IBV_WC_SUCCESS = 0"
definition KILOBYTE :: nat where "KILOBYTE = 1024"
definition IBV_WC_RDMA_READ :: int where "IBV_WC_RDMA_READ = 2"

text \<open>The caller's \<open>wc\<close> is overwritten by the first completion the poll delivers, if any.\<close>

definition wait_and_validate_completion ::
  "env \<Rightarrow> ptr \<Rightarrow> int \<Rightarrow> ibv_wc \<Rightarrow> st \<Rightarrow> ((rc \<times> ibv_wc) \<times> st) option" where
  "wait_and_validate_completion E conn expected_opcode wc s = do {
     ((ret, cq, _), s) \<leftarrow> rpma_conn_wait E conn 0 (Some NULL) None s;
     if ret \<noteq> 0 then Some ((ret, wc), s)
     else do {
       ((ret, wcs, _), s) \<leftarrow> rpma_cq_get_wc E (the cq) 1 (Some [wc]) None s;
       let wc = (case the wcs of [] \<Rightarrow> wc | w # _ \<Rightarrow> w);
       if ret \<noteq> 0 then Some ((ret, wc), s)
       else if wc_status wc \<noteq> IBV_WC_SUCCESS then Some ((- 1, wc), s)
       else if wc_opcode wc \<noteq> expected_opcode then Some ((- 1, wc), s)
       else Some ((0, wc), s)
     }
   }"

subsection \<open>Strings\<close>

text \<open>A string of C in a buffer, its length, and \<open>strncpy\<close>: at most \<open>n\<close> bytes, filled with zeros.\<close>

definition c_string :: "u8 list \<Rightarrow> u8 list" where
  "c_string bs = takeWhile (\<lambda>b. b \<noteq> 0) bs"

definition strlen :: "u8 list \<Rightarrow> nat" where
  "strlen bs = length (c_string bs)"

definition strncpy :: "u8 list \<Rightarrow> nat \<Rightarrow> u8 list" where
  "strncpy src n = take n (c_string src @ replicate n 0)"

lemma length_strncpy [simp]: "length (strncpy src n) = n"
  by (simp add: strncpy_def)

subsection \<open>Data of the other side\<close>

text \<open>The fields of \<open>struct common_data\<close> are at the offsets 0, 2, 3 and 4. What an RDMA operation of the other
  side or a read has placed in a buffer is a function of the calls so far.\<close>

type_synonym dma = "event list \<Rightarrow> u8 list"

definition SIZEOF_COMMON_DATA :: u8 where "SIZEOF_COMMON_DATA = 28"

definition bytes_at :: "ptr \<Rightarrow> st \<Rightarrow> u8 list option" where
  "bytes_at p s = (case deref p s of Some (O_bytes bs) \<Rightarrow> Some bs | _ \<Rightarrow> None)"

lemma common_data_bytes:
  assumes "pdata_ok d s" and "\<not> pdata_len d < SIZEOF_COMMON_DATA"
  obtains bs where "bytes_at (pdata_ptr d) s = Some bs" and "28 \<le> length bs"
  using assms by (auto simp: pdata_ok_def bytes_at_def deref_def obj_at_def SIZEOF_COMMON_DATA_def word_less_nat_alt)

lemma wp_push_mr_remote:
  assumes P: "stable E P" and s: "P s" and len: "n < 21 \<or> 21 \<le> length desc"
    and Q0: "\<And>k s'. over (owns_plain O_mr_remote) E P k s' \<Longrightarrow> Q (0, Some k) s'"
    and Q1: "\<And>ret s'. P s' \<Longrightarrow> ret \<noteq> 0 \<Longrightarrow> Q (ret, Some x) s'"
  shows "wp (rpma_mr_remote_from_descriptor E (Some desc) n (Some x) s) Q"
proof -
  have ok: "ledger_ok s" by (rule stable_ledger [OF P s])
  have new: "over (owns_plain O_mr_remote) E P k s'"
    if "ledger_ok s'" "fresh k s" "mem s' = (mem s)(k \<mapsto> O_mr_remote m)" "acct s' = acct s" for k s' m
    using that by (intro over_plain_new [where P = P and s = s and f = O_mr_remote, OF s])
  show ?thesis
    using ok len s unfolding rpma_mr_remote_from_descriptor_def RPMA_MR_DESC_SIZE_def
    by (auto simp: read_bytes_def Let_def fresh_def obj_at_def intro!: wp_malloc wp_store Q0 new
        Q1 [unfolded RPMA_E_INVAL_def] Q1 [unfolded RPMA_E_NOMEM_def] stable_same [OF P s])
qed

lemma wp_pop_mr_remote:
  assumes "over (owns_plain O_mr_remote) E P k s" and "stable E P" and Q: "\<And>s'. P s' \<Longrightarrow> Q (0, Some NULL) s'"
  shows "wp (rpma_mr_remote_delete (Some k) s) Q"
proof -
  from over_top(5) [OF assms(1)] have "k \<noteq> NULL" using obj_at_nonnull by blast
  then show ?thesis by (auto simp: rpma_mr_remote_delete_def intro!: wp_pop_free [OF assms(1,2)] Q)
qed

subsection \<open>Memory and peers\<close>

lemma wp_malloc_aligned:
  assumes P: "stable E P" and s: "P s"
    and Q0: "\<And>k s'. over (owns_plain O_bytes) E P k s' \<Longrightarrow> k \<noteq> NULL \<Longrightarrow> Q k s'" and Q1: "\<And>s'. P s' \<Longrightarrow> Q NULL s'"
  shows "wp (malloc_aligned E n s) Q"
proof -
  have ok: "ledger_ok s" by (rule stable_ledger [OF P s])
  have new: "over (owns_plain O_bytes) E P k s'"
    if "ledger_ok s'" "fresh k s" "mem s' = (mem s)(k \<mapsto> O_bytes xs)" "acct s' = acct s" for k s' xs
    using that by (intro over_plain_new [where P = P and s = s and f = O_bytes, OF s])
  show ?thesis
    using ok unfolding malloc_aligned_def
    by (auto simp: fresh_def obj_at_def intro!: wp_ext wp_malloc wp_store Q0 Q1 new stable_same [OF P s])
qed

lemma wp_common_peer_via_address:
  assumes P: "stable E P" and s: "P s"
    and Q0: "\<And>k s'. over owns_peer E P k s' \<Longrightarrow> Q (0, k) s'"
    and Q1: "\<And>ret s'. P s' \<Longrightarrow> ret \<noteq> 0 \<Longrightarrow> Q (ret, x) s'"
  shows "wp (common_peer_via_address E addr type x s) Q"
  unfolding common_peer_via_address_def
  by (auto intro!: wp_get_ibv_context [OF P s] wp_push_peer [OF P] intro: Q0 Q1)

subsection \<open>Connecting and closing\<close>

lemma wp_client_connect_err_conn_delete:
  assumes "over (owns_conn_of E) E P k s" and "stable E P" and "\<And>s'. P s' \<Longrightarrow> Q (ret, NULL) s'"
  shows "wp (client_connect_err_conn_delete E ret k s) Q"
  using assms by (auto simp: client_connect_err_conn_delete_def intro!: conn_scope.wp_pop)

lemma wp_client_connect:
  assumes P: "stable E P" and s: "P s" and peer: "\<And>t. P t \<Longrightarrow> \<exists>p. obj_at peer (O_peer p) t"
    and cfg: "cfg \<noteq> NULL \<Longrightarrow> \<exists>f. load_conn_cfg cfg s = Some f" and pd: "pdata_arg_ok pdata" and wf: "events_wf E"
    and Q0: "\<And>k s'. over (owns_conn_of E) E P k s' \<Longrightarrow> Q (0, k) s'"
    and Q1: "\<And>ret k s'. P s' \<Longrightarrow> ret \<noteq> 0 \<Longrightarrow> Q (ret, k) s'"
  shows "wp (client_connect E peer addr port cfg pdata x s) Q"
  unfolding client_connect_def
  by (auto intro!: wp_req_new [OF P s peer [OF s] cfg] wp_req_connect [OF P _ peer pd] wp_next_event [OF _ wf]
      wp_client_connect_err_conn_delete [OF _ P] Q0 intro: Q1)

lemma wp_server_accept_connection:
  assumes P: "stable E P" and s: "P s" and ep: "\<exists>e. obj_at ep (O_ep e) s \<and> ep_peer e = peer"
    and peer: "\<And>t. P t \<Longrightarrow> \<exists>p. obj_at peer (O_peer p) t"
    and cfg: "cfg \<noteq> NULL \<Longrightarrow> \<exists>f. load_conn_cfg cfg s = Some f" and pd: "pdata_arg_ok pdata" and wf: "events_wf E"
    and Q0: "\<And>k s'. over (owns_conn_of E) E P k s' \<Longrightarrow> Q (0, k) s'"
    and Q1: "\<And>ret k s'. P s' \<Longrightarrow> ret \<noteq> 0 \<Longrightarrow> Q (ret, k) s'"
  shows "wp (server_accept_connection E ep cfg pdata x s) Q"
  unfolding server_accept_connection_def
  by (auto simp: Let_def intro!: wp_req_next [OF P s ep peer [OF s] cfg wf] wp_req_connect [OF P _ peer pd]
      wp_next_event [OF _ wf] conn_scope.wp_pop [OF _ P] Q0 intro: Q1)

lemma wp_wait_for_conn_close_verbose:
  assumes "over (owns_conn_of E) E P k s" and wf: "events_wf E" and Q: "\<And>ret s'. over (owns_conn_of E) E P k s' \<Longrightarrow> Q ret s'"
  shows "wp (common_wait_for_conn_close_verbose E k s) Q"
  unfolding common_wait_for_conn_close_verbose_def by (auto intro!: wp_next_event [OF assms(1) wf] Q)

lemma wp_wait_for_conn_close_and_disconnect:
  assumes P: "stable E P" and "over (owns_conn_of E) E P k s" and wf: "events_wf E" and Q: "\<And>ret s'. P s' \<Longrightarrow> Q (ret, NULL) s'"
  shows "wp (common_wait_for_conn_close_and_disconnect E k s) Q"
  unfolding common_wait_for_conn_close_and_disconnect_def
  by (auto intro!: wp_wait_for_conn_close_verbose [OF assms(2) wf] wp_disconnect conn_scope.wp_pop [OF _ P] Q)

lemma wp_disconnect_and_wait_for_conn_close:
  assumes P: "stable E P" and "over (owns_conn_of E) E P k s" and wf: "events_wf E" and Q: "\<And>ret s'. P s' \<Longrightarrow> Q (ret, NULL) s'"
  shows "wp (common_disconnect_and_wait_for_conn_close E k s) Q"
  unfolding common_disconnect_and_wait_for_conn_close_def
  by (auto intro!: wp_disconnect [OF assms(2)] wp_wait_for_conn_close_verbose [OF _ wf] conn_scope.wp_pop [OF _ P] Q)

text \<open>A wait for a completion needs the connection and the queues it names, and a queue it reports is one of them.\<close>

lemma quiet_conn_wait:
  assumes c: "obj_at k (O_conn c) s" and q: "conn_cq c \<noteq> NULL \<Longrightarrow> \<exists>q. obj_at (conn_cq c) (O_cq q) s"
    and r: "conn_rcq c \<noteq> NULL \<Longrightarrow> \<exists>q. obj_at (conn_rcq c) (O_cq q) s" and ok: "ledger_ok s"
  shows "wp (rpma_conn_wait E k 0 (Some NULL) None s) (\<lambda>(ret, cq, _) s'. ledger_ok s' \<and> mem s' = mem s \<and>
      acct s' = acct s \<and> (ret = 0 \<longrightarrow> (\<exists>q x. cq = Some q \<and> obj_at q (O_cq x) s)))"
  using c q r ok by (cases "conn_cq c = NULL"; cases "conn_rcq c = NULL")
    (auto simp: rpma_conn_wait_def obj_at_nonnull rpma_cq_get_ibv_cq_def Let_def intro!: wp_ext split: option.splits)

lemma quiet_wait_on_queues:
  assumes c: "obj_at k (O_conn c) s" and q: "conn_cq c \<noteq> NULL \<Longrightarrow> \<exists>q. obj_at (conn_cq c) (O_cq q) s"
    and r: "conn_rcq c \<noteq> NULL \<Longrightarrow> \<exists>q. obj_at (conn_rcq c) (O_cq q) s" and ok: "ledger_ok s"
  shows "wp (wait_and_validate_completion E k expected_opcode wc s) (\<lambda>(ret, w) s'. ledger_ok s' \<and> mem s' = mem s \<and> acct s' = acct s \<and>
    (ret = 0 \<longrightarrow> wc_status w = IBV_WC_SUCCESS \<and> wc_opcode w = expected_opcode))"
proof -
  have get: "wp (rpma_cq_get_wc E q 1 (Some [wc]) None t) (\<lambda>(ret, wcs, _) t'. ledger_ok t' \<and> mem t' = mem t \<and> acct t' = acct t)"
    if "\<exists>x. obj_at q (O_cq x) t" "ledger_ok t" for q t
    using that by (auto simp: rpma_cq_get_wc_def obj_at_nonnull Let_def intro!: wp_ext)
  show ?thesis
    unfolding wait_and_validate_completion_def
    by (auto simp: Let_def obj_at_def intro!: wp_mono [OF quiet_conn_wait [OF assms]] wp_mono [OF get] split: if_splits)
qed

lemma quiet_wait_and_validate_completion:
  assumes "over (owns_conn_of E) E P k s"
  shows "wp (wait_and_validate_completion E k expected_opcode wc s) (\<lambda>(ret, w) s'. ledger_ok s' \<and> mem s' = mem s \<and> acct s' = acct s \<and>
    (ret = 0 \<longrightarrow> wc_status w = IBV_WC_SUCCESS \<and> wc_opcode w = expected_opcode))"
  by (rule over_conn_cqs [OF assms]) (rule quiet_wait_on_queues [OF _ _ _ over_ledger [OF assms]])

lemma wp_wait_and_validate_completion:
  assumes "over (owns_conn_of E) E P k s"
    and Q: "\<And>ret w s'. over (owns_conn_of E) E P k s' \<Longrightarrow>
       (ret = 0 \<Longrightarrow> wc_status w = IBV_WC_SUCCESS \<and> wc_opcode w = expected_opcode) \<Longrightarrow> Q (ret, w) s'"
  shows "wp (wait_and_validate_completion E k expected_opcode wc s) Q"
  by (rule wp_mono [OF quiet_wait_and_validate_completion [OF assms(1)]])
     (auto intro: Q stable_same [OF conn_scope.stable_over assms(1)])

end
