(* ===== verification/Conn_Pool.thy ===== *)
theory Conn_Pool
  imports Library_Calls Common_Conn
begin

text \<open>
  Several connections held at the same time, which are used and deleted in any order. \<open>pool E P cs\<close>
  holds the connections \<open>cs\<close>, each given with its completion queue, in addition to what \<open>P\<close> describes.
  It is a stack of scopes, but by \<open>scoped.swap\<close> the order does not matter: the rules only require
  that a connection is one of the pool. Each rule also says that the calls of the program itself are
  left alone.
\<close>

definition owns_conn_cq :: "env \<Rightarrow> ptr \<Rightarrow> ptr \<Rightarrow> ptr set \<Rightarrow> res multiset \<Rightarrow> st \<Rightarrow> bool" where
  "owns_conn_cq E q k B R s \<longleftrightarrow> owns_conn_of E k B R s \<and> (\<exists>c. obj_at k (O_conn c) s \<and> conn_cq c = q)"

interpretation cq_scope: scoped "owns_conn_cq E0 q" "\<lambda>E k. rpma_conn_delete E (Some k)"
  for E0 q
proof unfold_locales
  fix k B R and s s' :: st
  assume o: "owns_conn_cq E0 q k B R s" and m: "\<And>q. q \<in> B \<Longrightarrow> mem s' q = mem s q"
  then have "k \<in> B" using owns_conn_pdata by (auto simp: owns_conn_cq_def owns_conn_of_def)
  with o m show "owns_conn_cq E0 q k B R s'"
    unfolding owns_conn_cq_def using owns_conn_of_local [of E0 k B R s s'] by (auto simp: obj_at_def)
qed (auto simp: owns_conn_cq_def dest: conn_scope.owns_blocks_live intro: conn_scope.destroy_spec)

lemma over_conn_cq:
  "over (owns_conn_cq E q) E P k s \<longleftrightarrow> over (owns_conn_of E) E P k s \<and> (\<exists>c. obj_at k (O_conn c) s \<and> conn_cq c = q)"
  unfolding over_def owns_conn_cq_def by blast

primrec pool :: "env \<Rightarrow> (st \<Rightarrow> bool) \<Rightarrow> (ptr \<times> ptr) list \<Rightarrow> st \<Rightarrow> bool" where
  "pool E P [] = P"
| "pool E P (c # cs) = over (owns_conn_cq E (snd c)) E (pool E P cs) (fst c)"

lemma stable_pool: "stable E P \<Longrightarrow> stable E (pool E P cs)"
  by (cases cs) (simp_all add: cq_scope.stable_over)

lemma pool_ledger: "stable E P \<Longrightarrow> pool E P cs s \<Longrightarrow> ledger_ok s"
  by (rule stable_ledger [OF stable_pool])

subsection \<open>The order does not matter\<close>

lemma pool_front: "pool E P (as @ c # bs) s \<Longrightarrow> pool E P (c # as @ bs) s"
proof (induction as arbitrary: s)
  case (Cons a as)
  then have "over (owns_conn_cq E (snd a)) E (pool E P (c # as @ bs)) (fst a) s"
    by (auto elim: over_mono)
  then show ?case by (auto intro: cq_scope.swap cq_scope.owns_local)
qed simp

lemma pool_insert: "pool E P (c # as @ bs) s \<Longrightarrow> pool E P (as @ c # bs) s"
proof (induction as arbitrary: s)
  case (Cons a as)
  then have "over (owns_conn_cq E (snd a)) E (pool E P (c # as @ bs)) (fst a) s"
    by (auto intro: cq_scope.swap cq_scope.owns_local)
  with Cons.IH show ?case by (auto elim: over_mono)
qed simp

lemma pool_take:
  assumes "pool E P cs s" and "c \<in> set cs"
  obtains as bs where "cs = as @ c # bs" and "over (owns_conn_cq E (snd c)) E (pool E P (as @ bs)) (fst c) s"
proof -
  from split_list [OF assms(2)] obtain as bs where "cs = as @ c # bs" by blast
  with assms(1) pool_front [of E P as c bs s] that show thesis by simp
qed

lemma pool_put:
  "cs = as @ c # bs \<Longrightarrow> over (owns_conn_cq E (snd c)) E (pool E P (as @ bs)) (fst c) s \<Longrightarrow> pool E P cs s"
  using pool_insert [of E P c as bs s] by simp

subsection \<open>What a pool holds\<close>

lemma pool_below: "pool E P cs s \<Longrightarrow> \<exists>s1. P s1 \<and> (\<forall>q x. obj_at q x s1 \<longrightarrow> obj_at q x s)"
proof (induction cs arbitrary: s)
  case (Cons c cs)
  then show ?case using over_below [of "owns_conn_cq E (snd c)" E "pool E P cs" "fst c" s] by fastforce
qed auto

lemma pool_conn:
  assumes "pool E P cs s" and "(k, q) \<in> set cs"
  shows "\<exists>c. obj_at k (O_conn c) s \<and> conn_cq c = q" and "q \<noteq> NULL \<Longrightarrow> \<exists>x. obj_at q (O_cq x) s"
proof -
  from assms obtain as bs where "over (owns_conn_cq E q) E (pool E P (as @ bs)) k s" by (rule pool_take) simp
  then have o: "over (owns_conn_of E) E (pool E P (as @ bs)) k s" and c: "\<exists>c. obj_at k (O_conn c) s \<and> conn_cq c = q"
    by (simp_all add: over_conn_cq)
  from c show "\<exists>c. obj_at k (O_conn c) s \<and> conn_cq c = q" .
  from o c show "q \<noteq> NULL \<Longrightarrow> \<exists>x. obj_at q (O_cq x) s" by (metis obj.inject(7) obj_at_unique over_conn_cqs)
qed

text \<open>Each connection has a queue pair.\<close>

fun is_qp :: "res \<Rightarrow> bool" where
  "is_qp (R_qp _) = True"
| "is_qp _ = False"

definition open_qps :: "event list \<Rightarrow> nat" where
  "open_qps tr = size (filter_mset is_qp (held tr))"

lemma pool_qps:
  "pool E P cs s \<Longrightarrow> length cs \<le> open_qps (trace s)"
proof (induction cs arbitrary: s)
  case (Cons c cs)
  then obtain s1 ids B R where s1: "pool E P cs s1" "owns_conn_cq E (snd c) (fst c) B R s"
    "created B (R + image_mset R_id ids) s1 s"
    by (auto simp: over_def)
  then obtain i where "R_qp i \<in># R" using owns_conn_qp unfolding owns_conn_cq_def owns_conn_of_def by blast
  then have "R_qp i \<in># filter_mset is_qp R" by simp
  then have "0 < size (filter_mset is_qp R)" by (metis empty_not_add_mset mset_add nonempty_has_size)
  with s1(3) Cons.IH [OF s1(1)] show ?case by (simp add: open_qps_def created_def acct_def)
qed simp

subsection \<open>Rules\<close>

text \<open>An operation that keeps memory and ledger keeps a pool.\<close>

lemma wp_pool_quiet:
  assumes "stable E P" and "pool E P cs s" and "wp m (\<lambda>r s'. ledger_ok s' \<and> mem s' = mem s \<and> acct s' = acct s)"
    and "lib_only (own_calls s) m" and "\<And>r s'. pool E P cs s' \<Longrightarrow> own_calls s' = own_calls s \<Longrightarrow> mem s' = mem s \<Longrightarrow> Q r s'"
  shows "wp m Q"
  using wp_lib [OF assms(3,4)]
  by (rule wp_mono) (blast intro: assms(5) stable_same [OF stable_pool [OF assms(1)] assms(2)])

lemma wp_pool_disconnect:
  assumes P: "stable E P" and p: "pool E P cs s" and k: "(k, q) \<in> set cs"
    and Q: "\<And>r s'. pool E P cs s' \<Longrightarrow> own_calls s' = own_calls s \<Longrightarrow> Q r s'"
  shows "wp (rpma_conn_disconnect E k s) Q"
  by (rule wp_pool_quiet [OF P p quiet_disconnect [OF pool_ledger [OF P p]]])
     (use pool_conn(1) [OF p k] Q in \<open>auto intro!: lib\<close>)

lemma wp_pool_cq_wait:
  assumes P: "stable E P" and p: "pool E P cs s" and k: "(k, q) \<in> set cs"
    and Q: "\<And>r s'. pool E P cs s' \<Longrightarrow> own_calls s' = own_calls s \<Longrightarrow> Q r s'"
  shows "wp (rpma_cq_wait E q s) Q"
proof (rule wp_pool_quiet [OF P p])
  show "wp (rpma_cq_wait E q s) (\<lambda>r s'. ledger_ok s' \<and> mem s' = mem s \<and> acct s' = acct s)"
    using pool_conn(2) [OF p k] pool_ledger [OF P p]
    by (cases "q = NULL") (auto simp: rpma_cq_wait_def obj_at_nonnull intro!: wp_ext)
qed (auto intro!: lib Q)

lemma wp_pool_get_wc:
  assumes P: "stable E P" and p: "pool E P cs s" and q: "q \<noteq> NULL \<Longrightarrow> \<exists>x. obj_at q (O_cq x) s"
    and Q: "\<And>r s'. pool E P cs s' \<Longrightarrow> own_calls s' = own_calls s \<Longrightarrow> Q r s'"
  shows "wp (rpma_cq_get_wc E q 1 (Some [wc]) None s) Q"
proof (rule wp_pool_quiet [OF P p])
  show "wp (rpma_cq_get_wc E q 1 (Some [wc]) None s) (\<lambda>r s'. ledger_ok s' \<and> mem s' = mem s \<and> acct s' = acct s)"
    using q pool_ledger [OF P p]
    by (cases "q = NULL") (auto simp: rpma_cq_get_wc_def obj_at_nonnull Let_def intro!: wp_ext)
qed (auto intro!: lib Q)

lemma wp_pool_next_event:
  assumes p: "pool E P cs s" and k: "(k, q) \<in> set cs" and wf: "events_wf E"
    and Q: "\<And>ret out s'. pool E P cs s' \<Longrightarrow> own_calls s' = own_calls s \<Longrightarrow> Q (ret, Some out) s'"
  shows "wp (rpma_conn_next_event E k (Some x) s) Q"
proof -
  obtain as bs where cs: "cs = as @ (k, q) # bs" and o: "over (owns_conn_cq E q) E (pool E P (as @ bs)) k s"
    by (rule pool_take [OF p k]) simp
  then obtain c where c: "obj_at k (O_conn c) s" "conn_cq c = q" and o': "over (owns_conn_of E) E (pool E P (as @ bs)) k s"
    by (auto simp: over_conn_cq)
  have "wp (rpma_conn_next_event E k (Some x) s) (\<lambda>r s'. pool E P cs s' \<and> (\<exists>v. snd r = Some v))"
  proof (rule wp_next_event [OF o' wf])
    fix ret :: rc and out s'
    assume s': "over (owns_conn_of E) E (pool E P (as @ bs)) k s'"
      and kept: "\<And>c. obj_at k (O_conn c) s \<Longrightarrow> \<exists>d. obj_at k (O_conn (c\<lparr>conn_data := d\<rparr>)) s'"
    from kept [OF c(1)] c(2) have "\<exists>c. obj_at k (O_conn c) s' \<and> conn_cq c = q" by auto
    with s' have "over (owns_conn_cq E q) E (pool E P (as @ bs)) k s'" by (simp add: over_conn_cq)
    with cs show "pool E P cs s' \<and> (\<exists>v. snd (ret, Some out) = Some v)"
      using pool_put [of cs as "(k, q)" bs E P s'] by simp
  qed
  from wp_lib [OF this lib_next_event [OF refl]] show ?thesis by (rule wp_mono) (auto intro: Q)
qed

lemma wp_pool_delete:
  assumes P: "stable E P" and p: "pool E P (as @ (k, q) # bs) s"
    and Q: "\<And>ret s'. pool E P (as @ bs) s' \<Longrightarrow> own_calls s' = own_calls s \<Longrightarrow> Q (ret, Some NULL) s'"
  shows "wp (rpma_conn_delete E (Some k) s) Q"
proof -
  have "over (owns_conn_cq E q) E (pool E P (as @ bs)) k s" using pool_front [OF p] by simp
  from cq_scope.wp_pop [OF this stable_pool [OF P], where Q = "\<lambda>r s'. pool E P (as @ bs) s' \<and> snd r = Some NULL"]
  have "wp (rpma_conn_delete E (Some k) s) (\<lambda>r s'. pool E P (as @ bs) s' \<and> snd r = Some NULL)" by simp
  from wp_lib [OF this lib_conn_delete [OF refl]] show ?thesis by (rule wp_mono) (auto intro: Q)
qed

end
