(* ===== verification/Common_Epoll.thy ===== *)
theory Common_Epoll
  imports Library_Calls Scopes
begin

text \<open>
  Waiting for events: \<open>src/examples/common/common-epoll.c\<close>. A custom event has the descriptor, the
  callback and its argument; the types of the last two are those of the program. What an epoll
  instance watches is read off the calls that were made: nothing when it is created, and a descriptor from a successful
  \<open>EPOLL_CTL_ADD\<close>, which fails for the descriptor \<open>- 1\<close>, until \<open>EPOLL_CTL_DEL\<close>. That closing a
  descriptor removes it as well is not needed, the list is an upper bound. \<open>epoll_reports\<close> is what a
  program relies on of \<open>epoll_wait\<close>: the data it reports belong to a watched descriptor.
\<close>

definition O_NONBLOCK :: int where "O_NONBLOCK = 2048"

record ('a, 'f) custom_event =
  ce_fd :: int
  ce_arg :: "'a option"
  ce_func :: "'f option"

definition fd_set_nonblock :: "env \<Rightarrow> int \<Rightarrow> st \<Rightarrow> (int \<times> st) option" where
  "fd_set_nonblock E fd s = do {
     (r, s) \<leftarrow> ext E (Fcntl_getfl fd) s;
     if rint r < 0 then Some (errno s, s)
     else do {
       let flags = rint r OR O_NONBLOCK;
       (r, s) \<leftarrow> ext E (Fcntl_setfl fd flags) s;
       if rint r < 0 then Some (errno s, s) else Some (0, s)
     }
   }"

text \<open>\<open>p\<close> is the address of the custom event, which is given back by \<open>epoll_wait\<close>.\<close>

definition epoll_add ::
  "env \<Rightarrow> int \<Rightarrow> int \<Rightarrow> 'a \<Rightarrow> 'f \<Rightarrow> ptr \<Rightarrow> ('a, 'f) custom_event \<Rightarrow> st \<Rightarrow> ((int \<times> ('a, 'f) custom_event) \<times> st) option" where
  "epoll_add E epoll fd arg func p ce s = do {
     (ret, s) \<leftarrow> fd_set_nonblock E fd s;
     if ret \<noteq> 0 then Some ((- 1, ce), s)
     else do {
       let ce = ce\<lparr>ce_fd := fd, ce_arg := Some arg, ce_func := Some func\<rparr>;
       (r, s) \<leftarrow> ext E (Epoll_ctl_add epoll fd p) s;
       if rint r \<noteq> 0 then Some ((errno s, ce), s) else Some ((0, ce), s)
     }
   }"

definition epoll_delete :: "env \<Rightarrow> int \<Rightarrow> ('a, 'f) custom_event \<Rightarrow> st \<Rightarrow> (('a, 'f) custom_event \<times> st) option" where
  "epoll_delete E epoll ce s = do {
     (_, s) \<leftarrow> ext E (Epoll_ctl_del epoll (ce_fd ce)) s;
     Some (ce\<lparr>ce_fd := - 1\<rparr>, s)
   }"

subsection \<open>What is watched\<close>

fun interest_step :: "int \<Rightarrow> call \<Rightarrow> resp \<Rightarrow> (int \<times> ptr) list \<Rightarrow> (int \<times> ptr) list" where
  "interest_step ep (Epoll_ctl_add e fd p) r xs = (if e = ep \<and> fd \<noteq> - 1 \<and> rint r = 0 then (fd, p) # xs else xs)"
| "interest_step ep (Epoll_ctl_del e fd) r xs = (if e = ep then filter (\<lambda>x. fst x \<noteq> fd) xs else xs)"
| "interest_step ep Epoll_create1 r xs = (if rint r = ep then [] else xs)"
| "interest_step ep _ r xs = xs"

primrec interest :: "int \<Rightarrow> event list \<Rightarrow> (int \<times> ptr) list" where
  "interest ep [] = []"
| "interest ep (x # tr) = interest_step ep (fst x) (snd x) (interest ep tr)"

definition epoll_reports :: "env \<Rightarrow> bool" where
  "epoll_reports E \<longleftrightarrow> (\<forall>tr ep t. let r = respond E tr (Epoll_wait ep t) in
     rint r = 1 \<longrightarrow> rptr r \<in> snd ` set (interest ep tr))"

definition watched :: "int \<Rightarrow> st \<Rightarrow> (int \<times> ptr) set" where
  "watched ep s = set (interest ep (own_calls s))"

lemma interest_step_library: "\<not> program_call c \<Longrightarrow> interest_step ep c r xs = xs"
  by (cases c) simp_all

lemma watched_trace: "watched ep s = set (interest ep (trace s))"
proof -
  have "interest ep (filter (program_call \<circ> fst) tr) = interest ep tr" for tr
    by (induction tr) (simp_all add: interest_step_library)
  then show ?thesis by (simp add: watched_def own_calls_def)
qed

lemma watched_cong: "own_calls s' = own_calls s \<Longrightarrow> watched ep s' = watched ep s"
  by (simp add: watched_def)

lemma watched_push [simp]:
  "watched ep (push (Epoll_ctl_add e fd p) r s) =
     (if e = ep \<and> fd \<noteq> - 1 \<and> rint r = 0 then insert (fd, p) (watched ep s) else watched ep s)"
  "watched ep (push (Epoll_ctl_del e fd) r s) =
     (if e = ep then {x \<in> watched ep s. fst x \<noteq> fd} else watched ep s)"
  "watched ep (push (Fcntl_getfl fd) r s) = watched ep s"
  "watched ep (push (Fcntl_setfl fd i) r s) = watched ep s"
  "watched ep (push (Epoll_wait e i) r s) = watched ep s"
  "watched ep (push (Close e) r s) = watched ep s"
  "watched ep (push Epoll_create1 r s) = (if rint r = ep then {} else watched ep s)"
  by (auto simp: watched_def)

subsection \<open>Rules\<close>

lemma custom_event_full:
  "ce\<lparr>ce_fd := fd, ce_arg := a, ce_func := f\<rparr> = (\<lparr>ce_fd = fd, ce_arg = a, ce_func = f\<rparr> :: ('a, 'f) custom_event)"
  by (cases ce) simp

lemma wp_fd_set_nonblock:
  assumes "ledger_ok s" and "\<And>ret s'. ledger_ok s' \<Longrightarrow> mem s' = mem s \<Longrightarrow> acct s' = acct s \<Longrightarrow>
    (\<And>ep. watched ep s' = watched ep s) \<Longrightarrow> Q ret s'"
  shows "wp (fd_set_nonblock E fd s) Q"
  using assms(1) unfolding fd_set_nonblock_def Let_def by (auto intro!: wp_ext assms(2))

text \<open>After \<open>epoll_add\<close> the event is filled in, unless the descriptor could not be set to
  non-blocking, and watched at most in addition to what was watched before.\<close>

lemma wp_epoll_add:
  assumes P: "stable E P" and s: "P s"
    and Q0: "\<And>s'. P s' \<Longrightarrow> mem s' = mem s \<Longrightarrow> watched ep s' = watched ep s \<Longrightarrow> Q (- 1, ce) s'"
    and Q1: "\<And>ret s'. P s' \<Longrightarrow> mem s' = mem s \<Longrightarrow> watched ep s' \<subseteq> watched ep s \<union> (if fd = - 1 then {} else {(fd, p)}) \<Longrightarrow>
       (ret \<noteq> 0 \<Longrightarrow> watched ep s' = watched ep s) \<Longrightarrow> Q (ret, \<lparr>ce_fd = fd, ce_arg = Some arg, ce_func = Some func\<rparr>) s'"
  shows "wp (epoll_add E ep fd arg func p ce s) Q"
proof -
  have ok: "ledger_ok s" by (rule stable_ledger [OF P s])
  show ?thesis
    unfolding epoll_add_def Let_def custom_event_full wp_bind
  proof (rule wp_fd_set_nonblock [OF ok], goal_cases)
    case (1 ret s1)
    show ?case
    proof (cases "ret = 0")
      case True
      have "Q (v, \<lparr>ce_fd = fd, ce_arg = Some arg, ce_func = Some func\<rparr>) (push (Epoll_ctl_add ep fd p) r s1)"
        if "v \<noteq> 0 \<Longrightarrow> rint r \<noteq> 0" for r v
        by (rule Q1) (use 1 that in \<open>auto intro: stable_same [OF P s]\<close>)
      with True show ?thesis by (auto intro!: wp_ext)
    next
      case False
      with 1 show ?thesis by (auto intro!: Q0 stable_same [OF P s])
    qed
  qed
qed

lemma wp_epoll_delete:
  assumes P: "stable E P" and s: "P s"
    and Q: "\<And>s'. P s' \<Longrightarrow> mem s' = mem s \<Longrightarrow> watched ep s' = {x \<in> watched ep s. fst x \<noteq> ce_fd ce} \<Longrightarrow> Q (ce\<lparr>ce_fd := - 1\<rparr>) s'"
  shows "wp (epoll_delete E ep ce s) Q"
  using stable_ledger [OF P s] unfolding epoll_delete_def by (auto intro!: wp_ext Q stable_same [OF P s])

end
