(* ===== verification/Multi_Server.thy ===== *)
theory Multi_Server
  imports Conn_Pool Common_Epoll
begin

text \<open>
  The server of the multiple-connections example, \<open>src/examples/06-multiple-connections/server.c\<close>: an
  event loop around an epoll instance that serves up to ten clients at the same time.
  \<^item> \<open>struct server_res\<close> is a variable of \<open>main\<close>; the functions take it and return it changed. A
    pointer to an element of \<open>clients\<close> is the index of the element, and an index out of range is
    undefined behaviour. The addresses of the custom events in it, which go through epoll, are those
    of the LP64 layout behind an address \<open>SVR\<close>.
  \<^item> Callbacks are values of \<open>event_func\<close>; calling one is \<open>server_dispatch\<close>, and calling a null
    pointer or one with an argument of the wrong type is undefined behaviour. The loop takes the
    dispatching function as an argument.
  \<^item> The event loop need not end. \<open>server_loop n\<close> handles at most \<open>n\<close> events and says with \<open>None\<close> that
    it is still running then; what is shown holds for every \<open>n\<close>.
  \<^item> Messages and the names that are printed are left out, and so are the log thresholds.
\<close>

definition CLIENT_MAX :: nat where "CLIENT_MAX = 10"
definition MAX_NAME_SIZE :: nat where "MAX_NAME_SIZE = 32"
definition TIMEOUT_15S :: int where "TIMEOUT_15S = 15000"
definition SVR :: ptr where "SVR = 4096"

datatype event_func = Client_handle_connection_event | Client_handle_completion | Server_handle_incoming_client

datatype event_arg = Arg_client nat | Arg_server

type_synonym server_event = "(event_arg, event_func) custom_event"

record client_res =
  cl_conn :: ptr
  cl_cq :: ptr
  cl_offset :: u64
  cl_ev_conn_event :: server_event
  cl_ev_conn_cmpl :: server_event
  cl_svr :: ptr
  cl_client_id :: int

record server_res =
  sv_ep :: ptr
  sv_dst_ptr :: ptr
  sv_dst_mr :: ptr
  sv_epoll :: int
  sv_ev_incoming :: server_event
  sv_clients :: "client_res list"

definition zero_event :: server_event where
  "zero_event = \<lparr>ce_fd = 0, ce_arg = None, ce_func = None\<rparr>"

definition zero_client :: client_res where
  "zero_client = \<lparr>cl_conn = NULL, cl_cq = NULL, cl_offset = 0, cl_ev_conn_event = zero_event,
     cl_ev_conn_cmpl = zero_event, cl_svr = NULL, cl_client_id = 0\<rparr>"

definition zero_server :: server_res where
  "zero_server = \<lparr>sv_ep = NULL, sv_dst_ptr = NULL, sv_dst_mr = NULL, sv_epoll = 0, sv_ev_incoming = zero_event,
     sv_clients = replicate CLIENT_MAX zero_client\<rparr>"

subsection \<open>Pointers into the structure\<close>

definition client_at :: "'z server_res_scheme \<Rightarrow> nat \<Rightarrow> client_res option" where
  "client_at svr i = (if i < length (sv_clients svr) then Some (sv_clients svr ! i) else None)"

definition set_client :: "nat \<Rightarrow> client_res \<Rightarrow> 'z server_res_scheme \<Rightarrow> 'z server_res_scheme" where
  "set_client i c svr = svr\<lparr>sv_clients := (sv_clients svr)[i := c]\<rparr>"

text \<open>The field \<open>svr\<close> of a client, which is followed to the server.\<close>

definition svr_of :: "client_res \<Rightarrow> 'z server_res_scheme \<Rightarrow> 'z server_res_scheme option" where
  "svr_of c svr = (if cl_svr c = SVR then Some svr else None)"

definition ev_incoming_ptr :: ptr where "ev_incoming_ptr = SVR + 32"
definition clients_ptr :: "nat \<Rightarrow> ptr" where "clients_ptr i = SVR + 56 + 88 * i"
definition ev_conn_event_ptr :: "nat \<Rightarrow> ptr" where "ev_conn_event_ptr i = clients_ptr i + 24"
definition ev_conn_cmpl_ptr :: "nat \<Rightarrow> ptr" where "ev_conn_cmpl_ptr i = clients_ptr i + 48"

definition event_at :: "ptr \<Rightarrow> 'z server_res_scheme \<Rightarrow> server_event option" where
  "event_at p svr =
     (if p = ev_incoming_ptr then Some (sv_ev_incoming svr)
      else case find (\<lambda>i. p = ev_conn_event_ptr i) [0..<length (sv_clients svr)] of
        Some i \<Rightarrow> Some (cl_ev_conn_event (sv_clients svr ! i))
      | None \<Rightarrow> (case find (\<lambda>i. p = ev_conn_cmpl_ptr i) [0..<length (sv_clients svr)] of
          Some i \<Rightarrow> Some (cl_ev_conn_cmpl (sv_clients svr ! i))
        | None \<Rightarrow> None))"

subsection \<open>Resources of the server\<close>

definition server_init :: "env \<Rightarrow> 'z server_res_scheme \<Rightarrow> ptr \<Rightarrow> st \<Rightarrow> ((rc \<times> 'z server_res_scheme) \<times> st) option" where
  "server_init E svr peer s = do {
     (r, s) \<leftarrow> ext E Epoll_create1 s;
     let svr = svr\<lparr>sv_epoll := rint r\<rparr>;
     if sv_epoll svr = - 1 then Some ((errno s, svr), s)
     else do {
       let dst_size = MAX_NAME_SIZE * CLIENT_MAX;
       (p, s) \<leftarrow> malloc_aligned E dst_size s;
       let svr = svr\<lparr>sv_dst_ptr := p\<rparr>;
       if sv_dst_ptr svr = NULL then do {
         (_, s) \<leftarrow> ext E (Close (sv_epoll svr)) s;
         Some ((- 1, svr), s)
       } else do {
         ((ret, mr), s) \<leftarrow> rpma_mr_reg E peer (of_nat (sv_dst_ptr svr)) (of_nat dst_size) RPMA_MR_USAGE_READ_DST (Some (sv_dst_mr svr)) s;
         let svr = svr\<lparr>sv_dst_mr := the mr\<rparr>;
         if ret \<noteq> 0 then do {
           (_, s) \<leftarrow> free (sv_dst_ptr svr) s;
           (_, s) \<leftarrow> ext E (Close (sv_epoll svr)) s;
           Some ((ret, svr), s)
         } else Some ((ret, svr), s)
       }
     }
   }"

definition server_fini :: "env \<Rightarrow> 'z server_res_scheme \<Rightarrow> st \<Rightarrow> ((rc \<times> 'z server_res_scheme) \<times> st) option" where
  "server_fini E svr s = do {
     ((ret, mr), s) \<leftarrow> rpma_mr_dereg E (Some (sv_dst_mr svr)) s;
     let svr = svr\<lparr>sv_dst_mr := the mr\<rparr>;
     (_, s) \<leftarrow> free (sv_dst_ptr svr) s;
     (r, s) \<leftarrow> ext E (Close (sv_epoll svr)) s;
     if rint r \<noteq> 0 then Some ((if ret = 0 then errno s else ret, svr), s)
     else Some ((ret, svr), s)
   }"

subsection \<open>Clients\<close>

text \<open>The loop variable \<open>clnt\<close> is the index of the last element looked at.\<close>

primrec client_new_for :: "nat list \<Rightarrow> nat option \<Rightarrow> 'z server_res_scheme \<Rightarrow> (nat option \<times> 'z server_res_scheme) option" where
  "client_new_for [] clnt svr = Some (clnt, svr)"
| "client_new_for (i # is) clnt svr = do {
     c \<leftarrow> client_at svr i;
     if cl_conn c \<noteq> NULL then client_new_for is (Some i) svr
     else Some (Some i, set_client i
       (c\<lparr>cl_client_id := int i, cl_svr := SVR, cl_offset := of_nat MAX_NAME_SIZE * of_nat i,
          cl_ev_conn_cmpl := (cl_ev_conn_cmpl c)\<lparr>ce_fd := - 1\<rparr>,
          cl_ev_conn_event := (cl_ev_conn_event c)\<lparr>ce_fd := - 1\<rparr>\<rparr>) svr)
   }"

definition client_new :: "'z server_res_scheme \<Rightarrow> (nat option \<times> 'z server_res_scheme) option" where
  "client_new svr = client_new_for [0..<CLIENT_MAX] None svr"

definition client_add_to_epoll :: "env \<Rightarrow> nat \<Rightarrow> int \<Rightarrow> 'z server_res_scheme \<Rightarrow> st \<Rightarrow> ((rc \<times> 'z server_res_scheme) \<times> st) option" where
  "client_add_to_epoll E i epoll svr s = do {
     c \<leftarrow> client_at svr i;
     ((ret, fd), s) \<leftarrow> rpma_conn_get_event_fd E (cl_conn c) (Some 0) s;
     if ret \<noteq> 0 then Some ((ret, svr), s)
     else do {
       ((ret, ce), s) \<leftarrow> epoll_add E epoll (the fd) (Arg_client i) Client_handle_connection_event
         (ev_conn_event_ptr i) (cl_ev_conn_event c) s;
       let c = c\<lparr>cl_ev_conn_event := ce\<rparr>;
       if ret \<noteq> 0 then Some ((ret, set_client i c svr), s)
       else do {
         ((ret, fd), s) \<leftarrow> rpma_cq_get_fd E (cl_cq c) fd s;
         if ret \<noteq> 0 then do {
           (ce, s) \<leftarrow> epoll_delete E epoll (cl_ev_conn_event c) s;
           Some ((ret, set_client i (c\<lparr>cl_ev_conn_event := ce\<rparr>) svr), s)
         } else do {
           ((ret, ce), s) \<leftarrow> epoll_add E epoll (the fd) (Arg_client i) Client_handle_completion
             (ev_conn_cmpl_ptr i) (cl_ev_conn_cmpl c) s;
           let c = c\<lparr>cl_ev_conn_cmpl := ce\<rparr>;
           if ret \<noteq> 0 then do {
             (ce, s) \<leftarrow> epoll_delete E epoll (cl_ev_conn_event c) s;
             Some ((ret, set_client i (c\<lparr>cl_ev_conn_event := ce\<rparr>) svr), s)
           } else Some ((ret, set_client i c svr), s)
         }
       }
     }
   }"

definition client_delete :: "env \<Rightarrow> nat \<Rightarrow> 'z server_res_scheme \<Rightarrow> st \<Rightarrow> ('z server_res_scheme \<times> st) option" where
  "client_delete E i svr s = do {
     c \<leftarrow> client_at svr i;
     sv \<leftarrow> svr_of c svr;
     (ce, s) \<leftarrow> (if ce_fd (cl_ev_conn_cmpl c) \<noteq> - 1 then epoll_delete E (sv_epoll sv) (cl_ev_conn_cmpl c) s
                 else Some (cl_ev_conn_cmpl c, s));
     let c = c\<lparr>cl_ev_conn_cmpl := ce\<rparr>;
     (ce, s) \<leftarrow> (if ce_fd (cl_ev_conn_event c) \<noteq> - 1 then epoll_delete E (sv_epoll sv) (cl_ev_conn_event c) s
                 else Some (cl_ev_conn_event c, s));
     let c = c\<lparr>cl_ev_conn_event := ce\<rparr>;
     ((_, conn), s) \<leftarrow> rpma_conn_delete E (Some (cl_conn c)) s;
     Some (set_client i (c\<lparr>cl_conn := the conn\<rparr>) svr, s)
   }"

subsection \<open>Callbacks\<close>

text \<open>\<open>wc\<close> is the variable of that name, which is not initialised.\<close>

definition client_handle_completion :: "env \<Rightarrow> nat \<Rightarrow> ibv_wc \<Rightarrow> 'z server_res_scheme \<Rightarrow> st \<Rightarrow> ('z server_res_scheme \<times> st) option" where
  "client_handle_completion E i wc svr s = do {
     c \<leftarrow> client_at svr i;
     (ret, s) \<leftarrow> rpma_cq_wait E (cl_cq c) s;
     if ret \<noteq> 0 then
       (if ret = RPMA_E_NO_COMPLETION then Some (svr, s)
        else do { (_, s) \<leftarrow> rpma_conn_disconnect E (cl_conn c) s; Some (svr, s) })
     else do {
       ((ret, wcs, _), s) \<leftarrow> rpma_cq_get_wc E (cl_cq c) 1 (Some [wc]) None s;
       let wc = (case the wcs of [] \<Rightarrow> wc | w # _ \<Rightarrow> w);
       if ret \<noteq> 0 then
         (if ret = RPMA_E_NO_COMPLETION then Some (svr, s)
          else do { (_, s) \<leftarrow> rpma_conn_disconnect E (cl_conn c) s; Some (svr, s) })
       else if wc_status wc \<noteq> IBV_WC_SUCCESS then do { (_, s) \<leftarrow> rpma_conn_disconnect E (cl_conn c) s; Some (svr, s) }
       else if wc_opcode wc \<noteq> IBV_WC_RDMA_READ then do { (_, s) \<leftarrow> rpma_conn_disconnect E (cl_conn c) s; Some (svr, s) }
       else do { (_, s) \<leftarrow> rpma_conn_disconnect E (cl_conn c) s; Some (svr, s) }
     }
   }"

definition client_fetch_name :: "env \<Rightarrow> client_res \<Rightarrow> ptr \<Rightarrow> st \<Rightarrow> (rc \<times> st) option" where
  "client_fetch_name E c dst s = do {
     ((ret, pdata), s) \<leftarrow> rpma_conn_get_private_data (cl_conn c) (Some no_pdata) s;
     if ret \<noteq> 0 then Some (- 1, s)
     else if pdata_len (the pdata) < SIZEOF_COMMON_DATA then Some (- 1, s)
     else do {
       dst_data \<leftarrow> bytes_at (pdata_ptr (the pdata)) s;
       mr_desc_size \<leftarrow> read_bytes 2 1 dst_data;
       ((ret, src_mr), s) \<leftarrow>
         rpma_mr_remote_from_descriptor E (Some (drop 4 dst_data)) (unat (hd mr_desc_size)) (Some NULL) s;
       if ret \<noteq> 0 then Some (ret, s)
       else do {
         (ret, s) \<leftarrow> rpma_read E (cl_conn c) dst (cl_offset c) (the src_mr) 0 (of_nat MAX_NAME_SIZE)
           RPMA_F_COMPLETION_ALWAYS 0 s;
         if ret \<noteq> 0 then do {
           (_, s) \<leftarrow> rpma_mr_remote_delete src_mr s;
           Some (ret, s)
         } else do {
           (_, s) \<leftarrow> rpma_mr_remote_delete src_mr s;
           Some (0, s)
         }
       }
     }
   }"

definition client_handle_is_ready :: "env \<Rightarrow> nat \<Rightarrow> 'z server_res_scheme \<Rightarrow> st \<Rightarrow> ('z server_res_scheme \<times> st) option" where
  "client_handle_is_ready E i svr s = do {
     c \<leftarrow> client_at svr i;
     sv \<leftarrow> svr_of c svr;
     (ret, s) \<leftarrow> client_fetch_name E c (sv_dst_mr sv) s;
     if ret \<noteq> 0 then do { (_, s) \<leftarrow> rpma_conn_disconnect E (cl_conn c) s; Some (svr, s) }
     else Some (svr, s)
   }"

definition client_handle_connection_event :: "env \<Rightarrow> nat \<Rightarrow> 'z server_res_scheme \<Rightarrow> st \<Rightarrow> ('z server_res_scheme \<times> st) option" where
  "client_handle_connection_event E i svr s = do {
     c \<leftarrow> client_at svr i;
     ((ret, event), s) \<leftarrow> rpma_conn_next_event E (cl_conn c) (Some RPMA_CONN_UNDEFINED) s;
     if ret \<noteq> 0 then
       (if ret = RPMA_E_NO_EVENT then Some (svr, s)
        else do { (_, s) \<leftarrow> rpma_conn_disconnect E (cl_conn c) s; Some (svr, s) })
     else if the event = RPMA_CONN_ESTABLISHED then client_handle_is_ready E i svr s
     else client_delete E i svr s
   }"

text \<open>The second half of \<open>server_handle_incoming_client\<close>, from the moment there is a slot.\<close>

definition server_accept_client :: "env \<Rightarrow> nat \<Rightarrow> ptr option \<Rightarrow> 'z server_res_scheme \<Rightarrow> st \<Rightarrow> ('z server_res_scheme \<times> st) option" where
  "server_accept_client E i req svr s = do {
     c \<leftarrow> client_at svr i;
     ((ret, req, conn), s) \<leftarrow> rpma_conn_req_connect E req None (Some (cl_conn c)) s;
     let c = c\<lparr>cl_conn := the conn\<rparr>;
     let svr = set_client i c svr;
     if ret \<noteq> 0 then do { (_, s) \<leftarrow> rpma_conn_req_delete E req s; Some (svr, s) }
     else do {
       ((ret, cq), s) \<leftarrow> rpma_conn_get_cq (cl_conn c) (Some (cl_cq c)) s;
       let c = c\<lparr>cl_cq := the cq\<rparr>;
       let svr = set_client i c svr;
       if ret \<noteq> 0 then do { (_, s) \<leftarrow> rpma_conn_disconnect E (cl_conn c) s; Some (svr, s) }
       else do {
         ((ret, svr), s) \<leftarrow> client_add_to_epoll E i (sv_epoll svr) svr s;
         if ret \<noteq> 0 then do { (_, s) \<leftarrow> rpma_conn_disconnect E (cl_conn c) s; Some (svr, s) }
         else Some (svr, s)
       }
     }
   }"

definition server_handle_incoming_client :: "env \<Rightarrow> ptr \<Rightarrow> 'z server_res_scheme \<Rightarrow> st \<Rightarrow> ('z server_res_scheme \<times> st) option" where
  "server_handle_incoming_client E cfg svr s = do {
     ((ret, req), s) \<leftarrow> rpma_ep_next_conn_req E (sv_ep svr) cfg (Some NULL) s;
     if ret \<noteq> 0 then Some (svr, s)
     else do {
       (clnt, svr) \<leftarrow> client_new svr;
       case clnt of
         None \<Rightarrow> do { (_, s) \<leftarrow> rpma_conn_req_delete E req s; Some (svr, s) }
       | Some i \<Rightarrow> server_accept_client E i req svr s
     }
   }"

subsection \<open>The event loop\<close>

definition server_dispatch :: "env \<Rightarrow> ibv_wc \<Rightarrow> ptr \<Rightarrow> 'z server_res_scheme \<Rightarrow> st \<Rightarrow> ('z server_res_scheme \<times> st) option" where
  "server_dispatch E wc p svr s = do {
     ce \<leftarrow> event_at p svr;
     func \<leftarrow> ce_func ce;
     arg \<leftarrow> ce_arg ce;
     case (func, arg) of
       (Client_handle_connection_event, Arg_client i) \<Rightarrow> client_handle_connection_event E i svr s
     | (Client_handle_completion, Arg_client i) \<Rightarrow> client_handle_completion E i wc svr s
     | (Server_handle_incoming_client, Arg_server) \<Rightarrow> server_handle_incoming_client E NULL svr s
     | _ \<Rightarrow> None
   }"

primrec server_loop ::
  "nat \<Rightarrow> env \<Rightarrow> (ptr \<Rightarrow> 'z server_res_scheme \<Rightarrow> st \<Rightarrow> ('z server_res_scheme \<times> st) option) \<Rightarrow> 'z server_res_scheme \<Rightarrow> st
    \<Rightarrow> ((rc option \<times> 'z server_res_scheme) \<times> st) option" where
  "server_loop 0 E dispatch svr s = Some ((None, svr), s)"
| "server_loop (Suc n) E dispatch svr s = do {
     (r, s) \<leftarrow> ext E (Epoll_wait (sv_epoll svr) TIMEOUT_15S) s;
     if rint r = 1 then do {
       (svr, s) \<leftarrow> dispatch (rptr r) svr s;
       server_loop n E dispatch svr s
     } else Some ((Some (rint r), svr), s)
   }"

primrec server_disconnect_for :: "nat list \<Rightarrow> env \<Rightarrow> 'z server_res_scheme \<Rightarrow> st \<Rightarrow> ('z server_res_scheme \<times> st) option" where
  "server_disconnect_for [] E svr s = Some (svr, s)"
| "server_disconnect_for (i # is) E svr s = do {
     c \<leftarrow> client_at svr i;
     if cl_conn c = NULL then server_disconnect_for is E svr s
     else do {
       (_, s) \<leftarrow> rpma_conn_disconnect E (cl_conn c) s;
       ((_, conn), s) \<leftarrow> rpma_conn_delete E (Some (cl_conn c)) s;
       server_disconnect_for is E (set_client i (c\<lparr>cl_conn := the conn\<rparr>) svr) s
     }
   }"

definition multi_err_peer_delete :: "env \<Rightarrow> rc \<Rightarrow> ptr \<Rightarrow> st \<Rightarrow> (rc option \<times> st) option" where
  "multi_err_peer_delete E ret peer s = do {
     ((ret2, _), s) \<leftarrow> rpma_peer_delete E (Some peer) s;
     Some (Some (if ret = 0 \<and> ret2 \<noteq> 0 then ret2 else ret), s)
   }"

definition multi_err_server_fini :: "env \<Rightarrow> rc \<Rightarrow> 'z server_res_scheme \<Rightarrow> ptr \<Rightarrow> st \<Rightarrow> (rc option \<times> st) option" where
  "multi_err_server_fini E ret svr peer s = do {
     ((ret2, svr), s) \<leftarrow> server_fini E svr s;
     multi_err_peer_delete E (if ret = 0 \<and> ret2 \<noteq> 0 then ret2 else ret) peer s
   }"

definition multi_err_ep_shutdown :: "env \<Rightarrow> rc \<Rightarrow> 'z server_res_scheme \<Rightarrow> ptr \<Rightarrow> st \<Rightarrow> (rc option \<times> st) option" where
  "multi_err_ep_shutdown E ret svr peer s = do {
     ((ret2, ep), s) \<leftarrow> rpma_ep_shutdown E (Some (sv_ep svr)) s;
     multi_err_server_fini E (if ret = 0 \<and> ret2 \<noteq> 0 then ret2 else ret) (svr\<lparr>sv_ep := the ep\<rparr>) peer s
   }"

text \<open>\<open>main\<close> from the event loop on, and from the moment the server listens.\<close>

definition multi_server_run :: "nat \<Rightarrow> env \<Rightarrow> ibv_wc \<Rightarrow> 'z server_res_scheme \<Rightarrow> ptr \<Rightarrow> st \<Rightarrow> (rc option \<times> st) option" where
  "multi_server_run n E wc svr peer s = do {
     ((ret, svr), s) \<leftarrow> server_loop n E (server_dispatch E wc) svr s;
     case ret of
       None \<Rightarrow> Some (None, s)
     | Some ret \<Rightarrow> do {
         (svr, s) \<leftarrow> server_disconnect_for [0..<CLIENT_MAX] E svr s;
         multi_err_ep_shutdown E ret svr peer s
       }
   }"

definition multi_server_listening :: "nat \<Rightarrow> env \<Rightarrow> ibv_wc \<Rightarrow> 'z server_res_scheme \<Rightarrow> ptr \<Rightarrow> st \<Rightarrow> (rc option \<times> st) option" where
  "multi_server_listening n E wc svr peer s = do {
     ((ret, ep_fd), s) \<leftarrow> rpma_ep_get_fd E (sv_ep svr) (Some 0) s;
     if ret \<noteq> 0 then multi_err_ep_shutdown E ret svr peer s
     else do {
       ((ret, ce), s) \<leftarrow> epoll_add E (sv_epoll svr) (the ep_fd) Arg_server Server_handle_incoming_client
         ev_incoming_ptr (sv_ev_incoming svr) s;
       let svr = svr\<lparr>sv_ev_incoming := ce\<rparr>;
       if ret \<noteq> 0 then multi_err_ep_shutdown E ret svr peer s
       else multi_server_run n E wc svr peer s
     }
   }"

definition multi_server_main :: "nat \<Rightarrow> env \<Rightarrow> string \<Rightarrow> string \<Rightarrow> ibv_wc \<Rightarrow> st \<Rightarrow> (rc option \<times> st) option" where
  "multi_server_main n E addr port wc s = do {
     let svr = zero_server;
     ((ret, peer), s) \<leftarrow> common_peer_via_address E addr RPMA_UTIL_IBV_CONTEXT_LOCAL NULL s;
     if ret \<noteq> 0 then Some (Some ret, s)
     else do {
       ((ret, svr), s) \<leftarrow> server_init E svr peer s;
       if ret \<noteq> 0 then multi_err_peer_delete E ret peer s
       else do {
         ((ret, ep), s) \<leftarrow> rpma_ep_listen E peer (Some addr) (Some port) (Some (sv_ep svr)) s;
         let svr = svr\<lparr>sv_ep := the ep\<rparr>;
         if ret \<noteq> 0 then multi_err_server_fini E ret svr peer s
         else multi_server_listening n E wc svr peer s
       }
     }
   }"

end
