(* ===== verification/Multi_Server_Inv.thy ===== *)
theory Multi_Server_Inv
  imports Multi_Server
begin

text \<open>
  The invariant of the event loop of the multiple-connections server: the connections that are held
  are those in the slots, a slot in use knows its server and its part of the destination buffer, and
  what epoll watches are the endpoint and the descriptors of slots in use, each with the event
  structure, callback and argument that belong to it. Every callback keeps it. The assumption on the
  clients is that none asks for a connection while ten connections are open (\<open>room_for_clients\<close>):
  \<open>client_new\<close> does not report that all slots are in use.
\<close>

declare neq0_conv [simp del]

definition slot :: "client_res \<Rightarrow> (ptr \<times> ptr) list" where
  "slot c = (if cl_conn c = NULL then [] else [(cl_conn c, cl_cq c)])"

definition busy :: "'z server_res_scheme \<Rightarrow> (ptr \<times> ptr) list" where
  "busy svr = concat (map slot (sv_clients svr))"

definition client_ok :: "nat \<Rightarrow> client_res \<Rightarrow> bool" where
  "client_ok i c \<longleftrightarrow> (cl_conn c \<noteq> NULL \<longrightarrow> cl_svr c = SVR \<and> cl_offset c = of_nat (MAX_NAME_SIZE * i))"

definition watches :: "nat \<Rightarrow> client_res \<Rightarrow> int \<Rightarrow> ptr \<Rightarrow> bool" where
  "watches i c fd p \<longleftrightarrow> cl_conn c \<noteq> NULL \<and>
     (p = ev_conn_event_ptr i \<and>
        cl_ev_conn_event c = \<lparr>ce_fd = fd, ce_arg = Some (Arg_client i), ce_func = Some Client_handle_connection_event\<rparr> \<or>
      p = ev_conn_cmpl_ptr i \<and>
        cl_ev_conn_cmpl c = \<lparr>ce_fd = fd, ce_arg = Some (Arg_client i), ce_func = Some Client_handle_completion\<rparr>)"

definition watch_ok :: "'z server_res_scheme \<Rightarrow> (int \<times> ptr) set \<Rightarrow> bool" where
  "watch_ok svr W \<longleftrightarrow> (\<forall>(fd, p)\<in>W. fd \<noteq> - 1 \<and>
     (p = ev_incoming_ptr \<or> (\<exists>i<CLIENT_MAX. watches i (sv_clients svr ! i) fd p)))"

definition server_ok :: "'z server_res_scheme \<Rightarrow> bool" where
  "server_ok svr \<longleftrightarrow> length (sv_clients svr) = CLIENT_MAX \<and> (\<forall>i<CLIENT_MAX. client_ok i (sv_clients svr ! i)) \<and>
     (\<exists>fd. sv_ev_incoming svr = \<lparr>ce_fd = fd, ce_arg = Some Arg_server, ce_func = Some Server_handle_incoming_client\<rparr>)"

text \<open>What is below the connections: the endpoint with its peer and the region for the names.\<close>

definition base_ok :: "(st \<Rightarrow> bool) \<Rightarrow> ptr \<Rightarrow> ptr \<Rightarrow> ptr \<Rightarrow> bool" where
  "base_ok P peer ep mr \<longleftrightarrow> (\<forall>t. P t \<longrightarrow> (\<exists>p. obj_at peer (O_peer p) t) \<and>
     (\<exists>e. obj_at ep (O_ep e) t \<and> ep_peer e = peer) \<and> (\<exists>m. obj_at mr (O_mr_local m) t))"

definition server_inv :: "env \<Rightarrow> (st \<Rightarrow> bool) \<Rightarrow> 'z server_res_scheme \<Rightarrow> 'z server_res_scheme \<Rightarrow> st \<Rightarrow> bool" where
  "server_inv E P sv0 svr s \<longleftrightarrow> sv0 = svr\<lparr>sv_clients := sv_clients sv0\<rparr> \<and> server_ok svr \<and>
     pool E P (busy svr) s \<and> watch_ok svr (watched (sv_epoll svr) s)"

definition room_for_clients :: "env \<Rightarrow> bool" where
  "room_for_clients E \<longleftrightarrow> (\<forall>tr. request_reported E tr \<longrightarrow> open_qps tr < CLIENT_MAX)"

subsection \<open>Addresses\<close>

lemma ev_ptr_simps [simp]:
  "ev_conn_event_ptr i = ev_conn_event_ptr j \<longleftrightarrow> i = j" "ev_conn_cmpl_ptr i = ev_conn_cmpl_ptr j \<longleftrightarrow> i = j"
  "ev_conn_event_ptr i \<noteq> ev_incoming_ptr" "ev_conn_cmpl_ptr i \<noteq> ev_incoming_ptr"
  "ev_incoming_ptr \<noteq> ev_conn_event_ptr i" "ev_incoming_ptr \<noteq> ev_conn_cmpl_ptr i"
  by (auto simp: ev_conn_event_ptr_def ev_conn_cmpl_ptr_def ev_incoming_ptr_def clients_ptr_def)

lemma ev_ptr_distinct [simp]: "ev_conn_event_ptr i \<noteq> ev_conn_cmpl_ptr j" "ev_conn_cmpl_ptr j \<noteq> ev_conn_event_ptr i"
proof -
  have "ev_conn_event_ptr i mod 88 = 40" "ev_conn_cmpl_ptr j mod 88 = 64"
    by (simp_all add: ev_conn_event_ptr_def ev_conn_cmpl_ptr_def clients_ptr_def SVR_def mod_add_eq [symmetric])
  then show "ev_conn_event_ptr i \<noteq> ev_conn_cmpl_ptr j" "ev_conn_cmpl_ptr j \<noteq> ev_conn_event_ptr i" by auto
qed

lemma find_index:
  assumes "i < n" and "\<And>j. f j \<longleftrightarrow> i = j"
  shows "find f [0..<n] = Some i"
  unfolding find_Some_iff by (rule exI [of _ i]) (use assms in simp)

lemma find_False: "find (\<lambda>_. False) xs = None"
  by (simp add: find_None_iff)

lemma event_at_simps [simp]:
  "event_at ev_incoming_ptr svr = Some (sv_ev_incoming svr)"
  "i < length (sv_clients svr) \<Longrightarrow> event_at (ev_conn_event_ptr i) svr = Some (cl_ev_conn_event (sv_clients svr ! i))"
  "i < length (sv_clients svr) \<Longrightarrow> event_at (ev_conn_cmpl_ptr i) svr = Some (cl_ev_conn_cmpl (sv_clients svr ! i))"
  by (simp_all add: event_at_def find_index find_False)

subsection \<open>Changing a slot\<close>

definition before :: "nat \<Rightarrow> 'z server_res_scheme \<Rightarrow> (ptr \<times> ptr) list" where
  "before i svr = concat (map slot (take i (sv_clients svr)))"

definition after :: "nat \<Rightarrow> 'z server_res_scheme \<Rightarrow> (ptr \<times> ptr) list" where
  "after i svr = concat (map slot (drop (Suc i) (sv_clients svr)))"

lemma busy_set_client: "i < length (sv_clients svr) \<Longrightarrow> busy (set_client i c svr) = before i svr @ slot c @ after i svr"
  by (simp add: busy_def set_client_def before_def after_def upd_conv_take_nth_drop)

lemma busy_split: "i < length (sv_clients svr) \<Longrightarrow> busy svr = before i svr @ slot (sv_clients svr ! i) @ after i svr"
  using id_take_nth_drop [of i "sv_clients svr"] unfolding busy_def before_def after_def
  by (metis concat.simps(2) concat_append list.simps(9) map_append)

lemma set_client_fields [simp]:
  "sv_clients (set_client i c svr) = (sv_clients svr)[i := c]" "sv_ep (set_client i c svr) = sv_ep svr"
  "sv_dst_ptr (set_client i c svr) = sv_dst_ptr svr" "sv_dst_mr (set_client i c svr) = sv_dst_mr svr"
  "sv_epoll (set_client i c svr) = sv_epoll svr" "sv_ev_incoming (set_client i c svr) = sv_ev_incoming svr"
  "set_client i c (set_client i d svr) = set_client i c svr"
  by (simp_all add: set_client_def)

lemma before_set_client [simp]: "before i (set_client i c svr) = before i svr"
  and after_set_client [simp]: "after i (set_client i c svr) = after i svr"
  by (simp_all add: before_def after_def)

lemma client_at_Some: "client_at svr i = Some c \<longleftrightarrow> i < length (sv_clients svr) \<and> sv_clients svr ! i = c"
  by (auto simp: client_at_def)

lemma in_busy: "i < length (sv_clients svr) \<Longrightarrow> cl_conn (sv_clients svr ! i) \<noteq> NULL \<Longrightarrow>
    (cl_conn (sv_clients svr ! i), cl_cq (sv_clients svr ! i)) \<in> set (busy svr)"
  by (simp add: busy_split slot_def)

lemma length_slots: "\<forall>c\<in>set cs. cl_conn c \<noteq> NULL \<Longrightarrow> length (concat (map slot cs)) = length cs"
  by (induction cs) (auto simp: slot_def)

subsection \<open>Operations on the connection of a slot\<close>

lemma inv_keep:
  "server_inv E P sv0 svr s \<Longrightarrow> pool E P (busy svr) s' \<Longrightarrow> own_calls s' = own_calls s \<Longrightarrow> server_inv E P sv0 svr s'"
  by (simp add: server_inv_def watched_def)

lemma inv_client:
  assumes "server_inv E P sv0 svr s" and "i < CLIENT_MAX"
  shows "client_at svr i = Some (sv_clients svr ! i)" and "client_ok i (sv_clients svr ! i)"
    and "cl_conn (sv_clients svr ! i) \<noteq> NULL \<Longrightarrow> (cl_conn (sv_clients svr ! i), cl_cq (sv_clients svr ! i)) \<in> set (busy svr)"
  using assms in_busy [of i svr] by (auto simp: server_inv_def server_ok_def client_at_def)

lemma inv_pool: "server_inv E P sv0 svr s \<Longrightarrow> pool E P (busy svr) s"
  by (simp add: server_inv_def)

lemma inv_frame:
  assumes "server_inv E P sv0 svr s"
  shows "sv_ep sv0 = sv_ep svr \<and> sv_dst_mr sv0 = sv_dst_mr svr \<and> sv_dst_ptr sv0 = sv_dst_ptr svr \<and> sv_epoll sv0 = sv_epoll svr"
proof -
  have eq: "sv0 = svr\<lparr>sv_clients := sv_clients sv0\<rparr>" using assms by (simp add: server_inv_def)
  show ?thesis
    using arg_cong [OF eq, of sv_ep] arg_cong [OF eq, of sv_dst_mr] arg_cong [OF eq, of sv_dst_ptr] arg_cong [OF eq, of sv_epoll]
    by simp
qed

lemma wp_inv_disconnect:
  assumes "stable E P" and "server_inv E P sv0 svr s" and "(k, q) \<in> set (busy svr)"
    and "\<And>r s'. server_inv E P sv0 svr s' \<Longrightarrow> Q r s'"
  shows "wp (rpma_conn_disconnect E k s) Q"
  by (rule wp_pool_disconnect [OF assms(1) inv_pool [OF assms(2)] assms(3)])
     (blast intro: assms(4) inv_keep [OF assms(2)])

lemma wp_inv_cq_wait:
  assumes "stable E P" and "server_inv E P sv0 svr s" and "(k, q) \<in> set (busy svr)"
    and "\<And>r s'. server_inv E P sv0 svr s' \<Longrightarrow> Q r s'"
  shows "wp (rpma_cq_wait E q s) Q"
  by (rule wp_pool_cq_wait [OF assms(1) inv_pool [OF assms(2)] assms(3)])
     (blast intro: assms(4) inv_keep [OF assms(2)])

lemma wp_inv_get_wc:
  assumes "stable E P" and "server_inv E P sv0 svr s" and "(k, q) \<in> set (busy svr)"
    and "\<And>r s'. server_inv E P sv0 svr s' \<Longrightarrow> Q r s'"
  shows "wp (rpma_cq_get_wc E q 1 (Some [wc]) None s) Q"
  by (rule wp_pool_get_wc [OF assms(1) inv_pool [OF assms(2)] pool_conn(2) [OF inv_pool [OF assms(2)] assms(3)]])
     (blast intro: assms(4) inv_keep [OF assms(2)])+

lemma wp_inv_next_event:
  assumes "server_inv E P sv0 svr s" and "(k, q) \<in> set (busy svr)" and "events_wf E"
    and "\<And>ret out s'. server_inv E P sv0 svr s' \<Longrightarrow> Q (ret, Some out) s'"
  shows "wp (rpma_conn_next_event E k (Some x) s) Q"
  by (rule wp_pool_next_event [OF inv_pool [OF assms(1)] assms(2,3)])
     (blast intro: assms(4) inv_keep [OF assms(1)])

lemma wp_client_handle_completion:
  assumes P: "stable E P" and inv: "server_inv E P sv0 svr s" and i: "i < CLIENT_MAX"
    and c: "cl_conn (sv_clients svr ! i) \<noteq> NULL"
  shows "wp (client_handle_completion E i wc svr s) (server_inv E P sv0)"
  unfolding client_handle_completion_def Let_def inv_client(1) [OF inv i] bind.bind_lunit
  by (auto intro!: wp_inv_cq_wait [OF P inv inv_client(3) [OF inv i c]] wp_inv_get_wc [OF P _ inv_client(3) [OF inv i c]]
      wp_inv_disconnect [OF P _ inv_client(3) [OF inv i c]])

subsection \<open>Fetching the name\<close>

lemma quiet_read:
  assumes "\<exists>c. obj_at k (O_conn c) s" and "\<exists>m. obj_at dst (O_mr_local m) s" and "\<exists>r. obj_at src (O_mr_remote r) s" and "ledger_ok s"
  shows "wp (rpma_read E k dst dst_off src off len RPMA_F_COMPLETION_ALWAYS ctx s)
    (\<lambda>r s'. ledger_ok s' \<and> mem s' = mem s \<and> acct s' = acct s)"
proof -
  from assms(1-3) obtain c m r where o: "obj_at k (O_conn c) s" "obj_at dst (O_mr_local m) s" "obj_at src (O_mr_remote r) s" by blast
  have "RPMA_F_COMPLETION_ALWAYS \<noteq> 0" by (simp add: RPMA_F_COMPLETION_ALWAYS_def RPMA_F_COMPLETION_ON_ERROR_def)
  from rpma_read_posts(1) [OF o this, where E = E and src_off = off and dst_off = dst_off and len = len and ctx = ctx] assms(4)
  show ?thesis by (auto simp: posts_def Let_def)
qed

lemma pool_payload:
  assumes "pool E P cs s" and "(k, q) \<in> set cs" and "obj_at k (O_conn c) s"
  shows "pdata_ok (conn_data c) s"
proof -
  from assms(1,2) obtain as bs where "over (owns_conn_cq E q) E (pool E P (as @ bs)) k s" by (rule pool_take) simp
  then obtain B R where "owns_conn k B R s" by (auto simp: over_def owns_conn_cq_def owns_conn_of_def)
  from owns_conn_live [OF this] assms(3) show ?thesis by (auto dest: obj_at_unique)
qed

lemma lib_client_fetch_name: "own_calls s = t \<Longrightarrow> lib_only t (client_fetch_name E c dst s)"
  unfolding client_fetch_name_def
  by (auto intro!: lib lib_load [where m = "bytes_at p s" for p s] split: prod.splits)

lemma wp_client_fetch_name:
  assumes P: "stable E P" and p: "pool E P cs s" and k: "(cl_conn c, q) \<in> set cs"
    and dst: "\<And>t. P t \<Longrightarrow> \<exists>m. obj_at dst (O_mr_local m) t"
    and Q: "\<And>ret s'. pool E P cs s' \<Longrightarrow> own_calls s' = own_calls s \<Longrightarrow> Q ret s'"
  shows "wp (client_fetch_name E c dst s) Q"
proof -
  let ?P = "pool E P cs" and ?k = "cl_conn c"
  have st: "stable E ?P" by (rule stable_pool [OF P])
  from pool_conn(1) [OF p k] obtain x where x: "obj_at ?k (O_conn x) s" by blast
  have read: "wp (rpma_read E ?k dst off src 0 len RPMA_F_COMPLETION_ALWAYS 0 t) R"
    if o: "over (owns_plain O_mr_remote) E ?P src t" and R: "\<And>ret t'. over (owns_plain O_mr_remote) E ?P src t' \<Longrightarrow> R ret t'"
    for src t off len R
  proof -
    from over_below [OF o] obtain t1 where t1: "?P t1" "\<forall>q y. obj_at q y t1 \<longrightarrow> obj_at q y t" by blast
    from pool_conn(1) [OF t1(1) k] t1(2) have "\<exists>y. obj_at ?k (O_conn y) t" by blast
    moreover from pool_below [OF t1(1)] dst t1(2) have "\<exists>m. obj_at dst (O_mr_local m) t" by blast
    ultimately show ?thesis
      by (intro wp_quiet [OF plain_scope.stable_over o quiet_read [OF _ _ over_top(5) [OF o] over_ledger [OF o]]] R)
  qed
  have data: "\<exists>bs. bytes_at (pdata_ptr (conn_data x)) s = Some bs \<and> 28 \<le> length bs \<and> 21 \<le> length bs - 4"
    if "\<not> pdata_len (conn_data x) < SIZEOF_COMMON_DATA"
    by (rule common_data_bytes [OF pool_payload [OF p k x] that]) simp
  have "wp (client_fetch_name E c dst s) (\<lambda>_. ?P)"
    unfolding client_fetch_name_def using x data
    by (auto simp: rpma_conn_get_private_data_def obj_at_nonnull p read_bytes_def
        intro!: wp_push_mr_remote [OF st p] read wp_pop_mr_remote [OF _ st])
  from wp_lib [OF this lib_client_fetch_name [OF refl]] show ?thesis by (rule wp_mono) (blast intro: Q)
qed

lemma wp_client_handle_is_ready:
  assumes P: "stable E P" and inv: "server_inv E P sv0 svr s" and i: "i < CLIENT_MAX"
    and c: "cl_conn (sv_clients svr ! i) \<noteq> NULL" and base: "base_ok P peer ep (sv_dst_mr svr)"
  shows "wp (client_handle_is_ready E i svr s) (server_inv E P sv0)"
proof -
  have sv: "svr_of (sv_clients svr ! i) svr = Some svr" using inv_client(2) [OF inv i] c by (simp add: svr_of_def client_ok_def)
  show ?thesis
    unfolding client_handle_is_ready_def inv_client(1) [OF inv i] bind.bind_lunit sv wp_bind
    by (rule wp_client_fetch_name [OF P inv_pool [OF inv] inv_client(3) [OF inv i c]])
       (use base in \<open>auto simp: base_ok_def intro!: wp_inv_disconnect [OF P _ inv_client(3) [OF inv i c]] intro: inv_keep [OF inv]\<close>)
qed

subsection \<open>Releasing a slot\<close>

text \<open>The watched descriptors when a slot is changed: those of other slots are kept.\<close>

lemma watch_ok_others:
  assumes "watch_ok svr W" and "length (sv_clients svr) = CLIENT_MAX" and "W' \<subseteq> W"
    and "\<And>fd p. (fd, p) \<in> W' \<Longrightarrow> i < CLIENT_MAX \<Longrightarrow> watches i (sv_clients svr ! i) fd p \<Longrightarrow> watches i c fd p"
  shows "watch_ok (set_client i c svr) W'"
  unfolding watch_ok_def
proof (intro ballI, clarify)
  fix fd p
  assume x: "(fd, p) \<in> W'"
  with assms(1,3) have w: "fd \<noteq> - 1" "p = ev_incoming_ptr \<or> (\<exists>j<CLIENT_MAX. watches j (sv_clients svr ! j) fd p)"
    by (auto simp: watch_ok_def)
  have "watches j (sv_clients (set_client i c svr) ! j) fd p" if "j < CLIENT_MAX" "watches j (sv_clients svr ! j) fd p" for j
    using that assms(2,4) x by (cases "j = i") auto
  with w show "fd \<noteq> - 1 \<and> (p = ev_incoming_ptr \<or> (\<exists>j<CLIENT_MAX. watches j (sv_clients (set_client i c svr) ! j) fd p))"
    by blast
qed

lemma server_ok_set_client: "server_ok svr \<Longrightarrow> i < CLIENT_MAX \<Longrightarrow> client_ok i c \<Longrightarrow> server_ok (set_client i c svr)"
  by (auto simp: server_ok_def nth_list_update)

lemma set_client_frame [simp]: "(set_client i c svr)\<lparr>sv_clients := x\<rparr> = svr\<lparr>sv_clients := x\<rparr>"
  by (simp add: set_client_def)

lemma inv_set_client:
  assumes "server_inv E P sv0 svr s" and "i < CLIENT_MAX" and "client_ok i c"
    and "pool E P (before i svr @ slot c @ after i svr) t" and "watch_ok (set_client i c svr) (watched (sv_epoll svr) t)"
  shows "server_inv E P sv0 (set_client i c svr) t"
  using assms busy_set_client [of i svr c] server_ok_set_client [of svr i c]
  by (simp add: server_inv_def) (simp add: server_ok_def)

lemma wp_client_delete:
  assumes P: "stable E P" and inv: "server_inv E P sv0 svr s" and i: "i < CLIENT_MAX"
    and c: "cl_conn (sv_clients svr ! i) \<noteq> NULL"
  shows "wp (client_delete E i svr s) (server_inv E P sv0)"
proof -
  let ?c = "sv_clients svr ! i" and ?ep = "sv_epoll svr" and ?cs = "busy svr"
  have ok: "server_ok svr" "sv0 = svr\<lparr>sv_clients := sv_clients sv0\<rparr>" "pool E P ?cs s" "watch_ok svr (watched ?ep s)"
    using inv by (simp_all add: server_inv_def)
  have len: "length (sv_clients svr) = CLIENT_MAX" using ok(1) by (simp add: server_ok_def)
  have sv: "svr_of ?c svr = Some svr" using inv_client(2) [OF inv i] c by (simp add: svr_of_def client_ok_def)
  have cs: "?cs = before i svr @ (cl_conn ?c, cl_cq ?c) # after i svr" using busy_split [of i svr] i len c by (simp add: slot_def)
  have del: "wp (if ce_fd ce \<noteq> - 1 then epoll_delete E ?ep ce t else Some (ce, t)) Q"
    if t: "pool E P ?cs t" and W: "watched ?ep t \<subseteq> watched ?ep s"
      and Q: "\<And>ce t'. pool E P ?cs t' \<Longrightarrow> watched ?ep t' \<subseteq> {x \<in> watched ?ep t. fst x \<noteq> fd} \<Longrightarrow> Q ce t'" and fd: "fd = ce_fd ce"
    for ce t Q fd
    using W fd ok(4)
    by (auto intro!: wp_epoll_delete [OF stable_pool [OF P] t] Q t simp: watch_ok_def)
  have fin: "server_inv E P sv0 (set_client i (?c\<lparr>cl_ev_conn_cmpl := ce, cl_ev_conn_event := ce', cl_conn := NULL\<rparr>) svr) t"
    if t: "pool E P (before i svr @ after i svr) t"
      "watched ?ep t \<subseteq> {x \<in> watched ?ep s. fst x \<noteq> ce_fd (cl_ev_conn_cmpl ?c) \<and> fst x \<noteq> ce_fd (cl_ev_conn_event ?c)}" for t ce ce'
    by (rule inv_set_client [OF inv i])
       (use t in \<open>fastforce simp: slot_def client_ok_def watches_def intro!: watch_ok_others [OF ok(4) len]\<close>)+
  show ?thesis
    unfolding client_delete_def inv_client(1) [OF inv i] bind.bind_lunit sv Let_def wp_bind
  proof (rule del [OF ok(3) subset_refl _ refl], goal_cases)
    case w: (1 ce1 t1)
    then have w1: "watched ?ep t1 \<subseteq> watched ?ep s" by blast
    show ?case
    proof (rule del [OF w(1) w1 _ refl], goal_cases)
      case d: (1 ce2 t2)
      then have "pool E P (before i svr @ (cl_conn ?c, cl_cq ?c) # after i svr) t2" by (simp add: cs)
      then have "pool E P (before i svr @ (cl_conn (?c\<lparr>cl_ev_conn_cmpl := ce1, cl_ev_conn_event := ce2\<rparr>), cl_cq ?c) # after i svr) t2"
        by simp
      then show ?case
      proof (rule wp_pool_delete [OF P], goal_cases)
        case (1 ret t3)
        have "watched ?ep t3 \<subseteq> {x \<in> watched ?ep s. fst x \<noteq> ce_fd (cl_ev_conn_cmpl ?c) \<and> fst x \<noteq> ce_fd (cl_ev_conn_event ?c)}"
          unfolding watched_cong [OF 1(2)] using w(2) d(2) by auto
        from fin [OF 1(1) this] show ?case by simp
      qed
    qed
  qed
qed

lemma wp_client_handle_connection_event:
  assumes P: "stable E P" and inv: "server_inv E P sv0 svr s" and i: "i < CLIENT_MAX"
    and c: "cl_conn (sv_clients svr ! i) \<noteq> NULL" and base: "base_ok P peer ep (sv_dst_mr svr)" and wf: "events_wf E"
  shows "wp (client_handle_connection_event E i svr s) (server_inv E P sv0)"
  unfolding client_handle_connection_event_def inv_client(1) [OF inv i] bind.bind_lunit
  by (auto intro!: wp_inv_next_event [OF inv inv_client(3) [OF inv i c] wf] wp_inv_disconnect [OF P _ inv_client(3) [OF inv i c]]
      wp_client_handle_is_ready [OF P _ i c base] wp_client_delete [OF P _ i c])

subsection \<open>Taking a slot\<close>

abbreviation reset_client :: "nat \<Rightarrow> client_res \<Rightarrow> client_res" where
  "reset_client i c \<equiv> c\<lparr>cl_client_id := int i, cl_svr := SVR, cl_offset := of_nat MAX_NAME_SIZE * of_nat i,
     cl_ev_conn_cmpl := (cl_ev_conn_cmpl c)\<lparr>ce_fd := - 1\<rparr>, cl_ev_conn_event := (cl_ev_conn_event c)\<lparr>ce_fd := - 1\<rparr>\<rparr>"

lemma client_new_for_free:
  "\<forall>i\<in>set is. i < length (sv_clients svr) \<Longrightarrow> \<exists>i\<in>set is. cl_conn (sv_clients svr ! i) = NULL \<Longrightarrow>
    \<exists>i\<in>set is. cl_conn (sv_clients svr ! i) = NULL \<and>
      client_new_for is clnt svr = Some (Some i, set_client i (reset_client i (sv_clients svr ! i)) svr)"
  by (induction "is" arbitrary: clnt) (auto simp: client_at_def)

lemma client_new_for_full:
  "\<forall>i\<in>set is. i < length (sv_clients svr) \<and> cl_conn (sv_clients svr ! i) \<noteq> NULL \<Longrightarrow>
    client_new_for is clnt svr = Some (if is = [] then clnt else Some (last is), svr)"
  by (induction "is" arbitrary: clnt) (auto simp: client_at_def)

text \<open>While there is room, the slot that is found is free.\<close>

lemma client_new_free:
  assumes "server_inv E P sv0 svr s" and "open_qps (trace s) < CLIENT_MAX"
  shows "\<exists>i<CLIENT_MAX. cl_conn (sv_clients svr ! i) = NULL \<and>
    client_new svr = Some (Some i, set_client i (reset_client i (sv_clients svr ! i)) svr)"
proof -
  have len: "length (sv_clients svr) = CLIENT_MAX" using assms(1) by (simp add: server_inv_def server_ok_def)
  have "length (busy svr) < CLIENT_MAX" using pool_qps [OF inv_pool [OF assms(1)]] assms(2) by simp
  then have "\<not> (\<forall>c\<in>set (sv_clients svr). cl_conn c \<noteq> NULL)" using length_slots [of "sv_clients svr"] len by (metis busy_def nat_less_le)
  then have "\<exists>i\<in>set [0..<CLIENT_MAX]. cl_conn (sv_clients svr ! i) = NULL" using len by (fastforce simp: in_set_conv_nth)
  from client_new_for_free [OF _ this, of None] len show ?thesis by (auto simp: client_new_def)
qed

lemma no_watch:
  assumes "server_inv E P sv0 svr s" and "(fd, p) \<in> watched (sv_epoll svr) s" and "cl_conn (sv_clients svr ! i) = NULL"
  shows "p \<noteq> ev_conn_event_ptr i \<and> p \<noteq> ev_conn_cmpl_ptr i"
  using assms by (fastforce simp: server_inv_def watch_ok_def watches_def)

text \<open>The events of a slot that is not watched yet can be filled in.\<close>

lemma inv_events:
  assumes inv: "server_inv E P sv0 svr s" and i: "i < CLIENT_MAX"
    and none: "\<And>fd p. (fd, p) \<in> watched (sv_epoll svr) s \<Longrightarrow> p \<noteq> ev_conn_event_ptr i \<and> p \<noteq> ev_conn_cmpl_ptr i"
    and t: "pool E P (busy svr) t"
    and c: "c = (sv_clients svr ! i)\<lparr>cl_ev_conn_event := ce1, cl_ev_conn_cmpl := ce2\<rparr>"
    and W: "\<And>fd p. (fd, p) \<in> watched (sv_epoll svr) t \<Longrightarrow> (fd, p) \<in> watched (sv_epoll svr) s \<or> fd \<noteq> - 1 \<and> watches i c fd p"
  shows "server_inv E P sv0 (set_client i c svr) t"
proof (rule inv_set_client [OF inv i])
  have len: "length (sv_clients svr) = CLIENT_MAX" using inv by (simp add: server_inv_def server_ok_def)
  show "client_ok i c" using inv_client(2) [OF inv i] c by (simp add: client_ok_def)
  show "pool E P (before i svr @ slot c @ after i svr) t" using t busy_split [of i svr] i len c by (auto simp: slot_def)
  have "watch_ok (set_client i c svr) (watched (sv_epoll svr) s)"
    using inv by (intro watch_ok_others [OF _ len subset_refl]) (auto simp: server_inv_def watches_def dest: none)
  moreover have "watches i (sv_clients (set_client i c svr) ! i) fd p" if "watches i c fd p" for fd p using that i len by simp
  ultimately show "watch_ok (set_client i c svr) (watched (sv_epoll svr) t)"
    unfolding watch_ok_def using W i by blast
qed

lemma swap_ev: "c\<lparr>cl_ev_conn_cmpl := a, cl_ev_conn_event := b\<rparr> = c\<lparr>cl_ev_conn_event := b, cl_ev_conn_cmpl := a\<rparr>"
  by simp

lemma wp_client_add_to_epoll:
  assumes P: "stable E P" and inv: "server_inv E P sv0 svr s" and i: "i < CLIENT_MAX"
    and k: "cl_conn (sv_clients svr ! i) \<noteq> NULL"
    and none: "\<And>fd p. (fd, p) \<in> watched (sv_epoll svr) s \<Longrightarrow> p \<noteq> ev_conn_event_ptr i \<and> p \<noteq> ev_conn_cmpl_ptr i"
  shows "wp (client_add_to_epoll E i (sv_epoll svr) svr s) (\<lambda>(ret, svr') s'. server_inv E P sv0 svr' s' \<and> busy svr' = busy svr)"
proof -
  let ?c = "sv_clients svr ! i" and ?ep = "sv_epoll svr" and ?p = "pool E P (busy svr)"
  have len: "length (sv_clients svr) = CLIENT_MAX" using inv by (simp add: server_inv_def server_ok_def)
  have same: "busy (set_client i (?c\<lparr>cl_ev_conn_event := ce1, cl_ev_conn_cmpl := ce2\<rparr>) svr) = busy svr" for ce1 ce2
    using busy_split [of i svr] busy_set_client [of i svr] i len by (simp add: slot_def)
  have st: "stable E ?p" by (rule stable_pool [OF P])
  have mem: "(cl_conn ?c, cl_cq ?c) \<in> set (busy svr)" by (rule inv_client(3) [OF inv i k])
  obtain x where x: "obj_at (cl_conn ?c) (O_conn x) s" using pool_conn(1) [OF inv_pool [OF inv] mem] by blast
  define fd where "fd = event_channel_fd E (conn_evch x)"
  have get: "rpma_conn_get_event_fd E (cl_conn ?c) (Some 0) s = Some ((0, Some fd), s)"
    using x k by (simp add: rpma_conn_get_event_fd_def fd_def)
  let ?ev = "\<lparr>ce_fd = fd, ce_arg = Some (Arg_client i), ce_func = Some Client_handle_connection_event\<rparr>"
  let ?set = "\<lambda>ce1 ce2. set_client i (?c\<lparr>cl_ev_conn_event := ce1, cl_ev_conn_cmpl := ce2\<rparr>) svr"
  have fin: "server_inv E P sv0 (?set ce1 ce2) t"
    if "?p t" "\<And>fd p. (fd, p) \<in> watched ?ep t \<Longrightarrow> (fd, p) \<in> watched ?ep s \<or>
      fd \<noteq> - 1 \<and> watches i (?c\<lparr>cl_ev_conn_event := ce1, cl_ev_conn_cmpl := ce2\<rparr>) fd p" for ce1 ce2 t
    using inv_events [OF inv i none that(1) refl that(2)] .
  have undo: "wp (epoll_delete E ?ep ?ev t) (\<lambda>ce t. server_inv E P sv0 (?set ce ce2) t \<and> busy (?set ce ce2) = busy svr)"
    if "?p t" "watched ?ep t \<subseteq> watched ?ep s \<union> {(fd, ev_conn_event_ptr i)}" for t ce2
    using that(2) by (intro wp_epoll_delete [OF st that(1)] conjI fin same) auto
  have old: "set_client i ?c svr = svr" by (simp add: set_client_def)
  have filled: "server_inv E P sv0 (?set ?ev ce2) t \<and> busy (?set ?ev ce2) = busy svr"
    if "?p t" "watched ?ep t \<subseteq> watched ?ep s \<union> (if fd = - 1 then {} else {(fd, ev_conn_event_ptr i)}) \<union>
        (if fd' = - 1 then {} else {(fd', ev_conn_cmpl_ptr i)})"
      "ce2 = \<lparr>ce_fd = fd', ce_arg = Some (Arg_client i), ce_func = Some Client_handle_completion\<rparr> \<or> fd' = - 1" for t ce2 fd'
    using that(2,3) by (intro conjI fin [OF that(1)] same) (auto simp: watches_def k split: if_splits)
  show ?thesis
    unfolding client_add_to_epoll_def inv_client(1) [OF inv i] bind.bind_lunit get Let_def wp_bind
  proof (simp, rule wp_epoll_add [OF st inv_pool [OF inv]], goal_cases)
    case (1 t)
    then show ?case using inv by (simp add: old inv_keep server_inv_def)
  next
    case (2 ret t)
    then have w: "watched ?ep t \<subseteq> watched ?ep s \<union> {(fd, ev_conn_event_ptr i)}" by (auto split: if_splits)
    have added: "watched ?ep t \<subseteq> watched ?ep s \<union> (if fd = - 1 then {} else {(fd, ev_conn_event_ptr i)})" by (rule 2(3))
    note undo' = undo [of _ "cl_ev_conn_cmpl ?c", simplified]
    show ?case
    proof (cases "ret = 0 \<and> cl_cq ?c \<noteq> NULL")
      case True
      obtain q where q: "obj_at (cl_cq ?c) (O_cq q) t" using pool_conn(2) [OF 2(1) mem] True by blast
      define fd' where "fd' = comp_channel_fd E (cq_channel q)"
      from True q show ?thesis
      proof (simp add: rpma_cq_get_fd_def swap_ev fd'_def [symmetric], intro wp_epoll_add [OF st 2(1)], goal_cases)
        case (1 t2)
        then have "?p t2" "watched ?ep t2 = watched ?ep t" by simp_all
        with w show ?case using undo' [of t2] by simp
      next
        case (2 ret' t2)
        then have t2: "?p t2" "watched ?ep t2 \<subseteq> watched ?ep t \<union> (if fd' = - 1 then {} else {(fd', ev_conn_cmpl_ptr i)})"
          "ret' \<noteq> 0 \<Longrightarrow> watched ?ep t2 = watched ?ep t" by simp_all
        show ?case
        proof (cases "ret' = 0")
          case True
          then show ?thesis using filled [OF t2(1) order_trans [OF t2(2) Un_mono [OF added subset_refl]] disjI1 [OF refl]] by simp
        next
          case False
          then show ?thesis using undo [OF t2(1)] t2(3) w by simp
        qed
      qed
    next
      case False
      then show ?thesis
        using filled [OF 2(1), of "- 1" "cl_ev_conn_cmpl ?c"] added undo' [OF 2(1)] w by (auto simp: rpma_cq_get_fd_def old)
    qed
  qed
qed

text \<open>A connection put into a free slot.\<close>

lemma inv_new_conn:
  assumes inv: "server_inv E P sv0 svr s" and i: "i < CLIENT_MAX" and free: "cl_conn (sv_clients svr ! i) = NULL"
    and o: "over (owns_conn_of E) E (pool E P (busy svr)) k t" and x: "obj_at k (O_conn x) t" and w: "own_calls t = own_calls s"
    and c: "client_ok i c" "cl_conn c = k" "cl_cq c = conn_cq x"
  shows "server_inv E P sv0 (set_client i c svr) t"
proof (rule inv_set_client [OF inv i c(1)])
  have len: "length (sv_clients svr) = CLIENT_MAX" using inv by (simp add: server_inv_def server_ok_def)
  have "busy svr = before i svr @ after i svr" using busy_split [of i svr] i len free by (simp add: slot_def)
  with o x have "over (owns_conn_cq E (conn_cq x)) E (pool E P (before i svr @ after i svr)) k t" by (auto simp: over_conn_cq)
  from pool_put [where c = "(k, conn_cq x)", OF refl, simplified, OF this]
  show "pool E P (before i svr @ slot c @ after i svr) t" using c obj_at_nonnull [OF x] by (simp add: slot_def)
  show "watch_ok (set_client i c svr) (watched (sv_epoll svr) t)"
    using inv free by (intro watch_ok_others [OF _ len subset_refl]) (auto simp: server_inv_def watches_def watched_def w)
qed

lemma wp_server_accept_client:
  assumes P: "stable E P" and inv: "server_inv E P sv0 svr s" and i: "i < CLIENT_MAX"
    and free: "cl_conn (sv_clients svr ! i) = NULL"
    and reset: "cl_svr (sv_clients svr ! i) = SVR" "cl_offset (sv_clients svr ! i) = of_nat (MAX_NAME_SIZE * i)"
    and req: "req_over E (pool E P (busy svr)) True peer req t" and calls: "own_calls t = own_calls s"
    and peer: "\<And>t. pool E P (busy svr) t \<Longrightarrow> \<exists>p. obj_at peer (O_peer p) t"
  shows "wp (server_accept_client E i (Some req) svr t) (server_inv E P sv0)"
proof -
  let ?P = "pool E P (busy svr)" and ?c = "sv_clients svr ! i"
  have "wp (rpma_conn_req_connect E (Some req) None (Some NULL) t) (\<lambda>(ret, req, conn) t'. req = Some NULL \<and>
      (if ret = 0 then over (owns_conn_of E) E ?P (the conn) t' else ?P t' \<and> conn = Some NULL))"
    by (rule wp_req_connect [OF stable_pool [OF P] req peer]) simp_all
  from wp_lib [OF this lib_req(1) [OF calls]]
  have conn: "wp (rpma_conn_req_connect E (Some req) None (Some NULL) t) (\<lambda>(ret, req, conn) t'. own_calls t' = own_calls s \<and>
      req = Some NULL \<and> (if ret = 0 then over (owns_conn_of E) E ?P (the conn) t' else ?P t' \<and> conn = Some NULL))"
    by (rule wp_mono) auto
  have refused: "server_inv E P sv0 (set_client i (?c\<lparr>cl_conn := NULL\<rparr>) svr) t'" if "?P t'" "own_calls t' = own_calls s" for t'
  proof -
    have "?c\<lparr>cl_conn := NULL\<rparr> = ?c" using free by (cases ?c) simp
    then show ?thesis using inv_keep [OF inv that] by (simp add: set_client_def)
  qed
  have taken: "wp (client_add_to_epoll E i (sv_epoll svr) (set_client i (?c\<lparr>cl_conn := k, cl_cq := conn_cq x\<rparr>) svr) t')
      (\<lambda>(ret, svr') t''. server_inv E P sv0 svr' t'' \<and> (k, conn_cq x) \<in> set (busy svr'))"
    if o: "over (owns_conn_of E) E ?P k t'" and x: "obj_at k (O_conn x) t'" and w: "own_calls t' = own_calls s" for k x t'
  proof -
    let ?svr = "set_client i (?c\<lparr>cl_conn := k, cl_cq := conn_cq x\<rparr>) svr"
    have len: "i < length (sv_clients svr)" using inv i by (simp add: server_inv_def server_ok_def)
    have inv': "server_inv E P sv0 ?svr t'"
      by (rule inv_new_conn [OF inv i free o x w]) (simp_all add: client_ok_def reset)
    have b: "(k, conn_cq x) \<in> set (busy ?svr)" using obj_at_nonnull [OF x] len by (simp add: busy_set_client slot_def)
    have none: "p \<noteq> ev_conn_event_ptr i \<and> p \<noteq> ev_conn_cmpl_ptr i" if "(fd, p) \<in> watched (sv_epoll ?svr) t'" for fd p
      using no_watch [OF inv _ free, of fd p] that by (simp add: watched_def w)
    have k: "cl_conn (sv_clients ?svr ! i) \<noteq> NULL" using obj_at_nonnull [OF x] len by simp
    have "wp (client_add_to_epoll E i (sv_epoll ?svr) ?svr t') (\<lambda>(ret, svr') s'. server_inv E P sv0 svr' s' \<and> busy svr' = busy ?svr)"
      by (rule wp_client_add_to_epoll [OF P inv' i k]) (rule none)
    with b show ?thesis by (auto elim!: wp_mono)
  qed
  show ?thesis
    unfolding server_accept_client_def inv_client(1) [OF inv i] bind.bind_lunit wp_bind free
  proof (rule wp_mono [OF conn], goal_cases)
    case (1 r t')
    obtain ret req' conn where r: "r = (ret, req', conn)" by (cases r)
    show ?case
    proof (cases "ret = 0")
      case True
      with 1 r have o: "over (owns_conn_of E) E ?P (the conn) t'" and w: "own_calls t' = own_calls s" by simp_all
      from over_top(1) [OF o] obtain x where x: "obj_at (the conn) (O_conn x) t'" by blast
      with r True show ?thesis
        by (auto simp: rpma_conn_get_cq_def obj_at_nonnull [OF x] intro!: wp_mono [OF taken [OF o x w]] wp_inv_disconnect [OF P])
    next
      case False
      with 1 r show ?thesis by (simp add: refused)
    qed
  qed
qed

lemma wp_server_handle_incoming_client:
  assumes P: "stable E P" and inv: "server_inv E P sv0 svr s" and base: "base_ok P peer (sv_ep svr) mr"
    and cfg: "cfg \<noteq> NULL \<Longrightarrow> \<exists>f. load_conn_cfg cfg s = Some f" and wf: "events_wf E" and room: "room_for_clients E"
  shows "wp (server_handle_incoming_client E cfg svr s) (server_inv E P sv0)"
proof -
  let ?P = "pool E P (busy svr)"
  have below: "\<exists>p. obj_at peer (O_peer p) t" "\<exists>e. obj_at (sv_ep svr) (O_ep e) t \<and> ep_peer e = peer" if "?P t" for t
    using pool_below [OF that] base unfolding base_ok_def by blast+
  have "wp (rpma_ep_next_conn_req E (sv_ep svr) cfg (Some NULL) s) (\<lambda>(ret, req) t.
      if ret = 0 then \<exists>k. req = Some k \<and> req_over E ?P True peer k t \<and> request_reported E (trace s) else ?P t)"
    by (rule wp_req_next [OF stable_pool [OF P] inv_pool [OF inv] below(2,1) [OF inv_pool [OF inv]] cfg wf]) auto
  from wp_lib [OF this lib_req(3) [OF refl]] show ?thesis
    unfolding server_handle_incoming_client_def wp_bind
  proof (rule wp_mono, goal_cases)
    case (1 r t)
    obtain ret req where r: "r = (ret, req)" by fastforce
    show ?case
    proof (cases "ret = 0")
      case True
      with 1 r obtain k where k: "req = Some k" "req_over E ?P True peer k t" "request_reported E (trace s)" "own_calls t = own_calls s" by auto
      then have "open_qps (trace s) < CLIENT_MAX" using room by (simp add: room_for_clients_def)
      from client_new_free [OF inv this] obtain i where i: "i < CLIENT_MAX" "cl_conn (sv_clients svr ! i) = NULL"
        and new: "client_new svr = Some (Some i, set_client i (reset_client i (sv_clients svr ! i)) svr)" by blast
      let ?svr = "set_client i (reset_client i (sv_clients svr ! i)) svr"
      have len: "length (sv_clients svr) = CLIENT_MAX" using inv by (simp add: server_inv_def server_ok_def)
      have b: "busy ?svr = busy svr" using busy_split [of i svr] busy_set_client [of i svr] i len by (simp add: slot_def)
      have inv': "server_inv E P sv0 ?svr s"
        by (rule inv_set_client [OF inv i(1)])
           (use inv i b busy_set_client [of i svr] len in \<open>auto simp: client_ok_def server_inv_def watches_def intro!: watch_ok_others\<close>)
      have "wp (server_accept_client E i (Some k) ?svr t) (server_inv E P sv0)"
        by (rule wp_server_accept_client [OF P inv' i(1) _ _ _ _ k(4)]) (use i k(2) b below(1) len in simp_all)
      with new r True k(1) show ?thesis by simp
    next
      case False
      with 1 r inv_keep [OF inv, of t] show ?thesis by simp
    qed
  qed
qed

subsection \<open>The event loop\<close>

text \<open>What the event loop relies on of a dispatching function and of the provider: a watched event is
  dispatched without losing the invariant, waiting does not affect the invariant, and \<open>epoll_wait\<close>
  reports watched events.\<close>

locale event_loop =
  fixes E :: env and dispatch :: "ptr \<Rightarrow> 'z server_res_scheme \<Rightarrow> st \<Rightarrow> ('z server_res_scheme \<times> st) option"
    and inv :: "'z server_res_scheme \<Rightarrow> st \<Rightarrow> bool"
  assumes dispatch_inv: "inv svr s \<Longrightarrow> (fd, p) \<in> watched (sv_epoll svr) s \<Longrightarrow> wp (dispatch p svr s) inv"
    and wait_inv: "inv svr s \<Longrightarrow> inv svr (push (Epoll_wait (sv_epoll svr) n) r s)"
    and reports: "inv svr s \<Longrightarrow> epoll_reports E"
begin

lemma loop_inv: "inv svr s \<Longrightarrow> wp (server_loop n E dispatch svr s) (\<lambda>(ret, svr') s'. inv svr' s')"
proof (induction n arbitrary: svr s)
  case (Suc n)
  let ?r = "respond E (trace s) (Epoll_wait (sv_epoll svr) TIMEOUT_15S)"
  let ?s = "push (Epoll_wait (sv_epoll svr) TIMEOUT_15S) ?r s"
  have inv: "inv svr ?s" by (rule wait_inv [OF Suc.prems])
  have "wp (dispatch (rptr ?r) svr ?s) inv" if "rint ?r = 1"
  proof -
    have "rptr ?r \<in> snd ` set (interest (sv_epoll svr) (trace s))" using reports [OF inv] that by (simp add: epoll_reports_def Let_def)
    then have "\<exists>fd. (fd, rptr ?r) \<in> watched (sv_epoll svr) ?s" by (force simp: watched_trace)
    then show ?thesis using dispatch_inv [OF inv] by blast
  qed
  then show ?case using inv by (auto simp: wp_ext_exact intro: wp_mono Suc.IH)
qed simp

end

definition serving :: "env \<Rightarrow> (st \<Rightarrow> bool) \<Rightarrow> ptr \<Rightarrow> 'z server_res_scheme \<Rightarrow> bool" where
  "serving E P peer sv0 \<longleftrightarrow> stable E P \<and> base_ok P peer (sv_ep sv0) (sv_dst_mr sv0) \<and> events_wf E \<and>
     room_for_clients E \<and> epoll_reports E"

lemma served_wait:
  assumes P: "stable E P" and inv: "server_inv E P sv0 svr s"
  shows "server_inv E P sv0 svr (push (Epoll_wait (sv_epoll svr) n) r s)"
  using inv stable_same [OF stable_pool [OF P] inv_pool [OF inv]] stable_ledger [OF stable_pool [OF P] inv_pool [OF inv]]
  by (simp add: server_inv_def)

lemma served_cases:
  assumes inv: "server_inv E P sv0 svr s" and w: "(fd, p) \<in> watched (sv_epoll svr) s"
  obtains "event_at p svr = Some (sv_ev_incoming svr)" and "ce_func (sv_ev_incoming svr) = Some Server_handle_incoming_client"
      and "ce_arg (sv_ev_incoming svr) = Some Arg_server"
    | i ce where "i < CLIENT_MAX" and "cl_conn (sv_clients svr ! i) \<noteq> NULL" and "event_at p svr = Some ce"
      and "ce_arg ce = Some (Arg_client i)" and "ce_func ce \<in> {Some Client_handle_connection_event, Some Client_handle_completion}"
proof -
  have ok: "server_ok svr" using inv by (simp add: server_inv_def)
  then have len: "length (sv_clients svr) = CLIENT_MAX" by (simp add: server_ok_def)
  from inv w consider "p = ev_incoming_ptr" | i where "i < CLIENT_MAX" "watches i (sv_clients svr ! i) fd p"
    by (auto simp: server_inv_def watch_ok_def)
  then show thesis
  proof cases
    case 1
    with ok that(1) show thesis by (auto simp: server_ok_def)
  next
    case 2
    with len that(2) show thesis by (auto simp: watches_def)
  qed
qed

interpretation multi_loop: event_loop E "server_dispatch E wc"
    "\<lambda>svr s. (\<exists>peer. serving E P peer sv0) \<and> server_inv E P sv0 svr s"
  for E wc P sv0
proof
  fix svr s fd p
  assume a: "(\<exists>peer. serving E P peer sv0) \<and> server_inv E P sv0 svr s" and w: "(fd, p) \<in> watched (sv_epoll svr) s"
  then obtain peer where P: "stable E P" and wf: "events_wf E" and room: "room_for_clients E"
    and base: "base_ok P peer (sv_ep svr) (sv_dst_mr svr)" and inv: "server_inv E P sv0 svr s"
    using inv_frame [of E P sv0 svr s] by (auto simp: serving_def)
  have "wp (server_dispatch E wc p svr s) (server_inv E P sv0)"
    using served_cases [OF inv w]
  proof cases
    case 1
    then show ?thesis
      by (simp add: server_dispatch_def wp_server_handle_incoming_client [OF P inv base _ wf room])
  next
    case (2 i)
    then show ?thesis
      by (auto simp: server_dispatch_def intro!: wp_client_handle_connection_event [OF P inv _ _ base wf]
          wp_client_handle_completion [OF P inv])
  qed
  with a show "wp (server_dispatch E wc p svr s) (\<lambda>svr s. (\<exists>peer. serving E P peer sv0) \<and> server_inv E P sv0 svr s)"
    by (auto elim: wp_mono)
qed (auto simp: serving_def intro: served_wait)

end
