(* ===== verification/Program_Rules.thy ===== *)
theory Program_Rules
  imports Conn_Pool Peer_Cfg
begin

text \<open>
  Rules for programs that use a connection while they hold other objects. \<open>live P k f\<close> says that in every
  state described by \<open>P\<close> there is an object of the kind \<open>f\<close> at \<open>k\<close>, \<open>conn_live P k q\<close> that there is a
  connection with the completion queue \<open>q\<close> whose parts are all there. Both follow from the stack of
  scopes by the rules \<open>lives\<close>. Operations that post a work request or ask for completions keep any
  stack; those that change an object in place, a buffer, a configuration or the flag of a
  connection, keep the stacks that \<open>allow\<close> the change.
\<close>

definition live :: "(st \<Rightarrow> bool) \<Rightarrow> ptr \<Rightarrow> ('x \<Rightarrow> obj) \<Rightarrow> bool" where
  "live P k f \<longleftrightarrow> (\<forall>t. P t \<longrightarrow> (\<exists>x. obj_at k (f x) t))"

definition conn_ready :: "ptr \<Rightarrow> ptr \<Rightarrow> rpma_conn \<Rightarrow> st \<Rightarrow> bool" where
  "conn_ready k q c t \<longleftrightarrow> obj_at k (O_conn c) t \<and> conn_cq c = q \<and> (q \<noteq> NULL \<longrightarrow> (\<exists>x. obj_at q (O_cq x) t)) \<and>
     (\<exists>f a m. obj_at (conn_flush c) (O_flush f) t \<and> obj_at (flush_context f) (O_apm a) t \<and>
        obj_at (apm_raw_mr a) (O_mr_local m) t) \<and> pdata_ok (conn_data c) t"

definition conn_live :: "(st \<Rightarrow> bool) \<Rightarrow> ptr \<Rightarrow> ptr \<Rightarrow> bool" where
  "conn_live P k q \<longleftrightarrow> (\<forall>t. P t \<longrightarrow> (\<exists>c. conn_ready k q c t))"

lemma liveD: "live P k f \<Longrightarrow> P t \<Longrightarrow> \<exists>x. obj_at k (f x) t"
  by (simp add: live_def)

lemma live_over: "live P k f \<Longrightarrow> live (over owns E P j) k f"
  unfolding live_def by (blast intro: over_live)

lemma live_top:
  "live (over owns_peer E P k) k O_peer" "live (over (owns_ep_of peer) E P k) k O_ep"
  "live (over owns_mr E P k) k O_mr_local" "live (over (owns_plain f) E P k) k f"
  by (auto simp: live_def dest: over_top)

lemma conn_ready_below: "conn_ready k q c t \<Longrightarrow> \<forall>q x. obj_at q x t \<longrightarrow> obj_at q x t' \<Longrightarrow> conn_ready k q c t'"
  unfolding conn_ready_def pdata_ok_def by blast

lemma conn_live_over: "conn_live P k q \<Longrightarrow> conn_live (over owns E P j) k q"
  unfolding conn_live_def by (blast dest: over_below intro: conn_ready_below)

lemma conn_live_top: "conn_live (over (owns_conn_cq E q) E P k) k q"
  unfolding conn_live_def
proof (intro allI impI)
  fix t
  assume "over (owns_conn_cq E q) E P k t"
  then obtain B R where "owns_conn k B R t" and q: "\<exists>c. obj_at k (O_conn c) t \<and> conn_cq c = q"
    by (auto simp: over_def owns_conn_cq_def owns_conn_of_def)
  then obtain c where c: "obj_at k (O_conn c) t" "\<exists>CB CR RB RR. conn_cqs c CB CR RB RR t" "\<exists>F FR. owns_flush (conn_flush c) F FR t"
    "pdata_ok (conn_data c) t"
    unfolding owns_conn_def by blast
  have "conn_cq c = q" using q c(1) by (auto dest: obj_at_unique)
  with c show "\<exists>c. conn_ready k q c t"
    by (auto simp: conn_ready_def conn_cqs_def owns_cq_opt_def owns_cq_def owns_flush_def intro!: exI [of _ c])
qed

lemmas lives = live_top live_over conn_live_top conn_live_over

lemma live_nonnull: "live P k f \<Longrightarrow> P t \<Longrightarrow> k \<noteq> NULL"
  using obj_at_nonnull by (fastforce simp: live_def)

subsection \<open>Posting and waiting\<close>

lemma flags_nonzero: "RPMA_F_COMPLETION_ALWAYS \<noteq> 0" "RPMA_F_COMPLETION_ON_ERROR \<noteq> 0"
  by (simp_all add: RPMA_F_COMPLETION_ALWAYS_def RPMA_F_COMPLETION_ON_ERROR_def)

lemma wp_bytes_at: "P s \<Longrightarrow> live P k O_bytes \<Longrightarrow> (\<And>bs. wp (f bs) Q) \<Longrightarrow> wp (Option.bind (bytes_at k s) f) Q"
  by (fastforce simp: live_def bytes_at_def deref_def obj_at_def)

lemma wp_get_size:
  assumes "P s" and "live P k O_mr_remote" and "\<And>n. Q (0, Some n) s"
  shows "wp (rpma_mr_remote_get_size k (Some x) s) Q"
  using liveD [OF assms(2,1)] live_nonnull [OF assms(2,1)] assms(3) by (auto simp: rpma_mr_remote_get_size_def)

lemma wp_get_flush_type:
  assumes "P s" and "live P k O_mr_remote" and "\<And>n. Q (0, Some n) s"
  shows "wp (rpma_mr_remote_get_flush_type k (Some x) s) Q"
  using liveD [OF assms(2,1)] live_nonnull [OF assms(2,1)] assms(3) by (auto simp: rpma_mr_remote_get_flush_type_def)

lemma quiet_posts: "posts E c wr s m \<Longrightarrow> ledger_ok s \<Longrightarrow> wp m (\<lambda>r s'. ledger_ok s' \<and> mem s' = mem s \<and> acct s' = acct s)"
  by (auto simp: posts_def Let_def)

lemma wp_posts:
  assumes "P s" and "stable E P" and "posts E c wr s m" and "\<And>r s'. P s' \<Longrightarrow> Q r s'"
  shows "wp m Q"
  by (rule wp_quiet [OF assms(2,1) quiet_posts [OF assms(3) stable_ledger [OF assms(2,1)]] assms(4)])

lemma wp_read:
  assumes "P s" and "stable E P" and "conn_live P k q" and "live P dst O_mr_local" and "live P src O_mr_remote"
    and "flags \<noteq> 0" and "\<And>r s'. P s' \<Longrightarrow> Q r s'"
  shows "wp (rpma_read E k dst dst_off src src_off len flags ctx s) Q"
proof -
  from assms(1,3) obtain c where "obj_at k (O_conn c) s" by (auto simp: conn_live_def conn_ready_def)
  moreover from liveD [OF assms(4,1)] obtain d where "obj_at dst (O_mr_local d) s" by blast
  moreover from liveD [OF assms(5,1)] obtain m where "obj_at src (O_mr_remote m) s" by blast
  ultimately show ?thesis using assms(6) by (intro wp_posts [OF assms(1,2) rpma_read_posts assms(7)])
qed

lemma wp_write:
  assumes "P s" and "stable E P" and "conn_live P k q" and "live P src O_mr_local" and "live P dst O_mr_remote"
    and "flags \<noteq> 0" and "\<And>r s'. P s' \<Longrightarrow> Q r s'"
  shows "wp (rpma_write E k dst dst_off src src_off len flags ctx s) Q"
    and "wp (rpma_write_with_imm E k dst dst_off src src_off len flags imm ctx s) Q"
proof -
  from assms(1,3) obtain c where c: "obj_at k (O_conn c) s" by (auto simp: conn_live_def conn_ready_def)
  from liveD [OF assms(4,1)] obtain d where d: "obj_at src (O_mr_local d) s" by blast
  from liveD [OF assms(5,1)] obtain m where m: "obj_at dst (O_mr_remote m) s" by blast
  show "wp (rpma_write E k dst dst_off src src_off len flags ctx s) Q"
    by (rule wp_posts [OF assms(1,2) rpma_write_posts(1) [OF c d m assms(6)] assms(7)])
  show "wp (rpma_write_with_imm E k dst dst_off src src_off len flags imm ctx s) Q"
    by (rule wp_posts [OF assms(1,2) rpma_write_posts(2) [OF c d m assms(6)] assms(7)])
qed

lemma wp_flush:
  assumes "P s" and "stable E P" and "conn_live P k q" and "live P dst O_mr_remote"
    and "\<And>r s'. P s' \<Longrightarrow> Q r s'"
  shows "wp (rpma_flush E k dst dst_off len type flags ctx s) Q"
proof -
  from assms(1,3) obtain c where c: "conn_ready k q c s" by (auto simp: conn_live_def)
  from liveD [OF assms(4,1)] obtain m where "obj_at dst (O_mr_remote m) s" by blast
  with c stable_ledger [OF assms(2,1)] show ?thesis
    by (intro wp_quiet [OF assms(2,1) _ assms(5)])
       (auto simp: conn_ready_def rpma_flush_def rpma_mr_remote_get_flush_type_def rpma_flush_apm_do_def rpma_mr_read_def
         obj_at_nonnull Let_def intro!: wp_ext)
qed

lemma wp_atomic_write:
  assumes "P s" and "stable E P" and "conn_live P k q" and "live P dst O_mr_remote"
    and "\<And>r s'. P s' \<Longrightarrow> Q r s'"
  shows "wp (rpma_atomic_write E k dst dst_off src flags ctx s) Q"
proof -
  from assms(1,3) obtain c where c: "conn_ready k q c s" by (auto simp: conn_live_def)
  from liveD [OF assms(4,1)] obtain m where "obj_at dst (O_mr_remote m) s" by blast
  with c stable_ledger [OF assms(2,1)] show ?thesis
    by (intro wp_quiet [OF assms(2,1) _ assms(5)])
       (auto simp: conn_ready_def rpma_atomic_write_def rpma_mr_atomic_write_def obj_at_nonnull Let_def intro!: wp_ext)
qed

lemma wp_send:
  assumes "P s" and "stable E P" and "conn_live P k q" and "live P mr O_mr_local"
    and "\<And>r s'. P s' \<Longrightarrow> Q r s'"
  shows "wp (rpma_send E k mr off len flags ctx s) Q" and "wp (rpma_recv E k mr off len ctx s) Q"
proof -
  from assms(1,3) obtain c where c: "conn_ready k q c s" by (auto simp: conn_live_def)
  from liveD [OF assms(4,1)] obtain m where m: "obj_at mr (O_mr_local m) s" by blast
  show "wp (rpma_send E k mr off len flags ctx s) Q" "wp (rpma_recv E k mr off len ctx s) Q"
    using c m stable_ledger [OF assms(2,1)]
    by (intro wp_quiet [OF assms(2,1) _ assms(5)];
        auto simp: conn_ready_def rpma_send_def rpma_mr_send_def rpma_recv_def rpma_mr_recv_def obj_at_nonnull Let_def intro!: wp_ext)+
qed

lemma wp_get_cq:
  assumes "P s" and "conn_live P k q" and "Q (0, Some q) s"
  shows "wp (rpma_conn_get_cq k (Some x) s) Q"
proof -
  from assms(1,2) obtain c where "obj_at k (O_conn c) s" "conn_cq c = q" by (auto simp: conn_live_def conn_ready_def)
  with assms(3) show ?thesis by (auto simp: rpma_conn_get_cq_def obj_at_nonnull)
qed

definition cq_live :: "(st \<Rightarrow> bool) \<Rightarrow> ptr \<Rightarrow> bool" where
  "cq_live P q \<longleftrightarrow> (\<forall>t. P t \<longrightarrow> q = NULL \<or> (\<exists>x. obj_at q (O_cq x) t))"

lemma conn_live_cq: "conn_live P k q \<Longrightarrow> cq_live P q"
  by (auto simp: conn_live_def conn_ready_def cq_live_def)

lemma wp_cq_wait_live:
  assumes "P s" and "stable E P" and "cq_live P q" and "\<And>r s'. P s' \<Longrightarrow> Q r s'"
  shows "wp (rpma_cq_wait E q s) Q"
proof -
  from assms(1,3) have "q = NULL \<or> (\<exists>x. obj_at q (O_cq x) s)" by (auto simp: cq_live_def)
  with stable_ledger [OF assms(2,1)] show ?thesis
    by (intro wp_quiet [OF assms(2,1) _ assms(4)]) (auto simp: rpma_cq_wait_def obj_at_nonnull intro!: wp_ext)
qed

lemma wp_get_wc_live:
  assumes "P s" and "stable E P" and "cq_live P q" and "\<And>r s'. P s' \<Longrightarrow> Q r s'"
  shows "wp (rpma_cq_get_wc E q n (Some wcs) got s) Q"
proof -
  from assms(1,3) have "q = NULL \<or> (\<exists>x. obj_at q (O_cq x) s)" by (auto simp: cq_live_def)
  with stable_ledger [OF assms(2,1)] show ?thesis
    by (intro wp_quiet [OF assms(2,1) _ assms(4)]) (auto simp: rpma_cq_get_wc_def obj_at_nonnull Let_def intro!: wp_ext)
qed

lemmas wp_cq_wait = wp_cq_wait_live [OF _ _ conn_live_cq]
lemmas wp_get_wc = wp_get_wc_live [OF _ _ conn_live_cq]

subsection \<open>Changes in place\<close>

definition allows :: "(st \<Rightarrow> bool) \<Rightarrow> ptr \<Rightarrow> (obj \<Rightarrow> obj) \<Rightarrow> bool" where
  "allows P k g \<longleftrightarrow> (\<forall>t. P t \<longrightarrow> (\<exists>y. obj_at k y t \<and> P (t\<lparr>mem := (mem t)(k \<mapsto> g y)\<rparr>)))"

lemma allowsD: "allows P k g \<Longrightarrow> P t \<Longrightarrow> obj_at k y t \<Longrightarrow> P (t\<lparr>mem := (mem t)(k \<mapsto> g y)\<rparr>)"
  unfolding allows_def by (metis obj_at_unique)

context scoped
begin

lemma allows_over:
  assumes "allows P k g"
  shows "allows (over owns E P j) k g"
  unfolding allows_def
proof (intro allI impI)
  fix t
  assume "over owns E P j t"
  then obtain s1 ids B R where o: "ledger_ok t" "P s1" "owns j B R t" "created B (R + image_mset R_id ids) s1 t"
    "no_requests E \<longrightarrow> ids = {#}" unfolding over_def by blast
  from assms o(2) obtain y where y: "obj_at k y s1" "P (s1\<lparr>mem := (mem s1)(k \<mapsto> g y)\<rparr>)" unfolding allows_def by blast
  have k: "k \<notin> B" using o(4) y(1) by (auto simp: created_def obj_at_def)
  let ?t = "t\<lparr>mem := (mem t)(k \<mapsto> g y)\<rparr>"
  have "owns j B R ?t" using o(3) by (rule owns_local) (use k in auto)
  moreover have "created B (R + image_mset R_id ids) (s1\<lparr>mem := (mem s1)(k \<mapsto> g y)\<rparr>) ?t"
    using o(4) k by (auto simp: created_def acct_def)
  moreover have "ledger_ok ?t" using o(1) by (simp add: ledger_ok_def acct_def)
  ultimately have "over owns E P j ?t" using y(2) o(5) unfolding over_def by blast
  moreover have "obj_at k y t" using created_obj_at [OF o(4) y(1)] .
  ultimately show "\<exists>y. obj_at k y t \<and> over owns E P j (t\<lparr>mem := (mem t)(k \<mapsto> g y)\<rparr>)" by blast
qed

end

lemma allows_plain: "allows (over (owns_plain f) E P k) k (\<lambda>_. f y)"
  unfolding allows_def over_def owns_plain_def
  by (auto simp: created_def acct_def ledger_ok_def obj_at_def)

definition set_direct_write :: "bool \<Rightarrow> obj \<Rightarrow> obj" where
  "set_direct_write v x = (case x of O_conn c \<Rightarrow> O_conn (c\<lparr>conn_direct_write_to_pmem := v\<rparr>) | _ \<Rightarrow> x)"

lemma owns_conn_direct_write:
  assumes "owns_conn k B R t" and "obj_at k (O_conn c) t"
  shows "owns_conn k B R (t\<lparr>mem := (mem t)(k \<mapsto> O_conn (c\<lparr>conn_direct_write_to_pmem := v\<rparr>))\<rparr>)" (is "owns_conn k B R ?t")
proof -
  from assms obtain CB CR RB RR F FR where o: "conn_cqs c CB CR RB RR t" "owns_flush (conn_flush c) F FR t" "pdata_ok (conn_data c) t"
    "B = F \<union> (RB \<union> (CB \<union> conn_tail_blocks k c))" "R = FR + ({#R_qp (conn_id c)#} + (RR + (CR + conn_tail_res c)))"
    unfolding owns_conn_def by (metis obj.inject(7) obj_at_unique)
  let ?c = "c\<lparr>conn_direct_write_to_pmem := v\<rparr>"
  have "conn_cqs ?c CB CR RB RR ?t"
    using o(1) assms(2) by (auto simp: conn_cqs_def owns_cq_opt_def owns_cq_def obj_at_def)
  moreover have "owns_flush (conn_flush c) F FR ?t"
    using owns_flush_disjoint(2) [OF o(2) assms(2)] by (intro owns_flush_cong [OF o(2)]) auto
  then have "owns_flush (conn_flush ?c) F FR ?t" by simp
  moreover have "pdata_ok (conn_data ?c) ?t" using o(3) assms(2) by (auto simp: pdata_ok_def obj_at_def)
  moreover have "obj_at k (O_conn ?c) ?t" using assms(2) by (simp add: obj_at_def)
  moreover have "B = F \<union> (RB \<union> (CB \<union> conn_tail_blocks k ?c))" "R = FR + ({#R_qp (conn_id ?c)#} + (RR + (CR + conn_tail_res ?c)))"
    using o(4,5) by (simp_all add: conn_tail_blocks_def conn_tail_res_def)
  ultimately show ?thesis unfolding owns_conn_def by blast
qed

lemma allows_conn: "allows (over (owns_conn_cq E q) E P k) k (set_direct_write v)"
  unfolding allows_def
proof (intro allI impI)
  fix t
  assume "over (owns_conn_cq E q) E P k t"
  then obtain s1 ids B R c where o: "ledger_ok t" "P s1" "owns_conn k B R t" "created B (R + image_mset R_id ids) s1 t"
    "no_requests E \<longrightarrow> ids = {#}" "payload_at E k t" "obj_at k (O_conn c) t" "conn_cq c = q"
    unfolding over_def owns_conn_cq_def owns_conn_of_def by blast
  let ?c = "c\<lparr>conn_direct_write_to_pmem := v\<rparr>"
  let ?t = "t\<lparr>mem := (mem t)(k \<mapsto> O_conn ?c)\<rparr>"
  have B: "k \<in> B" using owns_conn_pdata [OF o(3,7)] by blast
  have at: "obj_at k (O_conn ?c) ?t" using o(7) by (simp add: obj_at_def)
  have "pdata_bytes (conn_data c) ?t = pdata_bytes (conn_data c) t"
    using o(7) owns_conn_live [OF o(3)] by (auto simp: pdata_bytes_def deref_def obj_at_def pdata_ok_def)
  with o(6,7) have "payload_at E k ?t" by (intro payload_atI [OF at]) (simp add: payload_at_def)
  with owns_conn_direct_write [OF o(3,7)] at o(8) have "owns_conn_cq E q k B R ?t"
    by (auto simp: owns_conn_cq_def owns_conn_of_def)
  moreover have "created B (R + image_mset R_id ids) s1 ?t" using o(4) B by (auto simp: created_def acct_def)
  moreover have "ledger_ok ?t" using o(1) by (simp add: ledger_ok_def acct_def)
  ultimately have "over (owns_conn_cq E q) E P k ?t" using o(2,5) unfolding over_def by blast
  with o(7) show "\<exists>y. obj_at k y t \<and> over (owns_conn_cq E q) E P k (t\<lparr>mem := (mem t)(k \<mapsto> set_direct_write v y)\<rparr>)"
    by (auto simp: set_direct_write_def intro!: exI [of _ "O_conn c"])
qed

lemmas allow = allows_plain allows_conn cq_scope.allows_over peer_scope.allows_over ep_scope.allows_over
  mr_scope.allows_over plain_scope.allows_over

lemma wp_store_allowed:
  assumes "P s" and "allows P k (\<lambda>_. x)" and "\<And>s'. P s' \<Longrightarrow> Q () s'"
  shows "wp (store k x s) Q"
proof -
  from assms(1,2) obtain y where y: "obj_at k y s" unfolding allows_def by blast
  from assms(3) [OF allowsD [OF assms(2,1) y]] y show ?thesis by (auto simp: store_def obj_at_def)
qed

lemma wp_apply_peer_cfg:
  assumes "P s" and "conn_live P k q" and "live P pcfg O_peer_cfg" and "\<And>v. allows P k (set_direct_write v)"
    and "\<And>r s'. P s' \<Longrightarrow> Q r s'"
  shows "wp (rpma_conn_apply_remote_peer_cfg k pcfg s) Q"
proof -
  from assms(1,2) obtain c where c: "obj_at k (O_conn c) s" by (auto simp: conn_live_def conn_ready_def)
  from liveD [OF assms(3,1)] obtain d where d: "obj_at pcfg (O_peer_cfg d) s" by blast
  note p = allowsD [OF assms(4,1) c, of "pcfg_direct_write_to_pmem d", unfolded set_direct_write_def, simplified]
  from c d p show ?thesis
    by (auto simp: rpma_conn_apply_remote_peer_cfg_def rpma_peer_cfg_get_direct_write_to_pmem_def obj_at_nonnull
        intro!: wp_store assms(5))
qed

subsection \<open>Connections and configurations as scopes\<close>

lemma over_some_cq:
  assumes "over (owns_conn_of E) E P k s"
  obtains q where "over (owns_conn_cq E q) E P k s"
  using assms over_top(1) [OF assms] by (auto simp: over_conn_cq)

lemma wp_client_connect_cq:
  assumes "P s" and "stable E P" and "live P peer O_peer" and "cfg = NULL \<or> live P cfg O_conn_cfg" and "pdata_arg_ok pdata" and "events_wf E"
    and Q0: "\<And>k q s'. over (owns_conn_cq E q) E P k s' \<Longrightarrow> Q (0, k) s'" and Q1: "\<And>ret k s'. P s' \<Longrightarrow> ret \<noteq> 0 \<Longrightarrow> Q (ret, k) s'"
  shows "wp (client_connect E peer addr port cfg pdata x s) Q"
proof (rule wp_client_connect [OF assms(2,1) liveD [OF assms(3)] _ assms(5,6)], goal_cases)
  case 2
  then show ?case using assms(1,4) by (auto simp: live_def load_conn_cfg_def deref_def obj_at_def)
next
  case (3 k s')
  then show ?case by (rule over_some_cq) (rule Q0)
qed (simp_all add: Q1)

lemma wp_close_cq:
  assumes "over (owns_conn_cq E q) E P k s" and "stable E P" and "events_wf E" and "\<And>ret s'. P s' \<Longrightarrow> Q (ret, NULL) s'"
  shows "wp (common_disconnect_and_wait_for_conn_close E k s) Q" and "wp (common_wait_for_conn_close_and_disconnect E k s) Q"
  using assms by (auto simp: over_conn_cq intro: wp_disconnect_and_wait_for_conn_close wp_wait_for_conn_close_and_disconnect)

lemma wp_private_data:
  assumes "P s" and "conn_live P k q" and "\<And>d. pdata_ok d s \<Longrightarrow> Q (0, Some d) s"
  shows "wp (rpma_conn_get_private_data k (Some x) s) Q"
proof -
  from assms(1,2) obtain c where "obj_at k (O_conn c) s" "pdata_ok (conn_data c) s" by (auto simp: conn_live_def conn_ready_def)
  with assms(3) show ?thesis by (auto simp: rpma_conn_get_private_data_def obj_at_nonnull)
qed

lemma wp_push_peer_cfg:
  assumes "P s" and "stable E P" and Q0: "\<And>k s'. over (owns_plain O_peer_cfg) E P k s' \<Longrightarrow> Q (0, Some k) s'"
    and Q1: "\<And>ret s'. P s' \<Longrightarrow> ret \<noteq> 0 \<Longrightarrow> Q (ret, Some x) s'"
  shows "wp (rpma_peer_cfg_new E (Some x) s) Q"
proof -
  have new: "over (owns_plain O_peer_cfg) E P k s'"
    if "ledger_ok s'" "fresh k s" "mem s' = (mem s)(k \<mapsto> O_peer_cfg d)" "acct s' = acct s" for k s' d
    using that by (intro over_plain_new [where P = P and s = s and f = O_peer_cfg, OF assms(1)])
  show ?thesis
    using stable_ledger [OF assms(2,1)] unfolding rpma_peer_cfg_new_def
    by (auto simp: fresh_def obj_at_def intro!: wp_malloc wp_store Q0 new Q1 [unfolded RPMA_E_NOMEM_def] stable_same [OF assms(2,1)])
qed

lemma wp_pop_peer_cfg:
  assumes "over (owns_plain O_peer_cfg) E P k s" and "stable E P" and "\<And>s'. P s' \<Longrightarrow> Q (0, Some NULL) s'"
  shows "wp (rpma_peer_cfg_delete (Some k) s) Q"
  using assms by (auto simp: rpma_peer_cfg_delete_def intro!: wp_pop_free)

lemma wp_set_direct_write:
  assumes "P s" and "live P k O_peer_cfg" and "\<And>d. allows P k (\<lambda>_. O_peer_cfg d)" and "\<And>s'. P s' \<Longrightarrow> Q 0 s'"
  shows "wp (rpma_peer_cfg_set_direct_write_to_pmem k v s) Q"
  using liveD [OF assms(2,1)] live_nonnull [OF assms(2,1)]
  by (auto simp: rpma_peer_cfg_set_direct_write_to_pmem_def obj_at_nonnull intro!: wp_store_allowed [OF assms(1,3)] assms(4))

lemma wp_push_conn_cfg:
  assumes "P s" and "stable E P" and Q0: "\<And>k s'. over (owns_plain O_conn_cfg) E P k s' \<Longrightarrow> Q (0, Some k) s'"
    and Q1: "\<And>ret s'. P s' \<Longrightarrow> ret \<noteq> 0 \<Longrightarrow> Q (ret, Some NULL) s'"
  shows "wp (rpma_conn_cfg_new E (Some x) s) Q"
proof -
  have new: "over (owns_plain O_conn_cfg) E P k s'"
    if "ledger_ok s'" "fresh k s" "mem s' = (mem s)(k \<mapsto> O_conn_cfg d)" "acct s' = acct s" for k s' d
    using that by (intro over_plain_new [where P = P and s = s and f = O_conn_cfg, OF assms(1)])
  show ?thesis
    using stable_ledger [OF assms(2,1)] unfolding rpma_conn_cfg_new_def
    by (auto simp: fresh_def obj_at_def intro!: wp_malloc wp_store Q0 new Q1 [unfolded RPMA_E_NOMEM_def] stable_same [OF assms(2,1)])
qed

lemma wp_pop_conn_cfg:
  assumes "over (owns_plain O_conn_cfg) E P k s" and "stable E P" and "\<And>s'. P s' \<Longrightarrow> Q (0, Some NULL) s'"
  shows "wp (rpma_conn_cfg_delete (Some k) s) Q"
proof -
  have "k \<noteq> NULL" using over_top(5) [OF assms(1)] obj_at_nonnull by blast
  then show ?thesis using assms by (auto simp: rpma_conn_cfg_delete_def intro!: wp_pop_free)
qed

lemma wp_set_conn_cfg:
  assumes "P s" and "live P k O_conn_cfg" and "\<And>d. allows P k (\<lambda>_. O_conn_cfg d)" and "\<And>s'. P s' \<Longrightarrow> Q 0 s'"
  shows "wp (rpma_conn_cfg_set_rcq_size k n s) Q" and "wp (rpma_conn_cfg_set_compl_channel k b s) Q"
  using liveD [OF assms(2,1)] live_nonnull [OF assms(2,1)]
  by (auto simp: rpma_conn_cfg_set_rcq_size_def rpma_conn_cfg_set_compl_channel_def obj_at_nonnull load_conn_cfg_def deref_def obj_at_def
      intro!: wp_store_allowed [OF assms(1,3)] assms(4))

subsection \<open>The receive completion queue\<close>

text \<open>The queues of a connection are there, also below other scopes.\<close>

definition cq_at :: "ptr \<Rightarrow> st \<Rightarrow> bool" where
  "cq_at q t \<longleftrightarrow> q = NULL \<or> (\<exists>x. obj_at q (O_cq x) t)"

definition queues_live :: "(st \<Rightarrow> bool) \<Rightarrow> ptr \<Rightarrow> bool" where
  "queues_live P k \<longleftrightarrow> (\<forall>t. P t \<longrightarrow> (\<exists>c. obj_at k (O_conn c) t \<and> cq_at (conn_cq c) t \<and> cq_at (conn_rcq c) t))"

lemma queues_live_top: "queues_live (over (owns_conn_cq E q) E P k) k"
  unfolding queues_live_def
proof (intro allI impI)
  fix t
  assume "over (owns_conn_cq E q) E P k t"
  then have "over (owns_conn_of E) E P k t" by (simp add: over_conn_cq)
  then show "\<exists>c. obj_at k (O_conn c) t \<and> cq_at (conn_cq c) t \<and> cq_at (conn_rcq c) t"
    by (rule over_conn_cqs) (auto simp: cq_at_def)
qed

lemma queues_live_over: "queues_live P k \<Longrightarrow> queues_live (over owns E P j) k"
  unfolding queues_live_def cq_at_def by (metis over_below)

lemmas queues = queues_live_top queues_live_over

lemma wp_get_rcq_live:
  assumes "P s" and "queues_live P k" and "\<And>r. cq_at r s \<Longrightarrow> Q (0, Some r) s"
  shows "wp (rpma_conn_get_rcq k (Some x) s) Q"
proof -
  from assms(1,2) obtain c where "obj_at k (O_conn c) s" "cq_at (conn_rcq c) s" unfolding queues_live_def by blast
  with assms(3) [of "conn_rcq c"] show ?thesis by (auto simp: rpma_conn_get_rcq_def obj_at_nonnull)
qed

lemma wp_get_rcq:
  assumes "over (owns_conn_cq E q) E P k s" and "\<And>r. r = NULL \<or> (\<exists>x. obj_at r (O_cq x) s) \<Longrightarrow> Q (0, Some r) s"
  shows "wp (rpma_conn_get_rcq k (Some x) s) Q"
  using assms(2) by (intro wp_get_rcq_live [where P = "over (owns_conn_cq E q) E P k", OF assms(1) queues_live_top]) (simp add: cq_at_def)

text \<open>A stack and a completion queue that is known to be there.\<close>

definition with_cq :: "ptr \<Rightarrow> (st \<Rightarrow> bool) \<Rightarrow> st \<Rightarrow> bool" where
  "with_cq r P t \<longleftrightarrow> P t \<and> (r = NULL \<or> (\<exists>x. obj_at r (O_cq x) t))"

lemma with_cqI: "P s \<Longrightarrow> r = NULL \<or> (\<exists>x. obj_at r (O_cq x) s) \<Longrightarrow> with_cq r P s"
  and with_cqD: "with_cq r P s \<Longrightarrow> P s"
  by (auto simp: with_cq_def)

lemma with_cq_rules:
  "cq_live (with_cq r P) r" "conn_live P k q \<Longrightarrow> conn_live (with_cq r P) k q" "live P j f \<Longrightarrow> live (with_cq r P) j f"
  by (auto simp: with_cq_def cq_live_def conn_live_def live_def)

lemma with_cq_stable: "stable E P \<Longrightarrow> stable E (with_cq r P)"
  by (auto simp: stable_def with_cq_def clean_def ids_left_def obj_at_def)

lemma with_cq_allows:
  assumes "live P k O_bytes" and "\<And>x. allows P k (\<lambda>_. O_bytes x)"
  shows "allows (with_cq r P) k (\<lambda>_. O_bytes x)"
  unfolding allows_def
proof (intro allI impI)
  fix t
  assume t: "with_cq r P t"
  from liveD [OF assms(1) with_cqD [OF t]] obtain y where y: "obj_at k (O_bytes y) t" by blast
  have "with_cq r P (t\<lparr>mem := (mem t)(k \<mapsto> O_bytes x)\<rparr>)"
    using allowsD [OF assms(2) with_cqD [OF t] y] t y by (auto simp: with_cq_def obj_at_def)
  with y show "\<exists>y. obj_at k y t \<and> with_cq r P (t\<lparr>mem := (mem t)(k \<mapsto> O_bytes x)\<rparr>)" by blast
qed

subsection \<open>Completions on the shared channel\<close>

lemma wp_validate_completion_live:
  assumes "P s" and "stable E P" and "queues_live P k" and Q: "\<And>r s'. P s' \<Longrightarrow> Q r s'"
  shows "wp (wait_and_validate_completion E k opcode wc s) Q"
proof -
  from assms(1,3) obtain c where c: "obj_at k (O_conn c) s" "cq_at (conn_cq c) s" "cq_at (conn_rcq c) s" unfolding queues_live_def by blast
  show ?thesis
    by (rule wp_mono [OF quiet_wait_on_queues [OF c(1) _ _ stable_ledger [OF assms(2,1)]]])
       (use c(2,3) in \<open>auto simp: cq_at_def intro: Q stable_same [OF assms(2,1)]\<close>)
qed

lemma wp_validate_completion:
  assumes "over (owns_conn_cq E q) E P k s" and Q: "\<And>r s'. over (owns_conn_cq E q) E P k s' \<Longrightarrow> Q r s'"
  shows "wp (wait_and_validate_completion E k opcode wc s) Q"
  by (rule wp_validate_completion_live [where P = "over (owns_conn_cq E q) E P k", OF assms(1) cq_scope.stable_over queues_live_top Q])

lemma wp_send_with_imm:
  assumes "P s" and "stable E P" and "conn_live P k q" and "mr = NULL \<or> live P mr O_mr_local"
    and "\<And>r s'. P s' \<Longrightarrow> Q r s'"
  shows "wp (rpma_send_with_imm E k mr off len flags imm ctx s) Q"
proof -
  from assms(1,3) obtain c where c: "conn_ready k q c s" by (auto simp: conn_live_def)
  have m: "mr = NULL \<or> (\<exists>m. obj_at mr (O_mr_local m) s)" using assms(1,4) by (auto simp: live_def)
  show ?thesis
    using c m stable_ledger [OF assms(2,1)]
    by (intro wp_quiet [OF assms(2,1) _ assms(5)])
       (auto simp: conn_ready_def rpma_send_with_imm_def rpma_mr_send_def obj_at_nonnull Let_def intro!: wp_ext)
qed

end
