(* ===== verification/Multi_Server_Props.thy ===== *)
theory Multi_Server_Props
  imports Multi_Server_Inv Program_Rules
begin

text \<open>
  The multiple-connections server as a whole: what it acquires before the event loop and gives back
  after it. The epoll instance is a scope like the other objects.
\<close>

subsection \<open>The epoll instance\<close>

definition owns_fd :: "int \<Rightarrow> ptr \<Rightarrow> ptr set \<Rightarrow> res multiset \<Rightarrow> st \<Rightarrow> bool" where
  "owns_fd fd k B R s \<longleftrightarrow> B = {} \<and> R = {#R_fd fd#}"

definition close_fd :: "int \<Rightarrow> env \<Rightarrow> ptr \<Rightarrow> st \<Rightarrow> ((rc \<times> ptr option) \<times> st) option" where
  "close_fd fd E k s = do { (_, s) \<leftarrow> ext E (Close fd) s; Some ((0, Some NULL), s) }"

interpretation fd_scope: scoped "owns_fd fd" "close_fd fd"
  for fd
  by unfold_locales (auto simp: owns_fd_def close_fd_def destroyed_def intro!: wp_ext)

lemma wp_pop_fd:
  assumes "over (owns_fd fd) E P k s" and "stable E P" and "\<And>r s'. P s' \<Longrightarrow> Q r s'"
  shows "wp (ext E (Close fd) s) Q"
proof -
  have "wp (close_fd fd E k s) (\<lambda>_ s'. \<forall>r. Q r s')"
    by (rule fd_scope.wp_pop [OF assms(1,2)]) (simp add: assms(3))
  then show ?thesis by (auto simp: close_fd_def elim!: wp_mono)
qed

text \<open>A failing \<open>epoll_create1\<close> sets \<open>errno\<close>, which the program returns.\<close>

definition create_sets_errno :: "env \<Rightarrow> bool" where
  "create_sets_errno E \<longleftrightarrow> (\<forall>tr. let r = respond E tr Epoll_create1 in
     rint r = - 1 \<longrightarrow> (\<exists>e. rerrno r = Some e \<and> e \<noteq> 0))"

subsection \<open>Resources of the server\<close>

abbreviation "multi_buf E P fd p \<equiv> over (owns_plain O_bytes) E (over (owns_fd fd) E P NULL) p"
abbreviation "multi_mr E P fd p mr \<equiv> over owns_mr E (multi_buf E P fd p) mr"

lemma lib_malloc_aligned [lib]: "own_calls s = t \<Longrightarrow> lib_only t (malloc_aligned E n s)"
  by (auto simp: malloc_aligned_def intro!: lib)

lemma epoll_created:
  assumes "P s" and "ledger_ok s" and "rint r \<noteq> - 1"
  shows "over (owns_fd (rint r)) E P NULL (push Epoll_create1 r s)"
  by (rule fd_scope.push [where P = P and s = s and B = "{}" and R = "{#R_fd (rint r)#}", OF assms(1)])
     (use assms in \<open>auto simp: owns_fd_def created_def\<close>)

lemma server_init_watches:
  assumes "server_init E svr peer s = Some ((0, svr'), s')"
  shows "watched (sv_epoll svr') s' = {}"
  using assms unfolding server_init_def Let_def ext_def
  by (auto simp: watched_def split: bind_split_asm if_splits dest!: lib_onlyD [OF _ lib_malloc_aligned [OF refl]] lib_onlyD [OF _ lib_mr(1) [OF refl]])

lemma wp_server_init:
  assumes P: "stable E P" and s: "P s" and peer: "\<And>t. P t \<Longrightarrow> \<exists>p. obj_at peer (O_peer p) t" and err: "create_sets_errno E"
    and Q0: "\<And>fd p mr s'. multi_mr E P fd p mr s' \<Longrightarrow> watched fd s' = {} \<Longrightarrow>
       Q (0, svr\<lparr>sv_epoll := fd, sv_dst_ptr := p, sv_dst_mr := mr\<rparr>) s'"
    and Q1: "\<And>ret svr s'. P s' \<Longrightarrow> ret \<noteq> 0 \<Longrightarrow> Q (ret, svr) s'"
  shows "wp (server_init E svr peer s) Q"
proof -
  let ?r = "respond E (trace s) Epoll_create1"
  have ok: "ledger_ok s" by (rule stable_ledger [OF P s])
  have new: "over (owns_fd (rint ?r)) E P NULL (push Epoll_create1 ?r s)" if "rint ?r \<noteq> - 1"
    by (rule epoll_created [where P = P, OF s ok that])
  have e: "errno (push Epoll_create1 ?r s) \<noteq> 0" if "rint ?r = - 1"
    using err that by (auto simp: create_sets_errno_def Let_def push_def)
  have peer': "\<exists>p. obj_at peer (O_peer p) t" if "multi_buf E P fd p t" for fd p t
    using over_live [OF that] over_live [of "owns_fd fd" E P NULL] peer by metis
  have "wp (server_init E svr peer s) (\<lambda>(ret, svr') s'. if ret = 0
      then \<exists>fd p mr. multi_mr E P fd p mr s' \<and> svr' = svr\<lparr>sv_epoll := fd, sv_dst_ptr := p, sv_dst_mr := mr\<rparr> else P s')"
    unfolding server_init_def Let_def
    by (cases "rint ?r = - 1")
       (auto simp: wp_ext_exact [where c = Epoll_create1] ok e
         intro!: stable_same [OF P s] wp_malloc_aligned [OF fd_scope.stable_over new]
           wp_push_mr [OF plain_scope.stable_over _ peer'] wp_pop_fd [OF _ P] wp_pop_free [OF _ fd_scope.stable_over], blast)
  from wp_result [OF this] obtain ret svr' s' where m: "server_init E svr peer s = Some ((ret, svr'), s')"
    and "if ret = 0 then \<exists>fd p mr. multi_mr E P fd p mr s' \<and> svr' = svr\<lparr>sv_epoll := fd, sv_dst_ptr := p, sv_dst_mr := mr\<rparr> else P s'"
    by auto
  with server_init_watches [of E svr peer s svr' s'] show ?thesis by (auto simp: Q0 Q1 split: if_splits)
qed

lemma wp_server_fini:
  assumes "multi_mr E P (sv_epoll svr) (sv_dst_ptr svr) (sv_dst_mr svr) s" and P: "stable E P" and Q: "\<And>ret svr s'. P s' \<Longrightarrow> Q (ret, svr) s'"
  shows "wp (server_fini E svr s) Q"
  unfolding server_fini_def Let_def
  by (auto intro!: mr_scope.wp_pop [OF assms(1) plain_scope.stable_over] wp_pop_free [OF _ fd_scope.stable_over] wp_pop_fd [OF _ P] Q)

subsection \<open>The cleanup\<close>

lemma wp_server_disconnect_for:
  assumes P: "stable E P"
  shows "pool E P (busy svr) s \<Longrightarrow> \<forall>i\<in>set is. i < length (sv_clients svr) \<Longrightarrow>
    wp (server_disconnect_for is E svr s) (\<lambda>svr' s'. pool E P (busy svr') s' \<and> svr' = svr\<lparr>sv_clients := sv_clients svr'\<rparr> \<and>
      length (sv_clients svr') = length (sv_clients svr) \<and>
      (\<forall>i. i \<in> set is \<or> cl_conn (sv_clients svr ! i) = NULL \<longrightarrow> cl_conn (sv_clients svr' ! i) = NULL))"
proof (induction "is" arbitrary: svr s)
  case (Cons i "is")
  let ?c = "sv_clients svr ! i"
  show ?case
  proof (cases "cl_conn ?c = NULL")
    case True
    with Cons.prems show ?thesis by (auto simp: client_at_def intro: wp_mono [OF Cons.IH])
  next
    case False
    have i: "i < length (sv_clients svr)" using Cons.prems by simp
    have b: "busy svr = before i svr @ (cl_conn ?c, cl_cq ?c) # after i svr" using busy_split [OF i] False by (simp add: slot_def)
    let ?svr = "set_client i (?c\<lparr>cl_conn := NULL\<rparr>) svr"
    have b': "busy ?svr = before i svr @ after i svr" using busy_set_client [OF i] by (simp add: slot_def)
    have rest: "wp (server_disconnect_for is E ?svr t) (\<lambda>svr' s'. pool E P (busy svr') s' \<and> svr' = svr\<lparr>sv_clients := sv_clients svr'\<rparr> \<and>
        length (sv_clients svr') = length (sv_clients svr) \<and>
        (\<forall>j. j \<in> set (i # is) \<or> cl_conn (sv_clients svr ! j) = NULL \<longrightarrow> cl_conn (sv_clients svr' ! j) = NULL))"
      if "pool E P (before i svr @ after i svr) t" for t
      by (rule wp_mono [OF Cons.IH [of ?svr t]]) (use that Cons.prems i b' in \<open>auto simp: nth_list_update\<close>)
    show ?thesis
      using False i
      by (auto simp: client_at_def b intro!: wp_pool_disconnect [OF P Cons.prems(1), where q = "cl_cq ?c"]
          wp_pool_delete [OF P, where as = "before i svr" and bs = "after i svr"] wp_mono [OF rest])
  qed
qed auto

text \<open>The labels at the end of \<open>main\<close>.\<close>

abbreviation "multi_ep E P fd p mr peer ep \<equiv> over (owns_ep_of peer) E (multi_mr E P fd p mr) ep"

lemma wp_multi_err_peer_delete:
  assumes "over owns_peer E P peer s" and "stable E P" and "\<And>ret s'. P s' \<Longrightarrow> Q (Some ret) s'"
  shows "wp (multi_err_peer_delete E ret peer s) Q"
  using assms by (auto simp: multi_err_peer_delete_def intro!: peer_scope.wp_pop)

lemma wp_multi_err_server_fini:
  assumes "multi_mr E (over owns_peer E P peer) (sv_epoll svr) (sv_dst_ptr svr) (sv_dst_mr svr) s" and "stable E P"
    and "\<And>ret s'. P s' \<Longrightarrow> Q (Some ret) s'"
  shows "wp (multi_err_server_fini E ret svr peer s) Q"
  unfolding multi_err_server_fini_def using assms
  by (auto intro!: wp_server_fini [OF assms(1) peer_scope.stable_over] wp_multi_err_peer_delete)

lemma wp_multi_err_ep_shutdown:
  assumes "multi_ep E (over owns_peer E P peer) (sv_epoll svr) (sv_dst_ptr svr) (sv_dst_mr svr) peer (sv_ep svr) s" and "stable E P"
    and "\<And>ret s'. P s' \<Longrightarrow> Q (Some ret) s'"
  shows "wp (multi_err_ep_shutdown E ret svr peer s) Q"
  unfolding multi_err_ep_shutdown_def using assms
  by (auto intro!: ep_scope.wp_pop [OF assms(1) mr_scope.stable_over] wp_multi_err_server_fini)

subsection \<open>The program\<close>

lemma multi_base_ok:
  "base_ok (multi_ep E (over owns_peer E P peer) fd p mr peer ep) peer ep mr"
  unfolding base_ok_def
proof (intro allI impI conjI)
  fix t
  assume o: "multi_ep E (over owns_peer E P peer) fd p mr peer ep t"
  from over_ep [OF o] show "\<exists>e. obj_at ep (O_ep e) t \<and> ep_peer e = peer" .
  show "\<exists>m. obj_at mr (O_mr_local m) t" by (rule over_live [OF o]) (erule over_top(4))
  show "\<exists>p. obj_at peer (O_peer p) t"
    by (rule over_live [OF o]) (erule over_live, erule over_live, erule over_live, erule over_top(2))
qed

text \<open>The event loop with what follows it: when the loop has ended all connections are deleted, and the rest of
  the program starts with the server as it was, except for the slots.\<close>

lemma wp_server_session:
  assumes P: "stable E P" and loop: "wp (server_loop n E dispatch svr s) (\<lambda>(ret, svr') s'. server_inv E P svr svr' s')"
    and Q0: "\<And>s'. ledger_ok s' \<Longrightarrow> Q None s'" and K: "\<And>v cs s'. P s' \<Longrightarrow> wp (K v (svr\<lparr>sv_clients := cs\<rparr>) s') Q"
  shows "wp (do {
      ((ret, svr), s) \<leftarrow> server_loop n E dispatch svr s;
      case ret of
        None \<Rightarrow> Some (None, s)
      | Some ret \<Rightarrow> do {
          (svr, s) \<leftarrow> server_disconnect_for [0..<CLIENT_MAX] E svr s;
          K ret svr s
        }
    }) Q"
  unfolding wp_bind using loop
proof (rule wp_mono, goal_cases)
  case (1 r s')
  obtain ret svr' where r: "r = (ret, svr')" by fastforce
  with 1 have inv: "server_inv E P svr svr' s'" by simp
  have len: "length (sv_clients svr') = CLIENT_MAX" and eq: "svr = svr'\<lparr>sv_clients := sv_clients svr\<rparr>"
    using inv by (simp_all add: server_inv_def server_ok_def)
  have frame: "svr'\<lparr>sv_clients := cs\<rparr> = svr\<lparr>sv_clients := cs\<rparr>" for cs by (subst eq) simp
  have "wp (server_disconnect_for [0..<CLIENT_MAX] E svr' s') (\<lambda>svr'' s''. wp (K v svr'' s'') Q)" for v
  proof (rule wp_mono [OF wp_server_disconnect_for [OF P inv_pool [OF inv], of "[0..<CLIENT_MAX]"]], goal_cases)
    case (2 svr'' s'')
    then have "\<forall>c\<in>set (sv_clients svr''). cl_conn c = NULL" using len by (auto simp: in_set_conv_nth)
    then have "busy svr'' = []" by (auto simp: busy_def slot_def)
    with 2 K [of s'' v "sv_clients svr''"] show ?case by (metis frame pool.simps(1))
  qed (simp add: len)
  with r show ?case using pool_ledger [OF P inv_pool [OF inv]] Q0 by (auto split: option.split)
qed

lemma wp_multi_server_run:
  assumes o: "multi_ep E (over owns_peer E P peer) (sv_epoll svr) (sv_dst_ptr svr) (sv_dst_mr svr) peer (sv_ep svr) s"
    and P: "stable E P" and svr: "server_ok svr" "busy svr = []" and w: "watch_ok svr (watched (sv_epoll svr) s)"
    and E: "events_wf E" "room_for_clients E" "epoll_reports E"
    and Q0: "\<And>s'. ledger_ok s' \<Longrightarrow> Q None s'" and Q1: "\<And>ret s'. P s' \<Longrightarrow> Q (Some ret) s'"
  shows "wp (multi_server_run n E wc svr peer s) Q"
proof -
  let ?P = "multi_ep E (over owns_peer E P peer) (sv_epoll svr) (sv_dst_ptr svr) (sv_dst_mr svr) peer (sv_ep svr)"
  have st: "stable E ?P" by (rule ep_scope.stable_over)
  have "serving E ?P peer svr" using E by (simp add: serving_def st multi_base_ok)
  moreover have "server_inv E ?P svr svr s" using o svr w by (simp add: server_inv_def)
  ultimately have "wp (server_loop n E (server_dispatch E wc) svr s)
      (\<lambda>(ret, svr') s'. (\<exists>peer. serving E ?P peer svr) \<and> server_inv E ?P svr svr' s')"
    by (intro multi_loop.loop_inv) blast
  then have "wp (server_loop n E (server_dispatch E wc) svr s) (\<lambda>(ret, svr') s'. server_inv E ?P svr svr' s')"
    by (rule wp_mono) auto
  then show ?thesis
    unfolding multi_server_run_def by (rule wp_server_session [OF st]) (auto intro!: Q0 wp_multi_err_ep_shutdown [OF _ P] Q1)
qed

lemma watched_lib: "m = Some (r, s') \<Longrightarrow> lib_only (own_calls s) m \<Longrightarrow> watched fd s' = watched fd s"
  by (intro watched_cong) (rule lib_onlyD)

lemma fresh_server_ok:
  assumes "sv_clients svr = replicate CLIENT_MAX zero_client"
    and "sv_ev_incoming svr = \<lparr>ce_fd = f, ce_arg = Some Arg_server, ce_func = Some Server_handle_incoming_client\<rparr>"
  shows "server_ok svr" and "busy svr = []"
  using assms by (auto simp: server_ok_def busy_def zero_client_def client_ok_def slot_def)

text \<open>The endpoint is added to an epoll instance that watches nothing.\<close>

lemma wp_server_watch:
  assumes P: "stable E P" and s: "P s" and e: "obj_at (sv_ep svr) (O_ep e) s" and w: "watched (sv_epoll svr) s = {}"
    and err: "\<And>ret ce t. P t \<Longrightarrow> wp (err ret (svr\<lparr>sv_ev_incoming := ce\<rparr>) t) Q"
    and run: "\<And>svr' f t. P t \<Longrightarrow> watch_ok svr' (watched (sv_epoll svr) t) \<Longrightarrow>
       svr' = svr\<lparr>sv_ev_incoming := \<lparr>ce_fd = f, ce_arg = Some Arg_server, ce_func = Some Server_handle_incoming_client\<rparr>\<rparr> \<Longrightarrow> wp (run svr' t) Q"
  shows "wp (do {
      ((ret, ep_fd), s) \<leftarrow> rpma_ep_get_fd E (sv_ep svr) (Some 0) s;
      if ret \<noteq> 0 then err ret svr s
      else do {
        ((ret, ce), s) \<leftarrow> epoll_add E (sv_epoll svr) (the ep_fd) Arg_server Server_handle_incoming_client
          ev_incoming_ptr (sv_ev_incoming svr) s;
        let svr = svr\<lparr>sv_ev_incoming := ce\<rparr>;
        if ret \<noteq> 0 then err ret svr s else run svr s
      }
    }) Q"
proof -
  define f where "f = event_channel_fd E (ep_evch e)"
  have get: "rpma_ep_get_fd E (sv_ep svr) (Some 0) s = Some ((0, Some f), s)"
    using e by (simp add: rpma_ep_get_fd_def f_def obj_at_nonnull)
  show ?thesis
    unfolding get bind.bind_lunit Let_def
  proof (simp, rule wp_epoll_add [OF P s], goal_cases)
    case (1 t)
    then show ?case using err [of t "- 1" "sv_ev_incoming svr"] by simp
  next
    case (2 ret t)
    then have "watch_ok (svr\<lparr>sv_ev_incoming := \<lparr>ce_fd = f, ce_arg = Some Arg_server, ce_func = Some Server_handle_incoming_client\<rparr>\<rparr>)
        (watched (sv_epoll svr) t)"
      using w by (auto simp: watch_ok_def split: if_splits)
    with 2 show ?case by (auto intro: err run)
  qed
qed

lemma wp_multi_server_listening:
  assumes o: "multi_ep E (over owns_peer E P peer) (sv_epoll svr) (sv_dst_ptr svr) (sv_dst_mr svr) peer (sv_ep svr) s"
    and P: "stable E P" and svr: "sv_clients svr = replicate CLIENT_MAX zero_client"
    and w: "watched (sv_epoll svr) s = {}" and E: "events_wf E" "room_for_clients E" "epoll_reports E"
    and Q0: "\<And>s'. ledger_ok s' \<Longrightarrow> Q None s'" and Q1: "\<And>ret s'. P s' \<Longrightarrow> Q (Some ret) s'"
  shows "wp (multi_server_listening n E wc svr peer s) Q"
proof -
  from over_ep [OF o] obtain e where e: "obj_at (sv_ep svr) (O_ep e) s" by blast
  show ?thesis
    unfolding multi_server_listening_def
    by (rule wp_server_watch [OF ep_scope.stable_over o e w])
       (auto simp: svr intro!: wp_multi_err_ep_shutdown [OF _ P] wp_multi_server_run [OF _ P _ _ _ E Q0 Q1] Q1 fresh_server_ok)
qed

lemma wp_unwatched_listen:
  assumes "stable E P" and "P s" and "peer \<noteq> NULL" and w: "watched fd s = {}"
    and Q0: "\<And>ep s'. over (owns_ep_of peer) E P ep s' \<Longrightarrow> watched fd s' = {} \<Longrightarrow> Q (0, Some ep) s'"
    and Q1: "\<And>ret out s'. P s' \<Longrightarrow> ret \<noteq> 0 \<Longrightarrow> Q (ret, out) s'"
  shows "wp (rpma_ep_listen E peer (Some addr) (Some port) (Some x) s) Q"
proof -
  have "wp (rpma_ep_listen E peer (Some addr) (Some port) (Some x) s) (\<lambda>(ret, out) s'.
      if ret = 0 then \<exists>ep. out = Some ep \<and> over (owns_ep_of peer) E P ep s' else P s')"
    by (rule wp_push_ep [OF assms(1-3)]) simp_all
  from wp_lib [OF this lib_ep [OF refl]] show ?thesis
  proof (rule wp_mono, goal_cases)
    case (1 r s')
    then have "watched fd s' = {}" using w by (auto simp: watched_def)
    with 1 show ?case by (auto intro: Q0 Q1 split: if_splits)
  qed
qed

lemma wp_multi_server_main:
  assumes P: "stable E P" and s: "P s" and E: "events_wf E" "room_for_clients E" "epoll_reports E" "create_sets_errno E"
    and Q0: "\<And>s'. ledger_ok s' \<Longrightarrow> Q None s'" and Q1: "\<And>ret s'. P s' \<Longrightarrow> Q (Some ret) s'"
  shows "wp (multi_server_main n E addr port wc s) Q"
proof -
  let ?P = "\<lambda>peer. over owns_peer E P peer"
  have l: "live (multi_mr E (?P peer) fd p mr) peer O_peer" for peer fd p mr by (intro lives)
  show ?thesis
    unfolding multi_server_main_def Let_def wp_bind
  proof (rule wp_common_peer_via_address [OF P s], goal_cases)
    case (1 peer t)
    have "wp (server_init E zero_server peer t) (\<lambda>(ret, svr) t. wp (if ret \<noteq> 0 then multi_err_peer_delete E ret peer t
        else do {
          ((ret, ep), t) \<leftarrow> rpma_ep_listen E peer (Some addr) (Some port) (Some (sv_ep svr)) t;
          if ret \<noteq> 0 then multi_err_server_fini E ret (svr\<lparr>sv_ep := the ep\<rparr>) peer t
          else multi_server_listening n E wc (svr\<lparr>sv_ep := the ep\<rparr>) peer t
        }) Q)"
      by (rule wp_server_init [OF peer_scope.stable_over 1 over_top(2) E(4)])
         (auto simp: zero_server_def intro!: wp_multi_err_peer_delete [OF _ P] wp_unwatched_listen [OF mr_scope.stable_over _ live_nonnull [OF l]] wp_multi_err_server_fini [OF _ P]
           wp_multi_server_listening [OF _ P _ _ E(1-3)] Q0 Q1)
    then show ?case by (auto elim!: wp_mono)
  qed (simp add: Q1)
qed

subsection \<open>A provider for the examples\<close>

text \<open>It reports what is watched, the newest descriptor first, and a connect request whenever it is asked
  for an event while less than ten connections are open.\<close>

definition polling_respond :: "event list \<Rightarrow> call \<Rightarrow> resp" where
  "polling_respond tr c = (case c of
       Epoll_wait ep _ \<Rightarrow> (case interest ep tr of [] \<Rightarrow> sample_respond tr c
         | x # _ \<Rightarrow> (sample_respond tr c)\<lparr>rint := 1, rptr := snd x\<rparr>)
     | Rdma_get_cm_event _ \<Rightarrow> (if open_qps tr < CLIENT_MAX then connecting_respond tr c else sample_respond tr c)
     | _ \<Rightarrow> sample_respond tr c)"

definition polling_env :: env where
  "polling_env = sample_env\<lparr>respond := polling_respond\<rparr>"

lemma polling_env_ok: "events_wf polling_env" "room_for_clients polling_env" "epoll_reports polling_env" "create_sets_errno polling_env"
  by (auto simp: polling_env_def events_wf_def room_for_clients_def epoll_reports_def create_sets_errno_def
      polling_respond_def connecting_respond_def sample_respond_def sample_cm_event_def event_wf_def request_reported_def
      Let_def split: list.splits if_splits)

end
