(* ===== verification/Multi_Server_Full.thy ===== *)
theory Multi_Server_Full
  imports Multi_Server_Props
begin

text \<open>
  The multiple-connections server with all slots in use: the invariant of its event loop, on a state with
  ten connections, and what happens when an eleventh client asks for a connection.
\<close>

subsection \<open>The eleventh client\<close>

lemma pool_distinct: "pool E P cs s \<Longrightarrow> distinct (map fst cs)"
proof (induction cs arbitrary: s)
  case (Cons c cs)
  then obtain s1 ids B R where s1: "pool E P cs s1" "owns_conn_cq E (snd c) (fst c) B R s"
    "created B (R + image_mset R_id ids) s1 s"
    by (auto simp: over_def)
  from s1(2) have "fst c \<in> B" using owns_conn_pdata by (auto simp: owns_conn_cq_def owns_conn_of_def)
  then have "mem s1 (fst c) = None" using s1(3) by (simp add: created_def)
  moreover have "mem s1 k \<noteq> None" if "k \<in> fst ` set cs" for k using that pool_conn(1) [OF s1(1)] by (force simp: obj_at_def)
  ultimately have "fst c \<notin> fst ` set cs" by blast
  with Cons.IH [OF s1(1)] show ?case by simp
qed simp

lemma over_fresh:
  assumes "over (owns_conn_of E) E P k s"
  shows "\<exists>s1. P s1 \<and> mem s1 k = None \<and> (\<forall>q x. obj_at q x s1 \<longrightarrow> obj_at q x s)"
proof -
  from assms obtain s1 ids B R where s1: "P s1" "owns_conn_of E k B R s" "created B (R + image_mset R_id ids) s1 s"
    by (auto simp: over_def)
  from s1(2) obtain c where "owns_conn k B R s" "obj_at k (O_conn c) s" by (auto simp: owns_conn_of_def dest: owns_conn_live)
  then have "k \<in> B" using owns_conn_pdata by blast
  with s1 created_obj_at [OF s1(3)] show ?thesis by (auto simp: created_def)
qed

text \<open>Adding events does not touch the connections in the slots.\<close>

lemma wp_epoll_add_mem:
  assumes "\<And>ret ce s'. mem s' = mem s \<Longrightarrow> Q (ret, ce) s'"
  shows "wp (epoll_add E ep fd arg func p ce s) Q"
  using assms unfolding epoll_add_def fd_set_nonblock_def Let_def by (auto intro!: wp_ext)

lemma wp_client_add_to_epoll_mem:
  assumes "client_at svr i = Some c" and "\<exists>x. obj_at (cl_conn c) (O_conn x) s" and "cl_cq c \<noteq> NULL \<Longrightarrow> \<exists>x. obj_at (cl_cq c) (O_cq x) s"
  shows "wp (client_add_to_epoll E i ep svr s) (\<lambda>(ret, svr') s'. mem s' = mem s \<and>
     map cl_conn (sv_clients svr') = map cl_conn (sv_clients svr))"
proof -
  have same: "(map cl_conn (sv_clients svr))[i := cl_conn c] = map cl_conn (sv_clients svr)"
    using assms(1) by (auto simp: client_at_Some intro!: list_update_same_conv [THEN iffD2])
  from assms(2,3) show ?thesis
    unfolding client_add_to_epoll_def epoll_delete_def Let_def assms(1)
    by (auto simp: rpma_conn_get_event_fd_def rpma_cq_get_fd_def obj_at_def map_update same intro!: wp_epoll_add_mem wp_ext)
qed

lemma client_new_full:
  assumes "length (sv_clients svr) = CLIENT_MAX" and "\<forall>c\<in>set (sv_clients svr). cl_conn c \<noteq> NULL"
  shows "client_new svr = Some (Some 9, svr)"
  using client_new_for_full [of "[0..<CLIENT_MAX]" svr None] assms
  by (auto simp: client_new_def CLIENT_MAX_def all_set_conv_all_nth)

lemma busy_all: "\<forall>c\<in>set cs. cl_conn c \<noteq> NULL \<Longrightarrow> map fst (concat (map slot cs)) = map cl_conn cs"
  by (induction cs) (auto simp: slot_def)

lemma wp_disconnect_mem:
  "\<exists>c. obj_at k (O_conn c) s \<Longrightarrow> (\<And>r s'. mem s' = mem s \<Longrightarrow> Q r s') \<Longrightarrow> wp (rpma_conn_disconnect E k s) Q"
  by (auto simp: rpma_conn_disconnect_def obj_at_nonnull intro!: wp_ext)

text \<open>A connection that was accepted into a slot in use.\<close>

lemma wp_server_accept_busy:
  assumes P: "stable E P" and p: "pool E P (busy svr) s" and i: "i < length (sv_clients svr)"
    and busy: "\<forall>c\<in>set (sv_clients svr). cl_conn c \<noteq> NULL" and old: "old = cl_conn (sv_clients svr ! i)"
    and peer: "\<And>t. pool E P (busy svr) t \<Longrightarrow> \<exists>p. obj_at peer (O_peer p) t"
    and req: "req_over E (pool E P (busy svr)) True peer req t"
  shows "wp (server_accept_client E i (Some req) svr t) (\<lambda>svr' t'. svr' = svr \<or>
    (\<exists>c. obj_at old (O_conn c) t') \<and> old \<notin> cl_conn ` set (sv_clients svr'))"
proof -
  let ?P = "pool E P (busy svr)" and ?c = "sv_clients svr ! i" and ?ks = "map cl_conn (sv_clients svr)"
  have at: "client_at svr i = Some ?c" using i by (simp add: client_at_def)
  have mem: "(old, cl_cq ?c) \<in> set (busy svr)" using in_busy [OF i] busy i old by simp
  have dist: "distinct ?ks" using pool_distinct [OF p] busy_all [OF busy] by (simp add: busy_def)
  have lost: "(\<exists>c. obj_at old (O_conn c) t') \<and> old \<notin> set (?ks[i := k])" if o: "over (owns_conn_of E) E ?P k t'" for k t'
  proof -
    from over_fresh [OF o] obtain s1 where s1: "?P s1" "mem s1 k = None" "\<forall>q x. obj_at q x s1 \<longrightarrow> obj_at q x t'" by blast
    from pool_conn(1) [OF s1(1) mem] obtain c where c: "obj_at old (O_conn c) s1" by blast
    then have "old \<noteq> k" using s1(2) by (auto simp: obj_at_def)
    then show ?thesis using c s1(3) set_update_distinct [OF dist, of i k] i old by auto
  qed
  have serve: "wp (do {
        ((ret, svr), s) \<leftarrow> client_add_to_epoll E i ep (set_client i (?c\<lparr>cl_conn := k, cl_cq := conn_cq x\<rparr>) svr) t';
        if ret \<noteq> 0 then do { (_, s) \<leftarrow> rpma_conn_disconnect E k s; Some (svr, s) } else Some (svr, s)
      }) (\<lambda>svr' t'. (\<exists>c. obj_at old (O_conn c) t') \<and> old \<notin> cl_conn ` set (sv_clients svr'))"
    if o: "over (owns_conn_of E) E ?P k t'" and x: "obj_at k (O_conn x) t'" for k x t' ep
  proof -
    from over_conn_cqs [OF o] x have cq: "conn_cq x \<noteq> NULL \<Longrightarrow> \<exists>q. obj_at (conn_cq x) (O_cq q) t'" by (metis obj.inject(7) obj_at_unique)
    have "wp (client_add_to_epoll E i ep (set_client i (?c\<lparr>cl_conn := k, cl_cq := conn_cq x\<rparr>) svr) t')
        (\<lambda>(ret, svr') s'. mem s' = mem t' \<and> map cl_conn (sv_clients svr') = ?ks[i := k])"
      using wp_client_add_to_epoll_mem [of "set_client i (?c\<lparr>cl_conn := k, cl_cq := conn_cq x\<rparr>) svr" i "?c\<lparr>cl_conn := k, cl_cq := conn_cq x\<rparr>" t' E ep]
        i x cq by (auto simp: client_at_def map_update)
    moreover have "(\<exists>c. obj_at old (O_conn c) s') \<and> old \<notin> cl_conn ` set (sv_clients svr')"
      if "mem s' = mem t'" "map cl_conn (sv_clients svr') = ?ks[i := k]" for svr' :: "'a server_res_scheme" and s'
      using lost [OF o] that(1) unfolding that(2) [symmetric] by (simp add: obj_at_def)
    moreover have "\<exists>c. obj_at k (O_conn c) s'" if "mem s' = mem t'" for s' using x that by (auto simp: obj_at_def)
    ultimately show ?thesis by (auto elim!: wp_mono intro!: wp_disconnect_mem)
  qed
  show ?thesis
    unfolding server_accept_client_def at bind.bind_lunit Let_def wp_bind old [symmetric]
  proof (rule wp_req_connect [OF stable_pool [OF P] req peer], goal_cases)
    case (3 k t')
    from over_top(1) [OF 3] obtain x where x: "obj_at k (O_conn x) t'" by blast
    show ?case
      using serve [OF 3 x, of "sv_epoll svr"] obj_at_nonnull [OF x] x
      by (auto simp: rpma_conn_get_cq_def elim!: wp_mono split: if_splits)
  next
    case (4 ret t')
    have "?c\<lparr>cl_conn := old\<rparr> = ?c" using old by (cases ?c) simp
    then show ?case using 4 by (simp add: set_client_def)
  qed simp_all
qed


subsection \<open>A server with ten connections\<close>

text \<open>The five blocks of a connection and the calls that acquire its resources.\<close>

definition sample_conn_at :: "ptr \<Rightarrow> rpma_conn" where
  "sample_conn_at b = \<lparr>conn_id = b, conn_evch = b, conn_cq = b + 1, conn_rcq = NULL, conn_channel = NULL,
     conn_data = no_pdata, conn_flush = b + 2, conn_direct_write_to_pmem = False\<rparr>"

definition sample_qp_attr :: ibv_qp_init_attr where
  "sample_qp_attr = \<lparr>qpa_send_cq = 1, qpa_recv_cq = 1, qpa_max_send_wr = 10, qpa_max_recv_wr = 10, qpa_max_send_sge = 1,
     qpa_max_recv_sge = 1, qpa_max_inline_data = 8, qpa_rc = True, qpa_sq_sig_all = 0\<rparr>"

definition add_conn :: "ptr \<Rightarrow> st \<Rightarrow> st" where
  "add_conn b s = (fold (\<lambda>c. push c \<lparr>rint = 0, rptr = b, raddr = 4096, rerrno = None, rmr = sample_ibv_mr b,
        rcm = sample_cm_event, rwc = [], rodp = (True, True, True)\<rparr>)
      [Rdma_create_event_channel, Rdma_create_id b, Ibv_create_cq 9 10 NULL, Rdma_create_qp b 3 sample_qp_attr, Mmap 8,
       Ibv_reg_mr 3 4096 8 {}] s)
     \<lparr>mem := (mem s)(b \<mapsto> O_conn (sample_conn_at b), b + 1 \<mapsto> O_cq \<lparr>cq_channel = b, cq_shared_comp_channel = True, cq_cq = b\<rparr>,
        b + 2 \<mapsto> O_flush \<lparr>flush_context = b + 3\<rparr>, b + 3 \<mapsto> O_apm \<lparr>apm_raw = 4096, apm_mmap_size = 8, apm_raw_mr = b + 4\<rparr>,
        b + 4 \<mapsto> O_mr_local \<lparr>mrl_ibv_mr = sample_ibv_mr b, mrl_usage = 0\<rparr>)\<rparr>"

lemma pool_add_conn:
  assumes "pool E P cs s" and "ledger_ok s" and "1 < b" and "\<forall>p\<ge>b. mem s p = None"
  shows "pool E P ((b, b + 1) # cs) (add_conn b s)"
proof -
  let ?s = "add_conn b s" and ?B = "{b, b + 1, b + 2, b + 3, b + 4}"
  let ?R = "{#R_evch b, R_id b, R_cq b, R_qp b, R_map 4096, R_mr b#}"
  have nn: "b \<noteq> NULL" "b \<noteq> CONN_CFG_DEFAULT_ADDR" using assms(3) by (simp_all add: CONN_CFG_DEFAULT_ADDR_def)
  have at: "obj_at b (O_conn (sample_conn_at b)) ?s"
    "obj_at (b + 1) (O_cq \<lparr>cq_channel = b, cq_shared_comp_channel = True, cq_cq = b\<rparr>) ?s"
    "obj_at (b + 2) (O_flush \<lparr>flush_context = b + 3\<rparr>) ?s"
    "obj_at (b + 3) (O_apm \<lparr>apm_raw = 4096, apm_mmap_size = 8, apm_raw_mr = b + 4\<rparr>) ?s"
    "obj_at (b + 4) (O_mr_local \<lparr>mrl_ibv_mr = sample_ibv_mr b, mrl_usage = 0\<rparr>) ?s"
    using assms(3) by (simp_all add: add_conn_def CONN_CFG_DEFAULT_ADDR_def)
  have cqs: "conn_cqs (sample_conn_at b) {b + 1} {#R_cq b#} {} {#} ?s"
    using at(2) by (auto simp: conn_cqs_def owns_cq_opt_def owns_cq_def sample_conn_at_def cq_res_def)
  have fl: "owns_flush (conn_flush (sample_conn_at b)) {b + 2, b + 3, b + 4} {#R_map 4096, R_mr b#} ?s"
    unfolding owns_flush_def using at(3-5) by (intro exI conjI) (auto simp: sample_conn_at_def mr_res_def sample_ibv_mr_def)
  have own: "owns_conn b ?B ?R ?s"
    unfolding owns_conn_def using at(1) cqs fl
    by (intro exI conjI) (auto simp: sample_conn_at_def conn_tail_blocks_def conn_tail_res_def chan_res_def pdata_blocks_def)
  moreover have "payload_at E b ?s"
    by (rule payload_atI [OF at(1)]) (simp add: sample_conn_at_def pdata_bytes_NULL known_payload_def)
  ultimately have "owns_conn_cq E (b + 1) b ?B ?R ?s" using at(1) by (auto simp: owns_conn_cq_def owns_conn_of_def sample_conn_at_def)
  moreover have "created ?B ?R s ?s" using assms(3,4) by (auto simp: created_def add_conn_def sample_ibv_mr_def)
  moreover have "ledger_ok ?s" using assms(2) by (simp add: add_conn_def)
  ultimately show ?thesis
    using cq_scope.push [where P = "pool E P cs" and s = s, OF assms(1)] by simp
qed

text \<open>The server state: the connections are at 1000, 1005 and so on, the newest in the first slot.\<close>

primrec full_st :: "nat \<Rightarrow> st" where
  "full_st 0 = heap_st [(53, O_ep sample_ep), (52, O_peer \<lparr>peer_pd = 3, peer_is_odp_supported = 0\<rparr>), (47, O_mr_local sample_mr)]"
| "full_st (Suc n) = add_conn (1000 + 5 * n) (full_st n)"

definition base_st :: "st \<Rightarrow> bool" where
  "base_st t \<longleftrightarrow> ledger_ok t \<and> mem t = mem (full_st 0)"

lemma full_st_pool:
  "pool E base_st (rev (map (\<lambda>i. (1000 + 5 * i, 1001 + 5 * i)) [0..<n])) (full_st n) \<and> ledger_ok (full_st n) \<and>
   (\<forall>p\<ge>1000 + 5 * n. mem (full_st n) p = None) \<and> own_calls (full_st n) = []"
proof (induction n)
  case 0
  then show ?case by (simp add: base_st_def own_calls_def)
next
  case (Suc n)
  then have "pool E base_st ((1000 + 5 * n, 1000 + 5 * n + 1) # rev (map (\<lambda>i. (1000 + 5 * i, 1001 + 5 * i)) [0..<n]))
      (add_conn (1000 + 5 * n) (full_st n))"
    by (intro pool_add_conn) simp_all
  moreover have "ledger_ok (full_st (Suc n))" "\<forall>p\<ge>1000 + 5 * Suc n. mem (full_st (Suc n)) p = None" "own_calls (full_st (Suc n)) = []"
    using Suc by (simp_all add: add_conn_def)
  ultimately show ?case by simp
qed

definition full_client :: "nat \<Rightarrow> client_res" where
  "full_client i = zero_client\<lparr>cl_conn := 1000 + 5 * (9 - i), cl_cq := 1001 + 5 * (9 - i), cl_offset := of_nat (MAX_NAME_SIZE * i), cl_svr := SVR\<rparr>"

definition full_server :: server_res where
  "full_server = zero_server\<lparr>sv_ep := 53, sv_dst_mr := 47, sv_clients := map full_client [0..<CLIENT_MAX],
     sv_ev_incoming := \<lparr>ce_fd = 4, ce_arg = Some Arg_server, ce_func = Some Server_handle_incoming_client\<rparr>\<rparr>"

lemma full_server_inv: "server_inv E base_st full_server full_server (full_st 10)"
proof -
  have b: "busy full_server = rev (map (\<lambda>i. (1000 + 5 * i, 1001 + 5 * i)) [0..<10])"
    by (simp add: busy_def full_server_def full_client_def slot_def CLIENT_MAX_def upt_rec)
  have "server_ok full_server" by (auto simp: server_ok_def full_server_def full_client_def client_ok_def)
  with full_st_pool [of E 10] show ?thesis unfolding server_inv_def b watch_ok_def watched_def by simp
qed

lemma base_st_ok: "stable E base_st" "base_ok base_st 52 53 47"
proof -
  show "stable E base_st" by (auto simp: stable_def base_st_def clean_def ids_left_def)
  show "base_ok base_st 52 53 47"
    by (auto simp: base_ok_def base_st_def obj_at_def CONN_CFG_DEFAULT_ADDR_def sample_ep_def)
qed

lemma full_serving: "serving polling_env base_st 52 full_server"
  using base_st_ok by (simp add: serving_def polling_env_ok full_server_def)

subsection \<open>Where the names go\<close>

lemma remote_from_descriptor_new:
  assumes "n < 21 \<or> 21 \<le> length desc"
  shows "wp (rpma_mr_remote_from_descriptor E (Some desc) n (Some x) s) (\<lambda>(ret, out) s'. ret = 0 \<longrightarrow>
    (\<exists>q r. out = Some q \<and> fresh q s \<and> mem s' = (mem s)(q \<mapsto> O_mr_remote r)))"
  using assms unfolding rpma_mr_remote_from_descriptor_def RPMA_MR_DESC_SIZE_def
  by (auto simp: read_bytes_def Let_def fresh_def obj_at_def intro!: wp_malloc wp_store)

lemma wp_remote_delete_trace:
  "obj_at q (O_mr_remote r) s \<Longrightarrow> (\<And>s'. trace s' = trace s \<Longrightarrow> Q (0, Some NULL) s') \<Longrightarrow> wp (rpma_mr_remote_delete (Some q) s) Q"
  by (auto simp: rpma_mr_remote_delete_def obj_at_nonnull intro!: wp_free)

definition name_read :: "rpma_mr_local \<Rightarrow> nat \<Rightarrow> ibv_send_wr \<Rightarrow> bool" where
  "name_read m i wr \<longleftrightarrow> wr_opcode wr = IBV_WR_RDMA_READ \<and> local_span wr = mr_local_span m (MAX_NAME_SIZE * i) MAX_NAME_SIZE"

definition names_region :: "rpma_mr_local \<Rightarrow> bool" where
  "names_region m \<longleftrightarrow> unat (mr_length (mrl_ibv_mr m)) = MAX_NAME_SIZE * CLIENT_MAX \<and>
     unat (mr_addr (mrl_ibv_mr m)) + MAX_NAME_SIZE * CLIENT_MAX \<le> 2 ^ 64"

lemma client_read_span:
  assumes "names_region m" and i: "i < CLIENT_MAX"
  shows "name_read m i (rdma_wr IBV_WR_RDMA_READ None r m 0 (of_nat (MAX_NAME_SIZE * i)) (of_nat MAX_NAME_SIZE) fl ctx)"
proof -
  have u: "unat (of_nat (MAX_NAME_SIZE * i) :: u64) = MAX_NAME_SIZE * i" "unat (of_nat MAX_NAME_SIZE :: u64) = MAX_NAME_SIZE"
    using i by (intro unat_of_nat_small, simp add: MAX_NAME_SIZE_def CLIENT_MAX_def)+
  have "MAX_NAME_SIZE * i + MAX_NAME_SIZE \<le> MAX_NAME_SIZE * CLIENT_MAX" using i by (simp add: MAX_NAME_SIZE_def)
  moreover have "unat (of_nat MAX_NAME_SIZE :: u64) < 2 ^ 32" unfolding u by (simp add: MAX_NAME_SIZE_def)
  ultimately show ?thesis
    using assms span_fits [of "mr_addr (mrl_ibv_mr m)" "mr_length (mrl_ibv_mr m)" "of_nat (MAX_NAME_SIZE * i)" "of_nat MAX_NAME_SIZE"]
    unfolding names_region_def name_read_def local_span_def local_sge_def mr_local_span_def u by simp
qed

lemma wp_client_fetch_name_posts:
  assumes x: "obj_at (cl_conn c) (O_conn x) s" and d: "pdata_ok (conn_data x) s" and dst: "obj_at dst (O_mr_local m) s"
    and off: "cl_offset c = of_nat (MAX_NAME_SIZE * i)" and m: "names_region m" "i < CLIENT_MAX"
  shows "wp (client_fetch_name E c dst s) (\<lambda>ret s'. ret = 0 \<longrightarrow>
    (\<exists>q wr r. hd (trace s') = (Ibv_post_send q wr, r) \<and> name_read m i wr))"
proof -
  have nz: "RPMA_F_COMPLETION_ALWAYS \<noteq> 0" by (simp add: RPMA_F_COMPLETION_ALWAYS_def RPMA_F_COMPLETION_ON_ERROR_def)
  have data: "\<exists>bs. bytes_at (pdata_ptr (conn_data x)) s = Some bs \<and> 28 \<le> length bs \<and> 21 \<le> length bs - 4"
    if "\<not> pdata_len (conn_data x) < SIZEOF_COMMON_DATA"
    by (rule common_data_bytes [OF d that]) simp
  have read: "wp (rpma_read E (cl_conn c) dst (cl_offset c) q 0 (of_nat MAX_NAME_SIZE) RPMA_F_COMPLETION_ALWAYS 0 t) R"
    if q: "fresh q s" "mem t = (mem s)(q \<mapsto> O_mr_remote rm)"
      and R: "\<And>ret t'. mem t' = mem t \<Longrightarrow> \<exists>q wr r. hd (trace t') = (Ibv_post_send q wr, r) \<and> name_read m i wr \<Longrightarrow> R ret t'"
    for q t R rm
  proof -
    have o: "obj_at (cl_conn c) (O_conn x) t" "obj_at dst (O_mr_local m) t" "obj_at q (O_mr_remote rm) t"
      using x dst q by (auto simp: obj_at_def fresh_def)
    from rpma_read_posts [OF o nz, where E = E and src_off = 0 and dst_off = "cl_offset c" and len = "of_nat MAX_NAME_SIZE" and ctx = 0]
    show ?thesis
      using client_read_span [OF m, where r = rm and fl = RPMA_F_COMPLETION_ALWAYS and ctx = 0] by (simp add: posts_def Let_def off R del: of_nat_mult)
  qed
  have del: "wp (rpma_mr_remote_delete (Some q) t) R"
    if "fresh q s" "mem t = (mem s)(q \<mapsto> O_mr_remote rm)" "\<And>r t'. trace t' = trace t \<Longrightarrow> R r t'" for q t rm R
    using that by (intro wp_remote_delete_trace) (auto simp: obj_at_def fresh_def)
  have new: "wp (rpma_mr_remote_from_descriptor E (Some b) n (Some NULL) s) R"
    if "21 \<le> length b" and "\<And>ret out t. (ret = 0 \<Longrightarrow> \<exists>q rm. out = Some q \<and> fresh q s \<and> mem t = (mem s)(q \<mapsto> O_mr_remote rm)) \<Longrightarrow> R (ret, out) t" for b n R
    by (rule wp_mono [OF remote_from_descriptor_new]) (use that in auto)
  have tail: "wp (rpma_read E (cl_conn c) dst (cl_offset c) q 0 (of_nat MAX_NAME_SIZE) RPMA_F_COMPLETION_ALWAYS 0 t) (\<lambda>r t'.
      (r \<noteq> 0 \<longrightarrow> wp (rpma_mr_remote_delete (Some q) t') (\<lambda>r t. True)) \<and>
      (r = 0 \<longrightarrow> wp (rpma_mr_remote_delete (Some q) t') (\<lambda>r t. \<exists>q wr. (\<exists>r. hd (trace t) = (Ibv_post_send q wr, r)) \<and> name_read m i wr)))"
    if q: "fresh q s" "\<exists>rm. mem t = (mem s)(q \<mapsto> O_mr_remote rm)" for q t
  proof -
    from q(2) obtain rm where m: "mem t = (mem s)(q \<mapsto> O_mr_remote rm)" ..
    show ?thesis by (rule read [OF q(1) m]) (intro conjI impI; rule del [OF q(1)]; simp add: m)
  qed
  show ?thesis
    unfolding client_fetch_name_def using x data
    by (auto simp: rpma_conn_get_private_data_def obj_at_nonnull read_bytes_def intro!: new tail)
qed

subsection \<open>Properties\<close>

text \<open>C5: the event loop keeps its invariant. However many events are handled, the connections that are
  held are those in the slots, each slot in use has its own connection and its part of the buffer, and
  every descriptor that is watched leads to the callback and the slot it was added for, as long as no
  eleventh client asks for a connection while ten are open.\<close>

theorem multi_server_loop_invariant:
  assumes "serving E P peer sv0" and "server_inv E P sv0 svr s"
  shows "wp (server_loop n E (server_dispatch E wc) svr s) (\<lambda>(ret, svr') s'. server_inv E P sv0 svr' s')"
  using multi_loop.loop_inv [of E P sv0 svr s n wc] assms by (auto elim!: wp_mono)

theorem multi_server_loop_invariant_witness:
  "wp (server_loop 100 polling_env (server_dispatch polling_env sample_wc) full_server (full_st 10))
     (\<lambda>(ret, svr') s'. server_inv polling_env base_st full_server svr' s')"
  by (rule multi_server_loop_invariant [OF full_serving full_server_inv])

text \<open>C37: there is no room for an eleventh client, but it is let in. When all slots are in use \<open>client_new\<close>
  returns the last of them instead of \<open>NULL\<close>. Unless the request comes to nothing, the new connection then takes
  the place of the connection of that slot, which is still open and in no slot any more: nothing will delete it.\<close>

theorem eleventh_client_replaces_tenth:
  assumes "stable E P" and "server_inv E P sv0 svr s" and "base_ok P peer (sv_ep svr) mr" and "events_wf E"
    and "\<forall>c\<in>set (sv_clients svr). cl_conn c \<noteq> NULL"
  shows "client_new svr = Some (Some 9, svr) \<and>
    wp (server_handle_incoming_client E NULL svr s) (\<lambda>svr' s'. svr' = svr \<or>
      (\<exists>c. obj_at (cl_conn (sv_clients svr ! 9)) (O_conn c) s') \<and>
      cl_conn (sv_clients svr ! 9) \<notin> cl_conn ` set (sv_clients svr'))"
proof
  let ?P = "pool E P (busy svr)"
  have len: "length (sv_clients svr) = CLIENT_MAX" using assms(2) by (simp add: server_inv_def server_ok_def)
  show new: "client_new svr = Some (Some 9, svr)" by (rule client_new_full [OF len assms(5)])
  have below: "\<exists>p. obj_at peer (O_peer p) t" "\<exists>e. obj_at (sv_ep svr) (O_ep e) t \<and> ep_peer e = peer" if "?P t" for t
    using pool_below [OF that] assms(3) unfolding base_ok_def by blast+
  note p = inv_pool [OF assms(2)]
  show "wp (server_handle_incoming_client E NULL svr s) (\<lambda>svr' s'. svr' = svr \<or>
      (\<exists>c. obj_at (cl_conn (sv_clients svr ! 9)) (O_conn c) s') \<and>
      cl_conn (sv_clients svr ! 9) \<notin> cl_conn ` set (sv_clients svr'))"
    unfolding server_handle_incoming_client_def wp_bind
  proof (rule wp_req_next [OF stable_pool [OF assms(1)] p below(2,1) [OF p] _ assms(4)], goal_cases)
    case (2 req t)
    have "9 < length (sv_clients svr)" by (simp add: len CLIENT_MAX_def)
    from wp_server_accept_busy [OF assms(1) p this assms(5) refl below(1) 2(1)] new show ?case by simp
  qed simp_all
qed

theorem eleventh_client_replaces_tenth_witness:
  "client_new full_server = Some (Some 9, full_server) \<and>
   wp (server_handle_incoming_client (sample_env\<lparr>respond := connecting_respond\<rparr>) NULL full_server (full_st 10)) (\<lambda>svr' s'. svr' = full_server \<or>
     (\<exists>c. obj_at 1000 (O_conn c) s') \<and> 1000 \<notin> cl_conn ` set (sv_clients svr'))"
proof -
  let ?E = "sample_env\<lparr>respond := connecting_respond\<rparr>"
  have "events_wf ?E" by (simp add: events_wf_def connecting_respond_def sample_respond_def sample_cm_event_def event_wf_def)
  moreover have "\<forall>c\<in>set (sv_clients full_server). cl_conn c \<noteq> NULL" by (auto simp: full_server_def full_client_def)
  moreover have "cl_conn (sv_clients full_server ! 9) = 1000" by (simp add: full_server_def full_client_def CLIENT_MAX_def)
  moreover have "base_ok base_st 52 (sv_ep full_server) 47" using base_st_ok(2) by (simp add: full_server_def)
  ultimately show ?thesis
    using eleventh_client_replaces_tenth [OF base_st_ok(1) full_server_inv, of 52 47 ?E] by simp
qed

text \<open>C23: names do not get mixed up. For a client in slot \<open>i\<close> the server posts one RDMA read, whose target is the
  part of the destination region that belongs to the slot; it lies inside the region and does not overlap
  with the part of any other slot.\<close>

theorem names_go_to_their_slots:
  assumes "obj_at (cl_conn c) (O_conn x) s" and "pdata_ok (conn_data x) s" and "obj_at dst (O_mr_local m) s"
    and "client_ok i c" and "i < CLIENT_MAX" and "names_region m"
  shows "wp (client_fetch_name E c dst s) (\<lambda>ret s'. ret = 0 \<longrightarrow>
       (\<exists>q wr r. hd (trace s') = (Ibv_post_send q wr, r) \<and> name_read m i wr)) \<and>
     mr_local_span m (MAX_NAME_SIZE * i) MAX_NAME_SIZE \<subseteq> mr_local_span m 0 (MAX_NAME_SIZE * CLIENT_MAX) \<and>
     (\<forall>j. j \<noteq> i \<longrightarrow> mr_local_span m (MAX_NAME_SIZE * i) MAX_NAME_SIZE \<inter> mr_local_span m (MAX_NAME_SIZE * j) MAX_NAME_SIZE = {})"
proof (intro conjI allI impI)
  have "cl_offset c = of_nat (MAX_NAME_SIZE * i)" using assms(1,4) obj_at_nonnull by (auto simp: client_ok_def)
  from wp_client_fetch_name_posts [OF assms(1-3) this assms(6,5)]
  show "wp (client_fetch_name E c dst s) (\<lambda>ret s'. ret = 0 \<longrightarrow>
       (\<exists>q wr r. hd (trace s') = (Ibv_post_send q wr, r) \<and> name_read m i wr))" .
  show "mr_local_span m (MAX_NAME_SIZE * i) MAX_NAME_SIZE \<subseteq> mr_local_span m 0 (MAX_NAME_SIZE * CLIENT_MAX)"
    using assms(5) by (auto simp: mr_local_span_def MAX_NAME_SIZE_def)
  fix j assume "j \<noteq> i"
  then show "mr_local_span m (MAX_NAME_SIZE * i) MAX_NAME_SIZE \<inter> mr_local_span m (MAX_NAME_SIZE * j) MAX_NAME_SIZE = {}"
    by (auto simp: mr_local_span_def MAX_NAME_SIZE_def)
qed

text \<open>A region of the size that the server registers, and a connection whose client has sent the descriptor
  of a region of 32 bytes that may be read.\<close>

definition names_mr :: rpma_mr_local where
  "names_mr = \<lparr>mrl_ibv_mr = (sample_ibv_mr 9)\<lparr>mr_length := 320\<rparr>, mrl_usage = 0\<rparr>"

definition named_conn :: rpma_conn where
  "named_conn = (sample_conn_at 1000)\<lparr>conn_data := \<lparr>pdata_ptr = 1010, pdata_len = 28\<rparr>\<rparr>"

definition named_st :: st where
  "named_st = heap_st [(1000, O_conn named_conn), (47, O_mr_local names_mr),
     (1010, O_bytes ([0, 0, 21, 0] @ [0, 16, 0, 0, 0, 0, 0, 0] @ [32, 0, 0, 0, 0, 0, 0, 0] @ [2, 0, 0, 0] @ [1] @ [0, 0, 0]))]"

lemma named_st_at:
  "obj_at 1000 (O_conn named_conn) named_st" "obj_at 47 (O_mr_local names_mr) named_st" "pdata_ok (conn_data named_conn) named_st"
  by (simp_all add: obj_at_def named_st_def pdata_ok_def named_conn_def CONN_CFG_DEFAULT_ADDR_def)

lemma named_fetch: "map_option fst (client_fetch_name sample_env (full_client 9) 47 named_st) = Some 0"
  by code_simp

theorem names_go_to_their_slots_witness:
  "(\<exists>s' q wr r. client_fetch_name sample_env (full_client 9) 47 named_st = Some (0, s') \<and>
       hd (trace s') = (Ibv_post_send q wr, r) \<and> name_read names_mr 9 wr) \<and>
   mr_local_span names_mr (MAX_NAME_SIZE * 9) MAX_NAME_SIZE \<subseteq> mr_local_span names_mr 0 (MAX_NAME_SIZE * CLIENT_MAX) \<and>
   mr_local_span names_mr (MAX_NAME_SIZE * 9) MAX_NAME_SIZE \<inter> mr_local_span names_mr (MAX_NAME_SIZE * 8) MAX_NAME_SIZE = {}"
proof -
  have "obj_at (cl_conn (full_client 9)) (O_conn named_conn) named_st" using named_st_at(1) by (simp add: full_client_def)
  moreover have "client_ok 9 (full_client 9)" by (simp add: client_ok_def full_client_def)
  moreover have "names_region names_mr" by (simp add: names_region_def names_mr_def sample_ibv_mr_def MAX_NAME_SIZE_def CLIENT_MAX_def)
  ultimately have "wp (client_fetch_name sample_env (full_client 9) 47 named_st) (\<lambda>ret s'. ret = 0 \<longrightarrow>
       (\<exists>q wr r. hd (trace s') = (Ibv_post_send q wr, r) \<and> name_read names_mr 9 wr)) \<and>
     mr_local_span names_mr (MAX_NAME_SIZE * 9) MAX_NAME_SIZE \<subseteq> mr_local_span names_mr 0 (MAX_NAME_SIZE * CLIENT_MAX) \<and>
     (\<forall>j. j \<noteq> 9 \<longrightarrow> mr_local_span names_mr (MAX_NAME_SIZE * 9) MAX_NAME_SIZE \<inter> mr_local_span names_mr (MAX_NAME_SIZE * j) MAX_NAME_SIZE = {})"
    using named_st_at by (intro names_go_to_their_slots) (auto simp: CLIENT_MAX_def)
  moreover from named_fetch obtain s' where "client_fetch_name sample_env (full_client 9) 47 named_st = Some (0, s')" by auto
  ultimately show ?thesis by auto
qed

end
