(* ===== verification/Multi_Server_Shared.thy ===== *)
theory Multi_Server_Shared
  imports Multi_Server_Props Program_Rules
begin

text \<open>
  The server of \<open>src/examples/06s-multiple-connections/server.c\<close>, whose connections have one completion channel for
  both queues. Its structure has the connection configuration in addition, behind the slots; the slots, their
  callbacks other than the one for completions, the event loop and the disconnection of the remaining clients are
  those of \<open>Multi_Server\<close>, whose operations take a server with more fields. What is different: the configuration is
  created with the other resources and deleted with them, it goes to \<open>rpma_ep_next_conn_req\<close>, and completions are
  waited for with \<open>rpma_conn_wait\<close>, which says in which queue they are.
\<close>

record server_res_s = server_res +
  sv_cfg :: ptr

definition zero_server_s :: server_res_s where
  "zero_server_s = \<lparr>sv_ep = NULL, sv_dst_ptr = NULL, sv_dst_mr = NULL, sv_epoll = 0, sv_ev_incoming = zero_event,
     sv_clients = replicate CLIENT_MAX zero_client, sv_cfg = NULL\<rparr>"

subsection \<open>Resources of the server\<close>

definition server_s_err_mr_free :: "env \<Rightarrow> rc \<Rightarrow> server_res_s \<Rightarrow> st \<Rightarrow> ((rc \<times> server_res_s) \<times> st) option" where
  "server_s_err_mr_free E ret svr s = do {
     (_, s) \<leftarrow> free (sv_dst_ptr svr) s;
     (_, s) \<leftarrow> ext E (Close (sv_epoll svr)) s;
     Some ((ret, svr), s)
   }"

definition server_s_err_mr_dereg :: "env \<Rightarrow> rc \<Rightarrow> server_res_s \<Rightarrow> st \<Rightarrow> ((rc \<times> server_res_s) \<times> st) option" where
  "server_s_err_mr_dereg E ret svr s = do {
     ((_, mr), s) \<leftarrow> rpma_mr_dereg E (Some (sv_dst_mr svr)) s;
     server_s_err_mr_free E ret (svr\<lparr>sv_dst_mr := the mr\<rparr>) s
   }"

text \<open>\<open>server_init\<close> from the moment the memory is registered.\<close>

definition server_s_init_cfg :: "env \<Rightarrow> server_res_s \<Rightarrow> st \<Rightarrow> ((rc \<times> server_res_s) \<times> st) option" where
  "server_s_init_cfg E svr s = do {
     let svr = svr\<lparr>sv_cfg := NULL\<rparr>;
     ((ret, cfg), s) \<leftarrow> rpma_conn_cfg_new E (Some (sv_cfg svr)) s;
     let svr = svr\<lparr>sv_cfg := the cfg\<rparr>;
     if ret \<noteq> 0 then server_s_err_mr_dereg E ret svr s
     else do {
       (ret, s) \<leftarrow> rpma_conn_cfg_set_compl_channel (sv_cfg svr) True s;
       if ret \<noteq> 0 then do {
         ((_, cfg), s) \<leftarrow> rpma_conn_cfg_delete (Some (sv_cfg svr)) s;
         server_s_err_mr_dereg E ret (svr\<lparr>sv_cfg := the cfg\<rparr>) s
       } else Some ((ret, svr), s)
     }
   }"

definition server_s_init :: "env \<Rightarrow> server_res_s \<Rightarrow> ptr \<Rightarrow> st \<Rightarrow> ((rc \<times> server_res_s) \<times> st) option" where
  "server_s_init E svr peer s = do {
     (r, s) \<leftarrow> ext E Epoll_create1 s;
     let svr = svr\<lparr>sv_epoll := rint r\<rparr>;
     if sv_epoll svr = - 1 then Some ((errno s, svr), s)
     else do {
       let dst_size = MAX_NAME_SIZE * CLIENT_MAX;
       (p, s) \<leftarrow> malloc_aligned E dst_size s;
       let svr = svr\<lparr>sv_dst_ptr := p\<rparr>;
       if sv_dst_ptr svr = NULL then do {
         (_, s) \<leftarrow> ext E (Close (sv_epoll svr)) s;
         Some ((- 1, svr), s)
       } else do {
         ((ret, mr), s) \<leftarrow> rpma_mr_reg E peer (of_nat (sv_dst_ptr svr)) (of_nat dst_size) RPMA_MR_USAGE_READ_DST (Some (sv_dst_mr svr)) s;
         let svr = svr\<lparr>sv_dst_mr := the mr\<rparr>;
         if ret \<noteq> 0 then server_s_err_mr_free E ret svr s else server_s_init_cfg E svr s
       }
     }
   }"

definition server_s_fini :: "env \<Rightarrow> server_res_s \<Rightarrow> st \<Rightarrow> ((rc \<times> server_res_s) \<times> st) option" where
  "server_s_fini E svr s = do {
     ((_, cfg), s) \<leftarrow> rpma_conn_cfg_delete (Some (sv_cfg svr)) s;
     let svr = svr\<lparr>sv_cfg := the cfg\<rparr>;
     ((ret, mr), s) \<leftarrow> rpma_mr_dereg E (Some (sv_dst_mr svr)) s;
     let svr = svr\<lparr>sv_dst_mr := the mr\<rparr>;
     (_, s) \<leftarrow> free (sv_dst_ptr svr) s;
     (r, s) \<leftarrow> ext E (Close (sv_epoll svr)) s;
     if rint r \<noteq> 0 then Some ((if ret = 0 then errno s else ret, svr), s)
     else Some ((ret, svr), s)
   }"

subsection \<open>Completions\<close>

text \<open>\<open>wc\<close> is the variable of that name, which is not initialised.\<close>

definition client_s_handle_completion :: "env \<Rightarrow> nat \<Rightarrow> ibv_wc \<Rightarrow> server_res_s \<Rightarrow> st \<Rightarrow> (server_res_s \<times> st) option" where
  "client_s_handle_completion E i wc svr s = do {
     c \<leftarrow> client_at svr i;
     ((ret, cq, _), s) \<leftarrow> rpma_conn_wait E (cl_conn c) 0 (Some NULL) None s;
     if ret \<noteq> 0 then
       (if ret = RPMA_E_NO_COMPLETION then Some (svr, s)
        else do { (_, s) \<leftarrow> rpma_conn_disconnect E (cl_conn c) s; Some (svr, s) })
     else do {
       ((ret, wcs, _), s) \<leftarrow> rpma_cq_get_wc E (the cq) 1 (Some [wc]) None s;
       let wc = (case the wcs of [] \<Rightarrow> wc | w # _ \<Rightarrow> w);
       if ret \<noteq> 0 then
         (if ret = RPMA_E_NO_COMPLETION then Some (svr, s)
          else do { (_, s) \<leftarrow> rpma_conn_disconnect E (cl_conn c) s; Some (svr, s) })
       else if wc_status wc \<noteq> IBV_WC_SUCCESS then do { (_, s) \<leftarrow> rpma_conn_disconnect E (cl_conn c) s; Some (svr, s) }
       else if wc_opcode wc \<noteq> IBV_WC_RDMA_READ then do { (_, s) \<leftarrow> rpma_conn_disconnect E (cl_conn c) s; Some (svr, s) }
       else do { (_, s) \<leftarrow> rpma_conn_disconnect E (cl_conn c) s; Some (svr, s) }
     }
   }"

definition server_s_handle_incoming_client :: "env \<Rightarrow> server_res_s \<Rightarrow> st \<Rightarrow> (server_res_s \<times> st) option" where
  "server_s_handle_incoming_client E svr s = server_handle_incoming_client E (sv_cfg svr) svr s"

definition server_s_dispatch :: "env \<Rightarrow> ibv_wc \<Rightarrow> ptr \<Rightarrow> server_res_s \<Rightarrow> st \<Rightarrow> (server_res_s \<times> st) option" where
  "server_s_dispatch E wc p svr s = do {
     ce \<leftarrow> event_at p svr;
     func \<leftarrow> ce_func ce;
     arg \<leftarrow> ce_arg ce;
     case (func, arg) of
       (Client_handle_connection_event, Arg_client i) \<Rightarrow> client_handle_connection_event E i svr s
     | (Client_handle_completion, Arg_client i) \<Rightarrow> client_s_handle_completion E i wc svr s
     | (Server_handle_incoming_client, Arg_server) \<Rightarrow> server_s_handle_incoming_client E svr s
     | _ \<Rightarrow> None
   }"

subsection \<open>The program\<close>

definition multi_s_err_server_fini :: "env \<Rightarrow> rc \<Rightarrow> server_res_s \<Rightarrow> ptr \<Rightarrow> st \<Rightarrow> (rc option \<times> st) option" where
  "multi_s_err_server_fini E ret svr peer s = do {
     ((ret2, svr), s) \<leftarrow> server_s_fini E svr s;
     multi_err_peer_delete E (if ret = 0 \<and> ret2 \<noteq> 0 then ret2 else ret) peer s
   }"

definition multi_s_err_ep_shutdown :: "env \<Rightarrow> rc \<Rightarrow> server_res_s \<Rightarrow> ptr \<Rightarrow> st \<Rightarrow> (rc option \<times> st) option" where
  "multi_s_err_ep_shutdown E ret svr peer s = do {
     ((ret2, ep), s) \<leftarrow> rpma_ep_shutdown E (Some (sv_ep svr)) s;
     multi_s_err_server_fini E (if ret = 0 \<and> ret2 \<noteq> 0 then ret2 else ret) (svr\<lparr>sv_ep := the ep\<rparr>) peer s
   }"

text \<open>\<open>main\<close> from the event loop on, and from the moment the server listens.\<close>

definition multi_s_server_run :: "nat \<Rightarrow> env \<Rightarrow> ibv_wc \<Rightarrow> server_res_s \<Rightarrow> ptr \<Rightarrow> st \<Rightarrow> (rc option \<times> st) option" where
  "multi_s_server_run n E wc svr peer s = do {
     ((ret, svr), s) \<leftarrow> server_loop n E (server_s_dispatch E wc) svr s;
     case ret of
       None \<Rightarrow> Some (None, s)
     | Some ret \<Rightarrow> do {
         (svr, s) \<leftarrow> server_disconnect_for [0..<CLIENT_MAX] E svr s;
         multi_s_err_ep_shutdown E ret svr peer s
       }
   }"

definition multi_s_server_listening :: "nat \<Rightarrow> env \<Rightarrow> ibv_wc \<Rightarrow> server_res_s \<Rightarrow> ptr \<Rightarrow> st \<Rightarrow> (rc option \<times> st) option" where
  "multi_s_server_listening n E wc svr peer s = do {
     ((ret, ep_fd), s) \<leftarrow> rpma_ep_get_fd E (sv_ep svr) (Some 0) s;
     if ret \<noteq> 0 then multi_s_err_ep_shutdown E ret svr peer s
     else do {
       ((ret, ce), s) \<leftarrow> epoll_add E (sv_epoll svr) (the ep_fd) Arg_server Server_handle_incoming_client
         ev_incoming_ptr (sv_ev_incoming svr) s;
       let svr = svr\<lparr>sv_ev_incoming := ce\<rparr>;
       if ret \<noteq> 0 then multi_s_err_ep_shutdown E ret svr peer s
       else multi_s_server_run n E wc svr peer s
     }
   }"

definition multi_s_server_main :: "nat \<Rightarrow> env \<Rightarrow> string \<Rightarrow> string \<Rightarrow> ibv_wc \<Rightarrow> st \<Rightarrow> (rc option \<times> st) option" where
  "multi_s_server_main n E addr port wc s = do {
     let svr = zero_server_s;
     ((ret, peer), s) \<leftarrow> common_peer_via_address E addr RPMA_UTIL_IBV_CONTEXT_LOCAL NULL s;
     if ret \<noteq> 0 then Some (Some ret, s)
     else do {
       ((ret, svr), s) \<leftarrow> server_s_init E svr peer s;
       if ret \<noteq> 0 then multi_err_peer_delete E ret peer s
       else do {
         ((ret, ep), s) \<leftarrow> rpma_ep_listen E peer (Some addr) (Some port) (Some (sv_ep svr)) s;
         let svr = svr\<lparr>sv_ep := the ep\<rparr>;
         if ret \<noteq> 0 then multi_s_err_server_fini E ret svr peer s
         else multi_s_server_listening n E wc svr peer s
       }
     }
   }"

subsection \<open>The callback for completions\<close>

lemma pool_queues:
  assumes "pool E P cs s" and "(k, q) \<in> set cs"
  shows "\<exists>c. obj_at k (O_conn c) s \<and> cq_at (conn_cq c) s \<and> cq_at (conn_rcq c) s"
  by (rule pool_take [OF assms]) (use queues_live_top in \<open>fastforce simp: queues_live_def\<close>)

lemma wp_inv_conn_wait:
  assumes P: "stable E P" and inv: "server_inv E P sv0 svr s" and b: "(k, q) \<in> set (busy svr)"
    and Q: "\<And>ret cq b s'. server_inv E P sv0 svr s' \<Longrightarrow> (ret = 0 \<Longrightarrow> \<exists>x. obj_at (the cq) (O_cq x) s') \<Longrightarrow> Q (ret, cq, b) s'"
  shows "wp (rpma_conn_wait E k 0 (Some NULL) None s) Q"
proof -
  from pool_queues [OF inv_pool [OF inv] b] obtain c where c: "obj_at k (O_conn c) s" "cq_at (conn_cq c) s" "cq_at (conn_rcq c) s"
    by blast
  have "wp (rpma_conn_wait E k 0 (Some NULL) None s) (\<lambda>(ret, cq, _) s'. ledger_ok s' \<and> mem s' = mem s \<and>
      acct s' = acct s \<and> (ret = 0 \<longrightarrow> (\<exists>q x. cq = Some q \<and> obj_at q (O_cq x) s)))"
    by (rule quiet_conn_wait [OF c(1)]) (use c pool_ledger [OF P inv_pool [OF inv]] in \<open>auto simp: cq_at_def\<close>)
  from wp_lib [OF this lib_conn_use(3) [OF refl]] show ?thesis
  proof (rule wp_mono, goal_cases)
    case (1 r s')
    then have "server_inv E P sv0 svr s'"
      using stable_same [OF stable_pool [OF P] inv_pool [OF inv]] by (auto intro!: inv_keep [OF inv])
    with 1 show ?case by (auto simp: obj_at_def intro!: Q)
  qed
qed

lemma wp_client_s_handle_completion:
  assumes P: "stable E P" and inv: "server_inv E P sv0 svr s" and i: "i < CLIENT_MAX"
    and c: "cl_conn (sv_clients svr ! i) \<noteq> NULL"
  shows "wp (client_s_handle_completion E i wc svr s) (server_inv E P sv0)"
proof -
  have get: "wp (rpma_cq_get_wc E q 1 (Some [wc]) None t) Q"
    if "server_inv E P sv0 svr t" "\<exists>x. obj_at q (O_cq x) t" "\<And>r t'. server_inv E P sv0 svr t' \<Longrightarrow> Q r t'" for q t Q
    by (rule wp_pool_get_wc [OF P inv_pool [OF that(1)] that(2)]) (blast intro: that(3) inv_keep [OF that(1)])
  show ?thesis
    unfolding client_s_handle_completion_def Let_def inv_client(1) [OF inv i] bind.bind_lunit
    by (auto intro!: wp_inv_conn_wait [OF P inv inv_client(3) [OF inv i c]] get wp_inv_disconnect [OF P _ inv_client(3) [OF inv i c]])
qed

subsection \<open>The event loop\<close>

interpretation multi_s_loop: event_loop E "server_s_dispatch E wc"
    "\<lambda>svr s. (\<exists>peer. serving E P peer sv0) \<and> live P (sv_cfg sv0) O_conn_cfg \<and> server_inv E P sv0 svr s"
  for E wc P sv0
proof
  fix svr s fd p
  assume a: "(\<exists>peer. serving E P peer sv0) \<and> live P (sv_cfg sv0) O_conn_cfg \<and> server_inv E P sv0 svr s"
    and w: "(fd, p) \<in> watched (sv_epoll svr) s"
  then obtain peer where P: "stable E P" and wf: "events_wf E" and room: "room_for_clients E"
    and base: "base_ok P peer (sv_ep svr) (sv_dst_mr svr)" and inv: "server_inv E P sv0 svr s" and live: "live P (sv_cfg sv0) O_conn_cfg"
    using inv_frame [of E P sv0 svr s] by (auto simp: serving_def)
  have "sv0 = svr\<lparr>sv_clients := sv_clients sv0\<rparr>" using inv by (simp add: server_inv_def)
  from arg_cong [OF this, of sv_cfg] have "sv_cfg sv0 = sv_cfg svr" by simp
  moreover from pool_below [OF inv_pool [OF inv]] live obtain f where "obj_at (sv_cfg sv0) (O_conn_cfg f) s" unfolding live_def by blast
  ultimately have cfg: "\<exists>f. load_conn_cfg (sv_cfg svr) s = Some f" by (auto simp: load_conn_cfg_def deref_def obj_at_def)
  have "wp (server_s_dispatch E wc p svr s) (server_inv E P sv0)"
    using served_cases [OF inv w]
  proof cases
    case 1
    then show ?thesis
      by (simp add: server_s_dispatch_def server_s_handle_incoming_client_def wp_server_handle_incoming_client [OF P inv base cfg wf room])
  next
    case (2 i)
    then show ?thesis
      by (auto simp: server_s_dispatch_def intro!: wp_client_handle_connection_event [OF P inv _ _ base wf]
          wp_client_s_handle_completion [OF P inv])
  qed
  with a show "wp (server_s_dispatch E wc p svr s) (\<lambda>svr s. (\<exists>peer. serving E P peer sv0) \<and> live P (sv_cfg sv0) O_conn_cfg \<and> server_inv E P sv0 svr s)"
    by (auto elim: wp_mono)
qed (auto simp: serving_def intro: served_wait)

subsection \<open>What the program leaves\<close>

abbreviation "multi_cfg E P fd p mr cfg \<equiv> over (owns_plain O_conn_cfg) E (multi_mr E P fd p mr) cfg"
abbreviation "multi_s_ep E P fd p mr cfg peer ep \<equiv> over (owns_ep_of peer) E (multi_cfg E P fd p mr cfg) ep"

lemma server_s_init_watches:
  assumes "server_s_init E svr peer s = Some ((0, svr'), s')"
  shows "watched (sv_epoll svr') s' = {}"
  using assms unfolding server_s_init_def server_s_init_cfg_def Let_def ext_def
  by (auto simp: watched_def server_s_err_mr_free_def server_s_err_mr_dereg_def split: bind_split_asm if_splits
      dest!: lib_onlyD [OF _ lib_malloc_aligned [OF refl]] lib_onlyD [OF _ lib_mr(1) [OF refl]]
        lib_onlyD [OF _ lib_cfg_life(1) [OF refl]] lib_onlyD [OF _ lib_cfg_life(2) [OF refl]])

lemma wp_server_s_err_mr_free:
  assumes "multi_buf E P (sv_epoll svr) (sv_dst_ptr svr) s" and "stable E P" and "\<And>s'. P s' \<Longrightarrow> Q (ret, svr) s'"
  shows "wp (server_s_err_mr_free E ret svr s) Q"
  unfolding server_s_err_mr_free_def
  by (auto intro!: wp_pop_free [OF assms(1) fd_scope.stable_over] wp_pop_fd [OF _ assms(2)] assms(3))

lemma wp_server_s_err_mr_dereg:
  assumes "multi_mr E P (sv_epoll svr) (sv_dst_ptr svr) (sv_dst_mr svr) s" and "stable E P" and "\<And>svr s'. P s' \<Longrightarrow> Q (ret, svr) s'"
  shows "wp (server_s_err_mr_dereg E ret svr s) Q"
  unfolding server_s_err_mr_dereg_def
  by (auto intro!: mr_scope.wp_pop [OF assms(1) plain_scope.stable_over] wp_server_s_err_mr_free [OF _ assms(2)] assms(3))

lemma wp_server_s_init_cfg:
  assumes s: "multi_mr E P (sv_epoll svr) (sv_dst_ptr svr) (sv_dst_mr svr) s" and P: "stable E P"
    and Q0: "\<And>cfg s'. multi_cfg E P (sv_epoll svr) (sv_dst_ptr svr) (sv_dst_mr svr) cfg s' \<Longrightarrow> Q (0, svr\<lparr>sv_cfg := cfg\<rparr>) s'"
    and Q1: "\<And>ret svr s'. P s' \<Longrightarrow> ret \<noteq> 0 \<Longrightarrow> Q (ret, svr) s'"
  shows "wp (server_s_init_cfg E svr s) Q"
proof -
  let ?C = "multi_cfg E P (sv_epoll svr) (sv_dst_ptr svr) (sv_dst_mr svr)"
  have l: "live (?C k) k O_conn_cfg" for k by (intro lives)
  have a: "allows (?C k) k (\<lambda>_. O_conn_cfg d)" for k d by (intro allow)
  show ?thesis
    unfolding server_s_init_cfg_def Let_def
    by (auto intro!: wp_push_conn_cfg [OF s mr_scope.stable_over] wp_set_conn_cfg(2) [where P = "?C k" for k, OF _ l a]
        wp_server_s_err_mr_dereg [OF _ P] Q0 Q1)
qed

lemma wp_server_s_init:
  assumes P: "stable E P" and s: "P s" and peer: "\<And>t. P t \<Longrightarrow> \<exists>p. obj_at peer (O_peer p) t" and err: "create_sets_errno E"
    and Q0: "\<And>fd p mr cfg s'. multi_cfg E P fd p mr cfg s' \<Longrightarrow> watched fd s' = {} \<Longrightarrow>
       Q (0, svr\<lparr>sv_epoll := fd, sv_dst_ptr := p, sv_dst_mr := mr, sv_cfg := cfg\<rparr>) s'"
    and Q1: "\<And>ret svr s'. P s' \<Longrightarrow> ret \<noteq> 0 \<Longrightarrow> Q (ret, svr) s'"
  shows "wp (server_s_init E svr peer s) Q"
proof -
  let ?r = "respond E (trace s) Epoll_create1"
  let ?Q = "\<lambda>(ret, svr') s'. if ret = 0
      then \<exists>fd p mr cfg. multi_cfg E P fd p mr cfg s' \<and> svr' = svr\<lparr>sv_epoll := fd, sv_dst_ptr := p, sv_dst_mr := mr, sv_cfg := cfg\<rparr> else P s'"
  have ok: "ledger_ok s" by (rule stable_ledger [OF P s])
  have new: "over (owns_fd (rint ?r)) E P NULL (push Epoll_create1 ?r s)" if "rint ?r \<noteq> - 1"
    by (rule epoll_created [where P = P, OF s ok that])
  have e: "errno (push Epoll_create1 ?r s) \<noteq> 0" if "rint ?r = - 1"
    using err that by (auto simp: create_sets_errno_def Let_def push_def)
  have peer': "\<exists>p. obj_at peer (O_peer p) t" if "multi_buf E P fd p t" for fd p t
    using over_live [OF that] over_live [of "owns_fd fd" E P NULL] peer by metis
  have "wp (server_s_init E svr peer s) ?Q"
    unfolding server_s_init_def Let_def
    by (cases "rint ?r = - 1")
       (auto simp: wp_ext_exact [where c = Epoll_create1] ok e
         intro!: stable_same [OF P s] wp_malloc_aligned [OF fd_scope.stable_over new]
           wp_push_mr [OF plain_scope.stable_over _ peer'] wp_pop_fd [OF _ P] wp_server_s_err_mr_free [OF _ P] wp_server_s_init_cfg [OF _ P], blast)
  from wp_result [OF this] obtain ret svr' s' where m: "server_s_init E svr peer s = Some ((ret, svr'), s')" and q: "?Q (ret, svr') s'"
    by auto
  show ?thesis
  proof (cases "ret = 0")
    case True
    with q obtain fd p mr cfg where *: "multi_cfg E P fd p mr cfg s'" "svr' = svr\<lparr>sv_epoll := fd, sv_dst_ptr := p, sv_dst_mr := mr, sv_cfg := cfg\<rparr>"
      by auto
    with m True server_s_init_watches [of E svr peer s svr' s'] show ?thesis by (simp add: Q0)
  qed (use m q in \<open>simp add: Q1\<close>)
qed

lemma wp_server_s_fini:
  assumes "multi_cfg E P (sv_epoll svr) (sv_dst_ptr svr) (sv_dst_mr svr) (sv_cfg svr) s" and P: "stable E P" and Q: "\<And>ret svr s'. P s' \<Longrightarrow> Q (ret, svr) s'"
  shows "wp (server_s_fini E svr s) Q"
  unfolding server_s_fini_def Let_def
  by (auto intro!: wp_pop_conn_cfg [OF assms(1) mr_scope.stable_over] mr_scope.wp_pop [OF _ plain_scope.stable_over]
      wp_pop_free [OF _ fd_scope.stable_over] wp_pop_fd [OF _ P] Q)

lemma wp_multi_s_err_server_fini:
  assumes "multi_cfg E (over owns_peer E P peer) (sv_epoll svr) (sv_dst_ptr svr) (sv_dst_mr svr) (sv_cfg svr) s" and "stable E P"
    and "\<And>ret s'. P s' \<Longrightarrow> Q (Some ret) s'"
  shows "wp (multi_s_err_server_fini E ret svr peer s) Q"
  unfolding multi_s_err_server_fini_def using assms
  by (auto intro!: wp_server_s_fini [OF assms(1) peer_scope.stable_over] wp_multi_err_peer_delete)

lemma wp_multi_s_err_ep_shutdown:
  assumes "multi_s_ep E (over owns_peer E P peer) (sv_epoll svr) (sv_dst_ptr svr) (sv_dst_mr svr) (sv_cfg svr) peer (sv_ep svr) s" and "stable E P"
    and "\<And>ret s'. P s' \<Longrightarrow> Q (Some ret) s'"
  shows "wp (multi_s_err_ep_shutdown E ret svr peer s) Q"
  unfolding multi_s_err_ep_shutdown_def using assms
  by (auto intro!: ep_scope.wp_pop [OF assms(1) plain_scope.stable_over] wp_multi_s_err_server_fini)

lemma multi_s_base_ok:
  "base_ok (multi_s_ep E (over owns_peer E P peer) fd p mr cfg peer ep) peer ep mr"
  unfolding base_ok_def
proof (intro allI impI conjI)
  let ?P = "multi_s_ep E (over owns_peer E P peer) fd p mr cfg peer ep"
  fix t
  assume o: "?P t"
  from over_ep [OF o] show "\<exists>e. obj_at ep (O_ep e) t \<and> ep_peer e = peer" .
  have l: "live ?P mr O_mr_local" "live ?P peer O_peer" by (intro lives)+
  show "\<exists>m. obj_at mr (O_mr_local m) t" "\<exists>p. obj_at peer (O_peer p) t" using liveD [OF l(1) o] liveD [OF l(2) o] by blast+
qed

lemma wp_multi_s_server_run:
  assumes o: "multi_s_ep E (over owns_peer E P peer) (sv_epoll svr) (sv_dst_ptr svr) (sv_dst_mr svr) (sv_cfg svr) peer (sv_ep svr) s"
    and P: "stable E P" and svr: "server_ok svr" "busy svr = []" and w: "watch_ok svr (watched (sv_epoll svr) s)"
    and E: "events_wf E" "room_for_clients E" "epoll_reports E"
    and Q0: "\<And>s'. ledger_ok s' \<Longrightarrow> Q None s'" and Q1: "\<And>ret s'. P s' \<Longrightarrow> Q (Some ret) s'"
  shows "wp (multi_s_server_run n E wc svr peer s) Q"
proof -
  let ?P = "multi_s_ep E (over owns_peer E P peer) (sv_epoll svr) (sv_dst_ptr svr) (sv_dst_mr svr) (sv_cfg svr) peer (sv_ep svr)"
  have st: "stable E ?P" by (rule ep_scope.stable_over)
  have "serving E ?P peer svr" using E by (simp add: serving_def st multi_s_base_ok)
  moreover have "live ?P (sv_cfg svr) O_conn_cfg" by (intro lives)
  moreover have "server_inv E ?P svr svr s" using o svr w by (simp add: server_inv_def)
  ultimately have "wp (server_loop n E (server_s_dispatch E wc) svr s)
      (\<lambda>(ret, svr') s'. (\<exists>peer. serving E ?P peer svr) \<and> live ?P (sv_cfg svr) O_conn_cfg \<and> server_inv E ?P svr svr' s')"
    by (intro multi_s_loop.loop_inv) blast
  then have "wp (server_loop n E (server_s_dispatch E wc) svr s) (\<lambda>(ret, svr') s'. server_inv E ?P svr svr' s')"
    by (rule wp_mono) auto
  then show ?thesis
    unfolding multi_s_server_run_def by (rule wp_server_session [OF st]) (auto intro!: Q0 wp_multi_s_err_ep_shutdown [OF _ P] Q1)
qed

lemma wp_multi_s_server_listening:
  assumes o: "multi_s_ep E (over owns_peer E P peer) (sv_epoll svr) (sv_dst_ptr svr) (sv_dst_mr svr) (sv_cfg svr) peer (sv_ep svr) s"
    and P: "stable E P" and svr: "sv_clients svr = replicate CLIENT_MAX zero_client"
    and w: "watched (sv_epoll svr) s = {}" and E: "events_wf E" "room_for_clients E" "epoll_reports E"
    and Q0: "\<And>s'. ledger_ok s' \<Longrightarrow> Q None s'" and Q1: "\<And>ret s'. P s' \<Longrightarrow> Q (Some ret) s'"
  shows "wp (multi_s_server_listening n E wc svr peer s) Q"
proof -
  from over_ep [OF o] obtain e where e: "obj_at (sv_ep svr) (O_ep e) s" by blast
  show ?thesis
    unfolding multi_s_server_listening_def
    by (rule wp_server_watch [OF ep_scope.stable_over o e w])
       (auto simp: svr intro!: wp_multi_s_err_ep_shutdown [OF _ P] wp_multi_s_server_run [OF _ P _ _ _ E Q0 Q1] Q1 fresh_server_ok)
qed

lemma wp_multi_s_server_main:
  assumes P: "stable E P" and s: "P s" and E: "events_wf E" "room_for_clients E" "epoll_reports E" "create_sets_errno E"
    and Q0: "\<And>s'. ledger_ok s' \<Longrightarrow> Q None s'" and Q1: "\<And>ret s'. P s' \<Longrightarrow> Q (Some ret) s'"
  shows "wp (multi_s_server_main n E addr port wc s) Q"
proof -
  let ?P = "\<lambda>peer. over owns_peer E P peer"
  have l: "live (multi_cfg E (?P peer) fd p mr cfg) peer O_peer" for peer fd p mr cfg by (intro lives)
  show ?thesis
    unfolding multi_s_server_main_def Let_def wp_bind
  proof (rule wp_common_peer_via_address [OF P s], goal_cases)
    case (1 peer t)
    have "wp (server_s_init E zero_server_s peer t) (\<lambda>(ret, svr) t. wp (if ret \<noteq> 0 then multi_err_peer_delete E ret peer t
        else do {
          ((ret, ep), t) \<leftarrow> rpma_ep_listen E peer (Some addr) (Some port) (Some (sv_ep svr)) t;
          if ret \<noteq> 0 then multi_s_err_server_fini E ret (svr\<lparr>sv_ep := the ep\<rparr>) peer t
          else multi_s_server_listening n E wc (svr\<lparr>sv_ep := the ep\<rparr>) peer t
        }) Q)"
      by (rule wp_server_s_init [OF peer_scope.stable_over 1 over_top(2) E(4)])
         (auto simp: zero_server_s_def intro!: wp_multi_err_peer_delete [OF _ P] wp_unwatched_listen [OF plain_scope.stable_over _ live_nonnull [OF l]]
           wp_multi_s_err_server_fini [OF _ P] wp_multi_s_server_listening [OF _ P _ _ E(1-3)] Q0 Q1)
    then show ?case by (auto elim!: wp_mono)
  qed (simp add: Q1)
qed

subsection \<open>Properties\<close>



end
