(* ===== verification/Ex_Connection.thy ===== *)
theory Ex_Connection
  imports Common_Conn
begin

text \<open>
  The connection example: \<open>src/examples/01-connection/client.c\<close> and \<open>server.c\<close>, two whole programs.
  The arguments, the log thresholds and the messages printed are left out; the text that is sent as
  private data is given by its address \<open>msg\<close>. The labels at the end of \<open>main\<close> are definitions, each
  falling through to the next one.
\<close>

definition MAX_RETRY :: nat where "MAX_RETRY = 10"
definition RETRY_DELAY :: nat where "RETRY_DELAY = 5"

subsection \<open>The client\<close>

definition client_err_peer_delete :: "env \<Rightarrow> rc \<Rightarrow> ptr \<Rightarrow> st \<Rightarrow> (rc \<times> st) option" where
  "client_err_peer_delete E ret peer s = do {
     (_, s) \<leftarrow> rpma_peer_delete E (Some peer) s;
     Some (ret, s)
   }"

definition client_err_req_delete :: "env \<Rightarrow> rc \<Rightarrow> ptr \<Rightarrow> ptr \<Rightarrow> st \<Rightarrow> (rc \<times> st) option" where
  "client_err_req_delete E ret req peer s = do {
     (_, s) \<leftarrow> (if req \<noteq> NULL then rpma_conn_req_delete E (Some req) s else Some ((0, Some req), s));
     client_err_peer_delete E ret peer s
   }"

definition client_err_conn_delete :: "env \<Rightarrow> rc \<Rightarrow> ptr \<Rightarrow> ptr \<Rightarrow> ptr \<Rightarrow> st \<Rightarrow> (rc \<times> st) option" where
  "client_err_conn_delete E ret conn req peer s = do {
     (_, s) \<leftarrow> rpma_conn_delete E (Some conn) s;
     client_err_req_delete E ret req peer s
   }"

definition client_err_conn_disconnect :: "env \<Rightarrow> rc \<Rightarrow> ptr \<Rightarrow> ptr \<Rightarrow> ptr \<Rightarrow> st \<Rightarrow> (rc \<times> st) option" where
  "client_err_conn_disconnect E ret conn req peer s = do {
     (_, s) \<leftarrow> rpma_conn_disconnect E conn s;
     client_err_conn_delete E ret conn req peer s
   }"

text \<open>After the loop, when there is a connection.\<close>

definition client_connected ::
  "env \<Rightarrow> ptr \<Rightarrow> ptr \<Rightarrow> ptr \<Rightarrow> rpma_conn_private_data \<Rightarrow> int \<Rightarrow> st \<Rightarrow> (rc \<times> st) option" where
  "client_connected E conn req peer pdata conn_event s = do {
     (_, s) \<leftarrow> rpma_conn_get_private_data conn (Some pdata) s;
     ((ret, conn_event), s) \<leftarrow> rpma_conn_next_event E conn (Some conn_event) s;
     if ret \<noteq> 0 then client_err_conn_disconnect E ret conn req peer s
     else if the conn_event \<noteq> RPMA_CONN_CLOSED then client_err_conn_disconnect E ret conn req peer s
     else do {
       (ret, s) \<leftarrow> rpma_conn_disconnect E conn s;
       if ret \<noteq> 0 then client_err_conn_delete E ret conn req peer s
       else do {
         ((ret, conn), s) \<leftarrow> rpma_conn_delete E (Some conn) s;
         if ret \<noteq> 0 then client_err_peer_delete E ret peer s
         else do {
           ((ret, peer), s) \<leftarrow> rpma_peer_delete E (Some peer) s;
           Some (ret, s)
         }
       }
     }
   }"

text \<open>The loop, with the number of attempts that are left; a rejected connection is deleted, and after
  the last attempt there is none.\<close>

primrec client_retry ::
  "nat \<Rightarrow> env \<Rightarrow> ptr \<Rightarrow> string \<Rightarrow> string \<Rightarrow> rpma_conn_private_data \<Rightarrow> ptr \<Rightarrow> ptr \<Rightarrow> int \<Rightarrow> rc \<Rightarrow> st
    \<Rightarrow> (rc \<times> st) option" where
  "client_retry 0 E peer addr port pdata req conn conn_event ret s =
     (if conn = NULL then client_err_peer_delete E ret peer s
      else client_connected E conn req peer pdata conn_event s)"
| "client_retry (Suc n) E peer addr port pdata req conn conn_event ret s = do {
     ((ret, req'), s) \<leftarrow> rpma_conn_req_new E peer (Some addr) (Some port) NULL (Some req) s;
     let req = the req';
     if ret \<noteq> 0 then client_err_peer_delete E ret peer s
     else do {
       ((ret, req', conn'), s) \<leftarrow> rpma_conn_req_connect E (Some req) (Some pdata) (Some conn) s;
       let req = the req';
       let conn = the conn';
       if ret \<noteq> 0 then client_err_req_delete E ret req peer s
       else do {
         ((ret, conn_event), s) \<leftarrow> rpma_conn_next_event E conn (Some conn_event) s;
         if ret \<noteq> 0 then client_err_conn_disconnect E ret conn req peer s
         else if the conn_event = RPMA_CONN_ESTABLISHED then client_connected E conn req peer pdata (the conn_event) s
         else if the conn_event = RPMA_CONN_REJECTED then do {
           (_, s) \<leftarrow> rpma_conn_disconnect E conn s;
           ((_, conn'), s) \<leftarrow> rpma_conn_delete E (Some conn) s;
           (_, s) \<leftarrow> (if n > 0 then do { (_, s) \<leftarrow> ext E (Sleep RETRY_DELAY) s; Some ((), s) } else Some ((), s));
           client_retry n E peer addr port pdata req (the conn') (the conn_event) ret s
         } else client_err_conn_disconnect E ret conn req peer s
       }
     }
   }"

definition connection_client_main :: "env \<Rightarrow> string \<Rightarrow> string \<Rightarrow> ptr \<Rightarrow> st \<Rightarrow> (rc \<times> st) option" where
  "connection_client_main E addr port msg s = do {
     ((ret, ibv_ctx), s) \<leftarrow> rpma_utils_get_ibv_context E (Some addr) RPMA_UTIL_IBV_CONTEXT_REMOTE (Some NULL) s;
     if ret \<noteq> 0 then Some (ret, s)
     else do {
       ((ret, peer), s) \<leftarrow> rpma_peer_new E (the ibv_ctx) (Some NULL) s;
       if ret \<noteq> 0 then Some (ret, s)
       else client_retry MAX_RETRY E (the peer) addr port \<lparr>pdata_ptr = msg, pdata_len = 14\<rparr> NULL NULL RPMA_CONN_UNDEFINED ret s
     }
   }"

subsection \<open>The server\<close>

definition server_err_peer_delete :: "env \<Rightarrow> rc \<Rightarrow> ptr \<Rightarrow> st \<Rightarrow> (rc \<times> st) option" where
  "server_err_peer_delete E ret peer s = do {
     (_, s) \<leftarrow> rpma_peer_delete E (Some peer) s;
     Some (ret, s)
   }"

definition server_err_ep_shutdown :: "env \<Rightarrow> rc \<Rightarrow> ptr \<Rightarrow> ptr \<Rightarrow> st \<Rightarrow> (rc \<times> st) option" where
  "server_err_ep_shutdown E ret ep peer s = do {
     (_, s) \<leftarrow> rpma_ep_shutdown E (Some ep) s;
     server_err_peer_delete E ret peer s
   }"

definition server_err_req_delete :: "env \<Rightarrow> rc \<Rightarrow> ptr \<Rightarrow> ptr \<Rightarrow> ptr \<Rightarrow> st \<Rightarrow> (rc \<times> st) option" where
  "server_err_req_delete E ret req ep peer s = do {
     (_, s) \<leftarrow> (if req \<noteq> NULL then rpma_conn_req_delete E (Some req) s else Some ((0, Some req), s));
     server_err_ep_shutdown E ret ep peer s
   }"

definition server_err_conn_delete :: "env \<Rightarrow> rc \<Rightarrow> ptr \<Rightarrow> ptr \<Rightarrow> ptr \<Rightarrow> ptr \<Rightarrow> st \<Rightarrow> (rc \<times> st) option" where
  "server_err_conn_delete E ret conn req ep peer s = do {
     (_, s) \<leftarrow> rpma_conn_delete E (Some conn) s;
     server_err_req_delete E ret req ep peer s
   }"

text \<open>From the moment there is a connection.\<close>

definition server_connected :: "env \<Rightarrow> ptr \<Rightarrow> ptr \<Rightarrow> ptr \<Rightarrow> ptr \<Rightarrow> rpma_conn_private_data \<Rightarrow> st \<Rightarrow> (rc \<times> st) option" where
  "server_connected E conn req ep peer pdata s = do {
     ((ret, conn_event), s) \<leftarrow> rpma_conn_next_event E conn (Some RPMA_CONN_UNDEFINED) s;
     if ret \<noteq> 0 then server_err_conn_delete E ret conn req ep peer s
     else if the conn_event \<noteq> RPMA_CONN_ESTABLISHED then server_err_conn_delete E ret conn req ep peer s
     else do {
       (_, s) \<leftarrow> rpma_conn_get_private_data conn (Some pdata) s;
       (ret, s) \<leftarrow> rpma_conn_disconnect E conn s;
       if ret \<noteq> 0 then server_err_conn_delete E ret conn req ep peer s
       else do {
         ((ret, conn_event), s) \<leftarrow> rpma_conn_next_event E conn conn_event s;
         if ret \<noteq> 0 then server_err_conn_delete E ret conn req ep peer s
         else if the conn_event \<noteq> RPMA_CONN_CLOSED then server_err_conn_delete E ret conn req ep peer s
         else do {
           ((ret, _), s) \<leftarrow> rpma_conn_delete E (Some conn) s;
           if ret \<noteq> 0 then server_err_ep_shutdown E ret ep peer s
           else do {
             ((ret, _), s) \<leftarrow> rpma_ep_shutdown E (Some ep) s;
             if ret \<noteq> 0 then server_err_peer_delete E ret peer s
             else do {
               ((ret, _), s) \<leftarrow> rpma_peer_delete E (Some peer) s;
               Some (ret, s)
             }
           }
         }
       }
     }
   }"

definition connection_server_main :: "env \<Rightarrow> string \<Rightarrow> string \<Rightarrow> ptr \<Rightarrow> st \<Rightarrow> (rc \<times> st) option" where
  "connection_server_main E addr port msg s = do {
     ((ret, ibv_ctx), s) \<leftarrow> rpma_utils_get_ibv_context E (Some addr) RPMA_UTIL_IBV_CONTEXT_LOCAL (Some NULL) s;
     if ret \<noteq> 0 then Some (ret, s)
     else do {
       ((ret, peer), s) \<leftarrow> rpma_peer_new E (the ibv_ctx) (Some NULL) s;
       if ret \<noteq> 0 then Some (ret, s)
       else do {
         ((ret, ep), s) \<leftarrow> rpma_ep_listen E (the peer) (Some addr) (Some port) (Some NULL) s;
         if ret \<noteq> 0 then server_err_peer_delete E ret (the peer) s
         else do {
           ((ret, req), s) \<leftarrow> rpma_ep_next_conn_req E (the ep) NULL (Some NULL) s;
           if ret \<noteq> 0 then server_err_ep_shutdown E ret (the ep) (the peer) s
           else do {
             let pdata = \<lparr>pdata_ptr = msg, pdata_len = 14\<rparr>;
             ((ret, req, conn), s) \<leftarrow> rpma_conn_req_connect E req (Some pdata) (Some NULL) s;
             if ret \<noteq> 0 then server_err_req_delete E ret (the req) (the ep) (the peer) s
             else server_connected E (the conn) (the req) (the ep) (the peer) pdata s
           }
         }
       }
     }
   }"

subsection \<open>What the programs leave\<close>

lemma wp_client_err_peer_delete:
  assumes "over owns_peer E P peer s" and "stable E P" and "\<And>s'. P s' \<Longrightarrow> Q ret s'"
  shows "wp (client_err_peer_delete E ret peer s) Q"
  using assms by (auto simp: client_err_peer_delete_def intro!: peer_scope.wp_pop)

lemma wp_client_err_conn_delete:
  assumes "over (owns_conn_of E) E (over owns_peer E P peer) conn s" and "stable E P" and "\<And>s'. P s' \<Longrightarrow> Q ret s'"
  shows "wp (client_err_conn_delete E ret conn NULL peer s) Q"
  using assms by (auto simp: client_err_conn_delete_def client_err_req_delete_def
      intro!: conn_scope.wp_pop peer_scope.stable_over wp_client_err_peer_delete)

lemma wp_client_err_conn_disconnect:
  assumes "over (owns_conn_of E) E (over owns_peer E P peer) conn s" and "stable E P" and "\<And>s'. P s' \<Longrightarrow> Q ret s'"
  shows "wp (client_err_conn_disconnect E ret conn NULL peer s) Q"
  using assms by (auto simp: client_err_conn_disconnect_def intro!: wp_disconnect wp_client_err_conn_delete)

lemma wp_get_private_data:
  assumes "over (owns_conn_of E) E P k s" and "\<And>r. Q r s"
  shows "wp (rpma_conn_get_private_data k (Some d) s) Q"
  using over_top(1) [OF assms(1)] assms(2) by (auto simp: rpma_conn_get_private_data_def obj_at_nonnull)

lemma wp_client_connected:
  assumes "over (owns_conn_of E) E (over owns_peer E P peer) conn s" and P: "stable E P" and wf: "events_wf E"
    and Q: "\<And>ret s'. P s' \<Longrightarrow> Q ret s'"
  shows "wp (client_connected E conn NULL peer pdata conn_event s) Q"
  unfolding client_connected_def
  by (auto intro!: wp_get_private_data [OF assms(1)] wp_next_event [OF assms(1) wf] wp_disconnect
      wp_client_err_conn_disconnect [OF _ P] wp_client_err_conn_delete [OF _ P] wp_client_err_peer_delete [OF _ P]
      conn_scope.wp_pop [OF _ peer_scope.stable_over] peer_scope.wp_pop [OF _ P] Q)

lemma wp_client_retry:
  assumes P: "stable E P" and wf: "events_wf E" and pd: "pdata_arg_ok (Some pdata)" and Q: "\<And>ret s'. P s' \<Longrightarrow> Q ret s'"
  shows "over owns_peer E P peer s \<Longrightarrow> wp (client_retry n E peer addr port pdata req NULL conn_event ret s) Q"
proof (induction n arbitrary: s req conn_event ret)
  case 0
  then show ?case by (auto intro!: wp_client_err_peer_delete [OF _ P] Q)
next
  case (Suc n)
  let ?P = "over owns_peer E P peer"
  have st: "stable E ?P" by (rule peer_scope.stable_over)
  have sleep: "wp (ext E (Sleep d) t) (\<lambda>_ t. wp (client_retry n E peer addr port pdata r NULL ce v t) Q)"
    if "?P t" for d t r ce v
    by (rule wp_quiet [OF st that]) (use that Suc.IH in \<open>auto simp: over_ledger intro!: wp_ext\<close>)
  show ?case
    by (auto simp: Let_def client_err_req_delete_def intro!: wp_req_new [OF st Suc.prems over_top(2) [OF Suc.prems]]
        wp_req_connect [OF st _ over_top(2) pd] wp_next_event [OF _ wf] wp_disconnect conn_scope.wp_pop [OF _ st]
        wp_client_err_conn_disconnect [OF _ P] wp_client_err_peer_delete [OF _ P] wp_client_connected [OF _ P wf]
        sleep Suc.IH Q)
qed

lemma wp_connection_client_main:
  assumes P: "stable E P" and s: "P s" and wf: "events_wf E" and "msg \<noteq> NULL" and Q: "\<And>ret s'. P s' \<Longrightarrow> Q ret s'"
  shows "wp (connection_client_main E addr port msg s) Q"
  unfolding connection_client_main_def using assms(4)
  by (auto intro!: wp_get_ibv_context [OF P s] wp_push_peer [OF P] wp_client_retry [OF P wf] Q)

text \<open>The server's labels.\<close>

lemma wp_server_err_peer_delete:
  assumes "over owns_peer E P peer s" and "stable E P" and "\<And>s'. P s' \<Longrightarrow> Q ret s'"
  shows "wp (server_err_peer_delete E ret peer s) Q"
  using assms by (auto simp: server_err_peer_delete_def intro!: peer_scope.wp_pop)

lemma wp_server_err_ep_shutdown:
  assumes "over (owns_ep_of peer) E (over owns_peer E P peer) ep s" and "stable E P" and "\<And>s'. P s' \<Longrightarrow> Q ret s'"
  shows "wp (server_err_ep_shutdown E ret ep peer s) Q"
  using assms by (auto simp: server_err_ep_shutdown_def
      intro!: ep_scope.wp_pop peer_scope.stable_over wp_server_err_peer_delete)

lemma wp_server_err_conn_delete:
  assumes "over (owns_conn_of E) E (over (owns_ep_of peer) E (over owns_peer E P peer) ep) conn s" and "stable E P"
    and "\<And>s'. P s' \<Longrightarrow> Q ret s'"
  shows "wp (server_err_conn_delete E ret conn NULL ep peer s) Q"
  using assms by (auto simp: server_err_conn_delete_def server_err_req_delete_def
      intro!: conn_scope.wp_pop [OF _ ep_scope.stable_over] wp_server_err_ep_shutdown)

lemma wp_server_connected:
  assumes c: "over (owns_conn_of E) E (over (owns_ep_of peer) E (over owns_peer E P peer) ep) conn s" and P: "stable E P"
    and wf: "events_wf E" and Q: "\<And>ret s'. P s' \<Longrightarrow> Q ret s'"
  shows "wp (server_connected E conn NULL ep peer pdata s) Q"
  unfolding server_connected_def
  by (auto intro!: wp_next_event [OF c wf] wp_next_event [OF _ wf] wp_get_private_data wp_disconnect
      wp_server_err_conn_delete [OF _ P] wp_server_err_ep_shutdown [OF _ P] wp_server_err_peer_delete [OF _ P]
      conn_scope.wp_pop [OF _ ep_scope.stable_over] ep_scope.wp_pop [OF _ peer_scope.stable_over] peer_scope.wp_pop [OF _ P] Q)

lemma wp_connection_server_main:
  assumes P: "stable E P" and s: "P s" and wf: "events_wf E" and "msg \<noteq> NULL" and Q: "\<And>ret s'. P s' \<Longrightarrow> Q ret s'"
  shows "wp (connection_server_main E addr port msg s) Q"
proof -
  have ep: "over (owns_ep_of peer) E (over owns_peer E P peer) k t \<Longrightarrow> \<exists>p. obj_at peer (O_peer p) t" for peer k t
    by (erule over_live) (rule over_top(2))
  have nn: "over owns_peer E P peer t \<Longrightarrow> peer \<noteq> NULL" for peer t
    using over_top(2) obj_at_nonnull by blast
  note [simp del] = neq0_conv
  show ?thesis
    unfolding connection_server_main_def Let_def server_err_req_delete_def using assms(4)
    by (auto intro!: wp_get_ibv_context [OF P s] wp_push_peer [OF P] wp_push_ep [OF peer_scope.stable_over]
        wp_req_next [OF ep_scope.stable_over _ over_ep ep _ wf] wp_req_connect [OF ep_scope.stable_over _ ep]
        wp_server_err_peer_delete [OF _ P] wp_server_err_ep_shutdown [OF _ P] wp_server_connected [OF _ P wf] Q nn)
qed

text \<open>The client of the connection example leaves nothing behind. Whatever the provider answers to each
  of the calls, in each of the up to ten attempts, the program runs without undefined behaviour and
  ends, memory and the resources held from the provider are then what they were at the start, and
  nothing was released twice.\<close>

lemma connection_client_no_leak:
  assumes "ledger_ok s" and "events_wf E" and "no_requests E" and "msg \<noteq> NULL"
  shows "wp (connection_client_main E addr port msg s) (\<lambda>_ s'. ledger_ok s' \<and> unchanged s s')"
  using assms by (intro wp_connection_client_main [OF stable_clean clean_refl]) (simp_all add: clean_silent)

text \<open>The server of the connection example gives back everything it has acquired, on every path and
  whatever the provider answers; only CM IDs that were reported with connect requests may be left,
  because the passive side of the library rejects a request without destroying its ID.\<close>

lemma connection_server_leaves_ids_only:
  assumes "ledger_ok s" and "events_wf E" and "msg \<noteq> NULL"
  shows "wp (connection_server_main E addr port msg s) (\<lambda>_ s'. ledger_ok s' \<and> (\<exists>ids. ids_left ids s s'))"
  using assms by (intro wp_connection_server_main [OF stable_clean clean_refl]) (auto simp: clean_def)

end
