(* ===== verification/Hello.thy ===== *)
theory Hello
  imports Common_Conn
begin

text \<open>
  The greeting that the examples with persistent memory exchange, \<open>src/examples/common/common-hello.c\<close>.
  \<open>struct hello_t\<close> is a language, four bytes, and a string of 1024 bytes; in memory it is the list of
  its 1028 bytes.
\<close>

definition HELLO_STR_SIZE :: nat where "HELLO_STR_SIZE = 1024"

datatype lang_t = en | es

fun lang_num :: "lang_t \<Rightarrow> u32" where
  "lang_num en = 0"
| "lang_num es = 1"

text \<open>The strings as stored, in UTF-8 and without the terminator.\<close>

fun hello_str :: "lang_t \<Rightarrow> u8 list" where
  "hello_str en = [72, 101, 108, 108, 111, 32, 119, 111, 114, 108, 100, 33]"
| "hello_str es = [194, 161, 72, 111, 108, 97, 32, 77, 117, 110, 100, 111, 33]"

definition HELLO_STR_OFFSET :: nat where "HELLO_STR_OFFSET = 4"
definition HELLO_T_SIZE :: nat where "HELLO_T_SIZE = HELLO_STR_OFFSET + HELLO_STR_SIZE"

definition LANG_NUM :: nat where "LANG_NUM = 2"

definition write_hello_str :: "lang_t \<Rightarrow> u8 list" where
  "write_hello_str lang = le_bytes 4 (lang_num lang) @ strncpy (hello_str lang) (HELLO_STR_SIZE - 1) @ [0]"

text \<open>The language of a greeting; the sum is computed at 32 bits, the remainder at 64.\<close>

definition hello_lang :: "u8 list \<Rightarrow> u32" where
  "hello_lang hello = le_val (take 4 hello)"

definition translate :: "u8 list \<Rightarrow> u8 list" where
  "translate hello = write_hello_str (if unat (hello_lang hello + 1) mod LANG_NUM = 0 then en else es)"

subsection \<open>Greetings\<close>

fun other_lang :: "lang_t \<Rightarrow> lang_t" where
  "other_lang en = es"
| "other_lang es = en"

lemma length_write_hello_str [simp]: "length (write_hello_str lang) = HELLO_T_SIZE"
  by (simp add: write_hello_str_def HELLO_T_SIZE_def HELLO_STR_OFFSET_def HELLO_STR_SIZE_def)

lemma length_translate [simp]: "length (translate hello) = HELLO_T_SIZE"
  by (simp add: translate_def)

lemma hello_lang_write: "hello_lang (write_hello_str lang) = lang_num lang"
  by (simp add: hello_lang_def write_hello_str_def le_val_le_bytes_full)

lemma c_string_hello_str: "c_string (hello_str lang) = hello_str lang"
  by (cases lang) (simp_all add: c_string_def)

lemma hello_string: "c_string (drop HELLO_STR_OFFSET (write_hello_str lang)) = hello_str lang"
proof -
  have "length (hello_str lang) \<le> 1023" "\<forall>b\<in>set (hello_str lang). b \<noteq> 0"
    by (cases lang; simp)+
  with c_string_hello_str have "drop 4 (write_hello_str lang) = hello_str lang @ replicate (1023 - length (hello_str lang)) 0 @ [0]"
    by (simp add: write_hello_str_def strncpy_def HELLO_STR_SIZE_def)
  with \<open>\<forall>b\<in>set _. _\<close> show ?thesis
    by (simp add: HELLO_STR_OFFSET_def c_string_def takeWhile_append2 takeWhile_append flip: replicate_append_same)
qed

lemma translate_write: "translate (write_hello_str lang) = write_hello_str (other_lang lang)"
  by (cases lang) (simp_all add: translate_def hello_lang_write LANG_NUM_def)

end
