(* ===== verification/Pmem_Map.thy ===== *)
theory Pmem_Map
  imports Hello
begin

text \<open>
  Persistent memory in the examples: mapping a file, \<open>src/examples/common/common-pmem_map_file.c\<close>, and the
  signature that marks its contents as valid, \<open>src/examples/common/common-map_file_with_signature_check.c\<close>.
  \<^item> The calls to libpmem answer like those of the other libraries: \<open>pmem_map_file\<close> the address in
    \<open>raddr\<close>, the size in the length of \<open>rmr\<close> and whether it is persistent memory in \<open>rint\<close>. A
    mapping is not a heap block: giving its address to \<open>free\<close> is undefined behaviour unless a block
    happens to be there.
  \<^item> The contents of the mapped file are a separate state, \<open>pmem\<close>: what the file contained when it was
    mapped, and the stores and persists since then, in their order. The program sees the stores;
    what a power failure leaves of them is the subject of \<open>survives\<close>.
\<close>

subsection \<open>Stores and persists\<close>

datatype pm_op = Pm_store nat "u8 list" | Pm_persist nat nat

record pmem =
  pm_image :: "u8 list"
  pm_ops :: "pm_op list"

definition overwrite :: "nat \<Rightarrow> u8 list \<Rightarrow> u8 list \<Rightarrow> u8 list" where
  "overwrite off bs img = take off img @ bs @ drop (off + length bs) img"

fun pm_step :: "pm_op \<Rightarrow> u8 list \<Rightarrow> u8 list" where
  "pm_step (Pm_store off bs) img = overwrite off bs img"
| "pm_step (Pm_persist off n) img = img"

definition pm_view :: "pmem \<Rightarrow> u8 list" where
  "pm_view pm = fold pm_step (pm_ops pm) (pm_image pm)"

text \<open>A store outside of the file is undefined behaviour.\<close>

definition pm_store :: "nat \<Rightarrow> u8 list \<Rightarrow> pmem \<Rightarrow> pmem option" where
  "pm_store off bs pm =
     (if off + length bs \<le> length (pm_image pm) then Some (pm\<lparr>pm_ops := pm_ops pm @ [Pm_store off bs]\<rparr>) else None)"

definition pm_persist :: "nat \<Rightarrow> nat \<Rightarrow> pmem \<Rightarrow> pmem" where
  "pm_persist off n pm = pm\<lparr>pm_ops := pm_ops pm @ [Pm_persist off n]\<rparr>"

text \<open>What the medium may hold of each byte when the power fails: its value at the last persist that covers
  it, or any value stored since. A byte is not torn; nothing else is assumed of the order in which
  the caches are written back.\<close>

fun may_hold :: "u8 list \<Rightarrow> pm_op list \<Rightarrow> nat \<Rightarrow> u8 set" where
  "may_hold img [] i = {img ! i}"
| "may_hold img (Pm_store off bs # ops) i =
     (if off \<le> i \<and> i < off + length bs then insert (bs ! (i - off)) (may_hold img ops i) else may_hold img ops i)"
| "may_hold img (Pm_persist off n # ops) i =
     (if off \<le> i \<and> i < off + n then {fold pm_step (rev ops) img ! i} else may_hold img ops i)"

definition survives :: "pmem \<Rightarrow> u8 list \<Rightarrow> bool" where
  "survives pm img \<longleftrightarrow> length img = length (pm_image pm) \<and>
     (\<forall>i < length img. img ! i \<in> may_hold (pm_image pm) (rev (pm_ops pm)) i)"

subsection \<open>Mapping a file\<close>

record common_mem =
  cm_mr_ptr :: ptr
  cm_mr_size :: u64
  cm_data_offset :: u64
  cm_is_pmem :: int

definition common_pmem_map_file ::
  "env \<Rightarrow> string \<Rightarrow> u64 \<Rightarrow> common_mem \<Rightarrow> st \<Rightarrow> ((rc \<times> common_mem) \<times> st) option" where
  "common_pmem_map_file E path min_size m s = do {
     (r, s) \<leftarrow> ext E (Pmem_map_file path) s;
     let m = m\<lparr>cm_mr_ptr := unat (raddr r), cm_mr_size := mr_length (rmr r), cm_is_pmem := rint r\<rparr>;
     if cm_mr_ptr m = NULL then Some ((- 1, m\<lparr>cm_is_pmem := 0\<rparr>), s)
     else if cm_mr_size m < min_size then do {
       (_, s) \<leftarrow> ext E (Pmem_unmap (of_nat (cm_mr_ptr m)) (cm_mr_size m)) s;
       Some ((- 1, m), s)
     } else if cm_is_pmem m = 0 then do {
       (_, s) \<leftarrow> ext E (Pmem_unmap (of_nat (cm_mr_ptr m)) (cm_mr_size m)) s;
       Some ((- 1, m), s)
     } else Some ((0, m), s)
   }"

definition common_pmem_unmap_file :: "env \<Rightarrow> common_mem \<Rightarrow> st \<Rightarrow> (common_mem \<times> st) option" where
  "common_pmem_unmap_file E m s =
     (if cm_is_pmem m \<noteq> 0 then do {
        (_, s) \<leftarrow> ext E (Pmem_unmap (of_nat (cm_mr_ptr m)) (cm_mr_size m)) s;
        Some (m\<lparr>cm_mr_ptr := NULL, cm_is_pmem := 0\<rparr>, s)
      } else Some (m, s))"

subsection \<open>The signature\<close>

text \<open>The characters of \<open>RPMA_EXAMPLE_SIG\<close> and the terminator. \<open>strncmp\<close> stops at a terminator or after \<open>n\<close>
  characters; the contents of a file stand for what is behind its address.\<close>

definition SIGNATURE_STR :: "u8 list" where
  "SIGNATURE_STR = [82, 80, 77, 65, 95, 69, 88, 65, 77, 80, 76, 69, 95, 83, 73, 71, 0]"

definition SIGNATURE_LEN :: nat where "SIGNATURE_LEN = strlen SIGNATURE_STR + 1"

fun strncmp_eq :: "u8 list \<Rightarrow> u8 list \<Rightarrow> nat \<Rightarrow> bool" where
  "strncmp_eq xs ys 0 = True"
| "strncmp_eq (x # xs) (y # ys) (Suc n) = (x = y \<and> (x = 0 \<or> strncmp_eq xs ys n))"
| "strncmp_eq _ _ (Suc n) = False"

definition init_with_signature :: "nat \<Rightarrow> nat \<Rightarrow> pmem \<Rightarrow> pmem option" where
  "init_with_signature sz data_offset pm =
     (if strncmp_eq (pm_view pm) SIGNATURE_STR SIGNATURE_LEN then Some pm
      else do {
        pm \<leftarrow>
          (if sz = 0 then do {
             pm \<leftarrow> pm_store data_offset (write_hello_str en) pm;
             Some (pm_persist data_offset HELLO_T_SIZE pm)
           } else do {
             pm \<leftarrow> pm_store data_offset [0] pm;
             Some (pm_persist data_offset 1 pm)
           });
        pm \<leftarrow> pm_store 0 SIGNATURE_STR pm;
        Some (pm_persist 0 SIGNATURE_LEN pm)
      })"

definition common_pmem_map_file_with_signature_check ::
  "env \<Rightarrow> string \<Rightarrow> nat \<Rightarrow> common_mem \<Rightarrow> pmem \<Rightarrow> st \<Rightarrow> ((rc \<times> common_mem \<times> pmem) \<times> st) option" where
  "common_pmem_map_file_with_signature_check E path sz m pm s = do {
     let min_size = (if sz = 0 then HELLO_T_SIZE else sz);
     ((ret, m), s) \<leftarrow> common_pmem_map_file E path (of_nat (SIGNATURE_LEN + min_size)) m s;
     if ret \<noteq> 0 then Some ((- 1, m, pm), s)
     else if cm_mr_size m < of_nat (SIGNATURE_LEN + min_size) then Some ((- 1, m, pm), s)
     else do {
       let m = m\<lparr>cm_data_offset := of_nat SIGNATURE_LEN\<rparr>;
       pm \<leftarrow> init_with_signature sz SIGNATURE_LEN pm;
       Some ((0, m, pm), s)
     }
   }"

subsection \<open>Power failures\<close>

text \<open>Contents that are published by a signature: the data is stored and persisted, then the signature. Until
  the data has survived, so has the old beginning of the file.\<close>

definition publish :: "nat \<Rightarrow> u8 list \<Rightarrow> u8 list \<Rightarrow> pm_op list" where
  "publish off x sig = [Pm_store off x, Pm_persist off (length x), Pm_store 0 sig, Pm_persist 0 (length sig)]"

lemma nth_overwrite:
  "off + length bs \<le> length img \<Longrightarrow> i < length img \<Longrightarrow>
   overwrite off bs img ! i = (if off \<le> i \<and> i < off + length bs then bs ! (i - off) else img ! i)"
  by (auto simp: overwrite_def nth_append min_def)

lemma length_overwrite [simp]: "off + length bs \<le> length img \<Longrightarrow> length (overwrite off bs img) = length img"
  by (simp add: overwrite_def)

lemma publish_crash:
  assumes "length sig \<le> off" and "off + length x \<le> length img" and "survives \<lparr>pm_image = img, pm_ops = take k (publish off x sig)\<rparr> new"
  shows "take (length sig) new = take (length sig) img \<or> take (length x) (drop off new) = x"
proof -
  from assms(3) have len: "length new = length img"
    and hold: "\<And>i. i < length new \<Longrightarrow> new ! i \<in> may_hold img (rev (take k (publish off x sig))) i"
    by (auto simp: survives_def)
  have "new ! i = img ! i" if "k < 3" "i < length sig" for i
  proof -
    from that(1) consider "k = 0" | "k = 1" | "k = 2" by linarith
    then show ?thesis using hold [of i] that assms(1,2) len by cases (auto simp: publish_def)
  qed
  moreover have "new ! (off + i) = x ! i" if "\<not> k < 3" "i < length x" for i
  proof -
    from that(1) consider "k = 3" | "4 \<le> k" by linarith
    then show ?thesis using hold [of "off + i"] that(2) assms(1,2) len by cases (auto simp: publish_def nth_overwrite)
  qed
  ultimately have "(\<forall>i < length sig. new ! i = img ! i) \<or> (\<forall>i < length x. new ! (off + i) = x ! i)"
    by blast
  then show ?thesis
  proof
    assume "\<forall>i < length sig. new ! i = img ! i"
    then have "take (length sig) new = take (length sig) img" using len assms(1,2) by (intro nth_equalityI) auto
    then show ?thesis ..
  next
    assume "\<forall>i < length x. new ! (off + i) = x ! i"
    then have "take (length x) (drop off new) = x" using len assms(1,2) by (intro nth_equalityI) auto
    then show ?thesis ..
  qed
qed

lemma strncmp_eq_take: "strncmp_eq (take n xs) ys n = strncmp_eq xs ys n"
proof (induction n arbitrary: xs ys)
  case (Suc n)
  then show ?case by (cases xs; cases ys) auto
qed simp

lemma signature_len: "length SIGNATURE_STR = SIGNATURE_LEN" "SIGNATURE_LEN = 17"
  by (simp_all add: SIGNATURE_LEN_def SIGNATURE_STR_def strlen_def c_string_def)

lemma hello_t_size: "HELLO_T_SIZE = 1028"
  by (simp add: HELLO_T_SIZE_def HELLO_STR_OFFSET_def HELLO_STR_SIZE_def)

lemma pm_view_mapped [simp]: "pm_view \<lparr>pm_image = img, pm_ops = []\<rparr> = img"
  by (simp add: pm_view_def)

lemma init_ops:
  assumes "init_with_signature sz off \<lparr>pm_image = img, pm_ops = []\<rparr> = Some pm" and "SIGNATURE_LEN \<le> off"
  shows "strncmp_eq img SIGNATURE_STR SIGNATURE_LEN \<and> pm = \<lparr>pm_image = img, pm_ops = []\<rparr> \<or>
    \<not> strncmp_eq img SIGNATURE_STR SIGNATURE_LEN \<and>
      (\<exists>x. x = (if sz = 0 then write_hello_str en else [0]) \<and> off + length x \<le> length img \<and>
        pm = \<lparr>pm_image = img, pm_ops = publish off x SIGNATURE_STR\<rparr>)"
  using assms by (auto simp: init_with_signature_def pm_store_def pm_persist_def publish_def signature_len
      split: if_splits bind_splits)

lemma init_defined:
  assumes "length img \<ge> off + (if sz = 0 then HELLO_T_SIZE else 1)" and "SIGNATURE_LEN \<le> off"
  shows "\<exists>pm. init_with_signature sz off \<lparr>pm_image = img, pm_ops = []\<rparr> = Some pm \<and> pm_image pm = img"
  using assms by (auto simp: init_with_signature_def pm_store_def pm_persist_def signature_len)

lemma may_hold_persisted:
  assumes "survives \<lparr>pm_image = img, pm_ops = ops @ [Pm_persist off n]\<rparr> new" and "off + n \<le> length img"
    and "length (fold pm_step ops img) = length img"
  shows "take n (drop off new) = take n (drop off (fold pm_step ops img))"
proof -
  have len: "length new = length img" using assms(1) by (simp add: survives_def)
  have "new ! (off + i) = fold pm_step ops img ! (off + i)" if "i < n" for i
  proof -
    have "off + i < length new" using that assms(2) len by simp
    with assms(1) have "new ! (off + i) \<in> may_hold img (Pm_persist off n # rev ops) (off + i)" by (simp add: survives_def del: may_hold.simps)
    with that show ?thesis by simp
  qed
  with assms(2,3) len show ?thesis by (intro nth_equalityI) auto
qed

lemma drop_take_overwrite: "off + length bs \<le> length img \<Longrightarrow> take (length bs) (drop off (overwrite off bs img)) = bs"
  by (simp add: overwrite_def)

text \<open>A store that was persisted is what every power failure leaves.\<close>

definition pm_ok :: "pmem \<Rightarrow> bool" where
  "pm_ok pm \<longleftrightarrow> length (pm_view pm) = length (pm_image pm)"

lemma stored_survives:
  assumes "pm_store off bs pm = Some pm1" and "pm_ok pm" and "survives (pm_persist off (length bs) pm1) new"
  shows "take (length bs) (drop off new) = bs"
proof -
  from assms(1) have b: "off + length bs \<le> length (pm_image pm)" and p: "pm1 = pm\<lparr>pm_ops := pm_ops pm @ [Pm_store off bs]\<rparr>"
    by (auto simp: pm_store_def split: if_splits)
  let ?ops = "pm_ops pm @ [Pm_store off bs]"
  have v: "fold pm_step ?ops (pm_image pm) = overwrite off bs (pm_view pm)" by (simp add: pm_view_def)
  have len: "length (pm_view pm) = length (pm_image pm)" using assms(2) by (simp add: pm_ok_def)
  have "survives \<lparr>pm_image = pm_image pm, pm_ops = ?ops @ [Pm_persist off (length bs)]\<rparr> new"
    using assms(3) by (simp add: p pm_persist_def survives_def)
  from may_hold_persisted [OF this b] have "take (length bs) (drop off new) = take (length bs) (drop off (overwrite off bs (pm_view pm)))"
    unfolding v using len b by simp
  also have "\<dots> = bs" using b len by (intro drop_take_overwrite) simp
  finally show ?thesis .
qed

lemma strncmp_same: "n \<le> length xs \<Longrightarrow> strncmp_eq xs xs n"
proof (induction n arbitrary: xs)
  case (Suc n)
  then show ?case by (cases xs) auto
qed simp

lemma published:
  assumes "length sig \<le> off" and "off + length x \<le> length img" and "survives \<lparr>pm_image = img, pm_ops = publish off x sig\<rparr> new"
  shows "take (length sig) new = sig"
proof -
  have p: "publish off x sig = [Pm_store off x, Pm_persist off (length x), Pm_store 0 sig] @ [Pm_persist 0 (length sig)]"
    by (simp add: publish_def)
  have "survives \<lparr>pm_image = img, pm_ops = [Pm_store off x, Pm_persist off (length x), Pm_store 0 sig] @ [Pm_persist 0 (length sig)]\<rparr> new"
    using assms(3) unfolding p .
  from may_hold_persisted [OF this] assms(1,2) show ?thesis
    using drop_take_overwrite [of 0 sig "overwrite off x img"] by simp
qed

text \<open>Without a power failure the medium ends up with what the program sees.\<close>

lemma view_survives:
  assumes "\<forall>off bs. Pm_store off bs \<in> set (pm_ops pm) \<longrightarrow> off + length bs \<le> length (pm_image pm)"
  shows "survives pm (pm_view pm)"
proof -
  have "length (fold pm_step (rev ops) img) = length img \<and> (\<forall>i < length img. fold pm_step (rev ops) img ! i \<in> may_hold img ops i)"
    if "\<forall>off bs. Pm_store off bs \<in> set ops \<longrightarrow> off + length bs \<le> length img" for ops and img :: "u8 list"
    using that
  proof (induction ops)
    case (Cons op ops)
    then show ?case by (cases op) (auto simp: nth_overwrite)
  qed simp
  from this [of "rev (pm_ops pm)" "pm_image pm"] assms show ?thesis by (simp add: survives_def pm_view_def)
qed

end
