(* ===== verification/Region.thy ===== *)
theory Region
  imports Pmem_Map Program_Rules
begin

text \<open>
  The memory that an example registers: a mapping of persistent memory when a path is given, else a
  heap block. \<open>release_mem\<close> is the code at the label \<open>err_free\<close> of these programs; \<open>mem_store\<close> and
  \<open>mem_persist\<close> are stores to the memory and the call of the function in \<open>persist\<close>. Both kinds of
  memory are scopes.
\<close>

definition no_mem :: common_mem where
  "no_mem = \<lparr>cm_mr_ptr = NULL, cm_mr_size = 0, cm_data_offset = 0, cm_is_pmem = 0\<rparr>"

definition release_mem :: "env \<Rightarrow> common_mem \<Rightarrow> st \<Rightarrow> (unit \<times> st) option" where
  "release_mem E m s =
     (if cm_is_pmem m \<noteq> 0 then do { (_, s) \<leftarrow> common_pmem_unmap_file E m s; Some ((), s) }
      else if cm_mr_ptr m \<noteq> NULL then free (cm_mr_ptr m) s
      else Some ((), s))"

definition mem_bytes :: "common_mem \<Rightarrow> pmem \<Rightarrow> st \<Rightarrow> u8 list option" where
  "mem_bytes m pm s = (if cm_is_pmem m \<noteq> 0 then Some (pm_view pm) else bytes_at (cm_mr_ptr m) s)"

definition mem_store :: "common_mem \<Rightarrow> nat \<Rightarrow> u8 list \<Rightarrow> pmem \<Rightarrow> st \<Rightarrow> (pmem \<times> st) option" where
  "mem_store m off bs pm s =
     (if cm_is_pmem m \<noteq> 0 then do { pm \<leftarrow> pm_store off bs pm; Some (pm, s) }
      else do {
        old \<leftarrow> bytes_at (cm_mr_ptr m) s;
        if off + length bs \<le> length old then do {
          (_, s) \<leftarrow> store (cm_mr_ptr m) (O_bytes (overwrite off bs old)) s;
          Some (pm, s)
        } else None
      })"

definition mem_persist :: "common_mem \<Rightarrow> nat \<Rightarrow> nat \<Rightarrow> pmem \<Rightarrow> pmem" where
  "mem_persist m off n pm = (if cm_is_pmem m \<noteq> 0 then pm_persist off n pm else pm)"

subsection \<open>A mapping as a scope\<close>

text \<open>A mapping is held without a heap block, so that it can be given up below other scopes.\<close>

definition owns_map :: "ptr \<Rightarrow> ptr set \<Rightarrow> res multiset \<Rightarrow> st \<Rightarrow> bool" where
  "owns_map k B R s \<longleftrightarrow> B = {} \<and> R = {#R_map (of_nat k)#}"

definition unmap :: "u64 \<Rightarrow> env \<Rightarrow> ptr \<Rightarrow> st \<Rightarrow> ((rc \<times> ptr option) \<times> st) option" where
  "unmap n E k s = do { (_, s) \<leftarrow> ext E (Pmem_unmap (of_nat k) n) s; Some ((0, Some NULL), s) }"

interpretation map_scope: scoped owns_map "unmap n"
  for n
  by unfold_locales (auto simp: owns_map_def unmap_def destroyed_def intro!: wp_ext)

lemma wp_pop_map:
  assumes "over owns_map E P a s" and "stable E P" and "\<And>r s'. P s' \<Longrightarrow> Q r s'"
  shows "wp (ext E (Pmem_unmap (of_nat a) n) s) Q"
proof -
  have "wp (unmap n E a s) (\<lambda>_ s'. \<forall>r. Q r s')"
    by (rule map_scope.wp_pop [OF assms(1,2)]) (simp add: assms(3))
  then show ?thesis by (auto simp: unmap_def elim!: wp_mono)
qed

lemma over_map_clean:
  assumes "over owns_map E (clean E s0) a s"
  shows "ledger_ok s \<and> mem s = mem s0 \<and> (\<exists>ids. acct s = acct s0 + image_mset R_id ids + {#R_map (of_nat a)#})"
proof -
  from assms obtain s1 ids ids' where "ledger_ok s" "ids_left ids s0 s1"
    "created {} ({#R_map (of_nat a)#} + image_mset R_id ids') s1 s"
    unfolding over_def owns_map_def clean_def by blast
  then show ?thesis
    by (auto simp: created_def ids_left_def fun_eq_iff intro!: exI [of _ "ids + ids'"])
qed

lemma wp_pmem_map_file:
  assumes P: "stable E P" and s: "P s" and r: "r = respond E (trace s) (Pmem_map_file path)"
    and Q0: "\<And>m s'. over owns_map E P (cm_mr_ptr m) s' \<Longrightarrow> cm_mr_ptr m = unat (raddr r) \<Longrightarrow> cm_mr_ptr m \<noteq> NULL \<Longrightarrow>
      cm_mr_size m = mr_length (rmr r) \<Longrightarrow> min_size \<le> cm_mr_size m \<Longrightarrow> cm_is_pmem m \<noteq> 0 \<Longrightarrow> Q (0, m) s'"
    and Q1: "\<And>m s'. P s' \<Longrightarrow> cm_is_pmem m = 0 \<Longrightarrow> cm_mr_ptr m = NULL \<Longrightarrow> Q (- 1, m) s'"
    and Q2: "\<And>m s'. P s' \<Longrightarrow> raddr r \<noteq> 0 \<Longrightarrow> mr_length (rmr r) < min_size \<or> rint r = 0 \<Longrightarrow>
      cm_is_pmem m = rint r \<Longrightarrow> cm_mr_ptr m = unat (raddr r) \<Longrightarrow> Q (- 1, m) s'"
  shows "wp (common_pmem_map_file E path min_size m0 s) Q"
proof -
  let ?t = "push (Pmem_map_file path) r s"
  have ok: "ledger_ok s" by (rule stable_ledger [OF P s])
  have null: "unat a = NULL \<longleftrightarrow> a = 0" "0 < unat a \<longleftrightarrow> a \<noteq> 0" for a :: u64 by (simp_all add: unsigned_eq_0_iff unat_gt_0)
  have new: "over owns_map E P (unat (raddr r)) ?t" if "raddr r \<noteq> 0"
    by (rule map_scope.push [where P = P and s = s and B = "{}" and R = "{#R_map (raddr r)#}", OF s])
       (use ok that r in \<open>auto simp: owns_map_def created_def\<close>)
  note [simp del] = neq0_conv
  show ?thesis
  proof (cases "raddr r = 0")
    case True
    with r show ?thesis
      unfolding common_pmem_map_file_def Let_def using ok by (auto simp: wp_ext_exact null intro!: Q1 stable_same [OF P s])
  next
    case False
    with r show ?thesis
      unfolding common_pmem_map_file_def Let_def
      using ok new [OF False] by (auto simp: wp_ext_exact null intro!: Q0 Q2 stable_same [OF P s])
  qed
qed

subsection \<open>Memory of either kind as a scope\<close>

definition owns_region :: "bool \<Rightarrow> nat \<Rightarrow> ptr \<Rightarrow> ptr set \<Rightarrow> res multiset \<Rightarrow> st \<Rightarrow> bool" where
  "owns_region pmem n k B R s \<longleftrightarrow>
     (if pmem then owns_map k B R s else (\<exists>bs. obj_at k (O_bytes bs) s \<and> length bs = n) \<and> B = {k} \<and> R = {#})"

interpretation region_scope: scoped "owns_region pmem n" "\<lambda>E k. if pmem then unmap len E k else free_block E k"
  for pmem n len
proof unfold_locales
  fix k B R and s s' :: st
  assume "owns_region pmem n k B R s" and "\<And>q. q \<in> B \<Longrightarrow> mem s' q = mem s q"
  then show "owns_region pmem n k B R s'" by (auto simp: owns_region_def owns_map_def obj_at_def)
next
  fix k B R q and s :: st
  assume "owns_region pmem n k B R s" and "q \<in> B"
  then show "mem s q \<noteq> None" by (auto simp: owns_region_def owns_map_def obj_at_def split: if_splits)
next
  fix k B R and s :: st and E
  assume "owns_region pmem n k B R s" and "ledger_ok s" and "R \<subseteq># acct s"
  then show "wp ((if pmem then unmap len E k else free_block E k) s)
      (\<lambda>(ret, out) s'. ledger_ok s' \<and> destroyed B R s s' \<and> out = Some NULL)"
    by (auto simp: owns_region_def free_block_def intro!: map_scope.destroy_spec wp_free destroyed_one split: if_splits)
qed

abbreviation "over_mem m n E P \<equiv> over (owns_region (cm_is_pmem m \<noteq> 0) n) E P (cm_mr_ptr m)"

lemma wp_release_mem:
  assumes "over_mem m n E P s" and "stable E P" and "cm_mr_ptr m \<noteq> NULL" and Q: "\<And>s'. P s' \<Longrightarrow> Q () s'"
  shows "wp (release_mem E m s) Q"
proof -
  note pop = region_scope.wp_pop [OF assms(1,2), of "\<lambda>_ s'. P s'" "cm_mr_size m"]
  show ?thesis
  proof (cases "cm_is_pmem m \<noteq> 0")
    case True
    then have "over owns_map E P (cm_mr_ptr m) s" using assms(1) by (simp add: over_def owns_region_def)
    with True Q show ?thesis by (auto simp: release_mem_def common_pmem_unmap_file_def intro!: wp_pop_map [OF _ assms(2)])
  next
    case False
    then have "wp (free_block E (cm_mr_ptr m) s) (\<lambda>_ s'. P s')" using pop by simp
    with False assms(3) Q show ?thesis by (auto simp: release_mem_def free_block_def elim!: wp_mono)
  qed
qed

lemma release_no_mem: "cm_is_pmem m = 0 \<Longrightarrow> cm_mr_ptr m = NULL \<Longrightarrow> release_mem E m s = Some ((), s)"
  by (simp add: release_mem_def)

text \<open>A block of \<open>n\<close> bytes below other scopes, and stores to it.\<close>

definition patch :: "nat \<Rightarrow> u8 list \<Rightarrow> obj \<Rightarrow> obj" where
  "patch off bs x = (case x of O_bytes old \<Rightarrow> O_bytes (overwrite off bs old) | _ \<Rightarrow> x)"

definition sized :: "(st \<Rightarrow> bool) \<Rightarrow> common_mem \<Rightarrow> nat \<Rightarrow> bool" where
  "sized P m n \<longleftrightarrow> cm_is_pmem m = 0 \<longrightarrow>
     (\<forall>t. P t \<longrightarrow> (\<exists>bs. obj_at (cm_mr_ptr m) (O_bytes bs) t \<and> length bs = n)) \<and>
     (\<forall>off bs. off + length bs \<le> n \<longrightarrow> allows P (cm_mr_ptr m) (patch off bs))"

lemma sized_top: "sized (over_mem m n E P) m n"
  unfolding sized_def
proof (intro impI conjI allI)
  fix t
  assume h: "cm_is_pmem m = 0"
  show "\<exists>bs. obj_at (cm_mr_ptr m) (O_bytes bs) t \<and> length bs = n" if "over_mem m n E P t"
    using that h by (auto simp: over_def owns_region_def)
  fix off and bs :: "u8 list"
  assume n: "off + length bs \<le> n"
  show "allows (over_mem m n E P) (cm_mr_ptr m) (patch off bs)"
    unfolding allows_def
  proof (intro allI impI)
    fix t
    assume "over_mem m n E P t"
    then obtain s1 ids old where o: "ledger_ok t" "P s1" "obj_at (cm_mr_ptr m) (O_bytes old) t" "length old = n"
      "created {cm_mr_ptr m} (image_mset R_id ids) s1 t" "no_requests E \<longrightarrow> ids = {#}"
      using h by (auto simp: over_def owns_region_def)
    let ?x = "O_bytes (overwrite off bs old)" and ?k = "cm_mr_ptr m"
    let ?t = "t\<lparr>mem := (mem t)(?k \<mapsto> ?x)\<rparr>"
    have own: "owns_region False n ?k {?k} {#} ?t"
      using o n by (auto simp: owns_region_def obj_at_def)
    have "created {?k} ({#} + image_mset R_id ids) s1 ?t"
      using o(5) by (auto simp: created_def)
    with own o h have "over_mem m n E P ?t"
      unfolding over_def by (intro conjI exI [of _ s1] exI [of _ ids] exI) auto
    then show "\<exists>y. obj_at ?k y t \<and> over_mem m n E P (t\<lparr>mem := (mem t)(?k \<mapsto> patch off bs y)\<rparr>)"
      using o(3) by (auto simp: patch_def)
  qed
qed

context scoped
begin

lemma sized_over:
  assumes "sized P m n"
  shows "sized (over owns E P j) m n"
  unfolding sized_def
proof (intro impI conjI allI)
  fix t
  assume h: "cm_is_pmem m = 0"
  with assms have s: "\<And>t. P t \<Longrightarrow> \<exists>bs. obj_at (cm_mr_ptr m) (O_bytes bs) t \<and> length bs = n"
    and a: "\<And>off bs. off + length bs \<le> n \<Longrightarrow> allows P (cm_mr_ptr m) (patch off bs)"
    unfolding sized_def by blast+
  show "\<exists>bs. obj_at (cm_mr_ptr m) (O_bytes bs) t \<and> length bs = n" if "over owns E P j t"
    using over_below [OF that] s by blast
  fix off and bs :: "u8 list"
  assume "off + length bs \<le> n"
  then show "allows (over owns E P j) (cm_mr_ptr m) (patch off bs)" by (intro allows_over a)
qed

end

lemmas sizes = sized_top cq_scope.sized_over peer_scope.sized_over ep_scope.sized_over mr_scope.sized_over plain_scope.sized_over

lemma wp_mem_store:
  assumes "P s" and "sized P m n" and "off + length bs \<le> n" and "cm_is_pmem m \<noteq> 0 \<Longrightarrow> off + length bs \<le> length (pm_image pm)"
    and "\<And>pm' s'. P s' \<Longrightarrow> pm_image pm' = pm_image pm \<Longrightarrow> Q pm' s'"
  shows "wp (mem_store m off bs pm s) Q"
proof (cases "cm_is_pmem m = 0")
  case True
  with assms(1,2) obtain old where o: "obj_at (cm_mr_ptr m) (O_bytes old) s" "length old = n" unfolding sized_def by blast
  have a: "allows P (cm_mr_ptr m) (patch off bs)" using True assms(2,3) by (simp add: sized_def)
  from allowsD [OF a assms(1) o(1)] have "P (s\<lparr>mem := (mem s)(cm_mr_ptr m \<mapsto> O_bytes (overwrite off bs old))\<rparr>)"
    by (simp add: patch_def)
  with True o assms(3) show ?thesis
    by (auto simp: mem_store_def bytes_at_def store_def deref_def obj_at_def intro!: assms(5))
next
  case False
  then show ?thesis using assms(1,4) by (auto simp: mem_store_def pm_store_def intro!: assms(5))
qed

lemma mem_persist_image [simp]: "pm_image (mem_persist m off n pm) = pm_image pm"
  by (simp add: mem_persist_def pm_persist_def)

end
