(* ===== verification/Shared_Memory.thy ===== *)
theory Shared_Memory
  imports Region
begin

text \<open>
  What the examples with persistent memory have in common (\<open>src/examples/03-read-to-persistent\<close>,
  \<open>04-write-to-persistent\<close>, \<open>05-flush-to-persistent\<close>): the beginning of the clients and of the servers, up to
  the memory they work on, the advice for the registered memory, and the description of a region that
  is sent to the other side as private data. A build with persistent memory is modelled; the path on the
  command line is optional.
\<close>

subsection \<open>The memory\<close>

text \<open>\<open>Inl\<close> is the exit code of a program that ends here, through the label \<open>err_free\<close> or directly.\<close>

definition client_mem ::
  "env \<Rightarrow> string option \<Rightarrow> pmem \<Rightarrow> st \<Rightarrow> ((rc + common_mem \<times> pmem) \<times> st) option" where
  "client_mem E path pm s = do {
     ((ret, m, pm), s) \<leftarrow> (case path of
        None \<Rightarrow> Some ((0, no_mem, pm), s)
      | Some p \<Rightarrow> common_pmem_map_file_with_signature_check E p 0 no_mem pm s);
     if ret \<noteq> 0 then do { (_, s) \<leftarrow> release_mem E m s; Some (Inl ret, s) }
     else if cm_mr_ptr m = NULL then do {
       (mr_ptr, s) \<leftarrow> malloc_aligned E HELLO_T_SIZE s;
       if mr_ptr = NULL then Some (Inl (- 1), s)
       else do {
         let m = m\<lparr>cm_mr_ptr := mr_ptr, cm_mr_size := of_nat HELLO_T_SIZE\<rparr>;
         (pm, s) \<leftarrow> mem_store m 0 (write_hello_str en) pm s;
         Some (Inr (m, pm), s)
       }
     } else Some (Inr (m, pm), s)
   }"

definition server_mem ::
  "env \<Rightarrow> string option \<Rightarrow> pmem \<Rightarrow> st \<Rightarrow> ((rc + common_mem \<times> pmem) \<times> st) option" where
  "server_mem E path pm s = do {
     ((ret, m, pm), s) \<leftarrow> (case path of
        None \<Rightarrow> Some ((0, no_mem, pm), s)
      | Some p \<Rightarrow> common_pmem_map_file_with_signature_check E p KILOBYTE no_mem pm s);
     if ret \<noteq> 0 then do { (_, s) \<leftarrow> release_mem E m s; Some (Inl ret, s) }
     else if cm_mr_ptr m = NULL then do {
       (mr_ptr, s) \<leftarrow> malloc_aligned E KILOBYTE s;
       if mr_ptr = NULL then Some (Inl (- 1), s)
       else Some (Inr (m\<lparr>cm_mr_ptr := mr_ptr, cm_mr_size := of_nat KILOBYTE\<rparr>, pm), s)
     } else Some (Inr (m, pm), s)
   }"

subsection \<open>Advice\<close>

fun strstr_found :: "string \<Rightarrow> string \<Rightarrow> bool" where
  "strstr_found [] needle = (needle = [])"
| "strstr_found (c # cs) needle = (take (length needle) (c # cs) = needle \<or> strstr_found cs needle)"

definition IBV_ADVISE_MR_ADVICE_PREFETCH_WRITE :: int where "IBV_ADVISE_MR_ADVICE_PREFETCH_WRITE = 1"
definition IBV_ADVISE_MR_FLAG_FLUSH :: u32 where "IBV_ADVISE_MR_FLAG_FLUSH = 1"

text \<open>Only for a mapping, and only if it is not a device.\<close>

definition advise_mem :: "env \<Rightarrow> string option \<Rightarrow> common_mem \<Rightarrow> ptr \<Rightarrow> st \<Rightarrow> (rc \<times> st) option" where
  "advise_mem E path m mr s =
     (if cm_is_pmem m \<noteq> 0 \<and> \<not> strstr_found (the path) ''/dev/dax''
      then rpma_mr_advise E mr 0 (cm_mr_size m) IBV_ADVISE_MR_ADVICE_PREFETCH_WRITE IBV_ADVISE_MR_FLAG_FLUSH s
      else Some (0, s))"

subsection \<open>The description of a region\<close>

type_synonym u16 = "16 word"

text \<open>\<open>struct common_data\<close>: the offset of the data, the sizes of the two descriptors, and 24 bytes for them.\<close>

definition common_data_of :: "ptr \<Rightarrow> u16 \<Rightarrow> st \<Rightarrow> ((rc \<times> u8 list) \<times> st) option" where
  "common_data_of mr data_offset s = do {
     ((ret, mr_desc_size), s) \<leftarrow> rpma_mr_get_descriptor_size mr (Some 0) s;
     if ret \<noteq> 0 then Some ((ret, []), s)
     else do {
       ((ret, descriptors), s) \<leftarrow> rpma_mr_get_descriptor mr (Some (replicate 24 0)) s;
       if ret \<noteq> 0 then Some ((ret, []), s)
       else Some ((0, le_bytes 2 data_offset @ [of_nat (the mr_desc_size), 0] @ the descriptors), s)
     }
   }"

text \<open>On the other side: the offset and the region, from private data that is long enough.\<close>

definition remote_from_data ::
  "env \<Rightarrow> rpma_conn_private_data \<Rightarrow> st \<Rightarrow> ((rc \<times> ptr \<times> u16) \<times> st) option" where
  "remote_from_data E pdata s = do {
     dst_data \<leftarrow> bytes_at (pdata_ptr pdata) s;
     data_offset \<leftarrow> read_bytes 0 2 dst_data;
     mr_desc_size \<leftarrow> read_bytes 2 1 dst_data;
     ((ret, remote_mr), s) \<leftarrow>
       rpma_mr_remote_from_descriptor E (Some (drop 4 dst_data)) (unat (hd mr_desc_size)) (Some NULL) s;
     Some ((ret, the remote_mr, le_val data_offset), s)
   }"

subsection \<open>The completion of a read\<close>

definition read_completed :: "env \<Rightarrow> ptr \<Rightarrow> ibv_wc \<Rightarrow> st \<Rightarrow> (rc \<times> st) option" where
  "read_completed E cq wc s = do {
     (ret, s) \<leftarrow> rpma_cq_wait E cq s;
     if ret \<noteq> 0 then Some (ret, s)
     else do {
       ((ret, wcs, _), s) \<leftarrow> rpma_cq_get_wc E cq 1 (Some [wc]) None s;
       let wc = (case the wcs of [] \<Rightarrow> wc | w # _ \<Rightarrow> w);
       if ret \<noteq> 0 then Some (ret, s)
       else if wc_status wc \<noteq> IBV_WC_SUCCESS then Some (- 1, s)
       else if wc_opcode wc \<noteq> IBV_WC_RDMA_READ then Some (- 1, s)
       else Some (0, s)
     }
   }"

subsection \<open>Rules\<close>

text \<open>A file that can be mapped is persistent memory of the needed size; \<open>pm\<close> is what it contains.\<close>

definition file_fits :: "env \<Rightarrow> string option \<Rightarrow> nat \<Rightarrow> pmem \<Rightarrow> bool" where
  "file_fits E path need pm \<longleftrightarrow> pm_ops pm = [] \<and> (\<forall>p tr. path = Some p \<longrightarrow>
     (let r = respond E tr (Pmem_map_file p) in raddr r \<noteq> 0 \<longrightarrow>
        rint r \<noteq> 0 \<and> SIGNATURE_LEN + need \<le> unat (mr_length (rmr r)) \<and> length (pm_image pm) = unat (mr_length (rmr r))))"

definition mem_ready :: "common_mem \<Rightarrow> nat \<Rightarrow> nat \<Rightarrow> pmem \<Rightarrow> bool" where
  "mem_ready m n need pm \<longleftrightarrow> cm_mr_ptr m \<noteq> NULL \<and> unat (cm_data_offset m) + need \<le> n \<and>
     (cm_is_pmem m \<noteq> 0 \<longrightarrow> unat (cm_data_offset m) = SIGNATURE_LEN \<and> unat (cm_data_offset m) + need \<le> length (pm_image pm))"

lemma u64_fits: "SIGNATURE_LEN + need \<le> unat (x :: u64) \<longleftrightarrow> \<not> x < of_nat (SIGNATURE_LEN + need)" if "need < 4096"
  using that by (simp add: signature_len word_less_nat_alt unat_of_nat_small not_less del: of_nat_add)

lemma wp_map_with_signature:
  assumes P: "stable E P" and s: "P s" and fits: "file_fits E (Some p) need pm" and sz: "need = (if sz = 0 then HELLO_T_SIZE else sz)" "need < 4096"
    and Q0: "\<And>m pm' s'. over_mem m (SIGNATURE_LEN + need) E P s' \<Longrightarrow> mem_ready m (SIGNATURE_LEN + need) need pm' \<Longrightarrow> Q (0, m, pm') s'"
    and Q1: "\<And>m s'. P s' \<Longrightarrow> cm_is_pmem m = 0 \<Longrightarrow> cm_mr_ptr m = NULL \<Longrightarrow> Q (- 1, m, pm) s'"
  shows "wp (common_pmem_map_file_with_signature_check E p sz m0 pm s) Q"
proof -
  let ?r = "respond E (trace s) (Pmem_map_file p)"
  have pm: "pm = \<lparr>pm_image = pm_image pm, pm_ops = []\<rparr>" using fits by (simp add: file_fits_def)
  have map: "rint ?r \<noteq> 0" "\<not> mr_length (rmr ?r) < of_nat (SIGNATURE_LEN + need)"
    "SIGNATURE_LEN + need \<le> length (pm_image pm)" if "raddr ?r \<noteq> 0"
    using fits that u64_fits [OF sz(2), of "mr_length (rmr ?r)"] by (auto simp: file_fits_def Let_def)
  have init: "\<exists>pm'. init_with_signature sz SIGNATURE_LEN pm = Some pm' \<and> pm_image pm' = pm_image pm" if "raddr ?r \<noteq> 0"
    using init_defined [of SIGNATURE_LEN sz "pm_image pm", folded pm] map(3) [OF that] sz(1) by (auto split: if_splits)
  have off: "unat (of_nat SIGNATURE_LEN :: u64) = SIGNATURE_LEN" by (simp add: signature_len)
  show ?thesis
    unfolding common_pmem_map_file_with_signature_check_def Let_def wp_bind sz(1) [symmetric]
  proof (rule wp_pmem_map_file [OF P s refl], goal_cases)
    case (1 m s')
    then have r: "raddr ?r \<noteq> 0" by (auto simp: unsigned_eq_0_iff)
    from init [OF r] obtain pm' where i: "init_with_signature sz SIGNATURE_LEN pm = Some pm'" "pm_image pm' = pm_image pm" by blast
    have "over_mem m (SIGNATURE_LEN + need) E P s'" using 1 by (simp add: over_def owns_region_def)
    then have o: "over_mem (m\<lparr>cm_data_offset := of_nat SIGNATURE_LEN\<rparr>) (SIGNATURE_LEN + need) E P s'" by simp
    have "mem_ready (m\<lparr>cm_data_offset := of_nat SIGNATURE_LEN\<rparr>) (SIGNATURE_LEN + need) need pm'"
      using 1 off i(2) map(3) [OF r] by (simp add: mem_ready_def)
    with 1 r i map(2) o show ?case by (simp add: Q0)
  next
    case (3 m s')
    with map show ?case by auto
  qed (simp add: Q1)
qed

lemma wp_malloc_sized:
  assumes P: "stable E P" and s: "P s"
    and Q0: "\<And>k s'. over (owns_region False n) E P k s' \<Longrightarrow> k \<noteq> NULL \<Longrightarrow> Q k s'" and Q1: "\<And>s'. P s' \<Longrightarrow> Q NULL s'"
  shows "wp (malloc_aligned E n s) Q"
proof -
  have ok: "ledger_ok s" by (rule stable_ledger [OF P s])
  have new: "over (owns_region False n) E P k s'"
    if "ledger_ok s'" "fresh k s" "mem s' = (mem s)(k \<mapsto> O_bytes (replicate n 0))" "acct s' = acct s" for k s'
  proof (rule region_scope.push [where P = P and s = s and B = "{k}" and R = "{#}", OF s that(1)])
    show "owns_region False n k {k} {#} s'" using fresh_obj_at [OF that(2,3)] by (auto simp: owns_region_def)
  qed (rule created_one [OF that(2,3)], simp add: that(4))
  show ?thesis
    using ok unfolding malloc_aligned_def
    by (auto simp: fresh_def obj_at_def intro!: wp_ext wp_malloc wp_store Q0 Q1 new stable_same [OF P s])
qed

lemma client_need: "HELLO_T_SIZE = (if (0 :: nat) = 0 then HELLO_T_SIZE else 0)" "HELLO_T_SIZE < 4096"
  and server_need: "KILOBYTE = (if KILOBYTE = 0 then HELLO_T_SIZE else KILOBYTE)" "KILOBYTE < 4096" "KILOBYTE \<noteq> 0"
  by (simp_all add: hello_t_size KILOBYTE_def)

lemma wp_client_mem:
  assumes P: "stable E P" and s: "P s" and fits: "file_fits E path HELLO_T_SIZE pm"
    and Q0: "\<And>m n pm' s'. over_mem m n E P s' \<Longrightarrow> mem_ready m n HELLO_T_SIZE pm' \<Longrightarrow> Q (Inr (m, pm')) s'"
    and Q1: "\<And>ret s'. P s' \<Longrightarrow> ret \<noteq> 0 \<Longrightarrow> Q (Inl ret) s'"
  shows "wp (client_mem E path pm s) Q"
proof -
  have init: "wp (mem_store m 0 (write_hello_str en) pm t) (\<lambda>pm'. Q (Inr (m, pm')))"
    if "over_mem m HELLO_T_SIZE E P t" "cm_is_pmem m = 0" "cm_data_offset m = 0" "cm_mr_ptr m \<noteq> NULL" for m t
    by (rule wp_mem_store [where P = "over_mem m HELLO_T_SIZE E P", OF that(1) sized_top])
       (use that in \<open>auto simp: mem_ready_def intro!: Q0\<close>)
  show ?thesis
  proof (cases path)
    case None
    then show ?thesis
      by (auto simp: client_mem_def Let_def no_mem_def intro!: wp_malloc_sized [OF P s] init Q1)
  next
    case (Some p)
    with fits have f: "file_fits E (Some p) HELLO_T_SIZE pm" by simp
    show ?thesis
      unfolding client_mem_def Let_def Some option.case wp_bind
      by (rule wp_map_with_signature [OF P s f client_need(1)])
         (auto simp: client_need(2) release_no_mem mem_ready_def intro!: Q0 Q1)
  qed
qed

lemma wp_server_mem:
  assumes P: "stable E P" and s: "P s" and fits: "file_fits E path KILOBYTE pm"
    and Q0: "\<And>m n pm' s'. over_mem m n E P s' \<Longrightarrow> mem_ready m n KILOBYTE pm' \<Longrightarrow> Q (Inr (m, pm')) s'"
    and Q1: "\<And>ret s'. P s' \<Longrightarrow> ret \<noteq> 0 \<Longrightarrow> Q (Inl ret) s'"
  shows "wp (server_mem E path pm s) Q"
proof (cases path)
  case None
  then show ?thesis
    by (auto simp: server_mem_def no_mem_def mem_ready_def intro!: wp_malloc_sized [OF P s] Q0 [where n = KILOBYTE] Q1)
next
  case (Some p)
  with fits have f: "file_fits E (Some p) KILOBYTE pm" by simp
  show ?thesis
    unfolding server_mem_def Some option.case wp_bind
    by (rule wp_map_with_signature [OF P s f server_need(1)])
       (auto simp: server_need(2,3) release_no_mem mem_ready_def intro!: Q0 Q1)
qed

lemma wp_advise_mem:
  assumes "P s" and "stable E P" and "live P mr O_mr_local" and Q: "\<And>r s'. P s' \<Longrightarrow> Q r s'"
  shows "wp (advise_mem E path m mr s) Q"
  using liveD [OF assms(3,1)] stable_ledger [OF assms(2,1)] assms(1)
  by (auto simp: advise_mem_def rpma_mr_advise_def load_mr_local_def deref_def obj_at_def
      intro!: wp_ext Q stable_same [OF assms(2,1)])

lemma wp_common_data_of:
  assumes "P s" and "live P mr O_mr_local" and Q: "\<And>r. Q r s"
  shows "wp (common_data_of mr off s) Q"
proof -
  from liveD [OF assms(2,1)] obtain m where m: "obj_at mr (O_mr_local m) s" by blast
  then show ?thesis
    using rpma_mr_get_descriptor_eq [OF m, of "replicate 24 0"] obj_at_nonnull [OF m] Q
    by (simp add: common_data_of_def rpma_mr_get_descriptor_size_def RPMA_MR_DESC_SIZE_def)
qed

lemma wp_remote_from_data:
  assumes P: "stable E P" and s: "P s" and d: "pdata_ok d s" "\<not> pdata_len d < SIZEOF_COMMON_DATA"
    and Q0: "\<And>k off s'. over (owns_plain O_mr_remote) E P k s' \<Longrightarrow> Q (0, k, off) s'"
    and Q1: "\<And>ret k off s'. P s' \<Longrightarrow> ret \<noteq> 0 \<Longrightarrow> Q (ret, k, off) s'"
  shows "wp (remote_from_data E d s) Q"
proof -
  obtain bs where b: "bytes_at (pdata_ptr d) s = Some bs" "28 \<le> length bs" by (rule common_data_bytes [OF d])
  then show ?thesis
    by (auto simp: remote_from_data_def read_bytes_def intro!: wp_push_mr_remote [OF P s] Q0 Q1)
qed

lemma wp_read_completed:
  assumes "P s" and "stable E P" and "conn_live P conn cq" and "\<And>r s'. P s' \<Longrightarrow> Q r s'"
  shows "wp (read_completed E cq wc s) Q"
  unfolding read_completed_def Let_def
  by (auto intro!: wp_cq_wait [where P = P, OF assms(1-3)] wp_get_wc [where P = P, OF _ assms(2,3)] assms(4))

definition ep_live :: "(st \<Rightarrow> bool) \<Rightarrow> ptr \<Rightarrow> ptr \<Rightarrow> bool" where
  "ep_live P ep peer \<longleftrightarrow> (\<forall>t. P t \<longrightarrow> (\<exists>e. obj_at ep (O_ep e) t \<and> ep_peer e = peer))"

lemma ep_live_top: "ep_live (over (owns_ep_of peer) E P ep) ep peer"
  unfolding ep_live_def using over_ep by blast

lemma ep_live_over: "ep_live P ep peer \<Longrightarrow> ep_live (over owns E P j) ep peer"
  unfolding ep_live_def using over_below by blast

lemmas ep_lives = ep_live_top ep_live_over

lemma wp_server_accept_cq:
  assumes "P s" and "stable E P" and "ep_live P ep peer" and "live P peer O_peer" and "cfg = NULL \<or> live P cfg O_conn_cfg"
    and "pdata_arg_ok pdata" and "events_wf E"
    and Q0: "\<And>k q s'. over (owns_conn_cq E q) E P k s' \<Longrightarrow> Q (0, k) s'" and Q1: "\<And>ret k s'. P s' \<Longrightarrow> ret \<noteq> 0 \<Longrightarrow> Q (ret, k) s'"
  shows "wp (server_accept_connection E ep cfg pdata x s) Q"
proof (rule wp_server_accept_connection [OF assms(2,1) _ liveD [OF assms(4)] _ assms(6,7)], goal_cases)
  case 1
  then show ?case using assms(1,3) by (auto simp: ep_live_def)
next
  case 3
  then show ?case using assms(1,5) by (auto simp: live_def load_conn_cfg_def deref_def obj_at_def)
next
  case (4 k s')
  then show ?case by (rule over_some_cq) (rule Q0)
qed (simp_all add: Q1)

end
