(* ===== verification/Read_Volatile.thy ===== *)
theory Read_Volatile
  imports Shared_Memory
begin

text \<open>
  The example \<open>src/examples/02-read-to-volatile\<close>. The server exposes a string; the client of this repository
  reads from two servers, with two sets of variables and two groups of labels: the labels of the first
  group run into those of the second. The second set of variables has the suffix 1 in the source; here
  both are records. Messages and log thresholds are left out.
\<close>

subsection \<open>The client\<close>

record vclient =
  vc_peer :: ptr
  vc_conn :: ptr
  vc_dst_ptr :: ptr
  vc_dst_mr :: ptr
  vc_src_mr :: ptr

definition no_vclient :: vclient where
  "no_vclient = \<lparr>vc_peer = NULL, vc_conn = NULL, vc_dst_ptr = NULL, vc_dst_mr = NULL, vc_src_mr = NULL\<rparr>"

text \<open>The second group of labels.\<close>

definition volatile_err_peer_delete1 :: "env \<Rightarrow> rc \<Rightarrow> vclient \<Rightarrow> st \<Rightarrow> (rc \<times> st) option" where
  "volatile_err_peer_delete1 E ret b s = do {
     (_, s) \<leftarrow> rpma_peer_delete E (Some (vc_peer b)) s;
     Some (ret, s)
   }"

definition volatile_err_mr_free1 :: "env \<Rightarrow> rc \<Rightarrow> vclient \<Rightarrow> st \<Rightarrow> (rc \<times> st) option" where
  "volatile_err_mr_free1 E ret b s = do {
     (_, s) \<leftarrow> free (vc_dst_ptr b) s;
     volatile_err_peer_delete1 E ret b s
   }"

definition volatile_err_mr_dereg1 :: "env \<Rightarrow> rc \<Rightarrow> vclient \<Rightarrow> st \<Rightarrow> (rc \<times> st) option" where
  "volatile_err_mr_dereg1 E ret b s = do {
     (_, s) \<leftarrow> rpma_mr_dereg E (Some (vc_dst_mr b)) s;
     volatile_err_mr_free1 E ret b s
   }"

definition volatile_err_conn_disconnect1 :: "env \<Rightarrow> rc \<Rightarrow> vclient \<Rightarrow> st \<Rightarrow> (rc \<times> st) option" where
  "volatile_err_conn_disconnect1 E ret b s = do {
     (_, s) \<leftarrow> common_disconnect_and_wait_for_conn_close E (vc_conn b) s;
     volatile_err_mr_dereg1 E ret b s
   }"

definition volatile_err_mr_remote_delete1 :: "env \<Rightarrow> rc \<Rightarrow> vclient \<Rightarrow> st \<Rightarrow> (rc \<times> st) option" where
  "volatile_err_mr_remote_delete1 E ret b s = do {
     (_, s) \<leftarrow> rpma_mr_remote_delete (Some (vc_src_mr b)) s;
     volatile_err_conn_disconnect1 E ret b s
   }"

text \<open>The first group.\<close>

definition volatile_err_peer_delete :: "env \<Rightarrow> rc \<Rightarrow> vclient \<Rightarrow> vclient \<Rightarrow> st \<Rightarrow> (rc \<times> st) option" where
  "volatile_err_peer_delete E ret a b s = do {
     (_, s) \<leftarrow> rpma_peer_delete E (Some (vc_peer a)) s;
     volatile_err_mr_remote_delete1 E ret b s
   }"

definition volatile_err_mr_free :: "env \<Rightarrow> rc \<Rightarrow> vclient \<Rightarrow> vclient \<Rightarrow> st \<Rightarrow> (rc \<times> st) option" where
  "volatile_err_mr_free E ret a b s = do {
     (_, s) \<leftarrow> free (vc_dst_ptr a) s;
     volatile_err_peer_delete E ret a b s
   }"

definition volatile_err_mr_dereg :: "env \<Rightarrow> rc \<Rightarrow> vclient \<Rightarrow> vclient \<Rightarrow> st \<Rightarrow> (rc \<times> st) option" where
  "volatile_err_mr_dereg E ret a b s = do {
     (_, s) \<leftarrow> rpma_mr_dereg E (Some (vc_dst_mr a)) s;
     volatile_err_mr_free E ret a b s
   }"

definition volatile_err_conn_disconnect :: "env \<Rightarrow> rc \<Rightarrow> vclient \<Rightarrow> vclient \<Rightarrow> st \<Rightarrow> (rc \<times> st) option" where
  "volatile_err_conn_disconnect E ret a b s = do {
     (_, s) \<leftarrow> common_disconnect_and_wait_for_conn_close E (vc_conn a) s;
     volatile_err_mr_dereg E ret a b s
   }"

definition volatile_err_mr_remote_delete :: "env \<Rightarrow> rc \<Rightarrow> vclient \<Rightarrow> vclient \<Rightarrow> st \<Rightarrow> (rc \<times> st) option" where
  "volatile_err_mr_remote_delete E ret a b s = do {
     (_, s) \<leftarrow> rpma_mr_remote_delete (Some (vc_src_mr a)) s;
     volatile_err_conn_disconnect E ret a b s
   }"

text \<open>Waiting for both reads. The results of the two sides are kept apart, as in the source: \<open>ret\<close> is what the
  program returns, \<open>ret1\<close> only decides where it goes.\<close>

definition first_wc :: "ibv_wc list option \<Rightarrow> ibv_wc \<Rightarrow> ibv_wc" where
  "first_wc wcs wc = (case the wcs of [] \<Rightarrow> wc | w # _ \<Rightarrow> w)"

definition volatile_complete ::
  "env \<Rightarrow> ptr \<Rightarrow> ptr \<Rightarrow> rc \<Rightarrow> vclient \<Rightarrow> vclient \<Rightarrow> ibv_wc \<Rightarrow> ibv_wc \<Rightarrow> st \<Rightarrow> (rc \<times> st) option" where
  "volatile_complete E cq cq1 ret a b wc wc1 s = do {
     (ret, s) \<leftarrow> rpma_cq_wait E cq s;
     if ret \<noteq> 0 then volatile_err_mr_remote_delete E ret a b s
     else do {
       (ret1, s) \<leftarrow> rpma_cq_wait E cq1 s;
       if ret1 \<noteq> 0 then volatile_err_mr_remote_delete1 E ret b s
       else do {
         ((ret, wcs, _), s) \<leftarrow> rpma_cq_get_wc E cq 1 (Some [wc]) None s;
         let wc = first_wc wcs wc;
         if ret \<noteq> 0 then volatile_err_mr_remote_delete E ret a b s
         else do {
           ((ret1, wcs1, _), s) \<leftarrow> rpma_cq_get_wc E cq1 1 (Some [wc1]) None s;
           let wc1 = first_wc wcs1 wc1;
           if ret1 \<noteq> 0 then volatile_err_mr_remote_delete1 E ret b s
           else if wc_status wc \<noteq> IBV_WC_SUCCESS then volatile_err_mr_remote_delete E (- 1) a b s
           else if wc_status wc1 \<noteq> IBV_WC_SUCCESS then volatile_err_mr_remote_delete1 E ret b s
           else if wc_opcode wc \<noteq> IBV_WC_RDMA_READ then volatile_err_mr_remote_delete E (- 1) a b s
           else if wc_opcode wc1 \<noteq> IBV_WC_RDMA_READ then volatile_err_mr_remote_delete1 E ret b s
           else volatile_err_mr_remote_delete E ret a b s
         }
       }
     }
   }"

text \<open>A region that is too large ends the program with the result so far, which is 0.\<close>

definition volatile_read ::
  "env \<Rightarrow> rc \<Rightarrow> vclient \<Rightarrow> vclient \<Rightarrow> ibv_wc \<Rightarrow> ibv_wc \<Rightarrow> st \<Rightarrow> (rc \<times> st) option" where
  "volatile_read E ret a b wc wc1 s = do {
     ((ret, src_size), s) \<leftarrow> rpma_mr_remote_get_size (vc_src_mr a) (Some 0) s;
     if ret \<noteq> 0 then volatile_err_mr_remote_delete E ret a b s
     else if the src_size > of_nat KILOBYTE then volatile_err_mr_remote_delete E ret a b s
     else do {
       (ret, s) \<leftarrow> rpma_read E (vc_conn a) (vc_dst_mr a) 0 (vc_src_mr a) 0 (the src_size) RPMA_F_COMPLETION_ALWAYS 0 s;
       if ret \<noteq> 0 then volatile_err_mr_remote_delete E ret a b s
       else do {
         ((ret1, src_size1), s) \<leftarrow> rpma_mr_remote_get_size (vc_src_mr b) (Some 0) s;
         if ret1 \<noteq> 0 then volatile_err_mr_remote_delete1 E ret b s
         else if the src_size1 > of_nat KILOBYTE then volatile_err_mr_remote_delete1 E ret b s
         else do {
           (ret1, s) \<leftarrow> rpma_read E (vc_conn b) (vc_dst_mr b) 0 (vc_src_mr b) 0 (the src_size1) RPMA_F_COMPLETION_ALWAYS 0 s;
           if ret1 \<noteq> 0 then volatile_err_mr_remote_delete1 E ret b s
           else do {
             ((ret, cq), s) \<leftarrow> rpma_conn_get_cq (vc_conn a) (Some NULL) s;
             if ret \<noteq> 0 then volatile_err_mr_remote_delete E ret a b s
             else do {
               ((ret1, cq1), s) \<leftarrow> rpma_conn_get_cq (vc_conn b) (Some NULL) s;
               if ret1 \<noteq> 0 then volatile_err_mr_remote_delete1 E ret b s
               else volatile_complete E (the cq) (the cq1) ret a b wc wc1 s
             }
           }
         }
       }
     }
   }"

text \<open>The region that the private data describes; the length of the private data is not looked at.\<close>

definition described_region :: "env \<Rightarrow> rpma_conn_private_data \<Rightarrow> st \<Rightarrow> ((rc \<times> ptr) \<times> st) option" where
  "described_region E pdata s = do {
     dst_data \<leftarrow> bytes_at (pdata_ptr pdata) s;
     mr_desc_size \<leftarrow> read_bytes 2 1 dst_data;
     ((ret, src_mr), s) \<leftarrow>
       rpma_mr_remote_from_descriptor E (Some (drop 4 dst_data)) (unat (hd mr_desc_size)) (Some NULL) s;
     Some ((ret, the src_mr), s)
   }"

definition volatile_connected ::
  "env \<Rightarrow> rc \<Rightarrow> vclient \<Rightarrow> vclient \<Rightarrow> ibv_wc \<Rightarrow> ibv_wc \<Rightarrow> st \<Rightarrow> (rc \<times> st) option" where
  "volatile_connected E ret a b wc wc1 s = do {
     ((ret, pdata), s) \<leftarrow> rpma_conn_get_private_data (vc_conn a) (Some no_pdata) s;
     if ret \<noteq> 0 then volatile_err_conn_disconnect E ret a b s
     else if pdata_ptr (the pdata) = NULL then volatile_err_conn_disconnect E ret a b s
     else do {
       ((ret1, pdata1), s) \<leftarrow> rpma_conn_get_private_data (vc_conn b) (Some no_pdata) s;
       if ret1 \<noteq> 0 then volatile_err_conn_disconnect1 E ret b s
       else if pdata_ptr (the pdata1) = NULL then volatile_err_conn_disconnect1 E ret b s
       else do {
         ((ret, src_mr), s) \<leftarrow> described_region E (the pdata) s;
         if ret \<noteq> 0 then volatile_err_conn_disconnect E ret a b s
         else do {
           let a = a\<lparr>vc_src_mr := src_mr\<rparr>;
           ((ret1, src_mr1), s) \<leftarrow> described_region E (the pdata1) s;
           if ret1 \<noteq> 0 then volatile_err_conn_disconnect1 E ret b s
           else volatile_read E ret a (b\<lparr>vc_src_mr := src_mr1\<rparr>) wc wc1 s
         }
       }
     }
   }"

definition volatile_registered ::
  "env \<Rightarrow> string \<Rightarrow> string \<Rightarrow> string \<Rightarrow> string \<Rightarrow> rc \<Rightarrow> vclient \<Rightarrow> vclient \<Rightarrow> ibv_wc \<Rightarrow> ibv_wc \<Rightarrow> st \<Rightarrow> (rc \<times> st) option" where
  "volatile_registered E addr port addr1 port1 ret a b wc wc1 s = do {
     ((ret, conn), s) \<leftarrow> client_connect E (vc_peer a) addr port NULL None NULL s;
     if ret \<noteq> 0 then volatile_err_mr_dereg E ret a b s
     else do {
       let a = a\<lparr>vc_conn := conn\<rparr>;
       ((ret1, conn1), s) \<leftarrow> client_connect E (vc_peer b) addr1 port1 NULL None NULL s;
       if ret1 \<noteq> 0 then volatile_err_mr_dereg1 E ret b s
       else volatile_connected E ret a (b\<lparr>vc_conn := conn1\<rparr>) wc wc1 s
     }
   }"

definition volatile_client_run ::
  "env \<Rightarrow> string \<Rightarrow> string \<Rightarrow> string \<Rightarrow> string \<Rightarrow> ibv_wc \<Rightarrow> ibv_wc \<Rightarrow> st \<Rightarrow> (rc \<times> st) option" where
  "volatile_client_run E addr port addr1 port1 wc wc1 s = do {
     let a = no_vclient;
     let b = no_vclient;
     ((ret, peer), s) \<leftarrow> common_peer_via_address E addr RPMA_UTIL_IBV_CONTEXT_REMOTE NULL s;
     if ret \<noteq> 0 then Some (ret, s)
     else do {
       let a = a\<lparr>vc_peer := peer\<rparr>;
       ((ret1, peer1), s) \<leftarrow> common_peer_via_address E addr1 RPMA_UTIL_IBV_CONTEXT_REMOTE NULL s;
       if ret1 \<noteq> 0 then Some (ret1, s)
       else do {
         let b = b\<lparr>vc_peer := peer1\<rparr>;
         (dst_ptr, s) \<leftarrow> malloc_aligned E KILOBYTE s;
         if dst_ptr = NULL then volatile_err_peer_delete E (- 1) a b s
         else do {
           let a = a\<lparr>vc_dst_ptr := dst_ptr\<rparr>;
           (dst_ptr1, s) \<leftarrow> malloc_aligned E KILOBYTE s;
           if dst_ptr1 = NULL then volatile_err_peer_delete E ret a b s
           else do {
             let b = b\<lparr>vc_dst_ptr := dst_ptr1\<rparr>;
             ((ret, dst_mr), s) \<leftarrow> rpma_mr_reg E peer (of_nat dst_ptr) (of_nat KILOBYTE) RPMA_MR_USAGE_READ_DST (Some NULL) s;
             if ret \<noteq> 0 then volatile_err_mr_free E ret a b s
             else do {
               let a = a\<lparr>vc_dst_mr := the dst_mr\<rparr>;
               ((ret1, dst_mr1), s) \<leftarrow> rpma_mr_reg E peer1 (of_nat dst_ptr1) (of_nat KILOBYTE) RPMA_MR_USAGE_READ_DST (Some NULL) s;
               if ret1 \<noteq> 0 then volatile_err_mr_free E ret a b s
               else volatile_registered E addr port addr1 port1 ret a (b\<lparr>vc_dst_mr := the dst_mr1\<rparr>) wc wc1 s
             }
           }
         }
       }
     }
   }"

definition volatile_client_main :: "env \<Rightarrow> ibv_wc \<Rightarrow> ibv_wc \<Rightarrow> st \<Rightarrow> (rc \<times> st) option" where
  "volatile_client_main E wc wc1 s =
     volatile_client_run E ''192.168.101.19'' ''7777'' ''192.168.103.17'' ''8888'' wc wc1 s"

subsection \<open>The server\<close>

text \<open>The characters of the string and the terminator.\<close>

definition HELLO_CLIENT :: "u8 list" where
  "HELLO_CLIENT = [72, 101, 108, 108, 111, 32, 99, 108, 105, 101, 110, 116, 33, 0]"

definition volatile_server_err_peer_delete :: "env \<Rightarrow> rc \<Rightarrow> ptr \<Rightarrow> st \<Rightarrow> (rc \<times> st) option" where
  "volatile_server_err_peer_delete E ret peer s = do {
     (_, s) \<leftarrow> rpma_peer_delete E (Some peer) s;
     Some (ret, s)
   }"

definition volatile_server_err_ep_shutdown :: "env \<Rightarrow> rc \<Rightarrow> ptr \<Rightarrow> ptr \<Rightarrow> st \<Rightarrow> (rc \<times> st) option" where
  "volatile_server_err_ep_shutdown E ret ep peer s = do {
     (_, s) \<leftarrow> rpma_ep_shutdown E (Some ep) s;
     volatile_server_err_peer_delete E ret peer s
   }"

definition volatile_server_err_mr_free :: "env \<Rightarrow> rc \<Rightarrow> ptr \<Rightarrow> ptr \<Rightarrow> ptr \<Rightarrow> st \<Rightarrow> (rc \<times> st) option" where
  "volatile_server_err_mr_free E ret mr_ptr ep peer s = do {
     (_, s) \<leftarrow> free mr_ptr s;
     volatile_server_err_ep_shutdown E ret ep peer s
   }"

definition volatile_server_err_mr_dereg :: "env \<Rightarrow> rc \<Rightarrow> ptr \<Rightarrow> ptr \<Rightarrow> ptr \<Rightarrow> ptr \<Rightarrow> st \<Rightarrow> (rc \<times> st) option" where
  "volatile_server_err_mr_dereg E ret mr mr_ptr ep peer s = do {
     (_, s) \<leftarrow> rpma_mr_dereg E (Some mr) s;
     volatile_server_err_mr_free E ret mr_ptr ep peer s
   }"

definition volatile_server_registered :: "env \<Rightarrow> ptr \<Rightarrow> ptr \<Rightarrow> ptr \<Rightarrow> ptr \<Rightarrow> ptr \<Rightarrow> st \<Rightarrow> (rc \<times> st) option" where
  "volatile_server_registered E data mr mr_ptr ep peer s = do {
     ((ret, _), s) \<leftarrow> common_data_of mr 0 s;
     if ret \<noteq> 0 then volatile_server_err_mr_dereg E ret mr mr_ptr ep peer s
     else do {
       let pdata = \<lparr>pdata_ptr = data, pdata_len = SIZEOF_COMMON_DATA\<rparr>;
       ((ret, conn), s) \<leftarrow> server_accept_connection E ep NULL (Some pdata) NULL s;
       if ret \<noteq> 0 then volatile_server_err_mr_dereg E ret mr mr_ptr ep peer s
       else do {
         (_, s) \<leftarrow> common_wait_for_conn_close_and_disconnect E conn s;
         volatile_server_err_mr_dereg E ret mr mr_ptr ep peer s
       }
     }
   }"

definition volatile_server_main :: "env \<Rightarrow> string \<Rightarrow> string \<Rightarrow> ptr \<Rightarrow> st \<Rightarrow> (rc \<times> st) option" where
  "volatile_server_main E addr port data s = do {
     ((ret, peer), s) \<leftarrow> common_peer_via_address E addr RPMA_UTIL_IBV_CONTEXT_LOCAL NULL s;
     if ret \<noteq> 0 then Some (ret, s)
     else do {
       ((ret, ep), s) \<leftarrow> rpma_ep_listen E peer (Some addr) (Some port) (Some NULL) s;
       if ret \<noteq> 0 then volatile_server_err_peer_delete E ret peer s
       else do {
         let mr_size = length HELLO_CLIENT;
         (mr_ptr, s) \<leftarrow> malloc_aligned E mr_size s;
         if mr_ptr = NULL then volatile_server_err_ep_shutdown E (- 1) (the ep) peer s
         else do {
           (_, s) \<leftarrow> store mr_ptr (O_bytes HELLO_CLIENT) s;
           ((ret, mr), s) \<leftarrow> rpma_mr_reg E peer (of_nat mr_ptr) (of_nat mr_size) RPMA_MR_USAGE_READ_SRC (Some NULL) s;
           if ret \<noteq> 0 then volatile_server_err_mr_free E ret mr_ptr (the ep) peer s
           else volatile_server_registered E data (the mr) mr_ptr (the ep) peer s
         }
       }
     }
   }"

subsection \<open>What the programs leave\<close>

text \<open>The second group of labels gives back what belongs to the second server and returns the result of the
  first; whatever else is held stays.\<close>

abbreviation "vol_buf E P peer k \<equiv> over (owns_plain O_bytes) E (over owns_peer E P peer) k"
abbreviation "vol_mr E P peer k mr \<equiv> over owns_mr E (vol_buf E P peer k) mr"
abbreviation "vol_conn E P peer k mr q conn \<equiv> over (owns_conn_cq E q) E (vol_mr E P peer k mr) conn"

lemma wp_volatile_err_peer_delete1:
  assumes "over owns_peer E P (vc_peer b) s" and "stable E P" and "\<And>s'. P s' \<Longrightarrow> Q ret s'"
  shows "wp (volatile_err_peer_delete1 E ret b s) Q"
  using assms by (auto simp: volatile_err_peer_delete1_def intro!: peer_scope.wp_pop)

lemma wp_volatile_err_mr_free1:
  assumes "vol_buf E P (vc_peer b) (vc_dst_ptr b) s" and "stable E P" and "\<And>s'. P s' \<Longrightarrow> Q ret s'"
  shows "wp (volatile_err_mr_free1 E ret b s) Q"
  using assms by (auto simp: volatile_err_mr_free1_def intro!: wp_pop_free peer_scope.stable_over wp_volatile_err_peer_delete1)

lemma wp_volatile_err_mr_dereg1:
  assumes "vol_mr E P (vc_peer b) (vc_dst_ptr b) (vc_dst_mr b) s" and "stable E P" and "\<And>s'. P s' \<Longrightarrow> Q ret s'"
  shows "wp (volatile_err_mr_dereg1 E ret b s) Q"
  using assms by (auto simp: volatile_err_mr_dereg1_def intro!: mr_scope.wp_pop plain_scope.stable_over wp_volatile_err_mr_free1)

lemma wp_volatile_err_conn_disconnect1:
  assumes "vol_conn E P (vc_peer b) (vc_dst_ptr b) (vc_dst_mr b) q (vc_conn b) s" and "stable E P" and "events_wf E" and "\<And>s'. P s' \<Longrightarrow> Q ret s'"
  shows "wp (volatile_err_conn_disconnect1 E ret b s) Q"
  unfolding volatile_err_conn_disconnect1_def
  by (auto intro!: wp_close_cq [OF assms(1) mr_scope.stable_over assms(3)] wp_volatile_err_mr_dereg1 [OF _ assms(2)] assms(4))

lemma wp_volatile_err_mr_remote_delete1:
  assumes "over (owns_plain O_mr_remote) E (vol_conn E P (vc_peer b) (vc_dst_ptr b) (vc_dst_mr b) q (vc_conn b)) (vc_src_mr b) s"
    and "stable E P" and "events_wf E" and "\<And>s'. P s' \<Longrightarrow> Q ret s'"
  shows "wp (volatile_err_mr_remote_delete1 E ret b s) Q"
  unfolding volatile_err_mr_remote_delete1_def
  by (auto intro!: wp_pop_mr_remote [OF assms(1) cq_scope.stable_over] wp_volatile_err_conn_disconnect1 [OF _ assms(2,3)] assms(4))

abbreviation "vol_ep E P peer ep \<equiv> over (owns_ep_of peer) E (over owns_peer E P peer) ep"
abbreviation "vol_ep_buf E P peer ep k \<equiv> over (owns_plain O_bytes) E (vol_ep E P peer ep) k"
abbreviation "vol_ep_mr E P peer ep k mr \<equiv> over owns_mr E (vol_ep_buf E P peer ep k) mr"

lemma wp_volatile_server_err_peer_delete:
  assumes "over owns_peer E P peer s" and "stable E P" and "\<And>s'. P s' \<Longrightarrow> Q ret s'"
  shows "wp (volatile_server_err_peer_delete E ret peer s) Q"
  using assms by (auto simp: volatile_server_err_peer_delete_def intro!: peer_scope.wp_pop)

lemma wp_volatile_server_err_ep_shutdown:
  assumes "vol_ep E P peer ep s" and "stable E P" and "\<And>s'. P s' \<Longrightarrow> Q ret s'"
  shows "wp (volatile_server_err_ep_shutdown E ret ep peer s) Q"
  using assms by (auto simp: volatile_server_err_ep_shutdown_def intro!: ep_scope.wp_pop peer_scope.stable_over wp_volatile_server_err_peer_delete)

lemma wp_volatile_server_err_mr_free:
  assumes "vol_ep_buf E P peer ep k s" and "stable E P" and "\<And>s'. P s' \<Longrightarrow> Q ret s'"
  shows "wp (volatile_server_err_mr_free E ret k ep peer s) Q"
  using assms by (auto simp: volatile_server_err_mr_free_def intro!: wp_pop_free ep_scope.stable_over wp_volatile_server_err_ep_shutdown)

lemma wp_volatile_server_err_mr_dereg:
  assumes "vol_ep_mr E P peer ep k mr s" and "stable E P" and "\<And>s'. P s' \<Longrightarrow> Q ret s'"
  shows "wp (volatile_server_err_mr_dereg E ret mr k ep peer s) Q"
  using assms by (auto simp: volatile_server_err_mr_dereg_def intro!: mr_scope.wp_pop plain_scope.stable_over wp_volatile_server_err_mr_free)

lemma wp_volatile_server_registered:
  assumes s: "vol_ep_mr E P peer ep k mr s" and P: "stable E P" and wf: "events_wf E" and data: "data \<noteq> NULL" and Q: "\<And>ret s'. P s' \<Longrightarrow> Q ret s'"
  shows "wp (volatile_server_registered E data mr k ep peer s) Q"
proof -
  let ?P = "vol_ep_mr E P peer ep k mr"
  have l: "live ?P mr O_mr_local" "live ?P peer O_peer" "ep_live ?P ep peer" by (intro lives ep_lives)+
  have pd: "pdata_arg_ok (Some \<lparr>pdata_ptr = data, pdata_len = SIZEOF_COMMON_DATA\<rparr>)"
    using data by (simp add: pdata_arg_ok_def SIZEOF_COMMON_DATA_def)
  show ?thesis
    unfolding volatile_server_registered_def Let_def
    by (auto intro!: wp_common_data_of [where P = ?P, OF s l(1)] wp_server_accept_cq [where P = ?P, OF s mr_scope.stable_over l(3,2) _ pd wf]
        wp_close_cq [OF _ mr_scope.stable_over wf] wp_volatile_server_err_mr_dereg [OF _ P] s Q)
qed

lemma wp_volatile_server_main:
  assumes s: "P s" and P: "stable E P" and wf: "events_wf E" and data: "data \<noteq> NULL" and Q: "\<And>ret s'. P s' \<Longrightarrow> Q ret s'"
  shows "wp (volatile_server_main E addr port data s) Q"
proof -
  have l: "live (over owns_peer E P peer) peer O_peer" "live (vol_ep_buf E P peer ep k) peer O_peer"
    "allows (vol_ep_buf E P peer ep k) k (\<lambda>_. O_bytes x)" for peer ep k x
    by (intro lives allow)+
  show ?thesis
    unfolding volatile_server_main_def Let_def
    by (auto intro!: wp_common_peer_via_address [OF P s] wp_push_ep [OF peer_scope.stable_over _ live_nonnull [OF l(1)]]
        wp_malloc_aligned [OF ep_scope.stable_over] wp_store_allowed [where P = "vol_ep_buf E P peer ep k" for peer ep k, OF _ l(3)]
        wp_push_mr [OF plain_scope.stable_over _ liveD [OF l(2)]] wp_volatile_server_err_peer_delete [OF _ P]
        wp_volatile_server_err_ep_shutdown [OF _ P] wp_volatile_server_err_mr_free [OF _ P] wp_volatile_server_registered [OF _ P wf data] Q)
qed

end
