(* ===== verification/Read_Persistent.thy ===== *)
theory Read_Persistent
  imports Shared_Memory
begin

text \<open>
  The example \<open>src/examples/03-read-to-persistent\<close>: the client exposes its greeting, the server reads it
  into its own memory and makes it persistent; the client then translates the greeting. \<open>data\<close> is the
  address of the structure that is sent as private data, \<open>dma\<close> what the read has placed in the memory
  of the server. Messages and log thresholds are left out.
\<close>

subsection \<open>The client\<close>

definition read_client_err_free :: "env \<Rightarrow> rc \<Rightarrow> common_mem \<Rightarrow> pmem \<Rightarrow> st \<Rightarrow> ((rc \<times> pmem) \<times> st) option" where
  "read_client_err_free E ret m pm s = do {
     (_, s) \<leftarrow> release_mem E m s;
     Some ((ret, pm), s)
   }"

definition read_client_err_peer_delete ::
  "env \<Rightarrow> rc \<Rightarrow> ptr \<Rightarrow> common_mem \<Rightarrow> pmem \<Rightarrow> st \<Rightarrow> ((rc \<times> pmem) \<times> st) option" where
  "read_client_err_peer_delete E ret peer m pm s = do {
     (_, s) \<leftarrow> rpma_peer_delete E (Some peer) s;
     read_client_err_free E ret m pm s
   }"

definition read_client_err_mr_dereg ::
  "env \<Rightarrow> rc \<Rightarrow> ptr \<Rightarrow> ptr \<Rightarrow> common_mem \<Rightarrow> pmem \<Rightarrow> st \<Rightarrow> ((rc \<times> pmem) \<times> st) option" where
  "read_client_err_mr_dereg E ret mr peer m pm s = do {
     (_, s) \<leftarrow> rpma_mr_dereg E (Some mr) s;
     read_client_err_peer_delete E ret peer m pm s
   }"

text \<open>The greeting is at \<open>data_offset\<close>; it is translated in place and made persistent.\<close>

definition translate_mem :: "common_mem \<Rightarrow> pmem \<Rightarrow> st \<Rightarrow> (pmem \<times> st) option" where
  "translate_mem m pm s = do {
     bs \<leftarrow> mem_bytes m pm s;
     let off = unat (cm_data_offset m);
     (pm, s) \<leftarrow> mem_store m off (translate (drop off bs)) pm s;
     Some (mem_persist m off HELLO_T_SIZE pm, s)
   }"

definition read_client_registered ::
  "env \<Rightarrow> string \<Rightarrow> string \<Rightarrow> ptr \<Rightarrow> ptr \<Rightarrow> ptr \<Rightarrow> common_mem \<Rightarrow> pmem \<Rightarrow> st \<Rightarrow> ((rc \<times> pmem) \<times> st) option" where
  "read_client_registered E addr port data mr peer m pm s = do {
     ((ret, _), s) \<leftarrow> common_data_of mr (ucast (cm_data_offset m) + of_nat HELLO_STR_OFFSET) s;
     if ret \<noteq> 0 then read_client_err_mr_dereg E ret mr peer m pm s
     else do {
       let pdata = \<lparr>pdata_ptr = data, pdata_len = SIZEOF_COMMON_DATA\<rparr>;
       ((ret, conn), s) \<leftarrow> client_connect E peer addr port NULL (Some pdata) NULL s;
       if ret \<noteq> 0 then read_client_err_mr_dereg E ret mr peer m pm s
       else do {
         (_, s) \<leftarrow> common_wait_for_conn_close_and_disconnect E conn s;
         (pm, s) \<leftarrow> translate_mem m pm s;
         read_client_err_mr_dereg E ret mr peer m pm s
       }
     }
   }"

definition read_client_main ::
  "env \<Rightarrow> string \<Rightarrow> string \<Rightarrow> string option \<Rightarrow> ptr \<Rightarrow> pmem \<Rightarrow> st \<Rightarrow> ((rc \<times> pmem) \<times> st) option" where
  "read_client_main E addr port path data pm s = do {
     (r, s) \<leftarrow> client_mem E path pm s;
     (case r of
        Inl ret \<Rightarrow> Some ((ret, pm), s)
      | Inr (m, pm) \<Rightarrow> do {
          ((ret, peer), s) \<leftarrow> common_peer_via_address E addr RPMA_UTIL_IBV_CONTEXT_REMOTE NULL s;
          if ret \<noteq> 0 then read_client_err_free E ret m pm s
          else do {
            ((ret, mr), s) \<leftarrow> rpma_mr_reg E peer (of_nat (cm_mr_ptr m)) (cm_mr_size m) RPMA_MR_USAGE_READ_SRC (Some NULL) s;
            if ret \<noteq> 0 then read_client_err_peer_delete E ret peer m pm s
            else read_client_registered E addr port data (the mr) peer m pm s
          }
        })
   }"

subsection \<open>The server\<close>

definition read_server_err_free :: "env \<Rightarrow> rc \<Rightarrow> common_mem \<Rightarrow> pmem \<Rightarrow> st \<Rightarrow> ((rc \<times> pmem) \<times> st) option" where
  "read_server_err_free E ret m pm s = do {
     (_, s) \<leftarrow> release_mem E m s;
     Some ((ret, pm), s)
   }"

definition read_server_err_peer_delete ::
  "env \<Rightarrow> rc \<Rightarrow> ptr \<Rightarrow> common_mem \<Rightarrow> pmem \<Rightarrow> st \<Rightarrow> ((rc \<times> pmem) \<times> st) option" where
  "read_server_err_peer_delete E ret peer m pm s = do {
     (_, s) \<leftarrow> rpma_peer_delete E (Some peer) s;
     read_server_err_free E ret m pm s
   }"

definition read_server_err_ep_shutdown ::
  "env \<Rightarrow> rc \<Rightarrow> ptr \<Rightarrow> ptr \<Rightarrow> common_mem \<Rightarrow> pmem \<Rightarrow> st \<Rightarrow> ((rc \<times> pmem) \<times> st) option" where
  "read_server_err_ep_shutdown E ret ep peer m pm s = do {
     (_, s) \<leftarrow> rpma_ep_shutdown E (Some ep) s;
     read_server_err_peer_delete E ret peer m pm s
   }"

definition read_server_err_mr_dereg ::
  "env \<Rightarrow> rc \<Rightarrow> ptr \<Rightarrow> ptr \<Rightarrow> ptr \<Rightarrow> common_mem \<Rightarrow> pmem \<Rightarrow> st \<Rightarrow> ((rc \<times> pmem) \<times> st) option" where
  "read_server_err_mr_dereg E ret mr ep peer m pm s = do {
     (_, s) \<leftarrow> rpma_mr_dereg E (Some mr) s;
     read_server_err_ep_shutdown E ret ep peer m pm s
   }"

text \<open>The result of closing the connection takes the place of the result so far.\<close>

definition read_server_err_disconnect ::
  "env \<Rightarrow> rc \<Rightarrow> ptr \<Rightarrow> ptr \<Rightarrow> ptr \<Rightarrow> ptr \<Rightarrow> common_mem \<Rightarrow> pmem \<Rightarrow> st \<Rightarrow> ((rc \<times> pmem) \<times> st) option" where
  "read_server_err_disconnect E ret conn mr ep peer m pm s = do {
     ((ret, _), s) \<leftarrow> common_disconnect_and_wait_for_conn_close E conn s;
     read_server_err_mr_dereg E ret mr ep peer m pm s
   }"

definition read_server_err_mr_remote_delete ::
  "env \<Rightarrow> rc \<Rightarrow> ptr \<Rightarrow> ptr \<Rightarrow> ptr \<Rightarrow> ptr \<Rightarrow> ptr \<Rightarrow> common_mem \<Rightarrow> pmem \<Rightarrow> st \<Rightarrow> ((rc \<times> pmem) \<times> st) option" where
  "read_server_err_mr_remote_delete E ret src_mr conn mr ep peer m pm s = do {
     (_, s) \<leftarrow> rpma_mr_remote_delete (Some src_mr) s;
     read_server_err_disconnect E ret conn mr ep peer m pm s
   }"

text \<open>Reading the greeting: what has arrived when the completion is there is then made persistent.\<close>

definition read_greeting ::
  "env \<Rightarrow> dma \<Rightarrow> ptr \<Rightarrow> ptr \<Rightarrow> u16 \<Rightarrow> ptr \<Rightarrow> common_mem \<Rightarrow> pmem \<Rightarrow> ibv_wc \<Rightarrow> st \<Rightarrow> ((rc \<times> pmem) \<times> st) option" where
  "read_greeting E dma conn src_mr src_off mr m pm wc s = do {
     (ret, s) \<leftarrow> rpma_read E conn mr (cm_data_offset m) src_mr (ucast src_off) (of_nat KILOBYTE) RPMA_F_COMPLETION_ALWAYS 0 s;
     if ret \<noteq> 0 then Some ((ret, pm), s)
     else do {
       ((ret, cq), s) \<leftarrow> rpma_conn_get_cq conn (Some NULL) s;
       if ret \<noteq> 0 then Some ((ret, pm), s)
       else do {
         (ret, s) \<leftarrow> read_completed E (the cq) wc s;
         if ret \<noteq> 0 then Some ((ret, pm), s)
         else do {
           let off = unat (cm_data_offset m);
           (pm, s) \<leftarrow> mem_store m off (take KILOBYTE (dma (trace s))) pm s;
           Some ((0, mem_persist m off KILOBYTE pm), s)
         }
       }
     }
   }"

definition read_server_connected ::
  "env \<Rightarrow> dma \<Rightarrow> ptr \<Rightarrow> ptr \<Rightarrow> ptr \<Rightarrow> ptr \<Rightarrow> common_mem \<Rightarrow> pmem \<Rightarrow> ibv_wc \<Rightarrow> st \<Rightarrow> ((rc \<times> pmem) \<times> st) option" where
  "read_server_connected E dma conn mr ep peer m pm wc s = do {
     ((ret, pdata), s) \<leftarrow> rpma_conn_get_private_data conn (Some no_pdata) s;
     if ret \<noteq> 0 \<or> pdata_len (the pdata) < SIZEOF_COMMON_DATA
     then read_server_err_disconnect E ret conn mr ep peer m pm s
     else do {
       ((ret, src_mr, src_off), s) \<leftarrow> remote_from_data E (the pdata) s;
       if ret \<noteq> 0 then read_server_err_disconnect E ret conn mr ep peer m pm s
       else do {
         ((ret, pm), s) \<leftarrow> read_greeting E dma conn src_mr src_off mr m pm wc s;
         read_server_err_mr_remote_delete E ret src_mr conn mr ep peer m pm s
       }
     }
   }"

definition read_server_listening ::
  "env \<Rightarrow> dma \<Rightarrow> string option \<Rightarrow> ptr \<Rightarrow> ptr \<Rightarrow> common_mem \<Rightarrow> pmem \<Rightarrow> ibv_wc \<Rightarrow> st \<Rightarrow> ((rc \<times> pmem) \<times> st) option" where
  "read_server_listening E dma path ep peer m pm wc s = do {
     ((ret, mr), s) \<leftarrow> rpma_mr_reg E peer (of_nat (cm_mr_ptr m)) (cm_mr_size m) RPMA_MR_USAGE_READ_DST (Some NULL) s;
     if ret \<noteq> 0 then read_server_err_ep_shutdown E ret ep peer m pm s
     else do {
       (ret, s) \<leftarrow> advise_mem E path m (the mr) s;
       if ret \<noteq> 0 then read_server_err_mr_dereg E ret (the mr) ep peer m pm s
       else do {
         ((ret, conn), s) \<leftarrow> server_accept_connection E ep NULL None NULL s;
         if ret \<noteq> 0 then read_server_err_mr_dereg E ret (the mr) ep peer m pm s
         else read_server_connected E dma conn (the mr) ep peer m pm wc s
       }
     }
   }"

definition read_server_main ::
  "env \<Rightarrow> dma \<Rightarrow> string \<Rightarrow> string \<Rightarrow> string option \<Rightarrow> pmem \<Rightarrow> ibv_wc \<Rightarrow> st \<Rightarrow> ((rc \<times> pmem) \<times> st) option" where
  "read_server_main E dma addr port path pm wc s = do {
     (r, s) \<leftarrow> server_mem E path pm s;
     (case r of
        Inl ret \<Rightarrow> Some ((ret, pm), s)
      | Inr (m, pm) \<Rightarrow> do {
          ((ret, peer), s) \<leftarrow> common_peer_via_address E addr RPMA_UTIL_IBV_CONTEXT_LOCAL NULL s;
          if ret \<noteq> 0 then read_server_err_free E ret m pm s
          else do {
            ((ret, ep), s) \<leftarrow> rpma_ep_listen E peer (Some addr) (Some port) (Some NULL) s;
            if ret \<noteq> 0 then read_server_err_peer_delete E ret peer m pm s
            else read_server_listening E dma path (the ep) peer m pm wc s
          }
        })
   }"

subsection \<open>What the programs leave\<close>

abbreviation "reg_peer m n E P peer \<equiv> over owns_peer E (over_mem m n E P) peer"
abbreviation "reg_peer_mr m n E P peer mr \<equiv> over owns_mr E (reg_peer m n E P peer) mr"

lemma wp_read_client_err_free:
  assumes "over_mem m n E P s" and "stable E P" and "cm_mr_ptr m \<noteq> NULL" and "\<And>s'. P s' \<Longrightarrow> Q (ret, pm) s'"
  shows "wp (read_client_err_free E ret m pm s) Q"
  using assms by (auto simp: read_client_err_free_def intro!: wp_release_mem)

lemma wp_read_client_err_peer_delete:
  assumes "reg_peer m n E P peer s" and "stable E P" and "cm_mr_ptr m \<noteq> NULL" and "\<And>s'. P s' \<Longrightarrow> Q (ret, pm) s'"
  shows "wp (read_client_err_peer_delete E ret peer m pm s) Q"
  using assms by (auto simp: read_client_err_peer_delete_def intro!: peer_scope.wp_pop region_scope.stable_over wp_read_client_err_free)

lemma wp_read_client_err_mr_dereg:
  assumes "reg_peer_mr m n E P peer mr s" and "stable E P" and "cm_mr_ptr m \<noteq> NULL" and "\<And>s'. P s' \<Longrightarrow> Q (ret, pm) s'"
  shows "wp (read_client_err_mr_dereg E ret mr peer m pm s) Q"
  using assms by (auto simp: read_client_err_mr_dereg_def intro!: mr_scope.wp_pop peer_scope.stable_over wp_read_client_err_peer_delete)

lemma wp_mem_bytes:
  assumes "P s" and "sized P m n" and "\<And>bs. wp (f bs) Q"
  shows "wp (Option.bind (mem_bytes m pm s) f) Q"
  using assms by (cases "cm_is_pmem m = 0") (fastforce simp: mem_bytes_def sized_def bytes_at_def deref_def obj_at_def)+

lemma wp_translate_mem:
  assumes "P s" and "sized P m n" and "mem_ready m n HELLO_T_SIZE pm" and "\<And>pm' s'. P s' \<Longrightarrow> Q pm' s'"
  shows "wp (translate_mem m pm s) Q"
  unfolding translate_mem_def Let_def
  using assms(3) by (auto simp: mem_ready_def intro!: wp_mem_bytes [OF assms(1,2)] wp_mem_store [where P = P, OF assms(1,2)] assms(4))

lemma wp_read_client_registered:
  assumes s: "reg_peer_mr m n E P peer mr s" and P: "stable E P" and wf: "events_wf E" and data: "data \<noteq> NULL"
    and m: "mem_ready m n HELLO_T_SIZE pm" and Q: "\<And>ret pm s'. P s' \<Longrightarrow> Q (ret, pm) s'"
  shows "wp (read_client_registered E addr port data mr peer m pm s) Q"
proof -
  let ?P = "reg_peer_mr m n E P peer mr"
  have l: "live ?P mr O_mr_local" "live ?P peer O_peer" "sized ?P m n" by (intro lives sizes)+
  have nn: "cm_mr_ptr m \<noteq> NULL" using m by (simp add: mem_ready_def)
  have pd: "pdata_arg_ok (Some \<lparr>pdata_ptr = data, pdata_len = SIZEOF_COMMON_DATA\<rparr>)"
    using data by (simp add: pdata_arg_ok_def SIZEOF_COMMON_DATA_def)
  show ?thesis
    unfolding read_client_registered_def Let_def
    by (auto intro!: wp_common_data_of [where P = ?P, OF s l(1)] wp_client_connect_cq [where P = ?P, OF s mr_scope.stable_over l(2) _ pd wf]
        wp_close_cq [OF _ mr_scope.stable_over wf] wp_translate_mem [where P = ?P, OF _ l(3) m] s wp_read_client_err_mr_dereg [OF _ P nn] Q)
qed

lemma wp_read_client_main:
  assumes s: "P s" and P: "stable E P" and wf: "events_wf E" and data: "data \<noteq> NULL"
    and fits: "file_fits E path HELLO_T_SIZE pm" and Q: "\<And>ret pm s'. P s' \<Longrightarrow> Q (ret, pm) s'"
  shows "wp (read_client_main E addr port path data pm s) Q"
  unfolding read_client_main_def wp_bind
proof (rule wp_client_mem [OF P s fits], goal_cases)
  case (1 m n pm' s')
  then have nn: "cm_mr_ptr m \<noteq> NULL" by (simp add: mem_ready_def)
  have l: "live (reg_peer m n E P peer) peer O_peer" for peer by (intro lives)
  from 1 show ?case
    by (auto intro!: wp_common_peer_via_address [OF region_scope.stable_over 1(1)] wp_push_mr [OF peer_scope.stable_over _ liveD [OF l]]
        wp_read_client_err_free [OF _ P nn] wp_read_client_err_peer_delete [OF _ P nn] wp_read_client_registered [OF _ P wf data 1(2)] Q)
qed (simp add: Q)

abbreviation "reg_ep m n E P peer ep \<equiv> over (owns_ep_of peer) E (reg_peer m n E P peer) ep"
abbreviation "reg_mr m n E P peer ep mr \<equiv> over owns_mr E (reg_ep m n E P peer ep) mr"
abbreviation "reg_conn m n E P peer ep mr q conn \<equiv> over (owns_conn_cq E q) E (reg_mr m n E P peer ep mr) conn"

lemma wp_read_server_err_free:
  assumes "over_mem m n E P s" and "stable E P" and "cm_mr_ptr m \<noteq> NULL" and "\<And>s'. P s' \<Longrightarrow> Q (ret, pm) s'"
  shows "wp (read_server_err_free E ret m pm s) Q"
  using assms by (auto simp: read_server_err_free_def intro!: wp_release_mem)

lemma wp_read_server_err_peer_delete:
  assumes "reg_peer m n E P peer s" and "stable E P" and "cm_mr_ptr m \<noteq> NULL" and "\<And>s'. P s' \<Longrightarrow> Q (ret, pm) s'"
  shows "wp (read_server_err_peer_delete E ret peer m pm s) Q"
  using assms by (auto simp: read_server_err_peer_delete_def intro!: peer_scope.wp_pop region_scope.stable_over wp_read_server_err_free)

lemma wp_read_server_err_ep_shutdown:
  assumes "reg_ep m n E P peer ep s" and "stable E P" and "cm_mr_ptr m \<noteq> NULL" and "\<And>s'. P s' \<Longrightarrow> Q (ret, pm) s'"
  shows "wp (read_server_err_ep_shutdown E ret ep peer m pm s) Q"
  using assms by (auto simp: read_server_err_ep_shutdown_def intro!: ep_scope.wp_pop peer_scope.stable_over wp_read_server_err_peer_delete)

lemma wp_read_server_err_mr_dereg:
  assumes "reg_mr m n E P peer ep mr s" and "stable E P" and "cm_mr_ptr m \<noteq> NULL" and "\<And>s'. P s' \<Longrightarrow> Q (ret, pm) s'"
  shows "wp (read_server_err_mr_dereg E ret mr ep peer m pm s) Q"
  using assms by (auto simp: read_server_err_mr_dereg_def intro!: mr_scope.wp_pop ep_scope.stable_over wp_read_server_err_ep_shutdown)

lemma wp_read_server_err_disconnect:
  assumes "reg_conn m n E P peer ep mr q conn s" and "stable E P" and "cm_mr_ptr m \<noteq> NULL" and "events_wf E"
    and "\<And>ret s'. P s' \<Longrightarrow> Q (ret, pm) s'"
  shows "wp (read_server_err_disconnect E ret conn mr ep peer m pm s) Q"
  unfolding read_server_err_disconnect_def
  by (auto intro!: wp_close_cq [OF assms(1) mr_scope.stable_over assms(4)] wp_read_server_err_mr_dereg [OF _ assms(2,3)] assms(5))

lemma wp_read_server_err_mr_remote_delete:
  assumes "over (owns_plain O_mr_remote) E (reg_conn m n E P peer ep mr q conn) r s" and "stable E P" and "cm_mr_ptr m \<noteq> NULL"
    and "events_wf E" and "\<And>ret s'. P s' \<Longrightarrow> Q (ret, pm) s'"
  shows "wp (read_server_err_mr_remote_delete E ret r conn mr ep peer m pm s) Q"
  unfolding read_server_err_mr_remote_delete_def
  by (auto intro!: wp_pop_mr_remote [OF assms(1) cq_scope.stable_over] wp_read_server_err_disconnect [OF _ assms(2-4)] assms(5))

lemma wp_read_greeting:
  assumes s: "P s" and P: "stable E P" and l: "conn_live P conn cq" "live P mr O_mr_local" "live P src_mr O_mr_remote"
    and m: "sized P m n" "mem_ready m n KILOBYTE pm" and Q: "\<And>ret pm s'. P s' \<Longrightarrow> Q (ret, pm) s'"
  shows "wp (read_greeting E dma conn src_mr src_off mr m pm wc s) Q"
  unfolding read_greeting_def Let_def
  using m(2) by (auto simp: mem_ready_def min_def intro!: wp_read [where P = P, OF s P l flags_nonzero(1)] wp_get_cq [where P = P, OF _ l(1)]
      wp_read_completed [where P = P, OF _ P l(1)] wp_mem_store [where P = P, OF _ m(1)] Q)

lemma wp_read_server_connected:
  assumes s: "reg_conn m n E P peer ep mr q conn s" and P: "stable E P" and wf: "events_wf E"
    and m: "mem_ready m n KILOBYTE pm" and Q: "\<And>ret pm s'. P s' \<Longrightarrow> Q (ret, pm) s'"
  shows "wp (read_server_connected E dma conn mr ep peer m pm wc s) Q"
proof -
  let ?P = "reg_conn m n E P peer ep mr q conn"
  let ?R = "over (owns_plain O_mr_remote) E ?P"
  have l: "conn_live ?P conn q" by (intro lives)
  have r: "conn_live (?R k) conn q" "live (?R k) mr O_mr_local" "live (?R k) k O_mr_remote" "sized (?R k) m n" for k by (intro lives sizes)+
  have nn: "cm_mr_ptr m \<noteq> NULL" using m by (simp add: mem_ready_def)
  show ?thesis
    unfolding read_server_connected_def
    by (auto intro!: wp_private_data [where P = ?P, OF s l] wp_remote_from_data [OF cq_scope.stable_over s]
        wp_read_greeting [where P = "?R k" for k, OF _ plain_scope.stable_over r m] s
        wp_read_server_err_disconnect [OF _ P nn wf] wp_read_server_err_mr_remote_delete [OF _ P nn wf] Q)
qed

lemma wp_read_server_listening:
  assumes s: "reg_ep m n E P peer ep s" and P: "stable E P" and wf: "events_wf E"
    and m: "mem_ready m n KILOBYTE pm" and Q: "\<And>ret pm s'. P s' \<Longrightarrow> Q (ret, pm) s'"
  shows "wp (read_server_listening E dma path ep peer m pm wc s) Q"
proof -
  let ?P = "reg_ep m n E P peer ep" and ?M = "reg_mr m n E P peer ep"
  have l: "live ?P peer O_peer" "live (?M k) k O_mr_local" "live (?M k) peer O_peer" "ep_live (?M k) ep peer" for k
    by (intro lives ep_lives)+
  have nn: "cm_mr_ptr m \<noteq> NULL" using m by (simp add: mem_ready_def)
  have pd: "pdata_arg_ok None" by (simp add: pdata_arg_ok_def)
  show ?thesis
    unfolding read_server_listening_def
    by (auto intro!: wp_push_mr [OF ep_scope.stable_over s liveD [OF l(1) s]] wp_advise_mem [where P = "?M k" for k, OF _ mr_scope.stable_over l(2)]
        wp_server_accept_cq [where P = "?M k" for k, OF _ mr_scope.stable_over l(4,3) _ pd wf]
        wp_read_server_err_ep_shutdown [OF _ P nn] wp_read_server_err_mr_dereg [OF _ P nn] wp_read_server_connected [OF _ P wf m] Q)
qed

lemma wp_read_server_main:
  assumes s: "P s" and P: "stable E P" and wf: "events_wf E"
    and fits: "file_fits E path KILOBYTE pm" and Q: "\<And>ret pm s'. P s' \<Longrightarrow> Q (ret, pm) s'"
  shows "wp (read_server_main E dma addr port path pm wc s) Q"
  unfolding read_server_main_def wp_bind
proof (rule wp_server_mem [OF P s fits], goal_cases)
  case (1 m n pm' s')
  then have nn: "cm_mr_ptr m \<noteq> NULL" by (simp add: mem_ready_def)
  have l: "live (reg_peer m n E P peer) peer O_peer" for peer by (intro lives)
  from 1 show ?case
    by (auto intro!: wp_common_peer_via_address [OF region_scope.stable_over 1(1)] wp_push_ep [OF peer_scope.stable_over _ live_nonnull [OF l]]
        wp_read_server_err_free [OF _ P nn] wp_read_server_err_peer_delete [OF _ P nn] wp_read_server_listening [OF _ P wf 1(2)] Q)
qed (simp add: Q)

end
