(* ===== verification/Write_Persistent.thy ===== *)
theory Write_Persistent
  imports Read_Persistent
begin

text \<open>
  The example \<open>src/examples/04-write-to-persistent\<close>: the server exposes its memory, the client writes its
  greeting there, reads eight bytes back so that the write is complete, and translates its greeting.
  \<open>raw\<close> is the buffer for the read after the write.
\<close>

subsection \<open>The client\<close>

definition write_client_err_free ::
  "env \<Rightarrow> rc \<Rightarrow> ptr \<Rightarrow> common_mem \<Rightarrow> pmem \<Rightarrow> st \<Rightarrow> ((rc \<times> pmem) \<times> st) option" where
  "write_client_err_free E ret raw m pm s = do {
     (_, s) \<leftarrow> release_mem E m s;
     (_, s) \<leftarrow> (if raw \<noteq> NULL then free raw s else Some ((), s));
     Some ((ret, pm), s)
   }"

definition write_client_err_peer_delete ::
  "env \<Rightarrow> rc \<Rightarrow> ptr \<Rightarrow> ptr \<Rightarrow> common_mem \<Rightarrow> pmem \<Rightarrow> st \<Rightarrow> ((rc \<times> pmem) \<times> st) option" where
  "write_client_err_peer_delete E ret peer raw m pm s = do {
     (_, s) \<leftarrow> rpma_peer_delete E (Some peer) s;
     write_client_err_free E ret raw m pm s
   }"

definition write_client_err_conn_disconnect ::
  "env \<Rightarrow> rc \<Rightarrow> ptr \<Rightarrow> ptr \<Rightarrow> ptr \<Rightarrow> common_mem \<Rightarrow> pmem \<Rightarrow> st \<Rightarrow> ((rc \<times> pmem) \<times> st) option" where
  "write_client_err_conn_disconnect E ret conn peer raw m pm s = do {
     (_, s) \<leftarrow> common_disconnect_and_wait_for_conn_close E conn s;
     write_client_err_peer_delete E ret peer raw m pm s
   }"

definition write_client_err_mr_dereg ::
  "env \<Rightarrow> rc \<Rightarrow> ptr \<Rightarrow> ptr \<Rightarrow> ptr \<Rightarrow> ptr \<Rightarrow> ptr \<Rightarrow> common_mem \<Rightarrow> pmem \<Rightarrow> st \<Rightarrow> ((rc \<times> pmem) \<times> st) option" where
  "write_client_err_mr_dereg E ret src_mr raw_mr conn peer raw m pm s = do {
     (_, s) \<leftarrow> rpma_mr_dereg E (Some src_mr) s;
     (_, s) \<leftarrow> rpma_mr_dereg E (Some raw_mr) s;
     write_client_err_conn_disconnect E ret conn peer raw m pm s
   }"

definition write_client_err_mr_remote_delete ::
  "env \<Rightarrow> rc \<Rightarrow> ptr \<Rightarrow> ptr \<Rightarrow> ptr \<Rightarrow> ptr \<Rightarrow> ptr \<Rightarrow> ptr \<Rightarrow> common_mem \<Rightarrow> pmem \<Rightarrow> st \<Rightarrow> ((rc \<times> pmem) \<times> st) option" where
  "write_client_err_mr_remote_delete E ret dst_mr src_mr raw_mr conn peer raw m pm s = do {
     (_, s) \<leftarrow> rpma_mr_remote_delete (Some dst_mr) s;
     write_client_err_mr_dereg E ret src_mr raw_mr conn peer raw m pm s
   }"

text \<open>Writing the greeting and reading back.\<close>

definition write_greeting ::
  "env \<Rightarrow> ptr \<Rightarrow> ptr \<Rightarrow> u16 \<Rightarrow> ptr \<Rightarrow> ptr \<Rightarrow> common_mem \<Rightarrow> pmem \<Rightarrow> ibv_wc \<Rightarrow> st \<Rightarrow> ((rc \<times> pmem) \<times> st) option" where
  "write_greeting E conn dst_mr dst_offset src_mr raw_mr m pm wc s = do {
     ((ret, dst_size), s) \<leftarrow> rpma_mr_remote_get_size dst_mr (Some 0) s;
     if ret \<noteq> 0 then Some ((ret, pm), s)
     else if the dst_size < of_nat KILOBYTE then Some ((- 1, pm), s)
     else do {
       (ret, s) \<leftarrow> rpma_write E conn dst_mr (ucast dst_offset) src_mr (cm_data_offset m + of_nat HELLO_STR_OFFSET)
         (of_nat KILOBYTE) RPMA_F_COMPLETION_ON_ERROR 0 s;
       if ret \<noteq> 0 then Some ((ret, pm), s)
       else do {
         (ret, s) \<leftarrow> rpma_read E conn raw_mr 0 dst_mr 0 8 RPMA_F_COMPLETION_ALWAYS 0 s;
         if ret \<noteq> 0 then Some ((ret, pm), s)
         else do {
           ((ret, cq), s) \<leftarrow> rpma_conn_get_cq conn (Some NULL) s;
           if ret \<noteq> 0 then Some ((ret, pm), s)
           else do {
             (ret, s) \<leftarrow> read_completed E (the cq) wc s;
             if ret \<noteq> 0 then Some ((ret, pm), s)
             else do {
               (pm, s) \<leftarrow> translate_mem m pm s;
               Some ((0, pm), s)
             }
           }
         }
       }
     }
   }"

definition write_client_registered ::
  "env \<Rightarrow> ptr \<Rightarrow> ptr \<Rightarrow> ptr \<Rightarrow> ptr \<Rightarrow> ptr \<Rightarrow> common_mem \<Rightarrow> pmem \<Rightarrow> ibv_wc \<Rightarrow> st \<Rightarrow> ((rc \<times> pmem) \<times> st) option" where
  "write_client_registered E src_mr raw_mr conn peer raw m pm wc s = do {
     ((ret, pdata), s) \<leftarrow> rpma_conn_get_private_data conn (Some no_pdata) s;
     if ret \<noteq> 0 \<or> pdata_len (the pdata) < SIZEOF_COMMON_DATA
     then write_client_err_mr_dereg E ret src_mr raw_mr conn peer raw m pm s
     else do {
       ((ret, dst_mr, dst_offset), s) \<leftarrow> remote_from_data E (the pdata) s;
       if ret \<noteq> 0 then write_client_err_mr_dereg E ret src_mr raw_mr conn peer raw m pm s
       else do {
         ((ret, pm), s) \<leftarrow> write_greeting E conn dst_mr dst_offset src_mr raw_mr m pm wc s;
         write_client_err_mr_remote_delete E ret dst_mr src_mr raw_mr conn peer raw m pm s
       }
     }
   }"

definition write_client_connected ::
  "env \<Rightarrow> ptr \<Rightarrow> ptr \<Rightarrow> ptr \<Rightarrow> common_mem \<Rightarrow> pmem \<Rightarrow> ibv_wc \<Rightarrow> st \<Rightarrow> ((rc \<times> pmem) \<times> st) option" where
  "write_client_connected E conn peer raw m pm wc s = do {
     ((ret, src_mr), s) \<leftarrow> rpma_mr_reg E peer (of_nat (cm_mr_ptr m)) (cm_mr_size m) RPMA_MR_USAGE_WRITE_SRC (Some NULL) s;
     if ret \<noteq> 0 then write_client_err_conn_disconnect E ret conn peer raw m pm s
     else do {
       ((ret, raw_mr), s) \<leftarrow> rpma_mr_reg E peer (of_nat raw) 8 RPMA_MR_USAGE_READ_DST (Some NULL) s;
       if ret \<noteq> 0 then write_client_err_mr_dereg E ret (the src_mr) (the raw_mr) conn peer raw m pm s
       else write_client_registered E (the src_mr) (the raw_mr) conn peer raw m pm wc s
     }
   }"

definition write_client_main ::
  "env \<Rightarrow> string \<Rightarrow> string \<Rightarrow> string option \<Rightarrow> pmem \<Rightarrow> ibv_wc \<Rightarrow> st \<Rightarrow> ((rc \<times> pmem) \<times> st) option" where
  "write_client_main E addr port path pm wc s = do {
     (r, s) \<leftarrow> client_mem E path pm s;
     (case r of
        Inl ret \<Rightarrow> Some ((ret, pm), s)
      | Inr (m, pm) \<Rightarrow> do {
          (raw, s) \<leftarrow> malloc_aligned E KILOBYTE s;
          if raw = NULL then write_client_err_free E (- 1) raw m pm s
          else do {
            ((ret, peer), s) \<leftarrow> common_peer_via_address E addr RPMA_UTIL_IBV_CONTEXT_REMOTE NULL s;
            if ret \<noteq> 0 then write_client_err_free E ret raw m pm s
            else do {
              ((ret, conn), s) \<leftarrow> client_connect E peer addr port NULL None NULL s;
              if ret \<noteq> 0 then write_client_err_peer_delete E ret peer raw m pm s
              else write_client_connected E conn peer raw m pm wc s
            }
          }
        })
   }"

subsection \<open>The server\<close>

definition write_server_err_free :: "env \<Rightarrow> rc \<Rightarrow> common_mem \<Rightarrow> st \<Rightarrow> (rc \<times> st) option" where
  "write_server_err_free E ret m s = do {
     (_, s) \<leftarrow> release_mem E m s;
     Some (ret, s)
   }"

definition write_server_err_peer_delete :: "env \<Rightarrow> rc \<Rightarrow> ptr \<Rightarrow> common_mem \<Rightarrow> st \<Rightarrow> (rc \<times> st) option" where
  "write_server_err_peer_delete E ret peer m s = do {
     (_, s) \<leftarrow> rpma_peer_delete E (Some peer) s;
     write_server_err_free E ret m s
   }"

definition write_server_err_ep_shutdown :: "env \<Rightarrow> rc \<Rightarrow> ptr \<Rightarrow> ptr \<Rightarrow> common_mem \<Rightarrow> st \<Rightarrow> (rc \<times> st) option" where
  "write_server_err_ep_shutdown E ret ep peer m s = do {
     (_, s) \<leftarrow> rpma_ep_shutdown E (Some ep) s;
     write_server_err_peer_delete E ret peer m s
   }"

definition write_server_err_mr_dereg ::
  "env \<Rightarrow> rc \<Rightarrow> ptr \<Rightarrow> ptr \<Rightarrow> ptr \<Rightarrow> common_mem \<Rightarrow> st \<Rightarrow> (rc \<times> st) option" where
  "write_server_err_mr_dereg E ret mr ep peer m s = do {
     (_, s) \<leftarrow> rpma_mr_dereg E (Some mr) s;
     write_server_err_ep_shutdown E ret ep peer m s
   }"

definition write_server_registered ::
  "env \<Rightarrow> string option \<Rightarrow> ptr \<Rightarrow> ptr \<Rightarrow> ptr \<Rightarrow> ptr \<Rightarrow> common_mem \<Rightarrow> st \<Rightarrow> (rc \<times> st) option" where
  "write_server_registered E path data mr ep peer m s = do {
     (ret, s) \<leftarrow> advise_mem E path m mr s;
     if ret \<noteq> 0 then write_server_err_mr_dereg E ret mr ep peer m s
     else do {
       ((ret, _), s) \<leftarrow> common_data_of mr (ucast (cm_data_offset m)) s;
       if ret \<noteq> 0 then write_server_err_mr_dereg E ret mr ep peer m s
       else do {
         let pdata = \<lparr>pdata_ptr = data, pdata_len = SIZEOF_COMMON_DATA\<rparr>;
         ((ret, conn), s) \<leftarrow> server_accept_connection E ep NULL (Some pdata) NULL s;
         if ret \<noteq> 0 then write_server_err_mr_dereg E ret mr ep peer m s
         else do {
           ((ret, _), s) \<leftarrow> common_wait_for_conn_close_and_disconnect E conn s;
           write_server_err_mr_dereg E ret mr ep peer m s
         }
       }
     }
   }"

definition write_server_main ::
  "env \<Rightarrow> string \<Rightarrow> string \<Rightarrow> string option \<Rightarrow> ptr \<Rightarrow> pmem \<Rightarrow> st \<Rightarrow> (rc \<times> st) option" where
  "write_server_main E addr port path data pm s = do {
     (r, s) \<leftarrow> server_mem E path pm s;
     (case r of
        Inl ret \<Rightarrow> Some (ret, s)
      | Inr (m, pm) \<Rightarrow> do {
          ((ret, peer), s) \<leftarrow> common_peer_via_address E addr RPMA_UTIL_IBV_CONTEXT_LOCAL NULL s;
          if ret \<noteq> 0 then write_server_err_free E ret m s
          else do {
            ((ret, ep), s) \<leftarrow> rpma_ep_listen E peer (Some addr) (Some port) (Some NULL) s;
            if ret \<noteq> 0 then write_server_err_peer_delete E ret peer m s
            else do {
              ((ret, mr), s) \<leftarrow> rpma_mr_reg E peer (of_nat (cm_mr_ptr m)) (cm_mr_size m)
                (RPMA_MR_USAGE_WRITE_DST OR RPMA_MR_USAGE_READ_SRC) (Some NULL) s;
              if ret \<noteq> 0 then write_server_err_ep_shutdown E ret (the ep) peer m s
              else write_server_registered E path data (the mr) (the ep) peer m s
            }
          }
        })
   }"

subsection \<open>What the programs leave\<close>

abbreviation "raw_mem m n E P raw \<equiv> over (owns_plain O_bytes) E (over_mem m n E P) raw"
abbreviation "raw_peer m n E P raw peer \<equiv> over owns_peer E (raw_mem m n E P raw) peer"
abbreviation "raw_conn m n E P raw peer q conn \<equiv> over (owns_conn_cq E q) E (raw_peer m n E P raw peer) conn"
abbreviation "src_conn m n E P raw peer q conn mr \<equiv> over owns_mr E (raw_conn m n E P raw peer q conn) mr"
abbreviation "src_raw m n E P raw peer q conn mr k \<equiv> over owns_mr E (src_conn m n E P raw peer q conn mr) k"

lemma wp_write_client_err_free:
  assumes "raw_mem m n E P raw s" and "stable E P" and "cm_mr_ptr m \<noteq> NULL" and "\<And>s'. P s' \<Longrightarrow> Q (ret, pm) s'"
  shows "wp (write_client_err_free E ret raw m pm s) Q"
proof -
  have "over_mem m n E (over (owns_plain O_bytes) E P raw) s"
    by (rule region_scope.swap [OF assms(1)]) (rule plain_scope.owns_local)
  then show ?thesis
    unfolding write_client_err_free_def
    by (auto intro!: wp_release_mem [OF _ plain_scope.stable_over assms(3)] wp_pop_free [OF _ assms(2)] assms(4)
        dest!: over_top(5) obj_at_nonnull)
qed

lemma wp_write_client_no_raw:
  assumes "over_mem m n E P s" and "stable E P" and "cm_mr_ptr m \<noteq> NULL" and "\<And>s'. P s' \<Longrightarrow> Q (ret, pm) s'"
  shows "wp (write_client_err_free E ret NULL m pm s) Q"
  using assms by (auto simp: write_client_err_free_def intro!: wp_release_mem)

lemma wp_write_client_err_peer_delete:
  assumes "raw_peer m n E P raw peer s" and "stable E P" and "cm_mr_ptr m \<noteq> NULL" and "\<And>s'. P s' \<Longrightarrow> Q (ret, pm) s'"
  shows "wp (write_client_err_peer_delete E ret peer raw m pm s) Q"
  unfolding write_client_err_peer_delete_def
  by (auto intro!: peer_scope.wp_pop [OF assms(1)] plain_scope.stable_over wp_write_client_err_free [OF _ assms(2,3)] assms(4))

lemma wp_write_client_err_conn_disconnect:
  assumes "raw_conn m n E P raw peer q conn s" and "stable E P" and "cm_mr_ptr m \<noteq> NULL" and "events_wf E" and "\<And>s'. P s' \<Longrightarrow> Q (ret, pm) s'"
  shows "wp (write_client_err_conn_disconnect E ret conn peer raw m pm s) Q"
  unfolding write_client_err_conn_disconnect_def
  by (auto intro!: wp_close_cq [OF assms(1) peer_scope.stable_over assms(4)] wp_write_client_err_peer_delete [OF _ assms(2,3)] assms(5))

lemma wp_write_client_err_mr_dereg:
  assumes "src_raw m n E P raw peer q conn mr k s" and "stable E P" and "cm_mr_ptr m \<noteq> NULL" and "events_wf E" and "\<And>s'. P s' \<Longrightarrow> Q (ret, pm) s'"
  shows "wp (write_client_err_mr_dereg E ret mr k conn peer raw m pm s) Q"
proof -
  have sw: "over owns_mr E (src_conn m n E P raw peer q conn k) mr s"
    by (rule mr_scope.swap [OF assms(1)]) (rule mr_scope.owns_local)
  show ?thesis
    unfolding write_client_err_mr_dereg_def
    by (auto intro!: mr_scope.wp_pop [OF sw mr_scope.stable_over]
        mr_scope.wp_pop [where P = "raw_conn m n E P raw peer q conn", OF _ cq_scope.stable_over]
        wp_write_client_err_conn_disconnect [OF _ assms(2-4)] assms(5))
qed

lemma mr_dereg_null: "rpma_mr_dereg E (Some NULL) s = Some ((0, Some NULL), s)"
  by (simp add: rpma_mr_dereg_def)

lemma wp_write_client_no_raw_mr:
  assumes "src_conn m n E P raw peer q conn mr s" and "stable E P" and "cm_mr_ptr m \<noteq> NULL" and "events_wf E" and "\<And>s'. P s' \<Longrightarrow> Q (ret, pm) s'"
  shows "wp (write_client_err_mr_dereg E ret mr NULL conn peer raw m pm s) Q"
  unfolding write_client_err_mr_dereg_def
  by (auto simp: mr_dereg_null intro!: mr_scope.wp_pop [OF assms(1) cq_scope.stable_over]
      wp_write_client_err_conn_disconnect [OF _ assms(2-4)] assms(5))

lemma wp_write_client_err_mr_remote_delete:
  assumes "over (owns_plain O_mr_remote) E (src_raw m n E P raw peer q conn mr k) r s" and "stable E P" and "cm_mr_ptr m \<noteq> NULL"
    and "events_wf E" and "\<And>s'. P s' \<Longrightarrow> Q (ret, pm) s'"
  shows "wp (write_client_err_mr_remote_delete E ret r mr k conn peer raw m pm s) Q"
  unfolding write_client_err_mr_remote_delete_def
  by (auto intro!: wp_pop_mr_remote [OF assms(1) mr_scope.stable_over] wp_write_client_err_mr_dereg [OF _ assms(2-4)] assms(5))

lemma wp_write_greeting:
  assumes s: "P s" and P: "stable E P" and l: "conn_live P conn cq" "live P src_mr O_mr_local" "live P raw_mr O_mr_local" "live P dst_mr O_mr_remote"
    and m: "sized P m n" "mem_ready m n HELLO_T_SIZE pm" and Q: "\<And>ret pm s'. P s' \<Longrightarrow> Q (ret, pm) s'"
  shows "wp (write_greeting E conn dst_mr dst_offset src_mr raw_mr m pm wc s) Q"
  unfolding write_greeting_def
  by (auto intro!: wp_get_size [where P = P, OF s l(4)] wp_write [where P = P, OF s P l(1,2,4) flags_nonzero(2)]
      wp_read [where P = P, OF _ P l(1,3,4) flags_nonzero(1)] wp_get_cq [where P = P, OF _ l(1)]
      wp_read_completed [where P = P, OF _ P l(1)] wp_translate_mem [where P = P, OF _ m] Q s)

lemma wp_write_client_registered:
  assumes s: "src_raw m n E P raw peer q conn mr k s" and P: "stable E P" and wf: "events_wf E"
    and m: "mem_ready m n HELLO_T_SIZE pm" and Q: "\<And>ret pm s'. P s' \<Longrightarrow> Q (ret, pm) s'"
  shows "wp (write_client_registered E mr k conn peer raw m pm wc s) Q"
proof -
  let ?P = "src_raw m n E P raw peer q conn mr k"
  let ?R = "over (owns_plain O_mr_remote) E ?P"
  have l: "conn_live ?P conn q" by (intro lives)
  have r: "conn_live (?R i) conn q" "live (?R i) mr O_mr_local" "live (?R i) k O_mr_local" "live (?R i) i O_mr_remote" "sized (?R i) m n" for i
    by (intro lives sizes)+
  have nn: "cm_mr_ptr m \<noteq> NULL" using m by (simp add: mem_ready_def)
  show ?thesis
    unfolding write_client_registered_def
    by (auto intro!: wp_private_data [where P = ?P, OF s l] wp_remote_from_data [OF mr_scope.stable_over s]
        wp_write_greeting [where P = "?R i" for i, OF _ plain_scope.stable_over r m] s
        wp_write_client_err_mr_dereg [OF _ P nn wf] wp_write_client_err_mr_remote_delete [OF _ P nn wf] Q)
qed

lemma wp_write_client_connected:
  assumes s: "raw_conn m n E P raw peer q conn s" and P: "stable E P" and wf: "events_wf E"
    and m: "mem_ready m n HELLO_T_SIZE pm" and Q: "\<And>ret pm s'. P s' \<Longrightarrow> Q (ret, pm) s'"
  shows "wp (write_client_connected E conn peer raw m pm wc s) Q"
proof -
  have l: "live (raw_conn m n E P raw peer q conn) peer O_peer" "live (src_conn m n E P raw peer q conn mr) peer O_peer" for mr
    by (intro lives)+
  have nn: "cm_mr_ptr m \<noteq> NULL" using m by (simp add: mem_ready_def)
  show ?thesis
    unfolding write_client_connected_def
    by (auto intro!: wp_push_mr [OF cq_scope.stable_over s liveD [OF l(1) s]] wp_push_mr [OF mr_scope.stable_over _ liveD [OF l(2)]]
        wp_write_client_err_conn_disconnect [OF _ P nn wf] wp_write_client_no_raw_mr [OF _ P nn wf] wp_write_client_registered [OF _ P wf m] Q)
qed

lemma wp_write_client_main:
  assumes s: "P s" and P: "stable E P" and wf: "events_wf E"
    and fits: "file_fits E path HELLO_T_SIZE pm" and Q: "\<And>ret pm s'. P s' \<Longrightarrow> Q (ret, pm) s'"
  shows "wp (write_client_main E addr port path pm wc s) Q"
  unfolding write_client_main_def wp_bind
proof (rule wp_client_mem [OF P s fits], goal_cases)
  case (1 m n pm' s')
  then have nn: "cm_mr_ptr m \<noteq> NULL" by (simp add: mem_ready_def)
  have l: "live (raw_peer m n E P raw peer) peer O_peer" for raw peer by (intro lives)
  have pd: "pdata_arg_ok None" by (simp add: pdata_arg_ok_def)
  show ?case
    unfolding sum.case prod.case wp_bind
  proof (rule wp_malloc_aligned [OF region_scope.stable_over 1(1)], goal_cases)
    case (1 raw t)
    with \<open>mem_ready m n HELLO_T_SIZE pm'\<close> show ?case
      by (auto intro!: wp_common_peer_via_address [OF plain_scope.stable_over 1(1)] wp_client_connect_cq [OF _ peer_scope.stable_over l _ pd wf]
          wp_write_client_err_free [OF _ P nn] wp_write_client_err_peer_delete [OF _ P nn] wp_write_client_connected [OF _ P wf] Q)
  qed (auto intro!: wp_write_client_no_raw [OF _ P nn] Q)
qed (simp add: Q)

lemma wp_write_server_err_free:
  assumes "over_mem m n E P s" and "stable E P" and "cm_mr_ptr m \<noteq> NULL" and "\<And>s'. P s' \<Longrightarrow> Q ret s'"
  shows "wp (write_server_err_free E ret m s) Q"
  using assms by (auto simp: write_server_err_free_def intro!: wp_release_mem)

lemma wp_write_server_err_peer_delete:
  assumes "reg_peer m n E P peer s" and "stable E P" and "cm_mr_ptr m \<noteq> NULL" and "\<And>s'. P s' \<Longrightarrow> Q ret s'"
  shows "wp (write_server_err_peer_delete E ret peer m s) Q"
  using assms by (auto simp: write_server_err_peer_delete_def intro!: peer_scope.wp_pop region_scope.stable_over wp_write_server_err_free)

lemma wp_write_server_err_ep_shutdown:
  assumes "reg_ep m n E P peer ep s" and "stable E P" and "cm_mr_ptr m \<noteq> NULL" and "\<And>s'. P s' \<Longrightarrow> Q ret s'"
  shows "wp (write_server_err_ep_shutdown E ret ep peer m s) Q"
  using assms by (auto simp: write_server_err_ep_shutdown_def intro!: ep_scope.wp_pop peer_scope.stable_over wp_write_server_err_peer_delete)

lemma wp_write_server_err_mr_dereg:
  assumes "reg_mr m n E P peer ep mr s" and "stable E P" and "cm_mr_ptr m \<noteq> NULL" and "\<And>s'. P s' \<Longrightarrow> Q ret s'"
  shows "wp (write_server_err_mr_dereg E ret mr ep peer m s) Q"
  using assms by (auto simp: write_server_err_mr_dereg_def intro!: mr_scope.wp_pop ep_scope.stable_over wp_write_server_err_ep_shutdown)

lemma wp_write_server_registered:
  assumes s: "reg_mr m n E P peer ep mr s" and P: "stable E P" and wf: "events_wf E" and data: "data \<noteq> NULL"
    and nn: "cm_mr_ptr m \<noteq> NULL" and Q: "\<And>ret s'. P s' \<Longrightarrow> Q ret s'"
  shows "wp (write_server_registered E path data mr ep peer m s) Q"
proof -
  let ?P = "reg_mr m n E P peer ep mr"
  have l: "live ?P mr O_mr_local" "live ?P peer O_peer" "ep_live ?P ep peer" by (intro lives ep_lives)+
  have pd: "pdata_arg_ok (Some \<lparr>pdata_ptr = data, pdata_len = SIZEOF_COMMON_DATA\<rparr>)"
    using data by (simp add: pdata_arg_ok_def SIZEOF_COMMON_DATA_def)
  show ?thesis
    unfolding write_server_registered_def Let_def
    by (auto intro!: wp_advise_mem [where P = ?P, OF s mr_scope.stable_over l(1)] wp_common_data_of [where P = ?P, OF _ l(1)]
        wp_server_accept_cq [where P = ?P, OF _ mr_scope.stable_over l(3,2) _ pd wf] wp_close_cq [OF _ mr_scope.stable_over wf]
        wp_write_server_err_mr_dereg [OF _ P nn] Q)
qed

lemma wp_write_server_main:
  assumes s: "P s" and P: "stable E P" and wf: "events_wf E" and data: "data \<noteq> NULL"
    and fits: "file_fits E path KILOBYTE pm" and Q: "\<And>ret s'. P s' \<Longrightarrow> Q ret s'"
  shows "wp (write_server_main E addr port path data pm s) Q"
  unfolding write_server_main_def wp_bind
proof (rule wp_server_mem [OF P s fits], goal_cases)
  case (1 m n pm' s')
  then have nn: "cm_mr_ptr m \<noteq> NULL" by (simp add: mem_ready_def)
  have l: "live (reg_peer m n E P peer) peer O_peer" "live (reg_ep m n E P peer ep) peer O_peer" for peer ep by (intro lives)+
  from 1 show ?case
    by (auto intro!: wp_common_peer_via_address [OF region_scope.stable_over 1(1)] wp_push_ep [OF peer_scope.stable_over _ live_nonnull [OF l(1)]]
        wp_push_mr [OF ep_scope.stable_over _ liveD [OF l(2)]]
        wp_write_server_err_free [OF _ P nn] wp_write_server_err_peer_delete [OF _ P nn] wp_write_server_err_ep_shutdown [OF _ P nn]
        wp_write_server_registered [OF _ P wf data nn] Q)
qed (simp add: Q)

end
