(* ===== verification/Flush_Persistent.thy ===== *)
theory Flush_Persistent
  imports Write_Persistent
begin

text \<open>
  The example \<open>src/examples/05-flush-to-persistent\<close>: the server exposes its memory together with its
  configuration, the client applies the configuration to the connection, writes its greeting, flushes it
  and translates its own. \<open>direct\<close> is the fourth argument of the server.
\<close>

subsection \<open>The client\<close>

definition GREETING_FLUSH_ID :: u64 where "GREETING_FLUSH_ID = 0xF01D"

definition flush_client_err_free :: "env \<Rightarrow> rc \<Rightarrow> common_mem \<Rightarrow> pmem \<Rightarrow> st \<Rightarrow> ((rc \<times> pmem) \<times> st) option" where
  "flush_client_err_free E ret m pm s = do {
     (_, s) \<leftarrow> release_mem E m s;
     Some ((ret, pm), s)
   }"

definition flush_client_err_peer_delete ::
  "env \<Rightarrow> rc \<Rightarrow> ptr \<Rightarrow> common_mem \<Rightarrow> pmem \<Rightarrow> st \<Rightarrow> ((rc \<times> pmem) \<times> st) option" where
  "flush_client_err_peer_delete E ret peer m pm s = do {
     (_, s) \<leftarrow> rpma_peer_delete E (Some peer) s;
     flush_client_err_free E ret m pm s
   }"

definition flush_client_err_conn_disconnect ::
  "env \<Rightarrow> rc \<Rightarrow> ptr \<Rightarrow> ptr \<Rightarrow> common_mem \<Rightarrow> pmem \<Rightarrow> st \<Rightarrow> ((rc \<times> pmem) \<times> st) option" where
  "flush_client_err_conn_disconnect E ret conn peer m pm s = do {
     (_, s) \<leftarrow> common_disconnect_and_wait_for_conn_close E conn s;
     flush_client_err_peer_delete E ret peer m pm s
   }"

definition flush_client_err_mr_dereg ::
  "env \<Rightarrow> rc \<Rightarrow> ptr \<Rightarrow> ptr \<Rightarrow> ptr \<Rightarrow> common_mem \<Rightarrow> pmem \<Rightarrow> st \<Rightarrow> ((rc \<times> pmem) \<times> st) option" where
  "flush_client_err_mr_dereg E ret src_mr conn peer m pm s = do {
     (_, s) \<leftarrow> rpma_mr_dereg E (Some src_mr) s;
     flush_client_err_conn_disconnect E ret conn peer m pm s
   }"

definition flush_client_err_mr_remote_delete ::
  "env \<Rightarrow> rc \<Rightarrow> ptr \<Rightarrow> ptr \<Rightarrow> ptr \<Rightarrow> ptr \<Rightarrow> common_mem \<Rightarrow> pmem \<Rightarrow> st \<Rightarrow> ((rc \<times> pmem) \<times> st) option" where
  "flush_client_err_mr_remote_delete E ret dst_mr src_mr conn peer m pm s = do {
     (_, s) \<leftarrow> rpma_mr_remote_delete (Some dst_mr) s;
     flush_client_err_mr_dereg E ret src_mr conn peer m pm s
   }"

text \<open>The configuration of the server follows the descriptor of the region in the private data, at a place
  that the private data gives.\<close>

definition apply_remote_cfg :: "env \<Rightarrow> ptr \<Rightarrow> rpma_conn_private_data \<Rightarrow> st \<Rightarrow> ((rc \<times> bool) \<times> st) option" where
  "apply_remote_cfg E conn pdata s = do {
     dst_data \<leftarrow> bytes_at (pdata_ptr pdata) s;
     mr_desc_size \<leftarrow> read_bytes 2 1 dst_data;
     pcfg_desc_size \<leftarrow> read_bytes 3 1 dst_data;
     ((ret, pcfg), s) \<leftarrow> rpma_peer_cfg_from_descriptor E (Some (drop (4 + unat (hd mr_desc_size)) dst_data))
       (unat (hd pcfg_desc_size)) (Some NULL) s;
     if ret \<noteq> 0 then Some ((ret, False), s)
     else do {
       ((ret, direct_write_to_pmem), s) \<leftarrow> rpma_peer_cfg_get_direct_write_to_pmem (the pcfg) (Some False) s;
       (ret2, s) \<leftarrow> rpma_conn_apply_remote_peer_cfg conn (the pcfg) s;
       (_, s) \<leftarrow> rpma_peer_cfg_delete pcfg s;
       Some ((ret OR ret2, the direct_write_to_pmem), s)
     }
   }"

definition flush_completed :: "env \<Rightarrow> ptr \<Rightarrow> ibv_wc \<Rightarrow> st \<Rightarrow> (rc \<times> st) option" where
  "flush_completed E cq wc s = do {
     (ret, s) \<leftarrow> rpma_cq_wait E cq s;
     if ret \<noteq> 0 then Some (ret, s)
     else do {
       ((ret, wcs, _), s) \<leftarrow> rpma_cq_get_wc E cq 1 (Some [wc]) None s;
       let wc = (case the wcs of [] \<Rightarrow> wc | w # _ \<Rightarrow> w);
       if ret \<noteq> 0 then Some (ret, s)
       else if wc_wr_id wc \<noteq> GREETING_FLUSH_ID then Some (- 1, s)
       else if wc_status wc \<noteq> IBV_WC_SUCCESS then Some (- 1, s)
       else Some (0, s)
     }
   }"

text \<open>Writing and flushing the greeting. A region that is too small ends the program with the result of
  asking for its size, which is 0.\<close>

definition flush_greeting ::
  "env \<Rightarrow> ptr \<Rightarrow> ptr \<Rightarrow> u16 \<Rightarrow> ptr \<Rightarrow> bool \<Rightarrow> common_mem \<Rightarrow> pmem \<Rightarrow> ibv_wc \<Rightarrow> st \<Rightarrow> ((rc \<times> pmem) \<times> st) option" where
  "flush_greeting E conn dst_mr dst_offset src_mr direct_write_to_pmem m pm wc s = do {
     ((ret, dst_size), s) \<leftarrow> rpma_mr_remote_get_size dst_mr (Some 0) s;
     if ret \<noteq> 0 then Some ((ret, pm), s)
     else if the dst_size < of_nat KILOBYTE then Some ((ret, pm), s)
     else do {
       (ret, s) \<leftarrow> rpma_write E conn dst_mr (ucast dst_offset) src_mr (cm_data_offset m + of_nat HELLO_STR_OFFSET)
         (of_nat KILOBYTE) RPMA_F_COMPLETION_ON_ERROR 0 s;
       if ret \<noteq> 0 then Some ((ret, pm), s)
       else do {
         let flush_type = (if direct_write_to_pmem then RPMA_FLUSH_TYPE_PERSISTENT else RPMA_FLUSH_TYPE_VISIBILITY);
         (ret, s) \<leftarrow> rpma_flush E conn dst_mr (ucast dst_offset) (of_nat KILOBYTE) flush_type
           RPMA_F_COMPLETION_ALWAYS GREETING_FLUSH_ID s;
         if ret \<noteq> 0 then Some ((ret, pm), s)
         else do {
           ((ret, cq), s) \<leftarrow> rpma_conn_get_cq conn (Some NULL) s;
           if ret \<noteq> 0 then Some ((ret, pm), s)
           else do {
             (ret, s) \<leftarrow> flush_completed E (the cq) wc s;
             if ret \<noteq> 0 then Some ((ret, pm), s)
             else do {
               (pm, s) \<leftarrow> translate_mem m pm s;
               Some ((0, pm), s)
             }
           }
         }
       }
     }
   }"

definition flush_client_registered ::
  "env \<Rightarrow> ptr \<Rightarrow> ptr \<Rightarrow> ptr \<Rightarrow> common_mem \<Rightarrow> pmem \<Rightarrow> ibv_wc \<Rightarrow> st \<Rightarrow> ((rc \<times> pmem) \<times> st) option" where
  "flush_client_registered E src_mr conn peer m pm wc s = do {
     ((ret, pdata), s) \<leftarrow> rpma_conn_get_private_data conn (Some no_pdata) s;
     if ret \<noteq> 0 \<or> pdata_len (the pdata) < SIZEOF_COMMON_DATA
     then flush_client_err_mr_dereg E ret src_mr conn peer m pm s
     else do {
       ((ret, direct_write_to_pmem), s) \<leftarrow> apply_remote_cfg E conn (the pdata) s;
       if ret \<noteq> 0 then flush_client_err_mr_dereg E ret src_mr conn peer m pm s
       else do {
         ((ret, dst_mr, dst_offset), s) \<leftarrow> remote_from_data E (the pdata) s;
         if ret \<noteq> 0 then flush_client_err_mr_dereg E ret src_mr conn peer m pm s
         else do {
           ((ret, pm), s) \<leftarrow> flush_greeting E conn dst_mr dst_offset src_mr direct_write_to_pmem m pm wc s;
           flush_client_err_mr_remote_delete E ret dst_mr src_mr conn peer m pm s
         }
       }
     }
   }"

definition flush_client_main ::
  "env \<Rightarrow> string \<Rightarrow> string \<Rightarrow> string option \<Rightarrow> pmem \<Rightarrow> ibv_wc \<Rightarrow> st \<Rightarrow> ((rc \<times> pmem) \<times> st) option" where
  "flush_client_main E addr port path pm wc s = do {
     (r, s) \<leftarrow> client_mem E path pm s;
     (case r of
        Inl ret \<Rightarrow> Some ((ret, pm), s)
      | Inr (m, pm) \<Rightarrow> do {
          ((ret, peer), s) \<leftarrow> common_peer_via_address E addr RPMA_UTIL_IBV_CONTEXT_REMOTE NULL s;
          if ret \<noteq> 0 then flush_client_err_free E ret m pm s
          else do {
            ((ret, conn), s) \<leftarrow> client_connect E peer addr port NULL None NULL s;
            if ret \<noteq> 0 then flush_client_err_peer_delete E ret peer m pm s
            else do {
              ((ret, src_mr), s) \<leftarrow> rpma_mr_reg E peer (of_nat (cm_mr_ptr m)) (cm_mr_size m) RPMA_MR_USAGE_WRITE_SRC (Some NULL) s;
              if ret \<noteq> 0 then flush_client_err_conn_disconnect E ret conn peer m pm s
              else flush_client_registered E (the src_mr) conn peer m pm wc s
            }
          }
        })
   }"

subsection \<open>The server\<close>

definition flush_server_err_free :: "env \<Rightarrow> rc \<Rightarrow> common_mem \<Rightarrow> st \<Rightarrow> (rc \<times> st) option" where
  "flush_server_err_free E ret m s = do {
     (_, s) \<leftarrow> release_mem E m s;
     Some (ret, s)
   }"

definition flush_server_err_pcfg_delete :: "env \<Rightarrow> rc \<Rightarrow> ptr \<Rightarrow> common_mem \<Rightarrow> st \<Rightarrow> (rc \<times> st) option" where
  "flush_server_err_pcfg_delete E ret pcfg m s = do {
     (_, s) \<leftarrow> rpma_peer_cfg_delete (Some pcfg) s;
     flush_server_err_free E ret m s
   }"

definition flush_server_err_peer_delete :: "env \<Rightarrow> rc \<Rightarrow> ptr \<Rightarrow> ptr \<Rightarrow> common_mem \<Rightarrow> st \<Rightarrow> (rc \<times> st) option" where
  "flush_server_err_peer_delete E ret peer pcfg m s = do {
     (_, s) \<leftarrow> rpma_peer_delete E (Some peer) s;
     flush_server_err_pcfg_delete E ret pcfg m s
   }"

definition flush_server_err_ep_shutdown :: "env \<Rightarrow> rc \<Rightarrow> ptr \<Rightarrow> ptr \<Rightarrow> ptr \<Rightarrow> common_mem \<Rightarrow> st \<Rightarrow> (rc \<times> st) option" where
  "flush_server_err_ep_shutdown E ret ep peer pcfg m s = do {
     (_, s) \<leftarrow> rpma_ep_shutdown E (Some ep) s;
     flush_server_err_peer_delete E ret peer pcfg m s
   }"

definition flush_server_err_mr_dereg ::
  "env \<Rightarrow> rc \<Rightarrow> ptr \<Rightarrow> ptr \<Rightarrow> ptr \<Rightarrow> ptr \<Rightarrow> common_mem \<Rightarrow> st \<Rightarrow> (rc \<times> st) option" where
  "flush_server_err_mr_dereg E ret mr ep peer pcfg m s = do {
     (_, s) \<leftarrow> rpma_mr_dereg E (Some mr) s;
     flush_server_err_ep_shutdown E ret ep peer pcfg m s
   }"

text \<open>The description of the region and of the configuration, which follows it in \<open>descriptors\<close>.\<close>

definition flush_data_of :: "ptr \<Rightarrow> ptr \<Rightarrow> u16 \<Rightarrow> st \<Rightarrow> ((rc \<times> u8 list) \<times> st) option" where
  "flush_data_of mr pcfg data_offset s = do {
     ((ret, mr_desc_size), s) \<leftarrow> rpma_mr_get_descriptor_size mr (Some 0) s;
     if ret \<noteq> 0 then Some ((ret, []), s)
     else do {
       ((ret, pcfg_desc_size), s) \<leftarrow> rpma_peer_cfg_get_descriptor_size pcfg (Some 0) s;
       if ret \<noteq> 0 then Some ((ret, []), s)
       else do {
         ((ret, descriptors), s) \<leftarrow> rpma_mr_get_descriptor mr (Some (replicate 24 0)) s;
         if ret \<noteq> 0 then Some ((ret, []), s)
         else do {
           ((ret, rest), s) \<leftarrow> rpma_peer_cfg_get_descriptor pcfg (Some (drop (the mr_desc_size) (the descriptors))) s;
           if ret \<noteq> 0 then Some ((ret, []), s)
           else Some ((0, le_bytes 2 data_offset @ [of_nat (the mr_desc_size), of_nat (the pcfg_desc_size)] @
             take (the mr_desc_size) (the descriptors) @ the rest), s)
         }
       }
     }
   }"

definition flush_server_registered ::
  "env \<Rightarrow> string option \<Rightarrow> ptr \<Rightarrow> ptr \<Rightarrow> ptr \<Rightarrow> ptr \<Rightarrow> ptr \<Rightarrow> common_mem \<Rightarrow> st \<Rightarrow> (rc \<times> st) option" where
  "flush_server_registered E path data mr ep peer pcfg m s = do {
     (ret, s) \<leftarrow> advise_mem E path m mr s;
     if ret \<noteq> 0 then flush_server_err_mr_dereg E ret mr ep peer pcfg m s
     else do {
       ((ret, _), s) \<leftarrow> flush_data_of mr pcfg (ucast (cm_data_offset m)) s;
       if ret \<noteq> 0 then flush_server_err_mr_dereg E ret mr ep peer pcfg m s
       else do {
         let pdata = \<lparr>pdata_ptr = data, pdata_len = SIZEOF_COMMON_DATA\<rparr>;
         ((ret, conn), s) \<leftarrow> server_accept_connection E ep NULL (Some pdata) NULL s;
         if ret \<noteq> 0 then flush_server_err_mr_dereg E ret mr ep peer pcfg m s
         else do {
           ((ret, _), s) \<leftarrow> common_wait_for_conn_close_and_disconnect E conn s;
           flush_server_err_mr_dereg E ret mr ep peer pcfg m s
         }
       }
     }
   }"

definition flush_server_configured ::
  "env \<Rightarrow> string \<Rightarrow> string \<Rightarrow> string option \<Rightarrow> ptr \<Rightarrow> ptr \<Rightarrow> common_mem \<Rightarrow> st \<Rightarrow> (rc \<times> st) option" where
  "flush_server_configured E addr port path data pcfg m s = do {
     ((ret, peer), s) \<leftarrow> common_peer_via_address E addr RPMA_UTIL_IBV_CONTEXT_LOCAL NULL s;
     if ret \<noteq> 0 then flush_server_err_pcfg_delete E ret pcfg m s
     else do {
       ((ret, ep), s) \<leftarrow> rpma_ep_listen E peer (Some addr) (Some port) (Some NULL) s;
       if ret \<noteq> 0 then flush_server_err_peer_delete E ret peer pcfg m s
       else do {
         ((ret, mr), s) \<leftarrow> rpma_mr_reg E peer (of_nat (cm_mr_ptr m)) (cm_mr_size m)
           (RPMA_MR_USAGE_WRITE_DST OR
            (if cm_is_pmem m \<noteq> 0 then RPMA_MR_USAGE_FLUSH_TYPE_PERSISTENT OR RPMA_MR_USAGE_FLUSH_TYPE_VISIBILITY
             else RPMA_MR_USAGE_FLUSH_TYPE_VISIBILITY)) (Some NULL) s;
         if ret \<noteq> 0 then flush_server_err_ep_shutdown E ret (the ep) peer pcfg m s
         else flush_server_registered E path data (the mr) (the ep) peer pcfg m s
       }
     }
   }"

definition flush_server_main ::
  "env \<Rightarrow> string \<Rightarrow> string \<Rightarrow> string option \<Rightarrow> string option \<Rightarrow> ptr \<Rightarrow> pmem \<Rightarrow> st \<Rightarrow> (rc \<times> st) option" where
  "flush_server_main E addr port path direct data pm s = do {
     (r, s) \<leftarrow> server_mem E path pm s;
     (case r of
        Inl ret \<Rightarrow> Some (ret, s)
      | Inr (m, pm) \<Rightarrow> do {
          ((ret, pcfg), s) \<leftarrow> rpma_peer_cfg_new E (Some NULL) s;
          if ret \<noteq> 0 then flush_server_err_free E ret m s
          else do {
            (ret, s) \<leftarrow> (case direct of
               None \<Rightarrow> Some (0, s)
             | Some arg \<Rightarrow> rpma_peer_cfg_set_direct_write_to_pmem (the pcfg) (arg = ''on'') s);
            if ret \<noteq> 0 then do {
              (_, s) \<leftarrow> rpma_peer_cfg_delete pcfg s;
              flush_server_err_free E ret m s
            } else flush_server_configured E addr port path data (the pcfg) m s
          }
        })
   }"

subsection \<open>What the programs leave\<close>

text \<open>The private data of a connection is what the other side has sent.\<close>

definition payload_live :: "env \<Rightarrow> (st \<Rightarrow> bool) \<Rightarrow> ptr \<Rightarrow> bool" where
  "payload_live E P k \<longleftrightarrow> (\<forall>t. P t \<longrightarrow> (\<exists>c. obj_at k (O_conn c) t \<and> pdata_ok (conn_data c) t \<and>
     known_payload E (pdata_bytes (conn_data c) t)))"

lemma payload_live_top: "payload_live E (over (owns_conn_cq E q) E P k) k"
  unfolding payload_live_def
  by (auto simp: over_def owns_conn_cq_def owns_conn_of_def owns_conn_def payload_at_def)

lemma payload_live_over: "payload_live E P k \<Longrightarrow> payload_live E (over owns E P j) k"
proof -
  have "pdata_ok d t' \<and> pdata_bytes d t' = pdata_bytes d t" if "pdata_ok d t" "\<forall>q x. obj_at q x t \<longrightarrow> obj_at q x t'" for d t t'
    using that by (auto simp: pdata_ok_def pdata_bytes_def deref_def obj_at_def)
  then show "payload_live E P k \<Longrightarrow> ?thesis"
    unfolding payload_live_def using over_below by (metis (no_types, lifting))
qed

lemma wp_private_data_known:
  assumes "P s" and "payload_live E P k"
    and "\<And>d. pdata_ok d s \<Longrightarrow> known_payload E (pdata_bytes d s) \<Longrightarrow> Q (0, Some d) s"
  shows "wp (rpma_conn_get_private_data k (Some x) s) Q"
proof -
  from assms(1,2) obtain c where "obj_at k (O_conn c) s" "pdata_ok (conn_data c) s" "known_payload E (pdata_bytes (conn_data c) s)"
    by (auto simp: payload_live_def)
  with assms(3) show ?thesis by (auto simp: rpma_conn_get_private_data_def obj_at_nonnull)
qed

text \<open>Servers that put the configuration inside the private data, as the one of this example does.\<close>

definition cfg_in_bounds :: "env \<Rightarrow> bool" where
  "cfg_in_bounds E \<longleftrightarrow> (\<forall>tr ch. let r = respond E tr (Rdma_get_cm_event ch); bs = event_payload (rcm r) in
     rint r = 0 \<and> 28 \<le> length bs \<longrightarrow> 4 + unat (bs ! 2) < length bs)"

lemma wp_push_peer_cfg_from:
  assumes P: "stable E P" and s: "P s" and "desc \<noteq> []"
    and Q0: "\<And>k s'. over (owns_plain O_peer_cfg) E P k s' \<Longrightarrow> Q (0, Some k) s'"
    and Q1: "\<And>ret s'. P s' \<Longrightarrow> ret \<noteq> 0 \<Longrightarrow> Q (ret, Some x) s'"
  shows "wp (rpma_peer_cfg_from_descriptor E (Some desc) n (Some x) s) Q"
proof -
  have ok: "ledger_ok s" by (rule stable_ledger [OF P s])
  have new: "over (owns_plain O_peer_cfg) E P k s'"
    if "ledger_ok s'" "fresh k s" "mem s' = (mem s)(k \<mapsto> O_peer_cfg m)" "acct s' = acct s" for k s' m
    using that by (intro over_plain_new [where P = P and s = s and f = O_peer_cfg, OF s])
  have "1 \<le> length desc" using assms(3) by (cases desc) auto
  then show ?thesis
    using ok s unfolding rpma_peer_cfg_from_descriptor_def
    by (auto simp: read_bytes_def fresh_def obj_at_def intro!: wp_malloc wp_store Q0 new
        Q1 [unfolded RPMA_E_INVAL_def] Q1 [unfolded RPMA_E_NOMEM_def] stable_same [OF P s])
qed

lemma wp_get_direct_write:
  assumes "P s" and "live P k O_peer_cfg" and "\<And>b. Q (0, Some b) s"
  shows "wp (rpma_peer_cfg_get_direct_write_to_pmem k (Some x) s) Q"
  using liveD [OF assms(2,1)] live_nonnull [OF assms(2,1)] assms(3)
  by (auto simp: rpma_peer_cfg_get_direct_write_to_pmem_def load_peer_cfg_def deref_def obj_at_def)

lemma wp_apply_remote_cfg:
  assumes P: "stable E P" and s: "P s" and bounds: "cfg_in_bounds E"
    and l: "conn_live P conn q" "\<And>v. allows P conn (set_direct_write v)"
    and d: "pdata_ok d s" "known_payload E (pdata_bytes d s)" "\<not> pdata_len d < SIZEOF_COMMON_DATA"
    and Q: "\<And>r s'. P s' \<Longrightarrow> Q r s'"
  shows "wp (apply_remote_cfg E conn d s) Q"
proof -
  obtain bs where b: "bytes_at (pdata_ptr d) s = Some bs" "28 \<le> length bs" by (rule common_data_bytes [OF d(1,3)])
  then have bs: "pdata_bytes d s = bs" by (auto simp: bytes_at_def pdata_bytes_def split: option.splits obj.splits)
  from bounds d(2) b(2) have "4 + unat (bs ! 2) < length bs"
    unfolding bs known_payload_def cfg_in_bounds_def Let_def by fastforce
  moreover have "hd (drop 2 bs) = bs ! 2" using b(2) by (simp add: hd_drop_conv_nth)
  ultimately have ne: "drop (4 + unat (hd (drop 2 bs))) bs \<noteq> []" by simp
  have r: "read_bytes 2 1 bs = Some [hd (drop 2 bs)]" "read_bytes 3 1 bs = Some [hd (drop 3 bs)]"
    using b(2) by (simp_all add: read_bytes_def take_Suc)
  let ?R = "over (owns_plain O_peer_cfg) E P"
  have rl: "conn_live (?R k) conn q" "live (?R k) k O_peer_cfg" for k by (intro lives l)+
  have a: "allows (?R k) conn (set_direct_write v)" for k v by (intro allow l)
  show ?thesis
    unfolding apply_remote_cfg_def b(1) Option.bind.bind_lunit r list.sel
    by (auto intro!: wp_push_peer_cfg_from [OF P s ne] wp_get_direct_write [where P = "?R k" for k, OF _ rl(2)]
        wp_apply_peer_cfg [where P = "?R k" for k, OF _ rl a] wp_pop_peer_cfg [OF _ P] Q)
qed

lemma wp_flush_completed:
  assumes "P s" and "stable E P" and "conn_live P conn cq" and "\<And>r s'. P s' \<Longrightarrow> Q r s'"
  shows "wp (flush_completed E cq wc s) Q"
  unfolding flush_completed_def Let_def
  by (auto intro!: wp_cq_wait [where P = P, OF assms(1-3)] wp_get_wc [where P = P, OF _ assms(2,3)] assms(4))

lemma wp_flush_greeting:
  assumes s: "P s" and P: "stable E P" and l: "conn_live P conn cq" "live P src_mr O_mr_local" "live P dst_mr O_mr_remote"
    and m: "sized P m n" "mem_ready m n HELLO_T_SIZE pm" and Q: "\<And>ret pm s'. P s' \<Longrightarrow> Q (ret, pm) s'"
  shows "wp (flush_greeting E conn dst_mr dst_offset src_mr direct m pm wc s) Q"
  unfolding flush_greeting_def Let_def
  by (auto intro!: wp_get_size [where P = P, OF s l(3)] wp_write [where P = P, OF s P l flags_nonzero(2)]
      wp_flush [where P = P, OF _ P l(1,3)] wp_get_cq [where P = P, OF _ l(1)]
      wp_flush_completed [where P = P, OF _ P l(1)] wp_translate_mem [where P = P, OF _ m] Q s)

text \<open>Applying the configuration leaves the private data in place.\<close>

lemma stable_pdata: "stable E P \<Longrightarrow> stable E (\<lambda>t. P t \<and> pdata_ok d t)"
  unfolding stable_def clean_def ids_left_def pdata_ok_def obj_at_def by metis

lemma allows_pdata:
  assumes "allows P k (set_direct_write v)" and "conn_live P k q"
  shows "allows (\<lambda>t. P t \<and> pdata_ok d t) k (set_direct_write v)"
  unfolding allows_def
proof (intro allI impI)
  fix t
  assume t: "P t \<and> pdata_ok d t"
  with assms(2) obtain c where c: "obj_at k (O_conn c) t" by (auto simp: conn_live_def conn_ready_def)
  with allowsD [OF assms(1)] t have "P (t\<lparr>mem := (mem t)(k \<mapsto> set_direct_write v (O_conn c))\<rparr>)" by blast
  moreover have "pdata_ok d (t\<lparr>mem := (mem t)(k \<mapsto> set_direct_write v (O_conn c))\<rparr>)"
    using t c by (auto simp: pdata_ok_def obj_at_def)
  ultimately show "\<exists>y. obj_at k y t \<and> P (t\<lparr>mem := (mem t)(k \<mapsto> set_direct_write v y)\<rparr>) \<and>
      pdata_ok d (t\<lparr>mem := (mem t)(k \<mapsto> set_direct_write v y)\<rparr>)" using c by blast
qed

abbreviation "pub_conn m n E P peer q conn \<equiv> over (owns_conn_cq E q) E (reg_peer m n E P peer) conn"
abbreviation "pub_mr m n E P peer q conn mr \<equiv> over owns_mr E (pub_conn m n E P peer q conn) mr"

lemma wp_flush_client_err_free:
  assumes "over_mem m n E P s" and "stable E P" and "cm_mr_ptr m \<noteq> NULL" and "\<And>s'. P s' \<Longrightarrow> Q (ret, pm) s'"
  shows "wp (flush_client_err_free E ret m pm s) Q"
  using assms by (auto simp: flush_client_err_free_def intro!: wp_release_mem)

lemma wp_flush_client_err_peer_delete:
  assumes "reg_peer m n E P peer s" and "stable E P" and "cm_mr_ptr m \<noteq> NULL" and "\<And>s'. P s' \<Longrightarrow> Q (ret, pm) s'"
  shows "wp (flush_client_err_peer_delete E ret peer m pm s) Q"
  using assms by (auto simp: flush_client_err_peer_delete_def intro!: peer_scope.wp_pop region_scope.stable_over wp_flush_client_err_free)

lemma wp_flush_client_err_conn_disconnect:
  assumes "pub_conn m n E P peer q conn s" and "stable E P" and "cm_mr_ptr m \<noteq> NULL" and "events_wf E" and "\<And>s'. P s' \<Longrightarrow> Q (ret, pm) s'"
  shows "wp (flush_client_err_conn_disconnect E ret conn peer m pm s) Q"
  unfolding flush_client_err_conn_disconnect_def
  by (auto intro!: wp_close_cq [OF assms(1) peer_scope.stable_over assms(4)] wp_flush_client_err_peer_delete [OF _ assms(2,3)] assms(5))

lemma wp_flush_client_err_mr_dereg:
  assumes "pub_mr m n E P peer q conn mr s" and "stable E P" and "cm_mr_ptr m \<noteq> NULL" and "events_wf E" and "\<And>s'. P s' \<Longrightarrow> Q (ret, pm) s'"
  shows "wp (flush_client_err_mr_dereg E ret mr conn peer m pm s) Q"
  unfolding flush_client_err_mr_dereg_def
  by (auto intro!: mr_scope.wp_pop [OF assms(1) cq_scope.stable_over] wp_flush_client_err_conn_disconnect [OF _ assms(2-4)] assms(5))

lemma wp_flush_client_err_mr_remote_delete:
  assumes "over (owns_plain O_mr_remote) E (pub_mr m n E P peer q conn mr) r s" and "stable E P" and "cm_mr_ptr m \<noteq> NULL"
    and "events_wf E" and "\<And>s'. P s' \<Longrightarrow> Q (ret, pm) s'"
  shows "wp (flush_client_err_mr_remote_delete E ret r mr conn peer m pm s) Q"
  unfolding flush_client_err_mr_remote_delete_def
  by (auto intro!: wp_pop_mr_remote [OF assms(1) mr_scope.stable_over] wp_flush_client_err_mr_dereg [OF _ assms(2-4)] assms(5))

lemma wp_flush_client_registered:
  assumes s: "pub_mr m n E P peer q conn mr s" and P: "stable E P" and wf: "events_wf E" and bounds: "cfg_in_bounds E"
    and m: "mem_ready m n HELLO_T_SIZE pm" and Q: "\<And>ret pm s'. P s' \<Longrightarrow> Q (ret, pm) s'"
  shows "wp (flush_client_registered E mr conn peer m pm wc s) Q"
proof -
  let ?P = "pub_mr m n E P peer q conn mr"
  let ?R = "over (owns_plain O_mr_remote) E ?P"
  have l: "conn_live ?P conn q" "payload_live E ?P conn" "allows ?P conn (set_direct_write v)" for v
    by (intro lives payload_live_over payload_live_top allow)+
  have r: "conn_live (?R i) conn q" "live (?R i) mr O_mr_local" "live (?R i) i O_mr_remote" "sized (?R i) m n" for i
    by (intro lives sizes)+
  have nn: "cm_mr_ptr m \<noteq> NULL" using m by (simp add: mem_ready_def)
  show ?thesis
    unfolding flush_client_registered_def wp_bind
  proof (rule wp_private_data_known [where P = ?P, OF s l(2)], goal_cases)
    case (1 d)
    show ?case
    proof (cases "pdata_len d < SIZEOF_COMMON_DATA")
      case True
      with s show ?thesis by (auto intro!: wp_flush_client_err_mr_dereg [OF _ P nn wf] Q)
    next
      case False
      let ?D = "\<lambda>t. ?P t \<and> pdata_ok d t"
      have "conn_live ?D conn q" using l(1) by (auto simp: conn_live_def)
      note cfg = wp_apply_remote_cfg [where P = ?D, OF stable_pdata [OF mr_scope.stable_over] _ bounds this
          allows_pdata [OF l(3,1)] 1 False]
      from False s 1(1) show ?thesis
        by (auto intro!: cfg wp_remote_from_data [OF mr_scope.stable_over, where d = d] wp_flush_greeting [where P = "?R i" for i, OF _ plain_scope.stable_over r m]
            wp_flush_client_err_mr_dereg [OF _ P nn wf] wp_flush_client_err_mr_remote_delete [OF _ P nn wf] Q)
    qed
  qed
qed

lemma wp_flush_client_main:
  assumes s: "P s" and P: "stable E P" and wf: "events_wf E" and bounds: "cfg_in_bounds E"
    and fits: "file_fits E path HELLO_T_SIZE pm" and Q: "\<And>ret pm s'. P s' \<Longrightarrow> Q (ret, pm) s'"
  shows "wp (flush_client_main E addr port path pm wc s) Q"
  unfolding flush_client_main_def wp_bind
proof (rule wp_client_mem [OF P s fits], goal_cases)
  case (1 m n pm' s')
  then have nn: "cm_mr_ptr m \<noteq> NULL" by (simp add: mem_ready_def)
  have l: "live (reg_peer m n E P peer) peer O_peer" "live (pub_conn m n E P peer q conn) peer O_peer" for peer q conn by (intro lives)+
  have pd: "pdata_arg_ok None" by (simp add: pdata_arg_ok_def)
  from 1 show ?case
    by (auto intro!: wp_common_peer_via_address [OF region_scope.stable_over 1(1)] wp_client_connect_cq [OF _ peer_scope.stable_over l(1) _ pd wf]
        wp_push_mr [OF cq_scope.stable_over _ liveD [OF l(2)]] wp_flush_client_err_free [OF _ P nn] wp_flush_client_err_peer_delete [OF _ P nn]
        wp_flush_client_err_conn_disconnect [OF _ P nn wf] wp_flush_client_registered [OF _ P wf bounds 1(2)] Q)
qed (simp add: Q)

abbreviation "cfg_mem m n E P c \<equiv> over (owns_plain O_peer_cfg) E (over_mem m n E P) c"
abbreviation "cfg_peer m n E P c peer \<equiv> over owns_peer E (cfg_mem m n E P c) peer"
abbreviation "cfg_ep m n E P c peer ep \<equiv> over (owns_ep_of peer) E (cfg_peer m n E P c peer) ep"
abbreviation "cfg_mr m n E P c peer ep mr \<equiv> over owns_mr E (cfg_ep m n E P c peer ep) mr"

lemma wp_flush_server_err_free:
  assumes "over_mem m n E P s" and "stable E P" and "cm_mr_ptr m \<noteq> NULL" and "\<And>s'. P s' \<Longrightarrow> Q ret s'"
  shows "wp (flush_server_err_free E ret m s) Q"
  using assms by (auto simp: flush_server_err_free_def intro!: wp_release_mem)

lemma wp_flush_server_err_pcfg_delete:
  assumes "cfg_mem m n E P c s" and "stable E P" and "cm_mr_ptr m \<noteq> NULL" and "\<And>s'. P s' \<Longrightarrow> Q ret s'"
  shows "wp (flush_server_err_pcfg_delete E ret c m s) Q"
  using assms by (auto simp: flush_server_err_pcfg_delete_def intro!: wp_pop_peer_cfg region_scope.stable_over wp_flush_server_err_free)

lemma wp_flush_server_err_peer_delete:
  assumes "cfg_peer m n E P c peer s" and "stable E P" and "cm_mr_ptr m \<noteq> NULL" and "\<And>s'. P s' \<Longrightarrow> Q ret s'"
  shows "wp (flush_server_err_peer_delete E ret peer c m s) Q"
  using assms by (auto simp: flush_server_err_peer_delete_def intro!: peer_scope.wp_pop plain_scope.stable_over wp_flush_server_err_pcfg_delete)

lemma wp_flush_server_err_ep_shutdown:
  assumes "cfg_ep m n E P c peer ep s" and "stable E P" and "cm_mr_ptr m \<noteq> NULL" and "\<And>s'. P s' \<Longrightarrow> Q ret s'"
  shows "wp (flush_server_err_ep_shutdown E ret ep peer c m s) Q"
  using assms by (auto simp: flush_server_err_ep_shutdown_def intro!: ep_scope.wp_pop peer_scope.stable_over wp_flush_server_err_peer_delete)

lemma wp_flush_server_err_mr_dereg:
  assumes "cfg_mr m n E P c peer ep mr s" and "stable E P" and "cm_mr_ptr m \<noteq> NULL" and "\<And>s'. P s' \<Longrightarrow> Q ret s'"
  shows "wp (flush_server_err_mr_dereg E ret mr ep peer c m s) Q"
  using assms by (auto simp: flush_server_err_mr_dereg_def intro!: mr_scope.wp_pop ep_scope.stable_over wp_flush_server_err_ep_shutdown)

lemma flush_data_eq:
  assumes m: "obj_at mr (O_mr_local m) s" and c: "obj_at pcfg (O_peer_cfg c) s"
  shows "flush_data_of mr pcfg off s = Some ((0, le_bytes 2 off @ [21, 1] @ mr_descriptor m @
     [of_bool (pcfg_direct_write_to_pmem c), 0, 0]), s)"
proof -
  have len: "length (mr_descriptor m) = 21" by (simp add: mr_descriptor_def)
  have d: "rpma_mr_get_descriptor mr (Some (replicate 24 0)) s = Some ((0, Some (mr_descriptor m @ [0, 0, 0])), s)"
    using rpma_mr_get_descriptor_eq [OF m, of "replicate 24 0"] by (simp add: RPMA_MR_DESC_SIZE_def numeral_3_eq_3)
  have p: "rpma_peer_cfg_get_descriptor pcfg (Some [0, 0, 0]) s = Some ((0, Some [of_bool (pcfg_direct_write_to_pmem c), 0, 0]), s)"
    using c obj_at_nonnull [OF c]
    by (auto simp: rpma_peer_cfg_get_descriptor_def rpma_peer_cfg_get_direct_write_to_pmem_def load_peer_cfg_def deref_def obj_at_def write_bytes_def)
  show ?thesis
    using d p len obj_at_nonnull [OF m] obj_at_nonnull [OF c]
    by (simp add: flush_data_of_def rpma_mr_get_descriptor_size_def rpma_peer_cfg_get_descriptor_size_def RPMA_MR_DESC_SIZE_def)
qed

lemma wp_flush_data_of:
  assumes "P s" and "live P mr O_mr_local" and "live P pcfg O_peer_cfg" and "\<And>r. Q r s"
  shows "wp (flush_data_of mr pcfg off s) Q"
  using liveD [OF assms(2,1)] liveD [OF assms(3,1)] assms(4) by (auto simp: flush_data_eq)

lemma wp_flush_server_registered:
  assumes s: "cfg_mr m n E P c peer ep mr s" and P: "stable E P" and wf: "events_wf E" and data: "data \<noteq> NULL"
    and nn: "cm_mr_ptr m \<noteq> NULL" and Q: "\<And>ret s'. P s' \<Longrightarrow> Q ret s'"
  shows "wp (flush_server_registered E path data mr ep peer c m s) Q"
proof -
  let ?P = "cfg_mr m n E P c peer ep mr"
  have l: "live ?P mr O_mr_local" "live ?P peer O_peer" "ep_live ?P ep peer" "live ?P c O_peer_cfg" by (intro lives ep_lives)+
  have pd: "pdata_arg_ok (Some \<lparr>pdata_ptr = data, pdata_len = SIZEOF_COMMON_DATA\<rparr>)"
    using data by (simp add: pdata_arg_ok_def SIZEOF_COMMON_DATA_def)
  show ?thesis
    unfolding flush_server_registered_def Let_def
    by (auto intro!: wp_advise_mem [where P = ?P, OF s mr_scope.stable_over l(1)] wp_flush_data_of [where P = ?P, OF _ l(1,4)]
        wp_server_accept_cq [where P = ?P, OF _ mr_scope.stable_over l(3,2) _ pd wf] wp_close_cq [OF _ mr_scope.stable_over wf]
        wp_flush_server_err_mr_dereg [OF _ P nn] Q)
qed

lemma wp_flush_server_configured:
  assumes s: "cfg_mem m n E P c s" and P: "stable E P" and wf: "events_wf E" and data: "data \<noteq> NULL"
    and nn: "cm_mr_ptr m \<noteq> NULL" and Q: "\<And>ret s'. P s' \<Longrightarrow> Q ret s'"
  shows "wp (flush_server_configured E addr port path data c m s) Q"
proof -
  have l: "live (cfg_peer m n E P c peer) peer O_peer" "live (cfg_ep m n E P c peer ep) peer O_peer" for peer ep by (intro lives)+
  show ?thesis
    unfolding flush_server_configured_def
    by (auto intro!: wp_common_peer_via_address [OF plain_scope.stable_over s] wp_push_ep [OF peer_scope.stable_over _ live_nonnull [OF l(1)]]
        wp_push_mr [OF ep_scope.stable_over _ liveD [OF l(2)]]
        wp_flush_server_err_pcfg_delete [OF _ P nn] wp_flush_server_err_peer_delete [OF _ P nn] wp_flush_server_err_ep_shutdown [OF _ P nn]
        wp_flush_server_registered [OF _ P wf data nn] Q)
qed

lemma wp_flush_server_main:
  assumes s: "P s" and P: "stable E P" and wf: "events_wf E" and data: "data \<noteq> NULL"
    and fits: "file_fits E path KILOBYTE pm" and Q: "\<And>ret s'. P s' \<Longrightarrow> Q ret s'"
  shows "wp (flush_server_main E addr port path direct data pm s) Q"
  unfolding flush_server_main_def wp_bind
proof (rule wp_server_mem [OF P s fits], goal_cases)
  case (1 m n pm' s')
  then have nn: "cm_mr_ptr m \<noteq> NULL" by (simp add: mem_ready_def)
  have l: "live (cfg_mem m n E P c) c O_peer_cfg" "allows (cfg_mem m n E P c) c (\<lambda>_. O_peer_cfg x)" for c x by (intro lives allow)+
  from 1 show ?case
    by (auto intro!: wp_push_peer_cfg [OF _ region_scope.stable_over] wp_set_direct_write [where P = "cfg_mem m n E P c" for c, OF _ l]
        wp_pop_peer_cfg [OF _ region_scope.stable_over] wp_flush_server_err_free [OF _ P nn] wp_flush_server_configured [OF _ P wf data nn] Q
        split: option.split)
qed (simp add: Q)

end
