(* ===== verification/Persistent_Props.thy ===== *)
theory Persistent_Props
  imports Flush_Persistent
begin

text \<open>
  Properties of the examples with persistent memory: the signature survives a power failure only together
  with the data it stands for, a greeting that was received is durable, the description of a region
  reaches the other side unchanged, and what happens with files that are too small and with private
  data that is not well formed.
\<close>

subsection \<open>Power failures\<close>

text \<open>C7: the signature marks valid contents, whenever the power fails. A file is mapped; if it has no
  signature the greeting, or an empty string, is stored and made persistent, then the signature.
  Interrupted after any number of these steps, and whatever part of the stores that were not persisted has
  reached the medium, byte by byte: if the signature is found there afterwards, then either it was
  there before and the file is unchanged, or the initial contents are complete. If all steps were
  done the signature is there.\<close>

theorem signature_survives_with_contents:
  assumes "common_pmem_map_file_with_signature_check E path sz m0 \<lparr>pm_image = img, pm_ops = []\<rparr> s = Some ((0, m, pm), s')"
    and "survives (pm\<lparr>pm_ops := take k (pm_ops pm)\<rparr>) new"
  shows "(strncmp_eq new SIGNATURE_STR SIGNATURE_LEN \<longrightarrow>
      (if strncmp_eq img SIGNATURE_STR SIGNATURE_LEN then new = img
       else if sz = 0 then take HELLO_T_SIZE (drop SIGNATURE_LEN new) = write_hello_str en
       else new ! SIGNATURE_LEN = 0)) \<and>
    (length (pm_ops pm) \<le> k \<longrightarrow> strncmp_eq new SIGNATURE_STR SIGNATURE_LEN)"
proof -
  from assms(1) have "init_with_signature sz SIGNATURE_LEN \<lparr>pm_image = img, pm_ops = []\<rparr> = Some pm"
    by (auto simp: common_pmem_map_file_with_signature_check_def Let_def split: bind_splits if_splits)
  from init_ops [OF this order_refl] show ?thesis
  proof (elim disjE conjE exE)
    assume sig: "strncmp_eq img SIGNATURE_STR SIGNATURE_LEN" "pm = \<lparr>pm_image = img, pm_ops = []\<rparr>"
    with assms(2) have "new = img" by (auto simp: survives_def intro: nth_equalityI)
    with sig show ?thesis by simp
  next
    fix x :: "u8 list"
    assume no: "\<not> strncmp_eq img SIGNATURE_STR SIGNATURE_LEN" and x: "x = (if sz = 0 then write_hello_str en else [0])"
      and room: "SIGNATURE_LEN + length x \<le> length img" and pm: "pm = \<lparr>pm_image = img, pm_ops = publish SIGNATURE_LEN x SIGNATURE_STR\<rparr>"
    have l: "length SIGNATURE_STR \<le> SIGNATURE_LEN" by (simp add: signature_len)
    have new: "survives \<lparr>pm_image = img, pm_ops = take k (publish SIGNATURE_LEN x SIGNATURE_STR)\<rparr> new" using assms(2) pm by simp
    have "take (length x) (drop SIGNATURE_LEN new) = x" if "strncmp_eq new SIGNATURE_STR SIGNATURE_LEN"
      using publish_crash [OF l room new] no that strncmp_eq_take [of SIGNATURE_LEN] by (metis signature_len(1))
    moreover have "new ! SIGNATURE_LEN = 0" if "take (Suc 0) (drop SIGNATURE_LEN new) = [0]"
      using that by (cases "drop SIGNATURE_LEN new") (auto dest: nth_via_drop)
    moreover have "strncmp_eq new SIGNATURE_STR SIGNATURE_LEN" if "length (pm_ops pm) \<le> k"
    proof -
      have "take (length SIGNATURE_STR) new = SIGNATURE_STR" using new that pm by (intro published [OF l room]) simp
      with strncmp_same [of SIGNATURE_LEN SIGNATURE_STR] strncmp_eq_take [of SIGNATURE_LEN new] show ?thesis by (simp add: signature_len(1))
    qed
    ultimately show ?thesis using no x by auto
  qed
qed

definition pmem_env :: env where
  "pmem_env = sample_env\<lparr>respond := \<lambda>tr c. (sample_respond tr c)\<lparr>
     rint := (case c of Pmem_map_file _ \<Rightarrow> 1 | _ \<Rightarrow> rint (sample_respond tr c)), rmr := (sample_ibv_mr 7)\<lparr>mr_length := 2048\<rparr>\<rparr>\<rparr>"

lemma zeros_no_signature: "\<not> strncmp_eq (replicate 2048 0) SIGNATURE_STR SIGNATURE_LEN"
proof -
  have e: "replicate 2048 (0 :: u8) = 0 # replicate 2047 0" "SIGNATURE_LEN = Suc 16"
    by (simp_all add: signature_len flip: replicate_Suc)
  show ?thesis unfolding e SIGNATURE_STR_def strncmp_eq.simps by simp
qed

lemma pmem_mapped:
  "\<exists>m pm s'. common_pmem_map_file_with_signature_check pmem_env ''f'' KILOBYTE no_mem \<lparr>pm_image = replicate 2048 0, pm_ops = []\<rparr> init_st
     = Some ((0, m, pm), s') \<and> pm = \<lparr>pm_image = replicate 2048 0, pm_ops = publish 17 [0] SIGNATURE_STR\<rparr>"
proof -
  have "init_with_signature KILOBYTE 17 \<lparr>pm_image = replicate 2048 0, pm_ops = []\<rparr>
      = Some \<lparr>pm_image = replicate 2048 0, pm_ops = publish 17 [0] SIGNATURE_STR\<rparr>"
    using zeros_no_signature by (simp add: init_with_signature_def pm_store_def pm_persist_def publish_def signature_len KILOBYTE_def)
  then show ?thesis
    by (simp add: common_pmem_map_file_with_signature_check_def common_pmem_map_file_def Let_def ext_def pmem_env_def sample_respond_def
        signature_len KILOBYTE_def)
qed

theorem signature_survives_with_contents_witness:
  "\<exists>m pm s'. common_pmem_map_file_with_signature_check pmem_env ''f'' KILOBYTE no_mem \<lparr>pm_image = replicate 2048 0, pm_ops = []\<rparr> init_st
     = Some ((0, m, pm), s') \<and> strncmp_eq (pm_view pm) SIGNATURE_STR SIGNATURE_LEN \<and> pm_view pm ! SIGNATURE_LEN = 0"
proof -
  from pmem_mapped obtain m pm s' where
    c: "common_pmem_map_file_with_signature_check pmem_env ''f'' KILOBYTE no_mem \<lparr>pm_image = replicate 2048 0, pm_ops = []\<rparr> init_st
      = Some ((0, m, pm), s')" and pm: "pm = \<lparr>pm_image = replicate 2048 0, pm_ops = publish 17 [0] SIGNATURE_STR\<rparr>" by blast
  have "survives pm (pm_view pm)" by (rule view_survives) (auto simp: pm publish_def signature_len)
  then have v: "survives (pm\<lparr>pm_ops := take 4 (pm_ops pm)\<rparr>) (pm_view pm)" by (simp add: pm publish_def)
  have no: "KILOBYTE \<noteq> 0" "length (pm_ops pm) \<le> 4"
    by (simp_all add: KILOBYTE_def pm publish_def)
  from signature_survives_with_contents [OF c v] zeros_no_signature no c show ?thesis by (auto simp: SIGNATURE_LEN_def)
qed

lemma read_greeting_stores:
  assumes "read_greeting E dma conn src_mr src_off mr m pm wc s = Some ((0, pm'), s')" and "cm_is_pmem m \<noteq> 0"
  obtains pm1 where "pm_store (unat (cm_data_offset m)) (take KILOBYTE (dma (trace s'))) pm = Some pm1"
    and "pm' = pm_persist (unat (cm_data_offset m)) KILOBYTE pm1"
  using assms by (auto simp: read_greeting_def Let_def mem_store_def mem_persist_def split: bind_splits if_splits)


definition greeting_env :: env where
  "greeting_env = sample_env\<lparr>respond := \<lambda>tr c. (sample_respond tr c)\<lparr>
     rint := (case c of Ibv_poll_cq _ _ \<Rightarrow> 1 | _ \<Rightarrow> 0), rwc := [sample_wc\<lparr>wc_opcode := IBV_WC_RDMA_READ\<rparr>]\<rparr>\<rparr>"

definition greeting_mem :: common_mem where
  "greeting_mem = \<lparr>cm_mr_ptr = 4096, cm_mr_size = 2048, cm_data_offset = 17, cm_is_pmem = 1\<rparr>"

definition greeting_st :: st where
  "greeting_st = sample_st\<lparr>mem := (mem sample_st)(42 \<mapsto> O_cq (sample_cq\<lparr>cq_shared_comp_channel := False\<rparr>))\<rparr>"

lemma sample_greeting:
  "\<exists>pm' s'. read_greeting greeting_env (\<lambda>_. replicate 1024 65) 50 51 0 47 greeting_mem \<lparr>pm_image = replicate 2048 0, pm_ops = []\<rparr> sample_wc greeting_st
     = Some ((0, pm'), s')"
proof -
  have "map_option (fst o fst) (read_greeting greeting_env (\<lambda>_. replicate 1024 65) 50 51 0 47 greeting_mem
      \<lparr>pm_image = replicate 2048 0, pm_ops = []\<rparr> sample_wc greeting_st) = Some 0"
    by code_simp
  then show ?thesis by (auto simp: map_option_case split: option.splits)
qed


subsection \<open>Descriptions of regions\<close>

lemma common_data_eq:
  assumes "obj_at mr (O_mr_local m) s"
  shows "common_data_of mr off s = Some ((0, le_bytes 2 off @ [21, 0] @ mr_descriptor m @ [0, 0, 0]), s)"
  using rpma_mr_get_descriptor_eq [OF assms, of "replicate 24 0"] obj_at_nonnull [OF assms]
  by (simp add: common_data_of_def rpma_mr_get_descriptor_size_def RPMA_MR_DESC_SIZE_def numeral_3_eq_3)

lemma from_descriptor_size:
  assumes "21 \<le> n" and "n < length desc"
  shows "rpma_mr_remote_from_descriptor E (Some desc) n (Some x) s = rpma_mr_remote_from_descriptor E (Some desc) (length desc) (Some x) s"
  using assms by (simp add: rpma_mr_remote_from_descriptor_def RPMA_MR_DESC_SIZE_def)

text \<open>C18: the other side works on the region that was described. The structure that a program of the examples
  sends as private data is 28 bytes long, as it announces. A peer, in any state of its own, that has these
  bytes as the private data of its connection gets the same offset and one new remote region with the
  address, size, key and usage of the local region, or an out-of-memory error and nothing else.\<close>

theorem described_region_is_rebuilt:
  assumes "obj_at mr (O_mr_local m) s" and "usage_valid (mrl_usage m)"
  shows "\<exists>data. common_data_of mr off s = Some ((0, data), s) \<and> length data = unat SIZEOF_COMMON_DATA \<and>
     (bytes_at (pdata_ptr d) t = Some data \<longrightarrow>
       wp (remote_from_data E d t) (\<lambda>(ret, k, off') t'.
         if malloc_ok E t
         then ret = 0 \<and> off' = off \<and> created {k} {#} t t' \<and> load_mr_remote k t' =
           Some \<lparr>mrr_raddr = mr_addr (mrl_ibv_mr m), mrr_size = mr_length (mrl_ibv_mr m),
                 mrr_rkey = mr_rkey (mrl_ibv_mr m), mrr_usage = mrl_usage m\<rparr>
         else ret = RPMA_E_NOMEM \<and> mem t' = mem t \<and> acct t' = acct t))"
proof -
  let ?data = "le_bytes 2 off @ [21, 0] @ mr_descriptor m @ [0, 0, 0]"
  let ?desc = "mr_descriptor m @ [0, 0, 0]"
  have len: "length (mr_descriptor m) = 21" by (simp add: mr_descriptor_def)
  have r: "read_bytes 0 2 ?data = Some (le_bytes 2 off)" "read_bytes 2 1 ?data = Some [21]" "drop 4 ?data = ?desc"
    by (simp_all add: read_bytes_def)
  have off: "le_val (le_bytes 2 off) = off" by (simp add: le_val_le_bytes_full)
  have n: "unat (hd [21 :: u8]) = 21" by simp
  have "wp (rpma_mr_remote_from_descriptor E (Some ?desc) (length ?desc) (Some NULL) t) (\<lambda>(ret, k) t'.
      if malloc_ok E t
      then ret = 0 \<and> created {the k} {#} t t' \<and> load_mr_remote (the k) t' =
        Some \<lparr>mrr_raddr = mr_addr (mrl_ibv_mr m), mrr_size = mr_length (mrl_ibv_mr m),
              mrr_rkey = mr_rkey (mrl_ibv_mr m), mrr_usage = mrl_usage m\<rparr>
      else ret = RPMA_E_NOMEM \<and> mem t' = mem t \<and> acct t' = acct t)"
    by (rule wp_rpma_mr_remote_from_descriptor [OF _ refl assms(2)])
       (auto simp: RPMA_MR_DESC_SIZE_def len created_def fresh_def load_mr_remote_def deref_def)
  moreover have "rpma_mr_remote_from_descriptor E (Some ?desc) 21 (Some NULL) t = rpma_mr_remote_from_descriptor E (Some ?desc) (length ?desc) (Some NULL) t"
    by (rule from_descriptor_size) (simp_all add: len RPMA_MR_DESC_SIZE_def)
  ultimately have "wp (remote_from_data E d t) (\<lambda>(ret, k, off') t'.
      if malloc_ok E t
      then ret = 0 \<and> off' = off \<and> created {k} {#} t t' \<and> load_mr_remote k t' =
        Some \<lparr>mrr_raddr = mr_addr (mrl_ibv_mr m), mrr_size = mr_length (mrl_ibv_mr m),
              mrr_rkey = mr_rkey (mrl_ibv_mr m), mrr_usage = mrl_usage m\<rparr>
      else ret = RPMA_E_NOMEM \<and> mem t' = mem t \<and> acct t' = acct t)" if "bytes_at (pdata_ptr d) t = Some ?data"
    unfolding remote_from_data_def that Option.bind.bind_lunit r n by (auto simp: off elim!: wp_mono)
  moreover have "length ?data = unat SIZEOF_COMMON_DATA" by (simp add: len SIZEOF_COMMON_DATA_def RPMA_MR_DESC_SIZE_def)
  ultimately show ?thesis unfolding common_data_eq [OF assms(1)] by blast
qed

theorem described_region_is_rebuilt_witness:
  "\<exists>data. common_data_of 47 21 sample_st = Some ((0, data), sample_st) \<and>
     wp (remote_from_data sample_env \<lparr>pdata_ptr = 90, pdata_len = 28\<rparr> (heap_st [(90, O_bytes data)]))
       (\<lambda>(ret, k, off') t'. off' = 21 \<and> map_option mrr_raddr (load_mr_remote k t') = Some 4096)"
proof -
  have u: "usage_valid (mrl_usage sample_mr)" by (simp add: sample_mr_def)
  obtain data where d: "common_data_of 47 21 sample_st = Some ((0, data), sample_st)"
    using common_data_eq [OF sample_objs(5)] by blast
  have b: "bytes_at (pdata_ptr \<lparr>pdata_ptr = 90, pdata_len = 28\<rparr>) (heap_st [(90, O_bytes data)]) = Some data"
    by (simp add: bytes_at_def deref_def CONN_CFG_DEFAULT_ADDR_def)
  have ok: "malloc_ok sample_env (heap_st [(90, O_bytes data)])"
    by (simp add: malloc_ok_def fresh_def sample_respond_def CONN_CFG_DEFAULT_ADDR_def)
  from described_region_is_rebuilt [OF sample_objs(5) u, of 21 "\<lparr>pdata_ptr = 90, pdata_len = 28\<rparr>" "heap_st [(90, O_bytes data)]" sample_env] d b
  have "wp (remote_from_data sample_env \<lparr>pdata_ptr = 90, pdata_len = 28\<rparr> (heap_st [(90, O_bytes data)]))
       (\<lambda>(ret, k, off') t'. off' = 21 \<and> map_option mrr_raddr (load_mr_remote k t') = Some 4096)"
    by (auto simp: ok sample_mr_def sample_ibv_mr_def elim!: wp_mono)
  with d show ?thesis by blast
qed

subsection \<open>Files and private data that do not fit\<close>

text \<open>C39: a file that is too small is unmapped twice. If the file can be mapped as persistent memory but is smaller
  than the signature and the data, the mapping function unmaps it and fails; the flag that says that there is a
  mapping stays set, so that the cleanup of the program unmaps the same address range again.\<close>

theorem small_file_is_unmapped_twice:
  assumes "r = respond E (trace s) (Pmem_map_file p)" and "raddr r \<noteq> 0" and "rint r \<noteq> 0"
    and "unat (mr_length (rmr r)) < SIGNATURE_LEN + KILOBYTE"
  shows "\<exists>s'. server_mem E (Some p) pm s = Some (Inl (- 1), s') \<and>
     map fst (trace s') = [Pmem_unmap (raddr r) (mr_length (rmr r)), Pmem_unmap (raddr r) (mr_length (rmr r)), Pmem_map_file p] @
       map fst (trace s)"
proof -
  have nn: "unat (raddr r) \<noteq> NULL" using assms(2) by (simp add: unsigned_eq_0_iff)
  have small: "mr_length (rmr r) < of_nat (SIGNATURE_LEN + KILOBYTE)"
    using assms(4) by (simp add: word_less_nat_alt unat_of_nat_small signature_len KILOBYTE_def del: of_nat_add)
  show ?thesis
    using assms(1-3) nn small server_need(3)
    by (simp add: server_mem_def common_pmem_map_file_with_signature_check_def common_pmem_map_file_def ext_def Let_def
        release_mem_def common_pmem_unmap_file_def del: of_nat_add)
qed

theorem small_file_is_unmapped_twice_witness:
  "\<exists>s'. server_mem (pmem_env\<lparr>respond := \<lambda>tr c. (respond pmem_env tr c)\<lparr>rmr := sample_ibv_mr 7\<rparr>\<rparr>) (Some ''f'') \<lparr>pm_image = [], pm_ops = []\<rparr> init_st
      = Some (Inl (- 1), s') \<and>
     map fst (trace s') = [Pmem_unmap 4096 1024, Pmem_unmap 4096 1024, Pmem_map_file ''f'']"
  using small_file_is_unmapped_twice [where E = "pmem_env\<lparr>respond := \<lambda>tr c. (respond pmem_env tr c)\<lparr>rmr := sample_ibv_mr 7\<rparr>\<rparr>"
      and s = init_st and p = "''f''" and pm = "\<lparr>pm_image = [], pm_ops = []\<rparr>", OF refl]
  by (simp add: pmem_env_def sample_respond_def sample_ibv_mr_def signature_len KILOBYTE_def init_st_def)

text \<open>The configuration of the other side is read from a place the private data gives; if that is behind the end
  of the private data, the read is out of bounds.\<close>

lemma cfg_read_out_of_bounds:
  assumes "bytes_at (pdata_ptr d) s = Some bs" and "28 \<le> length bs" and "length bs \<le> 4 + unat (bs ! 2)" and "bs ! 3 \<noteq> 0" and "malloc_ok E s"
  shows "apply_remote_cfg E conn d s = None"
proof -
  have r: "read_bytes 2 1 bs = Some [bs ! 2]" "read_bytes 3 1 bs = Some [bs ! 3]"
    using assms(2) by (simp_all add: read_bytes_def take_Suc hd_drop_conv_nth)
  have n: "\<not> unat (bs ! 3) < 1" using assms(4) by (simp add: unsigned_eq_0_iff)
  have none: "rpma_peer_cfg_from_descriptor E (Some []) (unat (bs ! 3)) (Some NULL) s = None"
    using n assms(5) by (simp add: rpma_peer_cfg_from_descriptor_def malloc_def malloc_ok_def fresh_def ext_def read_bytes_def Let_def)
  have e: "drop (4 + unat (bs ! 2)) bs = []" using assms(3) by simp
  show ?thesis unfolding apply_remote_cfg_def assms(1) Option.bind.bind_lunit r list.sel e none by simp
qed

end
