(* ===== verification/Atomic_Write.thy ===== *)
theory Atomic_Write
  imports Program_Rules
begin

text \<open>
  The client of the atomic-write example, \<open>src/examples/07-atomic-write/client.c\<close>: it appends words to a
  log in the memory of the server. The log has a counter of the bytes in use; a word is written behind
  the last one and flushed, then the counter is set by an atomic write and flushed.
  \<^item> The words of the command line are lists of bytes without the terminator. What the RDMA read of the
    counter has placed in the buffer is \<open>dma\<close>, a function of the calls so far.
  \<^item> \<open>used\<close> is a local variable; its address, from which the atomic write takes the new value, is \<open>USED\<close>.
  \<^item> Messages and log thresholds are left out.
\<close>

definition FLUSH_ID :: u64 where "FLUSH_ID = 0xF01D"
definition MAX_WORD_LENGTH :: nat where "MAX_WORD_LENGTH = KILOBYTE - 1"
definition USED :: u64 where "USED = 4096"

subsection \<open>The program\<close>

text \<open>The word as it is placed in the buffer, with the terminator behind it.\<close>

definition word_buffer :: "u8 list \<Rightarrow> u8 list" where
  "word_buffer w = strncpy w MAX_WORD_LENGTH @ [0]"

text \<open>One round of the loop; anything but 0 leaves the loop.\<close>

definition append_flushed ::
  "env \<Rightarrow> ptr \<Rightarrow> ibv_wc \<Rightarrow> st \<Rightarrow> ((rc \<times> ibv_wc) \<times> st) option" where
  "append_flushed E cq wc s = do {
     (ret, s) \<leftarrow> rpma_cq_wait E cq s;
     if ret \<noteq> 0 then Some ((ret, wc), s)
     else do {
       ((ret, wcs, _), s) \<leftarrow> rpma_cq_get_wc E cq 1 (Some [wc]) None s;
       let wc = (case the wcs of [] \<Rightarrow> wc | w # _ \<Rightarrow> w);
       if ret \<noteq> 0 then Some ((ret, wc), s)
       else if wc_wr_id wc \<noteq> FLUSH_ID then Some ((- 1, wc), s)
       else if wc_status wc \<noteq> IBV_WC_SUCCESS then Some ((- 1, wc), s)
       else Some ((ret, wc), s)
     }
   }"

definition append_word ::
  "env \<Rightarrow> ptr \<Rightarrow> ptr \<Rightarrow> ptr \<Rightarrow> ptr \<Rightarrow> ptr \<Rightarrow> u64 \<Rightarrow> rpma_flush_type \<Rightarrow> u8 list \<Rightarrow> u64 \<Rightarrow> ibv_wc \<Rightarrow> st
    \<Rightarrow> ((rc \<times> u64 \<times> ibv_wc) \<times> st) option" where
  "append_word E conn remote_mr local_mr cq mr_ptr dst_used_offset flush_type w used wc s = do {
     (_, s) \<leftarrow> store mr_ptr (O_bytes (word_buffer w)) s;
     word \<leftarrow> bytes_at mr_ptr s;
     let word_size = of_nat (strlen word + 1);
     (ret, s) \<leftarrow> rpma_write E conn remote_mr used local_mr 0 word_size RPMA_F_COMPLETION_ON_ERROR 0 s;
     if ret \<noteq> 0 then Some ((ret, used, wc), s)
     else do {
       (ret, s) \<leftarrow> rpma_flush E conn remote_mr used word_size flush_type RPMA_F_COMPLETION_ON_ERROR 0 s;
       if ret \<noteq> 0 then Some ((ret, used, wc), s)
       else do {
         let used = used + word_size;
         (ret, s) \<leftarrow> rpma_atomic_write E conn remote_mr dst_used_offset USED RPMA_F_COMPLETION_ON_ERROR 0 s;
         if ret \<noteq> 0 then Some ((ret, used, wc), s)
         else do {
           (ret, s) \<leftarrow> rpma_flush E conn remote_mr dst_used_offset 8 flush_type RPMA_F_COMPLETION_ALWAYS FLUSH_ID s;
           if ret \<noteq> 0 then Some ((ret, used, wc), s)
           else do {
             ((ret, wc), s) \<leftarrow> append_flushed E cq wc s;
             Some ((ret, used, wc), s)
           }
         }
       }
     }
   }"

primrec append_words ::
  "env \<Rightarrow> ptr \<Rightarrow> ptr \<Rightarrow> ptr \<Rightarrow> ptr \<Rightarrow> ptr \<Rightarrow> u64 \<Rightarrow> rpma_flush_type \<Rightarrow> u8 list list \<Rightarrow> rc \<Rightarrow> u64 \<Rightarrow> ibv_wc \<Rightarrow> st
    \<Rightarrow> (rc \<times> st) option" where
  "append_words E conn remote_mr local_mr cq mr_ptr off flush_type [] ret used wc s = Some (ret, s)"
| "append_words E conn remote_mr local_mr cq mr_ptr off flush_type (w # ws) ret used wc s = do {
     ((ret, used, wc), s) \<leftarrow> append_word E conn remote_mr local_mr cq mr_ptr off flush_type w used wc s;
     if ret \<noteq> 0 then Some (ret, s)
     else append_words E conn remote_mr local_mr cq mr_ptr off flush_type ws ret used wc s
   }"

text \<open>The labels, from the last one on.\<close>

definition append_err_free :: "rc \<Rightarrow> ptr \<Rightarrow> st \<Rightarrow> (rc \<times> st) option" where
  "append_err_free ret mr_ptr s = do {
     (_, s) \<leftarrow> free mr_ptr s;
     Some (if ret \<noteq> 0 then - 2 else 0, s)
   }"

definition append_err_peer_delete :: "env \<Rightarrow> rc \<Rightarrow> ptr \<Rightarrow> ptr \<Rightarrow> st \<Rightarrow> (rc \<times> st) option" where
  "append_err_peer_delete E ret peer mr_ptr s = do {
     (_, s) \<leftarrow> rpma_peer_delete E (Some peer) s;
     append_err_free ret mr_ptr s
   }"

definition append_err_conn_disconnect :: "env \<Rightarrow> rc \<Rightarrow> ptr \<Rightarrow> ptr \<Rightarrow> ptr \<Rightarrow> st \<Rightarrow> (rc \<times> st) option" where
  "append_err_conn_disconnect E ret conn peer mr_ptr s = do {
     (_, s) \<leftarrow> common_disconnect_and_wait_for_conn_close E conn s;
     append_err_peer_delete E ret peer mr_ptr s
   }"

definition append_err_peer_cfg_delete :: "env \<Rightarrow> rc \<Rightarrow> ptr \<Rightarrow> ptr \<Rightarrow> ptr \<Rightarrow> ptr \<Rightarrow> st \<Rightarrow> (rc \<times> st) option" where
  "append_err_peer_cfg_delete E ret pcfg conn peer mr_ptr s = do {
     (_, s) \<leftarrow> rpma_peer_cfg_delete (Some pcfg) s;
     append_err_conn_disconnect E ret conn peer mr_ptr s
   }"

definition append_err_mr_dereg :: "env \<Rightarrow> rc \<Rightarrow> ptr \<Rightarrow> ptr \<Rightarrow> ptr \<Rightarrow> ptr \<Rightarrow> ptr \<Rightarrow> st \<Rightarrow> (rc \<times> st) option" where
  "append_err_mr_dereg E ret local_mr pcfg conn peer mr_ptr s = do {
     (_, s) \<leftarrow> rpma_mr_dereg E (Some local_mr) s;
     append_err_peer_cfg_delete E ret pcfg conn peer mr_ptr s
   }"

definition append_err_mr_remote_delete ::
  "env \<Rightarrow> rc \<Rightarrow> ptr \<Rightarrow> ptr \<Rightarrow> ptr \<Rightarrow> ptr \<Rightarrow> ptr \<Rightarrow> ptr \<Rightarrow> st \<Rightarrow> (rc \<times> st) option" where
  "append_err_mr_remote_delete E ret remote_mr local_mr pcfg conn peer mr_ptr s = do {
     (_, s) \<leftarrow> rpma_mr_remote_delete (Some remote_mr) s;
     append_err_mr_dereg E ret local_mr pcfg conn peer mr_ptr s
   }"

text \<open>Reading the counter, up to the loop: the result is the error, or the counter and the kind of flush.\<close>

definition read_used ::
  "env \<Rightarrow> dma \<Rightarrow> ptr \<Rightarrow> ptr \<Rightarrow> ptr \<Rightarrow> ptr \<Rightarrow> u64 \<Rightarrow> u64 \<Rightarrow> ibv_wc \<Rightarrow> st
    \<Rightarrow> ((rc \<times> u64 \<times> rpma_flush_type \<times> ibv_wc) \<times> st) option" where
  "read_used E dma conn remote_mr local_mr cq remote_size dst_used_offset wc s = do {
     (ret, s) \<leftarrow> rpma_cq_wait E cq s;
     if ret \<noteq> 0 then Some ((ret, 0, RPMA_FLUSH_TYPE_VISIBILITY, wc), s)
     else do {
       ((ret, wcs, _), s) \<leftarrow> rpma_cq_get_wc E cq 1 (Some [wc]) None s;
       let wc = (case the wcs of [] \<Rightarrow> wc | w # _ \<Rightarrow> w);
       if ret \<noteq> 0 then Some ((ret, 0, RPMA_FLUSH_TYPE_VISIBILITY, wc), s)
       else if wc_status wc \<noteq> IBV_WC_SUCCESS then Some ((- 1, 0, RPMA_FLUSH_TYPE_VISIBILITY, wc), s)
       else do {
         let used = le_val (take 8 (dma (trace s)));
         if remote_size \<le> used then Some ((- 1, used, RPMA_FLUSH_TYPE_VISIBILITY, wc), s)
         else do {
           ((ret, remote_flush_type), s) \<leftarrow> rpma_mr_remote_get_flush_type remote_mr (Some 0) s;
           if ret \<noteq> 0 then Some ((ret, used, RPMA_FLUSH_TYPE_VISIBILITY, wc), s)
           else Some ((0, used, if the remote_flush_type AND RPMA_MR_USAGE_FLUSH_TYPE_PERSISTENT \<noteq> 0
             then RPMA_FLUSH_TYPE_PERSISTENT else RPMA_FLUSH_TYPE_VISIBILITY, wc), s)
         }
       }
     }
   }"

text \<open>From the moment there is a remote region.\<close>

definition append_remote ::
  "env \<Rightarrow> dma \<Rightarrow> u8 list list \<Rightarrow> ptr \<Rightarrow> u64 \<Rightarrow> ptr \<Rightarrow> ptr \<Rightarrow> ptr \<Rightarrow> ptr \<Rightarrow> ptr \<Rightarrow> ibv_wc \<Rightarrow> st \<Rightarrow> (rc \<times> st) option" where
  "append_remote E dma words remote_mr dst_used_offset local_mr pcfg conn peer mr_ptr wc s = do {
     ((ret, remote_size), s) \<leftarrow> rpma_mr_remote_get_size remote_mr (Some 0) s;
     if ret \<noteq> 0 then append_err_mr_remote_delete E ret remote_mr local_mr pcfg conn peer mr_ptr s
     else do {
       (ret, s) \<leftarrow> rpma_read E conn local_mr 0 remote_mr dst_used_offset 8 RPMA_F_COMPLETION_ALWAYS 0 s;
       if ret \<noteq> 0 then append_err_mr_remote_delete E ret remote_mr local_mr pcfg conn peer mr_ptr s
       else do {
         ((ret, cq), s) \<leftarrow> rpma_conn_get_cq conn (Some NULL) s;
         if ret \<noteq> 0 then append_err_mr_remote_delete E ret remote_mr local_mr pcfg conn peer mr_ptr s
         else do {
           ((ret, used, flush_type, wc), s) \<leftarrow>
             read_used E dma conn remote_mr local_mr (the cq) (the remote_size) dst_used_offset wc s;
           if ret \<noteq> 0 then append_err_mr_remote_delete E ret remote_mr local_mr pcfg conn peer mr_ptr s
           else do {
             (ret, s) \<leftarrow> append_words E conn remote_mr local_mr (the cq) mr_ptr dst_used_offset flush_type words ret used wc s;
             append_err_mr_remote_delete E ret remote_mr local_mr pcfg conn peer mr_ptr s
           }
         }
       }
     }
   }"

text \<open>From the moment the memory is registered.\<close>

definition append_registered ::
  "env \<Rightarrow> dma \<Rightarrow> u8 list list \<Rightarrow> ptr \<Rightarrow> ptr \<Rightarrow> ptr \<Rightarrow> ptr \<Rightarrow> ptr \<Rightarrow> ibv_wc \<Rightarrow> st \<Rightarrow> (rc \<times> st) option" where
  "append_registered E dma words local_mr pcfg conn peer mr_ptr wc s = do {
     ((ret, pdata), s) \<leftarrow> rpma_conn_get_private_data conn (Some no_pdata) s;
     if ret \<noteq> 0 \<or> pdata_len (the pdata) < SIZEOF_COMMON_DATA
     then append_err_mr_dereg E ret local_mr pcfg conn peer mr_ptr s
     else do {
       dst_data \<leftarrow> bytes_at (pdata_ptr (the pdata)) s;
       data_offset \<leftarrow> read_bytes 0 2 dst_data;
       mr_desc_size \<leftarrow> read_bytes 2 1 dst_data;
       ((ret, remote_mr), s) \<leftarrow>
         rpma_mr_remote_from_descriptor E (Some (drop 4 dst_data)) (unat (hd mr_desc_size)) (Some NULL) s;
       if ret \<noteq> 0 then append_err_mr_dereg E ret local_mr pcfg conn peer mr_ptr s
       else append_remote E dma words (the remote_mr) (le_val data_offset) local_mr pcfg conn peer mr_ptr wc s
     }
   }"

text \<open>From the moment there is a connection.\<close>

definition append_connected ::
  "env \<Rightarrow> dma \<Rightarrow> u8 list list \<Rightarrow> ptr \<Rightarrow> ptr \<Rightarrow> ptr \<Rightarrow> ibv_wc \<Rightarrow> st \<Rightarrow> (rc \<times> st) option" where
  "append_connected E dma words conn peer mr_ptr wc s = do {
     ((ret, pcfg), s) \<leftarrow> rpma_peer_cfg_new E (Some NULL) s;
     if ret \<noteq> 0 then append_err_conn_disconnect E ret conn peer mr_ptr s
     else do {
       (ret, s) \<leftarrow> rpma_peer_cfg_set_direct_write_to_pmem (the pcfg) True s;
       if ret \<noteq> 0 then append_err_peer_cfg_delete E ret (the pcfg) conn peer mr_ptr s
       else do {
         (ret, s) \<leftarrow> rpma_conn_apply_remote_peer_cfg conn (the pcfg) s;
         if ret \<noteq> 0 then append_err_peer_cfg_delete E ret (the pcfg) conn peer mr_ptr s
         else do {
           ((ret, local_mr), s) \<leftarrow> rpma_mr_reg E peer (of_nat mr_ptr) (of_nat KILOBYTE)
             (RPMA_MR_USAGE_WRITE_SRC OR RPMA_MR_USAGE_READ_DST) (Some NULL) s;
           if ret \<noteq> 0 then append_err_peer_cfg_delete E ret (the pcfg) conn peer mr_ptr s
           else append_registered E dma words (the local_mr) (the pcfg) conn peer mr_ptr wc s
         }
       }
     }
   }"

definition append_client_main ::
  "env \<Rightarrow> dma \<Rightarrow> string \<Rightarrow> string \<Rightarrow> u8 list list \<Rightarrow> ibv_wc \<Rightarrow> st \<Rightarrow> (rc \<times> st) option" where
  "append_client_main E dma addr port words wc s = do {
     (mr_ptr, s) \<leftarrow> malloc_aligned E KILOBYTE s;
     if mr_ptr = NULL then Some (- 1, s)
     else do {
       ((ret, peer), s) \<leftarrow> common_peer_via_address E addr RPMA_UTIL_IBV_CONTEXT_REMOTE NULL s;
       if ret \<noteq> 0 then append_err_free ret mr_ptr s
       else do {
         ((ret, conn), s) \<leftarrow> client_connect E peer addr port NULL None NULL s;
         if ret \<noteq> 0 then append_err_peer_delete E ret peer mr_ptr s
         else append_connected E dma words conn peer mr_ptr wc s
       }
     }
   }"

subsection \<open>What the program leaves\<close>

lemma wp_append_flushed:
  assumes "P s" and "stable E P" and "conn_live P conn cq" and "\<And>r s'. P s' \<Longrightarrow> Q r s'"
  shows "wp (append_flushed E cq wc s) Q"
  unfolding append_flushed_def Let_def
  by (auto intro!: wp_cq_wait [where P = P, OF assms(1-3)] wp_get_wc [where P = P, OF _ assms(2,3)] assms(4))

lemma wp_append_word:
  assumes s: "P s" and P: "stable E P" and conn: "conn_live P conn cq"
    and mrs: "live P remote_mr O_mr_remote" "live P local_mr O_mr_local" and buf: "live P mr_ptr O_bytes" "\<And>x. allows P mr_ptr (\<lambda>_. O_bytes x)"
    and Q: "\<And>r s'. P s' \<Longrightarrow> Q r s'"
  shows "wp (append_word E conn remote_mr local_mr cq mr_ptr off ft w used wc s) Q"
  unfolding append_word_def Let_def
  by (auto intro!: wp_store_allowed [where P = P, OF s buf(2)] wp_bytes_at [where P = P, OF _ buf(1)]
      wp_write [where P = P, OF _ P conn mrs(2,1) flags_nonzero(2)] wp_flush [where P = P, OF _ P conn mrs(1)]
      wp_atomic_write [where P = P, OF _ P conn mrs(1)] wp_append_flushed [where P = P, OF _ P conn] Q)

lemma wp_append_words:
  assumes P: "stable E P" and conn: "conn_live P conn cq"
    and mrs: "live P remote_mr O_mr_remote" "live P local_mr O_mr_local" and buf: "live P mr_ptr O_bytes" "\<And>x. allows P mr_ptr (\<lambda>_. O_bytes x)"
    and Q: "\<And>r s'. P s' \<Longrightarrow> Q r s'"
  shows "P s \<Longrightarrow> wp (append_words E conn remote_mr local_mr cq mr_ptr off ft words ret used wc s) Q"
proof (induction words arbitrary: ret used wc s)
  case (Cons w words)
  then show ?case by (auto intro!: wp_append_word [where P = P, OF _ P conn mrs buf] Q)
qed (simp add: Q)

abbreviation "log_peer E P b peer \<equiv> over owns_peer E (over (owns_plain O_bytes) E P b) peer"
abbreviation "log_conn E P b peer q conn \<equiv> over (owns_conn_cq E q) E (log_peer E P b peer) conn"
abbreviation "log_cfg E P b peer q conn cfg \<equiv> over (owns_plain O_peer_cfg) E (log_conn E P b peer q conn) cfg"
abbreviation "log_mr E P b peer q conn cfg mr \<equiv> over owns_mr E (log_cfg E P b peer q conn cfg) mr"
abbreviation "log_remote E P b peer q conn cfg mr r \<equiv> over (owns_plain O_mr_remote) E (log_mr E P b peer q conn cfg mr) r"

lemma wp_append_err_free:
  assumes "over (owns_plain O_bytes) E P b s" and "stable E P" and "\<And>ret s'. P s' \<Longrightarrow> Q ret s'"
  shows "wp (append_err_free ret b s) Q"
  using assms by (auto simp: append_err_free_def intro!: wp_pop_free)

lemma wp_append_err_peer_delete:
  assumes "log_peer E P b peer s" and "stable E P" and "\<And>ret s'. P s' \<Longrightarrow> Q ret s'"
  shows "wp (append_err_peer_delete E ret peer b s) Q"
  using assms by (auto simp: append_err_peer_delete_def intro!: peer_scope.wp_pop plain_scope.stable_over wp_append_err_free)

lemma wp_append_err_conn_disconnect:
  assumes "log_conn E P b peer q conn s" and "stable E P" and "events_wf E" and "\<And>ret s'. P s' \<Longrightarrow> Q ret s'"
  shows "wp (append_err_conn_disconnect E ret conn peer b s) Q"
  unfolding append_err_conn_disconnect_def
  by (auto intro!: wp_close_cq [OF assms(1) peer_scope.stable_over assms(3)] wp_append_err_peer_delete [OF _ assms(2)] assms(4))

lemma wp_append_err_peer_cfg_delete:
  assumes "log_cfg E P b peer q conn cfg s" and "stable E P" and "events_wf E" and "\<And>ret s'. P s' \<Longrightarrow> Q ret s'"
  shows "wp (append_err_peer_cfg_delete E ret cfg conn peer b s) Q"
  unfolding append_err_peer_cfg_delete_def
  by (auto intro!: wp_pop_peer_cfg [OF assms(1) cq_scope.stable_over] wp_append_err_conn_disconnect [OF _ assms(2,3)] assms(4))

lemma wp_append_err_mr_dereg:
  assumes "log_mr E P b peer q conn cfg mr s" and "stable E P" and "events_wf E" and "\<And>ret s'. P s' \<Longrightarrow> Q ret s'"
  shows "wp (append_err_mr_dereg E ret mr cfg conn peer b s) Q"
  unfolding append_err_mr_dereg_def
  by (auto intro!: mr_scope.wp_pop [OF assms(1) plain_scope.stable_over] wp_append_err_peer_cfg_delete [OF _ assms(2,3)] assms(4))

lemma wp_append_err_mr_remote_delete:
  assumes "log_remote E P b peer q conn cfg mr r s" and "stable E P" and "events_wf E" and "\<And>ret s'. P s' \<Longrightarrow> Q ret s'"
  shows "wp (append_err_mr_remote_delete E ret r mr cfg conn peer b s) Q"
  unfolding append_err_mr_remote_delete_def
  by (auto intro!: wp_pop_mr_remote [OF assms(1) mr_scope.stable_over] wp_append_err_mr_dereg [OF _ assms(2,3)] assms(4))

lemma wp_read_used:
  assumes "P s" and "stable E P" and "conn_live P conn cq" and "live P remote_mr O_mr_remote" and "\<And>r s'. P s' \<Longrightarrow> Q r s'"
  shows "wp (read_used E dma conn remote_mr local_mr cq sz off wc s) Q"
  unfolding read_used_def Let_def
  by (auto intro!: wp_cq_wait [where P = P, OF assms(1-3)] wp_get_wc [where P = P, OF _ assms(2,3)]
      wp_get_flush_type [where P = P, OF _ assms(4)] assms(5))

lemma wp_append_remote:
  assumes s: "log_remote E P b peer q conn cfg mr r s" and P: "stable E P" and wf: "events_wf E" and Q: "\<And>ret s'. P s' \<Longrightarrow> Q ret s'"
  shows "wp (append_remote E dma words r off mr cfg conn peer b wc s) Q"
proof -
  let ?P = "log_remote E P b peer q conn cfg mr r"
  have st: "stable E ?P" by (rule plain_scope.stable_over)
  have l: "conn_live ?P conn q" "live ?P r O_mr_remote" "live ?P mr O_mr_local" "live ?P b O_bytes"
    by (intro lives)+
  have a: "allows ?P b (\<lambda>_. O_bytes x)" for x by (intro allow)
  show ?thesis
    unfolding append_remote_def
    by (auto intro!: wp_get_size [where P = ?P, OF s l(2)] wp_read [where P = ?P, OF s st l(1,3,2) flags_nonzero(1)]
        wp_get_cq [where P = ?P, OF _ l(1)] wp_read_used [where P = ?P, OF _ st l(1,2)]
        wp_append_words [where P = ?P, OF st l(1-4) a] wp_append_err_mr_remote_delete [OF _ P wf] Q)
qed

lemma wp_append_registered:
  assumes s: "log_mr E P b peer q conn cfg mr s" and P: "stable E P" and wf: "events_wf E" and Q: "\<And>ret s'. P s' \<Longrightarrow> Q ret s'"
  shows "wp (append_registered E dma words mr cfg conn peer b wc s) Q"
proof -
  let ?P = "log_mr E P b peer q conn cfg mr"
  have l: "conn_live ?P conn q" by (intro lives)
  show ?thesis
    unfolding append_registered_def wp_bind
  proof (rule wp_private_data [where P = ?P, OF s l], goal_cases)
    case (1 d)
    show ?case
    proof (cases "pdata_len d < SIZEOF_COMMON_DATA")
      case True
      with s show ?thesis by (auto intro!: wp_append_err_mr_dereg [OF _ P wf] Q)
    next
      case False
      from common_data_bytes [OF 1 False] obtain bs where "bytes_at (pdata_ptr d) s = Some bs" "28 \<le> length bs" .
      with False s show ?thesis
        by (auto simp: read_bytes_def intro!: wp_push_mr_remote [OF mr_scope.stable_over] wp_append_err_mr_dereg [OF _ P wf]
            wp_append_remote [OF _ P wf] Q)
    qed
  qed
qed

lemma wp_append_connected:
  assumes s: "log_conn E P b peer q conn s" and P: "stable E P" and wf: "events_wf E" and Q: "\<And>ret s'. P s' \<Longrightarrow> Q ret s'"
  shows "wp (append_connected E dma words conn peer b wc s) Q"
proof -
  let ?P = "log_cfg E P b peer q conn"
  have l: "live (?P g) g O_peer_cfg" "conn_live (?P g) conn q" "live (?P g) peer O_peer" for g by (intro lives)+
  have a: "allows (?P g) g (\<lambda>_. O_peer_cfg x)" "allows (?P g) conn (set_direct_write v)" for g x v by (intro allow)+
  show ?thesis
    unfolding append_connected_def
    by (auto intro!: wp_push_peer_cfg [OF s cq_scope.stable_over] wp_set_direct_write [OF _ l(1) a(1)]
        wp_apply_peer_cfg [OF _ l(2,1) a(2)] wp_push_mr [OF plain_scope.stable_over _ liveD [OF l(3)]]
        wp_append_err_conn_disconnect [OF _ P wf] wp_append_err_peer_cfg_delete [OF _ P wf] wp_append_registered [OF _ P wf] Q)
qed

lemma wp_append_client_main:
  assumes P: "stable E P" and s: "P s" and wf: "events_wf E" and Q: "\<And>ret s'. P s' \<Longrightarrow> Q ret s'"
  shows "wp (append_client_main E dma addr port words wc s) Q"
  unfolding append_client_main_def
  by (auto intro!: wp_malloc_aligned [OF P s] wp_common_peer_via_address [OF plain_scope.stable_over]
      wp_client_connect_cq [OF _ peer_scope.stable_over lives(1) _ _ wf] wp_append_err_free [OF _ P]
      wp_append_err_peer_delete [OF _ P] wp_append_connected [OF _ P wf] Q)

end
