(* ===== verification/Atomic_Write_Props.thy ===== *)
theory Atomic_Write_Props
  imports Atomic_Write
begin

text \<open>
  What the client of the atomic-write example does to the log. The work requests a state has posted are
  read off its trace; \<open>remote_write\<close> is the effect of one of them on the memory of the server, a list of
  bytes. The log has its counter at offset 8 and its data from offset 16 on, as in \<open>struct log\<close> of the
  server.
\<close>

subsection \<open>Work requests and their effect\<close>

fun posted :: "event list \<Rightarrow> ibv_send_wr list" where
  "posted [] = []"
| "posted ((Ibv_post_send qp wr, r) # tr) = wr # posted tr"
| "posted (_ # tr) = posted tr"

text \<open>What is sent: the inlined counter, or bytes of the registered buffer at \<open>b\<close>.\<close>

definition local_bytes :: "ptr \<Rightarrow> u8 list \<Rightarrow> u64 \<Rightarrow> ibv_sge \<Rightarrow> u8 list" where
  "local_bytes b buf used sge =
     (if sge_lkey sge = None then le_bytes (unat (sge_length sge)) used
      else take (unat (sge_length sge)) (drop (unat (sge_addr sge - of_nat b)) buf))"

definition remote_write :: "rpma_mr_remote \<Rightarrow> (ibv_sge \<Rightarrow> u8 list) \<Rightarrow> ibv_send_wr \<Rightarrow> u8 list \<Rightarrow> u8 list" where
  "remote_write m loc wr img =
     (case (wr_opcode wr, wr_rdma wr, wr_sg_list wr) of
        (IBV_WR_RDMA_WRITE, Some (a, key), Some sge) \<Rightarrow>
          let off = unat (a - mrr_raddr m) in take off img @ loc sge @ drop (off + length (loc sge)) img
      | _ \<Rightarrow> img)"

definition log_used :: "u8 list \<Rightarrow> u64" where
  "log_used img = le_val (take 8 (drop 8 img))"

definition log_data :: "u8 list \<Rightarrow> u8 list" where
  "log_data img = take (unat (log_used img) - 16) (drop 16 img)"

text \<open>The bytes that are appended for a word: at most 1023, and the terminator.\<close>

definition log_entry :: "u8 list \<Rightarrow> u8 list" where
  "log_entry w = take MAX_WORD_LENGTH (c_string w) @ [0]"

lemma word_buffer_entry:
  "take (length (log_entry w)) (word_buffer w) = log_entry w" "strlen (word_buffer w) + 1 = length (log_entry w)"
  "length (log_entry w) \<le> 1024"
proof -
  define x where "x = take MAX_WORD_LENGTH (c_string w)"
  have x: "\<forall>b\<in>set x. b \<noteq> 0" unfolding x_def c_string_def by (auto dest!: in_set_takeD set_takeWhileD)
  have tail: "replicate n 0 @ [0] = 0 # replicate n (0 :: u8)" for n by (induction n) auto
  have e: "log_entry w = x @ [0]" by (simp add: log_entry_def x_def)
  have b: "word_buffer w = x @ 0 # replicate (MAX_WORD_LENGTH - length (c_string w)) 0"
    unfolding word_buffer_def strncpy_def x_def using tail by simp
  show "take (length (log_entry w)) (word_buffer w) = log_entry w" unfolding e b by simp
  have "takeWhile (\<lambda>b. b \<noteq> 0) (word_buffer w) = x" unfolding b using x by (subst takeWhile_append2) auto
  then show "strlen (word_buffer w) + 1 = length (log_entry w)" unfolding strlen_def c_string_def e by simp
  show "length (log_entry w) \<le> 1024" unfolding e x_def by (simp add: MAX_WORD_LENGTH_def KILOBYTE_def)
qed

subsection \<open>The log\<close>

definition with_entry :: "u64 \<Rightarrow> u8 list \<Rightarrow> u8 list \<Rightarrow> u8 list" where
  "with_entry used x img = take (unat used) img @ x @ drop (unat used + length x) img"

definition with_used :: "u64 \<Rightarrow> u8 list \<Rightarrow> u8 list" where
  "with_used used img = take 8 img @ le_bytes 8 used @ drop 16 img"

lemma log_with_entry:
  assumes "log_used img = used" and "16 \<le> unat used" and "unat used + length x \<le> length img"
  shows "log_used (with_entry used x img) = used" and "log_data (with_entry used x img) = log_data img"
    and "length (with_entry used x img) = length img"
proof -
  have h: "take (unat used) (with_entry used x img) = take (unat used) img" using assms(3) by (simp add: with_entry_def)
  have "take 8 (drop 8 (with_entry used x img)) = take 8 (drop 8 (take (unat used) (with_entry used x img)))"
    using assms(2) by (simp add: drop_take min_def)
  also have "\<dots> = take 8 (drop 8 img)" unfolding h using assms(2) by (simp add: drop_take min_def)
  finally show u: "log_used (with_entry used x img) = used" using assms(1) by (simp add: log_used_def)
  show "log_data (with_entry used x img) = log_data img" unfolding log_data_def u assms(1) using h by (simp flip: drop_take)
  show "length (with_entry used x img) = length img" using assms(3) by (simp add: with_entry_def)
qed

lemma log_with_used:
  assumes "log_used img = used" and "16 \<le> unat used" and room: "unat used + length x \<le> length img" and "length img < 2 ^ 64"
  shows "log_used (with_used (used + of_nat (length x)) (with_entry used x img)) = used + of_nat (length x)"
    and "log_data (with_used (used + of_nat (length x)) (with_entry used x img)) = log_data img @ x"
proof -
  let ?i = "with_entry used x img" and ?u = "used + of_nat (length x)"
  have len: "16 \<le> length ?i" using assms by (simp add: with_entry_def)
  have n: "unat (of_nat (length x) :: u64) = length x" using assms by (intro unat_of_nat_small) simp
  have u: "unat ?u = unat used + length x" using assms n by (subst unat_add_lem [THEN iffD1]) simp_all
  have "take 8 (drop 8 (with_used ?u ?i)) = le_bytes 8 ?u" using len by (simp add: with_used_def)
  then show lu: "log_used (with_used ?u ?i) = ?u" by (simp add: log_used_def le_val_le_bytes_full)
  have "drop 16 (with_used ?u ?i) = drop 16 ?i" using len by (simp add: with_used_def)
  then have "log_data (with_used ?u ?i) = take (unat used + length x - 16) (drop 16 ?i)" unfolding log_data_def lu u by simp
  also have "\<dots> = drop 16 (take (unat used + length x) ?i)" by (simp add: drop_take)
  also have "take (unat used + length x) ?i = take (unat used) img @ x" using room by (simp add: with_entry_def)
  finally show "log_data (with_used ?u ?i) = log_data img @ x"
    using assms(1,2) room by (simp add: log_data_def drop_take)
qed

subsection \<open>What a round posts\<close>

text \<open>The objects that a round uses; none of them is a buffer.\<close>

definition append_ready :: "ptr \<Rightarrow> ptr \<Rightarrow> ptr \<Rightarrow> ptr \<Rightarrow> rpma_mr_remote \<Rightarrow> rpma_mr_local \<Rightarrow> st \<Rightarrow> bool" where
  "append_ready conn remote_mr local_mr cq m l s \<longleftrightarrow>
     (\<exists>c f a raw. obj_at conn (O_conn c) s \<and> obj_at (conn_flush c) (O_flush f) s \<and> obj_at (flush_context f) (O_apm a) s \<and>
        obj_at (apm_raw_mr a) (O_mr_local raw) s) \<and>
     obj_at remote_mr (O_mr_remote m) s \<and> obj_at local_mr (O_mr_local l) s \<and> (cq \<noteq> NULL \<longrightarrow> (\<exists>x. obj_at cq (O_cq x) s))"

lemma append_ready_cong: "append_ready conn r l q m d s \<Longrightarrow> mem t = mem s \<Longrightarrow> append_ready conn r l q m d t"
  by (simp add: append_ready_def obj_at_def)

lemma append_ready_store:
  "append_ready conn r l q m d s \<Longrightarrow> obj_at b (O_bytes x) s \<Longrightarrow> append_ready conn r l q m d (s\<lparr>mem := (mem s)(b \<mapsto> O_bytes y)\<rparr>)"
  unfolding append_ready_def by (elim conjE exE, intro conjI exI) (auto simp: obj_at_def)

lemma wp_posted:
  assumes "posts E c wr s m" and "\<And>r s'. mem s' = mem s \<Longrightarrow> posted (trace s') = wr # posted (trace s) \<Longrightarrow> Q r s'"
  shows "wp m Q"
  using assms by (auto simp: posts_def Let_def)

lemma wp_write_posted:
  assumes "append_ready conn r l q m d s"
    and "\<And>ret s'. mem s' = mem s \<Longrightarrow>
      posted (trace s') = rdma_wr IBV_WR_RDMA_WRITE None m d off 0 len RPMA_F_COMPLETION_ON_ERROR 0 # posted (trace s) \<Longrightarrow> Q ret s'"
  shows "wp (rpma_write E conn r off l 0 len RPMA_F_COMPLETION_ON_ERROR 0 s) Q"
proof -
  from assms(1) obtain c where o: "obj_at conn (O_conn c) s" "obj_at l (O_mr_local d) s" "obj_at r (O_mr_remote m) s"
    by (auto simp: append_ready_def)
  show ?thesis by (rule wp_posted [OF rpma_write_posts(1) [OF o flags_nonzero(2)]]) (rule assms(2))
qed

lemma wp_flush_posted:
  assumes "append_ready conn r l q m d s" and "flags \<noteq> 0"
    and "\<And>ret wr s'. mem s' = mem s \<Longrightarrow> wr_opcode wr = IBV_WR_RDMA_READ \<Longrightarrow> posted (trace s') = wr # posted (trace s) \<Longrightarrow> Q ret s'"
    and "\<And>ret s'. mem s' = mem s \<Longrightarrow> posted (trace s') = posted (trace s) \<Longrightarrow> ret \<noteq> 0 \<Longrightarrow> Q ret s'"
  shows "wp (rpma_flush E conn r off len ft flags ctx s) Q"
proof -
  from assms(1) obtain c f a raw where o: "obj_at conn (O_conn c) s" "obj_at r (O_mr_remote m) s" "obj_at (conn_flush c) (O_flush f) s"
    "obj_at (flush_context f) (O_apm a) s" "obj_at (apm_raw_mr a) (O_mr_local raw) s"
    by (auto simp: append_ready_def)
  from rpma_flush_posts [OF o assms(2), of ft E ctx off len] consider
      "posts E c (rdma_wr IBV_WR_RDMA_READ None m raw off 0 8 flags ctx) s (rpma_flush E conn r off len ft flags ctx s)"
    | "rpma_flush E conn r off len ft flags ctx s = Some (RPMA_E_NOSUPP, s)" by (auto split: if_splits)
  then show ?thesis
  proof cases
    case 1
    then show ?thesis by (rule wp_posted) (erule assms(3) [rotated 2]; simp)
  next
    case 2
    then show ?thesis by (auto intro: assms(4) [unfolded RPMA_E_NOSUPP_def])
  qed
qed

abbreviation "used_wr m off \<equiv> atomic_wr m USED off RPMA_F_COMPLETION_ON_ERROR 0"

lemma wp_atomic_write_posted:
  assumes "append_ready conn r l q m d s"
    and "\<And>ret s'. mem s' = mem s \<Longrightarrow> posted (trace s') = used_wr m off # posted (trace s) \<Longrightarrow> Q ret s'"
    and "\<And>ret s'. mem s' = mem s \<Longrightarrow> posted (trace s') = posted (trace s) \<Longrightarrow> ret \<noteq> 0 \<Longrightarrow> Q ret s'"
  shows "wp (rpma_atomic_write E conn r off USED RPMA_F_COMPLETION_ON_ERROR 0 s) Q"
proof -
  from assms(1) obtain c where o: "obj_at conn (O_conn c) s" "obj_at r (O_mr_remote m) s" by (auto simp: append_ready_def)
  have "USED \<noteq> 0" by (simp add: USED_def)
  from rpma_atomic_write_posts [OF o flags_nonzero(2) this, of off E 0] consider
      "posts E c (used_wr m off) s (rpma_atomic_write E conn r off USED RPMA_F_COMPLETION_ON_ERROR 0 s)"
    | "rpma_atomic_write E conn r off USED RPMA_F_COMPLETION_ON_ERROR 0 s = Some (RPMA_E_INVAL, s)" by (auto split: if_splits)
  then show ?thesis
  proof cases
    case 1
    then show ?thesis by (rule wp_posted) (rule assms(2))
  next
    case 2
    then show ?thesis by (auto intro: assms(3) [unfolded RPMA_E_INVAL_def])
  qed
qed

lemma wp_flushed_posted:
  assumes "append_ready conn r l q m d s"
    and "\<And>ret wc s'. mem s' = mem s \<Longrightarrow> posted (trace s') = posted (trace s) \<Longrightarrow> Q (ret, wc) s'"
  shows "wp (append_flushed E q wc s) Q"
proof -
  have q: "q = NULL \<or> (\<exists>x. obj_at q (O_cq x) t)" if "mem t = mem s" for t
    using append_ready_cong [OF assms(1) that] by (auto simp: append_ready_def)
  have wait: "wp (rpma_cq_wait E q s) (\<lambda>_ t. mem t = mem s \<and> posted (trace t) = posted (trace s))"
    using q [OF refl] by (auto simp: rpma_cq_wait_def ext_def obj_at_nonnull)
  have get: "wp (rpma_cq_get_wc E q 1 (Some [wc]) None t) (\<lambda>_ t'. mem t' = mem t \<and> posted (trace t') = posted (trace t))"
    if "mem t = mem s" for t
    using q [OF that] by (auto simp: rpma_cq_get_wc_def ext_def Let_def obj_at_nonnull)
  show ?thesis
    unfolding append_flushed_def Let_def by (auto intro!: wp_mono [OF wait] wp_mono [OF get] assms(2))
qed

text \<open>The requests of a round, in the order in which they are posted: the word, a flush, the counter, a flush.\<close>

definition append_requests :: "rpma_mr_remote \<Rightarrow> rpma_mr_local \<Rightarrow> u64 \<Rightarrow> u64 \<Rightarrow> u64 \<Rightarrow> ibv_send_wr list \<Rightarrow> bool" where
  "append_requests m d off used n ws \<longleftrightarrow> (\<exists>f1 f2. wr_opcode f1 = IBV_WR_RDMA_READ \<and> wr_opcode f2 = IBV_WR_RDMA_READ \<and>
     ws = [rdma_wr IBV_WR_RDMA_WRITE None m d used 0 n RPMA_F_COMPLETION_ON_ERROR 0, f1, used_wr m off, f2])"

definition round_posted :: "rpma_mr_remote \<Rightarrow> rpma_mr_local \<Rightarrow> u64 \<Rightarrow> u64 \<Rightarrow> u64 \<Rightarrow> st \<Rightarrow> rc \<Rightarrow> u64 \<Rightarrow> st \<Rightarrow> bool" where
  "round_posted m d off used n s ret used' s' \<longleftrightarrow> (\<exists>ws us. append_requests m d off used n (ws @ us) \<and>
     posted (trace s') = rev ws @ posted (trace s) \<and> (ret = 0 \<longrightarrow> us = []) \<and> (3 \<le> length ws \<longrightarrow> used' = used + n))"

lemma round_postedI:
  assumes "wr_opcode f1 = IBV_WR_RDMA_READ" and "wr_opcode f2 = IBV_WR_RDMA_READ"
    and "posted (trace s') = rev ws @ posted (trace s)"
    and "ws @ us = [rdma_wr IBV_WR_RDMA_WRITE None m d used 0 n RPMA_F_COMPLETION_ON_ERROR 0, f1, used_wr m off, f2]"
    and "ret = 0 \<Longrightarrow> us = []" and "3 \<le> length ws \<Longrightarrow> used' = used + n"
  shows "round_posted m d off used n s ret used' s'"
  using assms unfolding round_posted_def append_requests_def by blast

lemma append_word_posts:
  assumes ready: "append_ready conn r l q m d s" and buf: "obj_at b (O_bytes old) s"
  shows "wp (append_word E conn r l q b off ft w used wc s) (\<lambda>(ret, used', wc') s'.
    bytes_at b s' = Some (word_buffer w) \<and> round_posted m d off used (of_nat (length (log_entry w))) s ret used' s')"
proof -
  let ?n = "of_nat (length (log_entry w)) :: u64" and ?t = "s\<lparr>mem := (mem s)(b \<mapsto> O_bytes (word_buffer w))\<rparr>"
  let ?w1 = "rdma_wr IBV_WR_RDMA_WRITE None m d used 0 ?n RPMA_F_COMPLETION_ON_ERROR 0"
  let ?f = "?w1\<lparr>wr_opcode := IBV_WR_RDMA_READ\<rparr>"
  have st: "store b (O_bytes (word_buffer w)) s = Some ((), ?t)" using buf by (simp add: store_def obj_at_def)
  have at: "bytes_at b u = Some (word_buffer w)" if "mem u = mem ?t" for u
    using that buf by (simp add: bytes_at_def deref_def obj_at_def)
  have ready: "append_ready conn r l q m d u" if "mem u = mem ?t" for u
    using append_ready_cong [OF append_ready_store [OF ready buf] that] .
  have n: "(of_nat (strlen (word_buffer w) + 1) :: u64) = ?n" using word_buffer_entry(2) by presburger
  note [simp del] = of_nat_add of_nat_Suc
  show ?thesis
    unfolding append_word_def st bind.bind_lunit prod.case at [OF refl] Let_def n wp_bind
  proof (rule wp_write_posted [OF ready [OF refl]], goal_cases)
    case (1 ret1 s1)
    note s1 = this
    have e1: "round_posted m d off used ?n s ret1 used s1" if "ret1 \<noteq> 0"
      by (rule round_postedI [of ?f ?f _ "[?w1]"]) (use s1 that in simp_all)
    show ?case
    proof (simp add: e1 at [OF s1(1)], intro impI, rule wp_flush_posted [OF ready [OF s1(1)] flags_nonzero(2)], goal_cases)
      case (2 ret2 s2)
      have "round_posted m d off used ?n s ret2 used s2"
        by (rule round_postedI [of ?f ?f _ "[?w1]"]) (use s1 2 in simp_all)
      with 2 s1 at [of s2] show ?case by simp
    next
      case (1 ret2 f1 s2)
      note s2 = this
      have e2: "round_posted m d off used ?n s ret2 used s2" if "ret2 \<noteq> 0"
        by (rule round_postedI [OF s2(3), of ?f _ "[?w1, f1]"]) (use s1 s2 that in simp_all)
      have m2: "mem s2 = mem ?t" using s1(1) s2(2) by simp
      show ?case
      proof (simp add: e2 at [OF m2], intro impI, rule wp_atomic_write_posted [OF ready [OF m2]], goal_cases)
        case (2 ret3 s3)
        have "round_posted m d off used ?n s ret3 (used + ?n) s3"
          by (rule round_postedI [OF s2(3), of ?f _ "[?w1, f1]"]) (use s1 s2 2 in simp_all)
        with 2 m2 at [of s3] show ?case by simp
      next
        case (1 ret3 s3)
        note s3 = this
        have e3: "round_posted m d off used ?n s ret3 (used + ?n) s3" if "ret3 \<noteq> 0"
          by (rule round_postedI [OF s2(3), of ?f _ "[?w1, f1, used_wr m off]"]) (use s1 s2 s3 that in simp_all)
        have m3: "mem s3 = mem ?t" using m2 s3(2) by simp
        show ?case
        proof (simp add: e3 at [OF m3], intro impI, rule wp_flush_posted [OF ready [OF m3] flags_nonzero(1)], goal_cases)
          case (2 ret4 s4)
          have "round_posted m d off used ?n s ret4 (used + ?n) s4"
            by (rule round_postedI [OF s2(3), of ?f _ "[?w1, f1, used_wr m off]"]) (use s1 s2 s3 2 in simp_all)
          with 2 m3 at [of s4] show ?case by simp
        next
          case (1 ret4 f2 s4)
          note s4 = this
          have e4: "round_posted m d off used ?n s ret (used + ?n) s5" if "posted (trace s5) = posted (trace s4)" for ret s5
            by (rule round_postedI [OF s2(3) s4(3), of _ "[?w1, f1, used_wr m off, f2]"]) (use s1 s2 s3 s4 that in simp_all)
          have m4: "mem s4 = mem ?t" using m3 s4(2) by simp
          show ?case
            by (simp add: e4 at [OF m4], intro impI, rule wp_flushed_posted [OF ready [OF m4]]) (use m4 at in \<open>simp add: e4\<close>)
        qed
      qed
    qed
  qed
qed

lemma append_effect:
  assumes "append_requests m d 8 used (of_nat (length (log_entry w))) ws" and "mr_addr (mrl_ibv_mr d) = of_nat b"
    and "log_used img = used" and "16 \<le> unat used" and "unat used + length (log_entry w) \<le> length img"
    and u: "3 \<le> k \<Longrightarrow> u = used + of_nat (length (log_entry w))"
  shows "fold (remote_write m (local_bytes b (word_buffer w) u)) (take k ws) img =
    (if k = 0 then img else if k < 3 then with_entry used (log_entry w) img
     else with_used (used + of_nat (length (log_entry w))) (with_entry used (log_entry w) img))"
proof -
  let ?n = "of_nat (length (log_entry w)) :: u64"
  define loc where "loc = local_bytes b (word_buffer w) u"
  let ?w1 = "rdma_wr IBV_WR_RDMA_WRITE None m d used 0 ?n RPMA_F_COMPLETION_ON_ERROR 0"
  have len: "unat (ucast ?n :: u32) = length (log_entry w)"
    using word_buffer_entry(3) [of w] by (simp add: unat_ucast_32 unat_of_nat_small)
  have "loc (local_sge d 0 ?n) = log_entry w"
    unfolding loc_def local_bytes_def local_sge_def using len assms(2) word_buffer_entry(1) by simp
  then have w1: "remote_write m loc ?w1 i = with_entry used (log_entry w) i" for i
    by (simp add: remote_write_def with_entry_def Let_def)
  define wr where "wr = used_wr m 8"
  have w3: "remote_write m loc wr i = with_used u i" for i
    by (simp add: remote_write_def with_used_def Let_def loc_def local_bytes_def wr_def)
  have rd: "remote_write m loc f i = i" if "wr_opcode f = IBV_WR_RDMA_READ" for f i
    using that by (simp add: remote_write_def)
  from assms(1) obtain f1 f2 where f: "wr_opcode f1 = IBV_WR_RDMA_READ" "wr_opcode f2 = IBV_WR_RDMA_READ" "ws = [?w1, f1, wr, f2]"
    unfolding append_requests_def wr_def by blast
  consider "k = 0" | "k = 1" | "k = 2" | "k = 3" | "4 \<le> k" by linarith
  then show ?thesis
    unfolding loc_def [symmetric] f(3) using u by cases (simp_all add: w1 w3 rd f(1,2) numeral_eq_Suc)
qed

subsection \<open>A round\<close>

text \<open>The log after the first \<open>k\<close> of the requests of a round.\<close>

definition log_stage :: "nat \<Rightarrow> nat \<Rightarrow> u64 \<Rightarrow> u8 list \<Rightarrow> u8 list \<Rightarrow> u8 list" where
  "log_stage k n used x img =
     (if min k n = 0 then img else if min k n < 3 then with_entry used x img
      else with_used (used + of_nat (length x)) (with_entry used x img))"

lemma append_round:
  assumes "append_ready conn r l q m d s" and "obj_at b (O_bytes old) s" and "mr_addr (mrl_ibv_mr d) = of_nat b"
    and "log_used img = used" and "16 \<le> unat used" and "unat used + length (log_entry w) \<le> length img"
  shows "wp (append_word E conn r l q b 8 ft w used wc s) (\<lambda>(ret, used', wc') s'. \<exists>ws.
     posted (trace s') = rev ws @ posted (trace s) \<and> bytes_at b s' = Some (word_buffer w) \<and>
     (\<forall>k. fold (remote_write m (local_bytes b (word_buffer w) used')) (take k ws) img = log_stage k (length ws) used (log_entry w) img) \<and>
     (ret = 0 \<longrightarrow> length ws = 4 \<and> used' = used + of_nat (length (log_entry w))))"
proof (rule wp_mono [OF append_word_posts [OF assms(1,2)]], clarsimp)
  fix ret used' s'
  let ?n = "of_nat (length (log_entry w)) :: u64"
  assume "round_posted m d 8 used ?n s ret used' s'"
  then obtain ws us where r: "append_requests m d 8 used ?n (ws @ us)" "posted (trace s') = rev ws @ posted (trace s)"
    "ret = 0 \<Longrightarrow> us = []" "3 \<le> length ws \<Longrightarrow> used' = used + ?n"
    unfolding round_posted_def by blast
  have "fold (remote_write m (local_bytes b (word_buffer w) used')) (take k ws) img = log_stage k (length ws) used (log_entry w) img" for k
  proof -
    have t: "take (min k (length ws)) (ws @ us) = take k ws" by (simp add: min_def)
    have "3 \<le> min k (length ws) \<Longrightarrow> used' = used + ?n" using r(4) by simp
    note e = append_effect [OF r(1) assms(3-6), where k = "min k (length ws)" and u = used', OF this, unfolded t]
    show ?thesis using e by (simp add: log_stage_def min_def split: if_splits)
  qed
  moreover have "length ws = 4" if "ret = 0" using r(1,3) that by (auto simp: append_requests_def)
  ultimately show "\<exists>ws. posted (trace s') = rev ws @ posted (trace s) \<and>
      (\<forall>k. fold (remote_write m (local_bytes b (word_buffer w) used')) (take k ws) img = log_stage k (length ws) used (log_entry w) img) \<and>
      (ret = 0 \<longrightarrow> length ws = 4 \<and> used' = used + ?n)"
    using r(2,4) by (intro exI [of _ ws]) auto
qed

text \<open>A log of 1040 bytes with one word, a connection with a buffer at the registered address, and a round
  that appends another word.\<close>

definition sample_log :: "u8 list" where
  "sample_log = replicate 8 76 @ le_bytes 8 (18 :: u64) @ [97, 0] @ replicate 1022 0"

definition append_st :: st where
  "append_st = sample_st\<lparr>mem := (mem sample_st)(4096 \<mapsto> O_bytes (replicate 1024 0))\<rparr>"

lemma append_st_ready:
  "append_ready 50 51 47 42 sample_remote sample_mr append_st" "obj_at 4096 (O_bytes (replicate 1024 0)) append_st"
proof -
  have o: "obj_at 50 (O_conn sample_conn) append_st" "obj_at 43 (O_flush \<lparr>flush_context = 46\<rparr>) append_st"
    "obj_at 46 (O_apm sample_apm) append_st" "obj_at 47 (O_mr_local sample_mr) append_st"
    "obj_at 51 (O_mr_remote sample_remote) append_st" "obj_at 42 (O_cq sample_cq) append_st"
    by (simp_all add: append_st_def sample_st_def obj_at_def CONN_CFG_DEFAULT_ADDR_def)
  have f: "conn_flush sample_conn = 43" "apm_raw_mr sample_apm = 47" by (simp_all add: sample_conn_def sample_apm_def)
  show "append_ready 50 51 47 42 sample_remote sample_mr append_st"
    unfolding append_ready_def
    by (intro conjI exI [of _ sample_conn] exI [of _ "\<lparr>flush_context = 46\<rparr>"] exI [of _ sample_apm] exI [of _ sample_mr])
       (use o f in auto)
  show "obj_at 4096 (O_bytes (replicate 1024 0)) append_st" by (simp add: append_st_def obj_at_def CONN_CFG_DEFAULT_ADDR_def)
qed

lemma sample_log_facts: "log_used sample_log = 18" "length sample_log = 1040" "log_data sample_log = [97, 0]"
  by code_simp+

end
