(* ===== verification/Log_Server.thy ===== *)
theory Log_Server
  imports Write_Persistent Atomic_Write_Props
begin

text \<open>
  The server of the atomic-write example, \<open>src/examples/07-atomic-write/server.c\<close>, in a build with
  persistent memory: it keeps the log to which the client appends, in a file or, without a path, in
  memory. \<open>struct log\<close> is a signature of eight bytes, a counter of eight bytes and the data. The variables
  \<open>mr_ptr\<close>, \<open>mr_size\<close> and \<open>is_pmem\<close> are the fields of a \<open>common_mem\<close>. What the log contains when the
  client has closed the connection is \<open>dma\<close>, a function of the calls so far.
\<close>

subsection \<open>The log\<close>

definition LOG_HDR_SIGNATURE :: "u8 list" where "LOG_HDR_SIGNATURE = [76, 79, 71, 0]"
definition LOG_SIGNATURE_SIZE :: nat where "LOG_SIGNATURE_SIZE = 8"
definition LOG_DATA_SIZE :: nat where "LOG_DATA_SIZE = 1024"
definition SIZEOF_LOG :: nat where "SIZEOF_LOG = LOG_SIGNATURE_SIZE + 8 + LOG_DATA_SIZE"

text \<open>The offsets of \<open>used\<close> and \<open>data\<close> are 8 and 16.\<close>

definition log_init :: "pmem \<Rightarrow> pmem option" where
  "log_init pm =
     (if strncmp_eq (pm_view pm) LOG_HDR_SIGNATURE LOG_SIGNATURE_SIZE then Some pm
      else do {
        pm \<leftarrow> pm_store 8 (le_bytes 8 (16 :: u64)) pm;
        let pm = pm_persist 8 8 pm;
        pm \<leftarrow> pm_store 0 (strncpy LOG_HDR_SIGNATURE LOG_SIGNATURE_SIZE) pm;
        Some (pm_persist 0 LOG_SIGNATURE_SIZE pm)
      })"

text \<open>Printing the data, a line for each word. The counter is the one in the log; a counter that points behind
  the memory makes the loop read out of bounds.\<close>

definition log_output :: "u8 list \<Rightarrow> u8 list option" where
  "log_output bs =
     (let used = unat (le_val (take 8 (drop 8 bs)) :: u64) in
      if length bs < used then None
      else Some (map (\<lambda>b. if b \<noteq> 0 then b else 10) (take (used - 16) (drop 16 bs))))"

subsection \<open>The program\<close>

text \<open>The memory. \<open>Inl\<close> is the exit code of a program that ends here.\<close>

definition log_mem :: "env \<Rightarrow> string option \<Rightarrow> pmem \<Rightarrow> st \<Rightarrow> ((rc + common_mem \<times> pmem) \<times> st) option" where
  "log_mem E path pm s =
     (case path of
        Some p \<Rightarrow> do {
          (r, s) \<leftarrow> ext E (Pmem_map_file p) s;
          let m = no_mem\<lparr>cm_mr_ptr := unat (raddr r), cm_mr_size := mr_length (rmr r), cm_is_pmem := rint r\<rparr>;
          if cm_mr_ptr m = NULL then Some (Inl (- 1), s)
          else if cm_is_pmem m = 0 then do {
            (_, s) \<leftarrow> ext E (Pmem_unmap (of_nat (cm_mr_ptr m)) (cm_mr_size m)) s;
            Some (Inl (- 1), s)
          } else if cm_mr_size m < of_nat LOG_SIGNATURE_SIZE then do {
            (_, s) \<leftarrow> ext E (Pmem_unmap (of_nat (cm_mr_ptr m)) (cm_mr_size m)) s;
            Some (Inl (- 1), s)
          } else if cm_mr_size m - of_nat LOG_SIGNATURE_SIZE < of_nat KILOBYTE then do {
            (_, s) \<leftarrow> ext E (Pmem_unmap (of_nat (cm_mr_ptr m)) (cm_mr_size m)) s;
            Some (Inl (- 1), s)
          } else do {
            pm \<leftarrow> log_init pm;
            Some (Inr (m, pm), s)
          }
        }
      | None \<Rightarrow> do {
          (log, s) \<leftarrow> malloc_aligned E SIZEOF_LOG s;
          if log = NULL then Some (Inl (- 1), s)
          else do {
            let m = no_mem\<lparr>cm_mr_ptr := log, cm_mr_size := of_nat SIZEOF_LOG\<rparr>;
            (pm, s) \<leftarrow> mem_store m 8 (le_bytes 8 (16 :: u64)) pm s;
            Some (Inr (m, pm), s)
          }
        })"

definition log_server_err_free :: "env \<Rightarrow> rc \<Rightarrow> common_mem \<Rightarrow> st \<Rightarrow> (rc \<times> st) option" where
  "log_server_err_free E ret m s = do {
     (_, s) \<leftarrow>
       (if cm_is_pmem m \<noteq> 0 then do { (_, s) \<leftarrow> ext E (Pmem_unmap (of_nat (cm_mr_ptr m)) (cm_mr_size m)) s; Some ((), s) }
        else free (cm_mr_ptr m) s);
     Some (if ret \<noteq> 0 then - 2 else 0, s)
   }"

definition log_server_err_peer_delete :: "env \<Rightarrow> rc \<Rightarrow> ptr \<Rightarrow> common_mem \<Rightarrow> st \<Rightarrow> (rc \<times> st) option" where
  "log_server_err_peer_delete E ret peer m s = do {
     (_, s) \<leftarrow> rpma_peer_delete E (Some peer) s;
     log_server_err_free E ret m s
   }"

definition log_server_err_ep_shutdown :: "env \<Rightarrow> rc \<Rightarrow> ptr \<Rightarrow> ptr \<Rightarrow> common_mem \<Rightarrow> st \<Rightarrow> (rc \<times> st) option" where
  "log_server_err_ep_shutdown E ret ep peer m s = do {
     (_, s) \<leftarrow> rpma_ep_shutdown E (Some ep) s;
     log_server_err_peer_delete E ret peer m s
   }"

definition log_server_err_mr_dereg :: "env \<Rightarrow> rc \<Rightarrow> ptr \<Rightarrow> ptr \<Rightarrow> ptr \<Rightarrow> common_mem \<Rightarrow> st \<Rightarrow> (rc \<times> st) option" where
  "log_server_err_mr_dereg E ret mr ep peer m s = do {
     (_, s) \<leftarrow> rpma_mr_dereg E (Some mr) s;
     log_server_err_ep_shutdown E ret ep peer m s
   }"

text \<open>The result comes with what is printed.\<close>

definition log_server_registered ::
  "env \<Rightarrow> dma \<Rightarrow> string option \<Rightarrow> ptr \<Rightarrow> ptr \<Rightarrow> ptr \<Rightarrow> ptr \<Rightarrow> common_mem \<Rightarrow> st \<Rightarrow> ((rc \<times> u8 list) \<times> st) option" where
  "log_server_registered E dma path data mr ep peer m s = do {
     (ret, s) \<leftarrow> advise_mem E path m mr s;
     if ret \<noteq> 0 then do { (ret, s) \<leftarrow> log_server_err_mr_dereg E ret mr ep peer m s; Some ((ret, []), s) }
     else do {
       ((ret, _), s) \<leftarrow> common_data_of mr 8 s;
       if ret \<noteq> 0 then do { (ret, s) \<leftarrow> log_server_err_mr_dereg E ret mr ep peer m s; Some ((ret, []), s) }
       else do {
         let pdata = \<lparr>pdata_ptr = data, pdata_len = SIZEOF_COMMON_DATA\<rparr>;
         ((ret, conn), s) \<leftarrow> server_accept_connection E ep NULL (Some pdata) NULL s;
         if ret \<noteq> 0 then do { (ret, s) \<leftarrow> log_server_err_mr_dereg E ret mr ep peer m s; Some ((ret, []), s) }
         else do {
           ((ret, _), s) \<leftarrow> common_wait_for_conn_close_and_disconnect E conn s;
           if ret \<noteq> 0 then do { (ret, s) \<leftarrow> log_server_err_mr_dereg E ret mr ep peer m s; Some ((ret, []), s) }
           else do {
             out \<leftarrow> log_output (dma (trace s));
             (ret, s) \<leftarrow> log_server_err_mr_dereg E ret mr ep peer m s;
             Some ((ret, out), s)
           }
         }
       }
     }
   }"

definition log_server_main ::
  "env \<Rightarrow> dma \<Rightarrow> string \<Rightarrow> string \<Rightarrow> string option \<Rightarrow> ptr \<Rightarrow> pmem \<Rightarrow> st \<Rightarrow> ((rc \<times> u8 list) \<times> st) option" where
  "log_server_main E dma addr port path data pm s = do {
     (r, s) \<leftarrow> log_mem E path pm s;
     (case r of
        Inl ret \<Rightarrow> Some ((ret, []), s)
      | Inr (m, pm) \<Rightarrow> do {
          ((ret, peer), s) \<leftarrow> common_peer_via_address E addr RPMA_UTIL_IBV_CONTEXT_LOCAL NULL s;
          if ret \<noteq> 0 then do { (ret, s) \<leftarrow> log_server_err_free E ret m s; Some ((ret, []), s) }
          else do {
            ((ret, ep), s) \<leftarrow> rpma_ep_listen E peer (Some addr) (Some port) (Some NULL) s;
            if ret \<noteq> 0 then do { (ret, s) \<leftarrow> log_server_err_peer_delete E ret peer m s; Some ((ret, []), s) }
            else do {
              ((ret, mr), s) \<leftarrow> rpma_mr_reg E peer (of_nat (cm_mr_ptr m)) (cm_mr_size m)
                (RPMA_MR_USAGE_WRITE_DST OR RPMA_MR_USAGE_READ_SRC OR
                 (if cm_is_pmem m \<noteq> 0 then RPMA_MR_USAGE_FLUSH_TYPE_PERSISTENT else RPMA_MR_USAGE_FLUSH_TYPE_VISIBILITY)) (Some NULL) s;
              if ret \<noteq> 0 then do { (ret, s) \<leftarrow> log_server_err_ep_shutdown E ret (the ep) peer m s; Some ((ret, []), s) }
              else log_server_registered E dma path data (the mr) (the ep) peer m s
            }
          }
        })
   }"

subsection \<open>What the program leaves\<close>

definition log_fits :: "env \<Rightarrow> string option \<Rightarrow> pmem \<Rightarrow> bool" where
  "log_fits E path pm \<longleftrightarrow> pm_ops pm = [] \<and> (\<forall>p tr. path = Some p \<longrightarrow>
     length (pm_image pm) = unat (mr_length (rmr (respond E tr (Pmem_map_file p)))))"

lemma log_init_defined:
  assumes "16 \<le> length img"
  shows "\<exists>pm. log_init \<lparr>pm_image = img, pm_ops = []\<rparr> = Some pm"
  using assms by (auto simp: log_init_def pm_store_def pm_persist_def LOG_SIGNATURE_SIZE_def Let_def)

lemma log_size:
  assumes "\<not> x < of_nat LOG_SIGNATURE_SIZE" and "\<not> x - of_nat LOG_SIGNATURE_SIZE < of_nat KILOBYTE"
  shows "16 \<le> unat (x :: u64)"
  using assms by (simp add: LOG_SIGNATURE_SIZE_def KILOBYTE_def word_less_nat_alt unat_sub word_le_nat_alt not_less)

lemma wp_log_mem:
  assumes P: "stable E P" and s: "P s" and fits: "log_fits E path pm"
    and Q0: "\<And>m n pm' s'. over_mem m n E P s' \<Longrightarrow> cm_mr_ptr m \<noteq> NULL \<Longrightarrow> Q (Inr (m, pm')) s'"
    and Q1: "\<And>ret s'. P s' \<Longrightarrow> ret \<noteq> 0 \<Longrightarrow> Q (Inl ret) s'"
  shows "wp (log_mem E path pm s) Q"
proof (cases path)
  case None
  have init: "wp (mem_store m 8 (le_bytes 8 (16 :: u64)) pm t) (\<lambda>pm'. Q (Inr (m, pm')))"
    if "over_mem m SIZEOF_LOG E P t" "cm_is_pmem m = 0" "cm_mr_ptr m \<noteq> NULL" for m t
    by (rule wp_mem_store [where P = "over_mem m SIZEOF_LOG E P", OF that(1) sized_top])
       (use that in \<open>auto simp: SIZEOF_LOG_def LOG_SIGNATURE_SIZE_def intro!: Q0\<close>)
  from None show ?thesis
    by (auto simp: log_mem_def Let_def no_mem_def intro!: wp_malloc_sized [OF P s] init Q1)
next
  case (Some p)
  let ?r = "respond E (trace s) (Pmem_map_file p)"
  let ?t = "push (Pmem_map_file p) ?r s"
  have ok: "ledger_ok s" by (rule stable_ledger [OF P s])
  have null: "unat a = NULL \<longleftrightarrow> a = 0" "0 < unat a \<longleftrightarrow> a \<noteq> 0" for a :: u64 by (simp_all add: unsigned_eq_0_iff unat_gt_0)
  have new: "over owns_map E P (unat (raddr ?r)) ?t" if "raddr ?r \<noteq> 0"
    by (rule map_scope.push [where P = P and s = s and B = "{}" and R = "{#R_map (raddr ?r)#}", OF s])
       (use ok that in \<open>auto simp: owns_map_def created_def\<close>)
  have mem: "over (owns_region True 0) E P (unat (raddr ?r)) ?t" if "raddr ?r \<noteq> 0"
    using new [OF that] by (simp add: over_def owns_region_def)
  have pm: "pm = \<lparr>pm_image = pm_image pm, pm_ops = []\<rparr>" "length (pm_image pm) = unat (mr_length (rmr ?r))"
    using fits Some by (auto simp: log_fits_def)
  have init: "\<exists>pm'. log_init pm = Some pm'"
    if "\<not> mr_length (rmr ?r) < of_nat LOG_SIGNATURE_SIZE" "\<not> mr_length (rmr ?r) - of_nat LOG_SIGNATURE_SIZE < of_nat KILOBYTE"
    using log_init_defined [of "pm_image pm"] log_size [OF that] pm(2) by (simp flip: pm(1))
  note [simp del] = neq0_conv
  show ?thesis
  proof (cases "raddr ?r = 0")
    case True
    with Some ok show ?thesis by (auto simp: log_mem_def Let_def wp_ext_exact null intro!: Q1 stable_same [OF P s])
  next
    case False
    with Some ok init mem [OF False] show ?thesis
      by (auto simp: log_mem_def Let_def wp_ext_exact null intro!: Q1 Q0 [where n = 0] stable_same [OF P s])
  qed
qed

lemma wp_log_server_err_free:
  assumes "over_mem m n E P s" and "stable E P" and "cm_mr_ptr m \<noteq> NULL" and "\<And>ret s'. P s' \<Longrightarrow> Q ret s'"
  shows "wp (log_server_err_free E ret m s) Q"
proof -
  have "wp (release_mem E m s) (\<lambda>_ s'. P s')" by (rule wp_release_mem [OF assms(1-3)])
  with assms(3,4) show ?thesis
    by (cases "cm_is_pmem m = 0") (auto simp: log_server_err_free_def release_mem_def common_pmem_unmap_file_def elim!: wp_mono)
qed

lemma wp_log_server_err_peer_delete:
  assumes "reg_peer m n E P peer s" and "stable E P" and "cm_mr_ptr m \<noteq> NULL" and "\<And>ret s'. P s' \<Longrightarrow> Q ret s'"
  shows "wp (log_server_err_peer_delete E ret peer m s) Q"
  using assms by (auto simp: log_server_err_peer_delete_def intro!: peer_scope.wp_pop region_scope.stable_over wp_log_server_err_free)

lemma wp_log_server_err_ep_shutdown:
  assumes "reg_ep m n E P peer ep s" and "stable E P" and "cm_mr_ptr m \<noteq> NULL" and "\<And>ret s'. P s' \<Longrightarrow> Q ret s'"
  shows "wp (log_server_err_ep_shutdown E ret ep peer m s) Q"
  using assms by (auto simp: log_server_err_ep_shutdown_def intro!: ep_scope.wp_pop peer_scope.stable_over wp_log_server_err_peer_delete)

lemma wp_log_server_err_mr_dereg:
  assumes "reg_mr m n E P peer ep mr s" and "stable E P" and "cm_mr_ptr m \<noteq> NULL" and "\<And>ret s'. P s' \<Longrightarrow> Q ret s'"
  shows "wp (log_server_err_mr_dereg E ret mr ep peer m s) Q"
  using assms by (auto simp: log_server_err_mr_dereg_def intro!: mr_scope.wp_pop ep_scope.stable_over wp_log_server_err_ep_shutdown)

lemma wp_log_server_registered:
  assumes s: "reg_mr m n E P peer ep mr s" and P: "stable E P" and wf: "events_wf E" and data: "data \<noteq> NULL"
    and nn: "cm_mr_ptr m \<noteq> NULL" and log: "\<And>tr. log_output (dma tr) \<noteq> None" and Q: "\<And>r s'. P s' \<Longrightarrow> Q r s'"
  shows "wp (log_server_registered E dma path data mr ep peer m s) Q"
proof -
  let ?P = "reg_mr m n E P peer ep mr"
  have l: "live ?P mr O_mr_local" "live ?P peer O_peer" "ep_live ?P ep peer" by (intro lives ep_lives)+
  have pd: "pdata_arg_ok (Some \<lparr>pdata_ptr = data, pdata_len = SIZEOF_COMMON_DATA\<rparr>)"
    using data by (simp add: pdata_arg_ok_def SIZEOF_COMMON_DATA_def)
  have out: "wp (Option.bind (log_output (dma tr)) f) Q" if "\<And>x. wp (f x) Q" for tr f
    using log [of tr] that by auto
  show ?thesis
    unfolding log_server_registered_def Let_def
    by (auto intro!: wp_advise_mem [where P = ?P, OF s mr_scope.stable_over l(1)] wp_common_data_of [where P = ?P, OF _ l(1)]
        wp_server_accept_cq [where P = ?P, OF _ mr_scope.stable_over l(3,2) _ pd wf] wp_close_cq [OF _ mr_scope.stable_over wf]
        out wp_log_server_err_mr_dereg [OF _ P nn] Q)
qed

lemma wp_log_server_main:
  assumes s: "P s" and P: "stable E P" and wf: "events_wf E" and data: "data \<noteq> NULL"
    and fits: "log_fits E path pm" and log: "\<And>tr. log_output (dma tr) \<noteq> None" and Q: "\<And>r s'. P s' \<Longrightarrow> Q r s'"
  shows "wp (log_server_main E dma addr port path data pm s) Q"
  unfolding log_server_main_def wp_bind
proof (rule wp_log_mem [OF P s fits], goal_cases)
  case (1 m n pm' s')
  note nn = 1(2)
  have l: "live (reg_peer m n E P peer) peer O_peer" "live (reg_ep m n E P peer ep) peer O_peer" for peer ep by (intro lives)+
  from 1 show ?case
    by (auto intro!: wp_common_peer_via_address [OF region_scope.stable_over 1(1)] wp_push_ep [OF peer_scope.stable_over _ live_nonnull [OF l(1)]]
        wp_push_mr [OF ep_scope.stable_over _ liveD [OF l(2)]]
        wp_log_server_err_free [OF _ P nn] wp_log_server_err_peer_delete [OF _ P nn] wp_log_server_err_ep_shutdown [OF _ P nn]
        wp_log_server_registered [OF _ P wf data nn log] Q)
qed (simp add: Q)

end
