(* ===== verification/Strtoul.thy ===== *)
theory Strtoul
  imports Rpma_Prelude
begin

text \<open>
  Numbers on the command line: what the examples use of \<open>strtoul(3)\<close> with base 10, and the checks they
  make of its result (\<open>strtoul_noerror\<close> of \<open>src/examples/08-messages-ping-pong/client.c\<close> and the other
  message examples, the immediate data of \<open>10-send-with-imm\<close> and \<open>11-write-with-imm\<close>). White space and a
  sign may come first, the digits end at the first other character, a number that does not fit gives \<open>ULONG_MAX\<close> and sets
  \<open>errno\<close> to \<open>ERANGE\<close>, and a minus sign negates the result as an unsigned number.
\<close>

definition ULONG_MAX :: u64 where "ULONG_MAX = - 1"

definition is_blank :: "char \<Rightarrow> bool" where
  "is_blank c \<longleftrightarrow> of_char c = (32 :: nat) \<or> 9 \<le> (of_char c :: nat) \<and> of_char c \<le> (13 :: nat)"

definition isdigit :: "char \<Rightarrow> bool" where
  "isdigit c \<longleftrightarrow> 48 \<le> (of_char c :: nat) \<and> of_char c \<le> (57 :: nat)"

definition decimal_value :: "string \<Rightarrow> nat" where
  "decimal_value ds = foldl (\<lambda>n c. 10 * n + (of_char c - 48)) 0 ds"

text \<open>The result and whether \<open>errno\<close> was set to \<open>ERANGE\<close>.\<close>

definition strtoul :: "string \<Rightarrow> u64 \<times> bool" where
  "strtoul inp =
     (let inp = dropWhile is_blank inp;
          neg = (case inp of [] \<Rightarrow> False | c # _ \<Rightarrow> c = CHR ''-'');
          inp = (case inp of [] \<Rightarrow> [] | c # cs \<Rightarrow> if c = CHR ''-'' \<or> c = CHR ''+'' then cs else c # cs);
          n = decimal_value (takeWhile isdigit inp)
      in if 2 ^ 64 \<le> n then (ULONG_MAX, True)
         else (if neg then - of_nat n else of_nat n, False))"

text \<open>\<open>None\<close> is the exit of the program.\<close>

definition strtoul_noerror :: "string \<Rightarrow> u64 option" where
  "strtoul_noerror inp =
     (let (out, erange) = strtoul inp in if out = ULONG_MAX \<and> erange then None else Some out)"

subsection \<open>Decimal numbers are read back\<close>

definition digit_char :: "nat \<Rightarrow> char" where
  "digit_char d = char_of (48 + d)"

fun decimal_string :: "nat \<Rightarrow> string" where
  "decimal_string n = (if n < 10 then [digit_char n] else decimal_string (n div 10) @ [digit_char (n mod 10)])"

declare decimal_string.simps [simp del]

lemma of_char_digit: "d < 10 \<Longrightarrow> (of_char (digit_char d) :: nat) = 48 + d"
  by (simp add: digit_char_def)

lemma isdigit_digit: "d < 10 \<Longrightarrow> isdigit (digit_char d)"
  by (simp add: isdigit_def of_char_digit)

lemma decimal_value_snoc: "decimal_value (ds @ [c]) = 10 * decimal_value ds + (of_char c - 48)"
  by (simp add: decimal_value_def)

lemma decimal_digits: "c \<in> set (decimal_string n) \<Longrightarrow> isdigit c"
  by (induction n rule: decimal_string.induct) (subst (asm) (2) decimal_string.simps, auto simp: isdigit_digit split: if_splits)

lemma decimal_nonempty: "decimal_string n \<noteq> []"
  by (subst decimal_string.simps) simp

lemma decimal_value_string: "decimal_value (decimal_string n) = n"
proof (induction n rule: decimal_string.induct)
  case (1 n)
  show ?case
  proof (cases "n < 10")
    case True
    then have "decimal_string n = [digit_char n]" by (subst decimal_string.simps) simp
    with True show ?thesis by (simp add: decimal_value_def of_char_digit)
  next
    case False
    then have "decimal_string n = decimal_string (n div 10) @ [digit_char (n mod 10)]" by (subst decimal_string.simps) simp
    with False 1 show ?thesis by (simp add: decimal_value_snoc of_char_digit)
  qed
qed

lemma digit_not: "isdigit c \<Longrightarrow> \<not> is_blank c" "\<not> isdigit CHR ''-''" "\<not> isdigit CHR ''+''"
  by (auto simp: isdigit_def is_blank_def)

lemma strtoul_decimal: "strtoul (decimal_string n) = (if 2 ^ 64 \<le> n then (ULONG_MAX, True) else (of_nat n, False))"
proof -
  obtain c cs where d: "decimal_string n = c # cs" using decimal_nonempty [of n] by (cases "decimal_string n") auto
  have c: "isdigit c" using decimal_digits [of c n] d by simp
  then have "c \<noteq> CHR ''-''" "c \<noteq> CHR ''+''" using digit_not(2,3) by auto
  moreover have "dropWhile is_blank (decimal_string n) = decimal_string n" using d digit_not(1) [OF c] by simp
  moreover have "takeWhile isdigit (decimal_string n) = decimal_string n" by (simp add: decimal_digits)
  ultimately show ?thesis
    unfolding strtoul_def Let_def using decimal_value_string [of n] d by simp
qed

lemma strtoul_noerror_decimal: "strtoul_noerror (decimal_string n) = (if n < 2 ^ 64 then Some (of_nat n) else None)"
  by (simp add: strtoul_noerror_def strtoul_decimal)

end
