(* ===== verification/Messages.thy ===== *)
theory Messages
  imports Shared_Memory Strtoul
begin

text \<open>
  What the examples that exchange messages have in common (\<open>src/examples/08-messages-ping-pong\<close>,
  \<open>12-receive-completion-queue\<close> and \<open>12s-receive-completion-queue\<close>): a client sends a counter, the server
  sends it back increased by one, a number of times.
  \<^item> The loops of the programs, with the body as a parameter. A loop without a bound is run for a number of
    rounds; the result \<open>None\<close> says that it is still running.
  \<^item> What the programs print, as a list of lines.
  \<^item> The contract of the two bodies, as two locales, and what follows for a session of a client and a server
    over a link that delivers what is sent.
  \<^item> Rules for the operations the other examples do not use: receives on a request, sends with immediate data,
    the receive completion queue.
\<close>

definition MSG_SIZE :: u64 where "MSG_SIZE = 8"
definition I_M_DONE :: u64 where "I_M_DONE = - 1"
definition IBV_WC_SEND :: int where "IBV_WC_SEND = 0"
definition IBV_WC_RECV :: int where "IBV_WC_RECV = 128"

datatype line = Value_sent u64 | Value_received u64

primrec sent_value :: "line \<Rightarrow> u64 option" where
  "sent_value (Value_sent v) = Some v"
| "sent_value (Value_received v) = None"

primrec received_value :: "line \<Rightarrow> u64 option" where
  "received_value (Value_sent v) = None"
| "received_value (Value_received v) = Some v"

abbreviation "sent out \<equiv> List.map_filter sent_value out"
abbreviation "received out \<equiv> List.map_filter received_value out"

subsection \<open>The loops\<close>

text \<open>\<open>while (--rounds)\<close> of the clients: the body is run \<open>rounds - 1\<close> times, computed in 64 bits, or until it fails.\<close>

primrec while_rounds ::
  "(u64 \<Rightarrow> st \<Rightarrow> ((rc \<times> u64 \<times> line list) option \<times> st) option) \<Rightarrow> nat \<Rightarrow> u64 \<Rightarrow> st
    \<Rightarrow> ((rc \<times> u64 \<times> line list) option \<times> st) option" where
  "while_rounds body 0 cntr s = Some (Some (0, cntr, []), s)"
| "while_rounds body (Suc n) cntr s = do {
     (r, s) \<leftarrow> body cntr s;
     (case r of
        None \<Rightarrow> Some (None, s)
      | Some (ret, cntr, out) \<Rightarrow>
          if ret \<noteq> 0 then Some (Some (ret, cntr, out), s)
          else do {
            (r, s) \<leftarrow> while_rounds body n cntr s;
            Some (map_option (\<lambda>(ret, cntr, out'). (ret, cntr, out @ out')) r, s)
          })
   }"

text \<open>\<open>while (1)\<close> of the servers: the body is given whether it is the first round, and says whether the loop goes on.\<close>

primrec serve ::
  "(bool \<Rightarrow> st \<Rightarrow> ((rc \<times> bool \<times> line list) option \<times> st) option) \<Rightarrow> nat \<Rightarrow> bool \<Rightarrow> st
    \<Rightarrow> ((rc \<times> line list) option \<times> st) option" where
  "serve body 0 first s = Some (None, s)"
| "serve body (Suc n) first s = do {
     (r, s) \<leftarrow> body first s;
     (case r of
        None \<Rightarrow> Some (None, s)
      | Some (ret, go_on, out) \<Rightarrow>
          if \<not> go_on then Some (Some (ret, out), s)
          else do {
            (r, s) \<leftarrow> serve body n False s;
            Some (map_option (\<lambda>(ret, out'). (ret, out @ out')) r, s)
          })
   }"

text \<open>The end of a program: its exit code, and what it has printed.\<close>

definition ends :: "line list \<Rightarrow> (rc \<times> st) option \<Rightarrow> ((rc \<times> line list) option \<times> st) option" where
  "ends out m = do { (ret, s) \<leftarrow> m; Some (Some (ret, out), s) }"

lemma wp_ends [simp]: "wp (ends out m) Q = wp m (\<lambda>ret. Q (Some (ret, out)))"
  by (simp add: ends_def)

lemma wp_while_rounds:
  assumes body: "\<And>c s. P s \<Longrightarrow> wp (body c s) (\<lambda>r. P)" and Q: "\<And>r s'. P s' \<Longrightarrow> Q r s'"
  shows "P s \<Longrightarrow> wp (while_rounds body n c s) Q"
  using Q
proof (induction n arbitrary: c s Q)
  case (Suc n)
  then show ?case by (auto intro!: wp_mono [OF body [OF Suc.prems(1)]] split: option.split)
qed simp

lemma wp_while_rounds_end:
  assumes body: "\<And>c s. P s \<Longrightarrow> wp (body c s) (\<lambda>r s'. r \<noteq> None \<and> P s')" and Q: "\<And>r s'. P s' \<Longrightarrow> Q (Some r) s'"
  shows "P s \<Longrightarrow> wp (while_rounds body n c s) Q"
  using Q
proof (induction n arbitrary: c s Q)
  case (Suc n)
  then show ?case by (auto intro!: wp_mono [OF body [OF Suc.prems(1)]])
qed simp

lemma wp_serve:
  assumes body: "\<And>c s. P s \<Longrightarrow> wp (body c s) (\<lambda>r. P)" and Q: "\<And>r s'. P s' \<Longrightarrow> Q r s'"
  shows "P s \<Longrightarrow> wp (serve body n c s) Q"
  using Q
proof (induction n arbitrary: c s Q)
  case (Suc n)
  then show ?case by (auto intro!: wp_mono [OF body [OF Suc.prems(1)]] split: option.split)
qed simp

subsection \<open>A session\<close>

lemma out_append: "List.map_filter f (xs @ ys) = List.map_filter f xs @ List.map_filter f ys"
  by (simp add: List.map_filter_def)

lemma out_simps [simp]:
  "List.map_filter f [] = []"
  "List.map_filter f (x # xs) = (case f x of None \<Rightarrow> List.map_filter f xs | Some y \<Rightarrow> y # List.map_filter f xs)"
  by (simp_all add: List.map_filter_def split: option.split)

locale counter_client =
  fixes round :: "u64 \<Rightarrow> st \<Rightarrow> ((rc \<times> u64 \<times> line list) option \<times> st) option"
  assumes round_lines: "round c s = Some (Some (0, c', out), s') \<Longrightarrow> out = [Value_sent c, Value_received c']"
begin

text \<open>Every value that is sent is the last one received.\<close>

lemma rounds_lines:
  "while_rounds round n c s = Some (Some (0, c', out), s') \<Longrightarrow>
    length (received out) = n \<and> sent out = butlast (c # received out) \<and> last (c # received out) = c'"
proof (induction n arbitrary: c s out)
  case (Suc n)
  from Suc.prems obtain c1 o1 s1 o2 where r: "round c s = Some (Some (0, c1, o1), s1)"
    "while_rounds round n c1 s1 = Some (Some (0, c', o2), s')" "out = o1 @ o2"
    by (auto split: Option.bind_splits option.splits if_splits)
  show ?case using Suc.IH [OF r(2)] round_lines [OF r(1)] r(3) by (auto simp: out_append)
qed simp

end

locale counter_server =
  fixes round :: "bool \<Rightarrow> st \<Rightarrow> ((rc \<times> bool \<times> line list) option \<times> st) option"
  assumes round_on: "round b s = Some (Some (ret, True, out), s') \<Longrightarrow>
      \<exists>v. v \<noteq> I_M_DONE \<and> out = [Value_received v, Value_sent (v + 1)]"
    and round_last: "round b s = Some (Some (0, False, out), s') \<Longrightarrow> out = []"
begin

text \<open>The server answers every value it takes with its successor, and never takes \<open>I_M_DONE\<close> for a value.\<close>

lemma serve_lines:
  "serve round n b s = Some (Some (0, out), s') \<Longrightarrow>
    sent out = map (\<lambda>v. v + 1) (received out) \<and> I_M_DONE \<notin> set (received out)"
proof (induction n arbitrary: b s out)
  case (Suc n)
  show ?case
  proof (cases "\<exists>ret o1 s1. round b s = Some (Some (ret, True, o1), s1)")
    case True
    with Suc.prems obtain ret o1 s1 o2 where r: "round b s = Some (Some (ret, True, o1), s1)"
      "serve round n False s1 = Some (Some (0, o2), s')" "out = o1 @ o2"
      by (auto split: Option.bind_splits)
    show ?thesis using Suc.IH [OF r(2)] round_on [OF r(1)] r(3) by (auto simp: out_append)
  next
    case False
    with Suc.prems have "round b s = Some (Some (0, False, out), s')"
      by (auto split: Option.bind_splits option.splits if_splits)
    then show ?thesis using round_last by fastforce
  qed
qed simp

end

lemma counted_values:
  assumes "sent oc = butlast (c # received oc)" and "received os = sent oc" and "received oc = sent os"
    and "sent os = map (\<lambda>v. v + 1) (received os)" and "I_M_DONE \<notin> set (received os)"
  shows "i \<le> length (received oc) \<Longrightarrow> (c # received oc) ! i = c + of_nat i \<and> unat (c + of_nat i) = unat c + i"
proof (induction i)
  case (Suc i)
  then have i: "i < length (received oc)" by simp
  have len: "length (sent oc) = length (received oc)" using assms(1) by simp
  have "sent oc ! i = (c # received oc) ! i" unfolding assms(1) using i by (intro nth_butlast) auto
  then have se: "sent oc ! i = c + of_nat i" using Suc.IH i by simp
  have "received oc ! i = sent oc ! i + 1" unfolding assms(3,4) assms(2) using i len by simp
  then have v: "received oc ! i = c + of_nat i + 1" unfolding se .
  have "sent oc ! i \<in> set (received os)" unfolding assms(2) using i len by simp
  then have "c + of_nat i \<noteq> - 1" using assms(5) unfolding se I_M_DONE_def by auto
  then have "1 + (c + of_nat i) \<noteq> 0" by (simp add: add_eq_0_iff)
  from unatSuc [OF this] Suc.IH i have "unat (1 + (c + of_nat i)) = unat c + Suc i" by simp
  with v show ?case by (simp add: algebra_simps)
qed simp

text \<open>A client and a server whose messages reach each other: the counter goes up by one in each round and
  never wraps around, because the server takes the largest number for the end.\<close>

lemma session_counts:
  assumes "counter_client body" and "counter_server body'"
    and "while_rounds body n c s = Some (Some (0, c', oc), s')" and "serve body' m b t = Some (Some (0, os), t')"
    and "received os = sent oc" and "received oc = sent os"
  shows "sent oc = map (\<lambda>i. c + of_nat i) [0..<n] \<and> c' = c + of_nat n \<and> unat c' = unat c + n"
proof -
  note cl = counter_client.rounds_lines [OF assms(1,3)] and sv = counter_server.serve_lines [OF assms(2,4)]
  have len: "length (received oc) = n" and se: "sent oc = butlast (c # received oc)" using cl by blast+
  have v: "(c # received oc) ! i = c + of_nat i \<and> unat (c + of_nat i) = unat c + i" if "i \<le> n" for i
    using that len by (intro counted_values [OF se assms(5,6)]) (use sv in auto)
  have "sent oc = map (\<lambda>i. c + of_nat i) [0..<n]"
    using len v unfolding se by (intro nth_equalityI) (auto simp: nth_butlast simp del: butlast.simps)
  moreover have "c' = (c # received oc) ! n" using cl len by (metis last_conv_nth length_Cons list.distinct(1) diff_Suc_1)
  ultimately show ?thesis using v [of n] by simp
qed

subsection \<open>Rules for requests\<close>

lemma owns_req_mem: "mem s' = mem s \<Longrightarrow> owns_req k c B R s' = owns_req k c B R s"
  by (simp add: owns_req_def req_cqs_def owns_cq_opt_def owns_cq_def pdata_ok_def obj_at_def)

lemma req_over_same:
  assumes "req_over E P b peer k s" and "ledger_ok s'" and m: "mem s' = mem s" "acct s' = acct s"
  shows "req_over E P b peer k s'"
proof -
  have c: "created B R s1 s' = created B R s1 s" for B R s1 using m by (simp add: created_def)
  have d: "pdata_bytes d s' = pdata_bytes d s" for d by (rule pdata_bytes_cong) (simp add: m)
  from assms(1,2) show ?thesis unfolding req_over_def owns_req_mem [OF m(1)] c d by blast
qed

lemma live_req: "live P k f \<Longrightarrow> live (req_over E P b peer q) k f"
  unfolding live_def req_over_def by (blast intro: created_obj_at)

lemma wp_req_recv:
  assumes s: "req_over E P b peer k s" and "live P mr O_mr_local" and Q: "\<And>r s'. req_over E P b peer k s' \<Longrightarrow> Q r s'"
  shows "wp (rpma_conn_req_recv E k mr off len ctx s) Q"
proof -
  from s obtain c where c: "obj_at k (O_conn_req c) s" "ledger_ok s" by (auto simp: req_over_def owns_req_def)
  from liveD [OF live_req [OF assms(2)] s] obtain m where m: "obj_at mr (O_mr_local m) s" by blast
  have "wp (rpma_conn_req_recv E k mr off len ctx s) (\<lambda>r s'. ledger_ok s' \<and> mem s' = mem s \<and> acct s' = acct s)"
    using c m by (auto simp: rpma_conn_req_recv_def rpma_mr_recv_def obj_at_nonnull intro!: wp_ext)
  then show ?thesis by (rule wp_mono) (blast intro: Q req_over_same [OF s])
qed

lemma wp_next_req_live:
  assumes "P s" and "stable E P" and "ep_live P ep peer" and "live P peer O_peer" and "cfg = NULL \<or> live P cfg O_conn_cfg" and "events_wf E"
    and Q0: "\<And>k s'. req_over E P True peer k s' \<Longrightarrow> Q (0, Some k) s'" and Q1: "\<And>ret out s'. P s' \<Longrightarrow> ret \<noteq> 0 \<Longrightarrow> Q (ret, out) s'"
  shows "wp (rpma_ep_next_conn_req E ep cfg (Some x) s) Q"
proof (rule wp_req_next [OF assms(2,1) _ liveD [OF assms(4,1)] _ assms(6)], goal_cases)
  case 1
  then show ?case using assms(1,3) by (auto simp: ep_live_def)
next
  case 2
  then show ?case using assms(1,5) by (auto simp: live_def load_conn_cfg_def deref_def obj_at_def)
qed (simp_all add: Q0 Q1)

subsection \<open>Two buffers\<close>

abbreviation "msg_bufs E P recv send \<equiv> over (owns_plain O_bytes) E (over (owns_plain O_bytes) E P recv) send"

lemma wp_free_two:
  assumes "msg_bufs E P recv send s" and "stable E P" and "\<And>s'. P s' \<Longrightarrow> Q () s'"
  shows "wp (free send s) (\<lambda>_ s. wp (free recv s) Q)"
  by (rule wp_pop_free [OF assms(1) plain_scope.stable_over]) (rule wp_pop_free [OF _ assms(2)], auto intro: assms(3))

end
