(* ===== verification/Ping_Pong.thy ===== *)
theory Ping_Pong
  imports Messages
begin

text \<open>
  The ping-pong of messages, \<open>src/examples/08-messages-ping-pong\<close>: the client sends a counter, the server
  answers with its successor, and the client starts the next round with what it got. Sends and receives
  complete on the same queue, so that both sides collect completions until they have one of each kind.
  \<^item> What a receive has placed in the buffer is \<open>dma\<close>, a function of the calls so far.
  \<^item> The wait for completions and the loop of the server may run forever. Both get a bound, and \<open>None\<close> says that it was
    reached. That the wait ends is shown for a provider that reports no more completions than there are requests.
  \<^item> Pauses, error messages and log thresholds are left out.
\<close>

definition MAX_N_WC :: int where "MAX_N_WC = 2"

subsection \<open>Completions\<close>

definition validate_wc :: "ibv_wc \<Rightarrow> ptr \<Rightarrow> int \<Rightarrow> int \<Rightarrow> rc \<times> int \<times> int" where
  "validate_wc wc recv send_cmpl recv_cmpl =
     (if wc_status wc \<noteq> IBV_WC_SUCCESS then (- 1, send_cmpl, recv_cmpl)
      else if wc_opcode wc = IBV_WC_SEND then (0, 1, recv_cmpl)
      else if wc_opcode wc = IBV_WC_RECV then
        (if wc_wr_id wc \<noteq> of_nat recv \<or> ucast (wc_byte_len wc) \<noteq> MSG_SIZE then (- 1, send_cmpl, recv_cmpl)
         else (0, send_cmpl, 1))
      else (0, send_cmpl, recv_cmpl))"

primrec validate_wcs :: "ibv_wc list \<Rightarrow> ptr \<Rightarrow> int \<Rightarrow> int \<Rightarrow> rc \<times> int \<times> int" where
  "validate_wcs [] recv send_cmpl recv_cmpl = (0, send_cmpl, recv_cmpl)"
| "validate_wcs (wc # wcs) recv send_cmpl recv_cmpl =
     (case validate_wc wc recv send_cmpl recv_cmpl of
        (ret, send_cmpl, recv_cmpl) \<Rightarrow>
          if ret \<noteq> 0 then (ret, send_cmpl, recv_cmpl) else validate_wcs wcs recv send_cmpl recv_cmpl)"

text \<open>The array \<open>wc\<close> keeps its old entries behind those the poll has written.\<close>

primrec wait_and_process_completions ::
  "env \<Rightarrow> ptr \<Rightarrow> ptr \<Rightarrow> nat \<Rightarrow> ibv_wc list \<Rightarrow> int \<Rightarrow> int \<Rightarrow> st \<Rightarrow> ((rc \<times> int \<times> int) option \<times> st) option" where
  "wait_and_process_completions E cq recv 0 wc send_cmpl recv_cmpl s = Some (None, s)"
| "wait_and_process_completions E cq recv (Suc n) wc send_cmpl recv_cmpl s = do {
     (ret, s) \<leftarrow> rpma_cq_wait E cq s;
     if ret \<noteq> 0 then Some (Some (ret, send_cmpl, recv_cmpl), s)
     else do {
       ((ret, wcs, num_got), s) \<leftarrow> rpma_cq_get_wc E cq MAX_N_WC (Some wc) (Some 0) s;
       if ret \<noteq> 0 then Some (Some (ret, send_cmpl, recv_cmpl), s)
       else (case validate_wcs (take (nat (the num_got)) (the wcs @ drop (length (the wcs)) wc)) recv send_cmpl recv_cmpl of
         (ret, send_cmpl, recv_cmpl) \<Rightarrow>
           if ret \<noteq> 0 then Some (Some (ret, send_cmpl, recv_cmpl), s)
           else if send_cmpl = 0 \<or> recv_cmpl = 0
           then wait_and_process_completions E cq recv n (the wcs @ drop (length (the wcs)) wc) send_cmpl recv_cmpl s
           else Some (Some (0, send_cmpl, recv_cmpl), s))
     }
   }"

subsection \<open>The client\<close>

definition ping_round ::
  "env \<Rightarrow> nat \<Rightarrow> dma \<Rightarrow> ibv_wc list \<Rightarrow> ptr \<Rightarrow> ptr \<Rightarrow> ptr \<Rightarrow> ptr \<Rightarrow> ptr \<Rightarrow> ptr \<Rightarrow> u64 \<Rightarrow> st
    \<Rightarrow> ((rc \<times> u64 \<times> line list) option \<times> st) option" where
  "ping_round E fuel dma wc conn recv_mr send_mr cq recv send cntr s = do {
     (ret, s) \<leftarrow> rpma_recv E conn recv_mr 0 MSG_SIZE (of_nat recv) s;
     if ret \<noteq> 0 then Some (Some (ret, cntr, []), s)
     else do {
       (_, s) \<leftarrow> store send (O_bytes (le_bytes 8 cntr)) s;
       (ret, s) \<leftarrow> rpma_send E conn send_mr 0 MSG_SIZE RPMA_F_COMPLETION_ALWAYS 0 s;
       if ret \<noteq> 0 then Some (Some (ret, cntr, [Value_sent cntr]), s)
       else do {
         (r, s) \<leftarrow> wait_and_process_completions E cq recv fuel wc 0 0 s;
         (case r of
            None \<Rightarrow> Some (None, s)
          | Some (ret, _, _) \<Rightarrow>
              if ret \<noteq> 0 then Some (Some (ret, cntr, [Value_sent cntr]), s)
              else do {
                let got = le_val (take 8 (dma (trace s)));
                Some (Some (0, got, [Value_sent cntr, Value_received got]), s)
              })
       }
     }
   }"

definition ping_err_mr_free :: "rc \<Rightarrow> ptr \<Rightarrow> ptr \<Rightarrow> st \<Rightarrow> (rc \<times> st) option" where
  "ping_err_mr_free ret send recv s = do {
     (_, s) \<leftarrow> free send s;
     (_, s) \<leftarrow> free recv s;
     Some (if ret \<noteq> 0 then - 1 else 0, s)
   }"

definition ping_err_peer_delete :: "env \<Rightarrow> rc \<Rightarrow> ptr \<Rightarrow> ptr \<Rightarrow> ptr \<Rightarrow> st \<Rightarrow> (rc \<times> st) option" where
  "ping_err_peer_delete E ret peer send recv s = do {
     ((ret2, _), s) \<leftarrow> rpma_peer_delete E (Some peer) s;
     ping_err_mr_free (ret OR ret2) send recv s
   }"

definition ping_err_mr_dereg :: "env \<Rightarrow> rc \<Rightarrow> ptr \<Rightarrow> ptr \<Rightarrow> ptr \<Rightarrow> ptr \<Rightarrow> ptr \<Rightarrow> st \<Rightarrow> (rc \<times> st) option" where
  "ping_err_mr_dereg E ret send_mr recv_mr peer send recv s = do {
     ((ret1, _), s) \<leftarrow> rpma_mr_dereg E (Some send_mr) s;
     ((ret2, _), s) \<leftarrow> rpma_mr_dereg E (Some recv_mr) s;
     ping_err_peer_delete E (ret OR ret1 OR ret2) peer send recv s
   }"

definition ping_err_conn_disconnect ::
  "env \<Rightarrow> rc \<Rightarrow> ptr \<Rightarrow> ptr \<Rightarrow> ptr \<Rightarrow> ptr \<Rightarrow> ptr \<Rightarrow> ptr \<Rightarrow> st \<Rightarrow> (rc \<times> st) option" where
  "ping_err_conn_disconnect E ret conn send_mr recv_mr peer send recv s = do {
     ((ret2, _), s) \<leftarrow> common_disconnect_and_wait_for_conn_close E conn s;
     ping_err_mr_dereg E (ret OR ret2) send_mr recv_mr peer send recv s
   }"

text \<open>From the moment there is a connection: the rounds, and the message that ends the session.\<close>

definition ping_client_connected ::
  "env \<Rightarrow> nat \<Rightarrow> dma \<Rightarrow> ibv_wc list \<Rightarrow> u64 \<Rightarrow> u64 \<Rightarrow> ptr \<Rightarrow> ptr \<Rightarrow> ptr \<Rightarrow> ptr \<Rightarrow> ptr \<Rightarrow> ptr \<Rightarrow> st
    \<Rightarrow> ((rc \<times> line list) option \<times> st) option" where
  "ping_client_connected E fuel dma wc cntr rounds conn send_mr recv_mr peer send recv s = do {
     ((ret, cq), s) \<leftarrow> rpma_conn_get_cq conn (Some NULL) s;
     if ret \<noteq> 0 then ends [] (ping_err_conn_disconnect E ret conn send_mr recv_mr peer send recv s)
     else do {
       (r, s) \<leftarrow> while_rounds (ping_round E fuel dma wc conn recv_mr send_mr (the cq) recv send) (unat (rounds - 1)) cntr s;
       (case r of
          None \<Rightarrow> Some (None, s)
        | Some (ret, _, out) \<Rightarrow> do {
            (_, s) \<leftarrow> store send (O_bytes (le_bytes 8 I_M_DONE)) s;
            (ret2, s) \<leftarrow> rpma_send E conn send_mr 0 MSG_SIZE RPMA_F_COMPLETION_ON_ERROR 0 s;
            ends out (ping_err_conn_disconnect E (ret OR ret2) conn send_mr recv_mr peer send recv s)
          })
     }
   }"

text \<open>From the moment the buffer for receives is registered.\<close>

definition ping_client_recv_mr ::
  "env \<Rightarrow> nat \<Rightarrow> dma \<Rightarrow> ibv_wc list \<Rightarrow> string \<Rightarrow> string \<Rightarrow> u64 \<Rightarrow> u64 \<Rightarrow> ptr \<Rightarrow> ptr \<Rightarrow> ptr \<Rightarrow> ptr \<Rightarrow> st
    \<Rightarrow> ((rc \<times> line list) option \<times> st) option" where
  "ping_client_recv_mr E fuel dma wc addr port cntr rounds recv_mr peer send recv s = do {
     ((ret, send_mr), s) \<leftarrow> rpma_mr_reg E peer (of_nat send) MSG_SIZE RPMA_MR_USAGE_SEND (Some NULL) s;
     if ret \<noteq> 0 then do {
       (_, s) \<leftarrow> rpma_mr_dereg E (Some recv_mr) s;
       ends [] (ping_err_peer_delete E ret peer send recv s)
     } else do {
       ((ret, conn), s) \<leftarrow> client_connect E peer addr port NULL None NULL s;
       if ret \<noteq> 0 then ends [] (ping_err_mr_dereg E ret (the send_mr) recv_mr peer send recv s)
       else ping_client_connected E fuel dma wc cntr rounds conn (the send_mr) recv_mr peer send recv s
     }
   }"

text \<open>From the moment there are the two buffers.\<close>

definition ping_client_buffers ::
  "env \<Rightarrow> nat \<Rightarrow> dma \<Rightarrow> ibv_wc list \<Rightarrow> string \<Rightarrow> string \<Rightarrow> u64 \<Rightarrow> u64 \<Rightarrow> ptr \<Rightarrow> ptr \<Rightarrow> st
    \<Rightarrow> ((rc \<times> line list) option \<times> st) option" where
  "ping_client_buffers E fuel dma wc addr port cntr rounds send recv s = do {
     ((ret, peer), s) \<leftarrow> common_peer_via_address E addr RPMA_UTIL_IBV_CONTEXT_REMOTE NULL s;
     if ret \<noteq> 0 then ends [] (ping_err_mr_free ret send recv s)
     else do {
       ((ret, recv_mr), s) \<leftarrow> rpma_mr_reg E peer (of_nat recv) MSG_SIZE RPMA_MR_USAGE_RECV (Some NULL) s;
       if ret \<noteq> 0 then ends [] (ping_err_peer_delete E ret peer send recv s)
       else ping_client_recv_mr E fuel dma wc addr port cntr rounds (the recv_mr) peer send recv s
     }
   }"

definition ping_client_main ::
  "env \<Rightarrow> nat \<Rightarrow> dma \<Rightarrow> ibv_wc list \<Rightarrow> string \<Rightarrow> string \<Rightarrow> string \<Rightarrow> string \<Rightarrow> string option \<Rightarrow> st
    \<Rightarrow> ((rc \<times> line list) option \<times> st) option" where
  "ping_client_main E fuel dma wc addr port seed rounds sleep s =
     (case (strtoul_noerror seed, strtoul_noerror rounds, case sleep of None \<Rightarrow> Some 0 | Some a \<Rightarrow> strtoul_noerror a) of
        (Some cntr, Some rounds, Some sleep_usec) \<Rightarrow> do {
          (recv, s) \<leftarrow> malloc_aligned E 8 s;
          if recv = NULL then Some (Some (- 1, []), s)
          else do {
            (send, s) \<leftarrow> malloc_aligned E 8 s;
            if send = NULL then do {
              (_, s) \<leftarrow> free recv s;
              Some (Some (- 1, []), s)
            } else ping_client_buffers E fuel dma wc addr port cntr rounds send recv s
          }
        }
      | _ \<Rightarrow> Some (Some (- 1, []), s))"

subsection \<open>The server\<close>

text \<open>In the first round there is no send that could complete.\<close>

definition pong_round ::
  "env \<Rightarrow> nat \<Rightarrow> dma \<Rightarrow> ibv_wc list \<Rightarrow> ptr \<Rightarrow> ptr \<Rightarrow> ptr \<Rightarrow> ptr \<Rightarrow> ptr \<Rightarrow> ptr \<Rightarrow> bool \<Rightarrow> st
    \<Rightarrow> ((rc \<times> bool \<times> line list) option \<times> st) option" where
  "pong_round E fuel dma wc conn recv_mr send_mr cq recv send first s = do {
     (r, s) \<leftarrow> wait_and_process_completions E cq recv fuel wc (if first then 1 else 0) 0 s;
     (case r of
        None \<Rightarrow> Some (None, s)
      | Some (ret, _, _) \<Rightarrow>
          if ret \<noteq> 0 then Some (Some (ret, False, []), s)
          else do {
            let got = le_val (take 8 (dma (trace s)));
            if got = I_M_DONE then Some (Some (0, False, []), s)
            else do {
              (_, s) \<leftarrow> store send (O_bytes (le_bytes 8 (got + 1))) s;
              (ret, s) \<leftarrow> rpma_recv E conn recv_mr 0 MSG_SIZE (of_nat recv) s;
              if ret \<noteq> 0 then Some (Some (ret, False, [Value_received got]), s)
              else do {
                (ret, s) \<leftarrow> rpma_send E conn send_mr 0 MSG_SIZE RPMA_F_COMPLETION_ALWAYS 0 s;
                Some (Some (ret, ret = 0, [Value_received got, Value_sent (got + 1)]), s)
              }
            }
          })
   }"

definition pong_err_free :: "rc \<Rightarrow> ptr \<Rightarrow> ptr \<Rightarrow> st \<Rightarrow> (rc \<times> st) option" where
  "pong_err_free ret send recv s = do {
     (_, s) \<leftarrow> free send s;
     (_, s) \<leftarrow> free recv s;
     Some (if ret \<noteq> 0 then - 1 else 0, s)
   }"

definition pong_err_peer_delete :: "env \<Rightarrow> rc \<Rightarrow> ptr \<Rightarrow> ptr \<Rightarrow> ptr \<Rightarrow> st \<Rightarrow> (rc \<times> st) option" where
  "pong_err_peer_delete E ret peer send recv s = do {
     ((ret2, _), s) \<leftarrow> rpma_peer_delete E (Some peer) s;
     pong_err_free (ret OR ret2) send recv s
   }"

definition pong_err_ep_shutdown :: "env \<Rightarrow> rc \<Rightarrow> ptr \<Rightarrow> ptr \<Rightarrow> ptr \<Rightarrow> ptr \<Rightarrow> st \<Rightarrow> (rc \<times> st) option" where
  "pong_err_ep_shutdown E ret ep peer send recv s = do {
     ((ret2, _), s) \<leftarrow> rpma_ep_shutdown E (Some ep) s;
     pong_err_peer_delete E (ret OR ret2) peer send recv s
   }"

definition pong_err_mr_dereg ::
  "env \<Rightarrow> rc \<Rightarrow> ptr \<Rightarrow> ptr \<Rightarrow> ptr \<Rightarrow> ptr \<Rightarrow> ptr \<Rightarrow> ptr \<Rightarrow> st \<Rightarrow> (rc \<times> st) option" where
  "pong_err_mr_dereg E ret send_mr recv_mr ep peer send recv s = do {
     ((ret1, _), s) \<leftarrow> rpma_mr_dereg E (Some send_mr) s;
     ((ret2, _), s) \<leftarrow> rpma_mr_dereg E (Some recv_mr) s;
     pong_err_ep_shutdown E (ret OR ret1 OR ret2) ep peer send recv s
   }"

definition pong_err_conn_disconnect ::
  "env \<Rightarrow> rc \<Rightarrow> ptr \<Rightarrow> ptr \<Rightarrow> ptr \<Rightarrow> ptr \<Rightarrow> ptr \<Rightarrow> ptr \<Rightarrow> ptr \<Rightarrow> st \<Rightarrow> (rc \<times> st) option" where
  "pong_err_conn_disconnect E ret conn send_mr recv_mr ep peer send recv s = do {
     ((ret2, _), s) \<leftarrow> common_disconnect_and_wait_for_conn_close E conn s;
     pong_err_mr_dereg E (ret OR ret2) send_mr recv_mr ep peer send recv s
   }"

text \<open>From the moment there is a connection. An unexpected event leaves \<open>ret\<close> at 0.\<close>

definition pong_server_connected ::
  "env \<Rightarrow> nat \<Rightarrow> nat \<Rightarrow> dma \<Rightarrow> ibv_wc list \<Rightarrow> ptr \<Rightarrow> ptr \<Rightarrow> ptr \<Rightarrow> ptr \<Rightarrow> ptr \<Rightarrow> ptr \<Rightarrow> ptr \<Rightarrow> st
    \<Rightarrow> ((rc \<times> line list) option \<times> st) option" where
  "pong_server_connected E n fuel dma wc conn send_mr recv_mr ep peer send recv s = do {
     ((ret, conn_event), s) \<leftarrow> rpma_conn_next_event E conn (Some RPMA_CONN_UNDEFINED) s;
     if ret \<noteq> 0 then ends [] (pong_err_conn_disconnect E ret conn send_mr recv_mr ep peer send recv s)
     else if the conn_event \<noteq> RPMA_CONN_ESTABLISHED
     then ends [] (pong_err_conn_disconnect E ret conn send_mr recv_mr ep peer send recv s)
     else do {
       ((ret, cq), s) \<leftarrow> rpma_conn_get_cq conn (Some NULL) s;
       if ret \<noteq> 0 then ends [] (pong_err_conn_disconnect E ret conn send_mr recv_mr ep peer send recv s)
       else do {
         (r, s) \<leftarrow> serve (pong_round E fuel dma wc conn recv_mr send_mr (the cq) recv send) n True s;
         (case r of
            None \<Rightarrow> Some (None, s)
          | Some (ret, out) \<Rightarrow> ends out (pong_err_conn_disconnect E ret conn send_mr recv_mr ep peer send recv s))
       }
     }
   }"

text \<open>From the moment the memory is registered: the request, with a receive for the first message.\<close>

definition pong_server_registered ::
  "env \<Rightarrow> nat \<Rightarrow> nat \<Rightarrow> dma \<Rightarrow> ibv_wc list \<Rightarrow> ptr \<Rightarrow> ptr \<Rightarrow> ptr \<Rightarrow> ptr \<Rightarrow> ptr \<Rightarrow> ptr \<Rightarrow> st
    \<Rightarrow> ((rc \<times> line list) option \<times> st) option" where
  "pong_server_registered E n fuel dma wc send_mr recv_mr ep peer send recv s = do {
     ((ret, req), s) \<leftarrow> rpma_ep_next_conn_req E ep NULL (Some NULL) s;
     if ret \<noteq> 0 then ends [] (pong_err_mr_dereg E ret send_mr recv_mr ep peer send recv s)
     else do {
       (ret, s) \<leftarrow> rpma_conn_req_recv E (the req) recv_mr 0 MSG_SIZE (of_nat recv) s;
       if ret \<noteq> 0 then do {
         (_, s) \<leftarrow> rpma_conn_req_delete E req s;
         ends [] (pong_err_mr_dereg E ret send_mr recv_mr ep peer send recv s)
       } else do {
         ((ret, req, conn), s) \<leftarrow> rpma_conn_req_connect E req None (Some NULL) s;
         if ret \<noteq> 0 then do {
           (_, s) \<leftarrow> rpma_conn_req_delete E req s;
           ends [] (pong_err_mr_dereg E ret send_mr recv_mr ep peer send recv s)
         } else pong_server_connected E n fuel dma wc (the conn) send_mr recv_mr ep peer send recv s
       }
     }
   }"

text \<open>From the moment the buffer for receives is registered.\<close>

definition pong_server_recv_mr ::
  "env \<Rightarrow> nat \<Rightarrow> nat \<Rightarrow> dma \<Rightarrow> ibv_wc list \<Rightarrow> ptr \<Rightarrow> ptr \<Rightarrow> ptr \<Rightarrow> ptr \<Rightarrow> ptr \<Rightarrow> st
    \<Rightarrow> ((rc \<times> line list) option \<times> st) option" where
  "pong_server_recv_mr E n fuel dma wc recv_mr ep peer send recv s = do {
     ((ret, send_mr), s) \<leftarrow> rpma_mr_reg E peer (of_nat send) MSG_SIZE RPMA_MR_USAGE_SEND (Some NULL) s;
     if ret \<noteq> 0 then do {
       (_, s) \<leftarrow> rpma_mr_dereg E (Some recv_mr) s;
       ends [] (pong_err_ep_shutdown E ret ep peer send recv s)
     } else pong_server_registered E n fuel dma wc (the send_mr) recv_mr ep peer send recv s
   }"

text \<open>From the moment there are the two buffers.\<close>

definition pong_server_buffers ::
  "env \<Rightarrow> nat \<Rightarrow> nat \<Rightarrow> dma \<Rightarrow> ibv_wc list \<Rightarrow> string \<Rightarrow> string \<Rightarrow> ptr \<Rightarrow> ptr \<Rightarrow> st
    \<Rightarrow> ((rc \<times> line list) option \<times> st) option" where
  "pong_server_buffers E n fuel dma wc addr port send recv s = do {
     ((ret, peer), s) \<leftarrow> common_peer_via_address E addr RPMA_UTIL_IBV_CONTEXT_LOCAL NULL s;
     if ret \<noteq> 0 then ends [] (pong_err_free ret send recv s)
     else do {
       ((ret, ep), s) \<leftarrow> rpma_ep_listen E peer (Some addr) (Some port) (Some NULL) s;
       if ret \<noteq> 0 then ends [] (pong_err_peer_delete E ret peer send recv s)
       else do {
         ((ret, recv_mr), s) \<leftarrow> rpma_mr_reg E peer (of_nat recv) MSG_SIZE RPMA_MR_USAGE_RECV (Some NULL) s;
         if ret \<noteq> 0 then ends [] (pong_err_ep_shutdown E ret (the ep) peer send recv s)
         else pong_server_recv_mr E n fuel dma wc (the recv_mr) (the ep) peer send recv s
       }
     }
   }"

definition pong_server_main ::
  "env \<Rightarrow> nat \<Rightarrow> nat \<Rightarrow> dma \<Rightarrow> ibv_wc list \<Rightarrow> string \<Rightarrow> string \<Rightarrow> st \<Rightarrow> ((rc \<times> line list) option \<times> st) option" where
  "pong_server_main E n fuel dma wc addr port s = do {
     (recv, s) \<leftarrow> malloc_aligned E 8 s;
     if recv = NULL then Some (Some (- 1, []), s)
     else do {
       (send, s) \<leftarrow> malloc_aligned E 8 s;
       if send = NULL then do {
         (_, s) \<leftarrow> free recv s;
         Some (Some (- 1, []), s)
       } else pong_server_buffers E n fuel dma wc addr port send recv s
     }
   }"

subsection \<open>What the programs leave\<close>

lemma wp_wait_and_process:
  assumes P: "stable E P" and conn: "conn_live P conn cq" and Q: "\<And>r s'. P s' \<Longrightarrow> Q r s'"
  shows "P s \<Longrightarrow> wp (wait_and_process_completions E cq recv n wc a b s) Q"
proof (induction n arbitrary: wc a b s)
  case (Suc n)
  then show ?case
    by (auto intro!: wp_cq_wait [where P = P, OF _ P conn] wp_get_wc [where P = P, OF _ P conn] Q split: prod.split)
qed (simp add: Q)

lemma wp_ping_round:
  assumes s: "P s" and P: "stable E P" and conn: "conn_live P conn cq" and mrs: "live P recv_mr O_mr_local" "live P send_mr O_mr_local"
    and buf: "\<And>x. allows P send (\<lambda>_. O_bytes x)" and Q: "\<And>r s'. P s' \<Longrightarrow> Q r s'"
  shows "wp (ping_round E fuel dma wc conn recv_mr send_mr cq recv send c s) Q"
  unfolding ping_round_def Let_def
  by (auto intro!: wp_send(2) [where P = P, OF s P conn mrs(1)] wp_store_allowed [where P = P, OF _ buf]
      wp_send(1) [where P = P, OF _ P conn mrs(2)] wp_wait_and_process [where P = P, OF P conn] Q split: option.split)

lemma wp_pong_round:
  assumes s: "P s" and P: "stable E P" and conn: "conn_live P conn cq" and mrs: "live P recv_mr O_mr_local" "live P send_mr O_mr_local"
    and buf: "\<And>x. allows P send (\<lambda>_. O_bytes x)" and Q: "\<And>r s'. P s' \<Longrightarrow> Q r s'"
  shows "wp (pong_round E fuel dma wc conn recv_mr send_mr cq recv send first s) Q"
  unfolding pong_round_def Let_def
  by (auto intro!: wp_send(2) [where P = P, OF _ P conn mrs(1)] wp_store_allowed [where P = P, OF _ buf]
      wp_send(1) [where P = P, OF _ P conn mrs(2)] wp_wait_and_process [where P = P, OF P conn] s Q split: option.split)

abbreviation "msg_peer E P recv send peer \<equiv> over owns_peer E (msg_bufs E P recv send) peer"
abbreviation "msg_mrs E P recv send peer m k \<equiv> over owns_mr E (over owns_mr E (msg_peer E P recv send peer) m) k"
abbreviation "msg_conn E P recv send peer m k q conn \<equiv> over (owns_conn_cq E q) E (msg_mrs E P recv send peer m k) conn"
abbreviation "msg_ep E P recv send peer ep \<equiv> over (owns_ep_of peer) E (msg_peer E P recv send peer) ep"
abbreviation "msg_ep_mrs E P recv send peer ep m k \<equiv> over owns_mr E (over owns_mr E (msg_ep E P recv send peer ep) m) k"
abbreviation "msg_ep_conn E P recv send peer ep m k q conn \<equiv> over (owns_conn_cq E q) E (msg_ep_mrs E P recv send peer ep m k) conn"

lemma wp_ping_err_mr_free:
  assumes "msg_bufs E P recv send s" and "stable E P" and "\<And>ret s'. P s' \<Longrightarrow> Q ret s'"
  shows "wp (ping_err_mr_free ret send recv s) Q"
  using assms by (auto simp: ping_err_mr_free_def intro!: wp_free_two)

lemma wp_ping_err_peer_delete:
  assumes "msg_peer E P recv send peer s" and "stable E P" and "\<And>ret s'. P s' \<Longrightarrow> Q ret s'"
  shows "wp (ping_err_peer_delete E ret peer send recv s) Q"
  using assms by (auto simp: ping_err_peer_delete_def intro!: peer_scope.wp_pop plain_scope.stable_over wp_ping_err_mr_free)

lemma wp_ping_err_mr_dereg:
  assumes "msg_mrs E P recv send peer m k s" and "stable E P" and "\<And>ret s'. P s' \<Longrightarrow> Q ret s'"
  shows "wp (ping_err_mr_dereg E ret k m peer send recv s) Q"
  using assms
  by (auto simp: ping_err_mr_dereg_def intro!: mr_scope.wp_pop mr_scope.stable_over peer_scope.stable_over wp_ping_err_peer_delete)

lemma wp_ping_err_conn_disconnect:
  assumes "msg_conn E P recv send peer m k q conn s" and "stable E P" and "events_wf E" and "\<And>ret s'. P s' \<Longrightarrow> Q ret s'"
  shows "wp (ping_err_conn_disconnect E ret conn k m peer send recv s) Q"
  unfolding ping_err_conn_disconnect_def
  by (auto intro!: wp_close_cq [OF assms(1) mr_scope.stable_over assms(3)] wp_ping_err_mr_dereg [OF _ assms(2)] assms(4))

lemma wp_ping_client_connected:
  assumes s: "msg_conn E P recv send peer m k q conn s" and P: "stable E P" and wf: "events_wf E"
    and Q: "\<And>r s'. P s' \<Longrightarrow> Q (Some r) s'" and run: "\<And>s'. ledger_ok s' \<Longrightarrow> Q None s'"
  shows "wp (ping_client_connected E fuel dma wc c rounds conn k m peer send recv s) Q"
proof -
  let ?P = "msg_conn E P recv send peer m k q conn"
  have st: "stable E ?P" by (rule cq_scope.stable_over)
  have l: "conn_live ?P conn q" "live ?P m O_mr_local" "live ?P k O_mr_local" by (intro lives)+
  have a: "allows ?P send (\<lambda>_. O_bytes x)" for x by (intro allow)
  show ?thesis
    unfolding ping_client_connected_def
    by (auto intro!: wp_get_cq [where P = ?P, OF s l(1)] wp_while_rounds [where P = ?P] wp_ping_round [where P = ?P, OF _ st l a]
        wp_store_allowed [where P = ?P, OF _ a] wp_send(1) [where P = ?P, OF _ st l(1,3)] wp_ping_err_conn_disconnect [OF _ P wf] s
        Q run over_ledger split: option.split)
qed

lemma wp_ping_client_recv_mr:
  assumes s: "over owns_mr E (msg_peer E P recv send peer) m s" and P: "stable E P" and wf: "events_wf E"
    and Q: "\<And>r s'. P s' \<Longrightarrow> Q (Some r) s'" and run: "\<And>s'. ledger_ok s' \<Longrightarrow> Q None s'"
  shows "wp (ping_client_recv_mr E fuel dma wc addr port c rounds m peer send recv s) Q"
proof -
  have l: "live (over owns_mr E (msg_peer E P recv send peer) m) peer O_peer" "live (msg_mrs E P recv send peer m k) peer O_peer" for k
    by (intro lives)+
  have pd: "pdata_arg_ok None" by simp
  show ?thesis
    unfolding ping_client_recv_mr_def
    by (auto intro!: wp_push_mr [OF mr_scope.stable_over s liveD [OF l(1) s]] wp_client_connect_cq [OF _ mr_scope.stable_over l(2) _ pd wf]
        mr_scope.wp_pop [OF _ peer_scope.stable_over] wp_ping_err_peer_delete [OF _ P]
        wp_ping_err_mr_dereg [OF _ P] wp_ping_client_connected [OF _ P wf] Q run)
qed

lemma wp_ping_client_buffers:
  assumes s: "msg_bufs E P recv send s" and P: "stable E P" and wf: "events_wf E"
    and Q: "\<And>r s'. P s' \<Longrightarrow> Q (Some r) s'" and run: "\<And>s'. ledger_ok s' \<Longrightarrow> Q None s'"
  shows "wp (ping_client_buffers E fuel dma wc addr port c rounds send recv s) Q"
proof -
  have l: "live (msg_peer E P recv send peer) peer O_peer" for peer by (intro lives)
  show ?thesis
    unfolding ping_client_buffers_def
    by (auto intro!: wp_common_peer_via_address [OF plain_scope.stable_over s] wp_push_mr [OF peer_scope.stable_over _ liveD [OF l]]
        wp_ping_err_mr_free [OF _ P] wp_ping_err_peer_delete [OF _ P] wp_ping_client_recv_mr [OF _ P wf] Q run)
qed

lemma wp_ping_client_main:
  assumes "P s" and P: "stable E P" and wf: "events_wf E"
    and Q: "\<And>r s'. P s' \<Longrightarrow> Q (Some r) s'" and run: "\<And>s'. ledger_ok s' \<Longrightarrow> Q None s'"
  shows "wp (ping_client_main E fuel dma wc addr port seed rounds sleep s) Q"
  unfolding ping_client_main_def using assms(1)
  by (auto intro!: wp_malloc_aligned [OF P assms(1)] wp_malloc_aligned [OF plain_scope.stable_over] wp_pop_free [OF _ P]
      wp_ping_client_buffers [OF _ P wf] Q run split: option.split)

lemma wp_pong_err_free:
  assumes "msg_bufs E P recv send s" and "stable E P" and "\<And>ret s'. P s' \<Longrightarrow> Q ret s'"
  shows "wp (pong_err_free ret send recv s) Q"
  using assms by (auto simp: pong_err_free_def intro!: wp_free_two)

lemma wp_pong_err_peer_delete:
  assumes "msg_peer E P recv send peer s" and "stable E P" and "\<And>ret s'. P s' \<Longrightarrow> Q ret s'"
  shows "wp (pong_err_peer_delete E ret peer send recv s) Q"
  using assms by (auto simp: pong_err_peer_delete_def intro!: peer_scope.wp_pop plain_scope.stable_over wp_pong_err_free)

lemma wp_pong_err_ep_shutdown:
  assumes "msg_ep E P recv send peer ep s" and "stable E P" and "\<And>ret s'. P s' \<Longrightarrow> Q ret s'"
  shows "wp (pong_err_ep_shutdown E ret ep peer send recv s) Q"
  using assms by (auto simp: pong_err_ep_shutdown_def intro!: ep_scope.wp_pop peer_scope.stable_over wp_pong_err_peer_delete)

lemma wp_pong_err_mr_dereg:
  assumes "msg_ep_mrs E P recv send peer ep m k s" and "stable E P" and "\<And>ret s'. P s' \<Longrightarrow> Q ret s'"
  shows "wp (pong_err_mr_dereg E ret k m ep peer send recv s) Q"
  using assms
  by (auto simp: pong_err_mr_dereg_def intro!: mr_scope.wp_pop mr_scope.stable_over ep_scope.stable_over wp_pong_err_ep_shutdown)

lemma wp_pong_err_conn_disconnect:
  assumes "msg_ep_conn E P recv send peer ep m k q conn s" and "stable E P" and "events_wf E" and "\<And>ret s'. P s' \<Longrightarrow> Q ret s'"
  shows "wp (pong_err_conn_disconnect E ret conn k m ep peer send recv s) Q"
  unfolding pong_err_conn_disconnect_def
  by (auto intro!: wp_close_cq [OF assms(1) mr_scope.stable_over assms(3)] wp_pong_err_mr_dereg [OF _ assms(2)] assms(4))

lemma wp_pong_server_connected:
  assumes s: "over (owns_conn_of E) E (msg_ep_mrs E P recv send peer ep m k) conn s" and P: "stable E P" and wf: "events_wf E"
    and Q: "\<And>r s'. P s' \<Longrightarrow> Q (Some r) s'" and run: "\<And>s'. ledger_ok s' \<Longrightarrow> Q None s'"
  shows "wp (pong_server_connected E n fuel dma wc conn k m ep peer send recv s) Q"
  unfolding pong_server_connected_def wp_bind
proof (rule wp_next_event [OF s wf], goal_cases)
  case (1 ret out t)
  then obtain q where t: "msg_ep_conn E P recv send peer ep m k q conn t" using over_some_cq by blast
  let ?P = "msg_ep_conn E P recv send peer ep m k q conn"
  have st: "stable E ?P" by (rule cq_scope.stable_over)
  have l: "conn_live ?P conn q" "live ?P m O_mr_local" "live ?P k O_mr_local" by (intro lives)+
  have a: "allows ?P send (\<lambda>_. O_bytes x)" for x by (intro allow)
  show ?case
    by (auto intro!: wp_get_cq [where P = ?P, OF t l(1)] wp_serve [where P = ?P] wp_pong_round [where P = ?P, OF _ st l a]
        wp_pong_err_conn_disconnect [OF _ P wf] t Q run over_ledger split: option.split)
qed

lemma wp_pong_server_registered:
  assumes s: "msg_ep_mrs E P recv send peer ep m k s" and P: "stable E P" and wf: "events_wf E"
    and Q: "\<And>r s'. P s' \<Longrightarrow> Q (Some r) s'" and run: "\<And>s'. ledger_ok s' \<Longrightarrow> Q None s'"
  shows "wp (pong_server_registered E n fuel dma wc k m ep peer send recv s) Q"
proof -
  let ?P = "msg_ep_mrs E P recv send peer ep m k"
  have l: "ep_live ?P ep peer" "live ?P peer O_peer" "live ?P m O_mr_local" by (intro lives ep_lives)+
  have pd: "pdata_arg_ok None" by simp
  show ?thesis
    unfolding pong_server_registered_def
    by (auto intro!: wp_next_req_live [where P = ?P, OF s mr_scope.stable_over l(1,2) _ wf] wp_req_recv [where P = ?P, OF _ l(3)]
        wp_req_connect [where P = ?P, OF mr_scope.stable_over _ liveD [OF l(2)] pd]
        wp_pong_err_mr_dereg [OF _ P] wp_pong_server_connected [OF _ P wf] Q run intro: wp_req_delete [where P = ?P, OF mr_scope.stable_over])
qed

lemma wp_pong_server_recv_mr:
  assumes s: "over owns_mr E (msg_ep E P recv send peer ep) m s" and P: "stable E P" and wf: "events_wf E"
    and Q: "\<And>r s'. P s' \<Longrightarrow> Q (Some r) s'" and run: "\<And>s'. ledger_ok s' \<Longrightarrow> Q None s'"
  shows "wp (pong_server_recv_mr E n fuel dma wc m ep peer send recv s) Q"
proof -
  have l: "live (over owns_mr E (msg_ep E P recv send peer ep) m) peer O_peer" by (intro lives)
  show ?thesis
    unfolding pong_server_recv_mr_def
    by (auto intro!: wp_push_mr [OF mr_scope.stable_over s liveD [OF l s]] mr_scope.wp_pop [OF _ ep_scope.stable_over]
        wp_pong_err_ep_shutdown [OF _ P] wp_pong_server_registered [OF _ P wf] Q run)
qed

lemma wp_pong_server_buffers:
  assumes s: "msg_bufs E P recv send s" and P: "stable E P" and wf: "events_wf E"
    and Q: "\<And>r s'. P s' \<Longrightarrow> Q (Some r) s'" and run: "\<And>s'. ledger_ok s' \<Longrightarrow> Q None s'"
  shows "wp (pong_server_buffers E n fuel dma wc addr port send recv s) Q"
proof -
  have l: "live (msg_peer E P recv send peer) peer O_peer" "live (msg_ep E P recv send peer ep) peer O_peer" for peer ep by (intro lives)+
  show ?thesis
    unfolding pong_server_buffers_def
    by (auto intro!: wp_common_peer_via_address [OF plain_scope.stable_over s] wp_push_ep [OF peer_scope.stable_over _ live_nonnull [OF l(1)]]
        wp_push_mr [OF ep_scope.stable_over _ liveD [OF l(2)]] wp_pong_err_free [OF _ P] wp_pong_err_peer_delete [OF _ P]
        wp_pong_err_ep_shutdown [OF _ P] wp_pong_server_recv_mr [OF _ P wf] Q run)
qed

lemma wp_pong_server_main:
  assumes "P s" and P: "stable E P" and wf: "events_wf E"
    and Q: "\<And>r s'. P s' \<Longrightarrow> Q (Some r) s'" and run: "\<And>s'. ledger_ok s' \<Longrightarrow> Q None s'"
  shows "wp (pong_server_main E n fuel dma wc addr port s) Q"
  unfolding pong_server_main_def
  by (auto intro!: wp_malloc_aligned [OF P assms(1)] wp_malloc_aligned [OF plain_scope.stable_over] wp_pop_free [OF _ P]
      wp_pong_server_buffers [OF _ P wf] Q run)

end
