(* ===== verification/Receive_Cq.thy ===== *)
theory Receive_Cq
  imports Ping_Pong
begin

text \<open>
  The ping-pong with a receive completion queue, \<open>src/examples/12-receive-completion-queue\<close>: sends complete on the
  main queue of the connection and receives on a queue of their own, whose size is set in a connection configuration.
  The parts are those of the ping-pong, with the configuration between the memory regions and the connection. The buffers
  and loops are as in \<open>Ping_Pong\<close>.
\<close>

definition RCQ_SIZE :: u32 where "RCQ_SIZE = 10"

text \<open>\<open>wc\<close> is the local variable the completion is read to.\<close>

definition get_wc_and_validate :: "env \<Rightarrow> ptr \<Rightarrow> int \<Rightarrow> ibv_wc \<Rightarrow> st \<Rightarrow> (rc \<times> st) option" where
  "get_wc_and_validate E cq opcode wc s = do {
     (ret, s) \<leftarrow> rpma_cq_wait E cq s;
     if ret \<noteq> 0 then Some (ret, s)
     else do {
       ((ret, wcs, _), s) \<leftarrow> rpma_cq_get_wc E cq 1 (Some [wc]) None s;
       let wc = (case the wcs of [] \<Rightarrow> wc | w # _ \<Rightarrow> w);
       if ret \<noteq> 0 then Some (ret, s)
       else if wc_status wc \<noteq> IBV_WC_SUCCESS then Some (- 1, s)
       else if wc_opcode wc \<noteq> opcode then Some (- 1, s)
       else Some (0, s)
     }
   }"

subsection \<open>The client\<close>

definition rcq_ping_round ::
  "env \<Rightarrow> dma \<Rightarrow> ibv_wc \<Rightarrow> ptr \<Rightarrow> ptr \<Rightarrow> ptr \<Rightarrow> ptr \<Rightarrow> ptr \<Rightarrow> ptr \<Rightarrow> ptr \<Rightarrow> u64 \<Rightarrow> st
    \<Rightarrow> ((rc \<times> u64 \<times> line list) option \<times> st) option" where
  "rcq_ping_round E dma wc conn recv_mr send_mr cq rcq recv send counter s = do {
     (ret, s) \<leftarrow> rpma_recv E conn recv_mr 0 MSG_SIZE (of_nat recv) s;
     if ret \<noteq> 0 then Some (Some (ret, counter, []), s)
     else do {
       (_, s) \<leftarrow> store send (O_bytes (le_bytes 8 counter)) s;
       (ret, s) \<leftarrow> rpma_send E conn send_mr 0 MSG_SIZE RPMA_F_COMPLETION_ALWAYS 0 s;
       if ret \<noteq> 0 then Some (Some (ret, counter, [Value_sent counter]), s)
       else do {
         (ret, s) \<leftarrow> get_wc_and_validate E cq IBV_WC_SEND wc s;
         if ret \<noteq> 0 then Some (Some (ret, counter, [Value_sent counter]), s)
         else do {
           (ret, s) \<leftarrow> get_wc_and_validate E rcq IBV_WC_RECV wc s;
           if ret \<noteq> 0 then Some (Some (ret, counter, [Value_sent counter]), s)
           else do {
             let got = le_val (take 8 (dma (trace s)));
             Some (Some (0, got, [Value_sent counter, Value_received got]), s)
           }
         }
       }
     }
   }"

definition rcq_ping_err_mr_free :: "rc \<Rightarrow> ptr \<Rightarrow> ptr \<Rightarrow> st \<Rightarrow> (rc \<times> st) option" where
  "rcq_ping_err_mr_free ret send recv s = do {
     (_, s) \<leftarrow> free send s;
     (_, s) \<leftarrow> free recv s;
     Some (if ret \<noteq> 0 then - 1 else 0, s)
   }"

definition rcq_ping_err_peer_delete :: "env \<Rightarrow> rc \<Rightarrow> ptr \<Rightarrow> ptr \<Rightarrow> ptr \<Rightarrow> st \<Rightarrow> (rc \<times> st) option" where
  "rcq_ping_err_peer_delete E ret peer send recv s = do {
     ((ret2, _), s) \<leftarrow> rpma_peer_delete E (Some peer) s;
     rcq_ping_err_mr_free (ret OR ret2) send recv s
   }"

definition rcq_ping_err_mr_dereg :: "env \<Rightarrow> rc \<Rightarrow> ptr \<Rightarrow> ptr \<Rightarrow> ptr \<Rightarrow> ptr \<Rightarrow> ptr \<Rightarrow> st \<Rightarrow> (rc \<times> st) option" where
  "rcq_ping_err_mr_dereg E ret send_mr recv_mr peer send recv s = do {
     ((ret1, _), s) \<leftarrow> rpma_mr_dereg E (Some send_mr) s;
     ((ret2, _), s) \<leftarrow> rpma_mr_dereg E (Some recv_mr) s;
     rcq_ping_err_peer_delete E (ret OR ret1 OR ret2) peer send recv s
   }"

definition rcq_ping_err_cfg_delete :: "env \<Rightarrow> rc \<Rightarrow> ptr \<Rightarrow> ptr \<Rightarrow> ptr \<Rightarrow> ptr \<Rightarrow> ptr \<Rightarrow> ptr \<Rightarrow> st \<Rightarrow> (rc \<times> st) option" where
  "rcq_ping_err_cfg_delete E ret cfg send_mr recv_mr peer send recv s = do {
     ((ret2, _), s) \<leftarrow> rpma_conn_cfg_delete (Some cfg) s;
     rcq_ping_err_mr_dereg E (ret OR ret2) send_mr recv_mr peer send recv s
   }"

definition rcq_ping_err_conn_disconnect ::
  "env \<Rightarrow> rc \<Rightarrow> ptr \<Rightarrow> ptr \<Rightarrow> ptr \<Rightarrow> ptr \<Rightarrow> ptr \<Rightarrow> ptr \<Rightarrow> ptr \<Rightarrow> st \<Rightarrow> (rc \<times> st) option" where
  "rcq_ping_err_conn_disconnect E ret conn cfg send_mr recv_mr peer send recv s = do {
     ((ret2, _), s) \<leftarrow> common_disconnect_and_wait_for_conn_close E conn s;
     rcq_ping_err_cfg_delete E (ret OR ret2) cfg send_mr recv_mr peer send recv s
   }"

text \<open>From the moment there is a connection.\<close>

definition rcq_client_connected ::
  "env \<Rightarrow> dma \<Rightarrow> ibv_wc \<Rightarrow> u64 \<Rightarrow> u64 \<Rightarrow> ptr \<Rightarrow> ptr \<Rightarrow> ptr \<Rightarrow> ptr \<Rightarrow> ptr \<Rightarrow> ptr \<Rightarrow> ptr \<Rightarrow> st
    \<Rightarrow> ((rc \<times> line list) option \<times> st) option" where
  "rcq_client_connected E dma wc counter rounds conn cfg send_mr recv_mr peer send recv s = do {
     ((ret, cq), s) \<leftarrow> rpma_conn_get_cq conn (Some NULL) s;
     if ret \<noteq> 0 then ends [] (rcq_ping_err_conn_disconnect E ret conn cfg send_mr recv_mr peer send recv s)
     else do {
       ((ret, rcq), s) \<leftarrow> rpma_conn_get_rcq conn (Some NULL) s;
       if ret \<noteq> 0 then ends [] (rcq_ping_err_conn_disconnect E ret conn cfg send_mr recv_mr peer send recv s)
       else do {
         (r, s) \<leftarrow> while_rounds (rcq_ping_round E dma wc conn recv_mr send_mr (the cq) (the rcq) recv send) (unat (rounds - 1)) counter s;
         (case r of
            None \<Rightarrow> Some (None, s)
          | Some (ret, _, out) \<Rightarrow> do {
              (_, s) \<leftarrow> store send (O_bytes (le_bytes 8 I_M_DONE)) s;
              (ret2, s) \<leftarrow> rpma_send E conn send_mr 0 MSG_SIZE RPMA_F_COMPLETION_ON_ERROR 0 s;
              ends out (rcq_ping_err_conn_disconnect E (ret OR ret2) conn cfg send_mr recv_mr peer send recv s)
            })
       }
     }
   }"

text \<open>From the moment the memory is registered.\<close>

definition rcq_client_registered ::
  "env \<Rightarrow> dma \<Rightarrow> ibv_wc \<Rightarrow> string \<Rightarrow> string \<Rightarrow> u64 \<Rightarrow> u64 \<Rightarrow> ptr \<Rightarrow> ptr \<Rightarrow> ptr \<Rightarrow> ptr \<Rightarrow> ptr \<Rightarrow> st
    \<Rightarrow> ((rc \<times> line list) option \<times> st) option" where
  "rcq_client_registered E dma wc addr port counter rounds send_mr recv_mr peer send recv s = do {
     ((ret, cfg), s) \<leftarrow> rpma_conn_cfg_new E (Some NULL) s;
     if ret \<noteq> 0 then ends [] (rcq_ping_err_mr_dereg E ret send_mr recv_mr peer send recv s)
     else do {
       (ret, s) \<leftarrow> rpma_conn_cfg_set_rcq_size (the cfg) RCQ_SIZE s;
       if ret \<noteq> 0 then ends [] (rcq_ping_err_cfg_delete E ret (the cfg) send_mr recv_mr peer send recv s)
       else do {
         ((ret, conn), s) \<leftarrow> client_connect E peer addr port (the cfg) None NULL s;
         if ret \<noteq> 0 then ends [] (rcq_ping_err_cfg_delete E ret (the cfg) send_mr recv_mr peer send recv s)
         else rcq_client_connected E dma wc counter rounds conn (the cfg) send_mr recv_mr peer send recv s
       }
     }
   }"

definition rcq_client_recv_mr ::
  "env \<Rightarrow> dma \<Rightarrow> ibv_wc \<Rightarrow> string \<Rightarrow> string \<Rightarrow> u64 \<Rightarrow> u64 \<Rightarrow> ptr \<Rightarrow> ptr \<Rightarrow> ptr \<Rightarrow> ptr \<Rightarrow> st
    \<Rightarrow> ((rc \<times> line list) option \<times> st) option" where
  "rcq_client_recv_mr E dma wc addr port counter rounds recv_mr peer send recv s = do {
     ((ret, send_mr), s) \<leftarrow> rpma_mr_reg E peer (of_nat send) MSG_SIZE RPMA_MR_USAGE_SEND (Some NULL) s;
     if ret \<noteq> 0 then do {
       (_, s) \<leftarrow> rpma_mr_dereg E (Some recv_mr) s;
       ends [] (rcq_ping_err_peer_delete E ret peer send recv s)
     } else rcq_client_registered E dma wc addr port counter rounds (the send_mr) recv_mr peer send recv s
   }"

definition rcq_client_buffers ::
  "env \<Rightarrow> dma \<Rightarrow> ibv_wc \<Rightarrow> string \<Rightarrow> string \<Rightarrow> u64 \<Rightarrow> u64 \<Rightarrow> ptr \<Rightarrow> ptr \<Rightarrow> st
    \<Rightarrow> ((rc \<times> line list) option \<times> st) option" where
  "rcq_client_buffers E dma wc addr port counter rounds send recv s = do {
     ((ret, peer), s) \<leftarrow> common_peer_via_address E addr RPMA_UTIL_IBV_CONTEXT_REMOTE NULL s;
     if ret \<noteq> 0 then ends [] (rcq_ping_err_mr_free ret send recv s)
     else do {
       ((ret, recv_mr), s) \<leftarrow> rpma_mr_reg E peer (of_nat recv) MSG_SIZE RPMA_MR_USAGE_RECV (Some NULL) s;
       if ret \<noteq> 0 then ends [] (rcq_ping_err_peer_delete E ret peer send recv s)
       else rcq_client_recv_mr E dma wc addr port counter rounds (the recv_mr) peer send recv s
     }
   }"

definition rcq_client_main ::
  "env \<Rightarrow> dma \<Rightarrow> ibv_wc \<Rightarrow> string \<Rightarrow> string \<Rightarrow> string \<Rightarrow> string \<Rightarrow> string option \<Rightarrow> st
    \<Rightarrow> ((rc \<times> line list) option \<times> st) option" where
  "rcq_client_main E dma wc addr port start_value rounds sleep s =
     (case (strtoul_noerror start_value, strtoul_noerror rounds, case sleep of None \<Rightarrow> Some 0 | Some a \<Rightarrow> strtoul_noerror a) of
        (Some counter, Some rounds, Some sleep_usec) \<Rightarrow> do {
          (recv, s) \<leftarrow> malloc_aligned E 8 s;
          if recv = NULL then Some (Some (- 1, []), s)
          else do {
            (send, s) \<leftarrow> malloc_aligned E 8 s;
            if send = NULL then do {
              (_, s) \<leftarrow> free recv s;
              Some (Some (- 1, []), s)
            } else rcq_client_buffers E dma wc addr port counter rounds send recv s
          }
        }
      | _ \<Rightarrow> Some (Some (- 1, []), s))"

subsection \<open>The server\<close>

definition rcq_pong_round ::
  "env \<Rightarrow> dma \<Rightarrow> ibv_wc \<Rightarrow> ptr \<Rightarrow> ptr \<Rightarrow> ptr \<Rightarrow> ptr \<Rightarrow> ptr \<Rightarrow> ptr \<Rightarrow> ptr \<Rightarrow> bool \<Rightarrow> st
    \<Rightarrow> ((rc \<times> bool \<times> line list) option \<times> st) option" where
  "rcq_pong_round E dma wc conn recv_mr send_mr cq rcq recv send first s = do {
     (ret, s) \<leftarrow> get_wc_and_validate E rcq IBV_WC_RECV wc s;
     if ret \<noteq> 0 then Some (Some (ret, False, []), s)
     else do {
       let got = le_val (take 8 (dma (trace s)));
       if got = I_M_DONE then Some (Some (0, False, []), s)
       else do {
         (_, s) \<leftarrow> store send (O_bytes (le_bytes 8 (got + 1))) s;
         (ret, s) \<leftarrow> rpma_recv E conn recv_mr 0 MSG_SIZE (of_nat recv) s;
         if ret \<noteq> 0 then Some (Some (ret, False, [Value_received got]), s)
         else do {
           (ret, s) \<leftarrow> rpma_send E conn send_mr 0 MSG_SIZE RPMA_F_COMPLETION_ALWAYS 0 s;
           if ret \<noteq> 0 then Some (Some (ret, False, [Value_received got, Value_sent (got + 1)]), s)
           else do {
             (ret, s) \<leftarrow> get_wc_and_validate E cq IBV_WC_SEND wc s;
             Some (Some (ret, ret = 0, [Value_received got, Value_sent (got + 1)]), s)
           }
         }
       }
     }
   }"

definition rcq_pong_err_free :: "rc \<Rightarrow> ptr \<Rightarrow> ptr \<Rightarrow> st \<Rightarrow> (rc \<times> st) option" where
  "rcq_pong_err_free ret send recv s = do {
     (_, s) \<leftarrow> free send s;
     (_, s) \<leftarrow> free recv s;
     Some (if ret \<noteq> 0 then - 1 else 0, s)
   }"

definition rcq_pong_err_peer_delete :: "env \<Rightarrow> rc \<Rightarrow> ptr \<Rightarrow> ptr \<Rightarrow> ptr \<Rightarrow> st \<Rightarrow> (rc \<times> st) option" where
  "rcq_pong_err_peer_delete E ret peer send recv s = do {
     ((ret2, _), s) \<leftarrow> rpma_peer_delete E (Some peer) s;
     rcq_pong_err_free (ret OR ret2) send recv s
   }"

definition rcq_pong_err_ep_shutdown :: "env \<Rightarrow> rc \<Rightarrow> ptr \<Rightarrow> ptr \<Rightarrow> ptr \<Rightarrow> ptr \<Rightarrow> st \<Rightarrow> (rc \<times> st) option" where
  "rcq_pong_err_ep_shutdown E ret ep peer send recv s = do {
     ((ret2, _), s) \<leftarrow> rpma_ep_shutdown E (Some ep) s;
     rcq_pong_err_peer_delete E (ret OR ret2) peer send recv s
   }"

definition rcq_pong_err_mr_dereg ::
  "env \<Rightarrow> rc \<Rightarrow> ptr \<Rightarrow> ptr \<Rightarrow> ptr \<Rightarrow> ptr \<Rightarrow> ptr \<Rightarrow> ptr \<Rightarrow> st \<Rightarrow> (rc \<times> st) option" where
  "rcq_pong_err_mr_dereg E ret send_mr recv_mr ep peer send recv s = do {
     ((ret1, _), s) \<leftarrow> rpma_mr_dereg E (Some send_mr) s;
     ((ret2, _), s) \<leftarrow> rpma_mr_dereg E (Some recv_mr) s;
     rcq_pong_err_ep_shutdown E (ret OR ret1 OR ret2) ep peer send recv s
   }"

definition rcq_pong_err_cfg_delete ::
  "env \<Rightarrow> rc \<Rightarrow> ptr \<Rightarrow> ptr \<Rightarrow> ptr \<Rightarrow> ptr \<Rightarrow> ptr \<Rightarrow> ptr \<Rightarrow> ptr \<Rightarrow> st \<Rightarrow> (rc \<times> st) option" where
  "rcq_pong_err_cfg_delete E ret cfg send_mr recv_mr ep peer send recv s = do {
     ((ret2, _), s) \<leftarrow> rpma_conn_cfg_delete (Some cfg) s;
     rcq_pong_err_mr_dereg E (ret OR ret2) send_mr recv_mr ep peer send recv s
   }"

definition rcq_pong_err_conn_disconnect ::
  "env \<Rightarrow> rc \<Rightarrow> ptr \<Rightarrow> ptr \<Rightarrow> ptr \<Rightarrow> ptr \<Rightarrow> ptr \<Rightarrow> ptr \<Rightarrow> ptr \<Rightarrow> ptr \<Rightarrow> st \<Rightarrow> (rc \<times> st) option" where
  "rcq_pong_err_conn_disconnect E ret conn cfg send_mr recv_mr ep peer send recv s = do {
     ((ret2, _), s) \<leftarrow> common_disconnect_and_wait_for_conn_close E conn s;
     rcq_pong_err_cfg_delete E (ret OR ret2) cfg send_mr recv_mr ep peer send recv s
   }"

text \<open>From the moment there is a connection. An unexpected event leaves \<open>ret\<close> at 0.\<close>

definition rcq_server_connected ::
  "env \<Rightarrow> nat \<Rightarrow> dma \<Rightarrow> ibv_wc \<Rightarrow> ptr \<Rightarrow> ptr \<Rightarrow> ptr \<Rightarrow> ptr \<Rightarrow> ptr \<Rightarrow> ptr \<Rightarrow> ptr \<Rightarrow> ptr \<Rightarrow> st
    \<Rightarrow> ((rc \<times> line list) option \<times> st) option" where
  "rcq_server_connected E n dma wc conn cfg send_mr recv_mr ep peer send recv s = do {
     ((ret, conn_event), s) \<leftarrow> rpma_conn_next_event E conn (Some RPMA_CONN_UNDEFINED) s;
     if ret \<noteq> 0 then ends [] (rcq_pong_err_conn_disconnect E ret conn cfg send_mr recv_mr ep peer send recv s)
     else if the conn_event \<noteq> RPMA_CONN_ESTABLISHED
     then ends [] (rcq_pong_err_conn_disconnect E ret conn cfg send_mr recv_mr ep peer send recv s)
     else do {
       ((ret, cq), s) \<leftarrow> rpma_conn_get_cq conn (Some NULL) s;
       if ret \<noteq> 0 then ends [] (rcq_pong_err_conn_disconnect E ret conn cfg send_mr recv_mr ep peer send recv s)
       else do {
         ((ret, rcq), s) \<leftarrow> rpma_conn_get_rcq conn (Some NULL) s;
         if ret \<noteq> 0 then ends [] (rcq_pong_err_conn_disconnect E ret conn cfg send_mr recv_mr ep peer send recv s)
         else do {
           (r, s) \<leftarrow> serve (rcq_pong_round E dma wc conn recv_mr send_mr (the cq) (the rcq) recv send) n True s;
           (case r of
              None \<Rightarrow> Some (None, s)
            | Some (ret, out) \<Rightarrow> ends out (rcq_pong_err_conn_disconnect E ret conn cfg send_mr recv_mr ep peer send recv s))
         }
       }
     }
   }"

text \<open>From the moment there is a configuration with the size of the queue.\<close>

definition rcq_server_configured ::
  "env \<Rightarrow> nat \<Rightarrow> dma \<Rightarrow> ibv_wc \<Rightarrow> ptr \<Rightarrow> ptr \<Rightarrow> ptr \<Rightarrow> ptr \<Rightarrow> ptr \<Rightarrow> ptr \<Rightarrow> ptr \<Rightarrow> st
    \<Rightarrow> ((rc \<times> line list) option \<times> st) option" where
  "rcq_server_configured E n dma wc cfg send_mr recv_mr ep peer send recv s = do {
     ((ret, req), s) \<leftarrow> rpma_ep_next_conn_req E ep cfg (Some NULL) s;
     if ret \<noteq> 0 then ends [] (rcq_pong_err_cfg_delete E ret cfg send_mr recv_mr ep peer send recv s)
     else do {
       (ret, s) \<leftarrow> rpma_conn_req_recv E (the req) recv_mr 0 MSG_SIZE (of_nat recv) s;
       if ret \<noteq> 0 then do {
         (_, s) \<leftarrow> rpma_conn_req_delete E req s;
         ends [] (rcq_pong_err_cfg_delete E ret cfg send_mr recv_mr ep peer send recv s)
       } else do {
         ((ret, req, conn), s) \<leftarrow> rpma_conn_req_connect E req None (Some NULL) s;
         if ret \<noteq> 0 then ends [] (rcq_pong_err_cfg_delete E ret cfg send_mr recv_mr ep peer send recv s)
         else rcq_server_connected E n dma wc (the conn) cfg send_mr recv_mr ep peer send recv s
       }
     }
   }"

definition rcq_server_registered ::
  "env \<Rightarrow> nat \<Rightarrow> dma \<Rightarrow> ibv_wc \<Rightarrow> ptr \<Rightarrow> ptr \<Rightarrow> ptr \<Rightarrow> ptr \<Rightarrow> ptr \<Rightarrow> ptr \<Rightarrow> st
    \<Rightarrow> ((rc \<times> line list) option \<times> st) option" where
  "rcq_server_registered E n dma wc send_mr recv_mr ep peer send recv s = do {
     ((ret, cfg), s) \<leftarrow> rpma_conn_cfg_new E (Some NULL) s;
     if ret \<noteq> 0 then ends [] (rcq_pong_err_mr_dereg E ret send_mr recv_mr ep peer send recv s)
     else do {
       (ret, s) \<leftarrow> rpma_conn_cfg_set_rcq_size (the cfg) RCQ_SIZE s;
       if ret \<noteq> 0 then ends [] (rcq_pong_err_cfg_delete E ret (the cfg) send_mr recv_mr ep peer send recv s)
       else rcq_server_configured E n dma wc (the cfg) send_mr recv_mr ep peer send recv s
     }
   }"

definition rcq_server_recv_mr ::
  "env \<Rightarrow> nat \<Rightarrow> dma \<Rightarrow> ibv_wc \<Rightarrow> ptr \<Rightarrow> ptr \<Rightarrow> ptr \<Rightarrow> ptr \<Rightarrow> ptr \<Rightarrow> st \<Rightarrow> ((rc \<times> line list) option \<times> st) option" where
  "rcq_server_recv_mr E n dma wc recv_mr ep peer send recv s = do {
     ((ret, send_mr), s) \<leftarrow> rpma_mr_reg E peer (of_nat send) MSG_SIZE RPMA_MR_USAGE_SEND (Some NULL) s;
     if ret \<noteq> 0 then do {
       (_, s) \<leftarrow> rpma_mr_dereg E (Some recv_mr) s;
       ends [] (rcq_pong_err_ep_shutdown E ret ep peer send recv s)
     } else rcq_server_registered E n dma wc (the send_mr) recv_mr ep peer send recv s
   }"

definition rcq_server_buffers ::
  "env \<Rightarrow> nat \<Rightarrow> dma \<Rightarrow> ibv_wc \<Rightarrow> string \<Rightarrow> string \<Rightarrow> ptr \<Rightarrow> ptr \<Rightarrow> st \<Rightarrow> ((rc \<times> line list) option \<times> st) option" where
  "rcq_server_buffers E n dma wc addr port send recv s = do {
     ((ret, peer), s) \<leftarrow> common_peer_via_address E addr RPMA_UTIL_IBV_CONTEXT_LOCAL NULL s;
     if ret \<noteq> 0 then ends [] (rcq_pong_err_free ret send recv s)
     else do {
       ((ret, ep), s) \<leftarrow> rpma_ep_listen E peer (Some addr) (Some port) (Some NULL) s;
       if ret \<noteq> 0 then ends [] (rcq_pong_err_peer_delete E ret peer send recv s)
       else do {
         ((ret, recv_mr), s) \<leftarrow> rpma_mr_reg E peer (of_nat recv) MSG_SIZE RPMA_MR_USAGE_RECV (Some NULL) s;
         if ret \<noteq> 0 then ends [] (rcq_pong_err_ep_shutdown E ret (the ep) peer send recv s)
         else rcq_server_recv_mr E n dma wc (the recv_mr) (the ep) peer send recv s
       }
     }
   }"

definition rcq_server_main ::
  "env \<Rightarrow> nat \<Rightarrow> dma \<Rightarrow> ibv_wc \<Rightarrow> string \<Rightarrow> string \<Rightarrow> st \<Rightarrow> ((rc \<times> line list) option \<times> st) option" where
  "rcq_server_main E n dma wc addr port s = do {
     (recv, s) \<leftarrow> malloc_aligned E 8 s;
     if recv = NULL then Some (Some (- 1, []), s)
     else do {
       (send, s) \<leftarrow> malloc_aligned E 8 s;
       if send = NULL then do {
         (_, s) \<leftarrow> free recv s;
         Some (Some (- 1, []), s)
       } else rcq_server_buffers E n dma wc addr port send recv s
     }
   }"

subsection \<open>The loops count\<close>

interpretation rcq_ping: counter_client "rcq_ping_round E dma wc conn recv_mr send_mr cq rcq recv send"
  for E dma wc conn recv_mr send_mr cq rcq recv send
  by unfold_locales (auto simp: rcq_ping_round_def Let_def split: Option.bind_splits if_splits)

interpretation rcq_pong: counter_server "rcq_pong_round E dma wc conn recv_mr send_mr cq rcq recv send"
  for E dma wc conn recv_mr send_mr cq rcq recv send
  by unfold_locales (auto simp: rcq_pong_round_def Let_def split: Option.bind_splits if_splits)

lemmas rcq_session_counts = session_counts [OF rcq_ping.counter_client_axioms rcq_pong.counter_server_axioms]

subsection \<open>What the programs leave\<close>

lemma wp_get_wc_and_validate:
  assumes "P s" and "stable E P" and "cq_live P cq" and "\<And>r s'. P s' \<Longrightarrow> Q r s'"
  shows "wp (get_wc_and_validate E cq opcode wc s) Q"
  unfolding get_wc_and_validate_def Let_def
  by (auto intro!: wp_cq_wait_live [where P = P, OF assms(1-3)] wp_get_wc_live [where P = P, OF _ assms(2,3)] assms(4))

lemma wp_rcq_ping_round:
  assumes s: "P s" and P: "stable E P" and conn: "conn_live P conn cq" and rcq: "cq_live P rcq"
    and mrs: "live P recv_mr O_mr_local" "live P send_mr O_mr_local"
    and buf: "\<And>x. allows P send (\<lambda>_. O_bytes x)" and Q: "\<And>r s'. P s' \<Longrightarrow> Q (Some r) s'"
  shows "wp (rcq_ping_round E dma wc conn recv_mr send_mr cq rcq recv send c s) Q"
  unfolding rcq_ping_round_def Let_def
  by (auto intro!: wp_store_allowed [where P = P, OF _ buf] wp_send(2) [where P = P, OF _ P conn mrs(1)] wp_send(1) [where P = P, OF _ P conn mrs(2)]
      wp_get_wc_and_validate [where P = P, OF _ P rcq] wp_get_wc_and_validate [where P = P, OF _ P conn_live_cq [OF conn]] s Q)

lemma wp_rcq_pong_round:
  assumes s: "P s" and P: "stable E P" and conn: "conn_live P conn cq" and rcq: "cq_live P rcq"
    and mrs: "live P recv_mr O_mr_local" "live P send_mr O_mr_local"
    and buf: "\<And>x. allows P send (\<lambda>_. O_bytes x)" and Q: "\<And>r s'. P s' \<Longrightarrow> Q r s'"
  shows "wp (rcq_pong_round E dma wc conn recv_mr send_mr cq rcq recv send first s) Q"
  unfolding rcq_pong_round_def Let_def
  by (auto intro!: wp_store_allowed [where P = P, OF _ buf] wp_send(2) [where P = P, OF _ P conn mrs(1)] wp_send(1) [where P = P, OF _ P conn mrs(2)]
      wp_get_wc_and_validate [where P = P, OF _ P rcq] wp_get_wc_and_validate [where P = P, OF _ P conn_live_cq [OF conn]] s Q)

abbreviation "rcq_cfg E P recv send peer m k cfg \<equiv> over (owns_plain O_conn_cfg) E (msg_mrs E P recv send peer m k) cfg"
abbreviation "rcq_conn E P recv send peer m k cfg q conn \<equiv> over (owns_conn_cq E q) E (rcq_cfg E P recv send peer m k cfg) conn"
abbreviation "rcq_ep_cfg E P recv send peer ep m k cfg \<equiv> over (owns_plain O_conn_cfg) E (msg_ep_mrs E P recv send peer ep m k) cfg"
abbreviation "rcq_ep_conn E P recv send peer ep m k cfg q conn \<equiv> over (owns_conn_cq E q) E (rcq_ep_cfg E P recv send peer ep m k cfg) conn"

lemma wp_rcq_ping_err_mr_free:
  assumes "msg_bufs E P recv send s" and "stable E P" and "\<And>ret s'. P s' \<Longrightarrow> Q ret s'"
  shows "wp (rcq_ping_err_mr_free ret send recv s) Q"
  using assms by (auto simp: rcq_ping_err_mr_free_def intro!: wp_free_two)

lemma wp_rcq_ping_err_peer_delete:
  assumes "msg_peer E P recv send peer s" and "stable E P" and "\<And>ret s'. P s' \<Longrightarrow> Q ret s'"
  shows "wp (rcq_ping_err_peer_delete E ret peer send recv s) Q"
  using assms by (auto simp: rcq_ping_err_peer_delete_def intro!: peer_scope.wp_pop plain_scope.stable_over wp_rcq_ping_err_mr_free)

lemma wp_rcq_ping_err_mr_dereg:
  assumes "msg_mrs E P recv send peer m k s" and "stable E P" and "\<And>ret s'. P s' \<Longrightarrow> Q ret s'"
  shows "wp (rcq_ping_err_mr_dereg E ret k m peer send recv s) Q"
  using assms
  by (auto simp: rcq_ping_err_mr_dereg_def intro!: mr_scope.wp_pop mr_scope.stable_over peer_scope.stable_over wp_rcq_ping_err_peer_delete)

lemma wp_rcq_ping_err_cfg_delete:
  assumes "rcq_cfg E P recv send peer m k cfg s" and "stable E P" and "\<And>ret s'. P s' \<Longrightarrow> Q ret s'"
  shows "wp (rcq_ping_err_cfg_delete E ret cfg k m peer send recv s) Q"
  using assms by (auto simp: rcq_ping_err_cfg_delete_def intro!: wp_pop_conn_cfg mr_scope.stable_over wp_rcq_ping_err_mr_dereg)

lemma wp_rcq_ping_err_conn_disconnect:
  assumes "rcq_conn E P recv send peer m k cfg q conn s" and "stable E P" and "events_wf E" and "\<And>ret s'. P s' \<Longrightarrow> Q ret s'"
  shows "wp (rcq_ping_err_conn_disconnect E ret conn cfg k m peer send recv s) Q"
  unfolding rcq_ping_err_conn_disconnect_def
  by (auto intro!: wp_close_cq [OF assms(1) plain_scope.stable_over assms(3)] wp_rcq_ping_err_cfg_delete [OF _ assms(2)] assms(4))

lemma wp_rcq_client_connected:
  assumes s: "rcq_conn E P recv send peer m k cfg q conn s" and P: "stable E P" and wf: "events_wf E"
    and Q: "\<And>r s'. P s' \<Longrightarrow> Q (Some r) s'"
  shows "wp (rcq_client_connected E dma wc c rounds conn cfg k m peer send recv s) Q"
proof -
  let ?P = "rcq_conn E P recv send peer m k cfg q conn"
  have st: "stable E ?P" by (rule cq_scope.stable_over)
  have l: "conn_live ?P conn q" "live ?P m O_mr_local" "live ?P k O_mr_local" "live ?P send O_bytes" by (intro lives)+
  have a: "allows ?P send (\<lambda>_. O_bytes x)" for x by (intro allow)
  note w = with_cq_rules(2) [OF l(1)] with_cq_rules(1) with_cq_rules(3) [OF l(2)] with_cq_rules(3) [OF l(3)]
  have loop: "wp (while_rounds (rcq_ping_round E dma wc conn m k q r recv send) n c t) (\<lambda>r t. r \<noteq> None \<and> ?P t)" if "with_cq r ?P t" for r n c t
    by (rule wp_while_rounds_end [where P = "with_cq r ?P", OF _ _ that])
       (rule wp_rcq_ping_round [where P = "with_cq r ?P", OF _ with_cq_stable [OF st] w with_cq_allows [OF l(4) a]], assumption,
        simp, simp add: with_cqD)
  show ?thesis
    unfolding rcq_client_connected_def
    by (auto intro!: wp_get_cq [where P = ?P, OF s l(1)] wp_get_rcq [OF s] wp_mono [OF loop] with_cqI
        wp_store_allowed [where P = ?P, OF _ a] wp_send(1) [where P = ?P, OF _ st l(1,3)] wp_rcq_ping_err_conn_disconnect [OF _ P wf]
        s Q split: option.split)
qed

lemma wp_rcq_client_registered:
  assumes s: "msg_mrs E P recv send peer m k s" and P: "stable E P" and wf: "events_wf E"
    and Q: "\<And>r s'. P s' \<Longrightarrow> Q (Some r) s'"
  shows "wp (rcq_client_registered E dma wc addr port c rounds k m peer send recv s) Q"
proof -
  let ?C = "rcq_cfg E P recv send peer m k"
  have l: "live (?C i) peer O_peer" "live (?C i) i O_conn_cfg" for i by (intro lives)+
  have a: "allows (?C i) i (\<lambda>_. O_conn_cfg d)" for i d by (intro allow)
  have pd: "pdata_arg_ok None" by simp
  show ?thesis
    unfolding rcq_client_registered_def
    by (auto intro!: wp_push_conn_cfg [OF s mr_scope.stable_over] wp_set_conn_cfg(1) [where P = "?C i" for i, OF _ l(2) a]
        wp_client_connect_cq [where P = "?C i" for i, OF _ plain_scope.stable_over l(1) disjI2 [OF l(2)] pd wf]
        wp_rcq_ping_err_mr_dereg [OF _ P] wp_rcq_ping_err_cfg_delete [OF _ P] wp_rcq_client_connected [OF _ P wf] Q)
qed

lemma wp_rcq_client_recv_mr:
  assumes s: "over owns_mr E (msg_peer E P recv send peer) m s" and P: "stable E P" and wf: "events_wf E"
    and Q: "\<And>r s'. P s' \<Longrightarrow> Q (Some r) s'"
  shows "wp (rcq_client_recv_mr E dma wc addr port c rounds m peer send recv s) Q"
proof -
  have l: "live (over owns_mr E (msg_peer E P recv send peer) m) peer O_peer" by (intro lives)
  show ?thesis
    unfolding rcq_client_recv_mr_def
    by (auto intro!: wp_push_mr [OF mr_scope.stable_over s liveD [OF l s]] mr_scope.wp_pop [OF _ peer_scope.stable_over]
        wp_rcq_ping_err_peer_delete [OF _ P] wp_rcq_client_registered [OF _ P wf] Q)
qed

lemma wp_rcq_client_buffers:
  assumes s: "msg_bufs E P recv send s" and P: "stable E P" and wf: "events_wf E"
    and Q: "\<And>r s'. P s' \<Longrightarrow> Q (Some r) s'"
  shows "wp (rcq_client_buffers E dma wc addr port c rounds send recv s) Q"
proof -
  have l: "live (msg_peer E P recv send peer) peer O_peer" for peer by (intro lives)
  show ?thesis
    unfolding rcq_client_buffers_def
    by (auto intro!: wp_common_peer_via_address [OF plain_scope.stable_over s] wp_push_mr [OF peer_scope.stable_over _ liveD [OF l]]
        wp_rcq_ping_err_mr_free [OF _ P] wp_rcq_ping_err_peer_delete [OF _ P] wp_rcq_client_recv_mr [OF _ P wf] Q)
qed

lemma wp_rcq_client_main:
  assumes "P s" and P: "stable E P" and wf: "events_wf E"
    and Q: "\<And>r s'. P s' \<Longrightarrow> Q (Some r) s'"
  shows "wp (rcq_client_main E dma wc addr port start rounds sleep s) Q"
  unfolding rcq_client_main_def using assms(1)
  by (auto intro!: wp_malloc_aligned [OF P assms(1)] wp_malloc_aligned [OF plain_scope.stable_over] wp_pop_free [OF _ P]
      wp_rcq_client_buffers [OF _ P wf] Q split: option.split)

lemma wp_rcq_pong_err_free:
  assumes "msg_bufs E P recv send s" and "stable E P" and "\<And>ret s'. P s' \<Longrightarrow> Q ret s'"
  shows "wp (rcq_pong_err_free ret send recv s) Q"
  using assms by (auto simp: rcq_pong_err_free_def intro!: wp_free_two)

lemma wp_rcq_pong_err_peer_delete:
  assumes "msg_peer E P recv send peer s" and "stable E P" and "\<And>ret s'. P s' \<Longrightarrow> Q ret s'"
  shows "wp (rcq_pong_err_peer_delete E ret peer send recv s) Q"
  using assms by (auto simp: rcq_pong_err_peer_delete_def intro!: peer_scope.wp_pop plain_scope.stable_over wp_rcq_pong_err_free)

lemma wp_rcq_pong_err_ep_shutdown:
  assumes "msg_ep E P recv send peer ep s" and "stable E P" and "\<And>ret s'. P s' \<Longrightarrow> Q ret s'"
  shows "wp (rcq_pong_err_ep_shutdown E ret ep peer send recv s) Q"
  using assms by (auto simp: rcq_pong_err_ep_shutdown_def intro!: ep_scope.wp_pop peer_scope.stable_over wp_rcq_pong_err_peer_delete)

lemma wp_rcq_pong_err_mr_dereg:
  assumes "msg_ep_mrs E P recv send peer ep m k s" and "stable E P" and "\<And>ret s'. P s' \<Longrightarrow> Q ret s'"
  shows "wp (rcq_pong_err_mr_dereg E ret k m ep peer send recv s) Q"
  using assms
  by (auto simp: rcq_pong_err_mr_dereg_def intro!: mr_scope.wp_pop mr_scope.stable_over ep_scope.stable_over wp_rcq_pong_err_ep_shutdown)

lemma wp_rcq_pong_err_cfg_delete:
  assumes "rcq_ep_cfg E P recv send peer ep m k cfg s" and "stable E P" and "\<And>ret s'. P s' \<Longrightarrow> Q ret s'"
  shows "wp (rcq_pong_err_cfg_delete E ret cfg k m ep peer send recv s) Q"
  using assms by (auto simp: rcq_pong_err_cfg_delete_def intro!: wp_pop_conn_cfg mr_scope.stable_over wp_rcq_pong_err_mr_dereg)

lemma wp_rcq_pong_err_conn_disconnect:
  assumes "rcq_ep_conn E P recv send peer ep m k cfg q conn s" and "stable E P" and "events_wf E" and "\<And>ret s'. P s' \<Longrightarrow> Q ret s'"
  shows "wp (rcq_pong_err_conn_disconnect E ret conn cfg k m ep peer send recv s) Q"
  unfolding rcq_pong_err_conn_disconnect_def
  by (auto intro!: wp_close_cq [OF assms(1) plain_scope.stable_over assms(3)] wp_rcq_pong_err_cfg_delete [OF _ assms(2)] assms(4))

lemma wp_rcq_server_connected:
  assumes s: "over (owns_conn_of E) E (rcq_ep_cfg E P recv send peer ep m k cfg) conn s" and P: "stable E P" and wf: "events_wf E"
    and Q: "\<And>r s'. P s' \<Longrightarrow> Q (Some r) s'" and run: "\<And>s'. ledger_ok s' \<Longrightarrow> Q None s'"
  shows "wp (rcq_server_connected E n dma wc conn cfg k m ep peer send recv s) Q"
  unfolding rcq_server_connected_def wp_bind
proof (rule wp_next_event [OF s wf], goal_cases)
  case (1 ret out t)
  then obtain q where t: "rcq_ep_conn E P recv send peer ep m k cfg q conn t" using over_some_cq by blast
  let ?P = "rcq_ep_conn E P recv send peer ep m k cfg q conn"
  have st: "stable E ?P" by (rule cq_scope.stable_over)
  have l: "conn_live ?P conn q" "live ?P m O_mr_local" "live ?P k O_mr_local" "live ?P send O_bytes" by (intro lives)+
  have a: "allows ?P send (\<lambda>_. O_bytes x)" for x by (intro allow)
  note w = with_cq_rules(2) [OF l(1)] with_cq_rules(1) with_cq_rules(3) [OF l(2)] with_cq_rules(3) [OF l(3)]
  have loop: "wp (serve (rcq_pong_round E dma wc conn m k q r recv send) n b t) (\<lambda>_. ?P)" if "with_cq r ?P t" for r b t
    by (rule wp_serve [where P = "with_cq r ?P", OF _ with_cqD that])
       (rule wp_rcq_pong_round [where P = "with_cq r ?P", OF _ with_cq_stable [OF st] w with_cq_allows [OF l(4) a]])
  show ?case
    by (auto intro!: wp_get_cq [where P = ?P, OF t l(1)] wp_get_rcq [OF t] wp_mono [OF loop] with_cqI
        wp_rcq_pong_err_conn_disconnect [OF _ P wf] t Q run over_ledger split: option.split)
qed

lemma wp_rcq_server_configured:
  assumes s: "rcq_ep_cfg E P recv send peer ep m k cfg s" and P: "stable E P" and wf: "events_wf E"
    and Q: "\<And>r s'. P s' \<Longrightarrow> Q (Some r) s'" and run: "\<And>s'. ledger_ok s' \<Longrightarrow> Q None s'"
  shows "wp (rcq_server_configured E n dma wc cfg k m ep peer send recv s) Q"
proof -
  let ?P = "rcq_ep_cfg E P recv send peer ep m k cfg"
  have l: "ep_live ?P ep peer" "live ?P peer O_peer" "live ?P m O_mr_local" "live ?P cfg O_conn_cfg" by (intro lives ep_lives)+
  have pd: "pdata_arg_ok None" by simp
  show ?thesis
    unfolding rcq_server_configured_def
    by (auto intro!: wp_next_req_live [where P = ?P, OF s plain_scope.stable_over l(1,2) disjI2 [OF l(4)] wf] wp_req_recv [where P = ?P, OF _ l(3)]
        wp_req_connect [where P = ?P, OF plain_scope.stable_over _ liveD [OF l(2)] pd]
        wp_rcq_pong_err_cfg_delete [OF _ P] wp_rcq_server_connected [OF _ P wf] Q run intro: wp_req_delete [where P = ?P, OF plain_scope.stable_over])
qed

lemma wp_rcq_server_registered:
  assumes s: "msg_ep_mrs E P recv send peer ep m k s" and P: "stable E P" and wf: "events_wf E"
    and Q: "\<And>r s'. P s' \<Longrightarrow> Q (Some r) s'" and run: "\<And>s'. ledger_ok s' \<Longrightarrow> Q None s'"
  shows "wp (rcq_server_registered E n dma wc k m ep peer send recv s) Q"
proof -
  let ?C = "rcq_ep_cfg E P recv send peer ep m k"
  have l: "live (?C i) i O_conn_cfg" for i by (intro lives)
  have a: "allows (?C i) i (\<lambda>_. O_conn_cfg d)" for i d by (intro allow)
  show ?thesis
    unfolding rcq_server_registered_def
    by (auto intro!: wp_push_conn_cfg [OF s mr_scope.stable_over] wp_set_conn_cfg(1) [where P = "?C i" for i, OF _ l a]
        wp_rcq_pong_err_mr_dereg [OF _ P] wp_rcq_pong_err_cfg_delete [OF _ P] wp_rcq_server_configured [OF _ P wf] Q run)
qed

lemma wp_rcq_server_recv_mr:
  assumes s: "over owns_mr E (msg_ep E P recv send peer ep) m s" and P: "stable E P" and wf: "events_wf E"
    and Q: "\<And>r s'. P s' \<Longrightarrow> Q (Some r) s'" and run: "\<And>s'. ledger_ok s' \<Longrightarrow> Q None s'"
  shows "wp (rcq_server_recv_mr E n dma wc m ep peer send recv s) Q"
proof -
  have l: "live (over owns_mr E (msg_ep E P recv send peer ep) m) peer O_peer" by (intro lives)
  show ?thesis
    unfolding rcq_server_recv_mr_def
    by (auto intro!: wp_push_mr [OF mr_scope.stable_over s liveD [OF l s]] mr_scope.wp_pop [OF _ ep_scope.stable_over]
        wp_rcq_pong_err_ep_shutdown [OF _ P] wp_rcq_server_registered [OF _ P wf] Q run)
qed

lemma wp_rcq_server_buffers:
  assumes s: "msg_bufs E P recv send s" and P: "stable E P" and wf: "events_wf E"
    and Q: "\<And>r s'. P s' \<Longrightarrow> Q (Some r) s'" and run: "\<And>s'. ledger_ok s' \<Longrightarrow> Q None s'"
  shows "wp (rcq_server_buffers E n dma wc addr port send recv s) Q"
proof -
  have l: "live (msg_peer E P recv send peer) peer O_peer" "live (msg_ep E P recv send peer ep) peer O_peer" for peer ep by (intro lives)+
  show ?thesis
    unfolding rcq_server_buffers_def
    by (auto intro!: wp_common_peer_via_address [OF plain_scope.stable_over s] wp_push_ep [OF peer_scope.stable_over _ live_nonnull [OF l(1)]]
        wp_push_mr [OF ep_scope.stable_over _ liveD [OF l(2)]] wp_rcq_pong_err_free [OF _ P] wp_rcq_pong_err_peer_delete [OF _ P]
        wp_rcq_pong_err_ep_shutdown [OF _ P] wp_rcq_server_recv_mr [OF _ P wf] Q run)
qed

lemma wp_rcq_server_main:
  assumes "P s" and P: "stable E P" and wf: "events_wf E"
    and Q: "\<And>r s'. P s' \<Longrightarrow> Q (Some r) s'" and run: "\<And>s'. ledger_ok s' \<Longrightarrow> Q None s'"
  shows "wp (rcq_server_main E n dma wc addr port s) Q"
  unfolding rcq_server_main_def
  by (auto intro!: wp_malloc_aligned [OF P assms(1)] wp_malloc_aligned [OF plain_scope.stable_over] wp_pop_free [OF _ P]
      wp_rcq_server_buffers [OF _ P wf] Q run)

end
