(* ===== verification/Immediate.thy ===== *)
theory Immediate
  imports Messages Write_Persistent
begin

text \<open>
  Messages and writes with immediate data, \<open>src/examples/10-send-with-imm\<close> and \<open>11-write-with-imm\<close>. The client passes a
  32-bit number as the immediate data of a send or a write, in network order, and the server compares it with what it knows from elsewhere:
  in \<open>10-send-with-imm\<close> from the private data of the connection, in \<open>11-write-with-imm\<close> from the memory that was written.
  \<^item> What the other side has placed in a buffer is \<open>dma\<close>, a function of the calls so far.
  \<^item> The private data is described by an address and a length; \<open>data\<close> is the address of the local variable with it.
  \<^item> The word of the client is a list of bytes without the terminator. What the server prints is part of its result.
\<close>

definition UINT32_MAX :: u64 where "UINT32_MAX = 0xFFFFFFFF"
definition IBV_WC_RDMA_WRITE :: int where "IBV_WC_RDMA_WRITE = 1"
definition IBV_WC_RECV_RDMA_WITH_IMM :: int where "IBV_WC_RECV_RDMA_WITH_IMM = 129"
definition IBV_WC_WITH_IMM :: u32 where "IBV_WC_WITH_IMM = 2"

text \<open>\<open>ntohl(3)\<close> of the four bytes in memory.\<close>

definition ntohl_bytes :: "u8 list \<Rightarrow> u32" where
  "ntohl_bytes bs = le_val (rev bs)"

text \<open>The number on the command line; \<open>None\<close> is the return of \<open>main\<close> with -1.\<close>

definition imm_argument :: "string \<Rightarrow> u64 option" where
  "imm_argument arg =
     (let (imm, erange) = strtoul arg in
      if imm = ULONG_MAX \<and> erange then None
      else if UINT32_MAX < imm then None
      else Some imm)"

text \<open>\<open>printf\<close> with \<open>%s\<close> reads up to the terminator, which has to be in the buffer.\<close>

definition printed_string :: "u8 list \<Rightarrow> u8 list option" where
  "printed_string bs = (if 0 \<in> set bs then Some (c_string bs) else None)"

subsection \<open>Send: the client\<close>

definition send_imm_err_mr_free :: "rc \<Rightarrow> ptr \<Rightarrow> st \<Rightarrow> (rc \<times> st) option" where
  "send_imm_err_mr_free ret send s = do { (_, s) \<leftarrow> free send s; Some (ret, s) }"

definition send_imm_err_peer_delete :: "env \<Rightarrow> rc \<Rightarrow> ptr \<Rightarrow> ptr \<Rightarrow> st \<Rightarrow> (rc \<times> st) option" where
  "send_imm_err_peer_delete E ret peer send s = do {
     (_, s) \<leftarrow> rpma_peer_delete E (Some peer) s;
     send_imm_err_mr_free ret send s
   }"

definition send_imm_err_mr_dereg :: "env \<Rightarrow> rc \<Rightarrow> ptr \<Rightarrow> ptr \<Rightarrow> ptr \<Rightarrow> st \<Rightarrow> (rc \<times> st) option" where
  "send_imm_err_mr_dereg E ret send_mr peer send s = do {
     (_, s) \<leftarrow> rpma_mr_dereg E (Some send_mr) s;
     send_imm_err_peer_delete E ret peer send s
   }"

definition send_imm_err_conn_disconnect :: "env \<Rightarrow> rc \<Rightarrow> ptr \<Rightarrow> ptr \<Rightarrow> ptr \<Rightarrow> ptr \<Rightarrow> st \<Rightarrow> (rc \<times> st) option" where
  "send_imm_err_conn_disconnect E ret conn send_mr peer send s = do {
     (_, s) \<leftarrow> common_disconnect_and_wait_for_conn_close E conn s;
     send_imm_err_mr_dereg E ret send_mr peer send s
   }"

text \<open>The completion of the send, up to the label.\<close>

definition imm_completed :: "env \<Rightarrow> ptr \<Rightarrow> int \<Rightarrow> ibv_wc \<Rightarrow> st \<Rightarrow> ((rc \<times> ibv_wc) \<times> st) option" where
  "imm_completed E conn opcode wc s = do {
     ((ret, cq), s) \<leftarrow> rpma_conn_get_cq conn (Some NULL) s;
     if ret \<noteq> 0 then Some ((ret, wc), s)
     else do {
       (ret, s) \<leftarrow> rpma_cq_wait E (the cq) s;
       if ret \<noteq> 0 then Some ((ret, wc), s)
       else do {
         ((ret, wcs, _), s) \<leftarrow> rpma_cq_get_wc E (the cq) 1 (Some [wc]) None s;
         let wc = (case the wcs of [] \<Rightarrow> wc | w # _ \<Rightarrow> w);
         if ret \<noteq> 0 then Some ((ret, wc), s)
         else if wc_status wc \<noteq> IBV_WC_SUCCESS then Some ((- 1, wc), s)
         else if wc_opcode wc \<noteq> opcode then Some ((- 1, wc), s)
         else Some ((0, wc), s)
       }
     }
   }"

definition send_imm_connected ::
  "env \<Rightarrow> u64 \<Rightarrow> u8 list option \<Rightarrow> u64 \<Rightarrow> ptr \<Rightarrow> ptr \<Rightarrow> ptr \<Rightarrow> ptr \<Rightarrow> ibv_wc \<Rightarrow> st \<Rightarrow> (rc \<times> st) option" where
  "send_imm_connected E imm word len conn send_mr peer send wc s = do {
     (_, s) \<leftarrow> (case word of
        None \<Rightarrow> Some ((), s)
      | Some w \<Rightarrow> store send (O_bytes (strncpy w (KILOBYTE - 1) @ [0])) s);
     (ret, s) \<leftarrow> rpma_send_with_imm E conn send_mr 0 len RPMA_F_COMPLETION_ALWAYS (ucast imm) 0 s;
     if ret \<noteq> 0 then send_imm_err_conn_disconnect E ret conn send_mr peer send s
     else do {
       ((ret, _), s) \<leftarrow> imm_completed E conn IBV_WC_SEND wc s;
       send_imm_err_conn_disconnect E ret conn send_mr peer send s
     }
   }"

text \<open>From the moment there is the buffer, if it is needed.\<close>

definition send_imm_buffer ::
  "env \<Rightarrow> string \<Rightarrow> string \<Rightarrow> u64 \<Rightarrow> u8 list option \<Rightarrow> ptr \<Rightarrow> u64 \<Rightarrow> ptr \<Rightarrow> ibv_wc \<Rightarrow> st \<Rightarrow> (rc \<times> st) option" where
  "send_imm_buffer E addr port imm word data len send wc s = do {
     ((ret, peer), s) \<leftarrow> common_peer_via_address E addr RPMA_UTIL_IBV_CONTEXT_REMOTE NULL s;
     if ret \<noteq> 0 then send_imm_err_mr_free ret send s
     else do {
       ((ret, send_mr), s) \<leftarrow> (case word of
          None \<Rightarrow> Some ((0, Some NULL), s)
        | Some _ \<Rightarrow> rpma_mr_reg E peer (of_nat send) (of_nat KILOBYTE) RPMA_MR_USAGE_SEND (Some NULL) s);
       if ret \<noteq> 0 then send_imm_err_peer_delete E ret peer send s
       else do {
         let pdata = \<lparr>pdata_ptr = data, pdata_len = 4\<rparr>;
         ((ret, conn), s) \<leftarrow> client_connect E peer addr port NULL (Some pdata) NULL s;
         if ret \<noteq> 0 then send_imm_err_mr_dereg E ret (the send_mr) peer send s
         else send_imm_connected E imm word len conn (the send_mr) peer send wc s
       }
     }
   }"

definition send_imm_client_main ::
  "env \<Rightarrow> string \<Rightarrow> string \<Rightarrow> string \<Rightarrow> u8 list option \<Rightarrow> ptr \<Rightarrow> ibv_wc \<Rightarrow> st \<Rightarrow> (rc \<times> st) option" where
  "send_imm_client_main E addr port arg word data wc s =
     (case imm_argument arg of
        None \<Rightarrow> Some (- 1, s)
      | Some imm \<Rightarrow>
          (case word of
             None \<Rightarrow> send_imm_buffer E addr port imm word data 0 NULL wc s
           | Some _ \<Rightarrow> do {
               (send, s) \<leftarrow> malloc_aligned E KILOBYTE s;
               if send = NULL then Some (- 1, s)
               else send_imm_buffer E addr port imm word data (of_nat KILOBYTE) send wc s
             }))"

subsection \<open>Send: the server\<close>

definition recv_imm_err_mr_free :: "rc \<Rightarrow> ptr \<Rightarrow> st \<Rightarrow> (rc \<times> st) option" where
  "recv_imm_err_mr_free ret recv s = do { (_, s) \<leftarrow> free recv s; Some (ret, s) }"

definition recv_imm_err_peer_delete :: "env \<Rightarrow> rc \<Rightarrow> ptr \<Rightarrow> ptr \<Rightarrow> st \<Rightarrow> (rc \<times> st) option" where
  "recv_imm_err_peer_delete E ret peer recv s = do {
     (_, s) \<leftarrow> rpma_peer_delete E (Some peer) s;
     recv_imm_err_mr_free ret recv s
   }"

definition recv_imm_err_mr_dereg :: "env \<Rightarrow> rc \<Rightarrow> ptr \<Rightarrow> ptr \<Rightarrow> ptr \<Rightarrow> st \<Rightarrow> (rc \<times> st) option" where
  "recv_imm_err_mr_dereg E ret recv_mr peer recv s = do {
     (_, s) \<leftarrow> rpma_mr_dereg E (Some recv_mr) s;
     recv_imm_err_peer_delete E ret peer recv s
   }"

definition recv_imm_err_ep_shutdown :: "env \<Rightarrow> rc \<Rightarrow> ptr \<Rightarrow> ptr \<Rightarrow> ptr \<Rightarrow> ptr \<Rightarrow> st \<Rightarrow> (rc \<times> st) option" where
  "recv_imm_err_ep_shutdown E ret ep recv_mr peer recv s = do {
     (_, s) \<leftarrow> rpma_ep_shutdown E (Some ep) s;
     recv_imm_err_mr_dereg E ret recv_mr peer recv s
   }"

definition recv_imm_err_conn_disconnect :: "env \<Rightarrow> rc \<Rightarrow> ptr \<Rightarrow> ptr \<Rightarrow> ptr \<Rightarrow> ptr \<Rightarrow> ptr \<Rightarrow> st \<Rightarrow> (rc \<times> st) option" where
  "recv_imm_err_conn_disconnect E ret conn ep recv_mr peer recv s = do {
     (_, s) \<leftarrow> common_wait_for_conn_close_and_disconnect E conn s;
     recv_imm_err_ep_shutdown E ret ep recv_mr peer recv s
   }"

text \<open>The check of the completion, and what is printed: the word and the immediate data.\<close>

definition recv_imm_check ::
  "u32 \<Rightarrow> dma \<Rightarrow> ptr \<Rightarrow> ibv_wc \<Rightarrow> st \<Rightarrow> ((rc \<times> (u8 list \<times> u32) option) \<times> st) option" where
  "recv_imm_check exp_imm dma recv wc s =
     (if wc_flags wc AND IBV_WC_WITH_IMM = 0 then Some ((- 1, None), s)
      else do {
        let imm = ntohl_bytes (wc_imm_data wc);
        if imm \<noteq> exp_imm then Some ((- 1, None), s)
        else if wc_byte_len wc = 0 then do {
          buf \<leftarrow> bytes_at recv s;
          (_, s) \<leftarrow> store recv (O_bytes (buf[0 := 0])) s;
          Some ((0, Some ([], imm)), s)
        } else do {
          word \<leftarrow> printed_string (dma (trace s));
          Some ((0, Some (word, imm)), s)
        }
      })"

text \<open>With a connection: the expected immediate data is the first word of the private data.\<close>

definition recv_imm_message ::
  "env \<Rightarrow> dma \<Rightarrow> ptr \<Rightarrow> ptr \<Rightarrow> ibv_wc \<Rightarrow> st \<Rightarrow> ((rc \<times> (u8 list \<times> u32) option) \<times> st) option" where
  "recv_imm_message E dma conn recv wc s = do {
     ((ret, conn_event), s) \<leftarrow> rpma_conn_next_event E conn (Some RPMA_CONN_UNDEFINED) s;
     if ret \<noteq> 0 then Some ((ret, None), s)
     else if the conn_event \<noteq> RPMA_CONN_ESTABLISHED then Some ((- 1, None), s)
     else do {
       ((ret, pdata), s) \<leftarrow> rpma_conn_get_private_data conn (Some no_pdata) s;
       if ret \<noteq> 0 then Some ((ret, None), s)
       else if pdata_len (the pdata) < 4 then Some ((- 1, None), s)
       else do {
         ((ret, wc), s) \<leftarrow> imm_completed E conn IBV_WC_RECV wc s;
         if ret \<noteq> 0 then Some ((ret, None), s)
         else do {
           bytes \<leftarrow> bytes_at (pdata_ptr (the pdata)) s;
           exp_imm \<leftarrow> read_bytes 0 4 bytes;
           recv_imm_check (le_val exp_imm) dma recv wc s
         }
       }
     }
   }"

text \<open>From the moment there is an endpoint.\<close>

definition recv_imm_listening ::
  "env \<Rightarrow> dma \<Rightarrow> ptr \<Rightarrow> ptr \<Rightarrow> ptr \<Rightarrow> ptr \<Rightarrow> ibv_wc \<Rightarrow> st \<Rightarrow> ((rc \<times> (u8 list \<times> u32) option) \<times> st) option" where
  "recv_imm_listening E dma ep recv_mr peer recv wc s = do {
     ((ret, req), s) \<leftarrow> rpma_ep_next_conn_req E ep NULL (Some NULL) s;
     if ret \<noteq> 0 then do {
       (ret, s) \<leftarrow> recv_imm_err_ep_shutdown E ret ep recv_mr peer recv s;
       Some ((ret, None), s)
     } else do {
       (ret, s) \<leftarrow> rpma_conn_req_recv E (the req) recv_mr 0 (of_nat KILOBYTE) 0 s;
       if ret \<noteq> 0 then do {
         (_, s) \<leftarrow> rpma_conn_req_delete E req s;
         (ret, s) \<leftarrow> recv_imm_err_ep_shutdown E ret ep recv_mr peer recv s;
         Some ((ret, None), s)
       } else do {
         ((ret, req, conn), s) \<leftarrow> rpma_conn_req_connect E req None (Some NULL) s;
         if ret \<noteq> 0 then do {
           (_, s) \<leftarrow> rpma_conn_req_delete E req s;
           (ret, s) \<leftarrow> recv_imm_err_ep_shutdown E ret ep recv_mr peer recv s;
           Some ((ret, None), s)
         } else do {
           ((ret, out), s) \<leftarrow> recv_imm_message E dma (the conn) recv wc s;
           (ret, s) \<leftarrow> recv_imm_err_conn_disconnect E ret (the conn) ep recv_mr peer recv s;
           Some ((ret, out), s)
         }
       }
     }
   }"

definition recv_imm_server_main ::
  "env \<Rightarrow> dma \<Rightarrow> string \<Rightarrow> string \<Rightarrow> ibv_wc \<Rightarrow> st \<Rightarrow> ((rc \<times> (u8 list \<times> u32) option) \<times> st) option" where
  "recv_imm_server_main E dma addr port wc s = do {
     (recv, s) \<leftarrow> malloc_aligned E KILOBYTE s;
     if recv = NULL then Some ((- 1, None), s)
     else do {
       ((ret, peer), s) \<leftarrow> common_peer_via_address E addr RPMA_UTIL_IBV_CONTEXT_LOCAL NULL s;
       if ret \<noteq> 0 then do {
         (ret, s) \<leftarrow> recv_imm_err_mr_free ret recv s;
         Some ((ret, None), s)
       } else do {
         ((ret, recv_mr), s) \<leftarrow> rpma_mr_reg E peer (of_nat recv) (of_nat KILOBYTE) RPMA_MR_USAGE_RECV (Some NULL) s;
         if ret \<noteq> 0 then do {
           (ret, s) \<leftarrow> recv_imm_err_peer_delete E ret peer recv s;
           Some ((ret, None), s)
         } else do {
           ((ret, ep), s) \<leftarrow> rpma_ep_listen E peer (Some addr) (Some port) (Some NULL) s;
           if ret \<noteq> 0 then do {
             (ret, s) \<leftarrow> recv_imm_err_mr_dereg E ret (the recv_mr) peer recv s;
             Some ((ret, None), s)
           } else recv_imm_listening E dma (the ep) (the recv_mr) peer recv wc s
         }
       }
     }
   }"

subsection \<open>Write: the client\<close>

definition write_imm_err_mr_free :: "rc \<Rightarrow> ptr \<Rightarrow> st \<Rightarrow> (rc \<times> st) option" where
  "write_imm_err_mr_free ret src s = do { (_, s) \<leftarrow> free src s; Some (ret, s) }"

definition write_imm_err_peer_delete :: "env \<Rightarrow> rc \<Rightarrow> ptr \<Rightarrow> ptr \<Rightarrow> st \<Rightarrow> (rc \<times> st) option" where
  "write_imm_err_peer_delete E ret peer src s = do {
     (_, s) \<leftarrow> rpma_peer_delete E (Some peer) s;
     write_imm_err_mr_free ret src s
   }"

definition write_imm_err_mr_dereg :: "env \<Rightarrow> rc \<Rightarrow> ptr \<Rightarrow> ptr \<Rightarrow> ptr \<Rightarrow> st \<Rightarrow> (rc \<times> st) option" where
  "write_imm_err_mr_dereg E ret src_mr peer src s = do {
     (_, s) \<leftarrow> rpma_mr_dereg E (Some src_mr) s;
     write_imm_err_peer_delete E ret peer src s
   }"

definition write_imm_err_conn_disconnect :: "env \<Rightarrow> rc \<Rightarrow> ptr \<Rightarrow> ptr \<Rightarrow> ptr \<Rightarrow> ptr \<Rightarrow> st \<Rightarrow> (rc \<times> st) option" where
  "write_imm_err_conn_disconnect E ret conn src_mr peer src s = do {
     (_, s) \<leftarrow> common_disconnect_and_wait_for_conn_close E conn s;
     write_imm_err_mr_dereg E ret src_mr peer src s
   }"

definition write_imm_err_mr_remote_delete ::
  "env \<Rightarrow> rc \<Rightarrow> ptr \<Rightarrow> ptr \<Rightarrow> ptr \<Rightarrow> ptr \<Rightarrow> ptr \<Rightarrow> st \<Rightarrow> (rc \<times> st) option" where
  "write_imm_err_mr_remote_delete E ret dst_mr conn src_mr peer src s = do {
     (_, s) \<leftarrow> rpma_mr_remote_delete (Some dst_mr) s;
     write_imm_err_conn_disconnect E ret conn src_mr peer src s
   }"

text \<open>The number goes to the beginning of the buffer and to the immediate data.\<close>

definition write_imm_remote ::
  "env \<Rightarrow> u64 \<Rightarrow> ptr \<Rightarrow> u16 \<Rightarrow> ptr \<Rightarrow> ptr \<Rightarrow> ptr \<Rightarrow> ptr \<Rightarrow> ibv_wc \<Rightarrow> st \<Rightarrow> (rc \<times> st) option" where
  "write_imm_remote E imm dst_mr data_offset conn src_mr peer src wc s = do {
     buf \<leftarrow> bytes_at src s;
     (_, s) \<leftarrow> store src (O_bytes (le_bytes 4 (ucast imm :: u32) @ drop 4 buf)) s;
     (ret, s) \<leftarrow> rpma_write_with_imm E conn dst_mr (ucast data_offset) src_mr 0 (of_nat KILOBYTE)
       RPMA_F_COMPLETION_ALWAYS (ucast imm) 0 s;
     if ret \<noteq> 0 then write_imm_err_mr_remote_delete E ret dst_mr conn src_mr peer src s
     else do {
       ((ret, _), s) \<leftarrow> imm_completed E conn IBV_WC_RDMA_WRITE wc s;
       write_imm_err_mr_remote_delete E ret dst_mr conn src_mr peer src s
     }
   }"

definition write_imm_connected ::
  "env \<Rightarrow> u64 \<Rightarrow> ptr \<Rightarrow> ptr \<Rightarrow> ptr \<Rightarrow> ptr \<Rightarrow> ibv_wc \<Rightarrow> st \<Rightarrow> (rc \<times> st) option" where
  "write_imm_connected E imm conn src_mr peer src wc s = do {
     ((ret, pdata), s) \<leftarrow> rpma_conn_get_private_data conn (Some no_pdata) s;
     if ret \<noteq> 0 then write_imm_err_conn_disconnect E ret conn src_mr peer src s
     else if pdata_len (the pdata) < SIZEOF_COMMON_DATA then write_imm_err_conn_disconnect E (- 1) conn src_mr peer src s
     else do {
       ((ret, dst_mr, data_offset), s) \<leftarrow> remote_from_data E (the pdata) s;
       if ret \<noteq> 0 then write_imm_err_conn_disconnect E ret conn src_mr peer src s
       else write_imm_remote E imm dst_mr data_offset conn src_mr peer src wc s
     }
   }"

definition write_imm_client_main ::
  "env \<Rightarrow> string \<Rightarrow> string \<Rightarrow> string \<Rightarrow> ibv_wc \<Rightarrow> st \<Rightarrow> (rc \<times> st) option" where
  "write_imm_client_main E addr port arg wc s =
     (case imm_argument arg of
        None \<Rightarrow> Some (- 1, s)
      | Some imm \<Rightarrow> do {
          (src, s) \<leftarrow> malloc_aligned E KILOBYTE s;
          if src = NULL then Some (- 1, s)
          else do {
            ((ret, peer), s) \<leftarrow> common_peer_via_address E addr RPMA_UTIL_IBV_CONTEXT_REMOTE NULL s;
            if ret \<noteq> 0 then write_imm_err_mr_free ret src s
            else do {
              ((ret, src_mr), s) \<leftarrow> rpma_mr_reg E peer (of_nat src) (of_nat KILOBYTE) RPMA_MR_USAGE_WRITE_SRC (Some NULL) s;
              if ret \<noteq> 0 then write_imm_err_peer_delete E ret peer src s
              else do {
                ((ret, conn), s) \<leftarrow> client_connect E peer addr port NULL None NULL s;
                if ret \<noteq> 0 then write_imm_err_mr_dereg E ret (the src_mr) peer src s
                else write_imm_connected E imm conn (the src_mr) peer src wc s
              }
            }
          }
        })"

subsection \<open>Write: the server\<close>

definition dest_imm_err_mr_free :: "rc \<Rightarrow> ptr \<Rightarrow> ptr \<Rightarrow> st \<Rightarrow> (rc \<times> st) option" where
  "dest_imm_err_mr_free ret dst recv s = do {
     (_, s) \<leftarrow> free dst s;
     (_, s) \<leftarrow> free recv s;
     Some (ret, s)
   }"

definition dest_imm_err_peer_delete :: "env \<Rightarrow> rc \<Rightarrow> ptr \<Rightarrow> ptr \<Rightarrow> ptr \<Rightarrow> st \<Rightarrow> (rc \<times> st) option" where
  "dest_imm_err_peer_delete E ret peer dst recv s = do {
     (_, s) \<leftarrow> rpma_peer_delete E (Some peer) s;
     dest_imm_err_mr_free ret dst recv s
   }"

definition dest_imm_err_mr_dereg :: "env \<Rightarrow> rc \<Rightarrow> ptr \<Rightarrow> ptr \<Rightarrow> ptr \<Rightarrow> ptr \<Rightarrow> ptr \<Rightarrow> st \<Rightarrow> (rc \<times> st) option" where
  "dest_imm_err_mr_dereg E ret recv_mr dst_mr peer dst recv s = do {
     (_, s) \<leftarrow> rpma_mr_dereg E (Some recv_mr) s;
     (_, s) \<leftarrow> rpma_mr_dereg E (Some dst_mr) s;
     dest_imm_err_peer_delete E ret peer dst recv s
   }"

definition dest_imm_err_ep_shutdown ::
  "env \<Rightarrow> rc \<Rightarrow> ptr \<Rightarrow> ptr \<Rightarrow> ptr \<Rightarrow> ptr \<Rightarrow> ptr \<Rightarrow> ptr \<Rightarrow> st \<Rightarrow> (rc \<times> st) option" where
  "dest_imm_err_ep_shutdown E ret ep recv_mr dst_mr peer dst recv s = do {
     (_, s) \<leftarrow> rpma_ep_shutdown E (Some ep) s;
     dest_imm_err_mr_dereg E ret recv_mr dst_mr peer dst recv s
   }"

definition dest_imm_err_conn_disconnect ::
  "env \<Rightarrow> rc \<Rightarrow> ptr \<Rightarrow> ptr \<Rightarrow> ptr \<Rightarrow> ptr \<Rightarrow> ptr \<Rightarrow> ptr \<Rightarrow> ptr \<Rightarrow> st \<Rightarrow> (rc \<times> st) option" where
  "dest_imm_err_conn_disconnect E ret conn ep recv_mr dst_mr peer dst recv s = do {
     (_, s) \<leftarrow> common_wait_for_conn_close_and_disconnect E conn s;
     dest_imm_err_ep_shutdown E ret ep recv_mr dst_mr peer dst recv s
   }"

text \<open>The check of the completion, and what is printed: the number that was written and the immediate data.\<close>

definition dest_imm_check :: "u32 \<Rightarrow> ibv_wc \<Rightarrow> rc \<times> (u32 \<times> u32) option" where
  "dest_imm_check exp_imm wc =
     (if wc_flags wc AND IBV_WC_WITH_IMM = 0 then (- 1, None)
      else let imm = ntohl_bytes (wc_imm_data wc) in
        if imm \<noteq> exp_imm then (- 1, None) else (0, Some (exp_imm, imm)))"

definition dest_imm_message ::
  "env \<Rightarrow> dma \<Rightarrow> ptr \<Rightarrow> ibv_wc \<Rightarrow> st \<Rightarrow> ((rc \<times> (u32 \<times> u32) option) \<times> st) option" where
  "dest_imm_message E dma conn wc s = do {
     ((ret, conn_event), s) \<leftarrow> rpma_conn_next_event E conn (Some RPMA_CONN_UNDEFINED) s;
     if ret \<noteq> 0 then Some ((ret, None), s)
     else if the conn_event \<noteq> RPMA_CONN_ESTABLISHED then Some ((- 1, None), s)
     else do {
       ((ret, wc), s) \<leftarrow> imm_completed E conn IBV_WC_RECV_RDMA_WITH_IMM wc s;
       if ret \<noteq> 0 then Some ((ret, None), s)
       else Some (dest_imm_check (le_val (take 4 (dma (trace s)))) wc, s)
     }
   }"

definition dest_imm_listening ::
  "env \<Rightarrow> dma \<Rightarrow> ptr \<Rightarrow> ptr \<Rightarrow> ptr \<Rightarrow> ptr \<Rightarrow> ptr \<Rightarrow> ptr \<Rightarrow> ptr \<Rightarrow> ibv_wc \<Rightarrow> st \<Rightarrow> ((rc \<times> (u32 \<times> u32) option) \<times> st) option" where
  "dest_imm_listening E dma data ep recv_mr dst_mr peer dst recv wc s = do {
     ((ret, req), s) \<leftarrow> rpma_ep_next_conn_req E ep NULL (Some NULL) s;
     if ret \<noteq> 0 then do {
       (ret, s) \<leftarrow> dest_imm_err_ep_shutdown E ret ep recv_mr dst_mr peer dst recv s;
       Some ((ret, None), s)
     } else do {
       (ret, s) \<leftarrow> rpma_conn_req_recv E (the req) recv_mr 0 1 0 s;
       if ret \<noteq> 0 then do {
         (_, s) \<leftarrow> rpma_conn_req_delete E req s;
         (ret, s) \<leftarrow> dest_imm_err_ep_shutdown E ret ep recv_mr dst_mr peer dst recv s;
         Some ((ret, None), s)
       } else do {
         let pdata = \<lparr>pdata_ptr = data, pdata_len = SIZEOF_COMMON_DATA\<rparr>;
         ((ret, req, conn), s) \<leftarrow> rpma_conn_req_connect E req (Some pdata) (Some NULL) s;
         if ret \<noteq> 0 then do {
           (_, s) \<leftarrow> rpma_conn_req_delete E req s;
           (ret, s) \<leftarrow> dest_imm_err_ep_shutdown E ret ep recv_mr dst_mr peer dst recv s;
           Some ((ret, None), s)
         } else do {
           ((ret, out), s) \<leftarrow> dest_imm_message E dma (the conn) wc s;
           (ret, s) \<leftarrow> dest_imm_err_conn_disconnect E ret (the conn) ep recv_mr dst_mr peer dst recv s;
           Some ((ret, out), s)
         }
       }
     }
   }"

text \<open>From the moment the memory is registered: the description of it, and the endpoint.\<close>

definition dest_imm_registered ::
  "env \<Rightarrow> dma \<Rightarrow> string \<Rightarrow> string \<Rightarrow> ptr \<Rightarrow> ptr \<Rightarrow> ptr \<Rightarrow> ptr \<Rightarrow> ptr \<Rightarrow> ptr \<Rightarrow> ibv_wc \<Rightarrow> st
    \<Rightarrow> ((rc \<times> (u32 \<times> u32) option) \<times> st) option" where
  "dest_imm_registered E dma addr port data recv_mr dst_mr peer dst recv wc s = do {
     ((ret, _), s) \<leftarrow> common_data_of dst_mr 0 s;
     if ret \<noteq> 0 then do {
       (ret, s) \<leftarrow> dest_imm_err_mr_dereg E ret recv_mr dst_mr peer dst recv s;
       Some ((ret, None), s)
     } else do {
       ((ret, ep), s) \<leftarrow> rpma_ep_listen E peer (Some addr) (Some port) (Some NULL) s;
       if ret \<noteq> 0 then do {
         (ret, s) \<leftarrow> dest_imm_err_mr_dereg E ret recv_mr dst_mr peer dst recv s;
         Some ((ret, None), s)
       } else dest_imm_listening E dma data (the ep) recv_mr dst_mr peer dst recv wc s
     }
   }"

definition dest_imm_dst_mr ::
  "env \<Rightarrow> dma \<Rightarrow> string \<Rightarrow> string \<Rightarrow> ptr \<Rightarrow> ptr \<Rightarrow> ptr \<Rightarrow> ptr \<Rightarrow> ptr \<Rightarrow> ibv_wc \<Rightarrow> st
    \<Rightarrow> ((rc \<times> (u32 \<times> u32) option) \<times> st) option" where
  "dest_imm_dst_mr E dma addr port data dst_mr peer dst recv wc s = do {
     ((ret, recv_mr), s) \<leftarrow> rpma_mr_reg E peer (of_nat recv) 1 RPMA_MR_USAGE_RECV (Some NULL) s;
     if ret \<noteq> 0 then do {
       (_, s) \<leftarrow> rpma_mr_dereg E (Some dst_mr) s;
       (ret, s) \<leftarrow> dest_imm_err_peer_delete E ret peer dst recv s;
       Some ((ret, None), s)
     } else dest_imm_registered E dma addr port data (the recv_mr) dst_mr peer dst recv wc s
   }"

definition dest_imm_buffers ::
  "env \<Rightarrow> dma \<Rightarrow> string \<Rightarrow> string \<Rightarrow> ptr \<Rightarrow> ptr \<Rightarrow> ptr \<Rightarrow> ibv_wc \<Rightarrow> st \<Rightarrow> ((rc \<times> (u32 \<times> u32) option) \<times> st) option" where
  "dest_imm_buffers E dma addr port data dst recv wc s = do {
     ((ret, peer), s) \<leftarrow> common_peer_via_address E addr RPMA_UTIL_IBV_CONTEXT_LOCAL NULL s;
     if ret \<noteq> 0 then do {
       (ret, s) \<leftarrow> dest_imm_err_mr_free ret dst recv s;
       Some ((ret, None), s)
     } else do {
       ((ret, dst_mr), s) \<leftarrow> rpma_mr_reg E peer (of_nat dst) (of_nat KILOBYTE) RPMA_MR_USAGE_WRITE_DST (Some NULL) s;
       if ret \<noteq> 0 then do {
         (ret, s) \<leftarrow> dest_imm_err_peer_delete E ret peer dst recv s;
         Some ((ret, None), s)
       } else dest_imm_dst_mr E dma addr port data (the dst_mr) peer dst recv wc s
     }
   }"

definition dest_imm_server_main ::
  "env \<Rightarrow> dma \<Rightarrow> string \<Rightarrow> string \<Rightarrow> ptr \<Rightarrow> ibv_wc \<Rightarrow> st \<Rightarrow> ((rc \<times> (u32 \<times> u32) option) \<times> st) option" where
  "dest_imm_server_main E dma addr port data wc s = do {
     (dst, s) \<leftarrow> malloc_aligned E KILOBYTE s;
     if dst = NULL then Some ((- 1, None), s)
     else do {
       (recv, s) \<leftarrow> malloc_aligned E 1 s;
       if recv = NULL then do {
         (_, s) \<leftarrow> free dst s;
         Some ((- 1, None), s)
       } else dest_imm_buffers E dma addr port data dst recv wc s
     }
   }"

end
