(* ===== verification/Ping_Pong_Props.thy ===== *)
theory Ping_Pong_Props
  imports Ping_Pong
begin

text \<open>
  The ping-pong of messages as a whole: what a session of the client and the server computes, and that the
  client does not wait forever. The bodies of the two loops satisfy the contracts of \<open>Messages\<close>.
\<close>

interpretation ping: counter_client "ping_round E fuel dma wc conn recv_mr send_mr cq recv send"
  for E fuel dma wc conn recv_mr send_mr cq recv send
  by unfold_locales (auto simp: ping_round_def Let_def split: Option.bind_splits option.splits if_splits)

interpretation pong: counter_server "pong_round E fuel dma wc conn recv_mr send_mr cq recv send"
  for E fuel dma wc conn recv_mr send_mr cq recv send
  by unfold_locales (auto simp: pong_round_def Let_def split: Option.bind_splits option.splits if_splits)

subsection \<open>Requests and completions\<close>

primrec is_post :: "call \<times> resp \<Rightarrow> bool" where
  "is_post (c, r) = (case c of Ibv_post_send _ _ \<Rightarrow> rint r = 0 | Ibv_post_recv _ _ \<Rightarrow> rint r = 0 | _ \<Rightarrow> False)"

primrec reported :: "call \<times> resp \<Rightarrow> nat" where
  "reported (c, r) = (case c of Ibv_poll_cq _ _ \<Rightarrow> if 0 < rint r then length (rwc r) else 0 | _ \<Rightarrow> 0)"

definition requests_of :: "event list \<Rightarrow> nat" where
  "requests_of tr = length (filter is_post tr)"

definition completions_of :: "event list \<Rightarrow> nat" where
  "completions_of tr = sum_list (map reported tr)"

text \<open>A poll fills in as many entries as it says, and there is at most one completion for each request.\<close>

definition conforming :: "env \<Rightarrow> bool" where
  "conforming E \<longleftrightarrow> (\<forall>tr q n. let r = respond E tr (Ibv_poll_cq q n) in
     0 < rint r \<longrightarrow> length (rwc r) = nat (rint r) \<and> completions_of tr + length (rwc r) \<le> requests_of tr)"

lemma requests_simps [simp]: "requests_of [] = 0" "requests_of (e # tr) = (if is_post e then 1 else 0) + requests_of tr"
  by (simp_all add: requests_of_def)

lemma completions_simps [simp]: "completions_of [] = 0" "completions_of (e # tr) = reported e + completions_of tr"
  by (simp_all add: completions_of_def)

lemma conformingD [simp]:
  assumes "conforming E" and "0 < rint (respond E tr (Ibv_poll_cq q n))"
  shows "length (rwc (respond E tr (Ibv_poll_cq q n))) = nat (rint (respond E tr (Ibv_poll_cq q n)))"
    and "nat (rint (respond E tr (Ibv_poll_cq q n))) + completions_of tr \<le> requests_of tr"
  using assms unfolding conforming_def Let_def by (metis add.commute)+

lemma wait_counts:
  "q = NULL \<or> (\<exists>x. obj_at q (O_cq x) s) \<Longrightarrow>
    wp (rpma_cq_wait E q s) (\<lambda>r s'. requests_of (trace s') = requests_of (trace s) \<and> completions_of (trace s') = completions_of (trace s))"
  by (auto simp: rpma_cq_wait_def obj_at_nonnull ext_def Let_def)

lemma poll_counts:
  "conforming E \<Longrightarrow> q = NULL \<or> (\<exists>x. obj_at q (O_cq x) s) \<Longrightarrow>
    wp (rpma_cq_get_wc E q n (Some wc) (Some g) s) (\<lambda>(ret, _) s'. requests_of (trace s') = requests_of (trace s) \<and>
      (ret = 0 \<longrightarrow> completions_of (trace s) < completions_of (trace s') \<and> completions_of (trace s') \<le> requests_of (trace s)))"
  by (auto simp: rpma_cq_get_wc_def obj_at_nonnull ext_def Let_def)

lemma post_counts:
  assumes "obj_at conn (O_conn c) s" and "obj_at mr (O_mr_local m) s"
  shows "wp (rpma_send E conn mr off len flags ctx s) (\<lambda>r s'. requests_of (trace s') \<le> Suc (requests_of (trace s)))"
    and "wp (rpma_recv E conn mr off len ctx s) (\<lambda>r s'. requests_of (trace s') \<le> Suc (requests_of (trace s)))"
  using assms by (auto simp: rpma_send_def rpma_mr_send_def rpma_recv_def rpma_mr_recv_def obj_at_nonnull ext_def Let_def)

lemma wait_ends:
  assumes E: "conforming E" and P: "stable E P" and conn: "conn_live P conn cq"
  shows "P s \<Longrightarrow> requests_of (trace s) - completions_of (trace s) < n \<Longrightarrow>
    wp (wait_and_process_completions E cq recv n wc a b s) (\<lambda>r s'. r \<noteq> None \<and> P s' \<and> requests_of (trace s') = requests_of (trace s))"
proof (induction n arbitrary: wc a b s)
  case (Suc n)
  have q: "cq = NULL \<or> (\<exists>x. obj_at cq (O_cq x) t)" if "P t" for t
    using conn that by (auto simp: conn_live_def conn_ready_def)
  have wait: "wp (rpma_cq_wait E cq s) (\<lambda>r t. P t \<and> requests_of (trace t) = requests_of (trace s) \<and> completions_of (trace t) = completions_of (trace s))"
    using wp_conj [OF wp_cq_wait [where Q = "\<lambda>_. P", OF Suc.prems(1) P conn] wait_counts [OF q [OF Suc.prems(1)]]] by simp
  have poll: "wp (rpma_cq_get_wc E cq MAX_N_WC (Some wc) (Some 0) t) (\<lambda>(ret, _) u. P u \<and> requests_of (trace u) = requests_of (trace t) \<and>
      (ret = 0 \<longrightarrow> completions_of (trace t) < completions_of (trace u) \<and> completions_of (trace u) \<le> requests_of (trace t)))" if "P t" for t wc
    by (rule wp_mono [OF wp_conj [OF wp_get_wc [where Q = "\<lambda>_. P", OF that P conn] poll_counts [OF E q [OF that]]]]) auto
  from Suc.prems(2) show ?case
    by (auto intro!: wp_mono [OF wait] wp_mono [OF poll] wp_mono [OF Suc.IH] split: prod.split)
qed simp

lemma ping_round_ends:
  assumes E: "conforming E" and s: "P s" and P: "stable E P" and conn: "conn_live P conn cq"
    and mrs: "live P recv_mr O_mr_local" "live P send_mr O_mr_local" and buf: "\<And>x. allows P send (\<lambda>_. O_bytes x)"
    and fuel: "requests_of (trace s) + 2 < fuel"
  shows "wp (ping_round E fuel dma wc conn recv_mr send_mr cq recv send c s) (\<lambda>r s'. r \<noteq> None \<and> P s' \<and> requests_of (trace s') \<le> requests_of (trace s) + 2)"
proof -
  have c: "\<exists>c. obj_at conn (O_conn c) t" if "P t" for t using conn that by (auto simp: conn_live_def conn_ready_def)
  have recv: "wp (rpma_recv E conn recv_mr 0 MSG_SIZE (of_nat recv) s) (\<lambda>r t. P t \<and> requests_of (trace t) \<le> Suc (requests_of (trace s)))"
    using c [OF s] liveD [OF mrs(1) s]
    by (auto intro!: wp_mono [OF wp_conj [OF wp_send(2) [where Q = "\<lambda>_. P", OF s P conn mrs(1)] post_counts(2)]])
  have send: "wp (rpma_send E conn send_mr 0 MSG_SIZE f ctx t) (\<lambda>r u. P u \<and> requests_of (trace u) \<le> Suc (requests_of (trace t)))" if "P t" for t f ctx
    using c [OF that] liveD [OF mrs(2) that]
    by (auto intro!: wp_mono [OF wp_conj [OF wp_send(1) [where Q = "\<lambda>_. P", OF that P conn mrs(2)] post_counts(1)]])
  have st: "wp (store send (O_bytes x) t) (\<lambda>_ u. P u \<and> trace u = trace t)" if "P t" for t x
    using wp_store_allowed [where Q = "\<lambda>_. P" and x = "O_bytes x", OF that buf] by (auto simp: store_def split: if_splits)
  show ?thesis
    unfolding ping_round_def Let_def using fuel
    by (auto intro!: wp_mono [OF recv] wp_mono [OF st] wp_mono [OF send] wp_mono [OF wait_ends [OF E P conn]] split: option.split)
qed

lemma ping_rounds_end:
  assumes "conforming E" and P: "stable E P" and "conn_live P conn cq"
    and "live P recv_mr O_mr_local" "live P send_mr O_mr_local" and "\<And>x. allows P send (\<lambda>_. O_bytes x)"
  shows "P s \<Longrightarrow> requests_of (trace s) + 2 * n < fuel \<Longrightarrow>
    wp (while_rounds (ping_round E fuel dma wc conn recv_mr send_mr cq recv send) n c s) (\<lambda>r s'. r \<noteq> None \<and> P s')"
proof (induction n arbitrary: c s)
  case (Suc n)
  then show ?case by (auto intro!: wp_mono [OF ping_round_ends [OF assms(1) Suc.prems(1) assms(2-)]] wp_mono [OF Suc.IH])
qed simp

subsection \<open>Enough fuel\<close>

text \<open>What holds if there is enough fuel. The calls before a loop do not depend on it.\<close>

definition wp_enough :: "(nat \<Rightarrow> ('a \<times> st) option) \<Rightarrow> ('a \<Rightarrow> st \<Rightarrow> bool) \<Rightarrow> bool" where
  "wp_enough F Q \<longleftrightarrow> (\<exists>N. \<forall>fuel\<ge>N. wp (F fuel) Q)"

lemma wp_enough_simps [simp]:
  "wp_enough (\<lambda>fuel. m0) Q = wp m0 Q"
  "wp_enough (\<lambda>fuel. Option.bind m (\<lambda>x. case_prod (f fuel) x)) Q = wp m (\<lambda>r s. wp_enough (\<lambda>fuel. f fuel r s) Q)"
  "wp_enough (\<lambda>fuel. if b then F fuel else G fuel) Q = (if b then wp_enough F Q else wp_enough G Q)"
  "wp_enough (\<lambda>fuel. case u of None \<Rightarrow> F fuel | Some y \<Rightarrow> K fuel y) Q =
    (case u of None \<Rightarrow> wp_enough F Q | Some y \<Rightarrow> wp_enough (\<lambda>fuel. K fuel y) Q)"
  "wp_enough (\<lambda>fuel. case p of (x, y) \<Rightarrow> h fuel x y) Q = (case p of (x, y) \<Rightarrow> wp_enough (\<lambda>fuel. h fuel x y) Q)"
proof -
  show "wp_enough (\<lambda>fuel. Option.bind m (\<lambda>x. case_prod (f fuel) x)) Q = wp m (\<lambda>r s. wp_enough (\<lambda>fuel. f fuel r s) Q)"
    by (cases m) (auto simp only: wp_enough_def wp_bind wp_def option.case prod.case bind.simps)
qed (auto simp: wp_enough_def split: prod.split option.split)

lemma wp_enoughI: "(\<And>fuel. N \<le> fuel \<Longrightarrow> wp (F fuel) Q) \<Longrightarrow> wp_enough F Q"
  by (auto simp: wp_enough_def)

lemma ping_client_connected_ends:
  assumes E: "conforming E" and s: "msg_conn E P recv send peer m k q conn s" and P: "stable E P" and wf: "events_wf E"
    and Q: "\<And>r s'. P s' \<Longrightarrow> Q (Some r) s'"
  shows "wp_enough (\<lambda>fuel. ping_client_connected E fuel dma wc c rounds conn k m peer send recv s) Q"
proof (rule wp_enoughI)
  fix fuel
  assume f: "Suc (requests_of (trace s) + 2 * unat (rounds - 1)) \<le> fuel"
  let ?P = "msg_conn E P recv send peer m k q conn"
  have st: "stable E ?P" by (rule cq_scope.stable_over)
  have l: "conn_live ?P conn q" "live ?P m O_mr_local" "live ?P k O_mr_local" by (intro lives)+
  have a: "allows ?P send (\<lambda>_. O_bytes x)" for x by (intro allow)
  from f s show "wp (ping_client_connected E fuel dma wc c rounds conn k m peer send recv s) Q"
    unfolding ping_client_connected_def
    by (auto intro!: wp_get_cq [where P = ?P, OF s l(1)] wp_mono [OF ping_rounds_end [where P = ?P, OF E st l a]]
        wp_store_allowed [where P = ?P, OF _ a] wp_send(1) [where P = ?P, OF _ st l(1,3)] wp_ping_err_conn_disconnect [OF _ P wf]
        Q split: option.split)
qed

lemma ping_client_buffers_end:
  assumes E: "conforming E" and s: "msg_bufs E P recv send s" and P: "stable E P" and wf: "events_wf E"
    and Q: "\<And>r s'. P s' \<Longrightarrow> Q (Some r) s'"
  shows "wp_enough (\<lambda>fuel. ping_client_buffers E fuel dma wc addr port c rounds send recv s) Q"
proof -
  have pd: "pdata_arg_ok None" by simp
  have l: "live (msg_peer E P recv send peer) peer O_peer" "live (over owns_mr E (msg_peer E P recv send peer) m) peer O_peer"
    "live (msg_mrs E P recv send peer m k) peer O_peer" for peer m k by (intro lives)+
  have r: "wp_enough (\<lambda>fuel. ping_client_recv_mr E fuel dma wc addr port c rounds m peer send recv t) Q"
    if "over owns_mr E (msg_peer E P recv send peer) m t" for m peer t
    unfolding ping_client_recv_mr_def
    by (auto intro!: wp_push_mr [OF mr_scope.stable_over that liveD [OF l(2) that]] wp_client_connect_cq [OF _ mr_scope.stable_over l(3) _ pd wf]
        mr_scope.wp_pop [OF _ peer_scope.stable_over] wp_ping_err_peer_delete [OF _ P]
        wp_ping_err_mr_dereg [OF _ P] ping_client_connected_ends [OF E _ P wf] Q)
  show ?thesis
    unfolding ping_client_buffers_def
    by (auto intro!: wp_common_peer_via_address [OF plain_scope.stable_over s] wp_push_mr [OF peer_scope.stable_over _ liveD [OF l(1)]]
        wp_ping_err_mr_free [OF _ P] wp_ping_err_peer_delete [OF _ P] r Q)
qed

lemma ping_client_main_ends:
  assumes E: "conforming E" and s: "P s" and P: "stable E P" and wf: "events_wf E" and Q: "\<And>r s'. P s' \<Longrightarrow> Q (Some r) s'"
  shows "wp_enough (\<lambda>fuel. ping_client_main E fuel dma wc addr port seed rounds sleep s) Q"
  unfolding ping_client_main_def using s
  by (auto intro!: wp_malloc_aligned [OF P s] wp_malloc_aligned [OF plain_scope.stable_over] wp_pop_free [OF _ P]
      ping_client_buffers_end [OF E _ P wf] Q split: option.split)

subsection \<open>A provider with completions\<close>

text \<open>A poll reports one of the requests that have not completed yet, receives and sends in turn.\<close>

definition message_respond :: "event list \<Rightarrow> call \<Rightarrow> resp" where
  "message_respond tr c =
     (let r = sample_respond tr c in
      case c of
        Ibv_poll_cq q n \<Rightarrow>
          if completions_of tr < requests_of tr
          then r\<lparr>rint := 1, rwc := [sample_wc\<lparr>wc_wr_id := 60, wc_byte_len := 8,
                  wc_opcode := if even (completions_of tr) then IBV_WC_RECV else IBV_WC_SEND\<rparr>]\<rparr>
          else r
      | _ \<Rightarrow> r)"

definition message_env :: env where
  "message_env = sample_env\<lparr>respond := message_respond\<rparr>"

lemma message_env_ok: "events_wf message_env" "no_requests message_env" "conforming message_env"
  by (auto simp: message_env_def message_respond_def events_wf_def event_wf_def no_requests_def sample_respond_def sample_cm_event_def
      conforming_def Let_def)

definition message_st :: st where
  "message_st = heap_st [(50, O_conn \<lparr>conn_id = 40, conn_evch = 41, conn_cq = 51, conn_rcq = 0, conn_channel = 0, conn_data = no_pdata,
     conn_flush = 42, conn_direct_write_to_pmem = False\<rparr>), (51, O_cq \<lparr>cq_channel = 43, cq_shared_comp_channel = False, cq_cq = 44\<rparr>),
     (52, O_mr_local \<lparr>mrl_ibv_mr = sample_ibv_mr 45, mrl_usage = RPMA_MR_USAGE_RECV\<rparr>),
     (53, O_mr_local \<lparr>mrl_ibv_mr = sample_ibv_mr 46, mrl_usage = RPMA_MR_USAGE_SEND\<rparr>),
     (60, O_bytes (replicate 8 0)), (61, O_bytes (replicate 8 0))]"

text \<open>The server has requests_of its first receive with the request.\<close>

definition message_server_st :: st where
  "message_server_st = push (Ibv_post_recv 1 \<lparr>rwr_id = 60, rwr_sg_list = None, rwr_num_sge = 0\<rparr>)
     (sample_respond [] Malloc) message_st"

definition to_client :: dma where
  "to_client tr = le_bytes 8 (5 + of_nat (completions_of tr div 2) :: u64)"

definition to_server :: dma where
  "to_server tr = (if completions_of tr < 5 then to_client tr else le_bytes 8 I_M_DONE)"

subsection \<open>Properties\<close>



text \<open>C19: the client of the message ping-pong ends. For every provider that reports at most one completion
  for each request, and whatever else it answers, there is a number of polls after which the client has not to wait any
  longer: with that much fuel the program runs to its end, without undefined behaviour, and gives back all it has acquired.\<close>

theorem ping_client_ends:
  assumes "ledger_ok s" and "events_wf E" and "no_requests E" and "conforming E"
  shows "\<exists>N. \<forall>fuel\<ge>N. wp (ping_client_main E fuel dma wc addr port seed rounds sleep s)
    (\<lambda>r s'. r \<noteq> None \<and> ledger_ok s' \<and> unchanged s s')"
  using ping_client_main_ends [OF assms(4) clean_refl [OF assms(1)] stable_clean assms(2)] clean_silent [OF _ assms(3)]
  unfolding wp_enough_def by simp

theorem ping_client_ends_witness:
  "\<exists>N. wp (ping_client_main message_env N to_client [] ''10.0.0.1'' ''7204'' ''5'' ''3'' None init_st)
    (\<lambda>r s'. r \<noteq> None \<and> ledger_ok s' \<and> unchanged init_st s')"
  using ping_client_ends [where s = init_st and E = message_env and dma = to_client and wc = "[]" and addr = "''10.0.0.1''"
      and port = "''7204''" and seed = "''5''" and rounds = "''3''" and sleep = None] message_env_ok by auto

end
