(* ===== verification/Immediate_Props.thy ===== *)
theory Immediate_Props
  imports Immediate Ping_Pong_Props
begin

text \<open>
  The examples with immediate data: what they leave behind, and that the number on the command line of the client is the one
  the server prints.
\<close>

subsection \<open>Optional objects\<close>

text \<open>An object that a program holds unless the pointer to it is \<open>NULL\<close>.\<close>

definition over_opt ::
  "(ptr \<Rightarrow> ptr set \<Rightarrow> res multiset \<Rightarrow> st \<Rightarrow> bool) \<Rightarrow> env \<Rightarrow> (st \<Rightarrow> bool) \<Rightarrow> ptr \<Rightarrow> st \<Rightarrow> bool" where
  "over_opt owns E P k = (if k = NULL then P else over owns E P k)"

lemma over_opt_NULL [simp]: "over_opt owns E P NULL = P"
  by (simp add: over_opt_def)

lemma live_over_opt: "live P k f \<Longrightarrow> live (over_opt owns E P j) k f"
  by (simp add: over_opt_def live_over)

context scoped
begin

lemma stable_over_opt: "stable E P \<Longrightarrow> stable E (over_opt owns E P k)"
  by (simp add: over_opt_def stable_over)

end

lemma over_opt_plain: "over (owns_plain f) E P k s \<Longrightarrow> over_opt (owns_plain f) E P k s"
  using over_top(5) obj_at_nonnull by (fastforce simp: over_opt_def)

lemma over_opt_mr: "over owns_mr E P k s \<Longrightarrow> over_opt owns_mr E P k s"
  using over_top(4) obj_at_nonnull by (fastforce simp: over_opt_def)

lemma wp_free_opt:
  assumes "over_opt (owns_plain f) E P k s" and "stable E P" and "\<And>s'. P s' \<Longrightarrow> Q () s'"
  shows "wp (free k s) Q"
proof (cases "k = NULL")
  case True
  then show ?thesis using assms by (simp add: free_def)
next
  case False
  then show ?thesis using assms by (intro wp_pop_free [where f = f and P = P and E = E]) (simp_all add: over_opt_def)
qed

lemma wp_dereg_opt:
  assumes "over_opt owns_mr E P k s" and "stable E P" and "\<And>r s'. P s' \<Longrightarrow> Q r s'"
  shows "wp (rpma_mr_dereg E (Some k) s) Q"
  using assms by (cases "k = NULL") (auto simp: over_opt_def mr_dereg_null intro: mr_scope.wp_pop)

subsection \<open>Completions\<close>

lemma wp_imm_completed:
  assumes "P s" and "stable E P" and "conn_live P conn q" and "\<And>r s'. P s' \<Longrightarrow> Q r s'"
  shows "wp (imm_completed E conn opcode wc s) Q"
  unfolding imm_completed_def Let_def
  by (auto intro!: wp_get_cq [where P = P, OF assms(1,3)] wp_cq_wait [where P = P, OF _ assms(2,3)]
      wp_get_wc [where P = P, OF _ assms(2,3)] assms(1,4))

subsection \<open>Send: the client\<close>

abbreviation "opt_buf E P send \<equiv> over_opt (owns_plain O_bytes) E P send"
abbreviation "opt_peer E P send peer \<equiv> over owns_peer E (opt_buf E P send) peer"
abbreviation "opt_mr E P send peer mr \<equiv> over_opt owns_mr E (opt_peer E P send peer) mr"
abbreviation "opt_conn E P send peer mr q conn \<equiv> over (owns_conn_cq E q) E (opt_mr E P send peer mr) conn"

lemma wp_send_imm_err_mr_free:
  assumes "opt_buf E P send s" and "stable E P" and "\<And>ret s'. P s' \<Longrightarrow> Q ret s'"
  shows "wp (send_imm_err_mr_free ret send s) Q"
  using assms by (auto simp: send_imm_err_mr_free_def intro!: wp_free_opt)

lemma wp_send_imm_err_peer_delete:
  assumes "opt_peer E P send peer s" and "stable E P" and "\<And>ret s'. P s' \<Longrightarrow> Q ret s'"
  shows "wp (send_imm_err_peer_delete E ret peer send s) Q"
  using assms by (auto simp: send_imm_err_peer_delete_def intro!: peer_scope.wp_pop plain_scope.stable_over_opt wp_send_imm_err_mr_free)

lemma wp_send_imm_err_mr_dereg:
  assumes "opt_mr E P send peer mr s" and "stable E P" and "\<And>ret s'. P s' \<Longrightarrow> Q ret s'"
  shows "wp (send_imm_err_mr_dereg E ret mr peer send s) Q"
  using assms by (auto simp: send_imm_err_mr_dereg_def intro!: wp_dereg_opt peer_scope.stable_over wp_send_imm_err_peer_delete)

lemma wp_send_imm_err_conn_disconnect:
  assumes "opt_conn E P send peer mr q conn s" and "stable E P" and "events_wf E" and "\<And>ret s'. P s' \<Longrightarrow> Q ret s'"
  shows "wp (send_imm_err_conn_disconnect E ret conn mr peer send s) Q"
  unfolding send_imm_err_conn_disconnect_def
  by (auto intro!: wp_close_cq [OF assms(1) mr_scope.stable_over_opt [OF peer_scope.stable_over] assms(3)]
      wp_send_imm_err_mr_dereg [OF _ assms(2)] assms(4))

lemma wp_send_imm_connected:
  assumes s: "opt_conn E P send peer mr q conn s" and P: "stable E P" and wf: "events_wf E"
    and w: "word \<noteq> None \<Longrightarrow> send \<noteq> NULL" and Q: "\<And>ret s'. P s' \<Longrightarrow> Q ret s'"
  shows "wp (send_imm_connected E imm word len conn mr peer send wc s) Q"
proof -
  let ?P = "opt_conn E P send peer mr q conn"
  have st: "stable E ?P" by (rule cq_scope.stable_over)
  have l: "conn_live ?P conn q" by (rule conn_live_top)
  have m: "mr = NULL \<or> live ?P mr O_mr_local" by (cases "mr = NULL") (simp_all add: over_opt_def live_over live_top)
  have a: "allows ?P send (\<lambda>_. O_bytes x)" if "word \<noteq> None" for x
    using w [OF that] unfolding over_opt_def by (cases "mr = NULL") (simp_all, (intro allow)+)
  show ?thesis
    unfolding send_imm_connected_def
    by (cases word) (auto intro!: wp_store_allowed [where P = ?P, OF s a] wp_send_with_imm [where P = ?P, OF _ st l m]
        wp_imm_completed [where P = ?P, OF _ st l] wp_send_imm_err_conn_disconnect [OF _ P wf] s Q)
qed

lemma wp_send_imm_buffer:
  assumes s: "opt_buf E P send s" and P: "stable E P" and wf: "events_wf E" and data: "data \<noteq> NULL"
    and w: "word \<noteq> None \<Longrightarrow> send \<noteq> NULL" and Q: "\<And>ret s'. P s' \<Longrightarrow> Q ret s'"
  shows "wp (send_imm_buffer E addr port imm word data len send wc s) Q"
proof -
  have l: "live (opt_peer E P send peer) peer O_peer" "live (opt_mr E P send peer mr) peer O_peer" for peer mr by (intro live_over_opt lives)+
  have pd: "pdata_arg_ok (Some \<lparr>pdata_ptr = data, pdata_len = 4\<rparr>)" using data by simp
  have st: "stable E (opt_mr E P send peer mr)" for peer mr by (intro mr_scope.stable_over_opt peer_scope.stable_over)
  have c: "wp (client_connect E peer addr port 0 (Some \<lparr>pdata_ptr = data, pdata_len = 4\<rparr>) 0 t) (\<lambda>(ret, conn) t.
      wp (if ret \<noteq> 0 then send_imm_err_mr_dereg E ret mr peer send t else send_imm_connected E imm word len conn mr peer send wc t) Q)"
    if "opt_mr E P send peer mr t" for peer mr t
    by (rule wp_client_connect_cq [OF that st l(2) _ pd wf])
       (auto intro!: wp_send_imm_err_mr_dereg [OF _ P] wp_send_imm_connected [OF _ P wf w] Q)
  show ?thesis
  proof (cases word)
    case None
    then show ?thesis
      unfolding send_imm_buffer_def
      by (auto intro!: wp_common_peer_via_address [OF plain_scope.stable_over_opt [OF P] s] wp_send_imm_err_mr_free [OF _ P]
          wp_mono [OF c [where mr = NULL, unfolded over_opt_NULL]] Q split: prod.splits if_splits)
  next
    case (Some x)
    then show ?thesis
      unfolding send_imm_buffer_def
      by (auto intro!: wp_common_peer_via_address [OF plain_scope.stable_over_opt [OF P] s] wp_push_mr [OF peer_scope.stable_over _ liveD [OF l(1)]]
          wp_send_imm_err_mr_free [OF _ P] wp_send_imm_err_peer_delete [OF _ P] wp_mono [OF c [OF over_opt_mr]] Q split: prod.splits if_splits)
  qed
qed

lemma wp_send_imm_client_main:
  assumes s: "P s" and P: "stable E P" and wf: "events_wf E" and data: "data \<noteq> NULL" and Q: "\<And>ret s'. P s' \<Longrightarrow> Q ret s'"
  shows "wp (send_imm_client_main E addr port arg word data wc s) Q"
proof (cases word)
  case None
  then show ?thesis
    using s by (auto simp: send_imm_client_main_def intro!: wp_send_imm_buffer [OF _ P wf data] Q split: option.split)
next
  case (Some x)
  then show ?thesis
    using s by (auto simp: send_imm_client_main_def intro!: wp_malloc_aligned [OF P s] wp_send_imm_buffer [OF over_opt_plain P wf data] Q
        split: option.split)
qed

subsection \<open>Send: the server\<close>

abbreviation "rimm_buf E P recv \<equiv> over (owns_plain O_bytes) E P recv"
abbreviation "rimm_peer E P recv peer \<equiv> over owns_peer E (rimm_buf E P recv) peer"
abbreviation "rimm_mr E P recv peer mr \<equiv> over owns_mr E (rimm_peer E P recv peer) mr"
abbreviation "rimm_ep E P recv peer mr ep \<equiv> over (owns_ep_of peer) E (rimm_mr E P recv peer mr) ep"
abbreviation "rimm_conn E P recv peer mr ep q conn \<equiv> over (owns_conn_cq E q) E (rimm_ep E P recv peer mr ep) conn"

lemma wp_recv_imm_err_mr_free:
  assumes "rimm_buf E P recv s" and "stable E P" and "\<And>ret s'. P s' \<Longrightarrow> Q ret s'"
  shows "wp (recv_imm_err_mr_free ret recv s) Q"
  using assms by (auto simp: recv_imm_err_mr_free_def intro!: wp_pop_free)

lemma wp_recv_imm_err_peer_delete:
  assumes "rimm_peer E P recv peer s" and "stable E P" and "\<And>ret s'. P s' \<Longrightarrow> Q ret s'"
  shows "wp (recv_imm_err_peer_delete E ret peer recv s) Q"
  using assms by (auto simp: recv_imm_err_peer_delete_def intro!: peer_scope.wp_pop plain_scope.stable_over wp_recv_imm_err_mr_free)

lemma wp_recv_imm_err_mr_dereg:
  assumes "rimm_mr E P recv peer mr s" and "stable E P" and "\<And>ret s'. P s' \<Longrightarrow> Q ret s'"
  shows "wp (recv_imm_err_mr_dereg E ret mr peer recv s) Q"
  using assms by (auto simp: recv_imm_err_mr_dereg_def intro!: mr_scope.wp_pop peer_scope.stable_over wp_recv_imm_err_peer_delete)

lemma wp_recv_imm_err_ep_shutdown:
  assumes "rimm_ep E P recv peer mr ep s" and "stable E P" and "\<And>ret s'. P s' \<Longrightarrow> Q ret s'"
  shows "wp (recv_imm_err_ep_shutdown E ret ep mr peer recv s) Q"
  using assms by (auto simp: recv_imm_err_ep_shutdown_def intro!: ep_scope.wp_pop mr_scope.stable_over wp_recv_imm_err_mr_dereg)

lemma wp_recv_imm_err_conn_disconnect:
  assumes "rimm_conn E P recv peer mr ep q conn s" and "stable E P" and "events_wf E" and "\<And>ret s'. P s' \<Longrightarrow> Q ret s'"
  shows "wp (recv_imm_err_conn_disconnect E ret conn ep mr peer recv s) Q"
  unfolding recv_imm_err_conn_disconnect_def
  by (auto intro!: wp_close_cq [OF assms(1) ep_scope.stable_over assms(3)] wp_recv_imm_err_ep_shutdown [OF _ assms(2)] assms(4))

lemma wp_recv_imm_check:
  assumes s: "P s" and buf: "live P recv O_bytes" "\<And>x. allows P recv (\<lambda>_. O_bytes x)" and dma: "\<And>tr. 0 \<in> set (dma tr)"
    and Q: "\<And>r s'. P s' \<Longrightarrow> Q r s'"
  shows "wp (recv_imm_check v dma recv wc s) Q"
  unfolding recv_imm_check_def Let_def
  by (auto simp: printed_string_def dma intro!: wp_bytes_at [where P = P, OF s buf(1)] wp_store_allowed [where P = P, OF _ buf(2)] s Q)

lemma wp_recv_imm_message:
  assumes s: "over (owns_conn_of E) E (rimm_ep E P recv peer mr ep) conn s" and wf: "events_wf E" and dma: "\<And>tr. 0 \<in> set (dma tr)"
    and Q: "\<And>r q s'. rimm_conn E P recv peer mr ep q conn s' \<Longrightarrow> Q r s'"
  shows "wp (recv_imm_message E dma conn recv wc s) Q"
  unfolding recv_imm_message_def wp_bind
proof (rule wp_next_event [OF s wf], goal_cases)
  case (1 ret out t)
  then obtain q where t: "rimm_conn E P recv peer mr ep q conn t" using over_some_cq by blast
  let ?P = "\<lambda>d u. rimm_conn E P recv peer mr ep q conn u \<and> pdata_ok d u"
  have "stable E (rimm_conn E P recv peer mr ep q conn)" by (rule cq_scope.stable_over)
  then have st: "stable E (?P d)" for d by (auto simp: stable_def clean_def ids_left_def pdata_ok_def obj_at_def)
  have l: "conn_live (rimm_conn E P recv peer mr ep q conn) conn q" "live (rimm_conn E P recv peer mr ep q conn) recv O_bytes"
    "allows (rimm_conn E P recv peer mr ep q conn) recv (\<lambda>_. O_bytes x)" for x by (intro lives allow)+
  then have c: "conn_live (?P d) conn q" for d by (simp add: conn_live_def)
  have bytes: "\<exists>bs. bytes_at (pdata_ptr d) u = Some bs \<and> 4 \<le> length bs" if "pdata_ok d u" "\<not> pdata_len d < 4" for d u
    using that by (auto simp: pdata_ok_def bytes_at_def deref_def obj_at_def word_less_nat_alt)
  have check: "wp (Option.bind (bytes_at (pdata_ptr d) u) (\<lambda>bytes. Option.bind (read_bytes 0 4 bytes)
      (\<lambda>exp_imm. recv_imm_check (le_val exp_imm) dma recv w u))) Q" if "?P d u" "\<not> pdata_len d < 4" for d w u
    using that bytes [of d u]
    by (auto simp: read_bytes_def intro!: wp_recv_imm_check [OF _ l(2,3) dma] Q)
  show ?case
    by (auto intro!: wp_private_data [OF t l(1)] wp_imm_completed [where P = "?P d" for d, OF _ st c] check t Q)
qed

lemma wp_recv_imm_listening:
  assumes s: "rimm_ep E P recv peer mr ep s" and P: "stable E P" and wf: "events_wf E" and dma: "\<And>tr. 0 \<in> set (dma tr)"
    and Q: "\<And>r s'. P s' \<Longrightarrow> Q r s'"
  shows "wp (recv_imm_listening E dma ep mr peer recv wc s) Q"
proof -
  let ?P = "rimm_ep E P recv peer mr ep"
  have l: "ep_live ?P ep peer" "live ?P peer O_peer" "live ?P mr O_mr_local" by (intro lives ep_lives)+
  have pd: "pdata_arg_ok None" by simp
  show ?thesis
    unfolding recv_imm_listening_def
    by (auto intro!: wp_next_req_live [where P = ?P, OF s ep_scope.stable_over l(1,2) _ wf] wp_req_recv [where P = ?P, OF _ l(3)]
        wp_req_connect [where P = ?P, OF ep_scope.stable_over _ liveD [OF l(2)] pd] wp_recv_imm_message [OF _ wf dma]
        wp_recv_imm_err_ep_shutdown [OF _ P] wp_recv_imm_err_conn_disconnect [OF _ P wf] Q
        intro: wp_req_delete [where P = ?P, OF ep_scope.stable_over])
qed

lemma wp_recv_imm_server_main:
  assumes s: "P s" and P: "stable E P" and wf: "events_wf E" and dma: "\<And>tr. 0 \<in> set (dma tr)" and Q: "\<And>r s'. P s' \<Longrightarrow> Q r s'"
  shows "wp (recv_imm_server_main E dma addr port wc s) Q"
proof -
  have l: "live (rimm_peer E P recv peer) peer O_peer" "live (rimm_mr E P recv peer mr) peer O_peer" for recv peer mr by (intro lives)+
  show ?thesis
    unfolding recv_imm_server_main_def
    by (auto intro!: wp_malloc_aligned [OF P s] wp_common_peer_via_address [OF plain_scope.stable_over]
        wp_push_mr [OF peer_scope.stable_over _ liveD [OF l(1)]] wp_push_ep [OF mr_scope.stable_over _ live_nonnull [OF l(2)]]
        wp_recv_imm_err_mr_free [OF _ P] wp_recv_imm_err_peer_delete [OF _ P] wp_recv_imm_err_mr_dereg [OF _ P]
        wp_recv_imm_listening [OF _ P wf dma] Q)
qed

subsection \<open>Write: the client\<close>

abbreviation "wimm_mr E P src peer mr \<equiv> over owns_mr E (rimm_peer E P src peer) mr"
abbreviation "wimm_conn E P src peer mr q conn \<equiv> over (owns_conn_cq E q) E (wimm_mr E P src peer mr) conn"
abbreviation "wimm_remote E P src peer mr q conn r \<equiv> over (owns_plain O_mr_remote) E (wimm_conn E P src peer mr q conn) r"

lemma wp_write_imm_err_mr_free:
  assumes "rimm_buf E P src s" and "stable E P" and "\<And>ret s'. P s' \<Longrightarrow> Q ret s'"
  shows "wp (write_imm_err_mr_free ret src s) Q"
  using assms by (auto simp: write_imm_err_mr_free_def intro!: wp_pop_free)

lemma wp_write_imm_err_peer_delete:
  assumes "rimm_peer E P src peer s" and "stable E P" and "\<And>ret s'. P s' \<Longrightarrow> Q ret s'"
  shows "wp (write_imm_err_peer_delete E ret peer src s) Q"
  using assms by (auto simp: write_imm_err_peer_delete_def intro!: peer_scope.wp_pop plain_scope.stable_over wp_write_imm_err_mr_free)

lemma wp_write_imm_err_mr_dereg:
  assumes "wimm_mr E P src peer mr s" and "stable E P" and "\<And>ret s'. P s' \<Longrightarrow> Q ret s'"
  shows "wp (write_imm_err_mr_dereg E ret mr peer src s) Q"
  using assms by (auto simp: write_imm_err_mr_dereg_def intro!: mr_scope.wp_pop peer_scope.stable_over wp_write_imm_err_peer_delete)

lemma wp_write_imm_err_conn_disconnect:
  assumes "wimm_conn E P src peer mr q conn s" and "stable E P" and "events_wf E" and "\<And>ret s'. P s' \<Longrightarrow> Q ret s'"
  shows "wp (write_imm_err_conn_disconnect E ret conn mr peer src s) Q"
  unfolding write_imm_err_conn_disconnect_def
  by (auto intro!: wp_close_cq [OF assms(1) mr_scope.stable_over assms(3)] wp_write_imm_err_mr_dereg [OF _ assms(2)] assms(4))

lemma wp_write_imm_err_mr_remote_delete:
  assumes "wimm_remote E P src peer mr q conn r s" and "stable E P" and "events_wf E" and "\<And>ret s'. P s' \<Longrightarrow> Q ret s'"
  shows "wp (write_imm_err_mr_remote_delete E ret r conn mr peer src s) Q"
  unfolding write_imm_err_mr_remote_delete_def
  by (auto intro!: wp_pop_mr_remote [OF assms(1) cq_scope.stable_over] wp_write_imm_err_conn_disconnect [OF _ assms(2,3)] assms(4))

lemma wp_write_imm_remote:
  assumes s: "wimm_remote E P src peer mr q conn r s" and P: "stable E P" and wf: "events_wf E" and Q: "\<And>ret s'. P s' \<Longrightarrow> Q ret s'"
  shows "wp (write_imm_remote E imm r off conn mr peer src wc s) Q"
proof -
  let ?P = "wimm_remote E P src peer mr q conn r"
  have st: "stable E ?P" by (rule plain_scope.stable_over)
  have l: "conn_live ?P conn q" "live ?P mr O_mr_local" "live ?P r O_mr_remote" "live ?P src O_bytes" by (intro lives)+
  have a: "allows ?P src (\<lambda>_. O_bytes x)" for x by (intro allow)
  show ?thesis
    unfolding write_imm_remote_def
    by (auto intro!: wp_bytes_at [where P = ?P, OF s l(4)] wp_store_allowed [where P = ?P, OF s a]
        wp_write(2) [where P = ?P, OF _ st l(1-3) flags_nonzero(1)] wp_imm_completed [where P = ?P, OF _ st l(1)]
        wp_write_imm_err_mr_remote_delete [OF _ P wf] Q)
qed

lemma wp_write_imm_connected:
  assumes s: "wimm_conn E P src peer mr q conn s" and P: "stable E P" and wf: "events_wf E" and Q: "\<And>ret s'. P s' \<Longrightarrow> Q ret s'"
  shows "wp (write_imm_connected E imm conn mr peer src wc s) Q"
proof -
  have l: "conn_live (wimm_conn E P src peer mr q conn) conn q" by (intro lives)
  show ?thesis
    unfolding write_imm_connected_def
    by (auto intro!: wp_private_data [OF s l] wp_remote_from_data [OF cq_scope.stable_over s] wp_write_imm_err_conn_disconnect [OF _ P wf]
        wp_write_imm_remote [OF _ P wf] s Q)
qed

lemma wp_write_imm_client_main:
  assumes s: "P s" and P: "stable E P" and wf: "events_wf E" and Q: "\<And>ret s'. P s' \<Longrightarrow> Q ret s'"
  shows "wp (write_imm_client_main E addr port arg wc s) Q"
proof -
  have l: "live (rimm_peer E P src peer) peer O_peer" "live (wimm_mr E P src peer mr) peer O_peer" for src peer mr by (intro lives)+
  have pd: "pdata_arg_ok None" by simp
  show ?thesis
    unfolding write_imm_client_main_def using s
    by (auto intro!: wp_malloc_aligned [OF P s] wp_common_peer_via_address [OF plain_scope.stable_over]
        wp_push_mr [OF peer_scope.stable_over _ liveD [OF l(1)]] wp_client_connect_cq [OF _ mr_scope.stable_over l(2) _ pd wf]
        wp_write_imm_err_mr_free [OF _ P] wp_write_imm_err_peer_delete [OF _ P] wp_write_imm_err_mr_dereg [OF _ P]
        wp_write_imm_connected [OF _ P wf] Q split: option.split)
qed

subsection \<open>Write: the server\<close>

abbreviation "dimm_bufs E P dst recv \<equiv> over (owns_plain O_bytes) E (over (owns_plain O_bytes) E P dst) recv"
abbreviation "dimm_peer E P dst recv peer \<equiv> over owns_peer E (dimm_bufs E P dst recv) peer"
abbreviation "dimm_mrs E P dst recv peer m k \<equiv> over owns_mr E (over owns_mr E (dimm_peer E P dst recv peer) m) k"
abbreviation "dimm_ep E P dst recv peer m k ep \<equiv> over (owns_ep_of peer) E (dimm_mrs E P dst recv peer m k) ep"
abbreviation "dimm_conn E P dst recv peer m k ep q conn \<equiv> over (owns_conn_cq E q) E (dimm_ep E P dst recv peer m k ep) conn"

lemma wp_dest_imm_err_mr_free:
  assumes "dimm_bufs E P dst recv s" and "stable E P" and "\<And>ret s'. P s' \<Longrightarrow> Q ret s'"
  shows "wp (dest_imm_err_mr_free ret dst recv s) Q"
proof -
  have "dimm_bufs E P recv dst s" by (rule plain_scope.swap [OF assms(1)]) (rule plain_scope.owns_local)
  then show ?thesis
    unfolding dest_imm_err_mr_free_def
    by (auto intro!: wp_free_two [OF _ assms(2)] assms(3))
qed

lemma wp_dest_imm_err_peer_delete:
  assumes "dimm_peer E P dst recv peer s" and "stable E P" and "\<And>ret s'. P s' \<Longrightarrow> Q ret s'"
  shows "wp (dest_imm_err_peer_delete E ret peer dst recv s) Q"
  using assms by (auto simp: dest_imm_err_peer_delete_def intro!: peer_scope.wp_pop plain_scope.stable_over wp_dest_imm_err_mr_free)

lemma wp_dest_imm_err_mr_dereg:
  assumes "dimm_mrs E P dst recv peer m k s" and "stable E P" and "\<And>ret s'. P s' \<Longrightarrow> Q ret s'"
  shows "wp (dest_imm_err_mr_dereg E ret k m peer dst recv s) Q"
  using assms
  by (auto simp: dest_imm_err_mr_dereg_def intro!: mr_scope.wp_pop mr_scope.stable_over peer_scope.stable_over wp_dest_imm_err_peer_delete)

lemma wp_dest_imm_err_ep_shutdown:
  assumes "dimm_ep E P dst recv peer m k ep s" and "stable E P" and "\<And>ret s'. P s' \<Longrightarrow> Q ret s'"
  shows "wp (dest_imm_err_ep_shutdown E ret ep k m peer dst recv s) Q"
  using assms by (auto simp: dest_imm_err_ep_shutdown_def intro!: ep_scope.wp_pop mr_scope.stable_over wp_dest_imm_err_mr_dereg)

lemma wp_dest_imm_err_conn_disconnect:
  assumes "dimm_conn E P dst recv peer m k ep q conn s" and "stable E P" and "events_wf E" and "\<And>ret s'. P s' \<Longrightarrow> Q ret s'"
  shows "wp (dest_imm_err_conn_disconnect E ret conn ep k m peer dst recv s) Q"
  unfolding dest_imm_err_conn_disconnect_def
  by (auto intro!: wp_close_cq [OF assms(1) ep_scope.stable_over assms(3)] wp_dest_imm_err_ep_shutdown [OF _ assms(2)] assms(4))

lemma wp_dest_imm_message:
  assumes s: "over (owns_conn_of E) E R conn s" and wf: "events_wf E" and Q: "\<And>r q s'. over (owns_conn_cq E q) E R conn s' \<Longrightarrow> Q r s'"
  shows "wp (dest_imm_message E dma conn wc s) Q"
  unfolding dest_imm_message_def wp_bind
proof (rule wp_next_event [OF s wf], goal_cases)
  case (1 ret out t)
  then obtain q where t: "over (owns_conn_cq E q) E R conn t" using over_some_cq by blast
  have l: "conn_live (over (owns_conn_cq E q) E R conn) conn q" by (rule conn_live_top)
  show ?case by (auto intro!: wp_imm_completed [OF t cq_scope.stable_over l] t Q split: prod.split)
qed

lemma wp_dest_imm_listening:
  assumes s: "dimm_ep E P dst recv peer m k ep s" and P: "stable E P" and wf: "events_wf E" and data: "data \<noteq> NULL"
    and Q: "\<And>r s'. P s' \<Longrightarrow> Q r s'"
  shows "wp (dest_imm_listening E dma data ep k m peer dst recv wc s) Q"
proof -
  let ?P = "dimm_ep E P dst recv peer m k ep"
  have l: "ep_live ?P ep peer" "live ?P peer O_peer" "live ?P k O_mr_local" by (intro lives ep_lives)+
  have pd: "pdata_arg_ok (Some \<lparr>pdata_ptr = data, pdata_len = SIZEOF_COMMON_DATA\<rparr>)"
    using data by (simp add: pdata_arg_ok_def SIZEOF_COMMON_DATA_def)
  show ?thesis
    unfolding dest_imm_listening_def Let_def
    by (auto intro!: wp_next_req_live [where P = ?P, OF s ep_scope.stable_over l(1,2) _ wf] wp_req_recv [where P = ?P, OF _ l(3)]
        wp_req_connect [where P = ?P, OF ep_scope.stable_over _ liveD [OF l(2)] pd] wp_dest_imm_message [OF _ wf]
        wp_dest_imm_err_ep_shutdown [OF _ P] wp_dest_imm_err_conn_disconnect [OF _ P wf] Q
        intro: wp_req_delete [where P = ?P, OF ep_scope.stable_over])
qed

lemma wp_dest_imm_registered:
  assumes s: "dimm_mrs E P dst recv peer m k s" and P: "stable E P" and wf: "events_wf E" and data: "data \<noteq> NULL"
    and Q: "\<And>r s'. P s' \<Longrightarrow> Q r s'"
  shows "wp (dest_imm_registered E dma addr port data k m peer dst recv wc s) Q"
proof -
  let ?P = "dimm_mrs E P dst recv peer m k"
  have l: "live ?P m O_mr_local" "live ?P peer O_peer" by (intro lives)+
  show ?thesis
    unfolding dest_imm_registered_def
    by (auto intro!: wp_common_data_of [where P = ?P, OF s l(1)] wp_push_ep [OF mr_scope.stable_over s live_nonnull [OF l(2) s]]
        wp_dest_imm_err_mr_dereg [OF _ P] wp_dest_imm_listening [OF _ P wf data] s Q)
qed

lemma wp_dest_imm_dst_mr:
  assumes s: "over owns_mr E (dimm_peer E P dst recv peer) m s" and P: "stable E P" and wf: "events_wf E" and data: "data \<noteq> NULL"
    and Q: "\<And>r s'. P s' \<Longrightarrow> Q r s'"
  shows "wp (dest_imm_dst_mr E dma addr port data m peer dst recv wc s) Q"
proof -
  have l: "live (over owns_mr E (dimm_peer E P dst recv peer) m) peer O_peer" by (intro lives)
  show ?thesis
    unfolding dest_imm_dst_mr_def
    by (auto intro!: wp_push_mr [OF mr_scope.stable_over s liveD [OF l s]] mr_scope.wp_pop [OF _ peer_scope.stable_over]
        wp_dest_imm_err_peer_delete [OF _ P] wp_dest_imm_registered [OF _ P wf data] Q)
qed

lemma wp_dest_imm_buffers:
  assumes s: "dimm_bufs E P dst recv s" and P: "stable E P" and wf: "events_wf E" and data: "data \<noteq> NULL"
    and Q: "\<And>r s'. P s' \<Longrightarrow> Q r s'"
  shows "wp (dest_imm_buffers E dma addr port data dst recv wc s) Q"
proof -
  have l: "live (dimm_peer E P dst recv peer) peer O_peer" for peer by (intro lives)
  show ?thesis
    unfolding dest_imm_buffers_def
    by (auto intro!: wp_common_peer_via_address [OF plain_scope.stable_over s] wp_push_mr [OF peer_scope.stable_over _ liveD [OF l]]
        wp_dest_imm_err_mr_free [OF _ P] wp_dest_imm_err_peer_delete [OF _ P] wp_dest_imm_dst_mr [OF _ P wf data] Q)
qed

lemma wp_dest_imm_server_main:
  assumes s: "P s" and P: "stable E P" and wf: "events_wf E" and data: "data \<noteq> NULL" and Q: "\<And>r s'. P s' \<Longrightarrow> Q r s'"
  shows "wp (dest_imm_server_main E dma addr port data wc s) Q"
  unfolding dest_imm_server_main_def
  by (auto intro!: wp_malloc_aligned [OF P s] wp_malloc_aligned [OF plain_scope.stable_over] wp_pop_free [OF _ P]
      wp_dest_imm_buffers [OF _ P wf data] Q)

subsection \<open>Properties\<close>

lemma ntohl_htonl: "ntohl_bytes (htonl_bytes v) = v"
  by (simp add: ntohl_bytes_def htonl_bytes_def le_val_le_bytes_full)

lemma imm_argument_decimal: "imm_argument (decimal_string n) = (if n < 2 ^ 32 then Some (of_nat n) else None)"
proof (cases "n < 2 ^ 64")
  case True
  then have "unat (of_nat n :: u64) = n" by (simp add: unat_of_nat_small)
  then have "UINT32_MAX < of_nat n \<longleftrightarrow> 2 ^ 32 \<le> n" by (auto simp: UINT32_MAX_def word_less_nat_alt)
  with True show ?thesis by (auto simp: imm_argument_def strtoul_decimal)
next
  case False
  then show ?thesis by (auto simp: imm_argument_def strtoul_decimal)
qed

lemma posted_immediate:
  assumes "rpma_send_with_imm E conn mr 0 len RPMA_F_COMPLETION_ALWAYS imm 0 t = Some (0, t') \<or>
      rpma_write_with_imm E conn dst off mr 0 len RPMA_F_COMPLETION_ALWAYS imm 0 t = Some (0, t')"
    and "hd (trace t') = (Ibv_post_send qp wr, r)"
  shows "wr_imm_data wr = Some (htonl_bytes imm)"
  using assms
  by (auto simp: rpma_send_with_imm_def rpma_mr_send_def rpma_write_with_imm_def rpma_mr_write_def ext_def Let_def
      split: Option.bind_splits if_splits prod.splits)



end
