(* ===== verification/Flush_Messages.thy ===== *)
theory Flush_Messages
  imports Messages
begin

text \<open>
  The messages by which a client asks a server to make memory persistent, \<open>GPSPM_flush.pb-c.c\<close> of
  \<open>src/examples/09-flush-to-persistent-GPSPM\<close>, which was generated from \<open>GPSPM_flush.proto\<close>. The functions of libprotobuf-c are
  a parameter: given the descriptor of a message they turn the values of its fields into bytes and back. What the programs
  rely on is the locale \<open>protobuf_library\<close>: packing gives as many bytes as announced, a required field of eight bytes takes nine, and what was
  packed can be unpacked. \<open>sample_protobuf\<close> is the wire format for such messages.
  The structure that unpacking allocates is memory of libprotobuf-c and not part of the heap.
\<close>

datatype protobuf_label = PROTOBUF_C_LABEL_REQUIRED
datatype protobuf_type = PROTOBUF_C_TYPE_FIXED64

record protobuf_field =
  pf_name :: string
  pf_id :: nat
  pf_label :: protobuf_label
  pf_type :: protobuf_type

record protobuf_descriptor =
  pd_name :: string
  pd_fields :: "protobuf_field list"

record protobuf_c =
  message_get_packed_size :: "protobuf_descriptor \<Rightarrow> u64 list \<Rightarrow> u64"
  message_pack :: "protobuf_descriptor \<Rightarrow> u64 list \<Rightarrow> u8 list"
  message_unpack :: "protobuf_descriptor \<Rightarrow> u8 list \<Rightarrow> u64 list option"

definition required_fixed64 :: "string \<Rightarrow> nat \<Rightarrow> protobuf_field" where
  "required_fixed64 name i =
     \<lparr>pf_name = name, pf_id = i, pf_label = PROTOBUF_C_LABEL_REQUIRED, pf_type = PROTOBUF_C_TYPE_FIXED64\<rparr>"

definition gpspm_flush_request__descriptor :: protobuf_descriptor where
  "gpspm_flush_request__descriptor = \<lparr>pd_name = ''GPSPM_flush_request'',
     pd_fields = [required_fixed64 ''offset'' 1, required_fixed64 ''length'' 2, required_fixed64 ''op_context'' 3]\<rparr>"

definition gpspm_flush_response__descriptor :: protobuf_descriptor where
  "gpspm_flush_response__descriptor = \<lparr>pd_name = ''GPSPM_flush_response'', pd_fields = [required_fixed64 ''op_context'' 1]\<rparr>"

record GPSPMFlushRequest =
  freq_offset :: u64
  freq_length :: u64
  freq_op_context :: u64

record GPSPMFlushResponse =
  fresp_op_context :: u64

definition gpspm_flush_request__get_packed_size :: "protobuf_c \<Rightarrow> GPSPMFlushRequest \<Rightarrow> u64" where
  "gpspm_flush_request__get_packed_size pb m =
     message_get_packed_size pb gpspm_flush_request__descriptor [freq_offset m, freq_length m, freq_op_context m]"

definition gpspm_flush_request__pack :: "protobuf_c \<Rightarrow> GPSPMFlushRequest \<Rightarrow> u8 list" where
  "gpspm_flush_request__pack pb m =
     message_pack pb gpspm_flush_request__descriptor [freq_offset m, freq_length m, freq_op_context m]"

text \<open>The fields of a structure are those of its descriptor.\<close>

definition gpspm_flush_request__unpack :: "protobuf_c \<Rightarrow> u8 list \<Rightarrow> GPSPMFlushRequest option" where
  "gpspm_flush_request__unpack pb data =
     (case message_unpack pb gpspm_flush_request__descriptor data of
        Some [off, len, ctx] \<Rightarrow> Some \<lparr>freq_offset = off, freq_length = len, freq_op_context = ctx\<rparr>
      | _ \<Rightarrow> None)"

definition gpspm_flush_response__get_packed_size :: "protobuf_c \<Rightarrow> GPSPMFlushResponse \<Rightarrow> u64" where
  "gpspm_flush_response__get_packed_size pb m =
     message_get_packed_size pb gpspm_flush_response__descriptor [fresp_op_context m]"

definition gpspm_flush_response__pack :: "protobuf_c \<Rightarrow> GPSPMFlushResponse \<Rightarrow> u8 list" where
  "gpspm_flush_response__pack pb m = message_pack pb gpspm_flush_response__descriptor [fresp_op_context m]"

definition gpspm_flush_response__unpack :: "protobuf_c \<Rightarrow> u8 list \<Rightarrow> GPSPMFlushResponse option" where
  "gpspm_flush_response__unpack pb data =
     (case message_unpack pb gpspm_flush_response__descriptor data of
        Some [ctx] \<Rightarrow> Some \<lparr>fresp_op_context = ctx\<rparr>
      | _ \<Rightarrow> None)"

subsection \<open>What the programs rely on\<close>

locale protobuf_library =
  fixes pb :: protobuf_c
  assumes packed_length: "length (message_pack pb d vs) = unat (message_get_packed_size pb d vs)"
    and packed_size: "pd_fields d = map (\<lambda>(name, i). required_fixed64 name i) fs \<Longrightarrow> length vs = length fs \<Longrightarrow> length fs < 16 \<Longrightarrow>
      unat (message_get_packed_size pb d vs) = 9 * length vs"
    and unpack_pack: "pd_fields d = map (\<lambda>(name, i). required_fixed64 name i) fs \<Longrightarrow> length vs = length fs \<Longrightarrow> length fs < 16 \<Longrightarrow>
      distinct (map snd fs) \<Longrightarrow> \<forall>i \<in> set (map snd fs). 0 < i \<and> i < 16 \<Longrightarrow> message_unpack pb d (message_pack pb d vs) = Some vs"
begin

lemma request_roundtrip: "gpspm_flush_request__unpack pb (gpspm_flush_request__pack pb r) = Some r"
proof -
  let ?fs = "[(''offset'', 1), (''length'', 2), (''op_context'', 3)]"
  have "pd_fields gpspm_flush_request__descriptor = map (\<lambda>(name, i). required_fixed64 name i) ?fs"
    by (simp add: gpspm_flush_request__descriptor_def)
  from unpack_pack [OF this, of "[freq_offset r, freq_length r, freq_op_context r]"] show ?thesis
    by (simp add: gpspm_flush_request__unpack_def gpspm_flush_request__pack_def)
qed

lemma response_roundtrip: "gpspm_flush_response__unpack pb (gpspm_flush_response__pack pb r) = Some r"
proof -
  have "pd_fields gpspm_flush_response__descriptor = map (\<lambda>(name, i). required_fixed64 name i) [(''op_context'', 1)]"
    by (simp add: gpspm_flush_response__descriptor_def)
  from unpack_pack [OF this, of "[fresp_op_context r]"] show ?thesis
    by (simp add: gpspm_flush_response__unpack_def gpspm_flush_response__pack_def)
qed

lemma request_size:
  "length (gpspm_flush_request__pack pb r) = unat (gpspm_flush_request__get_packed_size pb r)"
  "unat (gpspm_flush_request__get_packed_size pb r) = 27"
proof -
  let ?fs = "[(''offset'', 1), (''length'', 2), (''op_context'', 3)]"
  have "pd_fields gpspm_flush_request__descriptor = map (\<lambda>(name, i). required_fixed64 name i) ?fs"
    by (simp add: gpspm_flush_request__descriptor_def)
  from packed_size [OF this, of "[freq_offset r, freq_length r, freq_op_context r]"]
  show "unat (gpspm_flush_request__get_packed_size pb r) = 27" by (simp add: gpspm_flush_request__get_packed_size_def)
qed (simp add: gpspm_flush_request__pack_def gpspm_flush_request__get_packed_size_def packed_length)

lemma response_size:
  "length (gpspm_flush_response__pack pb r) = unat (gpspm_flush_response__get_packed_size pb r)"
  "unat (gpspm_flush_response__get_packed_size pb r) = 9"
proof -
  have "pd_fields gpspm_flush_response__descriptor = map (\<lambda>(name, i). required_fixed64 name i) [(''op_context'', 1)]"
    by (simp add: gpspm_flush_response__descriptor_def)
  from packed_size [OF this, of "[fresp_op_context r]"]
  show "unat (gpspm_flush_response__get_packed_size pb r) = 9" by (simp add: gpspm_flush_response__get_packed_size_def)
qed (simp add: gpspm_flush_response__pack_def gpspm_flush_response__get_packed_size_def packed_length)

end

subsection \<open>The wire format\<close>

text \<open>A field of eight bytes: the number of the field and the wire type 1 in one byte, as long as the number is below 16, then
  the value with the lowest byte first. The fields of a message are written in the order of the descriptor.\<close>

definition wire_field :: "nat \<Rightarrow> u64 \<Rightarrow> u8 list" where
  "wire_field i v = of_nat (8 * i + 1) # le_bytes 8 v"

fun wire_read :: "nat list \<Rightarrow> u8 list \<Rightarrow> u64 list option" where
  "wire_read [] data = (if data = [] then Some [] else None)"
| "wire_read (i # ids) data =
     (if 9 \<le> length data \<and> hd data = of_nat (8 * i + 1)
      then map_option ((#) (le_val (take 8 (tl data)))) (wire_read ids (drop 9 data)) else None)"

definition wire_pack :: "protobuf_descriptor \<Rightarrow> u64 list \<Rightarrow> u8 list" where
  "wire_pack d vs = (if length vs < 16 then concat (map2 wire_field (map pf_id (pd_fields d)) vs) else [])"

definition sample_protobuf :: protobuf_c where
  "sample_protobuf = \<lparr>message_get_packed_size = \<lambda>d vs. of_nat (length (wire_pack d vs)), message_pack = wire_pack,
     message_unpack = \<lambda>d. wire_read (map pf_id (pd_fields d))\<rparr>"

lemma length_wire_field [simp]: "length (wire_field i v) = 9"
  by (simp add: wire_field_def)

lemma length_wire: "length (concat (map2 wire_field ids vs)) = 9 * min (length ids) (length vs)"
proof (induction ids arbitrary: vs)
  case (Cons i ids)
  then show ?case by (cases vs) simp_all
qed simp

lemma wire_roundtrip: "length vs = length ids \<Longrightarrow> wire_read ids (concat (map2 wire_field ids vs)) = Some vs"
proof (induction ids arbitrary: vs)
  case (Cons i ids)
  then obtain v ws where vs: "vs = v # ws" "length ws = length ids" by (cases vs) auto
  with Cons.IH [of ws] show ?case by (simp add: wire_field_def le_val_le_bytes_full)
qed simp

lemma wire_read_length: "wire_read ids data = Some vs \<Longrightarrow> length data = 9 * length ids"
proof (induction ids arbitrary: data vs)
  case (Cons i ids)
  then show ?case by (fastforce split: if_splits)
qed (simp split: if_splits)

lemma sample_request_length:
  assumes "gpspm_flush_request__unpack sample_protobuf data = Some r"
  shows "length data = 27"
proof -
  from assms obtain vs where "wire_read (map pf_id (pd_fields gpspm_flush_request__descriptor)) data = Some vs"
    by (auto simp: gpspm_flush_request__unpack_def sample_protobuf_def split: option.splits)
  from wire_read_length [OF this] show ?thesis by (simp add: gpspm_flush_request__descriptor_def)
qed

interpretation wire: protobuf_library sample_protobuf
proof
  fix d :: protobuf_descriptor and vs :: "u64 list"
  have "length (wire_pack d vs) < 2 ^ 64" by (auto simp: wire_pack_def length_wire min_def)
  then show "length (message_pack sample_protobuf d vs) = unat (message_get_packed_size sample_protobuf d vs)"
    by (simp add: sample_protobuf_def unat_of_nat_small)
  fix fs :: "(string \<times> nat) list"
  assume f: "pd_fields d = map (\<lambda>(name, i). required_fixed64 name i) fs" "length vs = length fs" "length fs < 16"
  then have p: "wire_pack d vs = concat (map2 wire_field (map pf_id (pd_fields d)) vs)" by (simp add: wire_pack_def)
  with f show "unat (message_get_packed_size sample_protobuf d vs) = 9 * length vs"
    by (simp add: sample_protobuf_def length_wire unat_of_nat_small del: of_nat_mult)
  from f p show "message_unpack sample_protobuf d (message_pack sample_protobuf d vs) = Some vs"
    by (simp add: sample_protobuf_def wire_roundtrip)
qed

end
