(* ===== verification/Gpspm.thy ===== *)
theory Gpspm
  imports Flush_Messages Persistent_Props
begin

text \<open>
  The example \<open>src/examples/09-flush-to-persistent-GPSPM\<close>: the client writes its greeting to the memory of the server
  and sends a message with the range it has written; the server makes the range persistent and answers. Receives complete on a queue
  of their own.
  \<^item> \<open>dma\<close> is what the other side has placed in the receive buffer, \<open>arrived\<close> the writes of the other side that have reached the memory of the server,
    both as functions of the calls so far. A write that precedes a message on a connection is there when the message is.
  \<^item> \<open>wc\<close> is the local variable completions are read to, and \<open>data\<close> the address of the local structure with the private data.
  \<^item> A persist of a range that is not in the mapped file is undefined behaviour, like a store.
\<close>

definition MSG_SIZE_MAX :: u64 where "MSG_SIZE_MAX = 512"
definition SEND_OFFSET :: u64 where "SEND_OFFSET = 0"
definition RECV_OFFSET :: u64 where "RECV_OFFSET = SEND_OFFSET + MSG_SIZE_MAX"
definition GPSPM_RCQ_SIZE :: u32 where "GPSPM_RCQ_SIZE = 1"
definition GPSPM_FLUSH_ID :: u64 where "GPSPM_FLUSH_ID = 0xF01D"

text \<open>Packing a message to the send buffer, which is part of a block.\<close>

definition buffer_store :: "ptr \<Rightarrow> nat \<Rightarrow> u8 list \<Rightarrow> st \<Rightarrow> (unit \<times> st) option" where
  "buffer_store p off bs s = do {
     old \<leftarrow> bytes_at p s;
     if off + length bs \<le> length old then store p (O_bytes (overwrite off bs old)) s else None
   }"

text \<open>Waiting for a completion on a queue and validating it.\<close>

definition gpspm_completed :: "env \<Rightarrow> ptr \<Rightarrow> int \<Rightarrow> ibv_wc \<Rightarrow> st \<Rightarrow> ((rc \<times> ibv_wc) \<times> st) option" where
  "gpspm_completed E cq opcode wc s = do {
     (ret, s) \<leftarrow> rpma_cq_wait E cq s;
     if ret \<noteq> 0 then Some ((ret, wc), s)
     else do {
       ((ret, wcs, _), s) \<leftarrow> rpma_cq_get_wc E cq 1 (Some [wc]) None s;
       let wc = (case the wcs of [] \<Rightarrow> wc | w # _ \<Rightarrow> w);
       if ret \<noteq> 0 then Some ((ret, wc), s)
       else if wc_status wc \<noteq> IBV_WC_SUCCESS then Some ((- 1, wc), s)
       else if wc_opcode wc \<noteq> opcode then Some ((- 1, wc), s)
       else Some ((0, wc), s)
     }
   }"

subsection \<open>The client\<close>

definition gpspm_client_err_free :: "env \<Rightarrow> rc \<Rightarrow> ptr \<Rightarrow> common_mem \<Rightarrow> pmem \<Rightarrow> st \<Rightarrow> ((rc \<times> pmem) \<times> st) option" where
  "gpspm_client_err_free E ret msg m pm s = do {
     (_, s) \<leftarrow> free msg s;
     (_, s) \<leftarrow> release_mem E m s;
     Some ((ret, pm), s)
   }"

definition gpspm_client_err_peer_delete ::
  "env \<Rightarrow> rc \<Rightarrow> ptr \<Rightarrow> ptr \<Rightarrow> common_mem \<Rightarrow> pmem \<Rightarrow> st \<Rightarrow> ((rc \<times> pmem) \<times> st) option" where
  "gpspm_client_err_peer_delete E ret peer msg m pm s = do {
     (_, s) \<leftarrow> rpma_peer_delete E (Some peer) s;
     gpspm_client_err_free E ret msg m pm s
   }"

definition gpspm_client_err_cfg_delete ::
  "env \<Rightarrow> rc \<Rightarrow> ptr \<Rightarrow> ptr \<Rightarrow> ptr \<Rightarrow> common_mem \<Rightarrow> pmem \<Rightarrow> st \<Rightarrow> ((rc \<times> pmem) \<times> st) option" where
  "gpspm_client_err_cfg_delete E ret cfg peer msg m pm s = do {
     (_, s) \<leftarrow> rpma_conn_cfg_delete (Some cfg) s;
     gpspm_client_err_peer_delete E ret peer msg m pm s
   }"

definition gpspm_client_err_conn_disconnect ::
  "env \<Rightarrow> rc \<Rightarrow> ptr \<Rightarrow> ptr \<Rightarrow> ptr \<Rightarrow> ptr \<Rightarrow> common_mem \<Rightarrow> pmem \<Rightarrow> st \<Rightarrow> ((rc \<times> pmem) \<times> st) option" where
  "gpspm_client_err_conn_disconnect E ret conn cfg peer msg m pm s = do {
     (_, s) \<leftarrow> common_disconnect_and_wait_for_conn_close E conn s;
     gpspm_client_err_cfg_delete E ret cfg peer msg m pm s
   }"

definition gpspm_client_err_mr_dereg ::
  "env \<Rightarrow> rc \<Rightarrow> ptr \<Rightarrow> ptr \<Rightarrow> ptr \<Rightarrow> ptr \<Rightarrow> ptr \<Rightarrow> ptr \<Rightarrow> common_mem \<Rightarrow> pmem \<Rightarrow> st \<Rightarrow> ((rc \<times> pmem) \<times> st) option" where
  "gpspm_client_err_mr_dereg E ret msg_mr src_mr conn cfg peer msg m pm s = do {
     (_, s) \<leftarrow> rpma_mr_dereg E (Some msg_mr) s;
     (_, s) \<leftarrow> rpma_mr_dereg E (Some src_mr) s;
     gpspm_client_err_conn_disconnect E ret conn cfg peer msg m pm s
   }"

definition gpspm_client_err_mr_remote_delete ::
  "env \<Rightarrow> rc \<Rightarrow> ptr \<Rightarrow> ptr \<Rightarrow> ptr \<Rightarrow> ptr \<Rightarrow> ptr \<Rightarrow> ptr \<Rightarrow> ptr \<Rightarrow> common_mem \<Rightarrow> pmem \<Rightarrow> st \<Rightarrow> ((rc \<times> pmem) \<times> st) option" where
  "gpspm_client_err_mr_remote_delete E ret dst_mr msg_mr src_mr conn cfg peer msg m pm s = do {
     (_, s) \<leftarrow> rpma_mr_remote_delete (Some dst_mr) s;
     gpspm_client_err_mr_dereg E ret msg_mr src_mr conn cfg peer msg m pm s
   }"

text \<open>Posting the buffer for the response, and the request. \<open>Some ret\<close> is a jump to \<open>err_mr_remote_delete\<close>, \<open>None\<close> goes on; a request that is too long
  leaves \<open>ret\<close> at 0.\<close>

definition gpspm_request :: "env \<Rightarrow> protobuf_c \<Rightarrow> ptr \<Rightarrow> u64 \<Rightarrow> ptr \<Rightarrow> ptr \<Rightarrow> st \<Rightarrow> (rc option \<times> st) option" where
  "gpspm_request E pb conn dst_offset msg_mr msg s = do {
     (ret, s) \<leftarrow> rpma_recv E conn msg_mr RECV_OFFSET MSG_SIZE_MAX 0 s;
     if ret \<noteq> 0 then Some (Some ret, s)
     else do {
       let flush_req = \<lparr>freq_offset = dst_offset, freq_length = of_nat KILOBYTE, freq_op_context = GPSPM_FLUSH_ID\<rparr>;
       let flush_req_size = gpspm_flush_request__get_packed_size pb flush_req;
       if MSG_SIZE_MAX < flush_req_size then Some (Some 0, s)
       else do {
         (_, s) \<leftarrow> buffer_store msg (unat SEND_OFFSET) (gpspm_flush_request__pack pb flush_req) s;
         (ret, s) \<leftarrow> rpma_send E conn msg_mr SEND_OFFSET flush_req_size RPMA_F_COMPLETION_ALWAYS 0 s;
         if ret \<noteq> 0 then Some (Some ret, s) else Some (None, s)
       }
     }
   }"

text \<open>The completions of the send and of the receive, on their queues.\<close>

definition gpspm_await :: "env \<Rightarrow> ptr \<Rightarrow> ibv_wc \<Rightarrow> st \<Rightarrow> ((rc \<times> ibv_wc) \<times> st) option" where
  "gpspm_await E conn wc s = do {
     ((ret, cq), s) \<leftarrow> rpma_conn_get_cq conn (Some NULL) s;
     if ret \<noteq> 0 then Some ((ret, wc), s)
     else do {
       ((ret, wc), s) \<leftarrow> gpspm_completed E (the cq) IBV_WC_SEND wc s;
       if ret \<noteq> 0 then Some ((ret, wc), s)
       else do {
         ((ret, rcq), s) \<leftarrow> rpma_conn_get_rcq conn (Some NULL) s;
         if ret \<noteq> 0 then Some ((ret, wc), s)
         else gpspm_completed E (the rcq) IBV_WC_RECV wc s
       }
     }
   }"

text \<open>A response with the identifier of the request.\<close>

definition gpspm_confirmed :: "protobuf_c \<Rightarrow> u8 list \<Rightarrow> bool" where
  "gpspm_confirmed pb data =
     (case gpspm_flush_response__unpack pb data of
        None \<Rightarrow> False
      | Some flush_resp \<Rightarrow> fresp_op_context flush_resp = GPSPM_FLUSH_ID)"

text \<open>The code after the receive, up to the label: whatever the response is, \<open>ret\<close> stays 0.\<close>

definition gpspm_confirm ::
  "protobuf_c \<Rightarrow> dma \<Rightarrow> ibv_wc \<Rightarrow> common_mem \<Rightarrow> pmem \<Rightarrow> st \<Rightarrow> ((rc \<times> pmem) \<times> st) option" where
  "gpspm_confirm pb dma wc m pm s =
     (if \<not> gpspm_confirmed pb (take (unat (wc_byte_len wc)) (dma (trace s))) then Some ((0, pm), s)
      else do {
        (pm, s) \<leftarrow> translate_mem m pm s;
        Some ((0, pm), s)
      })"

definition gpspm_flush_greeting ::
  "env \<Rightarrow> protobuf_c \<Rightarrow> dma \<Rightarrow> ptr \<Rightarrow> ptr \<Rightarrow> u16 \<Rightarrow> ptr \<Rightarrow> ptr \<Rightarrow> ptr \<Rightarrow> common_mem \<Rightarrow> pmem \<Rightarrow> ibv_wc \<Rightarrow> st
    \<Rightarrow> ((rc \<times> pmem) \<times> st) option" where
  "gpspm_flush_greeting E pb dma conn dst_mr dst_offset msg_mr src_mr msg m pm wc s = do {
     ((ret, dst_size), s) \<leftarrow> rpma_mr_remote_get_size dst_mr (Some 0) s;
     if ret \<noteq> 0 then Some ((ret, pm), s)
     else if the dst_size < of_nat KILOBYTE then Some ((ret, pm), s)
     else do {
       (ret, s) \<leftarrow> rpma_write E conn dst_mr (ucast dst_offset) src_mr (cm_data_offset m + of_nat HELLO_STR_OFFSET)
         (of_nat KILOBYTE) RPMA_F_COMPLETION_ON_ERROR 0 s;
       if ret \<noteq> 0 then Some ((ret, pm), s)
       else do {
         (r, s) \<leftarrow> gpspm_request E pb conn (ucast dst_offset) msg_mr msg s;
         (case r of
            Some ret \<Rightarrow> Some ((ret, pm), s)
          | None \<Rightarrow> do {
              ((ret, wc), s) \<leftarrow> gpspm_await E conn wc s;
              if ret \<noteq> 0 then Some ((ret, pm), s)
              else gpspm_confirm pb dma wc m pm s
            })
       }
     }
   }"

definition gpspm_client_registered ::
  "env \<Rightarrow> protobuf_c \<Rightarrow> dma \<Rightarrow> ptr \<Rightarrow> ptr \<Rightarrow> ptr \<Rightarrow> ptr \<Rightarrow> ptr \<Rightarrow> ptr \<Rightarrow> common_mem \<Rightarrow> pmem \<Rightarrow> ibv_wc \<Rightarrow> st
    \<Rightarrow> ((rc \<times> pmem) \<times> st) option" where
  "gpspm_client_registered E pb dma msg_mr src_mr conn cfg peer msg m pm wc s = do {
     ((ret, pdata), s) \<leftarrow> rpma_conn_get_private_data conn (Some no_pdata) s;
     if ret \<noteq> 0 \<or> pdata_len (the pdata) < SIZEOF_COMMON_DATA
     then gpspm_client_err_mr_dereg E ret msg_mr src_mr conn cfg peer msg m pm s
     else do {
       ((ret, dst_mr, dst_offset), s) \<leftarrow> remote_from_data E (the pdata) s;
       if ret \<noteq> 0 then gpspm_client_err_mr_dereg E ret msg_mr src_mr conn cfg peer msg m pm s
       else do {
         ((ret, pm), s) \<leftarrow> gpspm_flush_greeting E pb dma conn dst_mr dst_offset msg_mr src_mr msg m pm wc s;
         gpspm_client_err_mr_remote_delete E ret dst_mr msg_mr src_mr conn cfg peer msg m pm s
       }
     }
   }"

definition gpspm_client_src_mr ::
  "env \<Rightarrow> protobuf_c \<Rightarrow> dma \<Rightarrow> ptr \<Rightarrow> ptr \<Rightarrow> ptr \<Rightarrow> ptr \<Rightarrow> ptr \<Rightarrow> common_mem \<Rightarrow> pmem \<Rightarrow> ibv_wc \<Rightarrow> st
    \<Rightarrow> ((rc \<times> pmem) \<times> st) option" where
  "gpspm_client_src_mr E pb dma src_mr conn cfg peer msg m pm wc s = do {
     ((ret, msg_mr), s) \<leftarrow> rpma_mr_reg E peer (of_nat msg) (of_nat KILOBYTE) (RPMA_MR_USAGE_SEND OR RPMA_MR_USAGE_RECV) (Some NULL) s;
     if ret \<noteq> 0 then do {
       (_, s) \<leftarrow> rpma_mr_dereg E (Some src_mr) s;
       gpspm_client_err_conn_disconnect E ret conn cfg peer msg m pm s
     } else gpspm_client_registered E pb dma (the msg_mr) src_mr conn cfg peer msg m pm wc s
   }"

definition gpspm_client_configured ::
  "env \<Rightarrow> protobuf_c \<Rightarrow> dma \<Rightarrow> string \<Rightarrow> string \<Rightarrow> ptr \<Rightarrow> ptr \<Rightarrow> ptr \<Rightarrow> common_mem \<Rightarrow> pmem \<Rightarrow> ibv_wc \<Rightarrow> st
    \<Rightarrow> ((rc \<times> pmem) \<times> st) option" where
  "gpspm_client_configured E pb dma addr port cfg peer msg m pm wc s = do {
     ((ret, conn), s) \<leftarrow> client_connect E peer addr port cfg None NULL s;
     if ret \<noteq> 0 then gpspm_client_err_cfg_delete E ret cfg peer msg m pm s
     else do {
       ((ret, src_mr), s) \<leftarrow> rpma_mr_reg E peer (of_nat (cm_mr_ptr m)) (cm_mr_size m) RPMA_MR_USAGE_WRITE_SRC (Some NULL) s;
       if ret \<noteq> 0 then gpspm_client_err_conn_disconnect E ret conn cfg peer msg m pm s
       else gpspm_client_src_mr E pb dma (the src_mr) conn cfg peer msg m pm wc s
     }
   }"

definition gpspm_client_peer ::
  "env \<Rightarrow> protobuf_c \<Rightarrow> dma \<Rightarrow> string \<Rightarrow> string \<Rightarrow> ptr \<Rightarrow> ptr \<Rightarrow> common_mem \<Rightarrow> pmem \<Rightarrow> ibv_wc \<Rightarrow> st
    \<Rightarrow> ((rc \<times> pmem) \<times> st) option" where
  "gpspm_client_peer E pb dma addr port peer msg m pm wc s = do {
     ((ret, cfg), s) \<leftarrow> rpma_conn_cfg_new E (Some NULL) s;
     if ret \<noteq> 0 then gpspm_client_err_peer_delete E ret peer msg m pm s
     else do {
       (ret, s) \<leftarrow> rpma_conn_cfg_set_rcq_size (the cfg) GPSPM_RCQ_SIZE s;
       if ret \<noteq> 0 then gpspm_client_err_cfg_delete E ret (the cfg) peer msg m pm s
       else gpspm_client_configured E pb dma addr port (the cfg) peer msg m pm wc s
     }
   }"

definition gpspm_client_main ::
  "env \<Rightarrow> protobuf_c \<Rightarrow> dma \<Rightarrow> string \<Rightarrow> string \<Rightarrow> string option \<Rightarrow> pmem \<Rightarrow> ibv_wc \<Rightarrow> st \<Rightarrow> ((rc \<times> pmem) \<times> st) option" where
  "gpspm_client_main E pb dma addr port path pm wc s = do {
     (r, s) \<leftarrow> client_mem E path pm s;
     (case r of
        Inl ret \<Rightarrow> Some ((ret, pm), s)
      | Inr (m, pm) \<Rightarrow> do {
          (msg, s) \<leftarrow> malloc_aligned E KILOBYTE s;
          if msg = NULL then gpspm_client_err_free E (- 1) msg m pm s
          else do {
            ((ret, peer), s) \<leftarrow> common_peer_via_address E addr RPMA_UTIL_IBV_CONTEXT_REMOTE NULL s;
            if ret \<noteq> 0 then gpspm_client_err_free E ret msg m pm s
            else gpspm_client_peer E pb dma addr port peer msg m pm wc s
          }
        })
   }"

subsection \<open>The server\<close>

definition gpspm_server_err_free :: "env \<Rightarrow> rc \<Rightarrow> ptr \<Rightarrow> common_mem \<Rightarrow> pmem \<Rightarrow> st \<Rightarrow> ((rc \<times> pmem) \<times> st) option" where
  "gpspm_server_err_free E ret msg m pm s = do {
     (_, s) \<leftarrow> free msg s;
     (_, s) \<leftarrow> release_mem E m s;
     Some ((ret, pm), s)
   }"

definition gpspm_server_err_peer_delete ::
  "env \<Rightarrow> rc \<Rightarrow> ptr \<Rightarrow> ptr \<Rightarrow> common_mem \<Rightarrow> pmem \<Rightarrow> st \<Rightarrow> ((rc \<times> pmem) \<times> st) option" where
  "gpspm_server_err_peer_delete E ret peer msg m pm s = do {
     (_, s) \<leftarrow> rpma_peer_delete E (Some peer) s;
     gpspm_server_err_free E ret msg m pm s
   }"

definition gpspm_server_err_ep_shutdown ::
  "env \<Rightarrow> rc \<Rightarrow> ptr \<Rightarrow> ptr \<Rightarrow> ptr \<Rightarrow> common_mem \<Rightarrow> pmem \<Rightarrow> st \<Rightarrow> ((rc \<times> pmem) \<times> st) option" where
  "gpspm_server_err_ep_shutdown E ret ep peer msg m pm s = do {
     (_, s) \<leftarrow> rpma_ep_shutdown E (Some ep) s;
     gpspm_server_err_peer_delete E ret peer msg m pm s
   }"

text \<open>The messaging memory need not be registered yet: \<open>msg_mr\<close> may be \<open>NULL\<close>.\<close>

definition gpspm_server_err_mr_dereg ::
  "env \<Rightarrow> rc \<Rightarrow> ptr \<Rightarrow> ptr \<Rightarrow> ptr \<Rightarrow> ptr \<Rightarrow> ptr \<Rightarrow> common_mem \<Rightarrow> pmem \<Rightarrow> st \<Rightarrow> ((rc \<times> pmem) \<times> st) option" where
  "gpspm_server_err_mr_dereg E ret msg_mr mr ep peer msg m pm s = do {
     (_, s) \<leftarrow> rpma_mr_dereg E (Some msg_mr) s;
     (_, s) \<leftarrow> rpma_mr_dereg E (Some mr) s;
     gpspm_server_err_ep_shutdown E ret ep peer msg m pm s
   }"

definition gpspm_server_err_cfg_delete ::
  "env \<Rightarrow> rc \<Rightarrow> ptr \<Rightarrow> ptr \<Rightarrow> ptr \<Rightarrow> ptr \<Rightarrow> ptr \<Rightarrow> ptr \<Rightarrow> common_mem \<Rightarrow> pmem \<Rightarrow> st \<Rightarrow> ((rc \<times> pmem) \<times> st) option" where
  "gpspm_server_err_cfg_delete E ret cfg msg_mr mr ep peer msg m pm s = do {
     (_, s) \<leftarrow> rpma_conn_cfg_delete (Some cfg) s;
     gpspm_server_err_mr_dereg E ret msg_mr mr ep peer msg m pm s
   }"

definition gpspm_server_err_req_delete ::
  "env \<Rightarrow> rc \<Rightarrow> ptr option \<Rightarrow> ptr \<Rightarrow> ptr \<Rightarrow> ptr \<Rightarrow> ptr \<Rightarrow> ptr \<Rightarrow> ptr \<Rightarrow> common_mem \<Rightarrow> pmem \<Rightarrow> st \<Rightarrow> ((rc \<times> pmem) \<times> st) option" where
  "gpspm_server_err_req_delete E ret req cfg msg_mr mr ep peer msg m pm s = do {
     (_, s) \<leftarrow> rpma_conn_req_delete E req s;
     gpspm_server_err_cfg_delete E ret cfg msg_mr mr ep peer msg m pm s
   }"

definition gpspm_server_err_conn_delete ::
  "env \<Rightarrow> rc \<Rightarrow> ptr \<Rightarrow> ptr option \<Rightarrow> ptr \<Rightarrow> ptr \<Rightarrow> ptr \<Rightarrow> ptr \<Rightarrow> ptr \<Rightarrow> ptr \<Rightarrow> common_mem \<Rightarrow> pmem \<Rightarrow> st
    \<Rightarrow> ((rc \<times> pmem) \<times> st) option" where
  "gpspm_server_err_conn_delete E ret conn req cfg msg_mr mr ep peer msg m pm s = do {
     (_, s) \<leftarrow> rpma_conn_delete E (Some conn) s;
     gpspm_server_err_req_delete E ret req cfg msg_mr mr ep peer msg m pm s
   }"

text \<open>Answering a request: the range is made persistent, then the response is packed. The result is the size of the
  response that is to be sent, or \<open>None\<close> for a jump to \<open>err_conn_delete\<close> with \<open>ret\<close> at 0.\<close>

definition gpspm_answer ::
  "protobuf_c \<Rightarrow> ptr \<Rightarrow> common_mem \<Rightarrow> pmem \<Rightarrow> u8 list \<Rightarrow> st \<Rightarrow> ((pmem \<times> u64 option) \<times> st) option" where
  "gpspm_answer pb msg m pm data s =
     (case gpspm_flush_request__unpack pb data of
        None \<Rightarrow> Some ((pm, None), s)
      | Some flush_req \<Rightarrow>
          if cm_is_pmem m \<noteq> 0 \<and> \<not> unat (freq_offset flush_req) + unat (freq_length flush_req) \<le> length (pm_image pm) then None
          else do {
            let pm = mem_persist m (unat (freq_offset flush_req)) (unat (freq_length flush_req)) pm;
            let flush_resp = \<lparr>fresp_op_context = freq_op_context flush_req\<rparr>;
            let flush_resp_size = gpspm_flush_response__get_packed_size pb flush_resp;
            if MSG_SIZE_MAX < flush_resp_size then Some ((pm, None), s)
            else do {
              (_, s) \<leftarrow> buffer_store msg (unat SEND_OFFSET) (gpspm_flush_response__pack pb flush_resp) s;
              Some ((pm, Some flush_resp_size), s)
            }
          })"

text \<open>The writes of the other side are stores to the mapped file.\<close>

definition remote_stores :: "(nat \<times> u8 list) list \<Rightarrow> pmem \<Rightarrow> pmem" where
  "remote_stores ws pm = pm\<lparr>pm_ops := pm_ops pm @ map (\<lambda>(off, bs). Pm_store off bs) ws\<rparr>"

type_synonym arrivals = "event list \<Rightarrow> (nat \<times> u8 list) list"

text \<open>Serving one request, from the moment the connection is established: \<open>Some ret\<close> is a jump to \<open>err_conn_delete\<close>.\<close>

definition gpspm_serve ::
  "env \<Rightarrow> protobuf_c \<Rightarrow> dma \<Rightarrow> arrivals \<Rightarrow> ptr \<Rightarrow> ptr \<Rightarrow> ptr \<Rightarrow> common_mem \<Rightarrow> pmem \<Rightarrow> ibv_wc \<Rightarrow> st
    \<Rightarrow> ((rc option \<times> pmem) \<times> st) option" where
  "gpspm_serve E pb dma arrived conn msg_mr msg m pm wc s = do {
     ((ret, rcq), s) \<leftarrow> rpma_conn_get_rcq conn (Some NULL) s;
     if ret \<noteq> 0 then Some ((Some ret, pm), s)
     else do {
       ((ret, wc), s) \<leftarrow> gpspm_completed E (the rcq) IBV_WC_RECV wc s;
       if ret \<noteq> 0 then Some ((Some ret, pm), s)
       else do {
         let pm = remote_stores (arrived (trace s)) pm;
         ((pm, flush_resp_size), s) \<leftarrow> gpspm_answer pb msg m pm (take (unat (wc_byte_len wc)) (dma (trace s))) s;
         (case flush_resp_size of
            None \<Rightarrow> Some ((Some 0, pm), s)
          | Some flush_resp_size \<Rightarrow> do {
              (ret, s) \<leftarrow> rpma_send E conn msg_mr SEND_OFFSET flush_resp_size RPMA_F_COMPLETION_ALWAYS 0 s;
              if ret \<noteq> 0 then Some ((Some ret, pm), s)
              else do {
                ((ret, cq), s) \<leftarrow> rpma_conn_get_cq conn (Some NULL) s;
                if ret \<noteq> 0 then Some ((Some ret, pm), s)
                else do {
                  ((ret, wc), s) \<leftarrow> gpspm_completed E (the cq) IBV_WC_SEND wc s;
                  if ret \<noteq> 0 then Some ((Some ret, pm), s) else Some ((None, pm), s)
                }
              }
            })
       }
     }
   }"

definition gpspm_server_connected ::
  "env \<Rightarrow> protobuf_c \<Rightarrow> dma \<Rightarrow> arrivals \<Rightarrow> ptr \<Rightarrow> ptr option \<Rightarrow> ptr \<Rightarrow> ptr \<Rightarrow> ptr \<Rightarrow> ptr \<Rightarrow> ptr \<Rightarrow> ptr \<Rightarrow> common_mem \<Rightarrow> pmem \<Rightarrow> ibv_wc \<Rightarrow> st
    \<Rightarrow> ((rc \<times> pmem) \<times> st) option" where
  "gpspm_server_connected E pb dma arrived conn req cfg msg_mr mr ep peer msg m pm wc s = do {
     ((ret, conn_event), s) \<leftarrow> rpma_conn_next_event E conn (Some RPMA_CONN_UNDEFINED) s;
     let ret = (if ret = 0 \<and> the conn_event \<noteq> RPMA_CONN_ESTABLISHED then - 1 else ret);
     if ret \<noteq> 0 then gpspm_server_err_conn_delete E ret conn req cfg msg_mr mr ep peer msg m pm s
     else do {
       ((r, pm), s) \<leftarrow> gpspm_serve E pb dma arrived conn msg_mr msg m pm wc s;
       (case r of
          Some ret \<Rightarrow> gpspm_server_err_conn_delete E ret conn req cfg msg_mr mr ep peer msg m pm s
        | None \<Rightarrow> do {
            ((ret, conn), s) \<leftarrow> common_wait_for_conn_close_and_disconnect E conn s;
            gpspm_server_err_conn_delete E ret conn req cfg msg_mr mr ep peer msg m pm s
          })
     }
   }"

definition gpspm_server_configured ::
  "env \<Rightarrow> protobuf_c \<Rightarrow> dma \<Rightarrow> arrivals \<Rightarrow> ptr \<Rightarrow> ptr \<Rightarrow> ptr \<Rightarrow> ptr \<Rightarrow> ptr \<Rightarrow> ptr \<Rightarrow> ptr \<Rightarrow> common_mem \<Rightarrow> pmem \<Rightarrow> ibv_wc \<Rightarrow> st
    \<Rightarrow> ((rc \<times> pmem) \<times> st) option" where
  "gpspm_server_configured E pb dma arrived data cfg msg_mr mr ep peer msg m pm wc s = do {
     let pdata = \<lparr>pdata_ptr = data, pdata_len = SIZEOF_COMMON_DATA\<rparr>;
     ((ret, req), s) \<leftarrow> rpma_ep_next_conn_req E ep cfg (Some NULL) s;
     if ret \<noteq> 0 then gpspm_server_err_req_delete E ret req cfg msg_mr mr ep peer msg m pm s
     else do {
       (ret, s) \<leftarrow> rpma_conn_req_recv E (the req) msg_mr RECV_OFFSET MSG_SIZE_MAX 0 s;
       if ret \<noteq> 0 then gpspm_server_err_req_delete E ret req cfg msg_mr mr ep peer msg m pm s
       else do {
         ((ret, req, conn), s) \<leftarrow> rpma_conn_req_connect E req (Some pdata) (Some NULL) s;
         if ret \<noteq> 0 then do {
           ((_, req), s) \<leftarrow> rpma_conn_req_delete E req s;
           gpspm_server_err_req_delete E ret req cfg msg_mr mr ep peer msg m pm s
         } else gpspm_server_connected E pb dma arrived (the conn) req cfg msg_mr mr ep peer msg m pm wc s
       }
     }
   }"

definition gpspm_server_registered ::
  "env \<Rightarrow> protobuf_c \<Rightarrow> dma \<Rightarrow> arrivals \<Rightarrow> ptr \<Rightarrow> ptr \<Rightarrow> ptr \<Rightarrow> ptr \<Rightarrow> ptr \<Rightarrow> ptr \<Rightarrow> common_mem \<Rightarrow> pmem \<Rightarrow> ibv_wc \<Rightarrow> st
    \<Rightarrow> ((rc \<times> pmem) \<times> st) option" where
  "gpspm_server_registered E pb dma arrived data msg_mr mr ep peer msg m pm wc s = do {
     ((ret, _), s) \<leftarrow> common_data_of mr (ucast (cm_data_offset m)) s;
     if ret \<noteq> 0 then gpspm_server_err_mr_dereg E ret msg_mr mr ep peer msg m pm s
     else do {
       ((ret, cfg), s) \<leftarrow> rpma_conn_cfg_new E (Some NULL) s;
       if ret \<noteq> 0 then gpspm_server_err_mr_dereg E ret msg_mr mr ep peer msg m pm s
       else do {
         (ret, s) \<leftarrow> rpma_conn_cfg_set_rcq_size (the cfg) GPSPM_RCQ_SIZE s;
         if ret \<noteq> 0 then gpspm_server_err_cfg_delete E ret (the cfg) msg_mr mr ep peer msg m pm s
         else gpspm_server_configured E pb dma arrived data (the cfg) msg_mr mr ep peer msg m pm wc s
       }
     }
   }"

definition gpspm_server_mr ::
  "env \<Rightarrow> protobuf_c \<Rightarrow> dma \<Rightarrow> arrivals \<Rightarrow> string option \<Rightarrow> ptr \<Rightarrow> ptr \<Rightarrow> ptr \<Rightarrow> ptr \<Rightarrow> ptr \<Rightarrow> common_mem \<Rightarrow> pmem \<Rightarrow> ibv_wc \<Rightarrow> st
    \<Rightarrow> ((rc \<times> pmem) \<times> st) option" where
  "gpspm_server_mr E pb dma arrived path data mr ep peer msg m pm wc s = do {
     (ret, s) \<leftarrow> advise_mem E path m mr s;
     if ret \<noteq> 0 then gpspm_server_err_mr_dereg E ret NULL mr ep peer msg m pm s
     else do {
       ((ret, msg_mr), s) \<leftarrow> rpma_mr_reg E peer (of_nat msg) (of_nat KILOBYTE)
         (RPMA_MR_USAGE_SEND OR RPMA_MR_USAGE_RECV OR RPMA_MR_USAGE_FLUSH_TYPE_VISIBILITY) (Some NULL) s;
       if ret \<noteq> 0 then do {
         (_, s) \<leftarrow> rpma_mr_dereg E (Some mr) s;
         gpspm_server_err_ep_shutdown E ret ep peer msg m pm s
       } else gpspm_server_registered E pb dma arrived data (the msg_mr) mr ep peer msg m pm wc s
     }
   }"

definition gpspm_server_buffer ::
  "env \<Rightarrow> protobuf_c \<Rightarrow> dma \<Rightarrow> arrivals \<Rightarrow> string \<Rightarrow> string \<Rightarrow> string option \<Rightarrow> ptr \<Rightarrow> ptr \<Rightarrow> common_mem \<Rightarrow> pmem \<Rightarrow> ibv_wc \<Rightarrow> st
    \<Rightarrow> ((rc \<times> pmem) \<times> st) option" where
  "gpspm_server_buffer E pb dma arrived addr port path data msg m pm wc s = do {
     ((ret, peer), s) \<leftarrow> common_peer_via_address E addr RPMA_UTIL_IBV_CONTEXT_LOCAL NULL s;
     if ret \<noteq> 0 then gpspm_server_err_free E ret msg m pm s
     else do {
       ((ret, ep), s) \<leftarrow> rpma_ep_listen E peer (Some addr) (Some port) (Some NULL) s;
       if ret \<noteq> 0 then gpspm_server_err_peer_delete E ret peer msg m pm s
       else do {
         ((ret, mr), s) \<leftarrow> rpma_mr_reg E peer (of_nat (cm_mr_ptr m)) (cm_mr_size m)
           (RPMA_MR_USAGE_WRITE_DST OR
            (if cm_is_pmem m \<noteq> 0 then RPMA_MR_USAGE_FLUSH_TYPE_PERSISTENT else RPMA_MR_USAGE_FLUSH_TYPE_VISIBILITY)) (Some NULL) s;
         if ret \<noteq> 0 then gpspm_server_err_ep_shutdown E ret (the ep) peer msg m pm s
         else gpspm_server_mr E pb dma arrived path data (the mr) (the ep) peer msg m pm wc s
       }
     }
   }"

definition gpspm_server_main ::
  "env \<Rightarrow> protobuf_c \<Rightarrow> dma \<Rightarrow> arrivals \<Rightarrow> string \<Rightarrow> string \<Rightarrow> string option \<Rightarrow> ptr \<Rightarrow> pmem \<Rightarrow> ibv_wc \<Rightarrow> st
    \<Rightarrow> ((rc \<times> pmem) \<times> st) option" where
  "gpspm_server_main E pb dma arrived addr port path data pm wc s = do {
     (r, s) \<leftarrow> server_mem E path pm s;
     (case r of
        Inl ret \<Rightarrow> Some ((ret, pm), s)
      | Inr (m, pm) \<Rightarrow> do {
          (msg, s) \<leftarrow> malloc_aligned E KILOBYTE s;
          if msg = NULL then gpspm_server_err_free E (- 1) msg m pm s
          else gpspm_server_buffer E pb dma arrived addr port path data msg m pm wc s
        })
   }"

end
