(* ===== verification/Gpspm_Props.thy ===== *)
theory Gpspm_Props
  imports Gpspm
begin

text \<open>
  What the programs of \<open>Gpspm\<close> leave behind, and what a response of the server means.
  A buffer for messages is a region of known size, in the stack of scopes above the memory of the program.
\<close>

subsection \<open>The buffer for messages\<close>

abbreviation "msg_mem msg \<equiv> no_mem\<lparr>cm_mr_ptr := msg\<rparr>"

lemma wp_buffer_store:
  assumes "P s" and "sized P (msg_mem msg) n" and "off + length bs \<le> n" and Q: "\<And>s'. P s' \<Longrightarrow> Q () s'"
  shows "wp (buffer_store msg off bs s) Q"
proof -
  have "wp (mem_store (msg_mem msg) off bs \<lparr>pm_image = [], pm_ops = []\<rparr> s) (\<lambda>_. Q ())"
    by (rule wp_mem_store [OF assms(1,2,3)]) (simp_all add: no_mem_def Q)
  then show ?thesis by (cases "bytes_at msg s") (auto simp: mem_store_def buffer_store_def no_mem_def elim!: wp_mono split: if_splits)
qed

lemma wp_free_buffer:
  assumes "over (owns_region False n) E P msg s" and "stable E P" and "\<And>s'. P s' \<Longrightarrow> Q () s'"
  shows "wp (free msg s) Q"
proof -
  have "wp (free_block E msg s) (\<lambda>_ s'. Q () s')"
    using region_scope.wp_pop [OF assms(1,2), of "\<lambda>_ s'. Q () s'"] assms(3) by simp
  then show ?thesis by (simp add: free_block_def)
qed

lemma sized_msg: "sized (over (owns_region False n) E P msg) (msg_mem msg) n"
  using sized_top [of "msg_mem msg" n E P] by (simp add: no_mem_def)

lemmas all_sizes = sizes sized_msg region_scope.sized_over

subsection \<open>Completions\<close>

lemma wp_gpspm_completed:
  assumes "P s" and "stable E P" and "cq_at q s" and "\<And>r s'. P s' \<Longrightarrow> Q r s'"
  shows "wp (gpspm_completed E q opcode wc s) Q"
proof -
  have s: "with_cq q P s" using assms(1,3) by (simp add: with_cq_def cq_at_def)
  note r = with_cq_stable [OF assms(2), of q] with_cq_rules(1)
  show ?thesis
    unfolding gpspm_completed_def Let_def
    by (auto intro!: wp_cq_wait_live [where P = "with_cq q P", OF s r] wp_get_wc_live [where P = "with_cq q P", OF _ r]
        assms(4) [OF with_cqD])
qed

lemma queue_at: "P s \<Longrightarrow> conn_live P k q \<Longrightarrow> cq_at q s"
  by (auto simp: conn_live_def conn_ready_def cq_at_def)

lemma wp_gpspm_await:
  assumes "P s" and "stable E P" and "conn_live P conn q" and "queues_live P conn" and "\<And>r s'. P s' \<Longrightarrow> Q r s'"
  shows "wp (gpspm_await E conn wc s) Q"
  unfolding gpspm_await_def
  by (auto intro!: wp_get_cq [where P = P, OF _ assms(3)] wp_gpspm_completed [where P = P, OF _ assms(2)] queue_at [OF _ assms(3)]
      wp_get_rcq_live [where P = P, OF _ assms(4)] assms(1,5))

subsection \<open>The client\<close>

abbreviation "gp_msg m n E P msg \<equiv> over (owns_region False KILOBYTE) E (over_mem m n E P) msg"
abbreviation "gp_peer m n E P msg peer \<equiv> over owns_peer E (gp_msg m n E P msg) peer"
abbreviation "gp_cfg m n E P msg peer cfg \<equiv> over (owns_plain O_conn_cfg) E (gp_peer m n E P msg peer) cfg"
abbreviation "gp_conn m n E P msg peer cfg q conn \<equiv> over (owns_conn_cq E q) E (gp_cfg m n E P msg peer cfg) conn"
abbreviation "gp_src m n E P msg peer cfg q conn mr \<equiv> over owns_mr E (gp_conn m n E P msg peer cfg q conn) mr"
abbreviation "gp_mrs m n E P msg peer cfg q conn mr k \<equiv> over owns_mr E (gp_src m n E P msg peer cfg q conn mr) k"

lemma wp_gpspm_client_err_free:
  assumes "gp_msg m n E P msg s" and "stable E P" and "cm_mr_ptr m \<noteq> NULL" and "\<And>s'. P s' \<Longrightarrow> Q (ret, pm) s'"
  shows "wp (gpspm_client_err_free E ret msg m pm s) Q"
  unfolding gpspm_client_err_free_def
  by (auto intro!: wp_free_buffer [OF assms(1) region_scope.stable_over] wp_release_mem [OF _ assms(2,3)] assms(4))

lemma wp_gpspm_client_no_buffer:
  assumes "over_mem m n E P s" and "stable E P" and "cm_mr_ptr m \<noteq> NULL" and "\<And>s'. P s' \<Longrightarrow> Q (ret, pm) s'"
  shows "wp (gpspm_client_err_free E ret NULL m pm s) Q"
  unfolding gpspm_client_err_free_def
  by (auto simp: free_def intro!: wp_release_mem [OF assms(1-3)] assms(4))

lemma wp_gpspm_client_err_peer_delete:
  assumes "gp_peer m n E P msg peer s" and "stable E P" and "cm_mr_ptr m \<noteq> NULL" and "\<And>s'. P s' \<Longrightarrow> Q (ret, pm) s'"
  shows "wp (gpspm_client_err_peer_delete E ret peer msg m pm s) Q"
  unfolding gpspm_client_err_peer_delete_def
  by (auto intro!: peer_scope.wp_pop [OF assms(1) region_scope.stable_over] wp_gpspm_client_err_free [OF _ assms(2,3)] assms(4))

lemma wp_gpspm_client_err_cfg_delete:
  assumes "gp_cfg m n E P msg peer cfg s" and "stable E P" and "cm_mr_ptr m \<noteq> NULL" and "\<And>s'. P s' \<Longrightarrow> Q (ret, pm) s'"
  shows "wp (gpspm_client_err_cfg_delete E ret cfg peer msg m pm s) Q"
  unfolding gpspm_client_err_cfg_delete_def
  by (auto intro!: wp_pop_conn_cfg [OF assms(1) peer_scope.stable_over] wp_gpspm_client_err_peer_delete [OF _ assms(2,3)] assms(4))

lemma wp_gpspm_client_err_conn_disconnect:
  assumes "gp_conn m n E P msg peer cfg q conn s" and "stable E P" and "cm_mr_ptr m \<noteq> NULL" and "events_wf E" and "\<And>s'. P s' \<Longrightarrow> Q (ret, pm) s'"
  shows "wp (gpspm_client_err_conn_disconnect E ret conn cfg peer msg m pm s) Q"
  unfolding gpspm_client_err_conn_disconnect_def
  by (auto intro!: wp_close_cq [OF assms(1) plain_scope.stable_over assms(4)] wp_gpspm_client_err_cfg_delete [OF _ assms(2,3)] assms(5))

lemma wp_gpspm_client_err_mr_dereg:
  assumes "gp_mrs m n E P msg peer cfg q conn mr k s" and "stable E P" and "cm_mr_ptr m \<noteq> NULL" and "events_wf E" and "\<And>s'. P s' \<Longrightarrow> Q (ret, pm) s'"
  shows "wp (gpspm_client_err_mr_dereg E ret k mr conn cfg peer msg m pm s) Q"
  unfolding gpspm_client_err_mr_dereg_def
  by (auto intro!: mr_scope.wp_pop [OF assms(1) mr_scope.stable_over]
      mr_scope.wp_pop [where P = "gp_conn m n E P msg peer cfg q conn", OF _ cq_scope.stable_over]
      wp_gpspm_client_err_conn_disconnect [OF _ assms(2-4)] assms(5))

lemma wp_gpspm_client_err_mr_remote_delete:
  assumes "over (owns_plain O_mr_remote) E (gp_mrs m n E P msg peer cfg q conn mr k) r s" and "stable E P" and "cm_mr_ptr m \<noteq> NULL"
    and "events_wf E" and "\<And>s'. P s' \<Longrightarrow> Q (ret, pm) s'"
  shows "wp (gpspm_client_err_mr_remote_delete E ret r k mr conn cfg peer msg m pm s) Q"
  unfolding gpspm_client_err_mr_remote_delete_def
  by (auto intro!: wp_pop_mr_remote [OF assms(1) mr_scope.stable_over] wp_gpspm_client_err_mr_dereg [OF _ assms(2-4)] assms(5))

lemma send_fits: "\<not> MSG_SIZE_MAX < n \<Longrightarrow> length bs = unat n \<Longrightarrow> unat SEND_OFFSET + length bs \<le> KILOBYTE"
  by (simp add: MSG_SIZE_MAX_def SEND_OFFSET_def KILOBYTE_def word_less_nat_alt)

lemma wp_gpspm_request:
  assumes s: "P s" and P: "stable E P" and pb: "protobuf_library pb" and l: "conn_live P conn q" "live P msg_mr O_mr_local"
    and m: "sized P (msg_mem msg) KILOBYTE" and Q: "\<And>r s'. P s' \<Longrightarrow> Q r s'"
  shows "wp (gpspm_request E pb conn off msg_mr msg s) Q"
  unfolding gpspm_request_def Let_def
  by (auto intro!: wp_send(2) [where P = P, OF s P l] wp_buffer_store [where P = P, OF _ m] wp_send(1) [where P = P, OF _ P l]
      send_fits protobuf_library.request_size(1) [OF pb] Q)

lemma wp_gpspm_confirm:
  assumes s: "P s" and m: "sized P m n" "mem_ready m n HELLO_T_SIZE pm" and Q: "\<And>ret pm s'. P s' \<Longrightarrow> Q (ret, pm) s'"
  shows "wp (gpspm_confirm pb dma wc m pm s) Q"
  unfolding gpspm_confirm_def by (auto intro!: wp_translate_mem [where P = P, OF s m] Q s)

lemma wp_gpspm_flush_greeting:
  assumes s: "P s" and P: "stable E P" and pb: "protobuf_library pb"
    and l: "conn_live P conn q" "queues_live P conn" "live P src_mr O_mr_local" "live P msg_mr O_mr_local" "live P dst_mr O_mr_remote"
    and m: "sized P (msg_mem msg) KILOBYTE" "sized P m n" "mem_ready m n HELLO_T_SIZE pm" and Q: "\<And>ret pm s'. P s' \<Longrightarrow> Q (ret, pm) s'"
  shows "wp (gpspm_flush_greeting E pb dma conn dst_mr off msg_mr src_mr msg m pm wc s) Q"
  unfolding gpspm_flush_greeting_def
  by (auto intro!: wp_get_size [where P = P, OF s l(5)] wp_write [where P = P, OF s P l(1,3,5) flags_nonzero(2)]
      wp_gpspm_request [where P = P, OF _ P pb l(1,4) m(1)] wp_gpspm_await [where P = P, OF _ P l(1,2)] wp_gpspm_confirm [where P = P, OF _ m(2,3)]
      Q s split: option.split)

lemma wp_gpspm_client_registered:
  assumes s: "gp_mrs m n E P msg peer cfg q conn mr k s" and P: "stable E P" and wf: "events_wf E" and pb: "protobuf_library pb"
    and m: "mem_ready m n HELLO_T_SIZE pm" and Q: "\<And>ret pm s'. P s' \<Longrightarrow> Q (ret, pm) s'"
  shows "wp (gpspm_client_registered E pb dma k mr conn cfg peer msg m pm wc s) Q"
proof -
  let ?P = "gp_mrs m n E P msg peer cfg q conn mr k"
  let ?R = "over (owns_plain O_mr_remote) E ?P"
  have l: "conn_live ?P conn q" by (intro lives)
  have r: "conn_live (?R i) conn q" "queues_live (?R i) conn" "live (?R i) mr O_mr_local" "live (?R i) k O_mr_local" "live (?R i) i O_mr_remote"
    "sized (?R i) (msg_mem msg) KILOBYTE" "sized (?R i) m n" for i by (intro lives queues all_sizes)+
  have nn: "cm_mr_ptr m \<noteq> NULL" using m by (simp add: mem_ready_def)
  show ?thesis
    unfolding gpspm_client_registered_def
    by (auto intro!: wp_private_data [where P = ?P, OF s l] wp_remote_from_data [OF mr_scope.stable_over s]
        wp_gpspm_flush_greeting [where P = "?R i" for i, OF _ plain_scope.stable_over pb r m]
        wp_gpspm_client_err_mr_dereg [OF _ P nn wf] wp_gpspm_client_err_mr_remote_delete [OF _ P nn wf] s Q)
qed

lemma wp_gpspm_client_src_mr:
  assumes s: "gp_src m n E P msg peer cfg q conn mr s" and P: "stable E P" and wf: "events_wf E" and pb: "protobuf_library pb"
    and m: "mem_ready m n HELLO_T_SIZE pm" and Q: "\<And>ret pm s'. P s' \<Longrightarrow> Q (ret, pm) s'"
  shows "wp (gpspm_client_src_mr E pb dma mr conn cfg peer msg m pm wc s) Q"
proof -
  have l: "live (gp_src m n E P msg peer cfg q conn mr) peer O_peer" by (intro lives)
  have nn: "cm_mr_ptr m \<noteq> NULL" using m by (simp add: mem_ready_def)
  show ?thesis
    unfolding gpspm_client_src_mr_def
    by (auto intro!: wp_push_mr [OF mr_scope.stable_over s liveD [OF l s]] mr_scope.wp_pop [OF _ cq_scope.stable_over]
        wp_gpspm_client_err_conn_disconnect [OF _ P nn wf] wp_gpspm_client_registered [OF _ P wf pb m] Q)
qed

lemma wp_gpspm_client_configured:
  assumes s: "gp_cfg m n E P msg peer cfg s" and P: "stable E P" and wf: "events_wf E" and pb: "protobuf_library pb"
    and m: "mem_ready m n HELLO_T_SIZE pm" and Q: "\<And>ret pm s'. P s' \<Longrightarrow> Q (ret, pm) s'"
  shows "wp (gpspm_client_configured E pb dma addr port cfg peer msg m pm wc s) Q"
proof -
  let ?P = "gp_cfg m n E P msg peer cfg"
  have l: "live ?P peer O_peer" "live ?P cfg O_conn_cfg" "live (gp_conn m n E P msg peer cfg q conn) peer O_peer" for q conn by (intro lives)+
  have pd: "pdata_arg_ok None" by simp
  have nn: "cm_mr_ptr m \<noteq> NULL" using m by (simp add: mem_ready_def)
  show ?thesis
    unfolding gpspm_client_configured_def
    by (auto intro!: wp_client_connect_cq [where P = ?P, OF s plain_scope.stable_over l(1) disjI2 [OF l(2)] pd wf]
        wp_push_mr [OF cq_scope.stable_over _ liveD [OF l(3)]] wp_gpspm_client_err_cfg_delete [OF _ P nn]
        wp_gpspm_client_err_conn_disconnect [OF _ P nn wf] wp_gpspm_client_src_mr [OF _ P wf pb m] Q)
qed

lemma wp_gpspm_client_peer:
  assumes s: "gp_peer m n E P msg peer s" and P: "stable E P" and wf: "events_wf E" and pb: "protobuf_library pb"
    and m: "mem_ready m n HELLO_T_SIZE pm" and Q: "\<And>ret pm s'. P s' \<Longrightarrow> Q (ret, pm) s'"
  shows "wp (gpspm_client_peer E pb dma addr port peer msg m pm wc s) Q"
proof -
  let ?C = "gp_cfg m n E P msg peer"
  have l: "live (?C i) i O_conn_cfg" for i by (intro lives)
  have a: "allows (?C i) i (\<lambda>_. O_conn_cfg d)" for i d by (intro allow)
  have nn: "cm_mr_ptr m \<noteq> NULL" using m by (simp add: mem_ready_def)
  show ?thesis
    unfolding gpspm_client_peer_def
    by (auto intro!: wp_push_conn_cfg [OF s peer_scope.stable_over] wp_set_conn_cfg(1) [where P = "?C i" for i, OF _ l a]
        wp_gpspm_client_err_peer_delete [OF _ P nn] wp_gpspm_client_err_cfg_delete [OF _ P nn] wp_gpspm_client_configured [OF _ P wf pb m] Q)
qed

lemma wp_gpspm_client_main:
  assumes s: "P s" and P: "stable E P" and wf: "events_wf E" and pb: "protobuf_library pb"
    and fits: "file_fits E path HELLO_T_SIZE pm" and Q: "\<And>ret pm s'. P s' \<Longrightarrow> Q (ret, pm) s'"
  shows "wp (gpspm_client_main E pb dma addr port path pm wc s) Q"
  unfolding gpspm_client_main_def wp_bind
proof (rule wp_client_mem [OF P s fits], goal_cases)
  case (1 m n pm' s')
  then have nn: "cm_mr_ptr m \<noteq> NULL" by (simp add: mem_ready_def)
  from 1 show ?case
    by (auto intro!: wp_malloc_sized [OF region_scope.stable_over 1(1)] wp_common_peer_via_address [OF region_scope.stable_over]
        wp_gpspm_client_no_buffer [OF _ P nn] wp_gpspm_client_peer [OF _ P wf pb 1(2)] Q intro: wp_gpspm_client_err_free [OF _ P nn])
qed (simp add: Q)

subsection \<open>The server\<close>

text \<open>The server does not compare the range of a request with its memory: the other side has to.\<close>

definition requests_fit :: "protobuf_c \<Rightarrow> dma \<Rightarrow> bool" where
  "requests_fit pb dma \<longleftrightarrow> (\<forall>tr k r. gpspm_flush_request__unpack pb (take k (dma tr)) = Some r \<longrightarrow>
     unat (freq_offset r) + unat (freq_length r) \<le> SIGNATURE_LEN + KILOBYTE)"

abbreviation "gp_ep m n E P msg peer ep \<equiv> over (owns_ep_of peer) E (gp_peer m n E P msg peer) ep"
abbreviation "gp_mr m n E P msg peer ep mr \<equiv> over owns_mr E (gp_ep m n E P msg peer ep) mr"
abbreviation "gp_msg_mr m n E P msg peer ep mr k \<equiv> over owns_mr E (gp_mr m n E P msg peer ep mr) k"
abbreviation "gp_ep_cfg m n E P msg peer ep mr k cfg \<equiv> over (owns_plain O_conn_cfg) E (gp_msg_mr m n E P msg peer ep mr k) cfg"
abbreviation "gp_ep_conn m n E P msg peer ep mr k cfg q conn \<equiv> over (owns_conn_cq E q) E (gp_ep_cfg m n E P msg peer ep mr k cfg) conn"

lemma wp_gpspm_server_err_free:
  assumes "gp_msg m n E P msg s" and "stable E P" and "cm_mr_ptr m \<noteq> NULL" and "\<And>s'. P s' \<Longrightarrow> Q (ret, pm) s'"
  shows "wp (gpspm_server_err_free E ret msg m pm s) Q"
  unfolding gpspm_server_err_free_def
  by (auto intro!: wp_free_buffer [OF assms(1) region_scope.stable_over] wp_release_mem [OF _ assms(2,3)] assms(4))

lemma wp_gpspm_server_no_buffer:
  assumes "over_mem m n E P s" and "stable E P" and "cm_mr_ptr m \<noteq> NULL" and "\<And>s'. P s' \<Longrightarrow> Q (ret, pm) s'"
  shows "wp (gpspm_server_err_free E ret NULL m pm s) Q"
  unfolding gpspm_server_err_free_def
  by (auto simp: free_def intro!: wp_release_mem [OF assms(1-3)] assms(4))

lemma wp_gpspm_server_err_peer_delete:
  assumes "gp_peer m n E P msg peer s" and "stable E P" and "cm_mr_ptr m \<noteq> NULL" and "\<And>s'. P s' \<Longrightarrow> Q (ret, pm) s'"
  shows "wp (gpspm_server_err_peer_delete E ret peer msg m pm s) Q"
  unfolding gpspm_server_err_peer_delete_def
  by (auto intro!: peer_scope.wp_pop [OF assms(1) region_scope.stable_over] wp_gpspm_server_err_free [OF _ assms(2,3)] assms(4))

lemma wp_gpspm_server_err_ep_shutdown:
  assumes "gp_ep m n E P msg peer ep s" and "stable E P" and "cm_mr_ptr m \<noteq> NULL" and "\<And>s'. P s' \<Longrightarrow> Q (ret, pm) s'"
  shows "wp (gpspm_server_err_ep_shutdown E ret ep peer msg m pm s) Q"
  unfolding gpspm_server_err_ep_shutdown_def
  by (auto intro!: ep_scope.wp_pop [OF assms(1) peer_scope.stable_over] wp_gpspm_server_err_peer_delete [OF _ assms(2,3)] assms(4))

lemma wp_gpspm_server_err_mr_dereg:
  assumes "gp_msg_mr m n E P msg peer ep mr k s" and "stable E P" and "cm_mr_ptr m \<noteq> NULL" and "\<And>s'. P s' \<Longrightarrow> Q (ret, pm) s'"
  shows "wp (gpspm_server_err_mr_dereg E ret k mr ep peer msg m pm s) Q"
  unfolding gpspm_server_err_mr_dereg_def
  by (auto intro!: mr_scope.wp_pop [OF assms(1) mr_scope.stable_over] mr_scope.wp_pop [where P = "gp_ep m n E P msg peer ep", OF _ ep_scope.stable_over]
      wp_gpspm_server_err_ep_shutdown [OF _ assms(2,3)] assms(4))

lemma wp_gpspm_server_no_msg_mr:
  assumes "gp_mr m n E P msg peer ep mr s" and "stable E P" and "cm_mr_ptr m \<noteq> NULL" and "\<And>s'. P s' \<Longrightarrow> Q (ret, pm) s'"
  shows "wp (gpspm_server_err_mr_dereg E ret NULL mr ep peer msg m pm s) Q"
  unfolding gpspm_server_err_mr_dereg_def
  by (auto simp: mr_dereg_null intro!: mr_scope.wp_pop [OF assms(1) ep_scope.stable_over] wp_gpspm_server_err_ep_shutdown [OF _ assms(2,3)] assms(4))

lemma wp_gpspm_server_err_cfg_delete:
  assumes "gp_ep_cfg m n E P msg peer ep mr k cfg s" and "stable E P" and "cm_mr_ptr m \<noteq> NULL" and "\<And>s'. P s' \<Longrightarrow> Q (ret, pm) s'"
  shows "wp (gpspm_server_err_cfg_delete E ret cfg k mr ep peer msg m pm s) Q"
  unfolding gpspm_server_err_cfg_delete_def
  by (auto intro!: wp_pop_conn_cfg [OF assms(1) mr_scope.stable_over] wp_gpspm_server_err_mr_dereg [OF _ assms(2,3)] assms(4))

text \<open>A request that is not there any more, or is still there.\<close>

lemma req_delete_null: "rpma_conn_req_delete E (Some NULL) s = Some ((0, Some NULL), s)"
  by (simp add: rpma_conn_req_delete_def)

lemma wp_gpspm_server_no_req:
  assumes "gp_ep_cfg m n E P msg peer ep mr k cfg s" and "stable E P" and "cm_mr_ptr m \<noteq> NULL" and "\<And>s'. P s' \<Longrightarrow> Q (ret, pm) s'"
  shows "wp (gpspm_server_err_req_delete E ret (Some NULL) cfg k mr ep peer msg m pm s) Q"
  using wp_gpspm_server_err_cfg_delete [where Q = Q, OF assms] by (simp add: gpspm_server_err_req_delete_def req_delete_null)

lemma wp_gpspm_server_err_req_delete:
  assumes "req_over E (gp_ep_cfg m n E P msg peer ep mr k cfg) b peer req s" and "stable E P" and "cm_mr_ptr m \<noteq> NULL" and "\<And>s'. P s' \<Longrightarrow> Q (ret, pm) s'"
  shows "wp (gpspm_server_err_req_delete E ret (Some req) cfg k mr ep peer msg m pm s) Q"
  unfolding gpspm_server_err_req_delete_def wp_bind
  by (rule wp_req_delete [OF plain_scope.stable_over assms(1)]) (use wp_gpspm_server_err_cfg_delete [OF _ assms(2,3)] assms(4) in simp)

lemma wp_gpspm_server_err_conn_delete:
  assumes "over (owns_conn_of E) E (gp_ep_cfg m n E P msg peer ep mr k cfg) conn s" and "stable E P" and "cm_mr_ptr m \<noteq> NULL" and "\<And>s'. P s' \<Longrightarrow> Q (ret, pm) s'"
  shows "wp (gpspm_server_err_conn_delete E ret conn (Some NULL) cfg k mr ep peer msg m pm s) Q"
  unfolding gpspm_server_err_conn_delete_def
  by (auto intro!: conn_scope.wp_pop [OF assms(1) plain_scope.stable_over] wp_gpspm_server_no_req [OF _ assms(2,3)] assms(4))

lemma wp_gpspm_server_conn_closed:
  assumes "gp_ep_cfg m n E P msg peer ep mr k cfg s" and "stable E P" and "cm_mr_ptr m \<noteq> NULL" and "\<And>s'. P s' \<Longrightarrow> Q (ret, pm) s'"
  shows "wp (gpspm_server_err_conn_delete E ret NULL (Some NULL) cfg k mr ep peer msg m pm s) Q"
  using wp_gpspm_server_no_req [where Q = Q, OF assms] by (simp add: gpspm_server_err_conn_delete_def rpma_conn_delete_def)

lemma remote_stores_image [simp]: "pm_image (remote_stores ws pm) = pm_image pm"
  by (simp add: remote_stores_def)

lemma wp_gpspm_answer:
  assumes s: "P s" and pb: "protobuf_library pb" and fit: "requests_fit pb dma" and m: "sized P (msg_mem msg) KILOBYTE"
    and room: "cm_is_pmem m \<noteq> 0 \<Longrightarrow> SIGNATURE_LEN + KILOBYTE \<le> length (pm_image pm)" and Q: "\<And>r s'. P s' \<Longrightarrow> Q r s'"
  shows "wp (gpspm_answer pb msg m pm (take k (dma tr)) s) Q"
proof (cases "gpspm_flush_request__unpack pb (take k (dma tr))")
  case None
  with s Q show ?thesis by (simp add: gpspm_answer_def)
next
  case (Some r)
  with fit have "unat (freq_offset r) + unat (freq_length r) \<le> SIGNATURE_LEN + KILOBYTE" unfolding requests_fit_def by blast
  with room have "cm_is_pmem m \<noteq> 0 \<Longrightarrow> unat (freq_offset r) + unat (freq_length r) \<le> length (pm_image pm)" by fastforce
  with Some show ?thesis
    unfolding gpspm_answer_def Let_def
    by (auto intro!: wp_buffer_store [where P = P, OF s m] send_fits protobuf_library.response_size(1) [OF pb] Q s)
qed

lemma wp_gpspm_serve:
  assumes s: "P s" and P: "stable E P" and pb: "protobuf_library pb" and fit: "requests_fit pb dma"
    and l: "conn_live P conn q" "queues_live P conn" "live P msg_mr O_mr_local"
    and m: "sized P (msg_mem msg) KILOBYTE" "mem_ready m n KILOBYTE pm" and Q: "\<And>ret pm s'. P s' \<Longrightarrow> Q (ret, pm) s'"
  shows "wp (gpspm_serve E pb dma arrived conn msg_mr msg m pm wc s) Q"
proof -
  have room: "cm_is_pmem m \<noteq> 0 \<Longrightarrow> SIGNATURE_LEN + KILOBYTE \<le> length (pm_image (remote_stores ws pm))" for ws
    using m(2) by (simp add: mem_ready_def)
  show ?thesis
    unfolding gpspm_serve_def Let_def
    by (auto intro!: wp_get_rcq_live [where P = P, OF s l(2)] wp_gpspm_completed [where P = P, OF _ P] wp_gpspm_answer [where P = P, OF _ pb fit m(1) room]
        wp_send(1) [where P = P, OF _ P l(1,3)] wp_get_cq [where P = P, OF _ l(1)] queue_at [OF _ l(1)] Q s split: option.split)
qed

lemma wp_gpspm_server_connected:
  assumes s: "over (owns_conn_of E) E (gp_ep_cfg m n E P msg peer ep mr k cfg) conn s" and P: "stable E P" and wf: "events_wf E"
    and pb: "protobuf_library pb" and fit: "requests_fit pb dma" and m: "mem_ready m n KILOBYTE pm" and Q: "\<And>ret pm s'. P s' \<Longrightarrow> Q (ret, pm) s'"
  shows "wp (gpspm_server_connected E pb dma arrived conn (Some NULL) cfg k mr ep peer msg m pm wc s) Q"
  unfolding gpspm_server_connected_def wp_bind
proof (rule wp_next_event [OF s wf], goal_cases)
  case (1 ret out t)
  then obtain q where t: "gp_ep_conn m n E P msg peer ep mr k cfg q conn t" using over_some_cq by blast
  let ?P = "gp_ep_conn m n E P msg peer ep mr k cfg q conn"
  have l: "conn_live ?P conn q" "queues_live ?P conn" "live ?P k O_mr_local" "sized ?P (msg_mem msg) KILOBYTE" by (intro lives queues all_sizes)+
  have nn: "cm_mr_ptr m \<noteq> NULL" using m by (simp add: mem_ready_def)
  have del: "wp (gpspm_server_err_conn_delete E ret conn (Some NULL) cfg k mr ep peer msg m pm t) Q" if "?P t" for ret pm t
    using that by (intro wp_gpspm_server_err_conn_delete [where n = n, OF _ P nn] Q) (simp_all add: over_conn_cq)
  show ?case
    using t unfolding Let_def
    by (auto intro!: wp_gpspm_serve [where P = ?P, OF _ cq_scope.stable_over pb fit l m] wp_close_cq [OF _ plain_scope.stable_over wf] del
        wp_gpspm_server_conn_closed [OF _ P nn] Q split: option.split)
qed

text \<open>When there is no request the caller's variable still holds \<open>NULL\<close>.\<close>

lemma req_delete_out: "rpma_conn_req_delete E (Some k) s = Some ((ret, out), s') \<Longrightarrow> out = Some NULL"
  by (auto simp: rpma_conn_req_delete_def Let_def split: Option.bind_splits if_splits)

lemma from_cm_event_out:
  "rpma_conn_req_from_cm_event E peer ev cfg (Some x) s = Some ((ret, out), s') \<Longrightarrow> (\<exists>k. out = Some k) \<and> (ret \<noteq> 0 \<longrightarrow> out = Some x)"
  by (auto simp: rpma_conn_req_from_cm_event_def split: Option.bind_splits if_splits)

lemma no_req_null: "rpma_ep_next_conn_req E ep cfg (Some NULL) s = Some ((ret, out), s') \<Longrightarrow> ret \<noteq> 0 \<Longrightarrow> out = Some NULL"
  unfolding rpma_ep_next_conn_req_def ep_next_err_ack_def Let_def
  by (auto split: Option.bind_splits if_splits dest!: req_delete_out from_cm_event_out)

lemma wp_next_req_null:
  assumes "P s" and "stable E P" and "ep_live P ep peer" and "live P peer O_peer" and "cfg = NULL \<or> live P cfg O_conn_cfg" and "events_wf E"
    and Q0: "\<And>k s'. req_over E P True peer k s' \<Longrightarrow> Q (0, Some k) s'" and Q1: "\<And>ret s'. P s' \<Longrightarrow> ret \<noteq> 0 \<Longrightarrow> Q (ret, Some NULL) s'"
  shows "wp (rpma_ep_next_conn_req E ep cfg (Some NULL) s) Q"
proof -
  have "wp (rpma_ep_next_conn_req E ep cfg (Some NULL) s) (\<lambda>(ret, out) s'. if ret = 0 then (\<exists>k. out = Some k \<and> req_over E P True peer k s') else P s')"
    by (rule wp_next_req_live [OF assms(1-6)]) auto
  then obtain ret out s' where r: "rpma_ep_next_conn_req E ep cfg (Some NULL) s = Some ((ret, out), s')"
    "if ret = 0 then (\<exists>k. out = Some k \<and> req_over E P True peer k s') else P s'" by (auto dest!: wp_result)
  with no_req_null [OF r(1)] Q0 Q1 show ?thesis by (cases "ret = 0") auto
qed

lemma wp_gpspm_server_configured:
  assumes s: "gp_ep_cfg m n E P msg peer ep mr k cfg s" and P: "stable E P" and wf: "events_wf E" and data: "data \<noteq> NULL"
    and pb: "protobuf_library pb" and fit: "requests_fit pb dma" and m: "mem_ready m n KILOBYTE pm" and Q: "\<And>ret pm s'. P s' \<Longrightarrow> Q (ret, pm) s'"
  shows "wp (gpspm_server_configured E pb dma arrived data cfg k mr ep peer msg m pm wc s) Q"
proof -
  let ?P = "gp_ep_cfg m n E P msg peer ep mr k cfg"
  have l: "ep_live ?P ep peer" "live ?P peer O_peer" "live ?P k O_mr_local" "live ?P cfg O_conn_cfg" by (intro lives ep_lives)+
  have pd: "pdata_arg_ok (Some \<lparr>pdata_ptr = data, pdata_len = SIZEOF_COMMON_DATA\<rparr>)"
    using data by (simp add: pdata_arg_ok_def SIZEOF_COMMON_DATA_def)
  have nn: "cm_mr_ptr m \<noteq> NULL" using m by (simp add: mem_ready_def)
  show ?thesis
    unfolding gpspm_server_configured_def Let_def
    by (auto simp: req_delete_null intro!: wp_next_req_null [where P = ?P, OF s plain_scope.stable_over l(1,2) disjI2 [OF l(4)] wf]
        wp_req_recv [where P = ?P, OF _ l(3)] wp_req_connect [where P = ?P, OF plain_scope.stable_over _ liveD [OF l(2)] pd]
        wp_gpspm_server_no_req [OF _ P nn] wp_gpspm_server_connected [OF _ P wf pb fit m] Q
        intro: wp_gpspm_server_err_req_delete [OF _ P nn])
qed

lemma wp_gpspm_server_registered:
  assumes s: "gp_msg_mr m n E P msg peer ep mr k s" and P: "stable E P" and wf: "events_wf E" and data: "data \<noteq> NULL"
    and pb: "protobuf_library pb" and fit: "requests_fit pb dma" and m: "mem_ready m n KILOBYTE pm" and Q: "\<And>ret pm s'. P s' \<Longrightarrow> Q (ret, pm) s'"
  shows "wp (gpspm_server_registered E pb dma arrived data k mr ep peer msg m pm wc s) Q"
proof -
  let ?P = "gp_msg_mr m n E P msg peer ep mr k"
  let ?C = "gp_ep_cfg m n E P msg peer ep mr k"
  have l: "live ?P mr O_mr_local" "live (?C i) i O_conn_cfg" for i by (intro lives)+
  have a: "allows (?C i) i (\<lambda>_. O_conn_cfg d)" for i d by (intro allow)
  have nn: "cm_mr_ptr m \<noteq> NULL" using m by (simp add: mem_ready_def)
  show ?thesis
    unfolding gpspm_server_registered_def
    by (auto intro!: wp_common_data_of [where P = ?P, OF s l(1)] wp_push_conn_cfg [OF s mr_scope.stable_over]
        wp_set_conn_cfg(1) [where P = "?C i" for i, OF _ l(2) a] wp_gpspm_server_err_mr_dereg [OF _ P nn] wp_gpspm_server_err_cfg_delete [OF _ P nn]
        wp_gpspm_server_configured [OF _ P wf data pb fit m] s Q)
qed

lemma wp_gpspm_server_mr:
  assumes s: "gp_mr m n E P msg peer ep mr s" and P: "stable E P" and wf: "events_wf E" and data: "data \<noteq> NULL"
    and pb: "protobuf_library pb" and fit: "requests_fit pb dma" and m: "mem_ready m n KILOBYTE pm" and Q: "\<And>ret pm s'. P s' \<Longrightarrow> Q (ret, pm) s'"
  shows "wp (gpspm_server_mr E pb dma arrived path data mr ep peer msg m pm wc s) Q"
proof -
  let ?P = "gp_mr m n E P msg peer ep mr"
  have l: "live ?P peer O_peer" "live ?P mr O_mr_local" by (intro lives)+
  have nn: "cm_mr_ptr m \<noteq> NULL" using m by (simp add: mem_ready_def)
  show ?thesis
    unfolding gpspm_server_mr_def
    by (auto intro!: wp_advise_mem [where P = ?P, OF s mr_scope.stable_over l(2)] wp_push_mr [OF mr_scope.stable_over _ liveD [OF l(1)]]
        mr_scope.wp_pop [OF _ ep_scope.stable_over] wp_gpspm_server_no_msg_mr [OF _ P nn] wp_gpspm_server_err_ep_shutdown [OF _ P nn]
        wp_gpspm_server_registered [OF _ P wf data pb fit m] Q)
qed

lemma wp_gpspm_server_buffer:
  assumes s: "gp_msg m n E P msg s" and P: "stable E P" and wf: "events_wf E" and data: "data \<noteq> NULL"
    and pb: "protobuf_library pb" and fit: "requests_fit pb dma" and m: "mem_ready m n KILOBYTE pm" and Q: "\<And>ret pm s'. P s' \<Longrightarrow> Q (ret, pm) s'"
  shows "wp (gpspm_server_buffer E pb dma arrived addr port path data msg m pm wc s) Q"
proof -
  have l: "live (gp_peer m n E P msg peer) peer O_peer" "live (gp_ep m n E P msg peer ep) peer O_peer" for peer ep by (intro lives)+
  have nn: "cm_mr_ptr m \<noteq> NULL" using m by (simp add: mem_ready_def)
  show ?thesis
    unfolding gpspm_server_buffer_def
    by (auto intro!: wp_common_peer_via_address [OF region_scope.stable_over s] wp_push_ep [OF peer_scope.stable_over _ live_nonnull [OF l(1)]]
        wp_push_mr [OF ep_scope.stable_over _ liveD [OF l(2)]] wp_gpspm_server_err_free [OF _ P nn] wp_gpspm_server_err_peer_delete [OF _ P nn]
        wp_gpspm_server_err_ep_shutdown [OF _ P nn] wp_gpspm_server_mr [OF _ P wf data pb fit m] Q)
qed

lemma wp_gpspm_server_main:
  assumes s: "P s" and P: "stable E P" and wf: "events_wf E" and data: "data \<noteq> NULL" and pb: "protobuf_library pb"
    and fit: "requests_fit pb dma" and fits: "file_fits E path KILOBYTE pm" and Q: "\<And>ret pm s'. P s' \<Longrightarrow> Q (ret, pm) s'"
  shows "wp (gpspm_server_main E pb dma arrived addr port path data pm wc s) Q"
  unfolding gpspm_server_main_def wp_bind
proof (rule wp_server_mem [OF P s fits], goal_cases)
  case (1 m n pm' s')
  then have nn: "cm_mr_ptr m \<noteq> NULL" by (simp add: mem_ready_def)
  from 1 show ?case
    by (auto intro!: wp_malloc_sized [OF region_scope.stable_over 1(1)] wp_gpspm_server_no_buffer [OF _ P nn]
        wp_gpspm_server_buffer [OF _ P wf data pb fit 1(2)] Q)
qed (simp add: Q)

subsection \<open>What a response means\<close>

lemma persisted_survives:
  assumes "pm_ok pm" and "off + n \<le> length (pm_image pm)" and "survives (pm_persist off n pm) new"
  shows "take n (drop off new) = take n (drop off (pm_view pm))"
proof -
  have "survives \<lparr>pm_image = pm_image pm, pm_ops = pm_ops pm @ [Pm_persist off n]\<rparr> new"
    using assms(3) by (simp add: pm_persist_def survives_def)
  from may_hold_persisted [OF this assms(2)] show ?thesis using assms(1) by (simp add: pm_view_def pm_ok_def)
qed

text \<open>C11: a range is durable when the client learns that it was flushed. Whatever has arrived in the memory of the server, a
  request of the client for a range of the file is unpacked, the range is made persistent and a response is prepared, of the size that is
  then sent: no branch gives up. The client, given the response, accepts it if the request was its own. And whatever a power failure leaves of the
  file from then on, the range contains what had arrived there.\<close>

theorem confirmed_flush_is_durable:
  assumes "protobuf_library pb" and "bytes_at msg s = Some buf" and "length buf = KILOBYTE" and "cm_is_pmem m \<noteq> 0"
    and "pm_ok pm" and "unat (freq_offset r) + unat (freq_length r) \<le> length (pm_image pm)"
  shows "wp (gpspm_answer pb msg m pm (gpspm_flush_request__pack pb r) s) (\<lambda>(pm', size) s'.
    (\<exists>n buf'. size = Some n \<and> bytes_at msg s' = Some buf' \<and>
       gpspm_confirmed pb (take (unat n) buf') = (freq_op_context r = GPSPM_FLUSH_ID)) \<and>
    (\<forall>new. survives pm' new \<longrightarrow> take (unat (freq_length r)) (drop (unat (freq_offset r)) new) =
       take (unat (freq_length r)) (drop (unat (freq_offset r)) (pm_view pm))))"
proof -
  let ?resp = "\<lparr>fresp_op_context = freq_op_context r\<rparr>"
  let ?n = "gpspm_flush_response__get_packed_size pb ?resp" and ?bs = "gpspm_flush_response__pack pb ?resp"
  note size = protobuf_library.response_size [OF assms(1), of ?resp]
  have small: "\<not> MSG_SIZE_MAX < ?n" using size(2) by (simp add: MSG_SIZE_MAX_def word_less_nat_alt)
  have room: "unat SEND_OFFSET + length ?bs \<le> length buf" using size assms(3) by (simp add: SEND_OFFSET_def KILOBYTE_def)
  have "take (unat ?n) (overwrite (unat SEND_OFFSET) ?bs buf) = ?bs" using size(1) by (simp add: SEND_OFFSET_def overwrite_def)
  then have ok: "gpspm_confirmed pb (take (unat ?n) (overwrite (unat SEND_OFFSET) ?bs buf)) = (freq_op_context r = GPSPM_FLUSH_ID)"
    by (simp add: gpspm_confirmed_def protobuf_library.response_roundtrip [OF assms(1)])
  have b: "wp (buffer_store msg (unat SEND_OFFSET) ?bs s) (\<lambda>_ s'. bytes_at msg s' = Some (overwrite (unat SEND_OFFSET) ?bs buf))"
    using assms(2) room by (auto simp: buffer_store_def bytes_at_def store_def deref_def split: option.splits obj.splits if_splits)
  have p: "mem_persist m (unat (freq_offset r)) (unat (freq_length r)) pm = pm_persist (unat (freq_offset r)) (unat (freq_length r)) pm"
    using assms(4) by (simp add: mem_persist_def)
  show ?thesis
    unfolding gpspm_answer_def protobuf_library.request_roundtrip [OF assms(1)] option.case Let_def p
    using assms(4,6) small ok by (auto intro!: wp_mono [OF b] persisted_survives [OF assms(5,6)])
qed

definition gpspm_sample_request :: GPSPMFlushRequest where
  "gpspm_sample_request = \<lparr>freq_offset = 17, freq_length = 1024, freq_op_context = GPSPM_FLUSH_ID\<rparr>"

lemma sample_request_fits: "requests_fit sample_protobuf (\<lambda>_. gpspm_flush_request__pack sample_protobuf gpspm_sample_request)"
  unfolding requests_fit_def
proof (intro allI impI)
  fix k r
  let ?data = "gpspm_flush_request__pack sample_protobuf gpspm_sample_request"
  assume r: "gpspm_flush_request__unpack sample_protobuf (take k ?data) = Some r"
  have len: "length ?data = 27" using wire.request_size by simp
  from sample_request_length [OF r] have "length (take k ?data) = 27" .
  then have "take k ?data = ?data" using len by simp
  with r wire.request_roundtrip [of gpspm_sample_request] have "r = gpspm_sample_request" by simp
  then show "unat (freq_offset r) + unat (freq_length r) \<le> SIGNATURE_LEN + KILOBYTE"
    by (simp add: gpspm_sample_request_def signature_len KILOBYTE_def)
qed

definition gpspm_sample_pm :: pmem where
  "gpspm_sample_pm = remote_stores [(17, replicate 1024 65)] \<lparr>pm_image = replicate 2048 0, pm_ops = []\<rparr>"

theorem confirmed_flush_is_durable_witness:
  "wp (gpspm_answer sample_protobuf 90 greeting_mem gpspm_sample_pm (gpspm_flush_request__pack sample_protobuf gpspm_sample_request)
      (heap_st [(90, O_bytes (replicate 1024 0))])) (\<lambda>(pm', size) s'.
    size \<noteq> None \<and> take 1024 (drop 17 (pm_view pm')) = replicate 1024 65)"
proof -
  let ?s = "heap_st [(90, O_bytes (replicate 1024 0))]"
  have b: "bytes_at 90 ?s = Some (replicate 1024 0)" "length (replicate 1024 (0 :: u8)) = KILOBYTE"
    by (simp_all add: bytes_at_def deref_def CONN_CFG_DEFAULT_ADDR_def KILOBYTE_def)
  have v: "pm_view gpspm_sample_pm = overwrite 17 (replicate 1024 65) (replicate 2048 0)"
    by (simp add: gpspm_sample_pm_def remote_stores_def pm_view_def)
  have m: "cm_is_pmem greeting_mem \<noteq> 0" "pm_ok gpspm_sample_pm"
    "unat (freq_offset gpspm_sample_request) + unat (freq_length gpspm_sample_request) \<le> length (pm_image gpspm_sample_pm)"
    by (simp_all add: greeting_mem_def pm_ok_def v gpspm_sample_request_def) (simp_all add: gpspm_sample_pm_def)
  note d = confirmed_flush_is_durable [OF wire.protobuf_library_axioms b m]
  have "survives pm' (pm_view pm')" if "gpspm_answer sample_protobuf 90 greeting_mem gpspm_sample_pm data s = Some ((pm', n), s')" for pm' n s s' data
    using that by (intro view_survives) (auto simp: gpspm_answer_def gpspm_sample_pm_def remote_stores_def mem_persist_def pm_persist_def Let_def
        split: option.splits if_splits Option.bind_splits)
  with d show ?thesis
    by (auto simp: wp_def gpspm_sample_request_def v overwrite_def split: option.splits)
qed

end
