(* ===== verification/Gpspm_Shared.thy ===== *)
theory Gpspm_Shared
  imports Gpspm_Props
begin

text \<open>
  The example \<open>src/examples/09s-flush-to-persistent-GPSPM\<close>: the programs of \<open>Gpspm\<close> with one completion channel for both queues
  of a connection. The configuration asks for the channel, and completions are collected by \<open>wait_and_validate_completion\<close>, which takes the first
  completion of whichever queue the channel reports. The labels, the messages and the answer of the server are those of \<open>Gpspm\<close>.
\<close>

subsection \<open>The client\<close>

definition sgpspm_await :: "env \<Rightarrow> ptr \<Rightarrow> ibv_wc \<Rightarrow> st \<Rightarrow> ((rc \<times> ibv_wc) \<times> st) option" where
  "sgpspm_await E conn wc s = do {
     ((ret, wc), s) \<leftarrow> wait_and_validate_completion E conn IBV_WC_SEND wc s;
     if ret \<noteq> 0 then Some ((ret, wc), s)
     else wait_and_validate_completion E conn IBV_WC_RECV wc s
   }"

definition sgpspm_flush_greeting ::
  "env \<Rightarrow> protobuf_c \<Rightarrow> dma \<Rightarrow> ptr \<Rightarrow> ptr \<Rightarrow> u16 \<Rightarrow> ptr \<Rightarrow> ptr \<Rightarrow> ptr \<Rightarrow> common_mem \<Rightarrow> pmem \<Rightarrow> ibv_wc \<Rightarrow> st
    \<Rightarrow> ((rc \<times> pmem) \<times> st) option" where
  "sgpspm_flush_greeting E pb dma conn dst_mr dst_offset msg_mr src_mr msg m pm wc s = do {
     ((ret, dst_size), s) \<leftarrow> rpma_mr_remote_get_size dst_mr (Some 0) s;
     if ret \<noteq> 0 then Some ((ret, pm), s)
     else if the dst_size < of_nat KILOBYTE then Some ((ret, pm), s)
     else do {
       (ret, s) \<leftarrow> rpma_write E conn dst_mr (ucast dst_offset) src_mr (cm_data_offset m + of_nat HELLO_STR_OFFSET)
         (of_nat KILOBYTE) RPMA_F_COMPLETION_ON_ERROR 0 s;
       if ret \<noteq> 0 then Some ((ret, pm), s)
       else do {
         (r, s) \<leftarrow> gpspm_request E pb conn (ucast dst_offset) msg_mr msg s;
         (case r of
            Some ret \<Rightarrow> Some ((ret, pm), s)
          | None \<Rightarrow> do {
              ((ret, wc), s) \<leftarrow> sgpspm_await E conn wc s;
              if ret \<noteq> 0 then Some ((ret, pm), s)
              else gpspm_confirm pb dma wc m pm s
            })
       }
     }
   }"

definition sgpspm_client_registered ::
  "env \<Rightarrow> protobuf_c \<Rightarrow> dma \<Rightarrow> ptr \<Rightarrow> ptr \<Rightarrow> ptr \<Rightarrow> ptr \<Rightarrow> ptr \<Rightarrow> ptr \<Rightarrow> common_mem \<Rightarrow> pmem \<Rightarrow> ibv_wc \<Rightarrow> st
    \<Rightarrow> ((rc \<times> pmem) \<times> st) option" where
  "sgpspm_client_registered E pb dma msg_mr src_mr conn cfg peer msg m pm wc s = do {
     ((ret, pdata), s) \<leftarrow> rpma_conn_get_private_data conn (Some no_pdata) s;
     if ret \<noteq> 0 \<or> pdata_len (the pdata) < SIZEOF_COMMON_DATA
     then gpspm_client_err_mr_dereg E ret msg_mr src_mr conn cfg peer msg m pm s
     else do {
       ((ret, dst_mr, dst_offset), s) \<leftarrow> remote_from_data E (the pdata) s;
       if ret \<noteq> 0 then gpspm_client_err_mr_dereg E ret msg_mr src_mr conn cfg peer msg m pm s
       else do {
         ((ret, pm), s) \<leftarrow> sgpspm_flush_greeting E pb dma conn dst_mr dst_offset msg_mr src_mr msg m pm wc s;
         gpspm_client_err_mr_remote_delete E ret dst_mr msg_mr src_mr conn cfg peer msg m pm s
       }
     }
   }"

definition sgpspm_client_src_mr ::
  "env \<Rightarrow> protobuf_c \<Rightarrow> dma \<Rightarrow> ptr \<Rightarrow> ptr \<Rightarrow> ptr \<Rightarrow> ptr \<Rightarrow> ptr \<Rightarrow> common_mem \<Rightarrow> pmem \<Rightarrow> ibv_wc \<Rightarrow> st
    \<Rightarrow> ((rc \<times> pmem) \<times> st) option" where
  "sgpspm_client_src_mr E pb dma src_mr conn cfg peer msg m pm wc s = do {
     ((ret, msg_mr), s) \<leftarrow> rpma_mr_reg E peer (of_nat msg) (of_nat KILOBYTE) (RPMA_MR_USAGE_SEND OR RPMA_MR_USAGE_RECV) (Some NULL) s;
     if ret \<noteq> 0 then do {
       (_, s) \<leftarrow> rpma_mr_dereg E (Some src_mr) s;
       gpspm_client_err_conn_disconnect E ret conn cfg peer msg m pm s
     } else sgpspm_client_registered E pb dma (the msg_mr) src_mr conn cfg peer msg m pm wc s
   }"

definition sgpspm_client_configured ::
  "env \<Rightarrow> protobuf_c \<Rightarrow> dma \<Rightarrow> string \<Rightarrow> string \<Rightarrow> ptr \<Rightarrow> ptr \<Rightarrow> ptr \<Rightarrow> common_mem \<Rightarrow> pmem \<Rightarrow> ibv_wc \<Rightarrow> st
    \<Rightarrow> ((rc \<times> pmem) \<times> st) option" where
  "sgpspm_client_configured E pb dma addr port cfg peer msg m pm wc s = do {
     ((ret, conn), s) \<leftarrow> client_connect E peer addr port cfg None NULL s;
     if ret \<noteq> 0 then gpspm_client_err_cfg_delete E ret cfg peer msg m pm s
     else do {
       ((ret, src_mr), s) \<leftarrow> rpma_mr_reg E peer (of_nat (cm_mr_ptr m)) (cm_mr_size m) RPMA_MR_USAGE_WRITE_SRC (Some NULL) s;
       if ret \<noteq> 0 then gpspm_client_err_conn_disconnect E ret conn cfg peer msg m pm s
       else sgpspm_client_src_mr E pb dma (the src_mr) conn cfg peer msg m pm wc s
     }
   }"

definition sgpspm_client_peer ::
  "env \<Rightarrow> protobuf_c \<Rightarrow> dma \<Rightarrow> string \<Rightarrow> string \<Rightarrow> ptr \<Rightarrow> ptr \<Rightarrow> common_mem \<Rightarrow> pmem \<Rightarrow> ibv_wc \<Rightarrow> st
    \<Rightarrow> ((rc \<times> pmem) \<times> st) option" where
  "sgpspm_client_peer E pb dma addr port peer msg m pm wc s = do {
     ((ret, cfg), s) \<leftarrow> rpma_conn_cfg_new E (Some NULL) s;
     if ret \<noteq> 0 then gpspm_client_err_peer_delete E ret peer msg m pm s
     else do {
       (ret, s) \<leftarrow> rpma_conn_cfg_set_rcq_size (the cfg) GPSPM_RCQ_SIZE s;
       if ret \<noteq> 0 then gpspm_client_err_cfg_delete E ret (the cfg) peer msg m pm s
       else do {
         (ret, s) \<leftarrow> rpma_conn_cfg_set_compl_channel (the cfg) True s;
         if ret \<noteq> 0 then gpspm_client_err_cfg_delete E ret (the cfg) peer msg m pm s
         else sgpspm_client_configured E pb dma addr port (the cfg) peer msg m pm wc s
       }
     }
   }"

definition sgpspm_client_main ::
  "env \<Rightarrow> protobuf_c \<Rightarrow> dma \<Rightarrow> string \<Rightarrow> string \<Rightarrow> string option \<Rightarrow> pmem \<Rightarrow> ibv_wc \<Rightarrow> st \<Rightarrow> ((rc \<times> pmem) \<times> st) option" where
  "sgpspm_client_main E pb dma addr port path pm wc s = do {
     (r, s) \<leftarrow> client_mem E path pm s;
     (case r of
        Inl ret \<Rightarrow> Some ((ret, pm), s)
      | Inr (m, pm) \<Rightarrow> do {
          (msg, s) \<leftarrow> malloc_aligned E KILOBYTE s;
          if msg = NULL then gpspm_client_err_free E (- 1) msg m pm s
          else do {
            ((ret, peer), s) \<leftarrow> common_peer_via_address E addr RPMA_UTIL_IBV_CONTEXT_REMOTE NULL s;
            if ret \<noteq> 0 then gpspm_client_err_free E ret msg m pm s
            else sgpspm_client_peer E pb dma addr port peer msg m pm wc s
          }
        })
   }"

subsection \<open>The server\<close>

definition sgpspm_serve ::
  "env \<Rightarrow> protobuf_c \<Rightarrow> dma \<Rightarrow> arrivals \<Rightarrow> ptr \<Rightarrow> ptr \<Rightarrow> ptr \<Rightarrow> common_mem \<Rightarrow> pmem \<Rightarrow> ibv_wc \<Rightarrow> st
    \<Rightarrow> ((rc option \<times> pmem) \<times> st) option" where
  "sgpspm_serve E pb dma arrived conn msg_mr msg m pm wc s = do {
     ((ret, wc), s) \<leftarrow> wait_and_validate_completion E conn IBV_WC_RECV wc s;
     if ret \<noteq> 0 then Some ((Some ret, pm), s)
     else do {
       let pm = remote_stores (arrived (trace s)) pm;
       ((pm, flush_resp_size), s) \<leftarrow> gpspm_answer pb msg m pm (take (unat (wc_byte_len wc)) (dma (trace s))) s;
       (case flush_resp_size of
          None \<Rightarrow> Some ((Some 0, pm), s)
        | Some flush_resp_size \<Rightarrow> do {
            (ret, s) \<leftarrow> rpma_send E conn msg_mr SEND_OFFSET flush_resp_size RPMA_F_COMPLETION_ALWAYS 0 s;
            if ret \<noteq> 0 then Some ((Some ret, pm), s)
            else do {
              ((ret, wc), s) \<leftarrow> wait_and_validate_completion E conn IBV_WC_SEND wc s;
              if ret \<noteq> 0 then Some ((Some ret, pm), s) else Some ((None, pm), s)
            }
          })
     }
   }"

definition sgpspm_server_connected ::
  "env \<Rightarrow> protobuf_c \<Rightarrow> dma \<Rightarrow> arrivals \<Rightarrow> ptr \<Rightarrow> ptr option \<Rightarrow> ptr \<Rightarrow> ptr \<Rightarrow> ptr \<Rightarrow> ptr \<Rightarrow> ptr \<Rightarrow> ptr \<Rightarrow> common_mem \<Rightarrow> pmem \<Rightarrow> ibv_wc \<Rightarrow> st
    \<Rightarrow> ((rc \<times> pmem) \<times> st) option" where
  "sgpspm_server_connected E pb dma arrived conn req cfg msg_mr mr ep peer msg m pm wc s = do {
     ((ret, conn_event), s) \<leftarrow> rpma_conn_next_event E conn (Some RPMA_CONN_UNDEFINED) s;
     let ret = (if ret = 0 \<and> the conn_event \<noteq> RPMA_CONN_ESTABLISHED then - 1 else ret);
     if ret \<noteq> 0 then gpspm_server_err_conn_delete E ret conn req cfg msg_mr mr ep peer msg m pm s
     else do {
       ((r, pm), s) \<leftarrow> sgpspm_serve E pb dma arrived conn msg_mr msg m pm wc s;
       (case r of
          Some ret \<Rightarrow> gpspm_server_err_conn_delete E ret conn req cfg msg_mr mr ep peer msg m pm s
        | None \<Rightarrow> do {
            ((ret, conn), s) \<leftarrow> common_wait_for_conn_close_and_disconnect E conn s;
            gpspm_server_err_conn_delete E ret conn req cfg msg_mr mr ep peer msg m pm s
          })
     }
   }"

definition sgpspm_server_configured ::
  "env \<Rightarrow> protobuf_c \<Rightarrow> dma \<Rightarrow> arrivals \<Rightarrow> ptr \<Rightarrow> ptr \<Rightarrow> ptr \<Rightarrow> ptr \<Rightarrow> ptr \<Rightarrow> ptr \<Rightarrow> ptr \<Rightarrow> common_mem \<Rightarrow> pmem \<Rightarrow> ibv_wc \<Rightarrow> st
    \<Rightarrow> ((rc \<times> pmem) \<times> st) option" where
  "sgpspm_server_configured E pb dma arrived data cfg msg_mr mr ep peer msg m pm wc s = do {
     let pdata = \<lparr>pdata_ptr = data, pdata_len = SIZEOF_COMMON_DATA\<rparr>;
     ((ret, req), s) \<leftarrow> rpma_ep_next_conn_req E ep cfg (Some NULL) s;
     if ret \<noteq> 0 then gpspm_server_err_req_delete E ret req cfg msg_mr mr ep peer msg m pm s
     else do {
       (ret, s) \<leftarrow> rpma_conn_req_recv E (the req) msg_mr RECV_OFFSET MSG_SIZE_MAX 0 s;
       if ret \<noteq> 0 then gpspm_server_err_req_delete E ret req cfg msg_mr mr ep peer msg m pm s
       else do {
         ((ret, req, conn), s) \<leftarrow> rpma_conn_req_connect E req (Some pdata) (Some NULL) s;
         if ret \<noteq> 0 then do {
           ((_, req), s) \<leftarrow> rpma_conn_req_delete E req s;
           gpspm_server_err_req_delete E ret req cfg msg_mr mr ep peer msg m pm s
         } else sgpspm_server_connected E pb dma arrived (the conn) req cfg msg_mr mr ep peer msg m pm wc s
       }
     }
   }"

definition sgpspm_server_registered ::
  "env \<Rightarrow> protobuf_c \<Rightarrow> dma \<Rightarrow> arrivals \<Rightarrow> ptr \<Rightarrow> ptr \<Rightarrow> ptr \<Rightarrow> ptr \<Rightarrow> ptr \<Rightarrow> ptr \<Rightarrow> common_mem \<Rightarrow> pmem \<Rightarrow> ibv_wc \<Rightarrow> st
    \<Rightarrow> ((rc \<times> pmem) \<times> st) option" where
  "sgpspm_server_registered E pb dma arrived data msg_mr mr ep peer msg m pm wc s = do {
     ((ret, _), s) \<leftarrow> common_data_of mr (ucast (cm_data_offset m)) s;
     if ret \<noteq> 0 then gpspm_server_err_mr_dereg E ret msg_mr mr ep peer msg m pm s
     else do {
       ((ret, cfg), s) \<leftarrow> rpma_conn_cfg_new E (Some NULL) s;
       if ret \<noteq> 0 then gpspm_server_err_mr_dereg E ret msg_mr mr ep peer msg m pm s
       else do {
         (ret, s) \<leftarrow> rpma_conn_cfg_set_rcq_size (the cfg) GPSPM_RCQ_SIZE s;
         if ret \<noteq> 0 then gpspm_server_err_cfg_delete E ret (the cfg) msg_mr mr ep peer msg m pm s
         else do {
           (ret, s) \<leftarrow> rpma_conn_cfg_set_compl_channel (the cfg) True s;
           if ret \<noteq> 0 then gpspm_server_err_cfg_delete E ret (the cfg) msg_mr mr ep peer msg m pm s
           else sgpspm_server_configured E pb dma arrived data (the cfg) msg_mr mr ep peer msg m pm wc s
         }
       }
     }
   }"

definition sgpspm_server_mr ::
  "env \<Rightarrow> protobuf_c \<Rightarrow> dma \<Rightarrow> arrivals \<Rightarrow> string option \<Rightarrow> ptr \<Rightarrow> ptr \<Rightarrow> ptr \<Rightarrow> ptr \<Rightarrow> ptr \<Rightarrow> common_mem \<Rightarrow> pmem \<Rightarrow> ibv_wc \<Rightarrow> st
    \<Rightarrow> ((rc \<times> pmem) \<times> st) option" where
  "sgpspm_server_mr E pb dma arrived path data mr ep peer msg m pm wc s = do {
     (ret, s) \<leftarrow> advise_mem E path m mr s;
     if ret \<noteq> 0 then gpspm_server_err_mr_dereg E ret NULL mr ep peer msg m pm s
     else do {
       ((ret, msg_mr), s) \<leftarrow> rpma_mr_reg E peer (of_nat msg) (of_nat KILOBYTE)
         (RPMA_MR_USAGE_SEND OR RPMA_MR_USAGE_RECV OR RPMA_MR_USAGE_FLUSH_TYPE_VISIBILITY) (Some NULL) s;
       if ret \<noteq> 0 then do {
         (_, s) \<leftarrow> rpma_mr_dereg E (Some mr) s;
         gpspm_server_err_ep_shutdown E ret ep peer msg m pm s
       } else sgpspm_server_registered E pb dma arrived data (the msg_mr) mr ep peer msg m pm wc s
     }
   }"

definition sgpspm_server_buffer ::
  "env \<Rightarrow> protobuf_c \<Rightarrow> dma \<Rightarrow> arrivals \<Rightarrow> string \<Rightarrow> string \<Rightarrow> string option \<Rightarrow> ptr \<Rightarrow> ptr \<Rightarrow> common_mem \<Rightarrow> pmem \<Rightarrow> ibv_wc \<Rightarrow> st
    \<Rightarrow> ((rc \<times> pmem) \<times> st) option" where
  "sgpspm_server_buffer E pb dma arrived addr port path data msg m pm wc s = do {
     ((ret, peer), s) \<leftarrow> common_peer_via_address E addr RPMA_UTIL_IBV_CONTEXT_LOCAL NULL s;
     if ret \<noteq> 0 then gpspm_server_err_free E ret msg m pm s
     else do {
       ((ret, ep), s) \<leftarrow> rpma_ep_listen E peer (Some addr) (Some port) (Some NULL) s;
       if ret \<noteq> 0 then gpspm_server_err_peer_delete E ret peer msg m pm s
       else do {
         ((ret, mr), s) \<leftarrow> rpma_mr_reg E peer (of_nat (cm_mr_ptr m)) (cm_mr_size m)
           (RPMA_MR_USAGE_WRITE_DST OR
            (if cm_is_pmem m \<noteq> 0 then RPMA_MR_USAGE_FLUSH_TYPE_PERSISTENT else RPMA_MR_USAGE_FLUSH_TYPE_VISIBILITY)) (Some NULL) s;
         if ret \<noteq> 0 then gpspm_server_err_ep_shutdown E ret (the ep) peer msg m pm s
         else sgpspm_server_mr E pb dma arrived path data (the mr) (the ep) peer msg m pm wc s
       }
     }
   }"

definition sgpspm_server_main ::
  "env \<Rightarrow> protobuf_c \<Rightarrow> dma \<Rightarrow> arrivals \<Rightarrow> string \<Rightarrow> string \<Rightarrow> string option \<Rightarrow> ptr \<Rightarrow> pmem \<Rightarrow> ibv_wc \<Rightarrow> st
    \<Rightarrow> ((rc \<times> pmem) \<times> st) option" where
  "sgpspm_server_main E pb dma arrived addr port path data pm wc s = do {
     (r, s) \<leftarrow> server_mem E path pm s;
     (case r of
        Inl ret \<Rightarrow> Some ((ret, pm), s)
      | Inr (m, pm) \<Rightarrow> do {
          (msg, s) \<leftarrow> malloc_aligned E KILOBYTE s;
          if msg = NULL then gpspm_server_err_free E (- 1) msg m pm s
          else sgpspm_server_buffer E pb dma arrived addr port path data msg m pm wc s
        })
   }"

subsection \<open>What the programs leave\<close>

lemma wp_sgpspm_await:
  assumes "P s" and "stable E P" and "conn_live P conn q" and "queues_live P conn" and "\<And>r s'. P s' \<Longrightarrow> Q r s'"
  shows "wp (sgpspm_await E conn wc s) Q"
  unfolding sgpspm_await_def
  by (auto intro!: wp_validate_completion_live [where P = P, OF _ assms(2,4)] assms(1,5))

lemma wp_sgpspm_flush_greeting:
  assumes s: "P s" and P: "stable E P" and pb: "protobuf_library pb"
    and l: "conn_live P conn q" "queues_live P conn" "live P src_mr O_mr_local" "live P msg_mr O_mr_local" "live P dst_mr O_mr_remote"
    and m: "sized P (msg_mem msg) KILOBYTE" "sized P m n" "mem_ready m n HELLO_T_SIZE pm" and Q: "\<And>ret pm s'. P s' \<Longrightarrow> Q (ret, pm) s'"
  shows "wp (sgpspm_flush_greeting E pb dma conn dst_mr off msg_mr src_mr msg m pm wc s) Q"
  unfolding sgpspm_flush_greeting_def
  by (auto intro!: wp_get_size [where P = P, OF s l(5)] wp_write [where P = P, OF s P l(1,3,5) flags_nonzero(2)]
      wp_gpspm_request [where P = P, OF _ P pb l(1,4) m(1)] wp_sgpspm_await [where P = P, OF _ P l(1,2)] wp_gpspm_confirm [where P = P, OF _ m(2,3)]
      Q s split: option.split)

lemma wp_sgpspm_client_registered:
  assumes s: "gp_mrs m n E P msg peer cfg q conn mr k s" and P: "stable E P" and wf: "events_wf E" and pb: "protobuf_library pb"
    and m: "mem_ready m n HELLO_T_SIZE pm" and Q: "\<And>ret pm s'. P s' \<Longrightarrow> Q (ret, pm) s'"
  shows "wp (sgpspm_client_registered E pb dma k mr conn cfg peer msg m pm wc s) Q"
proof -
  let ?P = "gp_mrs m n E P msg peer cfg q conn mr k"
  let ?R = "over (owns_plain O_mr_remote) E ?P"
  have l: "conn_live ?P conn q" by (intro lives)
  have r: "conn_live (?R i) conn q" "queues_live (?R i) conn" "live (?R i) mr O_mr_local" "live (?R i) k O_mr_local" "live (?R i) i O_mr_remote"
    "sized (?R i) (msg_mem msg) KILOBYTE" "sized (?R i) m n" for i by (intro lives queues all_sizes)+
  have nn: "cm_mr_ptr m \<noteq> NULL" using m by (simp add: mem_ready_def)
  show ?thesis
    unfolding sgpspm_client_registered_def
    by (auto intro!: wp_private_data [where P = ?P, OF s l] wp_remote_from_data [OF mr_scope.stable_over s]
        wp_sgpspm_flush_greeting [where P = "?R i" for i, OF _ plain_scope.stable_over pb r m]
        wp_gpspm_client_err_mr_dereg [OF _ P nn wf] wp_gpspm_client_err_mr_remote_delete [OF _ P nn wf] s Q)
qed

lemma wp_sgpspm_client_src_mr:
  assumes s: "gp_src m n E P msg peer cfg q conn mr s" and P: "stable E P" and wf: "events_wf E" and pb: "protobuf_library pb"
    and m: "mem_ready m n HELLO_T_SIZE pm" and Q: "\<And>ret pm s'. P s' \<Longrightarrow> Q (ret, pm) s'"
  shows "wp (sgpspm_client_src_mr E pb dma mr conn cfg peer msg m pm wc s) Q"
proof -
  have l: "live (gp_src m n E P msg peer cfg q conn mr) peer O_peer" by (intro lives)
  have nn: "cm_mr_ptr m \<noteq> NULL" using m by (simp add: mem_ready_def)
  show ?thesis
    unfolding sgpspm_client_src_mr_def
    by (auto intro!: wp_push_mr [OF mr_scope.stable_over s liveD [OF l s]] mr_scope.wp_pop [OF _ cq_scope.stable_over]
        wp_gpspm_client_err_conn_disconnect [OF _ P nn wf] wp_sgpspm_client_registered [OF _ P wf pb m] Q)
qed

lemma wp_sgpspm_client_configured:
  assumes s: "gp_cfg m n E P msg peer cfg s" and P: "stable E P" and wf: "events_wf E" and pb: "protobuf_library pb"
    and m: "mem_ready m n HELLO_T_SIZE pm" and Q: "\<And>ret pm s'. P s' \<Longrightarrow> Q (ret, pm) s'"
  shows "wp (sgpspm_client_configured E pb dma addr port cfg peer msg m pm wc s) Q"
proof -
  let ?P = "gp_cfg m n E P msg peer cfg"
  have l: "live ?P peer O_peer" "live ?P cfg O_conn_cfg" "live (gp_conn m n E P msg peer cfg q conn) peer O_peer" for q conn by (intro lives)+
  have pd: "pdata_arg_ok None" by simp
  have nn: "cm_mr_ptr m \<noteq> NULL" using m by (simp add: mem_ready_def)
  show ?thesis
    unfolding sgpspm_client_configured_def
    by (auto intro!: wp_client_connect_cq [where P = ?P, OF s plain_scope.stable_over l(1) disjI2 [OF l(2)] pd wf]
        wp_push_mr [OF cq_scope.stable_over _ liveD [OF l(3)]] wp_gpspm_client_err_cfg_delete [OF _ P nn]
        wp_gpspm_client_err_conn_disconnect [OF _ P nn wf] wp_sgpspm_client_src_mr [OF _ P wf pb m] Q)
qed

lemma wp_sgpspm_client_peer:
  assumes s: "gp_peer m n E P msg peer s" and P: "stable E P" and wf: "events_wf E" and pb: "protobuf_library pb"
    and m: "mem_ready m n HELLO_T_SIZE pm" and Q: "\<And>ret pm s'. P s' \<Longrightarrow> Q (ret, pm) s'"
  shows "wp (sgpspm_client_peer E pb dma addr port peer msg m pm wc s) Q"
proof -
  let ?C = "gp_cfg m n E P msg peer"
  have l: "live (?C i) i O_conn_cfg" for i by (intro lives)
  have a: "allows (?C i) i (\<lambda>_. O_conn_cfg d)" for i d by (intro allow)
  have nn: "cm_mr_ptr m \<noteq> NULL" using m by (simp add: mem_ready_def)
  show ?thesis
    unfolding sgpspm_client_peer_def
    by (auto intro!: wp_push_conn_cfg [OF s peer_scope.stable_over] wp_set_conn_cfg [where P = "?C i" for i, OF _ l a]
        wp_gpspm_client_err_peer_delete [OF _ P nn] wp_gpspm_client_err_cfg_delete [OF _ P nn] wp_sgpspm_client_configured [OF _ P wf pb m] Q)
qed

lemma wp_sgpspm_client_main:
  assumes s: "P s" and P: "stable E P" and wf: "events_wf E" and pb: "protobuf_library pb"
    and fits: "file_fits E path HELLO_T_SIZE pm" and Q: "\<And>ret pm s'. P s' \<Longrightarrow> Q (ret, pm) s'"
  shows "wp (sgpspm_client_main E pb dma addr port path pm wc s) Q"
  unfolding sgpspm_client_main_def wp_bind
proof (rule wp_client_mem [OF P s fits], goal_cases)
  case (1 m n pm' s')
  then have nn: "cm_mr_ptr m \<noteq> NULL" by (simp add: mem_ready_def)
  from 1 show ?case
    by (auto intro!: wp_malloc_sized [OF region_scope.stable_over 1(1)] wp_common_peer_via_address [OF region_scope.stable_over]
        wp_gpspm_client_no_buffer [OF _ P nn] wp_sgpspm_client_peer [OF _ P wf pb 1(2)] Q intro: wp_gpspm_client_err_free [OF _ P nn])
qed (simp add: Q)

lemma wp_sgpspm_serve:
  assumes s: "P s" and P: "stable E P" and pb: "protobuf_library pb" and fit: "requests_fit pb dma"
    and l: "conn_live P conn q" "queues_live P conn" "live P msg_mr O_mr_local"
    and m: "sized P (msg_mem msg) KILOBYTE" "mem_ready m n KILOBYTE pm" and Q: "\<And>ret pm s'. P s' \<Longrightarrow> Q (ret, pm) s'"
  shows "wp (sgpspm_serve E pb dma arrived conn msg_mr msg m pm wc s) Q"
proof -
  have room: "cm_is_pmem m \<noteq> 0 \<Longrightarrow> SIGNATURE_LEN + KILOBYTE \<le> length (pm_image (remote_stores ws pm))" for ws
    using m(2) by (simp add: mem_ready_def)
  show ?thesis
    unfolding sgpspm_serve_def Let_def
    by (auto intro!: wp_validate_completion_live [where P = P, OF _ P l(2)] wp_gpspm_answer [where P = P, OF _ pb fit m(1) room]
        wp_send(1) [where P = P, OF _ P l(1,3)] Q s split: option.split)
qed

lemma wp_sgpspm_server_connected:
  assumes s: "over (owns_conn_of E) E (gp_ep_cfg m n E P msg peer ep mr k cfg) conn s" and P: "stable E P" and wf: "events_wf E"
    and pb: "protobuf_library pb" and fit: "requests_fit pb dma" and m: "mem_ready m n KILOBYTE pm" and Q: "\<And>ret pm s'. P s' \<Longrightarrow> Q (ret, pm) s'"
  shows "wp (sgpspm_server_connected E pb dma arrived conn (Some NULL) cfg k mr ep peer msg m pm wc s) Q"
  unfolding sgpspm_server_connected_def wp_bind
proof (rule wp_next_event [OF s wf], goal_cases)
  case (1 ret out t)
  then obtain q where t: "gp_ep_conn m n E P msg peer ep mr k cfg q conn t" using over_some_cq by blast
  let ?P = "gp_ep_conn m n E P msg peer ep mr k cfg q conn"
  have l: "conn_live ?P conn q" "queues_live ?P conn" "live ?P k O_mr_local" "sized ?P (msg_mem msg) KILOBYTE" by (intro lives queues all_sizes)+
  have nn: "cm_mr_ptr m \<noteq> NULL" using m by (simp add: mem_ready_def)
  have del: "wp (gpspm_server_err_conn_delete E ret conn (Some NULL) cfg k mr ep peer msg m pm t) Q" if "?P t" for ret pm t
    using that by (intro wp_gpspm_server_err_conn_delete [where n = n, OF _ P nn] Q) (simp_all add: over_conn_cq)
  show ?case
    using t unfolding Let_def
    by (auto intro!: wp_sgpspm_serve [where P = ?P, OF _ cq_scope.stable_over pb fit l m] wp_close_cq [OF _ plain_scope.stable_over wf] del
        wp_gpspm_server_conn_closed [OF _ P nn] Q split: option.split)
qed

lemma wp_sgpspm_server_configured:
  assumes s: "gp_ep_cfg m n E P msg peer ep mr k cfg s" and P: "stable E P" and wf: "events_wf E" and data: "data \<noteq> NULL"
    and pb: "protobuf_library pb" and fit: "requests_fit pb dma" and m: "mem_ready m n KILOBYTE pm" and Q: "\<And>ret pm s'. P s' \<Longrightarrow> Q (ret, pm) s'"
  shows "wp (sgpspm_server_configured E pb dma arrived data cfg k mr ep peer msg m pm wc s) Q"
proof -
  let ?P = "gp_ep_cfg m n E P msg peer ep mr k cfg"
  have l: "ep_live ?P ep peer" "live ?P peer O_peer" "live ?P k O_mr_local" "live ?P cfg O_conn_cfg" by (intro lives ep_lives)+
  have pd: "pdata_arg_ok (Some \<lparr>pdata_ptr = data, pdata_len = SIZEOF_COMMON_DATA\<rparr>)"
    using data by (simp add: pdata_arg_ok_def SIZEOF_COMMON_DATA_def)
  have nn: "cm_mr_ptr m \<noteq> NULL" using m by (simp add: mem_ready_def)
  show ?thesis
    unfolding sgpspm_server_configured_def Let_def
    by (auto simp: req_delete_null intro!: wp_next_req_null [where P = ?P, OF s plain_scope.stable_over l(1,2) disjI2 [OF l(4)] wf]
        wp_req_recv [where P = ?P, OF _ l(3)] wp_req_connect [where P = ?P, OF plain_scope.stable_over _ liveD [OF l(2)] pd]
        wp_gpspm_server_no_req [OF _ P nn] wp_sgpspm_server_connected [OF _ P wf pb fit m] Q
        intro: wp_gpspm_server_err_req_delete [OF _ P nn])
qed

lemma wp_sgpspm_server_registered:
  assumes s: "gp_msg_mr m n E P msg peer ep mr k s" and P: "stable E P" and wf: "events_wf E" and data: "data \<noteq> NULL"
    and pb: "protobuf_library pb" and fit: "requests_fit pb dma" and m: "mem_ready m n KILOBYTE pm" and Q: "\<And>ret pm s'. P s' \<Longrightarrow> Q (ret, pm) s'"
  shows "wp (sgpspm_server_registered E pb dma arrived data k mr ep peer msg m pm wc s) Q"
proof -
  let ?P = "gp_msg_mr m n E P msg peer ep mr k"
  let ?C = "gp_ep_cfg m n E P msg peer ep mr k"
  have l: "live ?P mr O_mr_local" "live (?C i) i O_conn_cfg" for i by (intro lives)+
  have a: "allows (?C i) i (\<lambda>_. O_conn_cfg d)" for i d by (intro allow)
  have nn: "cm_mr_ptr m \<noteq> NULL" using m by (simp add: mem_ready_def)
  show ?thesis
    unfolding sgpspm_server_registered_def
    by (auto intro!: wp_common_data_of [where P = ?P, OF s l(1)] wp_push_conn_cfg [OF s mr_scope.stable_over]
        wp_set_conn_cfg [where P = "?C i" for i, OF _ l(2) a] wp_gpspm_server_err_mr_dereg [OF _ P nn] wp_gpspm_server_err_cfg_delete [OF _ P nn]
        wp_sgpspm_server_configured [OF _ P wf data pb fit m] s Q)
qed

lemma wp_sgpspm_server_mr:
  assumes s: "gp_mr m n E P msg peer ep mr s" and P: "stable E P" and wf: "events_wf E" and data: "data \<noteq> NULL"
    and pb: "protobuf_library pb" and fit: "requests_fit pb dma" and m: "mem_ready m n KILOBYTE pm" and Q: "\<And>ret pm s'. P s' \<Longrightarrow> Q (ret, pm) s'"
  shows "wp (sgpspm_server_mr E pb dma arrived path data mr ep peer msg m pm wc s) Q"
proof -
  let ?P = "gp_mr m n E P msg peer ep mr"
  have l: "live ?P peer O_peer" "live ?P mr O_mr_local" by (intro lives)+
  have nn: "cm_mr_ptr m \<noteq> NULL" using m by (simp add: mem_ready_def)
  show ?thesis
    unfolding sgpspm_server_mr_def
    by (auto intro!: wp_advise_mem [where P = ?P, OF s mr_scope.stable_over l(2)] wp_push_mr [OF mr_scope.stable_over _ liveD [OF l(1)]]
        mr_scope.wp_pop [OF _ ep_scope.stable_over] wp_gpspm_server_no_msg_mr [OF _ P nn] wp_gpspm_server_err_ep_shutdown [OF _ P nn]
        wp_sgpspm_server_registered [OF _ P wf data pb fit m] Q)
qed

lemma wp_sgpspm_server_buffer:
  assumes s: "gp_msg m n E P msg s" and P: "stable E P" and wf: "events_wf E" and data: "data \<noteq> NULL"
    and pb: "protobuf_library pb" and fit: "requests_fit pb dma" and m: "mem_ready m n KILOBYTE pm" and Q: "\<And>ret pm s'. P s' \<Longrightarrow> Q (ret, pm) s'"
  shows "wp (sgpspm_server_buffer E pb dma arrived addr port path data msg m pm wc s) Q"
proof -
  have l: "live (gp_peer m n E P msg peer) peer O_peer" "live (gp_ep m n E P msg peer ep) peer O_peer" for peer ep by (intro lives)+
  have nn: "cm_mr_ptr m \<noteq> NULL" using m by (simp add: mem_ready_def)
  show ?thesis
    unfolding sgpspm_server_buffer_def
    by (auto intro!: wp_common_peer_via_address [OF region_scope.stable_over s] wp_push_ep [OF peer_scope.stable_over _ live_nonnull [OF l(1)]]
        wp_push_mr [OF ep_scope.stable_over _ liveD [OF l(2)]] wp_gpspm_server_err_free [OF _ P nn] wp_gpspm_server_err_peer_delete [OF _ P nn]
        wp_gpspm_server_err_ep_shutdown [OF _ P nn] wp_sgpspm_server_mr [OF _ P wf data pb fit m] Q)
qed

lemma wp_sgpspm_server_main:
  assumes s: "P s" and P: "stable E P" and wf: "events_wf E" and data: "data \<noteq> NULL" and pb: "protobuf_library pb"
    and fit: "requests_fit pb dma" and fits: "file_fits E path KILOBYTE pm" and Q: "\<And>ret pm s'. P s' \<Longrightarrow> Q (ret, pm) s'"
  shows "wp (sgpspm_server_main E pb dma arrived addr port path data pm wc s) Q"
  unfolding sgpspm_server_main_def wp_bind
proof (rule wp_server_mem [OF P s fits], goal_cases)
  case (1 m n pm' s')
  then have nn: "cm_mr_ptr m \<noteq> NULL" by (simp add: mem_ready_def)
  from 1 show ?case
    by (auto intro!: wp_malloc_sized [OF region_scope.stable_over 1(1)] wp_gpspm_server_no_buffer [OF _ P nn]
        wp_sgpspm_server_buffer [OF _ P wf data pb fit 1(2)] Q)
qed (simp add: Q)

end
