(* ===== verification/Multi_Client.thy ===== *)
theory Multi_Client
  imports Shared_Memory Strtoul Multi_Server
begin

text \<open>
  The clients of the examples with many connections, \<open>src/examples/06-multiple-connections/client.c\<close> and
  \<open>06s-multiple-connections/client.c\<close>: a name is picked, registered and described to the server, and the client waits until the server
  closes the connection. \<open>rand\<close> is the first number that \<open>rand(3)\<close> gives after \<open>srand(3)\<close> with a seed, and \<open>data\<close> the address of
  the local structure with the private data.
\<close>

definition Names :: "string list" where
  "Names = [''Andy'', ''Chet'', ''Derek'', ''Janek'', ''Lukasz'', ''Oksana'', ''Pawel'', ''Piotr'', ''Tomasz'', ''Xiang'', ''Xiaoran'', ''Xiaoyan'']"

definition Names_s :: "string list" where
  "Names_s = [''Andy'', ''Chet'', ''Derek'', ''Janek'', ''Kacper'', ''Lukasz'', ''Oksana'', ''Pawel'', ''Piotr'', ''Tomasz'', ''Xiang'', ''Xiaoran'', ''Xiaoyan'']"

definition UINT_MAX :: u64 where "UINT_MAX = 0xFFFFFFFF"

text \<open>The bytes of the block after the name was copied and terminated.\<close>

definition name_block :: "string list \<Rightarrow> (u32 \<Rightarrow> nat) \<Rightarrow> u64 \<Rightarrow> u8 list" where
  "name_block names rand seed =
     (let name = names ! (rand (ucast (seed mod UINT_MAX)) mod length names)
      in strncpy (map of_char name) (MAX_NAME_SIZE - 1) @ [0])"

definition multi_client_err_peer_delete :: "env \<Rightarrow> rc \<Rightarrow> ptr \<Rightarrow> st \<Rightarrow> (rc \<times> st) option" where
  "multi_client_err_peer_delete E ret peer s = do {
     (_, s) \<leftarrow> rpma_peer_delete E (Some peer) s;
     Some (ret, s)
   }"

definition multi_client_err_mr_free :: "env \<Rightarrow> rc \<Rightarrow> ptr \<Rightarrow> ptr \<Rightarrow> st \<Rightarrow> (rc \<times> st) option" where
  "multi_client_err_mr_free E ret mr_ptr peer s = do {
     (_, s) \<leftarrow> free mr_ptr s;
     multi_client_err_peer_delete E ret peer s
   }"

definition multi_client_err_mr_dereg :: "env \<Rightarrow> rc \<Rightarrow> ptr \<Rightarrow> ptr \<Rightarrow> ptr \<Rightarrow> st \<Rightarrow> (rc \<times> st) option" where
  "multi_client_err_mr_dereg E ret mr mr_ptr peer s = do {
     (_, s) \<leftarrow> rpma_mr_dereg E (Some mr) s;
     multi_client_err_mr_free E ret mr_ptr peer s
   }"

text \<open>From the moment the name is registered.\<close>

definition multi_client_registered :: "env \<Rightarrow> string \<Rightarrow> string \<Rightarrow> ptr \<Rightarrow> ptr \<Rightarrow> ptr \<Rightarrow> ptr \<Rightarrow> st \<Rightarrow> (rc \<times> st) option" where
  "multi_client_registered E addr port data mr mr_ptr peer s = do {
     ((ret, _), s) \<leftarrow> common_data_of mr 0 s;
     if ret \<noteq> 0 then multi_client_err_mr_dereg E ret mr mr_ptr peer s
     else do {
       let pdata = \<lparr>pdata_ptr = data, pdata_len = SIZEOF_COMMON_DATA\<rparr>;
       ((ret, conn), s) \<leftarrow> client_connect E peer addr port NULL (Some pdata) NULL s;
       if ret \<noteq> 0 then multi_client_err_mr_dereg E ret mr mr_ptr peer s
       else do {
         ((ret, _), s) \<leftarrow> common_wait_for_conn_close_and_disconnect E conn s;
         multi_client_err_mr_dereg E ret mr mr_ptr peer s
       }
     }
   }"

definition multi_client_peer ::
  "env \<Rightarrow> string list \<Rightarrow> (u32 \<Rightarrow> nat) \<Rightarrow> string \<Rightarrow> string \<Rightarrow> u64 \<Rightarrow> ptr \<Rightarrow> ptr \<Rightarrow> st \<Rightarrow> (rc \<times> st) option" where
  "multi_client_peer E names rand addr port seed data peer s = do {
     (mr_ptr, s) \<leftarrow> malloc_aligned E MAX_NAME_SIZE s;
     if mr_ptr = NULL then multi_client_err_peer_delete E (- 1) peer s
     else do {
       (_, s) \<leftarrow> store mr_ptr (O_bytes (name_block names rand seed)) s;
       ((ret, mr), s) \<leftarrow> rpma_mr_reg E peer (of_nat mr_ptr) (of_nat MAX_NAME_SIZE) RPMA_MR_USAGE_READ_SRC (Some NULL) s;
       if ret \<noteq> 0 then multi_client_err_mr_free E ret mr_ptr peer s
       else multi_client_registered E addr port data (the mr) mr_ptr peer s
     }
   }"

definition multi_client_main ::
  "env \<Rightarrow> (u32 \<Rightarrow> nat) \<Rightarrow> string \<Rightarrow> string \<Rightarrow> string \<Rightarrow> ptr \<Rightarrow> st \<Rightarrow> (rc \<times> st) option" where
  "multi_client_main E rand addr port arg data s =
     (let (seed, erange) = strtoul arg in
      if seed = ULONG_MAX \<and> erange then Some (- 1, s)
      else do {
        ((ret, peer), s) \<leftarrow> common_peer_via_address E addr RPMA_UTIL_IBV_CONTEXT_REMOTE NULL s;
        if ret \<noteq> 0 then Some (ret, s)
        else multi_client_peer E Names rand addr port seed data peer s
      })"

text \<open>The client of \<open>06s-multiple-connections\<close> has one more name.\<close>

definition multi_client_s_main ::
  "env \<Rightarrow> (u32 \<Rightarrow> nat) \<Rightarrow> string \<Rightarrow> string \<Rightarrow> string \<Rightarrow> ptr \<Rightarrow> st \<Rightarrow> (rc \<times> st) option" where
  "multi_client_s_main E rand addr port arg data s =
     (let (seed, erange) = strtoul arg in
      if seed = ULONG_MAX \<and> erange then Some (- 1, s)
      else do {
        ((ret, peer), s) \<leftarrow> common_peer_via_address E addr RPMA_UTIL_IBV_CONTEXT_REMOTE NULL s;
        if ret \<noteq> 0 then Some (ret, s)
        else multi_client_peer E Names_s rand addr port seed data peer s
      })"

subsection \<open>The name\<close>

text \<open>What is exposed is one of the names, complete and terminated, in a block of the announced size.\<close>

lemma names_short: "name \<in> set Names \<union> set Names_s \<Longrightarrow> length name < MAX_NAME_SIZE - 1 \<and> (\<forall>c \<in> set name. (of_char c :: u8) \<noteq> 0)"
  by (auto simp: Names_def Names_s_def MAX_NAME_SIZE_def)

lemma name_exposed:
  assumes "names = Names \<or> names = Names_s"
  shows "\<exists>name \<in> set names. length (name_block names rand seed) = MAX_NAME_SIZE \<and> c_string (name_block names rand seed) = map of_char name"
proof -
  let ?name = "names ! (rand (ucast (seed mod UINT_MAX)) mod length names)"
  have ne: "0 < length names" using assms by (auto simp: Names_def Names_s_def)
  then have m: "?name \<in> set names" by simp
  with assms have sh: "length ?name < MAX_NAME_SIZE - 1" "\<forall>c \<in> set ?name. (of_char c :: u8) \<noteq> 0" using names_short by blast+
  have z: "takeWhile (\<lambda>b. b \<noteq> 0) (map of_char ?name @ 0 # ys) = (map of_char ?name :: u8 list)" for ys
    using sh(2) by (subst takeWhile_append2) auto
  obtain k where k: "MAX_NAME_SIZE - 1 - length ?name = Suc k" using sh(1) by (cases "MAX_NAME_SIZE - 1 - length ?name") auto
  have tw: "takeWhile (\<lambda>b. b \<noteq> 0) (map of_char ?name) = (map of_char ?name :: u8 list)" using sh(2) by (simp add: takeWhile_eq_all_conv)
  have "strncpy (map of_char ?name) (MAX_NAME_SIZE - 1) = map of_char ?name @ 0 # replicate k 0"
    unfolding strncpy_def c_string_def tw using sh(1) k by simp
  then have "c_string (name_block names rand seed) = map of_char ?name" by (simp add: name_block_def c_string_def z Let_def)
  moreover have "length (name_block names rand seed) = MAX_NAME_SIZE" by (simp add: name_block_def Let_def MAX_NAME_SIZE_def)
  ultimately show ?thesis using m by blast
qed

subsection \<open>What the clients leave\<close>

abbreviation "name_ptr E P peer p \<equiv> over (owns_plain O_bytes) E (over owns_peer E P peer) p"
abbreviation "name_mr E P peer p mr \<equiv> over owns_mr E (name_ptr E P peer p) mr"

lemma wp_multi_client_err_peer_delete:
  assumes "over owns_peer E P peer s" and "stable E P" and "\<And>s'. P s' \<Longrightarrow> Q ret s'"
  shows "wp (multi_client_err_peer_delete E ret peer s) Q"
  using assms by (auto simp: multi_client_err_peer_delete_def intro!: peer_scope.wp_pop)

lemma wp_multi_client_err_mr_free:
  assumes "name_ptr E P peer p s" and "stable E P" and "\<And>s'. P s' \<Longrightarrow> Q ret s'"
  shows "wp (multi_client_err_mr_free E ret p peer s) Q"
  using assms by (auto simp: multi_client_err_mr_free_def intro!: wp_pop_free peer_scope.stable_over wp_multi_client_err_peer_delete)

lemma wp_multi_client_err_mr_dereg:
  assumes "name_mr E P peer p mr s" and "stable E P" and "\<And>s'. P s' \<Longrightarrow> Q ret s'"
  shows "wp (multi_client_err_mr_dereg E ret mr p peer s) Q"
  using assms by (auto simp: multi_client_err_mr_dereg_def intro!: mr_scope.wp_pop plain_scope.stable_over wp_multi_client_err_mr_free)

lemma wp_multi_client_registered:
  assumes s: "name_mr E P peer p mr s" and P: "stable E P" and wf: "events_wf E" and data: "data \<noteq> NULL" and Q: "\<And>ret s'. P s' \<Longrightarrow> Q ret s'"
  shows "wp (multi_client_registered E addr port data mr p peer s) Q"
proof -
  let ?P = "name_mr E P peer p mr"
  have l: "live ?P mr O_mr_local" "live ?P peer O_peer" by (intro lives)+
  have pd: "pdata_arg_ok (Some \<lparr>pdata_ptr = data, pdata_len = SIZEOF_COMMON_DATA\<rparr>)"
    using data by (simp add: pdata_arg_ok_def SIZEOF_COMMON_DATA_def)
  show ?thesis
    unfolding multi_client_registered_def Let_def
    by (auto intro!: wp_common_data_of [where P = ?P, OF s l(1)] wp_client_connect_cq [where P = ?P, OF s mr_scope.stable_over l(2) _ pd wf]
        wp_close_cq [OF _ mr_scope.stable_over wf] s wp_multi_client_err_mr_dereg [OF _ P] Q)
qed

lemma wp_multi_client_peer:
  assumes s: "over owns_peer E P peer s" and P: "stable E P" and wf: "events_wf E" and data: "data \<noteq> NULL" and Q: "\<And>ret s'. P s' \<Longrightarrow> Q ret s'"
  shows "wp (multi_client_peer E names rand addr port seed data peer s) Q"
proof -
  have l: "live (name_ptr E P peer p) peer O_peer" for p by (intro lives)
  have a: "allows (name_ptr E P peer p) p (\<lambda>_. O_bytes x)" for p x by (intro allow)
  show ?thesis
    unfolding multi_client_peer_def
    by (auto intro!: wp_malloc_aligned [OF peer_scope.stable_over s] wp_store_allowed [where P = "name_ptr E P peer p" for p, OF _ a]
        wp_push_mr [OF plain_scope.stable_over _ liveD [OF l]] wp_multi_client_err_peer_delete [OF _ P] wp_multi_client_err_mr_free [OF _ P]
        wp_multi_client_registered [OF _ P wf data] Q)
qed

lemma wp_multi_client_main:
  assumes s: "P s" and P: "stable E P" and wf: "events_wf E" and data: "data \<noteq> NULL" and Q: "\<And>ret s'. P s' \<Longrightarrow> Q ret s'"
  shows "wp (multi_client_main E rand addr port arg data s) Q" and "wp (multi_client_s_main E rand addr port arg data s) Q"
  using s unfolding multi_client_main_def multi_client_s_main_def
  by (auto intro!: wp_common_peer_via_address [OF P s] wp_multi_client_peer [OF _ P wf data] Q split: prod.split)

end
