(* ===== verification/Programs.thy ===== *)
theory Programs
  imports Ex_Connection Read_Volatile Persistent_Props Log_Server Receive_Cq_Shared Immediate_Props
    Gpspm_Shared Multi_Client
begin

text \<open>
  What the example programs leave behind, for the clients and the servers with one connection
  (\<open>src/examples/01-connection\<close> to \<open>05-flush-to-persistent\<close> and \<open>07-atomic-write\<close> to
  \<open>12s-receive-completion-queue\<close>) and the clients of \<open>06-multiple-connections\<close> and \<open>06s-multiple-connections\<close>, and what the cleanup of the client of \<open>02-read-to-volatile\<close> leaves when the second of its servers fails.
\<close>


abbreviation "sample_file \<equiv> \<lparr>pm_image = replicate 2048 0, pm_ops = []\<rparr>"

lemma pmem_env_ok:
  "events_wf pmem_env" "no_requests pmem_env" "file_fits pmem_env (Some ''f'') HELLO_T_SIZE sample_file"
  "file_fits pmem_env (Some ''f'') KILOBYTE sample_file" "log_fits pmem_env (Some ''f'') sample_file" "cfg_in_bounds pmem_env"
  by (simp_all add: pmem_env_def events_wf_def event_wf_def no_requests_def sample_respond_def sample_cm_event_def sample_ibv_mr_def
      file_fits_def log_fits_def cfg_in_bounds_def event_payload_def signature_len hello_t_size KILOBYTE_def)




text \<open>The client of the read example with two servers is different. Its second group of labels gives back what belongs
  to the second server and returns the result \<open>ret\<close> of the first, which is 0 when it is entered from the code
  of the second server; whatever is held for the first server stays held.\<close>

lemma volatile_second_cleanup:
  assumes "vol_conn E (over (owns_conn_cq E r) E P k) (vc_peer b) (vc_dst_ptr b) (vc_dst_mr b) q (vc_conn b) s" and "events_wf E"
  shows "wp (volatile_err_conn_disconnect1 E 0 b s) (\<lambda>ret s'. ret = 0 \<and> over (owns_conn_cq E r) E P k s')"
  by (rule wp_volatile_err_conn_disconnect1 [OF assms(1) cq_scope.stable_over assms(2)]) simp

end
