(* ===== verification/Log_Props.thy ===== *)
theory Log_Props
  imports Log_Server
begin

text \<open>
  Properties of the two sides of the atomic-write example together: what the client does to the log, seen
  through what the server prints, and the log in persistent memory across power failures.
\<close>

definition printed :: "u8 list \<Rightarrow> u8 list" where
  "printed bs = map (\<lambda>b. if b \<noteq> 0 then b else 10) bs"

lemma log_output_data:
  assumes "unat (log_used img) \<le> length img"
  shows "log_output img = Some (printed (log_data img))"
  using assms by (simp add: log_output_def log_data_def log_used_def printed_def Let_def)

lemma log_stage_output:
  assumes "log_used img = used" and "16 \<le> unat used" and "unat used + length x \<le> length img" and "length img < 2 ^ 64"
  shows "log_output (log_stage k n used x img) \<in> {log_output img, Some (the (log_output img) @ printed x)}"
    and "4 \<le> k \<Longrightarrow> n = 4 \<Longrightarrow> log_output (log_stage k n used x img) = Some (the (log_output img) @ printed x) \<and>
      log_used (log_stage k n used x img) = used + of_nat (length x)"
proof -
  let ?i = "with_entry used x img" and ?u = "used + of_nat (length x)"
  note one = log_with_entry [OF assms(1-3)] and two = log_with_used [OF assms]
  have n: "unat (of_nat (length x) :: u64) = length x" using assms by (intro unat_of_nat_small) simp
  have u: "unat ?u = unat used + length x" using assms n by (subst unat_add_lem [THEN iffD1]) simp_all
  have len: "length (with_used ?u ?i) = length img" using assms one(3) by (simp add: with_used_def)
  have o0: "log_output img = Some (printed (log_data img))" using assms by (intro log_output_data) simp
  have o1: "log_output ?i = Some (printed (log_data img))" using log_output_data [of ?i] one assms by simp
  have o2: "log_output (with_used ?u ?i) = Some (printed (log_data img) @ printed x)"
    using log_output_data [of "with_used ?u ?i"] two u len assms by (simp add: printed_def)
  from o0 o1 o2 show "log_output (log_stage k n used x img) \<in> {log_output img, Some (the (log_output img) @ printed x)}"
    by (simp add: log_stage_def)
  assume "4 \<le> k" "n = 4"
  with o0 o2 two show "log_output (log_stage k n used x img) = Some (the (log_output img) @ printed x) \<and>
      log_used (log_stage k n used x img) = ?u"
    by (simp add: log_stage_def min_def)
qed

text \<open>C4: appending a word is atomic. In a round of the loop the client posts at most four requests. Whatever
  happens to the connection, after any number of them, taken in the order in which they were posted, the
  server prints what it would have printed before, or that and one more line with the whole word; and if
  the round succeeds the word is printed and the client knows the new length of the log.\<close>

theorem append_is_atomic:
  assumes "append_ready conn r l q m d s" and "obj_at b (O_bytes old) s" and "mr_addr (mrl_ibv_mr d) = of_nat b"
    and "log_used img = used" and "16 \<le> unat used" and "unat used + length (log_entry w) \<le> length img" and "length img < 2 ^ 64"
  shows "wp (append_word E conn r l q b 8 ft w used wc s) (\<lambda>(ret, used', wc') s'. \<exists>ws buf.
     posted (trace s') = rev ws @ posted (trace s) \<and> bytes_at b s' = Some buf \<and>
     (\<forall>k. log_output (fold (remote_write m (local_bytes b buf used')) (take k ws) img)
        \<in> {log_output img, Some (the (log_output img) @ printed (log_entry w))}) \<and>
     (ret = 0 \<longrightarrow> log_output (fold (remote_write m (local_bytes b buf used')) ws img) = Some (the (log_output img) @ printed (log_entry w)) \<and>
        log_used (fold (remote_write m (local_bytes b buf used')) ws img) = used'))"
proof (rule wp_mono [OF append_round [OF assms(1-6)]], clarify)
  fix ret used' wc' s' ws
  let ?after = "\<lambda>k. fold (remote_write m (local_bytes b (word_buffer w) used')) (take k ws) img"
  assume posted: "posted (trace s') = rev ws @ posted (trace s)" "bytes_at b s' = Some (word_buffer w)"
    and st: "\<forall>k. ?after k = log_stage k (length ws) used (log_entry w) img"
    and fin: "ret = 0 \<longrightarrow> length ws = 4 \<and> used' = used + of_nat (length (log_entry w))"
  note out = log_stage_output [OF assms(4-7)]
  have "\<forall>k. log_output (?after k) \<in> {log_output img, Some (the (log_output img) @ printed (log_entry w))}"
    unfolding st [rule_format] using out(1) by blast
  moreover have "log_output (?after (length ws)) = Some (the (log_output img) @ printed (log_entry w)) \<and> log_used (?after (length ws)) = used'"
    if "ret = 0"
    unfolding st [rule_format] using out(2) [of "length ws" "length ws"] fin that by simp
  ultimately show "\<exists>ws buf. posted (trace s') = rev ws @ posted (trace s) \<and> bytes_at b s' = Some buf \<and>
     (\<forall>k. log_output (fold (remote_write m (local_bytes b buf used')) (take k ws) img)
        \<in> {log_output img, Some (the (log_output img) @ printed (log_entry w))}) \<and>
     (ret = 0 \<longrightarrow> log_output (fold (remote_write m (local_bytes b buf used')) ws img) = Some (the (log_output img) @ printed (log_entry w)) \<and>
        log_used (fold (remote_write m (local_bytes b buf used')) ws img) = used')"
    using posted by (intro exI [of _ ws] exI [of _ "word_buffer w"]) simp
qed

theorem append_is_atomic_witness:
  "wp (append_word sample_env 50 51 47 42 4096 8 RPMA_FLUSH_TYPE_PERSISTENT [98, 99] 18 sample_wc append_st)
     (\<lambda>(ret, used', wc') s'. \<exists>ws buf. posted (trace s') = rev ws @ posted (trace append_st) \<and>
       log_output (fold (remote_write sample_remote (local_bytes 4096 buf used')) (take 3 ws) sample_log) \<in> {Some [97, 10], Some [97, 10, 98, 99, 10]})"
proof -
  have e: "log_entry [98, 99] = [98, 99, 0]" "log_output sample_log = Some [97, 10]" by code_simp+
  have "mr_addr (mrl_ibv_mr sample_mr) = of_nat 4096" by (simp add: sample_mr_def sample_ibv_mr_def)
  from append_is_atomic [OF append_st_ready this sample_log_facts(1), of "[98, 99]" sample_env RPMA_FLUSH_TYPE_PERSISTENT sample_wc]
  show ?thesis
    by (rule wp_mono) (use sample_log_facts e in \<open>auto 4 4 simp: printed_def\<close>)
qed

text \<open>C21: the log in persistent memory is never found in a broken state. The server has mapped a file; if it has no
  signature the counter is stored and made persistent, then the signature. Interrupted after any number
  of these steps, and whatever part of the stores that were not persisted has reached the medium: if the signature
  is found afterwards, then it was there before and the file is unchanged, or the log is empty and
  prints nothing; and if all steps were done the signature is there.\<close>

theorem log_survives_power_failure:
  assumes "log_init \<lparr>pm_image = img, pm_ops = []\<rparr> = Some pm" and "survives (pm\<lparr>pm_ops := take k (pm_ops pm)\<rparr>) new"
  shows "(strncmp_eq new LOG_HDR_SIGNATURE LOG_SIGNATURE_SIZE \<longrightarrow>
      (if strncmp_eq img LOG_HDR_SIGNATURE LOG_SIGNATURE_SIZE then new = img
       else log_used new = 16 \<and> log_output new = Some [])) \<and>
    (length (pm_ops pm) \<le> k \<longrightarrow> strncmp_eq new LOG_HDR_SIGNATURE LOG_SIGNATURE_SIZE)"
proof (cases "strncmp_eq img LOG_HDR_SIGNATURE LOG_SIGNATURE_SIZE")
  case True
  with assms(1) have "pm = \<lparr>pm_image = img, pm_ops = []\<rparr>" by (simp add: log_init_def)
  with assms(2) have "new = img" by (auto simp: survives_def intro: nth_equalityI)
  with True show ?thesis by simp
next
  case False
  let ?sig = "strncpy LOG_HDR_SIGNATURE LOG_SIGNATURE_SIZE" and ?x = "le_bytes 8 (16 :: u64)"
  have room: "8 + length ?x \<le> length img" and pm: "pm = \<lparr>pm_image = img, pm_ops = publish 8 ?x ?sig\<rparr>"
    using assms(1) False by (auto simp: log_init_def pm_store_def pm_persist_def publish_def LOG_SIGNATURE_SIZE_def Let_def split: if_splits bind_splits)
  have l: "length ?sig \<le> 8" by (simp add: LOG_SIGNATURE_SIZE_def)
  have new: "survives \<lparr>pm_image = img, pm_ops = take k (publish 8 ?x ?sig)\<rparr> new" using assms(2) pm by simp
  have len: "length new = length img" using new by (simp add: survives_def)
  have "take (length ?x) (drop 8 new) = ?x" if "strncmp_eq new LOG_HDR_SIGNATURE LOG_SIGNATURE_SIZE"
    using publish_crash [OF l room new] False that strncmp_eq_take [of LOG_SIGNATURE_SIZE] by (metis length_strncpy)
  moreover have "log_used new = 16" "log_output new = Some []" if "take (length ?x) (drop 8 new) = ?x"
  proof -
    show u: "log_used new = 16" using that by (simp add: log_used_def le_val_le_bytes_full)
    with room len log_output_data [of new] show "log_output new = Some []" by (simp add: log_data_def printed_def)
  qed
  moreover have "strncmp_eq new LOG_HDR_SIGNATURE LOG_SIGNATURE_SIZE" if "length (pm_ops pm) \<le> k"
  proof -
    have t: "take LOG_SIGNATURE_SIZE new = ?sig" using published [OF l room, of new] new that pm by simp
    have "strncmp_eq ?sig LOG_HDR_SIGNATURE LOG_SIGNATURE_SIZE" by code_simp
    with t strncmp_eq_take [of LOG_SIGNATURE_SIZE new] show ?thesis by simp
  qed
  ultimately show ?thesis using False by auto
qed

theorem log_survives_power_failure_witness:
  "\<exists>pm. log_init \<lparr>pm_image = replicate 1040 0, pm_ops = []\<rparr> = Some pm \<and>
     strncmp_eq (pm_view pm) LOG_HDR_SIGNATURE LOG_SIGNATURE_SIZE \<and> log_output (pm_view pm) = Some []"
proof -
  let ?x = "le_bytes 8 (16 :: u64)" and ?sig = "strncpy LOG_HDR_SIGNATURE LOG_SIGNATURE_SIZE"
  let ?pm = "\<lparr>pm_image = replicate 1040 0, pm_ops = publish 8 ?x ?sig\<rparr>"
  have e: "replicate 1040 (0 :: u8) = 0 # replicate 1039 0" "LOG_SIGNATURE_SIZE = Suc 7"
    by (simp_all add: LOG_SIGNATURE_SIZE_def flip: replicate_Suc)
  have no: "\<not> strncmp_eq (replicate 1040 0) LOG_HDR_SIGNATURE LOG_SIGNATURE_SIZE"
    unfolding e LOG_HDR_SIGNATURE_def strncmp_eq.simps by simp
  then have i: "log_init \<lparr>pm_image = replicate 1040 0, pm_ops = []\<rparr> = Some ?pm"
    by (simp add: log_init_def pm_store_def pm_persist_def publish_def LOG_SIGNATURE_SIZE_def Let_def)
  have "survives ?pm (pm_view ?pm)" by (rule view_survives) (auto simp: publish_def LOG_SIGNATURE_SIZE_def)
  then have "survives (?pm\<lparr>pm_ops := take 4 (pm_ops ?pm)\<rparr>) (pm_view ?pm)" by (simp add: publish_def)
  from log_survives_power_failure [OF i this] no i show ?thesis by (auto simp: publish_def)
qed

end
