(* ===== verification/Hopscotch.thy ===== *)
theory Hopscotch
  imports Rpma_Prelude
begin

text \<open>
  The hopscotch hash table of the remote-hash example: \<open>src/examples/hash/hopscotch.h\<close>.
  \<^item> A bucket keeps the \<^emph>\<open>pointers\<close> to key and data the client passed, so the bytes of a
    key are read through a memory \<open>rd\<close> of key bytes at every comparison. Reading fewer bytes
    than \<open>keylen\<close>, or through \<open>NULL\<close>, is undefined behaviour (\<open>None\<close>), and so is leaving
    the bucket array or shifting by 64 or more.
  \<^item> Tables and bucket arrays live in a heap \<open>hheap\<close>. What \<open>malloc\<close> answers is an argument;
    an answer that is not a free address counts as \<open>NULL\<close>.
  \<^item> Loops are recursion over the index lists they run through; the displacement loop, which
    moves its index back, is a \<open>function\<close> with a termination proof.
\<close>

subsection \<open>Data\<close>

definition TABLE_SIZE :: nat where "TABLE_SIZE = 21"
definition HOP_NUMBER :: nat where "HOP_NUMBER = 32"
definition SEED :: u32 where "SEED = 0x12345678"

record hopscotch_bucket =
  bk_key :: ptr
  bk_data :: ptr
  bk_hopinfo :: u32

record hopscotch_hash_table =
  ht_exponent :: nat
  ht_keylen :: nat
  ht_buckets :: ptr
  ht_allocated :: bool

record hheap =
  arrays :: "ptr \<Rightarrow> hopscotch_bucket list option"
  tables :: "ptr \<Rightarrow> hopscotch_hash_table option"

type_synonym key_mem = "ptr \<Rightarrow> u8 list option"

definition zero_bucket :: hopscotch_bucket where
  "zero_bucket = \<lparr>bk_key = NULL, bk_data = NULL, bk_hopinfo = 0\<rparr>"

definition bucket_at :: "hopscotch_bucket list \<Rightarrow> nat \<Rightarrow> hopscotch_bucket option" where
  "bucket_at bs i = (if i < length bs then Some (bs ! i) else None)"

definition key_bytes :: "key_mem \<Rightarrow> nat \<Rightarrow> ptr \<Rightarrow> u8 list option" where
  "key_bytes rd keylen p =
     (if p = NULL then None else do { bs \<leftarrow> rd p; read_bytes 0 keylen bs })"

text \<open>\<open>0 == memcmp(p, q, keylen)\<close>\<close>

definition memcmp_eq :: "key_mem \<Rightarrow> nat \<Rightarrow> ptr \<Rightarrow> ptr \<Rightarrow> bool option" where
  "memcmp_eq rd keylen p q = do {
     a \<leftarrow> key_bytes rd keylen p;
     b \<leftarrow> key_bytes rd keylen q;
     Some (a = b)
   }"

text \<open>\<open>1ULL << exponent\<close>\<close>

definition shift_one :: "nat \<Rightarrow> nat option" where
  "shift_one e = (if e < 64 then Some (2 ^ e) else None)"

text \<open>\<open>__builtin_ctz\<close>, called on a value that is not 0.\<close>

function ctz_from :: "nat \<Rightarrow> u32 \<Rightarrow> nat" where
  "ctz_from n w = (if n < 32 \<and> \<not> bit w n then ctz_from (Suc n) w else n)"
  by pat_completeness auto
termination by (relation "measure (\<lambda>(n, w). 32 - n)") auto

declare ctz_from.simps [simp del]

definition builtin_ctz :: "u32 \<Rightarrow> nat" where
  "builtin_ctz w = ctz_from 0 w"

definition malloc_result :: "hheap \<Rightarrow> ptr \<Rightarrow> ptr" where
  "malloc_result H a = (if arrays H a \<noteq> None \<or> tables H a \<noteq> None then NULL else a)"

subsection \<open>Hash functions\<close>

fun MurmurOAAT_32 :: "u8 list \<Rightarrow> u32 \<Rightarrow> u32 option" where
  "MurmurOAAT_32 [] h = None"
| "MurmurOAAT_32 (c # str) h =
     (if c = 0 then Some h
      else let h = h XOR scast c; h = h * 0x5bd1e995; h = h XOR drop_bit 15 h in MurmurOAAT_32 str h)"

fun djhash_loop :: "u8 list \<Rightarrow> u32 \<Rightarrow> u32 option" where
  "djhash_loop [] hash = None"
| "djhash_loop (c # str) hash =
     (if c = 0 then Some hash else djhash_loop str ((push_bit 5 hash + hash) + ucast c))"

definition djhash :: "u8 list \<Rightarrow> u32 option" where
  "djhash str = djhash_loop str 5381"

fun jenkins_loop :: "u8 list \<Rightarrow> u32 \<Rightarrow> u32" where
  "jenkins_loop [] hash = hash"
| "jenkins_loop (c # cs) hash =
     (let hash = hash + ucast c;
          hash = hash + push_bit 10 hash;
          hash = hash XOR drop_bit 6 hash
      in jenkins_loop cs hash)"

definition jenkins_hash :: "u8 list \<Rightarrow> u32" where
  "jenkins_hash key =
     (let hash = jenkins_loop key 0;
          hash = hash + push_bit 3 hash;
          hash = hash XOR drop_bit 11 hash;
          hash = hash + push_bit 15 hash
      in hash)"

text \<open>\<open>idx = h & (sz - 1)\<close> in 64 bits.\<close>

definition home :: "nat \<Rightarrow> u8 list \<Rightarrow> nat" where
  "home sz key = unat (ucast (jenkins_hash key) AND (of_nat sz - 1 :: u64))"

subsection \<open>Lookup\<close>

text \<open>The loop over the bits of \<open>hopinfo\<close>, the same in lookup and removal: the distance of the
  bucket with the key.\<close>

primrec hop_find ::
  "key_mem \<Rightarrow> nat \<Rightarrow> hopscotch_bucket list \<Rightarrow> nat \<Rightarrow> ptr \<Rightarrow> nat list \<Rightarrow> nat option option" where
  "hop_find rd keylen bs idx key [] = Some None"
| "hop_find rd keylen bs idx key (i # is) = do {
     b \<leftarrow> bucket_at bs idx;
     if bit (bk_hopinfo b) i then do {
       c \<leftarrow> bucket_at bs (idx + i);
       eq \<leftarrow> memcmp_eq rd keylen key (bk_key c);
       if eq then Some (Some i) else hop_find rd keylen bs idx key is
     } else hop_find rd keylen bs idx key is
   }"

definition hopscotch_lookup :: "key_mem \<Rightarrow> hheap \<Rightarrow> ptr \<Rightarrow> ptr \<Rightarrow> ptr option" where
  "hopscotch_lookup rd H ht key = do {
     t \<leftarrow> tables H ht;
     bs \<leftarrow> arrays H (ht_buckets t);
     sz \<leftarrow> shift_one (ht_exponent t);
     k \<leftarrow> key_bytes rd (ht_keylen t) key;
     let idx = home sz k;
     b \<leftarrow> bucket_at bs idx;
     if bk_hopinfo b = 0 then Some NULL
     else do {
       r \<leftarrow> hop_find rd (ht_keylen t) bs idx key [0..<HOP_NUMBER];
       case r of
         None \<Rightarrow> Some NULL
       | Some i \<Rightarrow> do { c \<leftarrow> bucket_at bs (idx + i); Some (bk_data c) }
     }
   }"

subsection \<open>Insertion\<close>

text \<open>Linear probing for an empty bucket.\<close>

primrec probe :: "hopscotch_bucket list \<Rightarrow> nat list \<Rightarrow> nat option option" where
  "probe bs [] = Some None"
| "probe bs (i # is) = do {
     b \<leftarrow> bucket_at bs i;
     if bk_key b = NULL then Some (Some i) else probe bs is
   }"

text \<open>The inner loop: the first \<open>j\<close> whose bucket has an entry before position \<open>i\<close>, with the
  offset of its first entry; \<open>None\<close> when \<open>j\<close> reaches \<open>HOP_NUMBER\<close>.\<close>

primrec hop_for :: "hopscotch_bucket list \<Rightarrow> nat \<Rightarrow> nat list \<Rightarrow> (nat \<times> nat) option option" where
  "hop_for bs i [] = Some None"
| "hop_for bs i (j # js) = do {
     b \<leftarrow> bucket_at bs (i - j);
     if bk_hopinfo b \<noteq> 0 then
       (let off = builtin_ctz (bk_hopinfo b) in
        if off \<ge> j then hop_for bs i js else Some (Some (j, off)))
     else hop_for bs i js
   }"

definition move_entry :: "hopscotch_bucket list \<Rightarrow> nat \<Rightarrow> nat \<Rightarrow> nat \<Rightarrow> hopscotch_bucket list option" where
  "move_entry bs i j off = do {
     b \<leftarrow> bucket_at bs i;
     c \<leftarrow> bucket_at bs (i - j + off);
     let bs = bs[i := b\<lparr>bk_key := bk_key c, bk_data := bk_data c\<rparr>];
     c \<leftarrow> bucket_at bs (i - j + off);
     let bs = bs[i - j + off := c\<lparr>bk_key := NULL, bk_data := NULL\<rparr>];
     a \<leftarrow> bucket_at bs (i - j);
     let hop = bk_hopinfo a AND NOT (push_bit off 1);
     let hop = hop OR push_bit j 1;
     Some (bs[i - j := a\<lparr>bk_hopinfo := hop\<rparr>])
   }"

lemma hop_for_result:
  "hop_for bs i js = Some (Some (j, off)) \<Longrightarrow>
     j \<in> set js \<and> off < j \<and> i - j < length bs \<and> bk_hopinfo (bs ! (i - j)) \<noteq> 0 \<and>
     off = builtin_ctz (bk_hopinfo (bs ! (i - j)))"
  by (induction js) (auto simp: Let_def Option.bind_eq_Some_conv bucket_at_def split: if_splits)

text \<open>The loop that moves the empty bucket closer, until it is in the neighbourhood of \<open>idx\<close>
  (\<open>Some i\<close>) or nothing can be moved (\<open>None\<close>).\<close>

function displace ::
  "hopscotch_bucket list \<Rightarrow> nat \<Rightarrow> nat \<Rightarrow> (nat option \<times> hopscotch_bucket list) option" where
  "displace bs idx i =
     (if i - idx \<ge> HOP_NUMBER then
        (case hop_for bs i [1..<HOP_NUMBER] of
           None \<Rightarrow> None
         | Some None \<Rightarrow> Some (None, bs)
         | Some (Some (j, off)) \<Rightarrow>
             (case move_entry bs i j off of
                None \<Rightarrow> None
              | Some bs \<Rightarrow> displace bs idx (i - j + off)))
      else Some (Some i, bs))"
  by pat_completeness auto
termination
  by (relation "measure (\<lambda>(bs, idx, i). i)") (auto simp: HOP_NUMBER_def dest: hop_for_result)

declare displace.simps [simp del]

definition hopscotch_insert ::
  "key_mem \<Rightarrow> hheap \<Rightarrow> ptr \<Rightarrow> ptr \<Rightarrow> ptr \<Rightarrow> (int \<times> hheap) option" where
  "hopscotch_insert rd H ht key data = do {
     found \<leftarrow> hopscotch_lookup rd H ht key;
     if found \<noteq> NULL then Some (- 2, H)
     else do {
       t \<leftarrow> tables H ht;
       bs \<leftarrow> arrays H (ht_buckets t);
       sz \<leftarrow> shift_one (ht_exponent t);
       k \<leftarrow> key_bytes rd (ht_keylen t) key;
       let idx = home sz k;
       r \<leftarrow> probe bs [idx..<sz];
       case r of
         None \<Rightarrow> Some (- 1, H)
       | Some i \<Rightarrow> do {
           (r, bs) \<leftarrow> displace bs idx i;
           case r of
             None \<Rightarrow> Some (- 3, H\<lparr>arrays := (arrays H)(ht_buckets t \<mapsto> bs)\<rparr>)
           | Some i \<Rightarrow> do {
               let off = i - idx;
               b \<leftarrow> bucket_at bs i;
               let bs = bs[i := b\<lparr>bk_key := key, bk_data := data\<rparr>];
               a \<leftarrow> bucket_at bs idx;
               let hop = bk_hopinfo a OR push_bit off 1;
               let bs = bs[idx := a\<lparr>bk_hopinfo := hop\<rparr>];
               let H = H\<lparr>arrays := (arrays H)(ht_buckets t \<mapsto> bs)\<rparr>;
               if hop > 32 then Some (- 4, H) else Some (0, H)
             }
         }
     }
   }"

subsection \<open>Removal\<close>

definition hopscotch_remove :: "key_mem \<Rightarrow> hheap \<Rightarrow> ptr \<Rightarrow> ptr \<Rightarrow> (ptr \<times> hheap) option" where
  "hopscotch_remove rd H ht key = do {
     t \<leftarrow> tables H ht;
     bs \<leftarrow> arrays H (ht_buckets t);
     sz \<leftarrow> shift_one (ht_exponent t);
     k \<leftarrow> key_bytes rd (ht_keylen t) key;
     let idx = home sz k;
     b \<leftarrow> bucket_at bs idx;
     if bk_hopinfo b = 0 then Some (NULL, H)
     else do {
       r \<leftarrow> hop_find rd (ht_keylen t) bs idx key [0..<HOP_NUMBER];
       case r of
         None \<Rightarrow> Some (NULL, H)
       | Some i \<Rightarrow> do {
           c \<leftarrow> bucket_at bs (idx + i);
           let data = bk_data c;
           let bs = bs[idx := b\<lparr>bk_hopinfo := bk_hopinfo b AND NOT (push_bit i 1)\<rparr>];
           c \<leftarrow> bucket_at bs (idx + i);
           let bs = bs[idx + i := c\<lparr>bk_key := NULL, bk_data := NULL\<rparr>];
           Some (data, H\<lparr>arrays := (arrays H)(ht_buckets t \<mapsto> bs)\<rparr>)
         }
     }
   }"

subsection \<open>Initialisation, release and resizing\<close>

definition hopscotch_init ::
  "ptr \<Rightarrow> ptr \<Rightarrow> hheap \<Rightarrow> ptr \<Rightarrow> nat \<Rightarrow> (ptr \<times> hheap) option" where
  "hopscotch_init malloc1 malloc2 H ht keylen = do {
     let exponent = TABLE_SIZE;
     let buckets = malloc_result H malloc1;
     if buckets = NULL then Some (NULL, H)
     else do {
       let H = H\<lparr>arrays := (arrays H)(buckets \<mapsto> replicate (2 ^ exponent) zero_bucket)\<rparr>;
       let allocated = (ht = NULL);
       let ht = (if ht = NULL then malloc_result H malloc2 else ht);
       if ht = NULL then Some (NULL, H)
       else if \<not> allocated \<and> tables H ht = None then None
       else Some (ht, H\<lparr>tables := (tables H)(ht \<mapsto>
              \<lparr>ht_exponent = exponent, ht_keylen = keylen, ht_buckets = buckets, ht_allocated = allocated\<rparr>)\<rparr>)
     }
   }"

definition free_array :: "ptr \<Rightarrow> hheap \<Rightarrow> hheap option" where
  "free_array p H =
     (if p = NULL then Some H
      else if arrays H p = None then None
      else Some (H\<lparr>arrays := (arrays H)(p := None)\<rparr>))"

definition hopscotch_release :: "hheap \<Rightarrow> ptr \<Rightarrow> hheap option" where
  "hopscotch_release H ht = do {
     t \<leftarrow> tables H ht;
     H \<leftarrow> free_array (ht_buckets t) H;
     Some (if ht_allocated t then H\<lparr>tables := (tables H)(ht := None)\<rparr> else H)
   }"

text \<open>The copying loop: \<open>False\<close> when an insertion failed.\<close>

primrec resize_for :: "key_mem \<Rightarrow> ptr \<Rightarrow> ptr \<Rightarrow> nat list \<Rightarrow> hheap \<Rightarrow> (bool \<times> hheap) option" where
  "resize_for rd ht obuckets [] H = Some (True, H)"
| "resize_for rd ht obuckets (i # is) H = do {
     obs \<leftarrow> arrays H obuckets;
     b \<leftarrow> bucket_at obs i;
     if bk_key b \<noteq> NULL then do {
       (ret, H) \<leftarrow> hopscotch_insert rd H ht (bk_key b) (bk_data b);
       if ret < 0 then Some (False, H) else resize_for rd ht obuckets is H
     } else resize_for rd ht obuckets is H
   }"

text \<open>\<open>sizeof(struct hopscotch_bucket)\<close> is 24; the product is computed in 64 bits.\<close>

definition hopscotch_resize ::
  "key_mem \<Rightarrow> ptr \<Rightarrow> hheap \<Rightarrow> ptr \<Rightarrow> int \<Rightarrow> (int \<times> hheap) option" where
  "hopscotch_resize rd malloc1 H ht delta = do {
     t \<leftarrow> tables H ht;
     let oexp = ht_exponent t;
     let nexp = nat ((int (ht_exponent t) + delta) mod 2 ^ 64);
     sz \<leftarrow> shift_one nexp;
     let nbuckets = malloc_result H malloc1;
     if nbuckets = NULL then Some (- 1, H)
     else do {
       let H = H\<lparr>arrays := (arrays H)(nbuckets \<mapsto> replicate (24 * sz mod 2 ^ 64 div 24) zero_bucket)\<rparr>;
       let obuckets = ht_buckets t;
       let H = H\<lparr>tables := (tables H)(ht \<mapsto> t\<lparr>ht_buckets := nbuckets, ht_exponent := nexp\<rparr>)\<rparr>;
       osz \<leftarrow> shift_one oexp;
       (copied, H) \<leftarrow> resize_for rd ht obuckets [0..<osz] H;
       if \<not> copied then do {
         t \<leftarrow> tables H ht;
         let H = H\<lparr>tables := (tables H)(ht \<mapsto> t\<lparr>ht_buckets := obuckets, ht_exponent := oexp\<rparr>)\<rparr>;
         H \<leftarrow> free_array nbuckets H;
         Some (- 1, H)
       } else do {
         H \<leftarrow> free_array obuckets H;
         Some (0, H)
       }
     }
   }"

end
