(* ===== verification/Hopscotch_Inv.thy ===== *)
theory Hopscotch_Inv
  imports Hopscotch
begin

text \<open>
  The invariant of a bucket array and the map it stands for. An array is seen as two functions:
  \<open>ent\<close>, the entry (key bytes and data) at each position, and \<open>hops\<close>, the bits of the
  neighbourhood maps. The three changes the operations make to an array, moving an entry away
  from its home, adding one and dropping one, are analysed on this view, then carried over to the
  updates of bucket lists.
\<close>

subsection \<open>The view and its invariant\<close>

type_synonym entries = "nat \<Rightarrow> (u8 list \<times> ptr) option"

definition entry_of :: "key_mem \<Rightarrow> nat \<Rightarrow> hopscotch_bucket \<Rightarrow> (u8 list \<times> ptr) option" where
  "entry_of rd kl b = (if bk_key b = NULL then None else Some (the (key_bytes rd kl (bk_key b)), bk_data b))"

definition ent_of :: "key_mem \<Rightarrow> nat \<Rightarrow> hopscotch_bucket list \<Rightarrow> entries" where
  "ent_of rd kl bs p = (if p < length bs then entry_of rd kl (bs ! p) else None)"

definition hops_of :: "hopscotch_bucket list \<Rightarrow> nat \<Rightarrow> nat \<Rightarrow> bool" where
  "hops_of bs idx i \<longleftrightarrow> idx < length bs \<and> bit (bk_hopinfo (bs ! idx)) i"

definition tinv :: "(u8 list \<Rightarrow> nat) \<Rightarrow> nat \<Rightarrow> entries \<Rightarrow> (nat \<Rightarrow> nat \<Rightarrow> bool) \<Rightarrow> bool" where
  "tinv h n ent hops \<longleftrightarrow>
     (\<forall>p k d. ent p = Some (k, d) \<longrightarrow> p < n \<and> d \<noteq> NULL \<and> h k \<le> p \<and> p - h k < 32 \<and> hops (h k) (p - h k)) \<and>
     (\<forall>idx i. hops idx i \<longrightarrow> (\<exists>k d. ent (idx + i) = Some (k, d) \<and> h k = idx)) \<and>
     (\<forall>p q k d d'. ent p = Some (k, d) \<and> ent q = Some (k, d') \<longrightarrow> p = q)"

definition readable :: "key_mem \<Rightarrow> nat \<Rightarrow> hopscotch_bucket list \<Rightarrow> bool" where
  "readable rd kl bs \<longleftrightarrow> (\<forall>p<length bs. bk_key (bs ! p) \<noteq> NULL \<longrightarrow> key_bytes rd kl (bk_key (bs ! p)) \<noteq> None)"

definition hinv :: "key_mem \<Rightarrow> nat \<Rightarrow> hopscotch_bucket list \<Rightarrow> bool" where
  "hinv rd kl bs \<longleftrightarrow> tinv (home (length bs)) (length bs) (ent_of rd kl bs) (hops_of bs) \<and> readable rd kl bs"

definition habs :: "key_mem \<Rightarrow> nat \<Rightarrow> hopscotch_bucket list \<Rightarrow> u8 list \<rightharpoonup> ptr" where
  "habs rd kl bs = map_of (List.map_filter (ent_of rd kl bs) [0..<length bs])"

definition in_tab :: "entries \<Rightarrow> u8 list \<Rightarrow> ptr \<Rightarrow> bool" where
  "in_tab ent k d \<longleftrightarrow> (\<exists>p. ent p = Some (k, d))"

lemma tinvI:
  assumes "\<And>p k d. ent p = Some (k, d) \<Longrightarrow> p < n \<and> d \<noteq> NULL \<and> h k \<le> p \<and> p - h k < 32 \<and> hops (h k) (p - h k)"
    and "\<And>idx i. hops idx i \<Longrightarrow> \<exists>k d. ent (idx + i) = Some (k, d) \<and> h k = idx"
    and "\<And>p q k d d'. ent p = Some (k, d) \<Longrightarrow> ent q = Some (k, d') \<Longrightarrow> p = q"
  shows "tinv h n ent hops"
  unfolding tinv_def using assms by blast

lemma tinv_entry: "tinv h n ent hops \<Longrightarrow> ent p = Some (k, d) \<Longrightarrow>
    p < n \<and> d \<noteq> NULL \<and> h k \<le> p \<and> p - h k < 32 \<and> hops (h k) (p - h k)"
  and tinv_hops: "tinv h n ent hops \<Longrightarrow> hops idx i \<Longrightarrow> \<exists>k d. ent (idx + i) = Some (k, d) \<and> h k = idx"
  and tinv_unique: "tinv h n ent hops \<Longrightarrow> ent p = Some (k, d) \<Longrightarrow> ent q = Some (k, d') \<Longrightarrow> p = q"
  unfolding tinv_def by blast+

lemma set_map_filter: "set (List.map_filter f xs) = {y. \<exists>x\<in>set xs. f x = Some y}"
  by (induction xs) (auto simp: map_filter_simps split: option.splits)

lemma habs_iff:
  assumes "hinv rd kl bs"
  shows "habs rd kl bs k = Some d \<longleftrightarrow> in_tab (ent_of rd kl bs) k d"
proof -
  let ?l = "List.map_filter (ent_of rd kl bs) [0..<length bs]"
  have in_set: "(k, d) \<in> set ?l \<longleftrightarrow> in_tab (ent_of rd kl bs) k d" for k d
    by (force simp: set_map_filter in_tab_def ent_of_def)
  have "distinct (map fst ?l)"
  proof -
    have "distinct (map fst (List.map_filter (ent_of rd kl bs) xs))" if "distinct xs" for xs
      using that
    proof (induction xs)
      case (Cons p xs)
      have "k \<notin> fst ` set (List.map_filter (ent_of rd kl bs) xs)" if "ent_of rd kl bs p = Some (k, d)" for k d
        using Cons.prems that assms tinv_unique [of _ _ "ent_of rd kl bs"]
        by (fastforce simp: set_map_filter hinv_def)
      with Cons show ?case by (auto simp: map_filter_simps split: option.splits)
    qed (simp add: map_filter_simps)
    then show ?thesis by simp
  qed
  then show ?thesis using in_set by (simp add: habs_def)
qed

lemma habs_None:
  assumes "hinv rd kl bs"
  shows "habs rd kl bs k = None \<longleftrightarrow> (\<forall>d. \<not> in_tab (ent_of rd kl bs) k d)"
  unfolding habs_iff [OF assms, symmetric] by simp

lemma habs_eqI:
  assumes "hinv rd kl bs'" and "\<And>k d. in_tab (ent_of rd kl bs') k d \<longleftrightarrow> m k = Some d"
  shows "habs rd kl bs' = m"
proof
  fix k
  have *: "habs rd kl bs' k = Some d \<longleftrightarrow> m k = Some d" for d
    by (simp only: habs_iff [OF assms(1)] assms(2))
  show "habs rd kl bs' k = m k"
  proof (cases "m k")
    case None
    then have "\<nexists>d. habs rd kl bs' k = Some d" unfolding * by simp
    with None show ?thesis by simp
  next
    case (Some d)
    with * [of d] show ?thesis by simp
  qed
qed

subsection \<open>The three changes\<close>

definition hops_upd :: "nat \<Rightarrow> nat set \<Rightarrow> nat set \<Rightarrow> (nat \<Rightarrow> nat \<Rightarrow> bool) \<Rightarrow> nat \<Rightarrow> nat \<Rightarrow> bool" where
  "hops_upd idx A D hops = hops(idx := \<lambda>i. i \<in> A \<or> (hops idx i \<and> i \<notin> D))"

lemma hops_upd_apply:
  "hops_upd idx A D hops x i \<longleftrightarrow> (if x = idx then i \<in> A \<or> hops idx i \<and> i \<notin> D else hops x i)"
  by (simp add: hops_upd_def)

lemma tinv_put:
  assumes inv: "tinv h n ent hops" and free: "ent (h k + i) = None" and i: "i < 32" "h k + i < n"
    and new: "\<forall>d. \<not> in_tab ent k d" and d: "d \<noteq> NULL"
  shows "tinv h n (ent(h k + i \<mapsto> (k, d))) (hops_upd (h k) {i} {} hops)"
proof (rule tinvI, goal_cases)
  case (1 p k' d')
  then show ?case
    using tinv_entry [OF inv, of p k' d'] i d by (auto simp: hops_upd_apply split: if_splits)
next
  case (2 idx i')
  then show ?case
    using tinv_hops [OF inv, of idx i'] free by (auto simp: hops_upd_apply split: if_splits)
next
  case (3 p q k' d1 d2)
  then show ?case
    using tinv_unique [OF inv, of p k' d1 q d2] new by (auto simp: in_tab_def split: if_splits)
qed

lemma tinv_drop:
  assumes inv: "tinv h n ent hops" and at: "ent (h k + i) = Some (k, d)"
  shows "tinv h n (ent(h k + i := None)) (hops_upd (h k) {} {i} hops)"
proof (rule tinvI, goal_cases)
  case (1 p k' d')
  then have e: "ent p = Some (k', d')" and p: "p \<noteq> h k + i" by (auto split: if_splits)
  from tinv_entry [OF inv e] show ?case using p by (auto simp: hops_upd_apply)
next
  case (2 idx i')
  then have "hops idx i'" and "idx \<noteq> h k \<or> i' \<noteq> i" by (auto simp: hops_upd_apply split: if_splits)
  with tinv_hops [OF inv, of idx i'] at show ?case by auto
next
  case (3 p q k' d1 d2)
  then show ?case using tinv_unique [OF inv, of p k' d1 q d2] by (auto split: if_splits)
qed

lemma tinv_move:
  assumes inv: "tinv h n ent hops" and at: "ent (a + off) = Some (k, d)" "h k = a"
    and free: "ent (a + j) = None" and j: "j < 32" "a + j < n"
  shows "tinv h n (ent(a + j := ent (a + off), a + off := None)) (hops_upd a {j} {off} hops)"
proof -
  have ne: "j \<noteq> off" using at free by auto
  let ?e = "ent(a + off := None)"
  have new: "\<forall>d. \<not> in_tab ?e k d"
    using tinv_unique [OF inv at(1)] by (auto simp: in_tab_def split: if_splits)
  have "tinv h n ?e (hops_upd a {} {off} hops)" using tinv_drop [OF inv, of k off d] at by simp
  then have "tinv h n (?e(h k + j \<mapsto> (k, d))) (hops_upd (h k) {j} {} (hops_upd a {} {off} hops))"
    by (rule tinv_put) (use at free j new tinv_entry [OF inv at(1)] in auto)
  moreover have "hops_upd a {j} {} (hops_upd a {} {off} hops) = hops_upd a {j} {off} hops"
    by (auto simp: fun_eq_iff hops_upd_apply)
  moreover have "?e(a + j \<mapsto> (k, d)) = ent(a + j := ent (a + off), a + off := None)"
    using ne at by (auto simp: fun_eq_iff)
  ultimately show ?thesis using at by simp
qed

lemma in_tabI: "ent p = Some (k, d) \<Longrightarrow> in_tab ent k d"
  unfolding in_tab_def by blast

lemma in_tab_put:
  assumes "ent p = None"
  shows "in_tab (ent(p \<mapsto> (k, d))) k' d' \<longleftrightarrow> k' = k \<and> d' = d \<or> in_tab ent k' d'"
proof
  assume "k' = k \<and> d' = d \<or> in_tab ent k' d'"
  then consider "k' = k" "d' = d" | q where "ent q = Some (k', d')" unfolding in_tab_def by blast
  then show "in_tab (ent(p \<mapsto> (k, d))) k' d'"
  proof cases
    case 1
    then show ?thesis by (intro in_tabI [of _ p]) simp
  next
    case (2 q)
    then show ?thesis using assms by (intro in_tabI [of _ q]) auto
  qed
qed (auto simp: in_tab_def split: if_splits)

lemma in_tab_drop:
  assumes "tinv h n ent hops" and "ent p = Some (k, d)"
  shows "in_tab (ent(p := None)) k' d' \<longleftrightarrow> k' \<noteq> k \<and> in_tab ent k' d'"
proof
  assume "in_tab (ent(p := None)) k' d'"
  then obtain q where q: "ent q = Some (k', d')" "q \<noteq> p" by (auto simp: in_tab_def split: if_splits)
  then show "k' \<noteq> k \<and> in_tab ent k' d'" using tinv_unique [OF assms] by (auto intro: in_tabI)
next
  assume "k' \<noteq> k \<and> in_tab ent k' d'"
  then obtain q where q: "ent q = Some (k', d')" "k' \<noteq> k" by (auto simp: in_tab_def)
  with assms(2) show "in_tab (ent(p := None)) k' d'" by (intro in_tabI [of _ q]) auto
qed

lemma in_tab_move:
  assumes "ent p = None" and "q \<noteq> p"
  shows "in_tab (ent(p := ent q, q := None)) k d \<longleftrightarrow> in_tab ent k d"
proof
  assume "in_tab ent k d"
  then obtain r where r: "ent r = Some (k, d)" by (auto simp: in_tab_def)
  then show "in_tab (ent(p := ent q, q := None)) k d"
    using assms by (intro in_tabI [of _ "if r = q then p else r"]) auto
qed (auto simp: in_tab_def split: if_splits)

subsection \<open>Updates of bucket lists\<close>

lemma bit_hop_set: "off < 32 \<Longrightarrow> bit (w OR push_bit off 1 :: u32) i \<longleftrightarrow> i = off \<or> bit w i"
  by (auto simp: bit_simps)

lemma bit_hop_clear: "off < 32 \<Longrightarrow> bit (w AND NOT (push_bit off 1) :: u32) i \<longleftrightarrow> bit w i \<and> i \<noteq> off"
  using bit_imp_le_length [of w i] by (auto simp: bit_simps)

lemmas bit_hop = bit_hop_set [unfolded push_bit_of_1] bit_hop_clear [unfolded push_bit_of_1]

lemma ctz_from_props:
  "\<exists>m. n \<le> m \<and> m < 32 \<and> bit w m \<Longrightarrow> ctz_from n w < 32 \<and> bit w (ctz_from n w)"
proof (induction n w rule: ctz_from.induct)
  case (1 n w)
  show ?case
  proof (cases "n < 32 \<and> \<not> bit w n")
    case True
    then have "\<exists>m. Suc n \<le> m \<and> m < 32 \<and> bit w m" using 1(2) by (metis le_antisym not_less_eq_eq)
    with 1(1) [OF True] True show ?thesis by (subst (1 2) ctz_from.simps) simp
  next
    case False
    with 1(2) show ?thesis by (subst (1 2) ctz_from.simps) auto
  qed
qed

lemma builtin_ctz_bit: "w \<noteq> 0 \<Longrightarrow> builtin_ctz w < 32 \<and> bit w (builtin_ctz w)"
proof -
  assume "w \<noteq> 0"
  then obtain m where "bit w m" by (metis bit_eq_iff bit_0_eq bot_apply bot_bool_def)
  then show ?thesis
    unfolding builtin_ctz_def using bit_imp_le_length [of w m] by (intro ctz_from_props) auto
qed

text \<open>A bucket that is the home of some entry has an entry. Readers that look at the home bucket only
  rely on this.\<close>

definition no_gaps :: "hopscotch_bucket list \<Rightarrow> bool" where
  "no_gaps bs \<longleftrightarrow> (\<forall>b\<in>set bs. bk_hopinfo b \<noteq> 0 \<longrightarrow> bk_key b \<noteq> NULL)"

lemma word_bit_ex: "w \<noteq> 0 \<Longrightarrow> \<exists>m. bit (w :: u32) m"
  by (metis bit_eq_iff bit_0_eq bot_apply bot_bool_def)

lemma no_gaps_iff:
  assumes inv: "hinv rd kl bs"
  shows "no_gaps bs \<longleftrightarrow> (\<forall>k d. in_tab (ent_of rd kl bs) k d \<longrightarrow> ent_of rd kl bs (home (length bs) k) \<noteq> None)"
    (is "_ \<longleftrightarrow> ?R")
proof
  assume g: "no_gaps bs"
  show ?R
  proof (intro allI impI)
    fix k d
    assume "in_tab (ent_of rd kl bs) k d"
    then obtain p where "ent_of rd kl bs p = Some (k, d)" by (auto simp: in_tab_def)
    then have "hops_of bs (home (length bs) k) (p - home (length bs) k)"
      using inv tinv_entry unfolding hinv_def by blast
    then have h: "home (length bs) k < length bs" "bk_hopinfo (bs ! home (length bs) k) \<noteq> 0"
      by (auto simp: hops_of_def)
    then have "bk_key (bs ! home (length bs) k) \<noteq> NULL" using g nth_mem [OF h(1)] by (simp add: no_gaps_def)
    then show "ent_of rd kl bs (home (length bs) k) \<noteq> None" using h by (simp add: ent_of_def entry_of_def)
  qed
next
  assume r: ?R
  show "no_gaps bs" unfolding no_gaps_def
  proof (intro ballI impI)
    fix b assume "b \<in> set bs" "bk_hopinfo b \<noteq> 0"
    then obtain a m where a: "a < length bs" "b = bs ! a" "hops_of bs a m"
      using word_bit_ex by (fastforce simp: in_set_conv_nth hops_of_def)
    then obtain k d where "ent_of rd kl bs (a + m) = Some (k, d)" "home (length bs) k = a"
      using inv tinv_hops unfolding hinv_def by blast
    then have "ent_of rd kl bs a \<noteq> None" using r in_tabI by metis
    then show "bk_key b \<noteq> NULL" using a by (auto simp: ent_of_def entry_of_def split: if_splits)
  qed
qed

subsection \<open>The loops\<close>

lemma hinv_entry:
  assumes "hinv rd kl bs" and "ent_of rd kl bs p = Some (k, d)"
  shows "p < length bs" "d \<noteq> NULL" "home (length bs) k \<le> p" "p - home (length bs) k < 32"
    "hops_of bs (home (length bs) k) (p - home (length bs) k)"
    "key_bytes rd kl (bk_key (bs ! p)) = Some k" "bk_data (bs ! p) = d"
  using assms tinv_entry [of _ _ "ent_of rd kl bs" "hops_of bs" p k d]
  by (auto simp: hinv_def readable_def ent_of_def entry_of_def split: if_splits)

lemma hop_find_spec:
  assumes inv: "hinv rd kl bs" and idx: "idx < length bs" and k: "key_bytes rd kl key = Some k"
  shows "hop_find rd kl bs idx key is =
    Some (find (\<lambda>i. hops_of bs idx i \<and> fst (the (ent_of rd kl bs (idx + i))) = k) is)"
proof (induction "is")
  case (Cons i "is")
  show ?case
  proof (cases "hops_of bs idx i")
    case True
    then obtain k' d where e: "ent_of rd kl bs (idx + i) = Some (k', d)"
      using inv tinv_hops unfolding hinv_def by blast
    from hinv_entry [OF inv e] True Cons k idx show ?thesis
      by (auto simp: e bucket_at_def hops_of_def memcmp_eq_def)
  next
    case False
    with idx Cons show ?thesis by (simp add: bucket_at_def hops_of_def)
  qed
qed simp

lemma hop_find_result:
  assumes inv: "hinv rd kl bs" and k: "key_bytes rd kl key = Some k" and idx: "home (length bs) k < length bs"
  shows "(\<exists>i d. hop_find rd kl bs (home (length bs) k) key [0..<HOP_NUMBER] = Some (Some i) \<and>
            ent_of rd kl bs (home (length bs) k + i) = Some (k, d) \<and> i < 32 \<and> habs rd kl bs k = Some d) \<or>
         (hop_find rd kl bs (home (length bs) k) key [0..<HOP_NUMBER] = Some None \<and> habs rd kl bs k = None)"
proof -
  let ?h = "home (length bs) k"
  let ?P = "\<lambda>i. hops_of bs ?h i \<and> fst (the (ent_of rd kl bs (?h + i))) = k"
  note find = hop_find_spec [OF inv idx k, of "[0..<HOP_NUMBER]"]
  show ?thesis
  proof (cases "find ?P [0..<HOP_NUMBER]")
    case None
    then have no: "\<not> ?P i" if "i < 32" for i using that by (auto simp: find_None_iff HOP_NUMBER_def)
    have "\<not> in_tab (ent_of rd kl bs) k d" for d
    proof
      assume "in_tab (ent_of rd kl bs) k d"
      then obtain p where e: "ent_of rd kl bs p = Some (k, d)" by (auto simp: in_tab_def)
      from hinv_entry [OF inv e] no [of "p - ?h"] show False by (simp add: e)
    qed
    with None find habs_None [OF inv] show ?thesis by simp
  next
    case (Some i)
    then have P: "?P i" and i: "i < 32" by (auto simp: find_Some_iff HOP_NUMBER_def)
    from P obtain k' d where "ent_of rd kl bs (?h + i) = Some (k', d)"
      using inv tinv_hops unfolding hinv_def by blast
    with P have e: "ent_of rd kl bs (?h + i) = Some (k, d)" by simp
    then have "habs rd kl bs k = Some d" using habs_iff [OF inv] by (auto intro: in_tabI)
    with e i Some find show ?thesis by auto
  qed
qed

lemma probe_spec: "\<forall>i\<in>set is. i < length bs \<Longrightarrow> probe bs is = Some (find (\<lambda>i. bk_key (bs ! i) = NULL) is)"
  by (induction "is") (auto simp: bucket_at_def)

lemma hop_for_defined:
  "i < length bs \<Longrightarrow> \<exists>r. hop_for bs i js = Some r"
  by (induction js) (auto simp: bucket_at_def Let_def)

lemma move_entry_spec:
  assumes inv: "hinv rd kl bs" and i: "i < length bs" and free: "ent_of rd kl bs i = None"
    and j: "off < j" "j < 32" "j \<le> i" and hop: "hops_of bs (i - j) off"
  shows "\<exists>bs'. move_entry bs i j off = Some bs' \<and> length bs' = length bs \<and> hinv rd kl bs' \<and>
    (\<forall>k d. in_tab (ent_of rd kl bs') k d \<longleftrightarrow> in_tab (ent_of rd kl bs) k d) \<and> ent_of rd kl bs' (i - j + off) = None \<and>
    (\<forall>p. p = i \<or> ent_of rd kl bs p \<noteq> None \<longrightarrow> ent_of rd kl bs' p \<noteq> None \<or> p = i - j + off)"
proof -
  let ?a = "i - j" and ?q = "i - j + off"
  from inv hop obtain k d where e: "ent_of rd kl bs ?q = Some (k, d)" and h: "home (length bs) k = ?a"
    unfolding hinv_def using tinv_hops by blast
  have q: "?q < length bs" "?q \<noteq> i" "?a < length bs" "?a + j = i" "?a \<noteq> i" using j i by auto
  define bs' where "bs' = (let b1 = bs[i := (bs ! i)\<lparr>bk_key := bk_key (bs ! ?q), bk_data := bk_data (bs ! ?q)\<rparr>];
      b2 = b1[?q := (b1 ! ?q)\<lparr>bk_key := NULL, bk_data := NULL\<rparr>] in
      b2[?a := (b2 ! ?a)\<lparr>bk_hopinfo := (bk_hopinfo (b2 ! ?a) AND NOT (push_bit off 1)) OR push_bit j 1\<rparr>])"
  have mv: "move_entry bs i j off = Some bs'"
    unfolding move_entry_def bs'_def using q i by (simp add: bucket_at_def Let_def)
  have len: "length bs' = length bs" by (simp add: bs'_def Let_def)
  have ent: "ent_of rd kl bs' = (ent_of rd kl bs)(i := ent_of rd kl bs ?q, ?q := None)"
    using q i j by (auto simp: fun_eq_iff bs'_def Let_def ent_of_def entry_of_def nth_list_update)
  have hops: "hops_of bs' = hops_upd ?a {j} {off} (hops_of bs)"
  proof (intro ext)
    fix x y
    show "hops_of bs' x y = hops_upd ?a {j} {off} (hops_of bs) x y"
      using q i j by (auto simp: bs'_def Let_def hops_of_def hops_upd_apply bit_hop
          nth_list_update)
  qed
  have "tinv (home (length bs)) (length bs) (ent_of rd kl bs') (hops_of bs')"
    unfolding ent hops
    using tinv_move [of "home (length bs)" "length bs" "ent_of rd kl bs" "hops_of bs" ?a off k d j] inv e h free j i q(4)
    by (simp add: hinv_def)
  moreover have "readable rd kl bs'"
    using inv q i by (auto simp: hinv_def readable_def bs'_def Let_def nth_list_update)
  ultimately have "hinv rd kl bs'" by (simp add: hinv_def len)
  then show ?thesis
    using mv len in_tab_move [of "ent_of rd kl bs" i, OF free q(2)] e by (auto simp: ent)
qed

lemma displace_spec:
  assumes "hinv rd kl bs" and "i < length bs" and "ent_of rd kl bs i = None" and "idx \<le> i"
  shows "\<exists>r bs'. displace bs idx i = Some (r, bs') \<and> length bs' = length bs \<and> hinv rd kl bs' \<and>
    (\<forall>k d. in_tab (ent_of rd kl bs') k d \<longleftrightarrow> in_tab (ent_of rd kl bs) k d) \<and>
    (\<forall>i'. r = Some i' \<longrightarrow> idx \<le> i' \<and> i' - idx < 32 \<and> i' < length bs \<and> ent_of rd kl bs' i' = None \<and>
      (\<forall>p. p = i \<or> ent_of rd kl bs p \<noteq> None \<longrightarrow> ent_of rd kl bs' p \<noteq> None \<or> p = i'))"
  using assms
proof (induction bs idx i rule: displace.induct)
  case (1 bs idx i)
  show ?case
  proof (cases "i - idx \<ge> HOP_NUMBER")
    case False
    then show ?thesis using 1 by (subst displace.simps) (auto simp: HOP_NUMBER_def)
  next
    case far: True
    obtain r where r: "hop_for bs i [1..<HOP_NUMBER] = Some r" using hop_for_defined [OF 1(3)] by blast
    show ?thesis
    proof (cases r)
      case None
      then show ?thesis using far r 1 by (subst displace.simps) auto
    next
      case (Some jo)
      then obtain j off where jo: "hop_for bs i [1..<HOP_NUMBER] = Some (Some (j, off))" using r by (cases jo) auto
      note res = hop_for_result [OF jo]
      then have j: "off < j" "j < 32" "j \<le> i" "idx \<le> i - j + off"
        using far by (auto simp: HOP_NUMBER_def)
      have hop: "hops_of bs (i - j) off" using res builtin_ctz_bit by (auto simp: hops_of_def)
      from move_entry_spec [OF 1(2,3,4) j(1-3) hop] obtain bs' where
        mv: "move_entry bs i j off = Some bs'" "length bs' = length bs" "hinv rd kl bs'"
          "\<forall>k d. in_tab (ent_of rd kl bs') k d \<longleftrightarrow> in_tab (ent_of rd kl bs) k d" "ent_of rd kl bs' (i - j + off) = None"
        and occ: "\<forall>p. p = i \<or> ent_of rd kl bs p \<noteq> None \<longrightarrow> ent_of rd kl bs' p \<noteq> None \<or> p = i - j + off"
        by blast
      have "i - j + off < length bs'" using 1(3) mv(2) j by simp
      from 1(1) [OF far jo refl refl mv(1) mv(3) this mv(5) j(4)] obtain r bs'' where
        ds: "displace bs' idx (i - j + off) = Some (r, bs'')" "length bs'' = length bs'" "hinv rd kl bs''"
          "\<forall>k d. in_tab (ent_of rd kl bs'') k d \<longleftrightarrow> in_tab (ent_of rd kl bs') k d"
        and fit: "\<And>i'. r = Some i' \<Longrightarrow> idx \<le> i' \<and> i' - idx < 32 \<and> i' < length bs' \<and> ent_of rd kl bs'' i' = None \<and>
          (\<forall>p. p = i - j + off \<or> ent_of rd kl bs' p \<noteq> None \<longrightarrow> ent_of rd kl bs'' p \<noteq> None \<or> p = i')"
        by blast
      have "displace bs idx i = Some (r, bs'')" using far jo mv(1) ds(1) by (subst displace.simps) simp
      moreover have "\<forall>p. p = i \<or> ent_of rd kl bs p \<noteq> None \<longrightarrow> ent_of rd kl bs'' p \<noteq> None \<or> p = i'" if "r = Some i'" for i'
        using occ fit [OF that] by blast
      ultimately show ?thesis using ds(2-4) mv(2,4) fit by (intro exI [of _ r] exI [of _ bs'']) simp
    qed
  qed
qed

end
