(* ===== verification/Hopscotch_Ops.thy ===== *)
theory Hopscotch_Ops
  imports Hopscotch_Inv
begin

text \<open>
  The operations of the hash table, specified as operations on the map from key bytes to data that
  a table stands for.
\<close>

subsection \<open>Well-formed tables\<close>

definition table_ok :: "key_mem \<Rightarrow> hheap \<Rightarrow> ptr \<Rightarrow> hopscotch_hash_table \<Rightarrow> hopscotch_bucket list \<Rightarrow> bool" where
  "table_ok rd H ht t bs \<longleftrightarrow> tables H ht = Some t \<and> ht_buckets t \<noteq> NULL \<and> arrays H (ht_buckets t) = Some bs \<and>
     ht_exponent t < 64 \<and> length bs = 2 ^ ht_exponent t \<and> hinv rd (ht_keylen t) bs"

lemma home_less: "e < 64 \<Longrightarrow> home (2 ^ e) k < 2 ^ e"
proof -
  assume e: "e < 64"
  have "unat (ucast (jenkins_hash k) AND mask e :: u64) < 2 ^ e"
    using e by (simp add: take_bit_eq_mask [symmetric] unsigned_take_bit_eq)
  then show ?thesis by (simp add: home_def mask_eq_exp_minus_1)
qed

lemma hopscotch_lookup_spec:
  assumes ok: "table_ok rd H ht t bs" and k: "key_bytes rd (ht_keylen t) key = Some k"
  shows "hopscotch_lookup rd H ht key = Some (case habs rd (ht_keylen t) bs k of None \<Rightarrow> NULL | Some d \<Rightarrow> d)"
proof -
  from ok have t: "tables H ht = Some t" "arrays H (ht_buckets t) = Some bs" "ht_exponent t < 64"
    "length bs = 2 ^ ht_exponent t" and inv: "hinv rd (ht_keylen t) bs" by (auto simp: table_ok_def)
  let ?h = "home (length bs) k"
  have h: "?h < length bs" using t by (simp add: home_less)
  have zero: "habs rd (ht_keylen t) bs k = None" if "bk_hopinfo (bs ! ?h) = 0"
  proof -
    have "\<not> in_tab (ent_of rd (ht_keylen t) bs) k d" for d
    proof
      assume "in_tab (ent_of rd (ht_keylen t) bs) k d"
      then obtain p where "ent_of rd (ht_keylen t) bs p = Some (k, d)" by (auto simp: in_tab_def)
      from hinv_entry(5) [OF inv this] that show False by (simp add: hops_of_def)
    qed
    then show ?thesis using habs_None [OF inv] by blast
  qed
  have hit: "p < 2 ^ ht_exponent t \<and> bk_data (bs ! p) = d" if "ent_of rd (ht_keylen t) bs p = Some (k, d)" for p d
    using hinv_entry(1,7) [OF inv that] t(4) by simp
  from hop_find_result [OF inv k h] zero h t k show ?thesis
    unfolding hopscotch_lookup_def
    by (auto simp: shift_one_def bucket_at_def Let_def dest!: hit)
qed

subsection \<open>Insertion\<close>

lemma hinv_put:
  assumes inv: "hinv rd kl bs" and i: "i < length bs" "ent_of rd kl bs i = None"
    and k: "key_bytes rd kl key = Some k" and idx: "idx = home (length bs) k" "idx \<le> i" "i - idx < 32"
    and new: "\<forall>d. \<not> in_tab (ent_of rd kl bs) k d" and d: "d \<noteq> NULL"
    and bs': "bs' = (let b = bs[i := (bs ! i)\<lparr>bk_key := key, bk_data := d\<rparr>] in
       b[idx := (b ! idx)\<lparr>bk_hopinfo := bk_hopinfo (b ! idx) OR push_bit (i - idx) 1\<rparr>])"
  shows "hinv rd kl bs'" and "in_tab (ent_of rd kl bs') k' d' \<longleftrightarrow> k' = k \<and> d' = d \<or> in_tab (ent_of rd kl bs) k' d'"
proof -
  have key: "key \<noteq> NULL" using k by (auto simp: key_bytes_def split: if_splits)
  have len: "length bs' = length bs" by (simp add: bs' Let_def)
  have ent: "ent_of rd kl bs' = (ent_of rd kl bs)(i \<mapsto> (k, d))"
    using i idx key k by (auto simp: fun_eq_iff bs' Let_def ent_of_def entry_of_def nth_list_update)
  have hops: "hops_of bs' = hops_upd idx {i - idx} {} (hops_of bs)"
  proof (intro ext)
    fix x y
    show "hops_of bs' x y = hops_upd idx {i - idx} {} (hops_of bs) x y"
      using i idx by (auto simp: bs' Let_def hops_of_def hops_upd_apply bit_hop nth_list_update)
  qed
  have "tinv (home (length bs)) (length bs) (ent_of rd kl bs') (hops_of bs')"
    unfolding ent hops
    using tinv_put [of "home (length bs)" "length bs" "ent_of rd kl bs" "hops_of bs" k "i - idx" d] inv i idx new d
    by (simp add: hinv_def)
  moreover have "readable rd kl bs'"
    using inv k idx i by (auto simp: hinv_def readable_def bs' Let_def nth_list_update)
  ultimately show "hinv rd kl bs'" by (simp add: hinv_def len)
  show "in_tab (ent_of rd kl bs') k' d' \<longleftrightarrow> k' = k \<and> d' = d \<or> in_tab (ent_of rd kl bs) k' d'"
    using in_tab_put [of "ent_of rd kl bs" i, OF i(2)] by (simp add: ent)
qed

lemma find_upt_first: "find P [a..<b] = Some i \<Longrightarrow> a \<le> j \<Longrightarrow> j < i \<Longrightarrow> \<not> P j"
proof -
  assume f: "find P [a..<b] = Some i" and j: "a \<le> j" "j < i"
  then obtain m where m: "m < b - a" "i = a + m" "\<And>n. n < m \<Longrightarrow> \<not> P (a + n)"
    by (auto simp: find_Some_iff)
  from m(3) [of "j - a"] m(2) j show "\<not> P j" by simp
qed

text \<open>What insertion makes of a table: only the array of the table changes.\<close>

definition array_replaced :: "hheap \<Rightarrow> hopscotch_hash_table \<Rightarrow> hopscotch_bucket list \<Rightarrow> hheap" where
  "array_replaced H t bs = H\<lparr>arrays := (arrays H)(ht_buckets t \<mapsto> bs)\<rparr>"

lemma table_ok_replaced:
  assumes "table_ok rd H ht t bs" and "length bs' = length bs" and "hinv rd (ht_keylen t) bs'"
  shows "table_ok rd (array_replaced H t bs') ht t bs'"
  using assms by (simp add: table_ok_def array_replaced_def)

definition insert_post ::
  "key_mem \<Rightarrow> hheap \<Rightarrow> hopscotch_hash_table \<Rightarrow> hopscotch_bucket list \<Rightarrow> u8 list \<Rightarrow> ptr \<Rightarrow> int
    \<Rightarrow> hopscotch_bucket list \<Rightarrow> bool" where
  "insert_post rd H t bs k d ret bs' \<longleftrightarrow> length bs' = length bs \<and> hinv rd (ht_keylen t) bs' \<and>
     (ret \<noteq> - 3 \<and> no_gaps bs \<longrightarrow> no_gaps bs') \<and>
     (if habs rd (ht_keylen t) bs k \<noteq> None then ret = - 2 \<and> bs' = bs
      else if ret \<in> {0, - 4}
      then habs rd (ht_keylen t) bs' = (habs rd (ht_keylen t) bs)(k \<mapsto> d) \<and>
        (ret = - 4 \<longleftrightarrow> bk_hopinfo (bs' ! home (length bs) k) > 32)
      else ret \<in> {- 1, - 3} \<and> habs rd (ht_keylen t) bs' = habs rd (ht_keylen t) bs)"

lemma hopscotch_insert_spec:
  assumes ok: "table_ok rd H ht t bs" and k: "key_bytes rd (ht_keylen t) key = Some k" and d: "d \<noteq> NULL"
  shows "\<exists>ret bs'. hopscotch_insert rd H ht key d = Some (ret, array_replaced H t bs') \<and>
    insert_post rd H t bs k d ret bs'"
proof -
  from ok have t: "tables H ht = Some t" "arrays H (ht_buckets t) = Some bs" "ht_exponent t < 64"
    "length bs = 2 ^ ht_exponent t" and inv: "hinv rd (ht_keylen t) bs" by (auto simp: table_ok_def)
  let ?kl = "ht_keylen t" and ?h = "home (length bs) k"
  have same: "array_replaced H t bs = H" using t by (simp add: array_replaced_def fun_upd_idem)
  have h: "?h < length bs" using t by (simp add: home_less)
  note look = hopscotch_lookup_spec [OF ok k]
  show ?thesis
  proof (cases "habs rd ?kl bs k")
    case (Some d0)
    then have "d0 \<noteq> NULL" using habs_iff [OF inv] hinv_entry(2) [OF inv] by (auto simp: in_tab_def)
    with Some look show ?thesis
      using inv by (intro exI [of _ "- 2"] exI [of _ bs])
        (simp add: hopscotch_insert_def insert_post_def same)
  next
    case None
    then have new: "\<forall>d. \<not> in_tab (ent_of rd ?kl bs) k d" using habs_None [OF inv] by blast
    have probe: "probe bs [?h..<2 ^ ht_exponent t] = Some (find (\<lambda>i. bk_key (bs ! i) = NULL) [?h..<length bs])"
      using t by (simp add: probe_spec)
    show ?thesis
    proof (cases "find (\<lambda>i. bk_key (bs ! i) = NULL) [?h..<length bs]")
      case none: None
      with None look t k probe inv show ?thesis
        by (intro exI [of _ "- 1"] exI [of _ bs])
           (simp add: hopscotch_insert_def insert_post_def same shift_one_def Let_def)
    next
      case (Some i)
      then have i: "?h \<le> i" "i < length bs" "ent_of rd ?kl bs i = None"
        by (auto simp: find_Some_iff ent_of_def entry_of_def)
      from displace_spec [OF inv i(2,3,1)] obtain r bs1 where
        ds: "displace bs ?h i = Some (r, bs1)" "length bs1 = length bs" "hinv rd ?kl bs1"
        and tab: "\<And>k d. in_tab (ent_of rd ?kl bs1) k d \<longleftrightarrow> in_tab (ent_of rd ?kl bs) k d"
        and fit: "\<And>i'. r = Some i' \<Longrightarrow> ?h \<le> i' \<and> i' - ?h < 32 \<and> i' < length bs \<and> ent_of rd ?kl bs1 i' = None \<and>
          (\<forall>p. p = i \<or> ent_of rd ?kl bs p \<noteq> None \<longrightarrow> ent_of rd ?kl bs1 p \<noteq> None \<or> p = i')"
        by blast
      have abs1: "habs rd ?kl bs1 = habs rd ?kl bs"
        by (rule habs_eqI [OF ds(3)]) (simp add: tab habs_iff [OF inv])
      show ?thesis
      proof (cases r)
        case none: None
        with None Some look t k probe ds abs1 show ?thesis
          by (intro exI [of _ "- 3"] exI [of _ bs1])
             (simp add: hopscotch_insert_def insert_post_def shift_one_def Let_def array_replaced_def)
      next
        case r: (Some i')
        define bs2 where "bs2 = (let b = bs1[i' := (bs1 ! i')\<lparr>bk_key := key, bk_data := d\<rparr>] in
          b[?h := (b ! ?h)\<lparr>bk_hopinfo := bk_hopinfo (b ! ?h) OR push_bit (i' - ?h) 1\<rparr>])"
        note put = hinv_put [OF ds(3) _ _ k, of i' ?h d bs2, unfolded ds(2), OF _ _ refl _ _ _ d bs2_def]
        have inv2: "hinv rd ?kl bs2" and tab2: "in_tab (ent_of rd ?kl bs2) k' d' \<longleftrightarrow>
            k' = k \<and> d' = d \<or> in_tab (ent_of rd ?kl bs) k' d'" for k' d'
          using put fit [OF r] new by (simp_all add: tab)
        have abs2: "habs rd ?kl bs2 = (habs rd ?kl bs)(k \<mapsto> d)"
          by (rule habs_eqI [OF inv2]) (use new in \<open>auto simp: tab2 habs_iff [OF inv]\<close>)
        have len2: "length bs2 = length bs" by (simp add: bs2_def Let_def ds(2))
        have hop2: "bk_hopinfo (bs2 ! ?h) = bk_hopinfo (bs1[i' := (bs1 ! i')\<lparr>bk_key := key, bk_data := d\<rparr>] ! ?h)
            OR push_bit (i' - ?h) 1"
          using h ds(2) by (simp add: bs2_def Let_def)
        let ?ret = "if bk_hopinfo (bs2 ! ?h) > 32 then - 4 else 0 :: int"
        have key: "key \<noteq> NULL" using k by (auto simp: key_bytes_def split: if_splits)
        have occ: "ent_of rd ?kl bs2 p \<noteq> None" if "p = i \<or> ent_of rd ?kl bs p \<noteq> None" for p
        proof -
          have "ent_of rd ?kl bs1 p \<noteq> None \<or> p = i'" "i' < length bs" using fit [OF r] that by blast+
          then show ?thesis
            using ds(2) key by (auto simp: bs2_def Let_def ent_of_def entry_of_def nth_list_update split: if_splits)
        qed
        have "ent_of rd ?kl bs2 ?h \<noteq> None"
        proof (cases "i = ?h")
          case False
          then have "bk_key (bs ! ?h) \<noteq> NULL" using i(1) h find_upt_first [OF Some] by simp
          then show ?thesis using occ [of ?h] h by (simp add: ent_of_def entry_of_def)
        qed (use occ in blast)
        then have gaps: "no_gaps bs \<longrightarrow> no_gaps bs2"
          using occ by (auto simp: no_gaps_iff [OF inv] no_gaps_iff [OF inv2] tab2 len2)
        have "hopscotch_insert rd H ht key d = Some (?ret, array_replaced H t bs2)"
          using None Some look t k probe ds r fit [OF r] h
          by (simp add: hopscotch_insert_def shift_one_def Let_def array_replaced_def bucket_at_def hop2)
             (simp add: bs2_def Let_def)
        moreover have "insert_post rd H t bs k d ?ret bs2"
          using None len2 inv2 abs2 gaps by (simp add: insert_post_def)
        ultimately show ?thesis by blast
      qed
    qed
  qed
qed

subsection \<open>Removal\<close>

lemma hinv_drop:
  assumes inv: "hinv rd kl bs" and e: "ent_of rd kl bs (idx + i) = Some (k, d)"
    and idx: "idx = home (length bs) k" "i < 32"
    and bs': "bs' = (let b = bs[idx := (bs ! idx)\<lparr>bk_hopinfo := bk_hopinfo (bs ! idx) AND NOT (push_bit i 1)\<rparr>] in
       b[idx + i := (b ! (idx + i))\<lparr>bk_key := NULL, bk_data := NULL\<rparr>])"
  shows "hinv rd kl bs'" and "in_tab (ent_of rd kl bs') k' d' \<longleftrightarrow> k' \<noteq> k \<and> in_tab (ent_of rd kl bs) k' d'"
proof -
  note p = hinv_entry [OF inv e]
  have len: "length bs' = length bs" by (simp add: bs' Let_def)
  have ent: "ent_of rd kl bs' = (ent_of rd kl bs)(idx + i := None)"
    using p by (auto simp: fun_eq_iff bs' Let_def ent_of_def entry_of_def nth_list_update)
  define w where "w = bk_hopinfo (bs ! idx) AND NOT (push_bit i 1)"
  have w: "bit w y \<longleftrightarrow> bit (bk_hopinfo (bs ! idx)) y \<and> y \<noteq> i" for y
    unfolding w_def by (rule bit_hop_clear [OF idx(2)])
  have hops: "hops_of bs' = hops_upd idx {} {i} (hops_of bs)"
  proof (intro ext)
    fix x y
    show "hops_of bs' x y = hops_upd idx {} {i} (hops_of bs) x y"
      unfolding bs' w_def [symmetric]
      using p(1) by (auto simp: Let_def hops_of_def hops_upd_apply w nth_list_update)
  qed
  have t: "tinv (home (length bs)) (length bs) (ent_of rd kl bs) (hops_of bs)" using inv by (simp add: hinv_def)
  have "tinv (home (length bs)) (length bs) (ent_of rd kl bs') (hops_of bs')"
    unfolding ent hops using tinv_drop [OF t, of k i d] e idx by simp
  moreover have "readable rd kl bs'"
    using inv p by (auto simp: hinv_def readable_def bs' Let_def nth_list_update)
  ultimately show "hinv rd kl bs'" by (simp add: hinv_def len)
  show "in_tab (ent_of rd kl bs') k' d' \<longleftrightarrow> k' \<noteq> k \<and> in_tab (ent_of rd kl bs) k' d'"
    using in_tab_drop [OF t e] by (simp add: ent)
qed

lemma hopscotch_remove_spec:
  assumes ok: "table_ok rd H ht t bs" and k: "key_bytes rd (ht_keylen t) key = Some k"
  shows "\<exists>bs'. hopscotch_remove rd H ht key =
      Some (case habs rd (ht_keylen t) bs k of None \<Rightarrow> NULL | Some d \<Rightarrow> d, array_replaced H t bs') \<and>
    length bs' = length bs \<and> hinv rd (ht_keylen t) bs' \<and>
    habs rd (ht_keylen t) bs' = (habs rd (ht_keylen t) bs)(k := None)"
proof -
  from ok have t: "tables H ht = Some t" "arrays H (ht_buckets t) = Some bs" "ht_exponent t < 64"
    "length bs = 2 ^ ht_exponent t" and inv: "hinv rd (ht_keylen t) bs" by (auto simp: table_ok_def)
  let ?kl = "ht_keylen t" and ?h = "home (length bs) k"
  have same: "array_replaced H t bs = H" using t by (simp add: array_replaced_def fun_upd_idem)
  have h: "?h < length bs" using t by (simp add: home_less)
  from hop_find_result [OF inv k h] show ?thesis
  proof (elim disjE exE conjE)
    fix i d
    assume f: "hop_find rd ?kl bs ?h key [0..<HOP_NUMBER] = Some (Some i)"
      and e: "ent_of rd ?kl bs (?h + i) = Some (k, d)" and i: "i < 32" and abs: "habs rd ?kl bs k = Some d"
    define bs' where "bs' = (let b = bs[?h := (bs ! ?h)\<lparr>bk_hopinfo := bk_hopinfo (bs ! ?h) AND NOT (push_bit i 1)\<rparr>] in
       b[?h + i := (b ! (?h + i))\<lparr>bk_key := NULL, bk_data := NULL\<rparr>])"
    note p = hinv_entry [OF inv e] and dr = hinv_drop [OF inv e refl i bs'_def]
    have hop: "bk_hopinfo (bs ! ?h) \<noteq> 0" using p(5) by (auto simp: hops_of_def)
    have "habs rd ?kl bs' = (habs rd ?kl bs)(k := None)"
      by (rule habs_eqI [OF dr(1)]) (auto simp: dr(2) habs_iff [OF inv])
    moreover have "hopscotch_remove rd H ht key = Some (d, array_replaced H t bs')"
      using t k f p h hop
      by (simp add: hopscotch_remove_def shift_one_def Let_def bucket_at_def bs'_def array_replaced_def)
    moreover have "length bs' = length bs" by (simp add: bs'_def Let_def)
    ultimately show ?thesis using abs dr(1) by auto
  next
    assume f: "hop_find rd ?kl bs ?h key [0..<HOP_NUMBER] = Some None" and abs: "habs rd ?kl bs k = None"
    then show ?thesis
      using t k h inv
      by (intro exI [of _ bs]) (simp add: hopscotch_remove_def shift_one_def Let_def bucket_at_def same)
  qed
qed

subsection \<open>Resizing\<close>

lemma tinv_empty [simp]: "tinv h n (\<lambda>_. None) (\<lambda>_ _. False)"
  by (simp add: tinv_def)

lemma hinv_zero: "hinv rd kl (replicate n zero_bucket)" and habs_zero: "habs rd kl (replicate n zero_bucket) = Map.empty"
proof -
  have "ent_of rd kl (replicate n zero_bucket) = (\<lambda>_. None)" "hops_of (replicate n zero_bucket) = (\<lambda>_ _. False)"
    by (auto simp: fun_eq_iff ent_of_def entry_of_def hops_of_def zero_bucket_def)
  then show i: "hinv rd kl (replicate n zero_bucket)" and "habs rd kl (replicate n zero_bucket) = Map.empty"
    by (simp_all add: hinv_def readable_def zero_bucket_def habs_def map_filter_def)
qed

text \<open>\<open>m\<close> holds the entries of the first \<open>n\<close> positions.\<close>

definition holds_upto :: "entries \<Rightarrow> nat \<Rightarrow> (u8 list \<rightharpoonup> ptr) \<Rightarrow> bool" where
  "holds_upto ent n m \<longleftrightarrow> (\<forall>k d. m k = Some d \<longleftrightarrow> (\<exists>p<n. ent p = Some (k, d)))"

lemma holds_upto_Suc:
  assumes "holds_upto ent n m" and "ent n = Some (k, d)" and "\<And>p d'. ent p = Some (k, d') \<Longrightarrow> p = n"
  shows "holds_upto ent (Suc n) (m(k \<mapsto> d))"
proof -
  have ex: "(\<exists>p<Suc n. ent p = Some (k', d')) \<longleftrightarrow> ent n = Some (k', d') \<or> (\<exists>p<n. ent p = Some (k', d'))" for k' d'
    by (auto simp: less_Suc_eq)
  have old: "(\<exists>p<n. ent p = Some (k', d')) \<longleftrightarrow> m k' = Some d'" for k' d'
    using assms(1) by (simp add: holds_upto_def)
  have "m k \<noteq> Some d'" for d' using old [of k d'] assms(3) by (metis less_irrefl)
  with assms(2) show ?thesis unfolding holds_upto_def ex old by auto
qed

lemma holds_upto_skip: "holds_upto ent n m \<Longrightarrow> ent n = None \<Longrightarrow> holds_upto ent (Suc n) m"
  by (auto simp: holds_upto_def less_Suc_eq)

lemma array_replaced_twice [simp]: "array_replaced (array_replaced H t a) t b = array_replaced H t b"
  by (simp add: array_replaced_def)

lemma resize_for_spec:
  assumes inv: "hinv rd (ht_keylen t1) obs"
  shows "table_ok rd H ht t1 bs1 \<Longrightarrow> arrays H ob = Some obs \<Longrightarrow> ob \<noteq> ht_buckets t1 \<Longrightarrow>
    holds_upto (ent_of rd (ht_keylen t1) obs) n (habs rd (ht_keylen t1) bs1) \<Longrightarrow> n \<le> length obs \<Longrightarrow>
    \<exists>copied bs2. resize_for rd ht ob [n..<length obs] H = Some (copied, array_replaced H t1 bs2) \<and>
      (copied \<longrightarrow> table_ok rd (array_replaced H t1 bs2) ht t1 bs2 \<and>
         habs rd (ht_keylen t1) bs2 = habs rd (ht_keylen t1) obs)"
proof (induction "length obs - n" arbitrary: n H bs1)
  case 0
  let ?kl = "ht_keylen t1"
  have "n = length obs" using 0 by simp
  with 0 have "habs rd ?kl bs1 k = Some d \<longleftrightarrow> (\<exists>p<length obs. ent_of rd ?kl obs p = Some (k, d))" for k d
    by (simp add: holds_upto_def)
  also have "\<dots> k d \<longleftrightarrow> habs rd ?kl obs k = Some d" for k d
    unfolding habs_iff [OF inv] in_tab_def using hinv_entry(1) [OF inv] by blast
  finally have "habs rd ?kl obs = habs rd ?kl bs1"
    by (intro habs_eqI [OF inv]) (simp add: habs_iff [OF inv, symmetric])
  moreover have "array_replaced H t1 bs1 = H"
    using 0(2) by (simp add: array_replaced_def table_ok_def fun_upd_idem)
  ultimately show ?case using 0 by (intro exI [of _ True] exI [of _ bs1]) simp
next
  case (Suc m)
  let ?kl = "ht_keylen t1" and ?b = "obs ! n"
  have n: "n < length obs" "m = length obs - Suc n" using Suc(2) by auto
  have step: "resize_for rd ht ob [n..<length obs] H =
    (if bk_key ?b \<noteq> NULL then do {
       (ret, H) \<leftarrow> hopscotch_insert rd H ht (bk_key ?b) (bk_data ?b);
       if ret < 0 then Some (False, H) else resize_for rd ht ob [Suc n..<length obs] H }
     else resize_for rd ht ob [Suc n..<length obs] H)"
    using n Suc(4) by (simp add: upt_conv_Cons bucket_at_def)
  show ?case
  proof (cases "bk_key ?b = NULL")
    case True
    then have "holds_upto (ent_of rd ?kl obs) (Suc n) (habs rd ?kl bs1)"
      using n by (intro holds_upto_skip [OF Suc.prems(4)]) (simp add: ent_of_def entry_of_def)
    from Suc(1) [OF n(2) Suc.prems(1-3) this] n(1) True show ?thesis unfolding step by simp
  next
    case False
    then obtain k where e: "ent_of rd ?kl obs n = Some (k, bk_data ?b)"
      using n by (simp add: ent_of_def entry_of_def)
    note he = hinv_entry [OF inv e]
    have uniq: "p = n" if "ent_of rd ?kl obs p = Some (k, d')" for p d'
      using inv that e tinv_unique unfolding hinv_def by blast
    have new: "habs rd ?kl bs1 k = None"
    proof (rule ccontr)
      assume "habs rd ?kl bs1 k \<noteq> None"
      then obtain d' where "habs rd ?kl bs1 k = Some d'" by blast
      then obtain p where "p < n" "ent_of rd ?kl obs p = Some (k, d')"
        using Suc.prems(4) unfolding holds_upto_def by blast
      with uniq show False by blast
    qed
    from hopscotch_insert_spec [OF Suc.prems(1) he(6,2)] obtain ret bs2 where
      ins: "hopscotch_insert rd H ht (bk_key ?b) (bk_data ?b) = Some (ret, array_replaced H t1 bs2)"
      and post: "insert_post rd H t1 bs1 k (bk_data ?b) ret bs2" by blast
    show ?thesis
    proof (cases "ret < 0")
      case True
      then show ?thesis unfolding step using False ins by auto
    next
      case ok: False
      then have abs2: "habs rd ?kl bs2 = (habs rd ?kl bs1)(k \<mapsto> bk_data ?b)" and bs2: "length bs2 = length bs1" "hinv rd ?kl bs2"
        using post new by (auto simp: insert_post_def split: if_splits)
      let ?H = "array_replaced H t1 bs2"
      have "table_ok rd ?H ht t1 bs2" by (rule table_ok_replaced [OF Suc.prems(1) bs2])
      moreover have "arrays ?H ob = Some obs" using Suc.prems(2,3) by (simp add: array_replaced_def)
      moreover have "holds_upto (ent_of rd ?kl obs) (Suc n) (habs rd ?kl bs2)"
        unfolding abs2 using Suc.prems(4) e uniq by (rule holds_upto_Suc)
      ultimately show ?thesis
        unfolding step using False ins ok Suc(1) [OF n(2), of ?H bs2] Suc.prems(3) n(1) by simp
    qed
  qed
qed

end
