(* ===== verification/Segment.thy ===== *)
theory Segment
  imports Hopscotch_Ops
begin

text \<open>
  The image of a hash table in persistent memory: the loops of \<open>src/examples/hash/writehash.c\<close>
  that fill a table and write it out, and the lookups of \<open>readhash.c\<close>, \<open>singlehashclient.c\<close> and
  \<open>multihashclient.c\<close> that read the image again, in mapped memory or from a segment fetched by an
  RDMA read.
  \<^item> Mapped memory is a list of bytes; a \<open>strcpy\<close> or \<open>memcpy\<close> that leaves it is undefined
    behaviour (\<open>None\<close>), and so is a \<open>sprintf\<close> that does not fit in its buffer and an \<open>atoi\<close>
    that finds no end of the number.
  \<^item> A record of the image has 64 bytes: \<open>'1'\<close> or \<open>'0'\<close>, the neighbourhood map in decimal (4
    bytes), the key (32 bytes) and the data (27 bytes) as C strings.
  \<^item> The programs have fixed sizes, which are arguments here: the number of buckets (\<open>2 ^ 21\<close>),
    of bytes that are cleaned (\<open>10 ^ 9\<close>) and of keys (\<open>10 ^ 6\<close>).
\<close>

subsection \<open>C strings and numbers\<close>

fun cstr :: "u8 list \<Rightarrow> u8 list option" where
  "cstr [] = None"
| "cstr (c # cs) = (if c = 0 then Some [] else do { s \<leftarrow> cstr cs; Some (c # s) })"

definition string_at :: "key_mem \<Rightarrow> ptr \<Rightarrow> u8 list option" where
  "string_at rd p = (if p = NULL then None else do { bs \<leftarrow> rd p; cstr bs })"

definition strcpy :: "nat \<Rightarrow> u8 list \<Rightarrow> u8 list \<Rightarrow> u8 list option" where
  "strcpy off s img = write_bytes off (s @ [0]) img"

definition digit :: "nat \<Rightarrow> u8" where
  "digit d = 48 + of_nat d"

fun digits :: "nat \<Rightarrow> u8 list" where
  "digits n = (if n < 10 then [digit n] else digits (n div 10) @ [digit (n mod 10)])"

declare digits.simps [simp del]

definition decimal :: "int \<Rightarrow> u8 list" where
  "decimal i = (if i < 0 then 45 # digits (nat (- i)) else digits (nat i))"

text \<open>\<open>sprintf(hop, "%d", hopinfo)\<close> with \<open>char hop[4]\<close>\<close>

definition sprintf_hop :: "u32 \<Rightarrow> u8 list option" where
  "sprintf_hop w = (let t = decimal (sint w) in if length t + 1 \<le> 4 then Some t else None)"

definition isspace :: "u8 \<Rightarrow> bool" where
  "isspace c \<longleftrightarrow> c = 32 \<or> 9 \<le> c \<and> c \<le> 13"

fun atoi_digits :: "int \<Rightarrow> u8 list \<Rightarrow> int option" where
  "atoi_digits n [] = None"
| "atoi_digits n (c # cs) =
     (if 48 \<le> c \<and> c \<le> 57 then atoi_digits (10 * n + (uint c - 48)) cs else Some n)"

text \<open>Only called on 4 bytes, so that the number cannot overflow.\<close>

definition atoi :: "u8 list \<Rightarrow> int option" where
  "atoi s = (case dropWhile isspace s of
       [] \<Rightarrow> None
     | c # cs \<Rightarrow>
         if c = 45 then map_option uminus (atoi_digits 0 cs)
         else if c = 43 then atoi_digits 0 cs
         else atoi_digits 0 (c # cs))"

subsection \<open>Writing a table\<close>

definition metasize :: nat where "metasize = 1"
definition hopsize :: nat where "hopsize = 4"
definition keysize :: nat where "keysize = 32"
definition valsize :: nat where "valsize = 27"
definition client_keylen :: nat where "client_keylen = 24"

text \<open>The loop over the keys of the trace, counting the insertions that displaced something.\<close>

primrec insert_keys :: "key_mem \<Rightarrow> ptr \<Rightarrow> ptr list \<Rightarrow> u32 \<Rightarrow> hheap \<Rightarrow> (u32 \<times> hheap) option" where
  "insert_keys rd ht [] collision H = Some (collision, H)"
| "insert_keys rd ht (k # ks) collision H = do {
     (ret, H) \<leftarrow> hopscotch_insert rd H ht k k;
     insert_keys rd ht ks (if ret = - 4 then collision + 1 else collision) H
   }"

primrec clean_for :: "nat list \<Rightarrow> u8 list \<Rightarrow> u8 list option" where
  "clean_for [] img = Some img"
| "clean_for (i # is) img = do { img \<leftarrow> strcpy i [32] img; clean_for is img }"

definition write_bucket :: "key_mem \<Rightarrow> hopscotch_bucket \<Rightarrow> nat \<Rightarrow> u8 list \<Rightarrow> (nat \<times> u8 list) option" where
  "write_bucket rd b off img =
     (if bk_key b \<noteq> NULL then do {
        img \<leftarrow> strcpy off [49] img;
        let off = off + metasize;
        hop \<leftarrow> sprintf_hop (bk_hopinfo b);
        img \<leftarrow> strcpy off hop img;
        let off = off + hopsize;
        key \<leftarrow> string_at rd (bk_key b);
        img \<leftarrow> strcpy off key img;
        let off = off + keysize;
        data \<leftarrow> string_at rd (bk_data b);
        img \<leftarrow> strcpy off data img;
        let off = off + valsize;
        Some (off, img)
      } else do {
        img \<leftarrow> strcpy off [48] img;
        Some (off + 64, img)
      })"

primrec write_for ::
  "key_mem \<Rightarrow> hopscotch_bucket list \<Rightarrow> nat list \<Rightarrow> nat \<Rightarrow> u8 list \<Rightarrow> (nat \<times> u8 list) option" where
  "write_for rd bs [] off img = Some (off, img)"
| "write_for rd bs (i # is) off img = do {
     b \<leftarrow> bucket_at bs i;
     (off, img) \<leftarrow> write_bucket rd b off img;
     write_for rd bs is off img
   }"

definition write_table ::
  "key_mem \<Rightarrow> hheap \<Rightarrow> ptr \<Rightarrow> nat \<Rightarrow> nat \<Rightarrow> u8 list \<Rightarrow> u8 list option" where
  "write_table rd H ht cleaned sz img = do {
     t \<leftarrow> tables H ht;
     bs \<leftarrow> arrays H (ht_buckets t);
     img \<leftarrow> clean_for [0..<cleaned] img;
     (off, img) \<leftarrow> write_for rd bs [0..<sz] 0 img;
     Some img
   }"

subsection \<open>Looking up a key\<close>

text \<open>What a program finds out about a key: that the bucket of the key is empty, or the number of
  entries it takes for the key.\<close>

datatype found = Not_found | Found nat

primrec readhash_hops ::
  "key_mem \<Rightarrow> ptr \<Rightarrow> u8 list \<Rightarrow> nat \<Rightarrow> u32 \<Rightarrow> nat list \<Rightarrow> nat \<Rightarrow> nat option" where
  "readhash_hops rd p addr idx hopinfo [] n = Some n"
| "readhash_hops rd p addr idx hopinfo (i # is) n =
     (if bit hopinfo i then do {
        key \<leftarrow> read_bytes ((idx + i) * 64 + metasize + hopsize) client_keylen addr;
        k \<leftarrow> key_bytes rd (client_keylen - 4) p;
        readhash_hops rd p addr idx hopinfo is (if k = take (client_keylen - 4) key then n + 1 else n)
      } else readhash_hops rd p addr idx hopinfo is n)"

definition readhash_key :: "key_mem \<Rightarrow> nat \<Rightarrow> u8 list \<Rightarrow> ptr \<Rightarrow> found option" where
  "readhash_key rd sz addr p = do {
     k \<leftarrow> key_bytes rd client_keylen p;
     let idx = home sz k;
     valid \<leftarrow> read_bytes (idx * 64) 1 addr;
     if valid = [49] then do {
       hopdest \<leftarrow> read_bytes (idx * 64 + metasize) hopsize addr;
       a \<leftarrow> atoi hopdest;
       let hopinfo = word_of_int a;
       if hopinfo = 1 then do {
         key \<leftarrow> read_bytes (idx * 64 + metasize + hopsize) client_keylen addr;
         Some (Found 1)
       } else do {
         n \<leftarrow> readhash_hops rd p addr idx hopinfo [0..<HOP_NUMBER] 0;
         Some (Found n)
       }
     } else Some Not_found
   }"

text \<open>The clients read the segment of a key into a buffer first.\<close>

primrec segment_hops :: "key_mem \<Rightarrow> ptr \<Rightarrow> u8 list \<Rightarrow> u32 \<Rightarrow> nat list \<Rightarrow> nat \<Rightarrow> nat option" where
  "segment_hops rd p dst hopinfo [] n = Some n"
| "segment_hops rd p dst hopinfo (i # is) n =
     (if bit hopinfo i then do {
        key \<leftarrow> read_bytes (metasize + hopsize + i * 64) client_keylen dst;
        k \<leftarrow> key_bytes rd (client_keylen - 4) p;
        segment_hops rd p dst hopinfo is (if k = take (client_keylen - 4) key then n + 1 else n)
      } else segment_hops rd p dst hopinfo is n)"

definition segment_key :: "key_mem \<Rightarrow> ptr \<Rightarrow> u8 list \<Rightarrow> found option" where
  "segment_key rd p dst = do {
     metadata \<leftarrow> read_bytes 0 5 dst;
     if hd metadata = 49 then do {
       hopdest \<leftarrow> read_bytes 1 hopsize metadata;
       a \<leftarrow> atoi hopdest;
       let hopinfo = word_of_int a;
       if hopinfo = 1 then do {
         key \<leftarrow> read_bytes (metasize + hopsize) client_keylen dst;
         Some (Found 1)
       } else do {
         n \<leftarrow> segment_hops rd p dst hopinfo [0..<HOP_NUMBER] 0;
         Some (Found n)
       }
     } else Some Not_found
   }"

subsection \<open>Numbers as text\<close>

lemma unat_digit: "d < 10 \<Longrightarrow> unat (digit d) = 48 + d"
  by (simp add: digit_def unat_word_ariths unat_of_nat)

lemma digit_byte [simp]:
  assumes "d < 10"
  shows "48 \<le> digit d" "digit d \<le> 57" "uint (digit d) = 48 + int d"
    "\<not> isspace (digit d)" "digit d \<noteq> 45" "digit d \<noteq> 43"
  using unat_digit [OF assms] assms by (auto simp: word_le_nat_alt uint_nat isspace_def word_unat_eq_iff)

lemma atoi_digits_digits:
  "atoi_digits m (digits n @ rest) = atoi_digits (m * 10 ^ length (digits n) + int n) rest"
proof (induction n arbitrary: m rest rule: digits.induct)
  case (1 n)
  show ?case
  proof (cases "n < 10")
    case True
    then show ?thesis by (simp add: digits.simps [of n] algebra_simps)
  next
    case False
    have n: "10 * int (n div 10) + int (n mod 10) = int n" by presburger
    have l: "length (digits n) = Suc (length (digits (n div 10)))" using False by (simp add: digits.simps [of n])
    have "atoi_digits m (digits n @ rest) =
        atoi_digits (10 * (m * 10 ^ length (digits (n div 10)) + int (n div 10)) + int (n mod 10)) rest"
      using False 1 [of m "digit (n mod 10) # rest"] by (simp add: digits.simps [of n])
    also have "10 * (m * 10 ^ length (digits (n div 10)) + int (n div 10)) + int (n mod 10) =
        m * 10 ^ length (digits n) + int n"
      unfolding l power_Suc n distrib_left add.assoc by simp
    finally show ?thesis .
  qed
qed

lemma digits_head: "\<exists>d ds. digits n = digit d # ds \<and> d < 10"
proof (induction n rule: digits.induct)
  case (1 n)
  then show ?case by (cases "n < 10") (auto simp: digits.simps [of n])
qed

lemma atoi_decimal: "atoi (decimal i @ 0 # rest) = Some i"
proof (cases "i < 0")
  case True
  then show ?thesis
    by (simp add: decimal_def atoi_def isspace_def atoi_digits_digits)
next
  case False
  obtain d ds where d: "digits (nat i) = digit d # ds" "d < 10" using digits_head by blast
  have "atoi (digits (nat i) @ 0 # rest) = atoi_digits 0 (digits (nat i) @ 0 # rest)"
    using d by (simp add: atoi_def)
  with False show ?thesis by (simp add: decimal_def atoi_digits_digits)
qed

lemma digits_length: "length (digits n) \<le> Suc m \<longleftrightarrow> n < 10 ^ Suc m"
proof (induction m arbitrary: n)
  case 0
  obtain d ds where "digits (n div 10) = digit d # ds" using digits_head by blast
  then show ?case by (simp add: digits.simps [of n])
next
  case (Suc m)
  have "n < 10 ^ Suc (Suc m) \<longleftrightarrow> n div 10 < 10 ^ Suc m"
    by (simp add: div_less_iff_less_mult)
  moreover have "n < 10 \<Longrightarrow> n div 10 < 10 ^ Suc m" by simp
  ultimately show ?case using Suc [of "n div 10"] by (simp add: digits.simps [of n])
qed

text \<open>The neighbourhood maps that have a text of at most three characters.\<close>

definition hop_fits :: "u32 \<Rightarrow> bool" where
  "hop_fits w \<longleftrightarrow> - 100 < sint w \<and> sint w < 1000"

lemma sprintf_hop_eq: "sprintf_hop w = (if hop_fits w then Some (decimal (sint w)) else None)"
proof -
  have "length (decimal (sint w)) + 1 \<le> 4 \<longleftrightarrow> hop_fits w"
    using digits_length [of "nat (- sint w)" 1] digits_length [of "nat (sint w)" 2]
    by (auto simp: decimal_def hop_fits_def)
  then show ?thesis by (simp add: sprintf_hop_def Let_def)
qed

subsection \<open>The records of an image\<close>

lemma strcpy_facts:
  assumes "strcpy off s img = Some img'"
  shows "length img' = length img" "off + length s < length img"
    "read_bytes off (Suc (length s)) img' = Some (s @ [0])"
    "o' + n \<le> off \<Longrightarrow> read_bytes o' n img' = read_bytes o' n img"
  using assms read_after_write [of off "s @ [0]" img img'] read_other_after_write [of off "s @ [0]" img img' o' n]
    write_bytes_length [of off "s @ [0]" img img']
  by (auto simp: strcpy_def write_bytes_def split: if_splits)

lemma strcpy_defined: "off + length s < length img \<Longrightarrow> \<exists>img'. strcpy off s img = Some img'"
  by (simp add: strcpy_def write_bytes_def)

lemma read_bytes_shorter: "read_bytes off n img = Some xs \<Longrightarrow> m \<le> n \<Longrightarrow> read_bytes off m img = Some (take m xs)"
  by (auto simp: read_bytes_def min_def split: if_splits)

lemma read_bytes_longer:
  assumes "read_bytes off n img = Some xs" and "n \<le> m" and "off + m \<le> length img"
  shows "\<exists>rest. read_bytes off m img = Some (xs @ rest) \<and> length rest = m - n"
proof -
  have "take m (drop off img) = take n (drop off img) @ take (m - n) (drop n (drop off img))"
    using assms(2) by (metis le_add_diff_inverse take_add)
  with assms show ?thesis by (auto simp: read_bytes_def split: if_splits)
qed

text \<open>What the readers look at in a record: the first byte, the text of the neighbourhood map with its
  terminator, and the first bytes of the key.\<close>

definition holds_record :: "key_mem \<Rightarrow> hopscotch_bucket \<Rightarrow> nat \<Rightarrow> u8 list \<Rightarrow> bool" where
  "holds_record rd b off img \<longleftrightarrow>
     (if bk_key b = NULL then read_bytes off 1 img = Some [48]
      else off + 37 < length img \<and> read_bytes off 1 img = Some [49] \<and> hop_fits (bk_hopinfo b) \<and>
        (let t = decimal (sint (bk_hopinfo b)) @ [0] in read_bytes (off + 1) (length t) img = Some t) \<and>
        (\<exists>s. string_at rd (bk_key b) = Some s \<and>
          read_bytes (off + 5) (min 32 (Suc (length s))) img = Some (take 32 (s @ [0]))))"

lemma holds_record_later:
  assumes "holds_record rd b off img" and "length img' = length img"
    and "\<And>o' n. o' + n \<le> off + 64 \<Longrightarrow> read_bytes o' n img' = read_bytes o' n img"
  shows "holds_record rd b off img'"
proof -
  have "length (decimal (sint w)) \<le> 3" if "hop_fits w" for w
    using sprintf_hop_eq [of w] that by (simp add: sprintf_hop_def Let_def split: if_splits)
  with assms show ?thesis by (fastforce simp: holds_record_def Let_def)
qed

lemma write_bucket_record:
  assumes "write_bucket rd b off img = Some (off', img')"
  shows "off' = off + 64 \<and> length img' = length img \<and> holds_record rd b off img' \<and>
    (\<forall>o' n. o' + n \<le> off \<longrightarrow> read_bytes o' n img' = read_bytes o' n img)"
proof (cases "bk_key b = NULL")
  case True
  with assms obtain img1 where "strcpy off [48] img = Some img1" "off' = off + 64" "img' = img1"
    by (auto simp: write_bucket_def bind_eq_Some_conv)
  with strcpy_facts [of off "[48]" img img1] read_bytes_shorter [of off 2 img1 "[48, 0]" 1] True show ?thesis
    by (auto simp: holds_record_def numeral_2_eq_2)
next
  case False
  with assms obtain i1 i2 i3 s d where w: "strcpy off [49] img = Some i1" "hop_fits (bk_hopinfo b)"
      "strcpy (off + 1) (decimal (sint (bk_hopinfo b))) i1 = Some i2"
      "string_at rd (bk_key b) = Some s" "strcpy (off + 5) s i2 = Some i3" "strcpy (off + 37) d i3 = Some img'"
      "off' = off + 64"
    by (auto simp: write_bucket_def bind_eq_Some_conv sprintf_hop_eq metasize_def hopsize_def keysize_def valsize_def
        add.commute split: if_splits)
  let ?t = "decimal (sint (bk_hopinfo b))"
  have t: "length ?t \<le> 3" using sprintf_hop_eq [of "bk_hopinfo b"] w(2) by (simp add: sprintf_hop_def Let_def split: if_splits)
  note f = strcpy_facts [OF w(1)] strcpy_facts [OF w(3)] strcpy_facts [OF w(5)] strcpy_facts [OF w(6)]
  have "read_bytes off 1 img' = Some [49]"
    using f(4,8,12,16) [of off 1] read_bytes_shorter [OF f(3), of 1] by simp
  moreover have "read_bytes (off + 1) (Suc (length ?t)) img' = Some (?t @ [0])"
    using f(7) f(12,16) [of "off + 1" "Suc (length ?t)"] t by simp
  moreover have "read_bytes (off + 5) (min 32 (Suc (length s))) img' = Some (take 32 (s @ [0]))"
    using read_bytes_shorter [OF f(11), of "min 32 (Suc (length s))"] f(16) [of "off + 5" "min 32 (Suc (length s))"]
    by (simp add: min_def)
  ultimately show ?thesis using False w(2,4,7) f(1,5,9,13,14) f(4,8,12,16) by (simp add: holds_record_def Let_def)
qed

lemma write_for_records:
  assumes "write_for rd bs [i..<n] (64 * i) img = Some (off', img')"
  shows "length img' = length img \<and> (\<forall>j. i \<le> j \<and> j < n \<longrightarrow> holds_record rd (bs ! j) (64 * j) img') \<and>
    (\<forall>o' m. o' + m \<le> 64 * i \<longrightarrow> read_bytes o' m img' = read_bytes o' m img)"
  using assms
proof (induction "n - i" arbitrary: i img)
  case (Suc m)
  then have i: "i < n" by simp
  with Suc.prems obtain off1 img1 where w: "write_bucket rd (bs ! i) (64 * i) img = Some (off1, img1)"
      "write_for rd bs [Suc i..<n] off1 img1 = Some (off', img')"
    by (auto simp: upt_conv_Cons bucket_at_def bind_eq_Some_conv split: if_splits)
  note r = write_bucket_record [OF w(1)]
  then have "off1 = 64 * Suc i" by simp
  with w(2) have "write_for rd bs [Suc i..<n] (64 * Suc i) img1 = Some (off', img')" by simp
  from Suc.hyps(1) [OF _ this] Suc.hyps(2) have ih: "length img' = length img1"
      "\<And>j. Suc i \<le> j \<Longrightarrow> j < n \<Longrightarrow> holds_record rd (bs ! j) (64 * j) img'"
      "\<And>o' m. o' + m \<le> 64 * Suc i \<Longrightarrow> read_bytes o' m img' = read_bytes o' m img1"
    by auto
  have "holds_record rd (bs ! i) (64 * i) img'"
    by (rule holds_record_later [of _ _ _ img1]) (use r ih in simp_all)
  then have "holds_record rd (bs ! j) (64 * j) img'" if "i \<le> j" "j < n" for j
    using ih(2) that by (cases "j = i") simp_all
  then show ?case using ih r by simp
qed auto

subsection \<open>What the readers make of an image\<close>

lemma cstr_Some: "cstr bs = Some s \<Longrightarrow> \<exists>rest. bs = s @ 0 # rest"
  by (induction bs arbitrary: s) (auto simp: bind_eq_Some_conv split: if_splits)

lemma record_hop:
  assumes "holds_record rd b off img" and "bk_key b \<noteq> NULL"
  shows "\<exists>h. read_bytes (off + 1) 4 img = Some h \<and> atoi h = Some (sint (bk_hopinfo b))"
proof -
  let ?t = "decimal (sint (bk_hopinfo b))"
  from assms have r: "read_bytes (off + 1) (Suc (length ?t)) img = Some (?t @ [0])" "hop_fits (bk_hopinfo b)"
    "off + 37 < length img" by (simp_all add: holds_record_def Let_def)
  have "Suc (length ?t) \<le> 4"
    using sprintf_hop_eq [of "bk_hopinfo b"] r(2) by (simp add: sprintf_hop_def Let_def split: if_splits)
  from read_bytes_longer [OF r(1) this] r(3) obtain rest where "read_bytes (off + 1) 4 img = Some (?t @ 0 # rest)"
    by auto
  then show ?thesis by (simp add: atoi_decimal)
qed

text \<open>The keys of a trace are strings of at least 19 characters, which is what a comparison of 20 bytes
  needs.\<close>

definition long_keys :: "key_mem \<Rightarrow> bool" where
  "long_keys rd \<longleftrightarrow> (\<forall>p s. string_at rd p = Some s \<longrightarrow> 19 \<le> length s)"

lemma record_key:
  assumes rec: "holds_record rd b off img" and key: "bk_key b \<noteq> NULL" and k: "key_bytes rd 24 (bk_key b) = Some k"
    and long: "long_keys rd"
  shows "\<exists>key. read_bytes (off + 5) 24 img = Some key \<and> take 20 key = take 20 k"
proof -
  from rec key obtain s where s: "string_at rd (bk_key b) = Some s" "off + 37 < length img"
      "read_bytes (off + 5) (min 32 (Suc (length s))) img = Some (take 32 (s @ [0]))"
    by (auto simp: holds_record_def)
  have len: "19 \<le> length s" using long s(1) by (simp add: long_keys_def)
  then have l: "20 \<le> min 32 (Suc (length s))" by simp
  from read_bytes_shorter [OF s(3) l] have "read_bytes (off + 5) 20 img = Some (take 20 (s @ [0]))" by (simp add: min_def)
  from read_bytes_longer [OF this, of 24] s(2) len
  obtain rest where img: "read_bytes (off + 5) 24 img = Some (take 20 (s @ [0]) @ rest)" by auto
  from s(1) key obtain bs where bs: "rd (bk_key b) = Some bs" "cstr bs = Some s"
    by (auto simp: string_at_def bind_eq_Some_conv)
  then obtain rest' where "bs = s @ 0 # rest'" using cstr_Some by blast
  with k bs key have "take 20 k = take 20 (s @ [0])"
    using len by (auto simp: key_bytes_def read_bytes_def take_Cons' split: if_splits)
  with img len show ?thesis by (intro exI [of _ "take 20 (s @ [0]) @ rest"]) (auto simp: min_def)
qed

text \<open>The answer the readers give, in terms of the table.\<close>

definition prefix_at :: "key_mem \<Rightarrow> hopscotch_bucket list \<Rightarrow> u8 list \<Rightarrow> nat \<Rightarrow> bool" where
  "prefix_at rd bs k p \<longleftrightarrow> (case ent_of rd 24 bs p of None \<Rightarrow> False | Some (k', _) \<Rightarrow> take 20 k' = take 20 k)"

definition table_answer :: "key_mem \<Rightarrow> hopscotch_bucket list \<Rightarrow> u8 list \<Rightarrow> found" where
  "table_answer rd bs k =
     (let idx = home (length bs) k; b = bs ! idx in
      if bk_key b = NULL then Not_found
      else if bk_hopinfo b = 1 then Found 1
      else Found (length (filter (\<lambda>i. bit (bk_hopinfo b) i \<and> prefix_at rd bs k (idx + i)) [0..<32])))"

lemma readhash_hops_spec:
  assumes inv: "hinv rd 24 bs" and rec: "\<And>j. j < length bs \<Longrightarrow> holds_record rd (bs ! j) (64 * j) img"
    and long: "long_keys rd" and idx: "idx < length bs" and k: "key_bytes rd 24 p = Some k"
  shows "readhash_hops rd p img idx (bk_hopinfo (bs ! idx)) is n =
    Some (n + length (filter (\<lambda>i. bit (bk_hopinfo (bs ! idx)) i \<and> prefix_at rd bs k (idx + i)) is))"
proof (induction "is" arbitrary: n)
  case (Cons i "is")
  show ?case
  proof (cases "bit (bk_hopinfo (bs ! idx)) i")
    case True
    then have "hops_of bs idx i" using idx by (simp add: hops_of_def)
    then obtain k' d where e: "ent_of rd 24 bs (idx + i) = Some (k', d)"
      using inv tinv_hops unfolding hinv_def by blast
    then have key: "bk_key (bs ! (idx + i)) \<noteq> NULL" by (auto simp: ent_of_def entry_of_def split: if_splits)
    from record_key [OF rec key hinv_entry(6) [OF inv e] long] hinv_entry(1) [OF inv e]
    obtain key where "read_bytes (64 * (idx + i) + 5) 24 img = Some key" "take 20 key = take 20 k'" by auto
    moreover have "key_bytes rd 20 p = Some (take 20 k)"
      using k by (auto simp: key_bytes_def bind_eq_Some_conv read_bytes_def min_def split: if_splits)
    ultimately show ?thesis
      using True Cons e by (auto simp: client_keylen_def metasize_def hopsize_def prefix_at_def algebra_simps)
  qed (use Cons in simp)
qed simp

lemma readhash_key_spec:
  assumes inv: "hinv rd 24 bs" and rec: "\<And>j. j < length bs \<Longrightarrow> holds_record rd (bs ! j) (64 * j) img"
    and long: "long_keys rd" and e: "length bs = 2 ^ e" "e < 64" and k: "key_bytes rd 24 p = Some k"
  shows "readhash_key rd (length bs) img p = Some (table_answer rd bs k)"
proof -
  let ?h = "home (length bs) k"
  have h: "?h < length bs" using e by (simp add: home_less)
  show ?thesis
  proof (cases "bk_key (bs ! ?h) = NULL")
    case True
    with rec [OF h] k show ?thesis
      by (simp add: readhash_key_def client_keylen_def holds_record_def table_answer_def Let_def mult.commute)
  next
    case False
    from record_hop [OF rec [OF h] False] obtain hd where
      hd: "read_bytes (64 * ?h + 1) 4 img = Some hd" "atoi hd = Some (sint (bk_hopinfo (bs ! ?h)))" by blast
    have m: "read_bytes (64 * ?h) 1 img = Some [49]" and "64 * ?h + 37 < length img"
      using rec [OF h] False by (simp_all add: holds_record_def)
    then have "\<exists>key. read_bytes (64 * ?h + 5) 24 img = Some key" by (simp add: read_bytes_def)
    then obtain key where key: "read_bytes (5 + ?h * 64) 24 img = Some key" by (auto simp: algebra_simps)
    from readhash_hops_spec [OF inv rec long h k, of "[0..<32]" 0] key hd m k False show ?thesis
      by (simp add: readhash_key_def client_keylen_def table_answer_def Let_def HOP_NUMBER_def metasize_def hopsize_def
          mult.commute add.commute)
  qed
qed

lemma table_answer_present:
  assumes inv: "hinv rd 24 bs" and gaps: "no_gaps bs" and k: "habs rd 24 bs k = Some d"
  shows "\<exists>n>0. table_answer rd bs k = Found n"
proof -
  let ?h = "home (length bs) k"
  from k obtain q where q: "ent_of rd 24 bs q = Some (k, d)" using habs_iff [OF inv] by (auto simp: in_tab_def)
  note e = hinv_entry [OF inv q]
  then have b: "bit (bk_hopinfo (bs ! ?h)) (q - ?h)" "?h < length bs" by (auto simp: hops_of_def)
  then have "bk_hopinfo (bs ! ?h) \<noteq> 0" by auto
  then have "bk_key (bs ! ?h) \<noteq> NULL" using gaps nth_mem [OF b(2)] by (simp add: no_gaps_def)
  moreover have "q - ?h \<in> set (filter (\<lambda>i. bit (bk_hopinfo (bs ! ?h)) i \<and> prefix_at rd bs k (?h + i)) [0..<32])"
    using e b q by (simp add: prefix_at_def)
  then have "filter (\<lambda>i. bit (bk_hopinfo (bs ! ?h)) i \<and> prefix_at rd bs k (?h + i)) [0..<32] \<noteq> []" by force
  ultimately show ?thesis by (auto simp: table_answer_def Let_def)
qed

subsection \<open>Filling a table\<close>

text \<open>The results of the insertions, one after the other.\<close>

primrec insert_rets :: "key_mem \<Rightarrow> ptr \<Rightarrow> ptr list \<Rightarrow> hheap \<Rightarrow> int list option" where
  "insert_rets rd ht [] H = Some []"
| "insert_rets rd ht (k # ks) H = do {
     (ret, H) \<leftarrow> hopscotch_insert rd H ht k k;
     rets \<leftarrow> insert_rets rd ht ks H;
     Some (ret # rets)
   }"

lemma insert_keys_spec:
  assumes "table_ok rd H ht t bs" and "\<And>p. p \<in> set ks \<Longrightarrow> key_bytes rd (ht_keylen t) p \<noteq> None"
  shows "\<exists>H' bs' rets. insert_keys rd ht ks c H = Some (c + of_nat (count_list rets (- 4)), H') \<and>
    insert_rets rd ht ks H = Some rets \<and> table_ok rd H' ht t bs' \<and> length bs' = length bs \<and>
    (no_gaps bs \<and> - 3 \<notin> set rets \<longrightarrow> no_gaps bs') \<and>
    dom (habs rd (ht_keylen t) bs) \<subseteq> dom (habs rd (ht_keylen t) bs') \<and>
    (- 1 \<notin> set rets \<and> - 3 \<notin> set rets \<longrightarrow>
      (\<forall>p\<in>set ks. habs rd (ht_keylen t) bs' (the (key_bytes rd (ht_keylen t) p)) \<noteq> None))"
  using assms
proof (induction ks arbitrary: H bs c)
  case Nil
  then show ?case by auto
next
  case (Cons p ks)
  from Cons.prems(2) [of p] obtain k where k: "key_bytes rd (ht_keylen t) p = Some k" by auto
  then have p: "p \<noteq> NULL" by (auto simp: key_bytes_def split: if_splits)
  from hopscotch_insert_spec [OF Cons.prems(1) k p] obtain ret bs1 where
    ins: "hopscotch_insert rd H ht p p = Some (ret, array_replaced H t bs1)" and
    post: "insert_post rd H t bs k p ret bs1" by blast
  then have ok: "table_ok rd (array_replaced H t bs1) ht t bs1"
    using Cons.prems(1) by (intro table_ok_replaced) (auto simp: insert_post_def)
  have dom1: "dom (habs rd (ht_keylen t) bs) \<subseteq> dom (habs rd (ht_keylen t) bs1)"
    and new1: "ret \<noteq> - 1 \<Longrightarrow> ret \<noteq> - 3 \<Longrightarrow> habs rd (ht_keylen t) bs1 k \<noteq> None"
    using post by (auto simp: insert_post_def split: if_splits)
  from Cons.IH [OF ok Cons.prems(2), of "if ret = - 4 then c + 1 else c"] obtain H' bs' rets where
    rest: "insert_keys rd ht ks (if ret = - 4 then c + 1 else c) (array_replaced H t bs1) =
      Some ((if ret = - 4 then c + 1 else c) + of_nat (count_list rets (- 4)), H')"
    "insert_rets rd ht ks (array_replaced H t bs1) = Some rets" "table_ok rd H' ht t bs'" "length bs' = length bs1"
    "no_gaps bs1 \<and> - 3 \<notin> set rets \<longrightarrow> no_gaps bs'"
    "dom (habs rd (ht_keylen t) bs1) \<subseteq> dom (habs rd (ht_keylen t) bs')"
    "- 1 \<notin> set rets \<and> - 3 \<notin> set rets \<longrightarrow>
      (\<forall>p\<in>set ks. habs rd (ht_keylen t) bs' (the (key_bytes rd (ht_keylen t) p)) \<noteq> None)" by auto
  have "insert_keys rd ht (p # ks) c H = Some (c + of_nat (count_list (ret # rets) (- 4)), H')"
    "insert_rets rd ht (p # ks) H = Some (ret # rets)" using ins rest(1,2) by simp_all
  moreover have "no_gaps bs \<and> - 3 \<notin> set (ret # rets) \<longrightarrow> no_gaps bs'" "length bs' = length bs"
    using rest(4,5) post by (auto simp: insert_post_def)
  moreover have "habs rd (ht_keylen t) bs' k \<noteq> None" if "ret \<noteq> - 1" "ret \<noteq> - 3"
    using rest(6) new1 [OF that] by blast
  ultimately show ?case
    using rest(3,6,7) dom1 k by (intro exI [of _ H'] exI [of _ bs'] exI [of _ "ret # rets"]) auto
qed

lemma no_gaps_zero: "no_gaps (replicate n zero_bucket)"
  by (simp add: no_gaps_def zero_bucket_def)

subsection \<open>When an image can be written\<close>

definition strings_fit :: "key_mem \<Rightarrow> hopscotch_bucket list \<Rightarrow> bool" where
  "strings_fit rd bs \<longleftrightarrow> (\<forall>b\<in>set bs. bk_key b \<noteq> NULL \<longrightarrow>
     (\<exists>s d. string_at rd (bk_key b) = Some s \<and> length s < 32 \<and> string_at rd (bk_data b) = Some d \<and> length d < 27))"

lemma clean_for_defined:
  "\<forall>i\<in>set is. i + 1 < length img \<Longrightarrow> \<exists>img'. clean_for is img = Some img' \<and> length img' = length img"
proof (induction "is" arbitrary: img)
  case (Cons i "is")
  then obtain img1 where "strcpy i [32] img = Some img1" using strcpy_defined [of i "[32]" img] by auto
  with Cons.IH [of img1] Cons.prems strcpy_facts(1) [OF this] show ?case by simp
qed simp

lemma clean_for_length: "clean_for is img = Some img' \<Longrightarrow> length img' = length img"
  by (induction "is" arbitrary: img) (auto simp: bind_eq_Some_conv dest!: strcpy_facts(1))

lemma write_table_length: "write_table rd H ht cleaned n img = Some img' \<Longrightarrow> length img' = length img"
  using write_for_records [of rd _ 0] by (fastforce simp: write_table_def bind_eq_Some_conv dest!: clean_for_length)

lemma write_bucket_defined:
  assumes "bk_key b \<noteq> NULL \<longrightarrow>
     (\<exists>s d. string_at rd (bk_key b) = Some s \<and> length s < 32 \<and> string_at rd (bk_data b) = Some d \<and> length d < 27)"
    and room: "off + 64 \<le> length img"
  shows "write_bucket rd b off img \<noteq> None \<longleftrightarrow> (bk_key b \<noteq> NULL \<longrightarrow> hop_fits (bk_hopinfo b))"
proof (cases "bk_key b = NULL")
  case True
  with strcpy_defined [of off "[48]" img] room show ?thesis by (auto simp: write_bucket_def)
next
  case False
  with assms(1) obtain s d where s: "string_at rd (bk_key b) = Some s" "length s < 32"
    "string_at rd (bk_data b) = Some d" "length d < 27" by blast
  have "\<exists>img'. write_bucket rd b off img = Some (off + 64, img')" if "hop_fits (bk_hopinfo b)"
  proof -
    let ?t = "decimal (sint (bk_hopinfo b))"
    have t: "length ?t \<le> 3"
      using sprintf_hop_eq [of "bk_hopinfo b"] that by (simp add: sprintf_hop_def Let_def split: if_splits)
    from strcpy_defined [of off "[49]" img] room obtain i1 where 1: "strcpy off [49] img = Some i1" by auto
    note l1 = strcpy_facts(1) [OF 1]
    from strcpy_defined [of "off + 1" ?t i1] t room l1 obtain i2 where 2: "strcpy (off + 1) ?t i1 = Some i2" by auto
    note l2 = strcpy_facts(1) [OF 2]
    from strcpy_defined [of "off + 5" s i2] s(2) room l1 l2 obtain i3 where 3: "strcpy (off + 5) s i2 = Some i3" by auto
    note l3 = strcpy_facts(1) [OF 3]
    from strcpy_defined [of "off + 37" d i3] s(4) room l1 l2 l3 obtain i4 where 4: "strcpy (off + 37) d i3 = Some i4" by auto
    from 1 2 3 4 s that False show ?thesis
      by (simp add: write_bucket_def sprintf_hop_eq metasize_def hopsize_def keysize_def valsize_def Let_def add.commute)
  qed
  moreover have "write_bucket rd b off img = None" if "\<not> hop_fits (bk_hopinfo b)"
    using that False by (cases "strcpy off [49] img") (simp_all add: write_bucket_def sprintf_hop_eq Let_def)
  ultimately show ?thesis using False by (cases "hop_fits (bk_hopinfo b)") auto
qed

lemma write_for_defined:
  assumes "strings_fit rd bs" and "n \<le> length bs" and "64 * n \<le> length img"
  shows "write_for rd bs [i..<n] (64 * i) img \<noteq> None \<longleftrightarrow>
    (\<forall>j. i \<le> j \<and> j < n \<longrightarrow> bk_key (bs ! j) \<noteq> NULL \<longrightarrow> hop_fits (bk_hopinfo (bs ! j)))"
  using assms(3)
proof (induction "n - i" arbitrary: i img)
  case (Suc m)
  then have i: "i < n" by simp
  then have "bs ! i \<in> set bs" using assms(2) by simp
  then have d: "write_bucket rd (bs ! i) (64 * i) img \<noteq> None \<longleftrightarrow> (bk_key (bs ! i) \<noteq> NULL \<longrightarrow> hop_fits (bk_hopinfo (bs ! i)))"
    using assms(1) Suc.prems i by (intro write_bucket_defined) (auto simp: strings_fit_def)
  have split: "(\<forall>j. i \<le> j \<and> j < n \<longrightarrow> P j) \<longleftrightarrow> P i \<and> (\<forall>j. Suc i \<le> j \<and> j < n \<longrightarrow> P j)" for P
    using i by (metis Suc_leD le_refl not_less_eq_eq order_antisym)
  show ?case
  proof (cases "write_bucket rd (bs ! i) (64 * i) img")
    case None
    with d i assms(2) show ?thesis by (subst split) (simp add: upt_conv_Cons bucket_at_def)
  next
    case (Some w)
    then obtain img1 where w: "write_bucket rd (bs ! i) (64 * i) img = Some (64 * Suc i, img1)" "length img1 = length img"
      using write_bucket_record [of rd "bs ! i" "64 * i" img] by (cases w) auto
    have "write_for rd bs [i..<n] (64 * i) img = write_for rd bs [Suc i..<n] (64 * Suc i) img1"
      using w(1) i assms(2) by (simp add: upt_conv_Cons bucket_at_def)
    with Suc.hyps(1) [of "Suc i" img1] Suc.hyps(2) Suc.prems w d show ?thesis by (subst split) simp
  qed
qed auto

end
