(* ===== verification/Hopscotch_Props.thy ===== *)
theory Hopscotch_Props
  imports Hopscotch_Ops
begin

text \<open>
  The contract of the hash table with its clients, as a locale over the three operations, the runs
  of a client against it, and the interpretation on the hopscotch table; then the properties of
  initialisation, resizing and the hash functions.
\<close>

subsection \<open>The contract\<close>

datatype store_op = Lookup ptr | Insert ptr ptr | Remove ptr

datatype store_res = Data ptr | Code int

definition store_exec ::
  "('s \<Rightarrow> ptr \<Rightarrow> ptr option) \<Rightarrow> ('s \<Rightarrow> ptr \<Rightarrow> ptr \<Rightarrow> (int \<times> 's) option) \<Rightarrow>
   ('s \<Rightarrow> ptr \<Rightarrow> (ptr \<times> 's) option) \<Rightarrow> store_op \<Rightarrow> 's \<Rightarrow> (store_res \<times> 's) option" where
  "store_exec look put del op s =
     (case op of
        Lookup p \<Rightarrow> do { d \<leftarrow> look s p; Some (Data d, s) }
      | Insert p d \<Rightarrow> do { (ret, s) \<leftarrow> put s p d; Some (Code ret, s) }
      | Remove p \<Rightarrow> do { (d, s) \<leftarrow> del s p; Some (Data d, s) })"

primrec store_run ::
  "('s \<Rightarrow> ptr \<Rightarrow> ptr option) \<Rightarrow> ('s \<Rightarrow> ptr \<Rightarrow> ptr \<Rightarrow> (int \<times> 's) option) \<Rightarrow>
   ('s \<Rightarrow> ptr \<Rightarrow> (ptr \<times> 's) option) \<Rightarrow> store_op list \<Rightarrow> 's \<Rightarrow> (store_res list \<times> 's) option" where
  "store_run look put del [] s = Some ([], s)"
| "store_run look put del (op # ops) s = do {
     (r, s) \<leftarrow> store_exec look put del op s;
     (rs, s) \<leftarrow> store_run look put del ops s;
     Some (r # rs, s)
   }"

text \<open>What a map answers: \<open>NULL\<close> for a key it does not have.\<close>

definition answer :: "ptr option \<Rightarrow> ptr" where
  "answer x = (case x of None \<Rightarrow> NULL | Some d \<Rightarrow> d)"

text \<open>The specification: operations on a map from the bytes of a key to data, where an insertion
  may be refused (\<open>- 1\<close>, \<open>- 3\<close>) and may report a crowded neighbourhood (\<open>- 4\<close>).\<close>

definition spec_step ::
  "(ptr \<Rightarrow> 'c option) \<Rightarrow> ('c \<rightharpoonup> ptr) \<Rightarrow> store_op \<Rightarrow> store_res \<Rightarrow> ('c \<rightharpoonup> ptr) \<Rightarrow> bool" where
  "spec_step val m op r m' =
     (case op of
        Lookup p \<Rightarrow> r = Data (answer (m (the (val p)))) \<and> m' = m
      | Insert p d \<Rightarrow>
          if m (the (val p)) \<noteq> None then r = Code (- 2) \<and> m' = m
          else if r \<in> {Code 0, Code (- 4)} then m' = m(the (val p) \<mapsto> d)
          else r \<in> {Code (- 1), Code (- 3)} \<and> m' = m
      | Remove p \<Rightarrow> r = Data (answer (m (the (val p)))) \<and> m' = m(the (val p) := None))"

inductive spec_run :: "(ptr \<Rightarrow> 'c option) \<Rightarrow> ('c \<rightharpoonup> ptr) \<Rightarrow> store_op list \<Rightarrow> store_res list \<Rightarrow> ('c \<rightharpoonup> ptr) \<Rightarrow> bool" for val where
  spec_Nil: "spec_run val m [] [] m"
| spec_Cons: "spec_step val m op r m' \<Longrightarrow> spec_run val m' ops rs m'' \<Longrightarrow> spec_run val m (op # ops) (r # rs) m''"

definition op_ok :: "(ptr \<Rightarrow> 'c option) \<Rightarrow> store_op \<Rightarrow> bool" where
  "op_ok val op = (case op of Lookup p \<Rightarrow> val p \<noteq> None | Insert p d \<Rightarrow> val p \<noteq> None \<and> d \<noteq> NULL | Remove p \<Rightarrow> val p \<noteq> None)"

locale keyed_store =
  fixes inv :: "'s \<Rightarrow> bool" and abs :: "'s \<Rightarrow> 'c \<rightharpoonup> ptr" and val :: "ptr \<Rightarrow> 'c option"
    and look :: "'s \<Rightarrow> ptr \<Rightarrow> ptr option" and put :: "'s \<Rightarrow> ptr \<Rightarrow> ptr \<Rightarrow> (int \<times> 's) option"
    and del :: "'s \<Rightarrow> ptr \<Rightarrow> (ptr \<times> 's) option"
  assumes lookup_law: "inv s \<Longrightarrow> val p = Some c \<Longrightarrow> look s p = Some (answer (abs s c))"
    and insert_law: "inv s \<Longrightarrow> val p = Some c \<Longrightarrow> d \<noteq> NULL \<Longrightarrow> \<exists>ret s'. put s p d = Some (ret, s') \<and> inv s' \<and>
      (if abs s c \<noteq> None then ret = - 2 \<and> abs s' = abs s
       else if ret \<in> {0, - 4} then abs s' = (abs s)(c \<mapsto> d)
       else ret \<in> {- 1, - 3} \<and> abs s' = abs s)"
    and remove_law: "inv s \<Longrightarrow> val p = Some c \<Longrightarrow> \<exists>s'. del s p = Some (answer (abs s c), s') \<and> inv s' \<and>
      abs s' = (abs s)(c := None)"
begin

lemma exec_refines:
  assumes "inv s" and "op_ok val op"
  shows "\<exists>r s'. store_exec look put del op s = Some (r, s') \<and> inv s' \<and> spec_step val (abs s) op r (abs s')"
proof (cases op)
  case (Lookup p)
  then obtain c where "val p = Some c" using assms by (auto simp: op_ok_def)
  with Lookup assms lookup_law show ?thesis by (simp add: store_exec_def spec_step_def)
next
  case (Insert p d)
  then obtain c where c: "val p = Some c" "d \<noteq> NULL" using assms by (auto simp: op_ok_def)
  from insert_law [OF assms(1) c] obtain ret s' where r: "put s p d = Some (ret, s')" "inv s'"
      "if abs s c \<noteq> None then ret = - 2 \<and> abs s' = abs s
       else if ret \<in> {0, - 4} then abs s' = (abs s)(c \<mapsto> d)
       else ret \<in> {- 1, - 3} \<and> abs s' = abs s" by blast
  then have "spec_step val (abs s) op (Code ret) (abs s')"
    using Insert c by (auto simp: spec_step_def split: if_splits)
  with Insert r show ?thesis by (auto simp: store_exec_def)
next
  case (Remove p)
  then obtain c where c: "val p = Some c" using assms by (auto simp: op_ok_def)
  from remove_law [OF assms(1) c] Remove c show ?thesis by (auto simp: store_exec_def spec_step_def)
qed

lemma run_refines:
  "inv s \<Longrightarrow> list_all (op_ok val) ops \<Longrightarrow>
    \<exists>rs s'. store_run look put del ops s = Some (rs, s') \<and> inv s' \<and> spec_run val (abs s) ops rs (abs s')"
proof (induction ops arbitrary: s)
  case Nil
  then show ?case by (simp add: spec_Nil)
next
  case (Cons op ops)
  from exec_refines [OF Cons.prems(1), of op] Cons.prems(2) obtain r s1 where
    1: "store_exec look put del op s = Some (r, s1)" "inv s1" "spec_step val (abs s) op r (abs s1)"
    by auto
  from Cons.IH [OF 1(2)] Cons.prems(2) obtain rs s2 where
    "store_run look put del ops s1 = Some (rs, s2)" "inv s2" "spec_run val (abs s1) ops rs (abs s2)"
    by auto
  with 1 show ?case by (auto intro: spec_Cons)
qed

end

subsection \<open>The hopscotch table fulfils it\<close>

definition tab_inv :: "key_mem \<Rightarrow> nat \<Rightarrow> ptr \<Rightarrow> hheap \<Rightarrow> bool" where
  "tab_inv rd kl ht H \<longleftrightarrow> (\<exists>t bs. table_ok rd H ht t bs \<and> ht_keylen t = kl)"

definition tab_map :: "key_mem \<Rightarrow> ptr \<Rightarrow> hheap \<Rightarrow> u8 list \<rightharpoonup> ptr" where
  "tab_map rd ht H = (case tables H ht of None \<Rightarrow> Map.empty | Some t \<Rightarrow>
     (case arrays H (ht_buckets t) of None \<Rightarrow> Map.empty | Some bs \<Rightarrow> habs rd (ht_keylen t) bs))"

lemma tab_map_ok: "table_ok rd H ht t bs \<Longrightarrow> tab_map rd ht H = habs rd (ht_keylen t) bs"
  by (simp add: table_ok_def tab_map_def)

interpretation hop_store: keyed_store "tab_inv rd kl ht" "tab_map rd ht" "key_bytes rd kl"
    "\<lambda>H. hopscotch_lookup rd H ht" "\<lambda>H. hopscotch_insert rd H ht" "\<lambda>H. hopscotch_remove rd H ht"
  for rd kl ht
proof unfold_locales
  fix H p c
  assume "tab_inv rd kl ht H" and c: "key_bytes rd kl p = Some c"
  then obtain t bs where ok: "table_ok rd H ht t bs" "ht_keylen t = kl" by (auto simp: tab_inv_def)
  note abs = tab_map_ok [OF ok(1), unfolded ok(2)]
  show "hopscotch_lookup rd H ht p = Some (answer (tab_map rd ht H c))"
    using hopscotch_lookup_spec [OF ok(1)] c ok(2) by (simp add: abs answer_def)
  from hopscotch_remove_spec [OF ok(1), of p c] c ok(2) obtain bs' where
    r: "hopscotch_remove rd H ht p = Some (answer (habs rd kl bs c), array_replaced H t bs')"
      "length bs' = length bs" "hinv rd kl bs'" "habs rd kl bs' = (habs rd kl bs)(c := None)"
    by (auto simp: answer_def)
  from table_ok_replaced [OF ok(1) r(2)] r(3) ok(2) have "table_ok rd (array_replaced H t bs') ht t bs'" by simp
  with r ok tab_map_ok [OF this] show "\<exists>H'. hopscotch_remove rd H ht p = Some (answer (tab_map rd ht H c), H') \<and>
      tab_inv rd kl ht H' \<and> tab_map rd ht H' = (tab_map rd ht H)(c := None)"
    by (auto simp: abs tab_inv_def)
next
  fix H p c d
  assume "tab_inv rd kl ht H" and c: "key_bytes rd kl p = Some c" and d: "d \<noteq> NULL"
  then obtain t bs where ok: "table_ok rd H ht t bs" "ht_keylen t = kl" by (auto simp: tab_inv_def)
  note abs = tab_map_ok [OF ok(1), unfolded ok(2)]
  from hopscotch_insert_spec [OF ok(1) _ d, of p c] c ok(2) obtain ret bs' where
    r: "hopscotch_insert rd H ht p d = Some (ret, array_replaced H t bs')" "insert_post rd H t bs c d ret bs'"
    by blast
  then have ok': "table_ok rd (array_replaced H t bs') ht t bs'"
    using table_ok_replaced [OF ok(1)] by (simp add: insert_post_def)
  from r(2) have "if tab_map rd ht H c \<noteq> None then ret = - 2 \<and> tab_map rd ht (array_replaced H t bs') = tab_map rd ht H
       else if ret \<in> {0, - 4} then tab_map rd ht (array_replaced H t bs') = (tab_map rd ht H)(c \<mapsto> d)
       else ret \<in> {- 1, - 3} \<and> tab_map rd ht (array_replaced H t bs') = tab_map rd ht H"
    unfolding insert_post_def abs tab_map_ok [OF ok', unfolded ok(2)] ok(2) by (auto split: if_splits)
  with r ok' ok(2) show "\<exists>ret H'. hopscotch_insert rd H ht p d = Some (ret, H') \<and> tab_inv rd kl ht H' \<and>
      (if tab_map rd ht H c \<noteq> None then ret = - 2 \<and> tab_map rd ht H' = tab_map rd ht H
       else if ret \<in> {0, - 4} then tab_map rd ht H' = (tab_map rd ht H)(c \<mapsto> d)
       else ret \<in> {- 1, - 3} \<and> tab_map rd ht H' = tab_map rd ht H)"
    by (auto simp: tab_inv_def)
qed

subsection \<open>A sample table\<close>

text \<open>Keys of one byte: the key at address \<open>p\<close> is the byte \<open>p\<close>.\<close>

definition byte_keys :: key_mem where
  "byte_keys p = Some [of_nat p]"

definition small_table :: "nat \<Rightarrow> hopscotch_hash_table" where
  "small_table e = \<lparr>ht_exponent = e, ht_keylen = 1, ht_buckets = 900, ht_allocated = True\<rparr>"

definition small_heap :: "nat \<Rightarrow> hopscotch_bucket list \<Rightarrow> hheap" where
  "small_heap e bs = \<lparr>arrays = [900 \<mapsto> bs],
     tables = [800 \<mapsto> small_table e]\<rparr>"

lemma small_table_simps [simp]:
  "ht_exponent (small_table e) = e" "ht_keylen (small_table e) = Suc 0" "ht_buckets (small_table e) = 900"
  by (simp_all add: small_table_def)

lemma small_heap_ok:
  "e < 64 \<Longrightarrow> table_ok rd (small_heap e (replicate (2 ^ e) zero_bucket)) 800 (small_table e)
     (replicate (2 ^ e) zero_bucket)"
  by (simp add: table_ok_def small_heap_def hinv_zero)

lemma byte_keys_bytes: "p \<noteq> NULL \<Longrightarrow> key_bytes byte_keys (Suc 0) p = Some [of_nat p]"
  by (simp add: key_bytes_def byte_keys_def read_bytes_def)

subsection \<open>Properties\<close>



text \<open>C27: what one insertion does. It always returns. A key that is present gives \<open>- 2\<close> and nothing
  changes. Otherwise the results 0 and \<open>- 4\<close> both mean that the entry is in the table, \<open>- 4\<close> exactly
  when the neighbourhood word of its home bucket exceeds 32, and with \<open>- 1\<close> (no free bucket) and
  \<open>- 3\<close> (no displacement possible) the map is as before. The array keeps its length and the
  invariant, and no other table or array is touched. Unless the result is \<open>- 3\<close>, a table in
  which every bucket with a non-empty neighbourhood is itself occupied stays one.\<close>

theorem hopscotch_insert_contract:
  assumes "table_ok rd H ht t bs" and "key_bytes rd (ht_keylen t) key = Some k" and "d \<noteq> NULL"
  shows "\<exists>ret bs'. hopscotch_insert rd H ht key d = Some (ret, array_replaced H t bs') \<and>
    insert_post rd H t bs k d ret bs'"
  using assms by (rule hopscotch_insert_spec)

theorem hopscotch_insert_contract_witness:
  "\<exists>ret H'. hopscotch_insert byte_keys (small_heap 4 (replicate (2 ^ 4) zero_bucket)) 800 18 5 = Some (ret, H') \<and>
     ret \<in> {0, - 1, - 3, - 4}"
  using hopscotch_insert_contract [OF small_heap_ok, of 4 byte_keys 18 "[18]" 5]
  by (auto simp: byte_keys_bytes insert_post_def habs_zero split: if_splits)

text \<open>C26: resizing keeps the map. With 0 the table has a new array of the new size with exactly the
  old entries and the old array has been released; with \<open>- 1\<close>, whether memory was short or an entry
  could not be copied, the heap is exactly as before.\<close>

theorem hopscotch_resize_contract:
  assumes ok: "table_ok rd H ht t bs" and e: "0 \<le> int (ht_exponent t) + delta" "int (ht_exponent t) + delta < 60"
  shows "\<exists>ret H'. hopscotch_resize rd m H ht delta = Some (ret, H') \<and>
    (if ret = 0
     then \<exists>bs'. arrays H m = None \<and>
       H' = H\<lparr>arrays := (arrays H)(m \<mapsto> bs', ht_buckets t := None), tables := (tables H)(ht \<mapsto>
          t\<lparr>ht_buckets := m, ht_exponent := nat (int (ht_exponent t) + delta)\<rparr>)\<rparr> \<and>
       tab_inv rd (ht_keylen t) ht H' \<and> tab_map rd ht H' = tab_map rd ht H
     else ret = - 1 \<and> H' = H)"
proof (cases "m \<noteq> NULL \<and> arrays H m = None \<and> tables H m = None")
  case False
  then have "malloc_result H m = NULL" by (auto simp: malloc_result_def)
  then show ?thesis
    using ok e by (simp add: hopscotch_resize_def table_ok_def shift_one_def Let_def)
next
  case m: True
  from ok have t: "tables H ht = Some t" "ht_buckets t \<noteq> NULL" "arrays H (ht_buckets t) = Some bs"
    "ht_exponent t < 64" "length bs = 2 ^ ht_exponent t" and inv: "hinv rd (ht_keylen t) bs"
    by (auto simp: table_ok_def)
  define n where "n = nat (int (ht_exponent t) + delta)"
  have nexp: "nat ((int (ht_exponent t) + delta) mod 2 ^ 64) = n" and n: "n < 60"
    using e by (simp_all add: n_def)
  have cap: "24 * 2 ^ n mod 2 ^ 64 div 24 = (2 ^ n :: nat)"
  proof -
    have "(2 :: nat) ^ n \<le> 2 ^ 59" using n by (intro power_increasing) auto
    then have "24 * (2 :: nat) ^ n < 2 ^ 64" by simp
    then show ?thesis by simp
  qed
  let ?t = "t\<lparr>ht_buckets := m, ht_exponent := n\<rparr>" and ?z = "replicate (2 ^ n) zero_bucket"
  let ?H = "H\<lparr>arrays := (arrays H)(m \<mapsto> ?z), tables := (tables H)(ht \<mapsto> ?t)\<rparr>"
  have ne: "ht_buckets t \<noteq> m" using t(3) m by auto
  have ok1: "table_ok rd ?H ht ?t ?z" using m n by (simp add: table_ok_def hinv_zero)
  have "\<exists>copied bs2. resize_for rd ht (ht_buckets t) [0..<length bs] ?H = Some (copied, array_replaced ?H ?t bs2) \<and>
      (copied \<longrightarrow> table_ok rd (array_replaced ?H ?t bs2) ht ?t bs2 \<and> habs rd (ht_keylen ?t) bs2 = habs rd (ht_keylen ?t) bs)"
    by (rule resize_for_spec [OF _ ok1])
       (use inv t ne in \<open>simp_all add: holds_upto_def habs_zero\<close>)
  then obtain copied bs2 where
    r: "resize_for rd ht (ht_buckets t) [0..<2 ^ ht_exponent t] ?H = Some (copied, array_replaced ?H ?t bs2)"
    and c: "copied \<Longrightarrow> table_ok rd (array_replaced ?H ?t bs2) ht ?t bs2 \<and> habs rd (ht_keylen t) bs2 = habs rd (ht_keylen t) bs"
    unfolding t(5) by auto
  have sh: "shift_one n = Some (2 ^ n)" "shift_one (ht_exponent t) = Some (2 ^ ht_exponent t)"
    "malloc_result H m = m" using n t(4) m by (simp_all add: shift_one_def malloc_result_def)
  have run: "hopscotch_resize rd m H ht delta = (if \<not> copied then do {
         t' \<leftarrow> tables (array_replaced ?H ?t bs2) ht;
         H \<leftarrow> free_array m ((array_replaced ?H ?t bs2)\<lparr>tables := (tables (array_replaced ?H ?t bs2))
           (ht \<mapsto> t'\<lparr>ht_buckets := ht_buckets t, ht_exponent := ht_exponent t\<rparr>)\<rparr>);
         Some (- 1, H)
       } else do {
         H \<leftarrow> free_array (ht_buckets t) (array_replaced ?H ?t bs2);
         Some (0, H)
       })"
    unfolding hopscotch_resize_def t(1) bind.bind_lunit Let_def nexp sh cap
    using m r by simp
  show ?thesis
  proof (cases copied)
    case False
    then have "hopscotch_resize rd m H ht delta = Some (- 1, H)"
      unfolding run using t m ne by (simp add: array_replaced_def free_array_def fun_upd_idem)
    then show ?thesis by simp
  next
    case True
    let ?H' = "H\<lparr>arrays := (arrays H)(m \<mapsto> bs2, ht_buckets t := None), tables := (tables H)(ht \<mapsto> ?t)\<rparr>"
    have "hopscotch_resize rd m H ht delta = Some (0, ?H')"
      unfolding run using t m ne True by (simp add: array_replaced_def free_array_def)
    moreover have "table_ok rd ?H' ht ?t bs2"
      using c [OF True] ne by (simp add: table_ok_def array_replaced_def)
    ultimately show ?thesis
      using m c [OF True] tab_map_ok [OF ok] tab_map_ok [of rd ?H' ht ?t bs2]
      by (auto simp: tab_inv_def n_def)
  qed
qed

theorem hopscotch_resize_contract_witness:
  "\<exists>ret H'. hopscotch_resize byte_keys 901 (small_heap 4 (replicate (2 ^ 4) zero_bucket)) 800 1 = Some (ret, H') \<and>
     ret \<in> {0, - 1}"
  using hopscotch_resize_contract [OF small_heap_ok, of 4 1 byte_keys 901] by (auto split: if_splits)

text \<open>Initialisation delivers an empty table of \<open>2 ^ TABLE_SIZE\<close> buckets, in the structure of the
  caller or in a new one, or \<open>NULL\<close>. Releasing a table that owns its structure restores the heap
  exactly. In the case that the bucket array was obtained but the structure was not, the array stays
  allocated and nothing refers to it.\<close>

lemma hopscotch_init_contract:
  assumes "ht = NULL \<or> tables H ht \<noteq> None"
  shows "\<exists>r H'. hopscotch_init m1 m2 H ht kl = Some (r, H') \<and>
    (if r \<noteq> NULL
     then tab_inv rd kl r H' \<and> tab_map rd r H' = Map.empty \<and> (ht \<noteq> NULL \<longrightarrow> r = ht) \<and>
       (ht = NULL \<longrightarrow> hopscotch_release H' r = Some H)
     else H' = H \<or> arrays H m1 = None \<and> H' = H\<lparr>arrays := (arrays H)(m1 \<mapsto> replicate (2 ^ TABLE_SIZE) zero_bucket)\<rparr>)"
proof -
  let ?bs = "replicate (2 ^ TABLE_SIZE) zero_bucket"
  let ?t = "\<lambda>al. \<lparr>ht_exponent = TABLE_SIZE, ht_keylen = kl, ht_buckets = m1, ht_allocated = al\<rparr>"
  let ?H = "\<lambda>r al. H\<lparr>arrays := (arrays H)(m1 \<mapsto> ?bs), tables := (tables H)(r \<mapsto> ?t al)\<rparr>"
  have ok: "table_ok rd (?H r al) r (?t al) ?bs" if "m1 \<noteq> NULL" for r al
    using that by (simp add: table_ok_def hinv_zero TABLE_SIZE_def)
  have good: "tab_inv rd kl r (?H r al) \<and> tab_map rd r (?H r al) = Map.empty" if "m1 \<noteq> NULL" for r al
    unfolding tab_inv_def
    by (intro conjI exI [of _ "?t al"] exI [of _ ?bs])
       (simp_all only: ok [OF that] tab_map_ok [OF ok [OF that]] habs_zero hopscotch_hash_table.simps)
  show ?thesis
  proof (cases "malloc_result H m1 = NULL")
    case True
    then show ?thesis by (simp add: hopscotch_init_def)
  next
    case False
    then have m1: "malloc_result H m1 = m1" "m1 \<noteq> NULL" "arrays H m1 = None"
      by (auto simp: malloc_result_def split: if_splits)
    let ?H1 = "H\<lparr>arrays := (arrays H)(m1 \<mapsto> ?bs)\<rparr>"
    consider "ht \<noteq> NULL" | "ht = NULL" "malloc_result ?H1 m2 = NULL" | "ht = NULL" "malloc_result ?H1 m2 \<noteq> NULL" by blast
    then show ?thesis
    proof cases
      case 1
      then have "hopscotch_init m1 m2 H ht kl = Some (ht, ?H ht False)"
        using assms m1 by (simp add: hopscotch_init_def Let_def)
      with good [OF m1(2), of ht False] 1 show ?thesis by simp
    next
      case 2
      then have "hopscotch_init m1 m2 H ht kl = Some (NULL, ?H1)" using m1 by (simp add: hopscotch_init_def Let_def)
      with m1 show ?thesis by simp
    next
      case 3
      then have m2: "malloc_result ?H1 m2 = m2" "m2 \<noteq> NULL" "tables H m2 = None"
        by (auto simp: malloc_result_def split: if_splits)
      with 3 have "hopscotch_init m1 m2 H ht kl = Some (m2, ?H m2 True)"
        using m1 by (simp add: hopscotch_init_def Let_def)
      moreover have "hopscotch_release (?H m2 True) m2 = Some H"
        using m1 m2 by (simp add: hopscotch_release_def free_array_def)
      ultimately show ?thesis using good [OF m1(2), of m2 True] 3(1) m2(2) by simp
    qed
  qed
qed

text \<open>Six keys with the same home bucket 0, in arrays of 8 and of 16 buckets.\<close>

definition crowded :: "hopscotch_bucket list" where
  "crowded = [\<lparr>bk_key = 18, bk_data = 1, bk_hopinfo = 63\<rparr>, \<lparr>bk_key = 36, bk_data = 2, bk_hopinfo = 0\<rparr>,
     \<lparr>bk_key = 54, bk_data = 3, bk_hopinfo = 0\<rparr>, \<lparr>bk_key = 65, bk_data = 4, bk_hopinfo = 0\<rparr>,
     \<lparr>bk_key = 70, bk_data = 5, bk_hopinfo = 0\<rparr>, \<lparr>bk_key = 83, bk_data = 6, bk_hopinfo = 0\<rparr>,
     zero_bucket, zero_bucket]"

lemma crowded_homes:
  "home 8 [18] = 0" "home 8 [36] = 0" "home 8 [54] = 0" "home 8 [65] = 0" "home 8 [70] = 0" "home 8 [83] = 0"
  "home 16 [18] = 0" "home 16 [36] = 0" "home 16 [54] = 0" "home 16 [65] = 0" "home 16 [70] = 0" "home 16 [83] = 0"
  by code_simp+

lemmas crowded_eval = hopscotch_lookup_def small_heap_def crowded_def shift_one_def byte_keys_bytes
  crowded_homes bucket_at_def HOP_NUMBER_def upt_rec memcmp_eq_def


end
