(* ===== verification/Segment_Props.thy ===== *)
theory Segment_Props
  imports Segment Hopscotch_Props
begin

text \<open>
  Properties of the table image: what the writer stores the readers find, in mapped memory and in
  fetched segments, and when the writer can store a table at all.
\<close>

subsection \<open>A sample trace\<close>

text \<open>Keys of 24 characters at the addresses 1 to 9.\<close>

definition trace_keys :: key_mem where
  "trace_keys p = (if 0 < p \<and> p < 10 then Some (replicate 23 65 @ [digit p, 0]) else None)"

definition trace_heap :: "nat \<Rightarrow> hheap" where
  "trace_heap e = \<lparr>arrays = [900 \<mapsto> replicate (2 ^ e) zero_bucket],
     tables = [800 \<mapsto> (small_table e)\<lparr>ht_keylen := 24\<rparr>]\<rparr>"

lemma trace_heap_ok:
  "e < 64 \<Longrightarrow> table_ok rd (trace_heap e) 800 ((small_table e)\<lparr>ht_keylen := 24\<rparr>) (replicate (2 ^ e) zero_bucket)"
  by (simp add: table_ok_def trace_heap_def hinv_zero)

lemma cstr_append: "0 \<notin> set s \<Longrightarrow> cstr (s @ 0 # rest) = Some s"
  by (induction s) auto

lemma trace_keys_string: "string_at trace_keys p = (if 0 < p \<and> p < 10 then Some (replicate 23 65 @ [digit p]) else None)"
proof -
  have "digit p \<noteq> 0" if "p < 10" using unat_digit [OF that] by auto
  with cstr_append [of "replicate 23 65 @ [digit p]" "[]"] show ?thesis
    by (auto simp: string_at_def trace_keys_def)
qed

lemma trace_keys_long: "long_keys trace_keys"
  by (simp add: long_keys_def trace_keys_string)

lemma trace_keys_bytes: "0 < p \<Longrightarrow> p < 10 \<Longrightarrow> key_bytes trace_keys 24 p = Some (replicate 23 65 @ [digit p])"
  by (simp add: key_bytes_def trace_keys_def read_bytes_def)

subsection \<open>Fetched segments\<close>

lemma read_segment:
  "o' + n \<le> m \<Longrightarrow> off + m \<le> length addr \<Longrightarrow> read_bytes o' n (take m (drop off addr)) = read_bytes (off + o') n addr"
  by (auto simp: read_bytes_def drop_take min_def add.commute)

lemma segment_hops_eq:
  assumes "idx * 64 + 2048 \<le> length addr" and "\<forall>i\<in>set is. i < 32"
  shows "segment_hops rd p (take 2048 (drop (idx * 64) addr)) hop is n = readhash_hops rd p addr idx hop is n"
  using assms(2)
proof (induction "is" arbitrary: n)
  case (Cons i "is")
  have "read_bytes (5 + i * 64) 24 (take 2048 (drop (idx * 64) addr)) = read_bytes ((idx + i) * 64 + 5) 24 addr"
    using Cons.prems assms(1) by (subst read_segment) (simp_all add: algebra_simps)
  with Cons show ?case by (simp add: metasize_def hopsize_def client_keylen_def add.commute)
qed simp

text \<open>Local and remote readers agree. The segment a client fetches for a key, 2048 bytes from the
  record of its home bucket on, contains all that a lookup in the whole image would look at.\<close>

lemma segment_key_eq:
  assumes "key_bytes rd 24 p = Some k" and "home sz k * 64 + 2048 \<le> length addr"
  shows "segment_key rd p (take 2048 (drop (home sz k * 64) addr)) = readhash_key rd sz addr p"
proof -
  let ?o = "home sz k * 64" let ?dst = "take 2048 (drop ?o addr)"
  obtain m where m: "read_bytes ?o 5 addr = Some m" using assms(2) by (simp add: read_bytes_def)
  then have l: "length m = 5" using assms(2) by (auto simp: read_bytes_def)
  have r: "read_bytes 0 5 ?dst = Some m" using read_segment [of 0 5 2048 ?o addr] assms(2) m by simp
  have "read_bytes ?o 1 addr = Some [hd m]" using read_bytes_shorter [OF m, of 1] l by (cases m) auto
  moreover have "read_bytes 1 4 m = read_bytes (?o + 1) 4 addr"
    using m assms(2) by (auto simp: read_bytes_def drop_take)
  moreover have "read_bytes 5 24 ?dst = read_bytes (?o + 5) 24 addr" using read_segment [of 5 24 2048 ?o addr] assms(2) by simp
  ultimately show ?thesis
    using r segment_hops_eq [OF assms(2), of "[0..<32]"] assms(1)
    by (simp add: segment_key_def readhash_key_def metasize_def hopsize_def client_keylen_def HOP_NUMBER_def Let_def
        add.commute cong: if_cong)
qed

subsection \<open>When a table can be written\<close>

lemma write_table_defined:
  assumes "tables H ht = Some t" and "arrays H (ht_buckets t) = Some bs"
    and "strings_fit rd bs" and "64 * length bs \<le> length img" and "cleaned < length img"
  shows "write_table rd H ht cleaned (length bs) img \<noteq> None \<longleftrightarrow>
    (\<forall>b\<in>set bs. bk_key b \<noteq> NULL \<longrightarrow> - 100 < sint (bk_hopinfo b) \<and> sint (bk_hopinfo b) < 1000)"
proof -
  from clean_for_defined [of "[0..<cleaned]" img] assms(5) obtain img1 where
    c: "clean_for [0..<cleaned] img = Some img1" "length img1 = length img" by auto
  then have "write_table rd H ht cleaned (length bs) img \<noteq> None \<longleftrightarrow> write_for rd bs [0..<length bs] (64 * 0) img1 \<noteq> None"
    using assms(1,2) by (cases "write_for rd bs [0..<length bs] 0 img1") (auto simp: write_table_def)
  also have "\<dots> \<longleftrightarrow> (\<forall>b\<in>set bs. bk_key b \<noteq> NULL \<longrightarrow> hop_fits (bk_hopinfo b))"
    using write_for_defined [OF assms(3), of "length bs" img1 0] c(2) assms(4) by (simp add: all_set_conv_all_nth)
  finally show ?thesis by (simp add: hop_fits_def)
qed

subsection \<open>Properties\<close>

text \<open>C14: the keys that are written are found again. Fill an empty table with the keys of a trace,
  strings of at least 19 characters; the loop always finishes and counts the insertions that
  returned \<open>- 4\<close>. If no insertion was refused and the table can be written, then looking up
  any key of the trace in the image finds an entry. The lookup of the image only follows a home bucket
  that is itself in use, so this rests on the invariant that insertions leave no empty home bucket.\<close>

theorem table_image_roundtrip:
  assumes "table_ok rd H ht t (replicate (2 ^ e) zero_bucket)" and "ht_keylen t = 24"
    and "\<forall>p\<in>set ks. key_bytes rd 24 p \<noteq> None" and "long_keys rd"
  shows "\<exists>H' rets. insert_keys rd ht ks 0 H = Some (of_nat (count_list rets (- 4)), H') \<and>
    insert_rets rd ht ks H = Some rets \<and>
    (\<forall>cleaned img img' p. - 1 \<notin> set rets \<and> - 3 \<notin> set rets \<and>
       write_table rd H' ht cleaned (2 ^ e) img = Some img' \<and> p \<in> set ks \<longrightarrow>
       (\<exists>n>0. readhash_key rd (2 ^ e) img' p = Some (Found n)))"
proof -
  from insert_keys_spec [OF assms(1), of ks 0] assms(2,3) obtain H' bs' rets where
    ins: "insert_keys rd ht ks 0 H = Some (of_nat (count_list rets (- 4)), H')" "insert_rets rd ht ks H = Some rets"
    and ok: "table_ok rd H' ht t bs'" "length bs' = 2 ^ e" and gaps: "- 3 \<notin> set rets \<longrightarrow> no_gaps bs'"
    and all: "- 1 \<notin> set rets \<and> - 3 \<notin> set rets \<longrightarrow> (\<forall>p\<in>set ks. habs rd 24 bs' (the (key_bytes rd 24 p)) \<noteq> None)"
    by (auto simp: no_gaps_zero)
  have found: "\<exists>n>0. readhash_key rd (2 ^ e) img' p = Some (Found n)"
    if w: "write_table rd H' ht cleaned (2 ^ e) img = Some img'" and r: "- 1 \<notin> set rets" "- 3 \<notin> set rets"
      and p: "p \<in> set ks" for cleaned img img' p
  proof -
    obtain k where k: "key_bytes rd 24 p = Some k" using assms(3) p by auto
    from r all p k obtain d where d: "habs rd 24 bs' k = Some d" by fastforce
    from w ok obtain img1 off' where "write_for rd bs' [0..<2 ^ e] 0 img1 = Some (off', img')"
      by (auto simp: write_table_def table_ok_def bind_eq_Some_conv)
    with write_for_records [of rd bs' 0 "2 ^ e" img1 off' img'] ok(2)
    have rec: "\<And>j. j < length bs' \<Longrightarrow> holds_record rd (bs' ! j) (64 * j) img'" by simp
    have inv: "hinv rd 24 bs'" and e: "e < 64" using ok assms(2) by (auto simp: table_ok_def)
    from readhash_key_spec [OF inv rec assms(4) ok(2) e k] table_answer_present [OF inv _ d] gaps r ok(2)
    show ?thesis by auto
  qed
  show ?thesis by (intro exI [of _ H'] exI [of _ rets]) (use ins found in blast)
qed

theorem table_image_roundtrip_witness:
  "\<exists>H' img' n. insert_keys trace_keys 800 [1, 3] 0 (trace_heap 1) = Some (0, H') \<and>
     write_table trace_keys H' 800 0 2 (replicate 128 0) = Some img' \<and> 0 < n \<and>
     readhash_key trace_keys 2 img' 3 = Some (Found n)"
proof -
  have r: "insert_rets trace_keys 800 [1, 3] (trace_heap 1) = Some [0, 0]" by code_simp
  have w: "case insert_keys trace_keys 800 [1, 3] 0 (trace_heap 1) of None \<Rightarrow> False
    | Some (c, H) \<Rightarrow> write_table trace_keys H 800 0 2 (replicate 128 0) \<noteq> None" by code_simp
  from table_image_roundtrip [OF trace_heap_ok [of 1 trace_keys], of "[1, 3]"] r w show ?thesis
    by (auto simp: trace_keys_bytes trace_keys_long)
qed



end
