(* ===== verification/Hash_Client.thy ===== *)
theory Hash_Client
  imports Common_Conn Segment_Props
begin

text \<open>
  The client of the remote hash table, \<open>src/examples/hash/singlehashclient.c\<close>: it connects to the
  server, makes a remote region of the descriptor in the private data, and looks up each key of a
  trace by fetching its segment with an RDMA read.
  \<^item> The keys that were read from the trace file are an argument, and so is what an RDMA read has
    placed in the destination buffer: \<open>dma\<close>, a function of the calls so far.
  \<^item> The program prints \<open>Not found\<close> for an empty bucket and does nothing with the entries it finds;
    the answers are collected in a list here.
  \<^item> \<open>sz\<close> is the number of buckets, \<open>2 ^ 21\<close> in the program.
\<close>

subsection \<open>The program\<close>

text \<open>The first half of the loop: the segment of a bucket is fetched; anything but 0 is the jump out of
  the loop.\<close>

definition hash_client_fetch ::
  "env \<Rightarrow> ptr \<Rightarrow> ptr \<Rightarrow> ptr \<Rightarrow> nat \<Rightarrow> ibv_wc \<Rightarrow> st \<Rightarrow> ((rc \<times> ibv_wc) \<times> st) option" where
  "hash_client_fetch E conn dst_mr src_mr idx wc s = do {
     (ret, s) \<leftarrow> rpma_read E conn dst_mr 0 src_mr (of_nat (idx * 64)) (of_nat (2 * KILOBYTE)) RPMA_F_COMPLETION_ALWAYS 0 s;
     if ret \<noteq> 0 then Some ((ret, wc), s)
     else do {
       ((ret, cq), s) \<leftarrow> rpma_conn_get_cq conn (Some NULL) s;
       if ret \<noteq> 0 then Some ((ret, wc), s)
       else do {
         (ret, s) \<leftarrow> rpma_cq_wait E (the cq) s;
         if ret \<noteq> 0 then Some ((ret, wc), s)
         else do {
           ((ret, wcs, _), s) \<leftarrow> rpma_cq_get_wc E (the cq) 1 (Some [wc]) None s;
           let wc = (case the wcs of [] \<Rightarrow> wc | w # _ \<Rightarrow> w);
           if ret \<noteq> 0 then Some ((ret, wc), s)
           else if wc_status wc \<noteq> IBV_WC_SUCCESS then Some ((- 1, wc), s)
           else if wc_opcode wc \<noteq> IBV_WC_RDMA_READ then Some ((- 1, wc), s)
           else Some ((ret, wc), s)
         }
       }
     }
   }"

primrec hash_client_for ::
  "env \<Rightarrow> dma \<Rightarrow> key_mem \<Rightarrow> nat \<Rightarrow> ptr \<Rightarrow> ptr \<Rightarrow> ptr \<Rightarrow> ptr list \<Rightarrow> rc \<Rightarrow> ibv_wc \<Rightarrow> found list \<Rightarrow> st
    \<Rightarrow> ((rc \<times> found list) \<times> st) option" where
  "hash_client_for E dma rd sz conn dst_mr src_mr [] ret wc answers s = Some ((ret, answers), s)"
| "hash_client_for E dma rd sz conn dst_mr src_mr (p # ps) ret wc answers s = do {
     k \<leftarrow> key_bytes rd client_keylen p;
     ((ret, wc), s) \<leftarrow> hash_client_fetch E conn dst_mr src_mr (home sz k) wc s;
     if ret \<noteq> 0 then Some ((ret, answers), s)
     else do {
       a \<leftarrow> segment_key rd p (dma (trace s));
       hash_client_for E dma rd sz conn dst_mr src_mr ps ret wc (answers @ [a]) s
     }
   }"

definition hash_client_err_peer_delete :: "env \<Rightarrow> rc \<Rightarrow> found list \<Rightarrow> ptr \<Rightarrow> st \<Rightarrow> ((rc \<times> found list) \<times> st) option" where
  "hash_client_err_peer_delete E ret answers peer s = do {
     (_, s) \<leftarrow> rpma_peer_delete E (Some peer) s;
     Some ((ret, answers), s)
   }"

definition hash_client_err_mr_free ::
  "env \<Rightarrow> rc \<Rightarrow> found list \<Rightarrow> ptr \<Rightarrow> ptr \<Rightarrow> st \<Rightarrow> ((rc \<times> found list) \<times> st) option" where
  "hash_client_err_mr_free E ret answers dst_ptr peer s = do {
     (_, s) \<leftarrow> free dst_ptr s;
     hash_client_err_peer_delete E ret answers peer s
   }"

definition hash_client_err_mr_dereg ::
  "env \<Rightarrow> rc \<Rightarrow> found list \<Rightarrow> ptr \<Rightarrow> ptr \<Rightarrow> ptr \<Rightarrow> st \<Rightarrow> ((rc \<times> found list) \<times> st) option" where
  "hash_client_err_mr_dereg E ret answers dst_mr dst_ptr peer s = do {
     (_, s) \<leftarrow> rpma_mr_dereg E (Some dst_mr) s;
     hash_client_err_mr_free E ret answers dst_ptr peer s
   }"

definition hash_client_err_conn_disconnect ::
  "env \<Rightarrow> rc \<Rightarrow> found list \<Rightarrow> ptr \<Rightarrow> ptr \<Rightarrow> ptr \<Rightarrow> ptr \<Rightarrow> st \<Rightarrow> ((rc \<times> found list) \<times> st) option" where
  "hash_client_err_conn_disconnect E ret answers conn dst_mr dst_ptr peer s = do {
     (_, s) \<leftarrow> common_disconnect_and_wait_for_conn_close E conn s;
     hash_client_err_mr_dereg E ret answers dst_mr dst_ptr peer s
   }"

definition hash_client_err_mr_remote_delete ::
  "env \<Rightarrow> rc \<Rightarrow> found list \<Rightarrow> ptr \<Rightarrow> ptr \<Rightarrow> ptr \<Rightarrow> ptr \<Rightarrow> ptr \<Rightarrow> st \<Rightarrow> ((rc \<times> found list) \<times> st) option" where
  "hash_client_err_mr_remote_delete E ret answers src_mr conn dst_mr dst_ptr peer s = do {
     (_, s) \<leftarrow> rpma_mr_remote_delete (Some src_mr) s;
     hash_client_err_conn_disconnect E ret answers conn dst_mr dst_ptr peer s
   }"

text \<open>From the moment there is a connection.\<close>

definition hash_client_connected ::
  "env \<Rightarrow> dma \<Rightarrow> key_mem \<Rightarrow> nat \<Rightarrow> ptr \<Rightarrow> ptr \<Rightarrow> ptr \<Rightarrow> ptr \<Rightarrow> ptr list \<Rightarrow> ibv_wc \<Rightarrow> st
    \<Rightarrow> ((rc \<times> found list) \<times> st) option" where
  "hash_client_connected E dma rd sz conn dst_mr dst_ptr peer keys wc s = do {
     ((ret, pdata), s) \<leftarrow> rpma_conn_get_private_data conn (Some no_pdata) s;
     if ret \<noteq> 0 then hash_client_err_conn_disconnect E ret [] conn dst_mr dst_ptr peer s
     else if pdata_ptr (the pdata) = NULL then hash_client_err_conn_disconnect E ret [] conn dst_mr dst_ptr peer s
     else do {
       src_data \<leftarrow> bytes_at (pdata_ptr (the pdata)) s;
       mr_desc_size \<leftarrow> read_bytes 2 1 src_data;
       ((ret, src_mr), s) \<leftarrow>
         rpma_mr_remote_from_descriptor E (Some (drop 4 src_data)) (unat (hd mr_desc_size)) (Some NULL) s;
       if ret \<noteq> 0 then hash_client_err_conn_disconnect E ret [] conn dst_mr dst_ptr peer s
       else do {
         ((ret, answers), s) \<leftarrow> hash_client_for E dma rd sz conn dst_mr (the src_mr) keys ret wc [] s;
         hash_client_err_mr_remote_delete E ret answers (the src_mr) conn dst_mr dst_ptr peer s
       }
     }
   }"

definition hash_client_main ::
  "env \<Rightarrow> dma \<Rightarrow> key_mem \<Rightarrow> nat \<Rightarrow> string \<Rightarrow> string \<Rightarrow> ptr list \<Rightarrow> ibv_wc \<Rightarrow> st \<Rightarrow> ((rc \<times> found list) \<times> st) option" where
  "hash_client_main E dma rd sz addr port keys wc s = do {
     ((ret, peer), s) \<leftarrow> common_peer_via_address E addr RPMA_UTIL_IBV_CONTEXT_REMOTE NULL s;
     if ret \<noteq> 0 then Some ((ret, []), s)
     else do {
       (dst_ptr, s) \<leftarrow> malloc_aligned E (2 * KILOBYTE) s;
       if dst_ptr = NULL then hash_client_err_peer_delete E (- 1) [] peer s
       else do {
         ((ret, dst_mr), s) \<leftarrow> rpma_mr_reg E peer (of_nat dst_ptr) (of_nat (2 * KILOBYTE)) RPMA_MR_USAGE_READ_DST (Some NULL) s;
         if ret \<noteq> 0 then hash_client_err_mr_free E ret [] dst_ptr peer s
         else do {
           ((ret, conn), s) \<leftarrow> client_connect E peer addr port NULL None NULL s;
           if ret \<noteq> 0 then hash_client_err_mr_dereg E ret [] (the dst_mr) dst_ptr peer s
           else hash_client_connected E dma rd sz conn (the dst_mr) dst_ptr peer keys wc s
         }
       }
     }
   }"

subsection \<open>What the program leaves\<close>

text \<open>The last work request that was posted; the newest call is the first of a trace.\<close>

fun last_posted :: "event list \<Rightarrow> ibv_send_wr option" where
  "last_posted [] = None"
| "last_posted ((Ibv_post_send qp wr, r) # tr) = Some wr"
| "last_posted (_ # tr) = last_posted tr"

text \<open>A state after calls that post nothing.\<close>

definition quiet :: "st \<Rightarrow> st \<Rightarrow> bool" where
  "quiet s s' \<longleftrightarrow> ledger_ok s' \<and> mem s' = mem s \<and> acct s' = acct s \<and> last_posted (trace s') = last_posted (trace s)"

lemma quiet_cq_wait:
  assumes "q \<noteq> NULL \<longrightarrow> (\<exists>x. obj_at q (O_cq x) s)" and "ledger_ok s"
  shows "wp (rpma_cq_wait E q s) (\<lambda>_ s'. quiet s s')"
  using assms by (auto simp: rpma_cq_wait_def Let_def quiet_def intro!: wp_ext)

lemma quiet_cq_get_wc:
  assumes "q \<noteq> NULL \<longrightarrow> (\<exists>x. obj_at q (O_cq x) s)" and "ledger_ok s"
  shows "wp (rpma_cq_get_wc E q 1 (Some [wc]) None s) (\<lambda>(ret, wcs, _) s'. quiet s s' \<and>
    (ret = 0 \<longrightarrow> (\<exists>cq r. trace s' = (Ibv_poll_cq cq 1, r) # trace s \<and>
       r = respond E (trace s) (Ibv_poll_cq cq 1) \<and> rint r = 1 \<and> wcs = Some (rwc r))))"
  using assms by (auto simp: rpma_cq_get_wc_def Let_def quiet_def wp_ext_exact)

lemma read_posted:
  assumes "obj_at conn (O_conn c) s" and "obj_at dst (O_mr_local d) s" and "obj_at src (O_mr_remote m) s" and "ledger_ok s"
  shows "wp (rpma_read E conn dst dst_off src off len RPMA_F_COMPLETION_ALWAYS ctx s) (\<lambda>_ s'. ledger_ok s' \<and> mem s' = mem s \<and>
    acct s' = acct s \<and> last_posted (trace s') =
      Some (rdma_wr IBV_WR_RDMA_READ None m d off dst_off len RPMA_F_COMPLETION_ALWAYS ctx))"
proof -
  have "RPMA_F_COMPLETION_ALWAYS \<noteq> 0" by (simp add: RPMA_F_COMPLETION_ALWAYS_def RPMA_F_COMPLETION_ON_ERROR_def)
  from rpma_read_posts [OF assms(1-3) this, where src_off = off and dst_off = dst_off and len = len and ctx = ctx and E = E] assms(4) show ?thesis by (auto simp: posts_def Let_def)
qed

text \<open>The calls so far end with the completion of a read of the segment of a key, from one of the
  remote regions \<open>M\<close>.\<close>

definition polled :: "env \<Rightarrow> event list \<Rightarrow> ibv_wc \<Rightarrow> bool" where
  "polled E tr wc \<longleftrightarrow> (\<exists>cq r tr'. tr = (Ibv_poll_cq cq 1, r) # tr' \<and> r = respond E tr' (Ibv_poll_cq cq 1) \<and>
     rint r = 1 \<and> (rwc r \<noteq> [] \<longrightarrow> wc = hd (rwc r)))"

lemma polled_case:
  "tr = (Ibv_poll_cq cq 1, respond E tr' (Ibv_poll_cq cq 1)) # tr' \<Longrightarrow> rint (respond E tr' (Ibv_poll_cq cq 1)) = 1 \<Longrightarrow>
    polled E tr (case rwc (respond E tr' (Ibv_poll_cq cq 1)) of [] \<Rightarrow> w | w # _ \<Rightarrow> w)"
  by (auto simp: polled_def split: list.splits)

definition fetched :: "env \<Rightarrow> nat \<Rightarrow> rpma_mr_remote set \<Rightarrow> event list \<Rightarrow> bool" where
  "fetched E idx M tr \<longleftrightarrow> (\<exists>m d wc. m \<in> M \<and>
     last_posted tr = Some (rdma_wr IBV_WR_RDMA_READ None m d (of_nat (idx * 64)) 0 2048 RPMA_F_COMPLETION_ALWAYS 0) \<and>
     polled E tr wc \<and> wc_status wc = IBV_WC_SUCCESS)"

text \<open>What the loop uses.\<close>

definition in_use :: "ptr \<Rightarrow> ptr \<Rightarrow> ptr \<Rightarrow> rpma_mr_remote set \<Rightarrow> st \<Rightarrow> bool" where
  "in_use conn dst src M s \<longleftrightarrow> (\<exists>c d m. obj_at conn (O_conn c) s \<and>
     (conn_cq c \<noteq> NULL \<longrightarrow> (\<exists>q. obj_at (conn_cq c) (O_cq q) s)) \<and>
     obj_at dst (O_mr_local d) s \<and> obj_at src (O_mr_remote m) s \<and> m \<in> M)"

lemma wp_hash_client_fetch:
  assumes P: "stable E P" and s: "P s" and use: "in_use conn dst src M s"
    and Q: "\<And>ret wc s'. P s' \<Longrightarrow> (ret = 0 \<Longrightarrow> fetched E idx M (trace s')) \<Longrightarrow> Q (ret, wc) s'"
  shows "wp (hash_client_fetch E conn dst src idx wc s) Q"
proof -
  from use obtain c d m where o: "obj_at conn (O_conn c) s"
    "conn_cq c \<noteq> NULL \<longrightarrow> (\<exists>q. obj_at (conn_cq c) (O_cq q) s)" "obj_at dst (O_mr_local d) s" "obj_at src (O_mr_remote m) s"
    "m \<in> M" unfolding in_use_def by blast
  define off where "off = (of_nat (idx * 64) :: u64)"
  let ?wr = "rdma_wr IBV_WR_RDMA_READ None m d off 0 2048 RPMA_F_COMPLETION_ALWAYS 0"
  note same = stable_same [OF P s]
  have finish: "Q (ret, w) s'"
    if "ledger_ok s'" "mem s' = mem s" "acct s' = acct s"
      "ret = 0 \<Longrightarrow> last_posted (trace s') = Some ?wr \<and> polled E (trace s') w \<and> wc_status w = IBV_WC_SUCCESS" for ret w s'
    using same [OF that(1-3)] that(4) o(5) by (intro Q) (auto simp: fetched_def off_def)
  have read: "wp (rpma_read E conn dst 0 src off 2048 RPMA_F_COMPLETION_ALWAYS 0 s) (\<lambda>_ s'. ledger_ok s' \<and>
      mem s' = mem s \<and> acct s' = acct s \<and> last_posted (trace s') = Some ?wr)"
    by (rule read_posted [OF o(1,3,4) stable_ledger [OF P s]])
  have cq: "conn_cq c \<noteq> NULL \<longrightarrow> (\<exists>x. obj_at (conn_cq c) (O_cq x) t)" if "mem t = mem s" for t
    using o(2) that by (simp add: obj_at_def)
  have conn: "rpma_conn_get_cq conn (Some NULL) t = Some ((0, Some (conn_cq c)), t)" if "mem t = mem s" for t
  proof -
    have "obj_at conn (O_conn c) t" using o(1) that by (simp add: obj_at_def)
    then show ?thesis by (simp add: rpma_conn_get_cq_def obj_at_nonnull load_Some(7))
  qed
  show ?thesis
    unfolding hash_client_fetch_def KILOBYTE_def off_def [symmetric]
    by (auto simp: conn quiet_def Let_def intro!: wp_mono [OF read] wp_mono [OF quiet_cq_wait [OF cq]]
        wp_mono [OF quiet_cq_get_wc [OF cq]] finish polled_case)
qed

lemma wp_hash_client_for:
  fixes Q :: "rc \<times> found list \<Rightarrow> st \<Rightarrow> bool"
  assumes P: "stable E P" and use: "\<And>t. P t \<Longrightarrow> in_use conn dst src M t"
    and seg: "\<And>p k tr. p \<in> set keys \<Longrightarrow> key_bytes rd 24 p = Some k \<Longrightarrow> fetched E (home sz k) M tr \<Longrightarrow>
       \<exists>a. segment_key rd p (dma tr) = Some a \<and> A p a"
    and keys: "\<And>p. p \<in> set keys \<Longrightarrow> key_bytes rd 24 p \<noteq> None" and s: "P s"
    and Q: "\<And>ret as s'. P s' \<Longrightarrow> length as \<le> length keys \<Longrightarrow> list_all2 A (take (length as) keys) as \<Longrightarrow>
       (ret = 0 \<Longrightarrow> length as = length keys) \<Longrightarrow> Q (ret, answers @ as) s'"
  shows "wp (hash_client_for E dma rd sz conn dst src keys ret wc answers s) Q"
  using seg keys s Q
proof (induction keys arbitrary: ret wc answers s)
  case Nil
  from Nil.prems(4) [of s "[]" ret] Nil.prems(3) show ?case by simp
next
  case (Cons p ps)
  from Cons.prems(2) [of p] obtain k where k: "key_bytes rd 24 p = Some k" by auto
  have next_key: "wp (hash_client_for E dma rd sz conn dst src ps ret wc (answers @ [a]) t) Q"
    if "P t" "A p a" for t a ret wc
  proof (rule Cons.IH)
    fix ret :: rc and as s'
    assume "P s'" "length as \<le> length ps" "list_all2 A (take (length as) ps) as" "ret = 0 \<Longrightarrow> length as = length ps"
    then show "Q (ret, (answers @ [a]) @ as) s'" using Cons.prems(4) [of s' "a # as" ret] that(2) by simp
  qed (use Cons.prems(1,2) that(1) in auto)
  have "wp (hash_client_fetch E conn dst src (home sz k) wc s) (\<lambda>(ret, wc) t.
      wp (if ret \<noteq> 0 then Some ((ret, answers), t)
          else do { a \<leftarrow> segment_key rd p (dma (trace t)); hash_client_for E dma rd sz conn dst src ps ret wc (answers @ [a]) t }) Q)"
  proof (rule wp_hash_client_fetch [OF P Cons.prems(3) use [OF Cons.prems(3)]], goal_cases)
    case (1 ret wc t)
    show ?case
    proof (cases "ret = 0")
      case True
      with Cons.prems(1) [OF _ k] 1(2) obtain a where "segment_key rd p (dma (trace t)) = Some a" "A p a" by fastforce
      with True next_key [OF 1(1)] show ?thesis by simp
    next
      case False
      with Cons.prems(4) [of t "[]" ret] 1(1) show ?thesis by simp
    qed
  qed
  then show ?case by (auto simp: client_keylen_def k elim!: wp_mono split: if_splits)
qed

text \<open>The labels, from the last one on. The stack of scopes is the one the program has built.\<close>

abbreviation "holds_dst E P peer dst_ptr \<equiv> over (owns_plain O_bytes) E (over owns_peer E P peer) dst_ptr"
abbreviation "holds_mr E P peer dst_ptr dst_mr \<equiv> over owns_mr E (holds_dst E P peer dst_ptr) dst_mr"
abbreviation "holds_conn E P peer dst_ptr dst_mr conn \<equiv> over (owns_conn_of E) E (holds_mr E P peer dst_ptr dst_mr) conn"

lemma wp_hash_client_err_peer_delete:
  assumes "over owns_peer E P peer s" and "stable E P" and "\<And>s'. P s' \<Longrightarrow> Q (ret, answers) s'"
  shows "wp (hash_client_err_peer_delete E ret answers peer s) Q"
  using assms by (auto simp: hash_client_err_peer_delete_def intro!: peer_scope.wp_pop)

lemma wp_hash_client_err_mr_free:
  assumes "holds_dst E P peer dst_ptr s" and "stable E P" and "\<And>s'. P s' \<Longrightarrow> Q (ret, answers) s'"
  shows "wp (hash_client_err_mr_free E ret answers dst_ptr peer s) Q"
  using assms by (auto simp: hash_client_err_mr_free_def
      intro!: wp_pop_free peer_scope.stable_over wp_hash_client_err_peer_delete)

lemma wp_hash_client_err_mr_dereg:
  assumes "holds_mr E P peer dst_ptr dst_mr s" and "stable E P" and "\<And>s'. P s' \<Longrightarrow> Q (ret, answers) s'"
  shows "wp (hash_client_err_mr_dereg E ret answers dst_mr dst_ptr peer s) Q"
  using assms by (auto simp: hash_client_err_mr_dereg_def
      intro!: mr_scope.wp_pop plain_scope.stable_over wp_hash_client_err_mr_free)

lemma wp_hash_client_err_conn_disconnect:
  assumes "holds_conn E P peer dst_ptr dst_mr conn s" and "stable E P" and "events_wf E"
    and "\<And>s'. P s' \<Longrightarrow> Q (ret, answers) s'"
  shows "wp (hash_client_err_conn_disconnect E ret answers conn dst_mr dst_ptr peer s) Q"
  unfolding hash_client_err_conn_disconnect_def
  by (auto intro!: wp_disconnect_and_wait_for_conn_close [OF mr_scope.stable_over assms(1,3)]
      wp_hash_client_err_mr_dereg [OF _ assms(2)] assms(4))

lemma wp_hash_client_err_mr_remote_delete:
  assumes "over (owns_plain O_mr_remote) E (holds_conn E P peer dst_ptr dst_mr conn) src_mr s" and "stable E P"
    and "events_wf E" and "\<And>s'. P s' \<Longrightarrow> Q (ret, answers) s'"
  shows "wp (hash_client_err_mr_remote_delete E ret answers src_mr conn dst_mr dst_ptr peer s) Q"
  unfolding hash_client_err_mr_remote_delete_def
  by (auto intro!: wp_pop_mr_remote [OF assms(1) conn_scope.stable_over]
      wp_hash_client_err_conn_disconnect [OF _ assms(2,3)] assms(4))

text \<open>The private data of a connection is a block with bytes that came with an event.\<close>

lemma wp_get_known_data:
  assumes "over (owns_conn_of E) E P k s" and none: "Q (0, Some no_pdata) s"
    and some: "\<And>d bs. pdata_ptr d \<noteq> NULL \<Longrightarrow> bytes_at (pdata_ptr d) s = Some bs \<Longrightarrow> bs \<noteq> [] \<Longrightarrow> known_payload E bs \<Longrightarrow>
      Q (0, Some d) s"
  shows "wp (rpma_conn_get_private_data k (Some x) s) Q"
proof -
  from assms(1) obtain B R where o: "owns_conn k B R s" "payload_at E k s" by (auto simp: over_def owns_conn_of_def)
  from owns_conn_live [OF o(1)] obtain c where c: "obj_at k (O_conn c) s" "pdata_ok (conn_data c) s" by blast
  have p: "known_payload E (pdata_bytes (conn_data c) s)" using o(2) c(1) by (simp add: payload_at_def)
  have run: "rpma_conn_get_private_data k (Some x) s = Some ((0, Some (conn_data c)), s)"
    using c(1) by (simp add: rpma_conn_get_private_data_def obj_at_nonnull load_Some(7))
  from c(2) consider "conn_data c = no_pdata"
    | bs where "obj_at (pdata_ptr (conn_data c)) (O_bytes bs) s" "bs \<noteq> []"
    by (cases "conn_data c") (auto simp: pdata_ok_def)
  then show ?thesis
  proof cases
    case 1
    with none run show ?thesis by simp
  next
    case (2 bs)
    then have d: "deref (pdata_ptr (conn_data c)) s = Some (O_bytes bs)" by (simp add: obj_at_def deref_def)
    with p have "known_payload E bs" by (simp add: pdata_bytes_def)
    with some [of "conn_data c" bs] 2 d run obj_at_nonnull show ?thesis by (auto simp: bytes_at_def)
  qed
qed

text \<open>The servers of this example send a \<open>struct common_data\<close> as private data.\<close>

definition data_complete :: "env \<Rightarrow> bool" where
  "data_complete E \<longleftrightarrow> (\<forall>tr ch. let r = respond E tr (Rdma_get_cm_event ch) in
     rint r = 0 \<and> event_payload (rcm r) \<noteq> [] \<longrightarrow> 28 \<le> length (event_payload (rcm r)))"

lemma holds_in_use:
  assumes "over (owns_plain O_mr_remote) E (holds_conn E P peer dst_ptr dst_mr conn) src_mr s"
  shows "in_use conn dst_mr src_mr UNIV s"
proof -
  from over_top(5) [OF assms] obtain m where m: "obj_at src_mr (O_mr_remote m) s" by blast
  from over_below [OF assms] obtain s1 where s1: "holds_conn E P peer dst_ptr dst_mr conn s1"
    "\<forall>q x. obj_at q x s1 \<longrightarrow> obj_at q x s" by blast
  from over_conn_cqs [OF s1(1)] obtain c where "obj_at conn (O_conn c) s1"
    "conn_cq c \<noteq> NULL \<Longrightarrow> \<exists>q. obj_at (conn_cq c) (O_cq q) s1" by blast
  moreover from over_below [OF s1(1)] over_top(4) obtain d where "obj_at dst_mr (O_mr_local d) s1" by metis
  ultimately show ?thesis using m s1(2) unfolding in_use_def by blast
qed

lemma wp_hash_client_connected:
  assumes c: "holds_conn E P peer dst_ptr dst_mr conn s"
    and P: "stable E P" and wf: "events_wf E" and data: "data_complete E"
    and keys: "\<And>p. p \<in> set keys \<Longrightarrow> key_bytes rd 24 p \<noteq> None"
    and seg: "\<And>p tr. p \<in> set keys \<Longrightarrow> segment_key rd p (dma tr) \<noteq> None"
    and Q: "\<And>ret as s'. P s' \<Longrightarrow> Q (ret, as) s'"
  shows "wp (hash_client_connected E dma rd sz conn dst_mr dst_ptr peer keys wc s) Q"
proof -
  have loop: "wp (hash_client_for E dma rd sz conn dst_mr src_mr keys ret wc [] t) Q'"
    if "over (owns_plain O_mr_remote) E (holds_conn E P peer dst_ptr dst_mr conn) src_mr t"
      "\<And>ret as t. over (owns_plain O_mr_remote) E (holds_conn E P peer dst_ptr dst_mr conn) src_mr t \<Longrightarrow> Q' (ret, as) t"
    for src_mr ret t Q'
    by (rule wp_hash_client_for [OF plain_scope.stable_over holds_in_use, where A = "\<lambda>_ _. True"])
       (use that seg keys in auto)
  have size: "\<exists>n. read_bytes 2 1 bs = Some [n] \<and> (unat n < 21 \<or> 21 \<le> length (drop 4 bs))"
    if "known_payload E bs" "bs \<noteq> []" for bs
  proof -
    have "28 \<le> length bs" using that data by (fastforce simp: known_payload_def data_complete_def Let_def)
    then show ?thesis by (auto simp: read_bytes_def take_Suc intro!: exI [of _ "hd (drop 2 bs)"])
  qed
  show ?thesis
    unfolding hash_client_connected_def wp_bind
  proof (rule wp_get_known_data [OF c], goal_cases)
    case 1
    show ?case using c by (auto intro!: wp_hash_client_err_conn_disconnect [OF _ P wf] Q)
  next
    case (2 d bs)
    from size [OF 2(4,3)] obtain n where n: "read_bytes 2 1 bs = Some [n]" "unat n < 21 \<or> 21 \<le> length (drop 4 bs)" by blast
    show ?case
      by (auto simp: 2(1,2) n(1) [unfolded One_nat_def] intro!: wp_push_mr_remote [OF conn_scope.stable_over c n(2)] loop
          wp_hash_client_err_conn_disconnect [OF _ P wf] wp_hash_client_err_mr_remote_delete [OF _ P wf] Q)
  qed
qed

lemma wp_hash_client_main:
  assumes P: "stable E P" and s: "P s" and wf: "events_wf E" and data: "data_complete E"
    and keys: "\<And>p. p \<in> set keys \<Longrightarrow> key_bytes rd 24 p \<noteq> None"
    and seg: "\<And>p tr. p \<in> set keys \<Longrightarrow> segment_key rd p (dma tr) \<noteq> None"
    and Q: "\<And>ret as s'. P s' \<Longrightarrow> Q (ret, as) s'"
  shows "wp (hash_client_main E dma rd sz addr port keys wc s) Q"
proof -
  have peer: "\<exists>p. obj_at peer (O_peer p) t" if "holds_dst E P peer k t" for peer k t
    using over_live [OF that] over_top(2) by blast
  then have peer': "\<exists>p. obj_at peer (O_peer p) t" if "holds_mr E P peer k q t" for peer k q t
    using over_live [OF that] by blast
  show ?thesis
  unfolding hash_client_main_def
  by (auto intro!: wp_common_peer_via_address [OF P s] wp_malloc_aligned [OF peer_scope.stable_over]
      wp_push_mr [OF plain_scope.stable_over _ peer] wp_client_connect [OF mr_scope.stable_over _ peer' _ _ wf]
      wp_hash_client_err_peer_delete [OF _ P] wp_hash_client_err_mr_free [OF _ P] wp_hash_client_err_mr_dereg [OF _ P]
      wp_hash_client_connected [OF _ P wf data keys seg] Q)
qed

subsection \<open>What the lookups answer\<close>

text \<open>What the client relies on of the provider: a poll that reports a completion delivers it, and after
  the successful completion of an RDMA read from an exported region with the contents \<open>img\<close> the
  destination holds the bytes of the range that was asked for.\<close>

definition polls_deliver :: "env \<Rightarrow> bool" where
  "polls_deliver E \<longleftrightarrow> (\<forall>tr cq n. let r = respond E tr (Ibv_poll_cq cq n) in rint r = 1 \<longrightarrow> rwc r \<noteq> [])"

definition serves :: "dma \<Rightarrow> u64 \<Rightarrow> u8 list \<Rightarrow> bool" where
  "serves dma base img \<longleftrightarrow> (\<forall>tr cq r w ws wr a key sge.
     tr \<noteq> [] \<and> hd tr = (Ibv_poll_cq cq 1, r) \<and> rint r = 1 \<and> rwc r = w # ws \<and> wc_status w = IBV_WC_SUCCESS \<and>
     last_posted tr = Some wr \<and> wr_opcode wr = IBV_WR_RDMA_READ \<and> wr_rdma wr = Some (a, key) \<and> wr_sg_list wr = Some sge \<and>
     unat base \<le> unat a \<and> unat a + unat (sge_length sge) \<le> unat base + length img \<longrightarrow>
     dma tr = take (unat (sge_length sge)) (drop (unat a - unat base) img))"

lemma fetched_segment:
  assumes f: "fetched E idx {m} tr" and polls: "polls_deliver E" and dma: "serves dma (mrr_raddr m) img"
    and room: "idx * 64 + 2048 \<le> length img" "unat (mrr_raddr m) + length img \<le> 2 ^ 64"
  shows "dma tr = take 2048 (drop (idx * 64) img)"
proof -
  from f obtain d wc where wr: "last_posted tr =
      Some (rdma_wr IBV_WR_RDMA_READ None m d (of_nat (idx * 64)) 0 2048 RPMA_F_COMPLETION_ALWAYS 0)"
    "polled E tr wc" "wc_status wc = IBV_WC_SUCCESS" by (auto simp: fetched_def)
  from wr(2) polls obtain cq r where q: "tr \<noteq> []" "hd tr = (Ibv_poll_cq cq 1, r)" "rint r = 1" "rwc r \<noteq> []" "wc = hd (rwc r)"
    by (force simp: polled_def polls_deliver_def Let_def)
  with wr(3) obtain w ws where p: "tr \<noteq> []" "hd tr = (Ibv_poll_cq cq 1, r)" "rint r = 1" "rwc r = w # ws"
    "wc_status w = IBV_WC_SUCCESS" by (cases "rwc r") auto
  let ?a = "mrr_raddr m + of_nat (idx * 64) :: u64"
  have "unat (of_nat (idx * 64) :: u64) = idx * 64" using room by (simp add: unat_of_nat del: of_nat_mult)
  then have a: "unat ?a = unat (mrr_raddr m) + idx * 64" using room by (simp add: unat_plus_if')
  have l: "unat (sge_length (local_sge d 0 2048)) = 2048" by (simp add: local_sge_def)
  show ?thesis
    using dma [unfolded serves_def, rule_format, of tr cq r w ws _ ?a "mrr_rkey m" "local_sge d 0 2048"] p wr(1) a l room
    by simp
qed

lemma remote_lookups_spec:
  assumes conn: "obj_at conn (O_conn c) s" "conn_cq c \<noteq> NULL \<Longrightarrow> \<exists>q. obj_at (conn_cq c) (O_cq q) s"
    and mrs: "obj_at dst (O_mr_local d) s" "obj_at src (O_mr_remote m) s" and ok: "ledger_ok s"
    and tab: "hinv rd 24 bs" "length bs = 2 ^ e" "e < 64" "long_keys rd"
    and rec: "\<And>j. j < length bs \<Longrightarrow> holds_record rd (bs ! j) (64 * j) img"
    and room: "64 * length bs + 1984 \<le> length img" "unat (mrr_raddr m) + length img \<le> 2 ^ 64"
    and prov: "polls_deliver E" "serves dma (mrr_raddr m) img"
    and keys: "\<And>p. p \<in> set keys \<Longrightarrow> key_bytes rd 24 p \<noteq> None"
  shows "wp (hash_client_for E dma rd (length bs) conn dst src keys 0 wc [] s) (\<lambda>(ret, answers) s'.
     mem s' = mem s \<and> (ret = 0 \<longrightarrow> length answers = length keys) \<and>
     list_all2 (\<lambda>p a. a = table_answer rd bs (the (key_bytes rd 24 p))) (take (length answers) keys) answers)"
proof (rule wp_hash_client_for [where P = "\<lambda>t. ledger_ok t \<and> mem t = mem s" and M = "{m}"
      and A = "\<lambda>p a. a = table_answer rd bs (the (key_bytes rd 24 p))"])
  show "stable E (\<lambda>t. ledger_ok t \<and> mem t = mem s)" by (auto simp: stable_def clean_def ids_left_def)
next
  fix t
  assume "ledger_ok t \<and> mem t = mem s"
  then show "in_use conn dst src {m} t" using conn mrs by (auto simp: in_use_def obj_at_def)
next
  fix p k tr
  assume k: "key_bytes rd 24 p = Some k" and f: "fetched E (home (length bs) k) {m} tr"
  have "home (length bs) k < length bs" using tab(2,3) by (simp add: home_less)
  then have seg: "home (length bs) k * 64 + 2048 \<le> length img" using room(1) by simp
  have "segment_key rd p (dma tr) = readhash_key rd (length bs) img p"
    unfolding fetched_segment [OF f prov seg room(2)] by (rule segment_key_eq [OF k seg])
  also have "\<dots> = Some (table_answer rd bs k)" by (rule readhash_key_spec [OF tab(1) rec tab(4,2,3) k])
  finally show "\<exists>a. segment_key rd p (dma tr) = Some a \<and> a = table_answer rd bs (the (key_bytes rd 24 p))"
    using k by simp
qed (use ok keys in auto)

subsection \<open>A sample run\<close>

text \<open>A provider that reports one successful completion per poll and sends the structure as private data.\<close>

definition read_wc :: ibv_wc where
  "read_wc = \<lparr>wc_wr_id = 0, wc_status = IBV_WC_SUCCESS, wc_opcode = IBV_WC_RDMA_READ, wc_byte_len = 0,
     wc_imm_data = [], wc_flags = 0\<rparr>"

definition serving_respond :: "event list \<Rightarrow> call \<Rightarrow> resp" where
  "serving_respond tr c = (sample_respond tr c)\<lparr>
     rint := (case c of Sysconf_pagesize \<Rightarrow> 4096 | Ibv_poll_cq _ _ \<Rightarrow> 1 | _ \<Rightarrow> 0), rwc := [read_wc],
     rcm := sample_cm_event\<lparr>ev_private_data := Some (replicate 28 0), ev_private_data_len := 28\<rparr>\<rparr>"

definition serving_env :: env where
  "serving_env = sample_env\<lparr>respond := serving_respond\<rparr>"

definition serving_dma :: "u64 \<Rightarrow> u8 list \<Rightarrow> dma" where
  "serving_dma base img tr = (case last_posted tr of
       Some wr \<Rightarrow> take (unat (sge_length (the (wr_sg_list wr)))) (drop (unat (fst (the (wr_rdma wr))) - unat base) img)
     | None \<Rightarrow> replicate 2048 0)"

lemma serving_env_wf: "polls_deliver serving_env" "serves (serving_dma base img) base img" "events_wf serving_env"
  "no_requests serving_env" "data_complete serving_env"
  by (simp_all add: polls_deliver_def serves_def serving_env_def serving_respond_def sample_respond_def serving_dma_def
      events_wf_def event_wf_def no_requests_def data_complete_def event_payload_def sample_cm_event_def Let_def)

text \<open>A connection whose completion queue has a channel of its own.\<close>

definition serving_st :: st where
  "serving_st = sample_st\<lparr>mem := (mem sample_st)(42 \<mapsto> O_cq \<lparr>cq_channel = 49, cq_shared_comp_channel = False, cq_cq = 100\<rparr>)\<rparr>"

lemma serving_objs:
  "obj_at 50 (O_conn sample_conn) serving_st" "\<exists>q. obj_at 42 (O_cq q) serving_st"
  "obj_at 47 (O_mr_local sample_mr) serving_st" "obj_at 51 (O_mr_remote sample_remote) serving_st" "ledger_ok serving_st"
  using sample_objs sample_ledger by (simp_all add: serving_st_def obj_at_def CONN_CFG_DEFAULT_ADDR_def)

definition one_key_heap :: hheap where
  "one_key_heap = (trace_heap 0)\<lparr>arrays := [900 \<mapsto> [\<lparr>bk_key = 1, bk_data = 1, bk_hopinfo = 1\<rparr>]]\<rparr>"

lemma one_key_table:
  "table_ok trace_keys one_key_heap 800 ((small_table 0)\<lparr>ht_keylen := 24\<rparr>) [\<lparr>bk_key = 1, bk_data = 1, bk_hopinfo = 1\<rparr>]"
    (is "table_ok _ _ _ _ ?bs")
proof -
  have k: "key_bytes trace_keys 24 1 = Some (replicate 23 65 @ [digit 1])" by (simp add: trace_keys_bytes)
  have h: "home (Suc 0) k = 0" for k by (simp add: home_def)
  have "hinv trace_keys 24 ?bs"
    using k by (auto simp: hinv_def readable_def ent_of_def entry_of_def hops_of_def h bit_1_iff split: if_splits
        intro!: tinvI)
  then show ?thesis by (simp add: table_ok_def one_key_heap_def trace_heap_def)
qed

lemma one_key_written:
  "\<exists>img. write_table trace_keys one_key_heap 800 64 1 (replicate 2048 0) = Some img \<and> length img = 2048"
proof -
  have "write_table trace_keys one_key_heap 800 64 (length [\<lparr>bk_key = 1, bk_data = 1, bk_hopinfo = 1\<rparr>]) (replicate 2048 0) \<noteq> None"
    using write_table_defined [of one_key_heap 800 "(small_table 0)\<lparr>ht_keylen := 24\<rparr>"
        "[\<lparr>bk_key = 1, bk_data = 1, bk_hopinfo = 1\<rparr>]" trace_keys "replicate 2048 0" 64]
    by (simp add: one_key_heap_def trace_heap_def strings_fit_def trace_keys_string)
  then show ?thesis using write_table_length by fastforce
qed

subsection \<open>Properties\<close>





end
