(* ===== verification/Hash_Server.thy ===== *)
theory Hash_Server
  imports Region
begin

text \<open>
  The server of the remote hash table, \<open>src/examples/hash/hashserver.c\<close>, in a build with persistent
  memory and with a path on the command line.
\<close>

subsection \<open>The program\<close>

definition hash_server_err_peer_delete :: "env \<Rightarrow> rc \<Rightarrow> ptr \<Rightarrow> st \<Rightarrow> (rc \<times> st) option" where
  "hash_server_err_peer_delete E ret peer s = do {
     (_, s) \<leftarrow> rpma_peer_delete E (Some peer) s;
     Some (ret, s)
   }"

definition hash_server_err_ep_shutdown :: "env \<Rightarrow> rc \<Rightarrow> ptr \<Rightarrow> ptr \<Rightarrow> st \<Rightarrow> (rc \<times> st) option" where
  "hash_server_err_ep_shutdown E ret ep peer s = do {
     (_, s) \<leftarrow> rpma_ep_shutdown E (Some ep) s;
     hash_server_err_peer_delete E ret peer s
   }"

definition hash_server_err_free :: "env \<Rightarrow> rc \<Rightarrow> common_mem \<Rightarrow> ptr \<Rightarrow> ptr \<Rightarrow> st \<Rightarrow> (rc \<times> st) option" where
  "hash_server_err_free E ret m ep peer s = do {
     (_, s) \<leftarrow> release_mem E m s;
     hash_server_err_ep_shutdown E ret ep peer s
   }"

definition hash_server_err_mr_dereg ::
  "env \<Rightarrow> rc \<Rightarrow> ptr \<Rightarrow> common_mem \<Rightarrow> ptr \<Rightarrow> ptr \<Rightarrow> st \<Rightarrow> (rc \<times> st) option" where
  "hash_server_err_mr_dereg E ret mr m ep peer s = do {
     (_, s) \<leftarrow> rpma_mr_dereg E (Some mr) s;
     hash_server_err_free E ret m ep peer s
   }"

text \<open>From the moment the memory is registered. \<open>data\<close> is the address of the structure that is sent as private data, of 28 bytes; its
  descriptor field has 24.\<close>

definition hash_server_registered ::
  "env \<Rightarrow> ptr \<Rightarrow> common_mem \<Rightarrow> ptr \<Rightarrow> ptr \<Rightarrow> ptr \<Rightarrow> st \<Rightarrow> (rc \<times> st) option" where
  "hash_server_registered E mr m ep peer data s = do {
     ((ret, mr_desc_size), s) \<leftarrow> rpma_mr_get_descriptor_size mr (Some 0) s;
     if ret \<noteq> 0 then hash_server_err_mr_dereg E ret mr m ep peer s
     else do {
       ((ret, descriptors), s) \<leftarrow> rpma_mr_get_descriptor mr (Some (replicate 24 0)) s;
       if ret \<noteq> 0 then hash_server_err_mr_dereg E ret mr m ep peer s
       else do {
         let pdata = \<lparr>pdata_ptr = data, pdata_len = 28\<rparr>;
         ((ret, conn), s) \<leftarrow> server_accept_connection E ep NULL (Some pdata) NULL s;
         if ret \<noteq> 0 then hash_server_err_mr_dereg E ret mr m ep peer s
         else do {
           (_, s) \<leftarrow> common_wait_for_conn_close_and_disconnect E conn s;
           hash_server_err_mr_dereg E ret mr m ep peer s
         }
       }
     }
   }"

definition hash_server_main ::
  "env \<Rightarrow> string \<Rightarrow> string \<Rightarrow> string \<Rightarrow> ptr \<Rightarrow> st \<Rightarrow> (rc \<times> st) option" where
  "hash_server_main E addr port path data s = do {
     ((ret, m), s) \<leftarrow> common_pmem_map_file E path 0 no_mem s;
     if ret \<noteq> 0 then hash_server_err_free E ret m NULL NULL s
     else if cm_mr_ptr m = NULL then Some (- 1, s)
     else do {
       ((ret, peer), s) \<leftarrow> common_peer_via_address E addr RPMA_UTIL_IBV_CONTEXT_LOCAL NULL s;
       if ret \<noteq> 0 then Some (ret, s)
       else do {
         ((ret, ep), s) \<leftarrow> rpma_ep_listen E peer (Some addr) (Some port) (Some NULL) s;
         if ret \<noteq> 0 then hash_server_err_peer_delete E ret peer s
         else do {
           ((ret, mr), s) \<leftarrow> rpma_mr_reg E peer (of_nat (cm_mr_ptr m)) (cm_mr_size m) RPMA_MR_USAGE_READ_SRC (Some NULL) s;
           if ret \<noteq> 0 then hash_server_err_free E ret m (the ep) peer s
           else hash_server_registered E (the mr) m (the ep) peer data s
         }
       }
     }
   }"

subsection \<open>What the program leaves\<close>

abbreviation "map_peer E P a peer \<equiv> over owns_peer E (over owns_map E P a) peer"
abbreviation "map_ep E P a peer ep \<equiv> over (owns_ep_of peer) E (map_peer E P a peer) ep"
abbreviation "map_mr E P a peer ep mr \<equiv> over owns_mr E (map_ep E P a peer ep) mr"

lemma map_below_ep:
  assumes "map_ep E P a peer ep s"
  shows "over owns_map E (over (owns_ep_of peer) E (over owns_peer E P peer) ep) a s"
proof (rule map_scope.swap)
  show "over (owns_ep_of peer) E (over owns_map E (over owns_peer E P peer) a) ep s"
    using assms by (rule over_mono) (erule map_scope.swap, rule peer_scope.owns_local)
qed (rule ep_scope.owns_local)

lemma wp_hash_server_err_peer_delete:
  assumes "over owns_peer E P peer s" and "stable E P" and "\<And>s'. P s' \<Longrightarrow> Q ret s'"
  shows "wp (hash_server_err_peer_delete E ret peer s) Q"
  using assms by (auto simp: hash_server_err_peer_delete_def intro!: peer_scope.wp_pop)

lemma wp_hash_server_err_ep_shutdown:
  assumes "over (owns_ep_of peer) E (over owns_peer E P peer) ep s" and "stable E P" and "\<And>s'. P s' \<Longrightarrow> Q ret s'"
  shows "wp (hash_server_err_ep_shutdown E ret ep peer s) Q"
  using assms by (auto simp: hash_server_err_ep_shutdown_def
      intro!: ep_scope.wp_pop peer_scope.stable_over wp_hash_server_err_peer_delete)

lemma wp_hash_server_err_free:
  assumes "map_ep E P a peer ep s" and "stable E P" and "cm_is_pmem m \<noteq> 0" "cm_mr_ptr m = a"
    and "\<And>s'. P s' \<Longrightarrow> Q ret s'"
  shows "wp (hash_server_err_free E ret m ep peer s) Q"
  using assms(3,4) unfolding hash_server_err_free_def release_mem_def common_pmem_unmap_file_def
  by (auto intro!: wp_pop_map [OF map_below_ep [OF assms(1)] ep_scope.stable_over, folded assms(4)]
      wp_hash_server_err_ep_shutdown [OF _ assms(2)] assms(5))

lemma err_free_nothing:
  "cm_is_pmem m = 0 \<Longrightarrow> cm_mr_ptr m = NULL \<Longrightarrow> hash_server_err_free E ret m NULL NULL s = Some (ret, s)"
  by (simp add: hash_server_err_free_def release_no_mem hash_server_err_ep_shutdown_def hash_server_err_peer_delete_def
      rpma_ep_shutdown_def rpma_peer_delete_def)

lemma wp_hash_server_err_mr_dereg:
  assumes "map_mr E P a peer ep mr s" and "stable E P" and "cm_is_pmem m \<noteq> 0" "cm_mr_ptr m = a"
    and "\<And>s'. P s' \<Longrightarrow> Q ret s'"
  shows "wp (hash_server_err_mr_dereg E ret mr m ep peer s) Q"
  using assms by (auto simp: hash_server_err_mr_dereg_def
      intro!: mr_scope.wp_pop ep_scope.stable_over wp_hash_server_err_free)

lemma map_mr_live:
  assumes "map_mr E P a peer ep mr t"
  shows "\<exists>p. obj_at peer (O_peer p) t" and "\<exists>e. obj_at ep (O_ep e) t \<and> ep_peer e = peer"
    and "\<exists>m. obj_at mr (O_mr_local m) t"
proof -
  from over_below [OF assms] obtain t1 where t1: "map_ep E P a peer ep t1" "\<forall>q x. obj_at q x t1 \<longrightarrow> obj_at q x t" by blast
  have "\<exists>p. obj_at peer (O_peer p) t1" using over_live [OF t1(1)] over_top(2) by blast
  with t1(2) show "\<exists>p. obj_at peer (O_peer p) t" by blast
  from over_ep [OF t1(1)] t1(2) show "\<exists>e. obj_at ep (O_ep e) t \<and> ep_peer e = peer" by blast
  from over_top(4) [OF assms] show "\<exists>m. obj_at mr (O_mr_local m) t" .
qed

lemma wp_hash_server_registered:
  assumes r: "map_mr E P a peer ep mr s" and P: "stable E P" and wf: "events_wf E" and data: "data \<noteq> NULL"
    and m: "cm_is_pmem m \<noteq> 0" "cm_mr_ptr m = a" and Q: "\<And>ret s'. P s' \<Longrightarrow> Q ret s'"
  shows "wp (hash_server_registered E mr m ep peer data s) Q"
proof -
  from map_mr_live(3) [OF r] obtain x where x: "obj_at mr (O_mr_local x) s" by blast
  then have nn: "mr \<noteq> NULL" by (rule obj_at_nonnull)
  have desc: "\<exists>b. rpma_mr_get_descriptor mr (Some (replicate 24 0)) s = Some ((0, Some b), s)"
    using rpma_mr_get_descriptor_eq [OF x, of "replicate 24 0"] by (simp add: RPMA_MR_DESC_SIZE_def)
  note [simp del] = neq0_conv
  show ?thesis
    unfolding hash_server_registered_def using nn desc data
    by (auto simp: rpma_mr_get_descriptor_size_def intro!: wp_server_accept_connection [OF mr_scope.stable_over r map_mr_live(2) [OF r] map_mr_live(1) _ _ wf]
        wp_wait_for_conn_close_and_disconnect [OF mr_scope.stable_over _ wf] wp_hash_server_err_mr_dereg [OF _ P m] Q)
qed

lemma wp_hash_server_main:
  assumes P: "stable E P" and s: "P s" and wf: "events_wf E" and data: "data \<noteq> NULL"
    and pmem: "\<And>tr. raddr (respond E tr (Pmem_map_file path)) \<noteq> 0 \<Longrightarrow> rint (respond E tr (Pmem_map_file path)) \<noteq> 0"
    and Q: "\<And>ret s'. P s' \<Longrightarrow> Q ret s'"
    and Q1: "\<And>ret a s'. over owns_map E P a s' \<Longrightarrow> ret \<noteq> 0 \<Longrightarrow> Q ret s'"
  shows "wp (hash_server_main E addr port path data s) Q"
proof -
  have peer: "\<exists>p. obj_at peer (O_peer p) t" if "map_ep E P a peer ep t" for a peer ep t
    using over_live [OF that] over_top(2) by blast
  have nn: "peer \<noteq> NULL" if "map_peer E P a peer t" for a peer t
    using over_top(2) [OF that] obj_at_nonnull by blast
  note [simp del] = neq0_conv
  show ?thesis
    unfolding hash_server_main_def Let_def wp_bind
  proof (rule wp_pmem_map_file [OF P s refl], goal_cases)
    case (1 m s')
    then show ?case
      by (auto intro!: wp_common_peer_via_address [OF map_scope.stable_over 1(1)]
          wp_push_ep [OF peer_scope.stable_over _ nn] wp_push_mr [OF ep_scope.stable_over _ peer]
          wp_hash_server_err_peer_delete [OF _ map_scope.stable_over] wp_hash_server_err_free [OF _ P]
          wp_hash_server_registered [OF _ P wf data] intro: Q Q1)
  next
    case (2 m s')
    then show ?case by (simp add: err_free_nothing Q)
  next
    case (3 m s')
    with pmem show ?case by (auto simp: not_less)
  qed
qed

subsection \<open>Properties\<close>



text \<open>C38: the server frees a mapping. If the file can be mapped but is not persistent memory, the
  mapping is removed and reported as an error, its address stays in the structure, and the cleanup passes
  that address to \<open>free\<close>; unless a heap block happens to be there, this is undefined behaviour.\<close>

theorem hash_server_frees_mapping:
  assumes "r = respond E (trace s) (Pmem_map_file path)" and "raddr r \<noteq> 0" and "rint r = 0"
    and "mem s (unat (raddr r)) = None"
  shows "hash_server_main E addr port path data s = None"
proof -
  have "unat (raddr r) \<noteq> NULL" using assms(2) by (simp add: unsigned_eq_0_iff)
  then show ?thesis
    using assms by (simp add: hash_server_main_def common_pmem_map_file_def ext_def Let_def hash_server_err_free_def release_mem_def free_def)
qed

theorem hash_server_frees_mapping_witness:
  "hash_server_main sample_env ''10.0.0.1'' ''7204'' ''table'' 9 sample_ep_st = None"
  by (rule hash_server_frees_mapping [OF refl]) (simp_all add: sample_respond_def sample_ep_st_def)

end
