(* ===== verification/Log.thy ===== *)
theory Log
  imports Rpma_Prelude
begin

text \<open>
  Logging: \<open>src/src/log.c\<close>, \<open>src/src/log_default.c\<close>, the macro \<open>RPMA_LOG\<close> of
  \<open>src/src/log_internal.h\<close> and the library entry points of \<open>src/src/librpma.c\<close>.
  \<^item> The global variables and what has been written to stderr, to syslog and to user functions are
    one record.
  \<^item> The two setters read a variable and replace it with a compare-and-swap; what other threads do to
    the globals in between is the argument \<open>race\<close>. Their retry loops are partial functions: not
    returning is \<open>None\<close>.
  \<^item> What the C library answers while a message is formatted is the record \<open>fmt\<close>.
\<close>

subsection \<open>Levels, thresholds and the global state\<close>

definition RPMA_LOG_DISABLED :: int where "RPMA_LOG_DISABLED = - 1"
definition RPMA_LOG_LEVEL_FATAL :: int where "RPMA_LOG_LEVEL_FATAL = 0"
definition RPMA_LOG_LEVEL_ERROR :: int where "RPMA_LOG_LEVEL_ERROR = 1"
definition RPMA_LOG_LEVEL_WARNING :: int where "RPMA_LOG_LEVEL_WARNING = 2"
definition RPMA_LOG_LEVEL_NOTICE :: int where "RPMA_LOG_LEVEL_NOTICE = 3"
definition RPMA_LOG_LEVEL_INFO :: int where "RPMA_LOG_LEVEL_INFO = 4"
definition RPMA_LOG_LEVEL_DEBUG :: int where "RPMA_LOG_LEVEL_DEBUG = 5"
definition RPMA_LOG_LEVEL_ALWAYS :: int where "RPMA_LOG_LEVEL_ALWAYS = RPMA_LOG_DISABLED - 1"

lemmas log_levels [simp] = RPMA_LOG_DISABLED_def RPMA_LOG_LEVEL_FATAL_def RPMA_LOG_LEVEL_ERROR_def
  RPMA_LOG_LEVEL_WARNING_def RPMA_LOG_LEVEL_NOTICE_def RPMA_LOG_LEVEL_INFO_def
  RPMA_LOG_LEVEL_DEBUG_def RPMA_LOG_LEVEL_ALWAYS_def

definition RPMA_LOG_THRESHOLD :: int where "RPMA_LOG_THRESHOLD = 0"
definition RPMA_LOG_THRESHOLD_AUX :: int where "RPMA_LOG_THRESHOLD_AUX = 1"

lemmas log_thresholds [simp] = RPMA_LOG_THRESHOLD_def RPMA_LOG_THRESHOLD_AUX_def

datatype rpma_log_function = Default_function | User_function nat

record log_st =
  Rpma_log_function :: "rpma_log_function option"
  Rpma_log_threshold :: "int list"
  syslog_open :: bool
  stderr_out :: "string list"
  syslog_out :: "(int \<times> string) list"
  user_out :: "(nat \<times> int) list"

text \<open>The initial values of the globals, in a debug build and in a production build.\<close>

definition log_globals :: "bool \<Rightarrow> log_st" where
  "log_globals debug_build =
     \<lparr>Rpma_log_function = None,
      Rpma_log_threshold = (if debug_build then [RPMA_LOG_LEVEL_DEBUG, RPMA_LOG_LEVEL_WARNING]
                            else [RPMA_LOG_LEVEL_WARNING, RPMA_LOG_DISABLED]),
      syslog_open = False, stderr_out = [], syslog_out = [], user_out = []\<rparr>"

subsection \<open>Setting the function and the thresholds\<close>

definition cas_log_function ::
  "rpma_log_function option \<Rightarrow> rpma_log_function option \<Rightarrow> log_st \<Rightarrow> bool \<times> log_st" where
  "cas_log_function oldval newval s =
     (if Rpma_log_function s = oldval then (True, s\<lparr>Rpma_log_function := newval\<rparr>) else (False, s))"

definition cas_log_threshold :: "nat \<Rightarrow> int \<Rightarrow> int \<Rightarrow> log_st \<Rightarrow> bool \<times> log_st" where
  "cas_log_threshold i oldval newval s =
     (if Rpma_log_threshold s ! i = oldval
      then (True, s\<lparr>Rpma_log_threshold := (Rpma_log_threshold s)[i := newval]\<rparr>) else (False, s))"

text \<open>\<open>NULL\<close>, here \<open>None\<close>, is \<open>RPMA_LOG_USE_DEFAULT_FUNCTION\<close>.\<close>

definition rpma_log_set_function ::
  "(log_st \<Rightarrow> log_st) \<Rightarrow> rpma_log_function option \<Rightarrow> log_st \<Rightarrow> rc \<times> log_st" where
  "rpma_log_set_function race log_function s =
     (let log_function = (if log_function = None then Some Default_function else log_function);
          log_function_old = Rpma_log_function s;
          (swapped, s) = cas_log_function log_function_old log_function (race s)
      in if swapped then (0, s) else (RPMA_E_AGAIN, s))"

definition rpma_log_get_threshold :: "int \<Rightarrow> int option \<Rightarrow> log_st \<Rightarrow> rc \<times> int option" where
  "rpma_log_get_threshold threshold level s =
     (if threshold \<noteq> RPMA_LOG_THRESHOLD \<and> threshold \<noteq> RPMA_LOG_THRESHOLD_AUX then (RPMA_E_INVAL, level)
      else if level = None then (RPMA_E_INVAL, level)
      else (0, Some (Rpma_log_threshold s ! nat threshold)))"

partial_function (option) get_threshold_loop :: "int \<Rightarrow> int \<Rightarrow> log_st \<Rightarrow> int option" where
  "get_threshold_loop threshold level_old s =
     (let (ret, level) = rpma_log_get_threshold threshold (Some level_old) s in
      if ret = RPMA_E_AGAIN then get_threshold_loop threshold (the level) s else Some (the level))"

definition rpma_log_set_threshold ::
  "(log_st \<Rightarrow> log_st) \<Rightarrow> int \<Rightarrow> int \<Rightarrow> log_st \<Rightarrow> (rc \<times> log_st) option" where
  "rpma_log_set_threshold race threshold level s =
     (if threshold \<noteq> RPMA_LOG_THRESHOLD \<and> threshold \<noteq> RPMA_LOG_THRESHOLD_AUX
      then Some (RPMA_E_INVAL, s)
      else if level < RPMA_LOG_DISABLED \<or> level > RPMA_LOG_LEVEL_DEBUG then Some (RPMA_E_INVAL, s)
      else do {
        level_old \<leftarrow> get_threshold_loop threshold 0 s;
        let (swapped, s) = cas_log_threshold (nat threshold) level_old level (race s);
        if swapped then Some (0, s) else Some (RPMA_E_AGAIN, s)
      })"

subsection \<open>The default logging function\<close>

definition rpma_log_level_names :: "string list" where
  "rpma_log_level_names =
     [''*FATAL* '', ''*ERROR* '', ''*WARN*  '', ''*NOTE*  '', ''*INFO*  '', ''*DEBUG* '']"

definition rpma_log_level_syslog_severity :: "int list" where
  "rpma_log_level_syslog_severity = [2, 3, 4, 5, 6, 7]"

text \<open>Reading a static array; leaving it is undefined behaviour.\<close>

definition index :: "'a list \<Rightarrow> int \<Rightarrow> 'a option" where
  "index xs i = (if 0 \<le> i \<and> i < int (length xs) then Some (xs ! nat i) else None)"

text \<open>Decimal output, \<open>%d\<close>, right-justified to a width with blanks or zeros.\<close>

fun show_nat :: "nat \<Rightarrow> string" where
  "show_nat n = (if n < 10 then [char_of (48 + n)] else show_nat (n div 10) @ [char_of (48 + n mod 10)])"

declare show_nat.simps [simp del]

definition show_int :: "int \<Rightarrow> string" where
  "show_int i = (if i < 0 then CHR ''-'' # show_nat (nat (- i)) else show_nat (nat i))"

definition pad :: "char \<Rightarrow> nat \<Rightarrow> string \<Rightarrow> string" where
  "pad c w s = replicate (w - length s) c @ s"

text \<open>\<open>snprintf\<close> into a buffer of the given size: one byte is for the terminator.\<close>

definition snprintf_buf :: "nat \<Rightarrow> string \<Rightarrow> string" where
  "snprintf_buf n s = take (n - 1) s"

record fmt =
  fmt_message :: "string option"
  fmt_file_info_ok :: bool
  fmt_clock_nsec :: "nat option"
  fmt_date :: "string option"
  fmt_tid :: int

definition rpma_get_timestamp_prefix :: "fmt \<Rightarrow> nat \<Rightarrow> string" where
  "rpma_get_timestamp_prefix f buf_size =
     (let error_message = ''[time error] '' in
      case fmt_clock_nsec f of
        None \<Rightarrow> error_message
      | Some nsec \<Rightarrow>
          (case fmt_date f of
             None \<Rightarrow> error_message
           | Some date \<Rightarrow>
               let usec = nsec div 1000;
                   buf = snprintf_buf buf_size (date @ ''.'' @ pad CHR ''0'' 6 (show_nat usec) @ '' '')
               in if length buf = buf_size then error_message else buf))"

text \<open>The part of a path behind the last slash.\<close>

definition base_name :: "string \<Rightarrow> string" where
  "base_name file_name = rev (takeWhile (\<lambda>c. c \<noteq> CHR ''/'') (rev file_name))"

definition log_file_info :: "fmt \<Rightarrow> string option \<Rightarrow> int \<Rightarrow> string \<Rightarrow> string" where
  "log_file_info f file_name line_no function_name =
     (case file_name of
        None \<Rightarrow> ''''
      | Some file_name \<Rightarrow>
          if fmt_file_info_ok f
          then snprintf_buf 256 (base_name file_name @ '': '' @ pad CHR '' '' 3 (show_int line_no) @ '': ''
                 @ function_name @ '': '')
          else ''[file info error]: '')"

definition rpma_log_default_function ::
  "fmt \<Rightarrow> int \<Rightarrow> string option \<Rightarrow> int \<Rightarrow> string \<Rightarrow> log_st \<Rightarrow> log_st option" where
  "rpma_log_default_function f level file_name line_no function_name s =
     (if level = RPMA_LOG_DISABLED then Some s
      else case fmt_message f of
        None \<Rightarrow> Some s
      | Some m \<Rightarrow> do {
          let message = snprintf_buf 1024 m;
          let file_info = log_file_info f file_name line_no function_name;
          s \<leftarrow> (if level \<le> Rpma_log_threshold s ! nat RPMA_LOG_THRESHOLD_AUX \<or> level = RPMA_LOG_LEVEL_ALWAYS
               then do {
                 let times_tamp = rpma_get_timestamp_prefix f 45;
                 name \<leftarrow> index rpma_log_level_names
                   (if level = RPMA_LOG_LEVEL_ALWAYS then RPMA_LOG_LEVEL_DEBUG else level);
                 Some (s\<lparr>stderr_out := (times_tamp @ ''['' @ show_int (fmt_tid f) @ ''] '' @ name @ file_info
                   @ message) # stderr_out s\<rparr>)
               } else Some s);
          if level = RPMA_LOG_LEVEL_ALWAYS then Some s
          else do {
            severity \<leftarrow> index rpma_log_level_syslog_severity level;
            name \<leftarrow> index rpma_log_level_names level;
            Some (s\<lparr>syslog_out := (severity, name @ file_info @ message) # syslog_out s\<rparr>)
          }
        })"

definition rpma_log_default_init :: "log_st \<Rightarrow> log_st" where
  "rpma_log_default_init s = s\<lparr>syslog_open := True\<rparr>"

definition rpma_log_default_fini :: "log_st \<Rightarrow> log_st" where
  "rpma_log_default_fini s = s\<lparr>syslog_open := False\<rparr>"

definition RPMA_LOG :: "fmt \<Rightarrow> int \<Rightarrow> string \<Rightarrow> int \<Rightarrow> string \<Rightarrow> log_st \<Rightarrow> log_st option" where
  "RPMA_LOG f level file line func s =
     (if level \<le> Rpma_log_threshold s ! nat RPMA_LOG_THRESHOLD \<and> Rpma_log_function s \<noteq> None
      then (case the (Rpma_log_function s) of
              Default_function \<Rightarrow> rpma_log_default_function f level (Some file) line func s
            | User_function n \<Rightarrow> Some (s\<lparr>user_out := (n, level) # user_out s\<rparr>))
      else Some s)"

subsection \<open>Start and end of the library\<close>

text \<open>\<open>races n\<close> is what other threads do during the \<open>n\<close>-th attempt.\<close>

partial_function (option) log_init_loop :: "(nat \<Rightarrow> log_st \<Rightarrow> log_st) \<Rightarrow> nat \<Rightarrow> log_st \<Rightarrow> log_st option" where
  "log_init_loop races n s =
     (let (ret, s) = rpma_log_set_function (races n) None s in
      if ret = RPMA_E_AGAIN then log_init_loop races (Suc n) s else Some s)"

definition rpma_log_init :: "(nat \<Rightarrow> log_st \<Rightarrow> log_st) \<Rightarrow> log_st \<Rightarrow> log_st option" where
  "rpma_log_init races s = log_init_loop races 0 (rpma_log_default_init s)"

definition rpma_log_fini :: "log_st \<Rightarrow> log_st" where
  "rpma_log_fini s = rpma_log_default_fini (s\<lparr>Rpma_log_function := None\<rparr>)"

definition librpma_init :: "(nat \<Rightarrow> log_st \<Rightarrow> log_st) \<Rightarrow> log_st \<Rightarrow> log_st option" where
  "librpma_init races s = rpma_log_init races s"

definition librpma_fini :: "log_st \<Rightarrow> log_st" where
  "librpma_fini s = rpma_log_fini s"

subsection \<open>The setters\<close>

lemma get_threshold_loop_returns:
  "threshold \<in> {RPMA_LOG_THRESHOLD, RPMA_LOG_THRESHOLD_AUX} \<Longrightarrow>
    get_threshold_loop threshold x s = Some (Rpma_log_threshold s ! nat threshold)"
  by (subst get_threshold_loop.simps) (auto simp: rpma_log_get_threshold_def)

definition log_inv :: "log_st \<Rightarrow> bool" where
  "log_inv s \<longleftrightarrow> length (Rpma_log_threshold s) = 2 \<and>
     (\<forall>l\<in>set (Rpma_log_threshold s). RPMA_LOG_DISABLED \<le> l \<and> l \<le> RPMA_LOG_LEVEL_DEBUG)"

lemma log_inv_globals: "log_inv (log_globals b)"
  by (simp add: log_inv_def log_globals_def)

text \<open>Setting a threshold always returns. Anything but the two thresholds and the seven levels is
  refused with \<open>RPMA_E_INVAL\<close> and changes nothing. Otherwise the result is 0 exactly when no other
  thread has changed this threshold since it was read, and then it has the new level and everything
  else is untouched; with \<open>RPMA_E_AGAIN\<close> the state is the one the other threads left.\<close>

lemma log_set_threshold_contract:
  "rpma_log_set_threshold race threshold level s = Some
    (if threshold \<in> {0, 1} \<and> level \<in> {- 1..5}
     then if Rpma_log_threshold (race s) ! nat threshold = Rpma_log_threshold s ! nat threshold
       then (0, (race s)\<lparr>Rpma_log_threshold := (Rpma_log_threshold (race s))[nat threshold := level]\<rparr>)
       else (RPMA_E_AGAIN, race s)
     else (RPMA_E_INVAL, s))"
  by (auto simp: rpma_log_set_threshold_def get_threshold_loop_returns cas_log_threshold_def)

text \<open>Starting the library ends. If in one of the attempts no other thread changes the logging
  function between the read and the swap, the constructor returns, with syslog opened and the
  default logging function installed by the first such attempt.\<close>

lemma librpma_init_terminates:
  assumes "\<And>s. Rpma_log_function (races n s) = Rpma_log_function s"
  shows "\<exists>s'. librpma_init races s = Some s' \<and> Rpma_log_function s' = Some Default_function"
proof -
  have "\<exists>s'. log_init_loop races m t = Some s' \<and> Rpma_log_function s' = Some Default_function"
    if "m \<le> n" for m t
    using that
  proof (induction "n - m" arbitrary: m t)
    case 0
    then show ?case
      using assms by (subst log_init_loop.simps)
        (auto simp: rpma_log_set_function_def cas_log_function_def Let_def)
  next
    case (Suc k)
    then have "\<exists>s'. log_init_loop races (Suc m) (races m t) = Some s' \<and> Rpma_log_function s' = Some Default_function"
      by simp
    then show ?case
      by (subst log_init_loop.simps) (auto simp: rpma_log_set_function_def cas_log_function_def Let_def)
  qed
  then show ?thesis by (simp add: librpma_init_def rpma_log_init_def)
qed

subsection \<open>What a message produces\<close>

lemma index_names: "0 \<le> l \<Longrightarrow> l \<le> 5 \<Longrightarrow> index rpma_log_level_names l = Some (rpma_log_level_names ! nat l)"
proof -
  assume "0 \<le> l" "l \<le> 5"
  then have "l \<in> {0, 1, 2, 3, 4, 5}" by auto
  then show ?thesis by (auto simp: index_def rpma_log_level_names_def)
qed

lemma index_severity: "0 \<le> l \<Longrightarrow> l \<le> 5 \<Longrightarrow> index rpma_log_level_syslog_severity l = Some (l + 2)"
proof -
  assume "0 \<le> l" "l \<le> 5"
  then have "l \<in> {0, 1, 2, 3, 4, 5}" by auto
  then show ?thesis by (auto simp: index_def rpma_log_level_syslog_severity_def)
qed

text \<open>A message goes where the thresholds say and nowhere else. Logging at one of the six levels
  never leaves the tables of names and severities. With the default function installed, a message
  above the main threshold, or one that cannot be formatted, is dropped; any other is written to
  syslog once, with the severity and the name of its level and the file information in front of it,
  and to stderr once exactly if its level is within the auxiliary threshold. The thresholds and the
  function are not changed.\<close>

lemma log_message_routing:
  assumes "0 \<le> level" and "level \<le> 5" and "Rpma_log_function s = Some Default_function"
  shows "\<exists>s'. RPMA_LOG f level file line func s = Some s' \<and>
    Rpma_log_threshold s' = Rpma_log_threshold s \<and> Rpma_log_function s' = Rpma_log_function s \<and>
    (if level \<le> Rpma_log_threshold s ! 0 \<and> fmt_message f \<noteq> None
     then let txt = rpma_log_level_names ! nat level @ log_file_info f (Some file) line func @ take 1023 (the (fmt_message f))
       in syslog_out s' = (level + 2, txt) # syslog_out s \<and>
         stderr_out s' = (if level \<le> Rpma_log_threshold s ! 1
           then [rpma_get_timestamp_prefix f 45 @ ''['' @ show_int (fmt_tid f) @ ''] '' @ txt] else []) @ stderr_out s
     else s' = s)"
proof (cases "level \<le> Rpma_log_threshold s ! 1")
  case True
  then show ?thesis
    using index_names [OF assms(1,2)] index_severity [OF assms(1,2)] assms
    by (auto simp: RPMA_LOG_def rpma_log_default_function_def Let_def snprintf_buf_def split: option.splits)
next
  case False
  then show ?thesis
    using index_names [OF assms(1,2)] index_severity [OF assms(1,2)] assms
    by (auto simp: RPMA_LOG_def rpma_log_default_function_def Let_def snprintf_buf_def split: option.splits)
qed

subsection \<open>Threads\<close>

text \<open>
  Any number of threads call the setters. A call is two steps, the read of the variable and the
  compare-and-swap, and the steps of different threads interleave freely. \<open>calls\<close> records the
  successful calls, latest first, each with the value it has read.
\<close>

datatype log_pc =
    Idle
  | Read_function "rpma_log_function option" "rpma_log_function option"
  | Read_threshold nat int int

datatype log_call = Set_function "rpma_log_function option" "rpma_log_function option" | Set_threshold nat int int

record log_sys =
  globals :: log_st
  pcs :: "nat \<Rightarrow> log_pc"
  calls :: "log_call list"

inductive log_step :: "log_sys \<Rightarrow> log_sys \<Rightarrow> bool" where
  read_function: "pcs s i = Idle \<Longrightarrow> f' = (if f = None then Some Default_function else f) \<Longrightarrow>
     log_step s (s\<lparr>pcs := (pcs s)(i := Read_function (Rpma_log_function (globals s)) f')\<rparr>)"
| read_threshold: "pcs s i = Idle \<Longrightarrow> t \<in> {0, 1} \<Longrightarrow> level \<in> {RPMA_LOG_DISABLED..RPMA_LOG_LEVEL_DEBUG} \<Longrightarrow>
     log_step s (s\<lparr>pcs := (pcs s)(i := Read_threshold t (Rpma_log_threshold (globals s) ! t) level)\<rparr>)"
| swap_function: "pcs s i = Read_function old new \<Longrightarrow> cas_log_function old new (globals s) = (True, g) \<Longrightarrow>
     log_step s (s\<lparr>globals := g, pcs := (pcs s)(i := Idle), calls := Set_function old new # calls s\<rparr>)"
| swap_threshold: "pcs s i = Read_threshold t old new \<Longrightarrow> cas_log_threshold t old new (globals s) = (True, g) \<Longrightarrow>
     log_step s (s\<lparr>globals := g, pcs := (pcs s)(i := Idle), calls := Set_threshold t old new # calls s\<rparr>)"
| again_function: "pcs s i = Read_function old new \<Longrightarrow> cas_log_function old new (globals s) = (False, g) \<Longrightarrow>
     log_step s (s\<lparr>globals := g, pcs := (pcs s)(i := Idle)\<rparr>)"
| again_threshold: "pcs s i = Read_threshold t old new \<Longrightarrow> cas_log_threshold t old new (globals s) = (False, g) \<Longrightarrow>
     log_step s (s\<lparr>globals := g, pcs := (pcs s)(i := Idle)\<rparr>)"

inductive log_reachable :: "log_sys \<Rightarrow> log_sys \<Rightarrow> bool" for s where
  start: "log_reachable s s"
| step: "log_reachable s t \<Longrightarrow> log_step t t' \<Longrightarrow> log_reachable s t'"

definition log_start :: "log_st \<Rightarrow> log_sys" where
  "log_start g = \<lparr>globals = g, pcs = (\<lambda>_. Idle), calls = []\<rparr>"

text \<open>The specification: the successful calls one after the other, each running undisturbed from its
  beginning to its end, on a state in which it reads the value that it has read.\<close>

fun atomic_call :: "log_call \<Rightarrow> log_st \<Rightarrow> log_st option" where
  "atomic_call (Set_function old new) s =
     (if Rpma_log_function s = old then Some (snd (rpma_log_set_function (\<lambda>s. s) new s)) else None)"
| "atomic_call (Set_threshold t old new) s =
     (if Rpma_log_threshold s ! t = old
      then map_option snd (rpma_log_set_threshold (\<lambda>s. s) (int t) new s) else None)"

primrec one_at_a_time :: "log_call list \<Rightarrow> log_st \<Rightarrow> log_st option" where
  "one_at_a_time [] s = Some s"
| "one_at_a_time (c # cs) s = one_at_a_time cs s \<bind> atomic_call c"

definition pcs_ok :: "log_sys \<Rightarrow> bool" where
  "pcs_ok s \<longleftrightarrow> (\<forall>i. case pcs s i of
       Idle \<Rightarrow> True
     | Read_function old new \<Rightarrow> new \<noteq> None
     | Read_threshold t old new \<Rightarrow> t \<in> {0, 1} \<and> new \<in> {RPMA_LOG_DISABLED..RPMA_LOG_LEVEL_DEBUG})"

lemma pcs_ok_update:
  "pcs_ok s \<Longrightarrow> pcs_ok (s\<lparr>globals := g, pcs := (pcs s)(i := Idle), calls := w\<rparr>)"
  "pcs_ok s \<Longrightarrow> pcs_ok (s\<lparr>globals := g, pcs := (pcs s)(i := Idle)\<rparr>)"
  by (auto simp: pcs_ok_def)

lemma pcs_ok_threshold: "pcs_ok s \<Longrightarrow> pcs s i = Read_threshold t old new \<Longrightarrow> t \<in> {0, 1} \<and> - 1 \<le> new \<and> new \<le> 5"
  by (auto simp: pcs_ok_def dest!: spec [of _ i])

lemma pcs_ok_function: "pcs_ok s \<Longrightarrow> pcs s i = Read_function old new \<Longrightarrow> new \<noteq> None"
  by (auto simp: pcs_ok_def dest!: spec [of _ i])

lemma log_inv_write: "log_inv s \<Longrightarrow> - 1 \<le> l \<Longrightarrow> l \<le> 5 \<Longrightarrow> log_inv (s\<lparr>Rpma_log_threshold := (Rpma_log_threshold s)[t := l]\<rparr>)"
  using set_update_subset_insert [of "Rpma_log_threshold s" t l] by (auto simp: log_inv_def)

text \<open>A successful swap is the whole call, run at the moment of the swap.\<close>

lemma swap_function_atomic:
  "cas_log_function old new s = (True, s') \<Longrightarrow> new \<noteq> None \<Longrightarrow> atomic_call (Set_function old new) s = Some s'"
  by (auto simp: cas_log_function_def rpma_log_set_function_def Let_def split: if_splits)

lemma swap_threshold_atomic:
  assumes "cas_log_threshold t old new s = (True, s')" and "t \<in> {0, 1} \<and> - 1 \<le> new \<and> new \<le> 5"
  shows "atomic_call (Set_threshold t old new) s = Some s'"
proof -
  from assms(2) have "int t \<in> {RPMA_LOG_THRESHOLD, RPMA_LOG_THRESHOLD_AUX}" by auto
  then show ?thesis
    using assms by (auto simp: cas_log_threshold_def rpma_log_set_threshold_def get_threshold_loop_returns split: if_splits)
qed

definition log_sys_inv :: "log_st \<Rightarrow> log_sys \<Rightarrow> bool" where
  "log_sys_inv g s \<longleftrightarrow> log_inv (globals s) \<and> pcs_ok s \<and> one_at_a_time (calls s) g = Some (globals s)"

lemma log_step_inv:
  assumes "log_step s s'" and inv: "log_sys_inv g s"
  shows "log_sys_inv g s'"
  using assms(1)
proof (cases rule: log_step.cases)
  case (read_function i f' f)
  then show ?thesis using inv by (auto simp: log_sys_inv_def pcs_ok_def)
next
  case (read_threshold i t level)
  then show ?thesis using inv by (auto simp: log_sys_inv_def pcs_ok_def)
next
  case (swap_function i old new g')
  moreover have "atomic_call (Set_function old new) (globals s) = Some g'"
    using swap_function inv by (intro swap_function_atomic) (auto simp: log_sys_inv_def dest: pcs_ok_function)
  moreover have "log_inv g'"
    using swap_function inv by (auto simp: log_sys_inv_def cas_log_function_def log_inv_def split: if_splits)
  ultimately show ?thesis using inv by (auto simp: log_sys_inv_def pcs_ok_update simp del: atomic_call.simps)
next
  case (swap_threshold i t old new g')
  have range: "t \<in> {0, 1} \<and> - 1 \<le> new \<and> new \<le> 5"
    using swap_threshold inv by (auto simp: log_sys_inv_def dest: pcs_ok_threshold)
  moreover have "log_inv g'"
    using range swap_threshold inv by (auto simp: log_sys_inv_def cas_log_threshold_def log_inv_write split: if_splits)
  ultimately show ?thesis
    using swap_threshold inv swap_threshold_atomic [of t old new "globals s" g']
    by (auto simp: log_sys_inv_def pcs_ok_update simp del: atomic_call.simps)
next
  case (again_function i old new g')
  then show ?thesis using inv by (auto simp: log_sys_inv_def cas_log_function_def pcs_ok_update split: if_splits)
next
  case (again_threshold i t old new g')
  then show ?thesis using inv by (auto simp: log_sys_inv_def cas_log_threshold_def pcs_ok_update split: if_splits)
qed



text \<open>Progress: a threshold changes only through a successful call for it.\<close>

lemma log_step_calls:
  assumes "log_step s s'"
  shows "\<exists>cs. calls s' = cs @ calls s \<and>
    (Rpma_log_threshold (globals s') ! t \<noteq> Rpma_log_threshold (globals s) ! t \<longrightarrow> (\<exists>old new. Set_threshold t old new \<in> set cs)) \<and>
    (Rpma_log_function (globals s') \<noteq> Rpma_log_function (globals s) \<longrightarrow> (\<exists>old new. Set_function old new \<in> set cs))"
  using assms
proof (cases rule: log_step.cases)
  case (swap_function i old new g)
  then show ?thesis by (intro exI [of _ "[Set_function old new]"]) (auto simp: cas_log_function_def split: if_splits)
next
  case (swap_threshold i t' old new g)
  then show ?thesis
    by (intro exI [of _ "[Set_threshold t' old new]"]; cases "t = t'") (auto simp: cas_log_threshold_def split: if_splits)
qed (auto simp: cas_log_function_def cas_log_threshold_def split: if_splits)

lemma log_reachable_calls:
  assumes "log_reachable s s'"
  shows "\<exists>cs. calls s' = cs @ calls s \<and>
    (Rpma_log_threshold (globals s') ! t \<noteq> Rpma_log_threshold (globals s) ! t \<longrightarrow> (\<exists>old new. Set_threshold t old new \<in> set cs)) \<and>
    (Rpma_log_function (globals s') \<noteq> Rpma_log_function (globals s) \<longrightarrow> (\<exists>old new. Set_function old new \<in> set cs))"
  using assms
proof induction
  case (step u v)
  from log_step_calls [OF step.hyps(2), of t] obtain ds where
    "calls v = ds @ calls u"
    "Rpma_log_threshold (globals v) ! t \<noteq> Rpma_log_threshold (globals u) ! t \<Longrightarrow> \<exists>old new. Set_threshold t old new \<in> set ds"
    "Rpma_log_function (globals v) \<noteq> Rpma_log_function (globals u) \<Longrightarrow> \<exists>old new. Set_function old new \<in> set ds" by blast
  moreover from step.IH obtain cs where
    "calls u = cs @ calls s"
    "Rpma_log_threshold (globals u) ! t \<noteq> Rpma_log_threshold (globals s) ! t \<Longrightarrow> \<exists>old new. Set_threshold t old new \<in> set cs"
    "Rpma_log_function (globals u) \<noteq> Rpma_log_function (globals s) \<Longrightarrow> \<exists>old new. Set_function old new \<in> set cs" by blast
  ultimately show ?case by (intro exI [of _ "ds @ cs"]) fastforce
qed simp



end
