(* ===== verification/Fault.thy ===== *)
theory Fault
  imports Rpma_Prelude
begin

text \<open>
  Fault injection: \<open>src/src/debug.c\<close>. The two static variables of \<open>rpma_fault_injection\<close> are
  a record that is passed along; the environment is the argument \<open>env\<close>, the value of the variable
  \<open>RPMA_FAULT_INJECTION\<close>. Incrementing the counter past the largest \<open>int\<close> is undefined behaviour
  (\<open>None\<close>).
\<close>

subsection \<open>\<open>atoi(3)\<close>\<close>

definition digit_of :: "char \<Rightarrow> int option" where
  "digit_of c = (let n = of_char c :: int in if 48 \<le> n \<and> n \<le> 57 then Some (n - 48) else None)"

fun digits_value :: "string \<Rightarrow> int \<Rightarrow> int" where
  "digits_value [] acc = acc"
| "digits_value (c # cs) acc =
     (case digit_of c of None \<Rightarrow> acc | Some d \<Rightarrow> digits_value cs (10 * acc + d))"

definition is_space :: "char \<Rightarrow> bool" where
  "is_space c = (let n = of_char c :: int in n = 32 \<or> 9 \<le> n \<and> n \<le> 13)"

definition strtol10 :: "string \<Rightarrow> int" where
  "strtol10 s =
     (let s = dropWhile is_space s;
          v = (case s of
                 c # cs \<Rightarrow> if c = CHR ''-'' then - digits_value cs 0
                           else if c = CHR ''+'' then digits_value cs 0 else digits_value s 0
               | [] \<Rightarrow> 0)
      in max (- (2 ^ 63)) (min (2 ^ 63 - 1) v))"

text \<open>The conversion of the \<open>long\<close> to \<open>int\<close> keeps the low 32 bits.\<close>

definition atoi :: "string \<Rightarrow> int" where
  "atoi s = signed_take_bit 31 (strtol10 s)"

subsection \<open>The operation\<close>

record fault_st =
  counter :: int
  fault_injection :: int

definition fault_init :: fault_st where
  "fault_init = \<lparr>counter = 0, fault_injection = 0\<rparr>"

definition fault_read_env :: "string option \<Rightarrow> fault_st \<Rightarrow> fault_st" where
  "fault_read_env env s =
     (if counter s = 0 \<and> env \<noteq> None
      then let s = s\<lparr>fault_injection := atoi (the env)\<rparr> in
           if fault_injection s \<le> 0 then s\<lparr>fault_injection := 0, counter := 1\<rparr> else s
      else s)"

definition rpma_fault_injection ::
  "string option \<Rightarrow> int \<Rightarrow> fault_st \<Rightarrow> ((int \<times> int) \<times> fault_st) option" where
  "rpma_fault_injection env val s =
     (let s = fault_read_env env s in
      if fault_injection s \<noteq> 0 then
        (if counter s = 2 ^ 31 - 1 then None
         else let s = s\<lparr>counter := counter s + 1\<rparr>; val = counter s in
              if counter s = fault_injection s then Some ((- 1, val), s) else Some ((0, val), s))
      else Some ((0, val), s))"

text \<open>The results of \<open>n\<close> calls in a row.\<close>

fun fault_calls :: "nat \<Rightarrow> string option \<Rightarrow> fault_st \<Rightarrow> int list option" where
  "fault_calls 0 env s = Some []"
| "fault_calls (Suc n) env s = do {
     ((ret, _), s) \<leftarrow> rpma_fault_injection env 0 s;
     rs \<leftarrow> fault_calls n env s;
     Some (ret # rs)
   }"

subsection \<open>Which call fails\<close>

text \<open>The states between calls: \<open>i\<close> calls have been made.\<close>

definition fault_inv :: "string option \<Rightarrow> nat \<Rightarrow> fault_st \<Rightarrow> bool" where
  "fault_inv env i s \<longleftrightarrow>
     (if env = None then counter s = 0 \<and> fault_injection s = 0
      else if i = 0 then s = fault_init
      else if atoi (the env) \<le> 0 then counter s = 1 \<and> fault_injection s = 0
      else counter s = int i \<and> fault_injection s = atoi (the env))"

definition fails_at :: "string option \<Rightarrow> nat \<Rightarrow> bool" where
  "fails_at env i \<longleftrightarrow> env \<noteq> None \<and> atoi (the env) = int i"

lemma fault_step:
  assumes "fault_inv env i s" and "Suc i < 2 ^ 31"
  shows "\<exists>v s'. rpma_fault_injection env 0 s = Some ((if fails_at env (Suc i) then - 1 else 0, v), s') \<and>
    fault_inv env (Suc i) s'"
proof (cases env)
  case None
  with assms(1) show ?thesis
    by (simp add: rpma_fault_injection_def fault_read_env_def fault_inv_def fails_at_def)
next
  case (Some e)
  have i: "int i \<noteq> 2147483647" using assms(2) by auto
  consider "i = 0" "atoi e \<le> 0" | "i = 0" "atoi e > 0" | "i > 0" "atoi e \<le> 0" | "i > 0" "atoi e > 0" by linarith
  then show ?thesis
    by cases (use assms(1) Some i in \<open>auto simp: rpma_fault_injection_def fault_read_env_def fault_inv_def
      fails_at_def fault_init_def Let_def\<close>)
qed

lemma fault_calls_from:
  "fault_inv env i s \<Longrightarrow> i + n < 2 ^ 31 \<Longrightarrow>
    fault_calls n env s = Some (map (\<lambda>j. if fails_at env j then - 1 else 0) [Suc i..<Suc (i + n)])"
proof (induction n arbitrary: i s)
  case 0
  then show ?case by simp
next
  case (Suc n)
  then have "Suc i < 2 ^ 31" by simp
  from fault_step [OF Suc.prems(1) this] obtain v s' where
    s': "rpma_fault_injection env 0 s = Some ((if fails_at env (Suc i) then - 1 else 0, v), s')"
    "fault_inv env (Suc i) s'" by blast
  have "[Suc i..<Suc (i + Suc n)] = Suc i # [Suc (Suc i)..<Suc (Suc i + n)]"
    by (simp add: upt_conv_Cons)
  with s' Suc.IH [OF s'(2)] Suc.prems show ?case by simp
qed

text \<open>Fault injection hits one call and no other. With \<open>RPMA_FAULT_INJECTION\<close> set to a positive
  number exactly the call with that number fails; without the variable, or with a value that is not
  positive or not a number, no call ever does.\<close>

lemma fault_injection_hits_one_call:
  assumes "n < 2 ^ 31"
  shows "fault_calls n env fault_init =
    Some (map (\<lambda>j. if env \<noteq> None \<and> atoi (the env) = int j then - 1 else 0) [1..<Suc n])"
proof -
  have "fault_inv env 0 fault_init" by (simp add: fault_inv_def fault_init_def)
  from fault_calls_from [OF this, of n] assms show ?thesis by (simp add: fails_at_def)
qed

end
