(* ===== verification/Spec2Isabelle.thy ===== *)
theory Spec2Isabelle
  imports Typing Multi_Server_Full Multi_Server_Shared Programs Log_Props Hash_Client Hash_Server Log Fault
begin

text \<open>
  A verification development for librpma, the library for remote access to persistent memory over
  RDMA (\<open>src/src\<close>), for the remote hash table of this repository that is built on it
  (\<open>src/examples/hash\<close>): a hopscotch table, its image in persistent memory, and the server and
  the client through which it is read over RDMA; and for the example programs (\<open>src/examples\<close>), each of
  which is a client and a server that use the library in one way.

  \<^bold>\<open>The program.\<close> A \<^emph>\<open>peer\<close> wraps a protection domain of a device; memory is registered and
  queue pairs are created through it. The active side makes a \<^emph>\<open>connection request\<close> from an
  address, the passive side gets one from an \<^emph>\<open>endpoint\<close> it listens on; both exchange the request
  for a \<^emph>\<open>connection\<close>, which owns a CM ID with its queue pair, an event channel, one or two
  \<^emph>\<open>completion queues\<close>, perhaps a completion channel the two share, a \<^emph>\<open>flushing object\<close> and the
  private data the other side sent. Registered memory is described to the other side by a
  \<^emph>\<open>descriptor\<close>; reads, writes, atomic writes, flushes and messages are work requests posted on
  the queue pair of a connection. \<^emph>\<open>Configurations\<close> of peers and connections are small objects of
  their own. Logging and fault injection keep process-wide variables.
  The remote hash table works as follows: \<open>writehash.c\<close> inserts the keys of a trace into a hopscotch
  table and writes its buckets as fixed-size records into a file in persistent memory;
  \<open>hashserver.c\<close> maps the file, registers it and sends its descriptor as private data of a
  connection; \<open>singlehashclient.c\<close> makes a remote region of the descriptor and answers each lookup
  from the segment of records that one RDMA read fetches.

  \<^bold>\<open>The model.\<close> Every function of the source is a definition of the same name, static ones
  included, and every \<open>goto\<close> label is a definition whose name ends with the label's.
  \<^item> \<open>Rpma_Prelude\<close>: machine types, return codes, the weakest precondition \<open>wp\<close> of a
    computation of type \<open>('a \<times> 's) option\<close>, and little-endian bytes. \<open>None\<close> is undefined
    behaviour, and \<open>wp\<close> is total: whatever is stated with it includes that the code neither
    touches a freed object nor frees one twice, and that it returns.
  \<^item> \<open>Rpma_World\<close>: the structures of the library as records in one heap \<open>mem\<close>; the calls to
    libibverbs, librdmacm and the operating system as values of \<open>call\<close>, recorded in \<open>trace\<close> with
    their answers. What a call answers is \<open>respond E\<close> applied to the history before it, an
    arbitrary function: a theorem for all \<open>E\<close> holds for every behaviour of the provider,
    failures at any point included. \<open>acct\<close> is the multiset of provider resources that the
    recorded calls took and have not given back, \<open>ledger_ok\<close> says that none was given back
    while it was not held.
  \<^item> \<open>Sample\<close>: a concrete provider and concrete states on which theorems with hypotheses are
    applied.
  \<^item> \<open>Lifecycle\<close>: the contract of an object with its clients, a locale over a constructor and a
    destructor, interpreted for completion queues, peers, memory regions, flushing objects and
    endpoints; its lemmas say that any number of rounds leaves no trace.
  \<^item> \<open>Cq\<close> (\<open>cq.c\<close>), \<open>Conn_Cfg\<close> (\<open>conn_cfg.c\<close>, \<open>common.h\<close>), \<open>Peer_Cfg\<close> (\<open>peer_cfg.c\<close>),
    \<open>Private_Data\<close> (\<open>private_data.c\<close>), \<open>Info\<close> (\<open>info.c\<close>), \<open>Utils\<close> (\<open>utils.c\<close>,
    \<open>rpma_err.c\<close>), \<open>Peer\<close> (\<open>peer.c\<close>), \<open>Mr\<close> (\<open>mr.c\<close>), \<open>Flush\<close> (\<open>flush.c\<close>), \<open>Ep\<close>
    (\<open>ep.c\<close>): one theory per source file, with its operations, a specification of each as a
    \<open>wp\<close> rule, and its properties.
  \<^item> \<open>Conn\<close>, \<open>Conn_Life\<close>, \<open>Conn_Props\<close> (\<open>conn.c\<close>) and \<open>Conn_Req\<close>, \<open>Conn_Req_Life\<close>,
    \<open>Conn_Req_Props\<close> (\<open>conn_req.c\<close>): the operations, what an object owns and how ownership
    passes from a request to a connection, and the properties.
  \<^item> \<open>Conn_Use\<close>, \<open>Scopes\<close>: the rules by which client programs are verified. A program holds
    objects in nested scopes (peers, regions, endpoints, the connection, plain blocks); the locale
    \<open>scoped\<close> says what a kind of object owns and how its destructor gives it back, and is
    interpreted for each kind. \<open>owns_conn_of E\<close> also records that the private data a connection
    holds are those the provider delivered, which a client that parses them relies on.
  \<^item> \<open>Common_Conn\<close> (\<open>examples/common/common-conn.c\<close>) and \<open>Ex_Connection\<close>
    (\<open>examples/01-connection\<close>): the helpers of the example programs and the \<open>main\<close> functions of
    a client and a server, composed of the operations above.
  \<^item> \<open>Library_Calls\<close>, \<open>Conn_Pool\<close>, \<open>Program_Rules\<close>: which calls to the provider are the library's own and which a program's, pools of
    any number of connections, and the operations of the library as rules over a stack of scopes, with
    what is alive in it and which changes in place it allows.
  \<^item> \<open>Typing\<close>: the kinds of structures in the heap and what they refer to, and sequences of calls with arguments of
    the declared types.
  \<^item> Persistent memory: \<open>Hello\<close> (\<open>common-hello.c\<close>), \<open>Pmem_Map\<close> (\<open>common-pmem_map_file.c\<close>,
    \<open>common-map_file_with_signature_check.c\<close>; a file as its contents and the stores and persists since, and what a power failure may leave),
    \<open>Region\<close> and \<open>Shared_Memory\<close> (the memory of a program, mapped or allocated, and the description of a region that is
    sent to the other side).
  \<^item> Examples with persistent memory: \<open>Read_Volatile\<close> (\<open>02\<close>), \<open>Read_Persistent\<close> (\<open>03\<close>), \<open>Write_Persistent\<close> (\<open>04\<close>),
    \<open>Flush_Persistent\<close> (\<open>05\<close>), their properties in \<open>Persistent_Props\<close>; \<open>Atomic_Write\<close>, \<open>Log_Server\<close> (\<open>07\<close>, a log in remote
    memory), with the work requests as writes to memory in \<open>Atomic_Write_Props\<close> and \<open>Log_Props\<close>;
    \<open>Flush_Messages\<close>, \<open>Gpspm\<close>, \<open>Gpspm_Props\<close>, \<open>Gpspm_Shared\<close> (\<open>09\<close> and \<open>09s\<close>: flushing by a message to the
    server; libprotobuf-c is the locale \<open>protobuf_library\<close>).
  \<^item> Examples with messages: \<open>Strtoul\<close> (numbers on the command line), \<open>Messages\<close> (the loops, with the locales
    \<open>counter_client\<close> and \<open>counter_server\<close> for their bodies), \<open>Ping_Pong\<close> and \<open>Ping_Pong_Props\<close> (\<open>08\<close>), \<open>Receive_Cq\<close> (\<open>12\<close>),
    \<open>Receive_Cq_Shared\<close> (\<open>12s\<close>), \<open>Immediate\<close> and \<open>Immediate_Props\<close> (\<open>10\<close> and \<open>11\<close>).
  \<^item> The server with many connections: \<open>Common_Epoll\<close> (\<open>common-epoll.c\<close>), \<open>Multi_Server\<close> (\<open>06-multiple-connections/server.c\<close>: slots, callbacks,
    the event loop), its invariant in \<open>Multi_Server_Inv\<close>, the whole program in \<open>Multi_Server_Props\<close>, and the case of more clients than
    slots in \<open>Multi_Server_Full\<close>; \<open>Multi_Server_Shared\<close> (the server of \<open>06s\<close>); \<open>Multi_Client\<close> (the clients of \<open>06\<close> and \<open>06s\<close>).
  \<^item> \<open>Programs\<close>: what all these clients and servers leave behind.
  \<^item> \<open>Log\<close> (\<open>log.c\<close>, \<open>log_default.c\<close>, \<open>log_internal.h\<close>, \<open>librpma.c\<close>): the globals, the
    setters with their compare-and-swap, the steps of any number of threads as an inductive
    relation, and the default logging function.
  \<^item> \<open>Fault\<close> (\<open>debug.c\<close>): the fault counter.
  \<^item> \<open>Hopscotch\<close>, \<open>Hopscotch_Inv\<close>, \<open>Hopscotch_Ops\<close>, \<open>Hopscotch_Props\<close>: the hash table, its
    invariant, the operations as operations on a map, and the locale \<open>keyed_store\<close>, the contract
    with a client, interpreted on the table.
  \<^item> \<open>Segment\<close>, \<open>Segment_Props\<close> (\<open>writehash.c\<close>, \<open>readhash.c\<close>): C strings and decimal numbers, the
    image of a table as a list of bytes, writing it and looking a key up in it, in mapped memory
    or in a fetched segment.
  \<^item> \<open>Hash_Client\<close> (\<open>singlehashclient.c\<close>) and \<open>Hash_Server\<close> (\<open>hashserver.c\<close>,
    \<open>common-pmem_map_file.c\<close>): the two programs, composed of the operations of the library and of
    the lookup in a segment; a mapped file is a scope like the other objects.

  \<^bold>\<open>What is shown.\<close>
  \<^item> Resources: constructors deliver a complete object or leave heap and ledger as they were,
    destructors release everything exactly once on every error path; composed, a whole client
    leaves no trace, and a server at most the CM ID of a request that was not accepted, and for the
    hash server the mapping of its file, whose address it gives to \<open>free\<close> on one path. This is shown for every
    example program with one connection, for the two servers with ten and their clients, and for both programs of the hash table. A file that is
    too small is unmapped twice by the programs that map one.
  \<^item> Types: calls with arguments of the declared types cannot go wrong and keep all types.
  \<^item> Persistence: the signature of a file survives a power failure only with complete contents; so does the log of the
    atomic-write example, to which a word is appended so that its server prints the old or the new list, wherever the client is
    interrupted; a greeting that was received, and a range whose flush was confirmed to the client, are durable.
  \<^item> Communication: a region that is described is rebuilt as it was; a client and a server of the ping-pong whose messages reach each other count up
    by one per round and never wrap around, and the client ends with every provider that reports each request it was given and
    nothing else; immediate data arrives as the number on the command line.
  \<^item> The event loop: for any number of events the slots, connections and watched descriptors agree, every name
    is read to the place of its slot; an eleventh client is given the slot of the tenth, whose connection is lost.
  \<^item> Functional behaviour: what each data operation posts, as address ranges of the two regions;
    which arguments are refused; how events and completions are reported and acknowledged; that
    descriptors survive the trip between peers; that the access rights asked for are the needed
    ones; where a log message goes.
  \<^item> Refinement: the hash table is a map, under lookups, insertions, removals and resizing;
    connection configurations are registers; concurrent log setters are atomic, and a setter that
    has to try again was overtaken by one that succeeded.
  \<^item> The remote hash table: a table whose strings fit is written without leaving its image, and
    what the image answers is what the table answers; a client whose reads are served from the
    image answers every key of its trace as the table does.
  \<^item> Bounds and termination: queue sizes, completion counts and buffers; the displacement loop of
    the table; the retry loops of logging; the loops of the clients.

  \<^bold>\<open>Bounds of the model.\<close> The table is resized to fewer than
  \<open>2 ^ 60\<close> buckets, so that sizes in bytes do not wrap; the fault counter is called fewer than
  \<open>INT_MAX\<close> times, beyond which it overflows; the ranges of a transfer lie in their regions and
  have a length below \<open>2 ^ 32\<close>, since the source keeps only 32 bits of a length. Three loops have no bound in the source and are
  run for a number of steps, \<open>None\<close> meaning that the loop is still running: the event loop (any number of events), the loop of
  the message servers (any number of rounds) and the wait for completions of the ping-pong, for which it is shown that
  with a provider that conforms a number of steps is enough; theorems about them hold for every number. The theorems about the programs name what they need of
  the outside: that events are well formed (\<open>events_wf\<close>), that a file that can be mapped has the needed size
  (\<open>file_fits\<close>, \<open>log_fits\<close>), that private data and messages of the other side stay in bounds where the code does not check it
  (\<open>cfg_in_bounds\<close>, \<open>requests_fit\<close>, the counter of the log, the terminator of a word), that epoll reports what is watched
  and a full server is not asked for another slot (\<open>epoll_reports\<close>, \<open>room_for_clients\<close>).

  \<^bold>\<open>Not modelled.\<close> The provider libraries, libpmem and libprotobuf-c are not part of the repository and are the parameter
  \<open>E\<close> or parameters of their own. Log calls and traces inside the functions of the library are left out, which have no
  influence on their results, and so is the fault-injection macro, which is empty in a production
  build; \<open>rpma_snprintf_gid\<close> is modelled although its result is only logged. The memory behind
  registered regions is modelled where a property is about it: what the other side has placed in a buffer is an argument
  \<open>dma\<close>, a function of the calls so far, and its writes to a mapped file are stores; in \<open>Log_Props\<close> the posted work requests are
  executed on the memory of the other side. Trace files, pauses and most of the printing are left out; what the server of the log, the
  message servers and the first immediate-data server print is part of their results. The clients of the hash table
  that run several threads share their buffers without synchronisation and are not modelled. Neither are
  the example of a logging function and the mapping functions for libpmem2. The tests and the tools are not part of the library.
\<close>

section \<open>Properties that span components\<close>

text \<open>C1: what one side registers is what the other side writes to. A region is described by the side
  that registered it, the description is sent in any buffer of sufficient size, and the other side
  makes a remote region of it. A write of the other side to a range inside that region then posts one
  work request whose remote range is that range of the registered memory, with the key of the
  registration: the address arithmetic of both sides agrees and nothing wraps.\<close>

theorem remote_write_hits_registered_memory:
  assumes "obj_at mr (O_mr_local m) s" and "usage_valid (mrl_usage m)" and "RPMA_MR_DESC_SIZE \<le> length buf"
    and "unat (mr_addr (mrl_ibv_mr m)) + unat (mr_length (mrl_ibv_mr m)) \<le> 2 ^ 64"
    and "obj_at k (O_conn c) t" and "obj_at src (O_mr_local d) t" and "flags \<noteq> 0"
    and "local_fits d src_off len" and "unat off + unat len \<le> unat (mr_length (mrl_ibv_mr m))" and "unat len < 2 ^ 32"
  shows "\<exists>buf'. rpma_mr_get_descriptor mr (Some buf) s = Some ((0, Some buf'), s) \<and>
     wp (rpma_mr_remote_from_descriptor E (Some buf') (length buf') (Some x) t) (\<lambda>(ret, out) t'. malloc_ok E t \<longrightarrow>
       ret = 0 \<and> (\<exists>wr. posts E c wr t' (rpma_write E k (the out) off src src_off len flags ctx t') \<and>
         remote_span wr = mr_local_span m (unat off) (unat len) \<and>
         local_span wr = mr_local_span d (unat src_off) (unat len) \<and>
         map_option snd (wr_rdma wr) = Some (mr_rkey (mrl_ibv_mr m))))"
proof -
  let ?d = "mr_descriptor m @ drop RPMA_MR_DESC_SIZE buf"
  let ?m = "\<lparr>mrr_raddr = mr_addr (mrl_ibv_mr m), mrr_size = mr_length (mrl_ibv_mr m),
    mrr_rkey = mr_rkey (mrl_ibv_mr m), mrr_usage = mrl_usage m\<rparr>"
  have fits: "remote_fits ?m off len" using assms(4,9) by (simp add: remote_fits_def)
  have "\<exists>wr. posts E c wr t' (rpma_write E k q off src src_off len flags ctx t') \<and>
         remote_span wr = mr_local_span m (unat off) (unat len) \<and>
         local_span wr = mr_local_span d (unat src_off) (unat len) \<and>
         map_option snd (wr_rdma wr) = Some (mr_rkey (mrl_ibv_mr m))"
    if "fresh q t" "mem t' = (mem t)(q \<mapsto> O_mr_remote ?m)" for q t'
  proof -
    have o: "obj_at k (O_conn c) t'" "obj_at src (O_mr_local d) t'" "obj_at q (O_mr_remote ?m) t'"
      using that assms(5,6) by (auto simp: obj_at_def fresh_def)
    show ?thesis
      by (rule exI, intro conjI, rule rpma_write_posts(1) [OF o assms(7)])
         (use rdma_wr_spans [OF assms(8) fits assms(10)] in \<open>simp_all add: mr_remote_span_def mr_local_span_def\<close>)
  qed
  then have "wp (rpma_mr_remote_from_descriptor E (Some ?d) (length ?d) (Some x) t) (\<lambda>(ret, out) t'. malloc_ok E t \<longrightarrow>
       ret = 0 \<and> (\<exists>wr. posts E c wr t' (rpma_write E k (the out) off src src_off len flags ctx t') \<and>
         remote_span wr = mr_local_span m (unat off) (unat len) \<and>
         local_span wr = mr_local_span d (unat src_off) (unat len) \<and>
         map_option snd (wr_rdma wr) = Some (mr_rkey (mrl_ibv_mr m))))"
    using assms(3) by (intro wp_rpma_mr_remote_from_descriptor [OF _ refl assms(2)]) simp_all
  with rpma_mr_get_descriptor_eq [OF assms(1,3)] show ?thesis by blast
qed

theorem remote_write_hits_registered_memory_witness:
  "\<exists>buf'. rpma_mr_get_descriptor 47 (Some (replicate 21 0)) sample_st = Some ((0, Some buf'), sample_st) \<and>
     wp (rpma_mr_remote_from_descriptor sample_env (Some buf') (length buf') (Some 0) sample_st) (\<lambda>(ret, out) t'.
       ret = 0 \<and> (\<exists>wr. remote_span wr = {4128 ..< 4192} \<and>
         posts sample_env sample_conn wr t' (rpma_write sample_env 50 (the out) 32 47 16 64 2 5 t')))"
proof -
  have m: "malloc_ok sample_env sample_st"
    by (simp add: malloc_ok_def sample_respond_def fresh_def sample_st_def sample_trace_def CONN_CFG_DEFAULT_ADDR_def)
  have u: "usage_valid (mrl_usage sample_mr)" by (simp add: sample_mr_def)
  from remote_write_hits_registered_memory [OF sample_objs(5) u _ _ sample_objs(1,5), of "replicate 21 0" 2 16 64 32 sample_env 0 5]
    sample_fits(1) m
  show ?thesis
    by (fastforce simp: RPMA_MR_DESC_SIZE_def sample_mr_def sample_ibv_mr_def mr_local_span_def elim!: wp_mono)
qed

end
